(* ===== verification/Prelude.thy ===== *)
theory Prelude
  imports Complex_Main "HOL-Library.Word" "HOL-Library.AList" "HOL-Library.Multiset"
begin

text \<open>
  What every component shares: the machine types of the C code, the collections of facts the
  component proofs are driven by, the association-list view of a \<open>dict_t\<close>, and generic
  lemmas on lists and maps.
\<close>

section \<open>Machine types\<close>

type_synonym u32 = "32 word"
type_synonym u64 = "64 word"

text \<open>A timestamp: \<open>current_timestamp\<close> returns a \<open>double\<close>, a dyadic rational number.\<close>

type_synonym timestamp = rat

text \<open>
  \<open>frames\<close> collects the facts that an operation leaves a part of the state alone,
  \<open>mpd_simps\<close> the equations about decimal values, \<open>state_simps\<close> the unfoldings of the small
  operations that only build or log a value.
\<close>

named_theorems frames
named_theorems mpd_simps
named_theorems state_simps

section \<open>A dictionary as an association list\<close>

text \<open>
  \<open>utils/ut_dict.c\<close> keeps its entries in buckets. Clients see a finite map with an iteration
  order; the list of the entries is that view. Adding puts the entry at the front (the code
  puts it at the head of its bucket), a value is overwritten in place, deletion drops the key.
\<close>

type_synonym ('k, 'v) dict_view = "('k \<times> 'v) list"

abbreviation dv_find :: "('k, 'v) dict_view \<Rightarrow> 'k \<Rightarrow> 'v option" where
  "dv_find d k \<equiv> map_of d k"

definition dv_add :: "'k \<Rightarrow> 'v \<Rightarrow> ('k, 'v) dict_view \<Rightarrow> ('k, 'v) dict_view option" where
  "dv_add k v d = (case dv_find d k of None \<Rightarrow> Some ((k, v) # d) | Some _ \<Rightarrow> None)"

definition dv_put :: "'k \<Rightarrow> 'v \<Rightarrow> ('k, 'v) dict_view \<Rightarrow> ('k, 'v) dict_view" where
  "dv_put k v d = (case dv_find d k of None \<Rightarrow> (k, v) # d | Some _ \<Rightarrow> AList.update k v d)"

definition dv_delete :: "'k \<Rightarrow> ('k, 'v) dict_view \<Rightarrow> ('k, 'v) dict_view" where
  "dv_delete k d = filter (\<lambda>e. fst e \<noteq> k) d"

definition dv_wf :: "('k, 'v) dict_view \<Rightarrow> bool" where
  "dv_wf d \<longleftrightarrow> distinct (map fst d)"

lemma dv_find_put [simp]: "dv_find (dv_put k v d) k' = (if k' = k then Some v else dv_find d k')"
  by (simp add: dv_put_def update_conv' split: option.split)

lemma dv_find_delete [simp]: "dv_find (dv_delete k d) k' = (if k' = k then None else dv_find d k')"
  by (induction d) (auto simp: dv_delete_def)

lemma dv_find_map: "dv_find (map (\<lambda>(k, v). (k, f v)) d) k = map_option f (dv_find d k)"
  by (induction d) auto

lemma dv_wf_nil [simp]: "dv_wf []"
  by (simp add: dv_wf_def)

lemma dv_wf_put [simp]: "dv_wf d \<Longrightarrow> dv_wf (dv_put k v d)"
  by (auto simp: dv_wf_def dv_put_def distinct_update map_of_eq_None_iff split: option.split)

lemma dv_wf_delete [simp]: "dv_wf d \<Longrightarrow> dv_wf (dv_delete k d)"
  by (induction d) (auto simp: dv_wf_def dv_delete_def)

section \<open>Sums over a dictionary\<close>

text \<open>The sum of a weight over the entries, and how one overwritten entry changes it.\<close>

definition dv_sum :: "('k \<Rightarrow> 'v \<Rightarrow> 'n::ab_group_add) \<Rightarrow> ('k, 'v) dict_view \<Rightarrow> 'n" where
  "dv_sum f d = sum_list (map (\<lambda>(k, v). f k v) d)"

definition dv_weight :: "('k \<Rightarrow> 'v \<Rightarrow> 'n::ab_group_add) \<Rightarrow> ('k, 'v) dict_view \<Rightarrow> 'k \<Rightarrow> 'n" where
  "dv_weight f d k = (case dv_find d k of None \<Rightarrow> 0 | Some v \<Rightarrow> f k v)"

lemma dv_sum_Nil [simp]: "dv_sum f [] = 0"
  by (simp add: dv_sum_def)

lemma dv_sum_Cons [simp]: "dv_sum f ((k, v) # d) = f k v + dv_sum f d"
  by (simp add: dv_sum_def)

lemma dv_sum_delete: "dv_wf d \<Longrightarrow> dv_sum f (dv_delete k d) = dv_sum f d - dv_weight f d k"
proof (induction d)
  case Nil
  then show ?case by (simp add: dv_delete_def dv_weight_def)
next
  case (Cons e d)
  obtain k' v where e: "e = (k', v)" by fastforce
  from Cons.prems e have wf: "dv_wf d" and new: "k' \<notin> fst ` set d"
    by (auto simp: dv_wf_def)
  have del: "dv_delete k (e # d) = (if k' = k then dv_delete k d else e # dv_delete k d)"
    by (simp add: e dv_delete_def)
  show ?case
  proof (cases "k' = k")
    case True
    with new have "dv_find d k = None"
      by (simp add: map_of_eq_None_iff)
    with True Cons.IH [OF wf] e del show ?thesis
      by (simp add: dv_weight_def)
  next
    case False
    with Cons.IH [OF wf] e del show ?thesis
      by (simp add: dv_weight_def)
  qed
qed

lemma dv_sum_update: "distinct (map fst d) \<Longrightarrow> dv_find d k = Some w \<Longrightarrow>
  dv_sum f (AList.update k v d) = dv_sum f d - f k w + f k v"
  by (induction d) (auto simp: map_of_eq_Some_iff)

lemma dv_sum_put: "dv_wf d \<Longrightarrow> dv_sum f (dv_put k v d) = dv_sum f d - dv_weight f d k + f k v"
  by (auto simp: dv_put_def dv_weight_def dv_wf_def dv_sum_update split: option.split)

section \<open>Decimal numerals\<close>

text \<open>What \<open>printf\<close> writes for \<open>%u\<close>, \<open>%zu\<close> and \<open>PRIu64\<close>: the decimal digits, no leading zero.\<close>

definition digit_char :: "nat \<Rightarrow> char" where
  "digit_char d = char_of (48 + d)"

fun nat_digits :: "nat \<Rightarrow> string" where
  "nat_digits n = (if n < 10 then [digit_char n] else nat_digits (n div 10) @ [digit_char (n mod 10)])"

declare nat_digits.simps [simp del]

definition int_digits :: "int \<Rightarrow> string" where
  "int_digits i = (if i < 0 then CHR ''-'' # nat_digits (nat (- i)) else nat_digits (nat i))"

definition digit_value :: "char \<Rightarrow> nat option" where
  "digit_value c = (let v = of_char c in if 48 \<le> v \<and> v \<le> (57::nat) then Some (v - 48) else None)"

fun digits_value :: "nat \<Rightarrow> string \<Rightarrow> nat option" where
  "digits_value acc [] = Some acc"
| "digits_value acc (c # cs) =
     (case digit_value c of None \<Rightarrow> None | Some d \<Rightarrow> digits_value (10 * acc + d) cs)"

lemma digit_value_char [simp]: "d < 10 \<Longrightarrow> digit_value (digit_char d) = Some d"
  by (simp add: digit_value_def digit_char_def Let_def)

lemma digit_char_simps [simp]:
  "digit_char 0 = CHR ''0''" "digit_char 1 = CHR ''1''" "digit_char 2 = CHR ''2''"
  "digit_char 3 = CHR ''3''" "digit_char 4 = CHR ''4''" "digit_char 5 = CHR ''5''"
  "digit_char 6 = CHR ''6''" "digit_char 7 = CHR ''7''" "digit_char 8 = CHR ''8''"
  "digit_char 9 = CHR ''9''" "digit_char (Suc 0) = CHR ''1''"
  by (simp_all add: digit_char_def char_of_eq_iff)

lemma digits_value_append:
  "digits_value acc (xs @ ys) = (case digits_value acc xs of None \<Rightarrow> None | Some a \<Rightarrow> digits_value a ys)"
  by (induction xs arbitrary: acc) (auto split: option.split)

lemma digits_value_digits: "digits_value 0 (nat_digits n) = Some n"
proof (induction n rule: nat_digits.induct)
  case (1 n)
  then show ?case
    by (cases "n < 10") (simp_all add: nat_digits.simps [of n] digits_value_append)
qed

lemma nat_digits_inj [simp]: "nat_digits m = nat_digits n \<longleftrightarrow> m = n"
  by (metis digits_value_digits option.inject)

lemma nat_digits_nonempty [simp]: "nat_digits n \<noteq> []"
  by (simp add: nat_digits.simps [of n])

end
