(* ===== verification/Decimal.thy ===== *)
theory Decimal
  imports Prelude
begin

text \<open>
  \<open>utils/ut_decimal.c\<close>: the decimal context, parsing and printing of amounts. The arithmetic
  itself is libmpdec, which is not part of the repository: its operations are the fields of a
  record that every definition takes as an argument, and what the code relies on is the named
  hypothesis \<open>mpd_laws\<close>.
\<close>

section \<open>The operations of libmpdec the code calls\<close>

text \<open>
  One field per call, all under the context \<open>mpd_ctx\<close> that \<open>init_mpd\<close> sets up (IEEE decimal128,
  rounding down). \<open>mpd_set_string\<close> also says whether the status of the context was exactly
  \<open>MPD_Conversion_syntax\<close> after the call.
\<close>

record 'd mpd_lib =
  mpd_cmp :: "'d \<Rightarrow> 'd \<Rightarrow> int"
  mpd_add :: "'d \<Rightarrow> 'd \<Rightarrow> 'd"
  mpd_sub :: "'d \<Rightarrow> 'd \<Rightarrow> 'd"
  mpd_mul :: "'d \<Rightarrow> 'd \<Rightarrow> 'd"
  mpd_div :: "'d \<Rightarrow> 'd \<Rightarrow> 'd"
  mpd_divmod :: "'d \<Rightarrow> 'd \<Rightarrow> 'd \<times> 'd"
  mpd_pow :: "'d \<Rightarrow> 'd \<Rightarrow> 'd"
  mpd_abs :: "'d \<Rightarrow> 'd"
  mpd_copy_negate :: "'d \<Rightarrow> 'd"
  mpd_rescale :: "'d \<Rightarrow> int \<Rightarrow> 'd"
  mpd_set_i32 :: "int \<Rightarrow> 'd"
  mpd_set_string :: "string \<Rightarrow> 'd \<times> bool"
  mpd_to_sci :: "'d \<Rightarrow> string"

section \<open>The globals of \<open>init_mpd\<close>\<close>

definition mpd_one :: "'d mpd_lib \<Rightarrow> 'd" where
  "mpd_one D = fst (mpd_set_string D ''1'')"

definition mpd_ten :: "'d mpd_lib \<Rightarrow> 'd" where
  "mpd_ten D = fst (mpd_set_string D ''10'')"

definition mpd_zero :: "'d mpd_lib \<Rightarrow> 'd" where
  "mpd_zero D = fst (mpd_set_string D ''0'')"

section \<open>Parsing and printing\<close>

definition decimal :: "'d mpd_lib \<Rightarrow> string \<Rightarrow> int \<Rightarrow> 'd option" where
  "decimal D str prec =
     (let (result, conversion_syntax) = mpd_set_string D str in
      if conversion_syntax then None
      else if prec \<noteq> 0 then Some (mpd_rescale D result (- prec))
      else Some result)"

text \<open>
  \<open>rstripzero\<close>: the loop runs from the last character and drops zeros; what is left may end in
  the point. A string with an exponent or without a point is returned as it is.
\<close>

definition rstripzero :: "string \<Rightarrow> string" where
  "rstripzero str =
     (if CHR ''e'' \<in> set str then str
      else if CHR ''.'' \<notin> set str then str
      else let kept = rev (dropWhile (\<lambda>c. c = CHR ''0'') (rev str)) in
           if last kept = CHR ''.'' then butlast kept else kept)"

definition mpd_string :: "'d mpd_lib \<Rightarrow> 'd \<Rightarrow> string" where
  "mpd_string D value = rstripzero (mpd_to_sci D value)"

section \<open>The documented behaviour of libmpdec\<close>

text \<open>
  \<open>val\<close> reads a decimal as the rational number it stands for, \<open>None\<close> for a NaN or an infinity.
  A rational number fits the format when it has at most 34 digits and an exponent in range.
\<close>

definition fits :: "rat \<Rightarrow> bool" where
  "fits x \<longleftrightarrow> (\<exists>c e. x = of_int c * 10 powi e \<and> \<bar>c\<bar> < 10 ^ 34 \<and> - 6176 \<le> e \<and> e \<le> 6111)"

text \<open>
  The result of an operation in the context: never further from zero than the exact result
  (\<open>MPD_ROUND_DOWN\<close>; an overflow gives the largest number of the format, not an infinity), and
  the exact result when that fits.
\<close>

definition rounds :: "rat \<Rightarrow> rat \<Rightarrow> bool" where
  "rounds z x \<longleftrightarrow> (0 \<le> x \<longrightarrow> 0 \<le> z \<and> z \<le> x) \<and> (x \<le> 0 \<longrightarrow> x \<le> z \<and> z \<le> 0) \<and> (fits x \<longrightarrow> z = x)"

definition trunc_dec :: "nat \<Rightarrow> rat \<Rightarrow> rat" where
  "trunc_dec p x = (if 0 \<le> x then of_int \<lfloor>x * 10 ^ p\<rfloor> / 10 ^ p else - (of_int \<lfloor>- x * 10 ^ p\<rfloor> / 10 ^ p))"

text \<open>
  \<open>mpd_rescale\<close> does not look at the precision of the context, only at its rounding: for the
  exponents a configuration can ask for it truncates. \<open>mpd_divmod\<close> is used with non-negative
  arguments. \<open>mpd_pow\<close> is used with base ten and an integer exponent.
\<close>

definition max_prec :: int where
  "max_prec = 1000"

definition mpd_arith_laws :: "'d mpd_lib \<Rightarrow> ('d \<Rightarrow> rat option) \<Rightarrow> bool" where
  "mpd_arith_laws D val \<longleftrightarrow>
     (\<forall>a b x y. val a = Some x \<longrightarrow> val b = Some y \<longrightarrow>
        mpd_cmp D a b = (if x < y then - 1 else if x = y then 0 else 1)
      \<and> (\<exists>z. val (mpd_add D a b) = Some z \<and> rounds z (x + y))
      \<and> (\<exists>z. val (mpd_sub D a b) = Some z \<and> rounds z (x - y))
      \<and> (\<exists>z. val (mpd_mul D a b) = Some z \<and> rounds z (x * y))
      \<and> (0 \<le> x \<longrightarrow> 0 < y \<longrightarrow> (\<exists>z. val (mpd_div D a b) = Some z \<and> 0 \<le> z \<and> z \<le> x / y)))"

definition mpd_unary_laws :: "'d mpd_lib \<Rightarrow> ('d \<Rightarrow> rat option) \<Rightarrow> bool" where
  "mpd_unary_laws D val \<longleftrightarrow>
     (\<forall>a x. val a = Some x \<longrightarrow>
        (\<exists>z. val (mpd_abs D a) = Some z \<and> rounds z \<bar>x\<bar>)
      \<and> val (mpd_copy_negate D a) = Some (- x)
      \<and> (\<forall>p. 0 \<le> p \<longrightarrow> p \<le> max_prec \<longrightarrow> val (mpd_rescale D a (- p)) = Some (trunc_dec (nat p) x)))"

definition mpd_const_laws :: "'d mpd_lib \<Rightarrow> ('d \<Rightarrow> rat option) \<Rightarrow> bool" where
  "mpd_const_laws D val \<longleftrightarrow>
     val (mpd_zero D) = Some 0 \<and> val (mpd_one D) = Some 1 \<and> val (mpd_ten D) = Some 10
   \<and> (\<forall>i. \<bar>i\<bar> \<le> max_prec \<longrightarrow> val (mpd_set_i32 D i) = Some (of_int i))
   \<and> (\<forall>t i. \<bar>i\<bar> \<le> max_prec \<longrightarrow> val t = Some (of_int i) \<longrightarrow> val (mpd_pow D (mpd_ten D) t) = Some (10 powi i))"

definition mpd_laws :: "'d mpd_lib \<Rightarrow> ('d \<Rightarrow> rat option) \<Rightarrow> bool" where
  "mpd_laws D val \<longleftrightarrow> mpd_arith_laws D val \<and> mpd_unary_laws D val \<and> mpd_const_laws D val"

subsection \<open>Using the laws\<close>

lemma mpd_cmp_val:
  "mpd_laws D val \<Longrightarrow> val a = Some x \<Longrightarrow> val b = Some y \<Longrightarrow>
     mpd_cmp D a b = (if x < y then - 1 else if x = y then 0 else 1)"
  unfolding mpd_laws_def mpd_arith_laws_def by blast

lemma mpd_zero_val [simp]: "mpd_laws D val \<Longrightarrow> val (mpd_zero D) = Some 0"
  by (simp add: mpd_laws_def mpd_const_laws_def)

lemma mpd_one_val [simp]: "mpd_laws D val \<Longrightarrow> val (mpd_one D) = Some 1"
  by (simp add: mpd_laws_def mpd_const_laws_def)

lemma mpd_add_val:
  "mpd_laws D val \<Longrightarrow> val a = Some x \<Longrightarrow> val b = Some y \<Longrightarrow>
     \<exists>z. val (mpd_add D a b) = Some z \<and> rounds z (x + y)"
  unfolding mpd_laws_def mpd_arith_laws_def by blast

lemma mpd_sub_val:
  "mpd_laws D val \<Longrightarrow> val a = Some x \<Longrightarrow> val b = Some y \<Longrightarrow>
     \<exists>z. val (mpd_sub D a b) = Some z \<and> rounds z (x - y)"
  unfolding mpd_laws_def mpd_arith_laws_def by blast

lemma mpd_mul_val:
  "mpd_laws D val \<Longrightarrow> val a = Some x \<Longrightarrow> val b = Some y \<Longrightarrow>
     \<exists>z. val (mpd_mul D a b) = Some z \<and> rounds z (x * y)"
  unfolding mpd_laws_def mpd_arith_laws_def by blast

lemma mpd_div_val:
  "mpd_laws D val \<Longrightarrow> val a = Some x \<Longrightarrow> val b = Some y \<Longrightarrow> 0 \<le> x \<Longrightarrow> 0 < y \<Longrightarrow>
     \<exists>z. val (mpd_div D a b) = Some z \<and> 0 \<le> z \<and> z \<le> x / y"
  unfolding mpd_laws_def mpd_arith_laws_def by blast

lemma mpd_abs_val:
  "mpd_laws D val \<Longrightarrow> val a = Some x \<Longrightarrow> \<exists>z. val (mpd_abs D a) = Some z \<and> rounds z \<bar>x\<bar>"
  unfolding mpd_laws_def mpd_unary_laws_def by blast

lemma mpd_negate_val: "mpd_laws D val \<Longrightarrow> val a = Some x \<Longrightarrow> val (mpd_copy_negate D a) = Some (- x)"
  unfolding mpd_laws_def mpd_unary_laws_def by blast

lemma mpd_rescale_val:
  "mpd_laws D val \<Longrightarrow> val a = Some x \<Longrightarrow> 0 \<le> p \<Longrightarrow> p \<le> max_prec \<Longrightarrow>
     val (mpd_rescale D a (- p)) = Some (trunc_dec (nat p) x)"
  unfolding mpd_laws_def mpd_unary_laws_def by blast

lemma mpd_pow_ten_val:
  "mpd_laws D val \<Longrightarrow> \<bar>i\<bar> \<le> max_prec \<Longrightarrow> val (mpd_pow D (mpd_ten D) (mpd_set_i32 D i)) = Some (10 powi i)"
  unfolding mpd_laws_def mpd_const_laws_def by blast

lemma rounds_nonneg: "rounds z x \<Longrightarrow> 0 \<le> x \<Longrightarrow> 0 \<le> z \<and> z \<le> x"
  by (simp add: rounds_def)

lemma rounds_fits: "rounds z x \<Longrightarrow> fits x \<Longrightarrow> z = x"
  by (simp add: rounds_def)

lemma fits_0 [simp]: "fits 0"
  unfolding fits_def by (rule exI [of _ 0], rule exI [of _ 0]) simp

lemma rounds_0 [simp]: "rounds z 0 \<longleftrightarrow> z = 0"
  by (auto simp: rounds_def)

lemma rounds_refl [simp]: "rounds x x"
  by (simp add: rounds_def)

text \<open>A fixed-point number of few enough digits fits: what an amount with \<open>p\<close> decimals is.\<close>

definition on_grid :: "nat \<Rightarrow> rat \<Rightarrow> bool" where
  "on_grid p x \<longleftrightarrow> (\<exists>k. x = of_int k / 10 ^ p)"

lemma grid_fits: "on_grid p x \<Longrightarrow> p \<le> 1000 \<Longrightarrow> \<bar>x\<bar> * 10 ^ p < 10 ^ 34 \<Longrightarrow> fits x"
proof -
  assume grid: "on_grid p x" and p: "p \<le> 1000" and b: "\<bar>x\<bar> * 10 ^ p < 10 ^ 34"
  from grid obtain k :: int where k: "x = of_int k / 10 ^ p"
    by (auto simp: on_grid_def)
  from b k have "of_int \<bar>k\<bar> < (of_int (10 ^ 34) :: rat)"
    by simp
  then have "\<bar>k\<bar> < 10 ^ 34"
    by (simp only: of_int_less_iff)
  moreover have "x = of_int k * 10 powi (- int p)"
    by (simp add: k power_int_minus field_simps)
  ultimately show "fits x"
    using p unfolding fits_def by (intro exI [of _ k] exI [of _ "- int p"]) simp
qed

subsection \<open>Truncation\<close>

lemma trunc_dec_bounds: "0 \<le> x \<Longrightarrow> 0 \<le> trunc_dec p x \<and> trunc_dec p x \<le> x"
  by (simp add: trunc_dec_def field_simps)

lemma trunc_dec_lower: "0 \<le> x \<Longrightarrow> x - 1 / 10 ^ p < trunc_dec p x"
proof -
  assume "0 \<le> x"
  have "x * 10 ^ p < of_int \<lfloor>x * 10 ^ p\<rfloor> + 1"
    by linarith
  then have "x < (of_int \<lfloor>x * 10 ^ p\<rfloor> + 1) / 10 ^ p"
    by (simp add: field_simps)
  with \<open>0 \<le> x\<close> show ?thesis
    by (simp add: trunc_dec_def add_divide_distrib)
qed

lemma on_grid_trunc [simp]: "on_grid p (trunc_dec p x)"
proof -
  have "- (of_int \<lfloor>- x * 10 ^ p\<rfloor> / 10 ^ p) = (of_int (- \<lfloor>- x * 10 ^ p\<rfloor>) :: rat) / 10 ^ p"
    by simp
  then show ?thesis
    unfolding on_grid_def trunc_dec_def by metis
qed

lemma trunc_dec_grid: "on_grid p x \<Longrightarrow> trunc_dec p x = x"
  by (auto simp: on_grid_def trunc_dec_def simp flip: of_int_minus)

lemma on_grid_0 [simp]: "on_grid p 0"
  unfolding on_grid_def by (rule exI [of _ 0]) simp

lemma on_grid_add: "on_grid p x \<Longrightarrow> on_grid p y \<Longrightarrow> on_grid p (x + y)"
  unfolding on_grid_def by (metis add_divide_distrib of_int_add)

lemma on_grid_diff: "on_grid p x \<Longrightarrow> on_grid p y \<Longrightarrow> on_grid p (x - y)"
  unfolding on_grid_def by (metis diff_divide_distrib of_int_diff)

lemma on_grid_mult: "on_grid p x \<Longrightarrow> on_grid q y \<Longrightarrow> on_grid (p + q) (x * y)"
  unfolding on_grid_def by (metis of_int_mult power_add times_divide_times_eq)

lemma on_grid_mono: "on_grid p x \<Longrightarrow> p \<le> q \<Longrightarrow> on_grid q x"
proof -
  assume "on_grid p x" and "p \<le> q"
  then obtain k :: int where k: "x = of_int k / 10 ^ p"
    by (auto simp: on_grid_def)
  have "(10::rat) ^ q = 10 ^ p * 10 ^ (q - p)"
    using \<open>p \<le> q\<close> by (simp flip: power_add)
  then have "x = of_int (k * 10 ^ (q - p)) / 10 ^ q"
    by (simp add: k)
  then show ?thesis
    unfolding on_grid_def by blast
qed

end
