(* ===== verification/Json.thy ===== *)
theory Json
  imports Decimal
begin

text \<open>
  JSON values as the handlers see them, with the documented behaviour of the jansson accessors:
  an accessor applied to a missing value or a value of another kind gives the default of its
  type. Reading and writing JSON text (\<open>json_loadb\<close>, \<open>json_dumps\<close>) is not modelled here; the
  operations that need it take it as an argument.
\<close>

datatype json =
    JNull
  | JBool bool
  | JInteger int
  | JReal rat
  | JString string
  | JArray "json list"
  | JObject "(string \<times> json) list"

section \<open>Reading\<close>

text \<open>A \<open>json_t *\<close> may be \<open>NULL\<close>: the result of a failed lookup is \<open>None\<close>.\<close>

fun json_array_size :: "json \<Rightarrow> nat" where
  "json_array_size (JArray xs) = length xs"
| "json_array_size _ = 0"

fun json_array_get :: "json \<Rightarrow> nat \<Rightarrow> json option" where
  "json_array_get (JArray xs) i = (if i < length xs then Some (xs ! i) else None)"
| "json_array_get _ _ = None"

fun json_object_get :: "json \<Rightarrow> string \<Rightarrow> json option" where
  "json_object_get (JObject kvs) key = map_of kvs key"
| "json_object_get _ _ = None"

fun json_is_integer :: "json option \<Rightarrow> bool" where
  "json_is_integer (Some (JInteger _)) = True"
| "json_is_integer _ = False"

fun json_is_string :: "json option \<Rightarrow> bool" where
  "json_is_string (Some (JString _)) = True"
| "json_is_string _ = False"

fun json_is_object :: "json option \<Rightarrow> bool" where
  "json_is_object (Some (JObject _)) = True"
| "json_is_object _ = False"

fun json_is_array :: "json option \<Rightarrow> bool" where
  "json_is_array (Some (JArray _)) = True"
| "json_is_array _ = False"

fun json_integer_value :: "json option \<Rightarrow> int" where
  "json_integer_value (Some (JInteger i)) = i"
| "json_integer_value _ = 0"

fun json_real_value :: "json option \<Rightarrow> rat" where
  "json_real_value (Some (JReal r)) = r"
| "json_real_value _ = 0"

fun json_string_value :: "json option \<Rightarrow> string option" where
  "json_string_value (Some (JString s)) = Some s"
| "json_string_value _ = None"

text \<open>\<open>json_string_value\<close> after a successful \<open>json_is_string\<close> test.\<close>

definition json_str :: "json option \<Rightarrow> string" where
  "json_str j = (case json_string_value j of Some s \<Rightarrow> s | None \<Rightarrow> [])"

lemma json_is_integerE: "json_is_integer j \<Longrightarrow> (\<And>i. j = Some (JInteger i) \<Longrightarrow> P) \<Longrightarrow> P"
  by (cases j rule: json_is_integer.cases) auto

lemma json_is_stringE: "json_is_string j \<Longrightarrow> (\<And>s. j = Some (JString s) \<Longrightarrow> P) \<Longrightarrow> P"
  by (cases j rule: json_is_string.cases) auto

lemma json_is_objectE: "json_is_object j \<Longrightarrow> (\<And>kvs. j = Some (JObject kvs) \<Longrightarrow> P) \<Longrightarrow> P"
  by (cases j rule: json_is_object.cases) auto

section \<open>Building\<close>

text \<open>\<open>json_object_set_new\<close> replaces the value of a key that is present and appends otherwise.\<close>

fun json_object_set :: "json \<Rightarrow> string \<Rightarrow> json \<Rightarrow> json" where
  "json_object_set (JObject kvs) key v = JObject (AList.update key v kvs)"
| "json_object_set j _ _ = j"

text \<open>A \<open>NULL\<close> value (what \<open>json_string(NULL)\<close> gives) is refused and the object is unchanged.\<close>

definition json_object_set_opt :: "json \<Rightarrow> string \<Rightarrow> json option \<Rightarrow> json" where
  "json_object_set_opt j key v = (case v of Some x \<Rightarrow> json_object_set j key x | None \<Rightarrow> j)"

fun json_array_append :: "json \<Rightarrow> json \<Rightarrow> json" where
  "json_array_append (JArray xs) v = JArray (xs @ [v])"
| "json_array_append j _ = j"

text \<open>A \<open>json_int_t\<close> is a signed 64-bit integer: an unsigned 64-bit identifier is reinterpreted.\<close>

definition json_u64 :: "u64 \<Rightarrow> json" where
  "json_u64 w = JInteger (sint w)"

definition json_u32 :: "u32 \<Rightarrow> json" where
  "json_u32 w = JInteger (uint w)"

definition json_object_set_new_mpd :: "'d mpd_lib \<Rightarrow> json \<Rightarrow> string \<Rightarrow> 'd \<Rightarrow> json" where
  "json_object_set_new_mpd D obj key v = json_object_set obj key (JString (mpd_string D v))"

definition json_array_append_new_mpd :: "'d mpd_lib \<Rightarrow> json \<Rightarrow> 'd \<Rightarrow> json" where
  "json_array_append_new_mpd D obj v = json_array_append obj (JString (mpd_string D v))"

end
