(* ===== verification/Balance.thy ===== *)
theory Balance
  imports Json
begin

text \<open>
  \<open>matchengine/me_balance.c\<close>: the two dictionaries of the process, assets with their precisions
  and balances by user, type and asset, and the operations on them. A pointer result is an
  option, \<open>None\<close> for \<open>NULL\<close>; the value is what the returned pointer points to.
\<close>

section \<open>State\<close>

record asset_type =
  prec_save :: int
  prec_show :: int

definition BALANCE_TYPE_AVAILABLE :: u32 where
  "BALANCE_TYPE_AVAILABLE = 1"

definition BALANCE_TYPE_FREEZE :: u32 where
  "BALANCE_TYPE_FREEZE = 2"

definition ASSET_NAME_MAX_LEN :: nat where
  "ASSET_NAME_MAX_LEN = 15"

record balance_key =
  bk_user_id :: u32
  bk_type :: u32
  bk_asset :: string

record 'd balance_state =
  dict_asset :: "string \<rightharpoonup> asset_type"
  dict_balance :: "(balance_key, 'd) dict_view"

text \<open>
  The key is a structure compared byte by byte; \<open>strncpy\<close> fills its 16 bytes of asset name and
  pads with zeros, so a longer name is cut.
\<close>

definition mk_key :: "u32 \<Rightarrow> u32 \<Rightarrow> string \<Rightarrow> balance_key" where
  "mk_key user_id type asset =
     \<lparr> bk_user_id = user_id, bk_type = type, bk_asset = take (ASSET_NAME_MAX_LEN + 1) asset \<rparr>"

section \<open>Operations\<close>

definition get_asset_type :: "('d, 'z) balance_state_scheme \<Rightarrow> string \<Rightarrow> asset_type option" where
  "get_asset_type s asset = dict_asset s asset"

definition asset_exist :: "('d, 'z) balance_state_scheme \<Rightarrow> string \<Rightarrow> bool" where
  "asset_exist s asset = (get_asset_type s asset \<noteq> None)"

definition asset_prec :: "('d, 'z) balance_state_scheme \<Rightarrow> string \<Rightarrow> int" where
  "asset_prec s asset = (case get_asset_type s asset of Some aty \<Rightarrow> prec_save aty | None \<Rightarrow> - 1)"

definition asset_prec_show :: "('d, 'z) balance_state_scheme \<Rightarrow> string \<Rightarrow> int" where
  "asset_prec_show s asset = (case get_asset_type s asset of Some aty \<Rightarrow> prec_show aty | None \<Rightarrow> - 1)"

definition balance_get :: "('d, 'z) balance_state_scheme \<Rightarrow> u32 \<Rightarrow> u32 \<Rightarrow> string \<Rightarrow> 'd option" where
  "balance_get s user_id type asset = dv_find (dict_balance s) (mk_key user_id type asset)"

definition balance_del ::
    "u32 \<Rightarrow> u32 \<Rightarrow> string \<Rightarrow> ('d, 'z) balance_state_scheme \<Rightarrow> ('d, 'z) balance_state_scheme" where
  "balance_del user_id type asset s =
     s\<lparr>dict_balance := dv_delete (mk_key user_id type asset) (dict_balance s)\<rparr>"

text \<open>Writing through the pointer to an entry's value, or the value of a new entry.\<close>

definition balance_store ::
    "u32 \<Rightarrow> u32 \<Rightarrow> string \<Rightarrow> 'd \<Rightarrow> ('d, 'z) balance_state_scheme \<Rightarrow> ('d, 'z) balance_state_scheme" where
  "balance_store user_id type asset v s =
     s\<lparr>dict_balance := dv_put (mk_key user_id type asset) v (dict_balance s)\<rparr>"

definition balance_set :: "'d mpd_lib \<Rightarrow> u32 \<Rightarrow> u32 \<Rightarrow> string \<Rightarrow> 'd
    \<Rightarrow> ('d, 'z) balance_state_scheme \<Rightarrow> 'd option \<times> ('d, 'z) balance_state_scheme" where
  "balance_set D user_id type asset amount s =
     (case get_asset_type s asset of
        None \<Rightarrow> (None, s)
      | Some aty \<Rightarrow>
          let ret = mpd_cmp D amount (mpd_zero D) in
          if ret < 0 then (None, s)
          else if ret = 0 then (Some (mpd_zero D), balance_del user_id type asset s)
          else
            let result = mpd_rescale D amount (- prec_save aty) in
            (Some result, balance_store user_id type asset result s))"

definition balance_add :: "'d mpd_lib \<Rightarrow> u32 \<Rightarrow> u32 \<Rightarrow> string \<Rightarrow> 'd
    \<Rightarrow> ('d, 'z) balance_state_scheme \<Rightarrow> 'd option \<times> ('d, 'z) balance_state_scheme" where
  "balance_add D user_id type asset amount s =
     (case get_asset_type s asset of
        None \<Rightarrow> (None, s)
      | Some aty \<Rightarrow>
          if mpd_cmp D amount (mpd_zero D) < 0 then (None, s)
          else case balance_get s user_id type asset of
            Some result \<Rightarrow>
              let result = mpd_rescale D (mpd_add D result amount) (- prec_save aty) in
              (Some result, balance_store user_id type asset result s)
          | None \<Rightarrow> balance_set D user_id type asset amount s)"

definition balance_sub :: "'d mpd_lib \<Rightarrow> u32 \<Rightarrow> u32 \<Rightarrow> string \<Rightarrow> 'd
    \<Rightarrow> ('d, 'z) balance_state_scheme \<Rightarrow> 'd option \<times> ('d, 'z) balance_state_scheme" where
  "balance_sub D user_id type asset amount s =
     (case get_asset_type s asset of
        None \<Rightarrow> (None, s)
      | Some aty \<Rightarrow>
          if mpd_cmp D amount (mpd_zero D) < 0 then (None, s)
          else case balance_get s user_id type asset of
            None \<Rightarrow> (None, s)
          | Some result \<Rightarrow>
              if mpd_cmp D result amount < 0 then (None, s)
              else
                let result = mpd_sub D result amount in
                if mpd_cmp D result (mpd_zero D) = 0
                then (Some (mpd_zero D), balance_del user_id type asset s)
                else
                  let result = mpd_rescale D result (- prec_save aty) in
                  (Some result, balance_store user_id type asset result s))"

text \<open>
  \<open>balance_freeze\<close> and \<open>balance_unfreeze\<close> are the same code with the two types exchanged: the
  amount leaves the entry of the first type and is added to the entry of the second.
\<close>

definition balance_freeze :: "'d mpd_lib \<Rightarrow> u32 \<Rightarrow> string \<Rightarrow> 'd
    \<Rightarrow> ('d, 'z) balance_state_scheme \<Rightarrow> 'd option \<times> ('d, 'z) balance_state_scheme" where
  "balance_freeze D user_id asset amount s =
     (case get_asset_type s asset of
        None \<Rightarrow> (None, s)
      | Some aty \<Rightarrow>
          if mpd_cmp D amount (mpd_zero D) < 0 then (None, s)
          else case balance_get s user_id BALANCE_TYPE_AVAILABLE asset of
            None \<Rightarrow> (None, s)
          | Some available \<Rightarrow>
              if mpd_cmp D available amount < 0 then (None, s)
              else
                case balance_add D user_id BALANCE_TYPE_FREEZE asset amount s of
                  (None, s) \<Rightarrow> (None, s)
                | (Some _, s) \<Rightarrow>
                    let available = mpd_sub D available amount in
                    if mpd_cmp D available (mpd_zero D) = 0
                    then (Some (mpd_zero D), balance_del user_id BALANCE_TYPE_AVAILABLE asset s)
                    else
                      let available = mpd_rescale D available (- prec_save aty) in
                      (Some available, balance_store user_id BALANCE_TYPE_AVAILABLE asset available s))"

definition balance_unfreeze :: "'d mpd_lib \<Rightarrow> u32 \<Rightarrow> string \<Rightarrow> 'd
    \<Rightarrow> ('d, 'z) balance_state_scheme \<Rightarrow> 'd option \<times> ('d, 'z) balance_state_scheme" where
  "balance_unfreeze D user_id asset amount s =
     (case get_asset_type s asset of
        None \<Rightarrow> (None, s)
      | Some aty \<Rightarrow>
          if mpd_cmp D amount (mpd_zero D) < 0 then (None, s)
          else case balance_get s user_id BALANCE_TYPE_FREEZE asset of
            None \<Rightarrow> (None, s)
          | Some freeze \<Rightarrow>
              if mpd_cmp D freeze amount < 0 then (None, s)
              else
                case balance_add D user_id BALANCE_TYPE_AVAILABLE asset amount s of
                  (None, s) \<Rightarrow> (None, s)
                | (Some _, s) \<Rightarrow>
                    let freeze = mpd_sub D freeze amount in
                    if mpd_cmp D freeze (mpd_zero D) = 0
                    then (Some (mpd_zero D), balance_del user_id BALANCE_TYPE_FREEZE asset s)
                    else
                      let freeze = mpd_rescale D freeze (- prec_save aty) in
                      (Some freeze, balance_store user_id BALANCE_TYPE_FREEZE asset freeze s))"

definition balance_total :: "'d mpd_lib \<Rightarrow> u32 \<Rightarrow> string \<Rightarrow> ('d, 'z) balance_state_scheme \<Rightarrow> 'd" where
  "balance_total D user_id asset s =
     (let balance = mpd_zero D;
          balance = (case balance_get s user_id BALANCE_TYPE_AVAILABLE asset of
                       Some available \<Rightarrow> mpd_add D balance available | None \<Rightarrow> balance) in
      case balance_get s user_id BALANCE_TYPE_FREEZE asset of
        Some freeze \<Rightarrow> mpd_add D balance freeze | None \<Rightarrow> balance)"

record 'd balance_summary =
  bs_total :: 'd
  bs_available_count :: nat
  bs_available :: 'd
  bs_freeze_count :: nat
  bs_freeze :: 'd

fun balance_status_loop :: "'d mpd_lib \<Rightarrow> string \<Rightarrow> (balance_key, 'd) dict_view
    \<Rightarrow> 'd balance_summary \<Rightarrow> 'd balance_summary" where
  "balance_status_loop D asset [] r = r"
| "balance_status_loop D asset ((key, v) # es) r =
     (if bk_asset key \<noteq> asset then balance_status_loop D asset es r
      else
        let r = r\<lparr>bs_total := mpd_add D (bs_total r) v\<rparr> in
        if bk_type key = BALANCE_TYPE_AVAILABLE
        then balance_status_loop D asset es
               (r\<lparr>bs_available_count := bs_available_count r + 1,
                  bs_available := mpd_add D (bs_available r) v\<rparr>)
        else balance_status_loop D asset es
               (r\<lparr>bs_freeze_count := bs_freeze_count r + 1,
                  bs_freeze := mpd_add D (bs_freeze r) v\<rparr>))"

definition balance_status :: "'d mpd_lib \<Rightarrow> string \<Rightarrow> ('d, 'z) balance_state_scheme \<Rightarrow> 'd balance_summary" where
  "balance_status D asset s =
     balance_status_loop D asset (dict_balance s)
       \<lparr> bs_total = mpd_zero D, bs_available_count = 0, bs_available = mpd_zero D,
         bs_freeze_count = 0, bs_freeze = mpd_zero D \<rparr>"

text \<open>\<open>init_balance\<close>: the assets of the settings go into \<open>dict_asset\<close>; a repeated name fails.\<close>

record asset =
  a_name :: string
  a_prec_save :: int
  a_prec_show :: int

fun init_assets :: "asset list \<Rightarrow> (string \<rightharpoonup> asset_type) \<Rightarrow> int \<times> (string \<rightharpoonup> asset_type)" where
  "init_assets [] d = (0, d)"
| "init_assets (a # as) d =
     (if d (a_name a) \<noteq> None then (- 124, d)
      else init_assets as (d(a_name a \<mapsto> \<lparr> prec_save = a_prec_save a, prec_show = a_prec_show a \<rparr>)))"

definition init_balance :: "asset list \<Rightarrow> int \<times> 'd balance_state" where
  "init_balance assets =
     (let (ret, d) = init_assets assets Map.empty in (ret, \<lparr> dict_asset = d, dict_balance = [] \<rparr>))"

end
