(* ===== verification/Balance_Facts.thy ===== *)
theory Balance_Facts
  imports Balance
begin

text \<open>
  What the balance operations keep and change: the well-formedness of the ledger, the amount
  stored under a key, the total of an asset. The contract the matching engine relies on is the
  locale \<open>ledger\<close>, interpreted on the operations of \<open>me_balance.c\<close>.
\<close>

section \<open>Amounts, totals and the invariant\<close>

definition amount_val :: "('d \<Rightarrow> rat option) \<Rightarrow> 'd \<Rightarrow> rat" where
  "amount_val val d = (case val d of Some x \<Rightarrow> x | None \<Rightarrow> 0)"

definition key_amount :: "('d \<Rightarrow> rat option) \<Rightarrow> ('d, 'z) balance_state_scheme \<Rightarrow> balance_key \<Rightarrow> rat" where
  "key_amount val s k = (case dv_find (dict_balance s) k of Some d \<Rightarrow> amount_val val d | None \<Rightarrow> 0)"

definition asset_weight :: "('d \<Rightarrow> rat option) \<Rightarrow> string \<Rightarrow> balance_key \<Rightarrow> 'd \<Rightarrow> rat" where
  "asset_weight val a k d = (if bk_asset k = a then amount_val val d else 0)"

definition asset_total :: "('d \<Rightarrow> rat option) \<Rightarrow> ('d, 'z) balance_state_scheme \<Rightarrow> string \<Rightarrow> rat" where
  "asset_total val s a = dv_sum (asset_weight val a) (dict_balance s)"

definition assets_ok :: "(string \<rightharpoonup> asset_type) \<Rightarrow> bool" where
  "assets_ok as \<longleftrightarrow> (\<forall>a aty. as a = Some aty \<longrightarrow>
     length a \<le> ASSET_NAME_MAX_LEN \<and> 0 \<le> prec_save aty \<and> prec_save aty \<le> max_prec)"

text \<open>An entry is a finite, non-negative amount of a listed asset, with the asset's decimals.\<close>

definition entry_ok :: "('d \<Rightarrow> rat option) \<Rightarrow> (string \<rightharpoonup> asset_type) \<Rightarrow> balance_key \<Rightarrow> 'd \<Rightarrow> bool" where
  "entry_ok val as k d \<longleftrightarrow> (\<exists>x aty. val d = Some x \<and> 0 \<le> x \<and> as (bk_asset k) = Some aty
     \<and> on_grid (nat (prec_save aty)) x)"

definition balances_ok :: "('d \<Rightarrow> rat option) \<Rightarrow> ('d, 'z) balance_state_scheme \<Rightarrow> bool" where
  "balances_ok val s \<longleftrightarrow> dv_wf (dict_balance s) \<and> assets_ok (dict_asset s)
     \<and> (\<forall>k d. dv_find (dict_balance s) k = Some d \<longrightarrow> entry_ok val (dict_asset s) k d)"

text \<open>
  \<open>moved val s k y s'\<close>: from \<open>s\<close> to \<open>s'\<close> the amount under \<open>k\<close> became \<open>y\<close>, nothing else changed.
\<close>

definition moved :: "('d \<Rightarrow> rat option) \<Rightarrow> ('d, 'z) balance_state_scheme \<Rightarrow> balance_key \<Rightarrow> rat
    \<Rightarrow> ('d, 'z) balance_state_scheme \<Rightarrow> bool" where
  "moved val s k y s' \<longleftrightarrow> balances_ok val s' \<and> dict_asset s' = dict_asset s
     \<and> balance_state.more s' = balance_state.more s
     \<and> key_amount val s' = (key_amount val s)(k := y)
     \<and> (\<forall>a. asset_total val s' a = asset_total val s a + (if bk_asset k = a then y - key_amount val s k else 0))"

lemma mk_key_asset [simp]: "length a \<le> ASSET_NAME_MAX_LEN \<Longrightarrow> bk_asset (mk_key u t a) = a"
  by (simp add: mk_key_def)

lemma mk_key_inj:
  "length a \<le> ASSET_NAME_MAX_LEN \<Longrightarrow> length b \<le> ASSET_NAME_MAX_LEN \<Longrightarrow>
     mk_key u t a = mk_key v r b \<longleftrightarrow> u = v \<and> t = r \<and> a = b"
  by (auto simp: mk_key_def)

lemma types_distinct [simp]: "BALANCE_TYPE_AVAILABLE \<noteq> BALANCE_TYPE_FREEZE"
  "BALANCE_TYPE_FREEZE \<noteq> BALANCE_TYPE_AVAILABLE"
  by (simp_all add: BALANCE_TYPE_AVAILABLE_def BALANCE_TYPE_FREEZE_def)

lemma mk_key_types [simp]: "t \<noteq> r \<Longrightarrow> mk_key u t a \<noteq> mk_key v r b"
  by (simp add: mk_key_def)

lemma balances_okD:
  assumes "balances_ok val s" "dv_find (dict_balance s) k = Some d"
  obtains x aty where "val d = Some x" "0 \<le> x" "dict_asset s (bk_asset k) = Some aty"
    "on_grid (nat (prec_save aty)) x" "key_amount val s k = x"
  using assms by (fastforce simp: balances_ok_def entry_ok_def key_amount_def amount_val_def)

lemma key_amount_nonneg: "balances_ok val s \<Longrightarrow> 0 \<le> key_amount val s k"
proof (cases "dv_find (dict_balance s) k")
  case (Some d)
  assume "balances_ok val s"
  from this Some show ?thesis
    by (rule balances_okD) simp
qed (simp add: key_amount_def)

lemma weight_key: "dv_weight (asset_weight val a) (dict_balance s) k = (if bk_asset k = a then key_amount val s k else 0)"
  by (simp add: dv_weight_def asset_weight_def key_amount_def split: option.split)

lemma moved_store:
  assumes "balances_ok val s" "dict_asset s a = Some aty" "val d = Some y" "0 \<le> y"
    "on_grid (nat (prec_save aty)) y"
  shows "moved val s (mk_key u t a) y (balance_store u t a d s)"
proof -
  have len: "length a \<le> ASSET_NAME_MAX_LEN"
    using assms(1,2) by (auto simp: balances_ok_def assets_ok_def)
  have "entry_ok val (dict_asset s) (mk_key u t a) d"
    using assms(2-5) by (auto simp: entry_ok_def len)
  with assms(1) have ok: "balances_ok val (balance_store u t a d s)"
    by (simp add: balances_ok_def balance_store_def)
  have "dv_wf (dict_balance s)"
    using assms(1) by (simp add: balances_ok_def)
  then have "asset_total val (balance_store u t a d s) b =
      asset_total val s b + (if bk_asset (mk_key u t a) = b then y - key_amount val s (mk_key u t a) else 0)" for b
    by (simp add: asset_total_def balance_store_def dv_sum_put weight_key)
      (simp add: asset_weight_def amount_val_def assms(3))
  with ok show ?thesis
    by (simp add: moved_def balance_store_def key_amount_def fun_eq_iff amount_val_def assms(3))
qed

lemma moved_del:
  assumes "balances_ok val s"
  shows "moved val s (mk_key u t a) 0 (balance_del u t a s)"
proof -
  have ok: "balances_ok val (balance_del u t a s)"
    using assms by (simp add: balances_ok_def balance_del_def)
  have "dv_wf (dict_balance s)"
    using assms by (simp add: balances_ok_def)
  then have "asset_total val (balance_del u t a s) b =
      asset_total val s b + (if bk_asset (mk_key u t a) = b then 0 - key_amount val s (mk_key u t a) else 0)" for b
    by (simp add: asset_total_def balance_del_def dv_sum_delete weight_key)
  with ok show ?thesis
    by (simp add: moved_def balance_del_def key_amount_def fun_eq_iff)
qed

lemma movedD:
  assumes "moved val s k y s'"
  shows "balances_ok val s'" "dict_asset s' = dict_asset s"
    "balance_state.more s' = balance_state.more s" "key_amount val s' = (key_amount val s)(k := y)"
    "asset_total val s' a = asset_total val s a + (if bk_asset k = a then y - key_amount val s k else 0)"
  using assms by (auto simp: moved_def)

section \<open>What each operation does\<close>

lemma balances_ok_asset:
  assumes "balances_ok val s" "dict_asset s a = Some aty"
  shows "length a \<le> ASSET_NAME_MAX_LEN" "0 \<le> prec_save aty" "prec_save aty \<le> max_prec"
  using assms by (auto simp: balances_ok_def assets_ok_def)

lemma balance_set_pos:
  assumes "mpd_laws D val" "balances_ok val s" "dict_asset s a = Some aty" "val m = Some x" "0 \<le> x"
  shows "\<exists>r s'. balance_set D u t a m s = (Some r, s') \<and> moved val s (mk_key u t a) (trunc_dec (nat (prec_save aty)) x) s'"
proof (cases "x = 0")
  case True
  with assms have "balance_set D u t a m s = (Some (mpd_zero D), balance_del u t a s)"
    by (simp add: balance_set_def get_asset_type_def mpd_cmp_val [OF assms(1,4) mpd_zero_val [OF assms(1)]])
  moreover have "moved val s (mk_key u t a) (trunc_dec (nat (prec_save aty)) x) (balance_del u t a s)"
    using moved_del [OF assms(2)] by (simp add: True trunc_dec_def)
  ultimately show ?thesis by blast
next
  case False
  let ?r = "mpd_rescale D m (- prec_save aty)"
  have r: "val ?r = Some (trunc_dec (nat (prec_save aty)) x)"
    using mpd_rescale_val [OF assms(1,4)] balances_ok_asset [OF assms(2,3)] by blast
  have "balance_set D u t a m s = (Some ?r, balance_store u t a ?r s)"
    using assms(3,5) False
    by (simp add: balance_set_def get_asset_type_def Let_def mpd_cmp_val [OF assms(1,4) mpd_zero_val [OF assms(1)]])
  moreover have "moved val s (mk_key u t a) (trunc_dec (nat (prec_save aty)) x) (balance_store u t a ?r s)"
    using assms(2,3) r by (rule moved_store) (simp_all add: assms(5) trunc_dec_bounds)
  ultimately show ?thesis by blast
qed

text \<open>
  The new amount of a credit: the truncated sum, up to the rounding of a sum that does not fit.
\<close>

definition credited :: "int \<Rightarrow> rat \<Rightarrow> rat \<Rightarrow> rat \<Rightarrow> bool" where
  "credited p old x y \<longleftrightarrow> 0 \<le> y \<and> y \<le> old + x \<and> (fits (old + x) \<longrightarrow> y = trunc_dec (nat p) (old + x))"

definition debited :: "int \<Rightarrow> rat \<Rightarrow> rat \<Rightarrow> rat \<Rightarrow> bool" where
  "debited p old x y \<longleftrightarrow> 0 \<le> y \<and> y \<le> old - x \<and> (fits (old - x) \<longrightarrow> y = trunc_dec (nat p) (old - x))"

lemma rounds_trunc:
  assumes "rounds z x" "0 \<le> x"
  shows "0 \<le> trunc_dec p z \<and> trunc_dec p z \<le> x \<and> (fits x \<longrightarrow> trunc_dec p z = trunc_dec p x)"
proof -
  have "0 \<le> z" "z \<le> x"
    using assms by (auto dest: rounds_nonneg)
  then show ?thesis
    using trunc_dec_bounds [of z p] rounds_fits [OF assms(1)] by auto
qed

lemma balance_add_pos:
  assumes "mpd_laws D val" "balances_ok val s" "dict_asset s a = Some aty" "val m = Some x" "0 \<le> x"
  shows "\<exists>r s' y. balance_add D u t a m s = (Some r, s') \<and> moved val s (mk_key u t a) y s'
           \<and> credited (prec_save aty) (key_amount val s (mk_key u t a)) x y"
proof (cases "balance_get s u t a")
  case None
  obtain r s' where set: "balance_set D u t a m s = (Some r, s')"
      and mv: "moved val s (mk_key u t a) (trunc_dec (nat (prec_save aty)) x) s'"
    using balance_set_pos [OF assms] by blast
  have "balance_add D u t a m s = (Some r, s')"
    using assms(3,5) set None
    by (simp add: balance_add_def get_asset_type_def mpd_cmp_val [OF assms(1,4) mpd_zero_val [OF assms(1)]])
  moreover have "key_amount val s (mk_key u t a) = 0"
    using None by (simp add: balance_get_def key_amount_def)
  ultimately show ?thesis
    using mv trunc_dec_bounds [OF assms(5), of "nat (prec_save aty)"] by (auto simp: credited_def)
next
  case (Some d)
  then have d: "dv_find (dict_balance s) (mk_key u t a) = Some d"
    by (simp add: balance_get_def)
  obtain o0 where o0: "val d = Some o0" "0 \<le> o0" "key_amount val s (mk_key u t a) = o0"
    by (rule balances_okD [OF assms(2) d]) blast
  obtain z where z: "val (mpd_add D d m) = Some z" "rounds z (o0 + x)"
    using mpd_add_val [OF assms(1) o0(1) assms(4)] by blast
  let ?r = "mpd_rescale D (mpd_add D d m) (- prec_save aty)"
  have r: "val ?r = Some (trunc_dec (nat (prec_save aty)) z)"
    using mpd_rescale_val [OF assms(1) z(1)] balances_ok_asset [OF assms(2,3)] by blast
  have b: "0 \<le> trunc_dec (nat (prec_save aty)) z \<and> trunc_dec (nat (prec_save aty)) z \<le> o0 + x
       \<and> (fits (o0 + x) \<longrightarrow> trunc_dec (nat (prec_save aty)) z = trunc_dec (nat (prec_save aty)) (o0 + x))"
    using rounds_trunc [OF z(2)] o0(2) assms(5) by simp
  have "balance_add D u t a m s = (Some ?r, balance_store u t a ?r s)"
    using assms(3,5) Some
    by (simp add: balance_add_def get_asset_type_def Let_def mpd_cmp_val [OF assms(1,4) mpd_zero_val [OF assms(1)]])
  moreover have "moved val s (mk_key u t a) (trunc_dec (nat (prec_save aty)) z) (balance_store u t a ?r s)"
    using assms(2,3) r by (rule moved_store) (use b in simp_all)
  ultimately show ?thesis
    using b o0(3) by (auto simp: credited_def)
qed

lemma balance_sub_pos:
  assumes "mpd_laws D val" "balances_ok val s" "dict_asset s a = Some aty" "val m = Some x" "0 \<le> x"
  shows "balance_get s u t a = None \<or> key_amount val s (mk_key u t a) < x
           \<Longrightarrow> balance_sub D u t a m s = (None, s)"
    and "balance_get s u t a \<noteq> None \<Longrightarrow> x \<le> key_amount val s (mk_key u t a)
           \<Longrightarrow> \<exists>r s' y. balance_sub D u t a m s = (Some r, s') \<and> moved val s (mk_key u t a) y s'
             \<and> debited (prec_save aty) (key_amount val s (mk_key u t a)) x y"
proof -
  note cmp0 = mpd_cmp_val [OF assms(1,4) mpd_zero_val [OF assms(1)]]
  {
    fix d assume get: "balance_get s u t a = Some d"
    then have d: "dv_find (dict_balance s) (mk_key u t a) = Some d"
      by (simp add: balance_get_def)
    obtain o0 where "val d = Some o0" "0 \<le> o0" "key_amount val s (mk_key u t a) = o0"
      by (rule balances_okD [OF assms(2) d]) blast
    then have "val d = Some (key_amount val s (mk_key u t a))"
      by simp
  } note entry = this
  show "balance_sub D u t a m s = (None, s)"
    if "balance_get s u t a = None \<or> key_amount val s (mk_key u t a) < x"
  proof (cases "balance_get s u t a")
    case None
    then show ?thesis
      by (simp add: balance_sub_def get_asset_type_def assms(3))
  next
    case (Some d)
    with that have "key_amount val s (mk_key u t a) < x"
      by simp
    with Some show ?thesis
      by (simp add: balance_sub_def get_asset_type_def assms(3) mpd_cmp_val [OF assms(1) entry [OF Some] assms(4)])
  qed
  assume "balance_get s u t a \<noteq> None" and le: "x \<le> key_amount val s (mk_key u t a)"
  then obtain d where get: "balance_get s u t a = Some d"
    by blast
  let ?o = "key_amount val s (mk_key u t a)"
  note cmp1 = mpd_cmp_val [OF assms(1) entry [OF get] assms(4)]
  obtain z where z: "val (mpd_sub D d m) = Some z" "rounds z (?o - x)"
    using mpd_sub_val [OF assms(1) entry [OF get] assms(4)] by blast
  note cmp2 = mpd_cmp_val [OF assms(1) z(1) mpd_zero_val [OF assms(1)]]
  have b: "0 \<le> trunc_dec (nat (prec_save aty)) z \<and> trunc_dec (nat (prec_save aty)) z \<le> ?o - x
       \<and> (fits (?o - x) \<longrightarrow> trunc_dec (nat (prec_save aty)) z = trunc_dec (nat (prec_save aty)) (?o - x))"
    using rounds_trunc [OF z(2)] le by simp
  show "\<exists>r s' y. balance_sub D u t a m s = (Some r, s') \<and> moved val s (mk_key u t a) y s'
      \<and> debited (prec_save aty) ?o x y"
  proof (cases "z = 0")
    case True
    have "balance_sub D u t a m s = (Some (mpd_zero D), balance_del u t a s)"
      using assms(3,5) get le True
      by (simp add: balance_sub_def get_asset_type_def cmp0 cmp1 cmp2 Let_def)
    moreover have "debited (prec_save aty) ?o x 0"
      using b True by (auto simp: debited_def trunc_dec_def)
    ultimately show ?thesis
      using moved_del [OF assms(2), of u t a] by blast
  next
    case False
    let ?r = "mpd_rescale D (mpd_sub D d m) (- prec_save aty)"
    have r: "val ?r = Some (trunc_dec (nat (prec_save aty)) z)"
      using mpd_rescale_val [OF assms(1) z(1)] balances_ok_asset [OF assms(2,3)] by blast
    have "balance_sub D u t a m s = (Some ?r, balance_store u t a ?r s)"
      using assms(3,5) get le False
      by (simp add: balance_sub_def get_asset_type_def cmp0 cmp1 cmp2 Let_def)
    moreover have "moved val s (mk_key u t a) (trunc_dec (nat (prec_save aty)) z) (balance_store u t a ?r s)"
      using assms(2,3) r by (rule moved_store) (use b in simp_all)
    ultimately show ?thesis
      using b by (auto simp: debited_def)
  qed
qed


text \<open>
  Freezing and unfreezing, once for both: \<open>balance_shift D t1 t2\<close> moves an amount from the entry
  of type \<open>t1\<close> to the entry of type \<open>t2\<close>.
\<close>

definition balance_shift :: "'d mpd_lib \<Rightarrow> u32 \<Rightarrow> u32 \<Rightarrow> u32 \<Rightarrow> string \<Rightarrow> 'd
    \<Rightarrow> ('d, 'z) balance_state_scheme \<Rightarrow> 'd option \<times> ('d, 'z) balance_state_scheme" where
  "balance_shift D t1 t2 u a m s =
     (case get_asset_type s a of
        None \<Rightarrow> (None, s)
      | Some aty \<Rightarrow>
          if mpd_cmp D m (mpd_zero D) < 0 then (None, s)
          else case balance_get s u t1 a of
            None \<Rightarrow> (None, s)
          | Some src \<Rightarrow>
              if mpd_cmp D src m < 0 then (None, s)
              else
                case balance_add D u t2 a m s of
                  (None, s) \<Rightarrow> (None, s)
                | (Some _, s) \<Rightarrow>
                    let src = mpd_sub D src m in
                    if mpd_cmp D src (mpd_zero D) = 0
                    then (Some (mpd_zero D), balance_del u t1 a s)
                    else
                      let src = mpd_rescale D src (- prec_save aty) in
                      (Some src, balance_store u t1 a src s))"

lemma freeze_shift: "balance_freeze D = balance_shift D BALANCE_TYPE_AVAILABLE BALANCE_TYPE_FREEZE"
  by (intro ext) (simp add: balance_freeze_def balance_shift_def)

lemma unfreeze_shift: "balance_unfreeze D = balance_shift D BALANCE_TYPE_FREEZE BALANCE_TYPE_AVAILABLE"
  by (intro ext) (simp add: balance_unfreeze_def balance_shift_def)

lemma entry_val:
  assumes "balances_ok val s" "balance_get s u t a = Some d"
  shows "val d = Some (key_amount val s (mk_key u t a))"
proof -
  from assms(2) have "dv_find (dict_balance s) (mk_key u t a) = Some d"
    by (simp add: balance_get_def)
  from assms(1) this show ?thesis
    by (rule balances_okD) simp
qed

lemma balance_shift_fail:
  assumes "mpd_laws D val" "balances_ok val s" "dict_asset s a = Some aty" "val m = Some x" "0 \<le> x"
    and "balance_get s u t1 a = None \<or> key_amount val s (mk_key u t1 a) < x"
  shows "balance_shift D t1 t2 u a m s = (None, s)"
proof (cases "balance_get s u t1 a")
  case None
  then show ?thesis
    by (simp add: balance_shift_def get_asset_type_def assms(3))
next
  case (Some d)
  with assms(6) have "key_amount val s (mk_key u t1 a) < x"
    by simp
  with Some show ?thesis
    by (simp add: balance_shift_def get_asset_type_def assms(3)
        mpd_cmp_val [OF assms(1) entry_val [OF assms(2) Some] assms(4)])
qed

lemma balance_shift_pos:
  assumes L: "mpd_laws D val" and ok: "balances_ok val s" and aty: "dict_asset s a = Some aty"
    and m: "val m = Some x" "0 \<le> x" and t: "t1 \<noteq> t2"
    and get: "balance_get s u t1 a \<noteq> None" and le: "x \<le> key_amount val s (mk_key u t1 a)"
  shows "\<exists>r s1 s' y z. balance_shift D t1 t2 u a m s = (Some r, s')
     \<and> moved val s (mk_key u t2 a) z s1 \<and> moved val s1 (mk_key u t1 a) y s'
     \<and> credited (prec_save aty) (key_amount val s (mk_key u t2 a)) x z
     \<and> debited (prec_save aty) (key_amount val s (mk_key u t1 a)) x y"
proof -
  from get obtain d where d: "balance_get s u t1 a = Some d"
    by blast
  let ?o = "key_amount val s (mk_key u t1 a)"
  have vd: "val d = Some ?o"
    using ok d by (rule entry_val)
  obtain q s1 z where add: "balance_add D u t2 a m s = (Some q, s1)"
      and mv: "moved val s (mk_key u t2 a) z s1"
      and cr: "credited (prec_save aty) (key_amount val s (mk_key u t2 a)) x z"
    using balance_add_pos [OF L ok aty m] by blast
  have ok1: "balances_ok val s1" and aty1: "dict_asset s1 a = Some aty"
    using mv aty by (simp_all add: moved_def)
  note cmps = mpd_cmp_val [OF L m(1) mpd_zero_val [OF L]] mpd_cmp_val [OF L vd m(1)]
  obtain w where w: "val (mpd_sub D d m) = Some w" "rounds w (?o - x)"
    using mpd_sub_val [OF L vd m(1)] by blast
  note cmp2 = mpd_cmp_val [OF L w(1) mpd_zero_val [OF L]]
  have b: "0 \<le> trunc_dec (nat (prec_save aty)) w \<and> trunc_dec (nat (prec_save aty)) w \<le> ?o - x
       \<and> (fits (?o - x) \<longrightarrow> trunc_dec (nat (prec_save aty)) w = trunc_dec (nat (prec_save aty)) (?o - x))"
    using rounds_trunc [OF w(2)] le by simp
  show ?thesis
  proof (cases "w = 0")
    case True
    have "balance_shift D t1 t2 u a m s = (Some (mpd_zero D), balance_del u t1 a s1)"
      using aty m(2) d le True add
      by (simp add: balance_shift_def get_asset_type_def cmps cmp2 Let_def)
    moreover have "debited (prec_save aty) ?o x 0"
      using b True by (auto simp: debited_def trunc_dec_def)
    ultimately show ?thesis
      using mv cr moved_del [OF ok1, of u t1 a] by blast
  next
    case False
    let ?r = "mpd_rescale D (mpd_sub D d m) (- prec_save aty)"
    have r: "val ?r = Some (trunc_dec (nat (prec_save aty)) w)"
      using mpd_rescale_val [OF L w(1)] balances_ok_asset [OF ok aty] by blast
    have "balance_shift D t1 t2 u a m s = (Some ?r, balance_store u t1 a ?r s1)"
      using aty m(2) d le False add
      by (simp add: balance_shift_def get_asset_type_def cmps cmp2 Let_def)
    moreover have "moved val s1 (mk_key u t1 a) (trunc_dec (nat (prec_save aty)) w) (balance_store u t1 a ?r s1)"
      using ok1 aty1 r by (rule moved_store) (use b in simp_all)
    moreover have "debited (prec_save aty) ?o x (trunc_dec (nat (prec_save aty)) w)"
      using b by (auto simp: debited_def)
    ultimately show ?thesis
      using mv cr by blast
  qed
qed

section \<open>The contract of the ledger\<close>

text \<open>
  What a client that moves value needs to know: a credit of a non-negative amount succeeds and
  adds at most that amount; a debit takes at least the amount or fails and changes nothing. From
  this alone: moving an amount from one account to another never creates value.
\<close>

locale ledger =
  fixes inv :: "'s \<Rightarrow> bool"
    and known :: "'s \<Rightarrow> 'a \<Rightarrow> bool"
    and amt :: "'s \<Rightarrow> 'k \<Rightarrow> rat"
    and total :: "'s \<Rightarrow> 'a \<Rightarrow> rat"
    and asset_of :: "'k \<Rightarrow> 'a"
    and worth :: "'m \<Rightarrow> rat option"
    and credit :: "'k \<Rightarrow> 'm \<Rightarrow> 's \<Rightarrow> 'd option \<times> 's"
    and debit :: "'k \<Rightarrow> 'm \<Rightarrow> 's \<Rightarrow> 'd option \<times> 's"
  assumes credit_law: "inv s \<Longrightarrow> known s (asset_of k) \<Longrightarrow> worth m = Some x \<Longrightarrow> 0 \<le> x \<Longrightarrow>
      \<exists>r s'. credit k m s = (Some r, s') \<and> inv s' \<and> known s' = known s \<and> amt s' k \<le> amt s k + x
        \<and> (\<forall>k'. known s (asset_of k') \<longrightarrow> k' \<noteq> k \<longrightarrow> amt s' k' = amt s k')
        \<and> (\<forall>a. total s' a = total s a + (if a = asset_of k then amt s' k - amt s k else 0))"
    and debit_law: "inv s \<Longrightarrow> known s (asset_of k) \<Longrightarrow> worth m = Some x \<Longrightarrow> 0 \<le> x \<Longrightarrow>
      debit k m s = (r, s') \<Longrightarrow>
      (r = None \<and> s' = s) \<or>
      (r \<noteq> None \<and> x \<le> amt s k \<and> inv s' \<and> known s' = known s \<and> amt s' k \<le> amt s k - x
        \<and> (\<forall>k'. known s (asset_of k') \<longrightarrow> k' \<noteq> k \<longrightarrow> amt s' k' = amt s k')
        \<and> (\<forall>a. total s' a = total s a + (if a = asset_of k then amt s' k - amt s k else 0)))"
    and debit_enough: "inv s \<Longrightarrow> known s (asset_of k) \<Longrightarrow> worth m = Some x \<Longrightarrow> 0 < x \<Longrightarrow>
      x \<le> amt s k \<Longrightarrow> fst (debit k m s) \<noteq> None"
begin

lemma credit_inv:
  assumes "inv s" "known s (asset_of k)" "worth m = Some x" "0 \<le> x"
  shows "inv (snd (credit k m s))" "known (snd (credit k m s)) = known s"
    "total (snd (credit k m s)) a \<le> total s a + (if a = asset_of k then x else 0)"
  using credit_law [OF assms] by fastforce+

lemma debit_inv:
  assumes "inv s" "known s (asset_of k)" "worth m = Some x" "0 \<le> x"
  shows "inv (snd (debit k m s))" "known (snd (debit k m s)) = known s"
    "total (snd (debit k m s)) a \<le> total s a"
  using debit_law [OF assms, of "fst (debit k m s)" "snd (debit k m s)"] assms by fastforce+

lemma debit_total:
  assumes "inv s" "known s (asset_of k)" "worth m = Some x" "0 \<le> x" "fst (debit k m s) \<noteq> None"
  shows "total (snd (debit k m s)) a \<le> total s a - (if a = asset_of k then x else 0)"
  using debit_law [OF assms(1-4), of "fst (debit k m s)" "snd (debit k m s)"] assms(5)
  by (auto split: if_splits)

text \<open>A payment: debit one account, then credit another one of the same asset.\<close>

lemma payment_total:
  assumes "inv s" "known s (asset_of k)" "worth m = Some x" "0 \<le> x" "fst (debit k m s) \<noteq> None"
    and "asset_of k' = asset_of k"
  shows "total (snd (credit k' m (snd (debit k m s)))) a \<le> total s a"
proof -
  note d = debit_inv(1,2) [OF assms(1-4)]
  have "total (snd (credit k' m (snd (debit k m s)))) a
      \<le> total (snd (debit k m s)) a + (if a = asset_of k' then x else 0)"
    by (rule credit_inv(3) [OF d(1) _ assms(3,4)]) (simp add: d(2) assms(2,6))
  with debit_total [OF assms(1-5), of a] assms(6) show ?thesis
    by (simp split: if_splits)
qed

lemma payment_inv:
  assumes "inv s" "known s (asset_of k)" "known s (asset_of k')" "worth m = Some x" "0 \<le> x"
  shows "inv (snd (credit k' m (snd (debit k m s))))"
    "known (snd (credit k' m (snd (debit k m s)))) = known s"
proof -
  note d = debit_inv(1,2) [OF assms(1,2,4,5)]
  show "inv (snd (credit k' m (snd (debit k m s))))"
    by (rule credit_inv(1) [OF d(1) _ assms(4,5)]) (simp add: d(2) assms(3))
  show "known (snd (credit k' m (snd (debit k m s)))) = known s"
    using credit_inv(2) [OF d(1) _ assms(4,5), of k'] d(2) assms(3) by simp
qed

end

text \<open>The accounts of \<open>me_balance.c\<close>: user, type and asset.\<close>

definition account_asset :: "u32 \<times> u32 \<times> string \<Rightarrow> string" where
  "account_asset k = (case k of (u, t, a) \<Rightarrow> a)"

definition account_amount :: "('d \<Rightarrow> rat option) \<Rightarrow> ('d, 'z) balance_state_scheme \<Rightarrow> u32 \<times> u32 \<times> string \<Rightarrow> rat" where
  "account_amount val s k = (case k of (u, t, a) \<Rightarrow> key_amount val s (mk_key u t a))"

definition account_add :: "'d mpd_lib \<Rightarrow> u32 \<times> u32 \<times> string \<Rightarrow> 'd
    \<Rightarrow> ('d, 'z) balance_state_scheme \<Rightarrow> 'd option \<times> ('d, 'z) balance_state_scheme" where
  "account_add D k m s = (case k of (u, t, a) \<Rightarrow> balance_add D u t a m s)"

definition account_sub :: "'d mpd_lib \<Rightarrow> u32 \<times> u32 \<times> string \<Rightarrow> 'd
    \<Rightarrow> ('d, 'z) balance_state_scheme \<Rightarrow> 'd option \<times> ('d, 'z) balance_state_scheme" where
  "account_sub D k m s = (case k of (u, t, a) \<Rightarrow> balance_sub D u t a m s)"

definition ledger_inv :: "'d mpd_lib \<Rightarrow> ('d \<Rightarrow> rat option) \<Rightarrow> ('d, 'z) balance_state_scheme \<Rightarrow> bool" where
  "ledger_inv D val s \<longleftrightarrow> mpd_laws D val \<and> balances_ok val s"

lemma moved_account:
  assumes "balances_ok val s" "dict_asset s a \<noteq> None" "moved val s (mk_key u t a) y s'"
  shows "account_amount val s' (u, t, a) = y"
    "asset_exist s' = asset_exist s"
    "asset_exist s (account_asset k') \<Longrightarrow> k' \<noteq> (u, t, a) \<Longrightarrow> account_amount val s' k' = account_amount val s k'"
    "asset_total val s' b = asset_total val s b
       + (if b = a then account_amount val s' (u, t, a) - account_amount val s (u, t, a) else 0)"
proof -
  have len: "length a \<le> ASSET_NAME_MAX_LEN"
    using assms(1,2) balances_ok_asset(1) by blast
  have len': "asset_exist s b \<Longrightarrow> length b \<le> ASSET_NAME_MAX_LEN" for b
    using assms(1) balances_ok_asset(1) by (auto simp: asset_exist_def get_asset_type_def)
  show "account_amount val s' (u, t, a) = y"
    by (simp add: account_amount_def movedD(4) [OF assms(3)])
  show "asset_exist s' = asset_exist s"
    by (simp add: fun_eq_iff asset_exist_def get_asset_type_def movedD(2) [OF assms(3)])
  show "account_amount val s' k' = account_amount val s k'"
    if "asset_exist s (account_asset k')" "k' \<noteq> (u, t, a)"
    using that len len'
    by (cases k') (auto simp: account_amount_def account_asset_def movedD(4) [OF assms(3)] mk_key_inj)
  show "asset_total val s' b = asset_total val s b
       + (if b = a then account_amount val s' (u, t, a) - account_amount val s (u, t, a) else 0)"
    using len by (auto simp: account_amount_def movedD(4,5) [OF assms(3)])
qed

interpretation accounts: ledger "ledger_inv D val" asset_exist "account_amount val" "asset_total val"
    account_asset val "account_add D" "account_sub D"
proof (unfold_locales, goal_cases)
  case (1 s k m x)
  obtain u t a where k: "k = (u, t, a)"
    by (cases k)
  from 1 obtain aty where aty: "dict_asset s a = Some aty"
    by (auto simp: k account_asset_def asset_exist_def get_asset_type_def)
  have L: "mpd_laws D val" and ok: "balances_ok val s"
    using 1(1) by (simp_all add: ledger_inv_def)
  obtain r s' y where add: "balance_add D u t a m s = (Some r, s')" and mv: "moved val s (mk_key u t a) y s'"
      and cr: "credited (prec_save aty) (key_amount val s (mk_key u t a)) x y"
    using balance_add_pos [OF L ok aty 1(3,4)] by blast
  note acc = moved_account [OF ok _ mv]
  have "account_add D k m s = (Some r, s')"
    by (simp add: account_add_def k add)
  moreover have "account_amount val s' k \<le> account_amount val s k + x"
    using cr aty by (simp add: k acc(1)) (simp add: account_amount_def credited_def)
  ultimately show ?case
    using L movedD(1) [OF mv] aty acc by (auto simp: k ledger_inv_def account_asset_def)
next
  case (2 s k m x r s')
  obtain u t a where k: "k = (u, t, a)"
    by (cases k)
  from 2 obtain aty where aty: "dict_asset s a = Some aty"
    by (auto simp: k account_asset_def asset_exist_def get_asset_type_def)
  have L: "mpd_laws D val" and ok: "balances_ok val s"
    using 2(1) by (simp_all add: ledger_inv_def)
  note sub = balance_sub_pos [OF L ok aty 2(3,4), of u t]
  have eq: "balance_sub D u t a m s = (r, s')"
    using 2(5) by (simp add: account_sub_def k)
  show ?case
  proof (cases "balance_get s u t a = None \<or> key_amount val s (mk_key u t a) < x")
    case True
    with sub(1) eq show ?thesis by simp
  next
    case False
    then obtain y where r: "r \<noteq> None" and mv: "moved val s (mk_key u t a) y s'"
        and db: "debited (prec_save aty) (key_amount val s (mk_key u t a)) x y"
      using sub(2) eq by force
    note acc = moved_account [OF ok _ mv]
    have "account_amount val s' k \<le> account_amount val s k - x"
      using db aty by (simp add: k acc(1)) (simp add: account_amount_def debited_def)
    moreover have "x \<le> account_amount val s k"
      using False by (simp add: account_amount_def k)
    ultimately show ?thesis
      using L r movedD(1) [OF mv] aty acc by (auto simp: k ledger_inv_def account_asset_def)
  qed
next
  case (3 s k m x)
  obtain u t a where k: "k = (u, t, a)"
    by (cases k)
  from 3 obtain aty where aty: "dict_asset s a = Some aty"
    by (auto simp: k account_asset_def asset_exist_def get_asset_type_def)
  have L: "mpd_laws D val" and ok: "balances_ok val s"
    using 3(1) by (simp_all add: ledger_inv_def)
  have le: "x \<le> key_amount val s (mk_key u t a)"
    using 3(5) by (simp add: account_amount_def k)
  moreover from this 3(4) have "balance_get s u t a \<noteq> None"
    by (auto simp: balance_get_def key_amount_def split: option.splits)
  ultimately show ?case
    using balance_sub_pos(2) [OF L ok aty 3(3), of u t] 3(4) by (auto simp: account_sub_def k)
qed

end
