(* ===== verification/Ordered_List.thy ===== *)
theory Ordered_List
  imports Prelude
begin

text \<open>
  What \<open>utils/ut_skiplist.c\<close> computes, on the list of the values in the order of level 0: the
  descent stops behind the last value that compares at most equal to the argument. The locale
  \<open>ordered_by\<close> is the contract of the comparison function a skiplist is created with; under it
  insertion, search and deletion keep a strictly sorted list.
\<close>

section \<open>The operations on the list of values\<close>

definition sl_before :: "('a \<Rightarrow> 'a \<Rightarrow> int) \<Rightarrow> 'a \<Rightarrow> 'a list \<Rightarrow> 'a list" where
  "sl_before cmp v xs = takeWhile (\<lambda>y. cmp y v \<le> 0) xs"

definition sl_insert :: "('a \<Rightarrow> 'a \<Rightarrow> int) \<Rightarrow> 'a \<Rightarrow> 'a list \<Rightarrow> 'a list option" where
  "sl_insert cmp v xs =
     (let pre = sl_before cmp v xs in
      if pre \<noteq> [] \<and> cmp (last pre) v = 0 then None
      else Some (pre @ v # drop (length pre) xs))"

definition sl_find :: "('a \<Rightarrow> 'a \<Rightarrow> int) \<Rightarrow> 'a \<Rightarrow> 'a list \<Rightarrow> 'a option" where
  "sl_find cmp v xs =
     (let pre = sl_before cmp v xs in
      if pre \<noteq> [] \<and> cmp (last pre) v = 0 then Some (last pre) else None)"

text \<open>\<open>skiplist_delete\<close> walks to the last value that compares less and unlinks the node behind it.\<close>

definition sl_delete :: "('a \<Rightarrow> 'a \<Rightarrow> int) \<Rightarrow> 'a \<Rightarrow> 'a list \<Rightarrow> 'a list" where
  "sl_delete cmp x xs =
     (case dropWhile (\<lambda>y. cmp y x < 0) xs of
        [] \<Rightarrow> xs
      | y # ys \<Rightarrow> if y = x then takeWhile (\<lambda>y. cmp y x < 0) xs @ ys else xs)"

section \<open>The contract of a comparison function\<close>

locale ordered_by =
  fixes cmp :: "'a \<Rightarrow> 'a \<Rightarrow> int" and A :: "'a set"
  assumes cmp_eq: "x \<in> A \<Longrightarrow> y \<in> A \<Longrightarrow> cmp x y = 0 \<longleftrightarrow> x = y"
    and cmp_swap: "x \<in> A \<Longrightarrow> y \<in> A \<Longrightarrow> cmp x y < 0 \<longleftrightarrow> 0 < cmp y x"
    and cmp_trans: "x \<in> A \<Longrightarrow> y \<in> A \<Longrightarrow> z \<in> A \<Longrightarrow> cmp x y < 0 \<Longrightarrow> cmp y z < 0 \<Longrightarrow> cmp x z < 0"
begin

abbreviation sorted_by :: "'a list \<Rightarrow> bool" where
  "sorted_by xs \<equiv> sorted_wrt (\<lambda>x y. cmp x y < 0) xs"

lemma sorted_distinct: "set xs \<subseteq> A \<Longrightarrow> sorted_by xs \<Longrightarrow> distinct xs"
proof (induction xs)
  case (Cons x xs)
  then have "x \<notin> set xs"
    using cmp_eq [of x x] by auto
  with Cons show ?case by simp
qed simp

lemma before_split:
  assumes "set xs \<subseteq> A" "sorted_by xs" "v \<in> A"
  obtains pre post where "xs = pre @ post" "sl_before cmp v xs = pre"
    "\<And>y. y \<in> set pre \<Longrightarrow> cmp y v \<le> 0" "\<And>y. y \<in> set post \<Longrightarrow> cmp v y < 0"
proof (rule that)
  let ?pre = "sl_before cmp v xs" and ?post = "dropWhile (\<lambda>y. cmp y v \<le> 0) xs"
  show "xs = ?pre @ ?post"
    by (simp add: sl_before_def)
  show "cmp y v \<le> 0" if "y \<in> set ?pre" for y
    using that by (auto simp: sl_before_def dest: set_takeWhileD)
  have "sorted_by ?post"
    using assms(2) by (metis \<open>xs = ?pre @ ?post\<close> sorted_wrt_append)
  have sub: "set ?post \<subseteq> A"
    using assms(1) by (auto dest: set_dropWhileD)
  show "cmp v y < 0" if y: "y \<in> set ?post" for y
  proof -
    obtain z zs where post: "?post = z # zs"
      using y by (cases ?post) auto
    have "\<not> cmp z v \<le> 0"
      using post hd_dropWhile [of "\<lambda>y. cmp y v \<le> 0" xs] by auto
    then have "cmp v z < 0"
      using cmp_swap assms(3) sub post by auto
    then show ?thesis
      using y post \<open>sorted_by ?post\<close> cmp_trans [of v z y] sub assms(3) by auto
  qed
qed simp

lemma last_eq:
  assumes "set xs \<subseteq> A" "sorted_by xs" "v \<in> A"
  shows "(sl_before cmp v xs \<noteq> [] \<and> cmp (last (sl_before cmp v xs)) v = 0) \<longleftrightarrow> v \<in> set xs"
proof -
  obtain pre post where xs: "xs = pre @ post" and pre: "sl_before cmp v xs = pre"
    and le: "\<And>y. y \<in> set pre \<Longrightarrow> cmp y v \<le> 0" and gt: "\<And>y. y \<in> set post \<Longrightarrow> cmp v y < 0"
    using before_split [OF assms] by blast
  have vpost: "v \<notin> set post"
    using gt cmp_eq [of v v] assms(3) by force
  show ?thesis
  proof
    assume l: "sl_before cmp v xs \<noteq> [] \<and> cmp (last (sl_before cmp v xs)) v = 0"
    then have "last pre \<in> set pre"
      by (simp add: pre)
    moreover from this have "last pre \<in> A"
      using assms(1) by (auto simp: xs)
    then have "last pre = v"
      using l cmp_eq [of "last pre" v] assms(3) pre by simp
    ultimately show "v \<in> set xs"
      using \<open>last pre \<in> set pre\<close> by (simp add: xs)
  next
    assume "v \<in> set xs"
    with vpost obtain ys zs where pre': "pre = ys @ v # zs"
      by (auto simp: xs dest: split_list)
    have "zs = []"
    proof (cases zs)
      case (Cons z zs')
      have "cmp v z < 0"
        using assms(2) by (simp add: xs pre' Cons sorted_wrt_append)
      moreover have "cmp z v \<le> 0" "z \<in> A"
        using le [of z] assms(1) by (auto simp: pre' Cons xs)
      ultimately show ?thesis
        using cmp_swap [of v z] assms(3) by simp
    qed
    then show "sl_before cmp v xs \<noteq> [] \<and> cmp (last (sl_before cmp v xs)) v = 0"
      using cmp_eq [of v v] assms(3) by (simp add: pre pre')
  qed
qed

lemma find_member:
  assumes "set xs \<subseteq> A" "sorted_by xs" "v \<in> A"
  shows "sl_find cmp v xs = (if v \<in> set xs then Some v else None)"
proof (cases "v \<in> set xs")
  case True
  then have l: "sl_before cmp v xs \<noteq> []" "cmp (last (sl_before cmp v xs)) v = 0"
    using last_eq [OF assms] by auto
  then have "last (sl_before cmp v xs) \<in> set xs"
    by (metis last_in_set sl_before_def set_takeWhileD)
  with l have "last (sl_before cmp v xs) = v"
    using cmp_eq assms(1,3) by auto
  with l True show ?thesis
    by (simp add: sl_find_def)
next
  case False
  then show ?thesis
    using last_eq [OF assms] by (auto simp: sl_find_def Let_def)
qed

lemma insert_member:
  assumes "set xs \<subseteq> A" "sorted_by xs" "v \<in> A"
  shows "v \<in> set xs \<Longrightarrow> sl_insert cmp v xs = None"
    and "v \<notin> set xs \<Longrightarrow> \<exists>pre post. xs = pre @ post \<and> sl_insert cmp v xs = Some (pre @ v # post)
           \<and> sorted_by (pre @ v # post)"
proof -
  show "v \<in> set xs \<Longrightarrow> sl_insert cmp v xs = None"
    using last_eq [OF assms] by (simp add: sl_insert_def)
  assume v: "v \<notin> set xs"
  obtain pre post where xs: "xs = pre @ post" and pre: "sl_before cmp v xs = pre"
    and le: "\<And>y. y \<in> set pre \<Longrightarrow> cmp y v \<le> 0" and gt: "\<And>y. y \<in> set post \<Longrightarrow> cmp v y < 0"
    using before_split [OF assms] by blast
  have ins: "sl_insert cmp v xs = Some (pre @ v # post)"
    using last_eq [OF assms] v pre by (auto simp: sl_insert_def Let_def xs)
  have less: "cmp y v < 0" if "y \<in> set pre" for y
  proof -
    have "y \<in> A" "y \<noteq> v"
      using that assms(1) v by (auto simp: xs)
    then show ?thesis
      using le [OF that] cmp_eq [of y v] assms(3) by simp
  qed
  have "sorted_by (pre @ v # post)"
    using assms(2) gt less by (auto simp: xs sorted_wrt_append)
  with xs ins show "\<exists>pre post. xs = pre @ post \<and> sl_insert cmp v xs = Some (pre @ v # post)
      \<and> sorted_by (pre @ v # post)"
    by blast
qed

lemma delete_member:
  assumes "set xs \<subseteq> A" "sorted_by xs" "x \<in> set xs"
  shows "sl_delete cmp x xs = remove1 x xs"
proof -
  obtain ys zs where xs: "xs = ys @ x # zs"
    using assms(3) by (auto dest: split_list)
  have ys: "\<And>y. y \<in> set ys \<Longrightarrow> cmp y x < 0" and "x \<in> A"
    using assms(1,2) by (auto simp: xs sorted_wrt_append)
  moreover have x: "\<not> cmp x x < 0"
    using cmp_eq [of x x] \<open>x \<in> A\<close> by simp
  ultimately have "takeWhile (\<lambda>y. cmp y x < 0) xs = ys" "dropWhile (\<lambda>y. cmp y x < 0) xs = x # zs"
    by (auto simp: xs takeWhile_append dropWhile_append)
  moreover have "x \<notin> set ys"
    using ys x by blast
  ultimately show ?thesis
    by (simp add: sl_delete_def xs remove1_append)
qed

lemma sorted_remove1: "sorted_by xs \<Longrightarrow> sorted_by (remove1 x xs)"
proof (induction xs)
  case (Cons y ys)
  then show ?case
    using set_remove1_subset [of x ys] by auto
qed simp

end

end
