(* ===== verification/Order.thy ===== *)
theory Order
  imports Json Ordered_List
begin

text \<open>
  Orders (\<open>order_t\<close> of \<open>matchengine/me_market.h\<close>), the constants of \<open>utils/ut_define.h\<close>, the two
  comparison functions of the skiplists and the JSON form of an order. An order pointer is
  modelled by the order's id: the heap of the allocated orders of a market maps ids to orders.
\<close>

section \<open>Constants\<close>

definition MARKET_ORDER_TYPE_LIMIT :: u32 where "MARKET_ORDER_TYPE_LIMIT = 1"
definition MARKET_ORDER_TYPE_MARKET :: u32 where "MARKET_ORDER_TYPE_MARKET = 2"
definition MARKET_ORDER_SIDE_ASK :: u32 where "MARKET_ORDER_SIDE_ASK = 1"
definition MARKET_ORDER_SIDE_BID :: u32 where "MARKET_ORDER_SIDE_BID = 2"
definition MARKET_ROLE_MAKER :: u32 where "MARKET_ROLE_MAKER = 1"
definition MARKET_ROLE_TAKER :: u32 where "MARKET_ROLE_TAKER = 2"

lemmas market_consts = MARKET_ORDER_TYPE_LIMIT_def MARKET_ORDER_TYPE_MARKET_def
  MARKET_ORDER_SIDE_ASK_def MARKET_ORDER_SIDE_BID_def MARKET_ROLE_MAKER_def MARKET_ROLE_TAKER_def

lemma sides_distinct [simp]: "MARKET_ORDER_SIDE_ASK \<noteq> MARKET_ORDER_SIDE_BID"
  "MARKET_ORDER_SIDE_BID \<noteq> MARKET_ORDER_SIDE_ASK"
  by (simp_all add: market_consts)

section \<open>Orders\<close>

text \<open>\<open>o_source\<close> is \<open>None\<close> for a \<open>NULL\<close> pointer: an order that was loaded from a slice has none.\<close>

record 'd order =
  o_id :: u64
  o_type :: u32
  o_side :: u32
  o_create_time :: timestamp
  o_update_time :: timestamp
  o_user_id :: u32
  o_market :: string
  o_source :: "string option"
  o_price :: 'd
  o_amount :: 'd
  o_taker_fee :: 'd
  o_maker_fee :: 'd
  o_left :: 'd
  o_freeze :: 'd
  o_deal_stock :: 'd
  o_deal_money :: 'd
  o_deal_fee :: 'd

definition order_match_compare :: "'d mpd_lib \<Rightarrow> 'd order \<Rightarrow> 'd order \<Rightarrow> int" where
  "order_match_compare D order1 order2 =
     (if o_id order1 = o_id order2 then 0
      else if o_type order1 \<noteq> o_type order2 then 1
      else
        let cmp = (if o_side order1 = MARKET_ORDER_SIDE_ASK
                   then mpd_cmp D (o_price order1) (o_price order2)
                   else mpd_cmp D (o_price order2) (o_price order1)) in
        if cmp \<noteq> 0 then cmp
        else if o_id order1 > o_id order2 then 1 else - 1)"

definition order_id_compare :: "'d order \<Rightarrow> 'd order \<Rightarrow> int" where
  "order_id_compare order1 order2 =
     (if o_id order1 = o_id order2 then 0
      else if o_id order1 > o_id order2 then - 1 else 1)"

text \<open>
  The skiplists hold order pointers; a comparison reads the two orders through them. A pointer
  to no allocated order is never compared: the books hold allocated orders only.
\<close>

definition by_ptr :: "('d order \<Rightarrow> 'd order \<Rightarrow> int) \<Rightarrow> (u64 \<rightharpoonup> 'd order) \<Rightarrow> u64 \<Rightarrow> u64 \<Rightarrow> int" where
  "by_ptr f h i j = (case (h i, h j) of (Some a, Some b) \<Rightarrow> f a b | _ \<Rightarrow> 0)"

definition get_order_info :: "'d mpd_lib \<Rightarrow> 'd order \<Rightarrow> json" where
  "get_order_info D order =
     (let info = JObject [];
          info = json_object_set info ''id'' (json_u64 (o_id order));
          info = json_object_set info ''market'' (JString (o_market order));
          info = json_object_set_opt info ''source'' (map_option JString (o_source order));
          info = json_object_set info ''type'' (json_u32 (o_type order));
          info = json_object_set info ''side'' (json_u32 (o_side order));
          info = json_object_set info ''user'' (json_u32 (o_user_id order));
          info = json_object_set info ''ctime'' (JReal (o_create_time order));
          info = json_object_set info ''mtime'' (JReal (o_update_time order));
          info = json_object_set_new_mpd D info ''price'' (o_price order);
          info = json_object_set_new_mpd D info ''amount'' (o_amount order);
          info = json_object_set_new_mpd D info ''taker_fee'' (o_taker_fee order);
          info = json_object_set_new_mpd D info ''maker_fee'' (o_maker_fee order);
          info = json_object_set_new_mpd D info ''left'' (o_left order);
          info = json_object_set_new_mpd D info ''deal_stock'' (o_deal_stock order);
          info = json_object_set_new_mpd D info ''deal_money'' (o_deal_money order);
          info = json_object_set_new_mpd D info ''deal_fee'' (o_deal_fee order) in
      info)"

section \<open>The orders of the books satisfy the skiplist's contract\<close>

text \<open>The allocated limit orders of one side with a finite price, in a heap keyed by id.\<close>

definition book_carrier :: "'d mpd_lib \<Rightarrow> ('d \<Rightarrow> rat option) \<Rightarrow> (u64 \<rightharpoonup> 'd order) \<Rightarrow> u32 \<Rightarrow> u64 set" where
  "book_carrier D val h side = {i. mpd_laws D val \<and> (\<exists>a. h i = Some a \<and> o_id a = i
     \<and> o_type a = MARKET_ORDER_TYPE_LIMIT \<and> o_side a = side \<and> val (o_price a) \<noteq> None)}"

definition id_carrier :: "(u64 \<rightharpoonup> 'd order) \<Rightarrow> u64 set" where
  "id_carrier h = {i. \<exists>a. h i = Some a \<and> o_id a = i}"

text \<open>The price-time key of an order: ascending for asks, descending for bids.\<close>

definition match_price :: "('d \<Rightarrow> rat option) \<Rightarrow> u32 \<Rightarrow> 'd order \<Rightarrow> rat" where
  "match_price val side a =
     (case val (o_price a) of Some x \<Rightarrow> if side = MARKET_ORDER_SIDE_ASK then x else - x | None \<Rightarrow> 0)"

lemma match_compare_key:
  assumes "i \<in> book_carrier D val h side" "j \<in> book_carrier D val h side" "h i = Some a" "h j = Some b"
  shows "by_ptr (order_match_compare D) h i j < 0 \<longleftrightarrow>
           match_price val side a < match_price val side b \<or> match_price val side a = match_price val side b \<and> i < j"
    and "0 < by_ptr (order_match_compare D) h i j \<longleftrightarrow>
           match_price val side b < match_price val side a \<or> match_price val side a = match_price val side b \<and> j < i"
    and "by_ptr (order_match_compare D) h i j = 0 \<longleftrightarrow> i = j"
proof -
  from assms obtain x y where L: "mpd_laws D val" and x: "val (o_price a) = Some x" and y: "val (o_price b) = Some y"
    and f: "o_id a = i" "o_id b = j" "o_type a = o_type b" "o_side a = side" "o_side b = side"
    by (auto simp: book_carrier_def)
  note c = mpd_cmp_val [OF L x y] mpd_cmp_val [OF L y x]
  have eq: "by_ptr (order_match_compare D) h i j =
      (if i = j then 0
       else if match_price val side a < match_price val side b then - 1
       else if match_price val side b < match_price val side a then 1
       else if i > j then 1 else - 1)"
    using f assms(3,4) by (auto simp: by_ptr_def order_match_compare_def match_price_def c x y)
  have same: "i = j \<Longrightarrow> a = b"
    using assms(3,4) by simp
  show "by_ptr (order_match_compare D) h i j < 0 \<longleftrightarrow>
      match_price val side a < match_price val side b \<or> match_price val side a = match_price val side b \<and> i < j"
    using same by (auto simp: eq)
  show "0 < by_ptr (order_match_compare D) h i j \<longleftrightarrow>
      match_price val side b < match_price val side a \<or> match_price val side a = match_price val side b \<and> j < i"
    using same by (auto simp: eq)
  show "by_ptr (order_match_compare D) h i j = 0 \<longleftrightarrow> i = j"
    by (auto simp: eq)
qed

interpretation book: ordered_by "by_ptr (order_match_compare D) h" "book_carrier D val h side"
proof (unfold_locales, goal_cases)
  case (1 x y)
  then obtain a b where "h x = Some a" "h y = Some b"
    by (auto simp: book_carrier_def)
  from match_compare_key(3) [OF 1 this] show ?case .
next
  case (2 x y)
  then obtain a b where "h x = Some a" "h y = Some b"
    by (auto simp: book_carrier_def)
  from match_compare_key(1) [OF 2 this] match_compare_key(2) [OF 2(2,1) this(2,1)] show ?case
    by auto
next
  case (3 x y z)
  then obtain a b c where h: "h x = Some a" "h y = Some b" "h z = Some c"
    by (auto simp: book_carrier_def)
  from 3(4,5) match_compare_key(1) [OF 3(1,2) h(1,2)] match_compare_key(1) [OF 3(2,3) h(2,3)]
    match_compare_key(1) [OF 3(1,3) h(1,3)] show ?case
    by auto
qed

lemma id_compare_key:
  "i \<in> id_carrier h \<Longrightarrow> j \<in> id_carrier h \<Longrightarrow>
     by_ptr order_id_compare h i j = (if i = j then 0 else if i > j then - 1 else 1)"
proof -
  assume "i \<in> id_carrier h" "j \<in> id_carrier h"
  then obtain a b where "h i = Some a" "o_id a = i" "h j = Some b" "o_id b = j"
    unfolding id_carrier_def by blast
  then show ?thesis
    by (simp add: by_ptr_def order_id_compare_def)
qed

interpretation user_list: ordered_by "by_ptr order_id_compare h" "id_carrier h"
proof (unfold_locales, goal_cases)
  case (1 x y)
  then show ?case by (simp add: id_compare_key)
next
  case (2 x y)
  then show ?case by (auto simp: id_compare_key)
next
  case (3 x y z)
  then show ?case by (auto simp: id_compare_key split: if_splits)
qed

end
