(* ===== verification/History.thy ===== *)
theory History
  imports Balance Order
begin

text \<open>
  What the engine reports: the rows of the history database (\<open>matchengine/me_history.c\<close>) and the
  messages for Kafka (\<open>matchengine/me_message.c\<close>). The calls are logged in the order the code
  makes them, with the values they are made with; \<open>Sql_History\<close> and \<open>Message_Queue\<close> model what
  the two modules do with them.
\<close>

section \<open>Reports\<close>

datatype topic = TopicBalances | TopicOrders | TopicDeals

text \<open>The text of a JSON value that the caller makes: \<open>json_dumps\<close> without flags or with sorted keys.\<close>

datatype dump = Dumps json | DumpsSorted json

text \<open>
  One constructor per leaf call: \<open>append_user_order\<close>, \<open>append_order_detail\<close>, \<open>append_order_deal\<close>,
  \<open>append_user_deal\<close>, \<open>append_user_balance\<close>, \<open>push_message\<close>, with their arguments in order.
\<close>

datatype 'd report =
    UserOrder "'d order"
  | OrderDetail "'d order"
  | OrderDeal timestamp u32 u64 u64 u64 u32 'd 'd 'd 'd 'd
  | UserDeal timestamp u32 string u64 u64 u64 u32 u32 'd 'd 'd 'd 'd
  | UserBalance timestamp u32 string string 'd 'd dump
  | Message topic json

record 'd history_state = "'d balance_state" +
  reports :: "'d report list"

definition report :: "'d report \<Rightarrow> ('d, 'z) history_state_scheme \<Rightarrow> ('d, 'z) history_state_scheme" where
  "report r s = s\<lparr>reports := reports s @ [r]\<rparr>"

section \<open>\<open>me_history.c\<close>\<close>

definition append_order_history ::
    "'d order \<Rightarrow> ('d, 'z) history_state_scheme \<Rightarrow> ('d, 'z) history_state_scheme" where
  "append_order_history order s = report (OrderDetail order) (report (UserOrder order) s)"

definition append_order_deal_history :: "timestamp \<Rightarrow> u64 \<Rightarrow> 'd order \<Rightarrow> u32 \<Rightarrow> 'd order \<Rightarrow> u32
    \<Rightarrow> 'd \<Rightarrow> 'd \<Rightarrow> 'd \<Rightarrow> 'd \<Rightarrow> 'd \<Rightarrow> ('d, 'z) history_state_scheme \<Rightarrow> ('d, 'z) history_state_scheme" where
  "append_order_deal_history t deal_id ask ask_role bid bid_role price amount deal ask_fee bid_fee s =
     (let s = report (OrderDeal t (o_user_id ask) deal_id (o_id ask) (o_id bid) ask_role
                        price amount deal ask_fee bid_fee) s;
          s = report (OrderDeal t (o_user_id bid) deal_id (o_id bid) (o_id ask) bid_role
                        price amount deal bid_fee ask_fee) s;
          s = report (UserDeal t (o_user_id ask) (o_market ask) deal_id (o_id ask) (o_id bid)
                        (o_side ask) ask_role price amount deal ask_fee bid_fee) s;
          s = report (UserDeal t (o_user_id bid) (o_market ask) deal_id (o_id bid) (o_id ask)
                        (o_side bid) bid_role price amount deal bid_fee ask_fee) s in
      s)"

definition append_user_balance_history :: "'d mpd_lib \<Rightarrow> timestamp \<Rightarrow> u32 \<Rightarrow> string \<Rightarrow> string \<Rightarrow> 'd \<Rightarrow> dump
    \<Rightarrow> ('d, 'z) history_state_scheme \<Rightarrow> ('d, 'z) history_state_scheme" where
  "append_user_balance_history D t user_id asset business change detail s =
     (let balance = balance_total D user_id asset s in
      report (UserBalance t user_id asset business change balance detail) s)"

section \<open>\<open>me_message.c\<close>\<close>

definition json_array_append_mpd :: "'d mpd_lib \<Rightarrow> json \<Rightarrow> 'd \<Rightarrow> json" where
  "json_array_append_mpd D message v = json_array_append message (JString (mpd_to_sci D v))"

definition push_balance_message :: "'d mpd_lib \<Rightarrow> timestamp \<Rightarrow> u32 \<Rightarrow> string \<Rightarrow> string \<Rightarrow> 'd
    \<Rightarrow> ('d, 'z) history_state_scheme \<Rightarrow> ('d, 'z) history_state_scheme" where
  "push_balance_message D t user_id asset business change s =
     (let message = JArray [];
          message = json_array_append message (JReal t);
          message = json_array_append message (json_u32 user_id);
          message = json_array_append message (JString asset);
          message = json_array_append message (JString business);
          message = json_array_append_mpd D message change in
      report (Message TopicBalances message) s)"

definition ORDER_EVENT_PUT :: u32 where "ORDER_EVENT_PUT = 1"
definition ORDER_EVENT_UPDATE :: u32 where "ORDER_EVENT_UPDATE = 2"
definition ORDER_EVENT_FINISH :: u32 where "ORDER_EVENT_FINISH = 3"

definition push_order_message :: "'d mpd_lib \<Rightarrow> u32 \<Rightarrow> 'd order \<Rightarrow> string \<Rightarrow> string
    \<Rightarrow> ('d, 'z) history_state_scheme \<Rightarrow> ('d, 'z) history_state_scheme" where
  "push_order_message D event order stock money s =
     (let message = JObject [];
          message = json_object_set message ''event'' (json_u32 event);
          message = json_object_set message ''order'' (get_order_info D order);
          message = json_object_set message ''stock'' (JString stock);
          message = json_object_set message ''money'' (JString money) in
      report (Message TopicOrders message) s)"

definition push_deal_message :: "'d mpd_lib \<Rightarrow> timestamp \<Rightarrow> string \<Rightarrow> 'd order \<Rightarrow> 'd order
    \<Rightarrow> 'd \<Rightarrow> 'd \<Rightarrow> 'd \<Rightarrow> 'd \<Rightarrow> u32 \<Rightarrow> u64 \<Rightarrow> string \<Rightarrow> string
    \<Rightarrow> ('d, 'z) history_state_scheme \<Rightarrow> ('d, 'z) history_state_scheme" where
  "push_deal_message D t market ask bid price amount ask_fee bid_fee side id' stock money s =
     (let message = JArray [];
          message = json_array_append message (JReal t);
          message = json_array_append message (JString market);
          message = json_array_append message (json_u64 (o_id ask));
          message = json_array_append message (json_u64 (o_id bid));
          message = json_array_append message (json_u32 (o_user_id ask));
          message = json_array_append message (json_u32 (o_user_id bid));
          message = json_array_append_mpd D message price;
          message = json_array_append_mpd D message amount;
          message = json_array_append_mpd D message ask_fee;
          message = json_array_append_mpd D message bid_fee;
          message = json_array_append message (json_u32 side);
          message = json_array_append message (json_u64 id');
          message = json_array_append message (JString stock);
          message = json_array_append message (JString money) in
      report (Message TopicDeals message) s)"

section \<open>Reports touch nothing else\<close>

lemma report_frame [frames]:
  "dict_balance (report r s) = dict_balance s" "dict_asset (report r s) = dict_asset s"
  "history_state.more (report r s) = history_state.more s"
  by (simp_all add: report_def)

lemma reports_frame [frames]:
  "dict_balance (append_order_history ord s) = dict_balance s"
  "dict_asset (append_order_history ord s) = dict_asset s"
  "history_state.more (append_order_history ord s) = history_state.more s"
  "dict_balance (append_order_deal_history t i a ar b br p am d af bf s) = dict_balance s"
  "dict_asset (append_order_deal_history t i a ar b br p am d af bf s) = dict_asset s"
  "history_state.more (append_order_deal_history t i a ar b br p am d af bf s) = history_state.more s"
  "dict_balance (append_user_balance_history D t u as bs c j s) = dict_balance s"
  "dict_asset (append_user_balance_history D t u as bs c j s) = dict_asset s"
  "history_state.more (append_user_balance_history D t u as bs c j s) = history_state.more s"
  by (simp_all add: append_order_history_def append_order_deal_history_def
      append_user_balance_history_def Let_def frames)

lemma pushes_frame [frames]:
  "dict_balance (push_balance_message D t u as bs c s) = dict_balance s"
  "dict_asset (push_balance_message D t u as bs c s) = dict_asset s"
  "history_state.more (push_balance_message D t u as bs c s) = history_state.more s"
  "dict_balance (push_order_message D e ord st mo s) = dict_balance s"
  "dict_asset (push_order_message D e ord st mo s) = dict_asset s"
  "history_state.more (push_order_message D e ord st mo s) = history_state.more s"
  "dict_balance (push_deal_message D t mk a b p am af bf sd i st mo s) = dict_balance s"
  "dict_asset (push_deal_message D t mk a b p am af bf sd i st mo s) = dict_asset s"
  "history_state.more (push_deal_message D t mk a b p am af bf sd i st mo s) = history_state.more s"
  by (simp_all add: push_balance_message_def push_order_message_def push_deal_message_def Let_def frames)

end
