(* ===== verification/Market.thy ===== *)
theory Market
  imports Balance_Facts History
begin

text \<open>
  \<open>matchengine/me_market.c\<close>: a market, its books, and the matching of limit and market orders
  against them. A function that the code calls with a market pointer takes the market and the
  process state and returns both. Return codes are the integers of the code (\<open>-__LINE__\<close> of
  the source line where the code returns it).
\<close>

section \<open>State\<close>

record 'd market =
  m_name :: string
  m_stock :: string
  m_money :: string
  m_stock_prec :: int
  m_money_prec :: int
  m_fee_prec :: int
  m_min_amount :: 'd
  m_orders :: "u64 \<rightharpoonup> 'd order"
  m_users :: "u32 \<rightharpoonup> u64 list"
  m_asks :: "u64 list"
  m_bids :: "u64 list"

text \<open>
  The globals of the engine. \<open>clock\<close> is the sequence of the readings of the system clock, \<open>ticks\<close>
  how many have been taken.
\<close>

record 'd market_state = "'d history_state" +
  order_id_start :: u64
  deals_id_start :: u64
  clock :: "nat \<Rightarrow> timestamp"
  ticks :: nat

definition current_timestamp ::
    "('d, 'z) market_state_scheme \<Rightarrow> timestamp \<times> ('d, 'z) market_state_scheme" where
  "current_timestamp s = (clock s (ticks s), s\<lparr>ticks := ticks s + 1\<rparr>)"

text \<open>\<open>struct market\<close> of \<open>me_config.h\<close>: the configuration of a market.\<close>

record 'd market_conf =
  c_name :: string
  c_stock :: string
  c_money :: string
  c_fee_prec :: int
  c_stock_prec :: int
  c_money_prec :: int
  c_min_amount :: 'd

definition market_create :: "('d, 'z) balance_state_scheme \<Rightarrow> 'd market_conf \<Rightarrow> 'd market option" where
  "market_create s conf =
     (if \<not> asset_exist s (c_stock conf) \<or> \<not> asset_exist s (c_money conf) then None
      else if c_stock_prec conf + c_money_prec conf > asset_prec s (c_money conf) then None
      else if c_stock_prec conf + c_fee_prec conf > asset_prec s (c_stock conf) then None
      else if c_money_prec conf + c_fee_prec conf > asset_prec s (c_money conf) then None
      else Some \<lparr> m_name = c_name conf, m_stock = c_stock conf, m_money = c_money conf,
                  m_stock_prec = c_stock_prec conf, m_money_prec = c_money_prec conf,
                  m_fee_prec = c_fee_prec conf, m_min_amount = c_min_amount conf,
                  m_orders = Map.empty, m_users = Map.empty, m_asks = [], m_bids = [] \<rparr>)"

section \<open>Putting an order into the books and taking it out\<close>

definition order_put :: "'d mpd_lib \<Rightarrow> 'd market \<Rightarrow> ('d, 'z) market_state_scheme \<Rightarrow> 'd order
    \<Rightarrow> int \<times> 'd market \<times> ('d, 'z) market_state_scheme" where
  "order_put D m s order =
     (let i = o_id order; u = o_user_id order in
      if o_type order \<noteq> MARKET_ORDER_TYPE_LIMIT then (- 162, m, s)
      else if m_orders m i \<noteq> None then (- 166, m, s)
      else
        let m = m\<lparr>m_orders := (m_orders m)(i \<mapsto> order)\<rparr>;
            h = m_orders m;
            order_list = (case m_users m u of Some l \<Rightarrow> l | None \<Rightarrow> []) in
        case sl_insert (by_ptr order_id_compare h) i order_list of
          None \<Rightarrow> (if m_users m u \<noteq> None then - 173 else - 182, m, s)
        | Some order_list \<Rightarrow>
            let m = m\<lparr>m_users := (m_users m)(u \<mapsto> order_list)\<rparr> in
            if o_side order = MARKET_ORDER_SIDE_ASK then
              case sl_insert (by_ptr (order_match_compare D) h) i (m_asks m) of
                None \<Rightarrow> (- 189, m, s)
              | Some asks \<Rightarrow>
                  let m = m\<lparr>m_asks := asks,
                            m_orders := h(i \<mapsto> order\<lparr>o_freeze := o_left order\<rparr>)\<rparr> in
                  case balance_freeze D u (m_stock m) (o_left order) s of
                    (None, s) \<Rightarrow> (- 192, m, s)
                  | (Some _, s) \<Rightarrow> (0, m, s)
            else
              case sl_insert (by_ptr (order_match_compare D) h) i (m_bids m) of
                None \<Rightarrow> (- 195, m, s)
              | Some bids \<Rightarrow>
                  let result = mpd_mul D (o_price order) (o_left order);
                      m = m\<lparr>m_bids := bids,
                            m_orders := h(i \<mapsto> order\<lparr>o_freeze := result\<rparr>)\<rparr> in
                  case balance_freeze D u (m_money m) result s of
                    (None, s) \<Rightarrow> (- 201, m, s)
                  | (Some _, s) \<Rightarrow> (0, m, s))"

text \<open>Removing an order from one of the three skiplists: find the node, delete it if found.\<close>

definition sl_remove :: "(u64 \<Rightarrow> u64 \<Rightarrow> int) \<Rightarrow> u64 \<Rightarrow> u64 list \<Rightarrow> u64 list" where
  "sl_remove cmp i xs = (case sl_find cmp i xs of Some n \<Rightarrow> sl_delete cmp n xs | None \<Rightarrow> xs)"

definition order_finish_book :: "'d mpd_lib \<Rightarrow> 'd market \<Rightarrow> 'd order \<Rightarrow> 'd market" where
  "order_finish_book D m order =
     (let cmp = by_ptr (order_match_compare D) (m_orders m) in
      if o_side order = MARKET_ORDER_SIDE_ASK
      then m\<lparr>m_asks := sl_remove cmp (o_id order) (m_asks m)\<rparr>
      else m\<lparr>m_bids := sl_remove cmp (o_id order) (m_bids m)\<rparr>)"

text \<open>
  The order is freed last: while it leaves the dictionary and the user's list it is still
  allocated, so the comparisons read the heap \<open>h\<close> of before.
\<close>

definition order_finish_index :: "'d market \<Rightarrow> 'd order \<Rightarrow> 'd market" where
  "order_finish_index m order =
     (let h = m_orders m;
          m = m\<lparr>m_orders := h(o_id order := None)\<rparr> in
      case m_users m (o_user_id order) of
        None \<Rightarrow> m
      | Some order_list \<Rightarrow>
          m\<lparr>m_users := (m_users m)(o_user_id order \<mapsto>
              sl_remove (by_ptr order_id_compare h) (o_id order) order_list)\<rparr>)"

definition order_finish :: "'d mpd_lib \<Rightarrow> bool \<Rightarrow> 'd market \<Rightarrow> ('d, 'z) market_state_scheme \<Rightarrow> 'd order
    \<Rightarrow> int \<times> 'd market \<times> ('d, 'z) market_state_scheme" where
  "order_finish D is_real m s order =
     (let m = order_finish_book D m order;
          ask = (o_side order = MARKET_ORDER_SIDE_ASK);
          (ok, s) = (if mpd_cmp D (o_freeze order) (mpd_zero D) > 0
                     then case balance_unfreeze D (o_user_id order) (if ask then m_stock m else m_money m)
                                 (o_freeze order) s of
                            (None, s) \<Rightarrow> (False, s) | (Some _, s) \<Rightarrow> (True, s)
                     else (True, s)) in
      if \<not> ok then (if ask then - 218 else - 228, m, s)
      else
        let m = order_finish_index m order;
            s = (if is_real \<and> mpd_cmp D (o_deal_stock order) (mpd_zero D) > 0
                 then append_order_history order s else s) in
        (0, m, s))"

section \<open>Reporting a trade on a balance\<close>

definition trade_detail :: "'d mpd_lib \<Rightarrow> 'd order \<Rightarrow> 'd \<Rightarrow> 'd \<Rightarrow> json" where
  "trade_detail D order price amount =
     (let detail = JObject [];
          detail = json_object_set detail ''m'' (JString (o_market order));
          detail = json_object_set detail ''i'' (json_u64 (o_id order));
          detail = json_object_set_new_mpd D detail ''p'' price;
          detail = json_object_set_new_mpd D detail ''a'' amount in
      detail)"

definition append_balance_trade_add :: "'d mpd_lib \<Rightarrow> 'd order \<Rightarrow> string \<Rightarrow> 'd \<Rightarrow> 'd \<Rightarrow> 'd
    \<Rightarrow> ('d, 'z) market_state_scheme \<Rightarrow> ('d, 'z) market_state_scheme" where
  "append_balance_trade_add D order asset change price amount s =
     append_user_balance_history D (o_update_time order) (o_user_id order) asset ''trade'' change
       (DumpsSorted (trade_detail D order price amount)) s"

definition append_balance_trade_sub :: "'d mpd_lib \<Rightarrow> 'd order \<Rightarrow> string \<Rightarrow> 'd \<Rightarrow> 'd \<Rightarrow> 'd
    \<Rightarrow> ('d, 'z) market_state_scheme \<Rightarrow> ('d, 'z) market_state_scheme" where
  "append_balance_trade_sub D order asset change price amount s =
     append_user_balance_history D (o_update_time order) (o_user_id order) asset ''trade''
       (mpd_copy_negate D change) (DumpsSorted (trade_detail D order price amount)) s"

definition append_balance_trade_fee :: "'d mpd_lib \<Rightarrow> 'd order \<Rightarrow> string \<Rightarrow> 'd \<Rightarrow> 'd \<Rightarrow> 'd \<Rightarrow> 'd
    \<Rightarrow> ('d, 'z) market_state_scheme \<Rightarrow> ('d, 'z) market_state_scheme" where
  "append_balance_trade_fee D order asset change price amount fee_rate s =
     append_user_balance_history D (o_update_time order) (o_user_id order) asset ''trade''
       (mpd_copy_negate D change)
       (DumpsSorted (json_object_set_new_mpd D (trade_detail D order price amount) ''f'' fee_rate)) s"


section \<open>The matching loops\<close>

text \<open>
  One iteration of each of the four loops, from the point where the maker of the current node
  has been accepted. The taker is not in the books; the maker is written back to the heap.
\<close>

definition finish_or_update :: "'d mpd_lib \<Rightarrow> bool \<Rightarrow> 'd market \<Rightarrow> ('d, 'z) market_state_scheme \<Rightarrow> 'd order
    \<Rightarrow> 'd market \<times> ('d, 'z) market_state_scheme" where
  "finish_or_update D is_real m s maker =
     (let m = m\<lparr>m_orders := (m_orders m)(o_id maker \<mapsto> maker)\<rparr> in
      if mpd_cmp D (o_left maker) (mpd_zero D) = 0 then
        let s = (if is_real then push_order_message D ORDER_EVENT_FINISH maker (m_stock m) (m_money m) s else s);
            (_, m, s) = order_finish D is_real m s maker in (m, s)
      else
        let s = (if is_real then push_order_message D ORDER_EVENT_UPDATE maker (m_stock m) (m_money m) s else s) in
        (m, s))"

definition limit_ask_fill :: "'d mpd_lib \<Rightarrow> bool \<Rightarrow> 'd market \<Rightarrow> ('d, 'z) market_state_scheme \<Rightarrow> 'd order \<Rightarrow> 'd order
    \<Rightarrow> 'd market \<times> ('d, 'z) market_state_scheme \<times> 'd order" where
  "limit_ask_fill D is_real m s taker maker =
     (let price = o_price maker;
          amount = (if mpd_cmp D (o_left taker) (o_left maker) < 0 then o_left taker else o_left maker);
          deal = mpd_mul D price amount;
          ask_fee = mpd_mul D deal (o_taker_fee taker);
          bid_fee = mpd_mul D deal (o_maker_fee maker);
          (now, s) = current_timestamp s;
          taker = taker\<lparr>o_update_time := now\<rparr>;
          maker = maker\<lparr>o_update_time := now\<rparr>;
          s = s\<lparr>deals_id_start := deals_id_start s + 1\<rparr>;
          deal_id = deals_id_start s;
          s = (if is_real then
                 push_deal_message D now (m_name m) taker maker price amount ask_fee bid_fee
                   MARKET_ORDER_SIDE_ASK deal_id (m_stock m) (m_money m)
                   (append_order_deal_history now deal_id taker MARKET_ROLE_TAKER maker MARKET_ROLE_MAKER
                      price amount deal ask_fee bid_fee s)
               else s);
          taker = taker\<lparr>o_left := mpd_sub D (o_left taker) amount,
                        o_deal_stock := mpd_add D (o_deal_stock taker) amount,
                        o_deal_money := mpd_add D (o_deal_money taker) deal,
                        o_deal_fee := mpd_add D (o_deal_fee taker) ask_fee\<rparr>;
          s = snd (balance_sub D (o_user_id taker) BALANCE_TYPE_AVAILABLE (m_stock m) amount s);
          s = (if is_real then append_balance_trade_sub D taker (m_stock m) amount price amount s else s);
          s = snd (balance_add D (o_user_id taker) BALANCE_TYPE_AVAILABLE (m_money m) deal s);
          s = (if is_real then append_balance_trade_add D taker (m_money m) deal price amount s else s);
          s = (if mpd_cmp D ask_fee (mpd_zero D) > 0 then
                 let s = snd (balance_sub D (o_user_id taker) BALANCE_TYPE_AVAILABLE (m_money m) ask_fee s) in
                 if is_real then append_balance_trade_fee D taker (m_money m) ask_fee price amount (o_taker_fee taker) s
                 else s
               else s);
          maker = maker\<lparr>o_left := mpd_sub D (o_left maker) amount,
                        o_freeze := mpd_sub D (o_freeze maker) deal,
                        o_deal_stock := mpd_add D (o_deal_stock maker) amount,
                        o_deal_money := mpd_add D (o_deal_money maker) deal,
                        o_deal_fee := mpd_add D (o_deal_fee maker) bid_fee\<rparr>;
          s = snd (balance_sub D (o_user_id maker) BALANCE_TYPE_FREEZE (m_money m) deal s);
          s = (if is_real then append_balance_trade_sub D maker (m_money m) deal price amount s else s);
          s = snd (balance_add D (o_user_id maker) BALANCE_TYPE_AVAILABLE (m_stock m) amount s);
          s = (if is_real then append_balance_trade_add D maker (m_stock m) amount price amount s else s);
          s = (if mpd_cmp D bid_fee (mpd_zero D) > 0 then
                 let s = snd (balance_sub D (o_user_id maker) BALANCE_TYPE_AVAILABLE (m_money m) bid_fee s) in
                 if is_real then append_balance_trade_fee D maker (m_money m) bid_fee price amount (o_maker_fee maker) s
                 else s
               else s);
          (m, s) = finish_or_update D is_real m s maker in
      (m, s, taker))"

definition limit_bid_fill :: "'d mpd_lib \<Rightarrow> bool \<Rightarrow> 'd market \<Rightarrow> ('d, 'z) market_state_scheme \<Rightarrow> 'd order \<Rightarrow> 'd order
    \<Rightarrow> 'd market \<times> ('d, 'z) market_state_scheme \<times> 'd order" where
  "limit_bid_fill D is_real m s taker maker =
     (let price = o_price maker;
          amount = (if mpd_cmp D (o_left taker) (o_left maker) < 0 then o_left taker else o_left maker);
          deal = mpd_mul D price amount;
          ask_fee = mpd_mul D deal (o_maker_fee maker);
          bid_fee = mpd_mul D deal (o_taker_fee taker);
          (now, s) = current_timestamp s;
          taker = taker\<lparr>o_update_time := now\<rparr>;
          maker = maker\<lparr>o_update_time := now\<rparr>;
          s = s\<lparr>deals_id_start := deals_id_start s + 1\<rparr>;
          deal_id = deals_id_start s;
          s = (if is_real then
                 push_deal_message D now (m_name m) maker taker price amount ask_fee bid_fee
                   MARKET_ORDER_SIDE_BID deal_id (m_stock m) (m_money m)
                   (append_order_deal_history now deal_id maker MARKET_ROLE_MAKER taker MARKET_ROLE_TAKER
                      price amount deal ask_fee bid_fee s)
               else s);
          taker = taker\<lparr>o_left := mpd_sub D (o_left taker) amount,
                        o_deal_stock := mpd_add D (o_deal_stock taker) amount,
                        o_deal_money := mpd_add D (o_deal_money taker) deal,
                        o_deal_fee := mpd_add D (o_deal_fee taker) bid_fee\<rparr>;
          s = snd (balance_sub D (o_user_id taker) BALANCE_TYPE_AVAILABLE (m_money m) deal s);
          s = (if is_real then append_balance_trade_sub D taker (m_money m) deal price amount s else s);
          s = snd (balance_add D (o_user_id taker) BALANCE_TYPE_AVAILABLE (m_stock m) amount s);
          s = (if is_real then append_balance_trade_add D taker (m_stock m) amount price amount s else s);
          s = (if mpd_cmp D bid_fee (mpd_zero D) > 0 then
                 let s = snd (balance_sub D (o_user_id taker) BALANCE_TYPE_AVAILABLE (m_money m) bid_fee s) in
                 if is_real then append_balance_trade_fee D taker (m_money m) bid_fee price amount (o_taker_fee taker) s
                 else s
               else s);
          maker = maker\<lparr>o_left := mpd_sub D (o_left maker) amount,
                        o_freeze := mpd_sub D (o_freeze maker) amount,
                        o_deal_stock := mpd_add D (o_deal_stock maker) amount,
                        o_deal_money := mpd_add D (o_deal_money maker) deal,
                        o_deal_fee := mpd_add D (o_deal_fee maker) ask_fee\<rparr>;
          s = snd (balance_sub D (o_user_id maker) BALANCE_TYPE_FREEZE (m_stock m) amount s);
          s = (if is_real then append_balance_trade_sub D maker (m_stock m) amount price amount s else s);
          s = snd (balance_add D (o_user_id maker) BALANCE_TYPE_AVAILABLE (m_money m) deal s);
          s = (if is_real then append_balance_trade_add D maker (m_money m) deal price amount s else s);
          s = (if mpd_cmp D ask_fee (mpd_zero D) > 0 then
                 let s = snd (balance_sub D (o_user_id maker) BALANCE_TYPE_AVAILABLE (m_money m) ask_fee s) in
                 if is_real then append_balance_trade_fee D maker (m_money m) ask_fee price amount (o_maker_fee maker) s
                 else s
               else s);
          (m, s) = finish_or_update D is_real m s maker in
      (m, s, taker))"

definition market_ask_fill :: "'d mpd_lib \<Rightarrow> bool \<Rightarrow> 'd market \<Rightarrow> ('d, 'z) market_state_scheme \<Rightarrow> 'd order \<Rightarrow> 'd order
    \<Rightarrow> 'd market \<times> ('d, 'z) market_state_scheme \<times> 'd order" where
  "market_ask_fill D is_real m s taker maker =
     (let price = o_price maker;
          amount = (if mpd_cmp D (o_left taker) (o_left maker) < 0 then o_left taker else o_left maker);
          deal = mpd_mul D price amount;
          ask_fee = mpd_mul D deal (o_taker_fee taker);
          bid_fee = mpd_mul D amount (o_maker_fee maker);
          (now, s) = current_timestamp s;
          taker = taker\<lparr>o_update_time := now\<rparr>;
          maker = maker\<lparr>o_update_time := now\<rparr>;
          s = s\<lparr>deals_id_start := deals_id_start s + 1\<rparr>;
          deal_id = deals_id_start s;
          s = (if is_real then
                 push_deal_message D now (m_name m) taker maker price amount ask_fee bid_fee
                   MARKET_ORDER_SIDE_ASK deal_id (m_stock m) (m_money m)
                   (append_order_deal_history now deal_id taker MARKET_ROLE_TAKER maker MARKET_ROLE_MAKER
                      price amount deal ask_fee bid_fee s)
               else s);
          taker = taker\<lparr>o_left := mpd_sub D (o_left taker) amount,
                        o_deal_stock := mpd_add D (o_deal_stock taker) amount,
                        o_deal_money := mpd_add D (o_deal_money taker) deal,
                        o_deal_fee := mpd_add D (o_deal_fee taker) ask_fee\<rparr>;
          s = snd (balance_sub D (o_user_id taker) BALANCE_TYPE_AVAILABLE (m_stock m) amount s);
          s = (if is_real then append_balance_trade_sub D taker (m_stock m) amount price amount s else s);
          s = snd (balance_add D (o_user_id taker) BALANCE_TYPE_AVAILABLE (m_money m) deal s);
          s = (if is_real then append_balance_trade_add D taker (m_money m) deal price amount s else s);
          s = (if mpd_cmp D ask_fee (mpd_zero D) > 0 then
                 let s = snd (balance_sub D (o_user_id taker) BALANCE_TYPE_AVAILABLE (m_money m) ask_fee s) in
                 if is_real then append_balance_trade_fee D taker (m_money m) ask_fee price amount (o_taker_fee taker) s
                 else s
               else s);
          maker = maker\<lparr>o_left := mpd_sub D (o_left maker) amount,
                        o_freeze := mpd_sub D (o_freeze maker) deal,
                        o_deal_stock := mpd_add D (o_deal_stock maker) amount,
                        o_deal_money := mpd_add D (o_deal_money maker) deal,
                        o_deal_fee := mpd_add D (o_deal_fee maker) bid_fee\<rparr>;
          s = snd (balance_sub D (o_user_id maker) BALANCE_TYPE_FREEZE (m_money m) deal s);
          s = (if is_real then append_balance_trade_sub D maker (m_money m) deal price amount s else s);
          s = snd (balance_add D (o_user_id maker) BALANCE_TYPE_AVAILABLE (m_stock m) amount s);
          s = (if is_real then append_balance_trade_add D maker (m_stock m) amount price amount s else s);
          s = (if mpd_cmp D bid_fee (mpd_zero D) > 0 then
                 let s = snd (balance_sub D (o_user_id maker) BALANCE_TYPE_AVAILABLE (m_stock m) bid_fee s) in
                 if is_real then append_balance_trade_fee D maker (m_stock m) bid_fee price amount (o_maker_fee maker) s
                 else s
               else s);
          (m, s) = finish_or_update D is_real m s maker in
      (m, s, taker))"

text \<open>In a market bid the taker's amount is money; the traded amount has been computed before.\<close>

definition market_bid_fill :: "'d mpd_lib \<Rightarrow> bool \<Rightarrow> 'd market \<Rightarrow> ('d, 'z) market_state_scheme \<Rightarrow> 'd order \<Rightarrow> 'd order
    \<Rightarrow> 'd \<Rightarrow> 'd market \<times> ('d, 'z) market_state_scheme \<times> 'd order" where
  "market_bid_fill D is_real m s taker maker amount =
     (let price = o_price maker;
          deal = mpd_mul D price amount;
          ask_fee = mpd_mul D deal (o_maker_fee maker);
          bid_fee = mpd_mul D amount (o_taker_fee taker);
          (now, s) = current_timestamp s;
          taker = taker\<lparr>o_update_time := now\<rparr>;
          maker = maker\<lparr>o_update_time := now\<rparr>;
          s = s\<lparr>deals_id_start := deals_id_start s + 1\<rparr>;
          deal_id = deals_id_start s;
          s = (if is_real then
                 push_deal_message D now (m_name m) maker taker price amount ask_fee bid_fee
                   MARKET_ORDER_SIDE_BID deal_id (m_stock m) (m_money m)
                   (append_order_deal_history now deal_id maker MARKET_ROLE_MAKER taker MARKET_ROLE_TAKER
                      price amount deal ask_fee bid_fee s)
               else s);
          taker = taker\<lparr>o_left := mpd_sub D (o_left taker) deal,
                        o_deal_stock := mpd_add D (o_deal_stock taker) amount,
                        o_deal_money := mpd_add D (o_deal_money taker) deal,
                        o_deal_fee := mpd_add D (o_deal_fee taker) bid_fee\<rparr>;
          s = snd (balance_sub D (o_user_id taker) BALANCE_TYPE_AVAILABLE (m_money m) deal s);
          s = (if is_real then append_balance_trade_sub D taker (m_money m) deal price amount s else s);
          s = snd (balance_add D (o_user_id taker) BALANCE_TYPE_AVAILABLE (m_stock m) amount s);
          s = (if is_real then append_balance_trade_add D taker (m_stock m) amount price amount s else s);
          s = (if mpd_cmp D bid_fee (mpd_zero D) > 0 then
                 let s = snd (balance_sub D (o_user_id taker) BALANCE_TYPE_AVAILABLE (m_stock m) bid_fee s) in
                 if is_real then append_balance_trade_fee D taker (m_stock m) bid_fee price amount (o_taker_fee taker) s
                 else s
               else s);
          maker = maker\<lparr>o_left := mpd_sub D (o_left maker) amount,
                        o_freeze := mpd_sub D (o_freeze maker) amount,
                        o_deal_stock := mpd_add D (o_deal_stock maker) amount,
                        o_deal_money := mpd_add D (o_deal_money maker) deal,
                        o_deal_fee := mpd_add D (o_deal_fee maker) ask_fee\<rparr>;
          s = snd (balance_sub D (o_user_id maker) BALANCE_TYPE_FREEZE (m_stock m) amount s);
          s = (if is_real then append_balance_trade_sub D maker (m_stock m) amount price amount s else s);
          s = snd (balance_add D (o_user_id maker) BALANCE_TYPE_AVAILABLE (m_money m) deal s);
          s = (if is_real then append_balance_trade_add D maker (m_money m) deal price amount s else s);
          s = (if mpd_cmp D ask_fee (mpd_zero D) > 0 then
                 let s = snd (balance_sub D (o_user_id maker) BALANCE_TYPE_AVAILABLE (m_money m) ask_fee s) in
                 if is_real then append_balance_trade_fee D maker (m_money m) ask_fee price amount (o_maker_fee maker) s
                 else s
               else s);
          (m, s) = finish_or_update D is_real m s maker in
      (m, s, taker))"

text \<open>
  The loops. The iterator has read the successor of the current node before the node is
  processed, and an iteration removes at most the current node, so the loop runs over the nodes
  that were in the list when it started. A pointer to no allocated order would be a use after
  free; the well-formedness of the market excludes it, and the loop stops there.
\<close>

fun execute_limit_ask_order :: "'d mpd_lib \<Rightarrow> bool \<Rightarrow> 'd market \<Rightarrow> ('d, 'z) market_state_scheme \<Rightarrow> 'd order
    \<Rightarrow> u64 list \<Rightarrow> 'd market \<times> ('d, 'z) market_state_scheme \<times> 'd order" where
  "execute_limit_ask_order D is_real m s taker [] = (m, s, taker)"
| "execute_limit_ask_order D is_real m s taker (i # nodes) =
     (if mpd_cmp D (o_left taker) (mpd_zero D) = 0 then (m, s, taker)
      else case m_orders m i of
        None \<Rightarrow> (m, s, taker)
      | Some maker \<Rightarrow>
          if mpd_cmp D (o_price taker) (o_price maker) > 0 then (m, s, taker)
          else
            let (m, s, taker) = limit_ask_fill D is_real m s taker maker in
            execute_limit_ask_order D is_real m s taker nodes)"

fun execute_limit_bid_order :: "'d mpd_lib \<Rightarrow> bool \<Rightarrow> 'd market \<Rightarrow> ('d, 'z) market_state_scheme \<Rightarrow> 'd order
    \<Rightarrow> u64 list \<Rightarrow> 'd market \<times> ('d, 'z) market_state_scheme \<times> 'd order" where
  "execute_limit_bid_order D is_real m s taker [] = (m, s, taker)"
| "execute_limit_bid_order D is_real m s taker (i # nodes) =
     (if mpd_cmp D (o_left taker) (mpd_zero D) = 0 then (m, s, taker)
      else case m_orders m i of
        None \<Rightarrow> (m, s, taker)
      | Some maker \<Rightarrow>
          if mpd_cmp D (o_price taker) (o_price maker) < 0 then (m, s, taker)
          else
            let (m, s, taker) = limit_bid_fill D is_real m s taker maker in
            execute_limit_bid_order D is_real m s taker nodes)"

fun execute_market_ask_order :: "'d mpd_lib \<Rightarrow> bool \<Rightarrow> 'd market \<Rightarrow> ('d, 'z) market_state_scheme \<Rightarrow> 'd order
    \<Rightarrow> u64 list \<Rightarrow> 'd market \<times> ('d, 'z) market_state_scheme \<times> 'd order" where
  "execute_market_ask_order D is_real m s taker [] = (m, s, taker)"
| "execute_market_ask_order D is_real m s taker (i # nodes) =
     (if mpd_cmp D (o_left taker) (mpd_zero D) = 0 then (m, s, taker)
      else case m_orders m i of
        None \<Rightarrow> (m, s, taker)
      | Some maker \<Rightarrow>
          let (m, s, taker) = market_ask_fill D is_real m s taker maker in
          execute_market_ask_order D is_real m s taker nodes)"

text \<open>
  The inner loop of a market bid lowers the amount by one unit of the last place while it costs
  more than what is left. It is not obvious that it ends: \<open>None\<close> is a loop that does not.
\<close>

partial_function (option) market_bid_reduce :: "'d mpd_lib \<Rightarrow> int \<Rightarrow> 'd \<Rightarrow> 'd \<Rightarrow> 'd \<Rightarrow> 'd option" where
  "market_bid_reduce D stock_prec left price amount =
     (let result = mpd_mul D amount price in
      if mpd_cmp D result left > 0 then
        let result = mpd_pow D (mpd_ten D) (mpd_set_i32 D (- stock_prec)) in
        market_bid_reduce D stock_prec left price (mpd_sub D amount result)
      else Some amount)"

definition market_bid_amount :: "'d mpd_lib \<Rightarrow> 'd market \<Rightarrow> 'd order \<Rightarrow> 'd order \<Rightarrow> 'd option" where
  "market_bid_amount D m taker maker =
     (let price = o_price maker;
          amount = mpd_rescale D (mpd_div D (o_left taker) price) (- m_stock_prec m) in
      case market_bid_reduce D (m_stock_prec m) (o_left taker) price amount of
        None \<Rightarrow> None
      | Some amount \<Rightarrow> Some (if mpd_cmp D amount (o_left maker) > 0 then o_left maker else amount))"

fun execute_market_bid_order :: "'d mpd_lib \<Rightarrow> bool \<Rightarrow> 'd market \<Rightarrow> ('d, 'z) market_state_scheme \<Rightarrow> 'd order
    \<Rightarrow> u64 list \<Rightarrow> ('d market \<times> ('d, 'z) market_state_scheme \<times> 'd order) option" where
  "execute_market_bid_order D is_real m s taker [] = Some (m, s, taker)"
| "execute_market_bid_order D is_real m s taker (i # nodes) =
     (if mpd_cmp D (o_left taker) (mpd_zero D) = 0 then Some (m, s, taker)
      else case m_orders m i of
        None \<Rightarrow> Some (m, s, taker)
      | Some maker \<Rightarrow>
          (case market_bid_amount D m taker maker of
             None \<Rightarrow> None
           | Some amount \<Rightarrow>
               if mpd_cmp D amount (mpd_zero D) = 0 then Some (m, s, taker)
               else
                 let (m, s, taker) = market_bid_fill D is_real m s taker maker amount in
                 execute_market_bid_order D is_real m s taker nodes))"

section \<open>The interface of the market\<close>

definition new_order :: "'d mpd_lib \<Rightarrow> 'd market \<Rightarrow> u64 \<Rightarrow> u32 \<Rightarrow> u32 \<Rightarrow> timestamp \<Rightarrow> u32 \<Rightarrow> string
    \<Rightarrow> 'd \<Rightarrow> 'd \<Rightarrow> 'd \<Rightarrow> 'd \<Rightarrow> 'd order" where
  "new_order D m i type side now user_id source price amount taker_fee maker_fee =
     \<lparr> o_id = i, o_type = type, o_side = side, o_create_time = now, o_update_time = now,
       o_user_id = user_id, o_market = m_name m, o_source = Some source,
       o_price = price, o_amount = amount, o_taker_fee = taker_fee, o_maker_fee = maker_fee,
       o_left = amount, o_freeze = mpd_zero D, o_deal_stock = mpd_zero D,
       o_deal_money = mpd_zero D, o_deal_fee = mpd_zero D \<rparr>"

definition limit_order_funded :: "'d mpd_lib \<Rightarrow> 'd market \<Rightarrow> ('d, 'z) market_state_scheme \<Rightarrow> u32 \<Rightarrow> u32
    \<Rightarrow> 'd \<Rightarrow> 'd \<Rightarrow> bool" where
  "limit_order_funded D m s user_id side amount price =
     (if side = MARKET_ORDER_SIDE_ASK then
        (case balance_get s user_id BALANCE_TYPE_AVAILABLE (m_stock m) of
           None \<Rightarrow> False
         | Some balance \<Rightarrow> \<not> mpd_cmp D balance amount < 0)
      else
        (case balance_get s user_id BALANCE_TYPE_AVAILABLE (m_money m) of
           None \<Rightarrow> False
         | Some balance \<Rightarrow> \<not> mpd_cmp D balance (mpd_mul D amount price) < 0))"

text \<open>
  The part of \<open>market_put_limit_order\<close> after the loop: a filled order goes to the history, the
  rest of an order that is not filled goes into the book. The code of a failing \<open>order_put\<close> is
  only logged.
\<close>

definition settle_limit_order :: "'d mpd_lib \<Rightarrow> bool \<Rightarrow> 'd market \<Rightarrow> ('d, 'z) market_state_scheme \<Rightarrow> 'd order
    \<Rightarrow> json option \<times> 'd market \<times> ('d, 'z) market_state_scheme" where
  "settle_limit_order D is_real m s order =
     (let result = (if is_real then Some (get_order_info D order) else None) in
      if mpd_cmp D (o_left order) (mpd_zero D) = 0 then
        let s = (if is_real then
                   push_order_message D ORDER_EVENT_FINISH order (m_stock m) (m_money m)
                     (append_order_history order s)
                 else s) in
        (result, m, s)
      else
        let s = (if is_real then push_order_message D ORDER_EVENT_PUT order (m_stock m) (m_money m) s else s);
            (_, m, s) = order_put D m s order in
        (result, m, s))"

definition market_put_limit_order :: "'d mpd_lib \<Rightarrow> bool \<Rightarrow> 'd market \<Rightarrow> ('d, 'z) market_state_scheme
    \<Rightarrow> u32 \<Rightarrow> u32 \<Rightarrow> 'd \<Rightarrow> 'd \<Rightarrow> 'd \<Rightarrow> 'd \<Rightarrow> string
    \<Rightarrow> int \<times> json option \<times> 'd market \<times> ('d, 'z) market_state_scheme" where
  "market_put_limit_order D is_real m s user_id side amount price taker_fee maker_fee source =
     (if \<not> limit_order_funded D m s user_id side amount price then (- 1, None, m, s)
      else if mpd_cmp D amount (m_min_amount m) < 0 then (- 2, None, m, s)
      else
        let s = s\<lparr>order_id_start := order_id_start s + 1\<rparr>;
            i = order_id_start s;
            (now, s) = current_timestamp s;
            order = new_order D m i MARKET_ORDER_TYPE_LIMIT side now user_id source
                      price amount taker_fee maker_fee;
            (m, s, order) =
              (if side = MARKET_ORDER_SIDE_ASK
               then execute_limit_ask_order D is_real m s order (m_bids m)
               else execute_limit_bid_order D is_real m s order (m_asks m)) in
        (0, settle_limit_order D is_real m s order))"

definition market_order_check :: "'d mpd_lib \<Rightarrow> 'd market \<Rightarrow> ('d, 'z) market_state_scheme \<Rightarrow> u32 \<Rightarrow> u32 \<Rightarrow> 'd \<Rightarrow> int" where
  "market_order_check D m s user_id side amount =
     (if side = MARKET_ORDER_SIDE_ASK then
        (case balance_get s user_id BALANCE_TYPE_AVAILABLE (m_stock m) of
           None \<Rightarrow> - 1
         | Some balance \<Rightarrow>
             if mpd_cmp D balance amount < 0 then - 1
             else if m_bids m = [] then - 3
             else if mpd_cmp D amount (m_min_amount m) < 0 then - 2
             else 0)
      else
        (case balance_get s user_id BALANCE_TYPE_AVAILABLE (m_money m) of
           None \<Rightarrow> - 1
         | Some balance \<Rightarrow>
             if mpd_cmp D balance amount < 0 then - 1
             else case m_asks m of
               [] \<Rightarrow> - 3
             | i # _ \<Rightarrow>
                 (case m_orders m i of
                    None \<Rightarrow> - 3
                  | Some order \<Rightarrow>
                      if mpd_cmp D amount (mpd_mul D (o_price order) (m_min_amount m)) < 0 then - 2
                      else 0)))"

text \<open>\<open>None\<close>: the matching loop of a market bid does not end.\<close>

definition market_put_market_order :: "'d mpd_lib \<Rightarrow> bool \<Rightarrow> 'd market \<Rightarrow> ('d, 'z) market_state_scheme
    \<Rightarrow> u32 \<Rightarrow> u32 \<Rightarrow> 'd \<Rightarrow> 'd \<Rightarrow> string
    \<Rightarrow> (int \<times> json option \<times> 'd market \<times> ('d, 'z) market_state_scheme) option" where
  "market_put_market_order D is_real m s user_id side amount taker_fee source =
     (let ret = market_order_check D m s user_id side amount in
      if ret \<noteq> 0 then Some (ret, None, m, s)
      else
        let s = s\<lparr>order_id_start := order_id_start s + 1\<rparr>;
            i = order_id_start s;
            (now, s) = current_timestamp s;
            order = new_order D m i MARKET_ORDER_TYPE_MARKET side now user_id source
                      (mpd_zero D) amount taker_fee (mpd_zero D) in
        case (if side = MARKET_ORDER_SIDE_ASK
              then Some (execute_market_ask_order D is_real m s order (m_bids m))
              else execute_market_bid_order D is_real m s order (m_asks m)) of
          None \<Rightarrow> None
        | Some (m, s, order) \<Rightarrow>
            let s = (if is_real then
                       push_order_message D ORDER_EVENT_FINISH order (m_stock m) (m_money m)
                         (append_order_history order s)
                     else s) in
            Some (0, (if is_real then Some (get_order_info D order) else None), m, s))"

definition market_cancel_order :: "'d mpd_lib \<Rightarrow> bool \<Rightarrow> 'd market \<Rightarrow> ('d, 'z) market_state_scheme \<Rightarrow> 'd order
    \<Rightarrow> int \<times> json option \<times> 'd market \<times> ('d, 'z) market_state_scheme" where
  "market_cancel_order D is_real m s order =
     (let s = (if is_real then push_order_message D ORDER_EVENT_FINISH order (m_stock m) (m_money m) s else s);
          result = (if is_real then Some (get_order_info D order) else None);
          (_, m, s) = order_finish D is_real m s order in
      (0, result, m, s))"

definition market_put_order :: "'d mpd_lib \<Rightarrow> 'd market \<Rightarrow> ('d, 'z) market_state_scheme \<Rightarrow> 'd order
    \<Rightarrow> int \<times> 'd market \<times> ('d, 'z) market_state_scheme" where
  "market_put_order D m s order = order_put D m s order"

definition market_get_order :: "'d market \<Rightarrow> u64 \<Rightarrow> 'd order option" where
  "market_get_order m order_id = m_orders m order_id"

definition market_get_order_list :: "'d market \<Rightarrow> u32 \<Rightarrow> u64 list option" where
  "market_get_order_list m user_id = m_users m user_id"

fun sum_left :: "'d mpd_lib \<Rightarrow> 'd market \<Rightarrow> 'd \<Rightarrow> u64 list \<Rightarrow> 'd" where
  "sum_left D m acc [] = acc"
| "sum_left D m acc (i # nodes) =
     (case m_orders m i of
        None \<Rightarrow> acc
      | Some order \<Rightarrow> sum_left D m (mpd_add D acc (o_left order)) nodes)"

definition market_get_status :: "'d mpd_lib \<Rightarrow> 'd market \<Rightarrow> nat \<times> 'd \<times> nat \<times> 'd" where
  "market_get_status D m =
     (length (m_asks m), sum_left D m (mpd_zero D) (m_asks m),
      length (m_bids m), sum_left D m (mpd_zero D) (m_bids m))"

definition market_status :: "('d, 'z) market_state_scheme \<Rightarrow> string \<Rightarrow> string" where
  "market_status s reply =
     (let reply = reply @ ''order last ID: '' @ nat_digits (unat (order_id_start s)) @ [CHR 0x0A];
          reply = reply @ ''deals last ID: '' @ nat_digits (unat (deals_id_start s)) @ [CHR 0x0A] in
      reply)"

end
