(* ===== verification/Matching.thy ===== *)
theory Matching
  imports Market
begin

text \<open>
  The four loop bodies of \<open>me_market.c\<close> are one transaction with different arguments: six moves on
  the ledger with reports in between, then the maker is updated or finished. This theory states
  that transaction once (\<open>exchange\<close>, \<open>fill\<close>), shows that each loop body is an instance of it, and
  gives the four loops one induction rule. What the reports do to the state is abstracted by
  \<open>quiet\<close>: they add to the log of reports and change nothing else.
\<close>

section \<open>States that differ in their reports only\<close>

definition same_core :: "('d, 'z) history_state_scheme \<Rightarrow> ('d, 'z) history_state_scheme \<Rightarrow> bool" where
  "same_core s t \<longleftrightarrow> t = s\<lparr>reports := reports t\<rparr>"

definition quiet :: "(('d, 'z) history_state_scheme \<Rightarrow> ('d, 'z) history_state_scheme) \<Rightarrow> bool" where
  "quiet f \<longleftrightarrow> (\<forall>s. same_core s (f s))"

lemma same_core_iff:
  "same_core s t \<longleftrightarrow> dict_balance t = dict_balance s \<and> dict_asset t = dict_asset s
     \<and> history_state.more t = history_state.more s"
  by (cases s; cases t) (auto simp: same_core_def)

lemma same_core_refl [simp, intro]: "same_core s s"
  by (simp add: same_core_iff)

lemma same_core_sym: "same_core s t \<Longrightarrow> same_core t s"
  by (simp add: same_core_iff)

lemma same_core_trans: "same_core s t \<Longrightarrow> same_core t r \<Longrightarrow> same_core s r"
  by (simp add: same_core_iff)

lemma same_core_reports [simp]: "same_core s (s\<lparr>reports := r\<rparr>)"
  by (simp add: same_core_iff)

lemma quietD: "quiet f \<Longrightarrow> same_core s (f s)"
  by (simp add: quiet_def)

lemma quiet_id [simp]: "quiet (\<lambda>s. s)"
  by (simp add: quiet_def)

lemma quiet_if [intro]: "(b \<Longrightarrow> quiet f) \<Longrightarrow> quiet (\<lambda>s. if b then f s else s)"
  by (auto simp: quiet_def)

lemma quiet_comp: "quiet f \<Longrightarrow> quiet g \<Longrightarrow> quiet (\<lambda>s. f (g s))"
  unfolding quiet_def by (meson same_core_trans)

lemma quiet_reports [simp]:
  "quiet (append_order_history ord)"
  "quiet (append_order_deal_history t i a ar b br p am d af bf)"
  "quiet (append_balance_trade_add D ord as c p am)"
  "quiet (append_balance_trade_sub D ord as c p am)"
  "quiet (append_balance_trade_fee D ord as c p am rate)"
  "quiet (push_balance_message D t u as bs c)"
  "quiet (push_order_message D e ord st mo)"
  "quiet (push_deal_message D t mk a b p am af bf sd i st mo)"
  by (simp_all add: quiet_def same_core_iff append_balance_trade_add_def append_balance_trade_sub_def
      append_balance_trade_fee_def frames)

section \<open>The ledger operations do not look at the reports\<close>

lemma balance_set_core:
  "same_core s t \<Longrightarrow> fst (balance_set D u ty a x s) = fst (balance_set D u ty a x t)
     \<and> same_core (snd (balance_set D u ty a x s)) (snd (balance_set D u ty a x t))"
  by (auto simp: same_core_iff balance_set_def get_asset_type_def balance_del_def balance_store_def Let_def
      split: option.splits)

lemma balance_get_core: "same_core s t \<Longrightarrow> balance_get t = balance_get s"
  by (simp add: same_core_iff balance_get_def fun_eq_iff)

lemma balance_add_core:
  assumes "same_core s t"
  shows "fst (balance_add D u ty a x s) = fst (balance_add D u ty a x t)"
    "same_core (snd (balance_add D u ty a x s)) (snd (balance_add D u ty a x t))"
  using assms balance_set_core [OF assms, of D u ty a x] balance_get_core [OF assms]
  by (auto simp: balance_add_def same_core_iff get_asset_type_def balance_store_def Let_def
      split: option.splits)

lemma balance_sub_core:
  assumes "same_core s t"
  shows "fst (balance_sub D u ty a x s) = fst (balance_sub D u ty a x t)"
    "same_core (snd (balance_sub D u ty a x s)) (snd (balance_sub D u ty a x t))"
  using assms balance_get_core [OF assms]
  by (auto simp: balance_sub_def same_core_iff get_asset_type_def balance_del_def balance_store_def Let_def
      split: option.splits)

lemma balance_shift_core:
  assumes "same_core s t"
  shows "fst (balance_shift D t1 t2 u a x s) = fst (balance_shift D t1 t2 u a x t) \<and>
    same_core (snd (balance_shift D t1 t2 u a x s)) (snd (balance_shift D t1 t2 u a x t))"
proof -
  obtain r s1 where s1: "balance_add D u t2 a x s = (r, s1)"
    by fastforce
  obtain q t1' where t1: "balance_add D u t2 a x t = (q, t1')"
    by fastforce
  note add = balance_add_core [OF assms, of D u t2 a x, unfolded s1 t1, simplified]
  from assms have "get_asset_type t a = get_asset_type s a"
    by (simp add: same_core_iff get_asset_type_def)
  then show ?thesis
    using assms add balance_get_core [OF assms]
    by (auto simp: balance_shift_def s1 t1 same_core_iff balance_del_def balance_store_def Let_def
        split: option.splits)
qed

text \<open>The fields above the ledger are not touched.\<close>

lemma balance_ops_more [frames]:
  "balance_state.more (snd (balance_set D u ty a x s)) = balance_state.more s"
  "balance_state.more (snd (balance_add D u ty a x s)) = balance_state.more s"
  "balance_state.more (snd (balance_sub D u ty a x s)) = balance_state.more s"
  "dict_asset (snd (balance_set D u ty a x s)) = dict_asset s"
  "dict_asset (snd (balance_add D u ty a x s)) = dict_asset s"
  "dict_asset (snd (balance_sub D u ty a x s)) = dict_asset s"
  by (simp_all add: balance_set_def balance_add_def balance_sub_def balance_del_def balance_store_def Let_def
      split: option.split)

lemma balance_shift_more [frames]:
  "balance_state.more (snd (balance_shift D t1 t2 u a x s)) = balance_state.more s"
  "dict_asset (snd (balance_shift D t1 t2 u a x s)) = dict_asset s"
  using balance_ops_more(2,5) [of D u t2 a x s]
  by (auto simp: balance_shift_def balance_del_def balance_store_def Let_def split: option.split prod.split)

section \<open>The transaction of a fill\<close>

text \<open>
  The taker gives \<open>x\<close> of the asset \<open>gives\<close> from its available balance and gets \<open>y\<close> of \<open>gets\<close>; the
  maker pays \<open>y\<close> from its frozen balance and gets \<open>x\<close>. Both pay a fee when it is positive.
\<close>

definition exchange :: "'d mpd_lib \<Rightarrow> (nat \<Rightarrow> ('d, 'z) history_state_scheme \<Rightarrow> ('d, 'z) history_state_scheme)
    \<Rightarrow> u32 \<Rightarrow> u32 \<Rightarrow> string \<Rightarrow> 'd \<Rightarrow> string \<Rightarrow> 'd \<Rightarrow> string \<Rightarrow> 'd \<Rightarrow> string \<Rightarrow> 'd
    \<Rightarrow> ('d, 'z) history_state_scheme \<Rightarrow> ('d, 'z) history_state_scheme" where
  "exchange D q tu mu gives x gets y tfa tfee mfa mfee s =
     (let s = q 0 s;
          s = q 1 (snd (balance_sub D tu BALANCE_TYPE_AVAILABLE gives x s));
          s = q 2 (snd (balance_add D tu BALANCE_TYPE_AVAILABLE gets y s));
          s = (if mpd_cmp D tfee (mpd_zero D) > 0
               then q 3 (snd (balance_sub D tu BALANCE_TYPE_AVAILABLE tfa tfee s)) else s);
          s = q 4 (snd (balance_sub D mu BALANCE_TYPE_FREEZE gets y s));
          s = q 5 (snd (balance_add D mu BALANCE_TYPE_AVAILABLE gives x s)) in
      if mpd_cmp D mfee (mpd_zero D) > 0
      then q 6 (snd (balance_sub D mu BALANCE_TYPE_AVAILABLE mfa mfee s)) else s)"

definition dealt :: "'d mpd_lib \<Rightarrow> 'd \<Rightarrow> 'd \<Rightarrow> 'd \<Rightarrow> 'd \<Rightarrow> 'd order \<Rightarrow> 'd order" where
  "dealt D used amount deal fee a =
     a\<lparr>o_left := mpd_sub D (o_left a) used,
       o_deal_stock := mpd_add D (o_deal_stock a) amount,
       o_deal_money := mpd_add D (o_deal_money a) deal,
       o_deal_fee := mpd_add D (o_deal_fee a) fee\<rparr>"

definition dealt_maker :: "'d mpd_lib \<Rightarrow> 'd \<Rightarrow> 'd \<Rightarrow> 'd \<Rightarrow> 'd \<Rightarrow> 'd order \<Rightarrow> 'd order" where
  "dealt_maker D amount deal paid fee a =
     a\<lparr>o_left := mpd_sub D (o_left a) amount,
       o_freeze := mpd_sub D (o_freeze a) paid,
       o_deal_stock := mpd_add D (o_deal_stock a) amount,
       o_deal_money := mpd_add D (o_deal_money a) deal,
       o_deal_fee := mpd_add D (o_deal_fee a) fee\<rparr>"

text \<open>The reports of a fill, in the order of the transaction; none when the engine replays its log.\<close>

definition fill :: "'d mpd_lib \<Rightarrow> bool \<Rightarrow> (nat \<Rightarrow> ('d, 'z) market_state_scheme \<Rightarrow> ('d, 'z) market_state_scheme)
    \<Rightarrow> 'd market \<Rightarrow> ('d, 'z) market_state_scheme \<Rightarrow> 'd order \<Rightarrow> 'd order \<Rightarrow> 'd \<Rightarrow> 'd \<Rightarrow> 'd
    \<Rightarrow> string \<Rightarrow> 'd \<Rightarrow> string \<Rightarrow> 'd \<Rightarrow> string \<Rightarrow> 'd \<Rightarrow> string \<Rightarrow> 'd
    \<Rightarrow> 'd market \<times> ('d, 'z) market_state_scheme \<times> 'd order" where
  "fill D is_real q m s taker maker used amount deal gives x gets y tfa tfee mfa mfee =
     (let (now, s) = current_timestamp s;
          taker = dealt D used amount deal tfee (taker\<lparr>o_update_time := now\<rparr>);
          maker = dealt_maker D amount deal y mfee (maker\<lparr>o_update_time := now\<rparr>);
          s = exchange D q (o_user_id taker) (o_user_id maker) gives x gets y tfa tfee mfa mfee
                (s\<lparr>deals_id_start := deals_id_start s + 1\<rparr>);
          (m, s) = finish_or_update D is_real m s maker in
      (m, s, taker))"

definition seq7 :: "('s \<Rightarrow> 's) \<Rightarrow> ('s \<Rightarrow> 's) \<Rightarrow> ('s \<Rightarrow> 's) \<Rightarrow> ('s \<Rightarrow> 's) \<Rightarrow> ('s \<Rightarrow> 's) \<Rightarrow> ('s \<Rightarrow> 's) \<Rightarrow> ('s \<Rightarrow> 's)
    \<Rightarrow> nat \<Rightarrow> 's \<Rightarrow> 's" where
  "seq7 f0 f1 f2 f3 f4 f5 f6 n = [f0, f1, f2, f3, f4, f5, f6] ! n"

lemma seq7_simps [simp]:
  "seq7 f0 f1 f2 f3 f4 f5 f6 0 = f0" "seq7 f0 f1 f2 f3 f4 f5 f6 1 = f1" "seq7 f0 f1 f2 f3 f4 f5 f6 (Suc 0) = f1"
  "seq7 f0 f1 f2 f3 f4 f5 f6 2 = f2" "seq7 f0 f1 f2 f3 f4 f5 f6 3 = f3" "seq7 f0 f1 f2 f3 f4 f5 f6 4 = f4"
  "seq7 f0 f1 f2 f3 f4 f5 f6 5 = f5" "seq7 f0 f1 f2 f3 f4 f5 f6 6 = f6"
  by (simp_all add: seq7_def)

definition reporters :: "bool \<Rightarrow> (nat \<Rightarrow> ('d, 'z) history_state_scheme \<Rightarrow> ('d, 'z) history_state_scheme) \<Rightarrow> bool" where
  "reporters is_real q \<longleftrightarrow> (\<forall>n < 7. quiet (q n)) \<and> (is_real \<or> (\<forall>n < 7. q n = (\<lambda>s. s)))"

lemma reporters_seq7:
  assumes "quiet f0" "quiet f1" "quiet f2" "quiet f3" "quiet f4" "quiet f5" "quiet f6"
  shows "reporters is_real (if is_real then seq7 f0 f1 f2 f3 f4 f5 f6 else (\<lambda>_ s. s))"
  using assms by (auto simp: reporters_def seq7_def less_Suc_eq numeral_eq_Suc)

lemma quiet_deal [simp]:
  "quiet (\<lambda>s. push_deal_message D t mk a b p am af bf sd (i s) st mo
     (append_order_deal_history t (i s) a ar b br p am d af bf s))"
  by (simp add: quiet_def same_core_iff frames)

lemmas fill_steps = fill_def exchange_def current_timestamp_def dealt_def dealt_maker_def
  Let_def prod.case if_True if_False seq7_simps

lemma limit_ask_fill_shape:
  assumes "amount = (if mpd_cmp D (o_left taker) (o_left maker) < 0 then o_left taker else o_left maker)"
    and "deal = mpd_mul D (o_price maker) amount"
  shows "\<exists>q. reporters is_real q \<and>
    limit_ask_fill D is_real m s taker maker =
      fill D is_real q m s taker maker amount amount deal (m_stock m) amount (m_money m) deal
        (m_money m) (mpd_mul D deal (o_taker_fee taker)) (m_money m) (mpd_mul D deal (o_maker_fee maker))"
proof (intro exI conjI)
  let ?now = "clock s (ticks s)" and ?p = "o_price maker"
  let ?tfee = "mpd_mul D deal (o_taker_fee taker)" and ?mfee = "mpd_mul D deal (o_maker_fee maker)"
  let ?tk = "taker\<lparr>o_update_time := ?now\<rparr>" and ?mk = "maker\<lparr>o_update_time := ?now\<rparr>"
  let ?t = "dealt D amount amount deal ?tfee ?tk" and ?m = "dealt_maker D amount deal deal ?mfee ?mk"
  let ?f = "\<lambda>s. push_deal_message D ?now (m_name m) ?tk ?mk ?p amount ?tfee ?mfee
                   MARKET_ORDER_SIDE_ASK (deals_id_start s) (m_stock m) (m_money m)
                   (append_order_deal_history ?now (deals_id_start s) ?tk MARKET_ROLE_TAKER ?mk MARKET_ROLE_MAKER
                      ?p amount deal ?tfee ?mfee s)"
  let ?q = "if is_real then seq7 ?f
    (append_balance_trade_sub D ?t (m_stock m) amount ?p amount)
    (append_balance_trade_add D ?t (m_money m) deal ?p amount)
    (append_balance_trade_fee D ?t (m_money m) ?tfee ?p amount (o_taker_fee ?t))
    (append_balance_trade_sub D ?m (m_money m) deal ?p amount)
    (append_balance_trade_add D ?m (m_stock m) amount ?p amount)
    (append_balance_trade_fee D ?m (m_money m) ?mfee ?p amount (o_maker_fee ?m)) else (\<lambda>_ s. s)"
  show "reporters is_real ?q"
    by (rule reporters_seq7) simp_all
  show "limit_ask_fill D is_real m s taker maker =
      fill D is_real ?q m s taker maker amount amount deal (m_stock m) amount (m_money m) deal (m_money m) ?tfee (m_money m) ?mfee"
    by (cases is_real) (simp_all only: limit_ask_fill_def fill_steps flip: assms)
qed

lemma limit_bid_fill_shape:
  assumes "amount = (if mpd_cmp D (o_left taker) (o_left maker) < 0 then o_left taker else o_left maker)"
    and "deal = mpd_mul D (o_price maker) amount"
  shows "\<exists>q. reporters is_real q \<and>
    limit_bid_fill D is_real m s taker maker =
      fill D is_real q m s taker maker amount amount deal (m_money m) deal (m_stock m) amount
        (m_money m) (mpd_mul D deal (o_taker_fee taker)) (m_money m) (mpd_mul D deal (o_maker_fee maker))"
proof (intro exI conjI)
  let ?now = "clock s (ticks s)" and ?p = "o_price maker"
  let ?tfee = "mpd_mul D deal (o_taker_fee taker)" and ?mfee = "mpd_mul D deal (o_maker_fee maker)"
  let ?tk = "taker\<lparr>o_update_time := ?now\<rparr>" and ?mk = "maker\<lparr>o_update_time := ?now\<rparr>"
  let ?t = "dealt D amount amount deal ?tfee ?tk" and ?m = "dealt_maker D amount deal amount ?mfee ?mk"
  let ?f = "\<lambda>s. push_deal_message D ?now (m_name m) ?mk ?tk ?p amount ?mfee ?tfee
                   MARKET_ORDER_SIDE_BID (deals_id_start s) (m_stock m) (m_money m)
                   (append_order_deal_history ?now (deals_id_start s) ?mk MARKET_ROLE_MAKER ?tk MARKET_ROLE_TAKER
                      ?p amount deal ?mfee ?tfee s)"
  let ?q = "if is_real then seq7 ?f
    (append_balance_trade_sub D ?t (m_money m) deal ?p amount)
    (append_balance_trade_add D ?t (m_stock m) amount ?p amount)
    (append_balance_trade_fee D ?t (m_money m) ?tfee ?p amount (o_taker_fee ?t))
    (append_balance_trade_sub D ?m (m_stock m) amount ?p amount)
    (append_balance_trade_add D ?m (m_money m) deal ?p amount)
    (append_balance_trade_fee D ?m (m_money m) ?mfee ?p amount (o_maker_fee ?m)) else (\<lambda>_ s. s)"
  show "reporters is_real ?q"
    by (rule reporters_seq7) simp_all
  show "limit_bid_fill D is_real m s taker maker =
      fill D is_real ?q m s taker maker amount amount deal (m_money m) deal (m_stock m) amount (m_money m) ?tfee (m_money m) ?mfee"
    by (cases is_real) (simp_all only: limit_bid_fill_def fill_steps flip: assms)
qed

lemma market_ask_fill_shape:
  assumes "amount = (if mpd_cmp D (o_left taker) (o_left maker) < 0 then o_left taker else o_left maker)"
    and "deal = mpd_mul D (o_price maker) amount"
  shows "\<exists>q. reporters is_real q \<and>
    market_ask_fill D is_real m s taker maker =
      fill D is_real q m s taker maker amount amount deal (m_stock m) amount (m_money m) deal
        (m_money m) (mpd_mul D deal (o_taker_fee taker)) (m_stock m) (mpd_mul D amount (o_maker_fee maker))"
proof (intro exI conjI)
  let ?now = "clock s (ticks s)" and ?p = "o_price maker"
  let ?tfee = "mpd_mul D deal (o_taker_fee taker)" and ?mfee = "mpd_mul D amount (o_maker_fee maker)"
  let ?tk = "taker\<lparr>o_update_time := ?now\<rparr>" and ?mk = "maker\<lparr>o_update_time := ?now\<rparr>"
  let ?t = "dealt D amount amount deal ?tfee ?tk" and ?m = "dealt_maker D amount deal deal ?mfee ?mk"
  let ?f = "\<lambda>s. push_deal_message D ?now (m_name m) ?tk ?mk ?p amount ?tfee ?mfee
                   MARKET_ORDER_SIDE_ASK (deals_id_start s) (m_stock m) (m_money m)
                   (append_order_deal_history ?now (deals_id_start s) ?tk MARKET_ROLE_TAKER ?mk MARKET_ROLE_MAKER
                      ?p amount deal ?tfee ?mfee s)"
  let ?q = "if is_real then seq7 ?f
    (append_balance_trade_sub D ?t (m_stock m) amount ?p amount)
    (append_balance_trade_add D ?t (m_money m) deal ?p amount)
    (append_balance_trade_fee D ?t (m_money m) ?tfee ?p amount (o_taker_fee ?t))
    (append_balance_trade_sub D ?m (m_money m) deal ?p amount)
    (append_balance_trade_add D ?m (m_stock m) amount ?p amount)
    (append_balance_trade_fee D ?m (m_stock m) ?mfee ?p amount (o_maker_fee ?m)) else (\<lambda>_ s. s)"
  show "reporters is_real ?q"
    by (rule reporters_seq7) simp_all
  show "market_ask_fill D is_real m s taker maker =
      fill D is_real ?q m s taker maker amount amount deal (m_stock m) amount (m_money m) deal (m_money m) ?tfee (m_stock m) ?mfee"
    by (cases is_real) (simp_all only: market_ask_fill_def fill_steps flip: assms)
qed

lemma market_bid_fill_shape:
  assumes "deal = mpd_mul D (o_price maker) amount"
  shows "\<exists>q. reporters is_real q \<and>
    market_bid_fill D is_real m s taker maker amount =
      fill D is_real q m s taker maker deal amount deal (m_money m) deal (m_stock m) amount
        (m_stock m) (mpd_mul D amount (o_taker_fee taker)) (m_money m) (mpd_mul D deal (o_maker_fee maker))"
proof (intro exI conjI)
  let ?now = "clock s (ticks s)" and ?p = "o_price maker"
  let ?tfee = "mpd_mul D amount (o_taker_fee taker)" and ?mfee = "mpd_mul D deal (o_maker_fee maker)"
  let ?tk = "taker\<lparr>o_update_time := ?now\<rparr>" and ?mk = "maker\<lparr>o_update_time := ?now\<rparr>"
  let ?t = "dealt D deal amount deal ?tfee ?tk" and ?m = "dealt_maker D amount deal amount ?mfee ?mk"
  let ?f = "\<lambda>s. push_deal_message D ?now (m_name m) ?mk ?tk ?p amount ?mfee ?tfee
                   MARKET_ORDER_SIDE_BID (deals_id_start s) (m_stock m) (m_money m)
                   (append_order_deal_history ?now (deals_id_start s) ?mk MARKET_ROLE_MAKER ?tk MARKET_ROLE_TAKER
                      ?p amount deal ?mfee ?tfee s)"
  let ?q = "if is_real then seq7 ?f
    (append_balance_trade_sub D ?t (m_money m) deal ?p amount)
    (append_balance_trade_add D ?t (m_stock m) amount ?p amount)
    (append_balance_trade_fee D ?t (m_stock m) ?tfee ?p amount (o_taker_fee ?t))
    (append_balance_trade_sub D ?m (m_stock m) amount ?p amount)
    (append_balance_trade_add D ?m (m_money m) deal ?p amount)
    (append_balance_trade_fee D ?m (m_money m) ?mfee ?p amount (o_maker_fee ?m)) else (\<lambda>_ s. s)"
  show "reporters is_real ?q"
    by (rule reporters_seq7) simp_all
  show "market_bid_fill D is_real m s taker maker amount =
      fill D is_real ?q m s taker maker deal amount deal (m_money m) deal (m_stock m) amount (m_stock m) ?tfee (m_money m) ?mfee"
    by (cases is_real) (simp_all only: market_bid_fill_def fill_steps flip: assms)
qed

end
