(* ===== verification/Book_Facts.thy ===== *)
theory Book_Facts
  imports Matching
begin

text \<open>
  The well-formedness of a market: the amounts of its orders, the price-time order of its books
  and the index of the orders by user. The facts about the skiplists come from the
  interpretations \<open>book\<close> and \<open>user_list\<close> of the contract \<open>ordered_by\<close>.
\<close>

section \<open>Well-formed orders and markets\<close>

definition nonneg :: "('d \<Rightarrow> rat option) \<Rightarrow> 'd \<Rightarrow> bool" where
  "nonneg val d \<longleftrightarrow> (case val d of Some x \<Rightarrow> 0 \<le> x | None \<Rightarrow> False)"

definition finite_val :: "('d \<Rightarrow> rat option) \<Rightarrow> 'd \<Rightarrow> bool" where
  "finite_val val d \<longleftrightarrow> val d \<noteq> None"

definition side_ok :: "u32 \<Rightarrow> bool" where
  "side_ok side \<longleftrightarrow> side = MARKET_ORDER_SIDE_ASK \<or> side = MARKET_ORDER_SIDE_BID"

text \<open>The amounts every order has; a resting order is a limit order with a positive price.\<close>

definition amounts_ok :: "('d \<Rightarrow> rat option) \<Rightarrow> 'd order \<Rightarrow> bool" where
  "amounts_ok val a \<longleftrightarrow> nonneg val (o_left a) \<and> finite_val val (o_freeze a)
     \<and> nonneg val (o_taker_fee a) \<and> nonneg val (o_maker_fee a)
     \<and> nonneg val (o_deal_stock a) \<and> nonneg val (o_deal_money a) \<and> nonneg val (o_deal_fee a)"

definition order_ok :: "('d \<Rightarrow> rat option) \<Rightarrow> 'd order \<Rightarrow> bool" where
  "order_ok val a \<longleftrightarrow> o_type a = MARKET_ORDER_TYPE_LIMIT \<and> side_ok (o_side a)
     \<and> (\<exists>p. val (o_price a) = Some p \<and> 0 < p) \<and> amounts_ok val a"

text \<open>
  Price-time priority: the better price first (the lower ask, the higher bid), of two orders with
  the same price the one with the smaller id, which is the older one.
\<close>

definition ahead :: "('d \<Rightarrow> rat option) \<Rightarrow> (u64 \<rightharpoonup> 'd order) \<Rightarrow> u32 \<Rightarrow> u64 \<Rightarrow> u64 \<Rightarrow> bool" where
  "ahead val h side i j \<longleftrightarrow>
     (let p = match_price val side (the (h i)); q = match_price val side (the (h j)) in p < q \<or> p = q \<and> i < j)"

definition book_ok :: "('d \<Rightarrow> rat option) \<Rightarrow> (u64 \<rightharpoonup> 'd order) \<Rightarrow> u32 \<Rightarrow> u64 list \<Rightarrow> bool" where
  "book_ok val h side xs \<longleftrightarrow> (\<forall>i \<in> set xs. \<exists>a. h i = Some a \<and> o_side a = side) \<and> sorted_wrt (ahead val h side) xs"

text \<open>A user's list holds exactly the user's orders, the newest first.\<close>

definition users_ok :: "(u64 \<rightharpoonup> 'd order) \<Rightarrow> (u32 \<rightharpoonup> u64 list) \<Rightarrow> bool" where
  "users_ok h users \<longleftrightarrow>
     (\<forall>u l. users u = Some l \<longrightarrow> sorted_wrt (\<lambda>i j. j < i) l \<and> set l = {i. \<exists>a. h i = Some a \<and> o_user_id a = u})
   \<and> (\<forall>i a. h i = Some a \<longrightarrow> users (o_user_id a) \<noteq> None)"

definition heap_ok :: "('d \<Rightarrow> rat option) \<Rightarrow> (u64 \<rightharpoonup> 'd order) \<Rightarrow> bool" where
  "heap_ok val h \<longleftrightarrow> (\<forall>i a. h i = Some a \<longrightarrow> o_id a = i \<and> order_ok val a)"

definition market_ok :: "('d \<Rightarrow> rat option) \<Rightarrow> 'd market \<Rightarrow> bool" where
  "market_ok val m \<longleftrightarrow> heap_ok val (m_orders m)
     \<and> book_ok val (m_orders m) MARKET_ORDER_SIDE_ASK (m_asks m)
     \<and> book_ok val (m_orders m) MARKET_ORDER_SIDE_BID (m_bids m)
     \<and> users_ok (m_orders m) (m_users m)"

lemma nonnegE: "nonneg val d \<Longrightarrow> (\<And>x. val d = Some x \<Longrightarrow> 0 \<le> x \<Longrightarrow> P) \<Longrightarrow> P"
  by (auto simp: nonneg_def split: option.splits)

lemma nonnegI: "val d = Some x \<Longrightarrow> 0 \<le> x \<Longrightarrow> nonneg val d"
  by (simp add: nonneg_def)

lemma nonneg_zero [simp]: "mpd_laws D val \<Longrightarrow> nonneg val (mpd_zero D)"
  by (simp add: nonneg_def)

lemma finite_zero [simp]: "mpd_laws D val \<Longrightarrow> finite_val val (mpd_zero D)"
  by (simp add: finite_val_def)

lemma nonneg_add: "mpd_laws D val \<Longrightarrow> nonneg val a \<Longrightarrow> nonneg val b \<Longrightarrow> nonneg val (mpd_add D a b)"
  using mpd_add_val rounds_nonneg by (fastforce simp: nonneg_def split: option.splits)

lemma nonneg_mul: "mpd_laws D val \<Longrightarrow> nonneg val a \<Longrightarrow> nonneg val b \<Longrightarrow> nonneg val (mpd_mul D a b)"
  using mpd_mul_val rounds_nonneg by (fastforce simp: nonneg_def split: option.splits)

lemma finite_sub: "mpd_laws D val \<Longrightarrow> finite_val val a \<Longrightarrow> finite_val val b \<Longrightarrow> finite_val val (mpd_sub D a b)"
  using mpd_sub_val by (fastforce simp: finite_val_def)

lemma nonneg_sub:
  "mpd_laws D val \<Longrightarrow> val a = Some x \<Longrightarrow> val b = Some y \<Longrightarrow> y \<le> x \<Longrightarrow> nonneg val (mpd_sub D a b)"
  using mpd_sub_val [of D val a x b y] rounds_nonneg by (fastforce simp: nonneg_def)

lemma nonneg_finite: "nonneg val a \<Longrightarrow> finite_val val a"
  by (auto elim!: nonnegE simp: finite_val_def)

section \<open>The books under the comparison of the skiplists\<close>

lemma heap_okD: "heap_ok val h \<Longrightarrow> h i = Some a \<Longrightarrow> o_id a = i \<and> order_ok val a"
  by (simp add: heap_ok_def)

lemma carrierI:
  "mpd_laws D val \<Longrightarrow> heap_ok val h \<Longrightarrow> h i = Some a \<Longrightarrow> o_side a = side \<Longrightarrow> i \<in> book_carrier D val h side"
  unfolding heap_ok_def order_ok_def book_carrier_def by fastforce

lemma book_carrier_subset:
  assumes "mpd_laws D val" "heap_ok val h" "book_ok val h side xs"
  shows "set xs \<subseteq> book_carrier D val h side"
  using assms(3) carrierI [OF assms(1,2)] unfolding book_ok_def by blast

lemma ahead_compare:
  assumes "i \<in> book_carrier D val h side" "j \<in> book_carrier D val h side"
  shows "by_ptr (order_match_compare D) h i j < 0 \<longleftrightarrow> ahead val h side i j"
proof -
  from assms obtain a b where "h i = Some a" "h j = Some b"
    unfolding book_carrier_def by blast
  with match_compare_key(1) [OF assms this] show ?thesis
    by (simp add: ahead_def Let_def)
qed

lemma sorted_compare:
  assumes "set xs \<subseteq> book_carrier D val h side"
  shows "sorted_wrt (\<lambda>i j. by_ptr (order_match_compare D) h i j < 0) xs \<longleftrightarrow> sorted_wrt (ahead val h side) xs"
  using assms by (induction xs) (simp_all add: ahead_compare [where val = val and side = side] subset_iff)

lemma book_sorted:
  assumes "mpd_laws D val" "heap_ok val h" "book_ok val h side xs"
  shows "sorted_wrt (\<lambda>i j. by_ptr (order_match_compare D) h i j < 0) xs" "distinct xs"
proof -
  note sub = book_carrier_subset [OF assms]
  show s: "sorted_wrt (\<lambda>i j. by_ptr (order_match_compare D) h i j < 0) xs"
    using sorted_compare [OF sub] assms(3) by (simp add: book_ok_def)
  show "distinct xs"
    using sub s by (rule book.sorted_distinct)
qed

text \<open>Inserting a fresh order and removing an order.\<close>

lemma book_insert:
  assumes "mpd_laws D val" "heap_ok val h" "book_ok val h side xs" "h i = Some a" "o_side a = side" "i \<notin> set xs"
  shows "\<exists>pre post. xs = pre @ post \<and> sl_insert (by_ptr (order_match_compare D) h) i xs = Some (pre @ i # post)
    \<and> book_ok val h side (pre @ i # post)"
proof -
  have i: "i \<in> book_carrier D val h side"
    using assms(1,2,4,5) by (rule carrierI)
  note sub = book_carrier_subset [OF assms(1-3)] and sorted = book_sorted(1) [OF assms(1-3)]
  obtain pre post where xs: "xs = pre @ post"
    and ins: "sl_insert (by_ptr (order_match_compare D) h) i xs = Some (pre @ i # post)"
    and s: "sorted_wrt (\<lambda>i j. by_ptr (order_match_compare D) h i j < 0) (pre @ i # post)"
    using book.insert_member(2) [OF sub sorted i assms(6)] by blast
  have "sorted_wrt (ahead val h side) (pre @ i # post)"
    using s sub i by (subst sorted_compare [symmetric]) (auto simp: xs)
  then have "book_ok val h side (pre @ i # post)"
    using assms(3-5) by (auto simp: book_ok_def xs)
  with xs ins show ?thesis
    by blast
qed

lemma book_remove:
  assumes "mpd_laws D val" "heap_ok val h" "book_ok val h side xs" "h i = Some a" "o_side a = side"
  shows "sl_remove (by_ptr (order_match_compare D) h) i xs = remove1 i xs"
proof -
  have i: "i \<in> book_carrier D val h side"
    using assms(1,2,4,5) by (rule carrierI)
  note sub = book_carrier_subset [OF assms(1-3)] and sorted = book_sorted(1) [OF assms(1-3)]
  show ?thesis
    using book.find_member [OF sub sorted i] book.delete_member [OF sub sorted, of i]
    by (simp add: sl_remove_def remove1_idem)
qed

lemma sorted_wrt_remove1: "sorted_wrt P xs \<Longrightarrow> sorted_wrt P (remove1 x xs)"
proof (induction xs)
  case (Cons y ys)
  then show ?case
    using set_remove1_subset [of x ys] by auto
qed simp

lemma book_ok_remove1: "book_ok val h side xs \<Longrightarrow> book_ok val h side (remove1 i xs)"
  using set_remove1_subset [of i xs] by (auto simp: book_ok_def sorted_wrt_remove1)

text \<open>A book looks at the side, the price and the id of its orders only.\<close>

lemma ahead_cong:
  assumes "match_price val side (the (h i)) = match_price val side (the (h' i))"
    "match_price val side (the (h j)) = match_price val side (the (h' j))"
  shows "ahead val h side i j \<longleftrightarrow> ahead val h' side i j"
  by (simp add: ahead_def assms)

lemma book_ok_cong:
  assumes "book_ok val h side xs"
    and "\<And>i a. i \<in> set xs \<Longrightarrow> h i = Some a \<Longrightarrow> \<exists>b. h' i = Some b \<and> o_side b = o_side a \<and> o_price b = o_price a"
  shows "book_ok val h' side xs"
proof -
  have "match_price val side (the (h i)) = match_price val side (the (h' i))" if "i \<in> set xs" for i
  proof -
    from that assms(1) obtain a where "h i = Some a"
      unfolding book_ok_def by blast
    with assms(2) [OF that this] show ?thesis
      by (auto simp: match_price_def)
  qed
  then have "sorted_wrt (ahead val h' side) xs"
    using assms(1) sorted_wrt_mono_rel [of xs "ahead val h side" "ahead val h' side"] ahead_cong
    unfolding book_ok_def by blast
  with assms show ?thesis
    unfolding book_ok_def by metis
qed

section \<open>The lists of the users\<close>

lemma id_sorted:
  assumes "set l \<subseteq> id_carrier h"
  shows "sorted_wrt (\<lambda>i j. by_ptr order_id_compare h i j < 0) l \<longleftrightarrow> sorted_wrt (\<lambda>i j. j < i) l"
  using assms by (induction l) (auto simp: id_compare_key subset_iff)

lemma id_carrierI: "heap_ok val h \<Longrightarrow> h i = Some a \<Longrightarrow> i \<in> id_carrier h"
  unfolding heap_ok_def id_carrier_def by blast

lemma list_insert:
  assumes "set l \<subseteq> id_carrier h" "sorted_wrt (\<lambda>i j. j < i) l" "i \<in> id_carrier h" "i \<notin> set l"
  shows "\<exists>l'. sl_insert (by_ptr order_id_compare h) i l = Some l' \<and> set l' = insert i (set l)
    \<and> sorted_wrt (\<lambda>i j. j < i) l'"
proof -
  have "sorted_wrt (\<lambda>i j. by_ptr order_id_compare h i j < 0) l"
    using assms(1,2) by (simp add: id_sorted)
  from user_list.insert_member(2) [OF assms(1) this assms(3,4)]
  obtain pre post where l: "l = pre @ post"
    and ins: "sl_insert (by_ptr order_id_compare h) i l = Some (pre @ i # post)"
    and s: "sorted_wrt (\<lambda>i j. by_ptr order_id_compare h i j < 0) (pre @ i # post)"
    by blast
  have "sorted_wrt (\<lambda>i j. j < i) (pre @ i # post)"
    using s assms(1,3) by (subst id_sorted [symmetric]) (auto simp: l)
  with ins l show ?thesis
    by auto
qed

lemma list_remove:
  assumes "set l \<subseteq> id_carrier h" "sorted_wrt (\<lambda>i j. j < i) l" "i \<in> id_carrier h"
  shows "sl_remove (by_ptr order_id_compare h) i l = remove1 i l"
proof -
  have s: "sorted_wrt (\<lambda>i j. by_ptr order_id_compare h i j < 0) l"
    using assms(1,2) by (simp add: id_sorted)
  from user_list.find_member [OF assms(1) s assms(3)] user_list.delete_member [OF assms(1) s, of i]
  show ?thesis
    by (simp add: sl_remove_def remove1_idem)
qed

lemma ids_distinct: "sorted_wrt (\<lambda>i j. j < (i::u64)) l \<Longrightarrow> distinct l"
  by (induction l) auto

lemma users_ok_carrier: "heap_ok val h \<Longrightarrow> users_ok h users \<Longrightarrow> users u = Some l \<Longrightarrow> set l \<subseteq> id_carrier h"
  unfolding users_ok_def using id_carrierI by fastforce

lemma users_ok_upd:
  assumes "users_ok h users" "h i = Some a" "o_user_id b = o_user_id a"
  shows "users_ok (h(i \<mapsto> b)) users"
proof -
  have "{j. \<exists>c. (h(i \<mapsto> b)) j = Some c \<and> o_user_id c = u} = {j. \<exists>c. h j = Some c \<and> o_user_id c = u}" for u
    using assms(2,3) by auto
  with assms show ?thesis
    by (auto simp: users_ok_def)
qed

lemma users_ok_remove:
  assumes "heap_ok val h" "users_ok h users" "h i = Some a" "users (o_user_id a) = Some l"
  shows "users_ok (h(i := None)) (users(o_user_id a \<mapsto> sl_remove (by_ptr order_id_compare h) i l))"
proof -
  have l: "sorted_wrt (\<lambda>i j. j < i) l" "set l = {j. \<exists>c. h j = Some c \<and> o_user_id c = o_user_id a}"
    using assms(2,4) by (auto simp: users_ok_def)
  have rm: "sl_remove (by_ptr order_id_compare h) i l = remove1 i l"
    using users_ok_carrier [OF assms(1,2,4)] l(1) id_carrierI [OF assms(1,3)] by (rule list_remove)
  have "set (remove1 i l) = {j. \<exists>c. (h(i := None)) j = Some c \<and> o_user_id c = o_user_id a}"
    using l ids_distinct [OF l(1)] by (auto simp: set_remove1_eq)
  moreover have "{j. \<exists>c. (h(i := None)) j = Some c \<and> o_user_id c = u} = {j. \<exists>c. h j = Some c \<and> o_user_id c = u}"
    if "u \<noteq> o_user_id a" for u
    using that assms(3) by auto
  ultimately show ?thesis
    using assms(2) l(1) by (auto simp: rm users_ok_def sorted_wrt_remove1)
qed

lemma users_ok_insert:
  assumes "heap_ok val (h(i \<mapsto> a))" "users_ok h users" "h i = None"
    and l: "l = (case users (o_user_id a) of Some l \<Rightarrow> l | None \<Rightarrow> [])"
  shows "\<exists>l'. sl_insert (by_ptr order_id_compare (h(i \<mapsto> a))) i l = Some l'
    \<and> users_ok (h(i \<mapsto> a)) (users(o_user_id a \<mapsto> l'))"
proof -
  let ?h = "h(i \<mapsto> a)"
  let ?mine = "{j. \<exists>c. h j = Some c \<and> o_user_id c = o_user_id a}"
  have "sorted_wrt (\<lambda>i j. j < i) l \<and> set l = ?mine"
  proof (cases "users (o_user_id a)")
    case None
    have no: "\<not> (\<exists>c. h j = Some c \<and> o_user_id c = o_user_id a)" for j
    proof
      assume "\<exists>c. h j = Some c \<and> o_user_id c = o_user_id a"
      then obtain c where c: "h j = Some c" "o_user_id c = o_user_id a" by blast
      from assms(2) c(1) have "users (o_user_id c) \<noteq> None"
        unfolding users_ok_def by blast
      with c(2) None show False by simp
    qed
    from None l have "l = []" by simp
    then show ?thesis
      by (simp only: no) simp
  next
    case (Some k)
    with assms(2) l show ?thesis
      unfolding users_ok_def by simp
  qed
  then have sl: "sorted_wrt (\<lambda>i j. j < i) l" and set: "set l = ?mine"
    by blast+
  have sub: "set l \<subseteq> id_carrier ?h"
  proof
    fix j assume "j \<in> set l"
    with set obtain c where "h j = Some c" by blast
    with assms(3) have "?h j = Some c" by auto
    with assms(1) show "j \<in> id_carrier ?h" by (rule id_carrierI)
  qed
  have "i \<in> id_carrier ?h" "i \<notin> set l"
    using id_carrierI [OF assms(1), of i a] assms(3) set by auto
  from list_insert [OF sub sl this] obtain l' where
    ins: "sl_insert (by_ptr order_id_compare ?h) i l = Some l'" and l': "set l' = insert i (set l)" "sorted_wrt (\<lambda>i j. j < i) l'"
    by blast
  have "insert i (set l) = {j. \<exists>c. ?h j = Some c \<and> o_user_id c = o_user_id a}"
    using set assms(3) by auto
  moreover have "{j. \<exists>c. ?h j = Some c \<and> o_user_id c = u} = {j. \<exists>c. h j = Some c \<and> o_user_id c = u}"
    if "u \<noteq> o_user_id a" for u
    using that assms(3) by auto
  ultimately have "users_ok ?h (users(o_user_id a \<mapsto> l'))"
    using assms(2) l' by (auto simp: users_ok_def)
  with ins show ?thesis by blast
qed

section \<open>Finishing and putting an order\<close>

lemma order_finish_index_frame [simp]:
  "m_asks (order_finish_index m a) = m_asks m" "m_bids (order_finish_index m a) = m_bids m"
  "m_name (order_finish_index m a) = m_name m"
  "m_stock (order_finish_index m a) = m_stock m" "m_money (order_finish_index m a) = m_money m"
  "m_stock_prec (order_finish_index m a) = m_stock_prec m" "m_min_amount (order_finish_index m a) = m_min_amount m"
  "m_orders (order_finish_index m a) = (m_orders m)(o_id a := None)"
  by (simp_all add: order_finish_index_def Let_def split: option.split)

lemma order_finish_book_frame [simp]:
  "m_orders (order_finish_book D m a) = m_orders m" "m_users (order_finish_book D m a) = m_users m"
  "m_name (order_finish_book D m a) = m_name m"
  "m_stock (order_finish_book D m a) = m_stock m" "m_money (order_finish_book D m a) = m_money m"
  "m_stock_prec (order_finish_book D m a) = m_stock_prec m" "m_min_amount (order_finish_book D m a) = m_min_amount m"
  by (simp_all add: order_finish_book_def Let_def)

text \<open>What stays of a market through its whole life.\<close>

definition same_market :: "'d market \<Rightarrow> 'd market \<Rightarrow> bool" where
  "same_market m m' \<longleftrightarrow> m_name m' = m_name m \<and> m_stock m' = m_stock m \<and> m_money m' = m_money m
     \<and> m_stock_prec m' = m_stock_prec m \<and> m_min_amount m' = m_min_amount m"

lemma same_market_refl [simp]: "same_market m m"
  by (simp add: same_market_def)

lemma same_market_trans: "same_market m n \<Longrightarrow> same_market n k \<Longrightarrow> same_market m k"
  by (simp add: same_market_def)

lemma order_finish_book_ok:
  assumes "mpd_laws D val" "market_ok val m" "m_orders m i = Some a" "o_id a = i"
  shows "m_asks (order_finish_book D m a) = (if o_side a = MARKET_ORDER_SIDE_ASK then remove1 i (m_asks m) else m_asks m)"
    "m_bids (order_finish_book D m a) = (if o_side a = MARKET_ORDER_SIDE_ASK then m_bids m else remove1 i (m_bids m))"
    "market_ok val (order_finish_book D m a)"
proof -
  have heap: "heap_ok val (m_orders m)"
    using assms(2) by (simp add: market_ok_def)
  then have side: "side_ok (o_side a)"
    using assms(3) by (auto dest: heap_okD simp: order_ok_def)
  have asks: "o_side a = MARKET_ORDER_SIDE_ASK \<Longrightarrow>
      sl_remove (by_ptr (order_match_compare D) (m_orders m)) i (m_asks m) = remove1 i (m_asks m)"
    using assms(2) by (intro book_remove [OF assms(1) heap _ assms(3)]) (auto simp: market_ok_def)
  have bids: "o_side a \<noteq> MARKET_ORDER_SIDE_ASK \<Longrightarrow>
      sl_remove (by_ptr (order_match_compare D) (m_orders m)) i (m_bids m) = remove1 i (m_bids m)"
    using assms(2) side
    by (intro book_remove [OF assms(1) heap _ assms(3), where side = MARKET_ORDER_SIDE_BID])
      (auto simp: market_ok_def side_ok_def)
  show eqs: "m_asks (order_finish_book D m a) = (if o_side a = MARKET_ORDER_SIDE_ASK then remove1 i (m_asks m) else m_asks m)"
    "m_bids (order_finish_book D m a) = (if o_side a = MARKET_ORDER_SIDE_ASK then m_bids m else remove1 i (m_bids m))"
    using asks bids assms(4) by (simp_all add: order_finish_book_def Let_def)
  show "market_ok val (order_finish_book D m a)"
    using assms(2) by (simp add: market_ok_def eqs book_ok_remove1)
qed

lemma order_finish_index_ok:
  assumes "market_ok val m" "m_orders m i = Some a" "o_id a = i" "i \<notin> set (m_asks m)" "i \<notin> set (m_bids m)"
  shows "market_ok val (order_finish_index m a)"
proof -
  have heap: "heap_ok val (m_orders m)" and users: "users_ok (m_orders m) (m_users m)"
    using assms(1) by (auto simp: market_ok_def)
  then have "m_users m (o_user_id a) \<noteq> None"
    using assms(2) unfolding users_ok_def by blast
  then obtain l where l: "m_users m (o_user_id a) = Some l"
    by blast
  have "users_ok ((m_orders m)(i := None)) (m_users (order_finish_index m a))"
    using users_ok_remove [OF heap users assms(2) l] l assms(3) by (simp add: order_finish_index_def Let_def)
  moreover have "heap_ok val ((m_orders m)(i := None))"
    using heap by (simp add: heap_ok_def)
  moreover have "book_ok val ((m_orders m)(i := None)) side xs" if "book_ok val (m_orders m) side xs" "i \<notin> set xs" for side xs
    by (rule book_ok_cong [OF that(1)]) (use that(2) in auto)
  ultimately show ?thesis
    using assms by (simp add: market_ok_def)
qed

lemma order_finish_ok:
  assumes L: "mpd_laws D val" and ok: "market_ok val m" and a: "m_orders m i = Some a" "o_id a = i"
    and fin: "order_finish D is_real m s a = (ret, m', s')"
  shows "market_ok val m'" "same_market m m'"
    "m_asks m' = (if o_side a = MARKET_ORDER_SIDE_ASK then remove1 i (m_asks m) else m_asks m)"
    "m_bids m' = (if o_side a = MARKET_ORDER_SIDE_ASK then m_bids m else remove1 i (m_bids m))"
    "m_orders m' = (if ret = 0 then (m_orders m)(i := None) else m_orders m)"
    "ret = 0 \<or> ret = (if o_side a = MARKET_ORDER_SIDE_ASK then - 218 else - 228)"
proof -
  let ?m = "order_finish_book D m a"
  note b = order_finish_book_ok [OF L ok a]
  have m': "m' = ?m \<and> (ret = (if o_side a = MARKET_ORDER_SIDE_ASK then - 218 else - 228)) \<or>
      m' = order_finish_index ?m a \<and> ret = 0"
    using fin by (auto simp: order_finish_def Let_def split: prod.splits if_splits)
  have notin: "i \<notin> set (m_asks ?m)" "i \<notin> set (m_bids ?m)"
  proof -
    have ask: "\<forall>j \<in> set (m_asks m). \<exists>c. m_orders m j = Some c \<and> o_side c = MARKET_ORDER_SIDE_ASK"
      and bid: "\<forall>j \<in> set (m_bids m). \<exists>c. m_orders m j = Some c \<and> o_side c = MARKET_ORDER_SIDE_BID"
      using ok by (auto simp: market_ok_def book_ok_def)
    have heap: "heap_ok val (m_orders m)"
      using ok by (simp add: market_ok_def)
    have "distinct (m_asks m)" "distinct (m_bids m)"
      using ok book_sorted(2) [OF L heap] by (auto simp: market_ok_def)
    then show "i \<notin> set (m_asks ?m)" "i \<notin> set (m_bids ?m)"
      using ask bid a(1) by (auto simp: b(1,2))
  qed
  have idx: "market_ok val (order_finish_index ?m a)"
    using b(3) a notin by (intro order_finish_index_ok) auto
  show "market_ok val m'"
    using m' idx b(3) by auto
  show "same_market m m'"
    using m' by (auto simp: same_market_def)
  show "m_asks m' = (if o_side a = MARKET_ORDER_SIDE_ASK then remove1 i (m_asks m) else m_asks m)"
    "m_bids m' = (if o_side a = MARKET_ORDER_SIDE_ASK then m_bids m else remove1 i (m_bids m))"
    using m' by (auto simp: b(1,2))
  show "m_orders m' = (if ret = 0 then (m_orders m)(i := None) else m_orders m)"
    using m' a(2) by (auto split: if_splits)
  show "ret = 0 \<or> ret = (if o_side a = MARKET_ORDER_SIDE_ASK then - 218 else - 228)"
    using m' by auto
qed

text \<open>An order that is changed in place keeps its place in the books and in the lists.\<close>

lemma market_ok_update:
  assumes "market_ok val m" "m_orders m i = Some a" "o_id a = i" "order_ok val b"
    and same: "o_id b = i" "o_side b = o_side a" "o_price b = o_price a" "o_user_id b = o_user_id a"
  shows "market_ok val (m\<lparr>m_orders := (m_orders m)(i \<mapsto> b)\<rparr>)"
proof -
  have "book_ok val ((m_orders m)(i \<mapsto> b)) side xs" if "book_ok val (m_orders m) side xs" for side xs
    by (rule book_ok_cong [OF that]) (use assms(2) same in auto)
  moreover have "users_ok ((m_orders m)(i \<mapsto> b)) (m_users m)"
    using assms by (intro users_ok_upd) (auto simp: market_ok_def)
  ultimately show ?thesis
    using assms by (simp add: market_ok_def heap_ok_def)
qed

text \<open>
  \<open>order_put\<close> of a fresh, well-formed limit order: the order goes into its book and its user's
  list; the codes that remain possible say that the balance could not be frozen.
\<close>

lemma order_put_ok:
  assumes L: "mpd_laws D val" and ok: "market_ok val m" and new: "m_orders m (o_id a) = None"
    and a: "order_ok val a"
    and put: "order_put D m s a = (ret, m', s')"
  shows "market_ok val m'" "same_market m m'"
    "ret \<in> {0, - 192, - 201}"
    "\<exists>f. m_orders m' = (m_orders m)(o_id a \<mapsto> a\<lparr>o_freeze := f\<rparr>)
       \<and> f = (if o_side a = MARKET_ORDER_SIDE_ASK then o_left a else mpd_mul D (o_price a) (o_left a))"
    "\<exists>pre post. if o_side a = MARKET_ORDER_SIDE_ASK
       then m_asks m = pre @ post \<and> m_asks m' = pre @ o_id a # post \<and> m_bids m' = m_bids m
       else m_bids m = pre @ post \<and> m_bids m' = pre @ o_id a # post \<and> m_asks m' = m_asks m"
proof -
  let ?i = "o_id a" and ?h = "(m_orders m)(o_id a \<mapsto> a)" and ?ask = "o_side a = MARKET_ORDER_SIDE_ASK"
  define f where "f = (if ?ask then o_left a else mpd_mul D (o_price a) (o_left a))"
  have heap: "heap_ok val (m_orders m)" and users: "users_ok (m_orders m) (m_users m)"
    and asks: "book_ok val (m_orders m) MARKET_ORDER_SIDE_ASK (m_asks m)"
    and bids: "book_ok val (m_orders m) MARKET_ORDER_SIDE_BID (m_bids m)"
    using ok by (auto simp: market_ok_def)
  have heap': "heap_ok val ?h"
    using heap a by (simp add: heap_ok_def)
  obtain p where price: "val (o_price a) = Some p" "0 < p" and side: "side_ok (o_side a)"
      and type: "o_type a = MARKET_ORDER_TYPE_LIMIT" and left: "nonneg val (o_left a)"
    using a by (auto simp: order_ok_def amounts_ok_def)
  have "nonneg val (o_price a)"
    using price by (simp add: nonneg_def)
  then have nf: "finite_val val f"
    using left by (auto simp: f_def intro: nonneg_finite nonneg_mul [OF L])
  have af: "order_ok val (a\<lparr>o_freeze := f\<rparr>)"
    using a nf by (simp add: order_ok_def amounts_ok_def)
  have notin: "?i \<notin> set (m_asks m)" "?i \<notin> set (m_bids m)"
    using asks bids new by (auto simp: book_ok_def)
  have mono: "book_ok val ?h side xs" if "book_ok val (m_orders m) side xs" "?i \<notin> set xs" for side xs
    by (rule book_ok_cong [OF that(1)]) (use that(2) in auto)
  obtain l where ul: "sl_insert (by_ptr order_id_compare ?h) ?i
       (case m_users m (o_user_id a) of Some l \<Rightarrow> l | None \<Rightarrow> []) = Some l"
      and uok: "users_ok ?h ((m_users m)(o_user_id a \<mapsto> l))"
    using users_ok_insert [OF heap' users new refl] by blast
  let ?b = "if ?ask then m_asks m else m_bids m" and ?cmp = "by_ptr (order_match_compare D) ?h"
  have b: "book_ok val ?h (o_side a) ?b" "?i \<notin> set ?b"
    using mono asks bids notin side by (auto simp: side_ok_def)
  obtain pre post where bp: "?b = pre @ post" and ins: "sl_insert ?cmp ?i ?b = Some (pre @ ?i # post)"
      and bok: "book_ok val ?h (o_side a) (pre @ ?i # post)"
    using book_insert [OF L heap' b(1) _ refl b(2)] by auto
  define m1 where "m1 = m\<lparr>m_users := (m_users m)(o_user_id a \<mapsto> l),
       m_asks := (if ?ask then pre @ ?i # post else m_asks m),
       m_bids := (if ?ask then m_bids m else pre @ ?i # post), m_orders := ?h\<rparr>"
  have m1: "market_ok val m1"
    using heap' uok bok mono [OF asks notin(1)] mono [OF bids notin(2)] side
    by (auto simp: market_ok_def m1_def side_ok_def)
  have m2: "market_ok val (m1\<lparr>m_orders := (m_orders m1)(?i \<mapsto> a\<lparr>o_freeze := f\<rparr>)\<rparr>)"
    by (rule market_ok_update [OF m1 _ _ af]) (simp_all add: m1_def)
  have put': "m' = m1\<lparr>m_orders := (m_orders m1)(?i \<mapsto> a\<lparr>o_freeze := f\<rparr>)\<rparr> \<and> ret \<in> {0, - 192, - 201}"
  proof (cases ?ask)
    case True
    with put ul ins new type bp show ?thesis
      by (auto simp: order_put_def Let_def m1_def f_def split: prod.splits option.splits)
  next
    case False
    with put ul ins new type bp show ?thesis
      by (auto simp: order_put_def Let_def m1_def f_def split: prod.splits option.splits)
  qed
  show "market_ok val m'" "ret \<in> {0, - 192, - 201}"
    using put' m2 by auto
  show "same_market m m'"
    using put' by (simp add: same_market_def m1_def)
  show "\<exists>f. m_orders m' = (m_orders m)(o_id a \<mapsto> a\<lparr>o_freeze := f\<rparr>)
       \<and> f = (if o_side a = MARKET_ORDER_SIDE_ASK then o_left a else mpd_mul D (o_price a) (o_left a))"
    using put' by (simp add: m1_def f_def)
  show "\<exists>pre post. if o_side a = MARKET_ORDER_SIDE_ASK
       then m_asks m = pre @ post \<and> m_asks m' = pre @ o_id a # post \<and> m_bids m' = m_bids m
       else m_bids m = pre @ post \<and> m_bids m' = pre @ o_id a # post \<and> m_asks m' = m_asks m"
    using put' bp by (intro exI [of _ pre] exI [of _ post]) (auto simp: m1_def)
qed

end
