(* ===== verification/Ledger_Facts.thy ===== *)
theory Ledger_Facts
  imports Book_Facts
begin

text \<open>
  What the ledger operations and the transaction \<open>exchange\<close> do to the well-formedness of the
  ledger and to the total of every asset, from the interpretation \<open>accounts\<close> of the contract
  \<open>ledger\<close>.
\<close>

section \<open>The ledger under the operations\<close>

lemma balance_add_ledger:
  assumes "ledger_inv D val s" "asset_exist s a" "nonneg val x"
  shows "ledger_inv D val (snd (balance_add D u t a x s))"
    "asset_total val (snd (balance_add D u t a x s)) b \<le> asset_total val s b + (if b = a then amount_val val x else 0)"
proof -
  obtain r where r: "val x = Some r" "0 \<le> r"
    using assms(3) by (rule nonnegE)
  have "asset_exist s (account_asset (u, t, a))"
    using assms(2) by (simp add: account_asset_def)
  note c = accounts.credit_inv [OF assms(1) this r]
  show "ledger_inv D val (snd (balance_add D u t a x s))"
    using c(1) by (simp add: account_add_def)
  show "asset_total val (snd (balance_add D u t a x s)) b \<le> asset_total val s b + (if b = a then amount_val val x else 0)"
    using c(3) [of b] r(1) by (simp add: account_add_def account_asset_def amount_val_def split: if_splits)
qed

lemma balance_sub_ledger:
  assumes "ledger_inv D val s" "asset_exist s a" "nonneg val x"
  shows "ledger_inv D val (snd (balance_sub D u t a x s))"
    "asset_total val (snd (balance_sub D u t a x s)) b \<le> asset_total val s b"
    "fst (balance_sub D u t a x s) \<noteq> None \<Longrightarrow>
       asset_total val (snd (balance_sub D u t a x s)) b \<le> asset_total val s b - (if b = a then amount_val val x else 0)"
proof -
  obtain r where r: "val x = Some r" "0 \<le> r"
    using assms(3) by (rule nonnegE)
  have k: "asset_exist s (account_asset (u, t, a))"
    using assms(2) by (simp add: account_asset_def)
  note d = accounts.debit_inv [OF assms(1) k r]
  show "ledger_inv D val (snd (balance_sub D u t a x s))"
    using d(1) by (simp add: account_sub_def)
  show "asset_total val (snd (balance_sub D u t a x s)) b \<le> asset_total val s b"
    using d(3) [of b] by (simp add: account_sub_def)
  show "asset_total val (snd (balance_sub D u t a x s)) b \<le> asset_total val s b - (if b = a then amount_val val x else 0)"
    if "fst (balance_sub D u t a x s) \<noteq> None"
    using accounts.debit_total [OF assms(1) k r, of b] that r(1)
    by (simp add: account_sub_def account_asset_def amount_val_def split: if_splits)
qed

lemma balance_shift_ledger:
  assumes inv: "ledger_inv D val s" and a: "asset_exist s a" and x: "nonneg val x" and t: "t1 \<noteq> t2"
  shows "ledger_inv D val (snd (balance_shift D t1 t2 u a x s))"
    "asset_total val (snd (balance_shift D t1 t2 u a x s)) b \<le> asset_total val s b"
proof -
  have L: "mpd_laws D val" and ok: "balances_ok val s"
    using inv by (simp_all add: ledger_inv_def)
  obtain r where r: "val x = Some r" "0 \<le> r"
    using x by (rule nonnegE)
  obtain aty where aty: "dict_asset s a = Some aty"
    using a by (auto simp: asset_exist_def get_asset_type_def)
  have "ledger_inv D val (snd (balance_shift D t1 t2 u a x s))
      \<and> asset_total val (snd (balance_shift D t1 t2 u a x s)) b \<le> asset_total val s b"
  proof (cases "balance_get s u t1 a = None \<or> key_amount val s (mk_key u t1 a) < r")
    case True
    then show ?thesis
      using balance_shift_fail [OF L ok aty r] inv by simp
  next
    case False
    then have "balance_get s u t1 a \<noteq> None" "r \<le> key_amount val s (mk_key u t1 a)"
      by auto
    from balance_shift_pos [OF L ok aty r t this] obtain q s1 s' y z where
      eq: "balance_shift D t1 t2 u a x s = (Some q, s')" and mv1: "moved val s (mk_key u t2 a) z s1"
      and mv2: "moved val s1 (mk_key u t1 a) y s'"
      and cr: "credited (prec_save aty) (key_amount val s (mk_key u t2 a)) r z"
      and db: "debited (prec_save aty) (key_amount val s (mk_key u t1 a)) r y"
      by blast
    have "bk_asset (mk_key u ty a) = a" for ty
      using balances_ok_asset(1) [OF ok aty] by simp
    moreover have "mk_key u t1 a \<noteq> mk_key u t2 a"
      using t by simp
    ultimately have "asset_total val s' b \<le> asset_total val s b"
      using cr db by (auto simp: movedD(5) [OF mv1] movedD(5) [OF mv2] movedD(4) [OF mv1] credited_def debited_def)
    then show ?thesis
      using movedD(1) [OF mv2] L by (simp add: eq ledger_inv_def)
  qed
  then show "ledger_inv D val (snd (balance_shift D t1 t2 u a x s))"
    "asset_total val (snd (balance_shift D t1 t2 u a x s)) b \<le> asset_total val s b"
    by blast+
qed

text \<open>Reports do not touch the ledger.\<close>

lemma same_core_ledger:
  assumes "same_core s t"
  shows "ledger_inv D val t = ledger_inv D val s" "asset_exist t = asset_exist s" "asset_total val t = asset_total val s"
    "key_amount val t = key_amount val s"
proof -
  have eq: "dict_balance t = dict_balance s" "dict_asset t = dict_asset s"
    using assms by (simp_all add: same_core_iff)
  show "ledger_inv D val t = ledger_inv D val s"
    by (simp add: eq ledger_inv_def balances_ok_def)
  show "asset_exist t = asset_exist s" "asset_total val t = asset_total val s" "key_amount val t = key_amount val s"
    by (simp_all add: eq fun_eq_iff asset_exist_def get_asset_type_def asset_total_def key_amount_def)
qed

lemma asset_exist_ops [simp]:
  "asset_exist (snd (balance_add D u t a x s)) = asset_exist s"
  "asset_exist (snd (balance_sub D u t a x s)) = asset_exist s"
  "asset_exist (snd (balance_shift D t1 t2 u a x s)) = asset_exist s"
  by (simp_all add: fun_eq_iff asset_exist_def get_asset_type_def frames)

lemma history_more: "balance_state.more s = balance_state.more t \<Longrightarrow> history_state.more s = history_state.more t"
  by (cases s; cases t) simp

lemma history_more_ops [simp]:
  "history_state.more (snd (balance_add D u ty a x s)) = history_state.more s"
  "history_state.more (snd (balance_sub D u ty a x s)) = history_state.more s"
  "history_state.more (snd (balance_shift D t1 t2 u a x s)) = history_state.more s"
  by (rule history_more, simp add: frames)+

text \<open>
  \<open>steady s s'\<close>: the ledger stays well-formed, the assets are the same and so is all that the
  engine keeps besides the ledger and the reports.
\<close>

definition steady :: "'d mpd_lib \<Rightarrow> ('d \<Rightarrow> rat option) \<Rightarrow> ('d, 'z) history_state_scheme
    \<Rightarrow> ('d, 'z) history_state_scheme \<Rightarrow> bool" where
  "steady D val s s' \<longleftrightarrow> ledger_inv D val s' \<and> dict_asset s' = dict_asset s
     \<and> history_state.more s' = history_state.more s"

lemma steady_same_core: "ledger_inv D val s \<Longrightarrow> same_core s t \<Longrightarrow> steady D val s t"
  by (simp add: steady_def same_core_ledger(1)) (simp add: same_core_iff)

lemma steady_trans: "steady D val s t \<Longrightarrow> steady D val t r \<Longrightarrow> steady D val s r"
  by (simp add: steady_def)

lemma steady_add: "ledger_inv D val s \<Longrightarrow> asset_exist s a \<Longrightarrow> nonneg val x \<Longrightarrow>
    steady D val s (snd (balance_add D u t a x s))"
  by (simp add: steady_def balance_add_ledger(1) frames)

lemma steady_sub: "ledger_inv D val s \<Longrightarrow> asset_exist s a \<Longrightarrow> nonneg val x \<Longrightarrow>
    steady D val s (snd (balance_sub D u t a x s))"
  by (simp add: steady_def balance_sub_ledger(1) frames)

lemma steady_shift: "ledger_inv D val s \<Longrightarrow> asset_exist s a \<Longrightarrow> nonneg val x \<Longrightarrow> t1 \<noteq> t2 \<Longrightarrow>
    steady D val s (snd (balance_shift D t1 t2 u a x s))"
  by (simp add: steady_def balance_shift_ledger(1) frames)

lemma steadyD:
  assumes "steady D val s s'"
  shows "ledger_inv D val s'" "asset_exist s' = asset_exist s" "history_state.more s' = history_state.more s"
    "dict_asset s' = dict_asset s"
  using assms by (simp_all add: steady_def fun_eq_iff asset_exist_def get_asset_type_def)


section \<open>The exchange\<close>

lemma balance_sub_covered:
  assumes "ledger_inv D val s" "asset_exist s a" "val x = Some r" "0 \<le> r" "r \<le> key_amount val s (mk_key u t a)"
  shows "asset_total val (snd (balance_sub D u t a x s)) b \<le> asset_total val s b - (if b = a then r else 0)"
proof (cases "r = 0")
  case True
  with balance_sub_ledger(2) [OF assms(1,2) nonnegI [of val x r, OF assms(3,4)]] show ?thesis by simp
next
  case False
  have "fst (account_sub D (u, t, a) x s) \<noteq> None"
    by (rule accounts.debit_enough [OF assms(1) _ assms(3)])
      (use assms False in \<open>auto simp: account_asset_def account_amount_def\<close>)
  then show ?thesis
    using balance_sub_ledger(3) [OF assms(1,2) nonnegI [of val x r, OF assms(3,4)], of u t b] assms(3)
    by (simp add: account_sub_def amount_val_def split: if_splits)
qed

lemma balance_add_others:
  assumes "ledger_inv D val s" "asset_exist s a" "nonneg val x" "k \<noteq> mk_key u t a"
  shows "key_amount val (snd (balance_add D u t a x s)) k = key_amount val s k"
proof -
  obtain r aty where r: "val x = Some r" "0 \<le> r" and aty: "dict_asset s a = Some aty"
    using assms(2,3) by (auto elim!: nonnegE simp: asset_exist_def get_asset_type_def)
  have "mpd_laws D val" "balances_ok val s"
    using assms(1) by (simp_all add: ledger_inv_def)
  from balance_add_pos [OF this aty r, of u t] obtain q s' y where
    "balance_add D u t a x s = (Some q, s')" "moved val s (mk_key u t a) y s'"
    by blast
  with assms(4) show ?thesis
    by (simp add: movedD(4))
qed

lemma balance_sub_others:
  assumes "ledger_inv D val s" "asset_exist s a" "nonneg val x" "k \<noteq> mk_key u t a"
  shows "key_amount val (snd (balance_sub D u t a x s)) k = key_amount val s k"
proof -
  obtain r aty where r: "val x = Some r" "0 \<le> r" and aty: "dict_asset s a = Some aty"
    using assms(2,3) by (auto elim!: nonnegE simp: asset_exist_def get_asset_type_def)
  have "mpd_laws D val" "balances_ok val s"
    using assms(1) by (simp_all add: ledger_inv_def)
  note sub = balance_sub_pos [OF this aty r, of u t]
  show ?thesis
  proof (cases "balance_get s u t a = None \<or> key_amount val s (mk_key u t a) < r")
    case True
    with sub(1) show ?thesis by simp
  next
    case False
    with sub(2) obtain q s' y where
      "balance_sub D u t a x s = (Some q, s')" "moved val s (mk_key u t a) y s'"
      by fastforce
    with assms(4) show ?thesis
      by (simp add: movedD(4))
  qed
qed

lemma reportersD: "reporters is_real q \<Longrightarrow> n < 7 \<Longrightarrow> same_core s (q n s)"
  by (simp add: reporters_def quiet_def)

text \<open>
  The six moves in a row, with the reports in between: the states \<open>s1\<close> to \<open>s6\<close> after each.
\<close>

lemma exchange_steady:
  assumes inv: "ledger_inv D val s" and q: "reporters is_real q"
    and known: "asset_exist s gives" "asset_exist s gets" "asset_exist s tfa" "asset_exist s mfa"
    and pos: "nonneg val x" "nonneg val y" "nonneg val tfee" "nonneg val mfee"
  shows "steady D val s (exchange D q tu mu gives x gets y tfa tfee mfa mfee s)"
proof -
  have rep: "steady D val s (q n t)" if "steady D val s t" "n < 7" for n t
    using steady_trans [OF that(1) steady_same_core [OF steadyD(1) [OF that(1)] reportersD [OF q that(2)]]] .
  have add: "steady D val s (snd (balance_add D u ty a z t))"
    if "steady D val s t" "asset_exist s a" "nonneg val z" for u ty a z t
    using that(2,3) by (intro steady_trans [OF that(1)] steady_add) (simp_all add: steadyD [OF that(1)])
  have sub: "steady D val s (snd (balance_sub D u ty a z t))"
    if "steady D val s t" "asset_exist s a" "nonneg val z" for u ty a z t
    using that(2,3) by (intro steady_trans [OF that(1)] steady_sub) (simp_all add: steadyD [OF that(1)])
  have "steady D val s s"
    using inv by (simp add: steady_def)
  then show ?thesis
    unfolding exchange_def Let_def by (auto intro!: rep add sub known pos)
qed

lemma exchange_total:
  assumes inv: "ledger_inv D val s" and q: "reporters is_real q"
    and known: "asset_exist s gives" "asset_exist s gets" "asset_exist s tfa" "asset_exist s mfa"
    and pos: "val x = Some vx" "0 \<le> vx" "val y = Some vy" "0 \<le> vy" "nonneg val tfee" "nonneg val mfee"
    and taker: "vx \<le> key_amount val s (mk_key tu BALANCE_TYPE_AVAILABLE gives)"
    and maker: "vy \<le> key_amount val s (mk_key mu BALANCE_TYPE_FREEZE gets)"
  shows "asset_total val (exchange D q tu mu gives x gets y tfa tfee mfa mfee s) b \<le> asset_total val s b"
proof -
  define s0 where "s0 = q 0 s"
  define s1 where "s1 = q 1 (snd (balance_sub D tu BALANCE_TYPE_AVAILABLE gives x s0))"
  define s2 where "s2 = q 2 (snd (balance_add D tu BALANCE_TYPE_AVAILABLE gets y s1))"
  define s3 where "s3 = (if mpd_cmp D tfee (mpd_zero D) > 0
     then q 3 (snd (balance_sub D tu BALANCE_TYPE_AVAILABLE tfa tfee s2)) else s2)"
  define s4 where "s4 = q 4 (snd (balance_sub D mu BALANCE_TYPE_FREEZE gets y s3))"
  define s5 where "s5 = q 5 (snd (balance_add D mu BALANCE_TYPE_AVAILABLE gives x s4))"
  define s6 where "s6 = (if mpd_cmp D mfee (mpd_zero D) > 0
     then q 6 (snd (balance_sub D mu BALANCE_TYPE_AVAILABLE mfa mfee s5)) else s5)"
  let ?f = "mk_key mu BALANCE_TYPE_FREEZE gets" and ?E = "asset_exist s"
  note nx = nonnegI [of val x vx, OF pos(1,2)] and ny = nonnegI [of val y vy, OF pos(3,4)]
  note r = reportersD [OF q] and sc = same_core_ledger
  have s0: "ledger_inv D val s0 \<and> asset_exist s0 = ?E \<and> asset_total val s0 = asset_total val s \<and> key_amount val s0 = key_amount val s"
    unfolding s0_def using sc [OF r [of 0 s]] inv by simp
  have s1: "ledger_inv D val s1 \<and> asset_exist s1 = ?E \<and> key_amount val s1 ?f = key_amount val s0 ?f
      \<and> asset_total val s1 b \<le> asset_total val s0 b - (if b = gives then vx else 0)"
    unfolding s1_def using sc [OF r [of 1]] s0 known taker pos
      balance_sub_ledger(1) [of D val s0 gives x] balance_sub_covered [of D val s0 gives x vx tu BALANCE_TYPE_AVAILABLE b] nx
      balance_sub_others [of D val s0 gives x ?f tu BALANCE_TYPE_AVAILABLE]
    by simp
  have s2: "ledger_inv D val s2 \<and> asset_exist s2 = ?E \<and> key_amount val s2 ?f = key_amount val s1 ?f
      \<and> asset_total val s2 b \<le> asset_total val s1 b + (if b = gets then vy else 0)"
    unfolding s2_def using sc [OF r [of 2]] s1 known ny pos(3)
      balance_add_ledger(1) [of D val s1 gets y tu BALANCE_TYPE_AVAILABLE]
      balance_add_ledger(2) [of D val s1 gets y tu BALANCE_TYPE_AVAILABLE b]
      balance_add_others [of D val s1 gets y ?f tu BALANCE_TYPE_AVAILABLE]
    by (simp add: amount_val_def split: if_splits)
  have s3: "ledger_inv D val s3 \<and> asset_exist s3 = ?E \<and> key_amount val s3 ?f = key_amount val s2 ?f
      \<and> asset_total val s3 b \<le> asset_total val s2 b"
    unfolding s3_def using sc [OF r [of 3]] s2 known pos(5)
      balance_sub_ledger(1,2) [of D val s2 tfa tfee tu BALANCE_TYPE_AVAILABLE]
      balance_sub_others [of D val s2 tfa tfee ?f tu BALANCE_TYPE_AVAILABLE]
    by simp
  have "vy \<le> key_amount val s3 ?f"
    using maker s0 s1 s2 s3 by simp
  then have s4: "ledger_inv D val s4 \<and> asset_exist s4 = ?E
      \<and> asset_total val s4 b \<le> asset_total val s3 b - (if b = gets then vy else 0)"
    unfolding s4_def using sc [OF r [of 4]] s3 known ny pos(3,4)
      balance_sub_ledger(1) [of D val s3 gets y] balance_sub_covered [of D val s3 gets y vy mu BALANCE_TYPE_FREEZE b]
    by simp
  have s5: "ledger_inv D val s5 \<and> asset_exist s5 = ?E
      \<and> asset_total val s5 b \<le> asset_total val s4 b + (if b = gives then vx else 0)"
    unfolding s5_def using sc [OF r [of 5]] s4 known nx pos(1)
      balance_add_ledger(1) [of D val s4 gives x mu BALANCE_TYPE_AVAILABLE]
      balance_add_ledger(2) [of D val s4 gives x mu BALANCE_TYPE_AVAILABLE b]
    by (simp add: amount_val_def split: if_splits)
  have s6: "asset_total val s6 b \<le> asset_total val s5 b"
    unfolding s6_def using sc [OF r [of 6]] s5 known pos(6)
      balance_sub_ledger(2) [of D val s5 mfa mfee mu BALANCE_TYPE_AVAILABLE b]
    by simp
  have "exchange D q tu mu gives x gets y tfa tfee mfa mfee s = s6"
    unfolding exchange_def Let_def s6_def s5_def s4_def s3_def s2_def s1_def s0_def ..
  moreover have "asset_total val s6 b \<le> asset_total val s b"
    using s0 s1 s2 s3 s4 s5 s6 by (simp split: if_splits)
  ultimately show ?thesis by simp
qed

end
