(* ===== verification/Fill_Facts.thy ===== *)
theory Fill_Facts
  imports Ledger_Facts
begin

text \<open>
  What one fill does to the market, to the engine's state and to the two orders, and the
  induction rules of the four matching loops.
\<close>

section \<open>Finishing an order: the engine's state\<close>

lemma order_finish_steady:
  assumes "ledger_inv D val s" "asset_exist s (m_stock m)" "asset_exist s (m_money m)" "finite_val val (o_freeze a)"
    and "order_finish D is_real m s a = (ret, m', s')"
  shows "steady D val s s'"
    "asset_total val s' b \<le> asset_total val s b"
proof -
  have L: "mpd_laws D val"
    using assms(1) by (simp add: ledger_inv_def)
  let ?asset = "if o_side a = MARKET_ORDER_SIDE_ASK then m_stock m else m_money m"
  let ?s1 = "if mpd_cmp D (o_freeze a) (mpd_zero D) > 0
      then snd (balance_shift D BALANCE_TYPE_FREEZE BALANCE_TYPE_AVAILABLE (o_user_id a) ?asset (o_freeze a) s) else s"
  have core: "same_core ?s1 s'"
    using assms(5)
    by (auto simp: order_finish_def unfreeze_shift Let_def quietD split: prod.splits if_splits option.splits)
  have s1: "steady D val s ?s1 \<and> asset_total val ?s1 b \<le> asset_total val s b"
  proof (cases "mpd_cmp D (o_freeze a) (mpd_zero D) > 0")
    case True
    obtain x where x: "val (o_freeze a) = Some x"
      using assms(4) by (auto simp: finite_val_def)
    with True have "0 \<le> x"
      using mpd_cmp_val [OF L x mpd_zero_val [OF L]] by (auto split: if_splits)
    with x have "nonneg val (o_freeze a)"
      by (simp add: nonneg_def)
    with True assms(1-3) show ?thesis
      by (simp add: steady_shift balance_shift_ledger)
  next
    case False
    with assms(1) show ?thesis by (simp add: steady_def)
  qed
  show "steady D val s s'"
    using s1 steady_trans [OF _ steady_same_core [OF steadyD(1) core]] by blast
  show "asset_total val s' b \<le> asset_total val s b"
    using s1 by (simp add: same_core_ledger(3) [OF core])
qed

lemma finish_or_update_steady:
  assumes "ledger_inv D val s" "asset_exist s (m_stock m)" "asset_exist s (m_money m)" "finite_val val (o_freeze a)"
    and "finish_or_update D is_real m s a = (m', s')"
  shows "steady D val s s'" "asset_total val s' b \<le> asset_total val s b"
proof -
  let ?m = "m\<lparr>m_orders := (m_orders m)(o_id a \<mapsto> a)\<rparr>"
  let ?e = "if mpd_cmp D (o_left a) (mpd_zero D) = 0 then ORDER_EVENT_FINISH else ORDER_EVENT_UPDATE"
  let ?s = "if is_real then push_order_message D ?e a (m_stock m) (m_money m) s else s"
  have core: "same_core s ?s"
    by (simp add: quietD)
  note sc = same_core_ledger [OF core] and st = steady_same_core [OF assms(1) core]
  have "steady D val s s' \<and> asset_total val s' b \<le> asset_total val s b"
  proof (cases "mpd_cmp D (o_left a) (mpd_zero D) = 0")
    case True
    then obtain ret where fin: "order_finish D is_real ?m ?s a = (ret, m', s')"
      using assms(5) by (auto simp: finish_or_update_def Let_def split: prod.splits cong: if_cong)
    have "ledger_inv D val ?s" "asset_exist ?s (m_stock ?m)" "asset_exist ?s (m_money ?m)"
      using assms(1-3) by (simp_all add: sc(1,2))
    from order_finish_steady [OF this assms(4) fin] show ?thesis
      using steady_trans [OF st] by (simp add: sc(3))
  next
    case False
    with assms(5) have "s' = ?s"
      by (cases is_real) (simp_all add: finish_or_update_def Let_def)
    with st show ?thesis by (simp add: sc(3))
  qed
  then show "steady D val s s'" "asset_total val s' b \<le> asset_total val s b"
    by blast+
qed

section \<open>Finishing or updating a maker: the market\<close>

lemma finish_or_update_market:
  assumes L: "mpd_laws D val" and ok: "market_ok val m" and a: "m_orders m i = Some a" "o_id a = i"
    and b: "order_ok val b" "o_id b = i" "o_side b = o_side a" "o_price b = o_price a" "o_user_id b = o_user_id a"
    and fu: "finish_or_update D is_real m s b = (m', s')"
  shows "market_ok val m'" "same_market m m'"
    "j \<noteq> i \<Longrightarrow> m_orders m' j = m_orders m j"
    "val (o_left b) = Some 0 \<Longrightarrow> m_orders m' i \<in> {None, Some b}"
    "val (o_left b) \<noteq> Some 0 \<Longrightarrow> m_orders m' i = Some b"
    "m_asks m' = (if val (o_left b) = Some 0 \<and> o_side a = MARKET_ORDER_SIDE_ASK then remove1 i (m_asks m) else m_asks m)"
    "m_bids m' = (if val (o_left b) = Some 0 \<and> o_side a \<noteq> MARKET_ORDER_SIDE_ASK then remove1 i (m_bids m) else m_bids m)"
proof -
  let ?m = "m\<lparr>m_orders := (m_orders m)(i \<mapsto> b)\<rparr>"
  have ok': "market_ok val ?m"
    by (rule market_ok_update [OF ok a b(1)]) (fact b)+
  obtain x where x: "val (o_left b) = Some x" "0 \<le> x"
    using b(1) by (auto simp: order_ok_def amounts_ok_def elim: nonnegE)
  have zero: "mpd_cmp D (o_left b) (mpd_zero D) = 0 \<longleftrightarrow> val (o_left b) = Some 0"
    using x by (simp add: mpd_cmp_val [OF L x(1) mpd_zero_val [OF L]])
  have mi: "m_orders ?m i = Some b"
    by simp
  have all: "market_ok val m' \<and> same_market m m' \<and> (\<forall>j. j \<noteq> i \<longrightarrow> m_orders m' j = m_orders m j)
    \<and> (if val (o_left b) = Some 0 then m_orders m' i \<in> {None, Some b} else m_orders m' i = Some b)
    \<and> m_asks m' = (if val (o_left b) = Some 0 \<and> o_side a = MARKET_ORDER_SIDE_ASK then remove1 i (m_asks m) else m_asks m)
    \<and> m_bids m' = (if val (o_left b) = Some 0 \<and> o_side a \<noteq> MARKET_ORDER_SIDE_ASK then remove1 i (m_bids m) else m_bids m)"
  proof (cases "val (o_left b) = Some 0")
    case True
    define s1 where "s1 = (if is_real then push_order_message D ORDER_EVENT_FINISH b (m_stock m) (m_money m) s else s)"
    from True zero fu obtain ret where fin: "order_finish D is_real ?m s1 b = (ret, m', s')"
      by (auto simp: finish_or_update_def Let_def b(2) s1_def split: prod.splits cong: if_cong)
    note f = order_finish_ok [OF L ok' mi b(2) fin]
    have "same_market m m'"
      using f(2) by (simp add: same_market_def)
    then show ?thesis
      using f(1,3,4,5) True b(3) by auto
  next
    case False
    with zero fu have "m' = ?m"
      by (simp add: finish_or_update_def Let_def b(2))
    with ok' False show ?thesis
      by (auto simp: same_market_def)
  qed
  show "market_ok val m'" "same_market m m'"
    "j \<noteq> i \<Longrightarrow> m_orders m' j = m_orders m j"
    "val (o_left b) = Some 0 \<Longrightarrow> m_orders m' i \<in> {None, Some b}"
    "val (o_left b) \<noteq> Some 0 \<Longrightarrow> m_orders m' i = Some b"
    "m_asks m' = (if val (o_left b) = Some 0 \<and> o_side a = MARKET_ORDER_SIDE_ASK then remove1 i (m_asks m) else m_asks m)"
    "m_bids m' = (if val (o_left b) = Some 0 \<and> o_side a \<noteq> MARKET_ORDER_SIDE_ASK then remove1 i (m_bids m) else m_bids m)"
    using all by simp_all
qed

section \<open>One fill\<close>

text \<open>The orders of a fill afterwards.\<close>

definition taker_after :: "'d mpd_lib \<Rightarrow> ('d, 'z) market_state_scheme \<Rightarrow> 'd order \<Rightarrow> 'd \<Rightarrow> 'd \<Rightarrow> 'd \<Rightarrow> 'd \<Rightarrow> 'd order" where
  "taker_after D s taker used amount deal fee =
     dealt D used amount deal fee (taker\<lparr>o_update_time := clock s (ticks s)\<rparr>)"

definition maker_after :: "'d mpd_lib \<Rightarrow> ('d, 'z) market_state_scheme \<Rightarrow> 'd order \<Rightarrow> 'd \<Rightarrow> 'd \<Rightarrow> 'd \<Rightarrow> 'd \<Rightarrow> 'd order" where
  "maker_after D s maker amount deal paid fee =
     dealt_maker D amount deal paid fee (maker\<lparr>o_update_time := clock s (ticks s)\<rparr>)"

lemma taker_after_simps [simp]:
  "o_id (taker_after D s a used am de fe) = o_id a" "o_side (taker_after D s a used am de fe) = o_side a"
  "o_type (taker_after D s a used am de fe) = o_type a"
  "o_price (taker_after D s a used am de fe) = o_price a" "o_user_id (taker_after D s a used am de fe) = o_user_id a"
  "o_left (taker_after D s a used am de fe) = mpd_sub D (o_left a) used"
  "o_deal_stock (taker_after D s a used am de fe) = mpd_add D (o_deal_stock a) am"
  "o_deal_money (taker_after D s a used am de fe) = mpd_add D (o_deal_money a) de"
  "o_deal_fee (taker_after D s a used am de fe) = mpd_add D (o_deal_fee a) fe"
  "o_taker_fee (taker_after D s a used am de fe) = o_taker_fee a"
  "o_maker_fee (taker_after D s a used am de fe) = o_maker_fee a"
  "o_freeze (taker_after D s a used am de fe) = o_freeze a"
  "o_amount (taker_after D s a used am de fe) = o_amount a"
  by (simp_all add: taker_after_def dealt_def)

lemma maker_after_simps [simp]:
  "o_id (maker_after D s a am de pa fe) = o_id a" "o_side (maker_after D s a am de pa fe) = o_side a"
  "o_type (maker_after D s a am de pa fe) = o_type a"
  "o_price (maker_after D s a am de pa fe) = o_price a" "o_user_id (maker_after D s a am de pa fe) = o_user_id a"
  "o_left (maker_after D s a am de pa fe) = mpd_sub D (o_left a) am"
  "o_freeze (maker_after D s a am de pa fe) = mpd_sub D (o_freeze a) pa"
  "o_deal_stock (maker_after D s a am de pa fe) = mpd_add D (o_deal_stock a) am"
  "o_deal_money (maker_after D s a am de pa fe) = mpd_add D (o_deal_money a) de"
  "o_deal_fee (maker_after D s a am de pa fe) = mpd_add D (o_deal_fee a) fe"
  "o_taker_fee (maker_after D s a am de pa fe) = o_taker_fee a"
  "o_maker_fee (maker_after D s a am de pa fe) = o_maker_fee a"
  "o_amount (maker_after D s a am de pa fe) = o_amount a"
  by (simp_all add: maker_after_def dealt_maker_def)

text \<open>What the engine's state keeps in every step: its clock and the assets.\<close>

definition engine_ok :: "'d mpd_lib \<Rightarrow> ('d \<Rightarrow> rat option) \<Rightarrow> 'd market \<Rightarrow> ('d, 'z) market_state_scheme \<Rightarrow> bool" where
  "engine_ok D val m s \<longleftrightarrow> ledger_inv D val s \<and> asset_exist s (m_stock m) \<and> asset_exist s (m_money m) \<and> market_ok val m"

lemma fill_eq:
  assumes "fill D is_real q m s taker maker used amount deal gives x gets y tfa tfee mfa mfee = (m', s', taker')"
  shows "taker' = taker_after D s taker used amount deal tfee"
    and "finish_or_update D is_real m
           (exchange D q (o_user_id taker) (o_user_id maker) gives x gets y tfa tfee mfa mfee
              (s\<lparr>ticks := ticks s + 1, deals_id_start := deals_id_start s + 1\<rparr>))
           (maker_after D s maker amount deal y mfee) = (m', s')"
proof -
  have [simp]: "o_user_id (dealt D used amount deal tfee a) = o_user_id a"
     "o_user_id (dealt_maker D amount deal y mfee a) = o_user_id a" for a :: "'a order"
    by (simp_all add: dealt_def dealt_maker_def)
  show "taker' = taker_after D s taker used amount deal tfee"
    using assms by (simp add: fill_def current_timestamp_def Let_def taker_after_def split: prod.splits)
  show "finish_or_update D is_real m
           (exchange D q (o_user_id taker) (o_user_id maker) gives x gets y tfa tfee mfa mfee
              (s\<lparr>ticks := ticks s + 1, deals_id_start := deals_id_start s + 1\<rparr>))
           (maker_after D s maker amount deal y mfee) = (m', s')"
    using assms by (simp add: fill_def current_timestamp_def Let_def maker_after_def split: prod.splits)
qed

text \<open>The arguments of a fill of the maker \<open>i\<close>: what every caller establishes.\<close>

definition fill_args :: "('d \<Rightarrow> rat option) \<Rightarrow> 'd market \<Rightarrow> 'd order \<Rightarrow> 'd \<Rightarrow> 'd \<Rightarrow> string \<Rightarrow> 'd \<Rightarrow> string \<Rightarrow> 'd
    \<Rightarrow> string \<Rightarrow> 'd \<Rightarrow> string \<Rightarrow> 'd \<Rightarrow> bool" where
  "fill_args val m maker amount deal gives x gets y tfa tfee mfa mfee \<longleftrightarrow>
     {gives, gets, tfa, mfa} \<subseteq> {m_stock m, m_money m}
   \<and> nonneg val x \<and> nonneg val y \<and> nonneg val tfee \<and> nonneg val mfee \<and> nonneg val deal
   \<and> nonneg val amount \<and> amount_val val amount \<le> amount_val val (o_left maker)"

lemma maker_after_ok:
  assumes L: "mpd_laws D val" and ok: "order_ok val maker"
    and args: "fill_args val m maker amount deal gives x gets y tfa tfee mfa mfee"
  shows "order_ok val (maker_after D s maker amount deal y mfee)"
proof -
  have a: "nonneg val amount" "nonneg val deal" "nonneg val y" "nonneg val mfee"
      "amount_val val amount \<le> amount_val val (o_left maker)"
    using args by (simp_all add: fill_args_def)
  have m: "nonneg val (o_left maker)" "finite_val val (o_freeze maker)"
      "nonneg val (o_deal_stock maker)" "nonneg val (o_deal_money maker)" "nonneg val (o_deal_fee maker)"
    using ok by (simp_all add: order_ok_def amounts_ok_def)
  obtain u v where "val amount = Some u" "val (o_left maker) = Some v" "u \<le> v"
    using a(1,5) m(1) by (auto elim!: nonnegE simp: amount_val_def)
  then have "nonneg val (mpd_sub D (o_left maker) amount)"
    by (intro nonneg_sub [OF L, of _ v _ u])
  with ok a m show ?thesis
    by (simp add: order_ok_def amounts_ok_def nonneg_add [OF L] finite_sub [OF L] nonneg_finite)
qed

lemma engine_okD:
  assumes "engine_ok D val m s"
  shows "mpd_laws D val" "ledger_inv D val s" "asset_exist s (m_stock m)" "asset_exist s (m_money m)" "market_ok val m"
  using assms by (simp_all add: engine_ok_def ledger_inv_def)

lemma engine_ok_maker:
  assumes "engine_ok D val m s" "m_orders m i = Some a"
  shows "o_id a = i" "order_ok val a"
  using assms by (auto simp: engine_ok_def market_ok_def heap_ok_def)

lemma market_fields:
  assumes "history_state.more s' = history_state.more s"
  shows "order_id_start s' = order_id_start s" "deals_id_start s' = deals_id_start s"
    "clock s' = clock s" "ticks s' = ticks s" "market_state.more s' = market_state.more s"
  using assms by (cases s; cases s'; simp)+

lemma tick_core:
  "ledger_inv D val (s\<lparr>ticks := t, deals_id_start := d\<rparr>) = ledger_inv D val s"
  "asset_exist (s\<lparr>ticks := t, deals_id_start := d\<rparr>) = asset_exist s"
  "asset_total val (s\<lparr>ticks := t, deals_id_start := d\<rparr>) = asset_total val s"
  "key_amount val (s\<lparr>ticks := t, deals_id_start := d\<rparr>) = key_amount val s"
  by (simp_all add: fun_eq_iff ledger_inv_def balances_ok_def asset_exist_def get_asset_type_def asset_total_def key_amount_def)

lemma fill_facts:
  assumes ok: "engine_ok D val m s" and maker: "m_orders m i = Some maker" and q: "reporters is_real q"
    and args: "fill_args val m maker amount deal gives x gets y tfa tfee mfa mfee"
    and fill: "fill D is_real q m s taker maker used amount deal gives x gets y tfa tfee mfa mfee = (m', s', taker')"
  shows "engine_ok D val m' s'" "same_market m m'" "dict_asset s' = dict_asset s"
    "order_id_start s' = order_id_start s" "deals_id_start s' = deals_id_start s + 1"
    "clock s' = clock s" "market_state.more s' = market_state.more s"
    "taker' = taker_after D s taker used amount deal tfee"
    "j \<noteq> i \<Longrightarrow> m_orders m' j = m_orders m j"
    "val (mpd_sub D (o_left maker) amount) = Some 0 \<Longrightarrow>
       m_orders m' i \<in> {None, Some (maker_after D s maker amount deal y mfee)}"
    "val (mpd_sub D (o_left maker) amount) \<noteq> Some 0 \<Longrightarrow>
       m_orders m' i = Some (maker_after D s maker amount deal y mfee)"
    "m_asks m' = (if val (mpd_sub D (o_left maker) amount) = Some 0 \<and> o_side maker = MARKET_ORDER_SIDE_ASK
       then remove1 i (m_asks m) else m_asks m)"
    "m_bids m' = (if val (mpd_sub D (o_left maker) amount) = Some 0 \<and> o_side maker \<noteq> MARKET_ORDER_SIDE_ASK
       then remove1 i (m_bids m) else m_bids m)"
    "amount_val val x \<le> key_amount val s (mk_key (o_user_id taker) BALANCE_TYPE_AVAILABLE gives) \<Longrightarrow>
     amount_val val y \<le> key_amount val s (mk_key (o_user_id maker) BALANCE_TYPE_FREEZE gets) \<Longrightarrow>
       asset_total val s' b \<le> asset_total val s b"
proof -
  note E = engine_okD [OF ok] and M = engine_ok_maker [OF ok maker] and F = fill_eq [OF fill]
  let ?b = "maker_after D s maker amount deal y mfee"
  let ?s0 = "s\<lparr>ticks := ticks s + 1, deals_id_start := deals_id_start s + 1\<rparr>"
  let ?s1 = "exchange D q (o_user_id taker) (o_user_id maker) gives x gets y tfa tfee mfa mfee ?s0"
  have known: "asset_exist ?s0 gives" "asset_exist ?s0 gets" "asset_exist ?s0 tfa" "asset_exist ?s0 mfa"
    using args E(3,4) by (auto simp: tick_core fill_args_def)
  have pos: "nonneg val x" "nonneg val y" "nonneg val tfee" "nonneg val mfee"
    using args by (simp_all add: fill_args_def)
  have s1: "steady D val ?s0 ?s1"
    by (rule exchange_steady [OF _ q known pos]) (simp add: tick_core E)
  note S1 = steadyD [OF s1]
  have bok: "order_ok val ?b"
    using E(1) M(2) args by (rule maker_after_ok)
  then have fz: "finite_val val (o_freeze ?b)"
    by (simp add: order_ok_def amounts_ok_def)
  have ex1: "asset_exist ?s1 (m_stock m)" "asset_exist ?s1 (m_money m)"
    using E(3,4) by (simp_all only: S1(2) tick_core)
  note fs = finish_or_update_steady [OF S1(1) ex1 fz F(2)]
  note fm = finish_or_update_market [OF E(1,5) maker M(1) bok _ _ _ _ F(2), unfolded maker_after_simps, OF M(1) refl refl refl]
  note S2 = steadyD [OF fs(1)]
  have more: "history_state.more s' = history_state.more ?s0"
    using S2(3) S1(3) by simp
  note fields = market_fields [OF more]
  show "engine_ok D val m' s'"
    using S2(1,2) S1(2) fm(1,2) E(3,4) by (simp add: engine_ok_def same_market_def tick_core)
  show "same_market m m'" by (fact fm(2))
  show "dict_asset s' = dict_asset s" using S1(4) S2(4) by simp
  show "order_id_start s' = order_id_start s" "deals_id_start s' = deals_id_start s + 1"
    "clock s' = clock s" "market_state.more s' = market_state.more s"
    using fields by simp_all
  show "taker' = taker_after D s taker used amount deal tfee" by (fact F(1))
  show "j \<noteq> i \<Longrightarrow> m_orders m' j = m_orders m j" by (fact fm(3))
  show "val (mpd_sub D (o_left maker) amount) = Some 0 \<Longrightarrow> m_orders m' i \<in> {None, Some ?b}" by (fact fm(4))
  show "val (mpd_sub D (o_left maker) amount) \<noteq> Some 0 \<Longrightarrow> m_orders m' i = Some ?b" by (fact fm(5))
  show "m_asks m' = (if val (mpd_sub D (o_left maker) amount) = Some 0 \<and> o_side maker = MARKET_ORDER_SIDE_ASK
       then remove1 i (m_asks m) else m_asks m)" by (fact fm(6))
  show "m_bids m' = (if val (mpd_sub D (o_left maker) amount) = Some 0 \<and> o_side maker \<noteq> MARKET_ORDER_SIDE_ASK
       then remove1 i (m_bids m) else m_bids m)" by (fact fm(7))
  show "asset_total val s' b \<le> asset_total val s b"
    if "amount_val val x \<le> key_amount val s (mk_key (o_user_id taker) BALANCE_TYPE_AVAILABLE gives)"
      "amount_val val y \<le> key_amount val s (mk_key (o_user_id maker) BALANCE_TYPE_FREEZE gets)"
  proof -
    obtain vx vy where v: "val x = Some vx" "0 \<le> vx" "val y = Some vy" "0 \<le> vy"
      using pos by (auto elim!: nonnegE)
    have "asset_total val ?s1 b \<le> asset_total val ?s0 b"
      by (rule exchange_total [OF _ q known v pos(3,4)])
        (use E(2) that v(1,3) in \<open>simp_all add: tick_core amount_val_def\<close>)
    with fs(2) [of b] show ?thesis
      by (simp add: tick_core)
  qed
qed

text \<open>
  \<open>filled\<close>: what a fill of the maker \<open>i\<close> does, the same for the four loops. \<open>used\<close> is what the
  taker's \<open>left\<close> loses: the traded amount, in a market bid the money paid for it.
\<close>

definition filled :: "'d mpd_lib \<Rightarrow> ('d \<Rightarrow> rat option) \<Rightarrow> 'd market \<Rightarrow> ('d, 'z) market_state_scheme \<Rightarrow> u64
    \<Rightarrow> 'd order \<Rightarrow> 'd order \<Rightarrow> 'd \<Rightarrow> 'd \<Rightarrow> 'd market \<Rightarrow> ('d, 'z) market_state_scheme \<Rightarrow> 'd order \<Rightarrow> bool" where
  "filled D val m s i taker maker used amount m' s' taker' \<longleftrightarrow>
     engine_ok D val m' s' \<and> same_market m m' \<and> dict_asset s' = dict_asset s
   \<and> order_id_start s' = order_id_start s \<and> deals_id_start s' = deals_id_start s + 1
   \<and> (\<forall>j. j \<noteq> i \<longrightarrow> m_orders m' j = m_orders m j)
   \<and> (\<exists>fee. nonneg val fee \<and> taker' = taker_after D s taker used amount (mpd_mul D (o_price maker) amount) fee)
   \<and> (\<exists>paid fee. let b = maker_after D s maker amount (mpd_mul D (o_price maker) amount) paid fee in
        if val (mpd_sub D (o_left maker) amount) = Some 0
        then m_orders m' i \<in> {None, Some b} else m_orders m' i = Some b)
   \<and> m_asks m' = (if val (mpd_sub D (o_left maker) amount) = Some 0 \<and> o_side maker = MARKET_ORDER_SIDE_ASK
                   then remove1 i (m_asks m) else m_asks m)
   \<and> m_bids m' = (if val (mpd_sub D (o_left maker) amount) = Some 0 \<and> o_side maker \<noteq> MARKET_ORDER_SIDE_ASK
                   then remove1 i (m_bids m) else m_bids m)"

lemma fill_filled:
  assumes "engine_ok D val m s" "m_orders m i = Some maker" "reporters is_real q"
    and args: "fill_args val m maker amount (mpd_mul D (o_price maker) amount) gives x gets y tfa tfee mfa mfee"
    and "fill D is_real q m s taker maker used amount (mpd_mul D (o_price maker) amount)
           gives x gets y tfa tfee mfa mfee = (m', s', taker')"
  shows "filled D val m s i taker maker used amount m' s' taker'"
proof -
  note f = fill_facts [OF assms]
  have "nonneg val tfee"
    using args by (simp add: fill_args_def)
  then show ?thesis
    unfolding filled_def Let_def using f(1-5,8-13) by (simp add: exI [of _ tfee]) blast
qed

text \<open>The smaller of what the two orders have left is traded.\<close>

definition min_left :: "'d mpd_lib \<Rightarrow> 'd order \<Rightarrow> 'd order \<Rightarrow> 'd" where
  "min_left D taker maker = (if mpd_cmp D (o_left taker) (o_left maker) < 0 then o_left taker else o_left maker)"

lemma min_left_ok:
  assumes "mpd_laws D val" "nonneg val (o_left taker)" "nonneg val (o_left maker)"
  shows "nonneg val (min_left D taker maker)"
    "amount_val val (min_left D taker maker) \<le> amount_val val (o_left maker)"
    "amount_val val (min_left D taker maker) \<le> amount_val val (o_left taker)"
    "val (mpd_sub D (o_left taker) (min_left D taker maker)) = Some 0
       \<or> val (mpd_sub D (o_left maker) (min_left D taker maker)) = Some 0"
proof -
  obtain x where x: "val (o_left taker) = Some x" "0 \<le> x"
    using assms(2) by (rule nonnegE)
  obtain y where y: "val (o_left maker) = Some y" "0 \<le> y"
    using assms(3) by (rule nonnegE)
  note c = mpd_cmp_val [OF assms(1) x(1) y(1)]
  have self: "val (mpd_sub D a a) = Some 0" if "val a = Some v" for a v
    using mpd_sub_val [OF assms(1) that that] by simp
  show "nonneg val (min_left D taker maker)"
    using assms(2,3) by (simp add: min_left_def)
  show "amount_val val (min_left D taker maker) \<le> amount_val val (o_left maker)"
    "amount_val val (min_left D taker maker) \<le> amount_val val (o_left taker)"
    using x y by (auto simp: min_left_def c amount_val_def split: if_splits)
  show "val (mpd_sub D (o_left taker) (min_left D taker maker)) = Some 0
       \<or> val (mpd_sub D (o_left maker) (min_left D taker maker)) = Some 0"
    using self [OF x(1)] self [OF y(1)] by (simp add: min_left_def)
qed

lemma order_okD:
  assumes "order_ok val a"
  shows "nonneg val (o_price a)" "nonneg val (o_left a)" "nonneg val (o_maker_fee a)" "amounts_ok val a"
  using assms by (auto simp: order_ok_def amounts_ok_def nonneg_def)

lemma amounts_okD:
  assumes "amounts_ok val a"
  shows "nonneg val (o_left a)" "nonneg val (o_taker_fee a)" "nonneg val (o_maker_fee a)"
  using assms by (auto simp: amounts_ok_def)

lemma limit_ask_filled:
  assumes ok: "engine_ok D val m s" and i: "m_orders m i = Some maker" and t: "amounts_ok val taker"
    and fill: "limit_ask_fill D is_real m s taker maker = (m', s', taker')"
  shows "filled D val m s i taker maker (min_left D taker maker) (min_left D taker maker) m' s' taker'"
proof -
  note L = engine_okD(1) [OF ok] and M = order_okD [OF engine_ok_maker(2) [OF ok i]] and T = amounts_okD [OF t]
  note a = min_left_ok [OF L T(1) M(2)] and mul = nonneg_mul [OF L]
  obtain q where q: "reporters is_real q" and eq: "limit_ask_fill D is_real m s taker maker =
      fill D is_real q m s taker maker (min_left D taker maker) (min_left D taker maker)
        (mpd_mul D (o_price maker) (min_left D taker maker)) (m_stock m) (min_left D taker maker) (m_money m)
        (mpd_mul D (o_price maker) (min_left D taker maker))
        (m_money m) (mpd_mul D (mpd_mul D (o_price maker) (min_left D taker maker)) (o_taker_fee taker))
        (m_money m) (mpd_mul D (mpd_mul D (o_price maker) (min_left D taker maker)) (o_maker_fee maker))"
    using limit_ask_fill_shape [OF min_left_def refl] by blast
  show ?thesis
    by (rule fill_filled [OF ok i q _ fill [unfolded eq]]) (simp add: fill_args_def a mul M T)
qed

lemma limit_bid_filled:
  assumes ok: "engine_ok D val m s" and i: "m_orders m i = Some maker" and t: "amounts_ok val taker"
    and fill: "limit_bid_fill D is_real m s taker maker = (m', s', taker')"
  shows "filled D val m s i taker maker (min_left D taker maker) (min_left D taker maker) m' s' taker'"
proof -
  note L = engine_okD(1) [OF ok] and M = order_okD [OF engine_ok_maker(2) [OF ok i]] and T = amounts_okD [OF t]
  note a = min_left_ok [OF L T(1) M(2)] and mul = nonneg_mul [OF L]
  obtain q where q: "reporters is_real q" and eq: "limit_bid_fill D is_real m s taker maker =
      fill D is_real q m s taker maker (min_left D taker maker) (min_left D taker maker)
        (mpd_mul D (o_price maker) (min_left D taker maker)) (m_money m)
        (mpd_mul D (o_price maker) (min_left D taker maker)) (m_stock m) (min_left D taker maker)
        (m_money m) (mpd_mul D (mpd_mul D (o_price maker) (min_left D taker maker)) (o_taker_fee taker))
        (m_money m) (mpd_mul D (mpd_mul D (o_price maker) (min_left D taker maker)) (o_maker_fee maker))"
    using limit_bid_fill_shape [OF min_left_def refl] by blast
  show ?thesis
    by (rule fill_filled [OF ok i q _ fill [unfolded eq]]) (simp add: fill_args_def a mul M T)
qed

lemma market_ask_filled:
  assumes ok: "engine_ok D val m s" and i: "m_orders m i = Some maker" and t: "amounts_ok val taker"
    and fill: "market_ask_fill D is_real m s taker maker = (m', s', taker')"
  shows "filled D val m s i taker maker (min_left D taker maker) (min_left D taker maker) m' s' taker'"
proof -
  note L = engine_okD(1) [OF ok] and M = order_okD [OF engine_ok_maker(2) [OF ok i]] and T = amounts_okD [OF t]
  note a = min_left_ok [OF L T(1) M(2)] and mul = nonneg_mul [OF L]
  obtain q where q: "reporters is_real q" and eq: "market_ask_fill D is_real m s taker maker =
      fill D is_real q m s taker maker (min_left D taker maker) (min_left D taker maker)
        (mpd_mul D (o_price maker) (min_left D taker maker)) (m_stock m) (min_left D taker maker) (m_money m)
        (mpd_mul D (o_price maker) (min_left D taker maker))
        (m_money m) (mpd_mul D (mpd_mul D (o_price maker) (min_left D taker maker)) (o_taker_fee taker))
        (m_stock m) (mpd_mul D (min_left D taker maker) (o_maker_fee maker))"
    using market_ask_fill_shape [OF min_left_def refl] by blast
  show ?thesis
    by (rule fill_filled [OF ok i q _ fill [unfolded eq]]) (simp add: fill_args_def a mul M T)
qed

lemma market_bid_filled:
  assumes ok: "engine_ok D val m s" and i: "m_orders m i = Some maker" and t: "amounts_ok val taker"
    and am: "nonneg val amount" "amount_val val amount \<le> amount_val val (o_left maker)"
    and fill: "market_bid_fill D is_real m s taker maker amount = (m', s', taker')"
  shows "filled D val m s i taker maker (mpd_mul D (o_price maker) amount) amount m' s' taker'"
proof -
  note L = engine_okD(1) [OF ok] and M = order_okD [OF engine_ok_maker(2) [OF ok i]] and T = amounts_okD [OF t]
  note mul = nonneg_mul [OF L]
  obtain q where q: "reporters is_real q" and eq: "market_bid_fill D is_real m s taker maker amount =
      fill D is_real q m s taker maker (mpd_mul D (o_price maker) amount) amount
        (mpd_mul D (o_price maker) amount) (m_money m) (mpd_mul D (o_price maker) amount) (m_stock m) amount
        (m_stock m) (mpd_mul D amount (o_taker_fee taker))
        (m_money m) (mpd_mul D (mpd_mul D (o_price maker) amount) (o_maker_fee maker))"
    using market_bid_fill_shape [where D = D and maker = maker and amount = amount and taker = taker and m = m
        and s = s and is_real = is_real, OF refl] by blast
  show ?thesis
    by (rule fill_filled [OF ok i q _ fill [unfolded eq]]) (simp add: fill_args_def am mul M T)
qed

text \<open>The taker after a fill is well-formed when it had enough left.\<close>

lemma taker_after_ok:
  assumes L: "mpd_laws D val" and t: "amounts_ok val taker"
    and "nonneg val used" "amount_val val used \<le> amount_val val (o_left taker)" "nonneg val am" "nonneg val de" "nonneg val fe"
  shows "amounts_ok val (taker_after D s taker used am de fe)"
proof -
  obtain u v where "val used = Some u" "val (o_left taker) = Some v" "u \<le> v"
    using t assms(3,4) by (auto elim!: nonnegE simp: amounts_ok_def amount_val_def)
  then have "nonneg val (mpd_sub D (o_left taker) used)"
    by (intro nonneg_sub [OF L, of _ v _ u])
  with t assms(5-7) show ?thesis
    by (simp add: amounts_ok_def nonneg_add [OF L])
qed

section \<open>The amount of a market bid\<close>

text \<open>
  Dividing and truncating never gives an amount that costs more than what is left: the correction
  loop of the code ends at its first test.
\<close>

lemma market_bid_amount_ok:
  assumes L: "mpd_laws D val" and p: "0 \<le> m_stock_prec m" "m_stock_prec m \<le> max_prec"
    and taker: "nonneg val (o_left taker)" and maker: "order_ok val maker"
  shows "\<exists>amount. market_bid_amount D m taker maker = Some amount \<and> nonneg val amount
    \<and> amount_val val amount \<le> amount_val val (o_left maker)
    \<and> amount_val val (mpd_mul D (o_price maker) amount) \<le> amount_val val (o_left taker)"
proof -
  obtain x where x: "val (o_left taker) = Some x" "0 \<le> x"
    using taker by (rule nonnegE)
  obtain pr where pr: "val (o_price maker) = Some pr" "0 < pr"
    using maker by (auto simp: order_ok_def)
  obtain l where l: "val (o_left maker) = Some l" "0 \<le> l"
    using order_okD(2) [OF maker] by (rule nonnegE)
  obtain d where d: "val (mpd_div D (o_left taker) (o_price maker)) = Some d" "0 \<le> d" "d \<le> x / pr"
    using mpd_div_val [OF L x(1) pr(1) x(2) pr(2)] by blast
  define a where "a = mpd_rescale D (mpd_div D (o_left taker) (o_price maker)) (- m_stock_prec m)"
  define z where "z = trunc_dec (nat (m_stock_prec m)) d"
  have a: "val a = Some z"
    using mpd_rescale_val [OF L d(1) p] by (simp add: a_def z_def)
  have z: "0 \<le> z" "z \<le> x / pr"
    using trunc_dec_bounds [OF d(2), of "nat (m_stock_prec m)"] d(3) by (auto simp: z_def)
  then have zp: "pr * z \<le> x"
    using pr(2) by (simp add: field_simps)
  obtain c where c: "val (mpd_mul D a (o_price maker)) = Some c" "rounds c (z * pr)"
    using mpd_mul_val [OF L a pr(1)] by blast
  have cx: "c \<le> x"
    using rounds_nonneg [OF c(2)] z pr(2) zp by (simp add: mult.commute)
  have red: "market_bid_reduce D (m_stock_prec m) (o_left taker) (o_price maker) a = Some a"
    using cx by (subst market_bid_reduce.simps) (simp add: mpd_cmp_val [OF L c(1) x(1)])
  define b where "b = (if mpd_cmp D a (o_left maker) > 0 then o_left maker else a)"
  have "market_bid_amount D m taker maker = Some b"
    using red by (simp add: market_bid_amount_def Let_def a_def b_def)
  moreover obtain w where w: "val b = Some w" "0 \<le> w" "w \<le> l" "w \<le> z"
  proof -
    have "val b = Some (min z l)"
      using a l by (simp add: b_def mpd_cmp_val [OF L a l(1)])
    with z(1) l(2) show ?thesis
      using that by simp
  qed
  moreover obtain e where e: "val (mpd_mul D (o_price maker) b) = Some e" "rounds e (pr * w)"
    using mpd_mul_val [OF L pr(1) w(1)] by blast
  moreover have "e \<le> x"
  proof -
    have "e \<le> pr * w"
      using rounds_nonneg [OF e(2)] pr(2) w(2) by simp
    also have "\<dots> \<le> pr * z"
      using w(4) pr(2) by simp
    finally show ?thesis
      using zp by simp
  qed
  ultimately show ?thesis
    using x l by (auto simp: nonneg_def amount_val_def)
qed

end
