(* ===== verification/Runs.thy ===== *)
theory Runs
  imports Fill_Facts
begin

text \<open>
  A run of a matching loop as a sequence of fills. The four loops of the code are shown to be such
  runs, over a prefix of the book in its order; what holds of every run is proved once, by
  induction on the run.
\<close>

section \<open>Runs\<close>

text \<open>
  \<open>matched D val by_money acc m s t trades m' s' t'\<close>: from the market \<open>m\<close>, the state \<open>s\<close> and the
  taker \<open>t\<close> the makers of \<open>trades\<close>, each accepted by \<open>acc\<close>, are filled one after the other with
  the amounts of \<open>trades\<close>.
\<close>

inductive matched :: "'d mpd_lib \<Rightarrow> ('d \<Rightarrow> rat option) \<Rightarrow> bool \<Rightarrow> ('d order \<Rightarrow> bool)
    \<Rightarrow> 'd market \<Rightarrow> ('d, 'z) market_state_scheme \<Rightarrow> 'd order \<Rightarrow> (u64 \<times> 'd) list
    \<Rightarrow> 'd market \<Rightarrow> ('d, 'z) market_state_scheme \<Rightarrow> 'd order \<Rightarrow> bool"
  for D val by_money acc where
  matched_Nil: "matched D val by_money acc m s t [] m s t"
| matched_Cons: "m_orders m i = Some maker \<Longrightarrow> acc maker \<Longrightarrow>
     nonneg val amount \<Longrightarrow> amount_val val amount \<le> amount_val val (o_left maker) \<Longrightarrow>
     amount_val val used \<le> amount_val val (o_left t) \<Longrightarrow>
     used = (if by_money then mpd_mul D (o_price maker) amount else amount) \<Longrightarrow>
     filled D val m s i t maker used amount m1 s1 t1 \<Longrightarrow>
     matched D val by_money acc m1 s1 t1 trades m' s' t' \<Longrightarrow>
     matched D val by_money acc m s t ((i, amount) # trades) m' s' t'"

inductive_cases matched_ConsE: "matched D val by_money acc m s t ((i, amount) # trades) m' s' t'"

lemma filledD:
  assumes "filled D val m s i t maker used amount m' s' t'"
  shows "engine_ok D val m' s'" "same_market m m'" "dict_asset s' = dict_asset s"
    "order_id_start s' = order_id_start s" "deals_id_start s' = deals_id_start s + 1"
    "j \<noteq> i \<Longrightarrow> m_orders m' j = m_orders m j"
    "m_asks m' = (if val (mpd_sub D (o_left maker) amount) = Some 0 \<and> o_side maker = MARKET_ORDER_SIDE_ASK
       then remove1 i (m_asks m) else m_asks m)"
    "m_bids m' = (if val (mpd_sub D (o_left maker) amount) = Some 0 \<and> o_side maker \<noteq> MARKET_ORDER_SIDE_ASK
       then remove1 i (m_bids m) else m_bids m)"
  using assms by (simp_all add: filled_def)

lemma filled_taker:
  assumes "filled D val m s i t maker used amount m' s' t'"
  shows "\<exists>fee. nonneg val fee \<and> t' = taker_after D s t used amount (mpd_mul D (o_price maker) amount) fee"
  using assms by (simp add: filled_def)

lemma filled_taker_simps:
  assumes "filled D val m s i t maker used amount m' s' t'"
  shows "o_id t' = o_id t" "o_side t' = o_side t" "o_type t' = o_type t" "o_price t' = o_price t"
    "o_user_id t' = o_user_id t" "o_amount t' = o_amount t" "o_left t' = mpd_sub D (o_left t) used"
    "o_deal_stock t' = mpd_add D (o_deal_stock t) amount"
    "o_deal_money t' = mpd_add D (o_deal_money t) (mpd_mul D (o_price maker) amount)"
    "o_freeze t' = o_freeze t"
  using filled_taker [OF assms] by auto

lemma filled_taker_ok:
  assumes fl: "filled D val m s i t maker used amount m' s' t'" and L: "mpd_laws D val" and t: "amounts_ok val t"
    and maker: "order_ok val maker" and am: "nonneg val amount" and us: "amount_val val used \<le> amount_val val (o_left t)"
    and used: "used = (if by_money then mpd_mul D (o_price maker) amount else amount)"
  shows "amounts_ok val t'"
proof -
  have de: "nonneg val (mpd_mul D (o_price maker) amount)"
    by (rule nonneg_mul [OF L order_okD(1) [OF maker] am])
  then have "nonneg val used"
    using used am by simp
  with filled_taker [OF fl] taker_after_ok [OF L t _ us am de] show ?thesis
    by auto
qed

text \<open>A maker that is still there after a fill has the same side, price, user and id.\<close>

lemma filled_maker:
  assumes "filled D val m s i t maker used amount m' s' t'" "m_orders m i = Some maker" "m_orders m' j = Some b"
  shows "\<exists>a. m_orders m j = Some a \<and> o_side b = o_side a \<and> o_price b = o_price a \<and> o_user_id b = o_user_id a
     \<and> o_amount b = o_amount a"
proof (cases "j = i")
  case True
  from assms(1) obtain paid fee where
    "m_orders m' i \<in> {None, Some (maker_after D s maker amount (mpd_mul D (o_price maker) amount) paid fee)}"
    unfolding filled_def Let_def by (auto split: if_splits)
  with assms(2,3) True show ?thesis by auto
next
  case False
  with assms filledD(6) [OF assms(1)] show ?thesis by simp
qed

lemma matched_engine:
  assumes "matched D val by_money acc m s t trades m' s' t'" "engine_ok D val m s" "amounts_ok val t"
  shows "engine_ok D val m' s'" "amounts_ok val t'" "same_market m m'" "dict_asset s' = dict_asset s"
    "order_id_start s' = order_id_start s" "deals_id_start s' = deals_id_start s + of_nat (length trades)"
    "o_id t' = o_id t" "o_side t' = o_side t" "o_type t' = o_type t" "o_price t' = o_price t"
    "o_user_id t' = o_user_id t" "o_amount t' = o_amount t" "o_freeze t' = o_freeze t"
proof -
  have "engine_ok D val m' s' \<and> amounts_ok val t' \<and> same_market m m' \<and> dict_asset s' = dict_asset s
    \<and> order_id_start s' = order_id_start s \<and> deals_id_start s' = deals_id_start s + of_nat (length trades)
    \<and> o_id t' = o_id t \<and> o_side t' = o_side t \<and> o_type t' = o_type t \<and> o_price t' = o_price t
    \<and> o_user_id t' = o_user_id t \<and> o_amount t' = o_amount t \<and> o_freeze t' = o_freeze t"
    using assms
  proof (induction rule: matched.induct)
    case (matched_Nil m s t)
    then show ?case by simp
  next
    case (matched_Cons m i maker amount used t s m1 s1 t1 trades m' s' t')
    note fl = matched_Cons.hyps(7)
    have "amounts_ok val t1"
      by (rule filled_taker_ok [OF fl engine_okD(1) [OF matched_Cons.prems(1)] matched_Cons.prems(2)
            engine_ok_maker(2) [OF matched_Cons.prems(1) matched_Cons.hyps(1)] matched_Cons.hyps(3,5,6)])
    then show ?case
      using matched_Cons.IH filledD(1-5) [OF fl] filled_taker_simps [OF fl] same_market_trans
      by (auto simp: algebra_simps)
  qed
  then show "engine_ok D val m' s'" "amounts_ok val t'" "same_market m m'" "dict_asset s' = dict_asset s"
    "order_id_start s' = order_id_start s" "deals_id_start s' = deals_id_start s + of_nat (length trades)"
    "o_id t' = o_id t" "o_side t' = o_side t" "o_type t' = o_type t" "o_price t' = o_price t"
    "o_user_id t' = o_user_id t" "o_amount t' = o_amount t" "o_freeze t' = o_freeze t"
    by blast+
qed

text \<open>Orders that are in the market after a run were there before, with the same key.\<close>

lemma matched_orders:
  assumes "matched D val by_money acc m s t trades m' s' t'" "m_orders m' j = Some b"
  shows "\<exists>a. m_orders m j = Some a \<and> o_side b = o_side a \<and> o_price b = o_price a \<and> o_user_id b = o_user_id a
     \<and> o_amount b = o_amount a"
  using assms
proof (induction arbitrary: b rule: matched.induct)
  case (matched_Nil m s t)
  then show ?case by simp
next
  case (matched_Cons m i maker amount used t s m1 s1 t1 trades m' s' t')
  then obtain a where a: "m_orders m1 j = Some a" "o_side b = o_side a" "o_price b = o_price a"
      "o_user_id b = o_user_id a" "o_amount b = o_amount a"
    by blast
  from filled_maker [OF matched_Cons.hyps(7,1) a(1)] a(2-) show ?case
    by auto
qed

text \<open>Only the book of the makers' side changes, and it only loses orders.\<close>

lemma filled_books:
  assumes "filled D val m s i t maker used amount m' s' t'"
  shows "o_side maker = MARKET_ORDER_SIDE_BID \<Longrightarrow> m_asks m' = m_asks m"
    "o_side maker = MARKET_ORDER_SIDE_ASK \<Longrightarrow> m_bids m' = m_bids m"
    "set (m_asks m') \<subseteq> set (m_asks m)" "set (m_bids m') \<subseteq> set (m_bids m)"
  using filledD(7,8) [OF assms] set_remove1_subset [of i "m_asks m"] set_remove1_subset [of i "m_bids m"]
  by (simp_all split: if_splits)

lemma matched_books:
  assumes "matched D val by_money acc m s t trades m' s' t'" and side: "\<And>a. acc a \<Longrightarrow> o_side a = side"
  shows "side = MARKET_ORDER_SIDE_BID \<Longrightarrow> m_asks m' = m_asks m"
    "side = MARKET_ORDER_SIDE_ASK \<Longrightarrow> m_bids m' = m_bids m"
    "set (m_asks m') \<subseteq> set (m_asks m)" "set (m_bids m') \<subseteq> set (m_bids m)"
proof -
  have "(side = MARKET_ORDER_SIDE_BID \<longrightarrow> m_asks m' = m_asks m) \<and> (side = MARKET_ORDER_SIDE_ASK \<longrightarrow> m_bids m' = m_bids m)
     \<and> set (m_asks m') \<subseteq> set (m_asks m) \<and> set (m_bids m') \<subseteq> set (m_bids m)"
    using assms(1)
  proof (induction rule: matched.induct)
    case (matched_Nil m s t)
    then show ?case by simp
  next
    case (matched_Cons m i maker amount used t s m1 s1 t1 trades m' s' t')
    from filled_books [OF matched_Cons.hyps(7)] side [OF matched_Cons.hyps(2)] matched_Cons.IH
    show ?case by fastforce
  qed
  then show "side = MARKET_ORDER_SIDE_BID \<Longrightarrow> m_asks m' = m_asks m"
    "side = MARKET_ORDER_SIDE_ASK \<Longrightarrow> m_bids m' = m_bids m"
    "set (m_asks m') \<subseteq> set (m_asks m)" "set (m_bids m') \<subseteq> set (m_bids m)"
    by blast+
qed

section \<open>The loops are runs\<close>

definition price_of :: "('d \<Rightarrow> rat option) \<Rightarrow> 'd order \<Rightarrow> rat" where
  "price_of val a = amount_val val (o_price a)"


lemma left_zero:
  assumes "mpd_laws D val" "nonneg val d"
  shows "mpd_cmp D d (mpd_zero D) = 0 \<longleftrightarrow> val d = Some 0"
proof -
  obtain x where x: "val d = Some x" "0 \<le> x"
    using assms(2) by (rule nonnegE)
  then show ?thesis
    by (simp add: mpd_cmp_val [OF assms(1) x(1) mpd_zero_val [OF assms(1)]])
qed

text \<open>
  What a loop over the rest \<open>nodes\<close> of a book gives: a run over a prefix of it, after which the
  taker is exhausted or \<open>stop\<close> holds of the rest.
\<close>

definition loop_run :: "'d mpd_lib \<Rightarrow> ('d \<Rightarrow> rat option) \<Rightarrow> bool \<Rightarrow> ('d order \<Rightarrow> bool)
    \<Rightarrow> ('d market \<Rightarrow> 'd order \<Rightarrow> u64 list \<Rightarrow> bool) \<Rightarrow> 'd market \<Rightarrow> ('d, 'z) market_state_scheme \<Rightarrow> 'd order \<Rightarrow> u64 list
    \<Rightarrow> 'd market \<Rightarrow> ('d, 'z) market_state_scheme \<Rightarrow> 'd order \<Rightarrow> bool" where
  "loop_run D val by_money acc stop m s t nodes m' s' t' \<longleftrightarrow>
     (\<exists>trades rest. matched D val by_money acc m s t trades m' s' t' \<and> nodes = map fst trades @ rest
        \<and> (val (o_left t') = Some 0 \<or> stop m' t' rest))"

lemma loop_run_stop:
  "val (o_left t) = Some 0 \<or> stop m t nodes \<Longrightarrow> loop_run D val by_money acc stop m s t nodes m s t"
  unfolding loop_run_def by (intro exI [of _ "[]"] exI [of _ nodes]) (simp add: matched_Nil)

lemma loop_run_step:
  assumes "m_orders m i = Some maker" "acc maker" "nonneg val amount"
    "amount_val val amount \<le> amount_val val (o_left maker)" "amount_val val used \<le> amount_val val (o_left t)"
    "used = (if by_money then mpd_mul D (o_price maker) amount else amount)"
    "filled D val m s i t maker used amount m1 s1 t1"
    and run: "loop_run D val by_money acc stop m1 s1 t1 nodes m' s' t'"
  shows "loop_run D val by_money acc stop m s t (i # nodes) m' s' t'"
proof -
  from run obtain trades rest where r: "matched D val by_money acc m1 s1 t1 trades m' s' t'"
      "nodes = map fst trades @ rest" "val (o_left t') = Some 0 \<or> stop m' t' rest"
    unfolding loop_run_def by blast
  from matched_Cons [OF assms(1-7) r(1)] r(2,3) show ?thesis
    unfolding loop_run_def by (intro exI [of _ "(i, amount) # trades"] exI [of _ rest]) simp
qed

definition book_of :: "u32 \<Rightarrow> 'd market \<Rightarrow> u64 list" where
  "book_of side m = (if side = MARKET_ORDER_SIDE_ASK then m_asks m else m_bids m)"

text \<open>What the loops need before each node: \<open>nodes\<close> are orders of the makers' side.\<close>

definition loop_pre :: "'d mpd_lib \<Rightarrow> ('d \<Rightarrow> rat option) \<Rightarrow> u32 \<Rightarrow> 'd market \<Rightarrow> ('d, 'z) market_state_scheme
    \<Rightarrow> 'd order \<Rightarrow> u64 list \<Rightarrow> bool" where
  "loop_pre D val side m s t nodes \<longleftrightarrow> engine_ok D val m s \<and> amounts_ok val t \<and> finite_val val (o_price t)
     \<and> distinct nodes \<and> side_ok side \<and> (\<forall>i \<in> set nodes. \<exists>a. m_orders m i = Some a \<and> o_side a = side)"

lemma loop_preD:
  assumes "loop_pre D val side m s t nodes"
  shows "engine_ok D val m s" "amounts_ok val t" "mpd_laws D val"
    "mpd_cmp D (o_left t) (mpd_zero D) = 0 \<longleftrightarrow> val (o_left t) = Some 0"
proof -
  show ok: "engine_ok D val m s" "amounts_ok val t"
    using assms by (simp_all add: loop_pre_def)
  show L: "mpd_laws D val"
    by (rule engine_okD(1) [OF ok(1)])
  show "mpd_cmp D (o_left t) (mpd_zero D) = 0 \<longleftrightarrow> val (o_left t) = Some 0"
    by (rule left_zero [OF L amounts_okD(1) [OF ok(2)]])
qed

lemma loop_pre_maker:
  assumes "loop_pre D val side m s t (i # nodes)"
  obtains maker where "m_orders m i = Some maker" "o_side maker = side" "order_ok val maker"
    "mpd_cmp D (o_price t) (o_price maker) =
       (if price_of val t < price_of val maker then - 1 else if price_of val t = price_of val maker then 0 else 1)"
proof -
  from assms obtain maker where m: "m_orders m i = Some maker" "o_side maker = side"
    by (auto simp: loop_pre_def)
  have ok: "order_ok val maker"
    using loop_preD(1) [OF assms] m(1) by (rule engine_ok_maker(2))
  obtain p q where "val (o_price t) = Some p" "val (o_price maker) = Some q"
    using assms order_okD(1) [OF ok] by (auto simp: loop_pre_def finite_val_def elim: nonnegE)
  with mpd_cmp_val [OF loop_preD(3) [OF assms] this] m ok that show ?thesis
    by (simp add: price_of_def amount_val_def)
qed

lemma loop_pre_step:
  assumes pre: "loop_pre D val side m s t (i # nodes)" and maker: "m_orders m i = Some maker"
    and am: "nonneg val amount" and us: "amount_val val used \<le> amount_val val (o_left t)"
    and used: "used = (if by_money then mpd_mul D (o_price maker) amount else amount)"
    and fl: "filled D val m s i t maker used amount m1 s1 t1"
  shows "loop_pre D val side m1 s1 t1 nodes" "price_of val t1 = price_of val t"
    "val (mpd_sub D (o_left maker) amount) = Some 0 \<Longrightarrow> book_of side m = i # nodes \<Longrightarrow> book_of side m1 = nodes"
proof -
  note P = loop_preD [OF pre]
  have side: "o_side maker = side" "side_ok side"
    using pre maker by (auto simp: loop_pre_def)
  have "amounts_ok val t1"
    by (rule filled_taker_ok [OF fl P(3,2) engine_ok_maker(2) [OF P(1) maker] am us used])
  moreover have "m_orders m1 j = m_orders m j" if "j \<in> set nodes" for j
    using pre that by (intro filledD(6) [OF fl]) (auto simp: loop_pre_def)
  ultimately show "loop_pre D val side m1 s1 t1 nodes"
    using pre filledD(1) [OF fl] filled_taker_simps(4) [OF fl] by (auto simp: loop_pre_def)
  show "price_of val t1 = price_of val t"
    by (simp add: price_of_def filled_taker_simps(4) [OF fl])
  show "book_of side m1 = nodes"
    if "val (mpd_sub D (o_left maker) amount) = Some 0" "book_of side m = i # nodes"
    using that side by (auto simp: book_of_def side_ok_def filledD(7,8) [OF fl] split: if_splits)
qed

text \<open>
  What stops a loop besides an exhausted taker: the book is the rest of the nodes, and its first
  order, when there is one, is not accepted. A limit order accepts the makers within its price,
  a market order accepts all.
\<close>

definition stops :: "u32 \<Rightarrow> ('d order \<Rightarrow> bool) \<Rightarrow> 'd market \<Rightarrow> 'd order \<Rightarrow> u64 list \<Rightarrow> bool" where
  "stops side acc m t rest \<longleftrightarrow> book_of side m = rest \<and>
     (case rest of [] \<Rightarrow> True | i # _ \<Rightarrow> \<exists>a. m_orders m i = Some a \<and> \<not> acc a)"

definition takes :: "('d \<Rightarrow> rat option) \<Rightarrow> u32 \<Rightarrow> rat \<Rightarrow> 'd order \<Rightarrow> bool" where
  "takes val side p a \<longleftrightarrow> o_side a = side \<and>
     (if side = MARKET_ORDER_SIDE_ASK then price_of val a \<le> p else p \<le> price_of val a)"

definition exhausts :: "('d \<Rightarrow> rat option) \<Rightarrow> u32 \<Rightarrow> 'd market \<Rightarrow> 'd order \<Rightarrow> u64 list \<Rightarrow> bool" where
  "exhausts val side m t nodes \<longleftrightarrow> val (o_left t) = Some 0 \<or> book_of side m = nodes"

lemma exhausts_step:
  assumes pre: "loop_pre D val side m s t (i # nodes)" and maker: "m_orders m i = Some maker"
    and fl: "filled D val m s i t maker (min_left D t maker) (min_left D t maker) m1 s1 t1"
    and ex: "book_of side m = i # nodes"
  shows "loop_pre D val side m1 s1 t1 nodes" "price_of val t1 = price_of val t" "exhausts val side m1 t1 nodes"
proof -
  note P = loop_preD [OF pre]
  note a = min_left_ok [OF P(3) amounts_okD(1) [OF P(2)] order_okD(2) [OF engine_ok_maker(2) [OF P(1) maker]]]
  note st = loop_pre_step [OF pre maker a(1,3) _ fl, of False, simplified]
  show "loop_pre D val side m1 s1 t1 nodes" "price_of val t1 = price_of val t"
    using st by simp_all
  show "exhausts val side m1 t1 nodes"
    using a(4) st(3) [OF _ ex] by (auto simp: exhausts_def filled_taker_simps(7) [OF fl])
qed

lemma run_empty: "exhausts val side m t [] \<Longrightarrow> loop_run D val False acc (stops side acc) m s t [] m s t"
  by (rule loop_run_stop) (auto simp: stops_def exhausts_def)

lemma run_exhausted: "val (o_left t) = Some 0 \<Longrightarrow> loop_run D val False acc (stops side acc) m s t nodes m s t"
  by (rule loop_run_stop) simp

lemma run_rejected:
  "exhausts val side m t (i # nodes) \<Longrightarrow> m_orders m i = Some maker \<Longrightarrow> \<not> acc maker \<Longrightarrow>
     loop_run D val False acc (stops side acc) m s t (i # nodes) m s t"
  by (rule loop_run_stop) (auto simp: stops_def exhausts_def)

lemma run_step:
  assumes pre: "loop_pre D val side m s t (i # nodes)" and ex: "exhausts val side m t (i # nodes)"
    and maker: "m_orders m i = Some maker" "acc maker" and nz: "val (o_left t) \<noteq> Some 0"
    and fl: "filled D val m s i t maker (min_left D t maker) (min_left D t maker) m1 s1 t1"
    and run: "loop_pre D val side m1 s1 t1 nodes \<Longrightarrow> exhausts val side m1 t1 nodes \<Longrightarrow>
      price_of val t1 = price_of val t \<Longrightarrow> loop_run D val False acc (stops side acc) m1 s1 t1 nodes m' s' t'"
  shows "loop_run D val False acc (stops side acc) m s t (i # nodes) m' s' t'"
proof -
  note P = loop_preD [OF pre]
  note a = min_left_ok [OF P(3) amounts_okD(1) [OF P(2)] order_okD(2) [OF engine_ok_maker(2) [OF P(1) maker(1)]]]
  have "book_of side m = i # nodes"
    using ex nz by (simp add: exhausts_def)
  note st = exhausts_step [OF pre maker(1) fl this]
  show ?thesis
    by (rule loop_run_step [where acc = acc and val = val, OF maker a(1-3) _ fl]) (simp_all add: run [OF st(1,3,2)])
qed

lemma execute_limit_ask_order_run:
  assumes "loop_pre D val MARKET_ORDER_SIDE_BID m s t nodes" "exhausts val MARKET_ORDER_SIDE_BID m t nodes"
    and "execute_limit_ask_order D is_real m s t nodes = (m', s', t')" "price_of val t = p"
  defines "acc \<equiv> takes val MARKET_ORDER_SIDE_BID p"
  shows "loop_run D val False acc (stops MARKET_ORDER_SIDE_BID acc) m s t nodes m' s' t'"
  using assms(1-4)
proof (induction D is_real m s t nodes rule: execute_limit_ask_order.induct)
  case (1 D is_real m s t)
  then show ?case by (auto intro: run_empty)
next
  case (2 D is_real m s t i nodes)
  note P = loop_preD [OF "2.prems"(1)]
  obtain maker where maker: "m_orders m i = Some maker" "o_side maker = MARKET_ORDER_SIDE_BID"
    and cmp: "mpd_cmp D (o_price t) (o_price maker) =
       (if price_of val t < price_of val maker then - 1 else if price_of val t = price_of val maker then 0 else 1)"
    using "2.prems"(1) by (rule loop_pre_maker)
  obtain m1 s1 t1 where fill: "limit_ask_fill D is_real m s t maker = (m1, s1, t1)"
    by (cases "limit_ask_fill D is_real m s t maker") auto
  note fl = limit_ask_filled [OF P(1) maker(1) P(2) fill]
  have acc: "acc maker \<longleftrightarrow> p \<le> price_of val maker"
    by (simp add: acc_def takes_def maker(2))
  consider "val (o_left t) = Some 0" | "val (o_left t) \<noteq> Some 0" "\<not> acc maker" | "val (o_left t) \<noteq> Some 0" "acc maker"
    by blast
  then show ?case
  proof cases
    case 1
    with "2.prems"(3) P(4) show ?thesis by (auto intro: run_exhausted)
  next
    case 2
    with "2.prems"(3,4) P(4) maker(1) cmp acc run_rejected [OF "2.prems"(2) maker(1)] show ?thesis
      by auto
  next
    case 3
    then have exec: "execute_limit_ask_order D is_real m1 s1 t1 nodes = (m', s', t')"
      using "2.prems"(3,4) P(4) maker(1) cmp fill acc by (auto split: if_splits)
    show ?thesis
      by (rule run_step [where acc = acc and val = val, OF "2.prems"(1,2) maker(1) 3(2,1) fl], rule "2.IH" [OF _ maker(1) _ fill [symmetric] refl])
        (use 3 P(4) cmp acc "2.prems"(4) exec in auto)
  qed
qed

lemma execute_limit_bid_order_run:
  assumes "loop_pre D val MARKET_ORDER_SIDE_ASK m s t nodes" "exhausts val MARKET_ORDER_SIDE_ASK m t nodes"
    and "execute_limit_bid_order D is_real m s t nodes = (m', s', t')" "price_of val t = p"
  defines "acc \<equiv> takes val MARKET_ORDER_SIDE_ASK p"
  shows "loop_run D val False acc (stops MARKET_ORDER_SIDE_ASK acc) m s t nodes m' s' t'"
  using assms(1-4)
proof (induction D is_real m s t nodes rule: execute_limit_bid_order.induct)
  case (1 D is_real m s t)
  then show ?case by (auto intro: run_empty)
next
  case (2 D is_real m s t i nodes)
  note P = loop_preD [OF "2.prems"(1)]
  obtain maker where maker: "m_orders m i = Some maker" "o_side maker = MARKET_ORDER_SIDE_ASK"
    and cmp: "mpd_cmp D (o_price t) (o_price maker) =
       (if price_of val t < price_of val maker then - 1 else if price_of val t = price_of val maker then 0 else 1)"
    using "2.prems"(1) by (rule loop_pre_maker)
  obtain m1 s1 t1 where fill: "limit_bid_fill D is_real m s t maker = (m1, s1, t1)"
    by (cases "limit_bid_fill D is_real m s t maker") auto
  note fl = limit_bid_filled [OF P(1) maker(1) P(2) fill]
  have acc: "acc maker \<longleftrightarrow> price_of val maker \<le> p"
    by (simp add: acc_def takes_def maker(2))
  consider "val (o_left t) = Some 0" | "val (o_left t) \<noteq> Some 0" "\<not> acc maker" | "val (o_left t) \<noteq> Some 0" "acc maker"
    by blast
  then show ?case
  proof cases
    case 1
    with "2.prems"(3) P(4) show ?thesis by (auto intro: run_exhausted)
  next
    case 2
    with "2.prems"(3,4) P(4) maker(1) cmp acc run_rejected [OF "2.prems"(2) maker(1)] show ?thesis
      by auto
  next
    case 3
    then have exec: "execute_limit_bid_order D is_real m1 s1 t1 nodes = (m', s', t')"
      using "2.prems"(3,4) P(4) maker(1) cmp fill acc by (auto split: if_splits)
    show ?thesis
      by (rule run_step [where acc = acc and val = val, OF "2.prems"(1,2) maker(1) 3(2,1) fl], rule "2.IH" [OF _ maker(1) _ fill [symmetric] refl])
        (use 3 P(4) cmp acc "2.prems"(4) exec in auto)
  qed
qed

lemma execute_market_ask_order_run:
  assumes "loop_pre D val MARKET_ORDER_SIDE_BID m s t nodes" "exhausts val MARKET_ORDER_SIDE_BID m t nodes"
    and "execute_market_ask_order D is_real m s t nodes = (m', s', t')"
  defines "acc \<equiv> \<lambda>a. o_side a = MARKET_ORDER_SIDE_BID"
  shows "loop_run D val False acc (stops MARKET_ORDER_SIDE_BID acc) m s t nodes m' s' t'"
  using assms(1-3)
proof (induction D is_real m s t nodes rule: execute_market_ask_order.induct)
  case (1 D is_real m s t)
  then show ?case by (auto intro: run_empty)
next
  case (2 D is_real m s t i nodes)
  note P = loop_preD [OF "2.prems"(1)]
  obtain maker where maker: "m_orders m i = Some maker" "o_side maker = MARKET_ORDER_SIDE_BID"
    using "2.prems"(1) by (rule loop_pre_maker)
  obtain m1 s1 t1 where fill: "market_ask_fill D is_real m s t maker = (m1, s1, t1)"
    by (cases "market_ask_fill D is_real m s t maker") auto
  note fl = market_ask_filled [OF P(1) maker(1) P(2) fill]
  have acc: "acc maker"
    by (simp add: acc_def maker(2))
  show ?case
  proof (cases "val (o_left t) = Some 0")
    case True
    with "2.prems"(3) P(4) show ?thesis by (auto intro: run_exhausted)
  next
    case False
    then have exec: "execute_market_ask_order D is_real m1 s1 t1 nodes = (m', s', t')"
      using "2.prems"(3) P(4) maker(1) fill by simp
    show ?thesis
      by (rule run_step [where acc = acc and val = val, OF "2.prems"(1,2) maker(1) acc False fl],
          rule "2.IH" [OF _ maker(1) fill [symmetric] refl])
        (use False P(4) exec in auto)
  qed
qed

text \<open>
  A market bid stops when the money left does not buy one unit of the last place at the next
  price. It always comes to an end: the correction loop is never entered.
\<close>

definition cannot_buy :: "'d mpd_lib \<Rightarrow> ('d \<Rightarrow> rat option) \<Rightarrow> 'd market \<Rightarrow> 'd order \<Rightarrow> u64 list \<Rightarrow> bool" where
  "cannot_buy D val m t rest \<longleftrightarrow> (case rest of [] \<Rightarrow> True
     | i # _ \<Rightarrow> \<exists>a z. m_orders m i = Some a \<and> market_bid_amount D m t a = Some z \<and> val z = Some 0)"

lemma execute_market_bid_order_run:
  assumes "loop_pre D val MARKET_ORDER_SIDE_ASK m s t nodes" "0 \<le> m_stock_prec m" "m_stock_prec m \<le> max_prec"
  shows "\<exists>m' s' t'. execute_market_bid_order D is_real m s t nodes = Some (m', s', t') \<and>
    loop_run D val True (\<lambda>a. o_side a = MARKET_ORDER_SIDE_ASK) (cannot_buy D val) m s t nodes m' s' t'"
  using assms
proof (induction D is_real m s t nodes rule: execute_market_bid_order.induct)
  case (1 D is_real m s t)
  have "loop_run D val True (\<lambda>a. o_side a = MARKET_ORDER_SIDE_ASK) (cannot_buy D val) m s t [] m s t"
    by (rule loop_run_stop) (simp add: cannot_buy_def)
  then show ?case by simp
next
  case (2 D is_real m s t i nodes)
  note pre = "2.prems"(1) and P = loop_preD [OF "2.prems"(1)]
  obtain maker where maker: "m_orders m i = Some maker" "o_side maker = MARKET_ORDER_SIDE_ASK" "order_ok val maker"
    using "2.prems"(1) by (rule loop_pre_maker)
  obtain am where am: "market_bid_amount D m t maker = Some am" and a: "nonneg val am"
      "amount_val val am \<le> amount_val val (o_left maker)"
      "amount_val val (mpd_mul D (o_price maker) am) \<le> amount_val val (o_left t)"
    using market_bid_amount_ok [OF P(3) "2.prems"(2,3) amounts_okD(1) [OF P(2)] maker(3)] by blast
  note zero = left_zero [OF P(3) a(1)]
  obtain m1 s1 t1 where fill: "market_bid_fill D is_real m s t maker am = (m1, s1, t1)"
    by (cases "market_bid_fill D is_real m s t maker am") auto
  note fl = market_bid_filled [OF P(1) maker(1) P(2) a(1,2) fill]
  let ?acc = "\<lambda>a. o_side a = MARKET_ORDER_SIDE_ASK"
  consider "val (o_left t) = Some 0" | "val (o_left t) \<noteq> Some 0" "val am = Some 0"
    | "val (o_left t) \<noteq> Some 0" "val am \<noteq> Some 0" by blast
  then show ?case
  proof cases
    case 1
    then have "loop_run D val True ?acc (cannot_buy D val) m s t (i # nodes) m s t"
      by (intro loop_run_stop) simp
    with 1 P(4) show ?thesis by simp
  next
    case 2
    with am maker(1) have "loop_run D val True ?acc (cannot_buy D val) m s t (i # nodes) m s t"
      by (intro loop_run_stop) (auto simp: cannot_buy_def)
    with 2 P(4) zero am maker(1) show ?thesis by simp
  next
    case 3
    note st = loop_pre_step [OF pre maker(1) a(1,3) _ fl, of True, simplified]
    have prec: "m_stock_prec m1 = m_stock_prec m"
      using filledD(2) [OF fl] by (simp add: same_market_def)
    have "\<exists>m' s' t'. execute_market_bid_order D is_real m1 s1 t1 nodes = Some (m', s', t') \<and>
        loop_run D val True ?acc (cannot_buy D val) m1 s1 t1 nodes m' s' t'"
      by (rule "2.IH" [OF _ maker(1) am _ fill [symmetric] refl])
        (use 3 P(4) zero st(1) prec "2.prems"(2,3) in auto)
    then obtain m' s' t' where exec: "execute_market_bid_order D is_real m1 s1 t1 nodes = Some (m', s', t')"
        and run: "loop_run D val True ?acc (cannot_buy D val) m1 s1 t1 nodes m' s' t'"
      by blast
    have "loop_run D val True ?acc (cannot_buy D val) m s t (i # nodes) m' s' t'"
      by (rule loop_run_step [where acc = ?acc and val = val, OF maker(1,2) a _ fl run]) simp
    with exec 3 P(4) zero am maker(1) fill show ?thesis by simp
  qed
qed

end
