(* ===== verification/Market_Facts.thy ===== *)
theory Market_Facts
  imports Runs
begin

text \<open>
  The interface of a market: what \<open>market_put_limit_order\<close>, \<open>market_put_market_order\<close> and
  \<open>market_cancel_order\<close> keep of the engine, in which order they match, and what they answer.
\<close>

section \<open>The invariant of a market and its engine\<close>

definition ids_ok :: "'d market \<Rightarrow> ('d, 'z) market_state_scheme \<Rightarrow> bool" where
  "ids_ok m s \<longleftrightarrow> (\<forall>i a. m_orders m i = Some a \<longrightarrow> i \<le> order_id_start s)"

text \<open>No bid reaches an ask: nothing in the books can be matched.\<close>

definition uncrossed :: "('d \<Rightarrow> rat option) \<Rightarrow> 'd market \<Rightarrow> bool" where
  "uncrossed val m \<longleftrightarrow> (\<forall>i \<in> set (m_bids m). \<forall>j \<in> set (m_asks m). \<forall>a b.
     m_orders m i = Some a \<longrightarrow> m_orders m j = Some b \<longrightarrow> price_of val a < price_of val b)"

definition market_inv :: "'d mpd_lib \<Rightarrow> ('d \<Rightarrow> rat option) \<Rightarrow> 'd market \<Rightarrow> ('d, 'z) market_state_scheme \<Rightarrow> bool" where
  "market_inv D val m s \<longleftrightarrow> engine_ok D val m s \<and> ids_ok m s \<and> uncrossed val m"

text \<open>What the server checks of the arguments of a limit order before it calls the market.\<close>

definition limit_args_ok :: "('d \<Rightarrow> rat option) \<Rightarrow> u32 \<Rightarrow> 'd \<Rightarrow> 'd \<Rightarrow> 'd \<Rightarrow> 'd \<Rightarrow> bool" where
  "limit_args_ok val side amount price taker_fee maker_fee \<longleftrightarrow> side_ok side \<and> nonneg val amount
     \<and> (\<exists>p. val price = Some p \<and> 0 < p) \<and> nonneg val taker_fee \<and> nonneg val maker_fee"

lemma uncrossed_mono:
  assumes "uncrossed val m" and sub: "set (m_asks m') \<subseteq> set (m_asks m)" "set (m_bids m') \<subseteq> set (m_bids m)"
    and ord: "\<And>j b. m_orders m' j = Some b \<Longrightarrow> \<exists>a. m_orders m j = Some a \<and> price_of val b = price_of val a"
  shows "uncrossed val m'"
  unfolding uncrossed_def
proof (intro ballI allI impI)
  fix i j a b
  assume i: "i \<in> set (m_bids m')" "m_orders m' i = Some a" and j: "j \<in> set (m_asks m')" "m_orders m' j = Some b"
  from ord [OF i(2)] obtain a' where a': "m_orders m i = Some a'" "price_of val a = price_of val a'"
    by blast
  from ord [OF j(2)] obtain b' where b': "m_orders m j = Some b'" "price_of val b = price_of val b'"
    by blast
  have "i \<in> set (m_bids m)" "j \<in> set (m_asks m)"
    using sub i(1) j(1) by blast+
  with assms(1) a'(1) b'(1) have "price_of val a' < price_of val b'"
    unfolding uncrossed_def by blast
  with a'(2) b'(2) show "price_of val a < price_of val b"
    by simp
qed

lemma new_order_simps [simp]:
  "o_id (new_order D m i ty sd now u so p a tf mf) = i" "o_type (new_order D m i ty sd now u so p a tf mf) = ty"
  "o_side (new_order D m i ty sd now u so p a tf mf) = sd" "o_user_id (new_order D m i ty sd now u so p a tf mf) = u"
  "o_price (new_order D m i ty sd now u so p a tf mf) = p" "o_left (new_order D m i ty sd now u so p a tf mf) = a"
  "o_amount (new_order D m i ty sd now u so p a tf mf) = a" "o_freeze (new_order D m i ty sd now u so p a tf mf) = mpd_zero D"
  "o_deal_stock (new_order D m i ty sd now u so p a tf mf) = mpd_zero D"
  "o_deal_money (new_order D m i ty sd now u so p a tf mf) = mpd_zero D"
  "o_deal_fee (new_order D m i ty sd now u so p a tf mf) = mpd_zero D"
  "o_taker_fee (new_order D m i ty sd now u so p a tf mf) = tf" "o_maker_fee (new_order D m i ty sd now u so p a tf mf) = mf"
  by (simp_all add: new_order_def)

lemma new_order_amounts:
  "mpd_laws D val \<Longrightarrow> nonneg val a \<Longrightarrow> nonneg val tf \<Longrightarrow> nonneg val mf \<Longrightarrow>
     amounts_ok val (new_order D m i ty sd now u so p a tf mf)"
  by (simp add: amounts_ok_def)

lemma book_of_ok:
  assumes "market_ok val m" "side_ok side"
  shows "book_ok val (m_orders m) side (book_of side m)"
  using assms by (auto simp: market_ok_def book_of_def side_ok_def)

lemma book_head:
  assumes "book_ok val h side (i # xs)" "j \<in> set xs" "h i = Some a" "h j = Some b"
  shows "match_price val side a \<le> match_price val side b"
  using assms by (auto simp: book_ok_def ahead_def Let_def)

lemma match_price_of:
  assumes "order_ok val a"
  shows "match_price val side a = (if side = MARKET_ORDER_SIDE_ASK then price_of val a else - price_of val a)"
  using assms by (auto simp: order_ok_def match_price_def price_of_def amount_val_def)

lemma loop_pre_start:
  assumes "engine_ok D val m s" "amounts_ok val t" "finite_val val (o_price t)" "side_ok side"
  shows "loop_pre D val side m s t (book_of side m)" "exhausts val side m t (book_of side m)"
proof -
  have ok: "market_ok val m" and L: "mpd_laws D val"
    using engine_okD [OF assms(1)] by simp_all
  have heap: "heap_ok val (m_orders m)"
    using ok by (simp add: market_ok_def)
  have b: "book_ok val (m_orders m) side (book_of side m)"
    using ok assms(4) by (rule book_of_ok)
  then have "distinct (book_of side m)"
    by (rule book_sorted(2) [OF L heap])
  with assms b show "loop_pre D val side m s t (book_of side m)"
    by (simp add: loop_pre_def book_ok_def)
  show "exhausts val side m t (book_of side m)"
    by (simp add: exhausts_def)
qed

section \<open>Matching a limit order\<close>

definition opposite :: "u32 \<Rightarrow> u32" where
  "opposite side = (if side = MARKET_ORDER_SIDE_ASK then MARKET_ORDER_SIDE_BID else MARKET_ORDER_SIDE_ASK)"

lemma side_ok_opposite [simp]: "side_ok (opposite side)"
  by (simp add: opposite_def side_ok_def)

definition match_limit :: "'d mpd_lib \<Rightarrow> bool \<Rightarrow> 'd market \<Rightarrow> ('d, 'z) market_state_scheme \<Rightarrow> 'd order
    \<Rightarrow> 'd market \<times> ('d, 'z) market_state_scheme \<times> 'd order" where
  "match_limit D is_real m s t =
     (if o_side t = MARKET_ORDER_SIDE_ASK then execute_limit_ask_order D is_real m s t (m_bids m)
      else execute_limit_bid_order D is_real m s t (m_asks m))"

lemma match_limit_run:
  assumes "engine_ok D val m s" "amounts_ok val t" "finite_val val (o_price t)"
    and "match_limit D is_real m s t = (m', s', t')"
  defines "side \<equiv> opposite (o_side t)"
  defines "acc \<equiv> takes val side (price_of val t)"
  shows "loop_run D val False acc (stops side acc) m s t (book_of side m) m' s' t'"
proof -
  note pre = loop_pre_start [OF assms(1-3) side_ok_opposite, of "o_side t"]
  show ?thesis
  proof (cases "o_side t = MARKET_ORDER_SIDE_ASK")
    case True
    with pre execute_limit_ask_order_run [of D val m s t "m_bids m" is_real m' s' t' "price_of val t"] assms(4)
    show ?thesis
      by (simp add: match_limit_def side_def acc_def opposite_def book_of_def)
  next
    case False
    with pre execute_limit_bid_order_run [of D val m s t "m_asks m" is_real m' s' t' "price_of val t"] assms(4)
    show ?thesis
      by (simp add: match_limit_def side_def acc_def opposite_def book_of_def)
  qed
qed

text \<open>After the matching the rest of the order does not reach the other side's book.\<close>

lemma match_limit_facts:
  assumes ok: "engine_ok D val m s" and t: "amounts_ok val t" "finite_val val (o_price t)"
    and mt: "match_limit D is_real m s t = (m', s', t')"
  defines "side \<equiv> opposite (o_side t)"
  shows "engine_ok D val m' s'" "amounts_ok val t'" "same_market m m'" "order_id_start s' = order_id_start s"
    "o_id t' = o_id t" "o_side t' = o_side t" "o_type t' = o_type t" "o_price t' = o_price t" "o_user_id t' = o_user_id t"
    "set (m_asks m') \<subseteq> set (m_asks m)" "set (m_bids m') \<subseteq> set (m_bids m)"
    "m_orders m' j = Some b \<Longrightarrow> \<exists>a. m_orders m j = Some a \<and> price_of val b = price_of val a"
    "val (o_left t') \<noteq> Some 0 \<Longrightarrow> i \<in> set (book_of side m') \<Longrightarrow> m_orders m' i = Some b \<Longrightarrow>
       \<not> takes val side (price_of val t) b"
proof -
  let ?acc = "takes val side (price_of val t)"
  have "loop_run D val False ?acc (stops side ?acc) m s t (book_of side m) m' s' t'"
    using match_limit_run [OF ok t mt] by (simp add: side_def)
  then obtain trades rest where run: "matched D val False ?acc m s t trades m' s' t'"
    and stop: "val (o_left t') = Some 0 \<or> stops side ?acc m' t' rest"
    unfolding loop_run_def by blast
  have side: "side_ok side" and acc: "?acc a \<Longrightarrow> o_side a = side" for a
    by (simp_all add: side_def takes_def)
  note e = matched_engine [OF run ok t(1)] and bk = matched_books [OF run acc]
  show "engine_ok D val m' s'" "amounts_ok val t'" "same_market m m'" "order_id_start s' = order_id_start s"
    "o_id t' = o_id t" "o_side t' = o_side t" "o_type t' = o_type t" "o_price t' = o_price t" "o_user_id t' = o_user_id t"
    by (fact e)+
  show "set (m_asks m') \<subseteq> set (m_asks m)" "set (m_bids m') \<subseteq> set (m_bids m)"
    using bk(3,4) by blast+
  show "\<exists>a. m_orders m j = Some a \<and> price_of val b = price_of val a" if "m_orders m' j = Some b"
    using matched_orders [OF run that] by (auto simp: price_of_def)
  show "\<not> ?acc b" if nz: "val (o_left t') \<noteq> Some 0" and i: "i \<in> set (book_of side m')" "m_orders m' i = Some b"
  proof -
    have ok': "market_ok val m'" and heap: "heap_ok val (m_orders m')"
      using engine_okD(5) [OF e(1)] by (simp_all add: market_ok_def)
    from stop nz i(1) obtain k ks a where k: "book_of side m' = k # ks" "m_orders m' k = Some a" "\<not> ?acc a"
      by (auto simp: stops_def split: list.splits)
    have b: "book_ok val (m_orders m') side (k # ks)"
      using book_of_ok [OF ok' side] k(1) by simp
    have as: "o_side a = side" "o_side b = side"
      using b k(1,2) i by (auto simp: book_ok_def)
    have "match_price val side a \<le> match_price val side b"
    proof (cases "i = k")
      case True
      with k(2) i(2) show ?thesis by simp
    next
      case False
      with i k(1) have "i \<in> set ks" by simp
      from book_head [OF b this k(2) i(2)] show ?thesis .
    qed
    moreover have "order_ok val a" "order_ok val b"
      using heap k(2) i(2) by (auto dest: heap_okD)
    ultimately show ?thesis
      using k(3) as by (auto simp: match_price_of takes_def split: if_splits)
  qed
qed

section \<open>Putting the rest into the book\<close>

lemma order_put_steady:
  assumes ok: "engine_ok D val m s" and a: "order_ok val a" and put: "order_put D m s a = (ret, m', s')"
  shows "steady D val s s'"
proof -
  note E = engine_okD [OF ok]
  have "nonneg val (mpd_mul D (o_price a) (o_left a))" "nonneg val (o_left a)"
    using order_okD [OF a] by (simp_all add: nonneg_mul [OF E(1)])
  then have "steady D val s (snd (balance_freeze D (o_user_id a) (m_stock m) (o_left a) s))"
    "steady D val s (snd (balance_freeze D (o_user_id a) (m_money m) (mpd_mul D (o_price a) (o_left a)) s))"
    using E by (simp_all add: freeze_shift steady_shift)
  moreover have "steady D val s s"
    using E(2) by (simp add: steady_def)
  ultimately show ?thesis
    using put by (auto simp: order_put_def Let_def split: if_splits option.splits prod.splits)
qed

lemma settle_limit_order_ok:
  assumes inv: "engine_ok D val m s" "ids_ok m s" "uncrossed val m" and new: "m_orders m (o_id t) = None" "o_id t \<le> order_id_start s"
    and t: "amounts_ok val t" "side_ok (o_side t)" "o_type t = MARKET_ORDER_TYPE_LIMIT" "\<exists>p. val (o_price t) = Some p \<and> 0 < p"
    and reach: "\<And>i b. val (o_left t) \<noteq> Some 0 \<Longrightarrow> i \<in> set (book_of (opposite (o_side t)) m) \<Longrightarrow> m_orders m i = Some b \<Longrightarrow>
       \<not> takes val (opposite (o_side t)) (price_of val t) b"
    and settle: "settle_limit_order D is_real m s t = (result, m', s')"
  shows "market_inv D val m' s'" "order_id_start s' = order_id_start s" "same_market m m'"
proof -
  note E = engine_okD [OF inv(1)]
  have q: "quiet (\<lambda>s. if is_real then push_order_message D e t st mo (append_order_history t s) else s)"
    "quiet (\<lambda>s. if is_real then push_order_message D e t st mo s else s)" for e st mo
    using quiet_comp [of "push_order_message D e t st mo" "append_order_history t"] by auto
  have "market_inv D val m' s' \<and> order_id_start s' = order_id_start s \<and> same_market m m'"
  proof (cases "val (o_left t) = Some 0")
    case True
    then have m': "m' = m" and s': "same_core s s'"
      using settle left_zero [OF E(1) amounts_okD(1) [OF t(1)]] quietD [OF q(1)]
      by (auto simp: settle_limit_order_def Let_def split: if_splits)
    have "history_state.more s' = history_state.more s"
      using s' by (simp add: same_core_iff)
    note fields = market_fields [OF this]
    from inv m' same_core_ledger(1,2) [OF s'] show ?thesis
      by (simp add: market_inv_def engine_ok_def ids_ok_def fields)
  next
    case False
    define s1 where "s1 = (if is_real then push_order_message D ORDER_EVENT_PUT t (m_stock m) (m_money m) s else s)"
    from False settle left_zero [OF E(1) amounts_okD(1) [OF t(1)]] obtain ret where
      put: "order_put D m s1 t = (ret, m', s')"
      by (auto simp: settle_limit_order_def Let_def s1_def split: prod.splits)
    have core: "same_core s s1"
      by (simp add: s1_def quietD)
    have ok1: "engine_ok D val m s1"
      using inv(1) same_core_ledger(1,2) [OF core] by (simp add: engine_ok_def)
    have ot: "order_ok val t"
      using t by (simp add: order_ok_def)
    note st = order_put_steady [OF ok1 ot put]
    note p = order_put_ok [OF E(1,5) new(1) ot put]
    have more: "history_state.more s' = history_state.more s"
      using steadyD(3) [OF st] core by (simp add: same_core_iff)
    note fields = market_fields [OF more]
    obtain f where orders: "m_orders m' = (m_orders m)(o_id t \<mapsto> t\<lparr>o_freeze := f\<rparr>)"
      using p(4) by blast
    have "engine_ok D val m' s'"
      using p(1,2) steadyD(1,2) [OF st] ok1 by (simp add: engine_ok_def same_market_def)
    moreover have "ids_ok m' s'"
      using inv(2) new(2) by (auto simp: ids_ok_def orders fields)
    moreover have "uncrossed val m'"
    proof -
      have "i \<noteq> o_id t" if "i \<in> set (m_bids m)" "o_side t = MARKET_ORDER_SIDE_ASK" for i
        using E(5) new(1) that by (auto simp: market_ok_def book_ok_def)
      moreover have "i \<noteq> o_id t" if "i \<in> set (m_asks m)" "o_side t \<noteq> MARKET_ORDER_SIDE_ASK" for i
        using E(5) new(1) that by (auto simp: market_ok_def book_ok_def)
      moreover have "b \<noteq> None \<Longrightarrow> o_side (the b) = MARKET_ORDER_SIDE_BID"
        if "i \<in> set (m_bids m)" "b = m_orders m i" for i b
        using E(5) that by (auto simp: market_ok_def book_ok_def)
      moreover have "b \<noteq> None \<Longrightarrow> o_side (the b) = MARKET_ORDER_SIDE_ASK"
        if "i \<in> set (m_asks m)" "b = m_orders m i" for i b
        using E(5) that by (auto simp: market_ok_def book_ok_def)
      moreover have "price_of val (t\<lparr>o_freeze := f\<rparr>) = price_of val t"
        by (simp add: price_of_def)
      ultimately show ?thesis
        using inv(3) p(5) reach [OF False] t(2)
        by (fastforce simp: uncrossed_def orders takes_def opposite_def book_of_def side_ok_def split: if_splits)
    qed
    ultimately show ?thesis
      using p(2) fields by (simp add: market_inv_def)
  qed
  then show "market_inv D val m' s'" "order_id_start s' = order_id_start s" "same_market m m'"
    by blast+
qed


section \<open>The three commands of a market\<close>

text \<open>Taking an id and a timestamp.\<close>

lemma next_id_core:
  "engine_ok D val m (s\<lparr>order_id_start := i, ticks := t\<rparr>) = engine_ok D val m s"
  by (simp add: engine_ok_def ledger_inv_def balances_ok_def asset_exist_def get_asset_type_def)

lemma ids_fresh:
  assumes "ids_ok m s" "order_id_start s < order_id_start s + 1"
  shows "m_orders m (order_id_start s + 1) = None"
proof (rule ccontr)
  assume "m_orders m (order_id_start s + 1) \<noteq> None"
  then obtain a where "m_orders m (order_id_start s + 1) = Some a" by blast
  with assms(1) have "order_id_start s + 1 \<le> order_id_start s"
    by (simp add: ids_ok_def)
  with assms(2) show False by simp
qed

lemma put_limit_order_inv:
  assumes inv: "market_inv D val m s" and args: "limit_args_ok val side amount price taker_fee maker_fee"
    and room: "order_id_start s < order_id_start s + 1"
    and put: "market_put_limit_order D is_real m s user_id side amount price taker_fee maker_fee source
      = (ret, result, m', s')"
  shows "market_inv D val m' s'" "same_market m m'"
    "ret = 0 \<Longrightarrow> order_id_start s' = order_id_start s + 1" "ret \<noteq> 0 \<Longrightarrow> m' = m \<and> s' = s \<and> ret \<in> {- 1, - 2}"
proof -
  note E = engine_okD
  have "market_inv D val m' s' \<and> same_market m m' \<and> (ret = 0 \<longrightarrow> order_id_start s' = order_id_start s + 1)
     \<and> (ret \<noteq> 0 \<longrightarrow> m' = m \<and> s' = s \<and> ret \<in> {- 1, - 2})"
  proof (cases "limit_order_funded D m s user_id side amount price \<and> \<not> mpd_cmp D amount (m_min_amount m) < 0")
    case False
    then have "m' = m \<and> s' = s \<and> ret \<in> {- 1, - 2}"
      using put by (auto simp: market_put_limit_order_def split: if_splits)
    with inv show ?thesis by auto
  next
    case True
    let ?i = "order_id_start s + 1"
    let ?s1 = "s\<lparr>order_id_start := ?i, ticks := ticks s + 1\<rparr>"
    let ?o = "new_order D m ?i MARKET_ORDER_TYPE_LIMIT side (clock s (ticks s)) user_id source price amount taker_fee maker_fee"
    have ok: "engine_ok D val m s" and ids: "ids_ok m s" and un: "uncrossed val m"
      using inv by (simp_all add: market_inv_def)
    have ok1: "engine_ok D val m ?s1"
      using ok by (simp add: next_id_core)
    have am: "amounts_ok val ?o"
      using args E(1) [OF ok] by (simp add: limit_args_ok_def new_order_amounts)
    have fin: "finite_val val (o_price ?o)"
      using args by (auto simp: limit_args_ok_def finite_val_def)
    obtain m1 s1 t1 where mt: "match_limit D is_real m ?s1 ?o = (m1, s1, t1)"
      by (cases "match_limit D is_real m ?s1 ?o") auto
    obtain r where settle: "settle_limit_order D is_real m1 s1 t1 = (r, m', s')" and ret: "ret = 0"
      using put True mt
      by (cases "settle_limit_order D is_real m1 s1 t1")
        (auto simp: market_put_limit_order_def match_limit_def current_timestamp_def Let_def split: if_splits)
    note f = match_limit_facts [OF ok1 am fin mt]
    have sd: "o_side t1 = side" "o_type t1 = MARKET_ORDER_TYPE_LIMIT" "o_price t1 = price" "o_id t1 = ?i"
      using f(5-8) by simp_all
    have ord: "m_orders m1 j \<noteq> None \<Longrightarrow> m_orders m j \<noteq> None" for j
      using f(12) by fastforce
    have le: "order_id_start s \<le> ?i"
      using room by simp
    have ids1: "ids_ok m1 s1"
      using ids ord f(4) le unfolding ids_ok_def by (simp, metis order.trans option.distinct(1) not_None_eq)
    have un1: "uncrossed val m1"
      by (rule uncrossed_mono [OF un f(10,11,12)])
    have new: "m_orders m1 (o_id t1) = None"
      using ids_fresh [OF ids room] ord [of ?i] sd(4) by (cases "m_orders m1 ?i") simp_all
    have reach: "\<not> takes val (opposite (o_side t1)) (price_of val t1) b"
      if "val (o_left t1) \<noteq> Some 0" "i \<in> set (book_of (opposite (o_side t1)) m1)" "m_orders m1 i = Some b" for i b
      using f(13) [of i b] that sd by (simp add: price_of_def)
    have st: "market_inv D val m' s'" "order_id_start s' = order_id_start s1" "same_market m1 m'"
      by (rule settle_limit_order_ok [OF f(1) ids1 un1 new _ f(2) _ sd(2) _ reach settle];
          use sd f(4) args in \<open>simp add: limit_args_ok_def\<close>)+
    have "order_id_start s1 = ?i"
      using f(4) by simp
    with st ret same_market_trans [OF f(3) st(3)] show ?thesis
      by simp
  qed
  then show "market_inv D val m' s'" "same_market m m'"
    "ret = 0 \<Longrightarrow> order_id_start s' = order_id_start s + 1" "ret \<noteq> 0 \<Longrightarrow> m' = m \<and> s' = s \<and> ret \<in> {- 1, - 2}"
    by blast+
qed

text \<open>A run of a market order leaves the books uncrossed and the ids fresh.\<close>

lemma matched_inv:
  assumes run: "matched D val by_money acc m s t trades m' s' t'" and side: "\<And>a. acc a \<Longrightarrow> o_side a = side"
    and ok: "engine_ok D val m s" "amounts_ok val t" and ids: "ids_ok m s" and un: "uncrossed val m"
  shows "market_inv D val m' s'"
proof -
  note e = matched_engine [OF run ok] and bk = matched_books [OF run side]
  have ord: "m_orders m' j = Some b \<Longrightarrow> \<exists>a. m_orders m j = Some a \<and> price_of val b = price_of val a" for j b
    using matched_orders [OF run] by (fastforce simp: price_of_def)
  then have "ids_ok m' s'"
    using ids e(5) unfolding ids_ok_def by metis
  moreover have "uncrossed val m'"
    by (rule uncrossed_mono [OF un bk(3,4) ord])
  ultimately show ?thesis
    using e(1) by (simp add: market_inv_def)
qed

lemma quiet_market_inv:
  assumes "same_core s s'" "market_inv D val m s"
  shows "market_inv D val m s'" "order_id_start s' = order_id_start s"
proof -
  have "history_state.more s' = history_state.more s"
    using assms(1) by (simp add: same_core_iff)
  note fields = market_fields [OF this]
  show "market_inv D val m s'" "order_id_start s' = order_id_start s"
    using assms(2) same_core_ledger(1,2) [OF assms(1)]
    by (simp_all add: market_inv_def engine_ok_def ids_ok_def fields)
qed

definition market_args_ok :: "('d \<Rightarrow> rat option) \<Rightarrow> 'd market \<Rightarrow> u32 \<Rightarrow> 'd \<Rightarrow> 'd \<Rightarrow> bool" where
  "market_args_ok val m side amount taker_fee \<longleftrightarrow> side_ok side \<and> nonneg val amount \<and> nonneg val taker_fee
     \<and> 0 \<le> m_stock_prec m \<and> m_stock_prec m \<le> max_prec"

lemma put_market_order_inv:
  assumes inv: "market_inv D val m s" and args: "market_args_ok val m side amount taker_fee"
    and room: "order_id_start s < order_id_start s + 1"
  shows "\<exists>ret result m' s'. market_put_market_order D is_real m s user_id side amount taker_fee source
      = Some (ret, result, m', s') \<and> market_inv D val m' s' \<and> same_market m m'
    \<and> (ret = 0 \<longrightarrow> order_id_start s' = order_id_start s + 1)
    \<and> (ret \<noteq> 0 \<longrightarrow> m' = m \<and> s' = s \<and> ret \<in> {- 1, - 2, - 3})"
proof (cases "market_order_check D m s user_id side amount = 0")
  case False
  moreover have "market_order_check D m s user_id side amount \<in> {- 1, - 2, - 3, 0}"
    by (auto simp: market_order_check_def split: option.splits list.splits)
  ultimately show ?thesis
    using inv by (auto simp: market_put_market_order_def)
next
  case True
  let ?i = "order_id_start s + 1"
  let ?s1 = "s\<lparr>order_id_start := ?i, ticks := ticks s + 1\<rparr>"
  let ?o = "new_order D m ?i MARKET_ORDER_TYPE_MARKET side (clock s (ticks s)) user_id source (mpd_zero D) amount
      taker_fee (mpd_zero D)"
  have ok: "engine_ok D val m s" and ids: "ids_ok m s" and un: "uncrossed val m"
    using inv by (simp_all add: market_inv_def)
  note L = engine_okD(1) [OF ok]
  have ok1: "engine_ok D val m ?s1"
    using ok by (simp add: next_id_core)
  have ids1: "ids_ok m ?s1"
    using ids room unfolding ids_ok_def by (simp, metis order.trans less_imp_le)
  have am: "amounts_ok val ?o" and fin: "finite_val val (o_price ?o)"
    using args L by (simp_all add: market_args_ok_def new_order_amounts)
  note pre = loop_pre_start [OF ok1 am fin side_ok_opposite, of side]
  have "\<exists>m' s' t' by_money acc trades.
      (if side = MARKET_ORDER_SIDE_ASK then Some (execute_market_ask_order D is_real m ?s1 ?o (m_bids m))
       else execute_market_bid_order D is_real m ?s1 ?o (m_asks m)) = Some (m', s', t')
      \<and> matched D val by_money acc m ?s1 ?o trades m' s' t' \<and> (\<forall>a. acc a \<longrightarrow> o_side a = opposite side)"
  proof (cases "side = MARKET_ORDER_SIDE_ASK")
    case True
    obtain m' s' t' where ex: "execute_market_ask_order D is_real m ?s1 ?o (m_bids m) = (m', s', t')"
      by (cases "execute_market_ask_order D is_real m ?s1 ?o (m_bids m)") auto
    have "loop_run D val False (\<lambda>a. o_side a = MARKET_ORDER_SIDE_BID)
        (stops MARKET_ORDER_SIDE_BID (\<lambda>a. o_side a = MARKET_ORDER_SIDE_BID)) m ?s1 ?o (m_bids m) m' s' t'"
      by (rule execute_market_ask_order_run [OF _ _ ex]) (use pre True in \<open>simp_all add: opposite_def book_of_def\<close>)
    with ex True show ?thesis
      unfolding loop_run_def opposite_def by auto
  next
    case False
    have "loop_pre D val MARKET_ORDER_SIDE_ASK m ?s1 ?o (m_asks m)"
      using pre(1) False by (simp add: opposite_def book_of_def)
    from execute_market_bid_order_run [OF this, of is_real] args obtain m' s' t' trades where
      ex: "execute_market_bid_order D is_real m ?s1 ?o (m_asks m) = Some (m', s', t')"
      and run: "matched D val True (\<lambda>a. o_side a = MARKET_ORDER_SIDE_ASK) m ?s1 ?o trades m' s' t'"
      unfolding loop_run_def market_args_ok_def by blast
    have "(\<lambda>a. o_side a = MARKET_ORDER_SIDE_ASK) a \<longrightarrow> o_side a = opposite side" for a :: "'a order"
      using False by (simp add: opposite_def)
    with ex run False show ?thesis
      by (intro exI [of _ m'] exI [of _ s'] exI [of _ t'] exI [of _ True]
          exI [of _ "\<lambda>a. o_side a = MARKET_ORDER_SIDE_ASK"] exI [of _ trades]) simp
  qed
  then obtain m1 s1 t1 by_money acc trades where
    ex: "(if side = MARKET_ORDER_SIDE_ASK then Some (execute_market_ask_order D is_real m ?s1 ?o (m_bids m))
       else execute_market_bid_order D is_real m ?s1 ?o (m_asks m)) = Some (m1, s1, t1)"
    and run: "matched D val by_money acc m ?s1 ?o trades m1 s1 t1" and side: "\<And>a. acc a \<Longrightarrow> o_side a = opposite side"
    by blast
  let ?s2 = "if is_real then push_order_message D ORDER_EVENT_FINISH t1 (m_stock m1) (m_money m1)
      (append_order_history t1 s1) else s1"
  have put: "market_put_market_order D is_real m s user_id side amount taker_fee source =
      Some (0, (if is_real then Some (get_order_info D t1) else None), m1, ?s2)"
    using True ex
    by (cases "side = MARKET_ORDER_SIDE_ASK") (simp_all add: market_put_market_order_def current_timestamp_def Let_def)
  have core: "same_core s1 ?s2"
    by (simp add: same_core_iff frames)
  note e = matched_engine [OF run ok1 am]
  have "market_inv D val m1 s1"
    using run side ok1 am ids1 un by (rule matched_inv)
  note fin = quiet_market_inv [OF core this]
  show ?thesis
    using put fin e(3,5) by simp
qed

text \<open>Cancelling gives the order's frozen funds back and removes it.\<close>

lemma cancel_order_inv:
  assumes inv: "market_inv D val m s" and a: "m_orders m i = Some a"
    and cancel: "market_cancel_order D is_real m s a = (ret, result, m', s')"
  shows "market_inv D val m' s'" "same_market m m'" "ret = 0" "order_id_start s' = order_id_start s"
proof -
  have ok: "engine_ok D val m s" and ids: "ids_ok m s" and un: "uncrossed val m"
    using inv by (simp_all add: market_inv_def)
  note E = engine_okD [OF ok] and M = engine_ok_maker [OF ok a]
  define s1 where "s1 = (if is_real then push_order_message D ORDER_EVENT_FINISH a (m_stock m) (m_money m) s else s)"
  obtain r where fin: "order_finish D is_real m s1 a = (r, m', s')" and ret: "ret = 0"
    using cancel by (auto simp: market_cancel_order_def Let_def s1_def split: prod.splits)
  have core: "same_core s s1"
    by (simp add: s1_def quietD)
  note sc = same_core_ledger [OF core] and f = order_finish_ok [OF E(1,5) a M(1) fin]
  have fz: "finite_val val (o_freeze a)"
    using M(2) by (simp add: order_ok_def amounts_ok_def)
  have "ledger_inv D val s1" "asset_exist s1 (m_stock m)" "asset_exist s1 (m_money m)"
    using E(2-4) by (simp_all add: sc(1,2))
  note st = order_finish_steady(1) [OF this fz fin]
  have "history_state.more s' = history_state.more s"
    using steadyD(3) [OF st] core by (simp add: same_core_iff)
  note fields = market_fields [OF this]
  have "engine_ok D val m' s'"
    using f(1,2) steadyD(1,2) [OF st] E(3,4) by (simp add: engine_ok_def same_market_def sc(2))
  moreover have "ids_ok m' s'"
    using ids by (auto simp: ids_ok_def f(5) fields split: if_splits)
  moreover have "uncrossed val m'"
  proof -
    have "set (m_asks m') \<subseteq> set (m_asks m)" "set (m_bids m') \<subseteq> set (m_bids m)"
      using set_remove1_subset [of i "m_asks m"] set_remove1_subset [of i "m_bids m"] f(3,4) by auto
    then show ?thesis
      by (rule uncrossed_mono [OF un]) (simp add: f(5) split: if_splits)
  qed
  ultimately show "market_inv D val m' s'"
    by (simp add: market_inv_def)
  show "same_market m m'" "ret = 0" "order_id_start s' = order_id_start s"
    using f(2) ret fields by simp_all
qed

end
