(* ===== verification/Replay_Facts.thy ===== *)
theory Replay_Facts
  imports Matching
begin

text \<open>
  The engine replays its operation log with \<open>real\<close> false: the same calls without reports. Every
  operation of the market does the same to the market, the ledger and the engine's counters
  whether it reports or not.
\<close>

section \<open>One transaction\<close>

text \<open>Results with the same market part whose states differ in the reports only.\<close>

definition same_step :: "'a \<times> ('d, 'z) history_state_scheme \<Rightarrow> 'a \<times> ('d, 'z) history_state_scheme \<Rightarrow> bool" where
  "same_step p q \<longleftrightarrow> fst p = fst q \<and> same_core (snd p) (snd q)"

lemma same_core_quiet2: "same_core s t \<Longrightarrow> quiet f \<Longrightarrow> quiet g \<Longrightarrow> same_core (f s) (g t)"
  by (meson quietD same_core_sym same_core_trans)

lemma same_core_quiet_left: "same_core s t \<Longrightarrow> quiet f \<Longrightarrow> same_core (f s) t"
  by (meson quietD same_core_sym same_core_trans)

lemma same_core_quiet_right: "same_core s t \<Longrightarrow> quiet g \<Longrightarrow> same_core s (g t)"
  by (meson quietD same_core_trans)

lemma same_core_if: "same_core x y \<Longrightarrow> same_core u v \<Longrightarrow> same_core (if b then x else u) (if b then y else v)"
  by simp

lemma reporters_quiet: "reporters is_real q \<Longrightarrow> n < 7 \<Longrightarrow> quiet (q n)"
  by (simp add: reporters_def)

lemma exchange_core:
  assumes "same_core s t" "reporters r1 q1" "reporters r2 q2"
  shows "same_core (exchange D q1 tu mu gives x gets y tfa tfee mfa mfee s)
    (exchange D q2 tu mu gives x gets y tfa tfee mfa mfee t)"
proof -
  have q: "same_core (q1 n u) (q2 n v)" if "same_core u v" "n < 7" for n u v
    using that reporters_quiet [OF assms(2)] reporters_quiet [OF assms(3)] same_core_quiet2 by blast
  show ?thesis
    unfolding exchange_def Let_def
    by (intro same_core_if q balance_sub_core(2) balance_add_core(2) assms(1)) simp_all
qed

lemma market_core:
  assumes "same_core s t"
  shows "order_id_start t = order_id_start s" "deals_id_start t = deals_id_start s" "clock t = clock s" "ticks t = ticks s"
  using assms by (cases s; cases t; simp add: same_core_iff)+

lemma market_core_upd:
  assumes "same_core s t"
  shows "same_core (s\<lparr>order_id_start := i\<rparr>) (t\<lparr>order_id_start := i\<rparr>)"
    "same_core (s\<lparr>ticks := n\<rparr>) (t\<lparr>ticks := n\<rparr>)"
    "same_core (s\<lparr>deals_id_start := i\<rparr>) (t\<lparr>deals_id_start := i\<rparr>)"
  using assms by (cases s; cases t; simp add: same_core_iff)+

definition release :: "'d mpd_lib \<Rightarrow> 'd market \<Rightarrow> 'd order \<Rightarrow> ('d, 'z) market_state_scheme
    \<Rightarrow> bool \<times> ('d, 'z) market_state_scheme" where
  "release D m a s =
     (if mpd_cmp D (o_freeze a) (mpd_zero D) > 0
      then let r = balance_unfreeze D (o_user_id a) (if o_side a = MARKET_ORDER_SIDE_ASK then m_stock m else m_money m)
             (o_freeze a) s in (fst r \<noteq> None, snd r)
      else (True, s))"

lemma order_finish_release:
  "order_finish D is_real m s a =
     (if fst (release D m a s) then (0, order_finish_index (order_finish_book D m a) a,
        (if is_real \<and> mpd_cmp D (o_deal_stock a) (mpd_zero D) > 0
         then append_order_history a (snd (release D m a s)) else snd (release D m a s)))
      else (if o_side a = MARKET_ORDER_SIDE_ASK then - 218 else - 228, order_finish_book D m a, snd (release D m a s)))"
proof -
  have [simp]: "m_stock (order_finish_book D m a) = m_stock m" "m_money (order_finish_book D m a) = m_money m"
    by (simp_all add: order_finish_book_def Let_def)
  show ?thesis
    unfolding order_finish_def release_def Let_def
    by (cases "mpd_cmp D (o_freeze a) (mpd_zero D) > 0"; cases "o_side a = MARKET_ORDER_SIDE_ASK")
      (simp_all split: prod.splits option.splits)
qed

lemma release_core:
  assumes "same_core s t"
  shows "fst (release D m a s) = fst (release D m a t)" "same_core (snd (release D m a s)) (snd (release D m a t))"
  using balance_shift_core [OF assms, of D BALANCE_TYPE_FREEZE BALANCE_TYPE_AVAILABLE "o_user_id a"
      "if o_side a = MARKET_ORDER_SIDE_ASK then m_stock m else m_money m" "o_freeze a"] assms
  by (simp_all add: release_def unfreeze_shift Let_def)

lemma order_finish_core:
  assumes "same_core s t" "order_finish D r1 m s a = (i1, m1, s1)" "order_finish D r2 m t a = (i2, m2, t1)"
  shows "i1 = i2 \<and> m1 = m2 \<and> same_core s1 t1"
proof -
  note r = release_core [OF assms(1), of D m a]
  have q: "quiet (\<lambda>s. if b then append_order_history a s else s)" for b
    by (rule quiet_if) simp
  show ?thesis
    using assms(2,3) r(1) r(2) same_core_quiet2 [OF r(2) q [of "r1 \<and> mpd_cmp D (o_deal_stock a) (mpd_zero D) > 0"]
      q [of "r2 \<and> mpd_cmp D (o_deal_stock a) (mpd_zero D) > 0"]]
    by (cases "fst (release D m a t)") (simp_all add: order_finish_release)
qed

lemma finish_or_update_core:
  assumes "same_core s t" "finish_or_update D r1 m s a = (m1, s1)" "finish_or_update D r2 m t a = (m2, t1)"
  shows "m1 = m2 \<and> same_core s1 t1"
proof -
  let ?m = "m\<lparr>m_orders := (m_orders m)(o_id a \<mapsto> a)\<rparr>"
  define e where "e = (if mpd_cmp D (o_left a) (mpd_zero D) = 0 then ORDER_EVENT_FINISH else ORDER_EVENT_UPDATE)"
  let ?s = "if r1 then push_order_message D e a (m_stock ?m) (m_money ?m) s else s"
  let ?t = "if r2 then push_order_message D e a (m_stock ?m) (m_money ?m) t else t"
  have core: "same_core ?s ?t"
    using assms(1) by (auto intro: same_core_quiet_left same_core_quiet_right same_core_quiet2)
  show ?thesis
  proof (cases "mpd_cmp D (o_left a) (mpd_zero D) = 0")
    case True
    obtain i1 i2 where "order_finish D r1 ?m ?s a = (i1, m1, s1)" "order_finish D r2 ?m ?t a = (i2, m2, t1)"
      using assms(2,3) True by (auto simp: finish_or_update_def Let_def e_def split: prod.splits cong: if_cong)
    from order_finish_core [OF core this] show ?thesis by simp
  next
    case False
    then have "m1 = m2 \<and> s1 = ?s \<and> t1 = ?t"
      using assms(2,3) by (cases r1; cases r2; simp add: finish_or_update_def Let_def e_def)
    with core show ?thesis by simp
  qed
qed

lemma fill_core:
  assumes st: "same_core s t" and q: "reporters r1 q1" "reporters r2 q2"
    and f1: "fill D r1 q1 m s taker maker used amount deal gives x gets y tfa tfee mfa mfee = (m1, s1, k1)"
    and f2: "fill D r2 q2 m t taker maker used amount deal gives x gets y tfa tfee mfa mfee = (m2, t1, k2)"
  shows "m1 = m2 \<and> k1 = k2 \<and> same_core s1 t1"
proof -
  define u v where "u = s\<lparr>ticks := ticks s + 1, deals_id_start := deals_id_start s + 1\<rparr>"
    and "v = t\<lparr>ticks := ticks s + 1, deals_id_start := deals_id_start s + 1\<rparr>"
  have uv: "same_core u v"
    unfolding u_def v_def using st by (intro market_core_upd)
  let ?x = "\<lambda>q w. exchange D q (o_user_id taker) (o_user_id maker) gives x gets y tfa tfee mfa mfee w"
  have [simp]: "o_user_id (dealt D used amount deal tfee a) = o_user_id a"
     "o_user_id (dealt_maker D amount deal y mfee a) = o_user_id a" for a :: "'a order"
    by (simp_all add: dealt_def dealt_maker_def)
  let ?b = "dealt_maker D amount deal y mfee (maker\<lparr>o_update_time := clock s (ticks s)\<rparr>)"
  have "finish_or_update D r1 m (?x q1 u) ?b = (m1, s1)" "finish_or_update D r2 m (?x q2 v) ?b = (m2, t1)"
    "k1 = k2"
    using f1 f2 by (simp_all add: fill_def current_timestamp_def Let_def u_def v_def market_core [OF st] split: prod.splits)
  with finish_or_update_core [OF exchange_core [OF uv q]] show ?thesis
    by blast
qed

section \<open>The loops\<close>

lemma limit_ask_fill_core:
  assumes "same_core s t" "limit_ask_fill D r1 m s taker maker = (m1, s1, k1)" "limit_ask_fill D r2 m t taker maker = (m2, t1, k2)"
  shows "m1 = m2 \<and> k1 = k2 \<and> same_core s1 t1"
  using limit_ask_fill_shape [where is_real = r1 and D = D and taker = taker and maker = maker and m = m and s = s, OF refl refl]
    limit_ask_fill_shape [where is_real = r2 and D = D and taker = taker and maker = maker and m = m and s = t, OF refl refl]
    fill_core [OF assms(1)] assms(2,3) by metis

lemma limit_bid_fill_core:
  assumes "same_core s t" "limit_bid_fill D r1 m s taker maker = (m1, s1, k1)" "limit_bid_fill D r2 m t taker maker = (m2, t1, k2)"
  shows "m1 = m2 \<and> k1 = k2 \<and> same_core s1 t1"
  using limit_bid_fill_shape [where is_real = r1 and D = D and taker = taker and maker = maker and m = m and s = s, OF refl refl]
    limit_bid_fill_shape [where is_real = r2 and D = D and taker = taker and maker = maker and m = m and s = t, OF refl refl]
    fill_core [OF assms(1)] assms(2,3) by metis

lemma market_ask_fill_core:
  assumes "same_core s t" "market_ask_fill D r1 m s taker maker = (m1, s1, k1)" "market_ask_fill D r2 m t taker maker = (m2, t1, k2)"
  shows "m1 = m2 \<and> k1 = k2 \<and> same_core s1 t1"
  using market_ask_fill_shape [where is_real = r1 and D = D and taker = taker and maker = maker and m = m and s = s, OF refl refl]
    market_ask_fill_shape [where is_real = r2 and D = D and taker = taker and maker = maker and m = m and s = t, OF refl refl]
    fill_core [OF assms(1)] assms(2,3) by metis

lemma market_bid_fill_core:
  assumes "same_core s t" "market_bid_fill D r1 m s taker maker amount = (m1, s1, k1)" "market_bid_fill D r2 m t taker maker amount = (m2, t1, k2)"
  shows "m1 = m2 \<and> k1 = k2 \<and> same_core s1 t1"
  using market_bid_fill_shape [where is_real = r1 and D = D and taker = taker and maker = maker and m = m and s = s, OF refl]
    market_bid_fill_shape [where is_real = r2 and D = D and taker = taker and maker = maker and m = m and s = t, OF refl]
    fill_core [OF assms(1)] assms(2,3) by metis

lemma execute_limit_ask_order_core:
  assumes "same_core s t" "execute_limit_ask_order D r1 m s k nodes = (m1, s1, k1)" "execute_limit_ask_order D r2 m t k nodes = (m2, t1, k2)"
  shows "m1 = m2 \<and> k1 = k2 \<and> same_core s1 t1"
  using assms
proof (induction nodes arbitrary: m s t k)
  case Nil
  then show ?case by simp
next
  case (Cons i nodes)
  show ?case
  proof (cases "m_orders m i")
    case None
    with Cons.prems show ?thesis by (auto split: if_splits)
  next
    case (Some maker)
    obtain m3 s3 k3 where f1: "limit_ask_fill D r1 m s k maker = (m3, s3, k3)"
      by (cases "limit_ask_fill D r1 m s k maker") auto
    obtain m4 t4 k4 where f2: "limit_ask_fill D r2 m t k maker = (m4, t4, k4)"
      by (cases "limit_ask_fill D r2 m t k maker") auto
    from limit_ask_fill_core [OF Cons.prems(1) f1 f2] have "m3 = m4" "k3 = k4" "same_core s3 t4"
      by simp_all
    with Cons.IH [of s3 t4 m4 k4] Cons.prems Some f1 f2 show ?thesis
      by (auto split: if_splits)
  qed
qed

lemma execute_limit_bid_order_core:
  assumes "same_core s t" "execute_limit_bid_order D r1 m s k nodes = (m1, s1, k1)" "execute_limit_bid_order D r2 m t k nodes = (m2, t1, k2)"
  shows "m1 = m2 \<and> k1 = k2 \<and> same_core s1 t1"
  using assms
proof (induction nodes arbitrary: m s t k)
  case Nil
  then show ?case by simp
next
  case (Cons i nodes)
  show ?case
  proof (cases "m_orders m i")
    case None
    with Cons.prems show ?thesis by (auto split: if_splits)
  next
    case (Some maker)
    obtain m3 s3 k3 where f1: "limit_bid_fill D r1 m s k maker = (m3, s3, k3)"
      by (cases "limit_bid_fill D r1 m s k maker") auto
    obtain m4 t4 k4 where f2: "limit_bid_fill D r2 m t k maker = (m4, t4, k4)"
      by (cases "limit_bid_fill D r2 m t k maker") auto
    from limit_bid_fill_core [OF Cons.prems(1) f1 f2] have "m3 = m4" "k3 = k4" "same_core s3 t4"
      by simp_all
    with Cons.IH [of s3 t4 m4 k4] Cons.prems Some f1 f2 show ?thesis
      by (auto split: if_splits)
  qed
qed

lemma execute_market_ask_order_core:
  assumes "same_core s t" "execute_market_ask_order D r1 m s k nodes = (m1, s1, k1)" "execute_market_ask_order D r2 m t k nodes = (m2, t1, k2)"
  shows "m1 = m2 \<and> k1 = k2 \<and> same_core s1 t1"
  using assms
proof (induction nodes arbitrary: m s t k)
  case Nil
  then show ?case by simp
next
  case (Cons i nodes)
  show ?case
  proof (cases "m_orders m i")
    case None
    with Cons.prems show ?thesis by (auto split: if_splits)
  next
    case (Some maker)
    obtain m3 s3 k3 where f1: "market_ask_fill D r1 m s k maker = (m3, s3, k3)"
      by (cases "market_ask_fill D r1 m s k maker") auto
    obtain m4 t4 k4 where f2: "market_ask_fill D r2 m t k maker = (m4, t4, k4)"
      by (cases "market_ask_fill D r2 m t k maker") auto
    from market_ask_fill_core [OF Cons.prems(1) f1 f2] have "m3 = m4" "k3 = k4" "same_core s3 t4"
      by simp_all
    with Cons.IH [of s3 t4 m4 k4] Cons.prems Some f1 f2 show ?thesis
      by (auto split: if_splits)
  qed
qed

lemma execute_market_bid_order_core:
  assumes "same_core s t"
  shows "rel_option (\<lambda>p q. fst p = fst q \<and> snd (snd p) = snd (snd q) \<and> same_core (fst (snd p)) (fst (snd q)))
    (execute_market_bid_order D r1 m s k nodes) (execute_market_bid_order D r2 m t k nodes)"
  using assms
proof (induction nodes arbitrary: m s t k)
  case Nil
  then show ?case by simp
next
  case (Cons i nodes)
  show ?case
  proof (cases "m_orders m i")
    case None
    with Cons.prems show ?thesis by simp
  next
    case maker: (Some maker)
    show ?thesis
    proof (cases "market_bid_amount D m k maker")
      case None
      with Cons.prems maker show ?thesis by simp
    next
      case (Some amount)
      obtain m3 s3 k3 where f1: "market_bid_fill D r1 m s k maker amount = (m3, s3, k3)"
        by (cases "market_bid_fill D r1 m s k maker amount") auto
      obtain m4 t4 k4 where f2: "market_bid_fill D r2 m t k maker amount = (m4, t4, k4)"
        by (cases "market_bid_fill D r2 m t k maker amount") auto
      from market_bid_fill_core [OF Cons.prems f1 f2] have "m3 = m4" "k3 = k4" "same_core s3 t4"
        by simp_all
      with Cons.IH [of s3 t4 m4 k4] Cons.prems maker Some f1 f2 show ?thesis
        by simp
    qed
  qed
qed

section \<open>The commands\<close>

lemma order_put_core:
  assumes "same_core s t"
  shows "fst (order_put D m s a) = fst (order_put D m t a)"
    "fst (snd (order_put D m s a)) = fst (snd (order_put D m t a))"
    "same_core (snd (snd (order_put D m s a))) (snd (snd (order_put D m t a)))"
proof -
  let ?f = "\<lambda>as x w. balance_freeze D (o_user_id a) as x w"
  have c: "fst (?f as x s) = fst (?f as x t) \<and> same_core (snd (?f as x s)) (snd (?f as x t))" for as x
    unfolding freeze_shift by (rule balance_shift_core [OF assms])
  obtain b1 u1 b2 u2 where 1: "?f (m_stock m) (o_left a) s = (b1, u1)" "?f (m_stock m) (o_left a) t = (b2, u2)"
    by (metis surj_pair)
  obtain b3 u3 b4 u4 where 2: "?f (m_money m) (mpd_mul D (o_price a) (o_left a)) s = (b3, u3)"
      "?f (m_money m) (mpd_mul D (o_price a) (o_left a)) t = (b4, u4)"
    by (metis surj_pair)
  note cc = c [of "m_stock m" "o_left a", unfolded 1] c [of "m_money m" "mpd_mul D (o_price a) (o_left a)", unfolded 2]
  have "fst (order_put D m s a) = fst (order_put D m t a) \<and> fst (snd (order_put D m s a)) = fst (snd (order_put D m t a))
    \<and> same_core (snd (snd (order_put D m s a))) (snd (snd (order_put D m t a)))"
    using cc assms
    by (cases "o_side a = MARKET_ORDER_SIDE_ASK")
      (auto simp: order_put_def Let_def 1 2 split: option.splits)
  then show "fst (order_put D m s a) = fst (order_put D m t a)"
    "fst (snd (order_put D m s a)) = fst (snd (order_put D m t a))"
    "same_core (snd (snd (order_put D m s a))) (snd (snd (order_put D m t a)))"
    by blast+
qed

lemma settle_limit_order_core:
  assumes "same_core s t" "settle_limit_order D r1 m s a = (j1, m1, s1)" "settle_limit_order D r2 m t a = (j2, m2, t1)"
  shows "m1 = m2 \<and> same_core s1 t1"
proof (cases "mpd_cmp D (o_left a) (mpd_zero D) = 0")
  case True
  have q: "quiet (\<lambda>s. if r then push_order_message D e a st mo (append_order_history a s) else s)" for r e st mo
    by (rule quiet_if, rule quiet_comp) simp_all
  from True assms(2,3) same_core_quiet2 [OF assms(1) q [of r1 ORDER_EVENT_FINISH "m_stock m" "m_money m"]
      q [of r2 ORDER_EVENT_FINISH "m_stock m" "m_money m"]]
  show ?thesis by (auto simp: settle_limit_order_def Let_def)
next
  case False
  let ?p = "\<lambda>r w. if r then push_order_message D ORDER_EVENT_PUT a (m_stock m) (m_money m) w else w"
  have q: "quiet (?p r)" for r
    by (rule quiet_if) simp
  note core = same_core_quiet2 [OF assms(1) q q, of r1 r2]
  have "m1 = fst (snd (order_put D m (?p r1 s) a))" "s1 = snd (snd (order_put D m (?p r1 s) a))"
    "m2 = fst (snd (order_put D m (?p r2 t) a))" "t1 = snd (snd (order_put D m (?p r2 t) a))"
    using False assms(2,3) by (auto simp: settle_limit_order_def Let_def split: prod.splits)
  with order_put_core [OF core, of D m a] show ?thesis by simp
qed

lemma market_put_limit_order_core:
  assumes st: "same_core s t"
    and p1: "market_put_limit_order D r1 m s u side am pr tf mf src = (i1, j1, m1, s1)"
    and p2: "market_put_limit_order D r2 m t u side am pr tf mf src = (i2, j2, m2, t1)"
  shows "i1 = i2 \<and> m1 = m2 \<and> same_core s1 t1"
proof (cases "limit_order_funded D m s u side am pr \<and> \<not> mpd_cmp D am (m_min_amount m) < 0")
  case False
  moreover have "limit_order_funded D m t u side am pr = limit_order_funded D m s u side am pr"
    using balance_get_core [OF st] by (simp add: limit_order_funded_def)
  ultimately show ?thesis
    using assms by (auto simp: market_put_limit_order_def split: if_splits)
next
  case True
  moreover have "limit_order_funded D m t u side am pr = limit_order_funded D m s u side am pr"
    using balance_get_core [OF st] by (simp add: limit_order_funded_def)
  moreover define x y where "x = s\<lparr>order_id_start := order_id_start s + 1, ticks := ticks s + 1\<rparr>"
    and "y = t\<lparr>order_id_start := order_id_start s + 1, ticks := ticks s + 1\<rparr>"
  moreover have xy: "same_core x y"
    unfolding x_def y_def using st by (intro market_core_upd)
  let ?o = "new_order D m (order_id_start s + 1) MARKET_ORDER_TYPE_LIMIT side (clock s (ticks s)) u src pr am tf mf"
  let ?e = "\<lambda>r w. if side = MARKET_ORDER_SIDE_ASK then execute_limit_ask_order D r m w ?o (m_bids m)
      else execute_limit_bid_order D r m w ?o (m_asks m)"
  obtain m3 s3 k3 m4 t4 k4 where e: "?e r1 x = (m3, s3, k3)" "?e r2 y = (m4, t4, k4)"
    by (metis surj_pair)
  have same: "m3 = m4 \<and> k3 = k4 \<and> same_core s3 t4"
    using e execute_limit_ask_order_core [OF xy] execute_limit_bid_order_core [OF xy] by (auto split: if_splits)
  ultimately have "settle_limit_order D r1 m3 s3 k3 = (j1, m1, s1) \<and> settle_limit_order D r2 m3 t4 k3 = (j2, m2, t1)
      \<and> i1 = 0 \<and> i2 = 0"
    using p1 p2 e
    by (auto simp: market_put_limit_order_def current_timestamp_def Let_def market_core [OF st] split: if_splits)
  with same settle_limit_order_core show ?thesis
    by blast
qed

lemma market_put_market_order_core:
  assumes st: "same_core s t"
  shows "rel_option (\<lambda>p q. fst p = fst q \<and> fst (snd (snd p)) = fst (snd (snd q))
      \<and> same_core (snd (snd (snd p))) (snd (snd (snd q))))
    (market_put_market_order D r1 m s u side am tf src) (market_put_market_order D r2 m t u side am tf src)"
proof -
  have check: "market_order_check D m t u side am = market_order_check D m s u side am"
    using balance_get_core [OF st] by (simp add: market_order_check_def)
  define x y where "x = s\<lparr>order_id_start := order_id_start s + 1, ticks := ticks s + 1\<rparr>"
    and "y = t\<lparr>order_id_start := order_id_start s + 1, ticks := ticks s + 1\<rparr>"
  have xy: "same_core x y"
    unfolding x_def y_def using st by (intro market_core_upd)
  let ?o = "new_order D m (order_id_start s + 1) MARKET_ORDER_TYPE_MARKET side (clock s (ticks s)) u src (mpd_zero D) am tf (mpd_zero D)"
  let ?R = "rel_option (\<lambda>p q. fst p = fst q \<and> snd (snd p) = snd (snd q) \<and> same_core (fst (snd p)) (fst (snd q)))"
  let ?e = "\<lambda>r w. if side = MARKET_ORDER_SIDE_ASK then Some (execute_market_ask_order D r m w ?o (m_bids m))
      else execute_market_bid_order D r m w ?o (m_asks m)"
  let ?fin = "\<lambda>r z. case z of (m, s, order) \<Rightarrow>
      (0::int, (if r then Some (get_order_info D order) else None), m,
       (if r then push_order_message D ORDER_EVENT_FINISH order (m_stock m) (m_money m) (append_order_history order s) else s))"
  have e: "?R (?e r1 x) (?e r2 y)"
  proof (cases "side = MARKET_ORDER_SIDE_ASK")
    case True
    obtain m3 s3 k3 m4 t4 k4 where "execute_market_ask_order D r1 m x ?o (m_bids m) = (m3, s3, k3)"
        "execute_market_ask_order D r2 m y ?o (m_bids m) = (m4, t4, k4)"
      by (metis surj_pair)
    with execute_market_ask_order_core [OF xy this] True show ?thesis by simp
  next
    case False
    with execute_market_bid_order_core [OF xy] show ?thesis by simp
  qed
  have q: "quiet (\<lambda>s. if r then push_order_message D e a st mo (append_order_history a s) else s)" for r e a st mo
    by (rule quiet_if, rule quiet_comp) simp_all
  have p: "market_put_market_order D r m w u side am tf src =
      (if market_order_check D m s u side am \<noteq> 0 then Some (market_order_check D m s u side am, None, m, w)
       else map_option (?fin r) (?e r v))"
    if "(w = s \<and> v = x) \<or> (w = t \<and> v = y)" for r w v
    using that check
    by (cases "side = MARKET_ORDER_SIDE_ASK")
      (auto simp: market_put_market_order_def current_timestamp_def Let_def market_core [OF st] x_def y_def
        split: option.split prod.split)
  have fin: "fst (?fin r1 a) = fst (?fin r2 b) \<and> fst (snd (snd (?fin r1 a))) = fst (snd (snd (?fin r2 b)))
      \<and> same_core (snd (snd (snd (?fin r1 a)))) (snd (snd (snd (?fin r2 b))))"
    if "fst a = fst b" "snd (snd a) = snd (snd b)" "same_core (fst (snd a)) (fst (snd b))" for a b
    using same_core_quiet2 [OF that(3) q [of r1 ORDER_EVENT_FINISH "snd (snd a)" "m_stock (fst a)" "m_money (fst a)"]
        q [of r2 ORDER_EVENT_FINISH "snd (snd a)" "m_stock (fst a)" "m_money (fst a)"]] that(1,2)
    by (cases a; cases b; cases r1; cases r2) auto
  let ?Q = "\<lambda>p q. fst p = fst q \<and> fst (snd (snd p)) = fst (snd (snd q))
      \<and> same_core (snd (snd (snd p))) (snd (snd (snd q)))"
  have "rel_option ?Q (map_option (?fin r1) (?e r1 x)) (map_option (?fin r2) (?e r2 y))"
    unfolding option.rel_map by (rule option.rel_mono_strong [OF e]) (elim conjE, rule fin)
  with st show ?thesis
    unfolding p [OF disjI1 [OF conjI [OF refl refl]]] p [OF disjI2 [OF conjI [OF refl refl]]]
    by (cases "market_order_check D m s u side am = 0") simp_all
qed

lemma market_cancel_order_core:
  assumes "same_core s t" "market_cancel_order D r1 m s a = (i1, j1, m1, s1)" "market_cancel_order D r2 m t a = (i2, j2, m2, t1)"
  shows "i1 = i2 \<and> m1 = m2 \<and> same_core s1 t1"
proof -
  let ?p = "\<lambda>r w. if r then push_order_message D ORDER_EVENT_FINISH a (m_stock m) (m_money m) w else w"
  have q: "quiet (?p r)" for r
    by (rule quiet_if) simp
  note core = same_core_quiet2 [OF assms(1) q q, of r1 r2]
  obtain k1 k2 where "order_finish D r1 m (?p r1 s) a = (k1, m1, s1)" "order_finish D r2 m (?p r2 t) a = (k2, m2, t1)"
    using assms(2,3) by (auto simp: market_cancel_order_def Let_def split: prod.splits)
  from order_finish_core [OF core this] assms(2,3) show ?thesis
    by (auto simp: market_cancel_order_def Let_def split: prod.splits)
qed

end
