(* ===== verification/Exact_Decimal.thy ===== *)
theory Exact_Decimal
  imports Decimal
begin

text \<open>
  A concrete decimal library: a coefficient and an exponent, with unbounded coefficients. It
  satisfies \<open>mpd_laws\<close>, so that the hypotheses of the development hold of it, and it computes,
  so that the witnesses run the model on it.
\<close>

datatype dec = Dec int int | NaN

definition dec_val :: "dec \<Rightarrow> rat option" where
  "dec_val d = (case d of Dec c e \<Rightarrow> Some (of_int c * 10 powi e) | NaN \<Rightarrow> None)"

definition shift :: "int \<Rightarrow> int \<Rightarrow> int \<Rightarrow> int" where
  "shift e c e1 = c * 10 ^ nat (e1 - e)"

definition trunc_quot :: "int \<Rightarrow> int \<Rightarrow> int" where
  "trunc_quot a b = (if 0 \<le> a then a div b else - ((- a) div b))"

fun dec_cmp :: "dec \<Rightarrow> dec \<Rightarrow> int" where
  "dec_cmp (Dec c1 e1) (Dec c2 e2) =
     (let e = min e1 e2; a = shift e c1 e1; b = shift e c2 e2 in
      if a < b then - 1 else if a = b then 0 else 1)"
| "dec_cmp _ _ = 2147483647"

fun dec_add :: "dec \<Rightarrow> dec \<Rightarrow> dec" where
  "dec_add (Dec c1 e1) (Dec c2 e2) = (let e = min e1 e2 in Dec (shift e c1 e1 + shift e c2 e2) e)"
| "dec_add _ _ = NaN"

fun dec_neg :: "dec \<Rightarrow> dec" where
  "dec_neg (Dec c e) = Dec (- c) e"
| "dec_neg NaN = NaN"

fun dec_mul :: "dec \<Rightarrow> dec \<Rightarrow> dec" where
  "dec_mul (Dec c1 e1) (Dec c2 e2) = Dec (c1 * c2) (e1 + e2)"
| "dec_mul _ _ = NaN"

fun dec_div :: "dec \<Rightarrow> dec \<Rightarrow> dec" where
  "dec_div (Dec c1 e1) (Dec c2 e2) =
     (if c2 \<le> 0 then NaN else Dec (trunc_quot (c1 * 10 ^ 40) c2) (e1 - e2 - 40))"
| "dec_div _ _ = NaN"

fun dec_divmod :: "dec \<Rightarrow> dec \<Rightarrow> dec \<times> dec" where
  "dec_divmod (Dec c1 e1) (Dec c2 e2) =
     (let e = min e1 e2; a = shift e c1 e1; b = shift e c2 e2 in
      if b = 0 then (NaN, NaN) else (Dec (a div b) 0, Dec (a mod b) e))"
| "dec_divmod _ _ = (NaN, NaN)"

fun dec_pow :: "dec \<Rightarrow> dec \<Rightarrow> dec" where
  "dec_pow (Dec c1 e1) (Dec c2 e2) =
     (if c1 = 10 \<and> e1 = 0 \<and> 0 \<le> e2 then Dec 1 (c2 * 10 ^ nat e2)
      else if c1 = 10 \<and> e1 = 0 \<and> c2 mod 10 ^ nat (- e2) = 0 then Dec 1 (c2 div 10 ^ nat (- e2))
      else NaN)"
| "dec_pow _ _ = NaN"

fun dec_abs :: "dec \<Rightarrow> dec" where
  "dec_abs (Dec c e) = Dec \<bar>c\<bar> e"
| "dec_abs NaN = NaN"

fun dec_rescale :: "dec \<Rightarrow> int \<Rightarrow> dec" where
  "dec_rescale (Dec c e) e' =
     (if e' \<le> e then Dec (shift e' c e) e' else Dec (trunc_quot c (10 ^ nat (e' - e))) e')"
| "dec_rescale NaN e' = NaN"

definition dec_of_string :: "string \<Rightarrow> dec \<times> bool" where
  "dec_of_string s =
     (let neg = (s \<noteq> [] \<and> hd s = CHR ''-'');
          body = (if neg then tl s else s);
          ipart = takeWhile (\<lambda>c. c \<noteq> CHR ''.'') body;
          fpart = drop (length ipart + 1) body in
      if body = ''NaN'' then (NaN, False)
      else case digits_value 0 (ipart @ fpart) of
             None \<Rightarrow> (NaN, True)
           | Some n \<Rightarrow> if ipart @ fpart = [] then (NaN, True)
                       else (Dec (if neg then - int n else int n) (- int (length fpart)), False))"

definition sci_digits :: "string \<Rightarrow> int \<Rightarrow> string" where
  "sci_digits ds e =
     (let n = int (length ds); adj = e + n - 1 in
      if e \<le> 0 \<and> - 6 \<le> adj then
        (if e = 0 then ds
         else if 0 < n + e then take (nat (n + e)) ds @ ''.'' @ drop (nat (n + e)) ds
         else ''0.'' @ replicate (nat (- (n + e))) (CHR ''0'') @ ds)
      else hd ds # (if tl ds = [] then [] else CHR ''.'' # tl ds) @ ''e'' @
           (if 0 \<le> adj then ''+'' else []) @ int_digits adj)"

fun dec_to_sci :: "dec \<Rightarrow> string" where
  "dec_to_sci (Dec c e) = (if c < 0 then ''-'' else []) @ sci_digits (nat_digits (nat \<bar>c\<bar>)) e"
| "dec_to_sci NaN = ''NaN''"

definition dec_lib :: "dec mpd_lib" where
  "dec_lib = \<lparr> mpd_cmp = dec_cmp, mpd_add = dec_add, mpd_sub = (\<lambda>a b. dec_add a (dec_neg b)),
     mpd_mul = dec_mul, mpd_div = dec_div, mpd_divmod = dec_divmod, mpd_pow = dec_pow,
     mpd_abs = dec_abs, mpd_copy_negate = dec_neg, mpd_rescale = dec_rescale,
     mpd_set_i32 = (\<lambda>i. Dec i 0), mpd_set_string = dec_of_string, mpd_to_sci = dec_to_sci \<rparr>"

lemma dec_consts [simp]:
  "mpd_zero dec_lib = Dec 0 0" "mpd_one dec_lib = Dec 1 0" "mpd_ten dec_lib = Dec 10 0"
  by (simp_all add: mpd_zero_def mpd_one_def mpd_ten_def dec_lib_def) code_simp+

text \<open>Evaluation: the operations of \<open>dec_lib\<close>, without unfolding the record.\<close>

lemma dec_ops:
  "mpd_cmp dec_lib = dec_cmp" "mpd_add dec_lib = dec_add" "mpd_sub dec_lib a b = dec_add a (dec_neg b)"
  "mpd_mul dec_lib = dec_mul" "mpd_div dec_lib = dec_div" "mpd_divmod dec_lib = dec_divmod"
  "mpd_pow dec_lib = dec_pow" "mpd_abs dec_lib = dec_abs" "mpd_copy_negate dec_lib = dec_neg"
  "mpd_rescale dec_lib = dec_rescale" "mpd_set_i32 dec_lib i = Dec i 0" "mpd_set_string dec_lib = dec_of_string"
  "mpd_to_sci dec_lib = dec_to_sci"
  by (simp_all add: dec_lib_def)

lemmas dec_eval = dec_ops shift_def trunc_quot_def

section \<open>The laws hold\<close>

lemma ten_powi_pos [simp]: "\<not> (10::rat) powi e \<le> 0" "\<not> (10::rat) powi e < 0"
  by (simp_all add: not_le not_less less_imp_le)

lemma ten_powi_nat: "0 \<le> n \<Longrightarrow> (10::rat) ^ nat n = 10 powi n"
  by (simp add: power_int_def)

lemma shift_val: "e \<le> e1 \<Longrightarrow> (of_int (shift e c e1) :: rat) * 10 powi e = of_int c * 10 powi e1"
  by (simp add: shift_def ten_powi_nat power_int_diff)

lemma scale_less: "of_int a * (10::rat) powi e < of_int b * 10 powi e \<longleftrightarrow> a < b"
  by simp

lemma scale_eq: "of_int a * (10::rat) powi e = of_int b * 10 powi e \<longleftrightarrow> a = b"
  by simp

lemma dec_cmp_law:
  "dec_val a = Some x \<Longrightarrow> dec_val b = Some y \<Longrightarrow>
     dec_cmp a b = (if x < y then - 1 else if x = y then 0 else 1)"
proof (cases "(a, b)" rule: dec_cmp.cases)
  case (1 c1 e1 c2 e2)
  assume "dec_val a = Some x" "dec_val b = Some y"
  with 1 have x: "x = of_int c1 * 10 powi e1" and y: "y = of_int c2 * 10 powi e2"
    by (simp_all add: dec_val_def)
  define e where "e = min e1 e2"
  have "x = of_int (shift e c1 e1) * 10 powi e" "y = of_int (shift e c2 e2) * 10 powi e"
    unfolding x y by (simp_all add: shift_val e_def)
  with 1 show ?thesis
    by (simp add: Let_def flip: e_def)
qed (auto simp: dec_val_def)

lemma dec_add_law:
  "dec_val a = Some x \<Longrightarrow> dec_val b = Some y \<Longrightarrow> dec_val (dec_add a b) = Some (x + y)"
  by (cases a; cases b) (auto simp: dec_val_def Let_def distrib_right shift_val)

lemma dec_neg_law: "dec_val a = Some x \<Longrightarrow> dec_val (dec_neg a) = Some (- x)"
  by (cases a) (auto simp: dec_val_def)

lemma dec_mul_law:
  "dec_val a = Some x \<Longrightarrow> dec_val b = Some y \<Longrightarrow> dec_val (dec_mul a b) = Some (x * y)"
  by (cases a; cases b) (auto simp: dec_val_def power_int_add)

lemma trunc_quot_floor: "0 \<le> a \<Longrightarrow> 0 < b \<Longrightarrow> trunc_quot a b = \<lfloor>(of_int a :: rat) / of_int b\<rfloor>"
  by (simp add: trunc_quot_def floor_divide_of_int_eq)

lemma dec_div_law:
  assumes "dec_val a = Some x" "dec_val b = Some y" "0 \<le> x" "0 < y"
  shows "\<exists>z. dec_val (dec_div a b) = Some z \<and> 0 \<le> z \<and> z \<le> x / y"
proof -
  from assms obtain c1 e1 c2 e2 where a: "a = Dec c1 e1" and b: "b = Dec c2 e2"
    and x: "x = of_int c1 * 10 powi e1" and y: "y = of_int c2 * 10 powi e2"
    by (cases a; cases b) (auto simp: dec_val_def)
  from assms(3,4) x y have c: "0 \<le> c1" "0 < c2"
    by (simp_all add: zero_le_mult_iff zero_less_mult_iff)
  define q where "q = trunc_quot (c1 * 10 ^ 40) c2"
  have q: "(of_int q :: rat) \<le> of_int c1 * 10 ^ 40 / of_int c2" "0 \<le> q"
    using c by (simp_all add: q_def trunc_quot_floor)
  have "x / y = (of_int c1 * 10 ^ 40 / of_int c2) * 10 powi (e1 - e2 - 40)"
    by (simp add: x y power_int_diff)
  moreover have "of_int q * (10::rat) powi (e1 - e2 - 40)
      \<le> (of_int c1 * 10 ^ 40 / of_int c2) * 10 powi (e1 - e2 - 40)"
    using q(1) by (rule mult_right_mono) (simp add: less_imp_le)
  ultimately have "of_int q * 10 powi (e1 - e2 - 40) \<le> x / y"
    by (simp only:)
  with a b c q show ?thesis
    by (simp add: dec_val_def q_def)
qed

lemma dec_abs_law: "dec_val a = Some x \<Longrightarrow> dec_val (dec_abs a) = Some \<bar>x\<bar>"
  by (cases a) (auto simp: dec_val_def abs_mult)

lemma dec_rescale_law:
  assumes "dec_val a = Some x" "0 \<le> p"
  shows "dec_val (dec_rescale a (- p)) = Some (trunc_dec (nat p) x)"
proof -
  from assms(1) obtain c e where a: "a = Dec c e" and x: "x = of_int c * 10 powi e"
    by (cases a) (auto simp: dec_val_def)
  have p10: "(10::rat) powi (- p) = 1 / 10 ^ nat p"
    using assms(2) by (cases p) (auto simp: power_int_minus field_simps)
  show ?thesis
  proof (cases "- p \<le> e")
    case True
    have "of_int (shift (- p) c e) / 10 ^ nat p = x"
      using shift_val [OF True, of c] by (simp add: x p10)
    moreover from this have "on_grid (nat p) x"
      unfolding on_grid_def by metis
    ultimately show ?thesis
      using True by (simp add: a dec_val_def p10 trunc_dec_grid)
  next
    case False
    define m :: int where "m = 10 ^ nat (- p - e)"
    have m: "0 < m"
      by (simp add: m_def)
    have "(10::rat) powi e * 10 ^ nat p = 1 / of_int m"
    proof -
      have "(10::rat) powi e * 10 ^ nat p * of_int m = 10 powi e * 10 powi p * 10 powi (- p - e)"
        using False assms(2) by (simp add: m_def ten_powi_nat)
      also have "\<dots> = 1"
        by (simp flip: power_int_add)
      finally show ?thesis
        using m by (simp add: field_simps)
    qed
    then have xs: "x * 10 ^ nat p = of_int c / of_int m"
      by (simp add: x mult.assoc)
    have sg: "0 \<le> x \<longleftrightarrow> 0 \<le> c"
      by (simp add: x zero_le_mult_iff)
    have "trunc_dec (nat p) x = of_int (trunc_quot c m) / 10 ^ nat p"
      using xs m by (simp add: trunc_dec_def sg trunc_quot_def floor_divide_of_int_eq
          flip: minus_divide_left) (metis floor_divide_of_int_eq of_int_minus minus_divide_left)
    with False show ?thesis
      by (simp add: a dec_val_def p10 m_def)
  qed
qed

lemma dec_pow_law: "dec_val t = Some (of_int i) \<Longrightarrow> dec_val (dec_pow (Dec 10 0) t) = Some (10 powi i)"
proof (cases t)
  case (Dec c e)
  assume t: "dec_val t = Some (of_int i)"
  show ?thesis
  proof (cases "0 \<le> e")
    case True
    then have "(of_int (c * 10 ^ nat e) :: rat) = of_int c * 10 powi e"
      by (simp add: power_int_def)
    also have "\<dots> = of_int i"
      using t Dec by (simp add: dec_val_def)
    finally have "c * 10 ^ nat e = i"
      by (simp only: of_int_eq_iff)
    with True Dec show ?thesis
      by (auto simp: dec_val_def)
  next
    case False
    define m :: int where "m = 10 ^ nat (- e)"
    have m: "0 < m"
      by (simp add: m_def)
    have "(10::rat) powi e * of_int m = 1"
      using False by (simp add: m_def power_int_def field_simps)
    then have "(of_int c :: rat) = of_int c * 10 powi e * of_int m"
      by simp
    also have "\<dots> = of_int (i * m)"
      using t Dec by (simp add: dec_val_def)
    finally have "c = i * m"
      by (simp only: of_int_eq_iff)
    with False Dec m show ?thesis
      by (simp add: dec_val_def m_def)
  qed
qed (simp add: dec_val_def)

lemma dec_lib_laws: "mpd_laws dec_lib dec_val"
proof -
  have "mpd_arith_laws dec_lib dec_val"
    unfolding mpd_arith_laws_def
    by (intro allI impI conjI)
      (simp_all add: dec_lib_def dec_cmp_law dec_div_law dec_add_law dec_mul_law dec_neg_law)
  moreover have "mpd_unary_laws dec_lib dec_val"
    unfolding mpd_unary_laws_def
    by (intro allI impI conjI) (simp_all add: dec_lib_def dec_abs_law dec_neg_law dec_rescale_law)
  moreover have "mpd_const_laws dec_lib dec_val"
    unfolding mpd_const_laws_def dec_consts
    by (intro conjI allI impI) (simp_all add: dec_lib_def dec_pow_law, simp_all add: dec_val_def)
  ultimately show ?thesis
    by (simp add: mpd_laws_def)
qed

end
