(* ===== verification/Examples.thy ===== *)
theory Examples
  imports Market_Facts Replay_Facts Exact_Decimal
begin

text \<open>
  A small engine on the exact decimals, on which the properties are tried: two assets, two users,
  a market with one bid (3 at 10) and one ask (2 at 12), both funded.
\<close>

definition ex_bid :: "dec order" where
  "ex_bid = \<lparr> o_id = 1, o_type = MARKET_ORDER_TYPE_LIMIT, o_side = MARKET_ORDER_SIDE_BID, o_create_time = 1,
     o_update_time = 1, o_user_id = 2, o_market = ''BTCUSD'', o_source = Some ''api'',
     o_price = Dec 10 0, o_amount = Dec 3 0, o_taker_fee = Dec 2 (- 3), o_maker_fee = Dec 1 (- 3),
     o_left = Dec 3 0, o_freeze = Dec 30 0, o_deal_stock = Dec 0 0, o_deal_money = Dec 0 0, o_deal_fee = Dec 0 0 \<rparr>"

definition ex_ask :: "dec order" where
  "ex_ask = \<lparr> o_id = 2, o_type = MARKET_ORDER_TYPE_LIMIT, o_side = MARKET_ORDER_SIDE_ASK, o_create_time = 2,
     o_update_time = 2, o_user_id = 1, o_market = ''BTCUSD'', o_source = Some ''api'',
     o_price = Dec 12 0, o_amount = Dec 2 0, o_taker_fee = Dec 2 (- 3), o_maker_fee = Dec 1 (- 3),
     o_left = Dec 2 0, o_freeze = Dec 2 0, o_deal_stock = Dec 0 0, o_deal_money = Dec 0 0, o_deal_fee = Dec 0 0 \<rparr>"

definition ex_market :: "dec market" where
  "ex_market = \<lparr> m_name = ''BTCUSD'', m_stock = ''BTC'', m_money = ''USD'', m_stock_prec = 4, m_money_prec = 4,
     m_fee_prec = 4, m_min_amount = Dec 1 (- 3),
     m_orders = [1 \<mapsto> ex_bid, 2 \<mapsto> ex_ask], m_users = [2 \<mapsto> [1], 1 \<mapsto> [2]], m_asks = [2], m_bids = [1] \<rparr>"

definition ex_assets :: "string \<rightharpoonup> asset_type" where
  "ex_assets = [''BTC'' \<mapsto> \<lparr> prec_save = 8, prec_show = 8 \<rparr>, ''USD'' \<mapsto> \<lparr> prec_save = 12, prec_show = 8 \<rparr>]"

definition ex_state :: "dec market_state" where
  "ex_state = \<lparr> dict_asset = ex_assets,
     dict_balance = [(mk_key 1 BALANCE_TYPE_AVAILABLE ''BTC'', Dec 100 0), (mk_key 1 BALANCE_TYPE_FREEZE ''BTC'', Dec 2 0),
       (mk_key 2 BALANCE_TYPE_AVAILABLE ''USD'', Dec 1000 0), (mk_key 2 BALANCE_TYPE_FREEZE ''USD'', Dec 30 0)],
     reports = [], order_id_start = 2, deals_id_start = 0, clock = (\<lambda>n. of_nat n), ticks = 3 \<rparr>"

lemmas ex_defs = ex_bid_def ex_ask_def ex_market_def ex_assets_def ex_state_def

lemma dec_val_simps [simp]: "dec_val (Dec c e) = Some (of_int c * 10 powi e)" "dec_val NaN = None"
  by (simp_all add: dec_val_def)

lemma on_grid_int [simp]: "on_grid p (of_int k)" "on_grid p (numeral n)" "on_grid p 1"
proof -
  have "on_grid p (of_int k)" for k
    unfolding on_grid_def by (rule exI [of _ "k * 10 ^ p"]) simp
  from this this [of "numeral n"] this [of 1] show "on_grid p (of_int k)" "on_grid p (numeral n)" "on_grid p 1"
    by simp_all
qed

lemma ex_ledger: "ledger_inv dec_lib dec_val ex_state"
proof -
  have "dict_balance ex_state = [(mk_key 1 BALANCE_TYPE_AVAILABLE ''BTC'', Dec 100 0), (mk_key 1 BALANCE_TYPE_FREEZE ''BTC'', Dec 2 0),
       (mk_key 2 BALANCE_TYPE_AVAILABLE ''USD'', Dec 1000 0), (mk_key 2 BALANCE_TYPE_FREEZE ''USD'', Dec 30 0)]"
    and "dict_asset ex_state = ex_assets"
    by (simp_all add: ex_state_def)
  then show ?thesis
    by (auto simp: ledger_inv_def balances_ok_def dec_lib_laws dv_wf_def assets_ok_def ex_assets_def mk_key_def
        ASSET_NAME_MAX_LEN_def max_prec_def BALANCE_TYPE_AVAILABLE_def BALANCE_TYPE_FREEZE_def entry_ok_def
        split: if_splits)
qed

lemma ex_market_ok: "market_ok dec_val ex_market"
  by (auto simp: market_ok_def heap_ok_def book_ok_def users_ok_def ex_defs order_ok_def amounts_ok_def side_ok_def
      nonneg_def finite_val_def split: if_splits)

lemma ex_uncrossed: "uncrossed dec_val ex_market"
  by (simp add: uncrossed_def ex_defs price_of_def amount_val_def)

lemma ex_inv: "market_inv dec_lib dec_val ex_market ex_state"
proof -
  have "asset_exist ex_state (m_stock ex_market)" "asset_exist ex_state (m_money ex_market)"
    by (simp_all add: asset_exist_def get_asset_type_def ex_defs)
  moreover have "ids_ok ex_market ex_state"
    by (simp add: ids_ok_def ex_defs word_le_nat_alt)
  ultimately show ?thesis
    using ex_ledger ex_market_ok ex_uncrossed by (simp add: market_inv_def engine_ok_def)
qed

end
