(* ===== verification/Market_Props.thy ===== *)
theory Market_Props
  imports Examples
begin

text \<open>The properties of a market.\<close>

section \<open>The invariant\<close>

text \<open>C1. \<open>market_put_limit_order\<close> keeps the engine well-formed and answers as documented.
  Whatever the order does, the ledger keeps finite, non-negative amounts of listed assets with the
  asset's decimals; the books stay in price-time order and hold allocated orders of their side; the
  index by user is exact; ids stay fresh; no bid of the books reaches an ask. An order that is
  refused (-1: the balance does not cover it, -2: below the minimum amount) changes nothing; one
  that is accepted takes the next order id.\<close>

theorem limit_order_keeps_invariant:
  assumes "market_inv D val m s" "limit_args_ok val side amount price taker_fee maker_fee"
    and "order_id_start s < order_id_start s + 1"
    and "market_put_limit_order D is_real m s user_id side amount price taker_fee maker_fee source
      = (ret, result, m', s')"
  shows "market_inv D val m' s' \<and> same_market m m' \<and>
    (if ret = 0 then order_id_start s' = order_id_start s + 1
     else m' = m \<and> s' = s \<and>
       (ret = - 1 \<and> \<not> limit_order_funded D m s user_id side amount price \<or> ret = - 2 \<and> mpd_cmp D amount (m_min_amount m) < 0))"
proof -
  have "ret \<noteq> 0 \<Longrightarrow> ret = - 1 \<and> \<not> limit_order_funded D m s user_id side amount price
      \<or> ret = - 2 \<and> mpd_cmp D amount (m_min_amount m) < 0"
    using assms(4) by (auto simp: market_put_limit_order_def Let_def split: if_splits prod.splits)
  with put_limit_order_inv [OF assms] show ?thesis
    by auto
qed

lemma ex_limit_args:
  "limit_args_ok dec_val MARKET_ORDER_SIDE_ASK (Dec 4 0) (Dec 9 0) (Dec 2 (- 3)) (Dec 1 (- 3))"
  by (simp add: limit_args_ok_def side_ok_def nonneg_def)

theorem limit_order_keeps_invariant_witness:
  "\<exists>result m' s'. market_put_limit_order dec_lib True ex_market ex_state 1 MARKET_ORDER_SIDE_ASK (Dec 4 0) (Dec 9 0)
      (Dec 2 (- 3)) (Dec 1 (- 3)) ''api'' = (0, result, m', s') \<and> market_inv dec_lib dec_val m' s'"
proof -
  obtain ret result m' s' where put: "market_put_limit_order dec_lib True ex_market ex_state 1 MARKET_ORDER_SIDE_ASK
      (Dec 4 0) (Dec 9 0) (Dec 2 (- 3)) (Dec 1 (- 3)) ''api'' = (ret, result, m', s')"
    by (metis surj_pair)
  have "order_id_start ex_state < order_id_start ex_state + 1"
    by (simp add: ex_state_def)
  from limit_order_keeps_invariant [OF ex_inv ex_limit_args this put]
  have inv: "market_inv dec_lib dec_val m' s'"
    and ret: "ret \<noteq> 0 \<Longrightarrow> \<not> limit_order_funded dec_lib ex_market ex_state 1 MARKET_ORDER_SIDE_ASK (Dec 4 0) (Dec 9 0)
      \<or> mpd_cmp dec_lib (Dec 4 0) (m_min_amount ex_market) < 0"
    by (auto split: if_splits)
  have "limit_order_funded dec_lib ex_market ex_state 1 MARKET_ORDER_SIDE_ASK (Dec 4 0) (Dec 9 0)"
    "\<not> mpd_cmp dec_lib (Dec 4 0) (m_min_amount ex_market) < 0"
    by (simp_all add: limit_order_funded_def balance_get_def ex_defs mk_key_def ASSET_NAME_MAX_LEN_def
        BALANCE_TYPE_AVAILABLE_def dec_lib_def shift_def)
  with ret have "ret = 0" by blast
  with put inv show ?thesis by blast
qed

text \<open>C23. A market order always comes to an end, with the engine well-formed. In particular the
  correction loop of a market bid, which lowers the amount until it is affordable, ends.\<close>

theorem market_order_returns:
  assumes "market_inv D val m s" "market_args_ok val m side amount taker_fee"
    and "order_id_start s < order_id_start s + 1"
  shows "\<exists>ret result m' s'. market_put_market_order D is_real m s user_id side amount taker_fee source
      = Some (ret, result, m', s') \<and> market_inv D val m' s' \<and> same_market m m'
    \<and> (if ret = 0 then order_id_start s' = order_id_start s + 1
       else m' = m \<and> s' = s \<and> ret \<in> {- 1, - 2, - 3})"
proof -
  from put_market_order_inv [OF assms, of is_real user_id source] obtain ret result m' s' where
    "market_put_market_order D is_real m s user_id side amount taker_fee source = Some (ret, result, m', s')"
    "market_inv D val m' s'" "same_market m m'" "ret = 0 \<longrightarrow> order_id_start s' = order_id_start s + 1"
    "ret \<noteq> 0 \<longrightarrow> m' = m \<and> s' = s \<and> ret \<in> {- 1, - 2, - 3}"
    by blast
  then show ?thesis
    by (intro exI [of _ ret] exI [of _ result] exI [of _ m'] exI [of _ s']) simp
qed

theorem market_order_returns_witness:
  "\<exists>result m' s'. market_put_market_order dec_lib True ex_market ex_state 2 MARKET_ORDER_SIDE_BID (Dec 15 0)
      (Dec 2 (- 3)) ''api'' = Some (0, result, m', s') \<and> market_inv dec_lib dec_val m' s'"
proof -
  have args: "market_args_ok dec_val ex_market MARKET_ORDER_SIDE_BID (Dec 15 0) (Dec 2 (- 3))"
    by (simp add: market_args_ok_def side_ok_def nonneg_def ex_market_def max_prec_def)
  have "order_id_start ex_state < order_id_start ex_state + 1"
    by (simp add: ex_state_def)
  from market_order_returns [OF ex_inv args this, of True 2 "''api''"] obtain ret result m' s' where
    put: "market_put_market_order dec_lib True ex_market ex_state 2 MARKET_ORDER_SIDE_BID (Dec 15 0)
      (Dec 2 (- 3)) ''api'' = Some (ret, result, m', s')" and inv: "market_inv dec_lib dec_val m' s'"
    by blast
  have "market_order_check dec_lib ex_market ex_state 2 MARKET_ORDER_SIDE_BID (Dec 15 0) = 0"
    by (simp add: market_order_check_def balance_get_def ex_defs mk_key_def ASSET_NAME_MAX_LEN_def market_consts
        BALANCE_TYPE_AVAILABLE_def BALANCE_TYPE_FREEZE_def dec_lib_def shift_def)
  with put have "ret = 0"
    by (auto simp: market_put_market_order_def Let_def split: option.splits prod.splits)
  with put inv show ?thesis by blast
qed

section \<open>Price-time priority\<close>

text \<open>C19. A limit ask is matched against the best bids first. The filled makers are a prefix of the
  bid book, in its order, each with a price not below the limit. Either the taker is exhausted, or
  what remains of the book is exactly the rest, and no order of it reaches the limit.\<close>

theorem limit_ask_priority:
  assumes "engine_ok D val m s" "amounts_ok val t" "finite_val val (o_price t)" "o_side t = MARKET_ORDER_SIDE_ASK"
    and "execute_limit_ask_order D is_real m s t (m_bids m) = (m', s', t')"
  shows "\<exists>trades rest. m_bids m = map fst trades @ rest
    \<and> matched D val False (takes val MARKET_ORDER_SIDE_BID (price_of val t)) m s t trades m' s' t'
    \<and> m_asks m' = m_asks m \<and> deals_id_start s' = deals_id_start s + of_nat (length trades)
    \<and> (val (o_left t') = Some 0 \<or> m_bids m' = rest
        \<and> (\<forall>i \<in> set rest. \<forall>a. m_orders m' i = Some a \<longrightarrow> price_of val a < price_of val t))"
proof -
  let ?acc = "takes val MARKET_ORDER_SIDE_BID (price_of val t)"
  have mt: "match_limit D is_real m s t = (m', s', t')"
    using assms(4,5) by (simp add: match_limit_def)
  have opp: "opposite (o_side t) = MARKET_ORDER_SIDE_BID"
    by (simp add: opposite_def assms(4))
  from match_limit_run [OF assms(1-3) mt] obtain trades rest where
    run: "matched D val False ?acc m s t trades m' s' t'" and "m_bids m = map fst trades @ rest"
    and stop: "val (o_left t') = Some 0 \<or> stops MARKET_ORDER_SIDE_BID ?acc m' t' rest"
    unfolding loop_run_def opp by (auto simp: book_of_def)
  moreover have "o_side b = MARKET_ORDER_SIDE_BID" if "m_orders m' i = Some b" "i \<in> set (m_bids m')" for i b
    using match_limit_facts(1) [OF assms(1-3) mt] that by (auto simp: engine_ok_def market_ok_def book_ok_def)
  then have "price_of val b < price_of val t"
    if "val (o_left t') \<noteq> Some 0" "i \<in> set (m_bids m')" "m_orders m' i = Some b" for i b
    using match_limit_facts(13) [OF assms(1-3) mt, unfolded opp] that
    by (fastforce simp: takes_def book_of_def not_le)
  moreover have "m_asks m' = m_asks m"
    by (rule matched_books(1) [OF run]) (auto simp: takes_def)
  ultimately show ?thesis
    using matched_engine(6) [OF run assms(1,2)]
    by (intro exI [of _ trades] exI [of _ rest]) (auto simp: stops_def book_of_def)
qed

lemma limit_bid_priority_aux:
  assumes "engine_ok D val m s" "amounts_ok val t" "finite_val val (o_price t)" "o_side t = MARKET_ORDER_SIDE_BID"
    and "execute_limit_bid_order D is_real m s t (m_asks m) = (m', s', t')"
  shows "match_limit D is_real m s t = (m', s', t')" "opposite (o_side t) = MARKET_ORDER_SIDE_ASK"
  using assms(4,5) by (simp_all add: match_limit_def opposite_def)

definition ex_taker :: "u32 \<Rightarrow> u32 \<Rightarrow> dec \<Rightarrow> dec \<Rightarrow> dec order" where
  "ex_taker side user_id price amount = new_order dec_lib ex_market 3 MARKET_ORDER_TYPE_LIMIT side 3 user_id ''api''
     price amount (Dec 2 (- 3)) (Dec 1 (- 3))"

lemma ex_taker_ok:
  "amounts_ok dec_val (ex_taker side u (Dec 9 0) (Dec 4 0))" "finite_val dec_val (o_price (ex_taker side u (Dec 9 0) (Dec 4 0)))"
  "amounts_ok dec_val (ex_taker side u (Dec 13 0) (Dec 4 0))" "finite_val dec_val (o_price (ex_taker side u (Dec 13 0) (Dec 4 0)))"
  by (simp_all add: ex_taker_def new_order_amounts dec_lib_laws nonneg_def finite_val_def)

lemma ex_engine: "engine_ok dec_lib dec_val ex_market ex_state"
  using ex_inv by (simp add: market_inv_def)

theorem limit_ask_priority_witness:
  "\<exists>m' s' t' trades rest. execute_limit_ask_order dec_lib True ex_market ex_state
      (ex_taker MARKET_ORDER_SIDE_ASK 1 (Dec 9 0) (Dec 4 0)) (m_bids ex_market) = (m', s', t')
    \<and> [1] = map fst (trades :: (u64 \<times> dec) list) @ rest \<and> m_asks m' = [2]"
proof -
  let ?t = "ex_taker MARKET_ORDER_SIDE_ASK 1 (Dec 9 0) (Dec 4 0)"
  obtain m' s' t' where ex: "execute_limit_ask_order dec_lib True ex_market ex_state ?t (m_bids ex_market) = (m', s', t')"
    by (metis surj_pair)
  have "o_side ?t = MARKET_ORDER_SIDE_ASK"
    by (simp add: ex_taker_def)
  from limit_ask_priority [OF ex_engine ex_taker_ok(1,2) this ex] ex show ?thesis
    by (auto simp: ex_market_def)
qed

text \<open>C20. A limit bid is matched against the lowest asks first, symmetrically.\<close>

theorem limit_bid_priority:
  assumes "engine_ok D val m s" "amounts_ok val t" "finite_val val (o_price t)" "o_side t = MARKET_ORDER_SIDE_BID"
    and "execute_limit_bid_order D is_real m s t (m_asks m) = (m', s', t')"
  shows "\<exists>trades rest. m_asks m = map fst trades @ rest
    \<and> matched D val False (takes val MARKET_ORDER_SIDE_ASK (price_of val t)) m s t trades m' s' t'
    \<and> m_bids m' = m_bids m \<and> deals_id_start s' = deals_id_start s + of_nat (length trades)
    \<and> (val (o_left t') = Some 0 \<or> m_asks m' = rest
        \<and> (\<forall>i \<in> set rest. \<forall>a. m_orders m' i = Some a \<longrightarrow> price_of val t < price_of val a))"
proof -
  let ?acc = "takes val MARKET_ORDER_SIDE_ASK (price_of val t)"
  note mt = limit_bid_priority_aux(1) [OF assms] and opp = limit_bid_priority_aux(2) [OF assms]
  from match_limit_run [OF assms(1-3) mt] obtain trades rest where
    run: "matched D val False ?acc m s t trades m' s' t'" and "m_asks m = map fst trades @ rest"
    and stop: "val (o_left t') = Some 0 \<or> stops MARKET_ORDER_SIDE_ASK ?acc m' t' rest"
    unfolding loop_run_def opp by (auto simp: book_of_def)
  moreover have "o_side b = MARKET_ORDER_SIDE_ASK" if "m_orders m' i = Some b" "i \<in> set (m_asks m')" for i b
    using match_limit_facts(1) [OF assms(1-3) mt] that by (auto simp: engine_ok_def market_ok_def book_ok_def)
  then have "price_of val t < price_of val b"
    if "val (o_left t') \<noteq> Some 0" "i \<in> set (m_asks m')" "m_orders m' i = Some b" for i b
    using match_limit_facts(13) [OF assms(1-3) mt, unfolded opp] that
    by (fastforce simp: takes_def book_of_def not_le)
  moreover have "m_bids m' = m_bids m"
    by (rule matched_books(2) [OF run]) (auto simp: takes_def)
  ultimately show ?thesis
    using matched_engine(6) [OF run assms(1,2)]
    by (intro exI [of _ trades] exI [of _ rest]) (auto simp: stops_def book_of_def)
qed

theorem limit_bid_priority_witness:
  "\<exists>m' s' t' trades rest. execute_limit_bid_order dec_lib True ex_market ex_state
      (ex_taker MARKET_ORDER_SIDE_BID 2 (Dec 13 0) (Dec 4 0)) (m_asks ex_market) = (m', s', t')
    \<and> [2] = map fst (trades :: (u64 \<times> dec) list) @ rest \<and> m_bids m' = [1]"
proof -
  let ?t = "ex_taker MARKET_ORDER_SIDE_BID 2 (Dec 13 0) (Dec 4 0)"
  obtain m' s' t' where ex: "execute_limit_bid_order dec_lib True ex_market ex_state ?t (m_asks ex_market) = (m', s', t')"
    by (metis surj_pair)
  have "o_side ?t = MARKET_ORDER_SIDE_BID"
    by (simp add: ex_taker_def)
  from limit_bid_priority [OF ex_engine ex_taker_ok(3,4) this ex] ex show ?thesis
    by (auto simp: ex_market_def)
qed

section \<open>Conservation\<close>

text \<open>C21. A fill of a limit ask creates no value: if the taker has the stock it sells and the maker's
  frozen money covers the price, the total of every asset is at most what it was. (What is lost are
  the fees and what truncation drops.)\<close>

theorem limit_ask_fill_conserves:
  assumes "engine_ok D val m s" "m_orders m i = Some maker" "amounts_ok val taker"
    and "amount_val val (min_left D taker maker)
      \<le> key_amount val s (mk_key (o_user_id taker) BALANCE_TYPE_AVAILABLE (m_stock m))"
    and "amount_val val (mpd_mul D (o_price maker) (min_left D taker maker))
      \<le> key_amount val s (mk_key (o_user_id maker) BALANCE_TYPE_FREEZE (m_money m))"
    and "limit_ask_fill D is_real m s taker maker = (m', s', taker')"
  shows "asset_total val s' a \<le> asset_total val s a"
proof -
  note L = engine_okD(1) [OF assms(1)] and M = order_okD [OF engine_ok_maker(2) [OF assms(1,2)]]
  note T = amounts_okD [OF assms(3)]
  note am = min_left_ok [OF L T(1) M(2)] and mul = nonneg_mul [OF L]
  obtain q where q: "reporters is_real q" and eq: "limit_ask_fill D is_real m s taker maker =
      fill D is_real q m s taker maker (min_left D taker maker) (min_left D taker maker)
        (mpd_mul D (o_price maker) (min_left D taker maker)) (m_stock m) (min_left D taker maker) (m_money m)
        (mpd_mul D (o_price maker) (min_left D taker maker))
        (m_money m) (mpd_mul D (mpd_mul D (o_price maker) (min_left D taker maker)) (o_taker_fee taker))
        (m_money m) (mpd_mul D (mpd_mul D (o_price maker) (min_left D taker maker)) (o_maker_fee maker))"
    using limit_ask_fill_shape [OF min_left_def refl] by blast
  show ?thesis
    by (rule fill_facts(14) [OF assms(1,2) q _ assms(6) [unfolded eq] assms(4,5)])
      (simp add: fill_args_def am mul M T)
qed

lemma ex_key_amounts:
  "key_amount dec_val ex_state (mk_key 1 BALANCE_TYPE_AVAILABLE ''BTC'') = 100"
  "key_amount dec_val ex_state (mk_key 2 BALANCE_TYPE_FREEZE ''USD'') = 30"
  "key_amount dec_val ex_state (mk_key 2 BALANCE_TYPE_AVAILABLE ''USD'') = 1000"
  "key_amount dec_val ex_state (mk_key 1 BALANCE_TYPE_FREEZE ''BTC'') = 2"
  by (simp_all add: key_amount_def ex_state_def mk_key_def ASSET_NAME_MAX_LEN_def BALANCE_TYPE_AVAILABLE_def
      BALANCE_TYPE_FREEZE_def amount_val_def)

theorem limit_ask_fill_conserves_witness:
  "\<exists>m' s' taker'. limit_ask_fill dec_lib True ex_market ex_state (ex_taker MARKET_ORDER_SIDE_ASK 1 (Dec 9 0) (Dec 4 0)) ex_bid
      = (m', s', taker') \<and> asset_total dec_val s' ''USD'' \<le> asset_total dec_val ex_state ''USD''"
proof -
  let ?t = "ex_taker MARKET_ORDER_SIDE_ASK 1 (Dec 9 0) (Dec 4 0)"
  obtain m' s' t' where ex: "limit_ask_fill dec_lib True ex_market ex_state ?t ex_bid = (m', s', t')"
    by (metis surj_pair)
  have bid: "m_orders ex_market 1 = Some ex_bid"
    by (simp add: ex_market_def)
  have ml: "min_left dec_lib ?t ex_bid = Dec 3 0"
    by (simp add: min_left_def ex_taker_def ex_bid_def dec_eval)
  have u: "o_user_id ?t = 1" "o_user_id ex_bid = 2" "o_price ex_bid = Dec 10 0" "m_stock ex_market = ''BTC''"
      "m_money ex_market = ''USD''"
    by (simp_all add: ex_taker_def ex_bid_def ex_market_def)
  have "asset_total dec_val s' ''USD'' \<le> asset_total dec_val ex_state ''USD''"
    by (rule limit_ask_fill_conserves [OF ex_engine bid ex_taker_ok(1) _ _ ex])
      (simp_all add: ml u ex_key_amounts amount_val_def dec_eval)
  with ex show ?thesis by blast
qed

text \<open>A fill of a limit bid creates no value, if the taker can pay the price and the maker's
  frozen stock covers the amount.\<close>

theorem limit_bid_fill_conserves:
  assumes "engine_ok D val m s" "m_orders m i = Some maker" "amounts_ok val taker"
    and "amount_val val (mpd_mul D (o_price maker) (min_left D taker maker))
      \<le> key_amount val s (mk_key (o_user_id taker) BALANCE_TYPE_AVAILABLE (m_money m))"
    and "amount_val val (min_left D taker maker)
      \<le> key_amount val s (mk_key (o_user_id maker) BALANCE_TYPE_FREEZE (m_stock m))"
    and "limit_bid_fill D is_real m s taker maker = (m', s', taker')"
  shows "asset_total val s' a \<le> asset_total val s a"
proof -
  note L = engine_okD(1) [OF assms(1)] and M = order_okD [OF engine_ok_maker(2) [OF assms(1,2)]]
  note T = amounts_okD [OF assms(3)]
  note am = min_left_ok [OF L T(1) M(2)] and mul = nonneg_mul [OF L]
  obtain q where q: "reporters is_real q" and eq: "limit_bid_fill D is_real m s taker maker =
      fill D is_real q m s taker maker (min_left D taker maker) (min_left D taker maker)
        (mpd_mul D (o_price maker) (min_left D taker maker)) (m_money m)
        (mpd_mul D (o_price maker) (min_left D taker maker)) (m_stock m) (min_left D taker maker)
        (m_money m) (mpd_mul D (mpd_mul D (o_price maker) (min_left D taker maker)) (o_taker_fee taker))
        (m_money m) (mpd_mul D (mpd_mul D (o_price maker) (min_left D taker maker)) (o_maker_fee maker))"
    using limit_bid_fill_shape [OF min_left_def refl] by blast
  show ?thesis
    by (rule fill_facts(14) [OF assms(1,2) q _ assms(6) [unfolded eq] assms(4,5)])
      (simp add: fill_args_def am mul M T)
qed

theorem limit_bid_fill_conserves_witness:
  "\<exists>m' s' taker'. limit_bid_fill dec_lib True ex_market ex_state (ex_taker MARKET_ORDER_SIDE_BID 2 (Dec 13 0) (Dec 4 0)) ex_ask
      = (m', s', taker') \<and> asset_total dec_val s' ''USD'' \<le> asset_total dec_val ex_state ''USD''"
proof -
  let ?t = "ex_taker MARKET_ORDER_SIDE_BID 2 (Dec 13 0) (Dec 4 0)"
  obtain m' s' t' where ex: "limit_bid_fill dec_lib True ex_market ex_state ?t ex_ask = (m', s', t')"
    by (metis surj_pair)
  have ask: "m_orders ex_market 2 = Some ex_ask"
    by (simp add: ex_market_def)
  have ml: "min_left dec_lib ?t ex_ask = Dec 2 0"
    by (simp add: min_left_def ex_taker_def ex_ask_def dec_eval)
  have u: "o_user_id ?t = 2" "o_user_id ex_ask = 1" "o_price ex_ask = Dec 12 0" "m_stock ex_market = ''BTC''"
      "m_money ex_market = ''USD''"
    by (simp_all add: ex_taker_def ex_ask_def ex_market_def)
  have "asset_total dec_val s' ''USD'' \<le> asset_total dec_val ex_state ''USD''"
    by (rule limit_bid_fill_conserves [OF ex_engine ask ex_taker_ok(3) _ _ ex])
      (simp_all add: ml u ex_key_amounts amount_val_def dec_eval)
  with ex show ?thesis by blast
qed

section \<open>A fee nobody pays for\<close>

text \<open>
  \<open>market_put_limit_order\<close> checks that the balance covers price times amount, and charges the fee of
  a bid in money as well. The failing \<open>balance_sub\<close> of a later fill is ignored: the engine below
  has one buyer with 100 of the money \<open>B\<close> and two asks of 5 at 10.
\<close>

definition fee_ask :: "u64 \<Rightarrow> dec order" where
  "fee_ask i = \<lparr> o_id = i, o_type = MARKET_ORDER_TYPE_LIMIT, o_side = MARKET_ORDER_SIDE_ASK, o_create_time = 1,
     o_update_time = 1, o_user_id = 1, o_market = ''M'', o_source = None,
     o_price = Dec 10 0, o_amount = Dec 5 0, o_taker_fee = Dec 0 0, o_maker_fee = Dec 0 0,
     o_left = Dec 5 0, o_freeze = Dec 5 0, o_deal_stock = Dec 0 0, o_deal_money = Dec 0 0, o_deal_fee = Dec 0 0 \<rparr>"
definition fee_market :: "dec market" where
  "fee_market = \<lparr> m_name = ''M'', m_stock = ''A'', m_money = ''B'', m_stock_prec = 4, m_money_prec = 4,
     m_fee_prec = 4, m_min_amount = Dec 1 (- 3),
     m_orders = [1 \<mapsto> fee_ask 1, 2 \<mapsto> fee_ask 2], m_users = [1 \<mapsto> [2, 1]], m_asks = [1, 2], m_bids = [] \<rparr>"
definition fee_state :: "dec market_state" where
  "fee_state = \<lparr> dict_asset = [''A'' \<mapsto> \<lparr> prec_save = 8, prec_show = 8 \<rparr>, ''B'' \<mapsto> \<lparr> prec_save = 12, prec_show = 8 \<rparr>],
     dict_balance = [(mk_key 1 BALANCE_TYPE_FREEZE ''A'', Dec 10 0), (mk_key 2 BALANCE_TYPE_AVAILABLE ''B'', Dec 100 0)],
     reports = [], order_id_start = 2, deals_id_start = 0, clock = (\<lambda>n. of_nat n), ticks = 3 \<rparr>"

lemma fee_keys [simp]: "mk_key u t ''A'' = mk_key u' t' ''A'' \<longleftrightarrow> u = u' \<and> t = t'"
 "mk_key u t ''B'' = mk_key u' t' ''B'' \<longleftrightarrow> u = u' \<and> t = t'"
 "mk_key u t ''A'' \<noteq> mk_key u' t' ''B''" "mk_key u t ''B'' \<noteq> mk_key u' t' ''A''"
  by (simp_all add: mk_key_def ASSET_NAME_MAX_LEN_def)
definition fee_taker :: "dec order" where
 "fee_taker = new_order dec_lib fee_market 3 MARKET_ORDER_TYPE_LIMIT MARKET_ORDER_SIDE_BID 3 2 ''x'' (Dec 10 0) (Dec 10 0) (Dec 1 (- 2)) (Dec 1 (- 2))"

lemmas fee_defs = fee_ask_def fee_market_def fee_state_def fee_taker_def new_order_def limit_bid_fill_def Let_def current_timestamp_def
 balance_sub_def balance_add_def balance_set_def get_asset_type_def balance_get_def balance_store_def balance_del_def
 dec_eval dv_put_def dv_delete_def finish_or_update_def order_finish_def order_finish_book_def order_finish_index_def
 sl_remove_def sl_find_def sl_delete_def sl_before_def by_ptr_def order_match_compare_def order_id_compare_def market_consts Let_def



lemmas fee_eval = fee_defs BALANCE_TYPE_AVAILABLE_def BALANCE_TYPE_FREEZE_def

lemma fee_funded:
  "limit_order_funded dec_lib fee_market fee_state 2 MARKET_ORDER_SIDE_BID (Dec 10 0) (Dec 10 0)"
  "\<not> mpd_cmp dec_lib (Dec 10 0) (m_min_amount fee_market) < 0"
  by (simp_all add: limit_order_funded_def fee_eval cong: let_weak_cong)

lemma fee_exec:
  "\<exists>m' t'. execute_limit_bid_order dec_lib False fee_market (fee_state\<lparr>order_id_start := 3, ticks := 4\<rparr>)
     fee_taker (m_asks fee_market) = (m', fee_state\<lparr>order_id_start := 3, deals_id_start := 2, ticks := 6,
       dict_balance := [(mk_key 1 BALANCE_TYPE_AVAILABLE ''B'', Dec 100000000000000 (- 12)),
         (mk_key 2 BALANCE_TYPE_AVAILABLE ''A'', Dec 1000000000 (- 8)),
         (mk_key 2 BALANCE_TYPE_AVAILABLE ''B'', Dec 49000000000000 (- 12))]\<rparr>, t') \<and> o_left t' = Dec 0 0"
  by (simp add: fee_eval cong: let_weak_cong)


text \<open>C32. Money is created: the accepted bid of 10 at 10 with a fee of 1% is filled twice. After the
  first fill the buyer has 49.5 left, the second \<open>balance_sub\<close> of 50 fails and the seller is
  credited all the same. The total of the money grows from 100 to 149.\<close>

theorem limit_bid_fee_creates_money:
  "\<exists>m' s'. market_put_limit_order dec_lib False fee_market fee_state 2 MARKET_ORDER_SIDE_BID (Dec 10 0) (Dec 10 0)
      (Dec 1 (- 2)) (Dec 1 (- 2)) ''x'' = (0, None, m', s')
    \<and> asset_total dec_val fee_state ''B'' = 100 \<and> asset_total dec_val s' ''B'' = 149"
proof -
  obtain m' t' where ex: "execute_limit_bid_order dec_lib False fee_market (fee_state\<lparr>order_id_start := 3, ticks := 4\<rparr>)
     fee_taker (m_asks fee_market) = (m', fee_state\<lparr>order_id_start := 3, deals_id_start := 2, ticks := 6,
       dict_balance := [(mk_key 1 BALANCE_TYPE_AVAILABLE ''B'', Dec 100000000000000 (- 12)),
         (mk_key 2 BALANCE_TYPE_AVAILABLE ''A'', Dec 1000000000 (- 8)),
         (mk_key 2 BALANCE_TYPE_AVAILABLE ''B'', Dec 49000000000000 (- 12))]\<rparr>, t')" and t': "o_left t' = Dec 0 0"
    using fee_exec by blast
  have st: "fee_state\<lparr>order_id_start := order_id_start fee_state + 1, ticks := Suc (ticks fee_state)\<rparr> = fee_state\<lparr>order_id_start := 3, ticks := 4\<rparr>"
     "order_id_start fee_state + 1 = 3" "clock fee_state (ticks fee_state) = 3"
    by (simp_all add: fee_state_def)
  show ?thesis
    using fee_funded ex t' st
    by (simp add: market_put_limit_order_def current_timestamp_def Let_def settle_limit_order_def dec_eval fee_taker_def)
      (simp add: asset_total_def fee_state_def asset_weight_def mk_key_def amount_val_def ASSET_NAME_MAX_LEN_def)
qed

section \<open>Amounts that are not numbers\<close>

text \<open>A correction loop that starts from a NaN never ends.\<close>

lemma market_bid_reduce_nan: "market_bid_reduce dec_lib sp left price NaN = None"
proof (cases "market_bid_reduce dec_lib sp left price NaN")
  case (Some y)
  have "\<not> (dec_lib = dec_lib \<and> NaN = NaN)"
    by (rule market_bid_reduce.raw_induct [where P = "\<lambda>D sp left price amount y. \<not> (D = dec_lib \<and> amount = NaN)", OF _ Some])
      (fastforce simp: Let_def dec_eval)
  then show ?thesis by simp
qed

text \<open>C33. The string \<open>NaN\<close> is accepted as an amount and passes every check of a market bid; the
  matching loop then never returns.\<close>

theorem market_bid_nan_loops:
  "decimal dec_lib ''NaN'' 8 = Some NaN \<and> mpd_cmp dec_lib NaN (mpd_zero dec_lib) > 0 \<and>
   market_order_check dec_lib ex_market ex_state 2 MARKET_ORDER_SIDE_BID NaN = 0 \<and>
   market_put_market_order dec_lib is_real ex_market ex_state 2 MARKET_ORDER_SIDE_BID NaN taker_fee source = None"
proof (intro conjI)
  show "decimal dec_lib ''NaN'' 8 = Some NaN"
    by (simp add: decimal_def dec_eval dec_of_string_def Let_def)
  show "mpd_cmp dec_lib NaN (mpd_zero dec_lib) > 0"
    by (simp add: dec_eval)
  show check: "market_order_check dec_lib ex_market ex_state 2 MARKET_ORDER_SIDE_BID NaN = 0"
    by (simp add: market_order_check_def balance_get_def ex_defs mk_key_def ASSET_NAME_MAX_LEN_def market_consts
        BALANCE_TYPE_AVAILABLE_def BALANCE_TYPE_FREEZE_def dec_eval)
  have "market_bid_amount dec_lib ex_market t ex_ask = None" if "o_left t = NaN" for t
    using that by (simp add: market_bid_amount_def dec_eval market_bid_reduce_nan)
  moreover have "m_asks ex_market = [2]" "m_orders ex_market 2 = Some ex_ask"
    by (simp_all add: ex_market_def)
  ultimately show "market_put_market_order dec_lib is_real ex_market ex_state 2 MARKET_ORDER_SIDE_BID NaN taker_fee source = None"
    by (simp add: market_put_market_order_def check Let_def current_timestamp_def dec_eval)
qed

section \<open>Cancelling\<close>

text \<open>C22. Cancelling an order whose funds are frozen removes it from the market, the books and its
  user's list, and moves what it has frozen, its stock or its money, back to the available balance.\<close>

theorem cancel_returns_funds:
  assumes "market_inv D val m s" "m_orders m i = Some a" "val (o_freeze a) = Some f" "0 < f"
    and asset: "asset = (if o_side a = MARKET_ORDER_SIDE_ASK then m_stock m else m_money m)" "dict_asset s asset = Some aty"
    and "f \<le> key_amount val s (mk_key (o_user_id a) BALANCE_TYPE_FREEZE asset)"
    and "fits (key_amount val s (mk_key (o_user_id a) BALANCE_TYPE_AVAILABLE asset) + f)"
    and "fits (key_amount val s (mk_key (o_user_id a) BALANCE_TYPE_FREEZE asset) - f)"
    and "market_cancel_order D is_real m s a = (ret, result, m', s')"
  shows "ret = 0 \<and> m_orders m' = (m_orders m)(i := None) \<and> i \<notin> set (m_asks m') \<and> i \<notin> set (m_bids m')
    \<and> (\<forall>l. m_users m' (o_user_id a) = Some l \<longrightarrow> i \<notin> set l)
    \<and> key_amount val s' (mk_key (o_user_id a) BALANCE_TYPE_AVAILABLE asset)
        = trunc_dec (nat (prec_save aty)) (key_amount val s (mk_key (o_user_id a) BALANCE_TYPE_AVAILABLE asset) + f)
    \<and> key_amount val s' (mk_key (o_user_id a) BALANCE_TYPE_FREEZE asset)
        = trunc_dec (nat (prec_save aty)) (key_amount val s (mk_key (o_user_id a) BALANCE_TYPE_FREEZE asset) - f)"
proof -
  have ok: "engine_ok D val m s"
    using assms(1) by (simp add: market_inv_def)
  note E = engine_okD [OF ok] and M = engine_ok_maker [OF ok assms(2)]
  let ?u = "o_user_id a"
  let ?A = "mk_key ?u BALANCE_TYPE_AVAILABLE asset" and ?F = "mk_key ?u BALANCE_TYPE_FREEZE asset"
  define s1 where "s1 = (if is_real then push_order_message D ORDER_EVENT_FINISH a (m_stock m) (m_money m) s else s)"
  obtain r where fin: "order_finish D is_real m s1 a = (r, m', s')" and ret: "ret = 0"
    using assms(10) by (auto simp: market_cancel_order_def Let_def s1_def split: prod.splits)
  have core: "same_core s s1"
    by (simp add: s1_def quietD)
  have ok1: "balances_ok val s1" and aty: "dict_asset s1 asset = Some aty"
    and key: "key_amount val s1 = key_amount val s"
    using same_core_ledger(1) [OF core, of D val] same_core_ledger(4) [OF core] E(1,2) asset(2) core
    by (simp_all add: ledger_inv_def same_core_iff)
  have keys: "?A \<noteq> ?F" by simp
  have get: "balance_get s1 ?u BALANCE_TYPE_FREEZE asset \<noteq> None"
  proof -
    have "0 < key_amount val s1 ?F"
      using assms(4,7) key by simp
    then show ?thesis
      by (auto simp: balance_get_def key_amount_def split: option.splits)
  qed
  from balance_shift_pos [OF E(1) ok1 aty assms(3) _ types_distinct(2) get] assms(4,7) key obtain q s2 s3 y z where
    sh: "balance_shift D BALANCE_TYPE_FREEZE BALANCE_TYPE_AVAILABLE ?u asset (o_freeze a) s1 = (Some q, s3)"
    and mv: "moved val s1 ?A z s2" "moved val s2 ?F y s3"
    and cr: "credited (prec_save aty) (key_amount val s1 ?A) f z" and db: "debited (prec_save aty) (key_amount val s1 ?F) f y"
    by auto
  have pos: "mpd_cmp D (o_freeze a) (mpd_zero D) > 0"
    using assms(4) by (simp add: mpd_cmp_val [OF E(1) assms(3) mpd_zero_val [OF E(1)]])
  have rel: "release D m a s1 = (True, s3)"
    using pos sh asset(1) by (simp add: release_def unfreeze_shift)
  then have r: "r = 0" and m': "m' = order_finish_index (order_finish_book D m a) a" and s': "same_core s3 s'"
    using fin by (auto simp: order_finish_release quietD split: if_splits)
  note f = order_finish_ok [OF E(1,5) assms(2) M(1) fin]
  have orders: "m_orders m' = (m_orders m)(i := None)"
    using f(5) r by simp
  have "i \<notin> set (m_asks m')" "i \<notin> set (m_bids m')" "\<forall>l. m_users m' ?u = Some l \<longrightarrow> i \<notin> set l"
    using f(1) orders by (auto simp: market_ok_def book_ok_def users_ok_def)
  moreover have "key_amount val s' ?A = z" "key_amount val s' ?F = y"
    using movedD(4) [OF mv(1)] movedD(4) [OF mv(2)] keys by (simp_all add: same_core_ledger(4) [OF s'])
  ultimately show ?thesis
    using ret orders cr db assms(8,9) key by (simp add: credited_def debited_def)
qed

text \<open>The funds of the bid of \<open>ex_market\<close>.\<close>

theorem cancel_returns_funds_witness:
  "\<exists>result m' s'. market_cancel_order dec_lib True ex_market ex_state ex_bid = (0, result, m', s')
    \<and> m_orders m' = (m_orders ex_market)(1 := None)
    \<and> key_amount dec_val s' (mk_key 2 BALANCE_TYPE_AVAILABLE ''USD'') = 1030"
proof -
  obtain ret result m' s' where ex: "market_cancel_order dec_lib True ex_market ex_state ex_bid = (ret, result, m', s')"
    by (metis surj_pair)
  have u: "o_side ex_bid \<noteq> MARKET_ORDER_SIDE_ASK" "o_user_id ex_bid = 2" "m_money ex_market = ''USD''"
    "m_orders ex_market 1 = Some ex_bid" "dec_val (o_freeze ex_bid) = Some 30"
    "dict_asset ex_state ''USD'' = Some \<lparr> prec_save = 12, prec_show = 8 \<rparr>"
    by (simp_all add: ex_defs)
  have fit: "fits (of_nat n)" if "n < 10 ^ 34" for n
    using that unfolding fits_def by (intro exI [of _ "int n"] exI [of _ 0]) simp
  have fits: "fits 1030"
    using fit [of 1030] by simp
  have "ret = 0 \<and> m_orders m' = (m_orders ex_market)(1 := None) \<and> 1 \<notin> set (m_asks m') \<and> 1 \<notin> set (m_bids m')
    \<and> (\<forall>l. m_users m' (o_user_id ex_bid) = Some l \<longrightarrow> 1 \<notin> set l)
    \<and> key_amount dec_val s' (mk_key (o_user_id ex_bid) BALANCE_TYPE_AVAILABLE ''USD'') = trunc_dec 12 1030
    \<and> key_amount dec_val s' (mk_key (o_user_id ex_bid) BALANCE_TYPE_FREEZE ''USD'') = trunc_dec 12 0"
    using cancel_returns_funds [OF ex_inv u(4,5) _ _ u(6) _ _ _ ex] u(1-3) fits by (simp add: ex_key_amounts)
  with ex u(2) show ?thesis
    by (simp add: trunc_dec_grid)
qed

section \<open>Replaying\<close>

text \<open>Replaying a limit order without reports does to the market, the ledger and the counters
  exactly what it did when it was accepted, and answers the same.\<close>

theorem replay_limit_order:
  assumes "same_core s t"
    and "market_put_limit_order D True m s user_id side amount price taker_fee maker_fee source = (r1, j1, m1, s1)"
    and "market_put_limit_order D False m t user_id side amount price taker_fee maker_fee source = (r2, j2, m2, t1)"
  shows "r1 = r2 \<and> m1 = m2 \<and> same_core s1 t1"
  by (rule market_put_limit_order_core [OF assms])

theorem replay_limit_order_witness:
  "\<exists>r j1 j2 m1 s1 t1. market_put_limit_order dec_lib True ex_market ex_state 1 MARKET_ORDER_SIDE_ASK (Dec 4 0) (Dec 9 0)
      (Dec 2 (- 3)) (Dec 1 (- 3)) ''api'' = (r, j1, m1, s1)
    \<and> market_put_limit_order dec_lib False ex_market ex_state 1 MARKET_ORDER_SIDE_ASK (Dec 4 0) (Dec 9 0)
      (Dec 2 (- 3)) (Dec 1 (- 3)) ''api'' = (r, j2, m1, t1) \<and> same_core s1 t1"
proof -
  let ?p = "\<lambda>r. market_put_limit_order dec_lib r ex_market ex_state 1 MARKET_ORDER_SIDE_ASK (Dec 4 0) (Dec 9 0)
      (Dec 2 (- 3)) (Dec 1 (- 3)) ''api''"
  obtain r1 j1 m1 s1 where p1: "?p True = (r1, j1, m1, s1)"
    by (metis surj_pair)
  obtain r2 j2 m2 t1 where p2: "?p False = (r2, j2, m2, t1)"
    by (metis surj_pair)
  from replay_limit_order [OF same_core_refl p1 p2] p1 p2 show ?thesis by blast
qed

text \<open>Replaying a market order agrees as well, and loops only if the order looped.\<close>

theorem replay_market_order:
  assumes "same_core s t"
  shows "case (market_put_market_order D True m s user_id side amount taker_fee source,
               market_put_market_order D False m t user_id side amount taker_fee source) of
      (Some (r1, j1, m1, s1), Some (r2, j2, m2, t1)) \<Rightarrow> r1 = r2 \<and> m1 = m2 \<and> same_core s1 t1
    | (None, None) \<Rightarrow> True | _ \<Rightarrow> False"
  using market_put_market_order_core [OF assms, of D True m user_id side amount taker_fee source False]
  by (cases "market_put_market_order D True m s user_id side amount taker_fee source";
      cases "market_put_market_order D False m t user_id side amount taker_fee source") auto

theorem replay_market_order_witness:
  "case (market_put_market_order dec_lib True ex_market ex_state 1 MARKET_ORDER_SIDE_ASK (Dec 1 0) (Dec 2 (- 3)) ''api'',
         market_put_market_order dec_lib False ex_market ex_state 1 MARKET_ORDER_SIDE_ASK (Dec 1 0) (Dec 2 (- 3)) ''api'') of
      (Some (r1, j1, m1, s1), Some (r2, j2, m2, t1)) \<Rightarrow> r1 = r2 \<and> m1 = m2 \<and> same_core s1 t1
    | (None, None) \<Rightarrow> True | _ \<Rightarrow> False"
  by (rule replay_market_order) simp

end
