(* ===== verification/Pack.thy ===== *)
theory Pack
  imports Prelude
begin

text \<open>
  \<open>utils/ut_pack.c\<close>: numbers and strings in a byte buffer. A buffer being written is the bytes
  written so far and the room that is left; a buffer being read is its remaining bytes, as many
  as the \<open>left\<close> of the code says. A function that returns -1 is \<open>None\<close>; the number of bytes a
  successful call returns is its first result.
\<close>

unbundle bit_operations_syntax

type_synonym byte = "8 word"
type_synonym pack_buf = "byte list \<times> nat"

section \<open>Little-endian words\<close>

fun le_bytes :: "nat \<Rightarrow> 'a::len word \<Rightarrow> byte list" where
  "le_bytes 0 w = []"
| "le_bytes (Suc n) w = ucast w # le_bytes n (drop_bit 8 w)"

fun le_word :: "byte list \<Rightarrow> 'a::len word" where
  "le_word [] = 0"
| "le_word (b # bs) = push_bit 8 (le_word bs) OR ucast b"

lemma length_le_bytes [simp]: "length (le_bytes n w) = n"
  by (induction n arbitrary: w) auto

lemma le_word_bytes_take: "le_word (le_bytes n w) = take_bit (8 * n) (w :: 'a::len word)"
proof (induction n arbitrary: w)
  case 0
  then show ?case by simp
next
  case (Suc n)
  show ?case
    unfolding le_bytes.simps le_word.simps Suc
    by (rule bit_word_eqI) (auto simp: bit_simps)
qed

lemma le_word_bytes [simp]: "LENGTH('a) \<le> 8 * n \<Longrightarrow> le_word (le_bytes n w) = (w :: 'a::len word)"
  by (simp add: le_word_bytes_take take_bit_word_eq_self)

section \<open>Fixed-size numbers, characters and buffers\<close>

definition put_bytes :: "byte list \<Rightarrow> pack_buf \<Rightarrow> (int \<times> pack_buf) option" where
  "put_bytes bs = (\<lambda>(out, left). Some (int (length bs), out @ bs, left - length bs))"

text \<open>The two-byte functions ask for four bytes of room.\<close>

definition pack_uint16_le :: "16 word \<Rightarrow> pack_buf \<Rightarrow> (int \<times> pack_buf) option" where
  "pack_uint16_le num = (\<lambda>(out, left). if left < 4 then None else put_bytes (le_bytes 2 num) (out, left))"

definition unpack_uint16_le :: "byte list \<Rightarrow> (int \<times> 16 word \<times> byte list) option" where
  "unpack_uint16_le src = (if length src < 4 then None else Some (2, le_word (take 2 src), drop 2 src))"

definition pack_uint32_le :: "u32 \<Rightarrow> pack_buf \<Rightarrow> (int \<times> pack_buf) option" where
  "pack_uint32_le num = (\<lambda>(out, left). if left < 4 then None else put_bytes (le_bytes 4 num) (out, left))"

definition unpack_uint32_le :: "byte list \<Rightarrow> (int \<times> u32 \<times> byte list) option" where
  "unpack_uint32_le src = (if length src < 4 then None else Some (4, le_word (take 4 src), drop 4 src))"

definition pack_uint64_le :: "u64 \<Rightarrow> pack_buf \<Rightarrow> (int \<times> pack_buf) option" where
  "pack_uint64_le num = (\<lambda>(out, left). if left < 8 then None else put_bytes (le_bytes 8 num) (out, left))"

definition unpack_uint64_le :: "byte list \<Rightarrow> (int \<times> u64 \<times> byte list) option" where
  "unpack_uint64_le src = (if length src < 8 then None else Some (8, le_word (take 8 src), drop 8 src))"

definition pack_char :: "byte \<Rightarrow> pack_buf \<Rightarrow> (int \<times> pack_buf) option" where
  "pack_char c = (\<lambda>(out, left). if left < 1 then None else put_bytes [c] (out, left))"

definition unpack_char :: "byte list \<Rightarrow> (int \<times> byte \<times> byte list) option" where
  "unpack_char src = (case src of [] \<Rightarrow> None | c # rest \<Rightarrow> Some (1, c, rest))"

definition pack_buf_bytes :: "byte list \<Rightarrow> pack_buf \<Rightarrow> (int \<times> pack_buf) option" where
  "pack_buf_bytes data = (\<lambda>(out, left). if left < length data then None else put_bytes data (out, left))"

definition unpack_buf_bytes :: "nat \<Rightarrow> byte list \<Rightarrow> (int \<times> byte list \<times> byte list) option" where
  "unpack_buf_bytes len src = (if length src < len then None else Some (int len, take len src, drop len src))"

section \<open>Numbers of variable size\<close>

definition pack_varint_le :: "u64 \<Rightarrow> pack_buf \<Rightarrow> (int \<times> pack_buf) option" where
  "pack_varint_le num = (\<lambda>(out, left).
     if num < 0xfd then
       (if left < 1 then None else put_bytes [ucast num] (out, left))
     else if num < 0xffff then
       (if left < 3 then None else put_bytes (0xfd # le_bytes 2 (ucast num :: 16 word)) (out, left))
     else if num < 0xffffffff then
       (if left < 5 then None else put_bytes (0xfe # le_bytes 4 (ucast num :: u32)) (out, left))
     else
       (if left < 9 then None else put_bytes (0xff # le_bytes 8 num) (out, left)))"

definition unpack_varint_le :: "byte list \<Rightarrow> (int \<times> u64 \<times> byte list) option" where
  "unpack_varint_le src =
     (case src of
        [] \<Rightarrow> None
      | mark # _ \<Rightarrow>
          if mark < 0xfd then Some (1, ucast mark, drop 1 src)
          else if mark = 0xfd then
            (if length src < 3 then None
             else Some (3, ucast (le_word (take 2 (drop 1 src)) :: 16 word), drop 3 src))
          else if mark = 0xfe then
            (if length src < 5 then None
             else Some (5, ucast (le_word (take 4 (drop 1 src)) :: u32), drop 5 src))
          else
            (if length src < 9 then None
             else Some (9, le_word (take 8 (drop 1 src)), drop 9 src)))"

definition pack_varstr :: "byte list \<Rightarrow> pack_buf \<Rightarrow> (int \<times> pack_buf) option" where
  "pack_varstr str dest =
     (case pack_varint_le (of_nat (length str)) dest of
        None \<Rightarrow> None
      | Some (ret, out, left) \<Rightarrow>
          if left < length str then None
          else Some (ret + int (length str), out @ str, left - length str))"

definition unpack_varstr :: "byte list \<Rightarrow> (int \<times> byte list \<times> byte list) option" where
  "unpack_varstr src =
     (case unpack_varint_le src of
        None \<Rightarrow> None
      | Some (ret, len, src) \<Rightarrow>
          if length src < unat len then None
          else Some (ret + int (unat len), take (unat len) src, drop (unat len) src))"

section \<open>Script pushes\<close>

definition pack_oppush :: "byte list \<Rightarrow> pack_buf \<Rightarrow> (int \<times> pack_buf) option" where
  "pack_oppush data = (\<lambda>(out, left).
     let len = length data in
     if len \<le> 0x4b then
       (if left < 1 + len then None else put_bytes (of_nat len # data) (out, left))
     else if len \<le> 0xff then
       (if left < 2 + len then None else put_bytes (0x4c # of_nat len # data) (out, left))
     else if len \<le> 0xffff then
       (if left < 3 + len then None else put_bytes (0x4d # le_bytes 2 (of_nat len :: 16 word) @ data) (out, left))
     else if len \<le> 0xffffffff then
       (if left < 5 + len then None else put_bytes (0x4e # le_bytes 4 (of_nat len :: u32) @ data) (out, left))
     else None)"

text \<open>The length that an opcode announces, and what follows it.\<close>

definition oppush_len :: "byte list \<Rightarrow> (nat \<times> byte list) option" where
  "oppush_len src =
     (case unpack_char src of
        None \<Rightarrow> None
      | Some (_, op, src) \<Rightarrow>
          if op \<le> 0x4b then Some (unat op, src)
          else if op = 0x4c then
            (case unpack_char src of None \<Rightarrow> None | Some (_, data_len, src) \<Rightarrow> Some (unat data_len, src))
          else if op = 0x4d then
            (case unpack_uint16_le src of None \<Rightarrow> None | Some (_, data_len, src) \<Rightarrow> Some (unat data_len, src))
          else if op = 0x4e then
            (case unpack_uint32_le src of None \<Rightarrow> None | Some (_, data_len, src) \<Rightarrow> Some (unat data_len, src))
          else None)"

text \<open>\<open>room\<close> is the space in the destination.\<close>

definition unpack_oppush :: "nat \<Rightarrow> byte list \<Rightarrow> (int \<times> byte list \<times> byte list) option" where
  "unpack_oppush room src =
     (case oppush_len src of
        None \<Rightarrow> None
      | Some (len, rest) \<Rightarrow>
          if length rest < len \<or> room < len then None
          else Some (int (length src - (length rest - len)), take len rest, drop len rest))"

section \<open>Reading back what was written\<close>

text \<open>A writer appends to the buffer and uses up as much room as it says.\<close>

lemma put_bytes_simp [simp]: "put_bytes bs (out, left) = Some (int (length bs), out @ bs, left - length bs)"
  by (simp add: put_bytes_def)

lemma ucast_ucast_small:
  fixes num :: "'a::len word"
  assumes "unat num < 2 ^ LENGTH('b::len)"
  shows "ucast (ucast num :: 'b word) = num"
proof -
  have "(ucast (ucast num :: 'b word) :: 'a word) = take_bit LENGTH('b) num"
    by (rule bit_word_eqI) (auto simp: bit_simps)
  also have "\<dots> = num"
    using assms by (simp add: word_unat_eq_iff unsigned_take_bit_eq take_bit_nat_eq_self)
  finally show ?thesis .
qed

lemma unpack_pack_varint:
  assumes "pack_varint_le num (out, left) = Some (ret, out', left')"
  shows "\<exists>bs. out' = out @ bs \<and> ret = int (length bs) \<and> left = left' + length bs \<and> bs \<noteq> [] \<and>
    (\<forall>rest. unpack_varint_le (bs @ rest) = Some (ret, num, rest))"
proof -
  consider "num < 0xfd" | "\<not> num < 0xfd" "num < 0xffff" | "\<not> num < 0xffff" "num < 0xffffffff"
    | "\<not> num < 0xffffffff"
    by blast
  then show ?thesis
  proof cases
    case 1
    have small: "unat num < 0xfd"
      using 1 by (simp add: word_less_nat_alt)
    then have "ucast (ucast num :: byte) = num"
      by (intro ucast_ucast_small) simp
    moreover from small have "(ucast num :: byte) < 0xfd"
      by (simp add: word_less_nat_alt unsigned_ucast_eq take_bit_nat_eq_self)
    ultimately show ?thesis
      using 1 assms by (auto simp: pack_varint_le_def unpack_varint_le_def split: if_splits)
  next
    case 2
    have "ucast (ucast num :: 16 word) = num"
      using 2 by (intro ucast_ucast_small) (simp add: word_less_nat_alt)
    moreover have "pack_varint_le num (out, left)
        = (if left < 3 then None else put_bytes (0xfd # le_bytes 2 (ucast num :: 16 word)) (out, left))"
      using 2 by (simp add: pack_varint_le_def)
    ultimately show ?thesis
      using assms by (auto simp: unpack_varint_le_def split: if_splits)
  next
    case 3
    have "ucast (ucast num :: u32) = num"
      using 3 by (intro ucast_ucast_small) (simp add: word_less_nat_alt)
    moreover have "pack_varint_le num (out, left)
        = (if left < 5 then None else put_bytes (0xfe # le_bytes 4 (ucast num :: u32)) (out, left))"
      using 3 by (auto simp: pack_varint_le_def word_less_nat_alt)
    ultimately show ?thesis
      using assms by (auto simp: unpack_varint_le_def split: if_splits)
  next
    case 4
    then have "pack_varint_le num (out, left)
        = (if left < 9 then None else put_bytes (0xff # le_bytes 8 num) (out, left))"
      by (auto simp: pack_varint_le_def word_less_nat_alt)
    then show ?thesis
      using assms by (auto simp: unpack_varint_le_def split: if_splits)
  qed
qed

lemma unpack_pack_varstr:
  assumes "pack_varstr str (out, left) = Some (ret, out', left')" "length str < 2 ^ 64"
  shows "\<exists>bs. out' = out @ bs \<and> ret = int (length bs) \<and> left = left' + length bs \<and>
    (\<forall>rest. unpack_varstr (bs @ rest) = Some (ret, str, rest))"
proof -
  from assms(1) obtain r out1 left1 where v: "pack_varint_le (of_nat (length str)) (out, left) = Some (r, out1, left1)"
    and fits: "length str \<le> left1" and out': "out' = out1 @ str" "ret = r + int (length str)" "left' = left1 - length str"
    by (auto simp: pack_varstr_def split: option.splits if_splits)
  from unpack_pack_varint [OF v] obtain bs where bs: "out1 = out @ bs" "r = int (length bs)" "left = left1 + length bs"
    "\<And>rest. unpack_varint_le (bs @ rest) = Some (r, of_nat (length str), rest)"
    by auto
  have "unat (of_nat (length str) :: u64) = length str"
    using assms(2) by (simp add: unat_of_nat take_bit_nat_eq_self)
  with bs fits out' show ?thesis
    by (intro exI [of _ "bs @ str"]) (simp add: unpack_varstr_def)
qed

end
