(* ===== verification/Text.thy ===== *)
theory Text
  imports Json "HOL-Library.List_Lexorder"
begin

text \<open>
  Text the engine writes: \<open>printf\<close> conversions, and the libraries that turn JSON values and SQL
  strings into text. jansson and the MySQL client are not part of the repository: what the code
  calls is a record that the definitions take as an argument.
\<close>

section \<open>\<open>printf\<close>\<close>

text \<open>\<open>%0wd\<close> on a number that is not negative.\<close>

definition pad_digits :: "nat \<Rightarrow> nat \<Rightarrow> string" where
  "pad_digits w n = (let ds = nat_digits n in replicate (w - length ds) (CHR ''0'') @ ds)"

text \<open>\<open>%f\<close>: six decimals, the nearest of them, ties to the even one.\<close>

definition round_half_even :: "rat \<Rightarrow> int" where
  "round_half_even x =
     (let n = \<lfloor>x\<rfloor>; d = x - of_int n in
      if d < 1 / 2 \<or> d = 1 / 2 \<and> even n then n else n + 1)"

definition printf_f :: "rat \<Rightarrow> string" where
  "printf_f x =
     (let n = nat (round_half_even (\<bar>x\<bar> * 1000000)) in
      (if x < 0 then ''-'' else []) @ nat_digits (n div 1000000) @ ''.'' @ pad_digits 6 (n mod 1000000))"

lemma pad_digits_small [simp]: "length (nat_digits n) = w \<Longrightarrow> pad_digits w n = nat_digits n"
  by (simp add: pad_digits_def)

lemma digits_value_zeros: "digits_value 0 (replicate k (CHR ''0'') @ ds) = digits_value 0 ds"
  by (induction k) (simp_all add: digit_value_def Let_def)

lemma pad_digits_value: "digits_value 0 (pad_digits w n) = Some n"
  by (simp add: pad_digits_def digits_value_zeros digits_value_digits Let_def)

lemma pad_digits_inj: "pad_digits w m = pad_digits w' n \<Longrightarrow> m = n"
  by (metis option.inject pad_digits_value)

section \<open>Libraries that write text\<close>

text \<open>
  \<open>json_dumps\<close> gives \<open>NULL\<close> when it fails; the flags the code uses are none, \<open>JSON_INDENT(4)\<close> and
  \<open>JSON_SORT_KEYS\<close>. \<open>json_loadb\<close> gives \<open>NULL\<close> for a text that is no JSON array or object.
  \<open>mysql_escape\<close> is what \<open>mysql_real_escape_string\<close> writes.
\<close>

record text_lib =
  json_dumps :: "json \<Rightarrow> string option"
  json_dumps_indent :: "json \<Rightarrow> string option"
  json_dumps_sorted :: "json \<Rightarrow> string option"
  json_loadb :: "string \<Rightarrow> json option"
  mysql_escape :: "string \<Rightarrow> string"

text \<open>
  What sorting the keys does to a value: the objects in it have their members in the order of
  their keys.
\<close>

fun json_sort :: "json \<Rightarrow> json" where
  "json_sort (JObject kvs) = JObject (sort_key (\<lambda>(k, v). map of_char k :: nat list) (map (\<lambda>(k, v). (k, json_sort v)) kvs))"
| "json_sort (JArray xs) = JArray (map json_sort xs)"
| "json_sort j = j"

text \<open>
  \<open>mysql_real_escape_string\<close> into a buffer of \<open>room\<close> bytes: it writes the escaped text and a null byte and is not told the
  size. \<open>None\<close>: it writes behind the end of the buffer.
\<close>

definition escape_into :: "text_lib \<Rightarrow> nat \<Rightarrow> string \<Rightarrow> string option" where
  "escape_into J room str = (let buf = mysql_escape J str in if length buf < room then Some buf else None)"

section \<open>Local time\<close>

text \<open>
  \<open>localtime\<close> and \<open>mktime\<close> of the C library: the date (year, month, day) of a time, and the time of
  the start of a date. Times are seconds.
\<close>

record time_lib =
  localtime :: "int \<Rightarrow> nat \<times> nat \<times> nat"
  mktime :: "nat \<times> nat \<times> nat \<Rightarrow> int"

end
