(* ===== verification/Rpc.thy ===== *)
theory Rpc
  imports Pack Text
begin

text \<open>
  The packets of the internal protocol: \<open>utils/ut_crc32.c\<close>, \<open>utils/ut_rpc.c\<close> and the receiving side
  of \<open>utils/ut_rpc_svr.c\<close>. Buffers are lists of bytes.
\<close>

section \<open>The checksum\<close>

definition crc_c :: "u32 list" where
  "crc_c = [
    0x00000000, 0x77073096, 0xee0e612c, 0x990951ba, 0x076dc419, 0x706af48f,
    0xe963a535, 0x9e6495a3, 0x0edb8832, 0x79dcb8a4, 0xe0d5e91e, 0x97d2d988,
    0x09b64c2b, 0x7eb17cbd, 0xe7b82d07, 0x90bf1d91, 0x1db71064, 0x6ab020f2,
    0xf3b97148, 0x84be41de, 0x1adad47d, 0x6ddde4eb, 0xf4d4b551, 0x83d385c7,
    0x136c9856, 0x646ba8c0, 0xfd62f97a, 0x8a65c9ec, 0x14015c4f, 0x63066cd9,
    0xfa0f3d63, 0x8d080df5, 0x3b6e20c8, 0x4c69105e, 0xd56041e4, 0xa2677172,
    0x3c03e4d1, 0x4b04d447, 0xd20d85fd, 0xa50ab56b, 0x35b5a8fa, 0x42b2986c,
    0xdbbbc9d6, 0xacbcf940, 0x32d86ce3, 0x45df5c75, 0xdcd60dcf, 0xabd13d59,
    0x26d930ac, 0x51de003a, 0xc8d75180, 0xbfd06116, 0x21b4f4b5, 0x56b3c423,
    0xcfba9599, 0xb8bda50f, 0x2802b89e, 0x5f058808, 0xc60cd9b2, 0xb10be924,
    0x2f6f7c87, 0x58684c11, 0xc1611dab, 0xb6662d3d, 0x76dc4190, 0x01db7106,
    0x98d220bc, 0xefd5102a, 0x71b18589, 0x06b6b51f, 0x9fbfe4a5, 0xe8b8d433,
    0x7807c9a2, 0x0f00f934, 0x9609a88e, 0xe10e9818, 0x7f6a0dbb, 0x086d3d2d,
    0x91646c97, 0xe6635c01, 0x6b6b51f4, 0x1c6c6162, 0x856530d8, 0xf262004e,
    0x6c0695ed, 0x1b01a57b, 0x8208f4c1, 0xf50fc457, 0x65b0d9c6, 0x12b7e950,
    0x8bbeb8ea, 0xfcb9887c, 0x62dd1ddf, 0x15da2d49, 0x8cd37cf3, 0xfbd44c65,
    0x4db26158, 0x3ab551ce, 0xa3bc0074, 0xd4bb30e2, 0x4adfa541, 0x3dd895d7,
    0xa4d1c46d, 0xd3d6f4fb, 0x4369e96a, 0x346ed9fc, 0xad678846, 0xda60b8d0,
    0x44042d73, 0x33031de5, 0xaa0a4c5f, 0xdd0d7cc9, 0x5005713c, 0x270241aa,
    0xbe0b1010, 0xc90c2086, 0x5768b525, 0x206f85b3, 0xb966d409, 0xce61e49f,
    0x5edef90e, 0x29d9c998, 0xb0d09822, 0xc7d7a8b4, 0x59b33d17, 0x2eb40d81,
    0xb7bd5c3b, 0xc0ba6cad, 0xedb88320, 0x9abfb3b6, 0x03b6e20c, 0x74b1d29a,
    0xead54739, 0x9dd277af, 0x04db2615, 0x73dc1683, 0xe3630b12, 0x94643b84,
    0x0d6d6a3e, 0x7a6a5aa8, 0xe40ecf0b, 0x9309ff9d, 0x0a00ae27, 0x7d079eb1,
    0xf00f9344, 0x8708a3d2, 0x1e01f268, 0x6906c2fe, 0xf762575d, 0x806567cb,
    0x196c3671, 0x6e6b06e7, 0xfed41b76, 0x89d32be0, 0x10da7a5a, 0x67dd4acc,
    0xf9b9df6f, 0x8ebeeff9, 0x17b7be43, 0x60b08ed5, 0xd6d6a3e8, 0xa1d1937e,
    0x38d8c2c4, 0x4fdff252, 0xd1bb67f1, 0xa6bc5767, 0x3fb506dd, 0x48b2364b,
    0xd80d2bda, 0xaf0a1b4c, 0x36034af6, 0x41047a60, 0xdf60efc3, 0xa867df55,
    0x316e8eef, 0x4669be79, 0xcb61b38c, 0xbc66831a, 0x256fd2a0, 0x5268e236,
    0xcc0c7795, 0xbb0b4703, 0x220216b9, 0x5505262f, 0xc5ba3bbe, 0xb2bd0b28,
    0x2bb45a92, 0x5cb36a04, 0xc2d7ffa7, 0xb5d0cf31, 0x2cd99e8b, 0x5bdeae1d,
    0x9b64c2b0, 0xec63f226, 0x756aa39c, 0x026d930a, 0x9c0906a9, 0xeb0e363f,
    0x72076785, 0x05005713, 0x95bf4a82, 0xe2b87a14, 0x7bb12bae, 0x0cb61b38,
    0x92d28e9b, 0xe5d5be0d, 0x7cdcefb7, 0x0bdbdf21, 0x86d3d2d4, 0xf1d4e242,
    0x68ddb3f8, 0x1fda836e, 0x81be16cd, 0xf6b9265b, 0x6fb077e1, 0x18b74777,
    0x88085ae6, 0xff0f6a70, 0x66063bca, 0x11010b5c, 0x8f659eff, 0xf862ae69,
    0x616bffd3, 0x166ccf45, 0xa00ae278, 0xd70dd2ee, 0x4e048354, 0x3903b3c2,
    0xa7672661, 0xd06016f7, 0x4969474d, 0x3e6e77db, 0xaed16a4a, 0xd9d65adc,
    0x40df0b66, 0x37d83bf0, 0xa9bcae53, 0xdebb9ec5, 0x47b2cf7f, 0x30b5ffe9,
    0xbdbdf21c, 0xcabac28a, 0x53b39330, 0x24b4a3a6, 0xbad03605, 0xcdd70693,
    0x54de5729, 0x23d967bf, 0xb3667a2e, 0xc4614ab8, 0x5d681b02, 0x2a6f2b94,
    0xb40bbe37, 0xc30c8ea1, 0x5a05df1b, 0x2d02ef8d]"

definition CRC32C :: "u32 \<Rightarrow> byte \<Rightarrow> u32" where
  "CRC32C c d = drop_bit 8 c XOR crc_c ! unat ((c XOR ucast d) AND 0xFF)"

definition generate_crc32c :: "byte list \<Rightarrow> u32" where
  "generate_crc32c buffer = NOT (foldl CRC32C (NOT 0) buffer)"

section \<open>Packets\<close>

definition RPC_PKG_MAGIC :: u32 where "RPC_PKG_MAGIC = 0x70656562"
definition RPC_PKG_TYPE_REQUEST :: "16 word" where "RPC_PKG_TYPE_REQUEST = 0"
definition RPC_PKG_TYPE_REPLY :: "16 word" where "RPC_PKG_TYPE_REPLY = 1"
definition RPC_PKG_TYPE_PUSH :: "16 word" where "RPC_PKG_TYPE_PUSH = 2"

text \<open>
  The structure is packed: its head has 36 bytes, followed by the two pointers of 8 bytes each
  that do not travel.
\<close>

definition RPC_PKG_HEAD_SIZE :: nat where
  "RPC_PKG_HEAD_SIZE = 36"

definition RPC_PKG_MAX_BODY_SIZE :: nat where
  "RPC_PKG_MAX_BODY_SIZE = (2 ^ 32 - 1) div 2 - 65535 - (36 + 16)"

text \<open>\<open>rp_ext\<close> and \<open>rp_body\<close> are the bytes from the two pointers on, at least as many as the sizes say.\<close>

record rpc_pkg =
  rp_magic :: u32
  rp_command :: u32
  rp_pkg_type :: "16 word"
  rp_result :: u32
  rp_crc32 :: u32
  rp_sequence :: u32
  rp_req_id :: u64
  rp_body_size :: u32
  rp_ext_size :: "16 word"
  rp_ext :: "byte list"
  rp_body :: "byte list"

text \<open>The head as it is in memory on a little-endian machine, and the fields read from there.\<close>

definition head_bytes :: "rpc_pkg \<Rightarrow> byte list" where
  "head_bytes pkg =
     le_bytes 4 (rp_magic pkg) @ le_bytes 4 (rp_command pkg) @ le_bytes 2 (rp_pkg_type pkg)
     @ le_bytes 4 (rp_result pkg) @ le_bytes 4 (rp_crc32 pkg) @ le_bytes 4 (rp_sequence pkg)
     @ le_bytes 8 (rp_req_id pkg) @ le_bytes 4 (rp_body_size pkg) @ le_bytes 2 (rp_ext_size pkg)"

definition read_head :: "byte list \<Rightarrow> rpc_pkg" where
  "read_head data =
     \<lparr> rp_magic = le_word (take 4 data), rp_command = le_word (take 4 (drop 4 data)),
       rp_pkg_type = le_word (take 2 (drop 8 data)), rp_result = le_word (take 4 (drop 10 data)),
       rp_crc32 = le_word (take 4 (drop 14 data)), rp_sequence = le_word (take 4 (drop 18 data)),
       rp_req_id = le_word (take 8 (drop 22 data)), rp_body_size = le_word (take 4 (drop 30 data)),
       rp_ext_size = le_word (take 2 (drop 34 data)), rp_ext = [], rp_body = [] \<rparr>"

text \<open>The packet with the four bytes of its checksum cleared.\<close>

definition clear_crc :: "byte list \<Rightarrow> byte list" where
  "clear_crc data = take 14 data @ [0, 0, 0, 0] @ drop 18 data"

text \<open>
  \<open>rpc_decode\<close>: 0 when more bytes are needed, negative when the packet is refused, else its size.
  The size is computed in 32 bits and returned as an \<open>int\<close>.
\<close>

definition rpc_decode :: "byte list \<Rightarrow> int" where
  "rpc_decode data =
     (if length data < RPC_PKG_HEAD_SIZE then 0
      else
        let pkg = read_head data in
        if rp_magic pkg \<noteq> RPC_PKG_MAGIC then - 1
        else
          let pkg_size = of_nat RPC_PKG_HEAD_SIZE + ucast (rp_ext_size pkg) + rp_body_size pkg :: u32 in
          if length data < unat pkg_size then 0
          else if rp_crc32 pkg \<noteq> generate_crc32c (take (unat pkg_size) (clear_crc data)) then - 3
          else sint pkg_size)"

text \<open>\<open>rpc_pack\<close>: \<open>None\<close> for -1.\<close>

definition rpc_pack :: "rpc_pkg \<Rightarrow> byte list option" where
  "rpc_pack pkg =
     (if unat (rp_body_size pkg) > RPC_PKG_MAX_BODY_SIZE then None
      else
        let payload = take (unat (rp_ext_size pkg)) (rp_ext pkg) @ take (unat (rp_body_size pkg)) (rp_body pkg);
            pkg = pkg\<lparr>rp_magic := RPC_PKG_MAGIC, rp_crc32 := 0\<rparr>;
            crc = generate_crc32c (head_bytes pkg @ payload) in
        Some (head_bytes (pkg\<lparr>rp_crc32 := crc\<rparr>) @ payload))"

text \<open>
  \<open>on_recv_pkg\<close> of the server: the packet the handler sees. Its two pointers lead into the read
  buffer; \<open>data\<close> is the buffer from the packet on.
\<close>

definition recv_pkg :: "byte list \<Rightarrow> rpc_pkg" where
  "recv_pkg data =
     (let pkg = read_head data in
      pkg\<lparr>rp_ext := drop RPC_PKG_HEAD_SIZE data,
          rp_body := drop (RPC_PKG_HEAD_SIZE + unat (rp_ext_size pkg)) data\<rparr>)"

section \<open>Heartbeats\<close>

definition RPC_HEARTBEAT_TIMEOUT_MIN :: rat where "RPC_HEARTBEAT_TIMEOUT_MIN = 2"
definition RPC_HEARTBEAT_TIMEOUT_MAX :: rat where "RPC_HEARTBEAT_TIMEOUT_MAX = 600"
definition RPC_HEARTBEAT_TIMEOUT_DEFAULT :: rat where "RPC_HEARTBEAT_TIMEOUT_DEFAULT = 3"

record clt_info =
  last_heartbeat :: timestamp
  heartbeat_timeout :: rat

definition set_timeout :: "u32 \<Rightarrow> clt_info \<Rightarrow> clt_info" where
  "set_timeout ms info =
     (let timeout = rat_of_nat (unat ms) / 1000;
          timeout = (if timeout > RPC_HEARTBEAT_TIMEOUT_MAX then RPC_HEARTBEAT_TIMEOUT_MAX
                     else if timeout < RPC_HEARTBEAT_TIMEOUT_MIN then RPC_HEARTBEAT_TIMEOUT_MIN
                     else timeout) in
      if heartbeat_timeout info \<noteq> timeout then info\<lparr>heartbeat_timeout := timeout\<rparr> else info)"

text \<open>The loop over the items of a heartbeat's body; what an earlier item set stays set on an error.\<close>

function heartbeat_items :: "byte list \<Rightarrow> clt_info \<Rightarrow> int \<times> clt_info" where
  "heartbeat_items p info =
     (if p = [] then (0, info)
      else case unpack_uint16_le p of
        None \<Rightarrow> (- 44, info)
      | Some (_, type, p1) \<Rightarrow>
          (case unpack_uint16_le p1 of
             None \<Rightarrow> (- 45, info)
           | Some (_, len, p2) \<Rightarrow>
               if length p2 < unat len then (- 47, info)
               else if type = 1 \<and> unat len \<noteq> 4 then (- 53, info)
               else
                 let info = (if type = 1 then set_timeout (le_word (take 4 p2)) info else info) in
                 heartbeat_items (drop (unat len) p2) info))"
  by pat_completeness auto

termination
  by (relation "measure (\<lambda>(p, info). length p)") (auto simp: unpack_uint16_le_def split: if_splits)

definition on_heartbeat :: "timestamp \<Rightarrow> rpc_pkg \<Rightarrow> clt_info \<Rightarrow> int \<times> clt_info \<times> rpc_pkg option" where
  "on_heartbeat now pkg info =
     (let info = info\<lparr>last_heartbeat := now\<rparr>;
          (ret, info) = heartbeat_items (take (unat (rp_body_size pkg)) (rp_body pkg)) info in
      if ret < 0 then (ret, info, None)
      else (0, info, Some (pkg\<lparr>rp_pkg_type := RPC_PKG_TYPE_REPLY, rp_body_size := 0\<rparr>)))"

text \<open>\<open>on_timer\<close>: the clients whose last heartbeat is too old are closed.\<close>

definition rpc_svr_on_timer :: "timestamp \<Rightarrow> ('c \<times> clt_info) list \<Rightarrow> ('c \<times> clt_info) list" where
  "rpc_svr_on_timer now clts =
     filter (\<lambda>(_, info). \<not> now - last_heartbeat info > heartbeat_timeout info) clts"

end
