(* ===== verification/Rpc_Facts.thy ===== *)
theory Rpc_Facts
  imports Rpc
begin

text \<open>
  The checksum against its bitwise definition, and the head of a packet written and read back.
\<close>

section \<open>The table is the bitwise CRC-32\<close>

text \<open>
  One bit of the reflected CRC-32 with the polynomial of IEEE 802.3 (\<open>0x04C11DB7\<close>, reflected
  \<open>0xEDB88320\<close>), one byte, and the whole checksum.
\<close>

definition crc_bit :: "u32 \<Rightarrow> u32" where
  "crc_bit c = (if bit c 0 then drop_bit 1 c XOR 0xEDB88320 else drop_bit 1 c)"

definition crc_byte :: "u32 \<Rightarrow> byte \<Rightarrow> u32" where
  "crc_byte c d = (crc_bit ^^ 8) (c XOR ucast d)"

definition crc32_reference :: "byte list \<Rightarrow> u32" where
  "crc32_reference buffer = NOT (foldl crc_byte (NOT 0) buffer)"

text \<open>A table built from its entries at the powers of two: the routine is linear.\<close>

primrec crc_build :: "u32 list \<Rightarrow> u32 list" where
  "crc_build [] = [0]"
| "crc_build (b # bs) = (let t = crc_build bs in t @ map ((XOR) b) t)"

lemma crc_bit_xor: "crc_bit (a XOR b) = crc_bit a XOR crc_bit b"
  by (rule bit_word_eqI) (auto simp: crc_bit_def bit_simps)

lemma crc_pow_xor: "(crc_bit ^^ n) (a XOR b) = (crc_bit ^^ n) a XOR (crc_bit ^^ n) b"
  by (induction n) (simp_all add: crc_bit_xor)

lemma crc_pow_0: "(crc_bit ^^ n) 0 = 0"
  by (induction n) (simp_all add: crc_bit_def)

lemma crc_pow_high: "take_bit n a = 0 \<Longrightarrow> (crc_bit ^^ n) a = drop_bit n a"
proof (induction n arbitrary: a)
  case 0
  then show ?case by simp
next
  case (Suc n)
  have "\<not> bit (take_bit (Suc n) a) 0"
    using Suc.prems by simp
  then have "\<not> bit a 0"
    by (simp add: bit_simps)
  then have "crc_bit a = drop_bit 1 a"
    by (simp add: crc_bit_def)
  moreover have "take_bit n (drop_bit 1 a) = 0"
    using Suc.prems by (simp add: take_bit_drop_bit)
  ultimately show ?case
    using Suc.IH [of "drop_bit 1 a"] by (simp add: funpow_swap1)
qed

lemma word_pow_xor:
  assumes "i < 2 ^ n" "n < LENGTH('a)"
  shows "(of_nat (2 ^ n + i) :: 'a::len word) = 2 ^ n XOR of_nat i"
proof -
  have "take_bit n i = i"
    using assms(1) by (simp add: take_bit_nat_eq_self)
  then have "\<not> bit i n"
    by (metis bit_take_bit_iff less_irrefl)
  then have "(2 ^ n AND of_nat i :: 'a word) = 0"
    using assms(2) by (intro bit_word_eqI) (auto simp: bit_simps)
  from disjunctive_add_eq_xor [OF this] show ?thesis
    by simp
qed

lemma crc_build_nth:
  "n \<le> 8 \<Longrightarrow> length (crc_build (map (\<lambda>k. (crc_bit ^^ 8) (2 ^ k)) (rev [0..<n]))) = 2 ^ n \<and>
     (\<forall>i < 2 ^ n. crc_build (map (\<lambda>k. (crc_bit ^^ 8) (2 ^ k)) (rev [0..<n])) ! i = (crc_bit ^^ 8) (of_nat i))"
proof (induction n)
  case 0
  then show ?case by (simp add: crc_pow_0)
next
  case (Suc n)
  then have "n < LENGTH(32)" by simp
  show ?case
  proof (intro conjI allI impI)
    show "length (crc_build (map (\<lambda>k. (crc_bit ^^ 8) (2 ^ k)) (rev [0..<Suc n]))) = 2 ^ Suc n"
      using Suc by (simp add: Let_def)
    fix i :: nat
    assume i: "i < 2 ^ Suc n"
    show "crc_build (map (\<lambda>k. (crc_bit ^^ 8) (2 ^ k)) (rev [0..<Suc n])) ! i = (crc_bit ^^ 8) (of_nat i)"
    proof (cases "i < 2 ^ n")
      case True
      with Suc show ?thesis by (simp add: Let_def nth_append)
    next
      case False
      then obtain j where j: "i = 2 ^ n + j" by (metis le_Suc_ex not_less)
      with i have "j < 2 ^ n" by simp
      with Suc j show ?thesis
        using word_pow_xor [of j n, where 'a=32] by (simp add: Let_def nth_append crc_pow_xor)
    qed
  qed
qed

lemma pow8: "(f ^^ 8) x = f (f (f (f (f (f (f (f x)))))))"
  by (simp add: eval_nat_numeral)

lemma crc_table_build: "crc_c = crc_build (map (\<lambda>k. (crc_bit ^^ 8) (2 ^ k)) (rev [0..<8]))"
proof -
  have "map (\<lambda>k. (crc_bit ^^ 8) (2 ^ k)) (rev [0..<8])
      = [0xedb88320, 0x76dc4190, 0x3b6e20c8, 0x1db71064, 0x0edb8832, 0x076dc419, 0xee0e612c, 0x77073096]"
    by (simp add: pow8 crc_bit_def upt_rec)
  then show ?thesis
    by (simp add: crc_c_def)
qed

lemma crc_table_nth: "i < 256 \<Longrightarrow> crc_c ! i = (crc_bit ^^ 8) (of_nat i)"
  using crc_build_nth [of 8] by (simp add: crc_table_build)

lemma CRC32C_reference: "CRC32C c d = crc_byte c d"
proof -
  let ?x = "c XOR ucast d" and ?l = "(c XOR ucast d) AND 0xFF"
  have low: "?l = take_bit 8 ?x"
    by (simp add: take_bit_eq_mask mask_eq_exp_minus_1)
  have "unat (take_bit 8 ?x) < 256"
    using take_bit_nat_less_exp [of 8 "unat ?x"] by (simp only: unsigned_take_bit_eq) simp
  with low have "crc_c ! unat ?l = (crc_bit ^^ 8) ?l"
    by (simp only: crc_table_nth) simp
  moreover have "\<not> bit d (8 + n)" "bit c (8 + n) \<Longrightarrow> n < 24" for n
    using bit_imp_le_length [of d "8 + n"] bit_imp_le_length [of c "8 + n"] by auto
  then have "drop_bit 8 c = (crc_bit ^^ 8) (push_bit 8 (drop_bit 8 ?x))"
    by (subst crc_pow_high) (auto simp: bit_simps intro!: bit_word_eqI)
  moreover have "?x = push_bit 8 (drop_bit 8 ?x) XOR ?l"
    unfolding low by (rule bit_word_eqI) (auto simp: bit_simps)
  ultimately show ?thesis
    unfolding CRC32C_def crc_byte_def by (metis crc_pow_xor)
qed


section \<open>Packets\<close>

lemma head_length [simp]: "length (head_bytes pkg) = 36"
  by (simp add: head_bytes_def)

lemma read_head_bytes: "read_head (head_bytes pkg @ rest) = pkg\<lparr>rp_ext := [], rp_body := []\<rparr>"
  by (cases pkg) (simp add: read_head_def head_bytes_def)

lemma clear_crc_head: "clear_crc (head_bytes pkg @ rest) = head_bytes (pkg\<lparr>rp_crc32 := 0\<rparr>) @ rest"
  by (simp add: clear_crc_def head_bytes_def numeral_eq_Suc)

lemma rpc_decode_pack:
  assumes "rpc_pack pkg = Some data" "unat (rp_ext_size pkg) \<le> length (rp_ext pkg)" "unat (rp_body_size pkg) \<le> length (rp_body pkg)"
  shows "rpc_decode (data @ rest) = int (length data)"
    "length data = RPC_PKG_HEAD_SIZE + unat (rp_ext_size pkg) + unat (rp_body_size pkg)"
    "recv_pkg (data @ rest) = pkg\<lparr>rp_magic := RPC_PKG_MAGIC, rp_crc32 := rp_crc32 (read_head data),
        rp_ext := take (unat (rp_ext_size pkg)) (rp_ext pkg) @ take (unat (rp_body_size pkg)) (rp_body pkg) @ rest,
        rp_body := take (unat (rp_body_size pkg)) (rp_body pkg) @ rest\<rparr>"
proof -
  let ?payload = "take (unat (rp_ext_size pkg)) (rp_ext pkg) @ take (unat (rp_body_size pkg)) (rp_body pkg)"
  define p0 where "p0 = pkg\<lparr>rp_magic := RPC_PKG_MAGIC, rp_crc32 := 0\<rparr>"
  define p where "p = p0\<lparr>rp_crc32 := generate_crc32c (head_bytes p0 @ ?payload)\<rparr>"
  from assms(1) have small: "unat (rp_body_size pkg) \<le> RPC_PKG_MAX_BODY_SIZE" and data: "data = head_bytes p @ ?payload"
    by (auto simp: rpc_pack_def Let_def p_def p0_def split: if_splits)
  have len: "length data = RPC_PKG_HEAD_SIZE + unat (rp_ext_size pkg) + unat (rp_body_size pkg)"
    using assms(2,3) by (simp add: data RPC_PKG_HEAD_SIZE_def)
  then show "length data = RPC_PKG_HEAD_SIZE + unat (rp_ext_size pkg) + unat (rp_body_size pkg)" .
  have head: "read_head (data @ rest) = p\<lparr>rp_ext := [], rp_body := []\<rparr>" "read_head data = p\<lparr>rp_ext := [], rp_body := []\<rparr>"
    unfolding data append_assoc by (rule read_head_bytes)+
  have "unat (rp_ext_size pkg) < 2 ^ 16"
    using unsigned_less [of "rp_ext_size pkg"] by simp
  with small len have lt: "length data < 2 ^ 31"
    by (simp add: RPC_PKG_MAX_BODY_SIZE_def RPC_PKG_HEAD_SIZE_def)
  let ?size = "of_nat RPC_PKG_HEAD_SIZE + ucast (rp_ext_size p) + rp_body_size p :: u32"
  have "?size = of_nat (length data)"
    by (simp add: len p_def p0_def RPC_PKG_HEAD_SIZE_def)
  then have size: "unat ?size = length data"
    using lt by (simp add: unat_of_nat take_bit_nat_eq_self)
  then have "sint ?size = int (length data)"
    using lt \<open>?size = _\<close> by (simp add: signed_of_nat signed_take_bit_int_eq_self)
  moreover have "take (length data) (clear_crc (data @ rest)) = head_bytes p0 @ ?payload"
    unfolding data append_assoc clear_crc_head by (simp add: p_def p0_def assms(2,3) min_absorb2)
  ultimately show "rpc_decode (data @ rest) = int (length data)"
    using size by (simp add: rpc_decode_def head p_def p0_def Let_def len)
  show "recv_pkg (data @ rest) = pkg\<lparr>rp_magic := RPC_PKG_MAGIC, rp_crc32 := rp_crc32 (read_head data),
        rp_ext := take (unat (rp_ext_size pkg)) (rp_ext pkg) @ take (unat (rp_body_size pkg)) (rp_body pkg) @ rest,
        rp_body := take (unat (rp_body_size pkg)) (rp_body pkg) @ rest\<rparr>"
    unfolding recv_pkg_def Let_def head
    by (simp add: data p_def p0_def RPC_PKG_HEAD_SIZE_def assms(2,3) min_absorb2)
qed

section \<open>Heartbeats\<close>

definition timeout_ok :: "clt_info \<Rightarrow> bool" where
  "timeout_ok info \<longleftrightarrow> RPC_HEARTBEAT_TIMEOUT_MIN \<le> heartbeat_timeout info
     \<and> heartbeat_timeout info \<le> RPC_HEARTBEAT_TIMEOUT_MAX"

lemma set_timeout_ok: "timeout_ok (set_timeout ms info)"
  by (auto simp: timeout_ok_def set_timeout_def Let_def RPC_HEARTBEAT_TIMEOUT_MIN_def RPC_HEARTBEAT_TIMEOUT_MAX_def)

declare heartbeat_items.simps [simp del]

lemma heartbeat_items_ok: "timeout_ok info \<Longrightarrow> timeout_ok (snd (heartbeat_items p info))"
proof (induction p info rule: heartbeat_items.induct)
  case (1 p info)
  show ?case
    using "1.IH" "1.prems" set_timeout_ok
    by (subst heartbeat_items.simps) (auto simp: Let_def split: option.split prod.split)
qed

lemma heartbeat_items_last: "last_heartbeat (snd (heartbeat_items p info)) = last_heartbeat info"
proof (induction p info rule: heartbeat_items.induct)
  case (1 p info)
  have "last_heartbeat (set_timeout ms info) = last_heartbeat info" for ms
    by (simp add: set_timeout_def Let_def)
  with "1.IH" show ?case
    by (subst heartbeat_items.simps) (auto simp: Let_def split: option.split prod.split)
qed

end
