(* ===== verification/Rpc_Props.thy ===== *)
theory Rpc_Props
  imports Rpc_Facts
begin

text \<open>The properties of the packet layer.\<close>

text \<open>C30. The table-driven checksum is the bitwise CRC-32 of IEEE 802.3 (not, as its name says, the
  Castagnoli CRC-32C).\<close>

theorem crc32c_is_crc32: "generate_crc32c buffer = crc32_reference buffer"
proof -
  have "CRC32C = crc_byte"
    by (simp add: fun_eq_iff CRC32C_reference)
  then show ?thesis
    by (simp add: generate_crc32c_def crc32_reference_def)
qed

text \<open>A packet that was packed is decoded as it was sent, whatever bytes follow it in the stream:
  \<open>rpc_decode\<close> accepts exactly its bytes, and the receiver sees the same head, extension and body.\<close>

theorem rpc_roundtrip:
  assumes "rpc_pack pkg = Some data"
    and "length (rp_ext pkg) = unat (rp_ext_size pkg)" "length (rp_body pkg) = unat (rp_body_size pkg)"
  shows "rpc_decode (data @ rest) = int (length data)
    \<and> rp_command (recv_pkg (data @ rest)) = rp_command pkg \<and> rp_pkg_type (recv_pkg (data @ rest)) = rp_pkg_type pkg
    \<and> rp_sequence (recv_pkg (data @ rest)) = rp_sequence pkg \<and> rp_req_id (recv_pkg (data @ rest)) = rp_req_id pkg
    \<and> rp_body_size (recv_pkg (data @ rest)) = rp_body_size pkg \<and> rp_ext_size (recv_pkg (data @ rest)) = rp_ext_size pkg
    \<and> take (unat (rp_body_size pkg)) (rp_body (recv_pkg (data @ rest))) = rp_body pkg
    \<and> take (unat (rp_ext_size pkg)) (rp_ext (recv_pkg (data @ rest))) = rp_ext pkg"
  using rpc_decode_pack [OF assms(1)] assms(2,3) by simp

definition ex_pkg :: rpc_pkg where
  "ex_pkg = \<lparr> rp_magic = 0, rp_command = 201, rp_pkg_type = RPC_PKG_TYPE_REPLY, rp_result = 0, rp_crc32 = 0,
     rp_sequence = 7, rp_req_id = 9, rp_body_size = 2, rp_ext_size = 1, rp_ext = [0x41], rp_body = [0x5B, 0x5D] \<rparr>"

theorem rpc_roundtrip_witness:
  "\<exists>data. rpc_pack ex_pkg = Some data \<and> rpc_decode (data @ [1, 2]) = int (length data) \<and> length data = 39"
proof -
  obtain data where data: "rpc_pack ex_pkg = Some data"
    by (simp add: rpc_pack_def ex_pkg_def RPC_PKG_MAX_BODY_SIZE_def Let_def)
  have "rpc_decode (data @ [1, 2]) = int (length data)"
    using rpc_roundtrip [OF data, of "[1, 2]"] by (simp add: ex_pkg_def)
  moreover have "length data = 39"
    using rpc_decode_pack(2) [OF data] by (simp add: ex_pkg_def RPC_PKG_HEAD_SIZE_def)
  ultimately show ?thesis
    using data by blast
qed

text \<open>
  A packet whose sizes overflow the 32 bits of \<open>pkg_size\<close> is smaller than its head: it is accepted
  when its first 35 bytes have the checksum.
\<close>

definition overflow_pkg :: rpc_pkg where
  "overflow_pkg = (let pkg = \<lparr> rp_magic = RPC_PKG_MAGIC, rp_command = 101, rp_pkg_type = RPC_PKG_TYPE_REQUEST,
       rp_result = 0, rp_crc32 = 0, rp_sequence = 1, rp_req_id = 1, rp_body_size = 0xFFFFFFFF, rp_ext_size = 0,
       rp_ext = [], rp_body = [] \<rparr> in
     pkg\<lparr>rp_crc32 := generate_crc32c (take 35 (head_bytes pkg))\<rparr>)"

text \<open>C37. The size of a packet is computed in 32 bits, so a body size near the maximum wraps around:
  \<open>rpc_decode\<close> accepts this packet of 36 bytes, and the handler is told that a body of 4294967295
  bytes follows in a buffer where none does (a defect: it reads beyond the buffer).\<close>

theorem oversized_body_accepted:
  "length (head_bytes overflow_pkg) = 36 \<and> rpc_decode (head_bytes overflow_pkg) = 35 \<and>
   unat (rp_body_size (recv_pkg (head_bytes overflow_pkg))) = 2 ^ 32 - 1 \<and>
   rp_body (recv_pkg (head_bytes overflow_pkg)) = []"
proof -
  have head: "read_head (head_bytes overflow_pkg) = overflow_pkg"
    using read_head_bytes [of overflow_pkg "[]"] by (simp add: overflow_pkg_def Let_def)
  have crc: "clear_crc (head_bytes overflow_pkg) = head_bytes (overflow_pkg\<lparr>rp_crc32 := 0\<rparr>)"
    using clear_crc_head [of overflow_pkg "[]"] by simp
  show ?thesis
    unfolding rpc_decode_def recv_pkg_def head crc Let_def
    by (simp add: RPC_PKG_HEAD_SIZE_def overflow_pkg_def Let_def)
qed

text \<open>Strings of variable length: what \<open>pack_varstr\<close> appends to a buffer with room for it,
  \<open>unpack_varstr\<close> reads back, in front of any further bytes.\<close>

theorem varstr_roundtrip:
  assumes "pack_varstr str (out, left) = Some (ret, out', left')" "length str < 2 ^ 64"
  shows "\<exists>bs. out' = out @ bs \<and> ret = int (length bs) \<and> left = left' + length bs \<and>
    (\<forall>rest. unpack_varstr (bs @ rest) = Some (ret, str, rest))"
  using assms by (rule unpack_pack_varstr)

theorem varstr_roundtrip_witness:
  "pack_varstr [0x61, 0x62] ([], 10) = Some (3, [2, 0x61, 0x62], 7) \<and> unpack_varstr [2, 0x61, 0x62, 9] = Some (3, [0x61, 0x62], [9])"
proof -
  have p: "pack_varstr [0x61, 0x62] ([], 10) = Some (3, [2, 0x61, 0x62], 7)"
    by (simp add: pack_varstr_def pack_varint_le_def)
  from varstr_roundtrip [OF p] have "unpack_varstr ([2, 0x61, 0x62] @ [9]) = Some (3, [0x61, 0x62], [9])"
    by auto
  with p show ?thesis by simp
qed

text \<open>C31. Whatever a heartbeat contains, valid or not, the timeout of its client stays between two
  seconds and ten minutes.\<close>

theorem heartbeat_timeout_bounded:
  assumes "RPC_HEARTBEAT_TIMEOUT_MIN \<le> heartbeat_timeout info" "heartbeat_timeout info \<le> RPC_HEARTBEAT_TIMEOUT_MAX"
    and "on_heartbeat now pkg info = (ret, info', reply)"
  shows "RPC_HEARTBEAT_TIMEOUT_MIN \<le> heartbeat_timeout info' \<and> heartbeat_timeout info' \<le> RPC_HEARTBEAT_TIMEOUT_MAX
    \<and> last_heartbeat info' = now \<and> (reply \<noteq> None \<longleftrightarrow> ret = 0)"
proof -
  obtain r i where items: "heartbeat_items (take (unat (rp_body_size pkg)) (rp_body pkg)) (info\<lparr>last_heartbeat := now\<rparr>) = (r, i)"
    by fastforce
  have "timeout_ok (info\<lparr>last_heartbeat := now\<rparr>)"
    using assms(1,2) by (simp add: timeout_ok_def)
  from heartbeat_items_ok [OF this] heartbeat_items_last items have "timeout_ok i" "last_heartbeat i = now"
    by (metis snd_conv, metis clt_info.select_convs(1) clt_info.surjective clt_info.update_convs(1) snd_conv)
  then show ?thesis
    using assms(3) items by (auto simp: on_heartbeat_def Let_def timeout_ok_def split: if_splits)
qed

theorem heartbeat_timeout_bounded_witness:
  "\<exists>info'. on_heartbeat 5 (ex_pkg\<lparr>rp_body_size := 0\<rparr>) \<lparr> last_heartbeat = 1, heartbeat_timeout = 3 \<rparr>
      = (0, info', Some (ex_pkg\<lparr>rp_body_size := 0\<rparr>)) \<and> heartbeat_timeout info' \<le> 600"
proof -
  have hb: "on_heartbeat 5 (ex_pkg\<lparr>rp_body_size := 0\<rparr>) \<lparr> last_heartbeat = 1, heartbeat_timeout = 3 \<rparr>
      = (0, \<lparr> last_heartbeat = 5, heartbeat_timeout = 3 \<rparr>, Some (ex_pkg\<lparr>rp_body_size := 0\<rparr>))"
    by (simp add: on_heartbeat_def ex_pkg_def heartbeat_items.simps)
  from heartbeat_timeout_bounded [OF _ _ hb] show ?thesis
    using hb by (simp add: RPC_HEARTBEAT_TIMEOUT_MIN_def RPC_HEARTBEAT_TIMEOUT_MAX_def)
qed

end
