(* ===== verification/Update.thy ===== *)
theory Update
  imports Replay_Facts
begin

text \<open>
  \<open>matchengine/me_update.c\<close>: changes of a balance from outside, each applied once. The keys of the
  updates of the last day are kept in \<open>dict_update\<close>.
\<close>

section \<open>State\<close>

definition BUSINESS_NAME_MAX_LEN :: nat where
  "BUSINESS_NAME_MAX_LEN = 31"

text \<open>
  \<open>struct update_key\<close> is compared with \<open>memcmp\<close> over its whole size. Its members fill the bytes 0
  to 51 and 56 to 63: the four bytes in between are padding, which \<open>update_user_balance\<close> leaves as
  the stack has it. They are part of the key.
\<close>

record update_key =
  uk_user_id :: u32
  uk_asset :: string
  uk_business :: string
  uk_padding :: u32
  uk_business_id :: u64

record update_val =
  uv_create_time :: timestamp

text \<open>
  \<open>stack_bytes\<close> is what the padding of the key holds at each call, \<open>calls\<close> how many calls there
  have been.
\<close>

record 'd update_state = "'d market_state" +
  dict_update :: "(update_key, update_val) dict_view"
  stack_bytes :: "nat \<Rightarrow> u32"
  calls :: nat

definition mk_update_key :: "u32 \<Rightarrow> string \<Rightarrow> string \<Rightarrow> u64 \<Rightarrow> u32 \<Rightarrow> update_key" where
  "mk_update_key user_id asset business business_id padding =
     \<lparr> uk_user_id = user_id, uk_asset = take (ASSET_NAME_MAX_LEN + 1) asset,
       uk_business = take (BUSINESS_NAME_MAX_LEN + 1) business, uk_padding = padding,
       uk_business_id = business_id \<rparr>"

section \<open>Operations\<close>

definition update_on_timer :: "('d, 'z) update_state_scheme \<Rightarrow> ('d, 'z) update_state_scheme" where
  "update_on_timer s =
     (let (now, s) = current_timestamp s in
      s\<lparr>dict_update := filter (\<lambda>(key, val). \<not> uv_create_time val < now - 86400) (dict_update s)\<rparr>)"

text \<open>The result holds the detail object too: the real branch adds the id to it in place.\<close>

definition update_user_balance :: "'d mpd_lib \<Rightarrow> bool \<Rightarrow> u32 \<Rightarrow> string \<Rightarrow> string \<Rightarrow> u64 \<Rightarrow> 'd \<Rightarrow> json
    \<Rightarrow> ('d, 'z) update_state_scheme \<Rightarrow> int \<times> json \<times> ('d, 'z) update_state_scheme" where
  "update_user_balance D is_real user_id asset business business_id change detail s =
     (let key = mk_update_key user_id asset business business_id (stack_bytes s (calls s));
          s = s\<lparr>calls := calls s + 1\<rparr> in
      if dv_find (dict_update s) key \<noteq> None then (- 1, detail, s)
      else
        let abs_change = mpd_abs D change;
            (result, s) = (if mpd_cmp D change (mpd_zero D) \<ge> 0
                           then balance_add D user_id BALANCE_TYPE_AVAILABLE asset abs_change s
                           else balance_sub D user_id BALANCE_TYPE_AVAILABLE asset abs_change s) in
        if result = None then (- 2, detail, s)
        else
          let (create_time, s) = current_timestamp s;
              s = s\<lparr>dict_update := dv_put key \<lparr> uv_create_time = create_time \<rparr> (dict_update s)\<rparr> in
          if is_real then
            let (now, s) = current_timestamp s;
                detail = json_object_set detail ''id'' (json_u64 business_id);
                s = append_user_balance_history D now user_id asset business change (Dumps detail) s;
                s = push_balance_message D now user_id asset business change s in
            (0, detail, s)
          else (0, detail, s))"

section \<open>What the operations leave alone\<close>

lemma balance_failed:
  "fst (balance_add D u ty a x s) = None \<Longrightarrow> snd (balance_add D u ty a x s) = s"
  "fst (balance_sub D u ty a x s) = None \<Longrightarrow> snd (balance_sub D u ty a x s) = s"
  by (auto simp: balance_add_def balance_sub_def balance_set_def Let_def split: option.splits if_splits)

lemma update_fields:
  assumes "balance_state.more t = balance_state.more s"
  shows "dict_update t = dict_update s" "stack_bytes t = stack_bytes s" "calls t = calls s"
    "order_id_start t = order_id_start s" "deals_id_start t = deals_id_start s" "clock t = clock s" "ticks t = ticks s"
  using assms by (cases s; cases t; simp)+

lemma update_fields_history:
  assumes "history_state.more t = history_state.more s"
  shows "dict_update t = dict_update s" "stack_bytes t = stack_bytes s" "calls t = calls s"
    "order_id_start t = order_id_start s" "deals_id_start t = deals_id_start s" "clock t = clock s" "ticks t = ticks s"
  using assms by (cases s; cases t; simp)+

end
