(* ===== verification/Config.thy ===== *)
theory Config
  imports Market
begin

text \<open>
  \<open>utils/ut_config.c\<close> and \<open>matchengine/me_config.c\<close>: reading the configuration from a JSON object.
  A reader returns the value it assigns (\<open>Inr\<close>) or the negative code of the line where it gives
  up (\<open>Inl\<close>). The loaders that parse socket addresses are not modelled.
\<close>

section \<open>The readers\<close>

text \<open>\<open>ERR_RET\<close> passes a code on, \<open>ERR_RET_LN\<close> returns the line of its caller.\<close>

definition ERR_RET :: "int + 'a \<Rightarrow> ('a \<Rightarrow> int + 'b) \<Rightarrow> int + 'b" where
  "ERR_RET r k = (case r of Inl e \<Rightarrow> Inl e | Inr v \<Rightarrow> k v)"

definition ERR_RET_LN :: "int + 'a \<Rightarrow> int \<Rightarrow> ('a \<Rightarrow> int + 'b) \<Rightarrow> int + 'b" where
  "ERR_RET_LN r line k = (case r of Inl _ \<Rightarrow> Inl (- line) | Inr v \<Rightarrow> k v)"

definition read_cfg_str :: "json \<Rightarrow> string \<Rightarrow> string option \<Rightarrow> int + string" where
  "read_cfg_str conf key default_val =
     (let node = json_object_get conf key in
      if node = None \<and> default_val \<noteq> None then Inr (the default_val)
      else if \<not> json_is_string node then Inl (- 416)
      else Inr (json_str node))"

definition read_cfg_mpd :: "'d mpd_lib \<Rightarrow> json \<Rightarrow> string \<Rightarrow> string option \<Rightarrow> int + 'd" where
  "read_cfg_mpd D conf key default_val =
     (let node = json_object_get conf key in
      if node = None \<and> default_val \<noteq> None then
        (case decimal D (the default_val) 0 of None \<Rightarrow> Inl (- 430) | Some v \<Rightarrow> Inr v)
      else if \<not> json_is_string node then Inl (- 434)
      else (case decimal D (json_str node) 0 of None \<Rightarrow> Inl (- 437) | Some v \<Rightarrow> Inr v))"

text \<open>
  A \<open>json_int_t\<close> has 64 bits; storing it in a narrower integer keeps the low bits, read with the
  sign of the target.
\<close>

definition read_cfg_int :: "json \<Rightarrow> string \<Rightarrow> bool \<Rightarrow> int \<Rightarrow> int + int" where
  "read_cfg_int conf key required default_val =
     (case json_object_get conf key of
        None \<Rightarrow> if required then Inl (- 447) else Inr default_val
      | Some node \<Rightarrow>
          if \<not> json_is_integer (Some node) then Inl (- 454)
          else Inr (signed_take_bit 31 (json_integer_value (Some node))))"

definition read_cfg_int32 :: "json \<Rightarrow> string \<Rightarrow> bool \<Rightarrow> int \<Rightarrow> int + int" where
  "read_cfg_int32 conf key required default_val =
     (case json_object_get conf key of
        None \<Rightarrow> if required then Inl (- 465) else Inr default_val
      | Some node \<Rightarrow>
          if \<not> json_is_integer (Some node) then Inl (- 472)
          else Inr (signed_take_bit 31 (json_integer_value (Some node))))"

definition read_cfg_int64 :: "json \<Rightarrow> string \<Rightarrow> bool \<Rightarrow> int \<Rightarrow> int + int" where
  "read_cfg_int64 conf key required default_val =
     (case json_object_get conf key of
        None \<Rightarrow> if required then Inl (- 483) else Inr default_val
      | Some node \<Rightarrow>
          if \<not> json_is_integer (Some node) then Inl (- 490)
          else Inr (signed_take_bit 63 (json_integer_value (Some node))))"

definition read_cfg_uint32 :: "json \<Rightarrow> string \<Rightarrow> bool \<Rightarrow> u32 \<Rightarrow> int + u32" where
  "read_cfg_uint32 conf key required default_val =
     (case json_object_get conf key of
        None \<Rightarrow> if required then Inl (- 501) else Inr default_val
      | Some node \<Rightarrow>
          if \<not> json_is_integer (Some node) then Inl (- 508)
          else Inr (word_of_int (json_integer_value (Some node))))"

definition read_cfg_uint64 :: "json \<Rightarrow> string \<Rightarrow> bool \<Rightarrow> u64 \<Rightarrow> int + u64" where
  "read_cfg_uint64 conf key required default_val =
     (case json_object_get conf key of
        None \<Rightarrow> if required then Inl (- 519) else Inr default_val
      | Some node \<Rightarrow>
          if \<not> json_is_integer (Some node) then Inl (- 526)
          else Inr (word_of_int (json_integer_value (Some node))))"

definition read_cfg_real :: "json \<Rightarrow> string \<Rightarrow> bool \<Rightarrow> rat \<Rightarrow> int + rat" where
  "read_cfg_real conf key required default_val =
     (case json_object_get conf key of
        None \<Rightarrow> if required then Inl (- 537) else Inr default_val
      | Some (JInteger i) \<Rightarrow> Inr (of_int i)
      | Some (JReal x) \<Rightarrow> Inr x
      | Some _ \<Rightarrow> Inl (- 548))"

definition read_cfg_bool :: "json \<Rightarrow> string \<Rightarrow> bool \<Rightarrow> bool \<Rightarrow> int + bool" where
  "read_cfg_bool conf key required default_val =
     (case json_object_get conf key of
        None \<Rightarrow> if required then Inl (- 559) else Inr default_val
      | Some (JBool b) \<Rightarrow> Inr b
      | Some _ \<Rightarrow> Inl (- 566))"

section \<open>Sections of the configuration\<close>

record process_cfg =
  file_limit :: u32
  core_limit :: u32

definition load_cfg_process :: "json \<Rightarrow> string \<Rightarrow> int + process_cfg" where
  "load_cfg_process conf key =
     (case json_object_get conf key of
        Some (JObject kvs) \<Rightarrow>
          ERR_RET (read_cfg_uint32 (JObject kvs) ''file_limit'' False 0) (\<lambda>f.
          ERR_RET (read_cfg_uint32 (JObject kvs) ''core_limit'' False 0) (\<lambda>c.
          Inr \<lparr> file_limit = f, core_limit = c \<rparr>))
      | _ \<Rightarrow> Inr \<lparr> file_limit = 0, core_limit = 0 \<rparr>)"

record mysql_cfg =
  my_host :: string
  my_port :: int
  my_user :: string
  my_pass :: string
  my_name :: string
  my_charset :: string

definition load_cfg_mysql :: "json \<Rightarrow> string \<Rightarrow> int + mysql_cfg" where
  "load_cfg_mysql conf key =
     (case json_object_get conf key of
        Some (JObject kvs) \<Rightarrow>
          (let node = JObject kvs in
           ERR_RET (read_cfg_str node ''host'' None) (\<lambda>host.
           ERR_RET (read_cfg_int node ''port'' False 3306) (\<lambda>port.
           ERR_RET (read_cfg_str node ''user'' None) (\<lambda>user.
           ERR_RET (read_cfg_str node ''pass'' None) (\<lambda>pass.
           ERR_RET (read_cfg_str node ''name'' None) (\<lambda>name.
           ERR_RET (read_cfg_str node ''charset'' (Some ''utf8'')) (\<lambda>charset.
           Inr \<lparr> my_host = host, my_port = port, my_user = user, my_pass = pass, my_name = name,
                 my_charset = charset \<rparr>)))))))
      | _ \<Rightarrow> Inl (- 350))"

record kafka_consumer_cfg =
  k_brokers :: string
  k_topic :: string
  k_partition :: int
  k_limit :: int
  k_offset :: int

definition load_cfg_kafka_consumer :: "json \<Rightarrow> string \<Rightarrow> int + kafka_consumer_cfg" where
  "load_cfg_kafka_consumer conf key =
     (case json_object_get conf key of
        Some (JObject kvs) \<Rightarrow>
          (let node = JObject kvs in
           ERR_RET (read_cfg_str node ''brokers'' None) (\<lambda>brokers.
           ERR_RET (read_cfg_str node ''topic'' None) (\<lambda>topic.
           ERR_RET (read_cfg_int node ''partition'' False 0) (\<lambda>partition.
           ERR_RET (read_cfg_int node ''limit'' False 1000) (\<lambda>limit.
           ERR_RET (read_cfg_int64 node ''offset'' False 0) (\<lambda>offset.
           Inr \<lparr> k_brokers = brokers, k_topic = topic, k_partition = partition, k_limit = limit,
                 k_offset = offset \<rparr>))))))
      | _ \<Rightarrow> Inl (- 366))"

section \<open>The assets and the markets\<close>

definition load_asset :: "json \<Rightarrow> int + asset" where
  "load_asset row =
     (if \<not> json_is_object (Some row) then Inl (- 28)
      else
        ERR_RET_LN (read_cfg_str row ''name'' None) 29 (\<lambda>name.
        ERR_RET_LN (read_cfg_int row ''prec_save'' True 0) 30 (\<lambda>save.
        ERR_RET_LN (read_cfg_int row ''prec_show'' False save) 31 (\<lambda>show.
        if length name > ASSET_NAME_MAX_LEN then Inl (- 33)
        else Inr \<lparr> a_name = name, a_prec_save = save, a_prec_show = show \<rparr>))))"

fun load_rows :: "(json \<Rightarrow> int + 'a) \<Rightarrow> json list \<Rightarrow> int + 'a list" where
  "load_rows f [] = Inr []"
| "load_rows f (row # rows) = ERR_RET (f row) (\<lambda>x. ERR_RET (load_rows f rows) (\<lambda>xs. Inr (x # xs)))"

definition load_assets :: "json \<Rightarrow> string \<Rightarrow> int + asset list" where
  "load_assets conf key =
     (case json_object_get conf key of
        Some (JArray rows) \<Rightarrow> load_rows load_asset rows
      | _ \<Rightarrow> Inl (- 20))"

definition load_market :: "'d mpd_lib \<Rightarrow> json \<Rightarrow> int + 'd market_conf" where
  "load_market D row =
     (if \<not> json_is_object (Some row) then Inl (- 51)
      else
        ERR_RET_LN (read_cfg_str row ''name'' None) 52 (\<lambda>name.
        ERR_RET_LN (read_cfg_int row ''fee_prec'' False 4) 53 (\<lambda>fee_prec.
        ERR_RET_LN (read_cfg_mpd D row ''min_amount'' (Some ''0.01'')) 54 (\<lambda>min_amount.
        case json_object_get row ''stock'' of
          Some (JObject stock) \<Rightarrow>
            ERR_RET_LN (read_cfg_str (JObject stock) ''name'' None) 59 (\<lambda>stock_name.
            ERR_RET_LN (read_cfg_int (JObject stock) ''prec'' True 0) 60 (\<lambda>stock_prec.
            case json_object_get row ''money'' of
              Some (JObject money) \<Rightarrow>
                ERR_RET_LN (read_cfg_str (JObject money) ''name'' None) 65 (\<lambda>money_name.
                ERR_RET_LN (read_cfg_int (JObject money) ''prec'' True 0) 66 (\<lambda>money_prec.
                Inr \<lparr> c_name = name, c_stock = stock_name, c_money = money_name, c_fee_prec = fee_prec,
                      c_stock_prec = stock_prec, c_money_prec = money_prec, c_min_amount = min_amount \<rparr>))
            | _ \<Rightarrow> Inl (- 64)))
        | _ \<Rightarrow> Inl (- 58)))))"

definition load_markets :: "'d mpd_lib \<Rightarrow> json \<Rightarrow> string \<Rightarrow> int + 'd market_conf list" where
  "load_markets D conf key =
     (case json_object_get conf key of
        Some (JArray rows) \<Rightarrow> load_rows (load_market D) rows
      | _ \<Rightarrow> Inl (- 43))"

section \<open>What loading guarantees\<close>

lemma load_rows_all:
  "load_rows f rows = Inr xs \<Longrightarrow> (\<And>row x. f row = Inr x \<Longrightarrow> P x) \<Longrightarrow> \<forall>x \<in> set xs. P x"
proof (induction rows arbitrary: xs)
  case Nil
  then show ?case by simp
next
  case (Cons row rows)
  from Cons.prems(1) obtain x ys where "f row = Inr x" "load_rows f rows = Inr ys" "xs = x # ys"
    by (auto simp: ERR_RET_def split: sum.splits)
  with Cons.IH [of ys] Cons.prems(2) show ?case by auto
qed

lemma load_rows_length: "load_rows f rows = Inr xs \<Longrightarrow> length xs = length rows"
  by (induction rows arbitrary: xs) (auto simp: ERR_RET_def split: sum.splits)

lemma load_asset_name: "load_asset row = Inr a \<Longrightarrow> length (a_name a) \<le> ASSET_NAME_MAX_LEN"
  by (auto simp: load_asset_def ERR_RET_LN_def split: if_splits sum.splits)

end
