(* ===== verification/Trade.thy ===== *)
theory Trade
  imports Update Config
begin

text \<open>
  \<open>matchengine/me_trade.c\<close>: the markets by name, and the reload of assets and markets while the
  engine runs (\<open>listing_update\<close> of \<open>me_config.c\<close>, \<open>load_assets_listing\<close> of \<open>me_balance.c\<close>).
\<close>

section \<open>State\<close>

text \<open>
  \<open>dict_market\<close> holds \<open>market_t\<close> pointers. \<open>load_markets_listing\<close> stores the address of a local
  \<open>struct market\<close> in it instead: once the function has returned, reading through that pointer is
  undefined.
\<close>

datatype 'd market_ptr = Market "'d market" | Dangling

text \<open>
  The arrays of the settings are allocated before they are filled: an element that has not been
  written yet is \<open>None\<close>.
\<close>

record 'd trade_state = "'d update_state" +
  settings_assets :: "asset option list"
  settings_markets :: "'d market_conf option list"
  dict_market :: "(string, 'd market_ptr) dict_view"

definition get_market :: "('d, 'z) trade_state_scheme \<Rightarrow> string \<Rightarrow> 'd market_ptr option" where
  "get_market s name = dv_find (dict_market s) name"

text \<open>An operation on a market works on the object the pointer leads to.\<close>

definition set_market :: "string \<Rightarrow> 'd market \<Rightarrow> ('d, 'z) trade_state_scheme \<Rightarrow> ('d, 'z) trade_state_scheme" where
  "set_market name m s = s\<lparr>dict_market := dv_put name (Market m) (dict_market s)\<rparr>"

text \<open>\<open>dict_add\<close> gives the entry, or \<open>NULL\<close> and no change when the key is there.\<close>

fun init_markets :: "'d market_conf list \<Rightarrow> ('d, 'z) trade_state_scheme \<Rightarrow> int \<times> ('d, 'z) trade_state_scheme" where
  "init_markets [] s = (0, s)"
| "init_markets (c # cs) s =
     (case market_create s c of
        None \<Rightarrow> (- 47, s)
      | Some m \<Rightarrow>
          init_markets cs (case dv_add (c_name c) (Market m) (dict_market s) of
                             None \<Rightarrow> s | Some d \<Rightarrow> s\<lparr>dict_market := d\<rparr>))"

definition init_trade :: "'d market_conf list \<Rightarrow> ('d, 'z) trade_state_scheme \<Rightarrow> int \<times> ('d, 'z) trade_state_scheme" where
  "init_trade markets s =
     init_markets markets (s\<lparr>dict_market := [], settings_markets := map Some markets\<rparr>)"

section \<open>Listing: the reload of assets and markets\<close>

text \<open>
  Both loaders first replace the array of the settings by a fresh one, then go through the rows. A
  row that is not accepted ends the loader: the rest of the array stays as allocated. A name that
  is already in the dictionary keeps its old entry, and is not counted.
\<close>

fun load_assets_rows :: "json list \<Rightarrow> nat \<Rightarrow> int \<Rightarrow> ('d, 'z) trade_state_scheme \<Rightarrow> int \<times> ('d, 'z) trade_state_scheme" where
  "load_assets_rows [] i num s = (num, s)"
| "load_assets_rows (row # rows) i num s =
     (if \<not> json_is_object (Some row) then (- 155, s)
      else case read_cfg_str row ''name'' None of Inl _ \<Rightarrow> (- 162, s) | Inr name \<Rightarrow>
        (case read_cfg_int row ''prec_save'' True 0 of Inl _ \<Rightarrow> (- 164, s) | Inr save \<Rightarrow>
          (case read_cfg_int row ''prec_show'' False save of Inl _ \<Rightarrow> (- 165, s) | Inr show \<Rightarrow>
            if length name > ASSET_NAME_MAX_LEN then (- 169, s)
            else
              let (num, s) =
                    (if dict_asset s name = None
                     then (num + 1, s\<lparr>dict_asset := (dict_asset s)(name \<mapsto> \<lparr> prec_save = save, prec_show = show \<rparr>)\<rparr>)
                     else (num, s));
                  s = s\<lparr>settings_assets := (settings_assets s)[i :=
                         Some \<lparr> a_name = name, a_prec_save = save, a_prec_show = show \<rparr>]\<rparr> in
              load_assets_rows rows (i + 1) num s)))"

definition load_assets_listing :: "json \<Rightarrow> string \<Rightarrow> ('d, 'z) trade_state_scheme \<Rightarrow> int \<times> ('d, 'z) trade_state_scheme" where
  "load_assets_listing conf key s =
     (case json_object_get conf key of
        Some (JArray rows) \<Rightarrow>
          load_assets_rows rows 0 0 (s\<lparr>settings_assets := replicate (length rows) None\<rparr>)
      | _ \<Rightarrow> (- 135, s))"

text \<open>
  The configuration of a row, with the codes of the loader's lines. The market that goes into the
  dictionary is the local variable.
\<close>

definition load_market_row :: "'d mpd_lib \<Rightarrow> json \<Rightarrow> int + 'd market_conf" where
  "load_market_row D row =
     (if \<not> json_is_object (Some row) then Inl (- 81)
      else
        ERR_RET_LN (read_cfg_str row ''name'' None) 88 (\<lambda>name.
        ERR_RET_LN (read_cfg_int row ''fee_prec'' False 4) 92 (\<lambda>fee_prec.
        ERR_RET_LN (read_cfg_mpd D row ''min_amount'' (Some ''0.01'')) 93 (\<lambda>min_amount.
        case json_object_get row ''stock'' of
          Some (JObject stock) \<Rightarrow>
            ERR_RET_LN (read_cfg_str (JObject stock) ''name'' None) 97 (\<lambda>stock_name.
            ERR_RET_LN (read_cfg_int (JObject stock) ''prec'' True 0) 98 (\<lambda>stock_prec.
            case json_object_get row ''money'' of
              Some (JObject money) \<Rightarrow>
                ERR_RET_LN (read_cfg_str (JObject money) ''name'' None) 102 (\<lambda>money_name.
                ERR_RET_LN (read_cfg_int (JObject money) ''prec'' True 0) 103 (\<lambda>money_prec.
                Inr \<lparr> c_name = name, c_stock = stock_name, c_money = money_name, c_fee_prec = fee_prec,
                      c_stock_prec = stock_prec, c_money_prec = money_prec, c_min_amount = min_amount \<rparr>))
            | _ \<Rightarrow> Inl (- 101)))
        | _ \<Rightarrow> Inl (- 96)))))"

fun load_markets_rows :: "'d mpd_lib \<Rightarrow> json list \<Rightarrow> nat \<Rightarrow> int \<Rightarrow> ('d, 'z) trade_state_scheme \<Rightarrow> int \<times> ('d, 'z) trade_state_scheme" where
  "load_markets_rows D [] i num s = (num, s)"
| "load_markets_rows D (row # rows) i num s =
     (case load_market_row D row of
        Inl code \<Rightarrow> (code, s)
      | Inr c \<Rightarrow>
          let (num, s) =
                (case dv_add (c_name c) Dangling (dict_market s) of
                   None \<Rightarrow> (num, s)
                 | Some d \<Rightarrow> (num + 1, s\<lparr>dict_market := d\<rparr>));
              s = s\<lparr>settings_markets := (settings_markets s)[i := Some c]\<rparr> in
          load_markets_rows D rows (i + 1) num s)"

definition load_markets_listing :: "'d mpd_lib \<Rightarrow> json \<Rightarrow> string \<Rightarrow> ('d, 'z) trade_state_scheme \<Rightarrow> int \<times> ('d, 'z) trade_state_scheme" where
  "load_markets_listing D conf key s =
     (case json_object_get conf key of
        Some (JArray rows) \<Rightarrow>
          load_markets_rows D rows 0 0 (s\<lparr>settings_markets := replicate (length rows) None\<rparr>)
      | _ \<Rightarrow> (- 61, s))"

text \<open>\<open>listing_update\<close> on what \<open>json_load_file\<close> gives for the configuration file.\<close>

definition listing_update :: "'d mpd_lib \<Rightarrow> json option \<Rightarrow> ('d, 'z) trade_state_scheme \<Rightarrow> int \<times> ('d, 'z) trade_state_scheme" where
  "listing_update D file s =
     (case file of
        None \<Rightarrow> (- 84, s)
      | Some conf \<Rightarrow>
          if \<not> json_is_object (Some conf) then (- 89, s)
          else
            let (ret, s) = load_assets_listing conf ''assets'' s in
            if ret < 0 then (- 94, s)
            else
              let num = ret; (ret, s) = load_markets_listing D conf ''markets'' s in
              if ret < 0 then (- 101, s) else (num + ret, s))"

end
