(* ===== verification/Job.thy ===== *)
theory Job
  imports Prelude
begin

text \<open>
  \<open>network/nw_job.c\<close>: a queue of requests that worker threads take and execute, and a queue of
  executed entries that the main thread disposes of. The lock makes each of the operations below
  one step; between the steps the threads run in any order.
\<close>

section \<open>State and operations\<close>

text \<open>\<open>job_running\<close> holds the entries that a worker has taken and not finished.\<close>

record 'r nw_job =
  job_requests :: "'r list"
  job_running :: "'r list"
  job_replies :: "'r list"
  job_shutdown :: bool

definition nw_job_create :: "'r nw_job" where
  "nw_job_create = \<lparr> job_requests = [], job_running = [], job_replies = [], job_shutdown = False \<rparr>"

definition request_count :: "'r nw_job \<Rightarrow> nat" where
  "request_count j = length (job_requests j)"

definition nw_job_add :: "'r \<Rightarrow> 'r nw_job \<Rightarrow> 'r nw_job" where
  "nw_job_add r j = j\<lparr>job_requests := job_requests j @ [r]\<rparr>"

text \<open>
  The first critical section of \<open>thread_routine\<close>: a worker that finds the queue shut down stops,
  whatever is waiting; otherwise it takes the first request. \<open>None\<close>: it waits or has stopped.
\<close>

definition job_take :: "'r nw_job \<Rightarrow> ('r \<times> 'r nw_job) option" where
  "job_take j =
     (if job_shutdown j then None
      else case job_requests j of
        [] \<Rightarrow> None
      | r # rs \<Rightarrow> Some (r, j\<lparr>job_requests := rs, job_running := job_running j @ [r]\<rparr>))"

text \<open>The second critical section: the \<open>i\<close>-th of the entries being executed goes to the replies.\<close>

definition job_reply :: "nat \<Rightarrow> 'r nw_job \<Rightarrow> ('r \<times> 'r nw_job) option" where
  "job_reply i j =
     (if i < length (job_running j)
      then Some (job_running j ! i,
             j\<lparr>job_running := take i (job_running j) @ drop (Suc i) (job_running j),
               job_replies := job_replies j @ [job_running j ! i]\<rparr>)
      else None)"

text \<open>\<open>on_can_read\<close> disposes of the replies, first to last.\<close>

definition job_on_can_read :: "'r nw_job \<Rightarrow> 'r list \<times> 'r nw_job" where
  "job_on_can_read j = (job_replies j, j\<lparr>job_replies := []\<rparr>)"

definition nw_job_release :: "'r nw_job \<Rightarrow> 'r nw_job" where
  "nw_job_release j = j\<lparr>job_shutdown := True\<rparr>"

section \<open>Runs\<close>

text \<open>
  The steps of a queue with \<open>n\<close> workers: a worker takes a request only when it is not executing
  one. The label says what was added, what was executed.
\<close>

datatype 'r job_label = Add 'r | Take | Executed 'r | Dispose | Release

inductive job_step :: "nat \<Rightarrow> 'r nw_job \<Rightarrow> 'r job_label \<Rightarrow> 'r nw_job \<Rightarrow> bool" for n where
  add: "job_step n j (Add r) (nw_job_add r j)"
| take: "length (job_running j) < n \<Longrightarrow> job_take j = Some (r, j') \<Longrightarrow> job_step n j Take j'"
| reply: "job_reply i j = Some (r, j') \<Longrightarrow> job_step n j (Executed r) j'"
| dispose: "job_step n j Dispose (snd (job_on_can_read j))"
| release: "job_step n j Release (nw_job_release j)"

inductive job_run :: "nat \<Rightarrow> 'r nw_job \<Rightarrow> 'r job_label list \<Rightarrow> 'r nw_job \<Rightarrow> bool" for n where
  stop: "job_run n j [] j"
| step: "job_run n j ls j' \<Longrightarrow> job_step n j' l j'' \<Longrightarrow> job_run n j (ls @ [l]) j''"

inductive_cases job_stepE: "job_step n j l j'"

fun added :: "'r job_label list \<Rightarrow> 'r list" where
  "added [] = []"
| "added (Add r # ls) = r # added ls"
| "added (_ # ls) = added ls"

fun executed :: "'r job_label list \<Rightarrow> 'r list" where
  "executed [] = []"
| "executed (Executed r # ls) = r # executed ls"
| "executed (_ # ls) = executed ls"

lemma added_snoc [simp]: "added (ls @ [l]) = added ls @ (case l of Add r \<Rightarrow> [r] | _ \<Rightarrow> [])"
  by (induction ls rule: added.induct) (auto split: job_label.split)

lemma executed_snoc [simp]: "executed (ls @ [l]) = executed ls @ (case l of Executed r \<Rightarrow> [r] | _ \<Rightarrow> [])"
  by (induction ls rule: executed.induct) (auto split: job_label.split)

lemma job_replyD:
  assumes "job_reply i j = Some (r, j')"
  shows "mset (job_running j) = add_mset r (mset (job_running j'))" "job_requests j' = job_requests j"
    "job_shutdown j' = job_shutdown j"
proof -
  from assms have i: "i < length (job_running j)" "r = job_running j ! i"
    "job_running j' = take i (job_running j) @ drop (Suc i) (job_running j)"
    and "job_requests j' = job_requests j" "job_shutdown j' = job_shutdown j"
    by (auto simp: job_reply_def split: if_splits)
  moreover from i(1) have "mset (job_running j) = add_mset (job_running j ! i)
      (mset (take i (job_running j) @ drop (Suc i) (job_running j)))"
    by (metis id_take_nth_drop mset.simps(2) mset_append union_mset_add_mset_right)
  ultimately show "mset (job_running j) = add_mset r (mset (job_running j'))" "job_requests j' = job_requests j"
    "job_shutdown j' = job_shutdown j"
    by simp_all
qed

text \<open>Nothing is lost or executed twice, whatever the number of workers.\<close>

lemma job_run_accounts:
  "job_run n j ls j' \<Longrightarrow> job_requests j = [] \<Longrightarrow> job_running j = [] \<Longrightarrow>
     mset (added ls) = mset (executed ls) + mset (job_running j') + mset (job_requests j')"
proof (induction rule: job_run.induct)
  case (stop j)
  then show ?case by simp
next
  case (step j ls j' l j'')
  from step.hyps(2) show ?case
  proof (cases rule: job_step.cases)
    case (reply i r)
    with step job_replyD [OF reply(2)] show ?thesis by simp
  qed (use step in \<open>auto simp: nw_job_add_def job_take_def job_on_can_read_def nw_job_release_def
      split: if_splits list.splits\<close>)
qed

text \<open>One worker executes the requests in the order they were added.\<close>

lemma job_run_fifo:
  "job_run 1 j ls j' \<Longrightarrow> job_requests j = [] \<Longrightarrow> job_running j = [] \<Longrightarrow>
     added ls = executed ls @ job_running j' @ job_requests j' \<and> length (job_running j') \<le> 1"
proof (induction rule: job_run.induct)
  case (stop j)
  then show ?case by simp
next
  case (step j ls j' l j'')
  note IH = step.IH [OF step.prems]
  from step.hyps(2) show ?case
  proof (cases rule: job_step.cases)
    case (reply i r)
    with IH have "i = 0" "job_running j' = [r]" "job_running j'' = []" "job_requests j'' = job_requests j'"
      by (cases "job_running j'"; auto simp: job_reply_def split: if_splits)+
    with IH reply show ?thesis by simp
  qed (use IH in \<open>auto simp: nw_job_add_def job_take_def job_on_can_read_def nw_job_release_def
      split: if_splits list.splits\<close>)
qed

text \<open>After a release no further request is taken.\<close>

lemma job_run_released:
  "job_run n j ls j' \<Longrightarrow> job_shutdown j \<Longrightarrow>
     job_shutdown j' \<and> job_requests j' = job_requests j @ added ls \<and>
     mset (job_running j) = mset (executed ls) + mset (job_running j')"
proof (induction rule: job_run.induct)
  case (stop j)
  then show ?case by simp
next
  case (step j ls j' l j'')
  note IH = step.IH [OF step.prems]
  from step.hyps(2) show ?case
  proof (cases rule: job_step.cases)
    case (reply i r)
    with IH job_replyD [OF reply(2)] show ?thesis by simp
  qed (use IH in \<open>auto simp: nw_job_add_def job_take_def job_on_can_read_def nw_job_release_def
      split: if_splits list.splits\<close>)
qed

end
