(* ===== verification/Operlog.thy ===== *)
theory Operlog
  imports Trade Text Job
begin

text \<open>
  \<open>matchengine/me_operlog.c\<close>: the log of the operations that changed the engine. Entries are
  collected in a list, a timer turns the list into one SQL statement, and one worker thread
  executes the statements.
\<close>

section \<open>State\<close>

definition MAX_PENDING_OPERLOG :: nat where
  "MAX_PENDING_OPERLOG = 100"

text \<open>\<open>ol_detail\<close> is the text of the operation, \<open>None\<close> when \<open>json_dumps\<close> gave \<open>NULL\<close>.\<close>

record operlog =
  ol_id :: u64
  ol_create_time :: timestamp
  ol_detail :: "string option"

record 'd operlog_state = "'d trade_state" +
  operlog_id_start :: u64
  oper_list :: "operlog list"
  oper_job :: "string nw_job"
  oper_table_last :: string

section \<open>Operations\<close>

definition append_operlog :: "text_lib \<Rightarrow> string \<Rightarrow> json \<Rightarrow> ('d, 'z) operlog_state_scheme \<Rightarrow> ('d, 'z) operlog_state_scheme" where
  "append_operlog J method params s =
     (let detail = JObject [];
          detail = json_object_set detail ''method'' (JString method);
          detail = json_object_set detail ''params'' params;
          s = s\<lparr>operlog_id_start := operlog_id_start s + 1\<rparr>;
          (now, s) = current_timestamp s;
          entry = \<lparr> ol_id = operlog_id_start s, ol_create_time = now, ol_detail = json_dumps_sorted J detail \<rparr> in
      s\<lparr>oper_list := oper_list s @ [entry]\<rparr>)"

text \<open>
  The values of the \<open>INSERT\<close>: the loop deletes each node after it has written it, so the length of
  the list tells whether another one follows. \<open>None\<close>: \<open>strlen\<close> of a \<open>NULL\<close> detail, or an escaped detail
  that is longer than \<open>char buf[10240]\<close>.
\<close>

definition OPERLOG_BUF :: nat where
  "OPERLOG_BUF = 10240"

fun flush_values :: "text_lib \<Rightarrow> string \<Rightarrow> operlog list \<Rightarrow> string option" where
  "flush_values J sql [] = Some sql"
| "flush_values J sql (entry # entries) =
     (case ol_detail entry of
        None \<Rightarrow> None
      | Some detail \<Rightarrow>
          (case escape_into J OPERLOG_BUF detail of
             None \<Rightarrow> None
           | Some buf \<Rightarrow>
               let sql = sql @ ''('' @ nat_digits (unat (ol_id entry)) @ '', '' @ printf_f (ol_create_time entry)
                         @ '', '' @ [CHR 0x27] @ buf @ [CHR 0x27] @ '')'';
                   sql = (if length (entry # entries) > 1 then sql @ '', '' else sql) in
               flush_values J sql entries))"

text \<open>\<open>date\<close> is the local date: year, month, day.\<close>

definition operlog_table :: "nat \<times> nat \<times> nat \<Rightarrow> string" where
  "operlog_table date = (case date of (y, m, d) \<Rightarrow>
     ''operlog_'' @ pad_digits 4 y @ pad_digits 2 m @ pad_digits 2 d)"

definition flush_log :: "text_lib \<Rightarrow> nat \<times> nat \<times> nat \<Rightarrow> ('d, 'z) operlog_state_scheme
    \<Rightarrow> ('d, 'z) operlog_state_scheme option" where
  "flush_log J date s =
     (let table = operlog_table date;
          s = (if oper_table_last s \<noteq> table then
                 s\<lparr>oper_job := nw_job_add (''CREATE TABLE IF NOT EXISTS `'' @ table @ ''` like `operlog_example`'')
                                 (oper_job s),
                   oper_table_last := table\<rparr>
               else s) in
      case flush_values J (''INSERT INTO `'' @ table @ ''` (`id`, `time`, `detail`) VALUES '') (oper_list s) of
        None \<Rightarrow> None
      | Some sql \<Rightarrow> Some (s\<lparr>oper_list := [], oper_job := nw_job_add sql (oper_job s)\<rparr>))"

definition operlog_on_timer :: "text_lib \<Rightarrow> nat \<times> nat \<times> nat \<Rightarrow> ('d, 'z) operlog_state_scheme
    \<Rightarrow> ('d, 'z) operlog_state_scheme option" where
  "operlog_on_timer J date s = (if length (oper_list s) > 0 then flush_log J date s else Some s)"

definition fini_operlog :: "text_lib \<Rightarrow> nat \<times> nat \<times> nat \<Rightarrow> ('d, 'z) operlog_state_scheme
    \<Rightarrow> ('d, 'z) operlog_state_scheme option" where
  "fini_operlog J date s =
     (case operlog_on_timer J date s of
        None \<Rightarrow> None
      | Some s \<Rightarrow> Some (s\<lparr>oper_job := nw_job_release (oper_job s)\<rparr>))"

definition is_operlog_block :: "('d, 'z) operlog_state_scheme \<Rightarrow> bool" where
  "is_operlog_block s = (request_count (oper_job s) \<ge> MAX_PENDING_OPERLOG)"

definition operlog_status :: "('d, 'z) operlog_state_scheme \<Rightarrow> string \<Rightarrow> string" where
  "operlog_status s reply =
     (let reply = reply @ ''operlog last ID: '' @ nat_digits (unat (operlog_id_start s)) @ [CHR 0x0A];
          reply = reply @ ''operlog pending: '' @ nat_digits (request_count (oper_job s)) @ [CHR 0x0A] in
      reply)"

section \<open>The ids of the log\<close>

text \<open>
  The entries that wait have consecutive ids, the last one is the id that was given last: what
  \<open>load_operlog\<close> checks when it reads them back.
\<close>

definition operlog_ok :: "('d, 'z) operlog_state_scheme \<Rightarrow> bool" where
  "operlog_ok s \<longleftrightarrow> map ol_id (oper_list s)
     = map (\<lambda>k. operlog_id_start s - of_nat (length (oper_list s)) + of_nat (Suc k)) [0..<length (oper_list s)]"

lemma append_operlog_fields [simp]:
  "operlog_id_start (append_operlog J method params s) = operlog_id_start s + 1"
  "map ol_id (oper_list (append_operlog J method params s)) = map ol_id (oper_list s) @ [operlog_id_start s + 1]"
  "oper_job (append_operlog J method params s) = oper_job s"
  by (simp_all add: append_operlog_def current_timestamp_def Let_def)

lemma append_operlog_ok: "operlog_ok s \<Longrightarrow> operlog_ok (append_operlog J method params s)"
proof -
  assume ok: "operlog_ok s"
  have "length (oper_list (append_operlog J method params s)) = Suc (length (oper_list s))"
    by (metis append_operlog_fields(2) length_append_singleton length_map)
  with ok show ?thesis
    by (simp add: operlog_ok_def)
qed

text \<open>The details that wait can be written: exactly then the timer does not leave its buffer.\<close>

definition details_fit :: "text_lib \<Rightarrow> ('d, 'z) operlog_state_scheme \<Rightarrow> bool" where
  "details_fit J s \<longleftrightarrow> (\<forall>entry \<in> set (oper_list s). \<exists>detail. ol_detail entry = Some detail \<and> length (mysql_escape J detail) < OPERLOG_BUF)"

lemma flush_values_fit: "flush_values J sql entries \<noteq> None \<longleftrightarrow>
    (\<forall>entry \<in> set entries. \<exists>detail. ol_detail entry = Some detail \<and> length (mysql_escape J detail) < OPERLOG_BUF)"
  by (induction J sql entries rule: flush_values.induct) (auto simp: escape_into_def Let_def split: option.split)

lemma flush_log_None: "flush_log J date s = None \<longleftrightarrow>
    flush_values J (''INSERT INTO `'' @ operlog_table date @ ''` (`id`, `time`, `detail`) VALUES '') (oper_list s) = None"
  unfolding flush_log_def Let_def by (cases "oper_table_last s = operlog_table date") (simp_all del: append.simps split: option.split)

lemma operlog_on_timer_fit: "operlog_on_timer J date s \<noteq> None \<longleftrightarrow> details_fit J s"
proof -
  have "flush_log J date s \<noteq> None \<longleftrightarrow> details_fit J s"
    unfolding details_fit_def flush_log_None by (rule flush_values_fit)
  moreover have "oper_list s = [] \<Longrightarrow> details_fit J s"
    by (simp add: details_fit_def)
  ultimately show ?thesis
    unfolding operlog_on_timer_def by (metis length_greater_0_conv option.distinct(1))
qed

text \<open>An accepted operation whose text does not fit: the next flush writes behind its buffer.\<close>

lemma long_detail_overflows:
  assumes "json_dumps_sorted J (JObject [(''method'', JString method), (''params'', params)]) = Some text"
    "OPERLOG_BUF \<le> length (mysql_escape J text)"
  shows "operlog_on_timer J date (append_operlog J method params s) = None"
proof -
  have "\<not> details_fit J (append_operlog J method params s)"
    using assms by (simp add: details_fit_def append_operlog_def current_timestamp_def Let_def)
  then show ?thesis
    using operlog_on_timer_fit [of J date "append_operlog J method params s"] by blast
qed

lemma operlog_ok_nil: "oper_list s = [] \<Longrightarrow> operlog_ok s"
  by (simp add: operlog_ok_def)

end
