(* ===== verification/Sql_History.thy ===== *)
theory Sql_History
  imports History Text Job
begin

text \<open>
  The rest of \<open>matchengine/me_history.c\<close>: the rows of the history tables are collected into one
  \<open>INSERT\<close> per table, a timer gives the statements to the worker threads. The detail of a balance change is
  escaped into a buffer of fixed size; \<open>None\<close>: it is longer.
\<close>

section \<open>State\<close>

definition HISTORY_HASH_NUM :: nat where "HISTORY_HASH_NUM = 100"
definition MAX_PENDING_HISTORY :: nat where "MAX_PENDING_HISTORY = 1000"

datatype history_type = HISTORY_USER_BALANCE | HISTORY_USER_ORDER | HISTORY_USER_DEAL
  | HISTORY_ORDER_DETAIL | HISTORY_ORDER_DEAL

text \<open>\<open>struct dict_sql_key\<close>: the kind of table and its number.\<close>

type_synonym dict_sql_key = "history_type \<times> nat"

record sql_state =
  dict_sql :: "(dict_sql_key, string) dict_view"
  history_job :: "string nw_job"

section \<open>Writing a row\<close>

definition sql_append_mpd :: "'d mpd_lib \<Rightarrow> string \<Rightarrow> 'd \<Rightarrow> bool \<Rightarrow> string" where
  "sql_append_mpd D sql val comma =
     (let sql = sql @ [CHR 0x27] @ mpd_to_sci D val @ [CHR 0x27] in
      if comma then sql @ '', '' else sql)"

definition get_sql :: "dict_sql_key \<Rightarrow> sql_state \<Rightarrow> string" where
  "get_sql key h = (case dv_find (dict_sql h) key of None \<Rightarrow> [] | Some sql \<Rightarrow> sql)"

text \<open>\<open>get_sql\<close> has added the entry when there was none, \<open>set_sql\<close> overwrites its value.\<close>

definition set_sql :: "dict_sql_key \<Rightarrow> string \<Rightarrow> sql_state \<Rightarrow> sql_state" where
  "set_sql key sql h = h\<lparr>dict_sql := dv_put key sql (dict_sql h)\<rparr>"

text \<open>What all five writers share: the head of the statement or a comma, then the row.\<close>

definition append_row :: "dict_sql_key \<Rightarrow> string \<Rightarrow> string \<Rightarrow> sql_state \<Rightarrow> sql_state" where
  "append_row key head row h =
     (let sql = get_sql key h;
          sql = (if length sql = 0 then head else sql @ '', '') in
      set_sql key (sql @ row) h)"

text \<open>\<open>%s\<close> of a string in quotes, a \<open>NULL\<close> is written as the C library does; \<open>%u\<close> and \<open>PRIu64\<close>.\<close>

definition sql_str :: "string \<Rightarrow> string" where
  "sql_str str = [CHR 0x27] @ str @ [CHR 0x27]"

definition sql_source :: "string option \<Rightarrow> string" where
  "sql_source source = sql_str (case source of Some str \<Rightarrow> str | None \<Rightarrow> ''(null)'')"

definition sql_u :: "'a::len word \<Rightarrow> string" where
  "sql_u w = nat_digits (unat w)"

definition order_columns :: string where
  "order_columns = ''` (`id`, `create_time`, `finish_time`, `user_id`, `market`, `source`, `t`, `side`, `price`, `amount`, `taker_fee`, `maker_fee`, `deal_stock`, `deal_money`, `deal_fee`) VALUES ''"

definition order_row :: "'d mpd_lib \<Rightarrow> 'd order \<Rightarrow> string" where
  "order_row D order =
     (let sql = ''('' @ sql_u (o_id order) @ '', '' @ printf_f (o_create_time order) @ '', ''
                @ printf_f (o_update_time order) @ '', '' @ sql_u (o_user_id order) @ '', ''
                @ sql_str (o_market order) @ '', '' @ sql_source (o_source order) @ '', ''
                @ sql_u (o_type order) @ '', '' @ sql_u (o_side order) @ '', '';
          sql = sql_append_mpd D sql (o_price order) True;
          sql = sql_append_mpd D sql (o_amount order) True;
          sql = sql_append_mpd D sql (o_taker_fee order) True;
          sql = sql_append_mpd D sql (o_maker_fee order) True;
          sql = sql_append_mpd D sql (o_deal_stock order) True;
          sql = sql_append_mpd D sql (o_deal_money order) True;
          sql = sql_append_mpd D sql (o_deal_fee order) False in
      sql @ '')'')"

definition append_user_order :: "'d mpd_lib \<Rightarrow> 'd order \<Rightarrow> sql_state \<Rightarrow> sql_state" where
  "append_user_order D order h =
     (let hash = unat (o_user_id order) mod HISTORY_HASH_NUM in
      append_row (HISTORY_USER_ORDER, hash) (''INSERT INTO `order_history_'' @ nat_digits hash @ order_columns)
        (order_row D order) h)"

definition append_order_detail :: "'d mpd_lib \<Rightarrow> 'd order \<Rightarrow> sql_state \<Rightarrow> sql_state" where
  "append_order_detail D order h =
     (let hash = unat (o_id order) mod HISTORY_HASH_NUM in
      append_row (HISTORY_ORDER_DETAIL, hash) (''INSERT INTO `order_detail_'' @ nat_digits hash @ order_columns)
        (order_row D order) h)"

definition deal_amounts :: "'d mpd_lib \<Rightarrow> string \<Rightarrow> 'd \<Rightarrow> 'd \<Rightarrow> 'd \<Rightarrow> 'd \<Rightarrow> 'd \<Rightarrow> string" where
  "deal_amounts D sql price amount deal fee deal_fee =
     (let sql = sql_append_mpd D sql price True;
          sql = sql_append_mpd D sql amount True;
          sql = sql_append_mpd D sql deal True;
          sql = sql_append_mpd D sql fee True;
          sql = sql_append_mpd D sql deal_fee False in
      sql @ '')'')"

definition append_order_deal :: "'d mpd_lib \<Rightarrow> timestamp \<Rightarrow> u32 \<Rightarrow> u64 \<Rightarrow> u64 \<Rightarrow> u64 \<Rightarrow> u32
    \<Rightarrow> 'd \<Rightarrow> 'd \<Rightarrow> 'd \<Rightarrow> 'd \<Rightarrow> 'd \<Rightarrow> sql_state \<Rightarrow> sql_state" where
  "append_order_deal D t user_id deal_id order_id deal_order_id role price amount deal fee deal_fee h =
     (let hash = unat order_id mod HISTORY_HASH_NUM in
      append_row (HISTORY_ORDER_DEAL, hash)
        (''INSERT INTO `deal_history_'' @ nat_digits hash @ ''` (`id`, `time`, `user_id`, `deal_id`, `order_id`, `deal_order_id`, `role`, `price`, `amount`, `deal`, `fee`, `deal_fee`) VALUES '')
        (deal_amounts D (''(NULL, '' @ printf_f t @ '', '' @ sql_u user_id @ '', '' @ sql_u deal_id @ '', ''
           @ sql_u order_id @ '', '' @ sql_u deal_order_id @ '', '' @ sql_u role @ '', '')
           price amount deal fee deal_fee) h)"

definition append_user_deal :: "'d mpd_lib \<Rightarrow> timestamp \<Rightarrow> u32 \<Rightarrow> string \<Rightarrow> u64 \<Rightarrow> u64 \<Rightarrow> u64 \<Rightarrow> u32 \<Rightarrow> u32
    \<Rightarrow> 'd \<Rightarrow> 'd \<Rightarrow> 'd \<Rightarrow> 'd \<Rightarrow> 'd \<Rightarrow> sql_state \<Rightarrow> sql_state" where
  "append_user_deal D t user_id market deal_id order_id deal_order_id side role price amount deal fee deal_fee h =
     (let hash = unat user_id mod HISTORY_HASH_NUM in
      append_row (HISTORY_USER_DEAL, hash)
        (''INSERT INTO `user_deal_history_'' @ nat_digits hash @ ''` (`id`, `time`, `user_id`, `market`, `deal_id`, `order_id`, `deal_order_id`, `side`, `role`, `price`, `amount`, `deal`, `fee`, `deal_fee`) VALUES '')
        (deal_amounts D (''(NULL, '' @ printf_f t @ '', '' @ sql_u user_id @ '', '' @ sql_str market @ '', ''
           @ sql_u deal_id @ '', '' @ sql_u order_id @ '', '' @ sql_u deal_order_id @ '', ''
           @ sql_u side @ '', '' @ sql_u role @ '', '')
           price amount deal fee deal_fee) h)"

text \<open>\<open>None\<close>: the escaped detail is longer than \<open>char buf[10 * 1024]\<close>.\<close>

definition HISTORY_BUF :: nat where "HISTORY_BUF = 10 * 1024"

definition append_user_balance :: "'d mpd_lib \<Rightarrow> text_lib \<Rightarrow> timestamp \<Rightarrow> u32 \<Rightarrow> string \<Rightarrow> string \<Rightarrow> 'd \<Rightarrow> 'd \<Rightarrow> string
    \<Rightarrow> sql_state \<Rightarrow> sql_state option" where
  "append_user_balance D J t user_id asset business change balance detail h =
     (let hash = unat user_id mod HISTORY_HASH_NUM;
          sql = ''(NULL, '' @ printf_f t @ '', '' @ sql_u user_id @ '', '' @ sql_str asset @ '', ''
                @ sql_str business @ '', '';
          sql = sql_append_mpd D sql change True;
          sql = sql_append_mpd D sql balance True in
      map_option (\<lambda>buf. append_row (HISTORY_USER_BALANCE, hash)
          (''INSERT INTO `balance_history_'' @ nat_digits hash @ ''` (`id`, `time`, `user_id`, `asset`, `business`, `change`, `balance`, `detail`) VALUES '')
          (sql @ sql_str buf @ '')'') h)
        (escape_into J HISTORY_BUF detail))"

section \<open>The timer, the end and the status\<close>

definition history_on_timer :: "sql_state \<Rightarrow> sql_state" where
  "history_on_timer h =
     h\<lparr>dict_sql := [], history_job := fold (\<lambda>(key, sql). nw_job_add sql) (dict_sql h) (history_job h)\<rparr>"

definition fini_history :: "sql_state \<Rightarrow> sql_state" where
  "fini_history h = (let h = history_on_timer h in h\<lparr>history_job := nw_job_release (history_job h)\<rparr>)"

definition is_history_block :: "sql_state \<Rightarrow> bool" where
  "is_history_block h = (request_count (history_job h) \<ge> MAX_PENDING_HISTORY)"

definition history_status :: "sql_state \<Rightarrow> string \<Rightarrow> string" where
  "history_status h reply =
     reply @ ''history pending '' @ nat_digits (request_count (history_job h)) @ [CHR 0x0A]"

section \<open>One statement for many rows\<close>

lemma append_row_find:
  "dv_find (dict_sql (append_row key head row h)) key' =
     (if key' = key then Some ((if get_sql key h = [] then head else get_sql key h @ '', '') @ row)
      else dv_find (dict_sql h) key')"
  by (simp add: append_row_def set_sql_def Let_def)

fun comma_rows :: "string list \<Rightarrow> string" where
  "comma_rows [] = []"
| "comma_rows [row] = row"
| "comma_rows (row # rows) = row @ '', '' @ comma_rows rows"

lemma comma_rows_snoc: "rows \<noteq> [] \<Longrightarrow> comma_rows (rows @ [row]) = comma_rows rows @ '', '' @ row"
  by (induction rows rule: comma_rows.induct) auto

lemma append_rows:
  assumes "head \<noteq> []" "dv_find (dict_sql h) key = None" "rows \<noteq> []"
  shows "dv_find (dict_sql (fold (append_row key head) rows h)) key = Some (head @ comma_rows rows)"
  using assms(3)
proof (induction rows rule: rev_induct)
  case Nil
  then show ?case by simp
next
  case (snoc row rows)
  show ?case
  proof (cases "rows = []")
    case True
    then show ?thesis
      using assms(2) by (simp add: append_row_find get_sql_def)
  next
    case False
    from snoc.IH [OF False] have "get_sql key (fold (append_row key head) rows h) = head @ comma_rows rows"
      by (simp add: get_sql_def)
    with assms(1) False show ?thesis
      by (simp add: append_row_find comma_rows_snoc)
  qed
qed

lemma fold_job_add: "job_requests (fold (\<lambda>(key, sql). nw_job_add sql) d j) = job_requests j @ map snd d"
  by (induction d arbitrary: j) (auto simp: nw_job_add_def)

end
