(* ===== verification/Message_Queue.thy ===== *)
theory Message_Queue
  imports History Text
begin

text \<open>
  The rest of \<open>matchengine/me_message.c\<close>: messages go to Kafka at once while nothing is waiting for
  their topic; when Kafka's queue is full they wait in a list that a timer works off.
\<close>

section \<open>State\<close>

definition MAX_PENDING_MESSAGE :: nat where "MAX_PENDING_MESSAGE = 1000"

text \<open>
  What \<open>rd_kafka_produce\<close> answers is the environment's: \<open>kafka\<close> is the sequence of its answers,
  \<open>produces\<close> how often it was called. \<open>produced\<close> are the messages it accepted.
\<close>

datatype produce_result = Produced | QueueFull | ProduceError

record message_state =
  lists :: "topic \<Rightarrow> string list"
  kafka :: "nat \<Rightarrow> produce_result"
  produces :: nat
  produced :: "(topic \<times> string) list"

definition rd_kafka_produce :: "topic \<Rightarrow> string \<Rightarrow> message_state \<Rightarrow> produce_result \<times> message_state" where
  "rd_kafka_produce topic message q =
     (let answer = kafka q (produces q); q = q\<lparr>produces := produces q + 1\<rparr> in
      (answer, if answer = Produced then q\<lparr>produced := produced q @ [(topic, message)]\<rparr> else q))"

definition list_add_message :: "topic \<Rightarrow> string \<Rightarrow> message_state \<Rightarrow> message_state" where
  "list_add_message topic message q = q\<lparr>lists := (lists q)(topic := lists q topic @ [message])\<rparr>"

section \<open>Operations\<close>

definition push_message :: "string \<Rightarrow> topic \<Rightarrow> message_state \<Rightarrow> int \<times> message_state" where
  "push_message message topic q =
     (if length (lists q topic) \<noteq> 0 then (0, list_add_message topic message q)
      else
        let (answer, q) = rd_kafka_produce topic message q in
        case answer of
          Produced \<Rightarrow> (0, q)
        | QueueFull \<Rightarrow> (0, list_add_message topic message q)
        | ProduceError \<Rightarrow> (- 172, q))"

text \<open>
  \<open>produce_list\<close>: the loop stops at a full queue; a message that fails otherwise is deleted like
  one that is accepted. The result is what stays in the list.
\<close>

fun produce_list :: "topic \<Rightarrow> string list \<Rightarrow> message_state \<Rightarrow> string list \<times> message_state" where
  "produce_list topic [] q = ([], q)"
| "produce_list topic (message # messages) q =
     (let (answer, q) = rd_kafka_produce topic message q in
      if answer = QueueFull then (message # messages, q) else produce_list topic messages q)"

definition produce_topic :: "topic \<Rightarrow> message_state \<Rightarrow> message_state" where
  "produce_topic topic q =
     (if length (lists q topic) \<noteq> 0 then
        let (left, q) = produce_list topic (lists q topic) q in q\<lparr>lists := (lists q)(topic := left)\<rparr>
      else q)"

definition message_on_timer :: "message_state \<Rightarrow> message_state" where
  "message_on_timer q =
     (let q = produce_topic TopicBalances q; q = produce_topic TopicOrders q; q = produce_topic TopicDeals q in q)"

definition is_message_block :: "message_state \<Rightarrow> bool" where
  "is_message_block q =
     (if length (lists q TopicDeals) \<ge> MAX_PENDING_MESSAGE then True
      else if length (lists q TopicOrders) \<ge> MAX_PENDING_MESSAGE then True
      else if length (lists q TopicBalances) \<ge> MAX_PENDING_MESSAGE then True
      else False)"

definition message_status :: "message_state \<Rightarrow> string \<Rightarrow> string" where
  "message_status q reply =
     (let reply = reply @ ''message deals pending: '' @ nat_digits (length (lists q TopicDeals)) @ [CHR 0x0A];
          reply = reply @ ''message orders pending: '' @ nat_digits (length (lists q TopicOrders)) @ [CHR 0x0A];
          reply = reply @ ''message balances pending: '' @ nat_digits (length (lists q TopicBalances)) @ [CHR 0x0A] in
      reply)"

section \<open>Order of delivery\<close>

text \<open>The messages of a topic: accepted and waiting.\<close>

definition accepted :: "topic \<Rightarrow> message_state \<Rightarrow> string list" where
  "accepted topic q = map snd (filter (\<lambda>e. fst e = topic) (produced q))"

definition stream :: "topic \<Rightarrow> message_state \<Rightarrow> string list" where
  "stream topic q = accepted topic q @ lists q topic"

lemma rd_kafka_produce_fields:
  assumes "rd_kafka_produce topic message q = (answer, q')"
  shows "lists q' = lists q" "kafka q' = kafka q"
    "accepted t q' = accepted t q @ (if answer = Produced \<and> t = topic then [message] else [])"
    "answer = kafka q (produces q)" "produces q' = produces q + 1"
  using assms by (auto simp: rd_kafka_produce_def accepted_def Let_def split: if_splits)

lemma produce_list_stream:
  assumes "\<forall>n. kafka q n \<noteq> ProduceError" "produce_list topic messages q = (left, q')"
  shows "lists q' = lists q \<and> kafka q' = kafka q \<and> accepted topic q' @ left = accepted topic q @ messages
    \<and> (\<forall>t. t \<noteq> topic \<longrightarrow> accepted t q' = accepted t q)"
  using assms
proof (induction messages arbitrary: q)
  case Nil
  then show ?case by simp
next
  case (Cons message messages)
  obtain answer q1 where p: "rd_kafka_produce topic message q = (answer, q1)"
    by fastforce
  note f = rd_kafka_produce_fields [OF p]
  show ?case
  proof (cases "answer = QueueFull")
    case True
    with Cons.prems p f show ?thesis by simp
  next
    case False
    with f(4) Cons.prems(1) have "answer = Produced"
      by (metis produce_result.exhaust)
    moreover from False Cons.prems(2) p have "produce_list topic messages q1 = (left, q')"
      by simp
    moreover have "\<forall>n. kafka q1 n \<noteq> ProduceError"
      using Cons.prems(1) f(2) by simp
    ultimately show ?thesis
      using Cons.IH [of q1] f by simp
  qed
qed

lemma produce_topic_stream:
  assumes "\<forall>n. kafka q n \<noteq> ProduceError"
  shows "kafka (produce_topic topic q) = kafka q \<and> stream t (produce_topic topic q) = stream t q"
proof -
  obtain left q' where "produce_list topic (lists q topic) q = (left, q')"
    by fastforce
  from produce_list_stream [OF assms this] this show ?thesis
    by (cases "t = topic") (auto simp: produce_topic_def stream_def accepted_def)
qed

lemma push_message_stream:
  assumes "\<forall>n. kafka q n \<noteq> ProduceError" "push_message message topic q = (ret, q')"
  shows "kafka q' = kafka q \<and> stream t q' = stream t q @ (if t = topic then [message] else [])"
proof (cases "lists q topic = []")
  case True
  obtain answer q1 where p: "rd_kafka_produce topic message q = (answer, q1)"
    by fastforce
  note f = rd_kafka_produce_fields [OF p]
  from f(4) assms(1) have "answer \<noteq> ProduceError" by metis
  with True p assms(2) f show ?thesis
    by (cases answer) (auto simp: push_message_def stream_def list_add_message_def accepted_def)
next
  case False
  with assms(2) show ?thesis
    by (auto simp: push_message_def stream_def list_add_message_def accepted_def)
qed

end
