(* ===== verification/Server.thy ===== *)
theory Server
  imports Operlog Sql_History Message_Queue Rpc
begin

text \<open>
  \<open>matchengine/me_server.c\<close>: the commands of the engine. A handler gets the session, the packet and
  the decoded parameters; it returns its result code and the new state, or \<open>None\<close> when the code
  does not come back with a defined state (an endless loop, a read through a dangling pointer, an
  array element that was never written, a \<open>NULL\<close> string).
\<close>

section \<open>State\<close>

record cache_val =
  cv_time :: timestamp
  cv_result :: json

text \<open>
  \<open>sent\<close> are the bytes given to \<open>nw_ses_send\<close>, by session; \<open>closed\<close> the sessions that were closed.
\<close>

record 'd server_state = "'d operlog_state" +
  settings_debug :: bool
  cache_timeout :: rat
  dict_cache :: "(string, cache_val) dict_view"
  hist :: sql_state
  msgs :: message_state
  sent :: "(nat \<times> byte list) list"
  closed :: "nat list"

definition ORDER_BOOK_MAX_LEN :: u64 where "ORDER_BOOK_MAX_LEN = 101"
definition ORDER_LIST_MAX_LEN :: u64 where "ORDER_LIST_MAX_LEN = 101"
definition SOURCE_MAX_LEN :: nat where "SOURCE_MAX_LEN = 31"

definition string_bytes :: "string \<Rightarrow> byte list" where
  "string_bytes str = map of_char str"

definition bytes_string :: "byte list \<Rightarrow> string" where
  "bytes_string bs = map (\<lambda>b. char_of (unat b)) bs"

text \<open>The text of a packet's body.\<close>

definition pkg_body :: "rpc_pkg \<Rightarrow> string" where
  "pkg_body pkg = bytes_string (take (unat (rp_body_size pkg)) (rp_body pkg))"

section \<open>Replies\<close>

definition rpc_send :: "nat \<Rightarrow> rpc_pkg \<Rightarrow> ('d, 'z) server_state_scheme \<Rightarrow> ('d, 'z) server_state_scheme" where
  "rpc_send ses pkg s =
     (case rpc_pack pkg of None \<Rightarrow> s | Some data \<Rightarrow> s\<lparr>sent := sent s @ [(ses, data)]\<rparr>)"

definition reply_json :: "text_lib \<Rightarrow> nat \<Rightarrow> rpc_pkg \<Rightarrow> json \<Rightarrow> ('d, 'z) server_state_scheme
    \<Rightarrow> int \<times> ('d, 'z) server_state_scheme" where
  "reply_json J ses pkg msg s =
     (case (if settings_debug s then json_dumps_indent J msg else json_dumps J msg) of
        None \<Rightarrow> (- 34, s)
      | Some message_data \<Rightarrow>
          let reply = pkg\<lparr>rp_pkg_type := RPC_PKG_TYPE_REPLY, rp_body := string_bytes message_data,
                          rp_body_size := of_nat (length message_data)\<rparr> in
          (0, rpc_send ses reply s))"

definition error_json :: "u64 \<Rightarrow> int \<Rightarrow> string \<Rightarrow> json" where
  "error_json req_id code message =
     (let error = JObject [];
          error = json_object_set error ''code'' (JInteger code);
          error = json_object_set error ''message'' (JString message);
          reply = JObject [];
          reply = json_object_set reply ''error'' error;
          reply = json_object_set reply ''result'' JNull;
          reply = json_object_set reply ''id'' (json_u64 req_id) in
      reply)"

definition reply_error :: "text_lib \<Rightarrow> nat \<Rightarrow> rpc_pkg \<Rightarrow> int \<Rightarrow> string \<Rightarrow> ('d, 'z) server_state_scheme
    \<Rightarrow> int \<times> ('d, 'z) server_state_scheme" where
  "reply_error J ses pkg code message s = reply_json J ses pkg (error_json (rp_req_id pkg) code message) s"

definition reply_error_invalid_argument :: "text_lib \<Rightarrow> nat \<Rightarrow> rpc_pkg \<Rightarrow> ('d, 'z) server_state_scheme
    \<Rightarrow> int \<times> ('d, 'z) server_state_scheme" where
  "reply_error_invalid_argument J ses pkg s = reply_error J ses pkg 1 ''invalid argument'' s"

definition reply_error_internal_error :: "text_lib \<Rightarrow> nat \<Rightarrow> rpc_pkg \<Rightarrow> ('d, 'z) server_state_scheme
    \<Rightarrow> int \<times> ('d, 'z) server_state_scheme" where
  "reply_error_internal_error J ses pkg s = reply_error J ses pkg 2 ''internal error'' s"

definition reply_error_service_unavailable :: "text_lib \<Rightarrow> nat \<Rightarrow> rpc_pkg \<Rightarrow> ('d, 'z) server_state_scheme
    \<Rightarrow> int \<times> ('d, 'z) server_state_scheme" where
  "reply_error_service_unavailable J ses pkg s = reply_error J ses pkg 3 ''service unavailable'' s"

definition result_json :: "u64 \<Rightarrow> json \<Rightarrow> json" where
  "result_json req_id result =
     (let reply = JObject [];
          reply = json_object_set reply ''error'' JNull;
          reply = json_object_set reply ''result'' result;
          reply = json_object_set reply ''id'' (json_u64 req_id) in
      reply)"

definition reply_result :: "text_lib \<Rightarrow> nat \<Rightarrow> rpc_pkg \<Rightarrow> json \<Rightarrow> ('d, 'z) server_state_scheme
    \<Rightarrow> int \<times> ('d, 'z) server_state_scheme" where
  "reply_result J ses pkg result s = reply_json J ses pkg (result_json (rp_req_id pkg) result) s"

definition reply_success :: "text_lib \<Rightarrow> nat \<Rightarrow> rpc_pkg \<Rightarrow> ('d, 'z) server_state_scheme
    \<Rightarrow> int \<times> ('d, 'z) server_state_scheme" where
  "reply_success J ses pkg s =
     reply_result J ses pkg (json_object_set (JObject []) ''status'' (JString ''success'')) s"

section \<open>The cache of the depth command\<close>

definition cache_key :: "rpc_pkg \<Rightarrow> string" where
  "cache_key pkg = nat_digits (unat (rp_command pkg)) @ pkg_body pkg"

text \<open>The first result says whether the reply came from the cache.\<close>

definition process_cache :: "text_lib \<Rightarrow> nat \<Rightarrow> rpc_pkg \<Rightarrow> ('d, 'z) server_state_scheme
    \<Rightarrow> bool \<times> ('d, 'z) server_state_scheme" where
  "process_cache J ses pkg s =
     (case dv_find (dict_cache s) (cache_key pkg) of
        None \<Rightarrow> (False, s)
      | Some cache \<Rightarrow>
          let (now, s) = current_timestamp s in
          if now - cv_time cache > cache_timeout s
          then (False, s\<lparr>dict_cache := dv_delete (cache_key pkg) (dict_cache s)\<rparr>)
          else (True, snd (reply_result J ses pkg (cv_result cache) s)))"

definition add_cache :: "string \<Rightarrow> json \<Rightarrow> ('d, 'z) server_state_scheme \<Rightarrow> ('d, 'z) server_state_scheme" where
  "add_cache key result s =
     (let (now, s) = current_timestamp s in
      s\<lparr>dict_cache := dv_put key \<lparr> cv_time = now, cv_result = result \<rparr> (dict_cache s)\<rparr>)"

definition on_cache_timer :: "('d, 'z) server_state_scheme \<Rightarrow> ('d, 'z) server_state_scheme" where
  "on_cache_timer s = s\<lparr>dict_cache := []\<rparr>"

section \<open>Balances\<close>

definition show_balance :: "'d mpd_lib \<Rightarrow> ('d, 'z) server_state_scheme \<Rightarrow> u32 \<Rightarrow> u32 \<Rightarrow> string \<Rightarrow> string \<Rightarrow> json \<Rightarrow> json" where
  "show_balance D s user_id type asset key unit =
     (case balance_get s user_id type asset of
        Some balance \<Rightarrow>
          if asset_prec s asset \<noteq> asset_prec_show s asset
          then json_object_set_new_mpd D unit key (mpd_rescale D balance (- asset_prec_show s asset))
          else json_object_set_new_mpd D unit key balance
      | None \<Rightarrow> json_object_set unit key (JString ''0''))"

definition balance_unit :: "'d mpd_lib \<Rightarrow> ('d, 'z) server_state_scheme \<Rightarrow> u32 \<Rightarrow> string \<Rightarrow> json" where
  "balance_unit D s user_id asset =
     (let unit = JObject [];
          unit = show_balance D s user_id BALANCE_TYPE_AVAILABLE asset ''available'' unit;
          unit = show_balance D s user_id BALANCE_TYPE_FREEZE asset ''freeze'' unit in
      unit)"

text \<open>Without asset names all assets of the settings, else the ones named.\<close>

fun query_settings :: "'d mpd_lib \<Rightarrow> ('d, 'z) server_state_scheme \<Rightarrow> u32 \<Rightarrow> asset option list \<Rightarrow> json \<Rightarrow> json option" where
  "query_settings D s user_id [] result = Some result"
| "query_settings D s user_id (None # assets) result = None"
| "query_settings D s user_id (Some a # assets) result =
     query_settings D s user_id assets (json_object_set result (a_name a) (balance_unit D s user_id (a_name a)))"

fun query_names :: "'d mpd_lib \<Rightarrow> ('d, 'z) server_state_scheme \<Rightarrow> u32 \<Rightarrow> json list \<Rightarrow> json \<Rightarrow> json option" where
  "query_names D s user_id [] result = Some result"
| "query_names D s user_id (name # names) result =
     (case json_string_value (Some name) of
        None \<Rightarrow> None
      | Some asset \<Rightarrow>
          if \<not> asset_exist s asset then None
          else query_names D s user_id names (json_object_set result asset (balance_unit D s user_id asset)))"

text \<open>The elements of the parameter array.\<close>

fun json_elements :: "json \<Rightarrow> json list" where
  "json_elements (JArray xs) = xs"
| "json_elements _ = []"

definition on_cmd_balance_query :: "'d mpd_lib \<Rightarrow> text_lib \<Rightarrow> nat \<Rightarrow> rpc_pkg \<Rightarrow> json \<Rightarrow> ('d, 'z) server_state_scheme
    \<Rightarrow> (int \<times> ('d, 'z) server_state_scheme) option" where
  "on_cmd_balance_query D J ses pkg params s =
     (let request_size = json_array_size params; invalid = Some (reply_error_invalid_argument J ses pkg s) in
      if request_size = 0 then invalid
      else if \<not> json_is_integer (json_array_get params 0) then invalid
      else
        let user_id = word_of_int (json_integer_value (json_array_get params 0)) in
        if user_id = 0 then invalid
        else if request_size = 1 then
          (case query_settings D s user_id (settings_assets s) (JObject []) of
             None \<Rightarrow> None
           | Some result \<Rightarrow> Some (reply_result J ses pkg result s))
        else
          (case query_names D s user_id (drop 1 (json_elements params)) (JObject []) of
             None \<Rightarrow> invalid
           | Some result \<Rightarrow> Some (reply_result J ses pkg result s)))"

text \<open>The update adds an id to the detail object, which is an element of the parameters.\<close>

fun json_set_element :: "json \<Rightarrow> nat \<Rightarrow> json \<Rightarrow> json" where
  "json_set_element (JArray xs) i x = JArray (xs[i := x])"
| "json_set_element j _ _ = j"

definition on_cmd_balance_update :: "'d mpd_lib \<Rightarrow> text_lib \<Rightarrow> nat \<Rightarrow> rpc_pkg \<Rightarrow> json \<Rightarrow> ('d, 'z) server_state_scheme
    \<Rightarrow> (int \<times> ('d, 'z) server_state_scheme) option" where
  "on_cmd_balance_update D J ses pkg params s =
     (let arg = json_array_get params; invalid = Some (reply_error_invalid_argument J ses pkg s) in
      if json_array_size params \<noteq> 6 then invalid
      else if \<not> json_is_integer (arg 0) then invalid
      else if \<not> json_is_string (arg 1) then invalid
      else
        let user_id = word_of_int (json_integer_value (arg 0));
            asset = json_str (arg 1);
            prec = asset_prec_show s asset in
        if prec < 0 then invalid
        else if \<not> json_is_string (arg 2) then invalid
        else if \<not> json_is_integer (arg 3) then invalid
        else if \<not> json_is_string (arg 4) then invalid
        else
          let business = json_str (arg 2); business_id = word_of_int (json_integer_value (arg 3)) in
          case decimal D (json_str (arg 4)) prec of
            None \<Rightarrow> invalid
          | Some change \<Rightarrow>
              (case arg 5 of
                 Some (JObject detail) \<Rightarrow>
                   let (ret, detail, s) =
                         update_user_balance D True user_id asset business business_id change (JObject detail) s;
                       params = json_set_element params 5 detail in
                   if ret = - 1 then Some (reply_error J ses pkg 10 ''repeat update'' s)
                   else if ret = - 2 then Some (reply_error J ses pkg 11 ''balance not enough'' s)
                   else if ret < 0 then Some (reply_error_internal_error J ses pkg s)
                   else Some (reply_success J ses pkg (append_operlog J ''update_balance'' params s))
               | _ \<Rightarrow> invalid))"

fun asset_list :: "asset option list \<Rightarrow> json list option" where
  "asset_list [] = Some []"
| "asset_list (None # assets) = None"
| "asset_list (Some a # assets) =
     map_option ((#) (json_object_set (json_object_set (JObject []) ''name'' (JString (a_name a)))
                        ''prec'' (JInteger (a_prec_show a)))) (asset_list assets)"

definition on_cmd_asset_list :: "text_lib \<Rightarrow> nat \<Rightarrow> rpc_pkg \<Rightarrow> json \<Rightarrow> ('d, 'z) server_state_scheme
    \<Rightarrow> (int \<times> ('d, 'z) server_state_scheme) option" where
  "on_cmd_asset_list J ses pkg params s =
     map_option (\<lambda>result. reply_result J ses pkg (JArray result) s) (asset_list (settings_assets s))"

end
