(* ===== verification/Order_Commands.thy ===== *)
theory Order_Commands
  imports Server
begin

text \<open>\<open>matchengine/me_server.c\<close>, continued: the commands on orders, books and markets.\<close>

section \<open>The arguments of an order\<close>

text \<open>
  \<open>decimal_arg\<close>: a string argument that is a decimal number for which the test of the code does not
  fail. \<open>fee_bad\<close> and \<open>not_positive\<close> are those tests.
\<close>

definition decimal_arg :: "'d mpd_lib \<Rightarrow> json option \<Rightarrow> int \<Rightarrow> ('d \<Rightarrow> bool) \<Rightarrow> 'd option" where
  "decimal_arg D arg prec bad =
     (if \<not> json_is_string arg then None
      else case decimal D (json_str arg) prec of
        None \<Rightarrow> None
      | Some x \<Rightarrow> if bad x then None else Some x)"

definition not_positive :: "'d mpd_lib \<Rightarrow> 'd \<Rightarrow> bool" where
  "not_positive D x = (mpd_cmp D x (mpd_zero D) \<le> 0)"

definition fee_bad :: "'d mpd_lib \<Rightarrow> 'd \<Rightarrow> bool" where
  "fee_bad D x = (mpd_cmp D x (mpd_zero D) < 0 \<or> mpd_cmp D x (mpd_one D) \<ge> 0)"

text \<open>The user, the market's name and the side, which both order commands and their loaders start with.\<close>

definition side_bad :: "u32 \<Rightarrow> bool" where
  "side_bad side = (side \<noteq> MARKET_ORDER_SIDE_ASK \<and> side \<noteq> MARKET_ORDER_SIDE_BID)"

section \<open>Putting orders\<close>

definition on_cmd_order_put_limit :: "'d mpd_lib \<Rightarrow> text_lib \<Rightarrow> nat \<Rightarrow> rpc_pkg \<Rightarrow> json \<Rightarrow> ('d, 'z) server_state_scheme
    \<Rightarrow> (int \<times> ('d, 'z) server_state_scheme) option" where
  "on_cmd_order_put_limit D J ses pkg params s =
     (let arg = json_array_get params; invalid = Some (reply_error_invalid_argument J ses pkg s) in
      if json_array_size params \<noteq> 8 then invalid
      else if \<not> json_is_integer (arg 0) then invalid
      else if \<not> json_is_string (arg 1) then invalid
      else
        let user_id = word_of_int (json_integer_value (arg 0)); market_name = json_str (arg 1) in
        case get_market s market_name of
          None \<Rightarrow> invalid
        | Some ptr \<Rightarrow>
            if \<not> json_is_integer (arg 2) then invalid
            else
              let side = word_of_int (json_integer_value (arg 2)) in
              if side_bad side then invalid
              else if \<not> json_is_string (arg 3) then invalid
              else case ptr of
                Dangling \<Rightarrow> None
              | Market market \<Rightarrow>
                  (case decimal_arg D (arg 3) (m_stock_prec market) (not_positive D) of
                     None \<Rightarrow> invalid
                   | Some amount \<Rightarrow>
                  (case decimal_arg D (arg 4) (m_money_prec market) (not_positive D) of
                     None \<Rightarrow> invalid
                   | Some price \<Rightarrow>
                  (case decimal_arg D (arg 5) (m_fee_prec market) (fee_bad D) of
                     None \<Rightarrow> invalid
                   | Some taker_fee \<Rightarrow>
                  (case decimal_arg D (arg 6) (m_fee_prec market) (fee_bad D) of
                     None \<Rightarrow> invalid
                   | Some maker_fee \<Rightarrow>
                     if \<not> json_is_string (arg 7) then invalid
                     else if length (json_str (arg 7)) \<ge> SOURCE_MAX_LEN then invalid
                     else
                       let (ret, result, market, s) =
                             market_put_limit_order D True market s user_id side amount price taker_fee maker_fee
                               (json_str (arg 7));
                           s = set_market market_name market s in
                       if ret = - 1 then Some (reply_error J ses pkg 10 ''balance not enough'' s)
                       else if ret = - 2 then Some (reply_error J ses pkg 11 ''amount too small'' s)
                       else if ret < 0 then Some (reply_error_internal_error J ses pkg s)
                       else
                         let s = append_operlog J ''limit_order'' params s in
                         (case result of
                            None \<Rightarrow> None
                          | Some result \<Rightarrow> Some (reply_result J ses pkg result s)))))))"

definition on_cmd_order_put_market :: "'d mpd_lib \<Rightarrow> text_lib \<Rightarrow> nat \<Rightarrow> rpc_pkg \<Rightarrow> json \<Rightarrow> ('d, 'z) server_state_scheme
    \<Rightarrow> (int \<times> ('d, 'z) server_state_scheme) option" where
  "on_cmd_order_put_market D J ses pkg params s =
     (let arg = json_array_get params; invalid = Some (reply_error_invalid_argument J ses pkg s) in
      if json_array_size params \<noteq> 6 then invalid
      else if \<not> json_is_integer (arg 0) then invalid
      else if \<not> json_is_string (arg 1) then invalid
      else
        let user_id = word_of_int (json_integer_value (arg 0)); market_name = json_str (arg 1) in
        case get_market s market_name of
          None \<Rightarrow> invalid
        | Some ptr \<Rightarrow>
            if \<not> json_is_integer (arg 2) then invalid
            else
              let side = word_of_int (json_integer_value (arg 2)) in
              if side_bad side then invalid
              else if \<not> json_is_string (arg 3) then invalid
              else case ptr of
                Dangling \<Rightarrow> None
              | Market market \<Rightarrow>
                  (case decimal_arg D (arg 3) (m_stock_prec market) (not_positive D) of
                     None \<Rightarrow> invalid
                   | Some amount \<Rightarrow>
                  (case decimal_arg D (arg 4) (m_fee_prec market) (fee_bad D) of
                     None \<Rightarrow> invalid
                   | Some taker_fee \<Rightarrow>
                     if \<not> json_is_string (arg 5) then invalid
                     else if length (json_str (arg 5)) \<ge> SOURCE_MAX_LEN then invalid
                     else
                       (case market_put_market_order D True market s user_id side amount taker_fee (json_str (arg 5)) of
                          None \<Rightarrow> None
                        | Some (ret, result, market, s) \<Rightarrow>
                            let s = set_market market_name market s in
                            if ret = - 1 then Some (reply_error J ses pkg 10 ''balance not enough'' s)
                            else if ret = - 2 then Some (reply_error J ses pkg 11 ''amount too small'' s)
                            else if ret = - 3 then Some (reply_error J ses pkg 12 ''no enough trader'' s)
                            else if ret < 0 then Some (reply_error_internal_error J ses pkg s)
                            else
                              let s = append_operlog J ''market_order'' params s in
                              (case result of
                                 None \<Rightarrow> None
                               | Some result \<Rightarrow> Some (reply_result J ses pkg result s))))))"

definition on_cmd_order_cancel :: "'d mpd_lib \<Rightarrow> text_lib \<Rightarrow> nat \<Rightarrow> rpc_pkg \<Rightarrow> json \<Rightarrow> ('d, 'z) server_state_scheme
    \<Rightarrow> (int \<times> ('d, 'z) server_state_scheme) option" where
  "on_cmd_order_cancel D J ses pkg params s =
     (let arg = json_array_get params; invalid = Some (reply_error_invalid_argument J ses pkg s) in
      if json_array_size params \<noteq> 3 then invalid
      else if \<not> json_is_integer (arg 0) then invalid
      else if \<not> json_is_string (arg 1) then invalid
      else
        let user_id = word_of_int (json_integer_value (arg 0)); market_name = json_str (arg 1) in
        case get_market s market_name of
          None \<Rightarrow> invalid
        | Some ptr \<Rightarrow>
            if \<not> json_is_integer (arg 2) then invalid
            else case ptr of
              Dangling \<Rightarrow> None
            | Market market \<Rightarrow>
                (case market_get_order market (word_of_int (json_integer_value (arg 2))) of
                   None \<Rightarrow> Some (reply_error J ses pkg 10 ''order not found'' s)
                 | Some order \<Rightarrow>
                     if o_user_id order \<noteq> user_id then Some (reply_error J ses pkg 11 ''user not match'' s)
                     else
                       let (ret, result, market, s) = market_cancel_order D True market s order;
                           s = set_market market_name market s in
                       if ret < 0 then Some (reply_error_internal_error J ses pkg s)
                       else
                         let s = append_operlog J ''cancel_order'' params s in
                         (case result of
                            None \<Rightarrow> None
                          | Some result \<Rightarrow> Some (reply_result J ses pkg result s))))"

section \<open>Reading orders and books\<close>

text \<open>
  The iteration of a skiplist reads the order behind each node; as in the matching loops it stops
  at a pointer to no allocated order, which a well-formed market does not have.
\<close>

fun order_infos :: "'d mpd_lib \<Rightarrow> 'd market \<Rightarrow> u64 list \<Rightarrow> json list" where
  "order_infos D m [] = []"
| "order_infos D m (i # nodes) =
     (case m_orders m i of None \<Rightarrow> [] | Some order \<Rightarrow> get_order_info D order # order_infos D m nodes)"

definition order_page :: "'d mpd_lib \<Rightarrow> 'd market \<Rightarrow> u64 list \<Rightarrow> u64 \<Rightarrow> u64 \<Rightarrow> json" where
  "order_page D m nodes offset limit =
     JArray (if unat offset < length nodes
             then order_infos D m (take (unat limit) (drop (unat offset) nodes)) else [])"

definition on_cmd_order_query :: "'d mpd_lib \<Rightarrow> text_lib \<Rightarrow> nat \<Rightarrow> rpc_pkg \<Rightarrow> json \<Rightarrow> ('d, 'z) server_state_scheme
    \<Rightarrow> (int \<times> ('d, 'z) server_state_scheme) option" where
  "on_cmd_order_query D J ses pkg params s =
     (let arg = json_array_get params; invalid = Some (reply_error_invalid_argument J ses pkg s) in
      if json_array_size params \<noteq> 4 then invalid
      else if \<not> json_is_integer (arg 0) then invalid
      else if \<not> json_is_string (arg 1) then invalid
      else case get_market s (json_str (arg 1)) of
        None \<Rightarrow> invalid
      | Some ptr \<Rightarrow>
          if \<not> json_is_integer (arg 2) then invalid
          else if \<not> json_is_integer (arg 3) then invalid
          else
            let user_id = word_of_int (json_integer_value (arg 0));
                offset = word_of_int (json_integer_value (arg 2));
                limit = word_of_int (json_integer_value (arg 3)) in
            if limit > ORDER_LIST_MAX_LEN then invalid
            else case ptr of
              Dangling \<Rightarrow> None
            | Market market \<Rightarrow>
                let nodes = (case market_get_order_list market user_id of None \<Rightarrow> [] | Some l \<Rightarrow> l);
                    result = json_object_set (JObject []) ''limit'' (json_u64 limit);
                    result = json_object_set result ''offset'' (json_u64 offset);
                    result = json_object_set result ''total'' (JInteger (int (length nodes)));
                    result = json_object_set result ''records'' (order_page D market nodes offset limit) in
                Some (reply_result J ses pkg result s))"

definition on_cmd_order_book :: "'d mpd_lib \<Rightarrow> text_lib \<Rightarrow> nat \<Rightarrow> rpc_pkg \<Rightarrow> json \<Rightarrow> ('d, 'z) server_state_scheme
    \<Rightarrow> (int \<times> ('d, 'z) server_state_scheme) option" where
  "on_cmd_order_book D J ses pkg params s =
     (let arg = json_array_get params; invalid = Some (reply_error_invalid_argument J ses pkg s) in
      if json_array_size params \<noteq> 4 then invalid
      else if \<not> json_is_string (arg 0) then invalid
      else case get_market s (json_str (arg 0)) of
        None \<Rightarrow> invalid
      | Some ptr \<Rightarrow>
          if \<not> json_is_integer (arg 1) then invalid
          else if side_bad (word_of_int (json_integer_value (arg 1))) then invalid
          else if \<not> json_is_integer (arg 2) then invalid
          else if \<not> json_is_integer (arg 3) then invalid
          else
            let side = word_of_int (json_integer_value (arg 1));
                offset = word_of_int (json_integer_value (arg 2));
                limit = word_of_int (json_integer_value (arg 3)) in
            if limit > ORDER_BOOK_MAX_LEN then invalid
            else case ptr of
              Dangling \<Rightarrow> None
            | Market market \<Rightarrow>
                let nodes = (if side = MARKET_ORDER_SIDE_ASK then m_asks market else m_bids market);
                    result = json_object_set (JObject []) ''offset'' (json_u64 offset);
                    result = json_object_set result ''limit'' (json_u64 limit);
                    result = json_object_set result ''total'' (JInteger (int (length nodes)));
                    result = json_object_set result ''orders'' (order_page D market nodes offset limit) in
                Some (reply_result J ses pkg result s))"

definition on_cmd_order_detail :: "'d mpd_lib \<Rightarrow> text_lib \<Rightarrow> nat \<Rightarrow> rpc_pkg \<Rightarrow> json \<Rightarrow> ('d, 'z) server_state_scheme
    \<Rightarrow> (int \<times> ('d, 'z) server_state_scheme) option" where
  "on_cmd_order_detail D J ses pkg params s =
     (let arg = json_array_get params; invalid = Some (reply_error_invalid_argument J ses pkg s) in
      if json_array_size params \<noteq> 2 then invalid
      else if \<not> json_is_string (arg 0) then invalid
      else case get_market s (json_str (arg 0)) of
        None \<Rightarrow> invalid
      | Some ptr \<Rightarrow>
          if \<not> json_is_integer (arg 1) then invalid
          else case ptr of
            Dangling \<Rightarrow> None
          | Market market \<Rightarrow>
              let result = (case market_get_order market (word_of_int (json_integer_value (arg 1))) of
                              None \<Rightarrow> JNull | Some order \<Rightarrow> get_order_info D order) in
              Some (reply_result J ses pkg result s))"

section \<open>The depth of a market\<close>

text \<open>
  The inner loop: the amounts of the following orders are added while their price belongs to the
  level (\<open>same\<close>); the node where it stops starts the next level.
\<close>

fun depth_amount :: "'d mpd_lib \<Rightarrow> 'd market \<Rightarrow> ('d \<Rightarrow> bool) \<Rightarrow> 'd \<Rightarrow> u64 list \<Rightarrow> 'd \<times> u64 list" where
  "depth_amount D m same amount [] = (amount, [])"
| "depth_amount D m same amount (i # nodes) =
     (case m_orders m i of
        None \<Rightarrow> (amount, [])
      | Some order \<Rightarrow>
          if same (o_price order) then depth_amount D m same (mpd_add D amount (o_left order)) nodes
          else (amount, i # nodes))"

text \<open>The levels of one side: the price of a level is a function of its first order's price.\<close>

fun depth_levels :: "'d mpd_lib \<Rightarrow> 'd market \<Rightarrow> ('d \<Rightarrow> 'd) \<Rightarrow> ('d \<Rightarrow> 'd \<Rightarrow> bool) \<Rightarrow> nat \<Rightarrow> u64 list \<Rightarrow> ('d \<times> 'd) list" where
  "depth_levels D m level same 0 nodes = []"
| "depth_levels D m level same (Suc limit) [] = []"
| "depth_levels D m level same (Suc limit) (i # nodes) =
     (case m_orders m i of
        None \<Rightarrow> []
      | Some order \<Rightarrow>
          let price = level (o_price order);
              (amount, rest) = depth_amount D m (same price) (o_left order) nodes in
          (price, amount) # depth_levels D m level same limit rest)"

definition level_info :: "'d mpd_lib \<Rightarrow> 'd \<times> 'd \<Rightarrow> json" where
  "level_info D = (\<lambda>(price, amount).
     json_array_append_new_mpd D (json_array_append_new_mpd D (JArray []) price) amount)"

definition depth_json :: "'d mpd_lib \<Rightarrow> ('d \<times> 'd) list \<Rightarrow> ('d \<times> 'd) list \<Rightarrow> json" where
  "depth_json D asks bids =
     json_object_set (json_object_set (JObject []) ''asks'' (JArray (map (level_info D) asks)))
       ''bids'' (JArray (map (level_info D) bids))"

definition get_depth :: "'d mpd_lib \<Rightarrow> 'd market \<Rightarrow> nat \<Rightarrow> json" where
  "get_depth D market limit =
     (let levels = depth_levels D market (\<lambda>price. price) (\<lambda>price p. mpd_cmp D price p = 0) limit in
      depth_json D (levels (m_asks market)) (levels (m_bids market)))"

text \<open>Prices are merged to multiples of the interval: upwards for asks, downwards for bids.\<close>

definition merge_down :: "'d mpd_lib \<Rightarrow> 'd \<Rightarrow> 'd \<Rightarrow> 'd" where
  "merge_down D interval p = (let (q, r) = mpd_divmod D p interval in mpd_mul D q interval)"

definition merge_up :: "'d mpd_lib \<Rightarrow> 'd \<Rightarrow> 'd \<Rightarrow> 'd" where
  "merge_up D interval p =
     (let (q, r) = mpd_divmod D p interval; price = mpd_mul D q interval in
      if mpd_cmp D r (mpd_zero D) \<noteq> 0 then mpd_add D price interval else price)"

definition get_depth_merge :: "'d mpd_lib \<Rightarrow> 'd market \<Rightarrow> nat \<Rightarrow> 'd \<Rightarrow> json" where
  "get_depth_merge D market limit interval =
     depth_json D
       (depth_levels D market (merge_up D interval) (\<lambda>price p. mpd_cmp D price p \<ge> 0) limit (m_asks market))
       (depth_levels D market (merge_down D interval) (\<lambda>price p. mpd_cmp D price p \<le> 0) limit (m_bids market))"

definition on_cmd_order_book_depth :: "'d mpd_lib \<Rightarrow> text_lib \<Rightarrow> nat \<Rightarrow> rpc_pkg \<Rightarrow> json \<Rightarrow> ('d, 'z) server_state_scheme
    \<Rightarrow> (int \<times> ('d, 'z) server_state_scheme) option" where
  "on_cmd_order_book_depth D J ses pkg params s =
     (let arg = json_array_get params; invalid = Some (reply_error_invalid_argument J ses pkg s) in
      if json_array_size params \<noteq> 3 then invalid
      else if \<not> json_is_string (arg 0) then invalid
      else case get_market s (json_str (arg 0)) of
        None \<Rightarrow> invalid
      | Some ptr \<Rightarrow>
          if \<not> json_is_integer (arg 1) then invalid
          else
            let limit = word_of_int (json_integer_value (arg 1)) :: u64 in
            if limit > ORDER_BOOK_MAX_LEN then invalid
            else if \<not> json_is_string (arg 2) then invalid
            else case ptr of
              Dangling \<Rightarrow> None
            | Market market \<Rightarrow>
                (case decimal_arg D (arg 2) (m_money_prec market) (\<lambda>x. mpd_cmp D x (mpd_zero D) < 0) of
                   None \<Rightarrow> invalid
                 | Some interval \<Rightarrow>
                     let (hit, s) = process_cache J ses pkg s in
                     if hit then Some (0, s)
                     else
                       let result = (if mpd_cmp D interval (mpd_zero D) = 0
                                     then get_depth D market (unat limit)
                                     else get_depth_merge D market (unat limit) interval);
                           s = add_cache (cache_key pkg) result s in
                       Some (reply_result J ses pkg result s)))"

section \<open>Markets\<close>

definition market_info :: "'d mpd_lib \<Rightarrow> 'd market_conf \<Rightarrow> json" where
  "market_info D c =
     (let market = JObject [];
          market = json_object_set market ''name'' (JString (c_name c));
          market = json_object_set market ''stock'' (JString (c_stock c));
          market = json_object_set market ''money'' (JString (c_money c));
          market = json_object_set market ''fee_prec'' (JInteger (c_fee_prec c));
          market = json_object_set market ''stock_prec'' (JInteger (c_stock_prec c));
          market = json_object_set market ''money_prec'' (JInteger (c_money_prec c));
          market = json_object_set_new_mpd D market ''min_amount'' (c_min_amount c) in
      market)"

text \<open>\<open>None\<close>: an element of the settings that was never written.\<close>

fun all_some :: "('a \<Rightarrow> 'b option) \<Rightarrow> 'a list \<Rightarrow> 'b list option" where
  "all_some f [] = Some []"
| "all_some f (x # xs) = (case f x of None \<Rightarrow> None | Some y \<Rightarrow> map_option ((#) y) (all_some f xs))"

definition on_cmd_market_list :: "'d mpd_lib \<Rightarrow> text_lib \<Rightarrow> nat \<Rightarrow> rpc_pkg \<Rightarrow> json \<Rightarrow> ('d, 'z) server_state_scheme
    \<Rightarrow> (int \<times> ('d, 'z) server_state_scheme) option" where
  "on_cmd_market_list D J ses pkg params s =
     map_option (\<lambda>result. reply_result J ses pkg (JArray result) s)
       (all_some (map_option (market_info D)) (settings_markets s))"

definition get_market_summary :: "'d mpd_lib \<Rightarrow> ('d, 'z) server_state_scheme \<Rightarrow> string \<Rightarrow> json option" where
  "get_market_summary D s name =
     (case get_market s name of
        Some (Market market) \<Rightarrow>
          let (ask_count, ask_amount, bid_count, bid_amount) = market_get_status D market;
              obj = JObject [];
              obj = json_object_set obj ''name'' (JString name);
              obj = json_object_set obj ''ask_count'' (JInteger (int ask_count));
              obj = json_object_set_new_mpd D obj ''ask_amount'' ask_amount;
              obj = json_object_set obj ''bid_count'' (JInteger (int bid_count));
              obj = json_object_set_new_mpd D obj ''bid_amount'' bid_amount in
          Some obj
      | _ \<Rightarrow> None)"

text \<open>The names of a summary command: strings that exist; the rest of the list is not looked at.\<close>

fun names_ok :: "(string \<Rightarrow> bool) \<Rightarrow> json list \<Rightarrow> string list option" where
  "names_ok exists [] = Some []"
| "names_ok exists (j # js) =
     (case json_string_value (Some j) of
        None \<Rightarrow> None
      | Some name \<Rightarrow> if exists name then map_option ((#) name) (names_ok exists js) else None)"

definition on_cmd_market_summary :: "'d mpd_lib \<Rightarrow> text_lib \<Rightarrow> nat \<Rightarrow> rpc_pkg \<Rightarrow> json \<Rightarrow> ('d, 'z) server_state_scheme
    \<Rightarrow> (int \<times> ('d, 'z) server_state_scheme) option" where
  "on_cmd_market_summary D J ses pkg params s =
     (let reply = (\<lambda>names. map_option (\<lambda>result. reply_result J ses pkg (JArray result) s)
                             (all_some (get_market_summary D s) names)) in
      if json_array_size params = 0 then
        (case all_some (map_option c_name) (settings_markets s) of None \<Rightarrow> None | Some names \<Rightarrow> reply names)
      else case names_ok (\<lambda>name. get_market s name \<noteq> None) (json_elements params) of
        None \<Rightarrow> Some (reply_error_invalid_argument J ses pkg s)
      | Some names \<Rightarrow> reply names)"

definition get_asset_summary :: "'d mpd_lib \<Rightarrow> ('d, 'z) server_state_scheme \<Rightarrow> string \<Rightarrow> json" where
  "get_asset_summary D s name =
     (let r = balance_status D name s;
          obj = JObject [];
          obj = json_object_set obj ''name'' (JString name);
          obj = json_object_set_new_mpd D obj ''total_balance'' (bs_total r);
          obj = json_object_set obj ''available_count'' (JInteger (int (bs_available_count r)));
          obj = json_object_set_new_mpd D obj ''available_balance'' (bs_available r);
          obj = json_object_set obj ''freeze_count'' (JInteger (int (bs_freeze_count r)));
          obj = json_object_set_new_mpd D obj ''freeze_balance'' (bs_freeze r) in
      obj)"

definition on_cmd_asset_summary :: "'d mpd_lib \<Rightarrow> text_lib \<Rightarrow> nat \<Rightarrow> rpc_pkg \<Rightarrow> json \<Rightarrow> ('d, 'z) server_state_scheme
    \<Rightarrow> (int \<times> ('d, 'z) server_state_scheme) option" where
  "on_cmd_asset_summary D J ses pkg params s =
     (let reply = (\<lambda>names. reply_result J ses pkg (JArray (map (get_asset_summary D s) names)) s) in
      if json_array_size params = 0 then
        map_option reply (all_some (map_option a_name) (settings_assets s))
      else case names_ok (asset_exist s) (json_elements params) of
        None \<Rightarrow> Some (reply_error_invalid_argument J ses pkg s)
      | Some names \<Rightarrow> Some (reply names))"

definition on_cmd_listing_update :: "'d mpd_lib \<Rightarrow> text_lib \<Rightarrow> json option \<Rightarrow> nat \<Rightarrow> rpc_pkg \<Rightarrow> json
    \<Rightarrow> ('d, 'z) server_state_scheme \<Rightarrow> (int \<times> ('d, 'z) server_state_scheme) option" where
  "on_cmd_listing_update D J file ses pkg params s =
     (let (listing, s) = listing_update D file s;
          list_update = JObject [];
          list_update = json_object_set list_update ''listing''
            (JString (if listing > 0 then ''updated'' else if listing \<ge> 0 then ''no updated'' else ''Error''));
          list_update = json_object_set list_update ''result'' (JInteger listing) in
      Some (reply_result J ses pkg (JArray [list_update]) s))"

end
