(* ===== verification/Dispatch.thy ===== *)
theory Dispatch
  imports Order_Commands
begin

text \<open>
  \<open>svr_on_recv_pkg\<close> of \<open>matchengine/me_server.c\<close>: decoding a request, refusing the commands that
  change the engine while a queue is full, and running the command's handler.
\<close>

section \<open>Reports reach their modules\<close>

text \<open>
  A handler logs its calls of the leaf functions of \<open>me_history.c\<close> and \<open>me_message.c\<close>; nothing it
  does depends on the state of those two modules, so the calls are carried out, in order, when it
  is done. \<open>None\<close>: the text of a message or a detail is \<open>NULL\<close>, or a detail does not fit into its buffer.
\<close>

definition dump_text :: "text_lib \<Rightarrow> dump \<Rightarrow> string option" where
  "dump_text J d = (case d of Dumps j \<Rightarrow> json_dumps J j | DumpsSorted j \<Rightarrow> json_dumps_sorted J j)"

definition deliver :: "'d mpd_lib \<Rightarrow> text_lib \<Rightarrow> 'd report \<Rightarrow> sql_state \<times> message_state \<Rightarrow> (sql_state \<times> message_state) option" where
  "deliver D J r = (\<lambda>(h, q).
     case r of
       UserOrder order \<Rightarrow> Some (append_user_order D order h, q)
     | OrderDetail order \<Rightarrow> Some (append_order_detail D order h, q)
     | OrderDeal t user_id deal_id order_id deal_order_id role price amount deal fee deal_fee \<Rightarrow>
         Some (append_order_deal D t user_id deal_id order_id deal_order_id role price amount deal fee deal_fee h, q)
     | UserDeal t user_id market deal_id order_id deal_order_id side role price amount deal fee deal_fee \<Rightarrow>
         Some (append_user_deal D t user_id market deal_id order_id deal_order_id side role price amount deal fee deal_fee h, q)
     | UserBalance t user_id asset business change balance detail \<Rightarrow>
         (case dump_text J detail of
            None \<Rightarrow> None
          | Some detail_str \<Rightarrow> map_option (\<lambda>h. (h, q)) (append_user_balance D J t user_id asset business change balance detail_str h))
     | Message topic message \<Rightarrow>
         map_option (\<lambda>text. (h, snd (push_message text topic q))) (json_dumps J message))"

fun deliver_all :: "'d mpd_lib \<Rightarrow> text_lib \<Rightarrow> 'd report list \<Rightarrow> sql_state \<times> message_state
    \<Rightarrow> (sql_state \<times> message_state) option" where
  "deliver_all D J [] hq = Some hq"
| "deliver_all D J (r # rs) hq =
     (case deliver D J r hq of None \<Rightarrow> None | Some hq \<Rightarrow> deliver_all D J rs hq)"

definition deliver_reports :: "'d mpd_lib \<Rightarrow> text_lib \<Rightarrow> ('d, 'z) server_state_scheme \<Rightarrow> ('d, 'z) server_state_scheme option" where
  "deliver_reports D J s =
     (case deliver_all D J (reports s) (hist s, msgs s) of
        None \<Rightarrow> None
      | Some (h, q) \<Rightarrow> Some (s\<lparr>hist := h, msgs := q, reports := []\<rparr>))"

section \<open>Commands\<close>

definition CMD_BALANCE_QUERY :: u32 where "CMD_BALANCE_QUERY = 101"
definition CMD_BALANCE_UPDATE :: u32 where "CMD_BALANCE_UPDATE = 102"
definition CMD_ASSET_LIST :: u32 where "CMD_ASSET_LIST = 104"
definition CMD_ASSET_SUMMARY :: u32 where "CMD_ASSET_SUMMARY = 105"
definition CMD_ORDER_PUT_LIMIT :: u32 where "CMD_ORDER_PUT_LIMIT = 201"
definition CMD_ORDER_PUT_MARKET :: u32 where "CMD_ORDER_PUT_MARKET = 202"
definition CMD_ORDER_QUERY :: u32 where "CMD_ORDER_QUERY = 203"
definition CMD_ORDER_CANCEL :: u32 where "CMD_ORDER_CANCEL = 204"
definition CMD_ORDER_BOOK :: u32 where "CMD_ORDER_BOOK = 205"
definition CMD_ORDER_BOOK_DEPTH :: u32 where "CMD_ORDER_BOOK_DEPTH = 206"
definition CMD_ORDER_DETAIL :: u32 where "CMD_ORDER_DETAIL = 207"
definition CMD_MARKET_LIST :: u32 where "CMD_MARKET_LIST = 307"
definition CMD_MARKET_SUMMARY :: u32 where "CMD_MARKET_SUMMARY = 308"
definition CMD_LISTING_UPDATE :: u32 where "CMD_LISTING_UPDATE = 401"

lemmas command_defs = CMD_BALANCE_QUERY_def CMD_BALANCE_UPDATE_def CMD_ASSET_LIST_def CMD_ASSET_SUMMARY_def
  CMD_ORDER_PUT_LIMIT_def CMD_ORDER_PUT_MARKET_def CMD_ORDER_QUERY_def CMD_ORDER_CANCEL_def CMD_ORDER_BOOK_def
  CMD_ORDER_BOOK_DEPTH_def CMD_ORDER_DETAIL_def CMD_MARKET_LIST_def CMD_MARKET_SUMMARY_def CMD_LISTING_UPDATE_def

definition blocked :: "('d, 'z) server_state_scheme \<Rightarrow> bool" where
  "blocked s = (is_operlog_block s \<or> is_history_block (hist s) \<or> is_message_block (msgs s))"

definition unless_blocked :: "text_lib \<Rightarrow> nat \<Rightarrow> rpc_pkg \<Rightarrow> ('d, 'z) server_state_scheme
    \<Rightarrow> (int \<times> ('d, 'z) server_state_scheme) option \<Rightarrow> (int \<times> ('d, 'z) server_state_scheme) option" where
  "unless_blocked J ses pkg s handled =
     (if blocked s then Some (reply_error_service_unavailable J ses pkg s) else handled)"

text \<open>\<open>file\<close> is what the configuration file holds when a reload is asked for.\<close>

definition run_command :: "'d mpd_lib \<Rightarrow> text_lib \<Rightarrow> json option \<Rightarrow> nat \<Rightarrow> rpc_pkg \<Rightarrow> json \<Rightarrow> ('d, 'z) server_state_scheme
    \<Rightarrow> (int \<times> ('d, 'z) server_state_scheme) option" where
  "run_command D J file ses pkg params s =
     (let command = rp_command pkg in
      if command = CMD_BALANCE_QUERY then on_cmd_balance_query D J ses pkg params s
      else if command = CMD_BALANCE_UPDATE then
        unless_blocked J ses pkg s (on_cmd_balance_update D J ses pkg params s)
      else if command = CMD_ASSET_LIST then on_cmd_asset_list J ses pkg params s
      else if command = CMD_ASSET_SUMMARY then on_cmd_asset_summary D J ses pkg params s
      else if command = CMD_ORDER_PUT_LIMIT then
        unless_blocked J ses pkg s (on_cmd_order_put_limit D J ses pkg params s)
      else if command = CMD_ORDER_PUT_MARKET then
        unless_blocked J ses pkg s (on_cmd_order_put_market D J ses pkg params s)
      else if command = CMD_ORDER_QUERY then on_cmd_order_query D J ses pkg params s
      else if command = CMD_ORDER_CANCEL then
        unless_blocked J ses pkg s (on_cmd_order_cancel D J ses pkg params s)
      else if command = CMD_ORDER_BOOK then on_cmd_order_book D J ses pkg params s
      else if command = CMD_ORDER_BOOK_DEPTH then on_cmd_order_book_depth D J ses pkg params s
      else if command = CMD_ORDER_DETAIL then on_cmd_order_detail D J ses pkg params s
      else if command = CMD_MARKET_LIST then on_cmd_market_list D J ses pkg params s
      else if command = CMD_MARKET_SUMMARY then on_cmd_market_summary D J ses pkg params s
      else if command = CMD_LISTING_UPDATE then on_cmd_listing_update D J file ses pkg params s
      else Some (0, s))"

text \<open>
  A body that is announced longer than what is in the buffer is read past its end: \<open>None\<close>. A body
  that is no JSON array closes the connection.
\<close>

definition svr_on_recv_pkg :: "'d mpd_lib \<Rightarrow> text_lib \<Rightarrow> json option \<Rightarrow> nat \<Rightarrow> rpc_pkg \<Rightarrow> ('d, 'z) server_state_scheme
    \<Rightarrow> ('d, 'z) server_state_scheme option" where
  "svr_on_recv_pkg D J file ses pkg s =
     (if length (rp_body pkg) < unat (rp_body_size pkg) then None
      else case json_loadb J (pkg_body pkg) of
        Some (JArray xs) \<Rightarrow>
          (case run_command D J file ses pkg (JArray xs) s of
             None \<Rightarrow> None
           | Some (ret, s) \<Rightarrow> deliver_reports D J s)
      | _ \<Rightarrow> Some (s\<lparr>closed := closed s @ [ses]\<rparr>))"

end
