(* ===== verification/Load.thy ===== *)
theory Load
  imports Dispatch
begin

text \<open>
  \<open>matchengine/me_load.c\<close>: restoring the engine from a slice of orders and balances and replaying the
  log of operations. A query of the database is a parameter: for the id to start after it gives
  the next rows (at most 1000, in the order of their ids), or \<open>None\<close> when it fails. Integer columns
  are given as numbers. \<open>None\<close> as the result of a loader: it does not come back (endless paging, or
  a replayed operation that does not).
\<close>

section \<open>Slices\<close>

definition query_limit :: nat where
  "query_limit = 1000"

record order_row =
  r_id :: u64
  r_t :: u32
  r_side :: u32
  r_create_time :: timestamp
  r_update_time :: timestamp
  r_user_id :: u32
  r_market :: string
  r_price :: string
  r_amount :: string
  r_taker_fee :: string
  r_maker_fee :: string
  r_left :: string
  r_freeze :: string
  r_deal_stock :: string
  r_deal_money :: string
  r_deal_fee :: string

text \<open>\<open>None\<close>: one of the decimal columns cannot be read.\<close>

definition order_of_row :: "'d mpd_lib \<Rightarrow> 'd market \<Rightarrow> order_row \<Rightarrow> 'd order option" where
  "order_of_row D market row =
     (case (decimal D (r_price row) (m_money_prec market), decimal D (r_amount row) (m_stock_prec market),
            decimal D (r_taker_fee row) (m_fee_prec market), decimal D (r_maker_fee row) (m_fee_prec market),
            decimal D (r_left row) (m_stock_prec market), decimal D (r_freeze row) 0,
            decimal D (r_deal_stock row) 0, decimal D (r_deal_money row) 0, decimal D (r_deal_fee row) 0) of
        (Some price, Some amount, Some taker_fee, Some maker_fee, Some left, Some freeze,
         Some deal_stock, Some deal_money, Some deal_fee) \<Rightarrow>
          Some \<lparr> o_id = r_id row, o_type = r_t row, o_side = r_side row, o_create_time = r_create_time row,
                 o_update_time = r_update_time row, o_user_id = r_user_id row, o_market = r_market row,
                 o_source = None, o_price = price, o_amount = amount, o_taker_fee = taker_fee,
                 o_maker_fee = maker_fee, o_left = left, o_freeze = freeze, o_deal_stock = deal_stock,
                 o_deal_money = deal_money, o_deal_fee = deal_fee \<rparr>
      | _ \<Rightarrow> None)"

text \<open>The rows of a page: the code, the last id, the state.\<close>

fun load_order_rows :: "'d mpd_lib \<Rightarrow> order_row list \<Rightarrow> u64 \<Rightarrow> ('d, 'z) trade_state_scheme
    \<Rightarrow> (int \<times> u64 \<times> ('d, 'z) trade_state_scheme) option" where
  "load_order_rows D [] last_id s = Some (0, last_id, s)"
| "load_order_rows D (row # rows) last_id s =
     (let last_id = r_id row in
      case get_market s (r_market row) of
        None \<Rightarrow> load_order_rows D rows last_id s
      | Some Dangling \<Rightarrow> None
      | Some (Market market) \<Rightarrow>
          (case order_of_row D market row of
             None \<Rightarrow> Some (- 62, last_id, s)
           | Some order \<Rightarrow>
               let (_, market, s) = market_put_order D market s order in
               load_order_rows D rows last_id (set_market (r_market row) market s)))"

partial_function (option) load_orders_from :: "'d mpd_lib \<Rightarrow> (u64 \<Rightarrow> order_row list option) \<Rightarrow> u64
    \<Rightarrow> ('d, 'z) trade_state_scheme \<Rightarrow> (int \<times> ('d, 'z) trade_state_scheme) option" where
  "load_orders_from D db last_id s =
     (case db last_id of
        None \<Rightarrow> Some (- 26, s)
      | Some rows \<Rightarrow>
          (case load_order_rows D rows last_id s of
             None \<Rightarrow> None
           | Some r \<Rightarrow>
               if fst r \<noteq> 0 then Some (fst r, snd (snd r))
               else if length rows < query_limit then Some (0, snd (snd r))
               else load_orders_from D db (fst (snd r)) (snd (snd r))))"

definition load_orders :: "'d mpd_lib \<Rightarrow> (u64 \<Rightarrow> order_row list option) \<Rightarrow> ('d, 'z) trade_state_scheme
    \<Rightarrow> (int \<times> ('d, 'z) trade_state_scheme) option" where
  "load_orders D db s = load_orders_from D db 0 s"

record balance_row =
  b_id :: u64
  b_user_id :: u32
  b_asset :: string
  b_t :: u32
  b_balance :: string

text \<open>
  A balance that cannot be read gives a \<open>NULL\<close> pointer, which \<open>balance_set\<close> hands to \<open>mpd_cmp\<close>: the
  process crashes. \<open>balance_set\<close> first looks the asset up, which exists here.
\<close>

fun load_balance_rows :: "'d mpd_lib \<Rightarrow> balance_row list \<Rightarrow> u64 \<Rightarrow> ('d, 'z) balance_state_scheme
    \<Rightarrow> (u64 \<times> ('d, 'z) balance_state_scheme) option" where
  "load_balance_rows D [] last_id s = Some (last_id, s)"
| "load_balance_rows D (row # rows) last_id s =
     (let last_id = b_id row in
      if \<not> asset_exist s (b_asset row) then load_balance_rows D rows last_id s
      else case decimal D (b_balance row) (asset_prec s (b_asset row)) of
        None \<Rightarrow> None
      | Some balance \<Rightarrow>
          load_balance_rows D rows last_id (snd (balance_set D (b_user_id row) (b_t row) (b_asset row) balance s)))"

partial_function (option) load_balance_from :: "'d mpd_lib \<Rightarrow> (u64 \<Rightarrow> balance_row list option) \<Rightarrow> u64
    \<Rightarrow> ('d, 'z) balance_state_scheme \<Rightarrow> (int \<times> ('d, 'z) balance_state_scheme) option" where
  "load_balance_from D db last_id s =
     (case db last_id of
        None \<Rightarrow> Some (- 89, s)
      | Some rows \<Rightarrow>
          (case load_balance_rows D rows last_id s of
             None \<Rightarrow> None
           | Some r \<Rightarrow>
               if length rows < query_limit then Some (0, snd r)
               else load_balance_from D db (fst r) (snd r)))"

definition load_balance :: "'d mpd_lib \<Rightarrow> (u64 \<Rightarrow> balance_row list option) \<Rightarrow> ('d, 'z) balance_state_scheme
    \<Rightarrow> (int \<times> ('d, 'z) balance_state_scheme) option" where
  "load_balance D db s = load_balance_from D db 0 s"

section \<open>Operations\<close>

definition load_update_balance :: "'d mpd_lib \<Rightarrow> json \<Rightarrow> ('d, 'z) trade_state_scheme
    \<Rightarrow> (int \<times> ('d, 'z) trade_state_scheme) option" where
  "load_update_balance D params s =
     (let arg = json_array_get params; return = (\<lambda>code. Some (code, s)) in
      if json_array_size params \<noteq> 6 then return (- 119)
      else if \<not> json_is_integer (arg 0) then return (- 123)
      else if \<not> json_is_string (arg 1) then return (- 128)
      else
        let user_id = word_of_int (json_integer_value (arg 0));
            asset = json_str (arg 1);
            prec = asset_prec s asset in
        if prec < 0 then return 0
        else if \<not> json_is_string (arg 2) then return (- 136)
        else if \<not> json_is_integer (arg 3) then return (- 141)
        else if \<not> json_is_string (arg 4) then return (- 146)
        else
          let business = json_str (arg 2); business_id = word_of_int (json_integer_value (arg 3)) in
          case decimal D (json_str (arg 4)) prec of
            None \<Rightarrow> return (- 149)
          | Some change \<Rightarrow>
              (case arg 5 of
                 Some (JObject detail) \<Rightarrow>
                   let (ret, _, s) =
                         update_user_balance D False user_id asset business business_id change (JObject detail) s in
                   Some (if ret < 0 then - 162 else 0, s)
               | _ \<Rightarrow> return (- 155)))"

definition load_limit_order :: "'d mpd_lib \<Rightarrow> json \<Rightarrow> ('d, 'z) trade_state_scheme
    \<Rightarrow> (int \<times> ('d, 'z) trade_state_scheme) option" where
  "load_limit_order D params s =
     (let arg = json_array_get params; return = (\<lambda>code. Some (code, s)) in
      if json_array_size params \<noteq> 8 then return (- 171)
      else if \<not> json_is_integer (arg 0) then return (- 175)
      else if \<not> json_is_string (arg 1) then return (- 180)
      else
        let user_id = word_of_int (json_integer_value (arg 0)); market_name = json_str (arg 1) in
        case get_market s market_name of
          None \<Rightarrow> return 0
        | Some ptr \<Rightarrow>
            if \<not> json_is_integer (arg 2) then return (- 188)
            else
              let side = word_of_int (json_integer_value (arg 2)) in
              if side_bad side then return (- 191)
              else if \<not> json_is_string (arg 3) then return (- 260)
              else case ptr of
                Dangling \<Rightarrow> None
              | Market market \<Rightarrow>
                  (case decimal_arg D (arg 3) (m_stock_prec market) (not_positive D) of
                     None \<Rightarrow> return (- 260)
                   | Some amount \<Rightarrow>
                  (case decimal_arg D (arg 4) (m_money_prec market) (not_positive D) of
                     None \<Rightarrow> return (- 260)
                   | Some price \<Rightarrow>
                  (case decimal_arg D (arg 5) (m_fee_prec market) (fee_bad D) of
                     None \<Rightarrow> return (- 260)
                   | Some taker_fee \<Rightarrow>
                  (case decimal_arg D (arg 6) (m_fee_prec market) (fee_bad D) of
                     None \<Rightarrow> return (- 260)
                   | Some maker_fee \<Rightarrow>
                     if \<not> json_is_string (arg 7) then return (- 260)
                     else if length (json_str (arg 7)) > SOURCE_MAX_LEN then return (- 260)
                     else
                       let (ret, _, market, s) =
                             market_put_limit_order D False market s user_id side amount price taker_fee maker_fee
                               (json_str (arg 7)) in
                       Some (ret, set_market market_name market s))))))"

definition load_market_order :: "'d mpd_lib \<Rightarrow> json \<Rightarrow> ('d, 'z) trade_state_scheme
    \<Rightarrow> (int \<times> ('d, 'z) trade_state_scheme) option" where
  "load_market_order D params s =
     (let arg = json_array_get params; return = (\<lambda>code. Some (code, s)) in
      if json_array_size params \<noteq> 6 then return (- 266)
      else if \<not> json_is_integer (arg 0) then return (- 270)
      else if \<not> json_is_string (arg 1) then return (- 275)
      else
        let user_id = word_of_int (json_integer_value (arg 0)); market_name = json_str (arg 1) in
        case get_market s market_name of
          None \<Rightarrow> return 0
        | Some ptr \<Rightarrow>
            if \<not> json_is_integer (arg 2) then return (- 283)
            else
              let side = word_of_int (json_integer_value (arg 2)) in
              if side_bad side then return (- 286)
              else if \<not> json_is_string (arg 3) then return (- 329)
              else case ptr of
                Dangling \<Rightarrow> None
              | Market market \<Rightarrow>
                  (case decimal_arg D (arg 3) (m_stock_prec market) (not_positive D) of
                     None \<Rightarrow> return (- 329)
                   | Some amount \<Rightarrow>
                  (case decimal_arg D (arg 4) (m_fee_prec market) (fee_bad D) of
                     None \<Rightarrow> return (- 329)
                   | Some taker_fee \<Rightarrow>
                     if \<not> json_is_string (arg 5) then return (- 329)
                     else if length (json_str (arg 5)) > SOURCE_MAX_LEN then return (- 329)
                     else
                       (case market_put_market_order D False market s user_id side amount taker_fee (json_str (arg 5)) of
                          None \<Rightarrow> None
                        | Some (ret, _, market, s) \<Rightarrow> Some (ret, set_market market_name market s)))))"

definition load_cancel_order :: "'d mpd_lib \<Rightarrow> json \<Rightarrow> ('d, 'z) trade_state_scheme
    \<Rightarrow> (int \<times> ('d, 'z) trade_state_scheme) option" where
  "load_cancel_order D params s =
     (let arg = json_array_get params; return = (\<lambda>code. Some (code, s)) in
      if json_array_size params \<noteq> 3 then return (- 335)
      else if \<not> json_is_integer (arg 0) then return (- 339)
      else if \<not> json_is_string (arg 1) then return (- 344)
      else
        let market_name = json_str (arg 1) in
        case get_market s market_name of
          None \<Rightarrow> return 0
        | Some ptr \<Rightarrow>
            if \<not> json_is_integer (arg 2) then return (- 352)
            else case ptr of
              Dangling \<Rightarrow> None
            | Market market \<Rightarrow>
                (case market_get_order market (word_of_int (json_integer_value (arg 2))) of
                   None \<Rightarrow> return (- 357)
                 | Some order \<Rightarrow>
                     let (ret, _, market, s) = market_cancel_order D False market s order in
                     Some (if ret < 0 then - 363 else 0, set_market market_name market s)))"

definition load_oper :: "'d mpd_lib \<Rightarrow> json \<Rightarrow> ('d, 'z) trade_state_scheme
    \<Rightarrow> (int \<times> ('d, 'z) trade_state_scheme) option" where
  "load_oper D detail s =
     (case json_string_value (json_object_get detail ''method'') of
        None \<Rightarrow> Some (- 373, s)
      | Some method \<Rightarrow>
          (case json_object_get detail ''params'' of
             Some (JArray xs) \<Rightarrow>
               let params = JArray xs in
               if method = ''update_balance'' then load_update_balance D params s
               else if method = ''limit_order'' then load_limit_order D params s
               else if method = ''market_order'' then load_market_order D params s
               else if method = ''cancel_order'' then load_cancel_order D params s
               else Some (- 388, s)
           | _ \<Rightarrow> Some (- 376, s)))"

section \<open>The log\<close>

record operlog_row =
  l_id :: u64
  l_detail :: string

fun load_operlog_rows :: "'d mpd_lib \<Rightarrow> text_lib \<Rightarrow> operlog_row list \<Rightarrow> u64 \<Rightarrow> ('d, 'z) trade_state_scheme
    \<Rightarrow> (int \<times> u64 \<times> ('d, 'z) trade_state_scheme) option" where
  "load_operlog_rows D J [] last_id s = Some (0, last_id, s)"
| "load_operlog_rows D J (row # rows) last_id s =
     (if l_id row \<noteq> last_id + 1 then Some (- 417, last_id, s)
      else
        let last_id = l_id row in
        case json_loadb J (l_detail row) of
          None \<Rightarrow> Some (- 424, last_id, s)
        | Some detail \<Rightarrow>
            (case load_oper D detail s of
               None \<Rightarrow> None
             | Some (ret, s) \<Rightarrow>
                 if ret < 0 then Some (- 431, last_id, s) else load_operlog_rows D J rows last_id s))"

text \<open>The result holds the id for the caller: it is only set when all pages have been loaded.\<close>

partial_function (option) load_operlog_from :: "'d mpd_lib \<Rightarrow> text_lib \<Rightarrow> (u64 \<Rightarrow> operlog_row list option) \<Rightarrow> u64 \<Rightarrow> u64
    \<Rightarrow> ('d, 'z) trade_state_scheme \<Rightarrow> (int \<times> u64 \<times> ('d, 'z) trade_state_scheme) option" where
  "load_operlog_from D J db start_id last_id s =
     (case db last_id of
        None \<Rightarrow> Some (- 406, start_id, s)
      | Some rows \<Rightarrow>
          (case load_operlog_rows D J rows last_id s of
             None \<Rightarrow> None
           | Some r \<Rightarrow>
               if fst r \<noteq> 0 then Some (fst r, start_id, snd (snd r))
               else if length rows < query_limit then Some (0, fst (snd r), snd (snd r))
               else load_operlog_from D J db start_id (fst (snd r)) (snd (snd r))))"

definition load_operlog :: "'d mpd_lib \<Rightarrow> text_lib \<Rightarrow> (u64 \<Rightarrow> operlog_row list option) \<Rightarrow> u64
    \<Rightarrow> ('d, 'z) trade_state_scheme \<Rightarrow> (int \<times> u64 \<times> ('d, 'z) trade_state_scheme) option" where
  "load_operlog D J db start_id s = load_operlog_from D J db start_id start_id s"

end
