(* ===== verification/Frame_Facts.thy ===== *)
theory Frame_Facts
  imports Replay_Facts
begin

text \<open>
  The operations of a market change the market, the balances, the reports, the engine's counters
  and the clock. Everything a larger state keeps beside these, and the table of the assets, stays.
\<close>

definition kept :: "('d, 'z) market_state_scheme \<Rightarrow> ('d, 'z) market_state_scheme \<Rightarrow> bool" where
  "kept s t \<longleftrightarrow> market_state.more t = market_state.more s \<and> dict_asset t = dict_asset s"

lemma kept_refl [simp, intro]: "kept s s"
  by (simp add: kept_def)

lemma kept_trans [trans]: "kept s t \<Longrightarrow> kept t r \<Longrightarrow> kept s r"
  by (simp add: kept_def)

lemma kept_history: "history_state.more t = history_state.more s \<Longrightarrow> dict_asset t = dict_asset s \<Longrightarrow> kept s t"
  by (cases s; cases t) (simp add: kept_def)

lemma kept_balance: "balance_state.more t = balance_state.more s \<Longrightarrow> dict_asset t = dict_asset s \<Longrightarrow> kept s t"
  by (cases s; cases t) (simp add: kept_def)

lemma kept_same_core: "same_core s t \<Longrightarrow> kept s t"
  by (simp add: same_core_iff kept_history)

lemma kept_quiet: "quiet f \<Longrightarrow> kept s (f s)"
  by (rule kept_same_core, rule quietD)

lemma kept_balances [simp, intro]:
  "kept s (snd (balance_add D u ty a x s))" "kept s (snd (balance_sub D u ty a x s))"
  "kept s (snd (balance_shift D t1 t2 u a x s))" "kept s (snd (balance_freeze D u a x s))"
  "kept s (snd (balance_unfreeze D u a x s))"
  by (rule kept_balance; simp add: freeze_shift unfreeze_shift frames)+

lemma kept_pushes [simp, intro]:
  "kept s (push_order_message D e a st mo s)" "kept s (append_order_history a s)"
  by (rule kept_quiet [OF quiet_reports(7)], rule kept_quiet [OF quiet_reports(1)])

lemma kept_push_history [simp, intro]: "kept s (push_order_message D e a st mo (append_order_history a s))"
  by (rule kept_trans [OF kept_pushes(2) kept_pushes(1)])

lemma kept_counters [simp, intro]:
  "kept s (s\<lparr>order_id_start := i\<rparr>)" "kept s (s\<lparr>deals_id_start := j\<rparr>)" "kept s (s\<lparr>ticks := n\<rparr>)"
  by (simp_all add: kept_def)

lemma exchange_kept:
  assumes "reporters r q"
  shows "kept s (exchange D q tu mu gives x gets y tfa tfee mfa mfee s)"
proof -
  have q: "kept s (q n (f s))" if "n < 7" "\<And>s. kept s (f s)" for n f and s
    using that reporters_quiet [OF assms that(1)] kept_trans kept_quiet by blast
  have q0: "kept s (q 0 s)" for s
    using q [of 0 "\<lambda>s. s"] by simp
  have step: "kept s (q n (snd (balance_sub D u ty a x t)))" "kept s (q n (snd (balance_add D u ty a x t)))"
    if "kept s t" "n < 7" for n u ty a x t
    using q [OF that(2), of "\<lambda>s. snd (balance_sub D u ty a x s)" t]
      q [OF that(2), of "\<lambda>s. snd (balance_add D u ty a x s)" t] that(1) kept_trans by blast+
  have br: "kept s (if b then u else v)" if "kept s u" "kept s v" for b u v
    using that by simp
  show ?thesis
    unfolding exchange_def Let_def
    by (intro br step q0) simp_all
qed

lemma order_finish_kept: "kept s (snd (snd (order_finish D r m s a)))"
proof -
  have "kept s (snd (release D m a s))"
    by (simp add: release_def Let_def)
  then show ?thesis
    using kept_trans kept_quiet [OF quiet_reports(1)] by (simp add: order_finish_release) blast
qed

lemma finish_or_update_kept: "kept s (snd (finish_or_update D r m s a))"
proof -
  define u where "u = (if r then push_order_message D
      (if mpd_cmp D (o_left a) (mpd_zero D) = 0 then ORDER_EVENT_FINISH else ORDER_EVENT_UPDATE) a (m_stock m) (m_money m) s else s)"
  have "kept s u"
    by (simp add: u_def)
  with kept_trans [OF this order_finish_kept [of u D r "m\<lparr>m_orders := (m_orders m)(o_id a \<mapsto> a)\<rparr>" a]] show ?thesis
    by (auto simp: finish_or_update_def Let_def u_def split: prod.split if_splits)
qed

lemma fill_kept:
  assumes "reporters r q"
  shows "kept s (fst (snd (fill D r q m s taker maker used amount deal gives x gets y tfa tfee mfa mfee)))"
proof -
  let ?s = "s\<lparr>ticks := ticks s + 1, deals_id_start := deals_id_start s + 1\<rparr>"
  have "kept s ?s"
    by (simp add: kept_def)
  then show ?thesis
    by (simp add: fill_def current_timestamp_def Let_def case_prod_beta
        kept_trans [OF kept_trans [OF _ exchange_kept [OF assms]] finish_or_update_kept])
qed

lemma fills_kept [simp, intro]:
  "kept s (fst (snd (limit_ask_fill D r m s taker maker)))"
  "kept s (fst (snd (limit_bid_fill D r m s taker maker)))"
  "kept s (fst (snd (market_ask_fill D r m s taker maker)))"
  "kept s (fst (snd (market_bid_fill D r m s taker maker amount)))"
  using limit_ask_fill_shape [where is_real = r and D = D and taker = taker and maker = maker and m = m and s = s, OF refl refl]
    limit_bid_fill_shape [where is_real = r and D = D and taker = taker and maker = maker and m = m and s = s, OF refl refl]
    market_ask_fill_shape [where is_real = r and D = D and taker = taker and maker = maker and m = m and s = s, OF refl refl]
    market_bid_fill_shape [where is_real = r and D = D and taker = taker and maker = maker and m = m and s = s, OF refl]
    fill_kept by metis+

lemma executes_kept:
  "kept s (fst (snd (execute_limit_ask_order D r m s k nodes)))"
  "kept s (fst (snd (execute_limit_bid_order D r m s k nodes)))"
  "kept s (fst (snd (execute_market_ask_order D r m s k nodes)))"
  "execute_market_bid_order D r m s k nodes = Some p \<Longrightarrow> kept s (fst (snd p))"
proof -
  show "kept s (fst (snd (execute_limit_ask_order D r m s k nodes)))"
    by (induction nodes arbitrary: m s k)
      (auto simp: Let_def case_prod_beta split: option.split intro: kept_trans [OF fills_kept(1)])
  show "kept s (fst (snd (execute_limit_bid_order D r m s k nodes)))"
    by (induction nodes arbitrary: m s k)
      (auto simp: Let_def case_prod_beta split: option.split intro: kept_trans [OF fills_kept(2)])
  show "kept s (fst (snd (execute_market_ask_order D r m s k nodes)))"
    by (induction nodes arbitrary: m s k)
      (auto simp: Let_def case_prod_beta split: option.split intro: kept_trans [OF fills_kept(3)])
  show "execute_market_bid_order D r m s k nodes = Some p \<Longrightarrow> kept s (fst (snd p))"
    by (induction nodes arbitrary: m s k)
      (auto simp: Let_def case_prod_beta split: option.splits if_splits intro: kept_trans [OF fills_kept(4)])
qed

lemma order_put_kept: "kept s (snd (snd (order_put D m s a)))"
  using kept_balances(4) by (auto simp: order_put_def Let_def case_prod_beta split: option.split)

lemma settle_kept: "kept s (snd (snd (settle_limit_order D r m s a)))"
  by (auto simp: settle_limit_order_def Let_def case_prod_beta
      intro: order_put_kept kept_trans [OF kept_pushes(1) order_put_kept])

lemma market_put_limit_order_kept: "kept s (snd (snd (snd (market_put_limit_order D r m s u side am pr tf mf src))))"
  by (auto simp: market_put_limit_order_def current_timestamp_def Let_def case_prod_beta
      intro!: kept_trans [OF _ settle_kept] kept_trans [OF _ executes_kept(1)] kept_trans [OF _ executes_kept(2)])
    (simp_all add: kept_def)

lemma market_put_market_order_kept:
  assumes "market_put_market_order D r m s u side am tf src = Some (ret, result, m', t)"
  shows "kept s t"
proof -
  let ?x = "s\<lparr>order_id_start := order_id_start s + 1, ticks := Suc (ticks s)\<rparr>"
  have x: "kept s ?x"
    by (simp add: kept_def)
  show ?thesis
    using assms
    by (auto simp: market_put_market_order_def current_timestamp_def Let_def case_prod_beta split: if_splits option.splits
        intro!: kept_trans [OF _ kept_push_history] intro: kept_trans [OF x executes_kept(3)] dest!: executes_kept(4) kept_trans [OF x])
qed

lemma market_cancel_order_kept: "kept s (snd (snd (snd (market_cancel_order D r m s a))))"
  by (auto simp: market_cancel_order_def Let_def case_prod_beta
      intro: order_finish_kept kept_trans [OF kept_pushes(1) order_finish_kept])

end
