(* ===== verification/Server_Facts.thy ===== *)
theory Server_Facts
  imports Load Frame_Facts
begin

text \<open>
  What the commands of \<open>me_server.c\<close> do to the engine and to its operation log: the commands that
  read change neither, a command that changes the engine appends one entry, and the loader of
  \<open>me_load.c\<close> that the entry is meant for does the same to the engine.
\<close>

section \<open>What the engine is\<close>

text \<open>
  The part of the state that the operation log and the slices make persistent: the assets, the
  balances, the last ids, the updates seen and the markets.
\<close>

definition engine_of where
  "engine_of s = (dict_asset s, dict_balance s, order_id_start s, deals_id_start s, dict_update s, dict_market s)"

definition log_of where
  "log_of s = (operlog_id_start s, oper_list s)"

lemma reply_json_frame [frames]:
  "engine_of (snd (reply_json J ses pkg msg s)) = engine_of s" 
  "log_of (snd (reply_json J ses pkg msg s)) = log_of s" 
  by (auto simp: reply_json_def rpc_send_def engine_of_def log_of_def Let_def split: option.split)

lemma replies_frame [frames]:
  "engine_of (snd (reply_error J ses pkg c t s)) = engine_of s" "log_of (snd (reply_error J ses pkg c t s)) = log_of s"
  "engine_of (snd (reply_error_invalid_argument J ses pkg s)) = engine_of s" "log_of (snd (reply_error_invalid_argument J ses pkg s)) = log_of s"
  "engine_of (snd (reply_error_internal_error J ses pkg s)) = engine_of s" "log_of (snd (reply_error_internal_error J ses pkg s)) = log_of s"
  "engine_of (snd (reply_error_service_unavailable J ses pkg s)) = engine_of s" "log_of (snd (reply_error_service_unavailable J ses pkg s)) = log_of s"
  "engine_of (snd (reply_result J ses pkg r s)) = engine_of s" "log_of (snd (reply_result J ses pkg r s)) = log_of s"
  "engine_of (snd (reply_success J ses pkg s)) = engine_of s" "log_of (snd (reply_success J ses pkg s)) = log_of s"
  by (simp_all add: reply_error_def reply_error_invalid_argument_def reply_error_internal_error_def
      reply_error_service_unavailable_def reply_result_def reply_success_def frames)

lemma append_operlog_frame [frames]:
  "engine_of (append_operlog J mname params s) = engine_of s"
  by (simp add: append_operlog_def current_timestamp_def engine_of_def Let_def)

lemma dv_put_same: "dv_find d k = Some v \<Longrightarrow> dv_put k v d = d"
  by (simp add: dv_put_def update_triv)

lemma set_market_same: "get_market s name = Some (Market m) \<Longrightarrow> set_market name m s = s"
  by (simp add: set_market_def get_market_def dv_put_same)

section \<open>Commands that read\<close>

definition untouched where
  "untouched s r \<longleftrightarrow> (\<forall>ret s'. r = Some (ret, s') \<longrightarrow> engine_of s' = engine_of s \<and> log_of s' = log_of s)"

lemma untouched_None [simp, intro]: "untouched s None"
  by (simp add: untouched_def)

lemma untouched_keep [intro]:
  "engine_of (snd p) = engine_of s \<Longrightarrow> log_of (snd p) = log_of s \<Longrightarrow> untouched s (Some p)"
  by (auto simp: untouched_def)

lemma untouched_replies [simp, intro]:
  "untouched s (Some (reply_error J ses pkg c t s))" "untouched s (Some (reply_error_invalid_argument J ses pkg s))"
  "untouched s (Some (reply_error_internal_error J ses pkg s))" "untouched s (Some (reply_error_service_unavailable J ses pkg s))"
  "untouched s (Some (reply_result J ses pkg r s))" "untouched s (Some (reply_success J ses pkg s))"
  by (auto simp: frames)

lemma put_limit_refused:
  "market_put_limit_order D is_real m s u side am pr tf mf src = (ret, result, m', s') \<Longrightarrow> ret \<noteq> 0 \<Longrightarrow> m' = m \<and> s' = s"
  by (auto simp: market_put_limit_order_def Let_def split: if_splits prod.splits)

lemma put_market_refused:
  "market_put_market_order D is_real m s u side am tf src = Some (ret, result, m', s') \<Longrightarrow> ret \<noteq> 0 \<Longrightarrow> m' = m \<and> s' = s"
  by (auto simp: market_put_market_order_def Let_def split: if_splits prod.splits option.splits)

lemma readers_untouched:
  "untouched s (on_cmd_balance_query D J ses pkg params s)"
  "untouched s (on_cmd_asset_list J ses pkg params s)"
  "untouched s (on_cmd_asset_summary D J ses pkg params s)"
  "untouched s (on_cmd_order_query D J ses pkg params s)"
  "untouched s (on_cmd_order_book D J ses pkg params s)"
  "untouched s (on_cmd_order_detail D J ses pkg params s)"
  "untouched s (on_cmd_market_list D J ses pkg params s)"
  "untouched s (on_cmd_market_summary D J ses pkg params s)"
  by (auto simp: on_cmd_balance_query_def on_cmd_asset_list_def on_cmd_asset_summary_def on_cmd_order_query_def
      on_cmd_order_book_def on_cmd_order_detail_def on_cmd_market_list_def on_cmd_market_summary_def Let_def
      map_option_case
      split: option.split market_ptr.split prod.split)

lemma engine_of_ticks [simp]: "engine_of (s\<lparr>ticks := n\<rparr>) = engine_of s"
  by (simp add: engine_of_def)

lemma engine_of_more [simp]:
  "engine_of (s\<lparr>dict_cache := c\<rparr>) = engine_of s"
  "log_of (s\<lparr>ticks := n\<rparr>) = log_of s" "log_of (s\<lparr>dict_cache := c\<rparr>) = log_of s"
  by (simp_all add: engine_of_def log_of_def)

lemma cache_frame [frames]:
  "engine_of (snd (process_cache J ses pkg s)) = engine_of s" "log_of (snd (process_cache J ses pkg s)) = log_of s"
  "engine_of (add_cache key result s) = engine_of s" "log_of (add_cache key result s) = log_of s"
  by (auto simp: process_cache_def add_cache_def current_timestamp_def Let_def frames split: option.split)

lemma depth_untouched: "untouched s (on_cmd_order_book_depth D J ses pkg params s)"
proof -
  have keep: "untouched s (Some (reply_result J ses pkg result (add_cache key r (snd (process_cache J ses pkg s)))))" for result key r
    by (rule untouched_keep) (simp_all add: frames)
  have hit: "untouched s (Some (0::int, snd (process_cache J ses pkg s)))"
    by (rule untouched_keep) (simp_all add: frames)
  show ?thesis
    using keep hit by (simp add: on_cmd_order_book_depth_def Let_def case_prod_beta split: option.split market_ptr.split)
qed

text \<open>What a market operation keeps of the engine's other state.\<close>

lemma kept_server:
  assumes "kept s t"
  shows "dict_market t = dict_market s" "dict_update t = dict_update s" "operlog_id_start t = operlog_id_start s"
    "oper_list t = oper_list s" "oper_job t = oper_job s" "dict_asset t = dict_asset s"
  using assms by (cases s; cases t; simp add: kept_def)+

lemma set_market_fields [simp]:
  "operlog_id_start (set_market name m s) = operlog_id_start s" "oper_list (set_market name m s) = oper_list s"
  by (simp_all add: set_market_def)

lemma update_log_kept:
  "log_of (snd (snd (update_user_balance D r u a b i c d s))) = log_of s"
proof -
  have more: "log_of t = log_of s" if "kept s t" for s t :: "('a, 'b) operlog_state_scheme"
    using kept_server(3,4) [OF that] by (simp add: log_of_def)
  have "log_of (snd (balance_add D u ty a x s)) = log_of s"
    "log_of (snd (balance_sub D u ty a x s)) = log_of s" for u ty a x and s :: "('a, 'b) operlog_state_scheme"
    by (rule more, simp)+
  moreover have "log_of (push_balance_message D n u a b c s) = log_of s"
    "log_of (append_user_balance_history D n u a b c d s) = log_of s" for n u a b c d and s :: "('a, 'b) operlog_state_scheme"
    by (rule more, rule kept_same_core, simp add: same_core_iff frames)+
  moreover have "log_of (s\<lparr>ticks := n\<rparr>) = log_of s" "log_of (s\<lparr>calls := n\<rparr>) = log_of s" "log_of (s\<lparr>dict_update := du\<rparr>) = log_of s"
    for n du and s :: "('a, 'b) operlog_state_scheme"
    by (simp_all add: log_of_def)
  ultimately show ?thesis
    by (simp add: update_user_balance_def current_timestamp_def Let_def case_prod_beta)
qed

lemma update_refused:
  assumes "fst (update_user_balance D r u a b i c d s) \<noteq> 0"
  shows "engine_of (snd (snd (update_user_balance D r u a b i c d s))) = engine_of s"
    "log_of (snd (snd (update_user_balance D r u a b i c d s))) = log_of s"
  using assms
  by (auto simp: update_user_balance_def current_timestamp_def Let_def case_prod_beta balance_failed engine_of_def log_of_def
      split: if_splits)


section \<open>Outcomes\<close>

text \<open>
  Values that survive the way through their text: no real number in them. The text of a sorted dump
  reads back as the value with sorted keys.
\<close>

fun json_plain :: "json \<Rightarrow> bool" where
  "json_plain (JReal _) = False"
| "json_plain (JArray xs) = (\<forall>x \<in> set xs. json_plain x)"
| "json_plain (JObject kvs) = (\<forall>kv \<in> set kvs. json_plain (snd kv))"
| "json_plain _ = True"

definition text_ok :: "text_lib \<Rightarrow> bool" where
  "text_ok J \<longleftrightarrow> (\<forall>j t. json_plain j \<longrightarrow> json_is_object (Some j) \<longrightarrow> json_dumps_sorted J j = Some t
      \<longrightarrow> json_loadb J t = Some (json_sort j))"

lemma text_okD: "text_ok J \<Longrightarrow> json_plain j \<Longrightarrow> json_is_object (Some j) \<Longrightarrow> json_dumps_sorted J j = Some t
    \<Longrightarrow> json_loadb J t = Some (json_sort j)"
  by (simp add: text_ok_def)

text \<open>
  A command that can change the engine either fails, and then leaves engine and log alone, or
  succeeds: the log gets one entry, and (if \<open>P\<close>) the loader that the entry is meant for, given the
  logged parameters and the state the command started from, succeeds and leads to the same engine.
\<close>

definition outcome :: "text_lib \<Rightarrow> ('d, 'z) server_state_scheme \<Rightarrow> (int \<times> ('d, 'z) server_state_scheme) option \<Rightarrow> json \<Rightarrow> string \<Rightarrow> bool
    \<Rightarrow> (json \<Rightarrow> ('d, 'z) server_state_scheme \<Rightarrow> (int \<times> ('d, 'z) server_state_scheme) option) \<Rightarrow> bool" where
  "outcome J s res params mname P load \<longleftrightarrow> (\<forall>ret s'. res = Some (ret, s') \<longrightarrow>
     engine_of s' = engine_of s \<and> log_of s' = log_of s \<or>
     (\<exists>(t :: ('d, 'z) server_state_scheme) args. operlog_id_start t = operlog_id_start s \<and> oper_list t = oper_list s
        \<and> engine_of s' = engine_of t \<and> log_of s' = log_of (append_operlog J mname args t)
        \<and> (json_plain params \<longrightarrow> json_plain args)
        \<and> (P \<longrightarrow> (\<exists>r. load args s = Some (0, r) \<and> engine_of r = engine_of t))))"

lemma outcome_None [simp]: "outcome J s None params mname P load"
  by (simp add: outcome_def)

lemma outcome_keep: "engine_of (snd p) = engine_of s \<Longrightarrow> log_of (snd p) = log_of s \<Longrightarrow> outcome J s (Some p) params mname P load"
  by (auto simp: outcome_def)

lemma outcome_replies [simp]:
  "outcome J s (Some (reply_error K ses pkg c t s)) params mname P load"
  "outcome J s (Some (reply_error_invalid_argument K ses pkg s)) params mname P load"
  "outcome J s (Some (reply_error_internal_error K ses pkg s)) params mname P load"
  "outcome J s (Some (reply_error_service_unavailable K ses pkg s)) params mname P load"
  by (rule outcome_keep; simp add: frames)+

lemma outcome_logged:
  fixes s t :: "('d, 'z) server_state_scheme"
  assumes "operlog_id_start t = operlog_id_start s" "oper_list t = oper_list s"
    and "engine_of (snd p) = engine_of (append_operlog J mname args t)" "log_of (snd p) = log_of (append_operlog J mname args t)"
    and "json_plain params \<Longrightarrow> json_plain args" and "P \<Longrightarrow> \<exists>r. load args s = Some (0, r) \<and> engine_of r = engine_of t"
  shows "outcome J s (Some p) params mname P load"
proof -
  have "engine_of (snd p) = engine_of t"
    using assms(3) by (simp add: frames)
  then show ?thesis
    using assms unfolding outcome_def by (intro allI impI disjI2 exI [of _ t] exI [of _ args]) auto
qed

lemma outcome_if: "(b \<Longrightarrow> outcome J s x params mname P load) \<Longrightarrow> (\<not> b \<Longrightarrow> outcome J s y params mname P load) \<Longrightarrow>
    outcome J s (if b then x else y) params mname P load"
  by simp

lemma outcome_option: "(v = None \<Longrightarrow> outcome J s x params mname P load) \<Longrightarrow> (\<And>a. v = Some a \<Longrightarrow> outcome J s (f a) params mname P load) \<Longrightarrow>
    outcome J s (case v of None \<Rightarrow> x | Some a \<Rightarrow> f a) params mname P load"
  by (cases v) simp_all

lemma outcome_ptr: "(\<And>m. p = Market m \<Longrightarrow> outcome J s (f m) params mname P load) \<Longrightarrow>
    outcome J s (case p of Market m \<Rightarrow> f m | Dangling \<Rightarrow> None) params mname P load"
  by (cases p) simp_all

lemmas outcome_cases = outcome_if outcome_option outcome_ptr outcome_None outcome_replies

lemma market_replay:
  assumes "get_market s name = Some (Market m)" "same_core t t'"
  shows "engine_of (set_market name m' t') = engine_of (set_market name m' t)"
proof -
  have "dict_asset t' = dict_asset t" "dict_balance t' = dict_balance t" "history_state.more t' = history_state.more t"
    using assms(2) by (simp_all add: same_core_iff)
  then show ?thesis
    by (cases t; cases t'; simp add: engine_of_def set_market_def)
qed

lemma market_outcome:
  assumes market: "get_market s name = Some (Market m)" and run: "kept s t" "ret \<noteq> 0 \<Longrightarrow> m' = m \<and> t = s"
    and load: "load params s = Some (ret, set_market name m' t')" and core: "same_core t t'"
  shows "ret \<noteq> 0 \<Longrightarrow> outcome J s (Some (reply_error J ses pkg c x (set_market name m' t))) params mname P load"
    "ret \<noteq> 0 \<Longrightarrow> outcome J s (Some (reply_error_internal_error J ses pkg (set_market name m' t))) params mname P load"
    "ret = 0 \<Longrightarrow> outcome J s (Some (reply_result J ses pkg result (append_operlog J mname params (set_market name m' t)))) params mname P load"
proof -
  have same: "set_market name m' t = s" if "ret \<noteq> 0"
    using run(2) [OF that] set_market_same [OF market] by simp
  show "ret \<noteq> 0 \<Longrightarrow> outcome J s (Some (reply_error J ses pkg c x (set_market name m' t))) params mname P load"
    "ret \<noteq> 0 \<Longrightarrow> outcome J s (Some (reply_error_internal_error J ses pkg (set_market name m' t))) params mname P load"
    by (simp_all add: same)
  assume ret: "ret = 0"
  show "outcome J s (Some (reply_result J ses pkg result (append_operlog J mname params (set_market name m' t)))) params mname P load"
    by (rule outcome_logged [of "set_market name m' t" _ _ _ _ params])
      (use load ret market_replay [OF market core] in \<open>simp_all add: kept_server [OF run(1)] frames\<close>)
qed

lemma put_limit_codes: "market_put_limit_order D is_real m s u side am pr tf mf src = (ret, result, m', s') \<Longrightarrow> ret \<in> {0, -1, -2}"
  by (auto simp: market_put_limit_order_def Let_def split: if_splits prod.splits)

lemma put_limit_outcome:
  assumes market: "get_market s name = Some (Market m)"
    and load: "load params s = (case market_put_limit_order D False m s u side am pr tf mf src of
       (ret, _, market, s) \<Rightarrow> Some (ret, set_market name market s))"
  shows "outcome J s (case market_put_limit_order D True m s u side am pr tf mf src of (ret, result, market, s) \<Rightarrow>
       if ret = - 1 then Some (reply_error J ses pkg 10 ''balance not enough'' (set_market name market s))
       else if ret = - 2 then Some (reply_error J ses pkg 11 ''amount too small'' (set_market name market s))
       else if ret < 0 then Some (reply_error_internal_error J ses pkg (set_market name market s))
       else (case result of
               None \<Rightarrow> None
             | Some result \<Rightarrow> Some (reply_result J ses pkg result
                 (append_operlog J ''limit_order'' params (set_market name market s))))) params ''limit_order'' P load"
proof -
  obtain ret result m' t ret' result' m'' t' where
    e: "market_put_limit_order D True m s u side am pr tf mf src = (ret, result, m', t)"
      "market_put_limit_order D False m s u side am pr tf mf src = (ret', result', m'', t')"
    by (metis surj_pair)
  have core: "ret' = ret" "m'' = m'" "same_core t t'"
    using market_put_limit_order_core [OF same_core_refl e] by simp_all
  have kept: "kept s t"
    using market_put_limit_order_kept [of s D True m u side am pr tf mf src] e by simp
  have "load params s = Some (ret, set_market name m' t')"
    using load e core by simp
  note m = market_outcome [where load = load and params = params, OF market kept put_limit_refused [OF e(1)] this core(3)]
  show ?thesis
    using put_limit_codes [OF e(1)] m by (auto simp: e(1) split: option.split)
qed

lemma put_limit_cmd: "outcome J s (on_cmd_order_put_limit D J ses pkg params s) params ''limit_order'' P (load_limit_order D)"
  unfolding on_cmd_order_put_limit_def Let_def
  by ((rule put_limit_outcome, simp, simp add: load_limit_order_def Let_def) | rule outcome_cases)+

lemma put_market_codes:
  "market_put_market_order D is_real m s u side am tf src = Some (ret, result, m', s') \<Longrightarrow> ret \<in> {0, -1, -2, -3}"
proof -
  have "market_order_check D m s u side am \<in> {0, -1, -2, -3}"
    by (auto simp: market_order_check_def split: list.split option.split)
  then show "market_put_market_order D is_real m s u side am tf src = Some (ret, result, m', s') \<Longrightarrow> ret \<in> {0, -1, -2, -3}"
    by (auto simp: market_put_market_order_def Let_def split: if_splits prod.splits option.splits)
qed

lemma put_market_outcome:
  assumes market: "get_market s name = Some (Market m)"
    and load: "load params s = (case market_put_market_order D False m s u side am tf src of
       None \<Rightarrow> None | Some (ret, _, market, s) \<Rightarrow> Some (ret, set_market name market s))"
  shows "outcome J s (case market_put_market_order D True m s u side am tf src of None \<Rightarrow> None
     | Some (ret, result, market, s) \<Rightarrow>
       if ret = - 1 then Some (reply_error J ses pkg 10 ''balance not enough'' (set_market name market s))
       else if ret = - 2 then Some (reply_error J ses pkg 11 ''amount too small'' (set_market name market s))
       else if ret = - 3 then Some (reply_error J ses pkg 12 ''no enough trader'' (set_market name market s))
       else if ret < 0 then Some (reply_error_internal_error J ses pkg (set_market name market s))
       else (case result of
               None \<Rightarrow> None
             | Some result \<Rightarrow> Some (reply_result J ses pkg result
                 (append_operlog J ''market_order'' params (set_market name market s))))) params ''market_order'' P load"
proof (cases "market_put_market_order D True m s u side am tf src")
  case (Some p)
  then obtain ret result m' t where e: "market_put_market_order D True m s u side am tf src = Some (ret, result, m', t)"
    by (metis surj_pair)
  then obtain result' t' where e': "market_put_market_order D False m s u side am tf src = Some (ret, result', m', t')"
      "same_core t t'"
    using market_put_market_order_core [OF same_core_refl, of D True m s u side am tf src False]
    by (auto simp: option_rel_Some1)
  have "load params s = Some (ret, set_market name m' t')"
    using load e' by simp
  note m = market_outcome [where load = load and params = params, OF market market_put_market_order_kept [OF e]
      put_market_refused [OF e] this e'(2)]
  show ?thesis
    using put_market_codes [OF e] m by (auto simp: e split: option.split)
qed simp

lemma put_market_cmd: "outcome J s (on_cmd_order_put_market D J ses pkg params s) params ''market_order'' P (load_market_order D)"
  unfolding on_cmd_order_put_market_def Let_def
  by ((rule put_market_outcome, simp, simp add: load_market_order_def Let_def del: One_nat_def) | rule outcome_cases)+

lemma cancel_code: "market_cancel_order D r m s a = (ret, result, m', t) \<Longrightarrow> ret = 0"
  by (auto simp: market_cancel_order_def Let_def split: prod.splits)

lemma cancel_outcome:
  assumes market: "get_market s name = Some (Market m)"
    and load: "load params s = (case market_cancel_order D False m s a of
       (ret, _, market, s) \<Rightarrow> Some (if ret < 0 then - 363 else 0, set_market name market s))"
  shows "outcome J s (case market_cancel_order D True m s a of (ret, result, market, s) \<Rightarrow>
       if ret < 0 then Some (reply_error_internal_error J ses pkg (set_market name market s))
       else (case result of
               None \<Rightarrow> None
             | Some result \<Rightarrow> Some (reply_result J ses pkg result
                 (append_operlog J ''cancel_order'' params (set_market name market s))))) params ''cancel_order'' P load"
proof -
  obtain ret result m' t ret' result' m'' t' where
    e: "market_cancel_order D True m s a = (ret, result, m', t)" "market_cancel_order D False m s a = (ret', result', m'', t')"
    by (metis surj_pair)
  have core: "ret' = ret" "m'' = m'" "same_core t t'"
    using market_cancel_order_core [OF same_core_refl e] by simp_all
  have kept: "kept s t"
    using market_cancel_order_kept [of s D True m a] e by simp
  have "load params s = Some (ret, set_market name m' t')"
    using load e core cancel_code [OF e(1)] by simp
  with cancel_code [OF e(1)] market_outcome(3) [where load = load and params = params, OF market kept _ this core(3)]
  show ?thesis
    by (auto simp: e(1) split: option.split)
qed

lemma cancel_cmd: "outcome J s (on_cmd_order_cancel D J ses pkg params s) params ''cancel_order'' P (load_cancel_order D)"
  unfolding on_cmd_order_cancel_def Let_def
  by ((rule cancel_outcome, simp, simp add: load_cancel_order_def Let_def) | rule outcome_cases)+

text \<open>An update does the same to the engine whether it is reported or replayed.\<close>

lemma engine_same_core: "same_core s t \<Longrightarrow> engine_of t = engine_of s"
  by (cases s; cases t; simp add: same_core_iff engine_of_def)

lemma update_replay:
  assumes "update_user_balance D True u a b i c d s = (0, d1, t)"
  shows "\<exists>d2 r. update_user_balance D False u a b i c e s = (0, d2, r) \<and> engine_of r = engine_of t"
proof -
  let ?s = "s\<lparr>calls := calls s + 1\<rparr>"
  let ?key = "mk_update_key u a b i (stack_bytes s (calls s))"
  obtain v w where add: "(if mpd_cmp D c (mpd_zero D) \<ge> 0
      then balance_add D u BALANCE_TYPE_AVAILABLE a (mpd_abs D c) ?s
      else balance_sub D u BALANCE_TYPE_AVAILABLE a (mpd_abs D c) ?s) = (v, w)"
    by (metis surj_pair)
  define x where "x = w\<lparr>ticks := ticks w + 1, dict_update := dv_put ?key \<lparr> uv_create_time = clock w (ticks w) \<rparr> (dict_update w)\<rparr>"
  have x: "w\<lparr>ticks := ticks w + 1\<rparr>\<lparr>dict_update := dv_put ?key \<lparr> uv_create_time = clock w (ticks w) \<rparr> (dict_update (w\<lparr>ticks := ticks w + 1\<rparr>))\<rparr> = x"
    by (simp add: x_def)
  have no: "dv_find (dict_update ?s) ?key = None" "v \<noteq> None"
    using assms unfolding update_user_balance_def Let_def
    by (simp_all only: add prod.case if_True split: if_split_asm) auto
  have r: "update_user_balance D False u a b i c e s = (0, e, x)"
    by (simp only: update_user_balance_def Let_def add prod.case no current_timestamp_def x if_False HOL.simp_thms)
  have t: "t = push_balance_message D (clock x (ticks x)) u a b c (append_user_balance_history D (clock x (ticks x)) u a b c (Dumps d1) (x\<lparr>ticks := ticks x + 1\<rparr>))"
    using assms by (simp only: update_user_balance_def Let_def add prod.case no current_timestamp_def x if_False if_True HOL.simp_thms prod.inject)
      (elim conjE, simp)
  have "same_core (x\<lparr>ticks := ticks x + 1\<rparr>) t"
    unfolding t by (simp add: same_core_iff frames)
  from engine_same_core [OF this] have "engine_of t = engine_of x"
    by simp
  with r show ?thesis by auto
qed

lemma update_code: "fst (update_user_balance D r u a b i c d s) \<in> {0, -1, -2}"
  by (simp add: update_user_balance_def Let_def case_prod_beta)

lemma load_update_detail:
  assumes "json_array_size params = 6" "json_array_get params 5 = Some (JObject kvs)" "json_is_object (Some detail)"
  shows "json_array_size (json_set_element params 5 detail) = 6"
    "i < 5 \<Longrightarrow> json_array_get (json_set_element params 5 detail) i = json_array_get params i"
    "json_array_get (json_set_element params 5 detail) 5 = Some detail"
  using assms by (cases params; simp)+

lemma update_detail:
  "\<exists>kvs'. fst (snd (update_user_balance D r u a b i c (JObject kvs) s)) = JObject kvs'
     \<and> (json_plain (JObject kvs) \<longrightarrow> json_plain (JObject kvs'))"
proof -
  have "json_plain (JObject (AList.update ''id'' (json_u64 i) kvs))" if "json_plain (JObject kvs)"
    using that by (induction kvs) (auto simp: json_u64_def)
  then show ?thesis
    by (auto simp: update_user_balance_def Let_def case_prod_beta)
qed

lemma plain_get: "json_plain params \<Longrightarrow> json_array_get params i = Some d \<Longrightarrow> json_plain d"
  by (cases params) (auto split: if_splits)

lemma plain_set: "json_plain params \<Longrightarrow> json_plain d \<Longrightarrow> json_plain (json_set_element params i d)"
  by (cases params) (auto dest: set_update_subset_insert [THEN subsetD])

lemma update_outcome:
  assumes params: "json_array_get params 5 = Some (JObject kvs)"
    and load: "\<And>kvs'. P \<Longrightarrow> load (json_set_element params 5 (JObject kvs')) s =
      (case update_user_balance D False u a b i c (JObject kvs') s of (ret, _, t) \<Rightarrow> Some (if ret < 0 then - 162 else 0, t))"
  shows "outcome J s (case update_user_balance D True u a b i c (JObject kvs) s of (ret, detail, t) \<Rightarrow>
     if ret = - 1 then Some (reply_error J ses pkg 10 ''repeat update'' t)
     else if ret = - 2 then Some (reply_error J ses pkg 11 ''balance not enough'' t)
     else if ret < 0 then Some (reply_error_internal_error J ses pkg t)
     else Some (reply_success J ses pkg (append_operlog J ''update_balance'' (json_set_element params 5 detail) t)))
     params ''update_balance'' P load"
proof -
  obtain ret d1 t where e: "update_user_balance D True u a b i c (JObject kvs) s = (ret, d1, t)"
    by (metis surj_pair)
  have kept: "operlog_id_start t = operlog_id_start s" "oper_list t = oper_list s"
    using update_log_kept [of D True u a b i c "JObject kvs" s] by (simp_all add: e log_of_def)
  note refused = update_refused [of D True u a b i c "JObject kvs" s, unfolded e, simplified]
  obtain kvs' where d1: "d1 = JObject kvs'" "json_plain (JObject kvs) \<Longrightarrow> json_plain d1"
    using update_detail [of D True u a b i c kvs s] e by auto
  have fail: "outcome J s (Some (reply_error J ses pkg x y t)) params ''update_balance'' P load" if "ret \<noteq> 0" for x y
    using refused that by (intro outcome_keep) (simp_all add: frames)
  have ok: "outcome J s (Some (reply_success J ses pkg (append_operlog J ''update_balance'' (json_set_element params 5 d1) t)))
      params ''update_balance'' P load" if ret: "ret = 0"
  proof (rule outcome_logged [of t _ _ _ _ "json_set_element params 5 d1"])
    assume P
    obtain d2 r where "update_user_balance D False u a b i c d1 s = (0, d2, r)" "engine_of r = engine_of t"
      using update_replay [OF e [unfolded ret], of d1] by blast
    with load [OF \<open>P\<close>, of kvs'] show "\<exists>r. load (json_set_element params 5 d1) s = Some (0, r) \<and> engine_of r = engine_of t"
      by (auto simp: d1(1))
  qed (use plain_set [OF _ d1(2)] plain_get [OF _ params] in \<open>simp_all add: kept frames del: json_plain.simps\<close>)
  show ?thesis
    using update_code [of D True u a b i c "JObject kvs" s] fail ok by (auto simp: e)
qed

lemma outcome_json: "(\<And>kvs. v = Some (JObject kvs) \<Longrightarrow> outcome J s (f kvs) params mname P load) \<Longrightarrow>
   outcome J s x params mname P load \<Longrightarrow> outcome J s (case v of Some (JObject kvs) \<Rightarrow> f kvs | _ \<Rightarrow> x) params mname P load"
  by (auto split: option.split json.split)

lemma update_cmd: "outcome J s (on_cmd_balance_update D J ses pkg params s) params ''update_balance''
   (asset_prec s (json_str (json_array_get params 1)) = asset_prec_show s (json_str (json_array_get params 1)))
   (load_update_balance D)"
  unfolding on_cmd_balance_update_def Let_def
  by ((rule update_outcome, assumption, simp add: load_update_balance_def Let_def load_update_detail del: One_nat_def) | rule outcome_json outcome_cases)+

section \<open>What is logged\<close>

lemma append_operlog_log:
  "log_of (append_operlog J mname args t) = (operlog_id_start t + 1, oper_list t @
     [\<lparr> ol_id = operlog_id_start t + 1, ol_create_time = clock t (ticks t),
        ol_detail = json_dumps_sorted J (JObject [(''method'', JString mname), (''params'', args)]) \<rparr>])"
  by (simp add: append_operlog_def log_of_def current_timestamp_def Let_def)

text \<open>What a logged outcome is, in terms of the entry.\<close>

lemma outcome_entry:
  assumes "outcome J s (Some (ret, s')) params mname P load"
  shows "engine_of s' = engine_of s \<and> log_of s' = log_of s \<or>
    (\<exists>entry args. oper_list s' = oper_list s @ [entry] \<and> operlog_id_start s' = operlog_id_start s + 1
       \<and> ol_id entry = operlog_id_start s + 1
       \<and> ol_detail entry = json_dumps_sorted J (JObject [(''method'', JString mname), (''params'', args)])
       \<and> (json_plain params \<longrightarrow> json_plain args)
       \<and> (P \<longrightarrow> (\<exists>r. load args s = Some (0, r) \<and> engine_of r = engine_of s')))"
  using assms unfolding outcome_def append_operlog_log by (fastforce simp: log_of_def)

text \<open>The parameters as the text gives them back.\<close>

lemma json_sort_get: "json_array_get (json_sort j) i = map_option json_sort (json_array_get j i)"
  by (cases j) simp_all

lemma json_sort_size: "json_array_size (json_sort j) = json_array_size j"
  by (cases j) simp_all

lemma json_sort_scalars [simp]:
  "json_is_integer (map_option json_sort v) = json_is_integer v" "json_is_string (map_option json_sort v) = json_is_string v"
  "json_integer_value (map_option json_sort v) = json_integer_value v"
  "json_string_value (map_option json_sort v) = json_string_value v" "json_str (map_option json_sort v) = json_str v"
  by (cases v; cases "the v"; simp add: json_str_def)+

lemma load_sort [simp]:
  "load_limit_order D (json_sort params) s = load_limit_order D params s"
  "load_market_order D (json_sort params) s = load_market_order D params s"
  "load_cancel_order D (json_sort params) s = load_cancel_order D params s"
  unfolding load_limit_order_def load_market_order_def load_cancel_order_def decimal_arg_def Let_def
    json_sort_get json_sort_size json_sort_scalars by (rule refl)+

lemma load_update_sort [simp]: "load_update_balance D (json_sort params) s = load_update_balance D params s"
proof -
  have detail: "(case update_user_balance D False u a b i c d s of (ret, _, t) \<Rightarrow> f ret t) =
     (case update_user_balance D False u a b i c e s of (ret, _, t) \<Rightarrow> f ret t)" for u a b i c and d e :: json and f
    by (simp add: update_user_balance_def Let_def case_prod_beta)
  show ?thesis
    unfolding load_update_balance_def Let_def json_sort_get json_sort_size json_sort_scalars
    by (cases "json_array_get params 5"; cases "the (json_array_get params 5)")
      (auto split: option.split intro: detail)
qed

text \<open>The commands that are logged, and those that never touch the engine.\<close>

definition change_commands :: "u32 list" where
  "change_commands = [CMD_BALANCE_UPDATE, CMD_ORDER_PUT_LIMIT, CMD_ORDER_PUT_MARKET, CMD_ORDER_CANCEL]"

lemma command_reads:
  assumes "rp_command pkg \<notin> set change_commands" "rp_command pkg \<noteq> CMD_LISTING_UPDATE"
  shows "untouched s (run_command D J file ses pkg params s)"
  using assms readers_untouched [where s = s] depth_untouched [where s = s]
  by (simp add: run_command_def change_commands_def Let_def untouched_keep)

text \<open>The operation that a command stands for in the log, with its loader.\<close>

definition oper_load :: "'d mpd_lib \<Rightarrow> string \<Rightarrow> json \<Rightarrow> ('d, 'z) trade_state_scheme
    \<Rightarrow> (int \<times> ('d, 'z) trade_state_scheme) option" where
  "oper_load D mname = (if mname = ''update_balance'' then load_update_balance D
     else if mname = ''limit_order'' then load_limit_order D
     else if mname = ''market_order'' then load_market_order D else load_cancel_order D)"

lemma command_outcome:
  assumes "rp_command pkg \<in> set change_commands"
  shows "\<exists>mname \<in> {''update_balance'', ''limit_order'', ''market_order'', ''cancel_order''}.
    outcome J s (run_command D J file ses pkg params s) params mname
      (rp_command pkg = CMD_BALANCE_UPDATE \<longrightarrow>
        asset_prec s (json_str (json_array_get params 1)) = asset_prec_show s (json_str (json_array_get params 1)))
      (oper_load D mname)"
proof -
  have b: "outcome J s (unless_blocked J ses pkg s x) params mname P load" if "outcome J s x params mname P load" for x mname P load
    using that by (simp add: unless_blocked_def)
  note all = update_cmd [of J s D ses pkg params] put_limit_cmd [of J s D ses pkg params]
    put_market_cmd [of J s D ses pkg params] cancel_cmd [of J s D ses pkg params]
  from assms consider "rp_command pkg = CMD_BALANCE_UPDATE" | "rp_command pkg = CMD_ORDER_PUT_LIMIT"
    | "rp_command pkg = CMD_ORDER_PUT_MARKET" | "rp_command pkg = CMD_ORDER_CANCEL"
    by (auto simp: change_commands_def)
  then show ?thesis
  proof cases
    case 1
    then show ?thesis
      by (intro bexI [of _ "''update_balance''"])
        (simp_all add: run_command_def command_defs oper_load_def b [OF all(1)] del: One_nat_def)
  next
    case 2
    then show ?thesis
      by (intro bexI [of _ "''limit_order''"]) (simp_all add: run_command_def command_defs oper_load_def b [OF all(2)])
  next
    case 3
    then show ?thesis
      by (intro bexI [of _ "''market_order''"]) (simp_all add: run_command_def command_defs oper_load_def b [OF all(3)])
  next
    case 4
    then show ?thesis
      by (intro bexI [of _ "''cancel_order''"]) (simp_all add: run_command_def command_defs oper_load_def b [OF all(4)])
  qed
qed

text \<open>Reading an entry back.\<close>

lemma load_entry:
  assumes "text_ok J" "json_plain args" "json_array_size args \<noteq> 0"
    and "json_dumps_sorted J (JObject [(''method'', JString mname), (''params'', args)]) = Some text"
    and "mname \<in> {''update_balance'', ''limit_order'', ''market_order'', ''cancel_order''}"
    and "oper_load D mname args s = Some (0, r)"
  shows "load_operlog_rows D J [\<lparr> l_id = last_id + 1, l_detail = text \<rparr>] last_id s = Some (0, last_id + 1, r)"
proof -
  obtain xs where args: "args = JArray xs"
    using assms(3) by (cases args) simp_all
  let ?detail = "JObject [(''method'', JString mname), (''params'', args)]"
  have "json_loadb J text = Some (json_sort ?detail)"
    using assms(2) by (intro text_okD [OF assms(1) _ _ assms(4)]) simp_all
  also have "json_sort ?detail = JObject [(''method'', JString mname), (''params'', json_sort args)]"
    by simp
  finally have parsed: "json_loadb J text = Some (JObject [(''method'', JString mname), (''params'', json_sort args)])" .
  have "load_oper D (JObject [(''method'', JString mname), (''params'', json_sort args)]) s = oper_load D mname (json_sort args) s"
    using assms(5) by (auto simp: load_oper_def oper_load_def args)
  also have "\<dots> = oper_load D mname args s"
    by (simp add: oper_load_def)
  finally show ?thesis
    using assms(6) parsed by simp
qed


text \<open>What a command can do to the log.\<close>

lemma command_log:
  assumes "run_command D J file ses pkg params s = Some (ret, s')" "rp_command pkg \<noteq> CMD_LISTING_UPDATE"
  shows "log_of s' = log_of s \<or>
    (\<exists>entry. log_of s' = (operlog_id_start s + 1, oper_list s @ [entry]) \<and> ol_id entry = operlog_id_start s + 1)"
proof (cases "rp_command pkg \<in> set change_commands")
  case False
  with command_reads [OF False assms(2), of s D J "file" ses params] assms(1) show ?thesis
    by (simp add: untouched_def)
next
  case True
  from command_outcome [OF True, of J s D "file" ses params] assms(1) obtain mname P load where
    "outcome J s (Some (ret, s')) params mname P load"
    by auto
  from outcome_entry [OF this] show ?thesis
    by (auto simp: log_of_def)
qed

end
