(* ===== verification/Server_Inv.thy ===== *)
theory Server_Inv
  imports Server_Facts Market_Facts
begin

text \<open>
  The invariant of the whole server: the ledger is well-formed, and every market the dictionary
  leads to satisfies the invariant of \<open>Market_Facts\<close> with respect to that one ledger. Every command
  keeps it, although a command on one market changes the balances all markets share.
\<close>

section \<open>The invariant\<close>

definition server_inv :: "'d mpd_lib \<Rightarrow> ('d \<Rightarrow> rat option) \<Rightarrow> ('d, 'z) trade_state_scheme \<Rightarrow> bool" where
  "server_inv D val s \<longleftrightarrow> ledger_inv D val s \<and>
     (\<forall>name m. get_market s name = Some (Market m) \<longrightarrow>
        market_inv D val m s \<and> 0 \<le> m_stock_prec m \<and> m_stock_prec m \<le> max_prec)"

lemma market_inv_engine:
  assumes "dict_balance t = dict_balance s" "dict_asset t = dict_asset s" "order_id_start t = order_id_start s"
  shows "ledger_inv D val t = ledger_inv D val s" "market_inv D val m t = market_inv D val m s"
proof -
  show l: "ledger_inv D val t = ledger_inv D val s"
    by (simp add: assms ledger_inv_def balances_ok_def)
  show "market_inv D val m t = market_inv D val m s"
    by (simp add: market_inv_def engine_ok_def l ids_ok_def asset_exist_def get_asset_type_def assms)
qed

lemma server_inv_fields:
  assumes "dict_balance t = dict_balance s" "dict_asset t = dict_asset s" "order_id_start t = order_id_start s"
    "dict_market t = dict_market s"
  shows "server_inv D val t = server_inv D val s"
  by (simp add: server_inv_def get_market_def market_inv_engine [OF assms(1-3)] assms(4))

lemma server_inv_engine: "engine_of t = engine_of s \<Longrightarrow> server_inv D val t = server_inv D val s"
  by (rule server_inv_fields) (simp_all add: engine_of_def)

lemma server_invD:
  assumes "server_inv D val s"
  shows "ledger_inv D val s" "get_market s name = Some (Market m) \<Longrightarrow> market_inv D val m s"
    "get_market s name = Some (Market m) \<Longrightarrow> 0 \<le> m_stock_prec m \<and> m_stock_prec m \<le> max_prec"
  using assms by (auto simp: server_inv_def)

lemma market_inv_mono:
  assumes "market_inv D val m s" "ledger_inv D val t" "dict_asset t = dict_asset s" "order_id_start s \<le> order_id_start t"
  shows "market_inv D val m t"
  using assms by (force simp: market_inv_def engine_ok_def ids_ok_def asset_exist_def get_asset_type_def)

lemma market_step:
  assumes inv: "server_inv D val s" and m: "get_market s name = Some (Market m)"
    and m': "market_inv D val m' t" "same_market m m'" and t: "kept s t" "order_id_start s \<le> order_id_start t"
  shows "server_inv D val (set_market name m' t)"
proof -
  have l: "ledger_inv D val t"
    using m'(1) by (simp add: market_inv_def engine_ok_def)
  have other: "market_inv D val m2 t" if "get_market s name2 = Some (Market m2)" for name2 m2
    using market_inv_mono [OF server_invD(2) [OF inv that] l _ t(2)] t(1) by (simp add: kept_def)
  have eq: "ledger_inv D val (set_market name m' t) = ledger_inv D val t"
    "market_inv D val m2 (set_market name m' t) = market_inv D val m2 t" for m2
    using market_inv_engine [of "set_market name m' t" t D val] by (simp_all add: set_market_def)
  have dict: "dict_market t = dict_market s"
    using t(1) by (cases s; cases t; simp add: kept_def)
  show ?thesis
    unfolding server_inv_def eq
    using l m'(1) other server_invD(3) [OF inv] server_invD(3) [OF inv m] m'(2)
    by (auto simp: get_market_def set_market_def dict same_market_def split: if_splits)
qed

text \<open>Results that keep the invariant.\<close>

definition keeps :: "'d mpd_lib \<Rightarrow> ('d \<Rightarrow> rat option) \<Rightarrow> (int \<times> ('d, 'z) trade_state_scheme) option \<Rightarrow> bool" where
  "keeps D val r \<longleftrightarrow> (\<forall>ret s'. r = Some (ret, s') \<longrightarrow> server_inv D val s')"

lemma keeps_None [simp]: "keeps D val None"
  by (simp add: keeps_def)

lemma keeps_same: "server_inv D val s \<Longrightarrow> engine_of (snd p) = engine_of s \<Longrightarrow> keeps D val (Some p)"
  using server_inv_engine [of "snd p" s D val] by (auto simp: keeps_def)

lemma keeps_replies:
  assumes "server_inv D val s"
  shows "keeps D val (Some (reply_error J ses pkg c t s))" "keeps D val (Some (reply_error_invalid_argument J ses pkg s))"
    "keeps D val (Some (reply_error_internal_error J ses pkg s))" "keeps D val (Some (reply_error_service_unavailable J ses pkg s))"
    "keeps D val (Some (reply_result J ses pkg r s))" "keeps D val (Some (reply_success J ses pkg s))"
    "keeps D val (Some (reply_result J ses pkg r (append_operlog K method params s)))"
    "keeps D val (Some (reply_success J ses pkg (append_operlog K method params s)))"
  by (rule keeps_same [OF assms]; simp add: frames)+

lemma keeps_if: "(b \<Longrightarrow> keeps D val x) \<Longrightarrow> (\<not> b \<Longrightarrow> keeps D val y) \<Longrightarrow> keeps D val (if b then x else y)"
  by simp

lemma keeps_option: "(v = None \<Longrightarrow> keeps D val x) \<Longrightarrow> (\<And>a. v = Some a \<Longrightarrow> keeps D val (f a)) \<Longrightarrow>
    keeps D val (case v of None \<Rightarrow> x | Some a \<Rightarrow> f a)"
  by (cases v) simp_all

lemma keeps_ptr: "(\<And>m. p = Market m \<Longrightarrow> keeps D val (f m)) \<Longrightarrow> keeps D val (case p of Market m \<Rightarrow> f m | Dangling \<Rightarrow> None)"
  by (cases p) simp_all

lemma keeps_json: "(\<And>kvs. v = Some (JObject kvs) \<Longrightarrow> keeps D val (f kvs)) \<Longrightarrow> keeps D val x \<Longrightarrow>
    keeps D val (case v of Some (JObject kvs) \<Rightarrow> f kvs | _ \<Rightarrow> x)"
  by (auto split: option.split json.split)

lemmas keeps_cases = keeps_if keeps_option keeps_ptr keeps_None

text \<open>
  The decimals of a request are numbers: \<open>decimal\<close> also accepts the strings that stand for a NaN or
  an infinity.
\<close>

definition finite_args :: "'d mpd_lib \<Rightarrow> ('d \<Rightarrow> rat option) \<Rightarrow> json \<Rightarrow> bool" where
  "finite_args D val params \<longleftrightarrow> (\<forall>i prec x. json_is_string (json_array_get params i) \<longrightarrow>
     decimal D (json_str (json_array_get params i)) prec = Some x \<longrightarrow> val x \<noteq> None)"

lemma decimal_args:
  assumes "finite_args D val params" "mpd_laws D val"
  shows "decimal_arg D (json_array_get params i) prec (not_positive D) = Some x \<Longrightarrow> \<exists>v. val x = Some v \<and> 0 < v"
    "decimal_arg D (json_array_get params i) prec (fee_bad D) = Some x \<Longrightarrow> \<exists>v. val x = Some v \<and> 0 \<le> v \<and> v < 1"
proof -
  have arg: "val x \<noteq> None \<and> \<not> bad x" if "decimal_arg D (json_array_get params i) prec bad = Some x" for bad
    using assms(1) that by (auto simp: finite_args_def decimal_arg_def split: if_splits option.splits)
  have pos: "0 < v" if "val x = Some v" "\<not> not_positive D x" for v
    using that mpd_cmp_val [OF assms(2) that(1) mpd_zero_val [OF assms(2)]] by (auto simp: not_positive_def split: if_splits)
  have fee: "0 \<le> v \<and> v < 1" if "val x = Some v" "\<not> fee_bad D x" for v
    using that mpd_cmp_val [OF assms(2) that(1) mpd_zero_val [OF assms(2)]] mpd_cmp_val [OF assms(2) that(1) mpd_one_val [OF assms(2)]]
    by (auto simp: fee_bad_def split: if_splits)
  show "decimal_arg D (json_array_get params i) prec (not_positive D) = Some x \<Longrightarrow> \<exists>v. val x = Some v \<and> 0 < v"
    using arg [of "not_positive D"] pos by blast
  show "decimal_arg D (json_array_get params i) prec (fee_bad D) = Some x \<Longrightarrow> \<exists>v. val x = Some v \<and> 0 \<le> v \<and> v < 1"
    using arg [of "fee_bad D"] fee by blast
qed

lemma side_okI: "\<not> side_bad side \<Longrightarrow> side_ok side"
  by (auto simp: side_bad_def side_ok_def)

section \<open>The commands\<close>

lemma put_limit_keeps:
  assumes inv: "server_inv D val s" and m: "get_market s name = Some (Market m)"
    and args: "limit_args_ok val side am pr tf mf" and room: "order_id_start s < order_id_start s + 1"
  shows "server_inv D val (case market_put_limit_order D r m s u side am pr tf mf src of
      (_, _, m', t) \<Rightarrow> set_market name m' t)"
proof -
  obtain ret result m' t where put: "market_put_limit_order D r m s u side am pr tf mf src = (ret, result, m', t)"
    by (metis surj_pair)
  note p = put_limit_order_inv [OF server_invD(2) [OF inv m] args room put]
  have "order_id_start s \<le> order_id_start t"
    using p(3,4) room by (cases "ret = 0") (simp_all add: less_imp_le)
  moreover have "kept s t"
    using market_put_limit_order_kept [of s D r m u side am pr tf mf src] put by simp
  ultimately show ?thesis
    using market_step [OF inv m p(1,2)] by (simp add: put)
qed

lemma put_market_keeps:
  assumes inv: "server_inv D val s" and m: "get_market s name = Some (Market m)"
    and args: "side_ok side" "nonneg val am" "nonneg val tf" and room: "order_id_start s < order_id_start s + 1"
  shows "\<exists>ret result m' t. market_put_market_order D r m s u side am tf src = Some (ret, result, m', t) \<and>
      server_inv D val (set_market name m' t)"
proof -
  have "market_args_ok val m side am tf"
    using args server_invD(3) [OF inv m] by (simp add: market_args_ok_def)
  from put_market_order_inv [OF server_invD(2) [OF inv m] this room, of r u src] obtain ret result m' t where
    put: "market_put_market_order D r m s u side am tf src = Some (ret, result, m', t)"
    and p: "market_inv D val m' t" "same_market m m'" "ret = 0 \<longrightarrow> order_id_start t = order_id_start s + 1"
      "ret \<noteq> 0 \<longrightarrow> m' = m \<and> t = s"
    by blast
  have "order_id_start s \<le> order_id_start t"
    using p(3,4) room by (cases "ret = 0") (simp_all add: less_imp_le)
  with market_step [OF inv m p(1,2) market_put_market_order_kept [OF put]] put show ?thesis
    by blast
qed

lemma cancel_keeps:
  assumes inv: "server_inv D val s" and m: "get_market s name = Some (Market m)" and a: "market_get_order m i = Some a"
  shows "server_inv D val (case market_cancel_order D r m s a of (_, _, m', t) \<Rightarrow> set_market name m' t)"
proof -
  obtain ret result m' t where c: "market_cancel_order D r m s a = (ret, result, m', t)"
    by (metis surj_pair)
  have "m_orders m i = Some a"
    using a by (simp add: market_get_order_def)
  note p = cancel_order_inv [OF server_invD(2) [OF inv m] this c]
  have "kept s t"
    using market_cancel_order_kept [of s D r m a] c by simp
  then show ?thesis
    using market_step [OF inv m p(1,2)] p(4) by (simp add: c)
qed

text \<open>A state with another well-formed ledger keeps its markets.\<close>

lemma ledger_step:
  assumes inv: "server_inv D val s" and t: "ledger_inv D val t" "kept s t" "order_id_start t = order_id_start s"
  shows "server_inv D val t"
proof -
  have "dict_market t = dict_market s"
    using t(2) by (cases s; cases t; simp add: kept_def)
  then show ?thesis
    using server_invD(2,3) [OF inv] market_inv_mono [OF _ t(1), of _ s] t
    by (auto simp: server_inv_def get_market_def kept_def)
qed

lemma abs_nonneg: "mpd_laws D val \<Longrightarrow> val c \<noteq> None \<Longrightarrow> nonneg val (mpd_abs D c)"
  using mpd_abs_val [of D val c] rounds_nonneg by (fastforce simp: nonneg_def)

lemma update_keeps:
  assumes inv: "server_inv D val s" and a: "asset_exist s a" and c: "val c \<noteq> None"
  shows "server_inv D val (snd (snd (update_user_balance D r u a b i c d s)))"
proof -
  let ?s = "s\<lparr>calls := calls s + 1\<rparr>" and ?x = "mpd_abs D c"
  have inv': "server_inv D val ?s" and L: "ledger_inv D val ?s"
    using server_inv_fields [of ?s s D val] inv by (simp_all add: server_inv_def)
  have x: "nonneg val ?x"
    using abs_nonneg [of D val c] c L by (simp add: ledger_inv_def)
  have a': "asset_exist ?s a"
    using a by (simp add: asset_exist_def get_asset_type_def)
  note ops = balance_add_ledger(1) [OF L a' x] balance_sub_ledger(1) [OF L a' x]
  have id: "order_id_start (snd (balance_add D u ty a ?x ?s)) = order_id_start ?s"
    "order_id_start (snd (balance_sub D u ty a ?x ?s)) = order_id_start ?s" for ty
    by (rule update_fields(4), simp add: frames)+
  have bal: "server_inv D val (snd (balance_add D u ty a ?x ?s))" "server_inv D val (snd (balance_sub D u ty a ?x ?s))" for ty
    by (rule ledger_step [OF inv' ops(1) kept_balances(1) id(1)], rule ledger_step [OF inv' ops(2) kept_balances(2) id(2)])
  have quiet: "server_inv D val (push_balance_message D n u a b c s) = server_inv D val s"
    "server_inv D val (append_user_balance_history D n u a b c d s) = server_inv D val s"
    "server_inv D val (s\<lparr>ticks := m\<rparr>) = server_inv D val s" "server_inv D val (s\<lparr>dict_update := du\<rparr>) = server_inv D val s"
    for n u a b c d m du and s :: "('a, 'b) trade_state_scheme"
    by (rule server_inv_fields; simp add: push_balance_message_def append_user_balance_history_def report_def Let_def)+
  show ?thesis
    using inv' bal [of BALANCE_TYPE_AVAILABLE]
    by (simp add: update_user_balance_def Let_def current_timestamp_def case_prod_beta quiet)
qed


text \<open>Every command keeps the invariant.\<close>

lemma change_commands_keep:
  assumes inv: "server_inv D val s" and fin: "finite_args D val params" and room: "order_id_start s < order_id_start s + 1"
  shows "keeps D val (on_cmd_balance_update D J ses pkg params s)" "keeps D val (on_cmd_order_put_limit D J ses pkg params s)"
    "keeps D val (on_cmd_order_put_market D J ses pkg params s)" "keeps D val (on_cmd_order_cancel D J ses pkg params s)"
proof -
  note reps = keeps_replies [OF inv]
  have L: "mpd_laws D val"
    using inv by (simp add: server_inv_def ledger_inv_def)
  note dec = decimal_args [OF fin L]
  show "keeps D val (on_cmd_order_put_limit D J ses pkg params s)"
  proof -
    have tail: "keeps D val (case market_put_limit_order D True m s u side am pr tf mf src of (ret, result, market, s) \<Rightarrow>
       if ret = - 1 then Some (reply_error J ses pkg 10 ''balance not enough'' (set_market name market s))
       else if ret = - 2 then Some (reply_error J ses pkg 11 ''amount too small'' (set_market name market s))
       else if ret < 0 then Some (reply_error_internal_error J ses pkg (set_market name market s))
       else (case result of
               None \<Rightarrow> None
             | Some result \<Rightarrow> Some (reply_result J ses pkg result
                 (append_operlog J ''limit_order'' params (set_market name market s)))))"
      if "get_market s name = Some (Market m)" "\<not> side_bad side"
        "\<exists>v. val am = Some v \<and> 0 < v" "\<exists>v. val pr = Some v \<and> 0 < v" "\<exists>v. val tf = Some v \<and> 0 \<le> v \<and> v < 1"
        "\<exists>v. val mf = Some v \<and> 0 \<le> v \<and> v < 1" for name m u side am pr tf mf src
    proof -
      have "limit_args_ok val side am pr tf mf"
        using that by (auto simp: limit_args_ok_def nonneg_def side_okI less_imp_le)
      from put_limit_keeps [OF inv that(1) this room, of True u src] show ?thesis
        by (auto simp: keeps_replies split: option.split prod.split)
    qed
    show ?thesis
      unfolding on_cmd_order_put_limit_def Let_def
      by ((rule tail, simp, simp, simp add: dec, simp add: dec, simp add: dec, simp add: dec) | rule reps keeps_cases)+
  qed
  show "keeps D val (on_cmd_order_put_market D J ses pkg params s)"
  proof -
    have tail: "keeps D val (case market_put_market_order D True m s u side am tf src of None \<Rightarrow> None
     | Some (ret, result, market, s) \<Rightarrow>
       if ret = - 1 then Some (reply_error J ses pkg 10 ''balance not enough'' (set_market name market s))
       else if ret = - 2 then Some (reply_error J ses pkg 11 ''amount too small'' (set_market name market s))
       else if ret = - 3 then Some (reply_error J ses pkg 12 ''no enough trader'' (set_market name market s))
       else if ret < 0 then Some (reply_error_internal_error J ses pkg (set_market name market s))
       else (case result of
               None \<Rightarrow> None
             | Some result \<Rightarrow> Some (reply_result J ses pkg result
                 (append_operlog J ''market_order'' params (set_market name market s)))))"
      if "get_market s name = Some (Market m)" "\<not> side_bad side"
        "\<exists>v. val am = Some v \<and> 0 < v" "\<exists>v. val tf = Some v \<and> 0 \<le> v \<and> v < 1" for name m u side am tf src
    proof -
      have "nonneg val am" "nonneg val tf"
        using that by (auto simp: nonneg_def less_imp_le)
      from put_market_keeps [OF inv that(1) side_okI [OF that(2)] this room, of True u src] show ?thesis
        by (auto simp: keeps_replies split: option.split)
    qed
    show ?thesis
      unfolding on_cmd_order_put_market_def Let_def
      by ((rule tail, simp, simp, simp add: dec, simp add: dec) | rule reps keeps_cases)+
  qed
  show "keeps D val (on_cmd_order_cancel D J ses pkg params s)"
  proof -
    have tail: "keeps D val (case market_cancel_order D True m s a of (ret, result, market, s) \<Rightarrow>
       if ret < 0 then Some (reply_error_internal_error J ses pkg (set_market name market s))
       else (case result of
               None \<Rightarrow> None
             | Some result \<Rightarrow> Some (reply_result J ses pkg result
                 (append_operlog J ''cancel_order'' params (set_market name market s)))))"
      if "get_market s name = Some (Market m)" "market_get_order m i = Some a" for name m i a
      using cancel_keeps [OF inv that, of True] by (auto simp: keeps_replies split: option.split prod.split)
    show ?thesis
      unfolding on_cmd_order_cancel_def Let_def
      by ((rule tail, simp, assumption) | rule reps keeps_cases)+
  qed
  show "keeps D val (on_cmd_balance_update D J ses pkg params s)"
  proof -
    have tail: "keeps D val (case update_user_balance D True u a b i c (JObject kvs) s of (ret, detail, t) \<Rightarrow>
     if ret = - 1 then Some (reply_error J ses pkg 10 ''repeat update'' t)
     else if ret = - 2 then Some (reply_error J ses pkg 11 ''balance not enough'' t)
     else if ret < 0 then Some (reply_error_internal_error J ses pkg t)
     else Some (reply_success J ses pkg (append_operlog J ''update_balance'' (json_set_element params 5 detail) t)))"
      if "\<not> asset_prec_show s a < 0" "val c \<noteq> None" for u a b i c kvs
    proof -
      have "asset_exist s a"
        using that(1) by (auto simp: asset_prec_show_def asset_exist_def split: option.splits)
      from update_keeps [OF inv this that(2), of True u b i "JObject kvs"] show ?thesis
        by (auto simp: keeps_replies split: prod.split)
    qed
    show ?thesis
      unfolding on_cmd_balance_update_def Let_def
      by ((rule tail, simp, use fin in \<open>simp add: finite_args_def\<close>) | rule reps keeps_json keeps_cases)+
  qed
qed

lemma run_command_keeps:
  assumes inv: "server_inv D val s" and fin: "finite_args D val params" and room: "order_id_start s < order_id_start s + 1"
    and "rp_command pkg \<noteq> CMD_LISTING_UPDATE" and run: "run_command D J file ses pkg params s = Some (ret, s')"
  shows "server_inv D val s'"
proof (cases "rp_command pkg \<in> set change_commands")
  case False
  from command_reads [OF False assms(4), of s D J "file" ses params] run have "engine_of s' = engine_of s"
    by (simp add: untouched_def)
  from server_inv_engine [OF this] inv show ?thesis by simp
next
  case True
  have "keeps D val (run_command D J file ses pkg params s)"
    using True change_commands_keep [OF inv fin room] keeps_replies(4) [OF inv]
    by (auto simp: change_commands_def run_command_def command_defs unless_blocked_def)
  with run show ?thesis by (simp add: keeps_def)
qed


section \<open>The running server\<close>

lemma deliver_inv: "deliver_reports D J s = Some t \<Longrightarrow> server_inv D' val t = server_inv D' val s \<and> log_of t = log_of s"
  using server_inv_fields [of t s D' val] by (auto simp: deliver_reports_def log_of_def split: option.splits)

lemma packet_keeps:
  assumes inv: "server_inv D val s" and room: "order_id_start s < order_id_start s + 1"
    and fin: "\<And>params. json_loadb J (pkg_body pkg) = Some params \<Longrightarrow> finite_args D val params"
    and cmd: "rp_command pkg \<noteq> CMD_LISTING_UPDATE" and recv: "svr_on_recv_pkg D J file ses pkg s = Some t"
  shows "server_inv D val t"
proof (cases "\<exists>xs. json_loadb J (pkg_body pkg) = Some (JArray xs)")
  case True
  then obtain xs ret s' where xs: "json_loadb J (pkg_body pkg) = Some (JArray xs)"
    and run: "run_command D J file ses pkg (JArray xs) s = Some (ret, s')" and d: "deliver_reports D J s' = Some t"
    using recv by (auto simp: svr_on_recv_pkg_def split: if_splits option.splits)
  from run_command_keeps [OF inv fin [OF xs] room cmd run] deliver_inv [OF d] show ?thesis
    by blast
next
  case False
  then have "t = s\<lparr>closed := closed s @ [ses]\<rparr>"
    using recv by (auto simp: svr_on_recv_pkg_def split: if_splits option.splits json.splits)
  then show ?thesis
    using inv server_inv_fields [of t s D val] by simp
qed

lemma init_markets_inv:
  assumes "init_markets cs s = (0, t)" "ledger_inv D val s" "\<forall>c \<in> set cs. 0 \<le> c_stock_prec c \<and> c_stock_prec c \<le> max_prec"
    "server_inv D val s"
  shows "server_inv D val t"
  using assms
proof (induction cs arbitrary: s)
  case Nil
  then show ?case by simp
next
  case (Cons c cs)
  from Cons.prems(1) obtain m where m: "market_create s c = Some m"
    by (auto split: option.splits)
  have "market_inv D val m s" "m_stock_prec m = c_stock_prec c"
    using m Cons.prems(2) by (auto simp: market_create_def market_inv_def engine_ok_def market_ok_def heap_ok_def book_ok_def
        users_ok_def ids_ok_def uncrossed_def split: if_splits)
  moreover define u where "u = (case dv_add (c_name c) (Market m) (dict_market s) of None \<Rightarrow> s | Some d \<Rightarrow> s\<lparr>dict_market := d\<rparr>)"
  moreover have "dict_balance u = dict_balance s" "dict_asset u = dict_asset s" "order_id_start u = order_id_start s"
    by (simp_all add: u_def split: option.split)
  note eq = market_inv_engine [OF this, of D val]
  moreover have "get_market u name = Some (Market m') \<Longrightarrow> get_market s name = Some (Market m') \<or> m' = m" for name m'
    by (auto simp: u_def dv_add_def get_market_def split: option.splits if_splits)
  ultimately have "server_inv D val u"
    using Cons.prems(2-4) unfolding server_inv_def eq by fastforce
  moreover have "init_markets cs u = (0, t)"
    using Cons.prems(1) m by (simp add: u_def)
  ultimately show ?case
    using Cons.IH [of u] Cons.prems(2,3) eq by simp
qed


text \<open>
  What a running server does: it serves requests, its timers fire, the worker threads of its two
  queues take, execute and report statements. Requests whose decimals are no numbers and the reload
  of the settings are left out, and the order ids do not run out.
\<close>

inductive server_step :: "'d mpd_lib \<Rightarrow> ('d \<Rightarrow> rat option) \<Rightarrow> text_lib \<Rightarrow> ('d, 'z) server_state_scheme
    \<Rightarrow> ('d, 'z) server_state_scheme \<Rightarrow> bool" for D val J where
  request: "svr_on_recv_pkg D J file ses pkg s = Some t \<Longrightarrow> rp_command pkg \<noteq> CMD_LISTING_UPDATE
    \<Longrightarrow> order_id_start s < order_id_start s + 1
    \<Longrightarrow> (\<And>params. json_loadb J (pkg_body pkg) = Some params \<Longrightarrow> finite_args D val params) \<Longrightarrow> server_step D val J s t"
| operlog: "operlog_on_timer J date s = Some t \<Longrightarrow> server_step D val J s t"
| update: "server_step D val J s (update_on_timer s)"
| cache: "server_step D val J s (on_cache_timer s)"
| history: "server_step D val J s (s\<lparr>hist := history_on_timer (hist s)\<rparr>)"
| messages: "server_step D val J s (s\<lparr>msgs := message_on_timer (msgs s)\<rparr>)"
| operlog_job: "job_step 1 (oper_job s) l j \<Longrightarrow> server_step D val J s (s\<lparr>oper_job := j\<rparr>)"
| history_job: "job_step n (history_job (hist s)) l j \<Longrightarrow> server_step D val J s (s\<lparr>hist := (hist s)\<lparr>history_job := j\<rparr>\<rparr>)"

abbreviation server_run :: "'d mpd_lib \<Rightarrow> ('d \<Rightarrow> rat option) \<Rightarrow> text_lib \<Rightarrow> ('d, 'z) server_state_scheme
    \<Rightarrow> ('d, 'z) server_state_scheme \<Rightarrow> bool" where
  "server_run D val J \<equiv> (server_step D val J)\<^sup>*\<^sup>*"

lemma operlog_timer_fields:
  assumes "operlog_on_timer J date s = Some t"
  shows "engine_of t = engine_of s" "operlog_ok s \<Longrightarrow> operlog_ok t"
  using assms by (auto simp: operlog_on_timer_def flush_log_def engine_of_def operlog_ok_def Let_def split: if_splits option.splits)

lemma operlog_ok_log: "log_of t = log_of s \<Longrightarrow> operlog_ok t = operlog_ok s"
  by (simp add: log_of_def operlog_ok_def)


lemma log_appended:
  assumes "log_of t = (operlog_id_start s + 1, oper_list s @ [entry])" "ol_id entry = operlog_id_start s + 1" "operlog_ok s"
  shows "operlog_ok t"
  using assms by (simp add: log_of_def operlog_ok_def)

lemma packet_log:
  assumes cmd: "rp_command pkg \<noteq> CMD_LISTING_UPDATE" and recv: "svr_on_recv_pkg D J file ses pkg s = Some t"
  shows "log_of t = log_of s \<or>
    (\<exists>entry. log_of t = (operlog_id_start s + 1, oper_list s @ [entry]) \<and> ol_id entry = operlog_id_start s + 1)"
proof (cases "\<exists>xs. json_loadb J (pkg_body pkg) = Some (JArray xs)")
  case True
  then obtain xs ret s' where run: "run_command D J file ses pkg (JArray xs) s = Some (ret, s')"
    and d: "deliver_reports D J s' = Some t"
    using recv by (auto simp: svr_on_recv_pkg_def split: if_splits option.splits)
  have "log_of t = log_of s'"
    using d by (auto simp: deliver_reports_def log_of_def split: option.splits)
  with command_log [OF run cmd] show ?thesis
    by auto
next
  case False
  then have "t = s\<lparr>closed := closed s @ [ses]\<rparr>"
    using recv by (auto simp: svr_on_recv_pkg_def split: if_splits option.splits json.splits)
  then show ?thesis
    by (simp add: log_of_def)
qed

lemma server_step_ok:
  assumes "server_step D val J s t" "server_inv D val s" "operlog_ok s"
  shows "server_inv D val t \<and> operlog_ok t"
  using assms(1)
proof cases
  case (request "file" ses pkg)
  with packet_keeps [OF assms(2) request(3,4,2,1)] packet_log [OF request(2,1)] assms(3)
  show ?thesis
    using log_appended operlog_ok_log by blast
next
  case (operlog date)
  with operlog_timer_fields [OF operlog] server_inv_engine assms(2,3) show ?thesis
    by blast
next
  case update
  have "server_inv D val t = server_inv D val s"
    by (rule server_inv_fields; simp add: update update_on_timer_def current_timestamp_def)
  moreover have "log_of t = log_of s"
    by (simp add: update update_on_timer_def current_timestamp_def log_of_def)
  ultimately show ?thesis
    using assms(2,3) operlog_ok_log by blast
qed (use assms(2,3) server_inv_fields [of t s D val] in \<open>simp_all add: on_cache_timer_def operlog_ok_def\<close>)

lemma server_run_ok: "server_run D val J s t \<Longrightarrow> server_inv D val s \<Longrightarrow> operlog_ok s \<Longrightarrow> server_inv D val t \<and> operlog_ok t"
  by (induction rule: rtranclp_induct) (auto dest: server_step_ok)

end
