(* ===== verification/Server_Props.thy ===== *)
theory Server_Props
  imports Server_Inv Examples "HOL-Library.Countable"
begin

text \<open>The properties of the server's commands and of the operation log.\<close>

section \<open>An example\<close>

text \<open>
  A concrete text library: a value is written as the number that an enumeration of all values gives
  it. The engine of \<open>Examples\<close>, as a server without any request so far.
\<close>

instance json :: countable
  by countable_datatype

definition ex_text :: text_lib where
  "ex_text = \<lparr> json_dumps = (\<lambda>j. Some (nat_digits (to_nat j))), json_dumps_indent = (\<lambda>j. Some (nat_digits (to_nat j))),
     json_dumps_sorted = (\<lambda>j. Some (nat_digits (to_nat (json_sort j)))),
     json_loadb = (\<lambda>t. map_option from_nat (digits_value 0 t)), mysql_escape = (\<lambda>t. t) \<rparr>"

lemma ex_text_ok: "text_ok ex_text"
  by (auto simp: text_ok_def ex_text_def digits_value_digits)

definition ex_conf :: "dec market_conf" where
  "ex_conf = \<lparr> c_name = ''BTCUSD'', c_stock = ''BTC'', c_money = ''USD'', c_fee_prec = 4, c_stock_prec = 4,
     c_money_prec = 4, c_min_amount = Dec 1 (- 3) \<rparr>"

definition ex_server :: "dec server_state" where
  "ex_server = \<lparr> dict_asset = ex_assets, dict_balance = dict_balance ex_state, reports = [],
     order_id_start = 2, deals_id_start = 0, clock = (\<lambda>n. of_nat n), ticks = 3,
     dict_update = [], stack_bytes = (\<lambda>_. 0), calls = 0,
     settings_assets = [Some \<lparr> a_name = ''BTC'', a_prec_save = 8, a_prec_show = 8 \<rparr>,
       Some \<lparr> a_name = ''USD'', a_prec_save = 12, a_prec_show = 8 \<rparr>],
     settings_markets = [Some ex_conf], dict_market = [(''BTCUSD'', Market ex_market)],
     operlog_id_start = 0, oper_list = [], oper_job = nw_job_create, oper_table_last = [],
     settings_debug = False, cache_timeout = 1, dict_cache = [],
     hist = \<lparr> dict_sql = [], history_job = nw_job_create \<rparr>,
     msgs = \<lparr> lists = (\<lambda>_. []), kafka = (\<lambda>_. Produced), produces = 0, produced = [] \<rparr>,
     sent = [], closed = [] \<rparr>"

definition ex_request :: "u32 \<Rightarrow> rpc_pkg" where
  "ex_request command = \<lparr> rp_magic = RPC_PKG_MAGIC, rp_command = command, rp_pkg_type = RPC_PKG_TYPE_REQUEST, rp_result = 0,
     rp_crc32 = 0, rp_sequence = 7, rp_req_id = 9, rp_body_size = 0, rp_ext_size = 0, rp_ext = [], rp_body = [] \<rparr>"

lemma ex_request_command [simp]: "rp_command (ex_request c) = c"
  by (simp add: ex_request_def)

text \<open>User 1 cancels the ask 2.\<close>

definition ex_cancel :: json where
  "ex_cancel = JArray [JInteger 1, JString ''BTCUSD'', JInteger 2]"

lemma reply_result_id: "operlog_id_start (snd (reply_result J ses pkg r s)) = operlog_id_start s"
  using replies_frame(10) [of J ses pkg r s] by (simp add: log_of_def)

text \<open>A report without a text of its own: none that waits after a cancel changes a balance.\<close>

definition short_report :: "'d report \<Rightarrow> bool" where
  "short_report r \<longleftrightarrow> (case r of UserBalance t user_id asset business change balance detail \<Rightarrow> False | _ \<Rightarrow> True)"

lemma reply_result_reports: "reports (snd (reply_result J ses pkg r s)) = reports s"
  by (simp add: reply_result_def reply_json_def rpc_send_def Let_def split: option.split)

lemma cancel_reports:
  "\<forall>r \<in> set (reports s). short_report r
    \<Longrightarrow> \<forall>r \<in> set (reports (snd (snd (snd (market_cancel_order D is_real m s a))))). short_report r"
proof -
  have unfreeze: "balance_unfreeze D u asset x s = (res, s') \<Longrightarrow> reports s' = reports s" for u asset x res and s s' :: "('a, 'b) market_state_scheme"
    by (auto simp: balance_unfreeze_def balance_add_def balance_set_def balance_store_def balance_del_def Let_def
        split: option.splits if_splits prod.splits)
  assume "\<forall>r \<in> set (reports s). short_report r"
  then show ?thesis
    by (auto simp: market_cancel_order_def order_finish_def push_order_message_def append_order_history_def report_def
        short_report_def Let_def split: prod.split option.split dest!: unfreeze)
qed

lemma ex_cancel_logged:
  assumes pkg: "rp_command pkg = CMD_ORDER_CANCEL"
  shows "\<exists>p. run_command dec_lib J file ses pkg ex_cancel ex_server = Some p \<and> operlog_id_start (snd p) = 1
    \<and> (\<forall>r \<in> set (reports (snd p)). short_report r)"
proof -
  obtain ret result m' t where c: "market_cancel_order dec_lib True ex_market ex_server ex_ask = (ret, result, m', t)"
    by (metis surj_pair)
  have "result \<noteq> None" "ret = 0"
    using c by (auto simp: market_cancel_order_def Let_def split: prod.splits)
  have id: "operlog_id_start t = 0"
    using kept_server(3) [OF market_cancel_order_kept [of ex_server dec_lib True ex_market ex_ask]] c
    by (simp add: ex_server_def)
  have short: "\<forall>r \<in> set (reports t). short_report r"
    using cancel_reports [of ex_server dec_lib True ex_market ex_ask] c by (simp add: ex_server_def)
  have free: "\<not> blocked ex_server"
    by (simp add: blocked_def is_operlog_block_def is_history_block_def is_message_block_def ex_server_def request_count_def
      nw_job_create_def MAX_PENDING_OPERLOG_def MAX_PENDING_MESSAGE_def MAX_PENDING_HISTORY_def)
  have "get_market ex_server ''BTCUSD'' = Some (Market ex_market)"
    by (simp add: get_market_def ex_server_def)
  moreover have "market_get_order ex_market 2 = Some ex_ask" "o_user_id ex_ask = 1"
    by (simp_all add: market_get_order_def ex_market_def ex_ask_def)
  moreover obtain y where "result = Some y"
    using \<open>result \<noteq> None\<close> by blast
  ultimately have "run_command dec_lib J file ses pkg ex_cancel ex_server = Some
      (reply_result J ses pkg y (append_operlog J ''cancel_order'' ex_cancel (set_market ''BTCUSD'' m' t)))"
    using free \<open>ret = 0\<close> pkg
    by (simp add: run_command_def command_defs unless_blocked_def on_cmd_order_cancel_def ex_cancel_def
       json_str_def Let_def c)
  moreover have "reports (set_market ''BTCUSD'' m' t) = reports t"
    by (simp add: set_market_def)
  ultimately show ?thesis
    using short by (simp add: reply_result_id reply_result_reports id append_operlog_def current_timestamp_def Let_def)
qed

section \<open>The log\<close>

text \<open>C3. Whatever a request asks for, unless it is the reload of assets and markets: if it changes
  assets, balances, the last ids, the updates seen or any market, then exactly one entry with the
  next id is appended to the operation log. This only happens for the four commands that are meant
  to change something, and never while one of the three queues is full.\<close>

theorem only_logged_changes:
  assumes "run_command D J file ses pkg params s = Some (ret, s')" "rp_command pkg \<noteq> CMD_LISTING_UPDATE"
  shows "engine_of s' = engine_of s \<and> log_of s' = log_of s \<or>
    rp_command pkg \<in> set change_commands \<and> \<not> blocked s \<and>
    (\<exists>entry. log_of s' = (operlog_id_start s + 1, oper_list s @ [entry]) \<and> ol_id entry = operlog_id_start s + 1)"
proof (cases "rp_command pkg \<in> set change_commands")
  case False
  with command_reads [OF False assms(2), of s D J "file" ses params] assms(1) show ?thesis
    by (simp add: untouched_def)
next
  case True
  from command_outcome [OF True, of J s D "file" ses params] assms(1) obtain mname P load where
    out: "outcome J s (Some (ret, s')) params mname P load"
    by auto
  show ?thesis
  proof (cases "blocked s")
    case blocked: True
    have "s' = snd (reply_error_service_unavailable J ses pkg s)"
      using True blocked assms(1) by (auto simp: change_commands_def run_command_def command_defs unless_blocked_def)
    then show ?thesis by (simp add: frames)
  next
    case False
    with outcome_entry [OF out] True show ?thesis
      by (auto simp: log_of_def)
  qed
qed

theorem only_logged_changes_witness:
  "\<exists>ret s' entry. run_command dec_lib ex_text None 5 (ex_request CMD_ORDER_CANCEL) ex_cancel ex_server = Some (ret, s')
     \<and> oper_list s' = [entry] \<and> ol_id entry = 1"
proof -
  obtain ret s' where run: "run_command dec_lib ex_text None 5 (ex_request CMD_ORDER_CANCEL) ex_cancel ex_server = Some (ret, s')"
    and id: "operlog_id_start s' = 1"
    using ex_cancel_logged [OF ex_request_command, of ex_text None 5] by auto
  have "rp_command (ex_request CMD_ORDER_CANCEL) \<noteq> CMD_LISTING_UPDATE"
    by (simp add: ex_request_def command_defs)
  from only_logged_changes [OF run this] id show ?thesis
    using run by (auto simp: log_of_def ex_server_def)
qed

text \<open>C4. What a command logs brings the engine back: the text of its entry, read by \<open>load_operlog\<close> as
  the next row on the state the command found, is accepted and leads to the same engine. The request
  must be free of real numbers, whose text is not exact, and the asset of a balance update must be
  shown with the decimals it is saved with.\<close>

theorem logged_command_replays:
  assumes "run_command D J file ses pkg params s = Some (ret, s')" "rp_command pkg \<noteq> CMD_LISTING_UPDATE"
    and "text_ok J" "json_plain params"
    and "rp_command pkg = CMD_BALANCE_UPDATE \<Longrightarrow>
      asset_prec s (json_str (json_array_get params 1)) = asset_prec_show s (json_str (json_array_get params 1))"
    and "oper_list s' = oper_list s @ [entry]" "ol_detail entry = Some text"
  shows "\<exists>r. load_operlog_rows D J [\<lparr> l_id = ol_id entry, l_detail = text \<rparr>] (operlog_id_start s) s
      = Some (0, operlog_id_start s', r) \<and> engine_of r = engine_of s'"
proof -
  have logged: "log_of s' \<noteq> log_of s"
    using assms(6) by (simp add: log_of_def)
  have change: "rp_command pkg \<in> set change_commands"
    using command_reads [of pkg s D J "file" ses params] assms(1,2) logged by (auto simp: untouched_def log_of_def)
  from command_outcome [OF change, of J s D "file" ses params] assms(1) obtain mname where
    mname: "mname \<in> {''update_balance'', ''limit_order'', ''market_order'', ''cancel_order''}"
    and out: "outcome J s (Some (ret, s')) params mname
      (rp_command pkg = CMD_BALANCE_UPDATE \<longrightarrow>
        asset_prec s (json_str (json_array_get params 1)) = asset_prec_show s (json_str (json_array_get params 1)))
      (oper_load D mname)"
    by auto
  from outcome_entry [OF out] logged assms(4-7) obtain args r where
    entry: "ol_id entry = operlog_id_start s + 1" "operlog_id_start s' = operlog_id_start s + 1"
      "json_dumps_sorted J (JObject [(''method'', JString mname), (''params'', args)]) = Some text"
    and args: "json_plain args" "oper_load D mname args s = Some (0, r)" "engine_of r = engine_of s'"
    by auto
  have "json_array_size args \<noteq> 0"
    using args(2) mname by (intro notI) (auto simp: oper_load_def load_update_balance_def load_limit_order_def
        load_market_order_def load_cancel_order_def)
  from load_entry [OF assms(3) args(1) this entry(3) mname args(2)] args(3) entry show ?thesis
    by auto
qed

theorem logged_command_replays_witness:
  "\<exists>ret s' entry text r. run_command dec_lib ex_text None 5 (ex_request CMD_ORDER_CANCEL) ex_cancel ex_server = Some (ret, s')
     \<and> oper_list s' = [entry] \<and> ol_detail entry = Some text
     \<and> load_operlog_rows dec_lib ex_text [\<lparr> l_id = ol_id entry, l_detail = text \<rparr>] 0 ex_server = Some (0, 1, r)
     \<and> engine_of r = engine_of s'"
proof -
  obtain ret s' where run: "run_command dec_lib ex_text None 5 (ex_request CMD_ORDER_CANCEL) ex_cancel ex_server = Some (ret, s')"
    and id: "operlog_id_start s' = 1"
    using ex_cancel_logged [OF ex_request_command, of ex_text None 5] by auto
  have cmd: "rp_command (ex_request CMD_ORDER_CANCEL) = CMD_ORDER_CANCEL"
    by (simp add: ex_request_def)
  from command_outcome [of "ex_request CMD_ORDER_CANCEL" ex_text ex_server dec_lib None 5 ex_cancel] run
  obtain mname P load where out: "outcome ex_text ex_server (Some (ret, s')) ex_cancel mname P load"
    by (auto simp: cmd change_commands_def)
  from outcome_entry [OF this] id obtain entry detail where
    entry: "oper_list s' = oper_list ex_server @ [entry]" "ol_detail entry = Some detail"
    by (auto simp: log_of_def ex_server_def ex_text_def)
  have "json_plain ex_cancel"
    by (simp add: ex_cancel_def)
  moreover have "rp_command (ex_request CMD_ORDER_CANCEL) \<noteq> CMD_LISTING_UPDATE"
      "rp_command (ex_request CMD_ORDER_CANCEL) \<noteq> CMD_BALANCE_UPDATE"
    unfolding cmd by (simp_all add: command_defs)
  moreover have start: "operlog_id_start ex_server = 0" "oper_list ex_server = []"
    by (simp_all add: ex_server_def)
  ultimately obtain r where "load_operlog_rows dec_lib ex_text [\<lparr> l_id = ol_id entry, l_detail = detail \<rparr>] 0 ex_server
      = Some (0, 1, r) \<and> engine_of r = engine_of s'"
    using logged_command_replays [OF run _ ex_text_ok _ _ entry] id by auto
  with run entry start show ?thesis
    by auto
qed

section \<open>The running server\<close>

lemma init_assets_ok:
  assumes "init_assets as d = (0, d')" "\<forall>a \<in> set as. length (a_name a) \<le> ASSET_NAME_MAX_LEN \<and> 0 \<le> a_prec_save a \<and> a_prec_save a \<le> max_prec"
    "assets_ok d"
  shows "assets_ok d'"
  using assms
proof (induction as arbitrary: d)
  case Nil
  then show ?case by simp
next
  case (Cons a as)
  let ?d = "d(a_name a \<mapsto> \<lparr> prec_save = a_prec_save a, prec_show = a_prec_show a \<rparr>)"
  have init: "init_assets as ?d = (0, d')"
    using Cons.prems(1) by (simp split: if_splits)
  have "assets_ok ?d"
    using Cons.prems(2,3) by (simp add: assets_ok_def)
  from Cons.IH [OF init _ this] Cons.prems(2) show ?case
    by simp
qed

text \<open>A server that starts from its configuration is well-formed: when the assets can be loaded and
  no name is repeated, and the markets can be created, then the invariant that all commands keep
  holds. The configuration must not ask for negative or absurd numbers of decimals.\<close>

theorem server_starts_ok:
  assumes "mpd_laws D val" "load_assets conf key = Inr assets" "init_balance assets = (0, b)"
    and "\<forall>a \<in> set assets. 0 \<le> a_prec_save a \<and> a_prec_save a \<le> max_prec"
    and "dict_asset s = dict_asset b" "dict_balance s = dict_balance b"
    and "init_trade markets s = (0, t)" "\<forall>c \<in> set markets. 0 \<le> c_stock_prec c \<and> c_stock_prec c \<le> max_prec"
  shows "server_inv D val t"
proof -
  let ?s = "s\<lparr>dict_market := [], settings_markets := map Some markets\<rparr>"
  have "\<forall>a \<in> set assets. length (a_name a) \<le> ASSET_NAME_MAX_LEN"
  proof -
    obtain rows where "load_rows load_asset rows = Inr assets"
      using assms(2) by (auto simp: load_assets_def split: option.splits json.splits)
    then show ?thesis
      by (rule load_rows_all) (rule load_asset_name)
  qed
  then have "assets_ok (dict_asset s)" "dict_balance s = []"
    using assms(3-6) init_assets_ok [of assets Map.empty "dict_asset s"]
    by (auto simp: init_balance_def assets_ok_def Let_def split: prod.splits)
  then have "ledger_inv D val ?s"
    using assms(1) by (simp add: ledger_inv_def balances_ok_def)
  with init_markets_inv [of markets ?s t D val] assms(7,8) show ?thesis
    by (simp add: init_trade_def server_inv_def get_market_def)
qed

definition ex_config :: json where
  "ex_config = JObject [(''assets'', JArray
     [JObject [(''name'', JString ''BTC''), (''prec_save'', JInteger 8)],
      JObject [(''name'', JString ''USD''), (''prec_save'', JInteger 12), (''prec_show'', JInteger 8)]])]"

theorem server_starts_ok_witness:
  "\<exists>assets t. load_assets ex_config ''assets'' = Inr assets \<and> length assets = 2 \<and>
     init_trade [ex_conf] (ex_server\<lparr>dict_balance := []\<rparr>) = (0, t) \<and> server_inv dec_lib dec_val t"
proof -
  let ?as = "[\<lparr> a_name = ''BTC'', a_prec_save = 8, a_prec_show = 8 \<rparr>, \<lparr> a_name = ''USD'', a_prec_save = 12, a_prec_show = 8 \<rparr>]"
  have load: "load_assets ex_config ''assets'' = Inr ?as"
    by (simp add: ex_config_def load_assets_def load_asset_def ERR_RET_def ERR_RET_LN_def read_cfg_str_def read_cfg_int_def
        ASSET_NAME_MAX_LEN_def json_str_def)
  have init: "init_balance ?as = (0, \<lparr> dict_asset = ex_assets, dict_balance = [] \<rparr>)"
    by (simp add: init_balance_def ex_assets_def)
  obtain ret t where start: "init_trade [ex_conf] (ex_server\<lparr>dict_balance := []\<rparr>) = (ret, t)"
    by (metis surj_pair)
  then have "ret = 0"
    by (simp add: init_trade_def market_create_def ex_conf_def ex_server_def ex_assets_def asset_exist_def get_asset_type_def
        asset_prec_def split: option.splits)
  with server_starts_ok [OF dec_lib_laws load init, of "ex_server\<lparr>dict_balance := []\<rparr>" "[ex_conf]" t] start load show ?thesis
    by (simp add: ex_conf_def ex_server_def max_prec_def)
qed


text \<open>C2. A well-formed server stays well-formed: after any run of requests, timers and worker threads the
  ledger and every market keep their invariant, and the operations that wait to be logged have consecutive
  ids up to the last one given. A run is a sequence of steps the code has a defined result for, so it ends
  where the code reads or writes outside its memory; what ends it at the timer of the log is said exactly:
  the timer has a result just when every waiting entry has a text whose escaped form is shorter than the
  10240 bytes of the buffer of \<open>flush_log\<close>. Not among the steps are the requests with a number that is
  read as NaN or infinity, the requests after the last order id of 64 bits, and the reload of the settings
  (\<open>listing.update\<close>).\<close>

theorem running_server_ok:
  assumes "server_run D val J s t" "server_inv D val s" "operlog_ok s"
  shows "server_inv D val t \<and> operlog_ok t \<and> (\<forall>date. operlog_on_timer J date t \<noteq> None \<longleftrightarrow> details_fit J t)"
  using server_run_ok [OF assms] by (simp add: operlog_on_timer_fit del: not_None_eq)

lemma ex_server_inv: "server_inv dec_lib dec_val ex_server"
proof -
  have "dict_balance ex_server = dict_balance ex_state" "dict_asset ex_server = dict_asset ex_state"
    "order_id_start ex_server = order_id_start ex_state"
    by (simp_all add: ex_server_def ex_state_def)
  note eq = market_inv_engine [OF this]
  have "ledger_inv dec_lib dec_val ex_server" "market_inv dec_lib dec_val ex_market ex_server"
    by (simp_all only: eq ex_ledger ex_inv)
  then show ?thesis
    by (auto simp: server_inv_def get_market_def ex_server_def ex_market_def max_prec_def split: if_splits)
qed


definition ex_wire :: text_lib where
  "ex_wire = ex_text\<lparr>json_loadb := (\<lambda>_. Some ex_cancel)\<rparr>"

theorem running_server_ok_witness:
  "\<exists>t. svr_on_recv_pkg dec_lib ex_wire None 5 ((ex_request CMD_ORDER_CANCEL)\<lparr>rp_body_size := 1, rp_body := [0x63]\<rparr>) ex_server = Some t
     \<and> server_inv dec_lib dec_val t \<and> operlog_ok t \<and> (\<forall>date. operlog_on_timer ex_wire date t \<noteq> None \<longleftrightarrow> details_fit ex_wire t)"
proof -
  let ?pkg = "(ex_request CMD_ORDER_CANCEL)\<lparr>rp_body_size := 1, rp_body := [0x63]\<rparr>"
  have body: "json_loadb ex_wire (pkg_body ?pkg) = Some ex_cancel"
    by (simp add: ex_wire_def)
  have all: "\<forall>r \<in> set rs. short_report r \<Longrightarrow> deliver_all dec_lib ex_wire rs hq \<noteq> None" for rs hq
    by (induction rs arbitrary: hq)
      (auto simp: deliver_def short_report_def ex_wire_def ex_text_def split: report.splits prod.split)
  obtain p where run: "run_command dec_lib ex_wire None 5 ?pkg ex_cancel ex_server = Some p" and short: "\<forall>r \<in> set (reports (snd p)). short_report r"
    using ex_cancel_logged [of ?pkg ex_wire None 5] by auto
  obtain t where d: "deliver_reports dec_lib ex_wire (snd p) = Some t"
    using all [OF short, of "(hist (snd p), msgs (snd p))"] by (auto simp: deliver_reports_def)
  have recv: "svr_on_recv_pkg dec_lib ex_wire None 5 ?pkg ex_server = Some t"
    using body run d by (simp add: svr_on_recv_pkg_def ex_cancel_def case_prod_beta)
  have "finite_args dec_lib dec_val ex_cancel"
  proof -
    have "decimal dec_lib ''BTCUSD'' prec = None" for prec
      by (simp add: decimal_def dec_ops dec_of_string_def digit_value_def)
    then show ?thesis
      by (auto simp: finite_args_def ex_cancel_def json_str_def nth_Cons split: nat.splits)
  qed
  then have "server_step dec_lib dec_val ex_wire ex_server t"
    using body by (intro server_step.request [OF recv]) (simp_all add: ex_request_def ex_server_def command_defs)
  moreover have "operlog_ok ex_server"
    by (simp add: operlog_ok_def ex_server_def)
  ultimately show ?thesis
    using recv running_server_ok [OF r_into_rtranclp ex_server_inv] by blast
qed

end
