(* ===== verification/Update_Props.thy ===== *)
theory Update_Props
  imports Server_Props
begin

text \<open>The properties of the balance updates from outside (\<open>me_update.c\<close>).\<close>

text \<open>
  The key of an update stays in the dictionary for a day: the timer removes it when the clock has
  passed that.
\<close>

lemma update_on_timer_find:
  assumes "dv_find (dict_update s) key = Some v" "\<not> uv_create_time v < clock s (ticks s) - 86400" "dv_wf (dict_update s)"
  shows "dv_find (dict_update (update_on_timer s)) key = Some v"
proof -
  have "(key, v) \<in> set (dict_update s)" "distinct (map fst (dict_update s))"
    using assms(1,3) by (auto simp: dv_wf_def dest: map_of_SomeD)
  then have "(key, v) \<in> set (dict_update (update_on_timer s))" "distinct (map fst (dict_update (update_on_timer s)))"
    using assms(2) by (auto simp: update_on_timer_def current_timestamp_def distinct_map_filter)
  then show ?thesis
    by simp
qed

lemma update_stored:
  assumes "update_user_balance D r u a b i c d s = (0, d1, t)"
  shows "dict_update t = dv_put (mk_update_key u a b i (stack_bytes s (calls s))) \<lparr> uv_create_time = clock s (ticks s) \<rparr> (dict_update s)"
    "clock t = clock s" "stack_bytes t = stack_bytes s" "calls t = calls s + 1"
    "ticks t = (if r then ticks s + 2 else ticks s + 1)"
proof -
  let ?s = "s\<lparr>calls := calls s + 1\<rparr>"
  let ?key = "mk_update_key u a b i (stack_bytes s (calls s))"
  obtain v w where add: "(if mpd_cmp D c (mpd_zero D) \<ge> 0
      then balance_add D u BALANCE_TYPE_AVAILABLE a (mpd_abs D c) ?s
      else balance_sub D u BALANCE_TYPE_AVAILABLE a (mpd_abs D c) ?s) = (v, w)"
    by (metis surj_pair)
  have "balance_state.more w = balance_state.more ?s"
    using balance_ops_more(2,3) [of D u BALANCE_TYPE_AVAILABLE a "mpd_abs D c" ?s] add by (auto split: if_splits)
  note w = update_fields [OF this]
  define x where "x = w\<lparr>ticks := ticks w + 1\<rparr>\<lparr>dict_update := dv_put ?key \<lparr> uv_create_time = clock w (ticks w) \<rparr> (dict_update (w\<lparr>ticks := ticks w + 1\<rparr>))\<rparr>"
  have no: "dv_find (dict_update ?s) ?key = None" "v \<noteq> None"
    using assms unfolding update_user_balance_def Let_def
    by (simp_all only: add prod.case if_True split: if_split_asm) auto
  have t: "t = (if r then push_balance_message D (clock x (ticks x)) u a b c
      (append_user_balance_history D (clock x (ticks x)) u a b c (Dumps d1) (x\<lparr>ticks := ticks x + 1\<rparr>)) else x)"
    using assms by (cases r)
      (simp_all only: update_user_balance_def Let_def add prod.case no current_timestamp_def if_False if_True HOL.simp_thms prod.inject flip: x_def,
        elim conjE, simp)
  have "history_state.more t = history_state.more (x\<lparr>ticks := (if r then ticks x + 1 else ticks x)\<rparr>)"
    unfolding t by (simp add: frames)
  from update_fields_history [OF this] have "dict_update t = dict_update x" "clock t = clock x" "stack_bytes t = stack_bytes x"
      "calls t = calls x" "ticks t = (if r then ticks x + 1 else ticks x)"
    by simp_all
  then show "dict_update t = dv_put ?key \<lparr> uv_create_time = clock s (ticks s) \<rparr> (dict_update s)"
    "clock t = clock s" "stack_bytes t = stack_bytes s" "calls t = calls s + 1"
    "ticks t = (if r then ticks s + 2 else ticks s + 1)"
    using w by (simp_all add: x_def)
qed

text \<open>C28. An update of a balance from outside is applied once: after it has succeeded, however often the
  timer runs in the day that follows, the same update (same user, asset, business and id) is refused
  with -1 and changes nothing. This holds for calls that find the same four bytes on the stack where
  the key is built.\<close>

theorem update_applied_once:
  assumes "update_user_balance D r u a b i c d s = (0, d1, t)" "dv_wf (dict_update s)"
    and "\<And>n. n < k \<Longrightarrow> clock s (ticks ((update_on_timer ^^ n) t)) \<le> clock s (ticks s) + 86400"
    and "stack_bytes s (calls s + 1) = stack_bytes s (calls s)"
  shows "update_user_balance D r' u a b i c' d' ((update_on_timer ^^ k) t)
    = (- 1, d', ((update_on_timer ^^ k) t)\<lparr>calls := calls s + 2\<rparr>)"
proof -
  let ?key = "mk_update_key u a b i (stack_bytes s (calls s))"
  let ?v = "\<lparr> uv_create_time = clock s (ticks s) \<rparr>"
  note st = update_stored [OF assms(1)]
  have timer: "clock (update_on_timer s) = clock s" "stack_bytes (update_on_timer s) = stack_bytes s" "calls (update_on_timer s) = calls s"
    "dv_wf (dict_update s) \<Longrightarrow> dv_wf (dict_update (update_on_timer s))" for s :: "('a, 'b) update_state_scheme"
    by (simp_all add: update_on_timer_def current_timestamp_def dv_wf_def distinct_map_filter)
  have "dv_find (dict_update ((update_on_timer ^^ n) t)) ?key = Some ?v \<and> dv_wf (dict_update ((update_on_timer ^^ n) t))
     \<and> clock ((update_on_timer ^^ n) t) = clock s \<and> stack_bytes ((update_on_timer ^^ n) t) = stack_bytes s
     \<and> calls ((update_on_timer ^^ n) t) = calls s + 1" if "n \<le> k" for n
    using that
  proof (induction n)
    case 0
    then show ?case using st assms(2) by simp
  next
    case (Suc n)
    then have IH: "dv_find (dict_update ((update_on_timer ^^ n) t)) ?key = Some ?v"
      "dv_wf (dict_update ((update_on_timer ^^ n) t))" "clock ((update_on_timer ^^ n) t) = clock s"
      "stack_bytes ((update_on_timer ^^ n) t) = stack_bytes s" "calls ((update_on_timer ^^ n) t) = calls s + 1"
      by simp_all
    with update_on_timer_find [OF IH(1) _ IH(2)] assms(3) [of n] Suc.prems timer show ?case
      by simp
  qed
  from this [of k] assms(4) show ?thesis
    by (simp add: update_user_balance_def Let_def)
qed


text \<open>A credit that has not been seen is applied.\<close>

lemma update_credit:
  assumes inv: "ledger_inv D val s" and a: "asset_exist s a" and c: "val c = Some x" "0 \<le> x"
    and new: "dv_find (dict_update s) (mk_update_key u a b i (stack_bytes s (calls s))) = None"
  obtains d1 t where "update_user_balance D r u a b i c d s = (0, d1, t)" "ledger_inv D val t" "asset_exist t a"
proof -
  let ?s = "s\<lparr>calls := calls s + 1\<rparr>"
  have L: "mpd_laws D val" and ok: "balances_ok val ?s"
    using inv by (simp_all add: ledger_inv_def balances_ok_def)
  obtain z where z: "val (mpd_abs D c) = Some z" "0 \<le> z"
    using mpd_abs_val [OF L c(1)] rounds_nonneg by force
  obtain aty where "dict_asset ?s a = Some aty"
    using a by (auto simp: asset_exist_def get_asset_type_def)
  from balance_add_pos [OF L ok this z] obtain v w y where
    add: "balance_add D u BALANCE_TYPE_AVAILABLE a (mpd_abs D c) ?s = (Some v, w)" and mv: "moved val ?s (mk_key u BALANCE_TYPE_AVAILABLE a) y w"
    by blast
  have cmp: "0 \<le> mpd_cmp D c (mpd_zero D)"
    using mpd_cmp_val [OF L c(1) mpd_zero_val [OF L]] c(2) by simp
  obtain d1 t where upd: "update_user_balance D r u a b i c d s = (0, d1, t)"
    using new cmp add by (cases r) (simp_all add: update_user_balance_def Let_def current_timestamp_def)
  have "dict_balance t = dict_balance w" "dict_asset t = dict_asset w"
    using upd new cmp add
    by (auto simp: update_user_balance_def Let_def current_timestamp_def push_balance_message_def append_user_balance_history_def
        frames split: if_splits)
  moreover have "balances_ok val w" "dict_asset w = dict_asset ?s"
    using mv by (simp_all add: moved_def)
  ultimately have "ledger_inv D val t" "asset_exist t a"
    using L a by (simp_all add: ledger_inv_def balances_ok_def asset_exist_def get_asset_type_def)
  with upd that show thesis by blast
qed

text \<open>The key of an update has four bytes of padding that the code never sets but compares: when they
  differ between two calls, the same update is applied a second time (a defect).\<close>

theorem update_applied_twice:
  assumes "ledger_inv D val s" "asset_exist s a" "val c = Some x" "0 \<le> x" "dict_update s = []"
    and "stack_bytes s (calls s + 1) \<noteq> stack_bytes s (calls s)"
  shows "\<exists>d1 t d2 t'. update_user_balance D r u a b i c d s = (0, d1, t) \<and>
    update_user_balance D r u a b i c d t = (0, d2, t') \<and> length (dict_update t') = 2"
proof -
  obtain d1 t where t: "update_user_balance D r u a b i c d s = (0, d1, t)" "ledger_inv D val t" "asset_exist t a"
    using update_credit [OF assms(1-4), where u = u and b = b and i = i and r = r and d = d] assms(5) by auto
  note st = update_stored [OF t(1)]
  have "dv_find (dict_update t) (mk_update_key u a b i (stack_bytes t (calls t))) = None"
    using assms(5,6) st by (simp add: dv_put_def mk_update_key_def)
  from update_credit [OF t(2,3) assms(3,4) this, where r = r and d = d] obtain d2 t' where
    t': "update_user_balance D r u a b i c d t = (0, d2, t')"
    by blast
  from update_stored(1) [OF t'] st assms(5,6) have "length (dict_update t') = 2"
    by (simp add: dv_put_def mk_update_key_def)
  with t(1) t' show ?thesis by blast
qed

text \<open>User 1 deposits 5 BTC twice, with other bytes on the stack the second time.\<close>

theorem update_applied_twice_witness:
  "\<exists>d1 t d2 t'. update_user_balance dec_lib True 1 ''BTC'' ''deposit'' 7 (Dec 5 0) (JObject []) (ex_server\<lparr>stack_bytes := of_nat\<rparr>) = (0, d1, t)
    \<and> update_user_balance dec_lib True 1 ''BTC'' ''deposit'' 7 (Dec 5 0) (JObject []) t = (0, d2, t') \<and> length (dict_update t') = 2"
proof -
  let ?s = "ex_server\<lparr>stack_bytes := of_nat\<rparr>"
  have "ledger_inv dec_lib dec_val ?s" "asset_exist ?s ''BTC''"
    using ex_server_inv market_inv_engine(1) [of ?s ex_server dec_lib dec_val]
    by (simp_all add: server_inv_def asset_exist_def get_asset_type_def ex_server_def ex_assets_def)
  moreover have "dict_update ?s = []" "stack_bytes ?s (calls ?s + 1) \<noteq> stack_bytes ?s (calls ?s)"
    by (simp_all add: ex_server_def)
  ultimately show ?thesis
    using update_applied_twice [of dec_lib dec_val ?s "''BTC''" "Dec 5 0" 5 True 1 "''deposit''" 7 "JObject []"] by simp
qed


lemma ex_ledger_server: "ledger_inv dec_lib dec_val ex_server" "asset_exist ex_server ''BTC''"
  using ex_server_inv by (simp_all add: server_inv_def asset_exist_def get_asset_type_def ex_server_def ex_assets_def)

theorem update_applied_once_witness:
  "\<exists>d1 t. update_user_balance dec_lib True 1 ''BTC'' ''deposit'' 7 (Dec 5 0) (JObject []) ex_server = (0, d1, t)
    \<and> fst (update_user_balance dec_lib True 1 ''BTC'' ''deposit'' 7 (Dec 5 0) (JObject []) ((update_on_timer ^^ 1) t)) = - 1"
proof -
  have "dec_val (Dec 5 0) = Some 5" "(0::rat) \<le> 5"
      "dv_find (dict_update ex_server) (mk_update_key 1 ''BTC'' ''deposit'' 7 (stack_bytes ex_server (calls ex_server))) = None"
    by (simp_all add: ex_server_def)
  then obtain d1 t where upd: "update_user_balance dec_lib True 1 ''BTC'' ''deposit'' 7 (Dec 5 0) (JObject []) ex_server = (0, d1, t)"
    by (rule update_credit [OF ex_ledger_server])
  have "clock ex_server (ticks ((update_on_timer ^^ n) t)) \<le> clock ex_server (ticks ex_server) + 86400" if "n < 1" for n
    using that update_stored(5) [OF upd] by (simp add: ex_server_def)
  from update_applied_once [OF upd _ this, where r' = True and d' = "JObject []"] upd show ?thesis
    by (simp add: ex_server_def del: funpow.simps)
qed

text \<open>
  A server with one asset, saved with two decimals and shown with one, and a deposit of 0.25.
\<close>

definition ex_coarse :: "dec server_state" where
  "ex_coarse = ex_server\<lparr>dict_asset := [''A'' \<mapsto> \<lparr> prec_save = 2, prec_show = 1 \<rparr>], dict_balance := []\<rparr>"

definition ex_deposit :: json where
  "ex_deposit = JArray [JInteger 1, JString ''A'', JString ''deposit'', JInteger 7, JString ''0.25'', JObject []]"

lemma ex_quarter: "decimal dec_lib ''0.25'' 1 = Some (Dec 2 (- 1))" "decimal dec_lib ''0.25'' 2 = Some (Dec 25 (- 2))"
  by (simp_all add: decimal_def dec_ops dec_of_string_def digit_value_def shift_def trunc_quot_def)


lemma ex_deposit_args:
  "json_array_size ex_deposit = 6" "json_array_get ex_deposit 0 = Some (JInteger 1)" "json_array_get ex_deposit 1 = Some (JString ''A'')"
  "json_array_get ex_deposit 2 = Some (JString ''deposit'')" "json_array_get ex_deposit 3 = Some (JInteger 7)"
  "json_array_get ex_deposit 4 = Some (JString ''0.25'')" "json_array_get ex_deposit 5 = Some (JObject [])"
  by (simp_all add: ex_deposit_def)

lemma ex_coarse_update:
  assumes "c = Dec 2 (- 1) \<or> c = Dec 25 (- 2)"
  shows "\<exists>detail t. update_user_balance dec_lib r 1 ''A'' ''deposit'' 7 c d ex_coarse = (0, detail, t)
     \<and> balance_get t 1 BALANCE_TYPE_AVAILABLE ''A'' = Some (dec_rescale c (- 2))"
proof -
  let ?s = "ex_coarse\<lparr>calls := calls ex_coarse + 1\<rparr>"
  have s: "dict_asset ?s ''A'' = Some \<lparr> prec_save = 2, prec_show = 1 \<rparr>" "dict_balance ?s = []" "dict_update ex_coarse = []"
    by (simp_all add: ex_coarse_def ex_server_def)
  have abs: "mpd_abs dec_lib c = c" and pos: "0 < mpd_cmp dec_lib c (mpd_zero dec_lib)"
    using assms by (auto simp: dec_eval)
  have add: "balance_add dec_lib 1 BALANCE_TYPE_AVAILABLE ''A'' c ?s = (Some (dec_rescale c (- 2)),
      balance_store 1 BALANCE_TYPE_AVAILABLE ''A'' (dec_rescale c (- 2)) ?s)"
    using s pos by (simp add: balance_add_def balance_set_def balance_get_def get_asset_type_def dec_ops(10) Let_def)
  obtain detail t where upd: "update_user_balance dec_lib r 1 ''A'' ''deposit'' 7 c d ex_coarse = (0, detail, t)"
    using add pos abs s by (cases r) (simp_all add: update_user_balance_def Let_def current_timestamp_def)
  have "dict_balance t = dict_balance (balance_store 1 BALANCE_TYPE_AVAILABLE ''A'' (dec_rescale c (- 2)) ?s)"
    using upd add pos abs s
    by (auto simp: update_user_balance_def Let_def current_timestamp_def push_balance_message_def append_user_balance_history_def
        frames split: if_splits)
  then have "balance_get t 1 BALANCE_TYPE_AVAILABLE ''A'' = Some (dec_rescale c (- 2))"
    by (simp add: balance_get_def balance_store_def)
  with upd show ?thesis by blast
qed

text \<open>C34. A balance update is parsed with the decimals its asset is shown with, but replayed from the log
  with the decimals it is saved with. When the two differ the replayed engine has another balance (a
  defect): the deposit of 0.25 is answered with success and credits 0.2; the replay of the same
  parameters credits 0.25.\<close>

theorem logged_update_diverges:
  "\<exists>ret s' entry r. on_cmd_balance_update dec_lib ex_text 5 (ex_request CMD_BALANCE_UPDATE) ex_deposit ex_coarse = Some (ret, s')
    \<and> oper_list s' = [entry] \<and> load_update_balance dec_lib ex_deposit ex_coarse = Some (0, r)
    \<and> map_option dec_val (balance_get s' 1 BALANCE_TYPE_AVAILABLE ''A'') = Some (Some (1 / 5))
    \<and> map_option dec_val (balance_get r 1 BALANCE_TYPE_AVAILABLE ''A'') = Some (Some (1 / 4))"
proof -
  obtain detail t where h: "update_user_balance dec_lib True 1 ''A'' ''deposit'' 7 (Dec 2 (- 1)) (JObject []) ex_coarse = (0, detail, t)"
    "balance_get t 1 BALANCE_TYPE_AVAILABLE ''A'' = Some (dec_rescale (Dec 2 (- 1)) (- 2))"
    using ex_coarse_update [of "Dec 2 (- 1)" True "JObject []"] by blast
  obtain detail2 r where l: "update_user_balance dec_lib False 1 ''A'' ''deposit'' 7 (Dec 25 (- 2)) (JObject []) ex_coarse = (0, detail2, r)"
    "balance_get r 1 BALANCE_TYPE_AVAILABLE ''A'' = Some (dec_rescale (Dec 25 (- 2)) (- 2))"
    using ex_coarse_update [of "Dec 25 (- 2)" False "JObject []"] by blast
  have prec: "asset_prec_show ex_coarse ''A'' = 1" "asset_prec ex_coarse ''A'' = 2"
    by (simp_all add: asset_prec_show_def asset_prec_def get_asset_type_def ex_coarse_def)
  let ?p = "reply_success ex_text 5 (ex_request CMD_BALANCE_UPDATE)
       (append_operlog ex_text ''update_balance'' (json_set_element ex_deposit 5 detail) t)"
  obtain ret s' where p: "?p = (ret, s')"
    by (metis surj_pair)
  have run: "on_cmd_balance_update dec_lib ex_text 5 (ex_request CMD_BALANCE_UPDATE) ex_deposit ex_coarse = Some (ret, s')"
    unfolding on_cmd_balance_update_def Let_def ex_deposit_args
    by (simp add: json_str_def prec ex_quarter h p del: One_nat_def)
  have load: "load_update_balance dec_lib ex_deposit ex_coarse = Some (0, r)"
    unfolding load_update_balance_def Let_def ex_deposit_args
    by (simp add: json_str_def prec ex_quarter l del: One_nat_def)
  have "log_of s' = log_of (append_operlog ex_text ''update_balance'' (json_set_element ex_deposit 5 detail) t)"
    and s': "engine_of s' = engine_of t"
    using replies_frame(11,12) [of ex_text 5 "ex_request CMD_BALANCE_UPDATE"
        "append_operlog ex_text ''update_balance'' (json_set_element ex_deposit 5 detail) t"]
    by (simp_all add: p append_operlog_frame)
  moreover have "log_of t = log_of ex_coarse"
    using update_log_kept [of dec_lib True 1 "''A''" "''deposit''" 7 "Dec 2 (- 1)" "JObject []" ex_coarse] h(1) by simp
  ultimately obtain entry where entry: "oper_list s' = oper_list ex_coarse @ [entry]"
    unfolding append_operlog_log by (auto simp: log_of_def)
  from s' have "balance_get s' = balance_get t"
    by (simp add: fun_eq_iff balance_get_def engine_of_def)
  moreover have "oper_list ex_coarse = []"
    by (simp add: ex_coarse_def ex_server_def)
  ultimately show ?thesis
    using run load entry h(2) l(2) by (simp add: shift_def trunc_quot_def)
qed

end
