(* ===== verification/Load_Props.thy ===== *)
theory Load_Props
  imports Server_Props
begin

text \<open>
  The properties of loading: the operation log is read completely and in order (\<open>me_load.c\<close>), and
  what a reload of the settings does to the markets (\<open>me_trade.c\<close>).
\<close>

section \<open>Pages of a table\<close>

text \<open>A table of the database, and the page that \<open>SELECT ... WHERE id > last ORDER BY id LIMIT 1000\<close> gives.\<close>

definition table_ok :: "operlog_row list \<Rightarrow> bool" where
  "table_ok table \<longleftrightarrow> sorted_wrt (\<lambda>a b. l_id a < l_id b) table"

definition rows_after :: "operlog_row list \<Rightarrow> u64 \<Rightarrow> operlog_row list" where
  "rows_after table last_id = filter (\<lambda>row. last_id < l_id row) table"

definition operlog_page :: "operlog_row list \<Rightarrow> u64 \<Rightarrow> operlog_row list option" where
  "operlog_page table last_id = Some (take query_limit (rows_after table last_id))"

lemma load_rows_append:
  "load_operlog_rows D J (xs @ ys) last_id s =
     (case load_operlog_rows D J xs last_id s of
        None \<Rightarrow> None
      | Some (code, last_id, s) \<Rightarrow> if code = 0 then load_operlog_rows D J ys last_id s else Some (code, last_id, s))"
  by (induction xs arbitrary: last_id s) (auto simp: Let_def split: option.split prod.split)

lemma load_rows_last:
  "load_operlog_rows D J xs last_id s = Some (0, last_id', s') \<Longrightarrow> xs \<noteq> [] \<Longrightarrow> last_id' = l_id (last xs)"
proof (induction xs arbitrary: last_id s)
  case (Cons row xs)
  then show ?case
    by (cases "xs = []") (auto simp: Let_def split: if_splits option.splits)
qed simp

lemma load_rows_code: "load_operlog_rows D J xs last_id s = Some (code, last_id', s') \<Longrightarrow> code \<le> 0"
  by (induction xs arbitrary: last_id s) (auto simp: Let_def split: if_splits option.splits)

lemma rows_after_page:
  assumes "table_ok table" "xs @ ys = rows_after table last_id" "xs \<noteq> []"
  shows "rows_after table (l_id (last xs)) = ys"
proof -
  have sorted: "sorted_wrt (\<lambda>a b. l_id a < l_id b) (xs @ ys)"
    using assms(1) unfolding assms(2) rows_after_def table_ok_def by (rule sorted_wrt_filter)
  have lt: "last_id < l_id (last xs)"
  proof -
    have "last xs \<in> set (rows_after table last_id)"
      unfolding assms(2) [symmetric] using assms(3) by simp
    then show ?thesis by (simp add: rows_after_def)
  qed
  have "rows_after table (l_id (last xs)) = filter (\<lambda>row. l_id (last xs) < l_id row) (rows_after table last_id)"
    using lt unfolding rows_after_def filter_filter by (intro filter_cong) auto
  also have "\<dots> = filter (\<lambda>row. l_id (last xs) < l_id row) xs @ filter (\<lambda>row. l_id (last xs) < l_id row) ys"
    by (simp flip: assms(2))
  also have "filter (\<lambda>row. l_id (last xs) < l_id row) xs = []"
  proof -
    define z where "z = last xs"
    obtain zs where zs: "xs = zs @ [z]"
      using assms(3) unfolding z_def by (metis append_butlast_last_id)
    have "\<forall>row \<in> set zs. l_id row < l_id z"
      using sorted unfolding zs by (simp add: sorted_wrt_append)
    then have "\<forall>row \<in> set xs. \<not> l_id (last xs) < l_id row"
      by (auto simp: zs not_less less_imp_le)
    then show ?thesis by (simp add: filter_empty_conv)
  qed
  also have "filter (\<lambda>row. l_id (last xs) < l_id row) ys = ys"
    using sorted assms(3) by (auto simp: filter_id_conv sorted_wrt_append)
  finally show ?thesis by simp
qed

text \<open>The pages of a finite table are one pass over its rows.\<close>

lemma load_operlog_pages:
  assumes "table_ok table"
  shows "load_operlog_from D J (operlog_page table) start_id last_id s =
    map_option (\<lambda>(code, last_id, s). if code = 0 then (0, last_id, s) else (code, start_id, s))
      (load_operlog_rows D J (rows_after table last_id) last_id s)"
proof (induction "length (rows_after table last_id)" arbitrary: last_id s rule: less_induct)
  case less
  let ?rows = "rows_after table last_id"
  let ?xs = "take query_limit ?rows" and ?ys = "drop query_limit ?rows"
  note unfold = load_operlog_from.simps [of D J "operlog_page table" start_id last_id s]
  have split: "load_operlog_rows D J ?rows last_id s = load_operlog_rows D J (?xs @ ?ys) last_id s"
    by simp
  show ?case
  proof (cases "load_operlog_rows D J ?xs last_id s")
    case None
    then show ?thesis
      unfolding unfold split load_rows_append by (simp add: operlog_page_def)
  next
    case (Some p)
    obtain code last' s' where p: "load_operlog_rows D J ?xs last_id s = Some (code, last', s')"
      using Some by (cases p) auto
    show ?thesis
    proof (cases "code = 0 \<and> length ?xs = query_limit")
      case False
      have "?ys = []" if "length ?xs < query_limit"
        using that by simp
      with False p show ?thesis
        unfolding unfold split load_rows_append
        by (cases "code = 0") (auto simp: operlog_page_def not_less)
    next
      case True
      have ne: "?xs \<noteq> []"
        using True by (auto simp: query_limit_def)
      have last': "last' = l_id (last ?xs)"
        using load_rows_last [OF _ ne] p True by blast
      have rest: "rows_after table last' = ?ys"
        unfolding last' by (rule rows_after_page [OF assms _ ne, of ?ys last_id]) simp
      have "length (rows_after table last') < length ?rows"
        using ne by (simp add: rest query_limit_def)
      from less.hyps [OF this] p True rest show ?thesis
        unfolding unfold split load_rows_append by (simp add: operlog_page_def)
    qed
  qed
qed


lemma load_rows_ids:
  "load_operlog_rows D J rows last_id s = Some (0, last_id', s') \<Longrightarrow>
     map l_id rows = map (\<lambda>k. last_id + of_nat (Suc k)) [0..<length rows] \<and> last_id' = last_id + of_nat (length rows)"
proof (induction rows arbitrary: last_id s)
  case (Cons row rows)
  from Cons.prems obtain s1 where id: "l_id row = last_id + 1" and rest: "load_operlog_rows D J rows (last_id + 1) s1 = Some (0, last_id', s')"
    by (auto simp: Let_def split: if_splits option.splits)
  have "map (\<lambda>k. last_id + of_nat (Suc k)) [0..<length (row # rows)]
      = (last_id + 1) # map (\<lambda>k. last_id + 1 + of_nat (Suc k)) [0..<length rows]"
    by (simp add: upt_conv_Cons map_Suc_upt [symmetric] add.assoc del: upt_Suc map_Suc_upt)
  with Cons.IH [OF rest] id show ?case
    by (simp add: add.assoc)
qed simp

text \<open>C24. Loading the operation log reads it page by page, and comes to an end: on a table with ascending
  ids the pages amount to one pass over all the rows after the one the slice ends with. The id is
  given to the caller only when all of them were loaded.\<close>

theorem load_operlog_whole_table:
  assumes "table_ok table"
  shows "load_operlog D J (operlog_page table) start_id s =
    (case load_operlog_rows D J (rows_after table start_id) start_id s of
       None \<Rightarrow> None
     | Some (code, last_id, t) \<Rightarrow> Some (code, if code = 0 then last_id else start_id, t))"
  unfolding load_operlog_def load_operlog_pages [OF assms] by (auto split: option.split)

definition ex_row :: "u64 \<Rightarrow> operlog_row" where
  "ex_row i = \<lparr> l_id = i, l_detail = ''?'' \<rparr>"

theorem load_operlog_whole_table_witness:
  "load_operlog dec_lib (ex_text\<lparr>json_loadb := (\<lambda>_. None)\<rparr>) (operlog_page [ex_row 1, ex_row 2]) 1 ex_server = Some (- 424, 1, ex_server)"
proof -
  have table: "table_ok [ex_row 1, ex_row 2]"
    by (simp add: table_ok_def ex_row_def)
  show ?thesis
    unfolding load_operlog_whole_table [OF table] by (simp add: rows_after_def ex_row_def Let_def)
qed

text \<open>When loading the log succeeds, no entry was missing: the ids of the rows after the slice follow
  each other without a gap, and the engine goes on from the last of them.\<close>

theorem load_operlog_no_gap:
  assumes "table_ok table" "load_operlog D J (operlog_page table) start_id s = Some (0, last_id, t)"
  shows "map l_id (rows_after table start_id) = map (\<lambda>k. start_id + of_nat (Suc k)) [0..<length (rows_after table start_id)]
    \<and> last_id = start_id + of_nat (length (rows_after table start_id))"
proof -
  have "load_operlog_rows D J (rows_after table start_id) start_id s = Some (0, last_id, t)"
    using assms(2) unfolding load_operlog_def load_operlog_pages [OF assms(1)] by (auto split: if_splits)
  from load_rows_ids [OF this] show ?thesis .
qed

text \<open>A log with one operation, on a market that is not there any more: it is skipped.\<close>

definition ex_old :: text_lib where
  "ex_old = ex_text\<lparr>json_loadb := (\<lambda>_. Some (JObject [(''method'', JString ''cancel_order''),
     (''params'', JArray [JInteger 1, JString ''X'', JInteger 2])]))\<rparr>"

theorem load_operlog_no_gap_witness:
  "load_operlog dec_lib ex_old (operlog_page [ex_row 1, ex_row 2]) 1 ex_server = Some (0, 2, ex_server) \<and>
   map l_id (rows_after [ex_row 1, ex_row 2] 1) = [2]"
proof -
  have table: "table_ok [ex_row 1, ex_row 2]"
    by (simp add: table_ok_def ex_row_def)
  have rows: "rows_after [ex_row 1, ex_row 2] 1 = [ex_row 2]"
    by (simp add: rows_after_def ex_row_def)
  have "load_cancel_order dec_lib (JArray [JInteger 1, JString ''X'', JInteger 2]) ex_server = Some (0, ex_server)"
    by (simp add: load_cancel_order_def Let_def json_str_def get_market_def ex_server_def)
  then have "load_operlog_rows dec_lib ex_old [ex_row 2] 1 ex_server = Some (0, 2, ex_server)"
    by (simp add: ex_row_def ex_old_def load_oper_def Let_def)
  then have load: "load_operlog dec_lib ex_old (operlog_page [ex_row 1, ex_row 2]) 1 ex_server = Some (0, 2, ex_server)"
    unfolding load_operlog_def load_operlog_pages [OF table] rows by simp
  from load_operlog_no_gap [OF table load] load show ?thesis
    by (simp add: rows)
qed

section \<open>Listing\<close>

lemma load_assets_rows_markets: "dict_market (snd (load_assets_rows rows i num s)) = dict_market s"
  by (induction rows arbitrary: i num s) (auto simp: Let_def split: sum.split)

lemma load_markets_rows_dangle:
  "get_market (snd (load_markets_rows D rows i num s)) name = get_market s name \<or>
   get_market s name = None \<and> get_market (snd (load_markets_rows D rows i num s)) name = Some Dangling"
proof (induction rows arbitrary: i num s)
  case Nil
  then show ?case by simp
next
  case (Cons row rows)
  show ?case
  proof (cases "load_market_row D row")
    case (Inr c)
    define s1 where "s1 = (case dv_add (c_name c) Dangling (dict_market s) of None \<Rightarrow> s | Some d \<Rightarrow> s\<lparr>dict_market := d\<rparr>)"
    define s2 where "s2 = s1\<lparr>settings_markets := (settings_markets s1)[i := Some c]\<rparr>"
    obtain n where "load_markets_rows D (row # rows) i num s = load_markets_rows D rows (i + 1) n s2"
      by (cases "dv_add (c_name c) Dangling (dict_market s)") (simp_all add: Inr s1_def s2_def)
    moreover have "get_market s2 name = get_market s name \<or> get_market s name = None \<and> get_market s2 name = Some Dangling"
      by (auto simp: s2_def s1_def get_market_def dv_add_def split: option.splits)
    ultimately show ?thesis
      using Cons.IH [of "i + 1" n s2] by auto
  qed simp
qed

text \<open>The reload of the settings never changes a market that is there. A market it adds is a pointer to
  a local variable of the loader: no command can be served for it (a defect). Here for
  \<open>order.detail\<close>, whose result is undefined.\<close>

theorem listing_adds_dangling:
  "get_market (snd (listing_update D file s)) name = get_market s name \<or>
   get_market s name = None \<and> get_market (snd (listing_update D file s)) name = Some Dangling
   \<and> on_cmd_order_detail D J ses pkg (JArray [JString name, JInteger i]) (snd (listing_update D file s)) = None"
proof -
  have detail: "on_cmd_order_detail D J ses pkg (JArray [JString name, JInteger i]) t = None"
    if "get_market t name = Some Dangling" for t :: "('a, 'b) server_state_scheme"
    using that by (simp add: on_cmd_order_detail_def json_str_def)
  have eq: "get_market t name = get_market u name" if "dict_market t = dict_market u" for t u :: "('a, 'b) server_state_scheme"
    using that by (simp add: get_market_def)
  have assets: "get_market (snd (load_assets_listing conf key t)) name = get_market t name" for conf key and t :: "('a, 'b) server_state_scheme"
    by (rule eq) (simp add: load_assets_listing_def load_assets_rows_markets split: option.split json.split)
  have markets: "get_market (snd (load_markets_listing D conf key t)) name = get_market t name \<or>
      get_market t name = None \<and> get_market (snd (load_markets_listing D conf key t)) name = Some Dangling"
    for conf key and t :: "('a, 'b) server_state_scheme"
    using load_markets_rows_dangle [of D _ 0 0 "t\<lparr>settings_markets := replicate n None\<rparr>" name for n]
    by (auto simp: load_markets_listing_def get_market_def split: option.split json.split)
  have "get_market (snd (listing_update D file s)) name = get_market s name \<or>
      get_market s name = None \<and> get_market (snd (listing_update D file s)) name = Some Dangling"
    using markets [of _ "''markets''" "snd (load_assets_listing conf ''assets'' s)" for conf]
    by (auto simp: listing_update_def Let_def case_prod_beta assets split: option.split)
  with detail show ?thesis
    by blast
qed


definition ex_listing :: json where
  "ex_listing = JObject [(''assets'', JArray []), (''markets'', JArray [JObject [(''name'', JString ''ETHUSD''),
     (''min_amount'', JString ''1''),
     (''stock'', JObject [(''name'', JString ''ETH''), (''prec'', JInteger 4)]),
     (''money'', JObject [(''name'', JString ''USD''), (''prec'', JInteger 4)])]])]"

text \<open>C35. The defect is real: after a reload that adds one market to a running server, and reports one
  addition, the new market cannot be used.\<close>

theorem listed_market_unusable:
  "\<exists>t. listing_update dec_lib (Some ex_listing) ex_server = (1, t) \<and> get_market t ''ETHUSD'' = Some Dangling
     \<and> get_market t ''BTCUSD'' = Some (Market ex_market)
     \<and> on_cmd_order_detail dec_lib J ses pkg (JArray [JString ''ETHUSD'', JInteger 1]) t = None"
proof -
  have min: "mpd_set_string dec_lib ''1'' = (Dec 1 0, False)"
    by (simp add: dec_ops dec_of_string_def digit_value_def)
  have row: "load_market_row dec_lib (JObject [(''name'', JString ''ETHUSD''), (''min_amount'', JString ''1''),
     (''stock'', JObject [(''name'', JString ''ETH''), (''prec'', JInteger 4)]),
     (''money'', JObject [(''name'', JString ''USD''), (''prec'', JInteger 4)])])
    = Inr \<lparr> c_name = ''ETHUSD'', c_stock = ''ETH'', c_money = ''USD'', c_fee_prec = 4, c_stock_prec = 4, c_money_prec = 4,
        c_min_amount = Dec 1 0 \<rparr>"
    by (simp add: load_market_row_def ERR_RET_LN_def read_cfg_str_def read_cfg_int_def read_cfg_mpd_def json_str_def min decimal_def)
  obtain num t where up: "listing_update dec_lib (Some ex_listing) ex_server = (num, t)"
    by (metis surj_pair)
  have t: "num = 1" "get_market t ''ETHUSD'' = Some Dangling" "get_market t ''BTCUSD'' = Some (Market ex_market)"
    using up by (auto simp: listing_update_def ex_listing_def load_assets_listing_def load_markets_listing_def row dv_add_def
        ex_server_def get_market_def)
  have "on_cmd_order_detail dec_lib J ses pkg (JArray [JString ''ETHUSD'', JInteger 1]) t = None"
    using t(2) by (simp add: on_cmd_order_detail_def json_str_def)
  with up t show ?thesis by blast
qed

end
