(* ===== verification/Queue_Props.thy ===== *)
theory Queue_Props
  imports Server_Props
begin

text \<open>
  The properties of the queues between the engine and the outside: the queue of a worker
  (\<open>nw_job.c\<close>), the messages for Kafka (\<open>me_message.c\<close>) and the rows for the history
  (\<open>me_history.c\<close>).
\<close>

section \<open>Jobs\<close>

text \<open>One worker executes the requests of a queue in the order they were added: at any time what it
  has executed, what it is executing (at most one) and what waits are, in this order, all that was
  added. So the statements of the operation log reach the database in order.\<close>

theorem job_queue_in_order:
  assumes "job_run 1 nw_job_create ls j"
  shows "added ls = executed ls @ job_running j @ job_requests j \<and> length (job_running j) \<le> 1"
  using job_run_fifo [OF assms] by (simp add: nw_job_create_def)

lemma ex_job_run:
  "job_run 1 (nw_job_create :: nat nw_job) [Add 1, Take, Add 2, Executed 1]
     \<lparr> job_requests = [2], job_running = [], job_replies = [1], job_shutdown = False \<rparr>"
proof -
  let ?j = "\<lambda>rs run reps. \<lparr> job_requests = rs, job_running = run, job_replies = reps, job_shutdown = False \<rparr> :: nat nw_job"
  have "job_run 1 nw_job_create [] (?j [] [] [])"
    unfolding nw_job_create_def by (rule job_run.stop)
  moreover have "job_step 1 (?j [] [] []) (Add 1) (?j [1] [] [])"
    using job_step.add [of 1 "?j [] [] []" 1] by (simp add: nw_job_add_def)
  moreover have "job_step 1 (?j [1] [] []) Take (?j [] [1] [])"
    by (rule job_step.take) (simp_all add: job_take_def)
  moreover have "job_step 1 (?j [] [1] []) (Add 2) (?j [2] [1] [])"
    using job_step.add [of 1 "?j [] [1] []" 2] by (simp add: nw_job_add_def)
  moreover have "job_step 1 (?j [2] [1] []) (Executed 1) (?j [2] [] [1])"
    by (rule job_step.reply [of 0]) (simp add: job_reply_def)
  ultimately have "job_run 1 nw_job_create (((([] @ [Add 1]) @ [Take]) @ [Add 2]) @ [Executed 1]) (?j [2] [] [1])"
    by (blast intro: job_run.step)
  then show ?thesis by simp
qed

theorem job_queue_in_order_witness:
  "added [Add 1, Take, Add (2::nat), Executed 1] = executed [Add 1, Take, Add (2::nat), Executed 1] @ [] @ [2]"
  using job_queue_in_order [OF ex_job_run] by simp

text \<open>With any number of workers, no request is lost or executed twice as long as the queue is not
  released; but a release stops the workers before the requests that wait: none of them is executed
  any more (a defect: the statements that a shutdown has just added may never reach the database).\<close>

theorem released_requests_lost:
  assumes "job_run n (nw_job_release j) ls j'"
  shows "job_requests j' = job_requests j @ added ls \<and> mset (executed ls) \<subseteq># mset (job_running j)"
  using job_run_released [OF assms] by (simp add: nw_job_release_def)

theorem released_requests_lost_witness:
  "executed [Add (3::nat)] = [] \<and> job_requests (nw_job_add 3 (nw_job_release (nw_job_add 2 nw_job_create))) = [2, 3::nat]"
proof -
  let ?j = "nw_job_release (nw_job_add 2 nw_job_create) :: nat nw_job"
  have "job_run 1 ?j ([] @ [Add 3]) (nw_job_add 3 ?j)"
    by (rule job_run.step [OF job_run.stop job_step.add])
  from released_requests_lost [OF this] show ?thesis
    by (simp add: nw_job_add_def nw_job_create_def)
qed

section \<open>Messages\<close>

text \<open>What happens to the message queue: a handler pushes a message, the timer fires.\<close>

datatype message_event = Push topic string | Timer

definition message_event :: "message_event \<Rightarrow> message_state \<Rightarrow> message_state" where
  "message_event e q = (case e of Push topic message \<Rightarrow> snd (push_message message topic q) | Timer \<Rightarrow> message_on_timer q)"

fun pushed :: "topic \<Rightarrow> message_event list \<Rightarrow> string list" where
  "pushed topic [] = []"
| "pushed topic (Push t message # es) = (if t = topic then message # pushed topic es else pushed topic es)"
| "pushed topic (Timer # es) = pushed topic es"

lemma message_on_timer_stream:
  assumes "\<forall>n. kafka q n \<noteq> ProduceError"
  shows "kafka (message_on_timer q) = kafka q \<and> stream t (message_on_timer q) = stream t q"
proof -
  note a = produce_topic_stream [OF assms, of TopicBalances t]
  then have "\<forall>n. kafka (produce_topic TopicBalances q) n \<noteq> ProduceError"
    using assms by simp
  note b = produce_topic_stream [OF this, of TopicOrders t]
  then have "\<forall>n. kafka (produce_topic TopicOrders (produce_topic TopicBalances q)) n \<noteq> ProduceError"
    using assms a by simp
  note c = produce_topic_stream [OF this, of TopicDeals t]
  from a b c show ?thesis
    by (simp add: message_on_timer_def Let_def)
qed

text \<open>C29. Messages reach Kafka in the order they were pushed, topic by topic, however often its queue is
  full in between: what Kafka has accepted followed by what still waits is all that was pushed. This
  needs that Kafka has no other failure, for which the code drops the message.\<close>

theorem messages_in_order:
  assumes "\<forall>n. kafka q n \<noteq> ProduceError"
  shows "stream topic (fold message_event es q) = stream topic q @ pushed topic es"
  using assms
proof (induction es arbitrary: q)
  case Nil
  then show ?case by simp
next
  case (Cons e es)
  have "kafka (message_event e q) = kafka q \<and> stream topic (message_event e q) = stream topic q @ pushed topic [e]"
  proof (cases e)
    case (Push t message)
    obtain ret q' where p: "push_message message t q = (ret, q')"
      by fastforce
    from push_message_stream [OF Cons.prems p, of topic] show ?thesis
      by (auto simp: Push p message_event_def)
  next
    case Timer
    with message_on_timer_stream [OF Cons.prems, of topic] show ?thesis
      by (simp add: message_event_def)
  qed
  moreover from this have "\<forall>n. kafka (message_event e q) n \<noteq> ProduceError"
    using Cons.prems by simp
  ultimately show ?case
    using Cons.IH [of "message_event e q"] by (cases e) auto
qed

text \<open>A queue that is full at the first attempt.\<close>

theorem messages_in_order_witness:
  "let q = \<lparr> lists = (\<lambda>_. []), kafka = (\<lambda>n. if n = 0 then QueueFull else Produced), produces = 0, produced = [] \<rparr>;
       q' = fold message_event [Push TopicDeals ''a'', Push TopicDeals ''b'', Timer] q in
   stream TopicDeals q' = [''a'', ''b''] \<and> lists q' TopicDeals = []"
proof -
  let ?q = "\<lparr> lists = (\<lambda>_. []), kafka = (\<lambda>n. if n = 0 then QueueFull else Produced), produces = 0, produced = [] \<rparr>"
  have "\<forall>n. kafka ?q n \<noteq> ProduceError" by simp
  from messages_in_order [OF this, of TopicDeals "[Push TopicDeals ''a'', Push TopicDeals ''b'', Timer]"]
  have "stream TopicDeals (fold message_event [Push TopicDeals ''a'', Push TopicDeals ''b'', Timer] ?q) = [''a'', ''b'']"
    by (simp add: stream_def accepted_def)
  moreover have "lists (fold message_event [Push TopicDeals ''a'', Push TopicDeals ''b'', Timer] ?q) TopicDeals = []"
    by (simp add: message_event_def push_message_def rd_kafka_produce_def list_add_message_def message_on_timer_def
        produce_topic_def Let_def)
  ultimately show ?thesis
    by simp
qed

text \<open>A failure of Kafka other than a full queue loses a message that waits (a defect): here the first
  message waits because the queue was full, the timer's attempt to send it fails, and it is gone.\<close>

theorem failed_message_lost:
  "\<exists>q. stream TopicDeals (fold message_event [Push TopicDeals ''a'', Timer] q) = []"
  by (rule exI [of _ "\<lparr> lists = (\<lambda>_. []), kafka = (\<lambda>n. if n = 0 then QueueFull else ProduceError), produces = 0, produced = [] \<rparr>"])
    (simp add: message_event_def push_message_def rd_kafka_produce_def list_add_message_def message_on_timer_def
        produce_topic_def Let_def stream_def accepted_def)

section \<open>History\<close>

lemma rows_batched:
  assumes "\<And>k. dv_find (dict_sql h) k = None" "\<And>k. head k \<noteq> []"
  shows "dv_find (dict_sql (fold (\<lambda>x. append_row (key x) (head (key x)) (row x)) xs h)) k =
    (let rows = map row (filter (\<lambda>x. key x = k) xs) in if rows = [] then None else Some (head k @ comma_rows rows))"
proof (induction xs rule: rev_induct)
  case Nil
  then show ?case by (simp add: assms(1))
next
  case (snoc x xs)
  let ?rows = "map row (filter (\<lambda>x'. key x' = key x) xs)"
  have "key x = k \<Longrightarrow> get_sql k (fold (\<lambda>x. append_row (key x) (head (key x)) (row x)) xs h)
      = (if ?rows = [] then [] else head k @ comma_rows ?rows)"
    using snoc by (auto simp: get_sql_def Let_def)
  with snoc assms(2) [of "key x"] show ?case
    by (cases "?rows = []") (auto simp: append_row_find comma_rows_snoc Let_def)
qed

definition detail_key :: "'d order \<Rightarrow> nat" where
  "detail_key order = unat (o_id order) mod HISTORY_HASH_NUM"

definition detail_head :: "nat \<Rightarrow> string" where
  "detail_head k = ''INSERT INTO `order_detail_'' @ nat_digits k @ order_columns"

text \<open>The finished orders collected between two ticks of the timer make one statement per table:
  the head of the table, then one row for every order whose identifier has its hash, in the order they
  finished. The tick hands every statement to the writer once and starts again with none.\<close>

theorem order_details_batched:
  fixes D :: "'d mpd_lib"
  assumes "dict_sql h = []"
  shows "let h' = fold (append_order_detail D) orders h; rows = (\<lambda>k. map (order_row D) (filter (\<lambda>order. detail_key order = k) orders)) in
    (\<forall>k. dv_find (dict_sql h') (HISTORY_ORDER_DETAIL, k) = (if rows k = [] then None else Some (detail_head k @ comma_rows (rows k))))
    \<and> dict_sql (history_on_timer h') = []
    \<and> job_requests (history_job (history_on_timer h')) = job_requests (history_job h) @ map snd (dict_sql h')"
proof -
  let ?head = "\<lambda>k. detail_head (snd k)" and ?key = "\<lambda>order. (HISTORY_ORDER_DETAIL, detail_key order)"
  have fold_eq: "append_order_detail D = (\<lambda>order. append_row (?key order) (?head (?key order)) (order_row D order))"
    by (rule ext)+ (simp add: append_order_detail_def detail_key_def detail_head_def Let_def)
  have "history_job (fold (append_order_detail D) orders h) = history_job h"
    by (induction orders arbitrary: h) (auto simp: append_order_detail_def append_row_def set_sql_def Let_def)
  moreover have "dv_find (dict_sql (fold (append_order_detail D) orders h)) (HISTORY_ORDER_DETAIL, k)
      = (let rows = map (order_row D) (filter (\<lambda>order. detail_key order = k) orders) in
         if rows = [] then None else Some (detail_head k @ comma_rows rows))" for k
    using rows_batched [of h ?head ?key "order_row D" orders "(HISTORY_ORDER_DETAIL, k)"] assms
    by (simp add: fold_eq detail_head_def)
  ultimately show ?thesis
    by (simp add: Let_def history_on_timer_def fold_job_add)
qed

theorem order_details_batched_witness:
  "dv_find (dict_sql (fold (append_order_detail dec_lib) [ex_bid, ex_ask]
      \<lparr> dict_sql = [], history_job = nw_job_create \<rparr>)) (HISTORY_ORDER_DETAIL, 1)
    = Some (detail_head 1 @ order_row dec_lib ex_bid)"
  using order_details_batched [of "\<lparr> dict_sql = [], history_job = nw_job_create \<rparr>" dec_lib "[ex_bid, ex_ask]"]
  by (simp add: Let_def detail_key_def HISTORY_HASH_NUM_def ex_bid_def ex_ask_def)

text \<open>
  What the message queue of \<open>matchengine/me_message.c\<close> gets done in the end: as long as Kafka's own queue
  has room again and again, the timer empties the lists.
\<close>

section \<open>Progress of the timer\<close>

definition waiting :: "message_state \<Rightarrow> nat" where
  "waiting q = length (lists q TopicBalances) + length (lists q TopicOrders) + length (lists q TopicDeals)"

text \<open>
  Nothing is added while the timer runs, and when nothing is removed either, Kafka's queue was full
  at every attempt.
\<close>

definition tried :: "message_state \<Rightarrow> message_state \<Rightarrow> bool" where
  "tried q q' \<longleftrightarrow> kafka q' = kafka q \<and> produces q \<le> produces q' \<and> waiting q' \<le> waiting q \<and>
     (waiting q' = waiting q \<longrightarrow> (\<forall>n. produces q \<le> n \<and> n < produces q' \<longrightarrow> kafka q n = QueueFull))"

lemma tried_trans: "tried q q' \<Longrightarrow> tried q' q'' \<Longrightarrow> tried q q''"
  unfolding tried_def by (metis le_antisym le_trans not_le)

lemma produce_list_tried:
  "produce_list topic messages q = (left, q') \<Longrightarrow>
     kafka q' = kafka q \<and> lists q' = lists q \<and> produces q \<le> produces q' \<and> length left \<le> length messages \<and>
     (messages \<noteq> [] \<longrightarrow> produces q < produces q') \<and>
     (length left = length messages \<longrightarrow> (\<forall>n. produces q \<le> n \<and> n < produces q' \<longrightarrow> kafka q n = QueueFull))"
proof (induction messages arbitrary: q)
  case Nil
  then show ?case by auto
next
  case (Cons message messages)
  obtain answer q1 where p: "rd_kafka_produce topic message q = (answer, q1)" by fastforce
  note f = rd_kafka_produce_fields [OF p]
  show ?case
  proof (cases "answer = QueueFull")
    case True
    with Cons.prems p f show ?thesis by (auto simp: le_less_Suc_eq)
  next
    case False
    with Cons.prems p have "produce_list topic messages q1 = (left, q')" by simp
    from Cons.IH [OF this] f show ?thesis by auto
  qed
qed

lemma produce_topic_tried:
  "tried q (produce_topic topic q)"
  "lists q topic \<noteq> [] \<Longrightarrow> produces q < produces (produce_topic topic q)"
  "t \<noteq> topic \<Longrightarrow> lists (produce_topic topic q) t = lists q t"
proof -
  obtain left q' where p: "produce_list topic (lists q topic) q = (left, q')" by fastforce
  note f = produce_list_tried [OF p]
  from p f show "tried q (produce_topic topic q)"
    by (cases topic) (auto simp: produce_topic_def tried_def waiting_def)
  from p f show "lists q topic \<noteq> [] \<Longrightarrow> produces q < produces (produce_topic topic q)"
    by (simp add: produce_topic_def)
  from p f show "t \<noteq> topic \<Longrightarrow> lists (produce_topic topic q) t = lists q t"
    by (simp add: produce_topic_def)
qed

lemma message_on_timer_tried:
  "tried q (message_on_timer q)" "waiting q \<noteq> 0 \<Longrightarrow> produces q < produces (message_on_timer q)"
proof -
  let ?a = "produce_topic TopicBalances q"
  let ?b = "produce_topic TopicOrders ?a"
  have t: "message_on_timer q = produce_topic TopicDeals ?b" by (simp add: message_on_timer_def)
  show "tried q (message_on_timer q)"
    unfolding t by (rule tried_trans [OF produce_topic_tried(1) tried_trans [OF produce_topic_tried(1) produce_topic_tried(1)]])
  have le: "produces q \<le> produces ?a" "produces ?a \<le> produces ?b" "produces ?b \<le> produces (message_on_timer q)"
    using produce_topic_tried(1) [of q TopicBalances] produce_topic_tried(1) [of ?a TopicOrders]
      produce_topic_tried(1) [of ?b TopicDeals]
    by (simp_all only: t tried_def)
  assume "waiting q \<noteq> 0"
  then consider "lists q TopicBalances \<noteq> []" | "lists q TopicOrders \<noteq> []" | "lists q TopicDeals \<noteq> []"
    by (auto simp: waiting_def)
  then show "produces q < produces (message_on_timer q)"
  proof cases
    case 1
    with produce_topic_tried(2) [of q TopicBalances] le show ?thesis by simp
  next
    case 2
    then have "lists ?a TopicOrders \<noteq> []" by (simp add: produce_topic_tried(3))
    with produce_topic_tried(2) [of ?a TopicOrders] le show ?thesis by simp
  next
    case 3
    then have "lists ?b TopicDeals \<noteq> []" by (simp add: produce_topic_tried(3))
    with produce_topic_tried(2) [of ?b TopicDeals] le show ?thesis by (simp add: t)
  qed
qed

text \<open>The next answer that is no full queue is reached, and with it one message less waits.\<close>

lemma timer_makes_progress:
  assumes "waiting q \<noteq> 0" "produces q \<le> m" "kafka q m \<noteq> QueueFull"
  shows "\<exists>k. waiting ((message_on_timer ^^ k) q) < waiting q"
  using assms
proof (induction "m - produces q" arbitrary: q rule: less_induct)
  case less
  let ?q = "message_on_timer q"
  from message_on_timer_tried(1) have t: "tried q ?q" .
  show ?case
  proof (cases "waiting ?q < waiting q")
    case True
    then show ?thesis by (intro exI [of _ 1]) simp
  next
    case False
    with t have eq: "waiting ?q = waiting q" by (simp add: tried_def)
    with t have full: "\<forall>n. produces q \<le> n \<and> n < produces ?q \<longrightarrow> kafka q n = QueueFull"
      unfolding tried_def by blast
    have "produces ?q \<le> m"
    proof (rule ccontr)
      assume "\<not> produces ?q \<le> m"
      with full less.prems(2) have "kafka q m = QueueFull" by simp
      with less.prems(3) show False by simp
    qed
    have "kafka ?q m \<noteq> QueueFull" using t less.prems(3) by (simp add: tried_def)
    have "produces q < produces ?q"
      using message_on_timer_tried(2) less.prems(1) .
    with \<open>produces ?q \<le> m\<close> have "m - produces ?q < m - produces q" by linarith
    from less.hyps [OF this] \<open>produces ?q \<le> m\<close> \<open>kafka ?q m \<noteq> QueueFull\<close> less.prems(1) eq
    obtain k where "waiting ((message_on_timer ^^ k) ?q) < waiting ?q" by auto
    with eq show ?thesis by (intro exI [of _ "Suc k"]) (simp add: funpow_swap1)
  qed
qed

lemma timer_kafka: "kafka ((message_on_timer ^^ k) q) = kafka q"
  by (induction k) (use message_on_timer_tried(1) in \<open>simp_all add: tried_def\<close>)

lemma timer_empties:
  assumes "\<forall>n. \<exists>m \<ge> n. kafka q m \<noteq> QueueFull"
  shows "\<exists>k. waiting ((message_on_timer ^^ k) q) = 0"
  using assms
proof (induction "waiting q" arbitrary: q rule: less_induct)
  case less
  show ?case
  proof (cases "waiting q = 0")
    case True
    then show ?thesis by (intro exI [of _ 0]) simp
  next
    case False
    from less.prems obtain m where "produces q \<le> m" "kafka q m \<noteq> QueueFull" by blast
    from timer_makes_progress [OF False this] obtain k where k: "waiting ((message_on_timer ^^ k) q) < waiting q" by blast
    moreover from less.prems have "\<forall>n. \<exists>m \<ge> n. kafka ((message_on_timer ^^ k) q) m \<noteq> QueueFull"
      by (simp add: timer_kafka)
    ultimately obtain k' where "waiting ((message_on_timer ^^ k') ((message_on_timer ^^ k) q)) = 0"
      using less.hyps by blast
    then have "waiting ((message_on_timer ^^ (k' + k)) q) = 0" by (simp add: funpow_add)
    then show ?thesis ..
  qed
qed

section \<open>Delivery\<close>

text \<open>C25. Whatever waits for Kafka is delivered in the end: when Kafka's own queue has room again and
  again, and there is no other failure, then after some number of ticks of the timer nothing waits and Kafka has
  accepted all that waited, in order, behind what it had before.\<close>

theorem waiting_messages_delivered:
  assumes "\<forall>n. \<exists>m \<ge> n. kafka q m \<noteq> QueueFull" "\<forall>n. kafka q n \<noteq> ProduceError"
  shows "\<exists>k. \<forall>topic. lists ((message_on_timer ^^ k) q) topic = []
    \<and> accepted topic ((message_on_timer ^^ k) q) = accepted topic q @ lists q topic"
proof -
  from timer_empties [OF assms(1)] obtain k where k: "waiting ((message_on_timer ^^ k) q) = 0" ..
  have "stream topic ((message_on_timer ^^ k) q) = stream topic q" for topic
    by (induction k) (use message_on_timer_stream assms(2) in \<open>simp_all add: timer_kafka\<close>)
  moreover from k have "lists ((message_on_timer ^^ k) q) topic = []" for topic
    by (cases topic) (simp_all add: waiting_def)
  ultimately show ?thesis
    by (intro exI [of _ k]) (simp add: stream_def)
qed

text \<open>A Kafka whose queue has room at every third attempt only.\<close>

theorem waiting_messages_delivered_witness:
  "let q = \<lparr> lists = (\<lambda>t. if t = TopicDeals then [''a'', ''b''] else [''c'']),
             kafka = (\<lambda>n. if n mod 3 = 2 then Produced else QueueFull), produces = 0, produced = [] \<rparr> in
   \<exists>k. lists ((message_on_timer ^^ k) q) TopicDeals = [] \<and> accepted TopicDeals ((message_on_timer ^^ k) q) = [''a'', ''b'']"
proof -
  let ?q = "\<lparr> lists = (\<lambda>t. if t = TopicDeals then [''a'', ''b''] else [''c'']),
             kafka = (\<lambda>n. if n mod 3 = 2 then Produced else QueueFull), produces = 0, produced = [] \<rparr>"
  have "\<exists>m \<ge> n. kafka ?q m \<noteq> QueueFull" for n
    by (rule exI [of _ "3 * n + 2"]) (simp add: mod_Suc)
  moreover have "\<forall>n. kafka ?q n \<noteq> ProduceError" by simp
  ultimately have "\<exists>k. \<forall>topic. lists ((message_on_timer ^^ k) ?q) topic = []
      \<and> accepted topic ((message_on_timer ^^ k) ?q) = accepted topic ?q @ lists ?q topic"
    by (intro waiting_messages_delivered) blast+
  then show ?thesis
    unfolding Let_def by (fastforce simp: accepted_def)
qed

end
