(* ===== verification/Depth_Props.thy ===== *)
theory Depth_Props
  imports Server_Props
begin

text \<open>
  What the depth of a market says (\<open>get_depth\<close> of \<open>me_server.c\<close>): the levels of the books in terms
  of the orders that rest in them.
\<close>

definition node_price :: "('d \<Rightarrow> rat option) \<Rightarrow> 'd market \<Rightarrow> u64 \<Rightarrow> rat" where
  "node_price val m i = (case m_orders m i of Some a \<Rightarrow> price_of val a | None \<Rightarrow> 0)"

definition node_left :: "('d \<Rightarrow> rat option) \<Rightarrow> 'd market \<Rightarrow> u64 \<Rightarrow> rat" where
  "node_left val m i = (case m_orders m i of Some a \<Rightarrow> amount_val val (o_left a) | None \<Rightarrow> 0)"

definition node_ok :: "('d \<Rightarrow> rat option) \<Rightarrow> 'd market \<Rightarrow> u64 \<Rightarrow> bool" where
  "node_ok val m i \<longleftrightarrow> (\<exists>a. m_orders m i = Some a \<and> val (o_price a) \<noteq> None \<and> val (o_left a) \<noteq> None)"

text \<open>All that is left at these orders fits into the 34 digits of the context.\<close>

definition lefts_fit :: "('d \<Rightarrow> rat option) \<Rightarrow> 'd market \<Rightarrow> rat \<Rightarrow> u64 list \<Rightarrow> bool" where
  "lefts_fit val m x nodes \<longleftrightarrow> (\<exists>p \<le> 1000. on_grid p x \<and> (\<forall>i \<in> set nodes. on_grid p (node_left val m i) \<and> 0 \<le> node_left val m i)
     \<and> 0 \<le> x \<and> (x + sum_list (map (node_left val m) nodes)) * 10 ^ p < 10 ^ 34)"

lemma lefts_fit_Cons:
  assumes "lefts_fit val m x (i # nodes)"
  shows "lefts_fit val m (x + node_left val m i) nodes" "fits (x + node_left val m i)"
proof -
  let ?y = "node_left val m i"
  from assms obtain p where p: "p \<le> 1000" "on_grid p x" "on_grid p ?y" "0 \<le> x" "0 \<le> ?y"
      "\<forall>j \<in> set nodes. on_grid p (node_left val m j) \<and> 0 \<le> node_left val m j"
      "(x + ?y + sum_list (map (node_left val m) nodes)) * 10 ^ p < 10 ^ 34"
    unfolding lefts_fit_def by (auto simp: add.assoc)
  have "0 \<le> sum_list (map (node_left val m) nodes)"
    using p(6) by (intro sum_list_nonneg) auto
  then have "(x + ?y) * 10 ^ p \<le> (x + ?y + sum_list (map (node_left val m) nodes)) * 10 ^ p"
    by (intro mult_right_mono) auto
  also note p(7)
  finally have "\<bar>x + ?y\<bar> * 10 ^ p < 10 ^ 34"
    using p(4,5) by simp
  then show "fits (x + ?y)"
    by (rule grid_fits [OF on_grid_add [OF p(2,3)] p(1)])
  show "lefts_fit val m (x + ?y) nodes"
    unfolding lefts_fit_def using p on_grid_add [OF p(2,3)] by (intro exI [of _ p]) auto
qed

lemma node_okD:
  assumes "node_ok val m i"
  obtains a where "m_orders m i = Some a" "val (o_price a) = Some (node_price val m i)" "val (o_left a) = Some (node_left val m i)"
  using assms by (auto simp: node_ok_def node_price_def node_left_def price_of_def amount_val_def)

lemma depth_amount_sum:
  assumes "mpd_laws D val" "val price = Some p" "\<forall>i \<in> set nodes. node_ok val m i" "val amount = Some x" "lefts_fit val m x nodes"
  shows "\<exists>amt. depth_amount D m (\<lambda>q. mpd_cmp D price q = 0) amount nodes = (amt, dropWhile (\<lambda>i. node_price val m i = p) nodes)
    \<and> val amt = Some (x + sum_list (map (node_left val m) (takeWhile (\<lambda>i. node_price val m i = p) nodes)))"
  using assms(3-5)
proof (induction nodes arbitrary: amount x)
  case Nil
  then show ?case by simp
next
  case (Cons i nodes)
  obtain a where a: "m_orders m i = Some a" "val (o_price a) = Some (node_price val m i)" "val (o_left a) = Some (node_left val m i)"
    using node_okD Cons.prems(1) by (metis list.set_intros(1))
  have cmp: "mpd_cmp D price (o_price a) = 0 \<longleftrightarrow> node_price val m i = p"
    using mpd_cmp_val [OF assms(1,2) a(2)] by auto
  note fit = lefts_fit_Cons [OF Cons.prems(3)]
  show ?case
  proof (cases "node_price val m i = p")
    case True
    have "val (mpd_add D amount (o_left a)) = Some (x + node_left val m i)"
      using mpd_add_val [OF assms(1) Cons.prems(2) a(3)] rounds_fits [OF _ fit(2)] by auto
    from Cons.IH [OF _ this fit(1)] Cons.prems(1) True cmp a(1) show ?thesis
      by (auto simp: add.assoc)
  next
    case False
    with cmp a(1) Cons.prems(2) show ?thesis by simp
  qed
qed

text \<open>The levels of a side: the distinct prices in the order of the book, with the sum of what is left there.\<close>

definition price_levels :: "('d \<Rightarrow> rat option) \<Rightarrow> 'd market \<Rightarrow> u64 list \<Rightarrow> (rat \<times> rat) list" where
  "price_levels val m nodes =
     map (\<lambda>p. (p, sum_list (map (node_left val m) (filter (\<lambda>i. node_price val m i = p) nodes))))
       (remdups_adj (map (node_price val m) nodes))"

lemma group_first:
  fixes f :: "'a \<Rightarrow> rat"
  assumes "sorted (map (\<lambda>i. c * f i) (i # nodes))" "c \<noteq> 0"
  shows "takeWhile (\<lambda>j. f j = f i) nodes = filter (\<lambda>j. f j = f i) nodes
    \<and> dropWhile (\<lambda>j. f j = f i) nodes = filter (\<lambda>j. f j \<noteq> f i) nodes"
  using assms(1)
proof (induction nodes)
  case (Cons j nodes)
  have IH: "takeWhile (\<lambda>j. f j = f i) nodes = filter (\<lambda>j. f j = f i) nodes
    \<and> dropWhile (\<lambda>j. f j = f i) nodes = filter (\<lambda>j. f j \<noteq> f i) nodes"
    by (rule Cons.IH) (use Cons.prems in auto)
  have "f k \<noteq> f i" if "f j \<noteq> f i" "k \<in> set nodes" for k
  proof
    assume "f k = f i"
    with that(2) Cons.prems have "c * f i \<le> c * f j \<and> c * f j \<le> c * f i" by fastforce
    with that(1) assms(2) show False by auto
  qed
  then have "f j \<noteq> f i \<Longrightarrow> filter (\<lambda>j. f j = f i) nodes = [] \<and> filter (\<lambda>j. f j \<noteq> f i) nodes = nodes"
    by (auto simp: filter_empty_conv filter_id_conv)
  with IH show ?case
    by auto
qed simp

lemma price_levels_Cons:
  assumes "sorted (map (\<lambda>i. c * node_price val m i) (i # nodes))" "c \<noteq> 0"
  shows "price_levels val m (i # nodes) =
    (node_price val m i, node_left val m i + sum_list (map (node_left val m) (takeWhile (\<lambda>j. node_price val m j = node_price val m i) nodes)))
    # price_levels val m (dropWhile (\<lambda>j. node_price val m j = node_price val m i) nodes)"
proof -
  let ?f = "node_price val m"
  let ?rest = "filter (\<lambda>j. ?f j \<noteq> ?f i) nodes"
  note g = group_first [OF assms]
  have drop: "dropWhile (\<lambda>q. q = ?f i) (map ?f nodes) = map ?f ?rest"
    using g by (simp add: dropWhile_map o_def)
  have "filter (\<lambda>j. ?f j = p) (i # nodes) = filter (\<lambda>j. ?f j = p) ?rest" if "p \<noteq> ?f i" for p
  proof -
    have "filter (\<lambda>j. ?f j = p) ?rest = filter (\<lambda>j. ?f j = p) nodes"
      using that by (simp add: filter_filter) (metis (mono_tags, lifting) filter_cong that)
    with that show ?thesis by simp
  qed
  note only = this
  have other: "sum_list (map (node_left val m) (filter (\<lambda>j. ?f j = p) (i # nodes)))
      = sum_list (map (node_left val m) (filter (\<lambda>j. ?f j = p) ?rest))"
    if "p \<in> set (remdups_adj (map ?f ?rest))" for p
  proof -
    from that have "p \<noteq> ?f i" by (auto simp only: remdups_adj_set set_map set_filter)
    from only [OF this] show ?thesis by (simp only:)
  qed
  have "price_levels val m (i # nodes) =
      (?f i, sum_list (map (node_left val m) (filter (\<lambda>j. ?f j = ?f i) (i # nodes))))
      # map (\<lambda>p. (p, sum_list (map (node_left val m) (filter (\<lambda>j. ?f j = p) (i # nodes))))) (remdups_adj (map ?f ?rest))"
    by (simp only: price_levels_def list.map remdups_adj_Cons' drop)
  also have "map (\<lambda>p. (p, sum_list (map (node_left val m) (filter (\<lambda>j. ?f j = p) (i # nodes))))) (remdups_adj (map ?f ?rest))
      = price_levels val m ?rest"
    unfolding price_levels_def by (rule map_cong [OF refl]) (simp only: other)
  finally show ?thesis
    using g by simp
qed

lemma lefts_fit_suffix:
  assumes "lefts_fit val m x (xs @ ys)"
  shows "lefts_fit val m 0 ys"
  using assms
proof (induction xs arbitrary: x)
  case Nil
  then obtain p where p: "p \<le> 1000" "\<forall>i \<in> set ys. on_grid p (node_left val m i) \<and> 0 \<le> node_left val m i" "0 \<le> x"
      "(x + sum_list (map (node_left val m) ys)) * 10 ^ p < 10 ^ 34"
    by (auto simp: lefts_fit_def)
  have "sum_list (map (node_left val m) ys) * 10 ^ p \<le> (x + sum_list (map (node_left val m) ys)) * 10 ^ p"
    using p(3) by (intro mult_right_mono) auto
  also note p(4)
  finally show ?case
    unfolding lefts_fit_def using p by (intro exI [of _ p]) simp
next
  case (Cons i xs)
  with lefts_fit_Cons(1) [of val m x i "xs @ ys"] show ?case by simp
qed

lemma depth_levels_sum:
  assumes L: "mpd_laws D val" and "c \<noteq> 0" "sorted (map (\<lambda>i. c * node_price val m i) nodes)"
    "\<forall>i \<in> set nodes. node_ok val m i" "lefts_fit val m 0 nodes"
  shows "map (\<lambda>(p, a). (amount_val val p, amount_val val a))
      (depth_levels D m (\<lambda>p. p) (\<lambda>p q. mpd_cmp D p q = 0) limit nodes) = take limit (price_levels val m nodes)"
  using assms(3-)
proof (induction limit arbitrary: nodes)
  case 0
  then show ?case by simp
next
  case (Suc limit)
  show ?case
  proof (cases nodes)
    case Nil
    then show ?thesis by (simp add: price_levels_def)
  next
    case (Cons i rest)
    let ?drop = "dropWhile (\<lambda>j. node_price val m j = node_price val m i) rest"
    let ?take = "takeWhile (\<lambda>j. node_price val m j = node_price val m i) rest"
    have rest: "rest = ?take @ ?drop" by simp
    have "node_ok val m i" using Suc.prems(2) Cons by simp
    then obtain a where a: "m_orders m i = Some a" "val (o_price a) = Some (node_price val m i)"
        "val (o_left a) = Some (node_left val m i)"
      by (rule node_okD)
    have fit: "lefts_fit val m (node_left val m i) rest"
      using lefts_fit_Cons(1) [of val m 0 i rest] Suc.prems(3) Cons by simp
    have "\<forall>j \<in> set rest. node_ok val m j"
      using Suc.prems(2) Cons by simp
    from depth_amount_sum [OF L a(2) this a(3) fit] obtain amt where
      amt: "depth_amount D m (\<lambda>q. mpd_cmp D (o_price a) q = 0) (o_left a) rest = (amt, ?drop)"
        "val amt = Some (node_left val m i + sum_list (map (node_left val m) ?take))"
      by blast
    have "sorted (map (\<lambda>i. c * node_price val m i) ?drop)"
    proof -
      have "sorted (map (\<lambda>i. c * node_price val m i) (?take @ ?drop))"
        unfolding takeWhile_dropWhile_id using Suc.prems(1) Cons by simp
      then show ?thesis by (simp only: map_append sorted_append)
    qed
    moreover have "\<forall>j \<in> set ?drop. node_ok val m j"
      using Suc.prems(2) Cons by (auto dest: set_dropWhileD)
    moreover have "lefts_fit val m 0 ?drop"
      using lefts_fit_suffix [of val m _ ?take ?drop] fit rest by simp
    ultimately have "map (\<lambda>(p, a). (amount_val val p, amount_val val a))
        (depth_levels D m (\<lambda>p. p) (\<lambda>p q. mpd_cmp D p q = 0) limit ?drop) = take limit (price_levels val m ?drop)"
      by (rule Suc.IH)
    moreover have "price_levels val m nodes = (node_price val m i, node_left val m i + sum_list (map (node_left val m) ?take))
        # price_levels val m ?drop"
      unfolding Cons by (rule price_levels_Cons) (use Suc.prems(1) Cons assms(2) in simp_all)
    ultimately show ?thesis
      using a amt by (simp add: Cons amount_val_def)
  qed
qed

lemma book_depth:
  assumes "market_ok val m" "nodes = (if asks then m_asks m else m_bids m)"
  shows "\<forall>i \<in> set nodes. node_ok val m i" "sorted (map (\<lambda>i. (if asks then 1 else - 1) * node_price val m i) nodes)"
proof -
  let ?side = "if asks then MARKET_ORDER_SIDE_ASK else MARKET_ORDER_SIDE_BID"
  have heap: "heap_ok val (m_orders m)" and book: "book_ok val (m_orders m) ?side nodes"
    using assms by (auto simp: market_ok_def)
  have node: "\<exists>a. m_orders m i = Some a \<and> order_ok val a \<and> o_side a = ?side" if "i \<in> set nodes" for i
    using heap book that by (fastforce simp: heap_ok_def book_ok_def)
  show "\<forall>i \<in> set nodes. node_ok val m i"
  proof
    fix i assume "i \<in> set nodes"
    with node obtain a where "m_orders m i = Some a" "order_ok val a" by blast
    then show "node_ok val m i"
      by (auto simp: node_ok_def order_ok_def amounts_ok_def nonneg_def split: option.splits)
  qed
  have p: "match_price val ?side (the (m_orders m i)) = (if asks then 1 else - 1) * node_price val m i" if i: "i \<in> set nodes" for i
  proof -
    from node [OF i] obtain a where "m_orders m i = Some a" "order_ok val a" "o_side a = ?side" by blast
    then show ?thesis
      using match_price_of [of val a ?side] by (auto simp: node_price_def)
  qed
  have "sorted_wrt (ahead val (m_orders m) ?side) nodes"
    using book by (simp add: book_ok_def)
  then have "sorted_wrt (\<lambda>i j. (if asks then 1 else - 1) * node_price val m i \<le> (if asks then 1 else - 1) * node_price val m j) nodes"
    by (rule sorted_wrt_mono_rel [rotated]) (auto simp: ahead_def Let_def p simp del: minus_mult_left)
  then show "sorted (map (\<lambda>i. (if asks then 1 else - 1) * node_price val m i) nodes)"
    by (simp only: sorted_map)
qed

text \<open>C27. The depth of a market: one level for each of the best prices of a side, in the order of the
  book, at most \<open>limit\<close> of them, and with each price the exact sum of what is left of all the side's
  orders at it - provided all that is left on the side fits into the 34 digits of the context.\<close>

theorem depth_levels_ok:
  assumes "mpd_laws D val" "market_ok val m" "lefts_fit val m 0 (m_asks m)" "lefts_fit val m 0 (m_bids m)"
  shows "\<exists>asks bids. get_depth D m limit = depth_json D asks bids
    \<and> map (\<lambda>(p, a). (amount_val val p, amount_val val a)) asks = take limit (price_levels val m (m_asks m))
    \<and> map (\<lambda>(p, a). (amount_val val p, amount_val val a)) bids = take limit (price_levels val m (m_bids m))"
proof -
  note asks = book_depth [OF assms(2), of "m_asks m" True] and bids = book_depth [OF assms(2), of "m_bids m" False]
  show ?thesis
    unfolding get_depth_def Let_def
    using depth_levels_sum [OF assms(1) _ asks(2,1) assms(3)] depth_levels_sum [OF assms(1) _ bids(2,1) assms(4)]
    by (intro exI conjI refl) simp_all
qed

theorem depth_levels_ok_witness:
  "\<exists>asks bids. get_depth dec_lib ex_market 1 = depth_json dec_lib asks bids
    \<and> map (\<lambda>(p, a). (amount_val dec_val p, amount_val dec_val a)) asks = [(12, 2)]
    \<and> map (\<lambda>(p, a). (amount_val dec_val p, amount_val dec_val a)) bids = [(10, 3)]"
proof -
  have "lefts_fit dec_val ex_market 0 (m_asks ex_market)" "lefts_fit dec_val ex_market 0 (m_bids ex_market)"
    unfolding lefts_fit_def
    by (rule exI [of _ 0]; simp add: ex_defs node_left_def amount_val_def)+
  from depth_levels_ok [OF dec_lib_laws ex_market_ok this, of 1] show ?thesis
    by (simp add: price_levels_def node_price_def node_left_def ex_defs amount_val_def price_of_def)
qed

end
