(* ===== verification/Dict.thy ===== *)
theory Dict
  imports Pack
begin

text \<open>
  \<open>utils/ut_dict.c\<close>: a hash table with chained entries, as the code has it: an array of chains, the
  counters \<open>used\<close> and \<open>id_start\<close>, and the mark \<open>id_clear\<close> below which entries count as removed. A
  chain of \<open>next\<close> pointers is the list of its entries. Memory never runs out; keys and values are
  values, so that \<open>key_dup\<close> and the destructors have nothing to do. A function that may loop forever
  (\<open>dict_next_power\<close> for more than \<open>2 ^ 31\<close> slots) returns an option.

  The contract of the comparison function is the locale \<open>dict_keys\<close> of \<open>Dict_Facts\<close>.
\<close>

section \<open>Data\<close>

record ('k, 'v) dict_entry =
  de_key :: 'k
  de_val :: 'v
  de_id :: u64

record 'k dict_types =
  hash_function :: "'k \<Rightarrow> u32"
  key_compare :: "'k \<Rightarrow> 'k \<Rightarrow> int"

record ('k, 'v) dict_t =
  dt_table :: "('k, 'v) dict_entry list list"
  dt_type :: "'k dict_types"
  dt_size :: u32
  dt_mask :: u32
  dt_used :: u32
  dt_id_start :: u64
  dt_id_clear :: u64

text \<open>The generic hash function of the keys, on the bytes of a key.\<close>

definition dict_generic_hash_function :: "byte list \<Rightarrow> u32" where
  "dict_generic_hash_function data =
     foldl (\<lambda>hval b.
       let hval = hval XOR ucast b in
       hval + (push_bit 1 hval + push_bit 4 hval + push_bit 7 hval + push_bit 8 hval + push_bit 24 hval))
     0x811c9dc5 data"

section \<open>Creation and growth\<close>

partial_function (option) next_power_loop :: "u32 \<Rightarrow> u32 \<Rightarrow> u32 option" where
  "next_power_loop realsize want = (if realsize \<ge> want then Some realsize else next_power_loop (realsize * 2) want)"

definition dict_next_power :: "u32 \<Rightarrow> u32 option" where
  "dict_next_power want = next_power_loop 4 want"

definition dict_create :: "'k dict_types \<Rightarrow> u32 \<Rightarrow> ('k, 'v) dict_t option" where
  "dict_create type init_size =
     (case dict_next_power init_size of
        None \<Rightarrow> None
      | Some want \<Rightarrow> Some \<lparr> dt_table = replicate (unat want) [], dt_type = type, dt_size = want, dt_mask = want - 1,
          dt_used = 0, dt_id_start = 0, dt_id_clear = 0 \<rparr>)"

definition key_index :: "'k dict_types \<Rightarrow> u32 \<Rightarrow> 'k \<Rightarrow> nat" where
  "key_index type msk key = unat (hash_function type key AND msk)"

abbreviation dict_index :: "('k, 'v) dict_t \<Rightarrow> 'k \<Rightarrow> nat" where
  "dict_index dt \<equiv> key_index (dt_type dt) (dt_mask dt)"

text \<open>An entry is moved to the head of its new chain; the loop over the old table stops when all are moved.\<close>

definition place_entry :: "'k dict_types \<Rightarrow> u32 \<Rightarrow> ('k, 'v) dict_entry
    \<Rightarrow> ('k, 'v) dict_entry list list \<Rightarrow> ('k, 'v) dict_entry list list" where
  "place_entry type msk entry table =
     (let index = key_index type msk (de_key entry) in table[index := entry # table ! index])"

fun expand_rows :: "'k dict_types \<Rightarrow> u32 \<Rightarrow> ('k, 'v) dict_entry list list \<Rightarrow> u32
    \<Rightarrow> ('k, 'v) dict_entry list list \<Rightarrow> ('k, 'v) dict_entry list list" where
  "expand_rows type msk [] used table = table"
| "expand_rows type msk (chain # rows) used table =
     (if used = 0 then table
      else expand_rows type msk rows (used - of_nat (length chain)) (fold (place_entry type msk) chain table))"

definition dict_expand :: "('k, 'v) dict_t \<Rightarrow> u32 \<Rightarrow> (int \<times> ('k, 'v) dict_t) option" where
  "dict_expand dt want =
     (case dict_next_power want of
        None \<Rightarrow> None
      | Some want \<Rightarrow>
          let msk = want - 1 in
          Some (0, dt\<lparr>dt_size := want, dt_mask := msk,
            dt_table := expand_rows (dt_type dt) msk (dt_table dt) (dt_used dt) (replicate (unat want) [])\<rparr>))"

definition dict_expand_if_needed :: "('k, 'v) dict_t \<Rightarrow> (int \<times> ('k, 'v) dict_t) option" where
  "dict_expand_if_needed dt =
     (if dt_used dt \<ge> dt_size dt * 4 then dict_expand dt (dt_size dt * 4) else Some (0, dt))"

section \<open>Operations\<close>

definition check_clear :: "('k, 'v) dict_t \<Rightarrow> nat \<Rightarrow> ('k, 'v) dict_t" where
  "check_clear dt index =
     (let chain = dt_table dt ! index;
          kept = filter (\<lambda>entry. \<not> de_id entry < dt_id_clear dt) chain in
      dt\<lparr>dt_table := (dt_table dt)[index := kept],
         dt_used := dt_used dt - of_nat (length chain - length kept)\<rparr>)"

definition dict_find :: "('k, 'v) dict_t \<Rightarrow> 'k \<Rightarrow> ('k, 'v) dict_entry option \<times> ('k, 'v) dict_t" where
  "dict_find dt key =
     (let index = dict_index dt key;
          dt = (if dt_id_clear dt > 0 then check_clear dt index else dt) in
      (find (\<lambda>entry. key_compare (dt_type dt) key (de_key entry) = 0) (dt_table dt ! index), dt))"

definition dict_add :: "('k, 'v) dict_t \<Rightarrow> 'k \<Rightarrow> 'v \<Rightarrow> (('k, 'v) dict_entry option \<times> ('k, 'v) dict_t) option" where
  "dict_add dt key val =
     (case dict_find dt key of
        (Some _, dt) \<Rightarrow> Some (None, dt)
      | (None, dt) \<Rightarrow>
          (case dict_expand_if_needed dt of
             None \<Rightarrow> None
           | Some (ret, dt) \<Rightarrow>
               if ret \<noteq> 0 then Some (None, dt)
               else
                 let index = dict_index dt key;
                     entry = \<lparr> de_key = key, de_val = val, de_id = dt_id_start dt \<rparr> in
                 Some (Some entry, dt\<lparr>dt_id_start := dt_id_start dt + 1,
                   dt_table := (dt_table dt)[index := entry # dt_table dt ! index],
                   dt_used := dt_used dt + 1\<rparr>)))"

text \<open>\<open>dict_find\<close> returns a pointer: the value is overwritten in the chain, at the first entry with the key.\<close>

fun chain_set :: "('e \<Rightarrow> bool) \<Rightarrow> ('e \<Rightarrow> 'e) \<Rightarrow> 'e list \<Rightarrow> 'e list" where
  "chain_set p f [] = []"
| "chain_set p f (e # es) = (if p e then f e # es else e # chain_set p f es)"

definition dict_replace :: "('k, 'v) dict_t \<Rightarrow> 'k \<Rightarrow> 'v \<Rightarrow> (int \<times> ('k, 'v) dict_t) option" where
  "dict_replace dt key val =
     (case dict_find dt key of
        (None, dt) \<Rightarrow>
          (case dict_add dt key val of
             None \<Rightarrow> None
           | Some (None, dt) \<Rightarrow> Some (- 1, dt)
           | Some (Some _, dt) \<Rightarrow> Some (1, dt))
      | (Some _, dt) \<Rightarrow>
          let index = dict_index dt key;
              chain = chain_set (\<lambda>entry. key_compare (dt_type dt) key (de_key entry) = 0) (de_val_update (\<lambda>_. val))
                (dt_table dt ! index) in
          Some (0, dt\<lparr>dt_table := (dt_table dt)[index := chain]\<rparr>))"

fun chain_remove :: "('e \<Rightarrow> bool) \<Rightarrow> 'e list \<Rightarrow> 'e list option" where
  "chain_remove p [] = None"
| "chain_remove p (e # es) = (if p e then Some es else map_option (Cons e) (chain_remove p es))"

definition dict_delete :: "('k, 'v) dict_t \<Rightarrow> 'k \<Rightarrow> int \<times> ('k, 'v) dict_t" where
  "dict_delete dt key =
     (let index = dict_index dt key in
      case chain_remove (\<lambda>entry. key_compare (dt_type dt) (de_key entry) key = 0) (dt_table dt ! index) of
        None \<Rightarrow> (0, dt)
      | Some chain \<Rightarrow> (1, dt\<lparr>dt_table := (dt_table dt)[index := chain], dt_used := dt_used dt - 1\<rparr>))"

definition dict_mark_clear :: "('k, 'v) dict_t \<Rightarrow> ('k, 'v) dict_t" where
  "dict_mark_clear dt = dt\<lparr>dt_id_clear := dt_id_start dt, dt_id_start := dt_id_start dt + 1\<rparr>"

text \<open>
  An iterator has the row it is in and the rest of that row behind the entry it returned last
  (the pointer \<open>next_entry\<close>); in the beginning it stands before the first row.
\<close>

record ('k, 'v) dict_iterator =
  it_index :: int
  it_next :: "('k, 'v) dict_entry list"

definition dict_get_iterator :: "('k, 'v) dict_iterator" where
  "dict_get_iterator = \<lparr> it_index = - 1, it_next = [] \<rparr>"

function dict_next :: "('k, 'v) dict_t \<Rightarrow> ('k, 'v) dict_iterator \<Rightarrow> ('k, 'v) dict_entry option \<times> ('k, 'v) dict_iterator" where
  "dict_next dt iter =
     (case it_next iter of
        entry # rest \<Rightarrow> (Some entry, iter\<lparr>it_next := rest\<rparr>)
      | [] \<Rightarrow>
          let index = it_index iter + 1; iter = iter\<lparr>it_index := index\<rparr> in
          if index \<ge> uint (dt_size dt) then (None, iter)
          else dict_next dt (iter\<lparr>it_next := dt_table dt ! nat index\<rparr>))"
  by pat_completeness auto
termination
  by (relation "measure (\<lambda>(dt, iter). 2 * nat (uint (dt_size dt) - it_index iter) + (if it_next iter = [] then 1 else 0))") auto

declare dict_next.simps [simp del]

text \<open>Every entry the iterator returns is deleted, until there is none.\<close>

partial_function (option) clear_loop :: "('k, 'v) dict_t \<Rightarrow> ('k, 'v) dict_iterator \<Rightarrow> ('k, 'v) dict_t option" where
  "clear_loop dt iter =
     (case dict_next dt iter of
        (None, iter) \<Rightarrow> Some dt
      | (Some entry, iter) \<Rightarrow> clear_loop (snd (dict_delete dt (de_key entry))) iter)"

definition dict_clear :: "('k, 'v) dict_t \<Rightarrow> ('k, 'v) dict_t option" where
  "dict_clear dt = clear_loop dt dict_get_iterator"

text \<open>The entries \<open>dict_release\<close> frees, before the table and the dictionary itself.\<close>

definition dict_release :: "('k, 'v) dict_t \<Rightarrow> ('k, 'v) dict_entry list" where
  "dict_release dt = (if dt_used dt > 0 then concat (dt_table dt) else [])"

section \<open>The keys of the engine\<close>

text \<open>Users and orders of a market (\<open>me_market.c\<close>): the compare functions only tell equal from different.\<close>

definition dict_user_hash_function :: "u32 \<Rightarrow> u32" where
  "dict_user_hash_function user_id = user_id"

definition dict_user_key_compare :: "u32 \<Rightarrow> u32 \<Rightarrow> int" where
  "dict_user_key_compare user_id1 user_id2 = (if user_id1 = user_id2 then 0 else 1)"

definition dict_order_hash_function :: "u64 \<Rightarrow> u32" where
  "dict_order_hash_function order_id = dict_generic_hash_function (le_bytes 8 order_id)"

definition dict_order_key_compare :: "u64 \<Rightarrow> u64 \<Rightarrow> int" where
  "dict_order_key_compare order_id1 order_id2 = (if order_id1 = order_id2 then 0 else 1)"

text \<open>Names of assets and markets (\<open>me_balance.c\<close>, \<open>me_trade.c\<close>), compared with \<open>strcmp\<close> of
  the C library, of whose result only the sign is specified. A string has no \<open>NUL\<close> in it.\<close>

fun strcmp :: "string \<Rightarrow> string \<Rightarrow> int" where
  "strcmp [] [] = 0"
| "strcmp [] (d # ds) = - 1"
| "strcmp (c # cs) [] = 1"
| "strcmp (c # cs) (d # ds) = (if c = d then strcmp cs ds else if (of_char c :: nat) < of_char d then - 1 else 1)"

definition asset_dict_hash_function :: "string \<Rightarrow> u32" where
  "asset_dict_hash_function key = dict_generic_hash_function (map of_char key)"

definition market_dict_hash_function :: "string \<Rightarrow> u32" where
  "market_dict_hash_function key = dict_generic_hash_function (map of_char key)"

definition user_dict_types :: "u32 dict_types" where
  "user_dict_types = \<lparr> hash_function = dict_user_hash_function, key_compare = dict_user_key_compare \<rparr>"

definition order_dict_types :: "u64 dict_types" where
  "order_dict_types = \<lparr> hash_function = dict_order_hash_function, key_compare = dict_order_key_compare \<rparr>"

definition asset_dict_types :: "string dict_types" where
  "asset_dict_types = \<lparr> hash_function = asset_dict_hash_function, key_compare = strcmp \<rparr>"

definition market_dict_types :: "string dict_types" where
  "market_dict_types = \<lparr> hash_function = market_dict_hash_function, key_compare = strcmp \<rparr>"

section \<open>Sequences of operations\<close>

datatype ('k, 'v) dict_op = Find 'k | Add 'k 'v | Replace 'k 'v | Delete 'k | MarkClear | Clear

text \<open>What a caller learns: \<open>dict_delete\<close> also reports the deletion of an entry that was already cleared,
  so that its result is left out.\<close>

datatype 'v dict_out = Found "'v option" | Added bool | Replaced int | NoResult

definition dict_do :: "('k, 'v) dict_op \<Rightarrow> ('k, 'v) dict_t \<Rightarrow> ('v dict_out \<times> ('k, 'v) dict_t) option" where
  "dict_do op dt = (case op of
     Find k \<Rightarrow> (case dict_find dt k of (r, dt) \<Rightarrow> Some (Found (map_option de_val r), dt))
   | Add k v \<Rightarrow> map_option (\<lambda>(r, dt). (Added (r \<noteq> None), dt)) (dict_add dt k v)
   | Replace k v \<Rightarrow> map_option (\<lambda>(ret, dt). (Replaced ret, dt)) (dict_replace dt k v)
   | Delete k \<Rightarrow> (case dict_delete dt k of (_, dt) \<Rightarrow> Some (NoResult, dt))
   | MarkClear \<Rightarrow> Some (NoResult, dict_mark_clear dt)
   | Clear \<Rightarrow> map_option (Pair NoResult) (dict_clear dt))"

fun dict_run :: "('k, 'v) dict_op list \<Rightarrow> ('k, 'v) dict_t \<Rightarrow> ('v dict_out list \<times> ('k, 'v) dict_t) option" where
  "dict_run [] dt = Some ([], dt)"
| "dict_run (op # ops) dt =
     (case dict_do op dt of
        None \<Rightarrow> None
      | Some (out, dt) \<Rightarrow> map_option (\<lambda>(outs, dt). (out # outs, dt)) (dict_run ops dt))"

text \<open>The same on a map.\<close>

definition map_do :: "('k, 'v) dict_op \<Rightarrow> ('k \<rightharpoonup> 'v) \<Rightarrow> 'v dict_out \<times> ('k \<rightharpoonup> 'v)" where
  "map_do op m = (case op of
     Find k \<Rightarrow> (Found (m k), m)
   | Add k v \<Rightarrow> (Added (m k = None), if m k = None then m(k \<mapsto> v) else m)
   | Replace k v \<Rightarrow> (Replaced (if m k = None then 1 else 0), m(k \<mapsto> v))
   | Delete k \<Rightarrow> (NoResult, m(k := None))
   | MarkClear \<Rightarrow> (NoResult, Map.empty)
   | Clear \<Rightarrow> (NoResult, Map.empty))"

fun map_run :: "('k, 'v) dict_op list \<Rightarrow> ('k \<rightharpoonup> 'v) \<Rightarrow> 'v dict_out list \<times> ('k \<rightharpoonup> 'v)" where
  "map_run [] m = ([], m)"
| "map_run (op # ops) m = (let (out, m) = map_do op m; (outs, m) = map_run ops m in (out # outs, m))"

end
