(* ===== verification/Dict_Facts.thy ===== *)
theory Dict_Facts
  imports Dict
begin

text \<open>
  The hash table under the map it stands for: the invariant \<open>dict_ok\<close> (every entry in the chain of
  its hash, keys distinct, the counter right), the abstraction \<open>dict_abs\<close>, and one lemma per operation,
  proved in the locale \<open>dict_keys\<close> and interpreted on the key types of the engine.
\<close>

section \<open>Chains\<close>

definition chains_ok :: "'k dict_types \<Rightarrow> u32 \<Rightarrow> ('k, 'v) dict_entry list list \<Rightarrow> bool" where
  "chains_ok type msk table \<longleftrightarrow>
     (\<forall>i < length table. \<forall>e \<in> set (table ! i). key_index type msk (de_key e) = i) \<and> distinct (map de_key (concat table))"

definition dict_ok :: "'k dict_types \<Rightarrow> ('k, 'v) dict_t \<Rightarrow> bool" where
  "dict_ok type dt \<longleftrightarrow> dt_type dt = type \<and> (\<exists>n. 2 \<le> n \<and> n < 32 \<and> dt_size dt = 2 ^ n)
     \<and> dt_mask dt = dt_size dt - 1 \<and> length (dt_table dt) = unat (dt_size dt) \<and> chains_ok type (dt_mask dt) (dt_table dt)
     \<and> length (concat (dt_table dt)) < 2 ^ 32 \<and> dt_used dt = of_nat (length (concat (dt_table dt)))
     \<and> (\<forall>e \<in> set (concat (dt_table dt)). de_id e < dt_id_start dt) \<and> dt_id_clear dt \<le> dt_id_start dt"

text \<open>What a client sees: the entries that are not marked as cleared.\<close>

definition dict_live :: "('k, 'v) dict_t \<Rightarrow> ('k, 'v) dict_entry list" where
  "dict_live dt = filter (\<lambda>e. \<not> de_id e < dt_id_clear dt) (concat (dt_table dt))"

definition dict_abs :: "('k, 'v) dict_t \<Rightarrow> 'k \<rightharpoonup> 'v" where
  "dict_abs dt = map_of (map (\<lambda>e. (de_key e, de_val e)) (dict_live dt))"

lemma concat_split:
  assumes "i < length t"
  obtains A B where "concat t = A @ t ! i @ B" "\<And>xs. concat (t[i := xs]) = A @ xs @ B"
proof (rule that)
  have "t = take i t @ t ! i # drop (Suc i) t"
    using assms by (rule id_take_nth_drop)
  then have "concat t = concat (take i t @ t ! i # drop (Suc i) t)" by simp
  then show "concat t = concat (take i t) @ t ! i @ concat (drop (Suc i) t)" by simp
  show "\<And>xs. concat (t[i := xs]) = concat (take i t) @ xs @ concat (drop (Suc i) t)"
    using assms by (simp add: upd_conv_take_nth_drop)
qed

lemma mem_concat: "e \<in> set (concat t) \<longleftrightarrow> (\<exists>i < length t. e \<in> set (t ! i))"
proof -
  have "e \<in> set (concat t) \<longleftrightarrow> (\<exists>c \<in> set t. e \<in> set c)" by simp
  then show ?thesis by (metis in_set_conv_nth)
qed

lemma chains_okD:
  assumes "chains_ok type msk table" "e \<in> set (concat table)"
  shows "e \<in> set (table ! key_index type msk (de_key e))" "key_index type msk (de_key e) < length table"
  using assms by (auto simp: chains_ok_def mem_concat simp del: set_concat)

lemma chains_ok_update:
  assumes "chains_ok type msk table" "i < length table" "\<forall>e \<in> set xs. key_index type msk (de_key e) = i"
    and "distinct (map de_key xs)"
    and "\<And>k. k \<in> de_key ` set xs \<Longrightarrow> k \<in> de_key ` set (table ! i) \<or> k \<notin> de_key ` set (concat table)"
  shows "chains_ok type msk (table[i := xs])"
proof -
  from concat_split [OF assms(2)] obtain A B where AB: "concat table = A @ table ! i @ B" "\<And>xs. concat (table[i := xs]) = A @ xs @ B"
    by blast
  have d: "distinct (map de_key (A @ table ! i @ B))"
    using assms(1) AB(1) by (simp add: chains_ok_def)
  have "k \<notin> de_key ` (set A \<union> set B)" if "k \<in> de_key ` set xs" for k
    using assms(5) [OF that] d AB(1) by auto
  then have "distinct (map de_key (A @ xs @ B))"
    using d assms(4) by auto
  with AB(2) have "distinct (map de_key (concat (table[i := xs])))"
    by (simp only:)
  with assms(1-3) show ?thesis
    unfolding chains_ok_def by (auto simp: nth_list_update simp del: distinct_concat)
qed

lemma chain_subset: "i < length t \<Longrightarrow> set (t ! i) \<subseteq> set (concat t)"
  by (auto simp: mem_concat simp del: set_concat)

lemma find_key:
  assumes "distinct (map de_key es)"
  shows "find (\<lambda>e. de_key e = k) es = Some e \<longleftrightarrow> e \<in> set es \<and> de_key e = k"
  using assms by (induction es) auto

lemma find_none: "find (\<lambda>e. de_key e = k) es = None \<longleftrightarrow> k \<notin> de_key ` set es"
  by (auto simp: find_None_iff)

lemma abs_iff:
  assumes "distinct (map de_key (concat (dt_table dt)))"
  shows "dict_abs dt k = Some v \<longleftrightarrow> (\<exists>e \<in> set (dict_live dt). de_key e = k \<and> de_val e = v)"
proof -
  have "distinct (map fst (map (\<lambda>e. (de_key e, de_val e)) (dict_live dt)))"
    using assms by (simp add: dict_live_def o_def distinct_map_filter)
  then show ?thesis
    by (auto simp: dict_abs_def)
qed

lemma mem_live: "e \<in> set (dict_live dt) \<longleftrightarrow> e \<in> set (concat (dt_table dt)) \<and> \<not> de_id e < dt_id_clear dt"
  by (simp add: dict_live_def)

lemma dict_ok_distinct: "dict_ok type dt \<Longrightarrow> distinct (map de_key (concat (dt_table dt)))"
  by (simp add: dict_ok_def chains_ok_def)

lemma option_eqI: "(\<And>v. a = Some v \<longleftrightarrow> b = Some v) \<Longrightarrow> a = b"
  by (metis not_None_eq)

lemma key_index_bound:
  assumes "dt_mask dt = dt_size dt - 1" "dt_size dt \<noteq> 0"
  shows "dict_index dt k < unat (dt_size dt)"
proof -
  have "unat (hash_function (dt_type dt) k AND dt_mask dt) \<le> unat (dt_mask dt)"
    by (simp add: word_and_le1 flip: word_le_nat_alt)
  also have "\<dots> < unat (dt_size dt)"
    using assms by (simp add: unat_minus_one unat_gt_0)
  finally show ?thesis by (simp add: key_index_def)
qed


section \<open>Growth\<close>

lemma next_power_loop_ok:
  assumes "want \<le> 2 ^ 31" "n \<le> 29"
  shows "\<exists>k. 2 \<le> k \<and> k < 32 \<and> next_power_loop (2 ^ (31 - n)) want = Some (2 ^ k)"
  using assms(2)
proof (induction n)
  case 0
  have "next_power_loop (2 ^ 31) want = Some (2 ^ 31)"
    using assms(1) by (subst next_power_loop.simps) simp
  then show ?case by (intro exI [of _ 31]) simp
next
  case (Suc n)
  then have e: "31 - n = Suc (31 - Suc n)" by simp
  have "(2 :: u32) ^ (31 - n) = 2 ^ (31 - Suc n) * 2"
    unfolding e by simp
  with Suc obtain k where "2 \<le> k" "k < 32" "next_power_loop (2 ^ (31 - Suc n) * 2) want = Some (2 ^ k)"
    by auto
  then show ?case
    using Suc.prems by (subst next_power_loop.simps) (auto intro: exI [of _ k] exI [of _ "31 - Suc n"])
qed

lemma dict_next_power_ok:
  assumes "want \<le> 2 ^ 31"
  shows "\<exists>k. 2 \<le> k \<and> k < 32 \<and> dict_next_power want = Some (2 ^ k)"
  using next_power_loop_ok [OF assms, of 29] by (simp add: dict_next_power_def)

lemma power_times_4:
  assumes "n < 32"
  shows "(2 ^ n * 4 :: u32) \<le> 2 ^ 31"
proof -
  have "\<forall>n \<in> set [0..<32]. (2 ^ n * 4 :: u32) \<le> 2 ^ 31"
    by code_simp
  with assms show ?thesis by simp
qed

lemma place_entries:
  assumes "\<forall>e \<in> set es. key_index type msk (de_key e) < length table"
  shows "length (fold (place_entry type msk) es table) = length table
    \<and> mset (concat (fold (place_entry type msk) es table)) = mset es + mset (concat table)
    \<and> (\<forall>i < length table. set (fold (place_entry type msk) es table ! i)
       = set (table ! i) \<union> {e \<in> set es. key_index type msk (de_key e) = i})"
  using assms
proof (induction es arbitrary: table)
  case (Cons e es)
  let ?i = "key_index type msk (de_key e)" and ?t = "place_entry type msk e table"
  have i: "?i < length table" using Cons.prems by simp
  from concat_split [OF i] obtain A B where AB: "concat table = A @ table ! ?i @ B" "\<And>xs. concat (table[?i := xs]) = A @ xs @ B"
    by blast
  then have m: "mset (concat ?t) = {#e#} + mset (concat table)"
    by (simp add: place_entry_def Let_def del: mset_concat)
  have l: "length ?t = length table"
    by (simp add: place_entry_def Let_def)
  have s: "j < length table \<Longrightarrow> set (?t ! j) = set (table ! j) \<union> (if ?i = j then {e} else {})" for j
    by (simp add: place_entry_def Let_def nth_list_update)
  have "\<forall>e \<in> set es. key_index type msk (de_key e) < length ?t"
    using Cons.prems l by simp
  from Cons.IH [OF this] show ?case
    using l m s by (auto simp del: mset_concat)
qed simp

lemma expand_rows_fold:
  assumes "used = of_nat (length (concat rows))" "length (concat rows) < 2 ^ 32"
  shows "expand_rows type msk rows used table = fold (place_entry type msk) (concat rows) table"
  using assms
proof (induction rows arbitrary: used table)
  case (Cons chain rows)
  show ?case
  proof (cases "used = 0")
    case True
    then have "length (concat (chain # rows)) = 0"
      using Cons.prems by (simp only: of_nat_eq_0_iff word_of_nat_eq_0_iff) (auto dest: nat_dvd_not_less)
    then have "concat (chain # rows) = []" by (simp only: length_0_conv)
    then have "fold (place_entry type msk) (concat (chain # rows)) table = table"
      by (simp only: fold_simps)
    with True show ?thesis by simp
  next
    case False
    with Cons show ?thesis by simp
  qed
qed simp

lemma distinct_keys_mset: "mset xs = mset ys \<Longrightarrow> distinct (map de_key xs) \<longleftrightarrow> distinct (map de_key ys)"
  by (metis mset_eq_imp_distinct_iff mset_map)

lemma dict_abs_eqI:
  assumes "dict_ok type dt" "dict_ok type dt'" "set (dict_live dt') = set (dict_live dt)"
  shows "dict_abs dt' = dict_abs dt"
  by (rule ext, rule option_eqI)
    (simp add: abs_iff [OF dict_ok_distinct [OF assms(1)]] abs_iff [OF dict_ok_distinct [OF assms(2)]] assms(3))

lemma dict_expand_ok:
  assumes "dict_ok type dt" "want \<le> 2 ^ 31"
  obtains dt' where "dict_expand dt want = Some (0, dt')" "dict_ok type dt'" "dict_abs dt' = dict_abs dt"
    "mset (concat (dt_table dt')) = mset (concat (dt_table dt))"
    "dt_id_start dt' = dt_id_start dt" "dt_id_clear dt' = dt_id_clear dt"
proof -
  obtain k where k: "2 \<le> k" "k < 32" "dict_next_power want = Some (2 ^ k)"
    using dict_next_power_ok [OF assms(2)] by blast
  let ?m = "2 ^ k - 1 :: u32" and ?es = "concat (dt_table dt)"
  let ?empty = "replicate (unat (2 ^ k :: u32)) [] :: ('a, 'b) dict_entry list list"
  define dt' where "dt' = dt\<lparr>dt_size := 2 ^ k, dt_mask := ?m,
    dt_table := fold (place_entry (dt_type dt) ?m) ?es ?empty\<rparr>"
  have exp: "dict_expand dt want = Some (0, dt')"
    using assms(1) k(3) by (simp add: dict_expand_def Let_def dt'_def expand_rows_fold dict_ok_def)
  have pos: "(2 ^ k :: u32) \<noteq> 0" using k(2) by (simp add: word_eq_iff_unsigned)
  have bound: "\<forall>e \<in> set ?es. key_index (dt_type dt) ?m (de_key e) < length ?empty"
    using key_index_bound [of dt'] pos by (simp add: dt'_def)
  note p = conjunct1 [OF place_entries [OF bound]] conjunct1 [OF conjunct2 [OF place_entries [OF bound]]]
    conjunct2 [OF conjunct2 [OF place_entries [OF bound]], rule_format]
  have m: "mset (concat (dt_table dt')) = mset ?es"
    using p(2) by (simp add: dt'_def)
  have "chains_ok type ?m (dt_table dt')"
  proof -
    have "set (dt_table dt' ! i) = {e \<in> set ?es. key_index (dt_type dt) ?m (de_key e) = i}" if "i < length ?empty" for i
      using p(3) [OF that] that by (simp add: dt'_def)
    moreover have "distinct (map de_key (concat (dt_table dt')))"
      using distinct_keys_mset [OF m] dict_ok_distinct [OF assms(1)] by simp
    ultimately show ?thesis
      using assms(1) p(1) by (simp add: chains_ok_def dict_ok_def dt'_def del: set_concat)
  qed
  moreover from m have "length (concat (dt_table dt')) = length ?es" "set (concat (dt_table dt')) = set ?es"
    by (metis size_mset, metis set_mset_mset)
  ultimately have ok: "dict_ok type dt'"
    using assms(1) k p(1) unfolding dict_ok_def by (auto simp: dt'_def simp del: set_concat)
  have abs: "dict_abs dt' = dict_abs dt"
    using \<open>set (concat (dt_table dt')) = set ?es\<close> by (intro dict_abs_eqI [OF assms(1) ok]) (simp add: dict_live_def dt'_def)
  show thesis
    by (rule that [OF exp ok abs m]) (simp_all add: dt'_def)
qed

section \<open>Changing one chain\<close>

lemma dict_ok_chain:
  assumes "dict_ok type dt" "i < length (dt_table dt)" "\<forall>e \<in> set xs. dict_index dt (de_key e) = i" "distinct (map de_key xs)"
    and "\<And>k. k \<in> de_key ` set xs \<Longrightarrow> k \<in> de_key ` set (dt_table dt ! i) \<or> k \<notin> de_key ` set (concat (dt_table dt))"
    and "\<forall>e \<in> set xs. de_id e < dt_id_start dt'" "dt_id_start dt \<le> dt_id_start dt'" "dt_id_clear dt' \<le> dt_id_start dt'"
    and "length (concat (dt_table dt)) + length xs < 2 ^ 32 + length (dt_table dt ! i)"
    and "dt_table dt' = (dt_table dt)[i := xs]" "dt_type dt' = dt_type dt" "dt_size dt' = dt_size dt" "dt_mask dt' = dt_mask dt"
    and "dt_used dt' = dt_used dt + of_nat (length xs) - of_nat (length (dt_table dt ! i))"
  shows "dict_ok type dt'"
proof -
  from concat_split [OF assms(2)] obtain A B where AB: "concat (dt_table dt) = A @ dt_table dt ! i @ B"
      "\<And>xs. concat ((dt_table dt)[i := xs]) = A @ xs @ B"
    by blast
  have "chains_ok type (dt_mask dt) ((dt_table dt)[i := xs])"
    using assms(1-5) by (intro chains_ok_update) (auto simp: dict_ok_def simp del: set_concat)
  moreover have "length (concat (dt_table dt')) < 2 ^ 32" "dt_used dt' = of_nat (length (concat (dt_table dt')))"
    using assms(1,9,10,14) AB by (simp_all add: dict_ok_def)
  moreover have "\<forall>e \<in> set (concat (dt_table dt')). de_id e < dt_id_start dt'"
  proof
    fix e assume "e \<in> set (concat (dt_table dt'))"
    then have "e \<in> set xs \<or> e \<in> set (concat (dt_table dt))"
      using assms(10) AB by auto
    then show "de_id e < dt_id_start dt'"
      using assms(1,6,7) less_le_trans [of "de_id e"] by (auto simp: dict_ok_def simp del: set_concat)
  qed
  ultimately show ?thesis
    using assms(1,8,10-13) unfolding dict_ok_def by (simp del: set_concat)
qed

lemma live_chain:
  assumes "i < length (dt_table dt)" "dt_table dt' = (dt_table dt)[i := xs]" "dt_id_clear dt' = dt_id_clear dt"
    and "distinct (map de_key (concat (dt_table dt)))"
  shows "set (dict_live dt') = {e \<in> set (dict_live dt). e \<notin> set (dt_table dt ! i)} \<union> {e \<in> set xs. \<not> de_id e < dt_id_clear dt}"
proof -
  from concat_split [OF assms(1)] obtain A B where AB: "concat (dt_table dt) = A @ dt_table dt ! i @ B"
      "\<And>xs. concat ((dt_table dt)[i := xs]) = A @ xs @ B"
    by blast
  have "set A \<inter> set (dt_table dt ! i) = {}" "set B \<inter> set (dt_table dt ! i) = {}"
    using assms(4) AB(1) by auto
  then show ?thesis
    using assms(2,3) AB by (auto simp: dict_live_def)
qed

lemma dict_index_bound: "dict_ok type dt \<Longrightarrow> dict_index dt k < length (dt_table dt)"
proof -
  assume ok: "dict_ok type dt"
  then obtain n where "dt_size dt = 2 ^ n" "n < 32" by (auto simp: dict_ok_def)
  then have "dt_size dt \<noteq> 0" by (simp add: word_eq_iff_unsigned)
  with ok show ?thesis
    using key_index_bound [of dt k] by (simp add: dict_ok_def)
qed

lemma dict_ok_index: "dict_ok type dt \<Longrightarrow> i < length (dt_table dt) \<Longrightarrow> e \<in> set (dt_table dt ! i) \<Longrightarrow> dict_index dt (de_key e) = i"
  by (auto simp: dict_ok_def chains_ok_def)

lemma dict_ok_chain_distinct: "dict_ok type dt \<Longrightarrow> i < length (dt_table dt) \<Longrightarrow> distinct (map de_key (dt_table dt ! i))"
  by (rule concat_split [of i "dt_table dt"], assumption) (auto dest: dict_ok_distinct)

lemma dict_ok_key:
  assumes "dict_ok type dt"
  shows "e \<in> set (concat (dt_table dt)) \<and> de_key e = k \<longleftrightarrow> e \<in> set (dt_table dt ! dict_index dt k) \<and> de_key e = k"
  using assms dict_index_bound [OF assms, of k] dict_ok_index [OF assms] by (auto simp: mem_concat simp del: set_concat)

lemma dict_okD:
  assumes "dict_ok type dt"
  shows "dt_type dt = type" "length (concat (dt_table dt)) < 2 ^ 32" "dt_used dt = of_nat (length (concat (dt_table dt)))"
    "dt_id_clear dt \<le> dt_id_start dt" "e \<in> set (concat (dt_table dt)) \<Longrightarrow> de_id e < dt_id_start dt"
    "i < length (dt_table dt) \<Longrightarrow> e \<in> set (dt_table dt ! i) \<Longrightarrow> de_id e < dt_id_start dt"
  using assms by (auto simp: dict_ok_def mem_concat simp del: set_concat)

lemma check_clear_fields [simp]:
  "dt_type (check_clear dt i) = dt_type dt" "dt_size (check_clear dt i) = dt_size dt" "dt_mask (check_clear dt i) = dt_mask dt"
  "dt_id_start (check_clear dt i) = dt_id_start dt" "dt_id_clear (check_clear dt i) = dt_id_clear dt"
  "dt_table (check_clear dt i) = (dt_table dt)[i := filter (\<lambda>e. \<not> de_id e < dt_id_clear dt) (dt_table dt ! i)]"
  by (simp_all add: check_clear_def Let_def)

lemma check_clear_ok:
  assumes "dict_ok type dt" "i < length (dt_table dt)"
  shows "dict_ok type (check_clear dt i)" "dict_abs (check_clear dt i) = dict_abs dt"
    "length (concat (dt_table (check_clear dt i))) \<le> length (concat (dt_table dt))"
proof -
  let ?dt = "check_clear dt i" and ?xs = "filter (\<lambda>e. \<not> de_id e < dt_id_clear dt) (dt_table dt ! i)"
  from concat_split [OF assms(2)] obtain A B where AB: "concat (dt_table dt) = A @ dt_table dt ! i @ B"
      "\<And>xs. concat ((dt_table dt)[i := xs]) = A @ xs @ B"
    by blast
  have le: "length ?xs \<le> length (dt_table dt ! i)"
    by (rule length_filter_le)
  show ok: "dict_ok type ?dt"
  proof (rule dict_ok_chain [OF assms, where xs = ?xs])
    show "dt_used ?dt = dt_used dt + of_nat (length ?xs) - of_nat (length (dt_table dt ! i))"
      using le by (simp add: check_clear_def Let_def of_nat_diff)
    show "\<forall>e \<in> set ?xs. dict_index dt (de_key e) = i"
      using dict_ok_index [OF assms] by simp
    show "distinct (map de_key ?xs)"
      using dict_ok_chain_distinct [OF assms] by (simp add: distinct_map_filter)
    show "\<forall>e \<in> set ?xs. de_id e < dt_id_start ?dt"
      using dict_okD(6) [OF assms] by simp
    show "length (concat (dt_table dt)) + length ?xs < 2 ^ 32 + length (dt_table dt ! i)"
      using dict_okD(2) [OF assms(1)] le by linarith
  qed (use dict_okD(4) [OF assms(1)] in auto)
  have "set (dict_live ?dt) = {e \<in> set (dict_live dt). e \<notin> set (dt_table dt ! i)} \<union> {e \<in> set ?xs. \<not> de_id e < dt_id_clear dt}"
    by (rule live_chain [OF assms(2) _ _ dict_ok_distinct [OF assms(1)]]) simp_all
  moreover have "\<dots> = set (dict_live dt)"
    using assms(2) by (auto simp: mem_live mem_concat simp del: set_concat)
  ultimately show "dict_abs ?dt = dict_abs dt"
    by (intro dict_abs_eqI [OF assms(1) ok]) simp
  show "length (concat (dt_table ?dt)) \<le> length (concat (dt_table dt))"
    using le by (simp add: AB del: length_concat)
qed

text \<open>Room for \<open>n\<close> more operations: the counters of 32 and 64 bits do not wrap.\<close>

definition dict_room :: "('k, 'v) dict_t \<Rightarrow> nat \<Rightarrow> bool" where
  "dict_room dt n \<longleftrightarrow> length (concat (dt_table dt)) + n < 2 ^ 32 \<and> unat (dt_id_start dt) + n < 2 ^ 64"

lemma chain_set_keys: "(\<And>e. de_key (f e) = de_key e) \<Longrightarrow> map de_key (chain_set p f es) = map de_key es"
  by (induction es) auto

lemma chain_set_mem:
  assumes "distinct (map de_key es)" "e \<in> set es"
  shows "set (chain_set (\<lambda>e'. de_key e' = de_key e) f es) = insert (f e) (set es - {e})"
  using assms by (induction es) auto

lemma filter_keys: "k \<notin> de_key ` set es \<Longrightarrow> filter (\<lambda>e. de_key e \<noteq> k) es = es"
  by (induction es) auto

lemma chain_remove_mem:
  assumes "distinct (map de_key es)"
  shows "case chain_remove (\<lambda>e. de_key e = k) es of
      None \<Rightarrow> k \<notin> de_key ` set es
    | Some es' \<Rightarrow> set es' = {e \<in> set es. de_key e \<noteq> k} \<and> k \<in> de_key ` set es \<and> distinct (map de_key es') \<and> Suc (length es') = length es"
  using assms by (induction es) (auto simp: image_iff split: option.splits)

section \<open>Iteration\<close>

text \<open>The iterator stands in row \<open>it_index\<close>: what is left of it is \<open>it_next\<close>, the rows before it are empty.\<close>

definition cleared_up_to :: "('k, 'v) dict_t \<Rightarrow> ('k, 'v) dict_iterator \<Rightarrow> bool" where
  "cleared_up_to dt iter \<longleftrightarrow> - 1 \<le> it_index iter \<and> it_index iter < int (length (dt_table dt))
     \<and> (\<forall>j < nat (it_index iter). dt_table dt ! j = [])
     \<and> it_next iter = (if it_index iter = - 1 then [] else dt_table dt ! nat (it_index iter))"

lemma dict_next_cleared:
  assumes "cleared_up_to dt iter" "length (dt_table dt) = unat (dt_size dt)"
  shows "case dict_next dt iter of
      (None, _) \<Rightarrow> concat (dt_table dt) = []
    | (Some e, iter') \<Rightarrow> 0 \<le> it_index iter' \<and> it_index iter' < int (length (dt_table dt))
        \<and> (\<forall>j < nat (it_index iter'). dt_table dt ! j = []) \<and> dt_table dt ! nat (it_index iter') = e # it_next iter'"
  using assms
proof (induction dt iter rule: dict_next.induct)
  case (1 dt iter)
  show ?case
  proof (cases "it_next iter")
    case (Cons e es)
    then have "dict_next dt iter = (Some e, iter\<lparr>it_next := es\<rparr>)"
      by (subst dict_next.simps) simp
    moreover have "it_index iter \<noteq> - 1" "dt_table dt ! nat (it_index iter) = e # es"
      using "1.prems"(1) Cons by (auto simp: cleared_up_to_def split: if_splits)
    ultimately show ?thesis
      using "1.prems"(1) by (simp add: cleared_up_to_def)
  next
    case Nil
    let ?i = "it_index iter + 1"
    have empty: "\<forall>j < nat ?i. dt_table dt ! j = []"
      using "1.prems"(1) Nil by (auto simp: cleared_up_to_def less_Suc_eq nat_add_distrib split: if_splits)
    show ?thesis
    proof (cases "?i \<ge> uint (dt_size dt)")
      case True
      then have "length (dt_table dt) \<le> nat ?i"
        using nat_mono [OF True] "1.prems"(2) by simp
      then have "\<forall>chain \<in> set (dt_table dt). chain = []"
        using empty less_le_trans by (fastforce simp: in_set_conv_nth)
      with True Nil show ?thesis
        by (subst dict_next.simps) (simp add: Let_def)
    next
      case False
      let ?iter = "iter\<lparr>it_index := ?i, it_next := dt_table dt ! nat ?i\<rparr>"
      have "cleared_up_to dt ?iter"
        using False empty "1.prems" Nil by (auto simp: cleared_up_to_def)
      from "1.IH" [OF Nil refl refl False _ "1.prems"(2)] this show ?thesis
        using Nil False by (subst dict_next.simps) (simp add: Let_def)
    qed
  qed
qed

section \<open>The contract of a key type\<close>

locale dict_keys =
  fixes type :: "'k dict_types"
  assumes compare_eq: "key_compare type a b = 0 \<longleftrightarrow> a = b"
begin

lemma find_ok:
  assumes "dict_ok type dt" "dict_find dt k = (r, dt')"
  shows "dict_ok type dt'" "dict_abs dt' = dict_abs dt" "map_option de_val r = dict_abs dt k"
    "dict_room dt n \<Longrightarrow> dict_room dt' n" "r = None \<Longrightarrow> k \<notin> de_key ` set (concat (dt_table dt'))"
    "r = find (\<lambda>e. de_key e = k) (dt_table dt' ! dict_index dt' k)"
    "\<forall>e \<in> set (dt_table dt' ! dict_index dt' k). \<not> de_id e < dt_id_clear dt'"
proof -
  let ?i = "dict_index dt k"
  note i = dict_index_bound [OF assms(1), of k]
  have type: "dt_type dt = type" by (rule dict_okD [OF assms(1)])
  have dt': "dt' = (if dt_id_clear dt > 0 then check_clear dt ?i else dt)"
    using assms(2) by (simp add: dict_find_def Let_def)
  have index: "dict_index dt' k = ?i"
    by (simp add: dt')
  show r: "r = find (\<lambda>e. de_key e = k) (dt_table dt' ! dict_index dt' k)"
    using assms(2) unfolding index dt'
    by (simp add: dict_find_def Let_def type compare_eq eq_commute [of k] split: if_split_asm)
  show ok: "dict_ok type dt'" and abs: "dict_abs dt' = dict_abs dt"
    using check_clear_ok(1,2) [OF assms(1) i] assms(1) by (auto simp: dt')
  show "dict_room dt n \<Longrightarrow> dict_room dt' n"
    using check_clear_ok(3) [OF assms(1) i] unfolding dt' dict_room_def
    by (cases "dt_id_clear dt > 0") (simp_all del: length_concat check_clear_fields(6))
  show live: "\<forall>e \<in> set (dt_table dt' ! dict_index dt' k). \<not> de_id e < dt_id_clear dt'"
    unfolding index using i by (auto simp: dt' word_gt_0)
  show "r = None \<Longrightarrow> k \<notin> de_key ` set (concat (dt_table dt'))"
    using r find_none [of k "dt_table dt' ! dict_index dt' k"] dict_ok_key [OF ok, of _ k] by (auto simp del: set_concat)
  have "dict_abs dt' k = Some v \<longleftrightarrow> map_option de_val r = Some v" for v
  proof -
    have d: "distinct (map de_key (dt_table dt' ! dict_index dt' k))"
      by (rule dict_ok_chain_distinct [OF ok dict_index_bound [OF ok]])
    have "dict_abs dt' k = Some v \<longleftrightarrow> (\<exists>e \<in> set (dt_table dt' ! dict_index dt' k). de_key e = k \<and> de_val e = v)"
      unfolding abs_iff [OF dict_ok_distinct [OF ok]] Bex_def mem_live using dict_ok_key [OF ok, of _ k] live by blast
    also have "\<dots> \<longleftrightarrow> map_option de_val r = Some v"
      unfolding r using find_key [OF d] by auto
    finally show ?thesis .
  qed
  then show "map_option de_val r = dict_abs dt k"
    unfolding abs [symmetric] by (intro option_eqI) simp
qed

lemma expand_if_needed_ok:
  assumes "dict_ok type dt"
  obtains dt' where "dict_expand_if_needed dt = Some (0, dt')" "dict_ok type dt'" "dict_abs dt' = dict_abs dt"
    "mset (concat (dt_table dt')) = mset (concat (dt_table dt))"
    "dt_id_start dt' = dt_id_start dt" "dt_id_clear dt' = dt_id_clear dt"
proof (cases "dt_used dt \<ge> dt_size dt * 4")
  case True
  from assms obtain n where "n < 32" "dt_size dt = 2 ^ n"
    by (auto simp: dict_ok_def)
  then have "dt_size dt * 4 \<le> 2 ^ 31"
    using power_times_4 by simp
  from dict_expand_ok [OF assms this] obtain dt' where dt': "dict_expand dt (dt_size dt * 4) = Some (0, dt')"
    "dict_ok type dt'" "dict_abs dt' = dict_abs dt" "mset (concat (dt_table dt')) = mset (concat (dt_table dt))"
    "dt_id_start dt' = dt_id_start dt" "dt_id_clear dt' = dt_id_clear dt" .
  have "dict_expand_if_needed dt = Some (0, dt')"
    using True dt'(1) by (simp add: dict_expand_if_needed_def)
  from that [OF this dt'(2-)] show thesis .
next
  case False
  then show thesis
    using assms by (intro that [of dt]) (simp_all add: dict_expand_if_needed_def)
qed

lemma add_ok:
  assumes "dict_ok type dt" "dict_room dt (Suc n)"
  obtains r dt' where "dict_add dt k v = Some (r, dt')" "dict_ok type dt'" "dict_room dt' n"
    "r = None \<longleftrightarrow> dict_abs dt k \<noteq> None" "dict_abs dt' = (if dict_abs dt k = None then (dict_abs dt)(k \<mapsto> v) else dict_abs dt)"
proof -
  obtain f dt1 where find: "dict_find dt k = (f, dt1)" by fastforce
  note f = find_ok [OF assms(1) find]
  show thesis
  proof (cases f)
    case (Some e)
    then have "dict_abs dt k \<noteq> None" using f(3) by (metis option.map_disc_iff option.discI)
    then show thesis
      using Some find f(1,2) f(4) [OF assms(2)] by (intro that [of None dt1]) (auto simp: dict_add_def dict_room_def)
  next
    case None
    then have new: "dict_abs dt k = None" using f(3) by simp
    from expand_if_needed_ok [OF f(1)] obtain dt2 where dt2: "dict_expand_if_needed dt1 = Some (0, dt2)" "dict_ok type dt2"
      "dict_abs dt2 = dict_abs dt1" "mset (concat (dt_table dt2)) = mset (concat (dt_table dt1))"
      "dt_id_start dt2 = dt_id_start dt1" "dt_id_clear dt2 = dt_id_clear dt1" .
    let ?i = "dict_index dt2 k" and ?e = "\<lparr> de_key = k, de_val = v, de_id = dt_id_start dt2 \<rparr>"
    define dt3 where "dt3 = dt2\<lparr>dt_id_start := dt_id_start dt2 + 1, dt_table := (dt_table dt2)[?i := ?e # dt_table dt2 ! ?i],
      dt_used := dt_used dt2 + 1\<rparr>"
    have add: "dict_add dt k v = Some (Some ?e, dt3)"
      using find None dt2(1) by (simp add: dict_add_def Let_def dt3_def)
    have len: "length (concat (dt_table dt2)) = length (concat (dt_table dt1))" "set (concat (dt_table dt2)) = set (concat (dt_table dt1))"
      using dt2(4) by (metis size_mset, metis set_mset_mset)
    from f(4) [OF assms(2)] have room: "length (concat (dt_table dt2)) + Suc n < 2 ^ 32" "unat (dt_id_start dt2) + Suc n < 2 ^ 64"
      using len(1) dt2(5) by (simp_all add: dict_room_def)
    then have start: "unat (dt_id_start dt2 + 1) = Suc (unat (dt_id_start dt2))"
      by (simp add: unat_word_ariths)
    then have less: "dt_id_start dt2 < dt_id_start dt2 + 1"
      by (simp add: word_less_nat_alt)
    note i = dict_index_bound [OF dt2(2), of k]
    have fresh: "k \<notin> de_key ` set (concat (dt_table dt2))"
      using f(5) [OF None] len(2) by simp
    have ok: "dict_ok type dt3"
    proof (rule dict_ok_chain [OF dt2(2) i, where xs = "?e # dt_table dt2 ! ?i"])
      show "\<forall>e \<in> set (?e # dt_table dt2 ! ?i). dict_index dt2 (de_key e) = ?i"
        using dict_ok_index [OF dt2(2) i] by simp
      show "distinct (map de_key (?e # dt_table dt2 ! ?i))"
        using dict_ok_chain_distinct [OF dt2(2) i] fresh chain_subset [OF i] by auto
      show "\<And>k'. k' \<in> de_key ` set (?e # dt_table dt2 ! ?i) \<Longrightarrow> k' \<in> de_key ` set (dt_table dt2 ! ?i) \<or> k' \<notin> de_key ` set (concat (dt_table dt2))"
        using fresh by auto
      show "\<forall>e \<in> set (?e # dt_table dt2 ! ?i). de_id e < dt_id_start dt3"
        using dict_okD(6) [OF dt2(2) i] less by (auto simp: dt3_def intro: less_trans)
      show "dt_id_clear dt3 \<le> dt_id_start dt3"
        using dict_okD(4) [OF dt2(2)] less by (simp add: dt3_def)
      show "length (concat (dt_table dt2)) + length (?e # dt_table dt2 ! ?i) < 2 ^ 32 + length (dt_table dt2 ! ?i)"
        using room(1) by (simp del: length_concat)
    qed (use less in \<open>simp_all add: dt3_def\<close>)
    have live: "set (dict_live dt3) = insert ?e (set (dict_live dt2))"
    proof -
      have "set (dict_live dt3) = {e \<in> set (dict_live dt2). e \<notin> set (dt_table dt2 ! ?i)}
          \<union> {e \<in> set (?e # dt_table dt2 ! ?i). \<not> de_id e < dt_id_clear dt2}"
        by (rule live_chain [OF i _ _ dict_ok_distinct [OF dt2(2)]]) (simp_all add: dt3_def)
      also have "\<dots> = insert ?e (set (dict_live dt2))"
        using chain_subset [OF i] dict_okD(4) [OF dt2(2)] by (auto simp: mem_live not_less simp del: set_concat)
      finally show ?thesis .
    qed
    have "dict_abs dt3 = (dict_abs dt2)(k \<mapsto> v)"
    proof
      fix k'
      have "k \<notin> de_key ` set (dict_live dt2)" using fresh by (auto simp: mem_live simp del: set_concat)
      then show "dict_abs dt3 k' = ((dict_abs dt2)(k \<mapsto> v)) k'"
        unfolding fun_upd_apply
        by (intro option_eqI) (auto simp: abs_iff [OF dict_ok_distinct [OF ok]] abs_iff [OF dict_ok_distinct [OF dt2(2)]] live)
    qed
    moreover have "dict_room dt3 n"
    proof -
      from concat_split [OF i] obtain A B where AB: "concat (dt_table dt2) = A @ dt_table dt2 ! ?i @ B"
        "\<And>xs. concat ((dt_table dt2)[?i := xs]) = A @ xs @ B" by blast
      with room start show ?thesis by (simp add: dict_room_def dt3_def)
    qed
    ultimately show thesis
      using add ok new dt2(3) f(2) by (intro that [of "Some ?e" dt3]) simp_all
  qed
qed

lemma replace_ok:
  assumes "dict_ok type dt" "dict_room dt (Suc n)"
  obtains dt' where "dict_replace dt k v = Some (if dict_abs dt k = None then 1 else 0, dt')" "dict_ok type dt'"
    "dict_room dt' n" "dict_abs dt' = (dict_abs dt)(k \<mapsto> v)"
proof -
  obtain f dt1 where find: "dict_find dt k = (f, dt1)" by fastforce
  note f = find_ok [OF assms(1) find]
  show thesis
  proof (cases f)
    case None
    then have new: "dict_abs dt1 k = None" using f(2,3) by simp
    from add_ok [OF f(1) f(4) [OF assms(2)], of k v] obtain r dt2 where "dict_add dt1 k v = Some (r, dt2)" "dict_ok type dt2"
      "dict_room dt2 n" "r = None \<longleftrightarrow> dict_abs dt1 k \<noteq> None"
      "dict_abs dt2 = (if dict_abs dt1 k = None then (dict_abs dt1)(k \<mapsto> v) else dict_abs dt1)" .
    with None new f(2) find show thesis
      by (intro that [of dt2]) (auto simp: dict_replace_def)
  next
    case (Some e)
    let ?i = "dict_index dt1 k" and ?xs = "chain_set (\<lambda>e. de_key e = k) (de_val_update (\<lambda>_. v)) (dt_table dt1 ! dict_index dt1 k)"
    note i = dict_index_bound [OF f(1), of k]
    note d = dict_ok_chain_distinct [OF f(1) i]
    have e: "e \<in> set (dt_table dt1 ! ?i)" "de_key e = k"
      using f(6) Some find_key [OF d] by metis+
    have old: "dict_abs dt k \<noteq> None"
      using f(3) Some by (metis option.map_disc_iff option.discI)
    define dt2 where "dt2 = dt1\<lparr>dt_table := (dt_table dt1)[?i := ?xs]\<rparr>"
    have rep: "dict_replace dt k v = Some (0, dt2)"
      using find Some dict_okD(1) [OF f(1)] by (simp add: dict_replace_def Let_def dt2_def compare_eq eq_commute [of k])
    have keys: "map de_key ?xs = map de_key (dt_table dt1 ! ?i)"
      by (rule chain_set_keys) simp
    then have len: "length ?xs = length (dt_table dt1 ! ?i)"
      by (metis length_map)
    have set: "set ?xs = insert (e\<lparr>de_val := v\<rparr>) (set (dt_table dt1 ! ?i) - {e})"
      using chain_set_mem [OF d e(1), of "de_val_update (\<lambda>_. v)"] e(2) by simp
    have ok: "dict_ok type dt2"
    proof (rule dict_ok_chain [OF f(1) i, where xs = ?xs])
      show "\<forall>e \<in> set ?xs. dict_index dt1 (de_key e) = ?i"
        using dict_ok_index [OF f(1) i] e unfolding set by auto
      show "distinct (map de_key ?xs)"
        using d keys by simp
      show "\<And>k'. k' \<in> de_key ` set ?xs \<Longrightarrow> k' \<in> de_key ` set (dt_table dt1 ! ?i) \<or> k' \<notin> de_key ` set (concat (dt_table dt1))"
        using keys by (metis list.set_map)
      show "\<forall>e \<in> set ?xs. de_id e < dt_id_start dt2"
        using dict_okD(6) [OF f(1) i] e(1) unfolding set by (auto simp: dt2_def)
      show "length (concat (dt_table dt1)) + length ?xs < 2 ^ 32 + length (dt_table dt1 ! ?i)"
        using dict_okD(2) [OF f(1)] len by linarith
    qed (use dict_okD(4) [OF f(1)] len in \<open>simp_all add: dt2_def\<close>)
    have live: "set (dict_live dt2) = insert (e\<lparr>de_val := v\<rparr>) (set (dict_live dt1) - {e})"
    proof -
      have "set (dict_live dt2) = {e \<in> set (dict_live dt1). e \<notin> set (dt_table dt1 ! ?i)}
          \<union> {e \<in> set ?xs. \<not> de_id e < dt_id_clear dt1}"
        by (rule live_chain [OF i _ _ dict_ok_distinct [OF f(1)]]) (simp_all add: dt2_def)
      also have "\<dots> = insert (e\<lparr>de_val := v\<rparr>) (set (dict_live dt1) - {e})"
        unfolding set using chain_subset [OF i] e f(7) by (auto simp: mem_live simp del: set_concat)
      finally show ?thesis .
    qed
    have only: "e' = e" if "e' \<in> set (dict_live dt1)" "de_key e' = k" for e'
      using that e dict_ok_key [OF f(1), of e' k] d by (auto simp: mem_live distinct_map inj_on_def simp del: set_concat)
    have "dict_abs dt2 = (dict_abs dt1)(k \<mapsto> v)"
    proof
      fix k'
      show "dict_abs dt2 k' = ((dict_abs dt1)(k \<mapsto> v)) k'"
        unfolding fun_upd_apply using only e(2)
        by (intro option_eqI) (auto simp: abs_iff [OF dict_ok_distinct [OF ok]] abs_iff [OF dict_ok_distinct [OF f(1)]] live)
    qed
    moreover have "dict_room dt2 n"
    proof -
      from concat_split [OF i] obtain A B where "concat (dt_table dt1) = A @ dt_table dt1 ! ?i @ B"
        "\<And>xs. concat ((dt_table dt1)[?i := xs]) = A @ xs @ B" by blast
      with f(4) [OF assms(2)] len show ?thesis by (simp add: dict_room_def dt2_def)
    qed
    ultimately show thesis
      using rep ok old f(2) by (intro that [of dt2]) simp_all
  qed
qed

lemma delete_ok:
  assumes "dict_ok type dt"
  obtains ret dt' where "dict_delete dt k = (ret, dt')" "dict_ok type dt'" "dict_room dt n \<Longrightarrow> dict_room dt' n"
    "dict_abs dt' = (dict_abs dt)(k := None)" "dict_abs dt k \<noteq> None \<Longrightarrow> ret = 1"
    "dt_table dt' = (dt_table dt)[dict_index dt k := filter (\<lambda>e. de_key e \<noteq> k) (dt_table dt ! dict_index dt k)]"
proof -
  let ?i = "dict_index dt k"
  let ?chain = "dt_table dt ! ?i"
  note i = dict_index_bound [OF assms, of k]
  note d = dict_ok_chain_distinct [OF assms i]
  note rem = chain_remove_mem [OF d, of k]
  have del: "dict_delete dt k = (case chain_remove (\<lambda>e. de_key e = k) ?chain of None \<Rightarrow> (0, dt)
      | Some chain \<Rightarrow> (1, dt\<lparr>dt_table := (dt_table dt)[?i := chain], dt_used := dt_used dt - 1\<rparr>))"
    using dict_okD(1) [OF assms] by (simp add: dict_delete_def Let_def compare_eq split: option.split)
  show thesis
  proof (cases "chain_remove (\<lambda>e. de_key e = k) ?chain")
    case None
    then have "k \<notin> de_key ` set ?chain" using rem by simp
    then have no: "\<forall>e \<in> set ?chain. de_key e \<noteq> k" by auto
    then have same: "filter (\<lambda>e. de_key e \<noteq> k) ?chain = ?chain"
      by (simp add: filter_id_conv)
    have "\<not> dict_abs dt k = Some v" for v
      unfolding abs_iff [OF dict_ok_distinct [OF assms]] Bex_def mem_live using dict_ok_key [OF assms, of _ k] no by blast
    then have "dict_abs dt k = None" by (metis not_None_eq)
    with same show thesis
      using assms del None by (intro that [of 0 dt]) (auto simp: fun_upd_idem)
  next
    case (Some xs)
    have set: "set xs = {e \<in> set ?chain. de_key e \<noteq> k}" and dx: "distinct (map de_key xs)" and len: "Suc (length xs) = length ?chain"
      using rem Some by simp_all
    have xs: "xs = filter (\<lambda>e. de_key e \<noteq> k) ?chain"
    proof -
      have "distinct (map de_key es) \<Longrightarrow> chain_remove (\<lambda>e. de_key e = k) es = Some ys \<Longrightarrow> ys = filter (\<lambda>e. de_key e \<noteq> k) es" for es ys
        by (induction es arbitrary: ys) (auto split: if_splits simp: filter_keys)
      from this [OF d Some] show ?thesis .
    qed
    define dt2 where "dt2 = dt\<lparr>dt_table := (dt_table dt)[?i := xs], dt_used := dt_used dt - 1\<rparr>"
    have ok: "dict_ok type dt2"
    proof (rule dict_ok_chain [OF assms i, where xs = xs])
      show "\<forall>e \<in> set xs. dict_index dt (de_key e) = ?i"
        using dict_ok_index [OF assms i] unfolding set by auto
      show "\<And>k'. k' \<in> de_key ` set xs \<Longrightarrow> k' \<in> de_key ` set ?chain \<or> k' \<notin> de_key ` set (concat (dt_table dt))"
        unfolding set by auto
      show "\<forall>e \<in> set xs. de_id e < dt_id_start dt2"
        using dict_okD(6) [OF assms i] unfolding set by (auto simp: dt2_def)
      show "length (concat (dt_table dt)) + length xs < 2 ^ 32 + length ?chain"
        using dict_okD(2) [OF assms] len by linarith
      show "dt_used dt2 = dt_used dt + of_nat (length xs) - of_nat (length ?chain)"
        unfolding len [symmetric] by (simp add: dt2_def)
    qed (use dict_okD(4) [OF assms] dx in \<open>simp_all add: dt2_def\<close>)
    have live: "set (dict_live dt2) = {e \<in> set (dict_live dt). de_key e \<noteq> k}"
    proof -
      have "set (dict_live dt2) = {e \<in> set (dict_live dt). e \<notin> set ?chain} \<union> {e \<in> set xs. \<not> de_id e < dt_id_clear dt}"
        by (rule live_chain [OF i _ _ dict_ok_distinct [OF assms]]) (simp_all add: dt2_def)
      also have "\<dots> = {e \<in> set (dict_live dt). de_key e \<noteq> k}"
        unfolding set using chain_subset [OF i] dict_ok_key [OF assms, of _ k] by (auto simp: mem_live simp del: set_concat)
      finally show ?thesis .
    qed
    have "dict_abs dt2 = (dict_abs dt)(k := None)"
    proof
      fix k'
      show "dict_abs dt2 k' = ((dict_abs dt)(k := None)) k'"
        unfolding fun_upd_apply
        by (intro option_eqI) (auto simp: abs_iff [OF dict_ok_distinct [OF ok]] abs_iff [OF dict_ok_distinct [OF assms]] live)
    qed
    moreover have "dict_room dt2 n" if "dict_room dt n"
    proof -
      from concat_split [OF i] obtain A B where "concat (dt_table dt) = A @ ?chain @ B"
        "\<And>xs. concat ((dt_table dt)[?i := xs]) = A @ xs @ B" by blast
      with that len show ?thesis by (simp add: dict_room_def dt2_def)
    qed
    ultimately show thesis
      using del Some ok by (intro that [of 1 dt2]) (simp_all add: dt2_def xs)
  qed
qed

lemma mark_clear_ok:
  assumes "dict_ok type dt" "dict_room dt (Suc n)"
  shows "dict_ok type (dict_mark_clear dt)" "dict_room (dict_mark_clear dt) n" "dict_abs (dict_mark_clear dt) = Map.empty"
proof -
  have start: "unat (dt_id_start dt + 1) = Suc (unat (dt_id_start dt))"
    using assms(2) by (simp add: dict_room_def unat_word_ariths)
  then have less: "dt_id_start dt < dt_id_start dt + 1"
    by (simp add: word_less_nat_alt)
  then show "dict_ok type (dict_mark_clear dt)"
    using assms(1) by (auto simp: dict_ok_def dict_mark_clear_def intro: less_trans)
  show "dict_room (dict_mark_clear dt) n"
    using assms(2) start by (simp add: dict_room_def dict_mark_clear_def)
  have "dict_live (dict_mark_clear dt) = []"
    using dict_okD(5) [OF assms(1)] by (auto simp: dict_live_def dict_mark_clear_def filter_empty_conv simp del: set_concat)
  then show "dict_abs (dict_mark_clear dt) = Map.empty"
    by (simp add: dict_abs_def)
qed

lemma create_ok:
  assumes "init_size \<le> 2 ^ 31" "n < 2 ^ 32"
  obtains dt :: "('k, 'v) dict_t" where "dict_create type init_size = Some dt" "dict_ok type dt" "dict_room dt n" "dict_abs dt = Map.empty"
proof -
  from dict_next_power_ok [OF assms(1)] obtain k where k: "2 \<le> k" "k < 32" "dict_next_power init_size = Some (2 ^ k)"
    by blast
  define dt where "dt = \<lparr> dt_table = replicate (unat (2 ^ k :: u32)) ([] :: ('k, 'v) dict_entry list), dt_type = type,
    dt_size = 2 ^ k, dt_mask = 2 ^ k - 1, dt_used = 0, dt_id_start = 0, dt_id_clear = 0 \<rparr>"
  have "concat (dt_table dt) = []"
    by (simp add: dt_def)
  with k assms(2) show thesis
    by (intro that [of dt]) (auto simp: dict_create_def dict_ok_def chains_ok_def dict_room_def dict_abs_def dict_live_def dt_def)
qed

lemma clear_loop_ok:
  assumes "dict_ok type dt" "cleared_up_to dt iter" "dict_room dt n"
  shows "\<exists>dt'. clear_loop dt iter = Some dt' \<and> dict_ok type dt' \<and> concat (dt_table dt') = [] \<and> dict_room dt' n"
  using assms
proof (induction "length (concat (dt_table dt))" arbitrary: dt iter rule: less_induct)
  case less
  note ok = less.prems(1)
  have size: "length (dt_table dt) = unat (dt_size dt)"
    using ok by (simp add: dict_ok_def)
  note step = dict_next_cleared [OF less.prems(2) size]
  obtain r iter' where nx: "dict_next dt iter = (r, iter')" by fastforce
  show ?case
  proof (cases r)
    case None
    with nx step ok less.prems(3) show ?thesis
      by (subst clear_loop.simps) simp
  next
    case (Some e)
    let ?i = "nat (it_index iter')"
    have i: "0 \<le> it_index iter'" "?i < length (dt_table dt)" "\<forall>j < ?i. dt_table dt ! j = []" "dt_table dt ! ?i = e # it_next iter'"
      using step nx Some by auto
    have index: "dict_index dt (de_key e) = ?i"
      using dict_ok_index [OF ok i(2), of e] i(4) by simp
    have "distinct (map de_key (e # it_next iter'))"
      using dict_ok_chain_distinct [OF ok i(2)] i(4) by simp
    then have tail: "filter (\<lambda>e'. de_key e' \<noteq> de_key e) (e # it_next iter') = it_next iter'"
      by (auto simp: filter_keys)
    from delete_ok [OF ok, of "de_key e" n] obtain ret dt1 where del: "dict_delete dt (de_key e) = (ret, dt1)" "dict_ok type dt1"
        "dict_room dt1 n" "dt_table dt1 = (dt_table dt)[?i := it_next iter']"
      unfolding index i(4) tail using less.prems(3) by metis
    from concat_split [OF i(2)] obtain A B where "concat (dt_table dt) = A @ dt_table dt ! ?i @ B"
      "\<And>xs. concat ((dt_table dt)[?i := xs]) = A @ xs @ B" by blast
    then have "length (concat (dt_table dt1)) < length (concat (dt_table dt))"
      using i(4) by (simp add: del(4))
    moreover have "cleared_up_to dt1 iter'"
      using i del(4) by (auto simp: cleared_up_to_def)
    ultimately obtain dt' where "clear_loop dt1 iter' = Some dt' \<and> dict_ok type dt' \<and> concat (dt_table dt') = [] \<and> dict_room dt' n"
      using less.hyps del(2,3) by blast
    with nx Some del(1) show ?thesis
      by (subst clear_loop.simps) simp
  qed
qed

lemma clear_ok:
  assumes "dict_ok type dt" "dict_room dt n"
  obtains dt' where "dict_clear dt = Some dt'" "dict_ok type dt'" "dict_room dt' n" "dict_abs dt' = Map.empty"
proof -
  have "0 < length (dt_table dt)"
    using dict_index_bound [OF assms(1)] gr_implies_not0 by blast
  then have "cleared_up_to dt dict_get_iterator"
    by (simp add: cleared_up_to_def dict_get_iterator_def)
  from clear_loop_ok [OF assms(1) this assms(2)] obtain dt' where "dict_clear dt = Some dt'" "dict_ok type dt'"
      "concat (dt_table dt') = []" "dict_room dt' n"
    unfolding dict_clear_def by blast
  then show thesis
    by (intro that [of dt']) (simp_all add: dict_abs_def dict_live_def del: concat_eq_Nil_conv)
qed

lemma do_ok:
  assumes "dict_ok type dt" "dict_room dt (Suc n)"
  obtains dt' where "dict_do op dt = Some (fst (map_do op (dict_abs dt)), dt')" "dict_ok type dt'" "dict_room dt' n"
    "dict_abs dt' = snd (map_do op (dict_abs dt))"
proof (cases op)
  case (Find k)
  obtain r dt' where find: "dict_find dt k = (r, dt')" by fastforce
  note f = find_ok [OF assms(1) find]
  from f(4) [OF assms(2)] have "dict_room dt' n" by (simp add: dict_room_def)
  with Find find f(1-3) show thesis
    by (intro that [of dt']) (simp_all add: dict_do_def map_do_def)
next
  case (Add k v)
  from add_ok [OF assms, of k v] obtain r dt' where "dict_add dt k v = Some (r, dt')" "dict_ok type dt'" "dict_room dt' n"
    "r = None \<longleftrightarrow> dict_abs dt k \<noteq> None" "dict_abs dt' = (if dict_abs dt k = None then (dict_abs dt)(k \<mapsto> v) else dict_abs dt)" .
  with Add show thesis
    by (intro that [of dt']) (auto simp: dict_do_def map_do_def)
next
  case (Replace k v)
  from replace_ok [OF assms, of k v] obtain dt' where
    "dict_replace dt k v = Some (if dict_abs dt k = None then 1 else 0, dt')" "dict_ok type dt'" "dict_room dt' n"
    "dict_abs dt' = (dict_abs dt)(k \<mapsto> v)" .
  with Replace show thesis
    by (intro that [of dt']) (simp_all add: dict_do_def map_do_def)
next
  case (Delete k)
  have "dict_room dt n" using assms(2) by (simp add: dict_room_def)
  with delete_ok [OF assms(1), of k n] obtain ret dt' where "dict_delete dt k = (ret, dt')" "dict_ok type dt'" "dict_room dt' n"
    "dict_abs dt' = (dict_abs dt)(k := None)" by metis
  with Delete show thesis
    by (intro that [of dt']) (simp_all add: dict_do_def map_do_def)
next
  case MarkClear
  with mark_clear_ok [OF assms] show thesis
    by (intro that [of "dict_mark_clear dt"]) (simp_all add: dict_do_def map_do_def)
next
  case Clear
  have "dict_room dt n" using assms(2) by (simp add: dict_room_def)
  from clear_ok [OF assms(1) this] obtain dt' where "dict_clear dt = Some dt'" "dict_ok type dt'" "dict_room dt' n"
    "dict_abs dt' = Map.empty" .
  with Clear show thesis
    by (intro that [of dt']) (simp_all add: dict_do_def map_do_def)
qed

lemma run_ok:
  assumes "dict_ok type dt" "dict_room dt (length ops + n)"
  shows "\<exists>dt'. dict_run ops dt = Some (fst (map_run ops (dict_abs dt)), dt') \<and> dict_ok type dt' \<and> dict_room dt' n
    \<and> dict_abs dt' = snd (map_run ops (dict_abs dt))"
  using assms
proof (induction ops arbitrary: dt)
  case Nil
  then show ?case by simp
next
  case (Cons op ops)
  obtain out m where op: "map_do op (dict_abs dt) = (out, m)" by fastforce
  obtain outs m' where ops: "map_run ops m = (outs, m')" by fastforce
  have "dict_room dt (Suc (length ops + n))" using Cons.prems(2) by simp
  from do_ok [OF Cons.prems(1) this, of op] obtain dt1 where dt1: "dict_do op dt = Some (out, dt1)" "dict_ok type dt1"
    "dict_room dt1 (length ops + n)" "dict_abs dt1 = m"
    unfolding op by auto
  from Cons.IH [OF dt1(2,3)] dt1 op ops show ?case
    by auto
qed

end

section \<open>The key types of the engine\<close>

lemma strcmp_eq: "strcmp a b = 0 \<longleftrightarrow> a = b"
  by (induction a b rule: strcmp.induct) auto

interpretation user_dict: dict_keys user_dict_types
  by unfold_locales (simp add: user_dict_types_def dict_user_key_compare_def)

interpretation order_dict: dict_keys order_dict_types
  by unfold_locales (simp add: order_dict_types_def dict_order_key_compare_def)

interpretation asset_dict: dict_keys asset_dict_types
  by unfold_locales (simp add: asset_dict_types_def strcmp_eq)

interpretation market_dict: dict_keys market_dict_types
  by unfold_locales (simp add: market_dict_types_def strcmp_eq)

section \<open>The hash function\<close>

text \<open>The shifts and additions are the multiplication with the prime of the 32-bit FNV-1a hash.\<close>

definition fnv1a :: "byte list \<Rightarrow> u32" where
  "fnv1a data = foldl (\<lambda>h b. (h XOR ucast b) * 16777619) 2166136261 data"

lemma hash_is_fnv1a: "dict_generic_hash_function data = fnv1a data"
proof -
  have step: "h + (push_bit 1 h + push_bit 4 h + push_bit 7 h + push_bit 8 h + push_bit 24 h) = h * 16777619" for h :: u32
    by (simp add: push_bit_eq_mult algebra_simps)
  show ?thesis
    by (simp only: dict_generic_hash_function_def fnv1a_def Let_def step)
qed

end
