(* ===== verification/Skiplist.thy ===== *)
theory Skiplist
  imports Ordered_List "HOL-Library.Monad_Syntax"
begin

text \<open>
  \<open>utils/ut_skiplist.c\<close> with its nodes and pointers. A node has a value (\<open>NULL\<close> in the header) and as
  many forward pointers as its level; nodes live at addresses, an address at which there is no node
  has not been allocated yet or has been freed. An access through a pointer to no node, or behind the
  last forward pointer of a node, is undefined: the operation is then \<open>None\<close>, as it is when a loop does
  not end. Memory never runs out. The values are what the list was given: \<open>dup\<close> and \<open>free\<close> are not set
  by the lists of the engine.

  \<open>random\<close> of the C library is a sequence of numbers; the list counts how many it has drawn.
\<close>

unbundle bit_operations_syntax

type_synonym addr = nat

definition SKIPLIST_MAX_LEVEL :: nat where "SKIPLIST_MAX_LEVEL = 16"

record 'a skiplist_node =
  sn_value :: "'a option"
  sn_forward :: "addr option list"

record 'a skiplist =
  sk_nodes :: "addr \<rightharpoonup> 'a skiplist_node"
  sk_next :: addr
  sk_draws :: nat
  sk_level :: nat
  sk_header :: addr
  sk_len :: u64

section \<open>Nodes\<close>

definition get_forward :: "'a skiplist \<Rightarrow> addr \<Rightarrow> nat \<Rightarrow> addr option option" where
  "get_forward sk p i =
     do { node \<leftarrow> sk_nodes sk p; if i < length (sn_forward node) then Some (sn_forward node ! i) else None }"

definition set_forward :: "'a skiplist \<Rightarrow> addr \<Rightarrow> nat \<Rightarrow> addr option \<Rightarrow> 'a skiplist option" where
  "set_forward sk p i q =
     do { node \<leftarrow> sk_nodes sk p;
          if i < length (sn_forward node)
          then Some (sk\<lparr>sk_nodes := (sk_nodes sk)(p \<mapsto> node\<lparr>sn_forward := (sn_forward node)[i := q]\<rparr>)\<rparr>)
          else None }"

definition node_value :: "'a skiplist \<Rightarrow> addr \<Rightarrow> 'a option" where
  "node_value sk p = do { node \<leftarrow> sk_nodes sk p; sn_value node }"

definition skiplist_create_node :: "nat \<Rightarrow> 'a option \<Rightarrow> 'a skiplist \<Rightarrow> addr \<times> 'a skiplist" where
  "skiplist_create_node level value sk =
     (sk_next sk, sk\<lparr>sk_nodes := (sk_nodes sk)(sk_next sk \<mapsto> \<lparr> sn_value = value, sn_forward = replicate level None \<rparr>),
                    sk_next := sk_next sk + 1\<rparr>)"

definition skiplist_create :: "'a skiplist" where
  "skiplist_create =
     (let sk = \<lparr> sk_nodes = Map.empty, sk_next = 0, sk_draws = 0, sk_level = 1, sk_header = 0, sk_len = 0 \<rparr>;
          (header, sk) = skiplist_create_node SKIPLIST_MAX_LEVEL None sk in
      sk\<lparr>sk_header := header\<rparr>)"

text \<open>\<open>SKIPLIST_P * 0xFFFF\<close> is a quarter of \<open>0xFFFF\<close>.\<close>

partial_function (option) random_level_loop :: "(nat \<Rightarrow> u32) \<Rightarrow> nat \<Rightarrow> nat \<Rightarrow> (nat \<times> nat) option" where
  "random_level_loop random draws level =
     (if 4 * uint (random draws AND 0xFFFF) < 0xFFFF then random_level_loop random (draws + 1) (level + 1)
      else Some (level, draws + 1))"

definition skiplist_random_level :: "(nat \<Rightarrow> u32) \<Rightarrow> 'a skiplist \<Rightarrow> (nat \<times> 'a skiplist) option" where
  "skiplist_random_level random sk =
     do { (level, draws) \<leftarrow> random_level_loop random (sk_draws sk) 1;
          Some (if level < SKIPLIST_MAX_LEVEL then level else SKIPLIST_MAX_LEVEL, sk\<lparr>sk_draws := draws\<rparr>) }"

section \<open>The descent\<close>

text \<open>One level: go on as long as the next value is before the place looked for.\<close>

partial_function (option) skip_forward :: "('a \<Rightarrow> bool) \<Rightarrow> 'a skiplist \<Rightarrow> nat \<Rightarrow> addr \<Rightarrow> addr option" where
  "skip_forward before sk i node =
     (case get_forward sk node i of
        None \<Rightarrow> None
      | Some None \<Rightarrow> Some node
      | Some (Some nx) \<Rightarrow>
          (case node_value sk nx of
             None \<Rightarrow> None
           | Some value \<Rightarrow> if before value then skip_forward before sk i nx else Some node))"

text \<open>The levels from \<open>list->level - 1\<close> down to 0; the second result is the array \<open>update\<close>.\<close>

fun descend :: "('a \<Rightarrow> bool) \<Rightarrow> 'a skiplist \<Rightarrow> nat \<Rightarrow> addr \<Rightarrow> addr list \<Rightarrow> (addr \<times> addr list) option" where
  "descend before sk 0 node update = Some (node, update)"
| "descend before sk (Suc i) node update =
     do { node \<leftarrow> skip_forward before sk i node; descend before sk i node (node # update) }"

section \<open>Operations\<close>

fun link_levels :: "addr \<Rightarrow> nat \<Rightarrow> addr list \<Rightarrow> 'a skiplist \<Rightarrow> 'a skiplist option" where
  "link_levels node i [] sk = Some sk"
| "link_levels node i (u # us) sk =
     do { q \<leftarrow> get_forward sk u i;
          sk \<leftarrow> set_forward sk node i q;
          sk \<leftarrow> set_forward sk u i (Some node);
          link_levels node (Suc i) us sk }"

definition skiplist_insert :: "('a \<Rightarrow> 'a \<Rightarrow> int) \<Rightarrow> (nat \<Rightarrow> u32) \<Rightarrow> 'a \<Rightarrow> 'a skiplist \<Rightarrow> (bool \<times> 'a skiplist) option" where
  "skiplist_insert cmp random value sk =
     do { (node, update) \<leftarrow> descend (\<lambda>y. cmp y value \<le> 0) sk (sk_level sk) (sk_header sk) [];
          if (case node_value sk node of Some y \<Rightarrow> cmp y value = 0 | None \<Rightarrow> False) then Some (False, sk)
          else do {
            (level, sk) \<leftarrow> skiplist_random_level random sk;
            let update = update @ replicate (level - sk_level sk) (sk_header sk);
            let sk = (if level > sk_level sk then sk\<lparr>sk_level := level\<rparr> else sk);
            let (node, sk) = skiplist_create_node level (Some value) sk;
            sk \<leftarrow> link_levels node 0 (take level update) sk;
            Some (True, sk\<lparr>sk_len := sk_len sk + 1\<rparr>)
          } }"

definition skiplist_find :: "('a \<Rightarrow> 'a \<Rightarrow> int) \<Rightarrow> 'a \<Rightarrow> 'a skiplist \<Rightarrow> addr option option" where
  "skiplist_find cmp value sk =
     do { (node, update) \<leftarrow> descend (\<lambda>y. cmp y value \<le> 0) sk (sk_level sk) (sk_header sk) [];
          Some (if (case node_value sk node of Some y \<Rightarrow> cmp y value = 0 | None \<Rightarrow> False) then Some node else None) }"

fun unlink_levels :: "addr \<Rightarrow> nat \<Rightarrow> addr list \<Rightarrow> 'a skiplist \<Rightarrow> 'a skiplist option" where
  "unlink_levels x i [] sk = Some sk"
| "unlink_levels x i (u # us) sk =
     do { q \<leftarrow> get_forward sk u i;
          sk \<leftarrow> (if q = Some x then do { r \<leftarrow> get_forward sk x i; set_forward sk u i r } else Some sk);
          unlink_levels x (Suc i) us sk }"

text \<open>The highest level with a node, but at least 1.\<close>

fun shrink_level :: "'a skiplist \<Rightarrow> nat \<Rightarrow> nat" where
  "shrink_level sk 0 = 0"
| "shrink_level sk (Suc i) =
     (if Suc i > 1 \<and> get_forward sk (sk_header sk) i = Some None then shrink_level sk i else Suc i)"

definition skiplist_delete :: "('a \<Rightarrow> 'a \<Rightarrow> int) \<Rightarrow> addr \<Rightarrow> 'a skiplist \<Rightarrow> 'a skiplist option" where
  "skiplist_delete cmp x sk =
     do { value \<leftarrow> node_value sk x;
          (node, update) \<leftarrow> descend (\<lambda>y. cmp y value < 0) sk (sk_level sk) (sk_header sk) [];
          sk \<leftarrow> unlink_levels x 0 update sk;
          let sk = sk\<lparr>sk_level := shrink_level sk (sk_level sk)\<rparr>;
          Some (sk\<lparr>sk_nodes := (sk_nodes sk)(x := None), sk_len := sk_len sk - 1\<rparr>) }"

text \<open>An iterator is the pointer to the next node.\<close>

definition skiplist_get_iterator :: "'a skiplist \<Rightarrow> addr option option" where
  "skiplist_get_iterator sk = get_forward sk (sk_header sk) 0"

definition skiplist_next :: "'a skiplist \<Rightarrow> addr option \<Rightarrow> (addr option \<times> addr option) option" where
  "skiplist_next sk iter =
     (case iter of
        None \<Rightarrow> Some (None, None)
      | Some cur \<Rightarrow> do { q \<leftarrow> get_forward sk cur 0; Some (Some cur, q) })"

text \<open>The nodes \<open>skiplist_release\<close> frees before the header: as many as the list has.\<close>

fun release_loop :: "'a skiplist \<Rightarrow> nat \<Rightarrow> addr option \<Rightarrow> addr list option" where
  "release_loop sk 0 cur = Some []"
| "release_loop sk (Suc n) None = None"
| "release_loop sk (Suc n) (Some cur) =
     do { q \<leftarrow> get_forward sk cur 0; freed \<leftarrow> release_loop (sk\<lparr>sk_nodes := (sk_nodes sk)(cur := None)\<rparr>) n q; Some (cur # freed) }"

definition skiplist_release :: "'a skiplist \<Rightarrow> addr list option" where
  "skiplist_release sk =
     do { q \<leftarrow> get_forward sk (sk_header sk) 0; freed \<leftarrow> release_loop sk (unat (sk_len sk)) q; Some (freed @ [sk_header sk]) }"

text \<open>The loop over a list that every user of an iterator has: the values until there is no next node.\<close>

partial_function (option) walk_loop :: "'a skiplist \<Rightarrow> addr option \<Rightarrow> 'a list option" where
  "walk_loop sk iter =
     (case skiplist_next sk iter of
        None \<Rightarrow> None
      | Some (None, iter) \<Rightarrow> Some []
      | Some (Some node, iter) \<Rightarrow>
          do { value \<leftarrow> node_value sk node; rest \<leftarrow> walk_loop sk iter; Some (value # rest) })"

definition skiplist_walk :: "'a skiplist \<Rightarrow> 'a list option" where
  "skiplist_walk sk = do { iter \<leftarrow> skiplist_get_iterator sk; walk_loop sk iter }"

section \<open>Sequences of operations\<close>

text \<open>A value is deleted the way the market does it: the node is looked up and deleted if there is one.\<close>

datatype 'a sl_op = Insert 'a | Lookup 'a | Remove 'a

definition sl_do :: "('a \<Rightarrow> 'a \<Rightarrow> int) \<Rightarrow> (nat \<Rightarrow> u32) \<Rightarrow> 'a sl_op \<Rightarrow> 'a skiplist \<Rightarrow> (bool \<times> 'a skiplist) option" where
  "sl_do cmp random op sk = (case op of
     Insert v \<Rightarrow> skiplist_insert cmp random v sk
   | Lookup v \<Rightarrow> do { r \<leftarrow> skiplist_find cmp v sk; Some (r \<noteq> None, sk) }
   | Remove v \<Rightarrow>
       do { r \<leftarrow> skiplist_find cmp v sk;
            case r of
              None \<Rightarrow> Some (False, sk)
            | Some node \<Rightarrow> do { sk \<leftarrow> skiplist_delete cmp node sk; Some (True, sk) } })"

fun sl_run :: "('a \<Rightarrow> 'a \<Rightarrow> int) \<Rightarrow> (nat \<Rightarrow> u32) \<Rightarrow> 'a sl_op list \<Rightarrow> 'a skiplist \<Rightarrow> (bool list \<times> 'a skiplist) option" where
  "sl_run cmp random [] sk = Some ([], sk)"
| "sl_run cmp random (op # ops) sk =
     do { (r, sk) \<leftarrow> sl_do cmp random op sk; (rs, sk) \<leftarrow> sl_run cmp random ops sk; Some (r # rs, sk) }"

text \<open>The same on a set.\<close>

fun sl_op_value :: "'a sl_op \<Rightarrow> 'a" where
  "sl_op_value (Insert v) = v"
| "sl_op_value (Lookup v) = v"
| "sl_op_value (Remove v) = v"

fun set_do :: "'a sl_op \<Rightarrow> 'a set \<Rightarrow> bool \<times> 'a set" where
  "set_do (Insert v) S = (v \<notin> S, insert v S)"
| "set_do (Lookup v) S = (v \<in> S, S)"
| "set_do (Remove v) S = (v \<in> S, S - {v})"

fun set_run :: "'a sl_op list \<Rightarrow> 'a set \<Rightarrow> bool list \<times> 'a set" where
  "set_run [] S = ([], S)"
| "set_run (op # ops) S = (let (r, S) = set_do op S; (rs, S) = set_run ops S in (r # rs, S))"

end
