(* ===== verification/Skiplist_Facts.thy ===== *)
theory Skiplist_Facts
  imports Skiplist Order
begin

text \<open>
  The pointers of \<open>Skiplist\<close> form a list at every level (\<open>path\<close>, \<open>sk_ok\<close>), and every operation keeps
  that: the descent of insertion, search and deletion ends at the last node before the place looked
  for. In the locale \<open>ordered_by\<close> the operations then are those of \<open>Ordered_List\<close> on the values of level
  0, and a sequence of operations is one on a finite set.
\<close>

section \<open>Paths\<close>

definition path :: "'a skiplist \<Rightarrow> nat \<Rightarrow> addr \<Rightarrow> addr list \<Rightarrow> bool" where
  "path sk i p qs \<longleftrightarrow> list_all2 (\<lambda>r q. get_forward sk r i = Some q) (p # qs) (map Some qs @ [None])"

definition height :: "'a skiplist \<Rightarrow> addr \<Rightarrow> nat" where
  "height sk p = (case sk_nodes sk p of Some node \<Rightarrow> length (sn_forward node) | None \<Rightarrow> 0)"

abbreviation last_of :: "addr \<Rightarrow> addr list \<Rightarrow> addr" where
  "last_of p qs \<equiv> last (p # qs)"

lemma path_Nil [simp]: "path sk i p [] \<longleftrightarrow> get_forward sk p i = Some None"
  by (simp add: path_def)

lemma path_Cons [simp]: "path sk i p (q # qs) \<longleftrightarrow> get_forward sk p i = Some (Some q) \<and> path sk i q qs"
  by (simp add: path_def)

lemma path_append:
  "path sk i p (F @ G) \<longleftrightarrow> list_all2 (\<lambda>r q. get_forward sk r i = Some q) (butlast (p # F)) (map Some F) \<and> path sk i (last_of p F) G"
  by (induction F arbitrary: p) auto

lemma path_cong:
  assumes "\<And>r. r \<in> set (p # qs) \<Longrightarrow> get_forward sk' r i = get_forward sk r i"
  shows "path sk' i p qs \<longleftrightarrow> path sk i p qs"
  using assms by (induction qs arbitrary: p) auto

lemma skip_forward_path:
  assumes "path sk i p qs" "\<forall>q \<in> set qs. node_value sk q \<noteq> None"
  shows "skip_forward before sk i p = Some (last_of p (takeWhile (\<lambda>q. before (the (node_value sk q))) qs))"
  using assms
proof (induction qs arbitrary: p)
  case Nil
  then show ?case by (subst skip_forward.simps) simp
next
  case (Cons q qs)
  then obtain v where "node_value sk q = Some v" by auto
  with Cons show ?case by (subst skip_forward.simps) auto
qed

section \<open>Well-formed lists\<close>

definition sk_ok :: "'a skiplist \<Rightarrow> addr list \<Rightarrow> bool" where
  "sk_ok sk ps \<longleftrightarrow> distinct (sk_header sk # ps)
     \<and> height sk (sk_header sk) = SKIPLIST_MAX_LEVEL \<and> node_value sk (sk_header sk) = None
     \<and> (\<forall>p \<in> set ps. node_value sk p \<noteq> None \<and> 1 \<le> height sk p \<and> height sk p \<le> sk_level sk)
     \<and> 1 \<le> sk_level sk \<and> sk_level sk \<le> SKIPLIST_MAX_LEVEL
     \<and> (\<forall>i < SKIPLIST_MAX_LEVEL. path sk i (sk_header sk) (filter (\<lambda>p. i < height sk p) ps))
     \<and> sk_len sk = of_nat (length ps) \<and> (\<forall>p. sk_next sk \<le> p \<longrightarrow> sk_nodes sk p = None)"

text \<open>The values in the order of level 0.\<close>

definition sk_values :: "'a skiplist \<Rightarrow> addr list \<Rightarrow> 'a list" where
  "sk_values sk ps = map (\<lambda>p. the (node_value sk p)) ps"

lemma sk_okD:
  assumes "sk_ok sk ps"
  shows "distinct (sk_header sk # ps)" "p \<in> set ps \<Longrightarrow> node_value sk p \<noteq> None" "p \<in> set ps \<Longrightarrow> 1 \<le> height sk p"
    "p \<in> set ps \<Longrightarrow> height sk p \<le> sk_level sk" "1 \<le> sk_level sk" "sk_level sk \<le> SKIPLIST_MAX_LEVEL"
    "i < SKIPLIST_MAX_LEVEL \<Longrightarrow> path sk i (sk_header sk) (filter (\<lambda>p. i < height sk p) ps)"
    "sk_len sk = of_nat (length ps)" "sk_next sk \<le> p \<Longrightarrow> sk_nodes sk p = None"
    "height sk (sk_header sk) = SKIPLIST_MAX_LEVEL" "node_value sk (sk_header sk) = None"
  using assms by (auto simp: sk_ok_def)

lemma last_of_split:
  assumes "x \<in> set F"
  obtains F1 F2 where "F = F1 @ F2" "last_of p F1 = x"
proof -
  from split_list [OF assms] obtain ys zs where "F = ys @ x # zs" by blast
  then show thesis by (intro that [of "ys @ [x]" zs]) auto
qed

text \<open>What the descent finds: the last node before the place, on every level.\<close>

lemma descend_ok:
  assumes "sk_ok sk (A @ B)" "\<forall>p \<in> set A. before (the (node_value sk p))" "\<forall>p \<in> set B. \<not> before (the (node_value sk p))"
    and "n \<le> SKIPLIST_MAX_LEVEL" "node = last_of (sk_header sk) (filter (\<lambda>p. n < height sk p) A) \<or> node = sk_header sk"
  shows "descend before sk n node update = Some (if n = 0 then node else last_of (sk_header sk) A,
    map (\<lambda>i. last_of (sk_header sk) (filter (\<lambda>p. i < height sk p) A)) [0..<n] @ update)"
  using assms(4,5)
proof (induction n arbitrary: node update)
  case 0
  then show ?case by simp
next
  case (Suc n)
  let ?h = "sk_header sk" and ?F = "filter (\<lambda>p. n < height sk p) A" and ?G = "filter (\<lambda>p. n < height sk p) B"
  have path: "path sk n ?h (?F @ ?G)"
    using sk_okD(7) [OF assms(1), of n] Suc.prems(1) by simp
  obtain F1 F2 where F: "?F = F1 @ F2" "last_of ?h F1 = node"
  proof (cases "node = ?h")
    case True
    then show thesis by (intro that [of "[]" ?F]) simp_all
  next
    case False
    then have "filter (\<lambda>p. Suc n < height sk p) A \<noteq> []" "node = last (filter (\<lambda>p. Suc n < height sk p) A)"
      using Suc.prems(2) by auto
    then have "node \<in> set (filter (\<lambda>p. Suc n < height sk p) A)"
      using last_in_set by metis
    then have "node \<in> set ?F" by auto
    then show thesis by (rule last_of_split [where p = ?h]) (rule that)
  qed
  have "path sk n node (F2 @ ?G)"
    using path F by (simp add: path_append [of _ _ _ F1])
  moreover have "\<forall>p \<in> set (F2 @ ?G). node_value sk p \<noteq> None"
  proof
    fix p assume "p \<in> set (F2 @ ?G)"
    then have "p \<in> set ?F \<or> p \<in> set ?G" using F(1) by auto
    then show "node_value sk p \<noteq> None" using sk_okD(2) [OF assms(1), of p] by auto
  qed
  ultimately have "skip_forward before sk n node
      = Some (last_of node (takeWhile (\<lambda>q. before (the (node_value sk q))) (F2 @ ?G)))"
    by (rule skip_forward_path)
  also have "takeWhile (\<lambda>q. before (the (node_value sk q))) (F2 @ ?G) = F2"
  proof -
    have "\<forall>p \<in> set F2. before (the (node_value sk p))" using assms(2) F(1) by (metis Un_iff filter_is_subset set_append subsetD)
    moreover have "takeWhile (\<lambda>q. before (the (node_value sk q))) ?G = []" using assms(3) by (auto simp: takeWhile_eq_Nil_iff dest: hd_in_set)
    ultimately show ?thesis by (simp add: takeWhile_append2)
  qed
  also have "last_of node F2 = last_of ?h ?F"
    using F by (metis append_Nil2 last_ConsL last_ConsR last_appendR append_is_Nil_conv)
  finally have skip: "skip_forward before sk n node = Some (last_of ?h ?F)" .
  have "descend before sk n (last_of ?h ?F) (last_of ?h ?F # update) = Some (if n = 0 then last_of ?h ?F else last_of ?h A,
      map (\<lambda>i. last_of ?h (filter (\<lambda>p. i < height sk p) A)) [0..<n] @ last_of ?h ?F # update)"
    by (rule Suc.IH) (use Suc.prems(1) in auto)
  moreover have "n = 0 \<Longrightarrow> ?F = A"
    using sk_okD(3) [OF assms(1)] by (fastforce simp: filter_id_conv)
  ultimately show ?case
    using skip by (cases "n = 0") simp_all
qed

section \<open>Changing pointers\<close>

text \<open>Nothing but forward pointers differs.\<close>

definition same_shape :: "'a skiplist \<Rightarrow> 'a skiplist \<Rightarrow> bool" where
  "same_shape sk sk' \<longleftrightarrow> height sk' = height sk \<and> node_value sk' = node_value sk \<and> dom (sk_nodes sk') = dom (sk_nodes sk)
     \<and> sk_header sk' = sk_header sk \<and> sk_level sk' = sk_level sk \<and> sk_next sk' = sk_next sk \<and> sk_len sk' = sk_len sk"

lemma same_shape_refl [simp]: "same_shape sk sk"
  by (simp add: same_shape_def)

lemma same_shape_trans: "same_shape sk sk' \<Longrightarrow> same_shape sk' sk'' \<Longrightarrow> same_shape sk sk''"
  by (simp add: same_shape_def)

lemma get_forward_height: "get_forward sk p i \<noteq> None \<longleftrightarrow> i < height sk p"
  by (simp add: get_forward_def height_def split: option.split)

lemma set_forward_ok:
  assumes "i < height sk p"
  obtains sk' where "set_forward sk p i q = Some sk'" "same_shape sk sk'"
    "\<And>r j. get_forward sk' r j = (if r = p \<and> j = i then Some q else get_forward sk r j)"
proof -
  from assms obtain node where node: "sk_nodes sk p = Some node" "i < length (sn_forward node)"
    by (auto simp: height_def split: option.splits)
  define sk' where "sk' = sk\<lparr>sk_nodes := (sk_nodes sk)(p \<mapsto> node\<lparr>sn_forward := (sn_forward node)[i := q]\<rparr>)\<rparr>"
  have "set_forward sk p i q = Some sk'"
    using node by (simp add: set_forward_def sk'_def)
  moreover have "same_shape sk sk'"
    using node by (auto simp: same_shape_def sk'_def height_def node_value_def fun_eq_iff)
  moreover have "get_forward sk' r j = (if r = p \<and> j = i then Some q else get_forward sk r j)" for r j
    using node by (auto simp: get_forward_def sk'_def)
  ultimately show thesis by (rule that)
qed

lemma path_height: "path sk i p (F @ G) \<Longrightarrow> i < height sk (last_of p F)"
proof -
  assume "path sk i p (F @ G)"
  then have "path sk i (last_of p F) G" by (simp add: path_append)
  then have "get_forward sk (last_of p F) i \<noteq> None" by (cases G) simp_all
  then show ?thesis unfolding get_forward_height .
qed

lemma last_not_butlast: "distinct (p # F) \<Longrightarrow> last_of p F \<notin> set (butlast (p # F))"
  by (metis append_butlast_last_id distinct.simps(2) distinct_butlast distinct_append disjoint_insert(1) list.distinct(1) list.simps(15) not_distinct_conv_prefix)

text \<open>One level of the insertion: the new node \<open>q\<close> behind the last node before it.\<close>

lemma link_one:
  assumes "path sk i h (F @ G)" "distinct (h # F @ G)" "q \<notin> set (h # F @ G)" "i < height sk q"
  obtains f sk1 sk2 where "get_forward sk (last_of h F) i = Some f" "set_forward sk q i f = Some sk1"
    "set_forward sk1 (last_of h F) i (Some q) = Some sk2" "same_shape sk sk2" "path sk2 i h (F @ q # G)"
    "\<And>r j. j \<noteq> i \<Longrightarrow> get_forward sk2 r j = get_forward sk r j"
proof -
  let ?u = "last_of h F"
  obtain f where f: "get_forward sk ?u i = Some f"
    using path_height [OF assms(1)] get_forward_height [of sk ?u i] by blast
  obtain sk1 where sk1: "set_forward sk q i f = Some sk1" "same_shape sk sk1"
    "\<And>r j. get_forward sk1 r j = (if r = q \<and> j = i then Some f else get_forward sk r j)"
    using set_forward_ok [OF assms(4)] by blast
  have "i < height sk1 ?u"
    using path_height [OF assms(1)] sk1(2) by (simp add: same_shape_def)
  then obtain sk2 where sk2: "set_forward sk1 ?u i (Some q) = Some sk2" "same_shape sk1 sk2"
    "\<And>r j. get_forward sk2 r j = (if r = ?u \<and> j = i then Some (Some q) else get_forward sk1 r j)"
    using set_forward_ok [of i sk1 ?u "Some q"] by blast
  have u: "?u \<in> set (h # F)" by (rule last_in_set) simp
  have uG: "?u \<notin> set G" and uq: "?u \<noteq> q" using u assms(2,3) by auto
  have ubut: "?u \<notin> set (butlast (h # F))"
    using assms(2) by (intro last_not_butlast) simp
  have all: "list_all2 (\<lambda>r q. get_forward sk r i = Some q) (butlast (h # F)) (map Some F)" and G: "path sk i ?u G"
    using assms(1) by (simp_all add: path_append)
  have "list_all2 (\<lambda>r q. get_forward sk2 r i = Some q) (butlast (h # F)) (map Some F)"
  proof (rule list.rel_mono_strong [OF all])
    fix r x assume r: "r \<in> set (butlast (h # F))" "get_forward sk r i = Some x"
    then have "r \<noteq> ?u" "r \<in> set (h # F)" using ubut by (auto simp del: butlast.simps last.simps dest: in_set_butlastD)
    with assms(3) have "r \<noteq> ?u" "r \<noteq> q" by auto
    with r(2) show "get_forward sk2 r i = Some x" by (simp add: sk1(3) sk2(3))
  qed
  moreover have "path sk2 i q G"
  proof (cases G)
    case Nil
    with G f uq show ?thesis by (simp add: sk1(3) sk2(3))
  next
    case (Cons g gs)
    have "path sk2 i g gs \<longleftrightarrow> path sk i g gs"
      by (rule path_cong) (use uG assms(3) Cons in \<open>auto simp: sk1(3) sk2(3)\<close>)
    with G f uq Cons show ?thesis by (simp add: sk1(3) sk2(3))
  qed
  ultimately have "path sk2 i h (F @ q # G)"
    by (simp add: path_append sk2(3))
  moreover have "same_shape sk sk2" by (rule same_shape_trans [OF sk1(2) sk2(2)])
  moreover have "\<And>r j. j \<noteq> i \<Longrightarrow> get_forward sk2 r j = get_forward sk r j"
    by (simp add: sk1(3) sk2(3))
  ultimately show thesis
    using f sk1(1) sk2(1) that by blast
qed

lemma link_levels_ok:
  assumes "n \<le> height sk q" "j \<le> n" "\<And>i. j \<le> i \<Longrightarrow> i < n \<Longrightarrow> path sk i h (F i @ G i)"
    and "\<And>i. distinct (h # F i @ G i)" "\<And>i. q \<notin> set (h # F i @ G i)"
  shows "\<exists>sk'. link_levels q j (map (\<lambda>i. last_of h (F i)) [j..<n]) sk = Some sk' \<and> same_shape sk sk'
    \<and> (\<forall>i. j \<le> i \<and> i < n \<longrightarrow> path sk' i h (F i @ q # G i))
    \<and> (\<forall>i r. \<not> (j \<le> i \<and> i < n) \<longrightarrow> get_forward sk' r i = get_forward sk r i)"
  using assms(1-3)
proof (induction "n - j" arbitrary: j sk)
  case 0
  then show ?case by auto
next
  case (Suc m)
  then have j: "j < n" by simp
  then have hj: "j < height sk q" using Suc.prems(1) by simp
  from link_one [OF Suc.prems(3) [OF order.refl j] assms(4) [of j] assms(5) [of j] hj] obtain f sk1 sk2 where one:
    "get_forward sk (last_of h (F j)) j = Some f" "set_forward sk q j f = Some sk1"
    "set_forward sk1 (last_of h (F j)) j (Some q) = Some sk2" "same_shape sk sk2" "path sk2 j h (F j @ q # G j)"
    "\<And>r i. i \<noteq> j \<Longrightarrow> get_forward sk2 r i = get_forward sk r i"
    by blast
  have "m = n - Suc j" "n \<le> height sk2 q" "Suc j \<le> n"
    using Suc.hyps(2) Suc.prems(1) one(4) j by (simp_all add: same_shape_def)
  moreover have "path sk2 i h (F i @ G i)" if "Suc j \<le> i" "i < n" for i
    using Suc.prems(3) [of i] that path_cong [of h "F i @ G i" sk2 i sk] one(6) [of i] by simp
  ultimately obtain sk' where sk': "link_levels q (Suc j) (map (\<lambda>i. last_of h (F i)) [Suc j..<n]) sk2 = Some sk'"
    "same_shape sk2 sk'" "\<forall>i. Suc j \<le> i \<and> i < n \<longrightarrow> path sk' i h (F i @ q # G i)"
    "\<forall>i r. \<not> (Suc j \<le> i \<and> i < n) \<longrightarrow> get_forward sk' r i = get_forward sk2 r i"
    using Suc.hyps(1) by blast
  have "path sk' j h (F j @ q # G j)"
    using one(5) path_cong [of h "F j @ q # G j" sk' j sk2] sk'(4) by simp
  then have "\<forall>i. j \<le> i \<and> i < n \<longrightarrow> path sk' i h (F i @ q # G i)"
    using sk'(3) by (metis Suc_leI le_neq_implies_less)
  moreover have "link_levels q j (map (\<lambda>i. last_of h (F i)) [j..<n]) sk = Some sk'"
    using one(1-3) sk'(1) j by (simp add: upt_conv_Cons)
  moreover have "\<forall>i r. \<not> (j \<le> i \<and> i < n) \<longrightarrow> get_forward sk' r i = get_forward sk r i"
    using sk'(4) one(6) by (metis Suc_leD j order.refl)
  ultimately show ?case
    using same_shape_trans [OF one(4) sk'(2)] by blast
qed

section \<open>Insertion\<close>

lemma random_level_returns:
  assumes "4 * uint (random n AND 0xFFFF) \<ge> 0xFFFF" "d \<le> n"
  shows "\<exists>l' d'. random_level_loop random d l = Some (l', d') \<and> l \<le> l'"
  using assms(2)
proof (induction "n - d" arbitrary: d l)
  case 0
  with assms(1) show ?case by (subst random_level_loop.simps) simp
next
  case (Suc m)
  then have "m = n - (d + 1)" "d + 1 \<le> n" by simp_all
  from Suc.hyps(1) [OF this, of "l + 1"] obtain l' d' where "random_level_loop random (d + 1) (l + 1) = Some (l', d')" "l + 1 \<le> l'"
    by blast
  then show ?case
    by (subst random_level_loop.simps) auto
qed

definition draws_end :: "(nat \<Rightarrow> u32) \<Rightarrow> 'a skiplist \<Rightarrow> bool" where
  "draws_end random sk \<longleftrightarrow> (\<exists>n \<ge> sk_draws sk. 4 * uint (random n AND 0xFFFF) \<ge> 0xFFFF)"

lemma skiplist_random_level_ok:
  assumes "draws_end random sk"
  obtains level draws where "skiplist_random_level random sk = Some (level, sk\<lparr>sk_draws := draws\<rparr>)" "1 \<le> level" "level \<le> SKIPLIST_MAX_LEVEL"
proof -
  from assms obtain n where "4 * uint (random n AND 0xFFFF) \<ge> 0xFFFF" "sk_draws sk \<le> n"
    by (auto simp: draws_end_def)
  from random_level_returns [where random = random, OF this, of 1] obtain level draws where l: "random_level_loop random (sk_draws sk) 1 = Some (level, draws)"
      and "1 \<le> level"
    by blast
  with l show thesis
    by (intro that [of "if level < SKIPLIST_MAX_LEVEL then level else SKIPLIST_MAX_LEVEL" draws])
      (auto simp: skiplist_random_level_def SKIPLIST_MAX_LEVEL_def)
qed

lemma sk_ok_path:
  assumes "sk_ok sk (A @ B)" "i < SKIPLIST_MAX_LEVEL"
  shows "path sk i (sk_header sk) (filter (\<lambda>p. i < height sk p) A @ filter (\<lambda>p. i < height sk p) B)"
  using sk_okD(7) [OF assms] by simp

lemma above_level:
  assumes "sk_ok sk (A @ B)" "sk_level sk \<le> i"
  shows "filter (\<lambda>p. i < height sk p) A = []" "filter (\<lambda>p. i < height sk p) B = []"
  using sk_okD(4) [OF assms(1)] assms(2) by (fastforce simp: filter_empty_conv)+

lemma descend_start:
  assumes "sk_ok sk (A @ B)" "\<forall>p \<in> set A. before (the (node_value sk p))" "\<forall>p \<in> set B. \<not> before (the (node_value sk p))"
  shows "descend before sk (sk_level sk) (sk_header sk) [] = Some (last_of (sk_header sk) A,
    map (\<lambda>i. last_of (sk_header sk) (filter (\<lambda>p. i < height sk p) A)) [0..<sk_level sk])"
  using descend_ok [OF assms sk_okD(6) [OF assms(1)], of "sk_header sk" "[]"] sk_okD(5) [OF assms(1)] by simp

text \<open>The second half of an insertion: the levels are linked.\<close>

definition insert_tail :: "'a \<Rightarrow> addr list \<Rightarrow> nat \<Rightarrow> 'a skiplist \<Rightarrow> (bool \<times> 'a skiplist) option" where
  "insert_tail v update lv sk =
     do { let update = update @ replicate (lv - sk_level sk) (sk_header sk);
          let sk = (if lv > sk_level sk then sk\<lparr>sk_level := lv\<rparr> else sk);
          let (node, sk) = skiplist_create_node lv (Some v) sk;
          sk \<leftarrow> link_levels node 0 (take lv update) sk;
          Some (True, sk\<lparr>sk_len := sk_len sk + 1\<rparr>) }"

lemma insert_by_tail: "skiplist_insert cmp random v sk =
    do { (node, update) \<leftarrow> descend (\<lambda>y. cmp y v \<le> 0) sk (sk_level sk) (sk_header sk) [];
         if (case node_value sk node of Some y \<Rightarrow> cmp y v = 0 | None \<Rightarrow> False) then Some (False, sk)
         else do { (lv, sk) \<leftarrow> skiplist_random_level random sk; insert_tail v update lv sk } }"
  unfolding skiplist_insert_def insert_tail_def Let_def bind_assoc by simp

lemma insert_new:
  assumes ok: "sk_ok sk (A @ B)" and lv: "1 \<le> lv" "lv \<le> SKIPLIST_MAX_LEVEL"
    and upd: "update = map (\<lambda>i. last_of (sk_header sk) (filter (\<lambda>p. i < height sk p) A)) [0..<sk_level sk]"
  obtains q sk' where "insert_tail v update lv (sk\<lparr>sk_draws := draws\<rparr>) = Some (True, sk')"
    "sk_ok sk' (A @ q # B)" "sk_values sk' (A @ q # B) = sk_values sk A @ v # sk_values sk B"
proof -
  let ?h = "sk_header sk" and ?F = "\<lambda>i. filter (\<lambda>p. i < height sk p) A" and ?G = "\<lambda>i. filter (\<lambda>p. i < height sk p) B"
  define q where "q = sk_next sk"
  define sk3 where "sk3 = sk\<lparr>sk_draws := draws, sk_level := max lv (sk_level sk),
    sk_nodes := (sk_nodes sk)(q \<mapsto> \<lparr> sn_value = Some v, sn_forward = replicate lv None \<rparr>), sk_next := sk_next sk + 1\<rparr>"
  have none: "sk_nodes sk q = None" by (simp add: q_def sk_okD(9) [OF ok])
  have "q \<noteq> ?h"
    using none sk_okD(10) [OF ok] by (auto simp: height_def SKIPLIST_MAX_LEVEL_def)
  moreover have "q \<notin> set (A @ B)"
    using none sk_okD(2) [OF ok, of q] by (auto simp: node_value_def)
  ultimately have q: "q \<notin> set (?h # A @ B)" by simp
  have h3: "height sk3 = (height sk)(q := lv)" and v3: "node_value sk3 = (node_value sk)(q := Some v)"
    by (auto simp: sk3_def height_def node_value_def)
  have f3: "get_forward sk3 r i = get_forward sk r i" if "r \<noteq> q" for r i
    using that by (simp add: sk3_def get_forward_def)
  have len: "take lv (update @ replicate (lv - sk_level sk) ?h) = map (\<lambda>i. last_of ?h (?F i)) [0..<lv]"
  proof (cases "lv \<le> sk_level sk")
    case True
    then show ?thesis by (simp add: upd take_map take_upt)
  next
    case False
    have "map (\<lambda>i. last_of ?h (?F i)) [sk_level sk..<lv] = replicate (lv - sk_level sk) ?h"
      using above_level(1) [OF ok] by (intro nth_equalityI) auto
    moreover have "[0..<lv] = [0..<sk_level sk] @ [sk_level sk..<lv]"
      using False by (metis le_add_diff_inverse2 linear upt_add_eq_append zero_le add.commute le0)
    ultimately show ?thesis using False by (simp add: upd)
  qed
  have paths: "path sk3 i ?h (?F i @ ?G i)" if "i < SKIPLIST_MAX_LEVEL" for i
  proof -
    have "path sk3 i ?h (?F i @ ?G i) \<longleftrightarrow> path sk i ?h (?F i @ ?G i)"
      by (rule path_cong, rule f3) (use q in auto)
    with sk_ok_path [OF ok that] show ?thesis by simp
  qed
  have "\<exists>sk4. link_levels q 0 (map (\<lambda>i. last_of ?h (?F i)) [0..<lv]) sk3 = Some sk4 \<and> same_shape sk3 sk4
      \<and> (\<forall>i. 0 \<le> i \<and> i < lv \<longrightarrow> path sk4 i ?h (?F i @ q # ?G i))
      \<and> (\<forall>i r. \<not> (0 \<le> i \<and> i < lv) \<longrightarrow> get_forward sk4 r i = get_forward sk3 r i)"
  proof (rule link_levels_ok)
    show "lv \<le> height sk3 q" by (simp add: h3)
    show "\<And>i. 0 \<le> i \<Longrightarrow> i < lv \<Longrightarrow> path sk3 i ?h (?F i @ ?G i)" using paths lv(2) by simp
    show "\<And>i. distinct (?h # ?F i @ ?G i)" using sk_okD(1) [OF ok] by auto
    show "\<And>i. q \<notin> set (?h # ?F i @ ?G i)" using q by auto
  qed simp
  then obtain sk4 where sk4: "link_levels q 0 (map (\<lambda>i. last_of ?h (?F i)) [0..<lv]) sk3 = Some sk4" "same_shape sk3 sk4"
    "\<And>i. i < lv \<Longrightarrow> path sk4 i ?h (?F i @ q # ?G i)" "\<And>i r. \<not> i < lv \<Longrightarrow> get_forward sk4 r i = get_forward sk3 r i"
    by auto
  define sk' where "sk' = sk4\<lparr>sk_len := sk_len sk4 + 1\<rparr>"
  have hv: "height sk' = (height sk)(q := lv)" "node_value sk' = (node_value sk)(q := Some v)"
  proof -
    have "height sk' = height sk4" "node_value sk' = node_value sk4"
      by (simp_all add: sk'_def height_def [abs_def] node_value_def [abs_def])
    with sk4(2) show "height sk' = (height sk)(q := lv)" "node_value sk' = (node_value sk)(q := Some v)"
      by (simp_all add: same_shape_def h3 v3)
  qed
  have g: "get_forward sk' = get_forward sk4"
    by (simp add: sk'_def get_forward_def [abs_def])
  have fields: "sk_header sk' = ?h" "sk_level sk' = max lv (sk_level sk)" "sk_len sk' = sk_len sk + 1" "sk_next sk' = sk_next sk + 1"
    using sk4(2) by (simp_all add: same_shape_def sk'_def sk3_def)
  have p': "path sk' i p ps \<longleftrightarrow> path sk4 i p ps" for i p ps
    by (rule path_cong) (simp add: g)
  have filters: "filter (\<lambda>p. i < height sk' p) (A @ q # B) = ?F i @ (if i < lv then q # ?G i else ?G i)" for i
  proof -
    have same: "filter (\<lambda>p. i < height sk' p) xs = filter (\<lambda>p. i < height sk p) xs" if "q \<notin> set xs" for xs
      by (rule filter_cong) (use that in \<open>auto simp: hv\<close>)
    have "q \<notin> set A" "q \<notin> set B" "height sk' q = lv" using q by (simp_all add: hv)
    then show ?thesis by (simp add: same)
  qed
  have "path sk' i ?h (filter (\<lambda>p. i < height sk' p) (A @ q # B))" if "i < SKIPLIST_MAX_LEVEL" for i
  proof (cases "i < lv")
    case True
    then show ?thesis unfolding filters p' using sk4(3) by simp
  next
    case False
    have "path sk4 i ?h (?F i @ ?G i) \<longleftrightarrow> path sk3 i ?h (?F i @ ?G i)"
      by (rule path_cong) (rule sk4(4) [OF False])
    with paths [OF that] False show ?thesis unfolding filters p' by simp
  qed
  moreover have "\<forall>p. sk_next sk' \<le> p \<longrightarrow> sk_nodes sk' p = None"
  proof (intro allI impI)
    fix p assume "sk_next sk' \<le> p"
    then have "p \<noteq> q" "sk_nodes sk p = None" using sk_okD(9) [OF ok] by (auto simp: fields q_def)
    then have "p \<notin> dom (sk_nodes sk3)" by (auto simp: sk3_def)
    then show "sk_nodes sk' p = None"
      using sk4(2) by (auto simp: same_shape_def sk'_def)
  qed
  ultimately have "sk_ok sk' (A @ q # B)"
    using q sk_okD [OF ok] lv unfolding sk_ok_def fields hv by (auto simp: le_max_iff_disj)
  moreover have "sk_values sk' (A @ q # B) = sk_values sk A @ v # sk_values sk B"
    using q by (auto simp: sk_values_def hv)
  moreover have create: "skiplist_create_node lv (Some v) (if sk_level sk < lv then sk\<lparr>sk_draws := draws, sk_level := lv\<rparr>
      else sk\<lparr>sk_draws := draws\<rparr>) = (q, sk3)"
    by (cases sk) (auto simp: skiplist_create_node_def sk3_def q_def max_def)
  ultimately show thesis
    using sk4(1) by (intro that [of sk' q])
      (simp_all add: insert_tail_def sk'_def Let_def len create split del: if_split del: take_append last.simps)
qed

section \<open>Deletion\<close>

lemma unlink_one:
  assumes "path sk i h (F @ x # G)" "distinct (h # F @ x # G)"
  obtains r sk1 where "get_forward sk (last_of h F) i = Some (Some x)" "get_forward sk x i = Some r"
    "set_forward sk (last_of h F) i r = Some sk1" "same_shape sk sk1" "path sk1 i h (F @ G)"
    "\<And>r j. j \<noteq> i \<Longrightarrow> get_forward sk1 r j = get_forward sk r j"
proof -
  let ?u = "last_of h F"
  have all: "list_all2 (\<lambda>r q. get_forward sk r i = Some q) (butlast (h # F)) (map Some F)"
    and u: "get_forward sk ?u i = Some (Some x)" and x: "path sk i x G"
    using assms(1) by (simp_all add: path_append)
  have "get_forward sk x i \<noteq> None" using x by (cases G) simp_all
  then obtain r where r: "get_forward sk x i = Some r" by blast
  obtain sk1 where sk1: "set_forward sk ?u i r = Some sk1" "same_shape sk sk1"
    "\<And>r' j. get_forward sk1 r' j = (if r' = ?u \<and> j = i then Some r else get_forward sk r' j)"
    using set_forward_ok [OF path_height [OF assms(1)]] by blast
  have uF: "?u \<in> set (h # F)" by (rule last_in_set) simp
  then have uG: "?u \<notin> set (x # G)" using assms(2) by auto
  have ubut: "?u \<notin> set (butlast (h # F))"
    using assms(2) by (intro last_not_butlast) simp
  have "list_all2 (\<lambda>r q. get_forward sk1 r i = Some q) (butlast (h # F)) (map Some F)"
  proof (rule list.rel_mono_strong [OF all])
    fix r' y assume r': "r' \<in> set (butlast (h # F))" "get_forward sk r' i = Some y"
    then have "r' \<noteq> ?u" using ubut by auto
    with r'(2) show "get_forward sk1 r' i = Some y" by (simp add: sk1(3))
  qed
  moreover have "path sk1 i ?u G"
  proof (cases G)
    case Nil
    with x r show ?thesis by (simp add: sk1(3))
  next
    case (Cons g gs)
    have "path sk1 i g gs \<longleftrightarrow> path sk i g gs"
      by (rule path_cong) (use uG Cons in \<open>auto simp: sk1(3)\<close>)
    with x r Cons show ?thesis by (simp add: sk1(3))
  qed
  ultimately have "path sk1 i h (F @ G)" by (simp add: path_append)
  then show thesis
    by (rule that [OF u r sk1(1,2)]) (simp add: sk1(3))
qed

lemma unlink_step:
  assumes "path sk j h (F @ (if j < hx then x # G else G))" "distinct (h # F @ x # G)"
  obtains q sk1 where "get_forward sk (last_of h F) j = Some q"
    "(if q = Some x then do { r \<leftarrow> get_forward sk x j; set_forward sk (last_of h F) j r } else Some sk) = Some sk1"
    "same_shape sk sk1" "path sk1 j h (F @ G)" "\<And>i r. i \<noteq> j \<Longrightarrow> get_forward sk1 r i = get_forward sk r i"
proof (cases "j < hx")
  case True
  then have p: "path sk j h (F @ x # G)" using assms(1) by simp
  obtain r sk1 where o: "get_forward sk (last_of h F) j = Some (Some x)" "get_forward sk x j = Some r"
    "set_forward sk (last_of h F) j r = Some sk1" "same_shape sk sk1" "path sk1 j h (F @ G)"
    "\<And>r i. i \<noteq> j \<Longrightarrow> get_forward sk1 r i = get_forward sk r i"
    using unlink_one [OF p assms(2)] by blast
  have "(if Some x = Some x then do { r \<leftarrow> get_forward sk x j; set_forward sk (last_of h F) j r } else Some sk) = Some sk1"
    by (simp only: o(2,3) bind.bind_lunit if_True refl)
  from that [OF o(1) this o(4,5)] o(6) show thesis by blast
next
  case False
  then have p: "path sk j h (F @ G)" using assms(1) by simp
  then have "path sk j (last_of h F) G" by (simp add: path_append)
  moreover have "x \<notin> set G" using assms(2) by simp
  ultimately obtain q where "get_forward sk (last_of h F) j = Some q" "q \<noteq> Some x" by (cases G) auto
  with p show thesis by (intro that [of q sk]) simp_all
qed

lemma unlink_levels_ok:
  assumes "j \<le> n" "\<And>i. j \<le> i \<Longrightarrow> i < n \<Longrightarrow> path sk i h (F i @ (if i < hx then x # G i else G i))"
    and "\<And>i. distinct (h # F i @ x # G i)"
  shows "\<exists>sk'. unlink_levels x j (map (\<lambda>i. last_of h (F i)) [j..<n]) sk = Some sk' \<and> same_shape sk sk'
    \<and> (\<forall>i. j \<le> i \<and> i < n \<longrightarrow> path sk' i h (F i @ G i))
    \<and> (\<forall>i r. \<not> (j \<le> i \<and> i < n) \<longrightarrow> get_forward sk' r i = get_forward sk r i)"
  using assms(1,2)
proof (induction "n - j" arbitrary: j sk)
  case 0
  then show ?case by auto
next
  case (Suc m)
  then have j: "j < n" by simp
  let ?u = "last_of h (F j)"
  obtain q sk1 where q: "get_forward sk ?u j = Some q"
      "(if q = Some x then do { r \<leftarrow> get_forward sk x j; set_forward sk ?u j r } else Some sk) = Some sk1"
      "same_shape sk sk1" "path sk1 j h (F j @ G j)" "\<And>i r. i \<noteq> j \<Longrightarrow> get_forward sk1 r i = get_forward sk r i"
    using unlink_step [OF Suc.prems(2) [OF order.refl j] assms(3) [of j]] by blast
  have "m = n - Suc j" "Suc j \<le> n" using Suc.hyps(2) j by simp_all
  moreover have "path sk1 i h (F i @ (if i < hx then x # G i else G i))" if "Suc j \<le> i" "i < n" for i
    using Suc.prems(2) [of i] that path_cong [of h "F i @ (if i < hx then x # G i else G i)" sk1 i sk] q(5) [of i] by simp
  ultimately obtain sk' where sk': "unlink_levels x (Suc j) (map (\<lambda>i. last_of h (F i)) [Suc j..<n]) sk1 = Some sk'"
    "same_shape sk1 sk'" "\<forall>i. Suc j \<le> i \<and> i < n \<longrightarrow> path sk' i h (F i @ G i)"
    "\<forall>i r. \<not> (Suc j \<le> i \<and> i < n) \<longrightarrow> get_forward sk' r i = get_forward sk1 r i"
    using Suc.hyps(1) by blast
  have "path sk' j h (F j @ G j)"
    using q(4) path_cong [of h "F j @ G j" sk' j sk1] sk'(4) by simp
  then have "\<forall>i. j \<le> i \<and> i < n \<longrightarrow> path sk' i h (F i @ G i)"
    using sk'(3) by (metis Suc_leI le_neq_implies_less)
  moreover have "unlink_levels x j (map (\<lambda>i. last_of h (F i)) [j..<n]) sk = Some sk'"
    using q(1) sk'(1) j by (simp add: upt_conv_Cons q(2) split del: if_split del: last.simps)
  moreover have "\<forall>i r. \<not> (j \<le> i \<and> i < n) \<longrightarrow> get_forward sk' r i = get_forward sk r i"
    using sk'(4) q(5) by (metis Suc_leD j order.refl)
  ultimately show ?case
    using same_shape_trans [OF q(3) sk'(2)] by blast
qed

lemma shrink_level_ok:
  assumes "1 \<le> n"
  shows "1 \<le> shrink_level sk n \<and> shrink_level sk n \<le> n
    \<and> (\<forall>i. shrink_level sk n \<le> i \<and> i < n \<longrightarrow> get_forward sk (sk_header sk) i = Some None)"
  using assms
proof (induction n)
  case (Suc n)
  show ?case
  proof (cases "Suc n > 1 \<and> get_forward sk (sk_header sk) n = Some None")
    case True
    with Suc show ?thesis by (auto simp: less_Suc_eq)
  next
    case False
    then show ?thesis by auto
  qed
qed simp

definition delete_tail :: "addr \<Rightarrow> addr list \<Rightarrow> 'a skiplist \<Rightarrow> 'a skiplist option" where
  "delete_tail x update sk =
     do { sk \<leftarrow> unlink_levels x 0 update sk;
          let sk = sk\<lparr>sk_level := shrink_level sk (sk_level sk)\<rparr>;
          Some (sk\<lparr>sk_nodes := (sk_nodes sk)(x := None), sk_len := sk_len sk - 1\<rparr>) }"

lemma delete_by_tail: "skiplist_delete cmp x sk =
    do { value \<leftarrow> node_value sk x;
         (node, update) \<leftarrow> descend (\<lambda>y. cmp y value < 0) sk (sk_level sk) (sk_header sk) [];
         delete_tail x update sk }"
  by (simp add: skiplist_delete_def delete_tail_def)

lemma delete_node:
  assumes ok: "sk_ok sk (A @ x # B)"
    and upd: "update = map (\<lambda>i. last_of (sk_header sk) (filter (\<lambda>p. i < height sk p) A)) [0..<sk_level sk]"
  obtains sk' where "delete_tail x update sk = Some sk'"
    "sk_ok sk' (A @ B)" "sk_values sk' (A @ B) = sk_values sk (A @ B)"
proof -
  let ?h = "sk_header sk" and ?F = "\<lambda>i. filter (\<lambda>p. i < height sk p) A" and ?G = "\<lambda>i. filter (\<lambda>p. i < height sk p) B"
  have d: "distinct (?h # A @ x # B)" using sk_okD(1) [OF ok] .
  have "\<exists>sk1. unlink_levels x 0 (map (\<lambda>i. last_of ?h (?F i)) [0..<sk_level sk]) sk = Some sk1 \<and> same_shape sk sk1
    \<and> (\<forall>i. 0 \<le> i \<and> i < sk_level sk \<longrightarrow> path sk1 i ?h (?F i @ ?G i))
    \<and> (\<forall>i r. \<not> (0 \<le> i \<and> i < sk_level sk) \<longrightarrow> get_forward sk1 r i = get_forward sk r i)"
  proof (rule unlink_levels_ok [where hx = "height sk x"])
    show "path sk i ?h (?F i @ (if i < height sk x then x # ?G i else ?G i))" if "0 \<le> i" "i < sk_level sk" for i
      using sk_okD(7) [OF ok, of i] that sk_okD(6) [OF ok] by simp
    show "distinct (?h # ?F i @ x # ?G i)" for i using d by auto
  qed simp
  then obtain sk1 where sk1: "unlink_levels x 0 update sk = Some sk1" "same_shape sk sk1"
    "\<And>i. i < sk_level sk \<Longrightarrow> path sk1 i ?h (?F i @ ?G i)" "\<And>i r. \<not> i < sk_level sk \<Longrightarrow> get_forward sk1 r i = get_forward sk r i"
    by (auto simp: upd)
  have paths: "path sk1 i ?h (?F i @ ?G i)" if "i < SKIPLIST_MAX_LEVEL" for i
  proof (cases "i < sk_level sk")
    case True
    then show ?thesis by (rule sk1(3))
  next
    case False
    then have "path sk i ?h (?F i @ ?G i)"
      using sk_okD(7) [OF ok that] above_level(2) [OF ok, of i] by (simp split: if_splits)
    with path_cong [of ?h "?F i @ ?G i" sk1 i sk] sk1(4) [OF False] show ?thesis by simp
  qed
  define l where "l = shrink_level sk1 (sk_level sk)"
  define sk' where "sk' = sk1\<lparr>sk_level := l, sk_nodes := (sk_nodes sk1)(x := None), sk_len := sk_len sk1 - 1\<rparr>"
  have shape: "sk_header sk1 = ?h" "sk_level sk1 = sk_level sk" "height sk1 = height sk" "node_value sk1 = node_value sk"
      "sk_len sk1 = sk_len sk" "sk_next sk1 = sk_next sk" "dom (sk_nodes sk1) = dom (sk_nodes sk)"
    using sk1(2) by (simp_all add: same_shape_def)
  have l: "1 \<le> l" "l \<le> sk_level sk" "\<And>i. l \<le> i \<Longrightarrow> i < sk_level sk \<Longrightarrow> get_forward sk1 ?h i = Some None"
    using shrink_level_ok [OF sk_okD(5) [OF ok], of sk1] by (simp_all add: l_def shape)
  have old: "height sk' p = height sk p" "node_value sk' p = node_value sk p" "get_forward sk' p i = get_forward sk1 p i" if "p \<noteq> x" for p i
    using that fun_cong [OF shape(3), of p] fun_cong [OF shape(4), of p]
    by (simp_all add: sk'_def height_def node_value_def get_forward_def)
  have oldAB: "height sk' p = height sk p" "node_value sk' p = node_value sk p" if "p \<in> set (A @ B)" for p
    using old(1,2) [of p] that d by auto
  have low: "height sk p \<le> l" if "p \<in> set (A @ B)" for p
  proof (rule ccontr)
    assume "\<not> height sk p \<le> l"
    moreover have "height sk p \<le> sk_level sk" using sk_okD(4) [OF ok, of p] that by auto
    ultimately have lt: "l < height sk p" "l < sk_level sk" by simp_all
    then have "p \<in> set (?F l @ ?G l)" using that by auto
    moreover have "get_forward sk1 ?h l = Some None" using l(3) lt(2) by simp
    with sk1(3) [OF lt(2)] have "?F l @ ?G l = []" by (cases "?F l @ ?G l") auto
    ultimately show False by simp
  qed
  have "path sk' i ?h (filter (\<lambda>p. i < height sk' p) (A @ B))" if "i < SKIPLIST_MAX_LEVEL" for i
  proof -
    have "filter (\<lambda>p. i < height sk' p) (A @ B) = ?F i @ ?G i"
      unfolding filter_append using oldAB by (intro arg_cong2 [where f = "(@)"] filter_cong) auto
    moreover have "path sk' i ?h (?F i @ ?G i) \<longleftrightarrow> path sk1 i ?h (?F i @ ?G i)"
      by (rule path_cong, rule old(3)) (use d in auto)
    ultimately show ?thesis using paths [OF that] by simp
  qed
  moreover have "\<forall>p. sk_next sk' \<le> p \<longrightarrow> sk_nodes sk' p = None"
    using sk_okD(9) [OF ok] shape(6,7) by (auto simp: sk'_def)
  moreover have "sk_header sk' = ?h" "sk_level sk' = l" "sk_len sk' = sk_len sk - 1" "?h \<noteq> x"
    using d by (auto simp: sk'_def shape)
  ultimately have "sk_ok sk' (A @ B)"
    using d sk_okD [OF ok] low l(1,2) old oldAB unfolding sk_ok_def by auto
  moreover have "sk_values sk' (A @ B) = sk_values sk (A @ B)"
    using oldAB(2) by (auto simp: sk_values_def)
  ultimately show thesis
    using sk1(1) by (intro that [of sk']) (simp_all add: delete_tail_def sk'_def l_def Let_def shape)
qed

section \<open>The operations on a sorted list\<close>

lemma skiplist_create_ok: "sk_ok skiplist_create []"
  by (simp add: sk_ok_def skiplist_create_def skiplist_create_node_def SKIPLIST_MAX_LEVEL_def height_def node_value_def
      get_forward_def Let_def)

lemma header_value: "sk_ok sk (A @ B) \<Longrightarrow> node_value sk (last_of (sk_header sk) A)
    = (if A = [] then None else Some (last (sk_values sk A)))"
  using sk_okD(2,11) [of sk "A @ B"] by (auto simp: sk_values_def last_map)

lemma path_nth:
  assumes "path sk i p qs" "k < length qs"
  shows "get_forward sk (qs ! k) i = Some (if Suc k < length qs then Some (qs ! Suc k) else None)"
  using assms
proof (induction qs arbitrary: p k)
  case (Cons q qs)
  then show ?case by (cases k; cases qs) auto
qed simp

lemma iterator_ok:
  assumes "sk_ok sk ps"
  shows "skiplist_get_iterator sk = Some (if ps = [] then None else Some (hd ps))"
    "k < length ps \<Longrightarrow> skiplist_next sk (Some (ps ! k)) = Some (Some (ps ! k), if Suc k < length ps then Some (ps ! Suc k) else None)"
proof -
  have "filter (\<lambda>p. 0 < height sk p) ps = ps"
    using sk_okD(3) [OF assms] by (fastforce simp: filter_id_conv)
  then have path: "path sk 0 (sk_header sk) ps"
    using sk_okD(7) [OF assms, of 0] by (simp add: SKIPLIST_MAX_LEVEL_def)
  then show "skiplist_get_iterator sk = Some (if ps = [] then None else Some (hd ps))"
    by (cases ps) (simp_all add: skiplist_get_iterator_def)
  from path_nth [OF path, of k] show "k < length ps \<Longrightarrow> skiplist_next sk (Some (ps ! k)) = Some (Some (ps ! k), if Suc k < length ps then Some (ps ! Suc k) else None)"
    by (simp add: skiplist_next_def)
qed

context ordered_by begin

lemma split_nodes:
  assumes "sk_ok sk ps" "set (sk_values sk ps) \<subseteq> A" "sorted_by (sk_values sk ps)" "v \<in> A"
  obtains F G where "ps = F @ G" "sl_before cmp v (sk_values sk ps) = sk_values sk F"
    "\<forall>p \<in> set F. cmp (the (node_value sk p)) v \<le> 0" "\<forall>p \<in> set G. \<not> cmp (the (node_value sk p)) v \<le> 0"
proof -
  let ?P = "\<lambda>p. cmp (the (node_value sk p)) v \<le> 0"
  let ?F = "takeWhile ?P ps" and ?G = "dropWhile ?P ps"
  have pre: "sl_before cmp v (sk_values sk ps) = sk_values sk ?F"
    by (simp add: sl_before_def sk_values_def takeWhile_map o_def)
  obtain pre post where xs: "sk_values sk ps = pre @ post" "sl_before cmp v (sk_values sk ps) = pre"
    "\<And>y. y \<in> set pre \<Longrightarrow> cmp y v \<le> 0" "\<And>y. y \<in> set post \<Longrightarrow> cmp v y < 0"
    using before_split [OF assms(2-4)] by blast
  have "sk_values sk ps = sk_values sk ?F @ sk_values sk ?G"
    unfolding sk_values_def map_append [symmetric] takeWhile_dropWhile_id ..
  with xs(1,2) pre have post: "post = sk_values sk ?G" by simp
  have "\<not> ?P p" if "p \<in> set ?G" for p
  proof -
    have y: "the (node_value sk p) \<in> set post" using that by (auto simp: post sk_values_def)
    then have "the (node_value sk p) \<in> A" using xs(1) assms(2) by auto
    then show ?thesis using xs(4) [OF y] cmp_swap [OF assms(4)] by fastforce
  qed
  moreover have "?P p" if "p \<in> set ?F" for p using set_takeWhileD [OF that] by simp
  moreover have "ps = ?F @ ?G" by simp
  ultimately show thesis using pre by (intro that [of ?F ?G]) blast+
qed

lemma insert_refines:
  assumes ok: "sk_ok sk ps" and xs: "set (sk_values sk ps) \<subseteq> A" "sorted_by (sk_values sk ps)" "v \<in> A" and rnd: "draws_end random sk"
  obtains r sk' ps' where "skiplist_insert cmp random v sk = Some (r, sk')" "sk_ok sk' ps'"
    "(if r then Some (sk_values sk' ps') else None) = sl_insert cmp v (sk_values sk ps)" "\<not> r \<Longrightarrow> sk' = sk \<and> ps' = ps"
proof -
  from split_nodes [OF ok xs] obtain F G where FG: "ps = F @ G" "sl_before cmp v (sk_values sk ps) = sk_values sk F"
    "\<forall>p \<in> set F. cmp (the (node_value sk p)) v \<le> 0" "\<forall>p \<in> set G. \<not> cmp (the (node_value sk p)) v \<le> 0" .
  have ok': "sk_ok sk (F @ G)" using ok FG(1) by simp
  note d = descend_start [OF ok' FG(3,4)]
  have last: "node_value sk (last_of (sk_header sk) F) = (if F = [] then None else Some (last (sk_values sk F)))"
    by (rule header_value [OF ok'])
  have empty: "sk_values sk F = [] \<longleftrightarrow> F = []" by (simp add: sk_values_def)
  show thesis
  proof (cases "F \<noteq> [] \<and> cmp (last (sk_values sk F)) v = 0")
    case True
    then have "skiplist_insert cmp random v sk = Some (False, sk)" "sl_insert cmp v (sk_values sk ps) = None"
      using d last by (simp_all add: skiplist_insert_def sl_insert_def FG(2) empty del: last.simps)
    then show thesis using ok by (intro that [of False sk ps]) simp_all
  next
    case False
    obtain lv draws where r: "skiplist_random_level random sk = Some (lv, sk\<lparr>sk_draws := draws\<rparr>)" "1 \<le> lv" "lv \<le> SKIPLIST_MAX_LEVEL"
      using skiplist_random_level_ok [OF rnd] by blast
    obtain q sk' where new: "insert_tail v (map (\<lambda>i. last_of (sk_header sk) (filter (\<lambda>p. i < height sk p) F)) [0..<sk_level sk]) lv
        (sk\<lparr>sk_draws := draws\<rparr>) = Some (True, sk')"
      "sk_ok sk' (F @ q # G)" "sk_values sk' (F @ q # G) = sk_values sk F @ v # sk_values sk G"
      by (rule insert_new [OF ok' r(2,3) refl])
    have "sk_values sk ps = sk_values sk F @ sk_values sk G" by (simp add: FG(1) sk_values_def)
    then have "sl_insert cmp v (sk_values sk ps) = Some (sk_values sk F @ v # sk_values sk G)"
      using False FG(2) empty by (auto simp: sl_insert_def Let_def)
    moreover have "skiplist_insert cmp random v sk = Some (True, sk')"
      using False d last r(1) new(1) by (auto simp: insert_by_tail split: if_splits)
    ultimately show thesis
      using new(2,3) by (intro that [of True sk' "F @ q # G"]) simp_all
  qed
qed

lemma find_refines:
  assumes ok: "sk_ok sk ps" and xs: "set (sk_values sk ps) \<subseteq> A" "sorted_by (sk_values sk ps)" "v \<in> A"
  obtains r where "skiplist_find cmp v sk = Some r" "map_option (\<lambda>p. the (node_value sk p)) r = sl_find cmp v (sk_values sk ps)"
    "\<And>p. r = Some p \<Longrightarrow> p \<in> set ps"
proof -
  from split_nodes [OF ok xs] obtain F G where FG: "ps = F @ G" "sl_before cmp v (sk_values sk ps) = sk_values sk F"
    "\<forall>p \<in> set F. cmp (the (node_value sk p)) v \<le> 0" "\<forall>p \<in> set G. \<not> cmp (the (node_value sk p)) v \<le> 0" .
  have ok': "sk_ok sk (F @ G)" using ok FG(1) by simp
  have last: "node_value sk (last_of (sk_header sk) F) = (if F = [] then None else Some (last (sk_values sk F)))"
    by (rule header_value [OF ok'])
  have empty: "sk_values sk F = [] \<longleftrightarrow> F = []" by (simp add: sk_values_def)
  let ?r = "if F \<noteq> [] \<and> cmp (last (sk_values sk F)) v = 0 then Some (last_of (sk_header sk) F) else None"
  have "skiplist_find cmp v sk = Some ?r"
    using descend_start [OF ok' FG(3,4)] last by (simp add: skiplist_find_def del: last.simps)
  moreover have "map_option (\<lambda>p. the (node_value sk p)) ?r = sl_find cmp v (sk_values sk ps)"
    using last by (auto simp: sl_find_def FG(2) empty Let_def)
  moreover have "\<And>p. ?r = Some p \<Longrightarrow> p \<in> set ps"
    by (auto simp: FG(1) split: if_splits)
  ultimately show thesis by (rule that)
qed

lemma delete_refines:
  assumes ok: "sk_ok sk ps" and xs: "set (sk_values sk ps) \<subseteq> A" "sorted_by (sk_values sk ps)" and p: "p \<in> set ps"
  obtains sk' where "skiplist_delete cmp p sk = Some sk'" "sk_ok sk' (remove1 p ps)"
    "sk_values sk' (remove1 p ps) = sl_delete cmp (the (node_value sk p)) (sk_values sk ps)"
proof -
  let ?v = "the (node_value sk p)"
  obtain F G where FG: "ps = F @ p # G" "p \<notin> set F" using split_list_first [OF p] by blast
  have ok': "sk_ok sk (F @ p # G)" using ok FG(1) by simp
  have vs: "sk_values sk ps = sk_values sk F @ ?v # sk_values sk G" by (simp add: FG(1) sk_values_def)
  have v: "?v \<in> A" using xs(1) vs by auto
  then have "\<not> cmp ?v ?v < 0" using cmp_eq [of ?v ?v] by simp
  moreover have "\<forall>q \<in> set F. cmp (the (node_value sk q)) ?v < 0" "\<forall>q \<in> set G. cmp ?v (the (node_value sk q)) < 0"
    using xs(2) by (auto simp: FG(1) sk_values_def sorted_wrt_append sorted_wrt_map)
  moreover have "\<forall>q \<in> set G. the (node_value sk q) \<in> A" using xs(1) by (auto simp: FG(1) sk_values_def)
  ultimately have parts: "\<forall>q \<in> set F. cmp (the (node_value sk q)) ?v < 0" "\<forall>q \<in> set (p # G). \<not> cmp (the (node_value sk q)) ?v < 0"
    using cmp_swap v by fastforce+
  note d = descend_start [OF ok' parts]
  obtain sk' where rest: "delete_tail p (map (\<lambda>i. last_of (sk_header sk) (filter (\<lambda>p. i < height sk p) F)) [0..<sk_level sk]) sk = Some sk'"
    "sk_ok sk' (F @ G)" "sk_values sk' (F @ G) = sk_values sk (F @ G)"
    by (rule delete_node [OF ok' refl])
  obtain w where "node_value sk p = Some w" using sk_okD(2) [OF ok p] by blast
  with d rest(1) have "skiplist_delete cmp p sk = Some sk'"
    by (simp add: delete_by_tail)
  moreover have "remove1 p ps = F @ G" using FG by (simp add: remove1_append)
  moreover have "sl_delete cmp ?v (sk_values sk ps) = sk_values sk F @ sk_values sk G"
  proof -
    have "\<forall>y \<in> set (sk_values sk F). cmp y ?v < 0" "\<not> cmp ?v ?v < 0" using parts by (auto simp: sk_values_def)
    then show ?thesis by (simp add: sl_delete_def vs takeWhile_append2 dropWhile_append2)
  qed
  moreover have "sk_values sk (F @ G) = sk_values sk F @ sk_values sk G" by (simp add: sk_values_def)
  ultimately show thesis
    using rest(2,3) by (intro that [of sk']) simp_all
qed

lemma do_refines:
  assumes ok: "sk_ok sk ps" and xs: "set (sk_values sk ps) \<subseteq> A" "sorted_by (sk_values sk ps)"
    and v: "sl_op_value op \<in> A" and rnd: "\<And>d. \<exists>n \<ge> d. 4 * uint (random n AND 0xFFFF) \<ge> 0xFFFF"
  obtains sk' ps' where "sl_do cmp random op sk = Some (fst (set_do op (set (sk_values sk ps))), sk')" "sk_ok sk' ps'"
    "set (sk_values sk' ps') = snd (set_do op (set (sk_values sk ps)))" "sorted_by (sk_values sk' ps')"
proof (cases op)
  case (Insert w)
  then have w: "w \<in> A" using v by simp
  have "draws_end random sk" using rnd by (simp add: draws_end_def)
  from insert_refines [OF ok xs w this] obtain r sk' ps' where i: "skiplist_insert cmp random w sk = Some (r, sk')" "sk_ok sk' ps'"
    "(if r then Some (sk_values sk' ps') else None) = sl_insert cmp w (sk_values sk ps)" "\<not> r \<Longrightarrow> sk' = sk \<and> ps' = ps" by metis
  show thesis
  proof (cases "w \<in> set (sk_values sk ps)")
    case True
    then have "\<not> r" using insert_member(1) [OF xs w] i(3) by (auto split: if_splits)
    with True i Insert xs show thesis by (intro that [of sk' ps']) (auto simp: sl_do_def)
  next
    case False
    from insert_member(2) [OF xs w False] obtain pre post where l: "sk_values sk ps = pre @ post"
      "sl_insert cmp w (sk_values sk ps) = Some (pre @ w # post)" "sorted_by (pre @ w # post)" by blast
    then have "r" "sk_values sk' ps' = pre @ w # post" using i(3) by (auto split: if_splits)
    with False i(1,2) l Insert show thesis by (intro that [of sk' ps']) (auto simp: sl_do_def)
  qed
next
  case (Lookup w)
  then have w: "w \<in> A" using v by simp
  from find_refines [OF ok xs w] obtain r where f: "skiplist_find cmp w sk = Some r"
    "map_option (\<lambda>p. the (node_value sk p)) r = sl_find cmp w (sk_values sk ps)" "\<And>p. r = Some p \<Longrightarrow> p \<in> set ps" by blast
  with find_member [OF xs w] have "r \<noteq> None \<longleftrightarrow> w \<in> set (sk_values sk ps)" by (auto split: if_splits)
  with ok xs f(1) Lookup show thesis by (intro that [of sk ps]) (auto simp: sl_do_def)
next
  case (Remove w)
  then have w: "w \<in> A" using v by simp
  from find_refines [OF ok xs w] obtain r where f: "skiplist_find cmp w sk = Some r"
    "map_option (\<lambda>p. the (node_value sk p)) r = sl_find cmp w (sk_values sk ps)" "\<And>p. r = Some p \<Longrightarrow> p \<in> set ps" by blast
  show thesis
  proof (cases r)
    case None
    then have "w \<notin> set (sk_values sk ps)" using f(2) find_member [OF xs w] by (auto split: if_splits)
    with ok xs f(1) Remove None show thesis by (intro that [of sk ps]) (auto simp: sl_do_def)
  next
    case (Some p)
    then have p: "p \<in> set ps" "the (node_value sk p) = w" "w \<in> set (sk_values sk ps)"
      using f find_member [OF xs w] by (auto split: if_splits)
    from delete_refines [OF ok xs p(1)] obtain sk' where d: "skiplist_delete cmp p sk = Some sk'" "sk_ok sk' (remove1 p ps)"
      "sk_values sk' (remove1 p ps) = sl_delete cmp w (sk_values sk ps)" by (auto simp: p(2))
    have "sk_values sk' (remove1 p ps) = remove1 w (sk_values sk ps)" using d(3) delete_member [OF xs p(3)] by simp
    then have "set (sk_values sk' (remove1 p ps)) = set (sk_values sk ps) - {w}" "sorted_by (sk_values sk' (remove1 p ps))"
      using sorted_remove1 [OF xs(2)] set_remove1_eq [OF sorted_distinct [OF xs]] by simp_all
    with f(1) d(1,2) p(3) Some Remove show thesis by (intro that [of sk' "remove1 p ps"]) (auto simp: sl_do_def)
  qed
qed

lemma run_refines:
  assumes "sk_ok sk ps" "set (sk_values sk ps) \<subseteq> A" "sorted_by (sk_values sk ps)" "sl_op_value ` set ops \<subseteq> A"
    and rnd: "\<And>d. \<exists>n \<ge> d. 4 * uint (random n AND 0xFFFF) \<ge> 0xFFFF"
  shows "\<exists>sk' ps'. sl_run cmp random ops sk = Some (fst (set_run ops (set (sk_values sk ps))), sk') \<and> sk_ok sk' ps'
    \<and> set (sk_values sk' ps') = snd (set_run ops (set (sk_values sk ps))) \<and> sorted_by (sk_values sk' ps')"
  using assms(1-4)
proof (induction ops arbitrary: sk ps)
  case Nil
  then show ?case by auto
next
  case (Cons op ops)
  then have v: "sl_op_value op \<in> A" by simp
  from do_refines [OF Cons.prems(1-3) v rnd] obtain sk1 ps1 where
    d: "sl_do cmp random op sk = Some (fst (set_do op (set (sk_values sk ps))), sk1)" "sk_ok sk1 ps1"
    "set (sk_values sk1 ps1) = snd (set_do op (set (sk_values sk ps)))" "sorted_by (sk_values sk1 ps1)" .
  have "snd (set_do op (set (sk_values sk ps))) \<subseteq> A"
    using v Cons.prems(2) by (cases op) auto
  with Cons.IH [OF d(2) _ d(4)] Cons.prems(4) d(1,3) show ?case
    by (auto simp: Let_def split: prod.splits)
qed

end

lemma set_run_bound:
  assumes "finite S"
  shows "finite (snd (set_run ops S))" "snd (set_run ops S) \<subseteq> S \<union> sl_op_value ` set ops"
    "card (snd (set_run ops S)) \<le> card S + length ops"
proof -
  have "finite (snd (set_run ops S)) \<and> snd (set_run ops S) \<subseteq> S \<union> sl_op_value ` set ops
      \<and> card (snd (set_run ops S)) \<le> card S + length ops"
    using assms
  proof (induction ops arbitrary: S)
    case (Cons op ops)
    have "finite (snd (set_do op S))" "snd (set_do op S) \<subseteq> insert (sl_op_value op) S" "card (snd (set_do op S)) \<le> Suc (card S)"
      using Cons.prems by (cases op; auto simp: card_insert_if intro: le_trans [OF card_Diff1_le])+
    with Cons.IH [of "snd (set_do op S)"] show ?case
      by (auto simp: Let_def split: prod.splits)
  qed simp
  then show "finite (snd (set_run ops S))" "snd (set_run ops S) \<subseteq> S \<union> sl_op_value ` set ops"
    "card (snd (set_run ops S)) \<le> card S + length ops" by auto
qed

section \<open>Walking through a list and releasing it\<close>

lemma walk_loop_ok:
  assumes "path sk 0 p qs" "\<And>q. q \<in> set qs \<Longrightarrow> node_value sk q \<noteq> None" "get_forward sk p 0 = Some it"
  shows "walk_loop sk it = Some (sk_values sk qs)"
  using assms
proof (induction qs arbitrary: p it)
  case Nil
  then show ?case by (subst walk_loop.simps) (simp add: skiplist_next_def sk_values_def)
next
  case (Cons q qs)
  then obtain r where r: "get_forward sk q 0 = Some r" by (cases qs) auto
  obtain v where "node_value sk q = Some v" using Cons.prems(2) [of q] by auto
  with r Cons.IH [of q r] Cons.prems show ?case
    by (subst walk_loop.simps) (auto simp: skiplist_next_def sk_values_def)
qed

lemma sk_ok_path0: "sk_ok sk ps \<Longrightarrow> path sk 0 (sk_header sk) ps"
proof -
  assume ok: "sk_ok sk ps"
  have "filter (\<lambda>p. 0 < height sk p) ps = ps"
    using sk_okD(3) [OF ok] by (fastforce simp: filter_id_conv)
  with sk_okD(7) [OF ok, of 0] show ?thesis by (simp add: SKIPLIST_MAX_LEVEL_def)
qed

lemma walk_ok:
  assumes "sk_ok sk ps"
  shows "skiplist_walk sk = Some (sk_values sk ps)"
  using walk_loop_ok [OF sk_ok_path0 [OF assms]] sk_okD(2) [OF assms] iterator_ok(1) [OF assms]
  by (auto simp: skiplist_walk_def skiplist_get_iterator_def)

lemma release_loop_ok:
  assumes "path sk 0 q qs" "distinct (q # qs)"
  shows "release_loop sk (Suc (length qs)) (Some q) = Some (q # qs)"
  using assms
proof (induction qs arbitrary: sk q)
  case (Cons q' qs)
  let ?sk = "sk\<lparr>sk_nodes := (sk_nodes sk)(q := None)\<rparr>"
  have "path ?sk 0 q' qs \<longleftrightarrow> path sk 0 q' qs"
    by (rule path_cong) (use Cons.prems(2) in \<open>auto simp: get_forward_def\<close>)
  with Cons.IH [of ?sk q'] Cons.prems show ?case by simp
qed simp

lemma release_ok:
  assumes "sk_ok sk ps" "length ps < 2 ^ 64"
  shows "skiplist_release sk = Some (ps @ [sk_header sk])"
proof -
  have n: "unat (sk_len sk) = length ps"
    using sk_okD(8) [OF assms(1)] assms(2) by (simp add: unat_of_nat take_bit_nat_eq_self)
  note path = sk_ok_path0 [OF assms(1)]
  show ?thesis
  proof (cases ps)
    case (Cons q qs)
    with path have "get_forward sk (sk_header sk) 0 = Some (Some q)" "path sk 0 q qs" by simp_all
    moreover have "distinct (q # qs)" using sk_okD(1) [OF assms(1)] Cons by simp
    ultimately show ?thesis using release_loop_ok [of sk q qs] n Cons by (simp add: skiplist_release_def)
  qed (use path n in \<open>simp add: skiplist_release_def\<close>)
qed

end
