(* ===== verification/Container_Props.thy ===== *)
theory Container_Props
  imports Dict_Facts Skiplist_Facts Examples
begin

text \<open>
  The two containers the engine is built on refine their mathematical counterparts: the hash table a
  map, the skiplist of a book a set that is walked in the order of the comparison.
\<close>

section \<open>The hash table\<close>

text \<open>C6. A hash table refines a map: from creation on (of at most \<open>2 ^ 31\<close> slots), with a comparison
  that is 0 exactly for equal keys, any sequence of fewer than \<open>2 ^ 32\<close> operations (find, add, replace,
  delete, mark all as cleared, clear) ends, whatever the hash function, however often the table grows
  and however the cleared entries are removed later; every result is the map's, and so is the content
  in the end.\<close>

theorem dict_refines_map:
  fixes type :: "'k dict_types" and ops :: "('k, 'v) dict_op list"
  assumes "\<And>a b. key_compare type a b = 0 \<longleftrightarrow> a = b" "init_size \<le> 2 ^ 31" "length ops < 2 ^ 32"
  shows "\<exists>dt dt'. dict_create type init_size = Some dt
           \<and> dict_run ops dt = Some (fst (map_run ops Map.empty), dt')
           \<and> dict_abs dt' = snd (map_run ops Map.empty)"
proof -
  have keys: "dict_keys type"
    using assms(1) by (rule dict_keys.intro)
  obtain dt :: "('k, 'v) dict_t" where dt: "dict_create type init_size = Some dt" "dict_ok type dt" "dict_room dt (length ops)"
    "dict_abs dt = Map.empty"
    using dict_keys.create_ok [OF keys assms(2,3)] by blast
  from dict_keys.run_ok [OF keys dt(2), of ops 0] dt show ?thesis
    by auto
qed

theorem dict_refines_map_witness:
  "\<exists>dt dt'. dict_create order_dict_types 1024 = Some dt
     \<and> dict_run [Add 7 ''a'', Add 7 ''b'', Replace 7 ''c'', MarkClear, Find 7, Add 7 ''d'', Find 7, Delete 7, Find 7] dt
         = Some ([Added True, Added False, Replaced 0, NoResult, Found None, Added True, Found (Some ''d''), NoResult, Found None], dt')
     \<and> dict_abs dt' = Map.empty"
  using dict_refines_map [OF order_dict.compare_eq, of 1024
      "[Add 7 ''a'', Add 7 ''b'', Replace 7 ''c'', MarkClear, Find 7, Add 7 ''d'', Find 7, Delete 7, Find 7]"]
  by (simp add: map_do_def Let_def)

section \<open>The skiplist of a book\<close>

text \<open>C5. The skiplist of one side of a market refines a sorted set: when \<open>random\<close> does not stay below
  a quarter forever, any sequence of insertions, look-ups and deletions of allocated limit orders of the
  side, from the empty list on, ends without an access outside the nodes; every result is the one on the
  set of the orders (an order is inserted once, found if and only if it is there), a walk from the
  iterator returns exactly the orders of the set, by price and then by id, and releasing the list frees
  every node once.\<close>

theorem book_skiplist_refines_set:
  assumes "sl_op_value ` set ops \<subseteq> book_carrier D val h side" "length ops < 2 ^ 64"
    "\<And>d. \<exists>n \<ge> d. 4 * uint (random n AND 0xFFFF) \<ge> 0xFFFF"
  shows "\<exists>sk xs freed. sl_run (by_ptr (order_match_compare D) h) random ops skiplist_create = Some (fst (set_run ops {}), sk)
           \<and> skiplist_walk sk = Some xs \<and> set xs = snd (set_run ops {})
           \<and> sorted_wrt (\<lambda>i j. by_ptr (order_match_compare D) h i j < 0) xs
           \<and> skiplist_release sk = Some freed \<and> distinct freed \<and> length freed = length xs + 1"
proof -
  have v: "sk_values skiplist_create [] = []" by (simp add: sk_values_def)
  have "\<exists>sk ps. sl_run (by_ptr (order_match_compare D) h) random ops skiplist_create = Some (fst (set_run ops {}), sk) \<and> sk_ok sk ps
      \<and> set (sk_values sk ps) = snd (set_run ops {}) \<and> sorted_wrt (\<lambda>i j. by_ptr (order_match_compare D) h i j < 0) (sk_values sk ps)"
    using book.run_refines [OF skiplist_create_ok _ _ assms(1,3)] unfolding v by simp
  then obtain sk ps where r:
    "sl_run (by_ptr (order_match_compare D) h) random ops skiplist_create = Some (fst (set_run ops {}), sk)" "sk_ok sk ps"
    "set (sk_values sk ps) = snd (set_run ops {})" "sorted_wrt (\<lambda>i j. by_ptr (order_match_compare D) h i j < 0) (sk_values sk ps)"
    by blast
  have "set (sk_values sk ps) \<subseteq> book_carrier D val h side" "card (set (sk_values sk ps)) \<le> length ops"
    using set_run_bound [of "{}" ops] assms(1) by (auto simp: r(3))
  moreover from book.sorted_distinct [OF this(1) r(4)] have "card (set (sk_values sk ps)) = length ps"
    using distinct_card [of "sk_values sk ps"] by (simp add: sk_values_def)
  ultimately have "length ps < 2 ^ 64" using assms(2) by simp
  from release_ok [OF r(2) this] walk_ok [OF r(2)] r sk_okD(1) [OF r(2)] show ?thesis
    by (intro exI [of _ sk] exI [of _ "sk_values sk ps"] exI [of _ "ps @ [sk_header sk]"]) (auto simp: sk_values_def)
qed

theorem book_skiplist_refines_set_witness:
  "\<exists>sk xs freed. sl_run (by_ptr (order_match_compare dec_lib) (m_orders ex_market)) (\<lambda>n. if even n then 0 else 0xFFFF)
       [Insert 1, Insert 1, Lookup 1, Remove 1, Lookup 1, Insert 1] skiplist_create
         = Some ([True, False, True, True, False, True], sk)
     \<and> skiplist_walk sk = Some xs \<and> set xs = {1}
     \<and> sorted_wrt (\<lambda>i j. by_ptr (order_match_compare dec_lib) (m_orders ex_market) i j < 0) xs
     \<and> skiplist_release sk = Some freed \<and> distinct freed \<and> length freed = length xs + 1"
proof -
  let ?ops = "[Insert 1, Insert 1, Lookup 1, Remove 1, Lookup 1, Insert 1] :: u64 sl_op list"
  have "1 \<in> book_carrier dec_lib dec_val (m_orders ex_market) MARKET_ORDER_SIDE_BID"
    by (simp add: book_carrier_def dec_lib_laws ex_market_def ex_bid_def)
  then have "sl_op_value ` set ?ops \<subseteq> book_carrier dec_lib dec_val (m_orders ex_market) MARKET_ORDER_SIDE_BID"
    by simp
  moreover have "\<exists>n \<ge> d. 4 * uint ((if even n then 0 else 0xFFFF :: u32) AND 0xFFFF) \<ge> 0xFFFF" for d :: nat
    by (rule exI [of _ "2 * d + 1"]) simp
  ultimately show ?thesis
    using book_skiplist_refines_set [of ?ops dec_lib dec_val "m_orders ex_market" MARKET_ORDER_SIDE_BID "\<lambda>n. if even n then 0 else 0xFFFF"]
    by simp
qed

end
