(* ===== verification/Slice.thy ===== *)
theory Slice
  imports Load Operlog Sql_History
begin

text \<open>
  \<open>matchengine/me_dump.c\<close> and \<open>matchengine/me_persist.c\<close>: the slices of the engine in the database.
  A timer forks a child that writes the resting orders, the balances and the counters; at the start
  the last slice is loaded and the log of operations is replayed from there.

  The database is a parameter: \<open>mysql_real_query\<close> takes a statement (\<open>sql_text\<close> is its text) and gives
  its return code, which is 0 for success and not 0, in practice positive, for an error; the queries
  give their rows, \<open>None\<close> when they fail. Times are integers.
\<close>

section \<open>Statements and the database\<close>

datatype sql_value = Number string | Quoted string | Null

datatype sql_stmt =
    DropTableIfExists string
  | DropTable string
  | CreateTableLike string string
  | InsertInto string "string list" "sql_value list list"
  | DeleteSlice u64

record 'db mysql_lib =
  mysql_connect :: "'db \<Rightarrow> bool"
  mysql_real_query :: "sql_stmt \<Rightarrow> 'db \<Rightarrow> int \<times> 'db"
  tables_like :: "'db \<Rightarrow> string \<Rightarrow> nat option"
  orders_after :: "'db \<Rightarrow> string \<Rightarrow> u64 \<Rightarrow> order_row list option"
  balances_after :: "'db \<Rightarrow> string \<Rightarrow> u64 \<Rightarrow> balance_row list option"
  operlog_after :: "'db \<Rightarrow> string \<Rightarrow> u64 \<Rightarrow> operlog_row list option"
  last_slices :: "'db \<Rightarrow> (int \<times> u64 \<times> u64 \<times> u64) list option"
  slices_since :: "'db \<Rightarrow> int \<Rightarrow> int list option"
  slices_before :: "'db \<Rightarrow> int \<Rightarrow> (u64 \<times> int) list option"

fun value_text :: "sql_value \<Rightarrow> string" where
  "value_text (Number str) = str"
| "value_text (Quoted str) = sql_str str"
| "value_text Null = ''NULL''"

definition comma_list :: "string list \<Rightarrow> string" where
  "comma_list strs = concat (case strs of [] \<Rightarrow> [] | str # rest \<Rightarrow> str # map (\<lambda>str. '', '' @ str) rest)"

definition quote_name :: "string \<Rightarrow> string" where
  "quote_name str = ''`'' @ str @ ''`''"

fun sql_text :: "sql_stmt \<Rightarrow> string" where
  "sql_text (DropTableIfExists table) = ''DROP TABLE IF EXISTS '' @ quote_name table"
| "sql_text (DropTable table) = ''DROP TABLE '' @ quote_name table"
| "sql_text (CreateTableLike table example) = ''CREATE TABLE IF NOT EXISTS '' @ quote_name table @ '' LIKE '' @ quote_name example"
| "sql_text (InsertInto table columns rows) =
     ''INSERT INTO '' @ quote_name table @ '' ('' @ comma_list (map quote_name columns) @ '') VALUES ''
       @ comma_list (map (\<lambda>row. ''('' @ comma_list (map value_text row) @ '')'') rows)"
| "sql_text (DeleteSlice slice_id) = ''DELETE FROM `slice_history` WHERE `id` = '' @ sql_u slice_id"

section \<open>Writing a slice\<close>

text \<open>
  The loop both dumps have: a row is added to the statement, which is executed when it has
  \<open>insert_limit\<close> rows, and in the end if there are any left. The code tests \<open>ret < 0\<close>.
\<close>

definition insert_limit :: nat where "insert_limit = 1000"

fun dump_loop :: "'db mysql_lib \<Rightarrow> (sql_value list list \<Rightarrow> sql_stmt) \<Rightarrow> int \<Rightarrow> int \<Rightarrow> sql_value list list
    \<Rightarrow> sql_value list list \<Rightarrow> 'db \<Rightarrow> int \<times> 'db" where
  "dump_loop M stmt line1 line2 [] sql db =
     (if length sql > 0 then
        let (ret, db) = mysql_real_query M (stmt sql) db in
        if ret < 0 then (- line2, db) else (0, db)
      else (0, db))"
| "dump_loop M stmt line1 line2 (row # rows) sql db =
     (let sql = sql @ [row] in
      if length sql = insert_limit then
        let (ret, db) = mysql_real_query M (stmt sql) db in
        if ret < 0 then (- line1, db) else dump_loop M stmt line1 line2 rows [] db
      else dump_loop M stmt line1 line2 rows sql db)"

definition order_slice_columns :: "string list" where
  "order_slice_columns = [''id'', ''t'', ''side'', ''create_time'', ''update_time'', ''user_id'', ''market'', ''price'', ''amount'',
     ''taker_fee'', ''maker_fee'', ''left'', ''freeze'', ''deal_stock'', ''deal_money'', ''deal_fee'']"

definition order_values :: "'d mpd_lib \<Rightarrow> 'd order \<Rightarrow> sql_value list" where
  "order_values D order =
     [Number (sql_u (o_id order)), Number (sql_u (o_type order)), Number (sql_u (o_side order)),
      Number (printf_f (o_create_time order)), Number (printf_f (o_update_time order)), Number (sql_u (o_user_id order)),
      Quoted (o_market order), Quoted (mpd_to_sci D (o_price order)), Quoted (mpd_to_sci D (o_amount order)),
      Quoted (mpd_to_sci D (o_taker_fee order)), Quoted (mpd_to_sci D (o_maker_fee order)),
      Quoted (mpd_to_sci D (o_left order)), Quoted (mpd_to_sci D (o_freeze order)),
      Quoted (mpd_to_sci D (o_deal_stock order)), Quoted (mpd_to_sci D (o_deal_money order)),
      Quoted (mpd_to_sci D (o_deal_fee order))]"

text \<open>The nodes of a book point to allocated orders.\<close>

definition dump_orders_list :: "'d mpd_lib \<Rightarrow> 'db mysql_lib \<Rightarrow> string \<Rightarrow> 'd market \<Rightarrow> u64 list \<Rightarrow> 'db \<Rightarrow> int \<times> 'db" where
  "dump_orders_list D M table m nodes db =
     dump_loop M (InsertInto table order_slice_columns) 60 74 (map (order_values D) (List.map_filter (m_orders m) nodes)) [] db"

text \<open>\<open>None\<close>: the name of a market that has not been filled in, or a dangling market, is read.\<close>

fun dump_markets :: "'d mpd_lib \<Rightarrow> 'db mysql_lib \<Rightarrow> string \<Rightarrow> ('d, 'z) trade_state_scheme \<Rightarrow> 'd market_conf option list
    \<Rightarrow> 'db \<Rightarrow> (int \<times> 'db) option" where
  "dump_markets D M table s [] db = Some (0, db)"
| "dump_markets D M table s (None # confs) db = None"
| "dump_markets D M table s (Some conf # confs) db =
     (case get_market s (c_name conf) of
        None \<Rightarrow> Some (- 108, db)
      | Some Dangling \<Rightarrow> None
      | Some (Market market) \<Rightarrow>
          let (ret, db) = dump_orders_list D M table market (m_asks market) db in
          if ret < 0 then Some (- 114, db)
          else
            let (ret, db) = dump_orders_list D M table market (m_bids market) db in
            if ret < 0 then Some (- 119, db) else dump_markets D M table s confs db)"

definition dump_orders :: "'d mpd_lib \<Rightarrow> 'db mysql_lib \<Rightarrow> string \<Rightarrow> ('d, 'z) trade_state_scheme \<Rightarrow> 'db \<Rightarrow> (int \<times> 'db) option" where
  "dump_orders D M table s db =
     (let (ret, db) = mysql_real_query M (DropTableIfExists table) db in
      if ret \<noteq> 0 then Some (- 91, db)
      else
        let (ret, db) = mysql_real_query M (CreateTableLike table ''slice_order_example'') db in
        if ret \<noteq> 0 then Some (- 101, db)
        else dump_markets D M table s (settings_markets s) db)"

definition balance_slice_columns :: "string list" where
  "balance_slice_columns = [''id'', ''user_id'', ''asset'', ''t'', ''balance'']"

definition balance_values :: "'d mpd_lib \<Rightarrow> balance_key \<times> 'd \<Rightarrow> sql_value list" where
  "balance_values D entry =
     (let (key, balance) = entry in
      [Null, Number (sql_u (bk_user_id key)), Quoted (bk_asset key), Number (sql_u (bk_type key)), Quoted (mpd_to_sci D balance)])"

definition dump_balance_dict :: "'d mpd_lib \<Rightarrow> 'db mysql_lib \<Rightarrow> string \<Rightarrow> (balance_key, 'd) dict_view \<Rightarrow> 'db \<Rightarrow> int \<times> 'db" where
  "dump_balance_dict D M table dict db =
     dump_loop M (InsertInto table balance_slice_columns) 155 169 (map (balance_values D) dict) [] db"

definition dump_balance :: "'d mpd_lib \<Rightarrow> 'db mysql_lib \<Rightarrow> string \<Rightarrow> ('d, 'z) balance_state_scheme \<Rightarrow> 'db \<Rightarrow> int \<times> 'db" where
  "dump_balance D M table s db =
     (let (ret, db) = mysql_real_query M (DropTableIfExists table) db in
      if ret \<noteq> 0 then (- 186, db)
      else
        let (ret, db) = mysql_real_query M (CreateTableLike table ''slice_balance_example'') db in
        if ret \<noteq> 0 then (- 196, db)
        else
          let (ret, db) = dump_balance_dict D M table (dict_balance s) db in
          if ret < 0 then (- 203, db) else (0, db))"

definition slice_order_table :: "int \<Rightarrow> string" where
  "slice_order_table t = ''slice_order_'' @ int_digits t"

definition slice_balance_table :: "int \<Rightarrow> string" where
  "slice_balance_table t = ''slice_balance_'' @ int_digits t"

definition dump_order_to_db :: "'d mpd_lib \<Rightarrow> 'db mysql_lib \<Rightarrow> int \<Rightarrow> ('d, 'z) trade_state_scheme \<Rightarrow> 'db \<Rightarrow> (int \<times> 'db) option" where
  "dump_order_to_db D M end_time s db =
     (case dump_orders D M (slice_order_table end_time) s db of
        None \<Rightarrow> None
      | Some (ret, db) \<Rightarrow> Some (if ret < 0 then - 182 else 0, db))"

definition dump_balance_to_db :: "'d mpd_lib \<Rightarrow> 'db mysql_lib \<Rightarrow> int \<Rightarrow> ('d, 'z) balance_state_scheme \<Rightarrow> 'db \<Rightarrow> int \<times> 'db" where
  "dump_balance_to_db D M end_time s db =
     (let (ret, db) = dump_balance D M (slice_balance_table end_time) s db in (if ret < 0 then - 198 else 0, db))"

definition slice_history_row :: "int \<Rightarrow> u64 \<Rightarrow> u64 \<Rightarrow> u64 \<Rightarrow> sql_stmt" where
  "slice_history_row end_time oper_id order_id deals_id =
     InsertInto ''slice_history'' [''id'', ''time'', ''end_oper_id'', ''end_order_id'', ''end_deals_id'']
       [[Null, Number (int_digits end_time), Number (sql_u oper_id), Number (sql_u order_id), Number (sql_u deals_id)]]"

definition update_slice_history :: "'db mysql_lib \<Rightarrow> int \<Rightarrow> ('d, 'z) operlog_state_scheme \<Rightarrow> 'db \<Rightarrow> int \<times> 'db" where
  "update_slice_history M end_time s db =
     (let (ret, db) = mysql_real_query M
            (slice_history_row end_time (operlog_id_start s) (order_id_start s) (deals_id_start s)) db in
      (if ret < 0 then - 216 else 0, db))"

definition dump_to_db :: "'d mpd_lib \<Rightarrow> 'db mysql_lib \<Rightarrow> int \<Rightarrow> ('d, 'z) operlog_state_scheme \<Rightarrow> 'db \<Rightarrow> (int \<times> 'db) option" where
  "dump_to_db D M timestamp s db =
     (if \<not> mysql_connect M db then Some (- 228, db)
      else case dump_order_to_db D M timestamp s db of
        None \<Rightarrow> None
      | Some (ret, db) \<Rightarrow>
          if ret < 0 then Some (ret, db)
          else
            let (ret, db) = dump_balance_to_db D M timestamp s db in
            if ret < 0 then Some (ret, db)
            else
              let (ret, db) = update_slice_history M timestamp s db in
              if ret < 0 then Some (ret, db) else Some (0, db))"

section \<open>Removing old slices\<close>

definition slice_count :: "'db mysql_lib \<Rightarrow> int \<Rightarrow> int \<Rightarrow> 'db \<Rightarrow> int" where
  "slice_count M keeptime timestamp db =
     (case slices_since M db (timestamp - keeptime) of
        None \<Rightarrow> - 268
      | Some [cnt] \<Rightarrow> cnt
      | Some _ \<Rightarrow> - 276)"

definition delete_slice :: "'db mysql_lib \<Rightarrow> u64 \<Rightarrow> int \<Rightarrow> 'db \<Rightarrow> int \<times> 'db" where
  "delete_slice M slice_id timestamp db =
     (let (ret, db) = mysql_real_query M (DropTable (slice_order_table timestamp)) db in
      if ret \<noteq> 0 then (- 297, db)
      else
        let (ret, db) = mysql_real_query M (DropTable (slice_balance_table timestamp)) db in
        if ret \<noteq> 0 then (- 306, db)
        else
          let (ret, db) = mysql_real_query M (DeleteSlice slice_id) db in
          if ret \<noteq> 0 then (- 315, db) else (0, db))"

fun delete_slices :: "'db mysql_lib \<Rightarrow> (u64 \<times> int) list \<Rightarrow> 'db \<Rightarrow> int \<times> 'db" where
  "delete_slices M [] db = (0, db)"
| "delete_slices M ((slice_id, slice_time) # rows) db =
     (let (ret, db) = delete_slice M slice_id slice_time db in
      if ret < 0 then (ret, db) else delete_slices M rows db)"

definition clear_slice :: "'db mysql_lib \<Rightarrow> int \<Rightarrow> int \<Rightarrow> 'db \<Rightarrow> int \<times> 'db" where
  "clear_slice M keeptime timestamp db =
     (if \<not> mysql_connect M db then (- 329, db)
      else
        let ret = slice_count M keeptime timestamp db in
        if ret < 0 then (ret, db)
        else if ret = 0 then (ret, db)
        else case slices_before M db (timestamp - keeptime) of
          None \<Rightarrow> (- 347, db)
        | Some rows \<Rightarrow> delete_slices M rows db)"

text \<open>What the child does before it exits. It has the memory of the moment of the \<open>fork\<close>.\<close>

definition slice_child :: "'d mpd_lib \<Rightarrow> 'db mysql_lib \<Rightarrow> int \<Rightarrow> int \<Rightarrow> ('d, 'z) operlog_state_scheme \<Rightarrow> 'db \<Rightarrow> 'db option" where
  "slice_child D M keeptime timestamp s db =
     (case dump_to_db D M timestamp s db of
        None \<Rightarrow> None
      | Some (_, db) \<Rightarrow> Some (snd (clear_slice M keeptime timestamp db)))"

text \<open>The result in the parent and the work of the child, if there is one.\<close>

definition make_slice :: "int \<Rightarrow> int \<Rightarrow> int \<times> int option" where
  "make_slice pid timestamp = (if pid < 0 then (- 380, None) else (0, Some timestamp))"

text \<open>The timer, with the time and what \<open>fork\<close> returns: the new \<open>last_slice_time\<close>, the slice that is made.\<close>

definition persist_on_timer :: "int \<Rightarrow> int \<Rightarrow> int \<Rightarrow> int \<Rightarrow> int \<times> int option" where
  "persist_on_timer slice_interval now pid last_slice_time =
     (if now - last_slice_time \<ge> slice_interval \<and> now mod slice_interval \<le> 5
      then (now, snd (make_slice pid now))
      else (last_slice_time, None))"

section \<open>Starting from a slice and the log\<close>

definition get_today_start :: "time_lib \<Rightarrow> int \<Rightarrow> int" where
  "get_today_start T now = mktime T (localtime T now)"

text \<open>The values in the variables of the caller when there is not exactly one row: they keep theirs.\<close>

definition get_last_slice :: "'db mysql_lib \<Rightarrow> 'db \<Rightarrow> int \<times> u64 \<times> u64 \<times> u64 \<Rightarrow> int \<times> (int \<times> u64 \<times> u64 \<times> u64)" where
  "get_last_slice M db vars =
     (case last_slices M db of
        None \<Rightarrow> (- 39, vars)
      | Some [row] \<Rightarrow> (0, row)
      | Some _ \<Rightarrow> (0, vars))"

definition load_slice_from_db :: "'d mpd_lib \<Rightarrow> 'db mysql_lib \<Rightarrow> 'db \<Rightarrow> int \<Rightarrow> ('d, 'z) trade_state_scheme
    \<Rightarrow> (int \<times> ('d, 'z) trade_state_scheme) option" where
  "load_slice_from_db D M db timestamp s =
     (case load_orders D (orders_after M db (slice_order_table timestamp)) s of
        None \<Rightarrow> None
      | Some (ret, s) \<Rightarrow>
          if ret < 0 then Some (- 71, s)
          else case load_balance D (balances_after M db (slice_balance_table timestamp)) s of
            None \<Rightarrow> None
          | Some (ret, s) \<Rightarrow> if ret < 0 then Some (- 82, s) else Some (0, s))"

text \<open>
  \<open>is_table_exists\<close> of \<open>ut_mysql.c\<close> tests \<open>ret < 0\<close>: when the query fails it goes on to read the
  result there is not.
\<close>

definition is_table_exists :: "'db mysql_lib \<Rightarrow> 'db \<Rightarrow> string \<Rightarrow> bool option" where
  "is_table_exists M db table = map_option (\<lambda>num_rows. num_rows = 1) (tables_like M db table)"

definition load_operlog_from_db :: "'d mpd_lib \<Rightarrow> text_lib \<Rightarrow> 'db mysql_lib \<Rightarrow> time_lib \<Rightarrow> 'db \<Rightarrow> int \<Rightarrow> u64
    \<Rightarrow> ('d, 'z) trade_state_scheme \<Rightarrow> (int \<times> u64 \<times> ('d, 'z) trade_state_scheme) option" where
  "load_operlog_from_db D J M T db date start_id s =
     (let table = operlog_table (localtime T date) in
      case is_table_exists M db table of
        None \<Rightarrow> None
      | Some False \<Rightarrow> Some (0, start_id, s)
      | Some True \<Rightarrow>
          (case load_operlog D J (operlog_after M db table) start_id s of
             None \<Rightarrow> None
           | Some (ret, start_id, s) \<Rightarrow> Some (if ret < 0 then - 107 else 0, start_id, s)))"

function load_days :: "'d mpd_lib \<Rightarrow> text_lib \<Rightarrow> 'db mysql_lib \<Rightarrow> time_lib \<Rightarrow> 'db \<Rightarrow> int \<Rightarrow> int \<Rightarrow> u64
    \<Rightarrow> ('d, 'z) trade_state_scheme \<Rightarrow> (int \<times> u64 \<times> ('d, 'z) trade_state_scheme) option" where
  "load_days D J M T db begin_time end_time start_id s =
     (if begin_time < end_time then
        case load_operlog_from_db D J M T db begin_time start_id s of
          None \<Rightarrow> None
        | Some (ret, start_id, s) \<Rightarrow>
            if ret < 0 then Some (ret, start_id, s)
            else load_days D J M T db (begin_time + 86400) end_time start_id s
      else Some (0, start_id, s))"
  by pat_completeness auto
termination
  by (relation "measure (\<lambda>(D, J, M, T, db, begin_time, end_time, start_id, s). nat (end_time - begin_time))") auto

declare load_days.simps [simp del]

text \<open>\<open>last_slice_time\<close> is 0 before; the result has its new value.\<close>

definition init_from_db :: "'d mpd_lib \<Rightarrow> text_lib \<Rightarrow> 'db mysql_lib \<Rightarrow> time_lib \<Rightarrow> 'db \<Rightarrow> int
    \<Rightarrow> ('d, 'z) operlog_state_scheme \<Rightarrow> (int \<times> int \<times> ('d, 'z) operlog_state_scheme) option" where
  "init_from_db D J M T db now s =
     (if \<not> mysql_connect M db then Some (- 120, 0, s)
      else
        let (ret, last_slice_time, last_oper_id, last_order_id, last_deals_id) = get_last_slice M db (0, 0, 0, 0) in
        if ret < 0 then Some (ret, last_slice_time, s)
        else
          let s = s\<lparr>order_id_start := last_order_id, deals_id_start := last_deals_id\<rparr> in
          case (if last_slice_time = 0 then load_operlog_from_db D J M T db now last_oper_id s
                else case load_slice_from_db D M db last_slice_time s of
                  None \<Rightarrow> None
                | Some (ret, s) \<Rightarrow>
                    if ret < 0 then Some (ret, last_oper_id, s)
                    else load_days D J M T db last_slice_time (get_today_start T now + 86400) last_oper_id s) of
            None \<Rightarrow> None
          | Some (ret, last_oper_id, s) \<Rightarrow>
              if ret < 0 then Some (ret, last_slice_time, s)
              else Some (0, last_slice_time, s\<lparr>operlog_id_start := last_oper_id\<rparr>))"

end
