(* ===== verification/Slice_Facts.thy ===== *)
theory Slice_Facts
  imports Slice Market_Facts Load_Props
begin

text \<open>
  A slice that has been written is read back: what the columns of the tables keep and how they round, the documented
  behaviour of the database as the predicate \<open>slice_laws\<close>, the batches of the dump and the pages of
  the loaders as one pass each, and the markets and balances a fresh engine is filled with.
\<close>

section \<open>What the columns keep\<close>

text \<open>A text the library reads as the number \<open>x\<close>.\<close>

definition denotes :: "'d mpd_lib \<Rightarrow> ('d \<Rightarrow> rat option) \<Rightarrow> string \<Rightarrow> rat \<Rightarrow> bool" where
  "denotes D val str x \<longleftrightarrow> (\<exists>d. mpd_set_string D str = (d, False) \<and> val d = Some x)"

text \<open>
  A \<open>DECIMAL(30, k)\<close> keeps a number of 30 digits with \<open>k\<close> decimals: MySQL rounds what is inserted to the nearest one,
  ties away from zero, and refuses what does not fit then.
\<close>

definition dec_round :: "nat \<Rightarrow> rat \<Rightarrow> rat" where
  "dec_round k x = sgn x * (of_int \<lfloor>\<bar>x\<bar> * 10 ^ k + 1 / 2\<rfloor> / 10 ^ k)"

lemma dec_round_grid: "on_grid k x \<Longrightarrow> dec_round k x = x"
proof -
  assume "on_grid k x"
  then obtain n :: int where n: "x = of_int n / 10 ^ k" by (auto simp: on_grid_def)
  then have "\<bar>x\<bar> * 10 ^ k = of_int \<bar>n\<bar>" by simp
  then have "\<lfloor>\<bar>x\<bar> * 10 ^ k + 1 / 2\<rfloor> = \<bar>n\<bar>" by (simp only:) (rule floor_unique; simp)
  then have "dec_round k x = sgn x * \<bar>x\<bar>" by (simp add: dec_round_def n)
  then show ?thesis by (simp add: sgn_mult_abs)
qed

lemma dec_round_0 [simp]: "dec_round k 0 = 0"
  by (simp add: dec_round_def)

lemma dec_round_nonneg: "0 \<le> x \<Longrightarrow> 0 \<le> dec_round k x"
  by (simp add: dec_round_def zero_le_mult_iff sgn_if)

lemma on_grid_round [simp]: "on_grid k (dec_round k x)"
proof -
  let ?n = "\<lfloor>\<bar>x\<bar> * 10 ^ k + 1 / 2\<rfloor>"
  have "dec_round k x = of_int (if 0 < x then ?n else if x < 0 then - ?n else 0) / 10 ^ k"
    by (simp add: dec_round_def sgn_if)
  then show ?thesis unfolding on_grid_def by blast
qed

definition column_ok :: "'d mpd_lib \<Rightarrow> ('d \<Rightarrow> rat option) \<Rightarrow> nat \<Rightarrow> 'd \<Rightarrow> bool" where
  "column_ok D val k d \<longleftrightarrow> (\<exists>x. val d = Some x \<and> \<bar>dec_round k x\<bar> < 10 ^ (30 - k) \<and> denotes D val (mpd_to_sci D d) x)"

text \<open>A name of at most 30 characters that does not end or escape the quoted text.\<close>

definition plain_text :: "string \<Rightarrow> bool" where
  "plain_text str \<longleftrightarrow> length str \<le> 30 \<and> CHR 0x27 \<notin> set str \<and> CHR 0x5C \<notin> set str"

text \<open>A time with microseconds that a \<open>DOUBLE\<close> tells from its neighbours.\<close>

definition column_time :: "rat \<Rightarrow> bool" where
  "column_time x \<longleftrightarrow> on_grid 6 x \<and> 0 \<le> x \<and> x < 2 ^ 32"

definition order_columns_ok :: "'d mpd_lib \<Rightarrow> ('d \<Rightarrow> rat option) \<Rightarrow> 'd order \<Rightarrow> bool" where
  "order_columns_ok D val a \<longleftrightarrow> plain_text (o_market a) \<and> column_time (o_create_time a) \<and> column_time (o_update_time a)
     \<and> column_ok D val 8 (o_price a) \<and> column_ok D val 8 (o_amount a) \<and> column_ok D val 4 (o_taker_fee a)
     \<and> column_ok D val 4 (o_maker_fee a) \<and> column_ok D val 8 (o_left a)
     \<and> column_ok D val 8 (o_freeze a) \<and> unat (o_type a) < 256 \<and> unat (o_side a) < 256
     \<and> column_ok D val 8 (o_deal_stock a) \<and> column_ok D val 16 (o_deal_money a) \<and> column_ok D val 12 (o_deal_fee a)"

text \<open>The text of a column with \<open>k\<close> decimals that the number \<open>d\<close> was inserted into.\<close>

abbreviation stored :: "'d mpd_lib \<Rightarrow> ('d \<Rightarrow> rat option) \<Rightarrow> nat \<Rightarrow> 'd \<Rightarrow> string \<Rightarrow> bool" where
  "stored D val k d str \<equiv> (\<exists>x. val d = Some x \<and> denotes D val str (dec_round k x))"

text \<open>The row an order is read back from.\<close>

definition row_of :: "'d mpd_lib \<Rightarrow> ('d \<Rightarrow> rat option) \<Rightarrow> 'd order \<Rightarrow> order_row \<Rightarrow> bool" where
  "row_of D val a row \<longleftrightarrow> r_id row = o_id a \<and> r_t row = o_type a \<and> r_side row = o_side a
     \<and> r_create_time row = o_create_time a \<and> r_update_time row = o_update_time a \<and> r_user_id row = o_user_id a
     \<and> r_market row = o_market a \<and> stored D val 8 (o_price a) (r_price row) \<and> stored D val 8 (o_amount a) (r_amount row)
     \<and> stored D val 4 (o_taker_fee a) (r_taker_fee row) \<and> stored D val 4 (o_maker_fee a) (r_maker_fee row)
     \<and> stored D val 8 (o_left a) (r_left row) \<and> stored D val 8 (o_freeze a) (r_freeze row)
     \<and> stored D val 8 (o_deal_stock a) (r_deal_stock row) \<and> stored D val 16 (o_deal_money a) (r_deal_money row)
     \<and> stored D val 12 (o_deal_fee a) (r_deal_fee row)"

definition balance_columns_ok :: "'d mpd_lib \<Rightarrow> ('d \<Rightarrow> rat option) \<Rightarrow> balance_key \<times> 'd \<Rightarrow> bool" where
  "balance_columns_ok D val e \<longleftrightarrow> plain_text (bk_asset (fst e)) \<and> unat (bk_type (fst e)) < 256 \<and> column_ok D val 16 (snd e)"

definition balance_row_of :: "'d mpd_lib \<Rightarrow> ('d \<Rightarrow> rat option) \<Rightarrow> balance_key \<times> 'd \<Rightarrow> balance_row \<Rightarrow> bool" where
  "balance_row_of D val e row \<longleftrightarrow> b_user_id row = bk_user_id (fst e) \<and> b_asset row = bk_asset (fst e) \<and> b_t row = bk_type (fst e)
     \<and> stored D val 16 (snd e) (b_balance row)"

section \<open>The documented behaviour of the database\<close>

text \<open>
  What is in the database: whether it serves the program (the server is reachable and has room, the tables of
  \<open>create_trade_log.sql\<close> are there and the user may write to them), the tables there are, the rows of the tables of
  the slices, the rows of \<open>slice_history\<close>, the newest first, and whether \<open>AUTO_INCREMENT\<close> has an id left for it.
\<close>

record 'db slice_view =
  installed :: "'db \<Rightarrow> bool"
  has_table :: "'db \<Rightarrow> string \<Rightarrow> bool"
  order_table :: "'db \<Rightarrow> string \<Rightarrow> order_row list option"
  balance_table :: "'db \<Rightarrow> string \<Rightarrow> balance_row list option"
  history_rows :: "'db \<Rightarrow> (int \<times> u64 \<times> u64 \<times> u64) list"
  history_room :: "'db \<Rightarrow> bool"

definition unchanged :: "'db slice_view \<Rightarrow> string option \<Rightarrow> 'db \<Rightarrow> 'db \<Rightarrow> bool" where
  "unchanged V except db db' \<longleftrightarrow> (\<forall>t. Some t \<noteq> except \<longrightarrow> has_table V db' t = has_table V db t
     \<and> order_table V db' t = order_table V db t \<and> balance_table V db' t = balance_table V db t)"

text \<open>A statement on the table \<open>t\<close> leaves the database at work and everything else as it was.\<close>

definition only_table :: "'db slice_view \<Rightarrow> string \<Rightarrow> 'db \<Rightarrow> 'db \<Rightarrow> bool" where
  "only_table V t db db' \<longleftrightarrow> installed V db' \<and> unchanged V (Some t) db db' \<and> history_rows V db' = history_rows V db
     \<and> history_room V db' = history_room V db"

text \<open>The times a slice can have: \<open>slice_history\<close> keeps them as \<open>BIGINT\<close>.\<close>

definition slice_time :: "int \<Rightarrow> bool" where
  "slice_time i \<longleftrightarrow> 0 \<le> i \<and> i < 2 ^ 63"

definition drop_laws :: "'db mysql_lib \<Rightarrow> 'db slice_view \<Rightarrow> bool" where
  "drop_laws M V \<longleftrightarrow> (\<forall>db i. \<forall>table \<in> {slice_order_table i, slice_balance_table i}. installed V db \<longrightarrow> slice_time i \<longrightarrow>
     (\<exists>db'. mysql_real_query M (DropTableIfExists table) db = (0, db') \<and> \<not> has_table V db' table \<and> only_table V table db db'))"

definition create_laws :: "'db mysql_lib \<Rightarrow> 'db slice_view \<Rightarrow> bool" where
  "create_laws M V \<longleftrightarrow> (\<forall>db i. installed V db \<longrightarrow> slice_time i \<longrightarrow>
     (\<not> has_table V db (slice_order_table i) \<longrightarrow>
        (\<exists>db'. mysql_real_query M (CreateTableLike (slice_order_table i) ''slice_order_example'') db = (0, db')
           \<and> order_table V db' (slice_order_table i) = Some [] \<and> only_table V (slice_order_table i) db db'))
     \<and> (\<not> has_table V db (slice_balance_table i) \<longrightarrow>
        (\<exists>db'. mysql_real_query M (CreateTableLike (slice_balance_table i) ''slice_balance_example'') db = (0, db')
           \<and> balance_table V db' (slice_balance_table i) = Some [] \<and> only_table V (slice_balance_table i) db db')))"

text \<open>An \<open>INSERT\<close> of at least one and not too many rows that fit their columns, with new keys.\<close>

definition insert_order_laws :: "'d mpd_lib \<Rightarrow> ('d \<Rightarrow> rat option) \<Rightarrow> 'db mysql_lib \<Rightarrow> 'db slice_view \<Rightarrow> bool" where
  "insert_order_laws D val M V \<longleftrightarrow> (\<forall>db table rows os. installed V db \<longrightarrow> order_table V db table = Some rows \<longrightarrow>
     os \<noteq> [] \<longrightarrow> length os \<le> insert_limit \<longrightarrow>
     (\<forall>a \<in> set os. order_columns_ok D val a) \<longrightarrow> distinct (map r_id rows @ map o_id os) \<longrightarrow>
     (\<exists>db' new. mysql_real_query M (InsertInto table order_slice_columns (map (order_values D) os)) db = (0, db')
        \<and> list_all2 (row_of D val) os new \<and> order_table V db' table = Some (rows @ new) \<and> only_table V table db db'))"

definition insert_balance_laws :: "'d mpd_lib \<Rightarrow> ('d \<Rightarrow> rat option) \<Rightarrow> 'db mysql_lib \<Rightarrow> 'db slice_view \<Rightarrow> bool" where
  "insert_balance_laws D val M V \<longleftrightarrow> (\<forall>db table rows es. installed V db \<longrightarrow> balance_table V db table = Some rows \<longrightarrow>
     es \<noteq> [] \<longrightarrow> length es \<le> insert_limit \<longrightarrow>
     (\<forall>e \<in> set es. balance_columns_ok D val e) \<longrightarrow> length rows + length es < 2 ^ 32 \<longrightarrow>
     (\<exists>db' new. mysql_real_query M (InsertInto table balance_slice_columns (map (balance_values D) es)) db = (0, db')
        \<and> list_all2 (balance_row_of D val) es new \<and> balance_table V db' table = Some (rows @ new)
        \<and> (sorted_wrt (<) (0 # map b_id rows) \<longrightarrow> sorted_wrt (<) (0 # map b_id (rows @ new))) \<and> only_table V table db db'))"

definition history_laws :: "'db mysql_lib \<Rightarrow> 'db slice_view \<Rightarrow> bool" where
  "history_laws M V \<longleftrightarrow> (\<forall>db t i j k. installed V db \<longrightarrow> history_room V db \<longrightarrow> slice_time t \<longrightarrow>
     (\<exists>db'. mysql_real_query M (slice_history_row t i j k) db = (0, db') \<and> installed V db' \<and> unchanged V None db db'
        \<and> history_rows V db' = (t, i, j, k) # history_rows V db))"

definition select_laws :: "'db mysql_lib \<Rightarrow> 'db slice_view \<Rightarrow> bool" where
  "select_laws M V \<longleftrightarrow> (\<forall>db. installed V db \<longrightarrow> mysql_connect M db \<and> last_slices M db = Some (take 1 (history_rows V db))
     \<and> (\<forall>table rows last_id. order_table V db table = Some rows \<longrightarrow> orders_after M db table last_id
          = Some (take query_limit (filter (\<lambda>row. last_id < r_id row) (sort_key r_id rows))))
     \<and> (\<forall>table rows last_id. balance_table V db table = Some rows \<longrightarrow> balances_after M db table last_id
          = Some (take query_limit (filter (\<lambda>row. last_id < b_id row) (sort_key b_id rows)))))"

definition slice_laws :: "'d mpd_lib \<Rightarrow> ('d \<Rightarrow> rat option) \<Rightarrow> 'db mysql_lib \<Rightarrow> 'db slice_view \<Rightarrow> bool" where
  "slice_laws D val M V \<longleftrightarrow> drop_laws M V \<and> create_laws M V \<and> insert_order_laws D val M V \<and> insert_balance_laws D val M V
     \<and> history_laws M V \<and> select_laws M V"

section \<open>Writing a slice\<close>

text \<open>The batches of a dump: an invariant that every statement extends by its rows holds of all rows in the end.\<close>

lemma dump_loop_ok:
  assumes step: "\<And>db xs ys zs. all = xs @ ys @ zs \<Longrightarrow> ys \<noteq> [] \<Longrightarrow> length ys \<le> insert_limit \<Longrightarrow> I db xs \<Longrightarrow> \<exists>db'. mysql_real_query M (stmt (map f ys)) db = (0, db') \<and> I db' (xs @ ys)"
  shows "all = xs @ ys @ zs \<Longrightarrow> length ys < insert_limit \<Longrightarrow> I db xs \<Longrightarrow> \<exists>db'. dump_loop M stmt l1 l2 (map f zs) (map f ys) db = (0, db') \<and> I db' all"
proof (induction zs arbitrary: xs ys db)
  case Nil
  then show ?case using step [of xs ys "[]" db] by (cases "ys = []") auto
next
  case (Cons z zs)
  show ?case
  proof (cases "length (map f ys @ [f z]) = insert_limit")
    case True
    from step [of xs "ys @ [z]" zs db] Cons.prems obtain db' where "mysql_real_query M (stmt (map f ys @ [f z])) db = (0, db')"
        "I db' (xs @ ys @ [z])" by auto
    with Cons.IH [of "xs @ ys @ [z]" "[]" db'] Cons.prems True show ?thesis by (auto simp: insert_limit_def)
  next
    case False
    with Cons.IH [of xs "ys @ [z]" db] Cons.prems show ?thesis by auto
  qed
qed

text \<open>The orders of a market in the order of the dump, and of all markets of the settings.\<close>

definition market_rows :: "'d market \<Rightarrow> 'd order list" where
  "market_rows m = List.map_filter (m_orders m) (m_asks m) @ List.map_filter (m_orders m) (m_bids m)"

definition conf_rows :: "('d, 'z) trade_state_scheme \<Rightarrow> 'd market_conf option \<Rightarrow> 'd order list" where
  "conf_rows s c = (case c of Some conf \<Rightarrow> (case get_market s (c_name conf) of Some (Market m) \<Rightarrow> market_rows m | _ \<Rightarrow> []) | None \<Rightarrow> [])"

definition slice_rows :: "('d, 'z) trade_state_scheme \<Rightarrow> 'd order list" where
  "slice_rows s = concat (map (conf_rows s) (settings_markets s))"

definition conf_ok :: "('d, 'z) trade_state_scheme \<Rightarrow> 'd market_conf option \<Rightarrow> bool" where
  "conf_ok s c \<longleftrightarrow> (\<exists>conf m. c = Some conf \<and> get_market s (c_name conf) = Some (Market m))"

definition orders_in :: "'d mpd_lib \<Rightarrow> ('d \<Rightarrow> rat option) \<Rightarrow> 'db slice_view \<Rightarrow> string \<Rightarrow> 'db \<Rightarrow> 'db \<Rightarrow> 'd order list \<Rightarrow> bool" where
  "orders_in D val V table db0 db os \<longleftrightarrow> (\<exists>rows. order_table V db table = Some rows \<and> list_all2 (row_of D val) os rows)
     \<and> only_table V table db0 db"

lemma only_table_trans: "only_table V t db db' \<Longrightarrow> only_table V t db' db'' \<Longrightarrow> only_table V t db db''"
  by (simp add: only_table_def unchanged_def)

lemma row_ids: "list_all2 (row_of D val) os rows \<Longrightarrow> map r_id rows = map o_id os"
  by (induction rule: list_all2_induct) (auto simp: row_of_def)

lemma insert_orders_step:
  assumes "insert_order_laws D val M V" "orders_in D val V table db0 db xs" "ys \<noteq> []" "length ys \<le> insert_limit"
    "\<forall>a \<in> set ys. order_columns_ok D val a" "distinct (map o_id (xs @ ys))"
  shows "\<exists>db'. mysql_real_query M (InsertInto table order_slice_columns (map (order_values D) ys)) db = (0, db')
    \<and> orders_in D val V table db0 db' (xs @ ys)"
proof -
  obtain rows where rows: "order_table V db table = Some rows" "list_all2 (row_of D val) xs rows" and rest: "only_table V table db0 db"
    using assms(2) by (auto simp: orders_in_def)
  have "distinct (map r_id rows @ map o_id ys)" "installed V db"
    using assms(6) row_ids [OF rows(2)] rest by (simp_all add: only_table_def)
  with assms(1,3-5) rows(1) obtain db' new where q: "mysql_real_query M (InsertInto table order_slice_columns (map (order_values D) ys)) db = (0, db')"
    "list_all2 (row_of D val) ys new" "order_table V db' table = Some (rows @ new)" "only_table V table db db'"
    unfolding insert_order_laws_def by blast
  have "orders_in D val V table db0 db' (xs @ ys)"
    using q(3) list_all2_appendI [OF rows(2) q(2)] only_table_trans [OF rest q(4)] by (auto simp: orders_in_def)
  with q(1) show ?thesis by blast
qed

lemma dump_orders_list_ok:
  assumes laws: "insert_order_laws D val M V" and I: "orders_in D val V table db0 db xs"
    and ok: "\<forall>a \<in> set ys. order_columns_ok D val a" "distinct (map o_id (xs @ ys))" and ys: "ys = List.map_filter (m_orders m) nodes"
  shows "\<exists>db'. dump_orders_list D M table m nodes db = (0, db') \<and> orders_in D val V table db0 db' (xs @ ys)"
proof -
  have "\<exists>db'. dump_loop M (InsertInto table order_slice_columns) 60 74 (map (order_values D) ys) (map (order_values D) []) db = (0, db')
      \<and> orders_in D val V table db0 db' (xs @ ys)"
  proof (rule dump_loop_ok [where xs = "[]" and I = "\<lambda>db zs. orders_in D val V table db0 db (xs @ zs)" and all = ys, simplified])
    fix db us vs ws
    assume e: "ys = us @ vs @ ws" and vs: "vs \<noteq> []" "length vs \<le> insert_limit" and I: "orders_in D val V table db0 db (xs @ us)"
    have "distinct (map o_id ((xs @ us) @ vs))" "\<forall>a \<in> set vs. order_columns_ok D val a" using ok by (auto simp: e)
    with insert_orders_step [OF laws I vs] show "\<exists>db'. mysql_real_query M (InsertInto table order_slice_columns (map (order_values D) vs)) db = (0, db')
        \<and> orders_in D val V table db0 db' (xs @ us @ vs)"
      by simp
  qed (use I in \<open>simp_all add: insert_limit_def\<close>)
  then show ?thesis by (simp add: dump_orders_list_def ys)
qed

lemma dump_markets_ok:
  assumes laws: "insert_order_laws D val M V" and I: "orders_in D val V table db0 db xs"
    and "\<forall>c \<in> set confs. conf_ok s c" "\<forall>a \<in> set (concat (map (conf_rows s) confs)). order_columns_ok D val a"
    "distinct (map o_id (xs @ concat (map (conf_rows s) confs)))"
  shows "\<exists>db'. dump_markets D M table s confs db = Some (0, db') \<and> orders_in D val V table db0 db' (xs @ concat (map (conf_rows s) confs))"
  using assms(2-)
proof (induction confs arbitrary: db xs)
  case (Cons c confs)
  obtain conf m where c: "c = Some conf" "get_market s (c_name conf) = Some (Market m)"
    using Cons.prems(2) by (auto simp: conf_ok_def)
  let ?as = "List.map_filter (m_orders m) (m_asks m)" and ?bs = "List.map_filter (m_orders m) (m_bids m)"
  have rows: "conf_rows s c = ?as @ ?bs" by (simp add: conf_rows_def c market_rows_def)
  have d: "distinct (map o_id (xs @ ?as))" "distinct (map o_id ((xs @ ?as) @ ?bs))"
    "distinct (map o_id ((xs @ ?as @ ?bs) @ concat (map (conf_rows s) confs)))"
    using Cons.prems(4) by (auto simp: rows)
  have a: "\<forall>a \<in> set ?as. order_columns_ok D val a" "\<forall>a \<in> set ?bs. order_columns_ok D val a"
    "\<forall>a \<in> set (concat (map (conf_rows s) confs)). order_columns_ok D val a"
    using Cons.prems(3) by (auto simp: rows)
  obtain db1 where db1: "dump_orders_list D M table m (m_asks m) db = (0, db1)" "orders_in D val V table db0 db1 (xs @ ?as)"
    using dump_orders_list_ok [OF laws Cons.prems(1) a(1) d(1) refl] by blast
  obtain db2 where db2: "dump_orders_list D M table m (m_bids m) db1 = (0, db2)" "orders_in D val V table db0 db2 (xs @ ?as @ ?bs)"
    using dump_orders_list_ok [OF laws db1(2) a(2) d(2) refl] by auto
  from Cons.IH [OF db2(2) _ a(3) d(3)] Cons.prems(2) db1(1) db2(1) show ?case
    by (simp add: c(1) c(2) rows [unfolded c(1)])
qed simp

definition balances_in :: "'d mpd_lib \<Rightarrow> ('d \<Rightarrow> rat option) \<Rightarrow> 'db slice_view \<Rightarrow> string \<Rightarrow> 'db \<Rightarrow> 'db \<Rightarrow> (balance_key \<times> 'd) list \<Rightarrow> bool" where
  "balances_in D val V table db0 db es \<longleftrightarrow> (\<exists>rows. balance_table V db table = Some rows \<and> list_all2 (balance_row_of D val) es rows
       \<and> sorted_wrt (<) (0 # map b_id rows)) \<and> only_table V table db0 db"

lemma dump_balance_dict_ok:
  assumes laws: "insert_balance_laws D val M V" and I: "balances_in D val V table db0 db []"
    and ok: "\<forall>e \<in> set dict. balance_columns_ok D val e" "length dict < 2 ^ 32"
  shows "\<exists>db'. dump_balance_dict D M table dict db = (0, db') \<and> balances_in D val V table db0 db' dict"
proof -
  have "\<exists>db'. dump_loop M (InsertInto table balance_slice_columns) 155 169 (map (balance_values D) dict) (map (balance_values D) []) db = (0, db')
      \<and> balances_in D val V table db0 db' dict"
  proof (rule dump_loop_ok [where xs = "[]" and I = "balances_in D val V table db0" and all = dict, simplified])
    fix db us vs ws
    assume e: "dict = us @ vs @ ws" and vs: "vs \<noteq> []" "length vs \<le> insert_limit" and "balances_in D val V table db0 db us"
    then obtain rows where rows: "balance_table V db table = Some rows" "list_all2 (balance_row_of D val) us rows"
        "sorted_wrt (<) (0 # map b_id rows)" "only_table V table db0 db"
      by (auto simp: balances_in_def)
    have "length rows + length vs < 2 ^ 32" "\<forall>e \<in> set vs. balance_columns_ok D val e" "installed V db"
      using ok list_all2_lengthD [OF rows(2)] rows(4) by (auto simp: e only_table_def)
    with laws rows(1) vs obtain db' new where q: "mysql_real_query M (InsertInto table balance_slice_columns (map (balance_values D) vs)) db = (0, db')"
      "list_all2 (balance_row_of D val) vs new" "balance_table V db' table = Some (rows @ new)"
      "sorted_wrt (<) (0 # map b_id rows) \<longrightarrow> sorted_wrt (<) (0 # map b_id (rows @ new))"
      "only_table V table db db'"
      unfolding insert_balance_laws_def by blast
    have "balances_in D val V table db0 db' (us @ vs)"
      unfolding balances_in_def using q(3,4) rows(3) list_all2_appendI [OF rows(2) q(2)] only_table_trans [OF rows(4) q(5)] by auto
    with q(1) show "\<exists>db'. mysql_real_query M (InsertInto table balance_slice_columns (map (balance_values D) vs)) db = (0, db')
        \<and> balances_in D val V table db0 db' (us @ vs)" by blast
  qed (use I in \<open>simp_all add: insert_limit_def\<close>)
  then show ?thesis by (simp add: dump_balance_dict_def)
qed

text \<open>The decimals of a market are not more than the columns of the price, the amount and the fees have.\<close>

definition slice_precs :: "'d market \<Rightarrow> bool" where
  "slice_precs m \<longleftrightarrow> m_money_prec m \<le> 8 \<and> m_stock_prec m \<le> 8 \<and> m_fee_prec m \<le> 4"

text \<open>What a slice can be made of.\<close>

definition slice_ready :: "'d mpd_lib \<Rightarrow> ('d \<Rightarrow> rat option) \<Rightarrow> ('d, 'z) trade_state_scheme \<Rightarrow> bool" where
  "slice_ready D val s \<longleftrightarrow> (\<forall>c \<in> set (settings_markets s). conf_ok s c)
     \<and> (\<forall>conf m. Some conf \<in> set (settings_markets s) \<longrightarrow> get_market s (c_name conf) = Some (Market m) \<longrightarrow> slice_precs m)
     \<and> (\<forall>a \<in> set (slice_rows s). order_columns_ok D val a) \<and> distinct (map o_id (slice_rows s))
     \<and> (\<forall>e \<in> set (dict_balance s). balance_columns_ok D val e) \<and> length (dict_balance s) < 2 ^ 32"

lemma slice_tables: "slice_order_table t \<noteq> slice_balance_table t'"
  by (simp add: slice_order_table_def slice_balance_table_def)

lemma new_order_table:
  assumes "drop_laws M V" "create_laws M V" "installed V db" "slice_time t" and o: "table = slice_order_table t"
  obtains db1 db2 where "mysql_real_query M (DropTableIfExists table) db = (0, db1)"
    "mysql_real_query M (CreateTableLike table ''slice_order_example'') db1 = (0, db2)"
    "order_table V db2 table = Some []" "only_table V table db db2"
proof -
  obtain db1 where d: "mysql_real_query M (DropTableIfExists table) db = (0, db1)" "\<not> has_table V db1 table" "only_table V table db db1"
    using assms(1,3,4) unfolding drop_laws_def o by blast
  then have "installed V db1" by (simp add: only_table_def)
  then obtain db2 where c: "mysql_real_query M (CreateTableLike table ''slice_order_example'') db1 = (0, db2)"
      "order_table V db2 table = Some []" "only_table V table db1 db2"
    using assms(2,4) d(2) unfolding create_laws_def o by blast
  from that [OF d(1) c(1,2) only_table_trans [OF d(3) c(3)]] show thesis .
qed

lemma new_balance_table:
  assumes "drop_laws M V" "create_laws M V" "installed V db" "slice_time t" and o: "table = slice_balance_table t"
  obtains db1 db2 where "mysql_real_query M (DropTableIfExists table) db = (0, db1)"
    "mysql_real_query M (CreateTableLike table ''slice_balance_example'') db1 = (0, db2)"
    "balance_table V db2 table = Some []" "only_table V table db db2"
proof -
  obtain db1 where d: "mysql_real_query M (DropTableIfExists table) db = (0, db1)" "\<not> has_table V db1 table" "only_table V table db db1"
    using assms(1,3,4) unfolding drop_laws_def o by blast
  then have "installed V db1" by (simp add: only_table_def)
  then obtain db2 where c: "mysql_real_query M (CreateTableLike table ''slice_balance_example'') db1 = (0, db2)"
      "balance_table V db2 table = Some []" "only_table V table db1 db2"
    using assms(2,4) d(2) unfolding create_laws_def o by blast
  from that [OF d(1) c(1,2) only_table_trans [OF d(3) c(3)]] show thesis .
qed

lemma dump_to_db_ok:
  assumes laws: "slice_laws D val M V" and ready: "slice_ready D val s"
    and db: "installed V db" "history_room V db" "slice_time t"
  obtains db' rows brows where "dump_to_db D M t s db = Some (0, db')" "installed V db'"
    "order_table V db' (slice_order_table t) = Some rows" "list_all2 (row_of D val) (slice_rows s) rows"
    "balance_table V db' (slice_balance_table t) = Some brows" "list_all2 (balance_row_of D val) (dict_balance s) brows"
    "sorted_wrt (<) (0 # map b_id brows)"
    "history_rows V db' = (t, operlog_id_start s, order_id_start s, deals_id_start s) # history_rows V db"
proof -
  let ?o = "slice_order_table t" and ?b = "slice_balance_table t"
  have laws': "drop_laws M V" "create_laws M V" "insert_order_laws D val M V" "insert_balance_laws D val M V" "history_laws M V" "select_laws M V"
    using laws by (simp_all add: slice_laws_def)
  have conn: "mysql_connect M db" using laws'(6) db(1) by (simp add: select_laws_def)
  obtain db1 db2 where c1: "mysql_real_query M (DropTableIfExists ?o) db = (0, db1)"
    "mysql_real_query M (CreateTableLike ?o ''slice_order_example'') db1 = (0, db2)" "order_table V db2 ?o = Some []" "only_table V ?o db db2"
    by (rule new_order_table [OF laws'(1,2) db(1,3) refl])
  have "orders_in D val V ?o db db2 []" using c1(3,4) by (simp add: orders_in_def)
  from dump_markets_ok [OF laws'(3) this, of "settings_markets s" s] ready obtain db3 where
    c2: "dump_markets D M ?o s (settings_markets s) db2 = Some (0, db3)" "orders_in D val V ?o db db3 (slice_rows s)"
    by (auto simp: slice_ready_def slice_rows_def)
  then obtain rows where rows: "order_table V db3 ?o = Some rows" "list_all2 (row_of D val) (slice_rows s) rows" "only_table V ?o db db3"
    by (auto simp: orders_in_def)
  then have "installed V db3" by (simp add: only_table_def)
  from new_balance_table [OF laws'(1,2) this db(3) refl] obtain db4 db5 where c3: "mysql_real_query M (DropTableIfExists ?b) db3 = (0, db4)"
    "mysql_real_query M (CreateTableLike ?b ''slice_balance_example'') db4 = (0, db5)" "balance_table V db5 ?b = Some []" "only_table V ?b db3 db5"
    by blast
  have "balances_in D val V ?b db3 db5 []" using c3(3,4) by (simp add: balances_in_def)
  from dump_balance_dict_ok [OF laws'(4) this, of "dict_balance s"] ready obtain db6 where
    c4: "dump_balance_dict D M ?b (dict_balance s) db5 = (0, db6)" "balances_in D val V ?b db3 db6 (dict_balance s)"
    by (auto simp: slice_ready_def)
  then obtain brows where brows: "balance_table V db6 ?b = Some brows" "list_all2 (balance_row_of D val) (dict_balance s) brows"
      "sorted_wrt (<) (0 # map b_id brows)" "only_table V ?b db3 db6" by (auto simp: balances_in_def)
  have "installed V db6" "history_room V db6" and hist: "history_rows V db6 = history_rows V db"
    using brows(4) rows(3) db(2) by (simp_all add: only_table_def)
  then obtain db7 where c5: "mysql_real_query M (slice_history_row t (operlog_id_start s) (order_id_start s) (deals_id_start s)) db6 = (0, db7)"
    "installed V db7" "unchanged V None db6 db7"
    "history_rows V db7 = (t, operlog_id_start s, order_id_start s, deals_id_start s) # history_rows V db6"
    using laws'(5) db(3) unfolding history_laws_def by blast
  have "dump_to_db D M t s db = Some (0, db7)"
    using conn c1(1,2) c2(1) c3(1,2) c4(1) c5(1)
    by (simp add: dump_to_db_def dump_order_to_db_def dump_orders_def dump_balance_to_db_def dump_balance_def update_slice_history_def)
  moreover have "order_table V db7 ?o = Some rows" "balance_table V db7 ?b = Some brows"
    using rows(1) brows(1,4) c5(3) slice_tables by (simp_all add: only_table_def unchanged_def)
  ultimately show thesis using that c5(2) rows(2) brows(2,3) c5(4) hist by simp
qed

section \<open>Reading the pages of a table\<close>

lemma page_rest:
  fixes key :: "'a \<Rightarrow> 'k::linorder"
  assumes "sorted_wrt (<) (map key rows)" "filter (\<lambda>r. i < key r) rows = xs @ ys" "xs \<noteq> []"
  shows "filter (\<lambda>r. key (last xs) < key r) rows = ys"
proof -
  obtain zs z where xs: "xs = zs @ [z]" using assms(3) by (metis append_butlast_last_id)
  have sorted: "sorted_wrt (\<lambda>a b. key a < key b) (zs @ z # ys)"
    using sorted_wrt_filter [of "\<lambda>a b. key a < key b" rows "\<lambda>r. i < key r"] assms(1,2) by (simp add: sorted_wrt_map xs)
  have "z \<in> set (filter (\<lambda>r. i < key r) rows)" by (simp add: assms(2) xs)
  then have "filter (\<lambda>r. key z < key r) rows = filter (\<lambda>r. key z < key r) (filter (\<lambda>r. i < key r) rows)"
    unfolding filter_filter by (intro filter_cong) auto
  also have "\<dots> = filter (\<lambda>r. key z < key r) (zs @ z # ys)" by (simp add: assms(2) xs)
  also have "\<dots> = ys"
    using sorted by (fastforce simp: sorted_wrt_append filter_empty_conv filter_id_conv not_less less_imp_le)
  finally show ?thesis by (simp add: xs)
qed

lemma load_order_rows_append:
  "load_order_rows D (xs @ ys) last_id s =
     (case load_order_rows D xs last_id s of
        None \<Rightarrow> None
      | Some (code, last_id, s) \<Rightarrow> if code = 0 then load_order_rows D ys last_id s else Some (code, last_id, s))"
  by (induction xs arbitrary: last_id s) (auto simp: Let_def split: option.split market_ptr.split prod.split)

lemma load_order_rows_last:
  "load_order_rows D xs last_id s = Some (0, last_id', s') \<Longrightarrow> xs \<noteq> [] \<Longrightarrow> last_id' = r_id (last xs)"
proof (induction xs arbitrary: last_id s)
  case (Cons row xs)
  then show ?case
    by (cases "xs = []") (auto simp: Let_def split: if_splits option.splits market_ptr.splits prod.splits)
qed simp

definition table_page :: "('a \<Rightarrow> u64) \<Rightarrow> 'a list \<Rightarrow> u64 \<Rightarrow> 'a list option" where
  "table_page key rows last_id = Some (take query_limit (filter (\<lambda>row. last_id < key row) rows))"

lemma load_orders_pages:
  assumes "sorted_wrt (<) (map r_id rows)"
  shows "load_order_rows D (filter (\<lambda>row. last_id < r_id row) rows) last_id s = Some (0, last_id', s')
    \<Longrightarrow> load_orders_from D (table_page r_id rows) last_id s = Some (0, s')"
proof (induction "length (filter (\<lambda>row. last_id < r_id row) rows)" arbitrary: last_id s rule: less_induct)
  case less
  let ?all = "filter (\<lambda>row. last_id < r_id row) rows"
  let ?xs = "take query_limit ?all" and ?ys = "drop query_limit ?all"
  have "load_order_rows D (?xs @ ?ys) last_id s = Some (0, last_id', s')" using less.prems by simp
  then obtain l s1 where p: "load_order_rows D ?xs last_id s = Some (0, l, s1)" "load_order_rows D ?ys l s1 = Some (0, last_id', s')"
    unfolding load_order_rows_append by (auto split: option.splits if_splits)
  show ?case
  proof (cases "length ?xs < query_limit")
    case True
    then have "?ys = []" by simp
    with p True show ?thesis by (subst load_orders_from.simps) (auto simp: table_page_def min_less_iff_disj)
  next
    case False
    then have ne: "?xs \<noteq> []" by (auto simp: query_limit_def)
    have rest: "filter (\<lambda>row. l < r_id row) rows = ?ys"
      using page_rest [OF assms _ ne, of last_id ?ys] load_order_rows_last [OF p(1) ne] by simp
    have "length ?ys < length ?all" using ne by (simp add: query_limit_def)
    with less.hyps [of l s1] p(2) rest have "load_orders_from D (table_page r_id rows) l s1 = Some (0, s')" by simp
    with p(1) False show ?thesis by (subst load_orders_from.simps) (simp add: table_page_def)
  qed
qed

lemma load_balance_rows_append:
  "load_balance_rows D (xs @ ys) last_id s =
     (case load_balance_rows D xs last_id s of None \<Rightarrow> None | Some (last_id, s) \<Rightarrow> load_balance_rows D ys last_id s)"
  by (induction xs arbitrary: last_id s) (auto simp: Let_def split: option.split)

lemma load_balance_rows_last:
  "load_balance_rows D xs last_id s = Some (last_id', s') \<Longrightarrow> xs \<noteq> [] \<Longrightarrow> last_id' = b_id (last xs)"
proof (induction xs arbitrary: last_id s)
  case (Cons row xs)
  then show ?case
    by (cases "xs = []") (auto simp: Let_def split: if_splits option.splits)
qed simp

lemma load_balance_pages:
  assumes "sorted_wrt (<) (map b_id rows)"
  shows "load_balance_rows D (filter (\<lambda>row. last_id < b_id row) rows) last_id s = Some (last_id', s')
    \<Longrightarrow> load_balance_from D (table_page b_id rows) last_id s = Some (0, s')"
proof (induction "length (filter (\<lambda>row. last_id < b_id row) rows)" arbitrary: last_id s rule: less_induct)
  case less
  let ?all = "filter (\<lambda>row. last_id < b_id row) rows"
  let ?xs = "take query_limit ?all" and ?ys = "drop query_limit ?all"
  have "load_balance_rows D (?xs @ ?ys) last_id s = Some (last_id', s')" using less.prems by simp
  then obtain l s1 where p: "load_balance_rows D ?xs last_id s = Some (l, s1)" "load_balance_rows D ?ys l s1 = Some (last_id', s')"
    unfolding load_balance_rows_append by (auto split: option.splits if_splits)
  show ?case
  proof (cases "length ?xs < query_limit")
    case True
    then have "?ys = []" by simp
    with p True show ?thesis by (subst load_balance_from.simps) (auto simp: table_page_def min_less_iff_disj)
  next
    case False
    then have ne: "?xs \<noteq> []" by (auto simp: query_limit_def)
    have rest: "filter (\<lambda>row. l < b_id row) rows = ?ys"
      using page_rest [OF assms _ ne, of last_id ?ys] load_balance_rows_last [OF p(1) ne] by simp
    have "length ?ys < length ?all" using ne by (simp add: query_limit_def)
    with less.hyps [of l s1] p(2) rest have "load_balance_from D (table_page b_id rows) l s1 = Some (0, s')" by simp
    with p(1) False show ?thesis by (subst load_balance_from.simps) (simp add: table_page_def)
  qed
qed

section \<open>Reading an order and a balance back\<close>

lemma decimal_denotes:
  assumes "mpd_laws D val" "denotes D val str x" "0 \<le> p" "p \<le> max_prec" "on_grid (nat p) x"
  obtains d where "decimal D str p = Some d" "val d = Some x"
proof -
  obtain d where d: "mpd_set_string D str = (d, False)" "val d = Some x" using assms(2) by (auto simp: denotes_def)
  from mpd_rescale_val [OF assms(1) d(2) assms(3,4)] trunc_dec_grid [OF assms(5)] have "val (mpd_rescale D d (- p)) = Some x" by simp
  with d that show thesis by (cases "p = 0") (auto simp: decimal_def)
qed

lemma decimal_denotes0:
  assumes "denotes D val str x"
  obtains d where "decimal D str 0 = Some d" "val d = Some x"
  using assms that by (auto simp: decimal_def denotes_def)

text \<open>
  Two orders that agree in everything but the representation of the numbers and the source, which
  is not part of a slice: the totals of what has been dealt so far have the decimals of their columns.
\<close>

definition same_order :: "('d \<Rightarrow> rat option) \<Rightarrow> 'd order \<Rightarrow> 'd order \<Rightarrow> bool" where
  "same_order val a b \<longleftrightarrow> o_id b = o_id a \<and> o_type b = o_type a \<and> o_side b = o_side a \<and> o_create_time b = o_create_time a
     \<and> o_update_time b = o_update_time a \<and> o_user_id b = o_user_id a \<and> o_market b = o_market a
     \<and> val (o_price b) = val (o_price a) \<and> val (o_amount b) = val (o_amount a) \<and> val (o_taker_fee b) = val (o_taker_fee a)
     \<and> val (o_maker_fee b) = val (o_maker_fee a) \<and> val (o_left b) = val (o_left a) \<and> val (o_freeze b) = val (o_freeze a)
     \<and> val (o_deal_stock b) = map_option (dec_round 8) (val (o_deal_stock a))
     \<and> val (o_deal_money b) = map_option (dec_round 16) (val (o_deal_money a))
     \<and> val (o_deal_fee b) = map_option (dec_round 12) (val (o_deal_fee a))"

text \<open>The amounts of a resting order have the decimals of its market, and what is frozen is what it needs.\<close>

definition order_grid :: "('d \<Rightarrow> rat option) \<Rightarrow> 'd market \<Rightarrow> 'd order \<Rightarrow> bool" where
  "order_grid val m a \<longleftrightarrow> (\<exists>p l. val (o_price a) = Some p \<and> val (o_left a) = Some l
     \<and> on_grid (nat (m_money_prec m)) p \<and> on_grid (nat (m_stock_prec m)) l \<and> fits (p * l)
     \<and> val (o_freeze a) = Some (if o_side a = MARKET_ORDER_SIDE_ASK then l else p * l))
     \<and> (\<forall>x. val (o_amount a) = Some x \<longrightarrow> on_grid (nat (m_stock_prec m)) x)
     \<and> (\<forall>x. val (o_taker_fee a) = Some x \<longrightarrow> on_grid (nat (m_fee_prec m)) x)
     \<and> (\<forall>x. val (o_maker_fee a) = Some x \<longrightarrow> on_grid (nat (m_fee_prec m)) x)"

definition precs_ok :: "'d market \<Rightarrow> bool" where
  "precs_ok m \<longleftrightarrow> 0 \<le> m_money_prec m \<and> m_money_prec m \<le> max_prec \<and> 0 \<le> m_stock_prec m \<and> m_stock_prec m \<le> max_prec
     \<and> 0 \<le> m_fee_prec m \<and> m_fee_prec m \<le> max_prec"

text \<open>The order of a row, up to the freeze, which \<open>order_put\<close> computes again.\<close>

lemma stored_grid:
  assumes "stored D val k d str" "\<forall>x. val d = Some x \<longrightarrow> on_grid (nat p) x" "p \<le> int k"
  obtains x where "val d = Some x" "denotes D val str x" "on_grid (nat p) x"
proof -
  obtain x where x: "val d = Some x" "denotes D val str (dec_round k x)" using assms(1) by blast
  with assms(2) have g: "on_grid (nat p) x" by blast
  have "dec_round k x = x" by (rule dec_round_grid, rule on_grid_mono [OF g]) (use assms(3) in simp)
  with x g that show thesis by simp
qed

lemma order_of_row_ok:
  assumes L: "mpd_laws D val" and row: "row_of D val a row" and grid: "order_grid val m a" and ok: "order_ok val a"
    and p: "precs_ok m" "slice_precs m"
  obtains b where "order_of_row D m row = Some b" "order_ok val b" "o_source b = None"
    "\<And>f. val f = val (o_freeze a) \<Longrightarrow> same_order val a (b\<lparr>o_freeze := f\<rparr>)"
proof -
  note precs = p [unfolded precs_ok_def slice_precs_def]
  have le: "m_money_prec m \<le> int 8" "m_stock_prec m \<le> int 8" "m_fee_prec m \<le> int 4" using precs by simp_all
  have g: "\<forall>x. val (o_price a) = Some x \<longrightarrow> on_grid (nat (m_money_prec m)) x" "\<forall>x. val (o_amount a) = Some x \<longrightarrow> on_grid (nat (m_stock_prec m)) x"
    "\<forall>x. val (o_taker_fee a) = Some x \<longrightarrow> on_grid (nat (m_fee_prec m)) x" "\<forall>x. val (o_maker_fee a) = Some x \<longrightarrow> on_grid (nat (m_fee_prec m)) x"
    "\<forall>x. val (o_left a) = Some x \<longrightarrow> on_grid (nat (m_stock_prec m)) x"
    using grid by (auto simp: order_grid_def)
  have st: "stored D val 8 (o_price a) (r_price row)" "stored D val 8 (o_amount a) (r_amount row)"
    "stored D val 4 (o_taker_fee a) (r_taker_fee row)" "stored D val 4 (o_maker_fee a) (r_maker_fee row)"
    "stored D val 8 (o_left a) (r_left row)" "stored D val 8 (o_freeze a) (r_freeze row)"
    "stored D val 8 (o_deal_stock a) (r_deal_stock row)" "stored D val 16 (o_deal_money a) (r_deal_money row)"
    "stored D val 12 (o_deal_fee a) (r_deal_fee row)" using row by (simp_all add: row_of_def)
  obtain x1 where x1: "val (o_price a) = Some x1" "denotes D val (r_price row) x1" "on_grid (nat (m_money_prec m)) x1"
    by (rule stored_grid [OF st(1) g(1) le(1)])
  obtain x2 where x2: "val (o_amount a) = Some x2" "denotes D val (r_amount row) x2" "on_grid (nat (m_stock_prec m)) x2"
    by (rule stored_grid [OF st(2) g(2) le(2)])
  obtain x3 where x3: "val (o_taker_fee a) = Some x3" "denotes D val (r_taker_fee row) x3" "on_grid (nat (m_fee_prec m)) x3"
    by (rule stored_grid [OF st(3) g(3) le(3)])
  obtain x4 where x4: "val (o_maker_fee a) = Some x4" "denotes D val (r_maker_fee row) x4" "on_grid (nat (m_fee_prec m)) x4"
    by (rule stored_grid [OF st(4) g(4) le(3)])
  obtain x5 where x5: "val (o_left a) = Some x5" "denotes D val (r_left row) x5" "on_grid (nat (m_stock_prec m)) x5"
    by (rule stored_grid [OF st(5) g(5) le(2)])
  obtain x6 where x6: "denotes D val (r_freeze row) (dec_round 8 x6)" using st(6) by blast
  obtain x7 where x7: "val (o_deal_stock a) = Some x7" "denotes D val (r_deal_stock row) (dec_round 8 x7)" using st(7) by blast
  obtain x8 where x8: "val (o_deal_money a) = Some x8" "denotes D val (r_deal_money row) (dec_round 16 x8)" using st(8) by blast
  obtain x9 where x9: "val (o_deal_fee a) = Some x9" "denotes D val (r_deal_fee row) (dec_round 12 x9)" using st(9) by blast
  obtain d1 where d1: "decimal D (r_price row) (m_money_prec m) = Some d1" "val d1 = Some x1"
    using decimal_denotes [OF L x1(2) _ _ x1(3)] precs by blast
  obtain d2 where d2: "decimal D (r_amount row) (m_stock_prec m) = Some d2" "val d2 = Some x2"
    using decimal_denotes [OF L x2(2) _ _ x2(3)] precs by blast
  obtain d3 where d3: "decimal D (r_taker_fee row) (m_fee_prec m) = Some d3" "val d3 = Some x3"
    using decimal_denotes [OF L x3(2) _ _ x3(3)] precs by blast
  obtain d4 where d4: "decimal D (r_maker_fee row) (m_fee_prec m) = Some d4" "val d4 = Some x4"
    using decimal_denotes [OF L x4(2) _ _ x4(3)] precs by blast
  obtain d5 where d5: "decimal D (r_left row) (m_stock_prec m) = Some d5" "val d5 = Some x5"
    using decimal_denotes [OF L x5(2) _ _ x5(3)] precs by blast
  obtain d6 where d6: "decimal D (r_freeze row) 0 = Some d6" "val d6 = Some (dec_round 8 x6)" using decimal_denotes0 [OF x6] .
  obtain d7 where d7: "decimal D (r_deal_stock row) 0 = Some d7" "val d7 = Some (dec_round 8 x7)" using decimal_denotes0 [OF x7(2)] .
  obtain d8 where d8: "decimal D (r_deal_money row) 0 = Some d8" "val d8 = Some (dec_round 16 x8)" using decimal_denotes0 [OF x8(2)] .
  obtain d9 where d9: "decimal D (r_deal_fee row) 0 = Some d9" "val d9 = Some (dec_round 12 x9)" using decimal_denotes0 [OF x9(2)] .
  let ?b = "\<lparr> o_id = r_id row, o_type = r_t row, o_side = r_side row, o_create_time = r_create_time row,
                 o_update_time = r_update_time row, o_user_id = r_user_id row, o_market = r_market row,
                 o_source = None, o_price = d1, o_amount = d2, o_taker_fee = d3, o_maker_fee = d4, o_left = d5, o_freeze = d6,
                 o_deal_stock = d7, o_deal_money = d8, o_deal_fee = d9 \<rparr>"
  note vals = x1(1) x2(1) x3(1) x4(1) x5(1) x7(1) x8(1) x9(1) d1(2) d2(2) d3(2) d4(2) d5(2) d6(2) d7(2) d8(2) d9(2)
  have "order_of_row D m row = Some ?b" by (simp add: order_of_row_def d1 d2 d3 d4 d5 d6 d7 d8 d9)
  moreover have "order_ok val ?b"
    using ok row by (simp add: order_ok_def amounts_ok_def nonneg_def finite_val_def vals row_of_def dec_round_nonneg)
  moreover have "same_order val a (?b\<lparr>o_freeze := f\<rparr>)" if "val f = val (o_freeze a)" for f
    using row that by (simp add: same_order_def vals row_of_def)
  ultimately show thesis by (intro that [of ?b]) simp_all
qed

section \<open>Filling a fresh market\<close>

text \<open>The market \<open>m'\<close> has the orders of \<open>m\<close> with an id in \<open>I\<close>.\<close>

definition part_market :: "('d \<Rightarrow> rat option) \<Rightarrow> 'd market \<Rightarrow> u64 set \<Rightarrow> 'd market \<Rightarrow> bool" where
  "part_market val m I m' \<longleftrightarrow> market_ok val m' \<and> same_market m m' \<and> m_money_prec m' = m_money_prec m \<and> m_fee_prec m' = m_fee_prec m
     \<and> (\<forall>i. rel_option (same_order val) (if i \<in> I then m_orders m i else None) (m_orders m' i))
     \<and> set (m_asks m') = {i. \<exists>b. m_orders m' i = Some b \<and> o_side b = MARKET_ORDER_SIDE_ASK}
     \<and> set (m_bids m') = {i. \<exists>b. m_orders m' i = Some b \<and> o_side b = MARKET_ORDER_SIDE_BID}"

lemma order_put_static: "m_money_prec (fst (snd (order_put D m s a))) = m_money_prec m" "m_fee_prec (fst (snd (order_put D m s a))) = m_fee_prec m"
  by (auto simp: order_put_def Let_def split: option.split prod.split)

lemma order_put_no_balance: "dict_balance s = [] \<Longrightarrow> snd (snd (order_put D m s a)) = s"
  by (auto simp: order_put_def balance_freeze_def balance_get_def Let_def split: option.split)

lemma part_market_step:
  assumes L: "mpd_laws D val" and part: "part_market val m I m'" and row: "row_of D val a row" and grid: "order_grid val m a"
    and a: "m_orders m (o_id a) = Some a" "order_ok val a" "o_id a \<notin> I" and p: "precs_ok m" "slice_precs m" and s: "dict_balance s = []"
  obtains b ret m'' where "order_of_row D m' row = Some b" "order_put D m' s b = (ret, m'', s)" "part_market val m (insert (o_id a) I) m''"
proof -
  have same: "m_money_prec m' = m_money_prec m" "m_fee_prec m' = m_fee_prec m" "m_stock_prec m' = m_stock_prec m"
    using part by (simp_all add: part_market_def same_market_def)
  have "order_grid val m' a" "precs_ok m'" "slice_precs m'" using grid p by (simp_all add: order_grid_def precs_ok_def slice_precs_def same)
  from order_of_row_ok [OF L row this(1) a(2) this(2,3)] obtain b where b: "order_of_row D m' row = Some b" "order_ok val b" "o_source b = None"
    "\<And>f. val f = val (o_freeze a) \<Longrightarrow> same_order val a (b\<lparr>o_freeze := f\<rparr>)" by metis
  have id: "o_id b = o_id a" "o_side b = o_side a" "val (o_left b) = val (o_left a)" "val (o_price b) = val (o_price a)"
    using b(4) [OF refl] by (simp_all add: same_order_def)
  have rel: "rel_option (same_order val) (if i \<in> I then m_orders m i else None) (m_orders m' i)" for i
    using part by (simp add: part_market_def)
  have new: "m_orders m' (o_id b) = None" using rel [of "o_id a"] a(3) id by simp
  obtain ret m'' s' where put: "order_put D m' s b = (ret, m'', s')" by (metis surj_pair)
  have "s' = s" using order_put_no_balance [OF s, of D m' b] put by simp
  note put' = order_put_ok [OF L _ new b(2) put]
  have ok: "market_ok val m'" using part by (simp add: part_market_def)
  obtain f where f: "m_orders m'' = (m_orders m')(o_id a \<mapsto> b\<lparr>o_freeze := f\<rparr>)"
    "f = (if o_side a = MARKET_ORDER_SIDE_ASK then o_left b else mpd_mul D (o_price b) (o_left b))"
    using put'(4) [OF ok] id by auto
  obtain pr l where pl: "val (o_price a) = Some pr" "val (o_left a) = Some l" "fits (pr * l)"
    "val (o_freeze a) = Some (if o_side a = MARKET_ORDER_SIDE_ASK then l else pr * l)"
    using grid by (auto simp: order_grid_def)
  have "val f = val (o_freeze a)"
  proof -
    obtain z where z: "val (mpd_mul D (o_price b) (o_left b)) = Some z" "rounds z (pr * l)"
      using mpd_mul_val [OF L, of "o_price b" pr "o_left b" l] id pl by auto
    with rounds_fits [OF z(2) pl(3)] show ?thesis using f(2) id pl by simp
  qed
  note so = b(4) [OF this]
  obtain pre post where pp: "if o_side a = MARKET_ORDER_SIDE_ASK
       then m_asks m' = pre @ post \<and> m_asks m'' = pre @ o_id a # post \<and> m_bids m'' = m_bids m'
       else m_bids m' = pre @ post \<and> m_bids m'' = pre @ o_id a # post \<and> m_asks m'' = m_asks m'"
    using put'(5) [OF ok] id by auto
  have side: "o_side a = MARKET_ORDER_SIDE_ASK \<or> o_side a = MARKET_ORDER_SIDE_BID" using a(2) by (simp add: order_ok_def side_ok_def)
  have orders: "rel_option (same_order val) (if i \<in> insert (o_id a) I then m_orders m i else None) (m_orders m'' i)" for i
    using rel [of i] so a(1) f(1) by auto
  have books: "set (m_asks m') = {i. \<exists>b. m_orders m' i = Some b \<and> o_side b = MARKET_ORDER_SIDE_ASK}"
    "set (m_bids m') = {i. \<exists>b. m_orders m' i = Some b \<and> o_side b = MARKET_ORDER_SIDE_BID}" using part by (simp_all add: part_market_def)
  have new': "m_orders m' (o_id a) = None" using new id by simp
  have asks: "set (m_asks m'') = {i. \<exists>b. m_orders m'' i = Some b \<and> o_side b = MARKET_ORDER_SIDE_ASK}"
    using pp books(1) f(1) new' id side by (auto split: if_splits)
  have bids: "set (m_bids m'') = {i. \<exists>b. m_orders m'' i = Some b \<and> o_side b = MARKET_ORDER_SIDE_BID}"
    using pp books(2) f(1) new' id side by (auto split: if_splits)
  have "same_market m m''" using part put'(2) [OF ok] by (simp add: part_market_def same_market_def)
  moreover have "m_money_prec m'' = m_money_prec m" "m_fee_prec m'' = m_fee_prec m"
    using order_put_static [of D m' s b] put same by simp_all
  ultimately have "part_market val m (insert (o_id a) I) m''"
    using put'(1) [OF ok] orders asks bids by (simp add: part_market_def)
  with b(1) put \<open>s' = s\<close> show thesis by (intro that [of b ret m'']) simp_all
qed

section \<open>Filling a fresh engine\<close>

definition conf_names :: "('d, 'z) trade_state_scheme \<Rightarrow> string set" where
  "conf_names s = {c_name conf | conf. Some conf \<in> set (settings_markets s)}"

text \<open>What holds of the markets of a running engine: the order that rests in a market names it, and is in its book.\<close>

definition running_market :: "('d \<Rightarrow> rat option) \<Rightarrow> string \<Rightarrow> 'd market \<Rightarrow> bool" where
  "running_market val name m \<longleftrightarrow> market_ok val m \<and> precs_ok m
     \<and> (\<forall>i a. m_orders m i = Some a \<longrightarrow> o_market a = name \<and> i \<noteq> 0 \<and> order_grid val m a
          \<and> i \<in> set (if o_side a = MARKET_ORDER_SIDE_ASK then m_asks m else m_bids m))"

definition running :: "('d \<Rightarrow> rat option) \<Rightarrow> ('d, 'z) trade_state_scheme \<Rightarrow> bool" where
  "running val s \<longleftrightarrow> balances_ok val s
     \<and> (\<forall>name \<in> conf_names s. \<exists>m. get_market s name = Some (Market m) \<and> running_market val name m)"

text \<open>The same engine when it has just been started.\<close>

definition fresh_market :: "'d market \<Rightarrow> 'd market" where
  "fresh_market m = m\<lparr>m_orders := Map.empty, m_users := Map.empty, m_asks := [], m_bids := []\<rparr>"

definition fresh_engine :: "('d, 'z) trade_state_scheme \<Rightarrow> ('d, 'z) trade_state_scheme \<Rightarrow> bool" where
  "fresh_engine s t \<longleftrightarrow> dict_balance t = [] \<and> dict_asset t = dict_asset s
     \<and> (\<forall>name m. name \<in> conf_names s \<longrightarrow> get_market s name = Some (Market m) \<longrightarrow> get_market t name = Some (Market (fresh_market m)))"

definition filled :: "('d \<Rightarrow> rat option) \<Rightarrow> ('d, 'z) trade_state_scheme \<Rightarrow> u64 set \<Rightarrow> ('d, 'z) trade_state_scheme \<Rightarrow> bool" where
  "filled val s I t \<longleftrightarrow> dict_balance t = [] \<and> dict_asset t = dict_asset s
     \<and> (\<forall>name m. name \<in> conf_names s \<longrightarrow> get_market s name = Some (Market m)
          \<longrightarrow> (\<exists>m'. get_market t name = Some (Market m') \<and> part_market val m I m'))"

lemma fresh_filled: "fresh_engine s t \<Longrightarrow> filled val s {} t"
  by (auto simp: fresh_engine_def filled_def part_market_def fresh_market_def market_ok_def heap_ok_def book_ok_def users_ok_def
      same_market_def)

text \<open>Every order of the slice is an order of a market of the settings.\<close>

lemma slice_rows_in:
  assumes "running val s" "a \<in> set (slice_rows s)"
  obtains m where "o_market a \<in> conf_names s" "get_market s (o_market a) = Some (Market m)" "running_market val (o_market a) m"
    "m_orders m (o_id a) = Some a"
proof -
  from assms(2) obtain c where c: "c \<in> set (settings_markets s)" "a \<in> set (conf_rows s c)" by (auto simp: slice_rows_def)
  have "\<exists>conf m. c = Some conf \<and> get_market s (c_name conf) = Some (Market m) \<and> a \<in> set (market_rows m)"
    using c(2) unfolding conf_rows_def by (cases c; cases "get_market s (c_name (the c))"; auto split: market_ptr.splits)
  then obtain conf m where conf: "c = Some conf" "get_market s (c_name conf) = Some (Market m)" "a \<in> set (market_rows m)"
    by blast
  then have name: "c_name conf \<in> conf_names s" using c(1) by (auto simp: conf_names_def)
  with assms(1) conf(2) have run: "running_market val (c_name conf) m" by (auto simp: running_def)
  from conf(3) obtain i where i: "m_orders m i = Some a" by (auto simp: market_rows_def map_filter_def)
  with run have "o_market a = c_name conf" "o_id a = i" by (auto simp: running_market_def market_ok_def heap_ok_def)
  with name conf(2) run i that show thesis by simp
qed

lemma market_rows_all:
  assumes "running_market val name m" "m_orders m i = Some a"
  shows "a \<in> set (market_rows m)"
proof -
  have "i \<in> set (if o_side a = MARKET_ORDER_SIDE_ASK then m_asks m else m_bids m)"
    using assms by (simp add: running_market_def)
  with assms(2) show ?thesis by (force simp: market_rows_def map_filter_def split: if_splits)
qed

lemma slice_rows_all:
  assumes "name \<in> conf_names s" "get_market s name = Some (Market m)" "a \<in> set (market_rows m)"
  shows "a \<in> set (slice_rows s)"
proof -
  obtain conf where "Some conf \<in> set (settings_markets s)" "name = c_name conf" using assms(1) by (auto simp: conf_names_def)
  with assms(2,3) show ?thesis by (force simp: slice_rows_def conf_rows_def)
qed

lemma load_order_rows_fill:
  assumes L: "mpd_laws D val" and run: "running val s" and ready: "slice_ready D val s"
  shows "\<lbrakk>\<forall>row \<in> set rows. \<exists>a \<in> set (slice_rows s). row_of D val a row; distinct (map r_id rows); r_id ` set rows \<inter> I = {};
      filled val s I t\<rbrakk> \<Longrightarrow> \<exists>last_id' t'. load_order_rows D rows last_id t = Some (0, last_id', t') \<and> filled val s (I \<union> r_id ` set rows) t'"
proof (induction rows arbitrary: last_id I t)
  case Nil
  then show ?case by simp
next
  case (Cons row rows)
  obtain a where a: "a \<in> set (slice_rows s)" "row_of D val a row" using Cons.prems(1) by auto
  obtain m where m: "o_market a \<in> conf_names s" "get_market s (o_market a) = Some (Market m)" "running_market val (o_market a) m"
    "m_orders m (o_id a) = Some a" by (rule slice_rows_in [OF run a(1)])
  have id: "r_id row = o_id a" "r_market row = o_market a" using a(2) by (simp_all add: row_of_def)
  obtain m' where m': "get_market t (o_market a) = Some (Market m')" "part_market val m I m'"
    using Cons.prems(4) m(1,2) by (auto simp: filled_def)
  have t: "dict_balance t = []" using Cons.prems(4) by (simp add: filled_def)
  have r: "order_grid val m a" "precs_ok m" "order_ok val a"
    using m(3,4) by (auto simp: running_market_def market_ok_def heap_ok_def)
  have ids: "distinct (map o_id (slice_rows s))" using ready by (simp add: slice_ready_def)
  obtain conf where "Some conf \<in> set (settings_markets s)" "o_market a = c_name conf" using m(1) by (auto simp: conf_names_def)
  with ready m(2) have prec: "slice_precs m" by (simp add: slice_ready_def)
  have fresh: "o_id a \<notin> I" using Cons.prems(3) id by auto
  obtain b ret m'' where step: "order_of_row D m' row = Some b" "order_put D m' t b = (ret, m'', t)" "part_market val m (insert (o_id a) I) m''"
    by (rule part_market_step [OF L m'(2) a(2) r(1) m(4) r(3) fresh r(2) prec t])
  let ?t = "set_market (o_market a) m'' t"
  have "filled val s (insert (o_id a) I) ?t"
    unfolding filled_def
  proof (intro conjI allI impI)
    fix name n
    assume n: "name \<in> conf_names s" "get_market s name = Some (Market n)"
    show "\<exists>m'. get_market ?t name = Some (Market m') \<and> part_market val n (insert (o_id a) I) m'"
    proof (cases "name = o_market a")
      case True
      then show ?thesis using n(2) m(2) step(3) by (simp add: get_market_def set_market_def)
    next
      case False
      obtain n' where n': "get_market t name = Some (Market n')" "part_market val n I n'"
        using Cons.prems(4) n by (auto simp: filled_def)
      have "m_orders n (o_id a) = None"
      proof (rule ccontr)
        assume "m_orders n (o_id a) \<noteq> None"
        then obtain c where c: "m_orders n (o_id a) = Some c" by blast
        obtain k where k: "get_market s name = Some (Market k)" "running_market val name k" using run n(1) by (auto simp: running_def)
        have rn: "running_market val name n" using k n(2) by simp
        have "c \<in> set (slice_rows s)" by (rule slice_rows_all [OF n market_rows_all [OF rn c]])
        moreover have "o_id c = o_id a" "o_market c = name"
          using rn c by (auto simp: running_market_def market_ok_def heap_ok_def)
        ultimately show False using a(1) ids False by (auto simp: distinct_map inj_on_def)
      qed
      then have "(if i \<in> insert (o_id a) I then m_orders n i else None) = (if i \<in> I then m_orders n i else None)" for i by auto
      with n' False show ?thesis by (simp add: part_market_def get_market_def set_market_def)
    qed
  qed (use Cons.prems(4) in \<open>simp_all add: filled_def set_market_def\<close>)
  moreover have "r_id ` set rows \<inter> insert (o_id a) I = {}" using Cons.prems(2,3) id by auto
  ultimately obtain last_id' t' where "load_order_rows D rows (r_id row) ?t = Some (0, last_id', t')"
      "filled val s (insert (o_id a) I \<union> r_id ` set rows) t'"
    using Cons.IH [of "insert (o_id a) I" ?t "r_id row"] Cons.prems(1,2) by auto
  then show ?case using id m'(1) step(1,2) by (simp add: market_put_order_def Let_def)
qed

text \<open>A strictly sorted list is determined by its elements.\<close>

lemma strict_sorted_unique:
  assumes "sorted_wrt P xs" "sorted_wrt P ys" "set xs = set ys" and asym: "\<And>x y. P x y \<Longrightarrow> \<not> P y x"
  shows "xs = ys"
  using assms(1-3)
proof (induction xs arbitrary: ys)
  case (Cons x xs)
  obtain y ys' where ys: "ys = y # ys'" using Cons.prems(3) by (cases ys) auto
  have gt: "\<forall>z \<in> set xs. P x z" "\<forall>z \<in> set ys'. P y z" and sorted: "sorted_wrt P xs" "sorted_wrt P ys'"
    using Cons.prems(1,2) by (simp_all add: ys)
  have sets: "insert x (set xs) = insert y (set ys')" using Cons.prems(3) by (simp add: ys)
  have "x = y"
  proof (rule ccontr)
    assume "x \<noteq> y"
    moreover have "x \<in> insert y (set ys')" unfolding sets [symmetric] by simp
    moreover have "y \<in> insert x (set xs)" unfolding sets by simp
    ultimately have "x \<in> set ys'" "y \<in> set xs" by simp_all
    with gt have "P x y" "P y x" by simp_all
    with asym [of x y] show False by simp
  qed
  moreover have irr: "\<not> P z z" for z using asym [of z z] by auto
  have "x \<notin> set xs" "y \<notin> set ys'" using bspec [OF gt(1), of x] bspec [OF gt(2), of y] irr [of x] irr [of y] by auto
  with sets \<open>x = y\<close> have "set xs = set ys'" by (simp add: insert_ident)
  with Cons.IH [OF sorted(1,2)] have "xs = ys'" .
  ultimately show ?case by (simp add: ys)
qed simp

text \<open>Two markets with the same orders, books and lists of the users.\<close>

definition user_orders :: "'d market \<Rightarrow> u32 \<Rightarrow> u64 list" where
  "user_orders m u = (case m_users m u of Some l \<Rightarrow> l | None \<Rightarrow> [])"

definition same_content :: "('d \<Rightarrow> rat option) \<Rightarrow> 'd market \<Rightarrow> 'd market \<Rightarrow> bool" where
  "same_content val m m' \<longleftrightarrow> same_market m m' \<and> m_money_prec m' = m_money_prec m \<and> m_fee_prec m' = m_fee_prec m
     \<and> (\<forall>i. rel_option (same_order val) (m_orders m i) (m_orders m' i))
     \<and> m_asks m' = m_asks m \<and> m_bids m' = m_bids m \<and> user_orders m' = user_orders m"

lemma user_orders_ok:
  assumes "market_ok val m"
  shows "sorted_wrt (\<lambda>i j. j < i) (user_orders m u)" "set (user_orders m u) = {i. \<exists>a. m_orders m i = Some a \<and> o_user_id a = u}"
proof -
  have u: "users_ok (m_orders m) (m_users m)" using assms by (simp add: market_ok_def)
  show "sorted_wrt (\<lambda>i j. j < i) (user_orders m u)"
    using u by (cases "m_users m u") (auto simp: user_orders_def users_ok_def)
  show "set (user_orders m u) = {i. \<exists>a. m_orders m i = Some a \<and> o_user_id a = u}"
  proof (cases "m_users m u")
    case None
    have "m_users m (o_user_id a) \<noteq> None" if "m_orders m i = Some a" for i a using u that by (simp add: users_ok_def)
    with None have "\<not> (\<exists>i a. m_orders m i = Some a \<and> o_user_id a = u)" by blast
    with None show ?thesis by (simp add: user_orders_def)
  qed (use u in \<open>simp add: user_orders_def users_ok_def\<close>)
qed

lemma books_unique:
  assumes rel: "\<And>i. rel_option (same_order val) (h i) (h' i)" and b: "book_ok val h side xs" "book_ok val h' side ys"
    and "set xs = set ys"
  shows "ys = xs"
proof -
  have key: "match_price val side (the (h i)) = match_price val side (the (h' i))" for i
    using rel [of i] by (cases "h i"; cases "h' i") (auto simp: match_price_def same_order_def)
  have "ahead val h' side i j \<longleftrightarrow> ahead val h side i j" for i j
    by (simp add: ahead_def key)
  then have "ahead val h' side = ahead val h side" by (simp add: fun_eq_iff)
  then have "sorted_wrt (ahead val h side) ys" "sorted_wrt (ahead val h side) xs" using b by (simp_all add: book_ok_def)
  moreover have "\<not> ahead val h side j i" if "ahead val h side i j" for i j
    using that by (auto simp: ahead_def Let_def)
  ultimately show ?thesis
    using strict_sorted_unique [of "ahead val h side" ys xs] assms(4) by simp
qed

lemma part_market_all:
  assumes run: "running_market val name m" and part: "part_market val m I m'" and all: "\<And>i. m_orders m i \<noteq> None \<Longrightarrow> i \<in> I"
  shows "same_content val m m'"
proof -
  have ok: "market_ok val m" "market_ok val m'" using run part by (simp_all add: running_market_def part_market_def)
  have rel: "rel_option (same_order val) (m_orders m i) (m_orders m' i)" for i
  proof -
    have "rel_option (same_order val) (if i \<in> I then m_orders m i else None) (m_orders m' i)" using part by (simp add: part_market_def)
    with all [of i] show ?thesis by (cases "m_orders m i") (auto split: if_splits)
  qed
  have some: "(\<exists>b. m_orders m' i = Some b \<and> o_side b = sd) \<longleftrightarrow> (\<exists>a. m_orders m i = Some a \<and> o_side a = sd)"
      "(\<exists>b. m_orders m' i = Some b \<and> o_user_id b = u) \<longleftrightarrow> (\<exists>a. m_orders m i = Some a \<and> o_user_id a = u)" for i sd u
    using rel [of i] by (cases "m_orders m i"; cases "m_orders m' i"; auto simp: same_order_def)+
  have books: "\<exists>a. m_orders m i = Some a \<and> o_side a = MARKET_ORDER_SIDE_ASK" if "i \<in> set (m_asks m)" for i
    using ok(1) that by (simp add: market_ok_def book_ok_def)
  have books': "\<exists>a. m_orders m i = Some a \<and> o_side a = MARKET_ORDER_SIDE_BID" if "i \<in> set (m_bids m)" for i
    using ok(1) that by (simp add: market_ok_def book_ok_def)
  have booked: "i \<in> set (if o_side a = MARKET_ORDER_SIDE_ASK then m_asks m else m_bids m)" if "m_orders m i = Some a" for i a
    using run that by (simp add: running_market_def)
  have asks: "i \<in> set (m_asks m) \<longleftrightarrow> (\<exists>a. m_orders m i = Some a \<and> o_side a = MARKET_ORDER_SIDE_ASK)"
    and bids: "i \<in> set (m_bids m) \<longleftrightarrow> (\<exists>a. m_orders m i = Some a \<and> o_side a = MARKET_ORDER_SIDE_BID)" for i
    using books [of i] books' [of i] booked [of i] by auto
  have set_asks: "set (m_asks m) = set (m_asks m')" and set_bids: "set (m_bids m) = set (m_bids m')"
    using part asks bids by (auto simp: part_market_def some)
  have b: "book_ok val (m_orders m) MARKET_ORDER_SIDE_ASK (m_asks m)" "book_ok val (m_orders m) MARKET_ORDER_SIDE_BID (m_bids m)"
    "book_ok val (m_orders m') MARKET_ORDER_SIDE_ASK (m_asks m')" "book_ok val (m_orders m') MARKET_ORDER_SIDE_BID (m_bids m')"
    using ok by (simp_all add: market_ok_def)
  have "m_asks m' = m_asks m" by (rule books_unique [OF rel b(1,3) set_asks])
  moreover have "m_bids m' = m_bids m" by (rule books_unique [OF rel b(2,4) set_bids])
  moreover have "user_orders m' u = user_orders m u" for u
    using strict_sorted_unique [OF user_orders_ok(1) [OF ok(2), of u] user_orders_ok(1) [OF ok(1), of u]] user_orders_ok(2) [OF ok(1)]
      user_orders_ok(2) [OF ok(2)] some(2) by simp
  ultimately show ?thesis
    using part rel by (simp add: same_content_def part_market_def fun_eq_iff)
qed

section \<open>Loading the balances\<close>

lemma load_balance_rows_fill:
  assumes L: "mpd_laws D val"
  shows "\<lbrakk>list_all2 (balance_row_of D val) es rows; distinct (map fst es); balances_ok val t;
      \<forall>e \<in> set es. entry_ok val (dict_asset t) (fst e) (snd e)\<rbrakk>
    \<Longrightarrow> \<exists>last_id' t'. load_balance_rows D rows last_id t = Some (last_id', t') \<and> dict_asset t' = dict_asset t
      \<and> balance_state.more t' = balance_state.more t
      \<and> (\<forall>k. key_amount val t' k = (case map_of es k of Some d \<Rightarrow> dec_round 16 (amount_val val d) | None \<Rightarrow> key_amount val t k))"
proof (induction es arbitrary: rows last_id t)
  case Nil
  then show ?case by simp
next
  case (Cons e es)
  obtain row rows' where rows: "rows = row # rows'" "balance_row_of D val e row" "list_all2 (balance_row_of D val) es rows'"
    using Cons.prems(1) by (auto simp: list_all2_Cons1)
  obtain k d where e: "e = (k, d)" by fastforce
  obtain x aty where x: "val d = Some x" "0 \<le> x" "dict_asset t (bk_asset k) = Some aty" "on_grid (nat (prec_save aty)) x"
    using Cons.prems(4) by (auto simp: e entry_ok_def)
  note aty = balances_ok_asset [OF Cons.prems(3) x(3)]
  have key: "mk_key (bk_user_id k) (bk_type k) (bk_asset k) = k"
    using aty(1) by (simp add: mk_key_def ASSET_NAME_MAX_LEN_def)
  have row: "b_user_id row = bk_user_id k" "b_asset row = bk_asset k" "b_t row = bk_type k" "denotes D val (b_balance row) (dec_round 16 x)"
    using rows(2) x(1) by (auto simp: balance_row_of_def e)
  have round: "on_grid (nat (prec_save aty)) (dec_round 16 x)"
    using on_grid_mono [OF on_grid_round] dec_round_grid [OF on_grid_mono [OF x(4)], of 16] x(4)
    by (cases "nat (prec_save aty) \<le> 16") simp_all
  obtain d' where d': "decimal D (b_balance row) (prec_save aty) = Some d'" "val d' = Some (dec_round 16 x)"
    using decimal_denotes [OF L row(4) aty(2,3) round] .
  obtain r t1 where t1: "balance_set D (bk_user_id k) (bk_type k) (bk_asset k) d' t = (Some r, t1)" "moved val t k (dec_round 16 x) t1"
    using balance_set_pos [OF L Cons.prems(3) x(3) d'(2) dec_round_nonneg [OF x(2)]] trunc_dec_grid [OF round] key by metis
  have t1': "balances_ok val t1" "dict_asset t1 = dict_asset t" "balance_state.more t1 = balance_state.more t"
    "key_amount val t1 = (key_amount val t)(k := dec_round 16 x)" using t1(2) by (simp_all add: moved_def)
  have k: "k \<notin> fst ` set es" using Cons.prems(2) by (simp add: e)
  obtain last_id' t' where t': "load_balance_rows D rows' (b_id row) t1 = Some (last_id', t')" "dict_asset t' = dict_asset t1"
      "balance_state.more t' = balance_state.more t1"
      "\<forall>k. key_amount val t' k = (case map_of es k of Some d \<Rightarrow> dec_round 16 (amount_val val d) | None \<Rightarrow> key_amount val t1 k)"
    using Cons.IH [OF rows(3) _ t1'(1), of "b_id row"] Cons.prems(2,4) t1'(2) by auto
  have "map_of es k = None" using k by (simp add: map_of_eq_None_iff)
  then have "\<forall>k'. key_amount val t' k' = (case map_of (e # es) k' of Some d \<Rightarrow> dec_round 16 (amount_val val d) | None \<Rightarrow> key_amount val t k')"
    using t'(4) t1'(4) x(1) by (auto simp: e amount_val_def split: option.split)
  moreover have "load_balance_rows D rows last_id t = Some (last_id', t')"
    using t'(1) x(3) row(1-3) d'(1) t1(1) by (simp add: rows(1) asset_exist_def get_asset_type_def asset_prec_def)
  ultimately show ?case using t'(2,3) t1'(2,3) by auto
qed

section \<open>A slice is read back\<close>

text \<open>
  The engine \<open>t\<close> has the books and the orders of the engine \<open>s\<close>, and its amounts rounded to 16 decimals: exactly its
  amounts where the asset is saved with at most 16.
\<close>

definition same_engine :: "('d \<Rightarrow> rat option) \<Rightarrow> ('d, 'z) trade_state_scheme \<Rightarrow> ('d, 'z) trade_state_scheme \<Rightarrow> bool" where
  "same_engine val s t \<longleftrightarrow> dict_asset t = dict_asset s
     \<and> (\<forall>k. key_amount val t k = dec_round 16 (key_amount val s k))
     \<and> (\<forall>k aty. dict_asset s (bk_asset k) = Some aty \<longrightarrow> prec_save aty \<le> 16 \<longrightarrow> key_amount val t k = key_amount val s k)
     \<and> (\<forall>name m. name \<in> conf_names s \<longrightarrow> get_market s name = Some (Market m)
          \<longrightarrow> (\<exists>m'. get_market t name = Some (Market m') \<and> same_content val m m'))"

lemma key_amount_grid:
  assumes "balances_ok val s" "dict_asset s (bk_asset k) = Some aty"
  shows "on_grid (nat (prec_save aty)) (key_amount val s k)"
proof (cases "dv_find (dict_balance s) k")
  case (Some d)
  then have "entry_ok val (dict_asset s) k d"
    using assms(1) by (simp add: balances_ok_def)
  with Some assms(2) show ?thesis by (auto simp: entry_ok_def key_amount_def amount_val_def)
qed (simp add: key_amount_def)

lemma get_market_more: "balance_state.more t' = balance_state.more t \<Longrightarrow> get_market t' name = get_market t name"
  by (cases t; cases t') (simp add: get_market_def)

lemma sort_key_ids:
  fixes key :: "'a \<Rightarrow> u64"
  assumes "distinct (map key rows)"
  shows "sorted_wrt (<) (map key (sort_key key rows))"
proof -
  have "distinct (map key (sort_key key rows))"
    using assms by (simp add: distinct_map)
  then show ?thesis by (simp add: strict_sorted_iff)
qed

lemma load_slice_ok:
  assumes L: "mpd_laws D val" and sel: "select_laws M V" and run: "running val s" and ready: "slice_ready D val s" and fresh: "fresh_engine s t"
    and rows: "order_table V db (slice_order_table i) = Some rows" "list_all2 (row_of D val) (slice_rows s) rows"
    and brows: "balance_table V db (slice_balance_table i) = Some brows" "list_all2 (balance_row_of D val) (dict_balance s) brows"
      "sorted_wrt (<) (0 # map b_id brows)"
    and db: "installed V db"
  shows "\<exists>t'. load_slice_from_db D M db i t = Some (0, t') \<and> same_engine val s t'"
proof -
  let ?rows = "sort_key r_id rows"
  have ids: "distinct (map o_id (slice_rows s))" using ready by (simp add: slice_ready_def)
  have rids: "distinct (map r_id rows)" using ids row_ids [OF rows(2)] by simp
  have row: "\<exists>a \<in> set (slice_rows s). row_of D val a r" if "r \<in> set rows" for r
    using rows(2) that by (auto simp: list_all2_conv_all_nth in_set_conv_nth) (metis nth_mem)
  have nz: "r_id r \<noteq> 0" if r: "r \<in> set rows" for r
  proof -
    obtain a where a: "a \<in> set (slice_rows s)" "row_of D val a r" using row [OF r] by blast
    obtain m where "running_market val (o_market a) m" "m_orders m (o_id a) = Some a"
      by (rule slice_rows_in [OF run a(1)])
    then have "o_id a \<noteq> 0" unfolding running_market_def by blast
    then show ?thesis using a(2) by (simp add: row_of_def)
  qed
  have "filter (\<lambda>row. 0 < r_id row) ?rows = ?rows"
    using nz by (simp add: filter_id_conv word_gt_0)
  moreover obtain l t1 where t1: "load_order_rows D ?rows 0 t = Some (0, l, t1)" "filled val s (r_id ` set rows) t1"
    using load_order_rows_fill [OF L run ready, of ?rows "{}" t 0] row rids fresh_filled [OF fresh] by (auto simp: distinct_map)
  ultimately have orders: "load_orders_from D (table_page r_id ?rows) 0 t = Some (0, t1)"
    using load_orders_pages [OF sort_key_ids [OF rids], of D 0 t l t1] by simp
  have page: "orders_after M db (slice_order_table i) = table_page r_id ?rows"
    using sel db rows(1) by (simp add: select_laws_def table_page_def fun_eq_iff)
  have bal: "balances_ok val s" using run by (simp add: running_def)
  have t1': "dict_balance t1 = []" "dict_asset t1 = dict_asset s" using t1(2) by (simp_all add: filled_def)
  have bal1: "balances_ok val t1" using bal t1' by (simp add: balances_ok_def)
  have "\<forall>e \<in> set (dict_balance s). entry_ok val (dict_asset t1) (fst e) (snd e)" and keys: "distinct (map fst (dict_balance s))"
    using bal t1'(2) by (auto simp: balances_ok_def dv_wf_def)
  from load_balance_rows_fill [OF L brows(2) keys bal1 this(1), of 0] obtain l2 t2 where t2: "load_balance_rows D brows 0 t1 = Some (l2, t2)"
    "dict_asset t2 = dict_asset t1" "balance_state.more t2 = balance_state.more t1"
    "\<forall>k. key_amount val t2 k = (case map_of (dict_balance s) k of Some d \<Rightarrow> dec_round 16 (amount_val val d) | None \<Rightarrow> key_amount val t1 k)" by blast
  have sorted: "sorted_wrt (<) (map b_id brows)" and pos: "filter (\<lambda>row. 0 < b_id row) brows = brows"
    using brows(3) by (auto simp: filter_id_conv)
  have "sort_key b_id brows = brows" using sorted by (simp add: strict_sorted_iff sorted_sort_id sort_key_id_if_sorted)
  then have bpage: "balances_after M db (slice_balance_table i) = table_page b_id brows"
    using sel db brows(1) by (simp add: select_laws_def table_page_def fun_eq_iff)
  have balances: "load_balance_from D (table_page b_id brows) 0 t1 = Some (0, t2)"
    using load_balance_pages [OF sorted, of D 0 t1 l2 t2] t2(1) pos by simp
  have "load_slice_from_db D M db i t = Some (0, t2)"
    using orders balances by (simp add: load_slice_from_db_def load_orders_def load_balance_def page bpage)
  moreover have "same_engine val s t2"
    unfolding same_engine_def
  proof (intro conjI allI impI)
    show "dict_asset t2 = dict_asset s" using t2(2) t1'(2) by simp
    show amounts: "key_amount val t2 k = dec_round 16 (key_amount val s k)" for k
      using t2(4) t1'(1) by (auto simp: key_amount_def split: option.split)
    show "key_amount val t2 k = key_amount val s k" if "dict_asset s (bk_asset k) = Some aty" "prec_save aty \<le> 16" for k aty
      using amounts [of k] dec_round_grid [OF on_grid_mono [OF key_amount_grid [OF bal that(1)]], of 16] that(2) by simp
    fix name m
    assume n: "name \<in> conf_names s" "get_market s name = Some (Market m)"
    obtain m' where m': "get_market t1 name = Some (Market m')" "part_market val m (r_id ` set rows) m'"
      using t1(2) n by (auto simp: filled_def)
    have rm: "running_market val name m" using run n by (auto simp: running_def)
    have "j \<in> r_id ` set rows" if "m_orders m j \<noteq> None" for j
    proof -
      from that obtain a where a: "m_orders m j = Some a" by blast
      have "a \<in> set (slice_rows s)" by (rule slice_rows_all [OF n market_rows_all [OF rm a]])
      moreover have "o_id a = j" using rm a by (simp add: running_market_def market_ok_def heap_ok_def)
      moreover have "r_id ` set rows = o_id ` set (slice_rows s)" using row_ids [OF rows(2)] by (metis set_map)
      ultimately show ?thesis by auto
    qed
    from part_market_all [OF rm m'(2) this] m'(1) get_market_more [OF t2(3)]
    show "\<exists>m'. get_market t2 name = Some (Market m') \<and> same_content val m m'" by auto
  qed
  ultimately show ?thesis by blast
qed

end
