(* ===== verification/Slice_Props.thy ===== *)
theory Slice_Props
  imports Slice_Facts Server_Props
begin

text \<open>
  Properties of the slices, and a database on which they are tried: tables as lists of rows, the
  statements as the dump writes them.
\<close>

section \<open>A database\<close>

record ex_db =
  x_orders :: "string \<rightharpoonup> order_row list"
  x_balances :: "string \<rightharpoonup> balance_row list"
  x_history :: "(int \<times> u64 \<times> u64 \<times> u64) list"

definition read_nat :: "string \<Rightarrow> nat" where
  "read_nat str = (case digits_value 0 str of Some n \<Rightarrow> n | None \<Rightarrow> 0)"

definition read_int :: "string \<Rightarrow> int" where
  "read_int str = (if hd str = CHR ''-'' then - int (read_nat (tl str)) else int (read_nat str))"

definition read_time :: "string \<Rightarrow> rat" where
  "read_time str = of_int (read_int (filter (\<lambda>c. c \<noteq> CHR ''.'') str)) / 10 ^ 6"

fun text_of :: "sql_value \<Rightarrow> string" where
  "text_of (Number str) = str"
| "text_of (Quoted str) = str"
| "text_of Null = []"

text \<open>A \<open>DECIMAL(30, k)\<close>: the number of a text as it is inserted, and the text it is read as.\<close>

definition decimal_text :: "nat \<Rightarrow> rat \<Rightarrow> string" where
  "decimal_text k x = (let n = nat \<lfloor>\<bar>x\<bar> * 10 ^ k + 1 / 2\<rfloor> in
     (if x < 0 then ''-'' else []) @ nat_digits (n div 10 ^ k) @ ''.'' @ pad_digits k (n mod 10 ^ k))"

definition column_text :: "nat \<Rightarrow> string \<Rightarrow> string" where
  "column_text k str = (case dec_val (fst (dec_of_string str)) of Some x \<Rightarrow> decimal_text k x | None \<Rightarrow> [])"

definition read_order :: "sql_value list \<Rightarrow> order_row" where
  "read_order vs = (let f = (\<lambda>i. text_of (vs ! i)) in
     \<lparr> r_id = of_nat (read_nat (f 0)), r_t = of_nat (read_nat (f 1)), r_side = of_nat (read_nat (f 2)),
       r_create_time = read_time (f 3), r_update_time = read_time (f 4), r_user_id = of_nat (read_nat (f 5)), r_market = f 6,
       r_price = column_text 8 (f 7), r_amount = column_text 8 (f 8), r_taker_fee = column_text 4 (f 9),
       r_maker_fee = column_text 4 (f 10), r_left = column_text 8 (f 11), r_freeze = column_text 8 (f 12),
       r_deal_stock = column_text 8 (f 13), r_deal_money = column_text 16 (f 14), r_deal_fee = column_text 12 (f 15) \<rparr>)"

definition read_balance :: "sql_value list \<Rightarrow> balance_row" where
  "read_balance vs = (let f = (\<lambda>i. text_of (vs ! i)) in
     \<lparr> b_id = 0, b_user_id = of_nat (read_nat (f 1)), b_asset = f 2, b_t = of_nat (read_nat (f 3)),
       b_balance = column_text 16 (f 4) \<rparr>)"

definition read_history :: "sql_value list \<Rightarrow> int \<times> u64 \<times> u64 \<times> u64" where
  "read_history vs = (let f = (\<lambda>i. text_of (vs ! i)) in
     (read_int (f 1), of_nat (read_nat (f 2)), of_nat (read_nat (f 3)), of_nat (read_nat (f 4))))"

text \<open>\<open>AUTO_INCREMENT\<close> from 1 on.\<close>

definition number_rows :: "balance_row list \<Rightarrow> balance_row list" where
  "number_rows rows = map (\<lambda>(k, row). row\<lparr>b_id := of_nat (Suc k)\<rparr>) (zip [0..<length rows] rows)"

fun ex_query :: "sql_stmt \<Rightarrow> ex_db \<Rightarrow> int \<times> ex_db" where
  "ex_query (DropTableIfExists t) db = (0, db\<lparr>x_orders := (x_orders db)(t := None), x_balances := (x_balances db)(t := None)\<rparr>)"
| "ex_query (CreateTableLike t example) db =
     (if x_orders db t \<noteq> None \<or> x_balances db t \<noteq> None then (0, db)
      else if example = ''slice_order_example'' then (0, db\<lparr>x_orders := (x_orders db)(t \<mapsto> [])\<rparr>)
      else (0, db\<lparr>x_balances := (x_balances db)(t \<mapsto> [])\<rparr>))"
| "ex_query (InsertInto t columns rows) db =
     (if rows = [] then (1, db)
      else if columns = order_slice_columns then
        (case x_orders db t of None \<Rightarrow> (1, db)
         | Some old \<Rightarrow> (0, db\<lparr>x_orders := (x_orders db)(t \<mapsto> old @ map read_order rows)\<rparr>))
      else if columns = balance_slice_columns then
        (case x_balances db t of None \<Rightarrow> (1, db)
         | Some old \<Rightarrow> (0, db\<lparr>x_balances := (x_balances db)(t \<mapsto> old @ map read_balance rows)\<rparr>))
      else (0, db\<lparr>x_history := rev (map read_history rows) @ x_history db\<rparr>))"
| "ex_query _ db = (1, db)"

definition ex_view :: "ex_db slice_view" where
  "ex_view = \<lparr> installed = (\<lambda>_. True), has_table = (\<lambda>db t. x_orders db t \<noteq> None \<or> x_balances db t \<noteq> None),
     order_table = x_orders, balance_table = (\<lambda>db t. map_option number_rows (x_balances db t)),
     history_rows = x_history, history_room = (\<lambda>db. length (x_history db) < 2 ^ 32 - 1) \<rparr>"

definition ex_mysql :: "ex_db mysql_lib" where
  "ex_mysql = \<lparr> mysql_connect = (\<lambda>_. True), mysql_real_query = ex_query, tables_like = (\<lambda>_ _. Some 0),
     orders_after = (\<lambda>db t i. case x_orders db t of None \<Rightarrow> None
       | Some rows \<Rightarrow> Some (take query_limit (filter (\<lambda>row. i < r_id row) (sort_key r_id rows)))),
     balances_after = (\<lambda>db t i. case x_balances db t of None \<Rightarrow> None
       | Some rows \<Rightarrow> Some (take query_limit (filter (\<lambda>row. i < b_id row) (sort_key b_id (number_rows rows))))),
     operlog_after = (\<lambda>_ _ _. None), last_slices = (\<lambda>db. Some (take 1 (x_history db))), slices_since = (\<lambda>_ _. None),
     slices_before = (\<lambda>_ _. None) \<rparr>"

section \<open>It reads what was written\<close>

lemma digits_value_acc: "digits_value acc ds = map_option (\<lambda>v. acc * 10 ^ length ds + v) (digits_value 0 ds)"
proof (induction ds arbitrary: acc)
  case (Cons c ds)
  show ?case
  proof (cases "digit_value c")
    case (Some d)
    with Cons.IH [of "10 * acc + d"] Cons.IH [of d] show ?thesis
      by (simp add: option.map_comp o_def algebra_simps)
  qed simp
qed simp

lemma digit_char_ne: "d < 10 \<Longrightarrow> digit_char d \<noteq> CHR ''.''" "d < 10 \<Longrightarrow> digit_char d \<noteq> CHR ''-''"
proof -
  assume d: "d < 10"
  have "digit_value (CHR ''.'') = None" "digit_value (CHR ''-'') = None" by (simp_all add: digit_value_def)
  with digit_value_char [OF d] show "digit_char d \<noteq> CHR ''.''" "digit_char d \<noteq> CHR ''-''" by auto
qed

lemma nat_digits_chars: "CHR ''.'' \<notin> set (nat_digits n) \<and> CHR ''-'' \<notin> set (nat_digits n)"
proof (induction n rule: nat_digits.induct)
  case (1 n)
  then show ?case
    using digit_char_ne [of n] digit_char_ne [of "n mod 10"] by (subst (1 2) nat_digits.simps) auto
qed

lemma pad_digits_chars: "CHR ''.'' \<notin> set (pad_digits w n)"
  using nat_digits_chars [of n] by (auto simp: pad_digits_def Let_def)

lemma length_nat_digits: "0 < k \<Longrightarrow> n < 10 ^ k \<Longrightarrow> length (nat_digits n) \<le> k"
proof (induction k arbitrary: n)
  case (Suc k)
  show ?case
  proof (cases "n < 10")
    case True
    then show ?thesis by (subst nat_digits.simps) simp
  next
    case False
    with Suc.prems have "0 < k" "n div 10 < 10 ^ k" by (cases k; auto intro: less_mult_imp_div_less)+
    with Suc.IH [of "n div 10"] False show ?thesis by (subst nat_digits.simps) simp
  qed
qed simp

lemma read_nat_digits [simp]: "read_nat (nat_digits n) = n"
  by (simp add: read_nat_def digits_value_digits)

lemma hd_nat_digits [simp]: "hd (nat_digits n) \<noteq> CHR ''-''"
  using nat_digits_chars [of n] hd_in_set [OF nat_digits_nonempty [of n]] by metis

lemma read_int_digits [simp]: "read_int (int_digits i) = i"
  by (simp add: read_int_def int_digits_def)

lemma read_time_printf:
  assumes "on_grid 6 x"
  shows "read_time (printf_f x) = x"
proof -
  obtain k :: int where k: "x = of_int k / 10 ^ 6" using assms by (auto simp: on_grid_def)
  define n where "n = nat \<bar>k\<bar>"
  have e: "\<bar>x\<bar> * 1000000 = of_int \<bar>k\<bar>" by (simp add: k)
  have "round_half_even (of_int i) = i" for i by (simp add: round_half_even_def Let_def)
  then have round: "nat (round_half_even (\<bar>x\<bar> * 1000000)) = n" by (simp only: e n_def)
  have "length (pad_digits 6 (n mod 1000000)) = 6"
    using length_nat_digits [of 6 "n mod 1000000"] by (simp add: pad_digits_def Let_def)
  then have val: "digits_value 0 (nat_digits (n div 1000000) @ pad_digits 6 (n mod 1000000)) = Some n"
    by (simp add: digits_value_append digits_value_digits digits_value_acc [of "n div 1000000" "pad_digits 6 (n mod 1000000)"] pad_digits_value)
  have keep: "filter (\<lambda>c. c \<noteq> CHR ''.'') (nat_digits a @ ''.'' @ pad_digits 6 b) = nat_digits a @ pad_digits 6 b" for a b
  proof -
    have "filter (\<lambda>c. c \<noteq> CHR ''.'') str = str" if "CHR ''.'' \<notin> set str" for str using that by (induction str) auto
    with nat_digits_chars [of a] pad_digits_chars [of 6 b] show ?thesis by simp
  qed
  have neg: "x < 0 \<longleftrightarrow> k < 0" by (simp add: k divide_less_0_iff)
  have "read_int (filter (\<lambda>c. c \<noteq> CHR ''.'') (printf_f x)) = k"
    using val keep [of "n div 1000000" "n mod 1000000"]
    by (auto simp: printf_f_def Let_def round neg read_int_def read_nat_def n_def)
  then show ?thesis by (simp add: read_time_def k)
qed

lemma dec_of_decimal_text:
  assumes "0 < k"
    and n_def: "n = nat \<lfloor>\<bar>x\<bar> * 10 ^ k + 1 / 2\<rfloor>"
  shows "dec_of_string (decimal_text k x) = (Dec (if x < 0 then - int n else int n) (- int k), False)"
proof -
  let ?a = "nat_digits (n div 10 ^ k)" and ?b = "pad_digits k (n mod 10 ^ k)"
  have len: "length ?b = k"
    using length_nat_digits [of k "n mod 10 ^ k"] assms(1) by (simp add: pad_digits_def Let_def)
  have val: "digits_value 0 (?a @ ?b) = Some n"
    by (simp add: digits_value_append digits_value_digits digits_value_acc [of "n div 10 ^ k" ?b] pad_digits_value len div_mult_mod_eq)
  have ipart: "takeWhile (\<lambda>c. c \<noteq> CHR ''.'') (?a @ CHR ''.'' # ?b) = ?a"
    using nat_digits_chars [of "n div 10 ^ k"] by (subst takeWhile_append2) auto
  have "CHR ''.'' \<in> set (?a @ CHR ''.'' # ?b)" by simp
  then have name: "?a @ CHR ''.'' # ?b \<noteq> ''NaN''" by (auto simp del: set_append)
  have neg: "hd (?a @ CHR ''.'' # ?b) \<noteq> CHR ''-''" using nat_digits_nonempty [of "n div 10 ^ k"] by (simp add: hd_append)
  show ?thesis
    unfolding decimal_text_def n_def [symmetric] Let_def dec_of_string_def
    using val ipart name neg len nat_digits_nonempty [of "n div 10 ^ k"] by (auto simp: Let_def)
qed

lemma column_text_stored:
  assumes "column_ok dec_lib dec_val k d" "0 < k"
  shows "stored dec_lib dec_val k d (column_text k (mpd_to_sci dec_lib d))"
proof -
  obtain x where x: "dec_val d = Some x" "denotes dec_lib dec_val (mpd_to_sci dec_lib d) x"
    using assms(1) by (auto simp: column_ok_def)
  then have eq: "column_text k (mpd_to_sci dec_lib d) = decimal_text k x"
    by (auto simp: column_text_def denotes_def dec_ops)
  define n where "n = nat \<lfloor>\<bar>x\<bar> * 10 ^ k + 1 / 2\<rfloor>"
  have n: "rat_of_int (int n) = rat_of_int \<lfloor>\<bar>x\<bar> * 10 ^ k + 1 / 2\<rfloor>" by (simp add: n_def)
  have "(10 :: rat) powi (- int k) = 1 / 10 ^ k" by (simp add: power_int_minus divide_inverse)
  then have val: "dec_val (Dec c (- int k)) = Some (of_int c / 10 ^ k)" for c by (simp add: dec_val_def)
  have "rat_of_int (if x < 0 then - int n else int n) / 10 ^ k = dec_round k x"
  proof (cases "x = 0")
    case False
    then show ?thesis unfolding dec_round_def n [symmetric] by (cases "x < 0") (simp_all add: sgn_if)
  qed (simp add: n_def)
  then have "dec_val (Dec (if x < 0 then - int n else int n) (- int k)) = Some (dec_round k x)"
    unfolding val by simp
  then have "denotes dec_lib dec_val (decimal_text k x) (dec_round k x)"
    unfolding denotes_def dec_ops dec_of_decimal_text [OF assms(2) n_def] by blast
  with x(1) eq show ?thesis by simp
qed

lemma read_order_values:
  assumes "order_columns_ok dec_lib dec_val a"
  shows "row_of dec_lib dec_val a (read_order (order_values dec_lib a))"
proof -
  have "on_grid 6 (o_create_time a)" "on_grid 6 (o_update_time a)" using assms by (simp_all add: order_columns_ok_def column_time_def)
  with assms show ?thesis
    by (simp add: row_of_def order_columns_ok_def read_order_def order_values_def sql_u_def read_time_printf column_text_stored)
qed

lemma number_rows_append:
  "number_rows (xs @ ys) = number_rows xs @ map (\<lambda>(k, row). row\<lparr>b_id := of_nat (Suc k)\<rparr>) (zip [length xs..<length xs + length ys] ys)"
proof -
  have "[0..<length (xs @ ys)] = [0..<length xs] @ [length xs..<length xs + length ys]"
    using upt_add_eq_append [of 0 "length xs" "length ys"] by simp
  then show ?thesis unfolding number_rows_def by (simp only: zip_append length_upt diff_zero map_append)
qed

lemma number_rows_sorted: "length rows < 2 ^ 32 \<Longrightarrow> sorted_wrt (<) (0 # map b_id (number_rows rows))"
proof -
  assume n: "length rows < 2 ^ 32"
  have ids: "map b_id (number_rows rows) = map (\<lambda>k. of_nat (Suc k)) [0..<length rows]"
    by (rule nth_equalityI) (simp_all add: number_rows_def)
  have u: "unat (of_nat (Suc j) :: u64) = Suc j" if "j < length rows" for j
    using that n by (simp add: unat_of_nat take_bit_nat_eq_self del: of_nat_Suc)
  have less: "(of_nat (Suc i) :: u64) < of_nat (Suc j)" if "i < j" "j < length rows" for i j
    using u [of i] u [of j] that unfolding word_less_nat_alt by simp
  have pos: "(0 :: u64) < of_nat (Suc j)" if "j < length rows" for j
    using u [OF that] unfolding word_less_nat_alt by simp
  have "sorted_wrt (<) (map (\<lambda>k. of_nat (Suc k) :: u64) [0..<length rows])"
    unfolding sorted_wrt_map by (rule sorted_wrt_mono_rel [of _ "(<)"]) (use less in \<open>simp_all del: of_nat_Suc\<close>)
  moreover have "\<forall>x \<in> set (map (\<lambda>k. of_nat (Suc k) :: u64) [0..<length rows]). 0 < x" using pos by (simp del: of_nat_Suc)
  ultimately show "sorted_wrt (<) (0 # map b_id (number_rows rows))" unfolding ids by simp
qed

lemma read_balances:
  assumes "\<forall>e \<in> set es. balance_columns_ok dec_lib dec_val e" "length ks = length es"
  shows "list_all2 (balance_row_of dec_lib dec_val) es
    (map (\<lambda>(k, row). row\<lparr>b_id := of_nat (Suc k)\<rparr>) (zip ks (map read_balance (map (balance_values dec_lib) es))))"
proof -
  have row: "balance_row_of dec_lib dec_val e (read_balance (balance_values dec_lib e)\<lparr>b_id := k\<rparr>)" if e: "e \<in> set es" for e k
    using bspec [OF assms(1) e]
    by (cases e) (simp add: balance_row_of_def balance_columns_ok_def read_balance_def balance_values_def sql_u_def column_text_stored)
  with assms(2) show ?thesis by (simp add: list_all2_conv_all_nth)
qed

lemma columns_differ: "order_slice_columns \<noteq> balance_slice_columns" "balance_slice_columns \<noteq> order_slice_columns"
  "[''id'', ''time'', ''end_oper_id'', ''end_order_id'', ''end_deals_id''] \<noteq> order_slice_columns"
  "[''id'', ''time'', ''end_oper_id'', ''end_order_id'', ''end_deals_id''] \<noteq> balance_slice_columns"
  by (simp_all add: order_slice_columns_def balance_slice_columns_def)

lemma ex_insert_orders: "insert_order_laws dec_lib dec_val ex_mysql ex_view"
  unfolding insert_order_laws_def
proof (intro allI impI)
  fix db table rows os
  assume t: "order_table ex_view db table = Some rows" and os: "os \<noteq> []" and ok: "\<forall>a \<in> set os. order_columns_ok dec_lib dec_val a"
  have "list_all2 (row_of dec_lib dec_val) os (map read_order (map (order_values dec_lib) os))"
    using ok read_order_values by (simp add: list_all2_conv_all_nth)
  with t os show "\<exists>db' new. mysql_real_query ex_mysql (InsertInto table order_slice_columns (map (order_values dec_lib) os)) db = (0, db')
      \<and> list_all2 (row_of dec_lib dec_val) os new \<and> order_table ex_view db' table = Some (rows @ new) \<and> only_table ex_view table db db'"
    by (simp add: ex_mysql_def ex_view_def only_table_def unchanged_def)
qed

lemma ex_insert_balances: "insert_balance_laws dec_lib dec_val ex_mysql ex_view"
  unfolding insert_balance_laws_def
proof (intro allI impI)
  fix db table rows es
  assume t: "balance_table ex_view db table = Some rows" and es: "es \<noteq> []" and ok: "\<forall>e \<in> set es. balance_columns_ok dec_lib dec_val e"
    and n: "length rows + length es < 2 ^ 32"
  obtain old where old: "x_balances db table = Some old" "rows = number_rows old" using t by (auto simp: ex_view_def)
  let ?vs = "map read_balance (map (balance_values dec_lib) es)"
  have len: "length (number_rows xs) = length xs" for xs by (simp add: number_rows_def)
  have "sorted_wrt (<) (0 # map b_id (number_rows (old @ ?vs)))"
    by (rule number_rows_sorted) (use n old(2) len in simp)
  moreover have "list_all2 (balance_row_of dec_lib dec_val) es
      (map (\<lambda>(k, row). row\<lparr>b_id := of_nat (Suc k)\<rparr>) (zip [length old..<length old + length ?vs] ?vs))"
    by (rule read_balances [OF ok]) simp
  moreover define new where "new = map (\<lambda>(k, row). row\<lparr>b_id := of_nat (Suc k)\<rparr>) (zip [length old..<length old + length ?vs] ?vs)"
  ultimately have new: "sorted_wrt (<) (0 # map b_id (rows @ new))" "list_all2 (balance_row_of dec_lib dec_val) es new"
    unfolding number_rows_append old(2) by simp_all
  define db' where "db' = db\<lparr>x_balances := (x_balances db)(table \<mapsto> old @ ?vs)\<rparr>"
  have "mysql_real_query ex_mysql (InsertInto table balance_slice_columns (map (balance_values dec_lib) es)) db = (0, db')"
    using es by (simp add: ex_mysql_def columns_differ old(1) db'_def)
  moreover have "balance_table ex_view db' table = Some (rows @ new)"
    by (simp add: ex_view_def db'_def number_rows_append old(2) new_def)
  moreover have "only_table ex_view table db db'"
    by (simp add: ex_view_def db'_def only_table_def unchanged_def)
  ultimately show "\<exists>db' new. mysql_real_query ex_mysql (InsertInto table balance_slice_columns (map (balance_values dec_lib) es)) db = (0, db')
      \<and> list_all2 (balance_row_of dec_lib dec_val) es new \<and> balance_table ex_view db' table = Some (rows @ new)
      \<and> (sorted_wrt (<) (0 # map b_id rows) \<longrightarrow> sorted_wrt (<) (0 # map b_id (rows @ new))) \<and> only_table ex_view table db db'"
    using new by blast
qed

lemma ex_laws: "slice_laws dec_lib dec_val ex_mysql ex_view"
  unfolding slice_laws_def
proof (intro conjI ex_insert_orders ex_insert_balances)
  show "drop_laws ex_mysql ex_view"
    by (simp add: drop_laws_def only_table_def unchanged_def ex_mysql_def ex_view_def)
  show "create_laws ex_mysql ex_view"
    by (simp add: create_laws_def only_table_def unchanged_def ex_mysql_def ex_view_def number_rows_def)
  show "history_laws ex_mysql ex_view"
    by (simp add: history_laws_def slice_history_row_def ex_mysql_def ex_view_def unchanged_def columns_differ read_history_def sql_u_def)
  show "select_laws ex_mysql ex_view"
    by (auto simp: select_laws_def ex_mysql_def ex_view_def)
qed

section \<open>A slice is read back\<close>

text \<open>C7. A slice brings the engine back, up to the decimals its columns have. The database serves the program
  all the time and behaves as documented, and \<open>slice_history\<close> has an id left and room for the time of the slice. The engine is a running one: its balances are
  well-formed; every market of the settings is allocated, well-formed and has only orders that name it, are in its
  book, have the decimals of the market and have exactly what they need frozen, in 34 digits. It fits the tables: a
  market has at most 8 decimals for prices and amounts and 4 for fees, every number fits its column of 30 digits after
  it is rounded and is written as a text that is read as this number, names have at most 30 characters and no quote or
  backslash, types and sides are below 256, times have 6 decimals and are below 2 to the 32, no id is used twice, there are
  less than 2 to the 32 balances. Then writing the
  slice succeeds (the orders of all books and the balances in batches of 1000 rows, then the counters), the last slice
  that is found is this one with the counters of the engine, and a fresh engine with the same assets and markets that
  loads it page by page has the same books in the same order, the same lists of the users, the same orders up to their
  source and the rounding of their totals to 8, 16 and 12 decimals, and on every account the amount rounded to 16
  decimals, which is the same amount where the asset is saved with at most 16. The orders are loaded before the
  balances, so the freezes fail, which does no harm.\<close>

theorem slice_round_trip:
  assumes "mpd_laws D val" "slice_laws D val M V" "installed V db" "history_room V db" "slice_time i"
    and "running val s" "slice_ready D val s" "fresh_engine s t"
  shows "\<exists>db' t'. dump_to_db D M i s db = Some (0, db')
    \<and> get_last_slice M db' (0, 0, 0, 0) = (0, (i, operlog_id_start s, order_id_start s, deals_id_start s))
    \<and> load_slice_from_db D M db' i t = Some (0, t') \<and> same_engine val s t'"
proof -
  obtain db' rows brows where d: "dump_to_db D M i s db = Some (0, db')" "installed V db'"
    "order_table V db' (slice_order_table i) = Some rows" "list_all2 (row_of D val) (slice_rows s) rows"
    "balance_table V db' (slice_balance_table i) = Some brows" "list_all2 (balance_row_of D val) (dict_balance s) brows"
    "sorted_wrt (<) (0 # map b_id brows)"
    "history_rows V db' = (i, operlog_id_start s, order_id_start s, deals_id_start s) # history_rows V db"
    by (rule dump_to_db_ok [OF assms(2,7,3-5)])
  have sel: "select_laws M V" using assms(2) by (simp add: slice_laws_def)
  then have "last_slices M db' = Some (take 1 (history_rows V db'))" using d(2) by (simp add: select_laws_def)
  with d(1,8) load_slice_ok [OF assms(1) sel assms(6-8) d(3-7,2)] show ?thesis
    by (auto simp: get_last_slice_def)
qed

definition ex_fresh :: "dec server_state" where
  "ex_fresh = ex_server\<lparr>dict_balance := [], dict_market := [(''BTCUSD'', Market (fresh_market ex_market))]\<rparr>"

lemma ex_confs: "conf_names ex_server = {''BTCUSD''}" "get_market ex_server ''BTCUSD'' = Some (Market ex_market)"
  by (auto simp: conf_names_def ex_server_def ex_conf_def get_market_def)

lemma ex_fees: "on_grid 4 (1 / 500)" "on_grid 4 (1 / 1000)"
  unfolding on_grid_def by (rule exI [of _ 20], simp) (rule exI [of _ 10], simp)

lemma ex_fits: "fits 30" "fits 24"
  unfolding fits_def by (rule exI [of _ 30], rule exI [of _ 0], simp) (rule exI [of _ 24], rule exI [of _ 0], simp)

lemma ex_fee_grid: "\<forall>x. dec_val (Dec 2 (- 3)) = Some x \<longrightarrow> on_grid (nat 4) x" "\<forall>x. dec_val (Dec 1 (- 3)) = Some x \<longrightarrow> on_grid (nat 4) x"
proof -
  have "dec_val (Dec 2 (- 3)) = Some (1 / 500)" "dec_val (Dec 1 (- 3)) = Some (1 / 1000)" by simp_all
  with ex_fees show "\<forall>x. dec_val (Dec 2 (- 3)) = Some x \<longrightarrow> on_grid (nat 4) x" "\<forall>x. dec_val (Dec 1 (- 3)) = Some x \<longrightarrow> on_grid (nat 4) x"
    by (metis nat_numeral option.inject)+
qed

lemma ex_grid: "order_grid dec_val ex_market ex_bid" "order_grid dec_val ex_market ex_ask"
  unfolding order_grid_def ex_market_def ex_bid_def ex_ask_def order.simps market.simps
  by (intro conjI ex_fee_grid; simp add: ex_fits)+

lemma ex_running: "running dec_val ex_server"
proof -
  have "balances_ok dec_val ex_server"
    using ex_ledger by (simp add: ledger_inv_def balances_ok_def ex_server_def ex_state_def)
  moreover have "precs_ok ex_market" by (simp add: precs_ok_def max_prec_def ex_market_def)
  then have "running_market dec_val ''BTCUSD'' ex_market"
    using ex_market_ok ex_grid unfolding running_market_def
    by (auto simp: ex_market_def ex_bid_def ex_ask_def split: if_splits)
  ultimately show ?thesis by (auto simp: running_def ex_confs)
qed

lemma ex_strings: "dec_of_string (dec_to_sci (Dec 10 0)) = (Dec 10 0, False)" "dec_of_string (dec_to_sci (Dec 3 0)) = (Dec 3 0, False)"
  "dec_of_string (dec_to_sci (Dec 12 0)) = (Dec 12 0, False)" "dec_of_string (dec_to_sci (Dec 2 0)) = (Dec 2 0, False)"
  "dec_of_string (dec_to_sci (Dec 30 0)) = (Dec 30 0, False)" "dec_of_string (dec_to_sci (Dec 0 0)) = (Dec 0 0, False)"
  "dec_of_string (dec_to_sci (Dec 100 0)) = (Dec 100 0, False)" "dec_of_string (dec_to_sci (Dec 1000 0)) = (Dec 1000 0, False)"
  "dec_of_string (dec_to_sci (Dec 2 (- 3))) = (Dec 2 (- 3), False)" "dec_of_string (dec_to_sci (Dec 1 (- 3))) = (Dec 1 (- 3), False)"
  by code_simp+

lemma ex_denotes: "dec_of_string (dec_to_sci d) = (d, False) \<Longrightarrow> dec_val d = Some x \<Longrightarrow> denotes dec_lib dec_val (mpd_to_sci dec_lib d) x"
  by (simp add: denotes_def dec_ops)

lemma ex_column: "dec_of_string (dec_to_sci d) = (d, False) \<Longrightarrow> dec_val d = Some x \<Longrightarrow> on_grid k x \<Longrightarrow> \<bar>x\<bar> < 10 ^ (30 - k)
    \<Longrightarrow> column_ok dec_lib dec_val k d"
  by (auto simp: column_ok_def ex_denotes dec_round_grid)

lemma ex_int_column: "dec_of_string (dec_to_sci (Dec c 0)) = (Dec c 0, False) \<Longrightarrow> \<bar>c\<bar> < 10 ^ (30 - k) \<Longrightarrow> column_ok dec_lib dec_val k (Dec c 0)"
proof -
  assume d: "dec_of_string (dec_to_sci (Dec c 0)) = (Dec c 0, False)" and "\<bar>c\<bar> < 10 ^ (30 - k)"
  then have "rat_of_int \<bar>c\<bar> < rat_of_int (10 ^ (30 - k))" by (simp only: of_int_less_iff)
  with d show ?thesis by (intro ex_column [of _ "of_int c"]) simp_all
qed

lemma ex_fee_columns: "column_ok dec_lib dec_val 4 (Dec 2 (- 3))" "column_ok dec_lib dec_val 4 (Dec 1 (- 3))"
  by (rule ex_column [OF ex_strings(9) _ ex_fees(1)], simp_all) (rule ex_column [OF ex_strings(10) _ ex_fees(2)], simp_all)

lemma ex_columns: "order_columns_ok dec_lib dec_val ex_bid" "order_columns_ok dec_lib dec_val ex_ask"
proof -
  show "order_columns_ok dec_lib dec_val ex_bid" "order_columns_ok dec_lib dec_val ex_ask"
    unfolding order_columns_ok_def ex_bid_def ex_ask_def order.simps
    by (intro conjI ex_fee_columns ex_int_column ex_strings; simp add: plain_text_def column_time_def MARKET_ORDER_TYPE_LIMIT_def
        MARKET_ORDER_SIDE_ASK_def MARKET_ORDER_SIDE_BID_def)+
qed

lemma ex_ready: "slice_ready dec_lib dec_val ex_server"
proof -
  have rows: "slice_rows ex_server = [ex_ask, ex_bid]"
    using ex_confs(2) by (simp add: slice_rows_def conf_rows_def ex_server_def ex_conf_def market_rows_def ex_market_def map_filter_def)
  have "\<forall>c \<in> set (settings_markets ex_server). conf_ok ex_server c"
    using ex_confs(2) by (simp add: conf_ok_def ex_server_def ex_conf_def)
  moreover have "slice_precs m" if "Some conf \<in> set (settings_markets ex_server)" "get_market ex_server (c_name conf) = Some (Market m)" for conf m
    using that ex_confs(2) by (simp add: ex_server_def ex_conf_def) (auto simp: slice_precs_def ex_market_def)
  moreover have "\<forall>e \<in> set (dict_balance ex_server). balance_columns_ok dec_lib dec_val e" "length (dict_balance ex_server) < 2 ^ 32"
    by (simp_all add: ex_server_def ex_state_def balance_columns_ok_def ex_int_column ex_strings plain_text_def mk_key_def
        BALANCE_TYPE_AVAILABLE_def BALANCE_TYPE_FREEZE_def ASSET_NAME_MAX_LEN_def del: dec_to_sci.simps)
  ultimately show ?thesis
    by (simp add: slice_ready_def rows ex_columns) (simp add: ex_bid_def ex_ask_def)
qed

lemma ex_fresh_ok: "fresh_engine ex_server ex_fresh"
  by (simp add: fresh_engine_def ex_fresh_def ex_confs get_market_def) (simp add: ex_server_def)

text \<open>The same engine when \<open>BTC\<close> is saved with 20 decimals, as \<open>config.json\<close> has it, and a balance uses them.\<close>

definition ex_deep :: "dec server_state" where
  "ex_deep = ex_server\<lparr>dict_asset := ex_assets(''BTC'' \<mapsto> \<lparr> prec_save = 20, prec_show = 8 \<rparr>),
     dict_balance := [(mk_key 1 BALANCE_TYPE_AVAILABLE ''BTC'', Dec 10000000000000000000001 (- 20)),
       (mk_key 1 BALANCE_TYPE_FREEZE ''BTC'', Dec 2 0)]\<rparr>"

lemma ex_deep_fields:
  "dict_balance ex_deep = [(mk_key 1 BALANCE_TYPE_AVAILABLE ''BTC'', Dec 10000000000000000000001 (- 20)),
     (mk_key 1 BALANCE_TYPE_FREEZE ''BTC'', Dec 2 0)]"
  "dict_asset ex_deep = ex_assets(''BTC'' \<mapsto> \<lparr> prec_save = 20, prec_show = 8 \<rparr>)"
  "settings_markets ex_deep = settings_markets ex_server" "get_market ex_deep = get_market ex_server"
  by (simp_all add: ex_deep_def get_market_def fun_eq_iff)

lemma ex_deep_conf: "conf_names ex_deep = conf_names ex_server" "conf_ok ex_deep = conf_ok ex_server" "slice_rows ex_deep = slice_rows ex_server"
proof -
  have "conf_rows ex_deep = conf_rows ex_server"
    unfolding conf_rows_def fun_eq_iff ex_deep_fields(4) by simp
  then show "conf_names ex_deep = conf_names ex_server" "conf_ok ex_deep = conf_ok ex_server" "slice_rows ex_deep = slice_rows ex_server"
    by (simp_all add: conf_names_def conf_ok_def [abs_def] slice_rows_def ex_deep_fields(3,4))
qed

definition ex_amount :: rat where "ex_amount = 100 + 1 / 10 ^ 20"

lemma ex_deep_amount: "dec_val (Dec 10000000000000000000001 (- 20)) = Some ex_amount"
  by (simp add: power_int_minus ex_amount_def)

lemma ex_deep_round: "dec_round 16 ex_amount = 100"
proof -
  have "\<lfloor>\<bar>ex_amount\<bar> * 10 ^ 16 + 1 / 2\<rfloor> = 10 ^ 18" by (rule floor_unique) (simp_all add: ex_amount_def)
  then show ?thesis by (simp add: dec_round_def ex_amount_def)
qed

lemma ex_deep_grid: "on_grid 20 ex_amount" "0 \<le> ex_amount"
  unfolding on_grid_def ex_amount_def by (rule exI [of _ 10000000000000000000001]) simp_all

lemma ex_deep_column: "column_ok dec_lib dec_val 16 (Dec 10000000000000000000001 (- 20))"
proof -
  have "nat_digits 10000000000000000000001 = ''10000000000000000000001''"
    by (simp add: nat_digits.simps digit_char_def char_of_def bit_numeral_rec bit_0)
  then have "dec_to_sci (Dec 10000000000000000000001 (- 20)) = ''100.00000000000000000001''"
    by (simp add: sci_digits_def)
  moreover have "dec_of_string ''100.00000000000000000001'' = (Dec 10000000000000000000001 (- 20), False)"
    by (simp add: dec_of_string_def digit_value_def)
  ultimately have "dec_of_string (dec_to_sci (Dec 10000000000000000000001 (- 20))) = (Dec 10000000000000000000001 (- 20), False)" by simp
  note deno = ex_denotes [OF this ex_deep_amount]
  have "\<bar>dec_round 16 ex_amount\<bar> < 10 ^ (30 - 16)" unfolding ex_deep_round by simp
  then show ?thesis
    unfolding column_ok_def by (intro exI [of _ ex_amount] conjI ex_deep_amount deno)
qed

lemma ex_deep_running: "running dec_val ex_deep"
proof -
  let ?as = "dict_asset ex_deep" and ?k = "mk_key 1"
  have two: "dec_val (Dec 2 0) = Some 2" by simp
  have asset: "?as ''BTC'' = Some \<lparr> prec_save = 20, prec_show = 8 \<rparr>" by (simp add: ex_deep_fields)
  have key: "bk_asset (?k ty ''BTC'') = ''BTC''" for ty by (simp add: mk_key_def ASSET_NAME_MAX_LEN_def)
  have "entry_ok dec_val ?as (?k ty ''BTC'') (Dec 10000000000000000000001 (- 20))" "entry_ok dec_val ?as (?k ty ''BTC'') (Dec 2 0)" for ty
    unfolding entry_ok_def key asset two ex_deep_amount using ex_deep_grid by simp_all
  moreover have "assets_ok ?as" by (simp add: ex_deep_fields assets_ok_def ex_assets_def ASSET_NAME_MAX_LEN_def max_prec_def)
  ultimately have "balances_ok dec_val ex_deep"
    by (simp add: balances_ok_def dv_wf_def ex_deep_fields(1) mk_key_def BALANCE_TYPE_AVAILABLE_def BALANCE_TYPE_FREEZE_def)
  then show ?thesis using ex_running by (simp add: running_def ex_deep_conf ex_deep_fields)
qed

lemma ex_deep_ready: "slice_ready dec_lib dec_val ex_deep"
proof -
  have "\<forall>e \<in> set (dict_balance ex_deep). balance_columns_ok dec_lib dec_val e" "length (dict_balance ex_deep) < 2 ^ 32"
    by (simp_all add: ex_deep_fields balance_columns_ok_def ex_deep_column ex_int_column ex_strings plain_text_def mk_key_def
        BALANCE_TYPE_AVAILABLE_def BALANCE_TYPE_FREEZE_def ASSET_NAME_MAX_LEN_def del: dec_to_sci.simps)
  then show ?thesis using ex_ready by (simp add: slice_ready_def ex_deep_conf ex_deep_fields(3,4))
qed

lemma ex_deep_fresh: "fresh_engine ex_deep (ex_fresh\<lparr>dict_asset := dict_asset ex_deep\<rparr>)"
  using ex_fresh_ok by (simp add: fresh_engine_def ex_deep_conf ex_deep_fields(3,4)) (simp add: ex_fresh_def get_market_def)

theorem slice_round_trip_witness:
  "\<exists>db' t'. dump_to_db dec_lib ex_mysql 1500000000 ex_deep \<lparr> x_orders = Map.empty, x_balances = Map.empty, x_history = [] \<rparr> = Some (0, db')
    \<and> get_last_slice ex_mysql db' (0, 0, 0, 0) = (0, (1500000000, 0, 2, 0))
    \<and> load_slice_from_db dec_lib ex_mysql db' 1500000000 (ex_fresh\<lparr>dict_asset := dict_asset ex_deep\<rparr>) = Some (0, t')
    \<and> same_engine dec_val ex_deep t' \<and> key_amount dec_val ex_deep (mk_key 1 BALANCE_TYPE_AVAILABLE ''BTC'') = ex_amount
    \<and> key_amount dec_val t' (mk_key 1 BALANCE_TYPE_AVAILABLE ''BTC'') = 100"
proof -
  have amount: "key_amount dec_val ex_deep (mk_key 1 BALANCE_TYPE_AVAILABLE ''BTC'') = ex_amount"
    by (simp add: key_amount_def ex_deep_fields amount_val_def ex_deep_amount del: dec_val_simps)
  have loaded: "key_amount dec_val t' (mk_key 1 BALANCE_TYPE_AVAILABLE ''BTC'') = 100" if "same_engine dec_val ex_deep t'" for t' :: "dec server_state"
    using that ex_deep_round amount unfolding same_engine_def by metis
  have ids: "operlog_id_start ex_deep = 0" "order_id_start ex_deep = 2" "deals_id_start ex_deep = 0"
    by (simp_all add: ex_deep_def ex_server_def)
  have "installed ex_view db" "history_room ex_view (db\<lparr>x_history := []\<rparr>)" "slice_time 1500000000" for db
    by (simp_all add: ex_view_def slice_time_def)
  from slice_round_trip [OF dec_lib_laws ex_laws this(1) _ this(3) ex_deep_running ex_deep_ready ex_deep_fresh,
      of "\<lparr> x_orders = Map.empty, x_balances = Map.empty, x_history = [] \<rparr>"] this(2)
  show ?thesis
    unfolding ids using amount loaded by (metis ex_db.update_convs(3))
qed

section \<open>A slice that was not written\<close>

text \<open>C40. A slice that could not be written counts as written: the dumps of the orders and of the balances
  and the entry in \<open>slice_history\<close> test the result of \<open>mysql_real_query\<close> for a negative number, but an
  error is a positive one. When the tables can be created and every \<open>INSERT\<close> fails, \<open>dump_to_db\<close> returns
  success, whatever the engine holds.\<close>

theorem dump_hides_failed_inserts:
  assumes "\<And>db. mysql_connect M db" "\<And>table db. fst (mysql_real_query M (DropTableIfExists table) db) = 0"
    "\<And>table example db. fst (mysql_real_query M (CreateTableLike table example) db) = 0"
    "\<And>table columns rows db. fst (mysql_real_query M (InsertInto table columns rows) db) > 0"
    "\<forall>c \<in> set (settings_markets s). conf_ok s c"
  shows "\<exists>db'. dump_to_db D M i s db = Some (0, db')"
proof -
  have loop: "fst (dump_loop M (InsertInto t cs) l1 l2 rows sql db) = 0" for t cs l1 l2 rows sql db
  proof (induction rows arbitrary: sql db)
    case Nil
    then show ?case using assms(4) [of t cs sql db] by (auto simp: case_prod_beta)
  next
    case (Cons row rows)
    then show ?case using assms(4) [of t cs "sql @ [row]" db] by (simp add: case_prod_beta Let_def)
  qed
  have "\<exists>db'. dump_markets D M t s confs db = Some (0, db')" if "\<forall>c \<in> set confs. conf_ok s c" for t confs db
    using that
  proof (induction confs arbitrary: db)
    case (Cons c confs)
    then show ?case
      by (auto simp: conf_ok_def dump_orders_list_def case_prod_beta loop)
  qed simp
  from this [OF assms(5)] obtain f where f: "dump_markets D M t s (settings_markets s) db = Some (0, f t db)" for t db by metis
  show ?thesis
    using assms(1-3) assms(4) [of "''slice_history''"]
    by (auto simp: dump_to_db_def dump_order_to_db_def dump_orders_def f dump_balance_to_db_def dump_balance_def dump_balance_dict_def
        update_slice_history_def slice_history_row_def case_prod_beta loop not_less less_imp_le)
qed

theorem dump_hides_failed_inserts_witness:
  "\<exists>db'. dump_to_db dec_lib (ex_mysql\<lparr>mysql_real_query := (\<lambda>stmt db. case stmt of InsertInto t cs rows \<Rightarrow> (1, db) | _ \<Rightarrow> ex_query stmt db)\<rparr>)
     1500000000 ex_server \<lparr> x_orders = Map.empty, x_balances = Map.empty, x_history = [] \<rparr> = Some (0, db')"
  by (rule dump_hides_failed_inserts) (use ex_ready in \<open>simp_all add: ex_mysql_def slice_ready_def\<close>)

end
