(* ===== verification/Kline.thy ===== *)
theory Kline
  imports Order Text "HOL-Library.Signed_Division"
begin

text \<open>
  The market data of \<open>marketprice\<close>: the klines (candlesticks) of \<open>mp_kline.c\<close>, and the state of the
  markets, the update by a deal and the handling of a deal message of \<open>mp_message.c\<close>. A reading of
  \<open>time(NULL)\<close> or \<open>current_timestamp()\<close> is an argument. Memory never runs out. The keys of the klines are compared as
  times; \<open>dict_time_key_compare\<close> truncates their difference to an \<open>int\<close>, which is the same as long as two times
  are less than \<open>2 ^ 32\<close> seconds (136 years) apart.
\<close>

section \<open>Klines\<close>

record 'd kline_info =
  k_open :: 'd
  k_close :: 'd
  k_high :: 'd
  k_low :: 'd
  k_volume :: 'd
  k_deal :: 'd

definition kline_info_new :: "'d mpd_lib \<Rightarrow> 'd \<Rightarrow> 'd kline_info" where
  "kline_info_new D open_price =
     \<lparr> k_open = open_price, k_close = open_price, k_high = open_price, k_low = open_price,
       k_volume = mpd_zero D, k_deal = mpd_zero D \<rparr>"

definition kline_info_update :: "'d mpd_lib \<Rightarrow> 'd kline_info \<Rightarrow> 'd \<Rightarrow> 'd \<Rightarrow> 'd kline_info" where
  "kline_info_update D info price amount =
     (let deal = mpd_mul D price amount;
          info = info\<lparr>k_close := price\<rparr>;
          info = info\<lparr>k_volume := mpd_add D (k_volume info) amount\<rparr>;
          info = info\<lparr>k_deal := mpd_add D (k_deal info) deal\<rparr>;
          info = (if mpd_cmp D price (k_high info) > 0 then info\<lparr>k_high := price\<rparr> else info) in
      if mpd_cmp D price (k_low info) < 0 then info\<lparr>k_low := price\<rparr> else info)"

definition kline_info_merge :: "'d mpd_lib \<Rightarrow> 'd kline_info \<Rightarrow> 'd kline_info \<Rightarrow> 'd kline_info" where
  "kline_info_merge D info upd =
     (let info = info\<lparr>k_close := k_close upd\<rparr>;
          info = info\<lparr>k_volume := mpd_add D (k_volume info) (k_volume upd)\<rparr>;
          info = info\<lparr>k_deal := mpd_add D (k_deal info) (k_deal upd)\<rparr>;
          info = (if mpd_cmp D (k_high upd) (k_high info) > 0 then info\<lparr>k_high := k_high upd\<rparr> else info) in
      if mpd_cmp D (k_low upd) (k_low info) < 0 then info\<lparr>k_low := k_low upd\<rparr> else info)"

text \<open>An element that is no string, or a string that is no number, ends the reading.\<close>

definition number_at :: "'d mpd_lib \<Rightarrow> json \<Rightarrow> nat \<Rightarrow> 'd option" where
  "number_at D obj i =
     (case json_string_value (json_array_get obj i) of None \<Rightarrow> None | Some str \<Rightarrow> decimal D str 0)"

definition kline_from_str :: "'d mpd_lib \<Rightarrow> text_lib \<Rightarrow> string \<Rightarrow> 'd kline_info option" where
  "kline_from_str D J str =
     (case json_loadb J str of
        None \<Rightarrow> None
      | Some obj \<Rightarrow>
          if \<not> json_is_array (Some obj) \<or> json_array_size obj < 5 then None
          else
            (case number_at D obj 0 of None \<Rightarrow> None | Some op \<Rightarrow>
            (case number_at D obj 1 of None \<Rightarrow> None | Some cl \<Rightarrow>
            (case number_at D obj 2 of None \<Rightarrow> None | Some high \<Rightarrow>
            (case number_at D obj 3 of None \<Rightarrow> None | Some low \<Rightarrow>
            (case number_at D obj 4 of None \<Rightarrow> None | Some volume \<Rightarrow>
            (case (if json_array_size obj \<ge> 6 then number_at D obj 5 else Some (mpd_zero D)) of None \<Rightarrow> None | Some deal \<Rightarrow>
               Some \<lparr> k_open = op, k_close = cl, k_high = high, k_low = low, k_volume = volume, k_deal = deal \<rparr>)))))))"

definition kline_array :: "'d mpd_lib \<Rightarrow> json \<Rightarrow> 'd kline_info \<Rightarrow> json" where
  "kline_array D obj info =
     (let obj = json_array_append_new_mpd D obj (k_open info);
          obj = json_array_append_new_mpd D obj (k_close info);
          obj = json_array_append_new_mpd D obj (k_high info);
          obj = json_array_append_new_mpd D obj (k_low info);
          obj = json_array_append_new_mpd D obj (k_volume info) in
      json_array_append_new_mpd D obj (k_deal info))"

definition kline_to_str :: "'d mpd_lib \<Rightarrow> text_lib \<Rightarrow> 'd kline_info \<Rightarrow> string option" where
  "kline_to_str D J info = json_dumps J (kline_array D (JArray []) info)"

section \<open>Markets\<close>

datatype kline_type = KLINE_SEC | KLINE_MIN | KLINE_HOUR | KLINE_DAY

text \<open>
  \<open>struct update_key\<close> is compared and hashed with the four bytes of padding it has between its
  fields, which nobody sets.
\<close>

record mp_update_key =
  mk_kline_type :: kline_type
  mk_timestamp :: int
  mk_padding :: u32

text \<open>
  \<open>mi_deals\<close> holds the texts for the database, \<open>None\<close> where \<open>json_dumps\<close> gave \<open>NULL\<close>; \<open>mi_deals_json\<close>
  the last deals, the newest first.
\<close>

record 'd mp_market_info =
  mi_name :: string
  mi_last :: 'd
  mi_sec :: "(int, 'd kline_info) dict_view"
  mi_min :: "(int, 'd kline_info) dict_view"
  mi_hour :: "(int, 'd kline_info) dict_view"
  mi_day :: "(int, 'd kline_info) dict_view"
  mi_update :: "(mp_update_key, unit) dict_view"
  mi_deals :: "string option list"
  mi_deals_json :: "json list"
  mi_update_time :: rat

record 'd price_state =
  dict_price :: "(string, 'd mp_market_info) dict_view"
  last_flush :: rat
  last_offset :: int

definition MARKET_DEALS_MAX :: nat where "MARKET_DEALS_MAX = 10000"

definition market_query :: "('d, 'z) price_state_scheme \<Rightarrow> string \<Rightarrow> 'd mp_market_info option" where
  "market_query s market = dv_find (dict_price s) market"

definition kline_query :: "(int, 'd kline_info) dict_view \<Rightarrow> int \<Rightarrow> 'd kline_info option" where
  "kline_query dict timestamp = dv_find dict timestamp"

definition create_market :: "'d mpd_lib \<Rightarrow> string \<Rightarrow> ('d, 'z) price_state_scheme \<Rightarrow> 'd mp_market_info \<times> ('d, 'z) price_state_scheme" where
  "create_market D market s =
     (let info = \<lparr> mi_name = market, mi_last = mpd_zero D, mi_sec = [], mi_min = [], mi_hour = [], mi_day = [], mi_update = [],
                   mi_deals = [], mi_deals_json = [], mi_update_time = 0 \<rparr> in
      (info, case dv_add market info (dict_price s) of None \<Rightarrow> s | Some d \<Rightarrow> s\<lparr>dict_price := d\<rparr>))"

text \<open>\<open>dict_add\<close> leaves an entry with the same key as it is.\<close>

definition add_update :: "(kline_type \<Rightarrow> u32) \<Rightarrow> 'd mp_market_info \<Rightarrow> kline_type \<Rightarrow> int \<Rightarrow> 'd mp_market_info" where
  "add_update pads info type timestamp =
     (let key = \<lparr> mk_kline_type = type, mk_timestamp = timestamp, mk_padding = pads type \<rparr> in
      case dv_add key () (mi_update info) of None \<Rightarrow> info | Some d \<Rightarrow> info\<lparr>mi_update := d\<rparr>)"

definition get_day_start :: "time_lib \<Rightarrow> int \<Rightarrow> int" where
  "get_day_start T timestamp = mktime T (localtime T timestamp)"

text \<open>The same steps for each of the four dictionaries: the kline of the time, a new one if there is none, is updated.\<close>

definition update_kline :: "'d mpd_lib \<Rightarrow> (int, 'd kline_info) dict_view \<Rightarrow> int \<Rightarrow> 'd \<Rightarrow> 'd \<Rightarrow> (int, 'd kline_info) dict_view" where
  "update_kline D dict timestamp price amount =
     (let kinfo = (case dv_find dict timestamp of Some kinfo \<Rightarrow> kinfo | None \<Rightarrow> kline_info_new D price) in
      dv_put timestamp (kline_info_update D kinfo price amount) dict)"

text \<open>The conversion of a \<open>double\<close> to \<open>time_t\<close>.\<close>

definition time_of_double :: "rat \<Rightarrow> int" where
  "time_of_double x = (if x < 0 then \<lceil>x\<rceil> else \<lfloor>x\<rfloor>)"

definition deal_json :: "'d mpd_lib \<Rightarrow> rat \<Rightarrow> 'd \<Rightarrow> 'd \<Rightarrow> u32 \<Rightarrow> u64 \<Rightarrow> json" where
  "deal_json D timestamp price amount side deal_id =
     (let deal = JObject [];
          deal = json_object_set deal ''id'' (json_u64 deal_id);
          deal = json_object_set deal ''time'' (JReal timestamp);
          deal = json_object_set_new_mpd D deal ''price'' price;
          deal = json_object_set_new_mpd D deal ''amount'' amount in
      if side = MARKET_ORDER_SIDE_ASK then json_object_set deal ''type'' (JString ''sell'')
      else json_object_set deal ''type'' (JString ''buy''))"

definition append_deal :: "'d mpd_lib \<Rightarrow> text_lib \<Rightarrow> json \<Rightarrow> 'd mp_market_info \<Rightarrow> 'd mp_market_info" where
  "append_deal D J deal info =
     (let info = info\<lparr>mi_deals := mi_deals info @ [json_dumps J deal]\<rparr>;
          info = info\<lparr>mi_deals_json := deal # mi_deals_json info\<rparr> in
      if length (mi_deals_json info) > MARKET_DEALS_MAX then info\<lparr>mi_deals_json := butlast (mi_deals_json info)\<rparr> else info)"

definition info_update :: "'d mpd_lib \<Rightarrow> text_lib \<Rightarrow> time_lib \<Rightarrow> (kline_type \<Rightarrow> u32) \<Rightarrow> rat \<Rightarrow> rat \<Rightarrow> 'd \<Rightarrow> 'd \<Rightarrow> u32 \<Rightarrow> u64
    \<Rightarrow> 'd mp_market_info \<Rightarrow> 'd mp_market_info" where
  "info_update D J T pads now timestamp price amount side deal_id info =
     (let time_sec = time_of_double timestamp;
          info = info\<lparr>mi_sec := update_kline D (mi_sec info) time_sec price amount\<rparr>;
          info = add_update pads info KLINE_SEC time_sec;
          time_min = (time_sec sdiv 60) * 60;
          info = info\<lparr>mi_min := update_kline D (mi_min info) time_min price amount\<rparr>;
          info = add_update pads info KLINE_MIN time_min;
          time_hour = (time_sec sdiv 3600) * 3600;
          info = info\<lparr>mi_hour := update_kline D (mi_hour info) time_hour price amount\<rparr>;
          info = add_update pads info KLINE_HOUR time_hour;
          time_day = get_day_start T time_sec;
          info = info\<lparr>mi_day := update_kline D (mi_day info) time_day price amount\<rparr>;
          info = add_update pads info KLINE_DAY time_day;
          info = info\<lparr>mi_last := price\<rparr>;
          info = append_deal D J (deal_json D timestamp price amount side deal_id) info in
      info\<lparr>mi_update_time := now\<rparr>)"

definition market_update :: "'d mpd_lib \<Rightarrow> text_lib \<Rightarrow> time_lib \<Rightarrow> (kline_type \<Rightarrow> u32) \<Rightarrow> rat \<Rightarrow> string \<Rightarrow> rat \<Rightarrow> 'd \<Rightarrow> 'd \<Rightarrow> u32 \<Rightarrow> u64
    \<Rightarrow> ('d, 'z) price_state_scheme \<Rightarrow> int \<times> ('d, 'z) price_state_scheme" where
  "market_update D J T pads now market timestamp price amount side deal_id s =
     (let (info, s) = (case market_query s market of Some info \<Rightarrow> (info, s) | None \<Rightarrow> create_market D market s) in
      (0, s\<lparr>dict_price := dv_put market (info_update D J T pads now timestamp price amount side deal_id info) (dict_price s)\<rparr>))"

text \<open>The side is an \<open>int\<close>: the 64 bits of the JSON value are cut to 32.\<close>
definition on_deals_message :: "'d mpd_lib \<Rightarrow> text_lib \<Rightarrow> time_lib \<Rightarrow> (kline_type \<Rightarrow> u32) \<Rightarrow> rat \<Rightarrow> string \<Rightarrow> int
    \<Rightarrow> ('d, 'z) price_state_scheme \<Rightarrow> ('d, 'z) price_state_scheme" where
  "on_deals_message D J T pads now message offset s =
     (case json_loadb J message of
        None \<Rightarrow> s
      | Some obj \<Rightarrow>
          if \<not> json_is_array (Some obj) \<or> json_array_size obj < 12 then s
          else
            let timestamp = json_real_value (json_array_get obj 0) in
            if timestamp = 0 then s
            else case json_string_value (json_array_get obj 1) of
              None \<Rightarrow> s
            | Some market \<Rightarrow>
                (case number_at D obj 6 of None \<Rightarrow> s | Some price \<Rightarrow>
                (case number_at D obj 7 of None \<Rightarrow> s | Some amount \<Rightarrow>
                   let side = word_of_int (json_integer_value (json_array_get obj 10)) in
                   if side \<noteq> MARKET_ORDER_SIDE_ASK \<and> side \<noteq> MARKET_ORDER_SIDE_BID then s
                   else
                     let deal_id = word_of_int (json_integer_value (json_array_get obj 11)) in
                     if deal_id = 0 then s
                     else
                       let (ret, s) = market_update D J T pads now market timestamp price amount side deal_id s in
                       if ret < 0 then s else s\<lparr>last_offset := offset\<rparr>)))"

section \<open>Forgetting old klines\<close>

text \<open>The limits of the settings: how many seconds, minutes and hours are kept.\<close>

record mp_settings =
  sec_max :: int
  min_max :: int
  hour_max :: int
  timezone :: int
  mp_cache_timeout :: rat
  mp_debug :: bool

definition clear_dict :: "(int, 'd kline_info) dict_view \<Rightarrow> int \<Rightarrow> (int, 'd kline_info) dict_view" where
  "clear_dict dict start = filter (\<lambda>(timestamp, _). \<not> timestamp < start) dict"

definition sec_start :: "mp_settings \<Rightarrow> int \<Rightarrow> int" where
  "sec_start C now = now - sec_max C"

definition min_start :: "mp_settings \<Rightarrow> int \<Rightarrow> int" where
  "min_start C now = now sdiv 60 * 60 - min_max C * 60"

definition hour_start :: "mp_settings \<Rightarrow> int \<Rightarrow> int" where
  "hour_start C now = now sdiv 3600 * 3600 - hour_max C * 3600"

definition clear_kline :: "mp_settings \<Rightarrow> int \<Rightarrow> ('d, 'z) price_state_scheme \<Rightarrow> ('d, 'z) price_state_scheme" where
  "clear_kline C now s =
     s\<lparr>dict_price := map (\<lambda>(name, info). (name, info\<lparr>mi_sec := clear_dict (mi_sec info) (sec_start C now),
         mi_min := clear_dict (mi_min info) (min_start C now),
         mi_hour := clear_dict (mi_hour info) (hour_start C now)\<rparr>)) (dict_price s)\<rparr>"

end
