(* ===== verification/Kline_Query.thy ===== *)
theory Kline_Query
  imports Kline
begin

text \<open>
  The queries of \<open>mp_message.c\<close>: the status of a market over a period and over the day, its klines at
  the intervals a chart asks for, its last deals. Each gives \<open>None\<close> for \<open>NULL\<close>.
\<close>

section \<open>Loops over times\<close>

text \<open>The values of \<open>t\<close> in \<open>for (t = start; t < stop; t += unit)\<close>, for a positive \<open>unit\<close>.\<close>

definition steps :: "int \<Rightarrow> int \<Rightarrow> int \<Rightarrow> int list" where
  "steps start stop unit = map (\<lambda>i. start + int i * unit) [0..<nat ((stop - start + unit - 1) div unit)]"

lemma steps_simps: "0 < unit \<Longrightarrow> steps start stop unit = (if start < stop then start # steps (start + unit) stop unit else [])"
proof -
  assume u: "0 < unit"
  have e: "(stop - start + unit - 1) div unit = (stop - (start + unit) + unit - 1) div unit + 1"
    using div_add_self2 [of unit "stop - start - 1"] u by (simp add: algebra_simps)
  show ?thesis
  proof (cases "start < stop")
    case True
    define n where "n = nat ((stop - (start + unit) + unit - 1) div unit)"
    have "0 \<le> (stop - (start + unit) + unit - 1) div unit" using True u by (simp add: pos_imp_zdiv_nonneg_iff)
    then have "nat ((stop - start + unit - 1) div unit) = Suc n" by (simp add: n_def e nat_add_distrib)
    moreover have "steps (start + unit) stop unit = map (\<lambda>i. start + unit + int i * unit) [0..<n]"
      by (simp only: steps_def n_def)
    moreover have "[0..<Suc n] = 0 # map Suc [0..<n]" by (simp add: upt_conv_Cons map_Suc_upt del: upt_Suc)
    ultimately show ?thesis
      using True by (simp add: steps_def o_def algebra_simps del: upt_Suc)
  next
    case False
    then have "stop - start - 1 < 0" by simp
    with u have "(stop - (start + unit) + unit - 1) div unit < 0" by (simp add: div_neg_pos_less0)
    with False show ?thesis by (simp add: steps_def e)
  qed
qed

text \<open>The first entry found on the way back from \<open>start\<close> to \<open>stop\<close>.\<close>

function get_last_kline :: "(int, 'd kline_info) dict_view \<Rightarrow> int \<Rightarrow> int \<Rightarrow> int \<Rightarrow> 'd kline_info option" where
  "get_last_kline dict start stop interval =
     (if start \<ge> stop \<and> interval > 0 then
        case dv_find dict start of Some kinfo \<Rightarrow> Some kinfo | None \<Rightarrow> get_last_kline dict (start - interval) stop interval
      else None)"
  by pat_completeness auto
termination
  by (relation "measure (\<lambda>(dict, start, stop, interval). nat (start - stop + 1))") auto

declare get_last_kline.simps [simp del]

text \<open>A kline that is found is merged into what has been collected so far.\<close>

definition merge_found :: "'d mpd_lib \<Rightarrow> (int, 'd kline_info) dict_view \<Rightarrow> int \<Rightarrow> 'd kline_info option \<Rightarrow> 'd kline_info option" where
  "merge_found D dict timestamp acc =
     (case dv_find dict timestamp of
        None \<Rightarrow> acc
      | Some item \<Rightarrow>
          Some (kline_info_merge D (case acc of Some kinfo \<Rightarrow> kinfo | None \<Rightarrow> kline_info_new D (k_open item)) item))"

section \<open>Status\<close>

text \<open>A period is cut at the start of its second minute: seconds before, minutes from there on.\<close>

definition period_kline :: "'d mpd_lib \<Rightarrow> 'd mp_market_info \<Rightarrow> int \<Rightarrow> int \<Rightarrow> 'd kline_info option" where
  "period_kline D info start now =
     (let start_min = start sdiv 60 * 60 + 60;
          kinfo = fold (merge_found D (mi_sec info)) (steps start start_min 1) None in
      fold (merge_found D (mi_min info)) (steps start_min now 60) kinfo)"

definition get_market_status :: "'d mpd_lib \<Rightarrow> int \<Rightarrow> ('d, 'z) price_state_scheme \<Rightarrow> string \<Rightarrow> int \<Rightarrow> json option" where
  "get_market_status D now s market period =
     (case market_query s market of
        None \<Rightarrow> None
      | Some info \<Rightarrow>
          let kinfo = (case period_kline D info (now - period) now of
                         Some kinfo \<Rightarrow> kinfo | None \<Rightarrow> kline_info_new D (mpd_zero D));
              result = JObject [];
              result = json_object_set result ''period'' (JInteger period);
              result = json_object_set_new_mpd D result ''last'' (mi_last info);
              result = json_object_set_new_mpd D result ''open'' (k_open kinfo);
              result = json_object_set_new_mpd D result ''close'' (k_close kinfo);
              result = json_object_set_new_mpd D result ''high'' (k_high kinfo);
              result = json_object_set_new_mpd D result ''low'' (k_low kinfo);
              result = json_object_set_new_mpd D result ''volume'' (k_volume kinfo);
              result = json_object_set_new_mpd D result ''deal'' (k_deal kinfo) in
          Some result)"

definition add_found :: "'d mpd_lib \<Rightarrow> (int, 'd kline_info) dict_view \<Rightarrow> int \<Rightarrow> 'd \<times> 'd \<Rightarrow> 'd \<times> 'd" where
  "add_found D dict timestamp acc =
     (case dv_find dict timestamp of
        None \<Rightarrow> acc
      | Some info \<Rightarrow> (mpd_add D (fst acc) (k_volume info), mpd_add D (snd acc) (k_deal info)))"

definition get_market_status_today :: "'d mpd_lib \<Rightarrow> time_lib \<Rightarrow> int \<Rightarrow> ('d, 'z) price_state_scheme \<Rightarrow> string \<Rightarrow> json option" where
  "get_market_status_today D T now s market =
     (case market_query s market of
        None \<Rightarrow> None
      | Some info \<Rightarrow>
          let result = JObject [];
              start = get_day_start T now;
              klast = get_last_kline (mi_day info) (start - 86400) (start - 86400 * 30) 86400;
              prices = (\<lambda>op la hi lo.
                let result = json_object_set result ''open'' op;
                    result = json_object_set result ''last'' la;
                    result = json_object_set result ''high'' hi in
                json_object_set result ''low'' lo);
              mpd = (\<lambda>v. JString (mpd_string D v));
              result = (case dv_find (mi_day info) start of
                  Some today \<Rightarrow> prices (mpd (k_open today)) (mpd (k_close today)) (mpd (k_high today)) (mpd (k_low today))
                | None \<Rightarrow>
                    (case klast of
                       Some klast \<Rightarrow> prices (mpd (k_close klast)) (mpd (k_close klast)) (mpd (k_close klast)) (mpd (k_close klast))
                     | None \<Rightarrow> prices (JString ''0'') (JString ''0'') (JString ''0'') (JString ''0'')));
              start_24h = now - 86400;
              start_min = start_24h sdiv 60 * 60 + 60;
              totals = fold (add_found D (mi_sec info)) (steps start_24h start_min 1) (mpd_zero D, mpd_zero D);
              (volume, deal) = fold (add_found D (mi_min info)) (steps start_min now 60) totals;
              result = json_object_set_new_mpd D result ''volume'' volume in
          Some (json_object_set_new_mpd D result ''deal'' deal))"

section \<open>Klines\<close>

definition append_kinfo :: "'d mpd_lib \<Rightarrow> string \<Rightarrow> json \<Rightarrow> int \<times> 'd kline_info \<Rightarrow> json" where
  "append_kinfo D market result entry =
     (let (timestamp, kinfo) = entry;
          obj = json_array_append (JArray []) (JInteger timestamp);
          obj = kline_array D obj kinfo;
          obj = json_array_append obj (JString market) in
      json_array_append result obj)"

text \<open>
  The loop all queries have: the kline of a slot is merged from the \<open>n\<close> klines in it; an empty slot
  repeats the close of the one before, and is left out when there is none.
\<close>

definition slot_kline :: "'d mpd_lib \<Rightarrow> (int, 'd kline_info) dict_view \<Rightarrow> int \<Rightarrow> int \<Rightarrow> int \<Rightarrow> 'd kline_info option" where
  "slot_kline D dict unit n start = fold (\<lambda>i. merge_found D dict (start + i * unit)) (steps 0 n 1) None"

fun kline_slots :: "'d mpd_lib \<Rightarrow> (int \<Rightarrow> 'd kline_info option) \<Rightarrow> 'd kline_info option \<Rightarrow> int list \<Rightarrow> (int \<times> 'd kline_info) list" where
  "kline_slots D slot klast [] = []"
| "kline_slots D slot klast (start # starts) =
     (case slot start of
        Some kinfo \<Rightarrow> (start, kinfo) # kline_slots D slot (Some kinfo) starts
      | None \<Rightarrow>
          (case klast of
             None \<Rightarrow> kline_slots D slot klast starts
           | Some last_info \<Rightarrow>
               let kinfo = kline_info_new D (k_close last_info) in
               (start, kinfo) # kline_slots D slot (Some kinfo) starts))"

definition kline_json :: "'d mpd_lib \<Rightarrow> string \<Rightarrow> (int \<times> 'd kline_info) list \<Rightarrow> json" where
  "kline_json D market rows = foldl (append_kinfo D market) (JArray []) rows"

definition sec_rows :: "'d mpd_lib \<Rightarrow> mp_settings \<Rightarrow> int \<Rightarrow> 'd mp_market_info \<Rightarrow> int \<Rightarrow> int \<Rightarrow> int \<Rightarrow> (int \<times> 'd kline_info) list" where
  "sec_rows D C now info start stop interval =
     (let start = (if start < sec_start C now then sec_start C now else start);
          start = start sdiv interval * interval;
          kbefor = get_last_kline (mi_sec info) (start - 1) (sec_start C now) 1 in
      kline_slots D (slot_kline D (mi_sec info) 1 interval) kbefor (steps start (stop + 1) interval))"

definition get_market_kline_sec :: "'d mpd_lib \<Rightarrow> mp_settings \<Rightarrow> int \<Rightarrow> ('d, 'z) price_state_scheme \<Rightarrow> string \<Rightarrow> int \<Rightarrow> int \<Rightarrow> int
    \<Rightarrow> json option" where
  "get_market_kline_sec D C now s market start stop interval =
     (case market_query s market of
        None \<Rightarrow> None
      | Some info \<Rightarrow> Some (kline_json D market (sec_rows D C now info start stop interval)))"

definition min_rows :: "'d mpd_lib \<Rightarrow> mp_settings \<Rightarrow> int \<Rightarrow> 'd mp_market_info \<Rightarrow> int \<Rightarrow> int \<Rightarrow> int \<Rightarrow> (int \<times> 'd kline_info) list" where
  "min_rows D C now info start stop interval =
     (let start = (if start < min_start C now then min_start C now else start);
          start = start sdiv interval * interval;
          kbefor = get_last_kline (mi_min info) (start - 60) (min_start C now) 60 in
      kline_slots D (slot_kline D (mi_min info) 60 (interval sdiv 60)) kbefor (steps start (stop + 1) interval))"

definition get_market_kline_min :: "'d mpd_lib \<Rightarrow> mp_settings \<Rightarrow> int \<Rightarrow> ('d, 'z) price_state_scheme \<Rightarrow> string \<Rightarrow> int \<Rightarrow> int \<Rightarrow> int
    \<Rightarrow> json option" where
  "get_market_kline_min D C now s market start stop interval =
     (case market_query s market of
        None \<Rightarrow> None
      | Some info \<Rightarrow> Some (kline_json D market (min_rows D C now info start stop interval)))"

text \<open>\<open>while ((base + interval) <= start) base += interval\<close>.\<close>

function next_base :: "int \<Rightarrow> int \<Rightarrow> int \<Rightarrow> int" where
  "next_base interval start base = (if base + interval \<le> start \<and> interval > 0 then next_base interval start (base + interval) else base)"
  by pat_completeness auto
termination
  by (relation "measure (\<lambda>(interval, start, base). nat (start - base))") auto

declare next_base.simps [simp del]

definition hour_rows :: "'d mpd_lib \<Rightarrow> mp_settings \<Rightarrow> time_lib \<Rightarrow> int \<Rightarrow> 'd mp_market_info \<Rightarrow> int \<Rightarrow> int \<Rightarrow> int \<Rightarrow> (int \<times> 'd kline_info) list" where
  "hour_rows D C T now info start stop interval =
     (let start = (if start < hour_start C now then hour_start C now else start);
          start = next_base interval start (get_day_start T start);
          kbefor = get_last_kline (mi_hour info) (start - 3600) (hour_start C now) 3600 in
      kline_slots D (slot_kline D (mi_hour info) 3600 (interval sdiv 3600)) kbefor (steps start (stop + 1) interval))"

definition get_market_kline_hour :: "'d mpd_lib \<Rightarrow> mp_settings \<Rightarrow> time_lib \<Rightarrow> int \<Rightarrow> ('d, 'z) price_state_scheme \<Rightarrow> string
    \<Rightarrow> int \<Rightarrow> int \<Rightarrow> int \<Rightarrow> json option" where
  "get_market_kline_hour D C T now s market start stop interval =
     (case market_query s market of
        None \<Rightarrow> None
      | Some info \<Rightarrow> Some (kline_json D market (hour_rows D C T now info start stop interval)))"

text \<open>Days and weeks: multiples of the interval in local time; a week starts on Monday.\<close>

definition day_rows :: "'d mpd_lib \<Rightarrow> 'd mp_market_info \<Rightarrow> int \<Rightarrow> int \<Rightarrow> int \<Rightarrow> (int \<times> 'd kline_info) list" where
  "day_rows D info start stop interval =
     (let kbefor = get_last_kline (mi_day info) (start - 86400) (start - 86400 * 30) 86400 in
      kline_slots D (slot_kline D (mi_day info) 86400 (interval sdiv 86400)) kbefor (steps start (stop + 1) interval))"

definition get_market_kline_day :: "'d mpd_lib \<Rightarrow> mp_settings \<Rightarrow> ('d, 'z) price_state_scheme \<Rightarrow> string \<Rightarrow> int \<Rightarrow> int \<Rightarrow> int
    \<Rightarrow> json option" where
  "get_market_kline_day D C s market start stop interval =
     (case market_query s market of
        None \<Rightarrow> None
      | Some info \<Rightarrow>
          let start = (start - timezone C) sdiv interval * interval + timezone C in
          Some (kline_json D market (day_rows D info start stop interval)))"

definition get_market_kline_week :: "'d mpd_lib \<Rightarrow> mp_settings \<Rightarrow> ('d, 'z) price_state_scheme \<Rightarrow> string \<Rightarrow> int \<Rightarrow> int \<Rightarrow> int
    \<Rightarrow> json option" where
  "get_market_kline_week D C s market start stop interval =
     (case market_query s market of
        None \<Rightarrow> None
      | Some info \<Rightarrow>
          let base = (start - timezone C) sdiv interval * interval - 3 * 86400 + timezone C;
              start = next_base interval start base in
          Some (kline_json D market (day_rows D info start stop interval)))"

text \<open>Months are counted from 1 here.\<close>

definition get_month_start :: "time_lib \<Rightarrow> nat \<Rightarrow> nat \<Rightarrow> int" where
  "get_month_start T year mon = mktime T (year, mon, 1)"

definition get_next_month :: "time_lib \<Rightarrow> nat \<times> nat \<Rightarrow> (nat \<times> nat) \<times> int" where
  "get_next_month T ym =
     (let (year, mon) = ym; ym = (if mon = 12 then (year + 1, 1) else (year, mon + 1)) in
      (ym, mktime T (fst ym, snd ym, 1)))"

partial_function (option) month_loop :: "'d mpd_lib \<Rightarrow> time_lib \<Rightarrow> 'd mp_market_info \<Rightarrow> int \<Rightarrow> nat \<times> nat \<Rightarrow> int
    \<Rightarrow> 'd kline_info option \<Rightarrow> (int \<times> 'd kline_info) list \<Rightarrow> (int \<times> 'd kline_info) list option" where
  "month_loop D T info stop ym mon_start klast rows =
     (if mon_start \<le> stop then
        let r = get_next_month T ym; mon_next = snd r in
        case fold (merge_found D (mi_day info)) (steps mon_start (min mon_next (stop + 1)) 86400) None of
          Some kinfo \<Rightarrow> month_loop D T info stop (fst r) mon_next (Some kinfo) (rows @ [(mon_start, kinfo)])
        | None \<Rightarrow>
            (case klast of
               None \<Rightarrow> month_loop D T info stop (fst r) mon_next klast rows
             | Some last_info \<Rightarrow>
                 let kinfo = kline_info_new D (k_close last_info) in
                 month_loop D T info stop (fst r) mon_next (Some kinfo) (rows @ [(mon_start, kinfo)]))
      else Some rows)"

text \<open>The outer option: the loop may not end when \<open>mktime\<close> does not go forward.\<close>

definition get_market_kline_month :: "'d mpd_lib \<Rightarrow> time_lib \<Rightarrow> ('d, 'z) price_state_scheme \<Rightarrow> string \<Rightarrow> int \<Rightarrow> int
    \<Rightarrow> json option option" where
  "get_market_kline_month D T s market start stop =
     (case market_query s market of
        None \<Rightarrow> Some None
      | Some info \<Rightarrow>
          let (year, mon, _) = localtime T start;
              mon_start = get_month_start T year mon;
              kbefor = get_last_kline (mi_day info) (mon_start - 86400) (start - 86400 * 30) 86400 in
          (case month_loop D T info stop (year, mon) mon_start kbefor [] of
             None \<Rightarrow> None
           | Some rows \<Rightarrow> Some (Some (kline_json D market rows))))"

section \<open>Deals\<close>

text \<open>The deals newer than \<open>last_id\<close>, at most \<open>limit\<close>: the loop stops when the counter reaches it.\<close>

fun collect_deals :: "nat \<Rightarrow> int \<Rightarrow> u64 \<Rightarrow> json list \<Rightarrow> json list" where
  "collect_deals cnt limit last_id [] = []"
| "collect_deals cnt limit last_id (deal # nodes) =
     (let deal_id = word_of_int (json_integer_value (json_object_get deal ''id'')) in
      if deal_id \<le> last_id then []
      else deal # (if int (cnt + 1) = limit then [] else collect_deals (cnt + 1) limit last_id nodes))"

definition get_market_deals :: "('d, 'z) price_state_scheme \<Rightarrow> string \<Rightarrow> int \<Rightarrow> u64 \<Rightarrow> json option" where
  "get_market_deals s market limit last_id =
     (case market_query s market of
        None \<Rightarrow> None
      | Some info \<Rightarrow> Some (JArray (collect_deals 0 limit last_id (mi_deals_json info))))"

definition get_market_last_price :: "('d, 'z) price_state_scheme \<Rightarrow> string \<Rightarrow> 'd option" where
  "get_market_last_price s market = map_option mi_last (market_query s market)"

definition market_exist :: "('d, 'z) price_state_scheme \<Rightarrow> string \<Rightarrow> bool" where
  "market_exist s market = (market_query s market \<noteq> None)"

end
