(* ===== verification/Kline_Facts.thy ===== *)
theory Kline_Facts
  imports Kline_Query Balance_Facts
begin

text \<open>
  What the klines of a market say of its deals: a kline is the candle of the deals of its second,
  minute, hour or day, and merging the klines of a slot gives the candle of the slot.
\<close>

section \<open>Candles\<close>

record 'd trade =
  tr_time :: rat
  tr_price :: 'd
  tr_amount :: 'd
  tr_side :: u32
  tr_id :: u64

definition tr_sec :: "'d trade \<Rightarrow> int" where
  "tr_sec t = time_of_double (tr_time t)"

definition tr_val :: "('d \<Rightarrow> rat option) \<Rightarrow> 'd trade \<Rightarrow> rat" where
  "tr_val val t = amount_val val (tr_price t)"

definition volume_of :: "('d \<Rightarrow> rat option) \<Rightarrow> 'd trade list \<Rightarrow> rat" where
  "volume_of val ts = (\<Sum>t\<leftarrow>ts. amount_val val (tr_amount t))"

definition money_of :: "('d \<Rightarrow> rat option) \<Rightarrow> 'd trade list \<Rightarrow> rat" where
  "money_of val ts = (\<Sum>t\<leftarrow>ts. tr_val val t * amount_val val (tr_amount t))"

text \<open>
  Prices with \<open>m\<close> decimals and amounts with \<open>n\<close>, and totals of at most 34 digits: then no sum is rounded.
\<close>

definition trade_ok :: "('d \<Rightarrow> rat option) \<Rightarrow> nat \<Rightarrow> nat \<Rightarrow> 'd trade \<Rightarrow> bool" where
  "trade_ok val m n t \<longleftrightarrow> val (tr_price t) = Some (tr_val val t) \<and> val (tr_amount t) = Some (amount_val val (tr_amount t)) \<and>
     0 \<le> tr_val val t \<and> 0 \<le> amount_val val (tr_amount t) \<and> on_grid m (tr_val val t) \<and> on_grid n (amount_val val (tr_amount t))"

definition trades_ok :: "('d \<Rightarrow> rat option) \<Rightarrow> nat \<Rightarrow> nat \<Rightarrow> 'd trade list \<Rightarrow> bool" where
  "trades_ok val m n ts \<longleftrightarrow> m + n \<le> 1000 \<and> (\<forall>t \<in> set ts. trade_ok val m n t) \<and>
     volume_of val ts * 10 ^ n < 10 ^ 34 \<and> money_of val ts * 10 ^ (m + n) < 10 ^ 34"

text \<open>A kline that was opened at a price and has collected some deals, maybe none yet.\<close>

definition candle_part :: "('d \<Rightarrow> rat option) \<Rightarrow> 'd \<Rightarrow> 'd kline_info \<Rightarrow> 'd trade list \<Rightarrow> bool" where
  "candle_part val op k ts \<longleftrightarrow> k_open k = op \<and> k_close k = (if ts = [] then op else tr_price (last ts)) \<and>
     val (k_high k) = Some (Max (insert (amount_val val op) (tr_val val ` set ts))) \<and>
     val (k_low k) = Some (Min (insert (amount_val val op) (tr_val val ` set ts))) \<and>
     val (k_volume k) = Some (volume_of val ts) \<and> val (k_deal k) = Some (money_of val ts)"

definition candle :: "('d \<Rightarrow> rat option) \<Rightarrow> 'd kline_info \<Rightarrow> 'd trade list \<Rightarrow> bool" where
  "candle val k ts \<longleftrightarrow> ts \<noteq> [] \<and> k_open k = tr_price (hd ts) \<and> k_close k = tr_price (last ts) \<and>
     val (k_high k) = Some (Max (tr_val val ` set ts)) \<and> val (k_low k) = Some (Min (tr_val val ` set ts)) \<and>
     val (k_volume k) = Some (volume_of val ts) \<and> val (k_deal k) = Some (money_of val ts)"

lemma candle_part: "ts \<noteq> [] \<Longrightarrow> candle val k ts \<longleftrightarrow> candle_part val (tr_price (hd ts)) k ts"
proof -
  assume ts: "ts \<noteq> []"
  then have "amount_val val (tr_price (hd ts)) \<in> tr_val val ` set ts"
    by (simp add: tr_val_def)
  then have "insert (amount_val val (tr_price (hd ts))) (tr_val val ` set ts) = tr_val val ` set ts"
    by (rule insert_absorb)
  with ts show ?thesis by (simp add: candle_def candle_part_def)
qed

lemma volume_of_simps [simp]:
  "volume_of val [] = 0" "volume_of val (t # ts) = amount_val val (tr_amount t) + volume_of val ts"
  "volume_of val (ts @ us) = volume_of val ts + volume_of val us"
  by (simp_all add: volume_of_def)

lemma money_of_simps [simp]:
  "money_of val [] = 0" "money_of val (t # ts) = tr_val val t * amount_val val (tr_amount t) + money_of val ts"
  "money_of val (ts @ us) = money_of val ts + money_of val us"
  by (simp_all add: money_of_def)

lemma totals_nonneg: "\<forall>t \<in> set ts. trade_ok val m n t \<Longrightarrow> 0 \<le> volume_of val ts \<and> 0 \<le> money_of val ts"
  by (induction ts) (auto simp: trade_ok_def)

lemma totals_filter:
  "\<forall>t \<in> set ts. trade_ok val m n t \<Longrightarrow> volume_of val (filter P ts) \<le> volume_of val ts \<and> money_of val (filter P ts) \<le> money_of val ts"
  by (induction ts) (auto simp: trade_ok_def add_increasing)

lemma trades_ok_sub:
  assumes "trades_ok val m n ts" "set us \<subseteq> set ts" "volume_of val us \<le> volume_of val ts" "money_of val us \<le> money_of val ts"
  shows "trades_ok val m n us"
proof -
  have scale: "a * 10 ^ k < c" if "a \<le> b" "b * 10 ^ k < c" for a b c :: rat and k :: nat
  proof -
    have "a * 10 ^ k \<le> b * 10 ^ k" using that(1) by (rule mult_right_mono) simp
    with that(2) show ?thesis by (rule le_less_trans [rotated])
  qed
  from assms(1) have "volume_of val us * 10 ^ n < 10 ^ 34" "money_of val us * 10 ^ (m + n) < 10 ^ 34"
    using scale [OF assms(3)] scale [OF assms(4)] unfolding trades_ok_def by blast+
  with assms(1,2) show ?thesis
    unfolding trades_ok_def by blast
qed

lemma trades_ok_filter: "trades_ok val m n ts \<Longrightarrow> trades_ok val m n (filter P ts)"
proof -
  assume ok: "trades_ok val m n ts"
  with totals_filter [of ts val m n P] show ?thesis
    by (intro trades_ok_sub [OF ok]) (auto simp: trades_ok_def)
qed

lemma trades_ok_append: "trades_ok val m n (ts @ us) \<Longrightarrow> trades_ok val m n ts \<and> trades_ok val m n us"
proof -
  assume ok: "trades_ok val m n (ts @ us)"
  then have "0 \<le> volume_of val ts" "0 \<le> money_of val ts" "0 \<le> volume_of val us" "0 \<le> money_of val us"
    using totals_nonneg [of ts val m n] totals_nonneg [of us val m n] by (auto simp: trades_ok_def)
  with trades_ok_sub [OF ok, of ts] trades_ok_sub [OF ok, of us] show ?thesis by simp
qed

lemma totals_grid:
  "\<forall>t \<in> set ts. trade_ok val m n t \<Longrightarrow> on_grid n (volume_of val ts) \<and> on_grid (m + n) (money_of val ts)"
  by (induction ts) (auto simp: trade_ok_def intro!: on_grid_add on_grid_mult)

lemma trades_ok_fits: "trades_ok val m n ts \<Longrightarrow> fits (volume_of val ts) \<and> fits (money_of val ts)"
proof -
  assume ok: "trades_ok val m n ts"
  with totals_grid [of ts val m n] totals_nonneg [of ts val m n] show ?thesis
    by (auto simp: trades_ok_def intro!: grid_fits)
qed

lemma trades_okD: "trades_ok val m n ts \<Longrightarrow> t \<in> set ts \<Longrightarrow> trade_ok val m n t"
  by (simp add: trades_ok_def)

section \<open>The operations on a kline\<close>

lemma candle_new:
  assumes "mpd_laws D val" "val op = Some x"
  shows "candle_part val op (kline_info_new D op) []"
  using assms by (simp add: candle_part_def kline_info_new_def amount_val_def)

lemma max_cmp:
  assumes "mpd_laws D val" "val a = Some x" "val b = Some y"
  shows "val (if mpd_cmp D a b > 0 then a else b) = Some (max x y)"
    "val (if mpd_cmp D a b < 0 then a else b) = Some (min x y)"
  using assms mpd_cmp_val [OF assms] by (auto simp: max_def min_def)

lemma kline_info_update_fields:
  "k_open (kline_info_update D k p a) = k_open k" "k_close (kline_info_update D k p a) = p"
  "k_volume (kline_info_update D k p a) = mpd_add D (k_volume k) a"
  "k_deal (kline_info_update D k p a) = mpd_add D (k_deal k) (mpd_mul D p a)"
  "k_high (kline_info_update D k p a) = (if mpd_cmp D p (k_high k) > 0 then p else k_high k)"
  "k_low (kline_info_update D k p a) = (if mpd_cmp D p (k_low k) < 0 then p else k_low k)"
  by (simp_all add: kline_info_update_def Let_def)

lemma kline_info_merge_fields:
  "k_open (kline_info_merge D k u) = k_open k" "k_close (kline_info_merge D k u) = k_close u"
  "k_volume (kline_info_merge D k u) = mpd_add D (k_volume k) (k_volume u)"
  "k_deal (kline_info_merge D k u) = mpd_add D (k_deal k) (k_deal u)"
  "k_high (kline_info_merge D k u) = (if mpd_cmp D (k_high u) (k_high k) > 0 then k_high u else k_high k)"
  "k_low (kline_info_merge D k u) = (if mpd_cmp D (k_low u) (k_low k) < 0 then k_low u else k_low k)"
  by (simp_all add: kline_info_merge_def Let_def)

lemma add_exact:
  assumes "mpd_laws D val" "val a = Some x" "val b = Some y" "fits (x + y)"
  shows "val (mpd_add D a b) = Some (x + y)"
  using mpd_add_val [OF assms(1-3)] rounds_fits assms(4) by fastforce

lemma Max_snoc: "finite A \<Longrightarrow> A \<noteq> {} \<Longrightarrow> finite B \<Longrightarrow> B \<noteq> {} \<Longrightarrow> Max (A \<union> B) = max (Max B) (Max A)"
  "finite A \<Longrightarrow> A \<noteq> {} \<Longrightarrow> finite B \<Longrightarrow> B \<noteq> {} \<Longrightarrow> Min (A \<union> B) = min (Min B) (Min A)"
  by (simp_all add: Max_Un Min_Un max.commute min.commute)

lemma candle_merge:
  assumes L: "mpd_laws D val" and k: "candle_part val op k ts" and u: "candle val u us"
    and ok: "trades_ok val m n (ts @ us)"
  shows "candle_part val op (kline_info_merge D k u) (ts @ us)"
proof -
  let ?A = "insert (amount_val val op) (tr_val val ` set ts)"
  let ?B = "tr_val val ` set us"
  from u have us: "us \<noteq> []" by (simp add: candle_def)
  have sets: "insert (amount_val val op) (tr_val val ` set (ts @ us)) = ?A \<union> ?B" by auto
  have B: "finite ?B" "?B \<noteq> {}" using us by simp_all
  have A: "finite ?A" "?A \<noteq> {}" by simp_all
  from k u have v: "val (k_high k) = Some (Max ?A)" "val (k_low k) = Some (Min ?A)"
    "val (k_high u) = Some (Max ?B)" "val (k_low u) = Some (Min ?B)"
    by (simp_all add: candle_def candle_part_def)
  note max_cmp(1) [OF L v(3,1)] max_cmp(2) [OF L v(4,2)]
  then have "val (k_high (kline_info_merge D k u)) = Some (Max (?A \<union> ?B))"
    "val (k_low (kline_info_merge D k u)) = Some (Min (?A \<union> ?B))"
    unfolding kline_info_merge_fields Max_snoc [OF A B] by blast+
  moreover have "val (k_volume (kline_info_merge D k u)) = Some (volume_of val (ts @ us))"
    "val (k_deal (kline_info_merge D k u)) = Some (money_of val (ts @ us))"
    using k u trades_ok_fits [OF ok]
    by (auto simp: candle_def candle_part_def kline_info_merge_fields intro!: add_exact [OF L])
  ultimately show ?thesis
    using k u us unfolding candle_part_def sets by (simp add: candle_def kline_info_merge_fields)
qed

text \<open>An update by a deal is what merging the kline of that deal alone does.\<close>

lemma candle_update:
  assumes L: "mpd_laws D val" and k: "candle_part val op k ts" and ok: "trades_ok val m n (ts @ [t])"
  shows "candle_part val op (kline_info_update D k (tr_price t) (tr_amount t)) (ts @ [t])"
proof -
  let ?A = "insert (amount_val val op) (tr_val val ` set ts)"
  from ok have t: "trade_ok val m n t" by (simp add: trades_ok_def)
  from trades_ok_append [OF ok] have "fits (money_of val [t])" using trades_ok_fits by blast
  with t mpd_mul_val [OF L] have m: "val (mpd_mul D (tr_price t) (tr_amount t)) = Some (money_of val [t])"
    using rounds_fits unfolding trade_ok_def by fastforce
  from t have p: "val (tr_price t) = Some (tr_val val t)" by (simp add: trade_ok_def)
  from k have v: "val (k_high k) = Some (Max ?A)" "val (k_low k) = Some (Min ?A)"
    by (simp_all add: candle_part_def)
  have sets: "insert (amount_val val op) (tr_val val ` set (ts @ [t])) = ?A \<union> {tr_val val t}" by auto
  have "Max (?A \<union> {tr_val val t}) = max (tr_val val t) (Max ?A)" "Min (?A \<union> {tr_val val t}) = min (tr_val val t) (Min ?A)"
    by (subst Max_snoc; simp)+
  moreover note max_cmp(1) [OF L p v(1)] max_cmp(2) [OF L p v(2)]
  ultimately have "val (k_high (kline_info_update D k (tr_price t) (tr_amount t))) = Some (Max (?A \<union> {tr_val val t}))"
    "val (k_low (kline_info_update D k (tr_price t) (tr_amount t))) = Some (Min (?A \<union> {tr_val val t}))"
    unfolding kline_info_update_fields by presburger+
  moreover have "val (k_volume (kline_info_update D k (tr_price t) (tr_amount t))) = Some (volume_of val (ts @ [t]))"
    using k t trades_ok_fits [OF ok]
    by (auto simp: candle_part_def kline_info_update_fields trade_ok_def intro!: add_exact [OF L])
  moreover have "val (k_deal (kline_info_update D k (tr_price t) (tr_amount t))) = Some (money_of val (ts @ [t]))"
    using k m trades_ok_fits [OF ok]
    by (auto simp: candle_part_def kline_info_update_fields intro!: add_exact [OF L])
  ultimately show ?thesis
    using k unfolding candle_part_def sets by (simp add: kline_info_update_fields)
qed

section \<open>The dictionaries of a market\<close>

text \<open>
  For every bucket that has been kept, the dictionary has the candle of the deals of the bucket, and
  nothing when there were none.
\<close>

definition bucket_trades :: "(int \<Rightarrow> int) \<Rightarrow> int \<Rightarrow> 'd trade list \<Rightarrow> 'd trade list" where
  "bucket_trades bucket b ts = filter (\<lambda>t. bucket (tr_sec t) = b) ts"

definition candles :: "('d \<Rightarrow> rat option) \<Rightarrow> (int, 'd kline_info) dict_view \<Rightarrow> (int \<Rightarrow> int) \<Rightarrow> (int \<Rightarrow> bool) \<Rightarrow> 'd trade list \<Rightarrow> bool" where
  "candles val dict bucket kept ts \<longleftrightarrow>
     (\<forall>b. kept b \<longrightarrow> (case dv_find dict b of None \<Rightarrow> bucket_trades bucket b ts = [] | Some k \<Rightarrow> candle val k (bucket_trades bucket b ts)))"

lemma candles_empty [simp]: "candles val [] bucket kept []"
  by (simp add: candles_def bucket_trades_def)

lemma candles_kept: "candles val dict bucket kept ts \<Longrightarrow> (\<And>b. kept' b \<Longrightarrow> kept b) \<Longrightarrow> candles val dict bucket kept' ts"
  by (simp add: candles_def)

lemma dv_find_clear: "dv_find (clear_dict dict start) b = (if b < start then None else dv_find dict b)"
  by (induction dict) (auto simp: clear_dict_def)

lemma candles_clear:
  "candles val dict bucket kept ts \<Longrightarrow> candles val (clear_dict dict start) bucket (\<lambda>b. kept b \<and> start \<le> b) ts"
  by (simp add: candles_def dv_find_clear)

lemma candles_update:
  assumes L: "mpd_laws D val" and c: "candles val dict bucket kept ts" and ok: "trades_ok val m n (ts @ [t])"
  shows "candles val (update_kline D dict (bucket (tr_sec t)) (tr_price t) (tr_amount t)) bucket kept (ts @ [t])"
  unfolding candles_def
proof (intro allI impI)
  fix b assume b: "kept b"
  let ?us = "bucket_trades bucket b ts"
  from c b have old: "case dv_find dict b of None \<Rightarrow> ?us = [] | Some k \<Rightarrow> candle val k ?us"
    by (simp add: candles_def)
  show "case dv_find (update_kline D dict (bucket (tr_sec t)) (tr_price t) (tr_amount t)) b of
      None \<Rightarrow> bucket_trades bucket b (ts @ [t]) = [] | Some k \<Rightarrow> candle val k (bucket_trades bucket b (ts @ [t]))"
  proof (cases "bucket (tr_sec t) = b")
    case False
    then have "bucket_trades bucket b (ts @ [t]) = ?us" by (simp add: bucket_trades_def)
    with old False show ?thesis by (simp add: update_kline_def Let_def split: option.splits)
  next
    case True
    then have us: "bucket_trades bucket b (ts @ [t]) = ?us @ [t]" by (simp add: bucket_trades_def)
    have ok': "trades_ok val m n (?us @ [t])"
      using trades_ok_filter [OF ok] us by (metis bucket_trades_def)
    from ok have p: "val (tr_price t) = Some (tr_val val t)" by (simp add: trades_ok_def trade_ok_def)
    show ?thesis
    proof (cases "dv_find dict b")
      case None
      with old have "?us = []" by simp
      with candle_update [OF L candle_new [OF L p]] ok' None True us show ?thesis
        by (simp add: update_kline_def Let_def candle_part)
    next
      case (Some k)
      with old have k: "candle val k ?us" "?us \<noteq> []" by (auto simp: candle_def)
      with candle_update [OF L _ ok'] Some True us show ?thesis
        by (simp add: update_kline_def Let_def candle_part)
    qed
  qed
qed

section \<open>Merging a slot\<close>

text \<open>The deals of a time span; in a list ordered by time the spans follow each other.\<close>

definition span_trades :: "int \<Rightarrow> int \<Rightarrow> 'd trade list \<Rightarrow> 'd trade list" where
  "span_trades a b ts = filter (\<lambda>t. a \<le> tr_sec t \<and> tr_sec t < b) ts"

lemma span_trades_empty [simp]: "span_trades a a ts = []"
  by (simp add: span_trades_def)

lemma span_trades_split:
  "sorted (map tr_sec ts) \<Longrightarrow> a \<le> b \<Longrightarrow> b \<le> c \<Longrightarrow> span_trades a c ts = span_trades a b ts @ span_trades b c ts"
proof (induction ts)
  case Nil
  then show ?case by (simp add: span_trades_def)
next
  case (Cons t ts)
  then have IH: "span_trades a c ts = span_trades a b ts @ span_trades b c ts" by simp
  show ?case
  proof (cases "tr_sec t < b")
    case True
    with IH Cons.prems show ?thesis by (simp add: span_trades_def)
  next
    case False
    with Cons.prems(1) have "span_trades a b ts = []" by (auto simp: span_trades_def filter_empty_conv)
    with IH False Cons.prems show ?thesis by (auto simp: span_trades_def)
  qed
qed

text \<open>What merging the found klines has collected, up to a time.\<close>

definition collected :: "('d \<Rightarrow> rat option) \<Rightarrow> 'd kline_info option \<Rightarrow> 'd trade list \<Rightarrow> bool" where
  "collected val acc ts \<longleftrightarrow> (case acc of None \<Rightarrow> ts = [] | Some k \<Rightarrow> candle val k ts)"

lemma merge_found_collected:
  assumes L: "mpd_laws D val" and acc: "collected val acc ts" and new: "collected val (dv_find dict b) us"
    and ok: "trades_ok val m n (ts @ us)"
  shows "collected val (merge_found D dict b acc) (ts @ us)"
proof (cases "dv_find dict b")
  case None
  with new acc show ?thesis by (simp add: merge_found_def collected_def)
next
  case (Some item)
  with new have u: "candle val item us" by (simp add: collected_def)
  then have us: "us \<noteq> []" and op: "k_open item = tr_price (hd us)" by (simp_all add: candle_def)
  from ok us have "trade_ok val m n (hd us)" by (simp add: trades_ok_def)
  then have p: "val (k_open item) = Some (tr_val val (hd us))" by (simp add: op trade_ok_def)
  show ?thesis
  proof (cases acc)
    case None
    with acc have "ts = []" by (simp add: collected_def)
    with candle_merge [OF L candle_new [OF L p] u] ok Some None us op show ?thesis
      by (simp add: merge_found_def collected_def candle_part)
  next
    case (Some k)
    with acc have "candle val k ts" "ts \<noteq> []" by (auto simp: collected_def candle_def)
    with candle_merge [OF L _ u ok] Some \<open>dv_find dict b = Some item\<close> show ?thesis
      by (simp add: merge_found_def collected_def candle_part)
  qed
qed

text \<open>The times \<open>b + i * unit\<close>, for \<open>i\<close> from 0 to \<open>n\<close>, when each kline is that of its \<open>unit\<close> seconds.\<close>

lemma fold_merge_collected:
  assumes L: "mpd_laws D val" and ok: "trades_ok val m n ts" and ordered: "sorted (map tr_sec ts)"
    and unit: "0 \<le> unit" and start: "a \<le> b" and acc: "collected val acc (span_trades a b ts)"
    and found: "\<And>i. i < k \<Longrightarrow> collected val (dv_find dict (b + int i * unit)) (span_trades (b + int i * unit) (b + int (Suc i) * unit) ts)"
  shows "collected val (fold (merge_found D dict) (map (\<lambda>i. b + int i * unit) [0..<k]) acc) (span_trades a (b + int k * unit) ts)"
  using found
proof (induction k)
  case 0
  with acc show ?case by simp
next
  case (Suc k)
  have split: "span_trades a (b + int (Suc k) * unit) ts
      = span_trades a (b + int k * unit) ts @ span_trades (b + int k * unit) (b + int (Suc k) * unit) ts"
    using start unit by (intro span_trades_split [OF ordered]) (auto simp: distrib_right intro: add_increasing2)
  then have "trades_ok val m n (span_trades a (b + int k * unit) ts @ span_trades (b + int k * unit) (b + int (Suc k) * unit) ts)"
    using trades_ok_filter [OF ok] by (metis span_trades_def)
  with merge_found_collected [OF L Suc.IH Suc.prems, of k] Suc.prems split show ?case
    by simp
qed

section \<open>The rows of a chart\<close>

lemma steps_one: "steps 0 n 1 = map int [0..<nat n]"
  by (simp add: steps_def)

text \<open>
  \<open>dict\<close> has, from \<open>a\<close> on, the candle of the \<open>unit\<close> seconds that begin at each multiple of \<open>unit\<close>.
\<close>

definition unit_candles :: "('d \<Rightarrow> rat option) \<Rightarrow> (int, 'd kline_info) dict_view \<Rightarrow> int \<Rightarrow> int \<Rightarrow> 'd trade list \<Rightarrow> bool" where
  "unit_candles val dict unit a ts \<longleftrightarrow>
     (\<forall>b. a \<le> b \<and> b mod unit = 0 \<longrightarrow> collected val (dv_find dict b) (span_trades b (b + unit) ts))"

lemma slot_collected:
  assumes L: "mpd_laws D val" and ok: "trades_ok val m n ts" and ordered: "sorted (map tr_sec ts)"
    and unit: "0 < unit" and u: "unit_candles val dict unit a ts" and b: "a \<le> b" "b mod unit = 0" and k: "0 \<le> k"
  shows "collected val (slot_kline D dict unit k b) (span_trades b (b + k * unit) ts)"
proof -
  have "collected val (dv_find dict (b + int i * unit)) (span_trades (b + int i * unit) (b + int (Suc i) * unit) ts)" for i
  proof -
    have "a \<le> b + int i * unit" using b(1) unit by (simp add: add_increasing2)
    with u b(2) have "collected val (dv_find dict (b + int i * unit)) (span_trades (b + int i * unit) (b + int i * unit + unit) ts)"
      by (simp add: unit_candles_def)
    then show ?thesis by (simp add: algebra_simps)
  qed
  then have "collected val (fold (merge_found D dict) (map (\<lambda>i. b + int i * unit) [0..<nat k]) None) (span_trades b (b + int (nat k) * unit) ts)"
    by (intro fold_merge_collected [OF L ok ordered]) (use unit in \<open>simp_all add: collected_def\<close>)
  then show ?thesis
    using k by (simp add: slot_kline_def steps_one fold_map o_def)
qed

text \<open>The price before a time: the close of the last kline is the price of the last deal.\<close>

definition last_price_is :: "'d kline_info option \<Rightarrow> 'd trade list \<Rightarrow> bool" where
  "last_price_is acc ts \<longleftrightarrow> (case acc of None \<Rightarrow> ts = [] | Some k \<Rightarrow> ts \<noteq> [] \<and> k_close k = tr_price (last ts))"

lemma collected_last_price: "collected val acc ts \<Longrightarrow> last_price_is acc ts"
  by (auto simp: collected_def last_price_is_def candle_def split: option.splits)

lemma get_last_kline_price:
  assumes ordered: "sorted (map tr_sec ts)" and unit: "0 < unit" and u: "unit_candles val dict unit a ts" "a mod unit = 0"
  shows "b mod unit = 0 \<Longrightarrow> a \<le> b + unit \<Longrightarrow> last_price_is (get_last_kline dict b a unit) (span_trades a (b + unit) ts)"
proof (induction "nat (b - a + unit)" arbitrary: b rule: less_induct)
  case less
  show ?case
  proof (cases "a \<le> b")
    case False
    with u(2) less.prems have "a = b + unit"
    proof -
      from False less.prems unit have "0 \<le> b + unit - a" "b + unit - a < unit" by auto
      moreover have "(b + unit - a) mod unit = 0" using u(2) less.prems(1) by (simp add: mod_diff_eq [symmetric])
      ultimately show ?thesis by simp
    qed
    with unit show ?thesis by (simp add: get_last_kline.simps [of dict b] last_price_is_def)
  next
    case True
    with u(1) less.prems have c: "collected val (dv_find dict b) (span_trades b (b + unit) ts)"
      by (simp add: unit_candles_def)
    have split: "span_trades a (b + unit) ts = span_trades a b ts @ span_trades b (b + unit) ts"
      using True unit by (intro span_trades_split [OF ordered]) simp_all
    show ?thesis
    proof (cases "dv_find dict b")
      case None
      with c have "span_trades b (b + unit) ts = []" by (simp add: collected_def)
      moreover have "last_price_is (get_last_kline dict (b - unit) a unit) (span_trades a (b - unit + unit) ts)"
        by (rule less.hyps) (use True unit less.prems in \<open>auto simp: mod_diff_eq [symmetric]\<close>)
      ultimately show ?thesis
        using None True unit split by (simp add: get_last_kline.simps [of dict b])
    next
      case (Some k)
      with c have "candle val k (span_trades b (b + unit) ts)" by (simp add: collected_def)
      with Some True unit split show ?thesis
        by (auto simp: get_last_kline.simps [of dict b] last_price_is_def candle_def)
    qed
  qed
qed

text \<open>
  What a chart should have: a row for every slot from the first deal on; the candle of the slot's
  deals or, where there are none, the last price.
\<close>

definition chart_row :: "'d mpd_lib \<Rightarrow> ('d \<Rightarrow> rat option) \<Rightarrow> int \<Rightarrow> int \<Rightarrow> 'd trade list \<Rightarrow> int \<times> 'd kline_info \<Rightarrow> bool" where
  "chart_row D val a interval ts row \<longleftrightarrow>
     (let (t, k) = row; us = span_trades t (t + interval) ts in
      if us = [] then k = kline_info_new D (tr_price (last (span_trades a t ts))) else candle val k us)"

lemma kline_slots_chart:
  assumes ordered: "sorted (map tr_sec ts)" and interval: "0 < interval"
    and slot: "\<And>t. a \<le> t \<Longrightarrow> t mod unit = 0 \<Longrightarrow> collected val (slot t) (span_trades t (t + interval) ts)"
    and iu: "interval mod unit = 0"
  shows "a \<le> start \<Longrightarrow> start mod unit = 0 \<Longrightarrow> last_price_is klast (span_trades a start ts) \<Longrightarrow>
    map fst (kline_slots D slot klast (steps start stop interval))
      = filter (\<lambda>t. span_trades a (t + interval) ts \<noteq> []) (steps start stop interval)
    \<and> list_all (chart_row D val a interval ts) (kline_slots D slot klast (steps start stop interval))"
proof (induction "nat (stop - start)" arbitrary: start klast rule: less_induct)
  case less
  show ?case
  proof (cases "start < stop")
    case False
    with interval show ?thesis by (simp add: steps_simps [of interval start])
  next
    case True
    let ?us = "span_trades start (start + interval) ts"
    from slot less.prems have c: "collected val (slot start) ?us" by simp
    have split: "span_trades a (start + interval) ts = span_trades a start ts @ ?us"
      using less.prems(1) interval by (intro span_trades_split [OF ordered]) simp_all
    have st: "steps start stop interval = start # steps (start + interval) stop interval"
      using True interval by (simp add: steps_simps [of interval start])
    have next_start: "a \<le> start + interval" "(start + interval) mod unit = 0" "nat (stop - (start + interval)) < nat (stop - start)"
      using less.prems interval True iu by (simp_all add: mod_add_eq [symmetric])
    note IH = less.hyps [OF next_start(3,1,2)]
    show ?thesis
    proof (cases "slot start")
      case (Some k)
      with c have k: "candle val k ?us" "?us \<noteq> []" by (auto simp: collected_def candle_def)
      with split have "last_price_is (Some k) (span_trades a (start + interval) ts)"
        by (simp add: last_price_is_def candle_def)
      from IH [OF this] Some k split st show ?thesis
        by (simp add: chart_row_def)
    next
      case None
      with c have us: "?us = []" by (simp add: collected_def)
      show ?thesis
      proof (cases klast)
        case None
        with less.prems(3) us split have "last_price_is klast (span_trades a (start + interval) ts)" "span_trades a start ts = []"
          by (simp_all add: last_price_is_def)
        with IH [OF this(1)] \<open>slot start = None\<close> None us split st show ?thesis by simp
      next
        case (Some k)
        let ?k = "kline_info_new D (k_close k)"
        from Some less.prems(3) us split have p: "span_trades a start ts \<noteq> []" "k_close k = tr_price (last (span_trades a start ts))"
          "last_price_is (Some ?k) (span_trades a (start + interval) ts)"
          by (simp_all add: last_price_is_def kline_info_new_def)
        from IH [OF p(3)] p(1,2) \<open>slot start = None\<close> Some us split st show ?thesis
          by (simp add: chart_row_def Let_def)
      qed
    qed
  qed
qed

end
