(* ===== verification/Kline_Props.thy ===== *)
theory Kline_Props
  imports Kline_Facts Slice_Props
begin

text \<open>
  Properties of the market data of \<open>marketprice\<close>: the klines a run of deals leaves behind, and the chart
  that is made of them.
\<close>

section \<open>Runs\<close>

text \<open>A deal of a market, handled at a time; the timer that forgets old klines.\<close>

datatype 'd price_event = Deal string "'d trade" rat | Clear int

definition price_event :: "'d mpd_lib \<Rightarrow> text_lib \<Rightarrow> time_lib \<Rightarrow> mp_settings \<Rightarrow> (kline_type \<Rightarrow> u32) \<Rightarrow> 'd price_event
    \<Rightarrow> 'd price_state \<Rightarrow> 'd price_state" where
  "price_event D J T C pads e s =
     (case e of
        Deal market t now \<Rightarrow>
          snd (market_update D J T pads now market (tr_time t) (tr_price t) (tr_amount t) (tr_side t) (tr_id t) s)
      | Clear now \<Rightarrow> clear_kline C now s)"

fun trades_of :: "string \<Rightarrow> 'd price_event list \<Rightarrow> 'd trade list" where
  "trades_of market [] = []"
| "trades_of market (Deal name t now # es) = (if name = market then t # trades_of market es else trades_of market es)"
| "trades_of market (Clear now # es) = trades_of market es"

text \<open>The times that no run of the timer has removed.\<close>

definition kept :: "(int \<Rightarrow> int) \<Rightarrow> 'd price_event list \<Rightarrow> int \<Rightarrow> bool" where
  "kept start es b \<longleftrightarrow> (\<forall>now. Clear now \<in> set es \<longrightarrow> start now \<le> b)"

definition minute :: "int \<Rightarrow> int" where "minute t = t sdiv 60 * 60"
definition hour :: "int \<Rightarrow> int" where "hour t = t sdiv 3600 * 3600"

definition trade_json :: "'d mpd_lib \<Rightarrow> 'd trade \<Rightarrow> json" where
  "trade_json D t = deal_json D (tr_time t) (tr_price t) (tr_amount t) (tr_side t) (tr_id t)"

text \<open>What a market should hold after its deals.\<close>

definition market_candles :: "('d \<Rightarrow> rat option) \<Rightarrow> time_lib \<Rightarrow> mp_settings \<Rightarrow> 'd mp_market_info \<Rightarrow> 'd price_event list \<Rightarrow> 'd trade list \<Rightarrow> bool" where
  "market_candles val T C info es ts \<longleftrightarrow>
     candles val (mi_sec info) (\<lambda>t. t) (kept (sec_start C) es) ts \<and>
     candles val (mi_min info) minute (kept (min_start C) es) ts \<and>
     candles val (mi_hour info) hour (kept (hour_start C) es) ts \<and>
     candles val (mi_day info) (get_day_start T) (\<lambda>_. True) ts"

definition market_shows :: "'d mpd_lib \<Rightarrow> ('d \<Rightarrow> rat option) \<Rightarrow> time_lib \<Rightarrow> mp_settings \<Rightarrow> 'd mp_market_info \<Rightarrow> 'd price_event list \<Rightarrow> 'd trade list \<Rightarrow> bool" where
  "market_shows D val T C info es ts \<longleftrightarrow> market_candles val T C info es ts \<and>
     (ts \<noteq> [] \<longrightarrow> mi_last info = tr_price (last ts)) \<and>
     mi_deals_json info = take MARKET_DEALS_MAX (rev (map (trade_json D) ts))"

lemma trades_of_snoc:
  "trades_of market (es @ [Deal name t now]) = trades_of market es @ (if name = market then [t] else [])"
  "trades_of market (es @ [Clear now']) = trades_of market es"
  by (induction es rule: trades_of.induct) simp_all

lemma kept_snoc: "kept start (es @ [Deal name t now]) = kept start es"
  "kept start (es @ [Clear now']) b \<longleftrightarrow> kept start es b \<and> start now' \<le> b"
  by (auto simp: kept_def)

section \<open>One event\<close>

lemma add_update_frame [simp]:
  "mi_sec (add_update pads info ty b) = mi_sec info" "mi_min (add_update pads info ty b) = mi_min info"
  "mi_hour (add_update pads info ty b) = mi_hour info" "mi_day (add_update pads info ty b) = mi_day info"
  "mi_deals_json (add_update pads info ty b) = mi_deals_json info" "mi_last (add_update pads info ty b) = mi_last info"
  by (simp_all add: add_update_def Let_def split: option.splits)

lemma append_deal_frame [simp]:
  "mi_sec (append_deal D J d info) = mi_sec info" "mi_min (append_deal D J d info) = mi_min info"
  "mi_hour (append_deal D J d info) = mi_hour info" "mi_day (append_deal D J d info) = mi_day info"
  "mi_last (append_deal D J d info) = mi_last info"
  by (simp_all add: append_deal_def Let_def)

lemma append_deal_json:
  "mi_deals_json (append_deal D J d info)
     = (if length (mi_deals_json info) < MARKET_DEALS_MAX then d # mi_deals_json info else butlast (d # mi_deals_json info))"
  by (simp add: append_deal_def Let_def)

lemma take_newest:
  assumes "0 < k" "old = take k xs"
  shows "(if length old < k then x # old else butlast (x # old)) = take k (x # xs)"
proof (cases "length xs < k")
  case True
  with assms show ?thesis by (cases k) simp_all
next
  case False
  with assms have "length old = k" by simp
  moreover from False have "butlast (x # take k xs) = take k (x # xs)"
    using assms(1) by (cases k) (auto simp: butlast_take)
  ultimately show ?thesis using assms(2) by simp
qed

lemma info_update_shows:
  assumes L: "mpd_laws D val" and ok: "trades_ok val m n (ts @ [t])" and old: "market_shows D val T C info es ts"
  shows "market_shows D val T C
    (info_update D J T pads now (tr_time t) (tr_price t) (tr_amount t) (tr_side t) (tr_id t) info) (es @ [Deal name t now]) (ts @ [t])"
proof -
  let ?info = "info_update D J T pads now (tr_time t) (tr_price t) (tr_amount t) (tr_side t) (tr_id t) info"
  let ?upd = "\<lambda>dict b. update_kline D dict b (tr_price t) (tr_amount t)"
  have f: "mi_sec ?info = ?upd (mi_sec info) (tr_sec t)" "mi_min ?info = ?upd (mi_min info) (minute (tr_sec t))"
    "mi_hour ?info = ?upd (mi_hour info) (hour (tr_sec t))" "mi_day ?info = ?upd (mi_day info) (get_day_start T (tr_sec t))"
    "mi_last ?info = tr_price t"
    "mi_deals_json ?info = (if length (mi_deals_json info) < MARKET_DEALS_MAX then trade_json D t # mi_deals_json info
       else butlast (trade_json D t # mi_deals_json info))"
    by (simp_all add: info_update_def Let_def tr_sec_def minute_def hour_def append_deal_json trade_json_def)
  have "mi_deals_json ?info = take MARKET_DEALS_MAX (trade_json D t # rev (map (trade_json D) ts))"
    unfolding f using old by (intro take_newest) (simp_all add: market_shows_def MARKET_DEALS_MAX_def)
  moreover have "market_candles val T C ?info (es @ [Deal name t now]) (ts @ [t])"
    unfolding market_candles_def f kept_snoc
    using old candles_update [OF L _ ok] candles_update [OF L _ ok, where bucket = "\<lambda>t. t"]
    by (simp add: market_shows_def market_candles_def)
  ultimately show ?thesis
    by (simp add: market_shows_def f)
qed

lemma create_market_shows: "market_shows D val T C (fst (create_market D market s)) es []"
  by (simp add: market_shows_def market_candles_def create_market_def Let_def)

lemma clear_shows:
  "market_shows D val T C info es ts \<Longrightarrow>
     market_shows D val T C (info\<lparr>mi_sec := clear_dict (mi_sec info) (sec_start C now), mi_min := clear_dict (mi_min info) (min_start C now),
       mi_hour := clear_dict (mi_hour info) (hour_start C now)\<rparr>) (es @ [Clear now]) ts"
  by (auto simp: market_shows_def market_candles_def kept_snoc
      intro: candles_kept [OF candles_clear])

lemma other_shows: "market_shows D val T C info es ts \<Longrightarrow> market_shows D val T C info (es @ [Deal name t now]) ts"
  by (simp add: market_shows_def market_candles_def kept_snoc)

lemma event_query:
  "market_query (price_event D J T C pads (Deal name t now) s) market
     = (if market = name then Some (info_update D J T pads now (tr_time t) (tr_price t) (tr_amount t) (tr_side t) (tr_id t)
          (case market_query s name of Some info \<Rightarrow> info | None \<Rightarrow> fst (create_market D name s)))
        else market_query s market)"
  "market_query (price_event D J T C pads (Clear now') s) market
     = map_option (\<lambda>info. info\<lparr>mi_sec := clear_dict (mi_sec info) (sec_start C now'), mi_min := clear_dict (mi_min info) (min_start C now'),
         mi_hour := clear_dict (mi_hour info) (hour_start C now')\<rparr>) (market_query s market)"
  by (auto simp: price_event_def market_update_def market_query_def create_market_def dv_add_def Let_def
      clear_kline_def dv_find_map split: option.split)

section \<open>The klines of a market\<close>

text \<open>C17. Whatever deals arrive, for whatever markets, and however often old klines are forgotten: the
  klines of a market are the candles of its deals. For every second, minute and hour that has not been forgotten and every
  day, the market has a kline exactly when there were deals in it, opened by the first of them and
  closed by the last, with the highest and lowest price, the sum of the amounts and of the amounts times
  the prices; its last price is that of the last deal, and its list holds the newest deals, at most 10000. The
  prices and amounts of the deals are numbers, not negative, with a common number of decimals, and their sums
  fit into the 34 digits of the library, so nothing is rounded.\<close>

theorem klines_of_deals:
  assumes L: "mpd_laws D val" and ok: "trades_ok val m n (trades_of market es)"
    and new: "market_query s market = None" and some: "trades_of market es \<noteq> []"
  shows "\<exists>info. market_query (fold (price_event D J T C pads) es s) market = Some info
    \<and> market_shows D val T C info es (trades_of market es)"
proof -
  have "case market_query (fold (price_event D J T C pads) es s) market of
      None \<Rightarrow> trades_of market es = [] | Some info \<Rightarrow> market_shows D val T C info es (trades_of market es)"
    using ok
  proof (induction es rule: rev_induct)
    case Nil
    with new show ?case by simp
  next
    case (snoc e es)
    let ?s = "fold (price_event D J T C pads) es s"
    show ?case
    proof (cases e)
      case (Deal name t now)
      show ?thesis
      proof (cases "name = market")
        case True
        with snoc.prems Deal have ok': "trades_ok val m n (trades_of market es @ [t])" by (simp add: trades_of_snoc)
        then have "trades_ok val m n (trades_of market es)" using trades_ok_append by blast
        note IH = snoc.IH [OF this]
        have "market_shows D val T C (case market_query ?s market of Some info \<Rightarrow> info | None \<Rightarrow> fst (create_market D market ?s))
            es (trades_of market es)"
          using IH by (simp add: create_market_shows split: option.splits)
        from info_update_shows [OF L ok' this] True Deal show ?thesis
          by (simp add: event_query trades_of_snoc)
      next
        case False
        with snoc Deal show ?thesis
          by (auto simp: event_query trades_of_snoc other_shows split: option.splits)
      qed
    next
      case (Clear now)
      with snoc show ?thesis
        by (auto simp: event_query trades_of_snoc clear_shows split: option.splits)
    qed
  qed
  with some show ?thesis by (simp split: option.splits)
qed

text \<open>Three deals of two markets in two minutes, and a run of the timer that forgets nothing.\<close>

definition ex_trade :: "rat \<Rightarrow> int \<Rightarrow> int \<Rightarrow> u64 \<Rightarrow> dec trade" where
  "ex_trade t p a i = \<lparr> tr_time = t, tr_price = Dec p 0, tr_amount = Dec a 0, tr_side = MARKET_ORDER_SIDE_ASK, tr_id = i \<rparr>"

definition ex_settings :: mp_settings where
  "ex_settings = \<lparr> sec_max = 600, min_max = 60, hour_max = 24, timezone = 0, mp_cache_timeout = 1, mp_debug = False \<rparr>"

definition ex_time :: time_lib where
  "ex_time = \<lparr> localtime = (\<lambda>t. (1970, 1, nat (t div 86400) + 1)), mktime = (\<lambda>(y, m, d). int (d - 1) * 86400) \<rparr>"

definition ex_events :: "dec price_event list" where
  "ex_events = [Deal ''BTCUSD'' (ex_trade (61 / 2 + 60) 10 2 1) 90, Deal ''ETHUSD'' (ex_trade 100 1 5 2) 100,
     Deal ''BTCUSD'' (ex_trade 100 12 1 3) 100, Clear 130, Deal ''BTCUSD'' (ex_trade 130 11 4 4) 131]"

lemma ex_trade_ok: "0 \<le> p \<Longrightarrow> 0 \<le> a \<Longrightarrow> trade_ok dec_val 0 0 (ex_trade t p a i)"
  by (simp add: trade_ok_def ex_trade_def tr_val_def amount_val_def)

theorem klines_of_deals_witness:
  "\<exists>info. market_query (fold (price_event dec_lib ex_text ex_time ex_settings (\<lambda>_. 0)) ex_events
      \<lparr> dict_price = [], last_flush = 0, last_offset = 0 \<rparr>) ''BTCUSD'' = Some info
    \<and> mi_last info = Dec 11 0 \<and> length (mi_deals_json info) = 3
    \<and> (\<exists>k. dv_find (mi_min info) 60 = Some k \<and> k_open k = Dec 10 0 \<and> k_close k = Dec 12 0 \<and> dec_val (k_volume k) = Some 3)"
proof -
  have ts: "trades_of ''BTCUSD'' ex_events = [ex_trade (61 / 2 + 60) 10 2 1, ex_trade 100 12 1 3, ex_trade 130 11 4 4]"
    by (simp add: ex_events_def)
  have "trades_ok dec_val 0 0 (trades_of ''BTCUSD'' ex_events)"
    unfolding ts trades_ok_def by (simp add: ex_trade_ok) (simp add: ex_trade_def tr_val_def amount_val_def)
  from klines_of_deals [OF dec_lib_laws this, of "\<lparr> dict_price = [], last_flush = 0, last_offset = 0 \<rparr>" ex_text ex_time ex_settings "\<lambda>_. 0"] ts
  obtain info where q: "market_query (fold (price_event dec_lib ex_text ex_time ex_settings (\<lambda>_. 0)) ex_events
      \<lparr> dict_price = [], last_flush = 0, last_offset = 0 \<rparr>) ''BTCUSD'' = Some info"
    and i: "market_shows dec_lib dec_val ex_time ex_settings info ex_events (trades_of ''BTCUSD'' ex_events)"
    by (auto simp: market_query_def)
  have k: "kept (min_start ex_settings) ex_events 60"
    by (auto simp: kept_def ex_events_def min_start_def ex_settings_def signed_divide_int_def)
  have "\<lfloor>181 / 2 :: rat\<rfloor> = 90" by (simp add: floor_eq_iff)
  then have b: "bucket_trades minute 60 (trades_of ''BTCUSD'' ex_events) = [ex_trade (61 / 2 + 60) 10 2 1, ex_trade 100 12 1 3]"
    by (simp add: ts bucket_trades_def minute_def tr_sec_def time_of_double_def ex_trade_def signed_divide_int_def)
  from i k have "case dv_find (mi_min info) 60 of None \<Rightarrow> bucket_trades minute 60 (trades_of ''BTCUSD'' ex_events) = []
      | Some kl \<Rightarrow> candle dec_val kl (bucket_trades minute 60 (trades_of ''BTCUSD'' ex_events))"
    by (simp add: market_shows_def market_candles_def candles_def)
  then obtain kl where "dv_find (mi_min info) 60 = Some kl"
    "candle dec_val kl [ex_trade (61 / 2 + 60) 10 2 1, ex_trade 100 12 1 3]"
    unfolding b by (simp split: option.splits)
  then have "\<exists>k. dv_find (mi_min info) 60 = Some k \<and> k_open k = Dec 10 0 \<and> k_close k = Dec 12 0 \<and> dec_val (k_volume k) = Some 3"
    by (simp add: candle_def ex_trade_def amount_val_def)
  moreover from i ts have "mi_last info = Dec 11 0" "length (mi_deals_json info) = 3"
    by (simp_all add: market_shows_def ex_trade_def MARKET_DEALS_MAX_def)
  ultimately show ?thesis
    using q by blast
qed

section \<open>Charts\<close>

lemma sdiv_nonneg: "0 \<le> t \<Longrightarrow> 0 < u \<Longrightarrow> (t :: int) sdiv u = t div u"
  by (simp add: signed_divide_int_def sgn_if)

lemma minute_span:
  assumes "\<forall>t \<in> set ts. 0 \<le> tr_sec t" "b mod 60 = 0"
  shows "bucket_trades minute b ts = span_trades b (b + 60) ts"
  unfolding bucket_trades_def span_trades_def
proof (rule filter_cong [OF refl])
  fix t assume "t \<in> set ts"
  with assms(1) have "minute (tr_sec t) = tr_sec t div 60 * 60" by (simp add: minute_def sdiv_nonneg)
  with assms(2) show "(minute (tr_sec t) = b) = (b \<le> tr_sec t \<and> tr_sec t < b + 60)" by presburger
qed

text \<open>C18. The chart of a market by minutes or a multiple of minutes: from the first deal on there is a
  row for every slot of the interval, in order of time; the row of a slot with deals is the candle of exactly its
  deals, merged from the klines of its minutes, and the row of an empty slot repeats the price of the last deal before it,
  with nothing traded. Deals come in the order of their times here, and none of the klines
  from the first slot on has been forgotten.\<close>

theorem minute_chart:
  assumes L: "mpd_laws D val" and ok: "trades_ok val m n ts"
    and ordered: "sorted (map tr_sec ts)" "\<forall>t \<in> set ts. 0 \<le> tr_sec t"
    and market: "market_query s market = Some info" and klines: "candles val (mi_min info) minute (\<lambda>b. a \<le> b) ts"
    and interval: "0 < interval" "interval mod 60 = 0" and times: "0 \<le> start" "0 \<le> now" "0 \<le> min_start C now"
    and first: "first = max start (min_start C now) div interval * interval" and a: "a = min first (min_start C now)"
  shows "\<exists>rows. get_market_kline_min D C now s market start stop interval = Some (kline_json D market rows)
    \<and> map fst rows = filter (\<lambda>t. span_trades a (t + interval) ts \<noteq> []) (steps first (stop + 1) interval)
    \<and> (\<forall>(t, k) \<in> set rows. let us = span_trades t (t + interval) ts in
         if us = [] then k = kline_info_new D (tr_price (last (span_trades a t ts))) else candle val k us)"
proof -
  have ms: "min_start C now mod 60 = 0"
    using times by (simp add: min_start_def sdiv_nonneg mod_diff_eq [symmetric])
  have i60: "interval = interval div 60 * 60" using interval(2) by (simp add: dvd_eq_mod_eq_0 [symmetric])
  have f60: "first mod 60 = 0"
    unfolding first by (metis dvd_eq_mod_eq_0 dvd_mult interval(2))
  then have a60: "a mod 60 = 0" using ms by (simp add: a min_def)
  have u: "unit_candles val (mi_min info) 60 a ts"
    unfolding unit_candles_def
  proof (intro allI impI)
    fix b assume b: "a \<le> b \<and> b mod 60 = 0"
    with klines have "collected val (dv_find (mi_min info) b) (bucket_trades minute b ts)"
      by (simp add: candles_def collected_def)
    then show "collected val (dv_find (mi_min info) b) (span_trades b (b + 60) ts)"
      using minute_span [OF ordered(2) conjunct2 [OF b]] by simp
  qed
  define klast where "klast = get_last_kline (mi_min info) (first - 60) (min_start C now) 60"
  have lp: "last_price_is klast (span_trades a first ts)"
  proof (cases "min_start C now \<le> first")
    case True
    then have "a = min_start C now" by (simp add: a)
    with True u a60 f60 show ?thesis
      unfolding klast_def using get_last_kline_price [OF ordered(1), of 60 val "mi_min info" a "first - 60"]
      by (simp add: mod_diff_eq [symmetric])
  next
    case False
    then have "a = first" "klast = None" by (simp_all add: a klast_def get_last_kline.simps [of _ "first - 60"])
    then show ?thesis by (simp add: last_price_is_def)
  qed
  have sc: "collected val (slot_kline D (mi_min info) 60 (interval div 60) t) (span_trades t (t + interval) ts)"
    if "a \<le> t" "t mod 60 = 0" for t
    using slot_collected [OF L ok ordered(1) _ u that, of "interval div 60"] interval i60 by simp
  have af: "a \<le> first" by (simp add: a)
  have rows: "map fst (kline_slots D (slot_kline D (mi_min info) 60 (interval div 60)) klast (steps first (stop + 1) interval))
      = filter (\<lambda>t. span_trades a (t + interval) ts \<noteq> []) (steps first (stop + 1) interval)
    \<and> list_all (chart_row D val a interval ts)
      (kline_slots D (slot_kline D (mi_min info) 60 (interval div 60)) klast (steps first (stop + 1) interval))"
    by (rule kline_slots_chart [OF ordered(1) interval(1) _ interval(2) af f60 lp]) (rule sc)
  have "(if start < min_start C now then min_start C now else start) = max start (min_start C now)"
    by (simp add: max_def)
  then have "min_rows D C now info start stop interval
      = kline_slots D (slot_kline D (mi_min info) 60 (interval div 60)) klast (steps first (stop + 1) interval)"
    using times interval(1) by (simp add: min_rows_def Let_def klast_def first sdiv_nonneg)
  with rows market show ?thesis
    by (intro exI [of _ "min_rows D C now info start stop interval"])
      (auto simp: get_market_kline_min_def list_all_iff chart_row_def)
qed

text \<open>The chart by two minutes of three deals in two slots, until the third slot.\<close>

definition ex_chart_trades :: "dec trade list" where
  "ex_chart_trades = [ex_trade 3690 10 2 1, ex_trade 3700 12 1 3, ex_trade 3730 11 4 4]"

definition ex_chart_info :: "dec mp_market_info" where
  "ex_chart_info = \<lparr> mi_name = ''BTCUSD'', mi_last = Dec 11 0, mi_sec = [],
     mi_min = fold (\<lambda>t d. update_kline dec_lib d (minute (tr_sec t)) (tr_price t) (tr_amount t)) ex_chart_trades [],
     mi_hour = [], mi_day = [], mi_update = [], mi_deals = [], mi_deals_json = [], mi_update_time = 0 \<rparr>"

lemma candles_fold:
  assumes L: "mpd_laws D val"
  shows "trades_ok val m n ts \<Longrightarrow>
    candles val (fold (\<lambda>t d. update_kline D d (bucket (tr_sec t)) (tr_price t) (tr_amount t)) ts []) bucket P ts"
proof (induction ts rule: rev_induct)
  case (snoc t ts)
  then have "candles val (fold (\<lambda>t d. update_kline D d (bucket (tr_sec t)) (tr_price t) (tr_amount t)) ts []) bucket P ts"
    using trades_ok_append by blast
  from candles_update [OF L this snoc.prems] show ?case by simp
qed simp

theorem minute_chart_witness:
  "\<exists>rows. get_market_kline_min dec_lib ex_settings 7200
      \<lparr> dict_price = [(''BTCUSD'', ex_chart_info)], last_flush = 0, last_offset = 0 \<rparr> ''BTCUSD'' 3600 3900 120
      = Some (kline_json dec_lib ''BTCUSD'' rows)
    \<and> map fst rows = [3600, 3720, 3840] \<and> (\<forall>k. (3840, k) \<in> set rows \<longrightarrow> k = kline_info_new dec_lib (Dec 11 0))"
proof -
  let ?s = "\<lparr> dict_price = [(''BTCUSD'', ex_chart_info)], last_flush = 0, last_offset = 0 \<rparr>"
  have secs: "map tr_sec ex_chart_trades = [3690, 3700, 3730]"
    by (simp add: ex_chart_trades_def ex_trade_def tr_sec_def time_of_double_def)
  have ok: "trades_ok dec_val 0 0 ex_chart_trades"
    unfolding trades_ok_def ex_chart_trades_def by (simp add: ex_trade_ok) (simp add: ex_trade_def tr_val_def amount_val_def)
  have nonneg: "\<forall>t \<in> set ex_chart_trades. 0 \<le> tr_sec t"
    by (simp add: ex_chart_trades_def ex_trade_def tr_sec_def time_of_double_def)
  have c: "candles dec_val (mi_min ex_chart_info) minute (\<lambda>b. 3600 \<le> b) ex_chart_trades"
    using candles_fold [OF dec_lib_laws ok] by (simp add: ex_chart_info_def)
  have ms: "min_start ex_settings 7200 = 3600"
    by (simp add: min_start_def ex_settings_def sdiv_nonneg)
  have "market_query ?s ''BTCUSD'' = Some ex_chart_info" by (simp add: market_query_def)
  from minute_chart [OF dec_lib_laws ok _ nonneg this c, of 120 3600 7200 ex_settings 3600 3900] secs ms
  obtain rows where r: "get_market_kline_min dec_lib ex_settings 7200 ?s ''BTCUSD'' 3600 3900 120 = Some (kline_json dec_lib ''BTCUSD'' rows)"
    "map fst rows = filter (\<lambda>t. span_trades 3600 (t + 120) ex_chart_trades \<noteq> []) (steps 3600 (3900 + 1) 120)"
    "\<forall>(t, k) \<in> set rows. let us = span_trades t (t + 120) ex_chart_trades in
         if us = [] then k = kline_info_new dec_lib (tr_price (last (span_trades 3600 t ex_chart_trades))) else candle dec_val k us"
    by auto
  have "map fst rows = [3600, 3720, 3840]"
    using r(2) by (simp add: steps_simps [of 120] span_trades_def ex_chart_trades_def ex_trade_def tr_sec_def time_of_double_def)
  moreover have "k = kline_info_new dec_lib (Dec 11 0)" if "(3840, k) \<in> set rows" for k
    using r(3) that
    by (auto simp: span_trades_def ex_chart_trades_def ex_trade_def tr_sec_def time_of_double_def)
  ultimately show ?thesis
    by (intro exI [of _ rows] conjI allI impI r(1))
qed

section \<open>From the engine to the market data\<close>

text \<open>C26. A deal the engine reports is the deal the market data counts: reading the message that
  \<open>push_deal_message\<close> makes, \<open>on_deals_message\<close> finds every field where it looks for it and updates
  the market by a price and an amount of the same value, with the time, the side and the id of the deal, and the offset
  advances. Writing and reading a JSON array, and writing and reading these two decimals, give back what was written.\<close>

theorem deal_message_understood:
  assumes message: "reports (push_deal_message D t market ask bid price amount ask_fee bid_fee side i stock money e) = reports e @ [Message TopicDeals msg]"
    and written: "json_dumps J msg = Some text" "json_loadb J text = Some msg"
    and decimals: "denotes D val (mpd_to_sci D price) p" "denotes D val (mpd_to_sci D amount) a"
    and deal: "t \<noteq> 0" "side = MARKET_ORDER_SIDE_ASK \<or> side = MARKET_ORDER_SIDE_BID" "i \<noteq> 0"
  shows "\<exists>price' amount'. val price' = Some p \<and> val amount' = Some a
    \<and> on_deals_message D J T pads now text offset s
        = (snd (market_update D J T pads now market t price' amount' side i s))\<lparr>last_offset := offset\<rparr>"
proof -
  from message have msg: "msg = JArray [JReal t, JString market, json_u64 (o_id ask), json_u64 (o_id bid), json_u32 (o_user_id ask),
      json_u32 (o_user_id bid), JString (mpd_to_sci D price), JString (mpd_to_sci D amount), JString (mpd_to_sci D ask_fee),
      JString (mpd_to_sci D bid_fee), json_u32 side, json_u64 i, JString stock, JString money]"
    by (simp add: push_deal_message_def report_def json_array_append_mpd_def Let_def)
  from decimals obtain price' amount' where v: "decimal D (mpd_to_sci D price) 0 = Some price'" "val price' = Some p"
    "decimal D (mpd_to_sci D amount) 0 = Some amount'" "val amount' = Some a"
    by (fastforce simp: denotes_def decimal_def)
  have nums: "number_at D msg 6 = Some price'" "number_at D msg 7 = Some amount'"
    by (simp_all add: msg number_at_def v)
  have ints: "word_of_int (json_integer_value (json_array_get msg 10)) = side" "word_of_int (json_integer_value (json_array_get msg 11)) = i"
    by (simp_all add: msg json_u32_def json_u64_def)
  obtain s' where u: "market_update D J T pads now market t price' amount' side i s = (0, s')"
    by (cases "market_update D J T pads now market t price' amount' side i s") (auto simp: market_update_def Let_def split: option.splits prod.splits)
  have f: "json_array_size msg = 14" "json_array_get msg 0 = Some (JReal t)" "json_array_get msg (Suc 0) = Some (JString market)"
    "json_is_array (Some msg)"
    by (simp_all add: msg)
  have "on_deals_message D J T pads now text offset s = s'\<lparr>last_offset := offset\<rparr>"
    using deal by (auto simp: on_deals_message_def written(2) f nums ints u Let_def)
  with u v(2,4) show ?thesis
    by (intro exI [of _ price'] exI [of _ amount']) simp
qed

theorem deal_message_understood_witness:
  "\<exists>text price' amount'. json_dumps ex_text (JArray [JReal 90, JString ''BTCUSD'', json_u64 2, json_u64 1, json_u32 1, json_u32 2, JString ''10'',
        JString ''3'', JString ''0'', JString ''0'', json_u32 MARKET_ORDER_SIDE_ASK, json_u64 5, JString ''BTC'', JString ''USD'']) = Some text
    \<and> dec_val price' = Some 10 \<and> dec_val amount' = Some 3
    \<and> on_deals_message dec_lib ex_text ex_time (\<lambda>_. 0) 91 text 17 \<lparr> dict_price = [], last_flush = 0, last_offset = 0 \<rparr>
      = (snd (market_update dec_lib ex_text ex_time (\<lambda>_. 0) 91 ''BTCUSD'' 90 price' amount' MARKET_ORDER_SIDE_ASK 5
          \<lparr> dict_price = [], last_flush = 0, last_offset = 0 \<rparr>))\<lparr>last_offset := 17\<rparr>"
proof -
  let ?msg = "JArray [JReal 90, JString ''BTCUSD'', json_u64 2, json_u64 1, json_u32 1, json_u32 2, JString ''10'',
    JString ''3'', JString ''0'', JString ''0'', json_u32 MARKET_ORDER_SIDE_ASK, json_u64 5, JString ''BTC'', JString ''USD'']"
  have str: "dec_to_sci (Dec 10 0) = ''10''" "dec_to_sci (Dec 3 0) = ''3''" "dec_to_sci (Dec 0 0) = ''0''"
    by (simp_all add: sci_digits_def nat_digits.simps Let_def)
  have "reports (push_deal_message dec_lib 90 ''BTCUSD'' ex_ask ex_bid (Dec 10 0) (Dec 3 0) (Dec 0 0) (Dec 0 0) MARKET_ORDER_SIDE_ASK 5
      ''BTC'' ''USD'' ex_state) = reports ex_state @ [Message TopicDeals ?msg]"
    by (simp add: push_deal_message_def report_def json_array_append_mpd_def Let_def dec_ops str ex_ask_def ex_bid_def
        del: dec_to_sci.simps)
  moreover have dumps: "json_dumps ex_text ?msg = Some (nat_digits (to_nat ?msg))" "json_loadb ex_text (nat_digits (to_nat ?msg)) = Some ?msg"
    by (simp_all add: ex_text_def digits_value_digits)
  moreover have "denotes dec_lib dec_val (mpd_to_sci dec_lib (Dec 10 0)) 10" "denotes dec_lib dec_val (mpd_to_sci dec_lib (Dec 3 0)) 3"
    using ex_denotes [OF ex_strings(1)] ex_denotes [OF ex_strings(2)] by simp_all
  ultimately show ?thesis
    using deal_message_understood [of dec_lib 90 "''BTCUSD''" ex_ask ex_bid "Dec 10 0" "Dec 3 0" "Dec 0 0" "Dec 0 0" MARKET_ORDER_SIDE_ASK 5
      "''BTC''" "''USD''" ex_state ?msg ex_text "nat_digits (to_nat ?msg)" dec_val 10 3 ex_time "\<lambda>_. 0" 91 17
      "\<lparr> dict_price = [], last_flush = 0, last_offset = 0 \<rparr>"]
    by auto
qed

end
