(* ===== verification/Kline_Store.thy ===== *)
theory Kline_Store
  imports Kline
begin

text \<open>
  The market data in redis (\<open>mp_message.c\<close>): loading it at the start, flushing what has changed every
  ten seconds, and removing old klines from it. Redis is a parameter: whether a connection to the
  master can be made, and what a command (its arguments as a list) gives, \<open>None\<close> for a \<open>NULL\<close> reply.
\<close>

section \<open>Redis\<close>

datatype redis_reply = RedisString string | RedisArray "string list" | RedisOther

record 'r redis_lib =
  redis_connect :: "'r \<Rightarrow> bool"
  redisCmd :: "string list \<Rightarrow> 'r \<Rightarrow> redis_reply option \<times> 'r"

text \<open>The elements of a reply; a reply that is no array has none.\<close>

fun reply_elements :: "redis_reply \<Rightarrow> string list" where
  "reply_elements (RedisArray xs) = xs"
| "reply_elements _ = []"

text \<open>\<open>strtol\<close> with base 0, in the 64 bits of a \<open>long\<close>: blanks, a sign, the prefix of the base, the digits.\<close>

definition base_digit :: "nat \<Rightarrow> char \<Rightarrow> nat option" where
  "base_digit base c =
     (let v = of_char c :: nat;
          d = (if 48 \<le> v \<and> v \<le> 57 then Some (v - 48) else if 97 \<le> v \<and> v \<le> 122 then Some (v - 87)
               else if 65 \<le> v \<and> v \<le> 90 then Some (v - 55) else None) in
      case d of Some d \<Rightarrow> if d < base then Some d else None | None \<Rightarrow> None)"

fun base_value :: "nat \<Rightarrow> nat \<Rightarrow> string \<Rightarrow> nat" where
  "base_value base acc [] = acc"
| "base_value base acc (c # cs) = (case base_digit base c of None \<Rightarrow> acc | Some d \<Rightarrow> base_value base (base * acc + d) cs)"

definition strtol :: "string \<Rightarrow> int" where
  "strtol str =
     (let body = dropWhile (\<lambda>c. c = CHR '' '' \<or> (9 \<le> (of_char c :: nat) \<and> (of_char c :: nat) \<le> 13)) str;
          neg = (body \<noteq> [] \<and> hd body = CHR ''-'');
          body = (if body \<noteq> [] \<and> (hd body = CHR ''-'' \<or> hd body = CHR ''+'') then tl body else body);
          n = (if length body > 2 \<and> hd body = CHR ''0'' \<and> body ! 1 \<in> {CHR ''x'', CHR ''X''} \<and> base_digit 16 (body ! 2) \<noteq> None
               then base_value 16 0 (drop 2 body)
               else if body \<noteq> [] \<and> hd body = CHR ''0'' then base_value 8 0 body
               else base_value 10 0 body) in
      max (- (2 ^ 63)) (min (2 ^ 63 - 1) (if neg then - int n else int n)))"

section \<open>Loading\<close>

text \<open>Field and value alternate; a value that cannot be read is left out.\<close>

fun add_klines :: "'d mpd_lib \<Rightarrow> text_lib \<Rightarrow> int \<Rightarrow> string list \<Rightarrow> (int, 'd kline_info) dict_view \<Rightarrow> (int, 'd kline_info) dict_view" where
  "add_klines D J start (field # val_str # rest) dict =
     (let timestamp = strtol field in
      add_klines D J start rest
        (if start \<noteq> 0 \<and> timestamp < start then dict
         else case kline_from_str D J val_str of
           None \<Rightarrow> dict
         | Some info \<Rightarrow> (case dv_add timestamp info dict of None \<Rightarrow> dict | Some d \<Rightarrow> d)))"
| "add_klines D J start _ dict = dict"

definition load_market_kline :: "'d mpd_lib \<Rightarrow> text_lib \<Rightarrow> 'r redis_lib \<Rightarrow> string \<Rightarrow> (int, 'd kline_info) dict_view \<Rightarrow> int \<Rightarrow> 'r
    \<Rightarrow> (int \<times> (int, 'd kline_info) dict_view) \<times> 'r" where
  "load_market_kline D J R key dict start r =
     (case redisCmd R [''HGETALL'', key] r of
        (None, r) \<Rightarrow> ((- 125, dict), r)
      | (Some reply, r) \<Rightarrow> ((0, add_klines D J start (reply_elements reply) dict), r))"

fun load_deals_json :: "text_lib \<Rightarrow> string list \<Rightarrow> json list \<Rightarrow> int \<times> json list" where
  "load_deals_json J [] deals = (0, deals)"
| "load_deals_json J (str # strs) deals =
     (case json_loadb J str of None \<Rightarrow> (- 151, deals) | Some deal \<Rightarrow> load_deals_json J strs (deals @ [deal]))"

definition load_market_deals :: "text_lib \<Rightarrow> 'r redis_lib \<Rightarrow> string \<Rightarrow> 'd mp_market_info \<Rightarrow> 'r \<Rightarrow> (int \<times> 'd mp_market_info) \<times> 'r" where
  "load_market_deals J R key info r =
     (case redisCmd R [''LRANGE'', key, ''0'', nat_digits (MARKET_DEALS_MAX - 1)] r of
        (None, r) \<Rightarrow> ((- 145, info), r)
      | (Some reply, r) \<Rightarrow>
          let (ret, deals) = load_deals_json J (reply_elements reply) (mi_deals_json info) in
          ((ret, info\<lparr>mi_deals_json := deals\<rparr>), r))"

definition redis_key :: "string \<Rightarrow> string \<Rightarrow> string" where
  "redis_key name suffix = ''k:'' @ name @ suffix"

definition load_market_last :: "'d mpd_lib \<Rightarrow> 'r redis_lib \<Rightarrow> 'd mp_market_info \<Rightarrow> 'r \<Rightarrow> (int \<times> 'd mp_market_info) \<times> 'r" where
  "load_market_last D R info r =
     (case redisCmd R [''GET'', redis_key (mi_name info) '':last''] r of
        (None, r) \<Rightarrow> ((- 164, info), r)
      | (Some (RedisString str), r) \<Rightarrow>
          (case decimal D str 0 of None \<Rightarrow> ((- 170, info), r) | Some la \<Rightarrow> ((0, info\<lparr>mi_last := la\<rparr>), r))
      | (Some _, r) \<Rightarrow> ((0, info), r))"

definition mp_load_market :: "'d mpd_lib \<Rightarrow> text_lib \<Rightarrow> 'r redis_lib \<Rightarrow> mp_settings \<Rightarrow> int \<Rightarrow> 'd mp_market_info \<Rightarrow> 'r
    \<Rightarrow> (int \<times> 'd mp_market_info) \<times> 'r" where
  "mp_load_market D J R C now info r =
     (let ((ret, dict), r) = load_market_kline D J R (redis_key (mi_name info) '':1s'') (mi_sec info) (sec_start C now) r;
          info = info\<lparr>mi_sec := dict\<rparr> in
      if ret < 0 then ((ret, info), r)
      else
        let ((ret, dict), r) = load_market_kline D J R (redis_key (mi_name info) '':1m'') (mi_min info) (min_start C now) r;
            info = info\<lparr>mi_min := dict\<rparr> in
        if ret < 0 then ((ret, info), r)
        else
          let ((ret, dict), r) = load_market_kline D J R (redis_key (mi_name info) '':1h'') (mi_hour info) (hour_start C now) r;
              info = info\<lparr>mi_hour := dict\<rparr> in
          if ret < 0 then ((ret, info), r)
          else
            let ((ret, dict), r) = load_market_kline D J R (redis_key (mi_name info) '':1d'') (mi_day info) 0 r;
                info = info\<lparr>mi_day := dict\<rparr> in
            if ret < 0 then ((ret, info), r)
            else
              let ((ret, info), r) = load_market_deals J R (redis_key (mi_name info) '':deals'') info r in
              if ret < 0 then ((ret, info), r)
              else
                let ((ret, info), r) = load_market_last D R info r in
                if ret < 0 then ((ret, info), r) else ((0, info), r))"

text \<open>
  The markets the engine lists, as \<open>send_market_list_req\<close> gets them. \<open>None\<close>: \<open>strdup\<close> of a name that is
  missing.
\<close>

fun init_market_rows :: "'d mpd_lib \<Rightarrow> text_lib \<Rightarrow> 'r redis_lib \<Rightarrow> mp_settings \<Rightarrow> int \<Rightarrow> json list \<Rightarrow> ('d, 'z) price_state_scheme \<Rightarrow> 'r
    \<Rightarrow> ((int \<times> ('d, 'z) price_state_scheme) \<times> 'r) option" where
  "init_market_rows D J R C now [] s r = Some ((0, s), r)"
| "init_market_rows D J R C now (item # items) s r =
     (case json_string_value (json_object_get item ''name'') of
        None \<Rightarrow> None
      | Some name \<Rightarrow>
          let (info, s) = create_market D name s;
              ((ret, info), r) = mp_load_market D J R C now info r;
              s = s\<lparr>dict_price := dv_put name info (dict_price s)\<rparr> in
          if ret < 0 then Some ((- 379, s), r) else init_market_rows D J R C now items s r)"

definition init_market :: "'d mpd_lib \<Rightarrow> text_lib \<Rightarrow> 'r redis_lib \<Rightarrow> mp_settings \<Rightarrow> int \<Rightarrow> json option \<Rightarrow> ('d, 'z) price_state_scheme \<Rightarrow> 'r
    \<Rightarrow> ((int \<times> ('d, 'z) price_state_scheme) \<times> 'r) option" where
  "init_market D J R C now market_list s r =
     (let s = s\<lparr>dict_price := []\<rparr> in
      if \<not> redis_connect R r then Some ((- 356, s), r)
      else case market_list of
        None \<Rightarrow> Some ((- 361, s), r)
      | Some (JArray items) \<Rightarrow> init_market_rows D J R C now items s r
      | Some _ \<Rightarrow> Some ((0, s), r))"

definition get_message_offset :: "'r redis_lib \<Rightarrow> 'r \<Rightarrow> int \<times> 'r" where
  "get_message_offset R r =
     (if \<not> redis_connect R r then (- 860, r)
      else case redisCmd R [''GET'', ''k:offset''] r of
        (None, r) \<Rightarrow> (- 864, r)
      | (Some (RedisString str), r) \<Rightarrow> (strtol str, r)
      | (Some _, r) \<Rightarrow> (0, r))"

section \<open>Flushing\<close>

text \<open>\<open>None\<close>: \<open>strlen\<close> of a \<open>NULL\<close> text.\<close>

definition flush_deals :: "'r redis_lib \<Rightarrow> string \<Rightarrow> string option list \<Rightarrow> 'r \<Rightarrow> ((int \<times> string option list) \<times> 'r) option" where
  "flush_deals R market deals r =
     (if None \<in> set deals then None
      else case redisCmd R (''LPUSH'' # redis_key market '':deals'' # map the deals) r of
        (None, r) \<Rightarrow> Some ((- 612, deals), r)
      | (Some _, r) \<Rightarrow>
          Some ((0, []), snd (redisCmd R [''LTRIM'', redis_key market '':deals'', ''0'', nat_digits (MARKET_DEALS_MAX - 1)] r)))"

definition kline_of_key :: "'d mp_market_info \<Rightarrow> kline_type \<Rightarrow> string \<times> (int, 'd kline_info) dict_view" where
  "kline_of_key info type =
     (case type of
        KLINE_SEC \<Rightarrow> (redis_key (mi_name info) '':1s'', mi_sec info)
      | KLINE_MIN \<Rightarrow> (redis_key (mi_name info) '':1m'', mi_min info)
      | KLINE_HOUR \<Rightarrow> (redis_key (mi_name info) '':1h'', mi_hour info)
      | KLINE_DAY \<Rightarrow> (redis_key (mi_name info) '':1d'', mi_day info))"

definition flush_kline :: "'d mpd_lib \<Rightarrow> text_lib \<Rightarrow> 'r redis_lib \<Rightarrow> 'd mp_market_info \<Rightarrow> mp_update_key \<Rightarrow> 'r \<Rightarrow> int \<times> 'r" where
  "flush_kline D J R info ukey r =
     (let (key, dict) = kline_of_key info (mk_kline_type ukey) in
      case kline_query dict (mk_timestamp ukey) of
        None \<Rightarrow> (- 647, r)
      | Some kinfo \<Rightarrow>
          (case kline_to_str D J kinfo of
             None \<Rightarrow> (- 653, r)
           | Some str \<Rightarrow>
               (case redisCmd R [''HSET'', key, int_digits (mk_timestamp ukey), str] r of
                  (None, r) \<Rightarrow> (- 660, r)
                | (Some _, r) \<Rightarrow> (0, r))))"

definition flush_offset :: "'r redis_lib \<Rightarrow> int \<Rightarrow> 'r \<Rightarrow> int \<times> 'r" where
  "flush_offset R offset r =
     (case redisCmd R [''SET'', ''k:offset'', int_digits offset] r of (None, r) \<Rightarrow> (- 673, r) | (Some _, r) \<Rightarrow> (0, r))"

definition flush_last :: "'d mpd_lib \<Rightarrow> 'r redis_lib \<Rightarrow> string \<Rightarrow> 'd \<Rightarrow> 'r \<Rightarrow> int \<times> 'r" where
  "flush_last D R market la r =
     (case redisCmd R [''SET'', redis_key market '':last'', mpd_to_sci D la] r of (None, r) \<Rightarrow> (- 688, r) | (Some _, r) \<Rightarrow> (0, r))"

text \<open>An entry is deleted whether its kline could be written or not.\<close>

fun flush_keys :: "'d mpd_lib \<Rightarrow> text_lib \<Rightarrow> 'r redis_lib \<Rightarrow> 'd mp_market_info \<Rightarrow> (mp_update_key \<times> unit) list \<Rightarrow> 'r \<Rightarrow> 'd mp_market_info \<times> 'r" where
  "flush_keys D J R info [] r = (info, r)"
| "flush_keys D J R info ((key, _) # entries) r =
     (let (ret, r) = flush_kline D J R info key r in
      flush_keys D J R (info\<lparr>mi_update := dv_delete key (mi_update info)\<rparr>) entries r)"

definition flush_update :: "'d mpd_lib \<Rightarrow> text_lib \<Rightarrow> 'r redis_lib \<Rightarrow> 'd mp_market_info \<Rightarrow> 'r \<Rightarrow> (int \<times> 'd mp_market_info) \<times> 'r" where
  "flush_update D J R info r = (let (info, r) = flush_keys D J R info (mi_update info) r in ((0, info), r))"

definition flush_info :: "'d mpd_lib \<Rightarrow> text_lib \<Rightarrow> 'r redis_lib \<Rightarrow> 'd mp_market_info \<Rightarrow> 'r \<Rightarrow> ((int \<times> 'd mp_market_info) \<times> 'r) option" where
  "flush_info D J R info r =
     (let ((ret, info), r) = flush_update D J R info r in
      if ret < 0 then Some ((ret, info), r)
      else
        let (ret, r) = flush_last D R (mi_name info) (mi_last info) r in
        if ret < 0 then Some ((ret, info), r)
        else if length (mi_deals info) = 0 then Some ((0, info), r)
        else case flush_deals R (mi_name info) (mi_deals info) r of
          None \<Rightarrow> None
        | Some ((ret, deals), r) \<Rightarrow> Some ((ret, info\<lparr>mi_deals := deals\<rparr>), r))"

fun flush_markets :: "'d mpd_lib \<Rightarrow> text_lib \<Rightarrow> 'r redis_lib \<Rightarrow> rat \<Rightarrow> (string \<times> 'd mp_market_info) list \<Rightarrow> 'r
    \<Rightarrow> ((int \<times> (string \<times> 'd mp_market_info) list) \<times> 'r) option" where
  "flush_markets D J R flushed [] r = Some ((0, []), r)"
| "flush_markets D J R flushed ((name, info) # entries) r =
     (if mi_update_time info < flushed then
        map_option (\<lambda>((ret, done_entries), r). ((ret, (name, info) # done_entries), r)) (flush_markets D J R flushed entries r)
      else case flush_info D J R info r of
        None \<Rightarrow> None
      | Some ((ret, info), r) \<Rightarrow>
          if ret < 0 then Some ((ret, (name, info) # entries), r)
          else map_option (\<lambda>((ret, done_entries), r). ((ret, (name, info) # done_entries), r)) (flush_markets D J R flushed entries r))"

definition flush_market :: "'d mpd_lib \<Rightarrow> text_lib \<Rightarrow> 'r redis_lib \<Rightarrow> rat \<Rightarrow> ('d, 'z) price_state_scheme \<Rightarrow> 'r
    \<Rightarrow> ((int \<times> ('d, 'z) price_state_scheme) \<times> 'r) option" where
  "flush_market D J R now s r =
     (if \<not> redis_connect R r then Some ((- 717, s), r)
      else case flush_markets D J R (last_flush s) (dict_price s) r of
        None \<Rightarrow> None
      | Some ((ret, entries), r) \<Rightarrow>
          let s = s\<lparr>dict_price := entries\<rparr> in
          if ret < 0 then Some ((ret, s), r)
          else
            let (ret, r) = flush_offset R (last_offset s) r in
            if ret < 0 then Some ((- 752, s), r) else Some ((0, s\<lparr>last_flush := now\<rparr>), r))"

section \<open>Removing old klines\<close>

fun delete_fields :: "'r redis_lib \<Rightarrow> string \<Rightarrow> int \<Rightarrow> string list \<Rightarrow> 'r \<Rightarrow> int \<times> 'r" where
  "delete_fields R key stop (field # val_str # rest) r =
     (let timestamp = strtol field in
      if timestamp \<ge> stop then delete_fields R key stop rest r
      else case redisCmd R [''HDEL'', key, int_digits timestamp] r of
        (None, r) \<Rightarrow> (- 812, r)
      | (Some _, r) \<Rightarrow> delete_fields R key stop rest r)"
| "delete_fields R key stop _ r = (0, r)"

definition clear_key :: "'r redis_lib \<Rightarrow> string \<Rightarrow> int \<Rightarrow> 'r \<Rightarrow> int \<times> 'r" where
  "clear_key R key stop r =
     (case redisCmd R [''HGETALL'', key] r of
        (None, r) \<Rightarrow> (- 805, r)
      | (Some reply, r) \<Rightarrow> delete_fields R key stop (reply_elements reply) r)"

definition clear_redis_market :: "'r redis_lib \<Rightarrow> mp_settings \<Rightarrow> int \<Rightarrow> string \<Rightarrow> 'r \<Rightarrow> 'r" where
  "clear_redis_market R C now name r =
     (let (_, r) = clear_key R (redis_key name '':1s'') (sec_start C now) r;
          (_, r) = clear_key R (redis_key name '':1m'') (min_start C now) r;
          (_, r) = clear_key R (redis_key name '':1h'') (hour_start C now) r in
      r)"

definition clear_redis :: "'r redis_lib \<Rightarrow> mp_settings \<Rightarrow> int \<Rightarrow> ('d, 'z) price_state_scheme \<Rightarrow> 'r \<Rightarrow> int \<times> 'r" where
  "clear_redis R C now s r =
     (if \<not> redis_connect R r then (1, r)
      else (0, fold (\<lambda>(_, info). clear_redis_market R C now (mi_name info)) (dict_price s) r))"

section \<open>The start and the timers\<close>

text \<open>
  \<open>init_message\<close>, with what it starts from: whether the redis and Kafka clients can be created. On
  success the offset from which the deals are read is returned too.
\<close>

definition init_message :: "'d mpd_lib \<Rightarrow> text_lib \<Rightarrow> 'r redis_lib \<Rightarrow> mp_settings \<Rightarrow> int \<Rightarrow> json option \<Rightarrow> bool \<Rightarrow> (int \<Rightarrow> bool)
    \<Rightarrow> ('d, 'z) price_state_scheme \<Rightarrow> 'r \<Rightarrow> ((int \<times> int option \<times> ('d, 'z) price_state_scheme) \<times> 'r) option" where
  "init_message D J R C now market_list redis_created consumer_created s r =
     (if \<not> redis_created then Some ((- 881, None, s), r)
      else case init_market D J R C now market_list s r of
        None \<Rightarrow> None
      | Some ((ret, s), r) \<Rightarrow>
          if ret < 0 then Some ((ret, None, s), r)
          else
            let (offset, r) = get_message_offset R r; s = s\<lparr>last_offset := offset\<rparr> in
            if last_offset s < 0 then Some ((- 888, None, s), r)
            else if \<not> consumer_created (last_offset s + 1) then Some ((- 893, None, s), r)
            else Some ((0, Some (last_offset s + 1), s), r))"

text \<open>Every ten seconds, every hour and, in a child process, every day. What the first returns is only logged.\<close>

definition on_market_timer :: "'d mpd_lib \<Rightarrow> text_lib \<Rightarrow> 'r redis_lib \<Rightarrow> rat \<Rightarrow> ('d, 'z) price_state_scheme \<Rightarrow> 'r
    \<Rightarrow> (('d, 'z) price_state_scheme \<times> 'r) option" where
  "on_market_timer D J R now s r = map_option (\<lambda>((ret, s), r). (s, r)) (flush_market D J R now s r)"

definition on_clear_timer :: "mp_settings \<Rightarrow> int \<Rightarrow> ('d, 'z) price_state_scheme \<Rightarrow> ('d, 'z) price_state_scheme" where
  "on_clear_timer C now s = clear_kline C now s"

definition on_redis_timer :: "'r redis_lib \<Rightarrow> mp_settings \<Rightarrow> int \<Rightarrow> ('d, 'z) price_state_scheme \<Rightarrow> 'r \<Rightarrow> 'r" where
  "on_redis_timer R C now s r = snd (clear_redis R C now s r)"

end
