(* ===== verification/Price_Server.thy ===== *)
theory Price_Server
  imports Kline_Query Kline_Store Server
begin

text \<open>
  \<open>marketprice/mp_server.c\<close>: the commands of the market data server, and the start of its state in
  \<open>init_message\<close>. A handler returns its result code and the new state, or \<open>None\<close> when it does not
  return. The names of functions the engine's server has too begin with \<open>mp_\<close>. Replies are built
  as the engine builds them, so \<open>error_json\<close>, \<open>result_json\<close> and \<open>cache_key\<close> are shared.
\<close>

section \<open>State\<close>

record 'd mp_server_state = "'d price_state" +
  mp_cache :: "(string, cache_val) dict_view"
  mp_sent :: "(nat \<times> byte list) list"
  mp_closed :: "nat list"
  mp_clock :: "nat \<Rightarrow> timestamp"
  mp_ticks :: nat

definition mp_current_timestamp :: "('d, 'z) mp_server_state_scheme \<Rightarrow> timestamp \<times> ('d, 'z) mp_server_state_scheme" where
  "mp_current_timestamp s = (mp_clock s (mp_ticks s), s\<lparr>mp_ticks := mp_ticks s + 1\<rparr>)"

text \<open>\<open>time(NULL)\<close>: whole seconds.\<close>

definition mp_time :: "('d, 'z) mp_server_state_scheme \<Rightarrow> int \<times> ('d, 'z) mp_server_state_scheme" where
  "mp_time s = (let (t, s) = mp_current_timestamp s in (\<lfloor>t\<rfloor>, s))"

section \<open>Replies\<close>

definition mp_rpc_send :: "nat \<Rightarrow> rpc_pkg \<Rightarrow> ('d, 'z) mp_server_state_scheme \<Rightarrow> ('d, 'z) mp_server_state_scheme" where
  "mp_rpc_send ses pkg s = (case rpc_pack pkg of None \<Rightarrow> s | Some data \<Rightarrow> s\<lparr>mp_sent := mp_sent s @ [(ses, data)]\<rparr>)"

definition mp_reply_json :: "text_lib \<Rightarrow> mp_settings \<Rightarrow> nat \<Rightarrow> rpc_pkg \<Rightarrow> json \<Rightarrow> ('d, 'z) mp_server_state_scheme
    \<Rightarrow> int \<times> ('d, 'z) mp_server_state_scheme" where
  "mp_reply_json J C ses pkg msg s =
     (case (if mp_debug C then json_dumps_indent J msg else json_dumps J msg) of
        None \<Rightarrow> (- 28, s)
      | Some message_data \<Rightarrow>
          let reply = pkg\<lparr>rp_pkg_type := RPC_PKG_TYPE_REPLY, rp_body := string_bytes message_data,
                          rp_body_size := of_nat (length message_data)\<rparr> in
          (0, mp_rpc_send ses reply s))"

definition mp_reply_error :: "text_lib \<Rightarrow> mp_settings \<Rightarrow> nat \<Rightarrow> rpc_pkg \<Rightarrow> int \<Rightarrow> string \<Rightarrow> ('d, 'z) mp_server_state_scheme
    \<Rightarrow> int \<times> ('d, 'z) mp_server_state_scheme" where
  "mp_reply_error J C ses pkg code message s = mp_reply_json J C ses pkg (error_json (rp_req_id pkg) code message) s"

definition mp_reply_error_invalid_argument :: "text_lib \<Rightarrow> mp_settings \<Rightarrow> nat \<Rightarrow> rpc_pkg \<Rightarrow> ('d, 'z) mp_server_state_scheme
    \<Rightarrow> int \<times> ('d, 'z) mp_server_state_scheme" where
  "mp_reply_error_invalid_argument J C ses pkg s = mp_reply_error J C ses pkg 1 ''invalid argument'' s"

definition mp_reply_error_internal_error :: "text_lib \<Rightarrow> mp_settings \<Rightarrow> nat \<Rightarrow> rpc_pkg \<Rightarrow> ('d, 'z) mp_server_state_scheme
    \<Rightarrow> int \<times> ('d, 'z) mp_server_state_scheme" where
  "mp_reply_error_internal_error J C ses pkg s = mp_reply_error J C ses pkg 2 ''internal error'' s"

definition mp_reply_result :: "text_lib \<Rightarrow> mp_settings \<Rightarrow> nat \<Rightarrow> rpc_pkg \<Rightarrow> json \<Rightarrow> ('d, 'z) mp_server_state_scheme
    \<Rightarrow> int \<times> ('d, 'z) mp_server_state_scheme" where
  "mp_reply_result J C ses pkg result s = mp_reply_json J C ses pkg (result_json (rp_req_id pkg) result) s"

section \<open>The cache\<close>

text \<open>The first result says whether the reply came from the cache.\<close>

definition mp_process_cache :: "text_lib \<Rightarrow> mp_settings \<Rightarrow> nat \<Rightarrow> rpc_pkg \<Rightarrow> ('d, 'z) mp_server_state_scheme
    \<Rightarrow> bool \<times> ('d, 'z) mp_server_state_scheme" where
  "mp_process_cache J C ses pkg s =
     (case dv_find (mp_cache s) (cache_key pkg) of
        None \<Rightarrow> (False, s)
      | Some cache \<Rightarrow>
          let (now, s) = mp_current_timestamp s in
          if now - cv_time cache > mp_cache_timeout C
          then (False, s\<lparr>mp_cache := dv_delete (cache_key pkg) (mp_cache s)\<rparr>)
          else (True, snd (mp_reply_result J C ses pkg (cv_result cache) s)))"

definition mp_add_cache :: "string \<Rightarrow> json \<Rightarrow> ('d, 'z) mp_server_state_scheme \<Rightarrow> ('d, 'z) mp_server_state_scheme" where
  "mp_add_cache key result s =
     (let (now, s) = mp_current_timestamp s in
      s\<lparr>mp_cache := dv_put key \<lparr> cv_time = now, cv_result = result \<rparr> (mp_cache s)\<rparr>)"

definition mp_on_cache_timer :: "('d, 'z) mp_server_state_scheme \<Rightarrow> ('d, 'z) mp_server_state_scheme" where
  "mp_on_cache_timer s = s\<lparr>mp_cache := []\<rparr>"

text \<open>The end of the three commands that use the cache: a result is cached and sent.\<close>

definition cache_and_reply :: "text_lib \<Rightarrow> mp_settings \<Rightarrow> nat \<Rightarrow> rpc_pkg \<Rightarrow> json option \<Rightarrow> ('d, 'z) mp_server_state_scheme
    \<Rightarrow> int \<times> ('d, 'z) mp_server_state_scheme" where
  "cache_and_reply J C ses pkg result s =
     (case result of
        None \<Rightarrow> mp_reply_error_internal_error J C ses pkg s
      | Some result \<Rightarrow>
          let s = mp_add_cache (cache_key pkg) result s in
          mp_reply_result J C ses pkg result s)"

section \<open>Commands\<close>

text \<open>An \<open>int\<close> keeps the low 32 bits of a JSON integer.\<close>

definition int_param :: "json option \<Rightarrow> int" where
  "int_param j = sint (word_of_int (json_integer_value j) :: u32)"

definition on_cmd_market_status :: "'d mpd_lib \<Rightarrow> text_lib \<Rightarrow> mp_settings \<Rightarrow> nat \<Rightarrow> rpc_pkg \<Rightarrow> json \<Rightarrow> ('d, 'z) mp_server_state_scheme
    \<Rightarrow> int \<times> ('d, 'z) mp_server_state_scheme" where
  "on_cmd_market_status D J C ses pkg params s =
     (let invalid = mp_reply_error_invalid_argument J C ses pkg s in
      if json_array_size params \<noteq> 2 then invalid
      else case json_string_value (json_array_get params 0) of
        None \<Rightarrow> invalid
      | Some market \<Rightarrow>
          if \<not> market_exist s market then invalid
          else
            let period = int_param (json_array_get params 1) in
            if period \<le> 0 \<or> period > sec_max C then invalid
            else
              let (cached, s) = mp_process_cache J C ses pkg s in
              if cached then (0, s)
              else
                let (now, s) = mp_time s in
                cache_and_reply J C ses pkg (get_market_status D now s market period) s)"

text \<open>
  The interval decides which klines are asked for. \<open>Inl ()\<close>: the interval is refused. The inner
  \<open>None\<close> is \<open>NULL\<close>, the outer one a loop over months that does not end.
\<close>

definition interval_kline :: "'d mpd_lib \<Rightarrow> mp_settings \<Rightarrow> time_lib \<Rightarrow> string \<Rightarrow> int \<Rightarrow> int \<Rightarrow> int \<Rightarrow> ('d, 'z) mp_server_state_scheme
    \<Rightarrow> ((unit + json option) \<times> ('d, 'z) mp_server_state_scheme) option" where
  "interval_kline D C T market start stop interval s =
     (if interval < 60 then
        if 60 mod interval \<noteq> 0 then Some (Inl (), s)
        else let (now, s) = mp_time s in Some (Inr (get_market_kline_sec D C now s market start stop interval), s)
      else if interval < 3600 then
        if interval mod 60 \<noteq> 0 \<or> 3600 mod interval \<noteq> 0 then Some (Inl (), s)
        else let (now, s) = mp_time s in Some (Inr (get_market_kline_min D C now s market start stop interval), s)
      else if interval < 86400 then
        if interval mod 3600 \<noteq> 0 \<or> 86400 mod interval \<noteq> 0 then Some (Inl (), s)
        else let (now, s) = mp_time s in Some (Inr (get_market_kline_hour D C T now s market start stop interval), s)
      else if interval < 86400 * 7 then
        if interval mod 86400 \<noteq> 0 then Some (Inl (), s)
        else Some (Inr (get_market_kline_day D C s market start stop interval), s)
      else if interval = 86400 * 7 then Some (Inr (get_market_kline_week D C s market start stop interval), s)
      else if interval = 86400 * 30 then
        map_option (\<lambda>result. (Inr result, s)) (get_market_kline_month D T s market start stop)
      else Some (Inl (), s))"

definition on_cmd_market_kline :: "'d mpd_lib \<Rightarrow> text_lib \<Rightarrow> mp_settings \<Rightarrow> time_lib \<Rightarrow> nat \<Rightarrow> rpc_pkg \<Rightarrow> json
    \<Rightarrow> ('d, 'z) mp_server_state_scheme \<Rightarrow> (int \<times> ('d, 'z) mp_server_state_scheme) option" where
  "on_cmd_market_kline D J C T ses pkg params s =
     (let invalid = (\<lambda>s. Some (mp_reply_error_invalid_argument J C ses pkg s)) in
      if json_array_size params \<noteq> 4 then invalid s
      else case json_string_value (json_array_get params 0) of
        None \<Rightarrow> invalid s
      | Some market \<Rightarrow>
          if \<not> market_exist s market then invalid s
          else
            let start = json_integer_value (json_array_get params 1) in
            if start \<le> 0 then invalid s
            else
              let stop = json_integer_value (json_array_get params 2);
                  (now, s) = mp_time s;
                  stop = (if stop > now then now else stop) in
              if stop \<le> 0 \<or> start > stop then invalid s
              else
                let interval = int_param (json_array_get params 3) in
                if interval \<le> 0 then invalid s
                else
                  let (cached, s) = mp_process_cache J C ses pkg s in
                  if cached then Some (0, s)
                  else
                    (case interval_kline D C T market start stop interval s of
                       None \<Rightarrow> None
                     | Some (Inl _, s) \<Rightarrow> invalid s
                     | Some (Inr result, s) \<Rightarrow> Some (cache_and_reply J C ses pkg result s)))"

definition on_cmd_market_deals :: "text_lib \<Rightarrow> mp_settings \<Rightarrow> nat \<Rightarrow> rpc_pkg \<Rightarrow> json \<Rightarrow> ('d, 'z) mp_server_state_scheme
    \<Rightarrow> int \<times> ('d, 'z) mp_server_state_scheme" where
  "on_cmd_market_deals J C ses pkg params s =
     (let invalid = mp_reply_error_invalid_argument J C ses pkg s in
      if json_array_size params \<noteq> 3 then invalid
      else case json_string_value (json_array_get params 0) of
        None \<Rightarrow> invalid
      | Some market \<Rightarrow>
          if \<not> market_exist s market then invalid
          else
            let limit = int_param (json_array_get params 1) in
            if limit \<le> 0 \<or> limit > int MARKET_DEALS_MAX then invalid
            else if \<not> json_is_integer (json_array_get params 2) then invalid
            else
              let last_id = word_of_int (json_integer_value (json_array_get params 2)) in
              case get_market_deals s market limit last_id of
                None \<Rightarrow> mp_reply_error_internal_error J C ses pkg s
              | Some result \<Rightarrow> mp_reply_result J C ses pkg result s)"

definition on_cmd_market_last :: "'d mpd_lib \<Rightarrow> text_lib \<Rightarrow> mp_settings \<Rightarrow> nat \<Rightarrow> rpc_pkg \<Rightarrow> json \<Rightarrow> ('d, 'z) mp_server_state_scheme
    \<Rightarrow> int \<times> ('d, 'z) mp_server_state_scheme" where
  "on_cmd_market_last D J C ses pkg params s =
     (let invalid = mp_reply_error_invalid_argument J C ses pkg s in
      if json_array_size params \<noteq> 1 then invalid
      else case json_string_value (json_array_get params 0) of
        None \<Rightarrow> invalid
      | Some market \<Rightarrow>
          if \<not> market_exist s market then invalid
          else case get_market_last_price s market of
            None \<Rightarrow> mp_reply_error_internal_error J C ses pkg s
          | Some la \<Rightarrow> mp_reply_result J C ses pkg (JString (mpd_to_sci D la)) s)"

definition on_cmd_market_status_today :: "'d mpd_lib \<Rightarrow> text_lib \<Rightarrow> mp_settings \<Rightarrow> time_lib \<Rightarrow> nat \<Rightarrow> rpc_pkg \<Rightarrow> json
    \<Rightarrow> ('d, 'z) mp_server_state_scheme \<Rightarrow> int \<times> ('d, 'z) mp_server_state_scheme" where
  "on_cmd_market_status_today D J C T ses pkg params s =
     (let invalid = mp_reply_error_invalid_argument J C ses pkg s in
      if json_array_size params \<noteq> 1 then invalid
      else case json_string_value (json_array_get params 0) of
        None \<Rightarrow> invalid
      | Some market \<Rightarrow>
          if \<not> market_exist s market then invalid
          else
            let (cached, s) = mp_process_cache J C ses pkg s in
            if cached then (0, s)
            else
              let (now, s) = mp_time s in
              cache_and_reply J C ses pkg (get_market_status_today D T now s market) s)"

section \<open>Dispatch\<close>

definition CMD_MARKET_STATUS :: u32 where "CMD_MARKET_STATUS = 301"
definition CMD_MARKET_KLINE :: u32 where "CMD_MARKET_KLINE = 302"
definition CMD_MARKET_DEALS :: u32 where "CMD_MARKET_DEALS = 303"
definition CMD_MARKET_LAST :: u32 where "CMD_MARKET_LAST = 304"
definition CMD_MARKET_STATUS_TODAY :: u32 where "CMD_MARKET_STATUS_TODAY = 305"

definition mp_run_command :: "'d mpd_lib \<Rightarrow> text_lib \<Rightarrow> mp_settings \<Rightarrow> time_lib \<Rightarrow> nat \<Rightarrow> rpc_pkg \<Rightarrow> json
    \<Rightarrow> ('d, 'z) mp_server_state_scheme \<Rightarrow> (int \<times> ('d, 'z) mp_server_state_scheme) option" where
  "mp_run_command D J C T ses pkg params s =
     (let command = rp_command pkg in
      if command = CMD_MARKET_STATUS then Some (on_cmd_market_status D J C ses pkg params s)
      else if command = CMD_MARKET_KLINE then on_cmd_market_kline D J C T ses pkg params s
      else if command = CMD_MARKET_DEALS then Some (on_cmd_market_deals J C ses pkg params s)
      else if command = CMD_MARKET_LAST then Some (on_cmd_market_last D J C ses pkg params s)
      else if command = CMD_MARKET_STATUS_TODAY then Some (on_cmd_market_status_today D J C T ses pkg params s)
      else Some (0, s))"

text \<open>A body that is announced longer than what is in the buffer is read past its end: \<open>None\<close>.\<close>

definition mp_svr_on_recv_pkg :: "'d mpd_lib \<Rightarrow> text_lib \<Rightarrow> mp_settings \<Rightarrow> time_lib \<Rightarrow> nat \<Rightarrow> rpc_pkg \<Rightarrow> ('d, 'z) mp_server_state_scheme
    \<Rightarrow> ('d, 'z) mp_server_state_scheme option" where
  "mp_svr_on_recv_pkg D J C T ses pkg s =
     (if length (rp_body pkg) < unat (rp_body_size pkg) then None
      else case json_loadb J (pkg_body pkg) of
        Some (JArray xs) \<Rightarrow> map_option snd (mp_run_command D J C T ses pkg (JArray xs) s)
      | _ \<Rightarrow> Some (s\<lparr>mp_closed := mp_closed s @ [ses]\<rparr>))"

end
