(* ===== verification/Nw_State.thy ===== *)
theory Nw_State
  imports Prelude
begin

text \<open>
  \<open>network/nw_state.c\<close>: the requests a server waits for, a hash table of entries by id, each with a
  timer. The rest of the table are lists. The table and the entries are allocated with success;
  freeing them and the callback \<open>on_release\<close>, which only frees memory, are left out. The timers run
  in the event loop: an entry holds the timeout it was started with.
\<close>

unbundle bit_operations_syntax

section \<open>State\<close>

record 'd state_entry =
  se_id :: u32
  se_timeout :: rat
  se_data :: 'd

record 'd nw_state =
  st_table :: "'d state_entry list list"
  st_table_size :: u32
  st_table_mask :: u32
  st_used :: u32
  st_id_start :: u32

definition NW_STATE_HASH_TABLE_INIT_SIZE :: u32 where
  "NW_STATE_HASH_TABLE_INIT_SIZE = 64"

definition nw_state_create :: "'d nw_state" where
  "nw_state_create =
     \<lparr> st_table = replicate (unat NW_STATE_HASH_TABLE_INIT_SIZE) [], st_table_size = NW_STATE_HASH_TABLE_INIT_SIZE,
       st_table_mask = NW_STATE_HASH_TABLE_INIT_SIZE - 1, st_used = 0, st_id_start = 0 \<rparr>"

section \<open>Operations\<close>

text \<open>Growing: the entries of a chain go to the heads of their new rest.\<close>

fun place_chain :: "u32 \<Rightarrow> 'd state_entry list \<Rightarrow> 'd state_entry list list \<Rightarrow> 'd state_entry list list" where
  "place_chain mask' [] table = table"
| "place_chain mask' (entry # chain) table =
     (let index = unat (se_id entry AND mask') in place_chain mask' chain (table[index := entry # table ! index]))"

definition state_expand_if_needed :: "'d nw_state \<Rightarrow> 'd nw_state" where
  "state_expand_if_needed s =
     (if st_used s < st_table_size s * 4 then s
      else
        let new_table_size = st_table_size s * 4;
            new_table_mask = new_table_size - 1;
            new_table = foldl (\<lambda>table chain. place_chain new_table_mask chain table)
                          (replicate (unat new_table_size) []) (st_table s) in
        s\<lparr>st_table := new_table, st_table_size := new_table_size, st_table_mask := new_table_mask\<rparr>)"

definition nw_state_get :: "'d nw_state \<Rightarrow> u32 \<Rightarrow> 'd state_entry option" where
  "nw_state_get s i = find (\<lambda>entry. se_id entry = i) (st_table s ! unat (i AND st_table_mask s))"

text \<open>The next id that is not 0 and not in use; the loop does not end when there is none.\<close>

partial_function (option) get_available_id :: "'d nw_state \<Rightarrow> (u32 \<times> 'd nw_state) option" where
  "get_available_id s =
     (let i = st_id_start s + 1;
          i = (if i = 0 then i + 1 else i) in
      if nw_state_get (s\<lparr>st_id_start := i\<rparr>) i = None then Some (i, s\<lparr>st_id_start := i\<rparr>)
      else get_available_id (s\<lparr>st_id_start := i\<rparr>))"

text \<open>
  \<open>nw_state_add\<close> gives the id of the new entry, or \<open>None\<close> for \<open>NULL\<close>. The caller writes the data of
  the entry right after the call; here they are an argument.
\<close>

definition nw_state_add :: "rat \<Rightarrow> u32 \<Rightarrow> 'd \<Rightarrow> 'd nw_state \<Rightarrow> (u32 option \<times> 'd nw_state) option" where
  "nw_state_add timeout i data s =
     (if i \<noteq> 0 \<and> nw_state_get s i \<noteq> None then Some (None, s)
      else if st_used s = - 1 then Some (None, s)
      else case (if i \<noteq> 0 then Some (i, s) else get_available_id s) of
        None \<Rightarrow> None
      | Some (i, s) \<Rightarrow>
          let s = state_expand_if_needed s;
              entry = \<lparr> se_id = i, se_timeout = timeout, se_data = data \<rparr>;
              index = unat (i AND st_table_mask s) in
          Some (Some i, s\<lparr>st_table := (st_table s)[index := entry # st_table s ! index], st_used := st_used s + 1\<rparr>))"

fun chain_del :: "u32 \<Rightarrow> 'd state_entry list \<Rightarrow> 'd state_entry list" where
  "chain_del i [] = []"
| "chain_del i (entry # chain) = (if se_id entry = i then chain else entry # chain_del i chain)"

definition state_remove :: "u32 \<Rightarrow> 'd nw_state \<Rightarrow> 'd nw_state" where
  "state_remove i s =
     (let index = unat (i AND st_table_mask s) in
      if find (\<lambda>entry. se_id entry = i) (st_table s ! index) = None then s
      else s\<lparr>st_table := (st_table s)[index := chain_del i (st_table s ! index)], st_used := st_used s - 1\<rparr>)"

definition nw_state_del :: "u32 \<Rightarrow> 'd nw_state \<Rightarrow> int \<times> 'd nw_state" where
  "nw_state_del i s = (case nw_state_get s i of None \<Rightarrow> (- 1, s) | Some entry \<Rightarrow> (0, state_remove (se_id entry) s))"

text \<open>When the timer of an entry runs out, the callback is called (by the caller of this) and the entry goes.\<close>

definition state_on_timeout :: "'d state_entry \<Rightarrow> 'd nw_state \<Rightarrow> 'd nw_state" where
  "state_on_timeout entry s = state_remove (se_id entry) s"

fun chain_mod :: "u32 \<Rightarrow> rat \<Rightarrow> 'd state_entry list \<Rightarrow> 'd state_entry list" where
  "chain_mod i timeout [] = []"
| "chain_mod i timeout (entry # chain) =
     (if se_id entry = i then entry\<lparr>se_timeout := timeout\<rparr> # chain else entry # chain_mod i timeout chain)"

definition nw_state_mod :: "u32 \<Rightarrow> rat \<Rightarrow> 'd nw_state \<Rightarrow> int \<times> 'd nw_state" where
  "nw_state_mod i timeout s =
     (case nw_state_get s i of
        None \<Rightarrow> (- 1, s)
      | Some _ \<Rightarrow>
          let index = unat (i AND st_table_mask s) in
          (0, s\<lparr>st_table := (st_table s)[index := chain_mod i timeout (st_table s ! index)]\<rparr>))"

definition nw_state_count :: "'d nw_state \<Rightarrow> nat" where
  "nw_state_count s = unat (st_used s)"

text \<open>The iterator: the number of the current chain (none yet: -1), and the entries of it that follow.\<close>

fun nw_state_next :: "'d state_entry list list \<Rightarrow> 'd state_entry list \<Rightarrow> ('d state_entry \<times> 'd state_entry list list \<times> 'd state_entry list) option" where
  "nw_state_next rest (entry # next_entry) = Some (entry, rest, next_entry)"
| "nw_state_next [] [] = None"
| "nw_state_next (chain # rest) [] = nw_state_next rest chain"

text \<open>The use all servers make of it: an id is chosen. \<open>None\<close>: no entry, whose \<open>data\<close> the caller would write to.\<close>

definition nw_state_new :: "rat \<Rightarrow> 'd \<Rightarrow> 'd nw_state \<Rightarrow> (u32 \<times> 'd nw_state) option" where
  "nw_state_new timeout data s =
     (case nw_state_add timeout 0 data s of Some (Some i, s) \<Rightarrow> Some (i, s) | _ \<Rightarrow> None)"

end
