(* ===== verification/Ws_Base.thy ===== *)
theory Ws_Base
  imports Nw_State Dispatch Price_Server
begin

text \<open>
  What the files of \<open>accessws\<close> share: sessions, the messages sent to them, requests to the engine, the
  market data and the history reader, the clock, and the settings. A session is the address of its
  \<open>nw_ses\<close>, a number; \<open>ses_id\<close> is the field \<open>id\<close> of that structure, 0 when the connection is closed.
  What happens to a message on the socket is not modelled: sending succeeds.
\<close>

section \<open>State\<close>

datatype backend = Matchengine | Marketprice | Readhistory

text \<open>Each file has its own connections to the processes behind.\<close>

datatype ws_client = AwDepth | AwKline | AwState | AwToday | AwPrice | AwDeals | AwAsset | AwServer backend

record aw_io =
  ses_id :: "nat \<Rightarrow> u64"
  ses_sent :: "(nat \<times> string) list"
  backend_sent :: "(ws_client \<times> rpc_pkg) list"
  backend_up :: "backend \<Rightarrow> bool"
  ws_clock :: "nat \<Rightarrow> timestamp"
  ws_ticks :: nat

record 'd ws_settings =
  ws_backend_timeout :: rat
  ws_cache_timeout :: rat
  ws_kline_interval :: rat
  ws_depth_limit :: "int list"
  ws_depth_merge :: "'d list"

definition WS_ASSET_NAME_MAX_LEN :: nat where "WS_ASSET_NAME_MAX_LEN = 16"
definition MARKET_NAME_MAX_LEN :: nat where "MARKET_NAME_MAX_LEN = 16"
definition INTERVAL_MAX_LEN :: nat where "INTERVAL_MAX_LEN = 16"
definition WS_SOURCE_MAX_LEN :: nat where "WS_SOURCE_MAX_LEN = 32"

definition CMD_BALANCE_HISTORY :: u32 where "CMD_BALANCE_HISTORY = 103"
definition CMD_ORDER_HISTORY :: u32 where "CMD_ORDER_HISTORY = 208"

definition ws_current_timestamp :: "'z aw_io_scheme \<Rightarrow> timestamp \<times> 'z aw_io_scheme" where
  "ws_current_timestamp s = (ws_clock s (ws_ticks s), s\<lparr>ws_ticks := ws_ticks s + 1\<rparr>)"

definition ws_time :: "'z aw_io_scheme \<Rightarrow> int \<times> 'z aw_io_scheme" where
  "ws_time s = (let (t, s) = ws_current_timestamp s in (\<lfloor>t\<rfloor>, s))"

section \<open>Messages to sessions\<close>

text \<open>A text is sent up to its first NUL.\<close>

definition ws_send_text :: "nat \<Rightarrow> string \<Rightarrow> 'z aw_io_scheme \<Rightarrow> 'z aw_io_scheme" where
  "ws_send_text ses message s = s\<lparr>ses_sent := ses_sent s @ [(ses, takeWhile (\<lambda>c. c \<noteq> CHR 0x00) message)]\<rparr>"

definition send_json :: "text_lib \<Rightarrow> nat \<Rightarrow> json \<Rightarrow> 'z aw_io_scheme \<Rightarrow> int \<times> 'z aw_io_scheme" where
  "send_json J ses json s =
     (case json_dumps J json of None \<Rightarrow> (- 49, s) | Some message_data \<Rightarrow> (0, ws_send_text ses message_data s))"

text \<open>\<open>send_error\<close> and \<open>send_result\<close> build the object the engine builds for its replies.\<close>

definition send_error :: "text_lib \<Rightarrow> nat \<Rightarrow> u64 \<Rightarrow> int \<Rightarrow> string \<Rightarrow> 'z aw_io_scheme \<Rightarrow> int \<times> 'z aw_io_scheme" where
  "send_error J ses i code message s = send_json J ses (error_json i code message) s"

definition send_error_invalid_argument :: "text_lib \<Rightarrow> nat \<Rightarrow> u64 \<Rightarrow> 'z aw_io_scheme \<Rightarrow> int \<times> 'z aw_io_scheme" where
  "send_error_invalid_argument J ses i s = send_error J ses i 1 ''invalid argument'' s"

definition send_error_internal_error :: "text_lib \<Rightarrow> nat \<Rightarrow> u64 \<Rightarrow> 'z aw_io_scheme \<Rightarrow> int \<times> 'z aw_io_scheme" where
  "send_error_internal_error J ses i s = send_error J ses i 2 ''internal error'' s"

definition send_error_service_timeout :: "text_lib \<Rightarrow> nat \<Rightarrow> u64 \<Rightarrow> 'z aw_io_scheme \<Rightarrow> int \<times> 'z aw_io_scheme" where
  "send_error_service_timeout J ses i s = send_error J ses i 5 ''service timeout'' s"

definition send_error_require_auth :: "text_lib \<Rightarrow> nat \<Rightarrow> u64 \<Rightarrow> 'z aw_io_scheme \<Rightarrow> int \<times> 'z aw_io_scheme" where
  "send_error_require_auth J ses i s = send_error J ses i 6 ''require authentication'' s"

definition send_result :: "text_lib \<Rightarrow> nat \<Rightarrow> u64 \<Rightarrow> json \<Rightarrow> 'z aw_io_scheme \<Rightarrow> int \<times> 'z aw_io_scheme" where
  "send_result J ses i result s = send_json J ses (result_json i result) s"

definition send_success :: "text_lib \<Rightarrow> nat \<Rightarrow> u64 \<Rightarrow> 'z aw_io_scheme \<Rightarrow> int \<times> 'z aw_io_scheme" where
  "send_success J ses i s = send_result J ses i (json_object_set (JObject []) ''status'' (JString ''success'')) s"

definition notify_json :: "string \<Rightarrow> json \<Rightarrow> json" where
  "notify_json method' params =
     (let notify = JObject [];
          notify = json_object_set notify ''method'' (JString method');
          notify = json_object_set notify ''params'' params;
          notify = json_object_set notify ''id'' JNull in
      notify)"

definition send_notify :: "text_lib \<Rightarrow> nat \<Rightarrow> string \<Rightarrow> json \<Rightarrow> 'z aw_io_scheme \<Rightarrow> 'z aw_io_scheme" where
  "send_notify J ses method' params s = snd (send_json J ses (notify_json method' params) s)"

section \<open>The sessions of a subscription\<close>

text \<open>A dictionary from sessions to nothing; a broadcast goes through it.\<close>

type_synonym sessions = "(nat, unit) dict_view"

definition sessions_add :: "nat \<Rightarrow> sessions \<Rightarrow> sessions" where
  "sessions_add ses d = (case dv_add ses () d of None \<Rightarrow> d | Some d' \<Rightarrow> d')"

fun notify_sessions :: "text_lib \<Rightarrow> nat list \<Rightarrow> string \<Rightarrow> json \<Rightarrow> 'z aw_io_scheme \<Rightarrow> 'z aw_io_scheme" where
  "notify_sessions J [] method' params s = s"
| "notify_sessions J (ses # rest) method' params s = notify_sessions J rest method' params (send_notify J ses method' params s)"

section \<open>Requests to the processes behind\<close>

definition request_pkg :: "u32 \<Rightarrow> u32 \<Rightarrow> u64 \<Rightarrow> string \<Rightarrow> rpc_pkg" where
  "request_pkg command sequence req_id body =
     \<lparr> rp_magic = 0, rp_command = command, rp_pkg_type = RPC_PKG_TYPE_REQUEST, rp_result = 0, rp_crc32 = 0,
       rp_sequence = sequence, rp_req_id = req_id, rp_body_size = of_nat (length body), rp_ext_size = 0, rp_ext = [],
       rp_body = string_bytes body \<rparr>"

definition rpc_clt_send :: "ws_client \<Rightarrow> rpc_pkg \<Rightarrow> 'z aw_io_scheme \<Rightarrow> 'z aw_io_scheme" where
  "rpc_clt_send clt pkg s = s\<lparr>backend_sent := backend_sent s @ [(clt, pkg)]\<rparr>"

text \<open>The error of a reply, when it has one that is not null.\<close>

definition reply_failed :: "json \<Rightarrow> bool" where
  "reply_failed reply = (case json_object_get reply ''error'' of None \<Rightarrow> False | Some err \<Rightarrow> err \<noteq> JNull)"

text \<open>What the caller goes on with: a result, and an \<open>error\<close> that is there and null.\<close>

definition reply_value :: "json \<Rightarrow> json option" where
  "reply_value reply =
     (if json_object_get reply ''error'' = None \<or> reply_failed reply then None else json_object_get reply ''result'')"

end
