(* ===== verification/Ws_Depth.thy ===== *)
theory Ws_Depth
  imports Ws_Base
begin

text \<open>
  \<open>accessws/aw_depth.c\<close>: subscriptions to the depth of a market. Every interval the depth of each
  subscribed market is asked from the engine; subscribers get the difference to the last one, and the
  whole depth once a minute.
\<close>

section \<open>State\<close>

definition CLEAN_INTERVAL :: int where "CLEAN_INTERVAL = 60"

record depth_key =
  dk_market :: string
  dk_interval :: string
  dk_limit :: u32

record depth_val =
  dp_sessions :: sessions
  dp_last :: "json option"
  dp_last_clean :: int

record aw_depth = aw_io +
  dict_depth :: "(depth_key, depth_val) dict_view"
  depth_context :: "depth_key nw_state"

section \<open>The difference of two depths\<close>

text \<open>Price and amount of an entry; \<open>None\<close> where the code goes to \<open>error\<close>.\<close>

definition unit_level :: "'d mpd_lib \<Rightarrow> json \<Rightarrow> ('d \<times> 'd) option" where
  "unit_level D u =
     (case json_string_value (json_array_get u 0) of
        None \<Rightarrow> None
      | Some price \<Rightarrow>
          (case json_string_value (json_array_get u 1) of
             None \<Rightarrow> None
           | Some amount \<Rightarrow>
               (case decimal D price 0 of
                  None \<Rightarrow> None
                | Some price \<Rightarrow> (case decimal D amount 0 of None \<Rightarrow> None | Some amount \<Rightarrow> Some (price, amount)))))"

text \<open>The loop while both lists have entries; it gives the difference so far and what is left of the lists.\<close>

fun diff_loop :: "'d mpd_lib \<Rightarrow> int \<Rightarrow> json list \<Rightarrow> json list \<Rightarrow> json list \<Rightarrow> (json list \<times> json list \<times> json list) option" where
  "diff_loop D side (unit1 # list1) (unit2 # list2) diff =
     (case unit_level D unit1 of
        None \<Rightarrow> None
      | Some (price1, amount1) \<Rightarrow>
          (case unit_level D unit2 of
             None \<Rightarrow> None
           | Some (price2, amount2) \<Rightarrow>
               let cmp = mpd_cmp D price1 price2 * side in
               if cmp = 0 then
                 diff_loop D side list1 list2 (if mpd_cmp D amount1 amount2 \<noteq> 0 then diff @ [unit2] else diff)
               else if cmp > 0 then diff_loop D side (unit1 # list1) list2 (diff @ [unit2])
               else diff_loop D side list1 (unit2 # list2) (diff @ [JArray [JString (mpd_string D price1), JString ''0'']])))"
| "diff_loop D side list1 list2 diff = Some (diff, list1, list2)"

text \<open>The entries that are left of the old list are removed when the new list is not full.\<close>

fun removed_units :: "json list \<Rightarrow> json list option" where
  "removed_units [] = Some []"
| "removed_units (u # us) =
     (case json_string_value (json_array_get u 0) of
        None \<Rightarrow> None
      | Some price \<Rightarrow>
          (case json_string_value (json_array_get u 1) of
             None \<Rightarrow> None
           | Some amount \<Rightarrow> map_option ((#) (JArray [JString price, JString ''0''])) (removed_units us)))"

definition get_list_diff :: "'d mpd_lib \<Rightarrow> json option \<Rightarrow> json option \<Rightarrow> u32 \<Rightarrow> int \<Rightarrow> json option" where
  "get_list_diff D list1 list2 limit side =
     (case (list1, list2) of
        (Some list1, Some list2) \<Rightarrow>
          (case diff_loop D side (json_elements list1) (json_elements list2) [] of
             None \<Rightarrow> None
           | Some (diff, rest1, rest2) \<Rightarrow>
               (case (if json_array_size list2 < unat limit then removed_units rest1 else Some []) of
                  None \<Rightarrow> None
                | Some removed \<Rightarrow>
                    let diff = diff @ removed @ rest2 in
                    if diff = [] then None else Some (JArray diff)))
      | _ \<Rightarrow> None)"

definition get_depth_diff :: "'d mpd_lib \<Rightarrow> json \<Rightarrow> json \<Rightarrow> u32 \<Rightarrow> json option" where
  "get_depth_diff D first second limit =
     (let asks = get_list_diff D (json_object_get first ''asks'') (json_object_get second ''asks'') limit 1;
          bids = get_list_diff D (json_object_get first ''bids'') (json_object_get second ''bids'') limit (- 1) in
      if asks = None \<and> bids = None then None
      else
        let diff = JObject [];
            diff = json_object_set_opt diff ''asks'' asks;
            diff = json_object_set_opt diff ''bids'' bids in
        Some diff)"

section \<open>Replies\<close>

definition depth_params :: "bool \<Rightarrow> json \<Rightarrow> string \<Rightarrow> json" where
  "depth_params clean result market =
     json_array_append (json_array_append (json_array_append (JArray []) (JBool clean)) result) (JString market)"

definition depth_broadcast_update :: "text_lib \<Rightarrow> string \<Rightarrow> sessions \<Rightarrow> bool \<Rightarrow> json \<Rightarrow> 'z aw_io_scheme \<Rightarrow> 'z aw_io_scheme" where
  "depth_broadcast_update J market sessions clean result s =
     notify_sessions J (map fst sessions) ''depth.update'' (depth_params clean result market) s"

definition on_market_depth_reply :: "'d mpd_lib \<Rightarrow> text_lib \<Rightarrow> depth_key \<Rightarrow> json \<Rightarrow> 'z aw_depth_scheme \<Rightarrow> int \<times> 'z aw_depth_scheme" where
  "on_market_depth_reply D J key result s =
     (case dv_find (dict_depth s) key of
        None \<Rightarrow> (- 230, s)
      | Some val \<Rightarrow>
          (case dp_last val of
             None \<Rightarrow>
               let (now, s) = ws_time s;
                   s = s\<lparr>dict_depth := dv_put key (val\<lparr>dp_last := Some result, dp_last_clean := now\<rparr>) (dict_depth s)\<rparr> in
               (0, depth_broadcast_update J (dk_market key) (dp_sessions val) True result s)
           | Some las \<Rightarrow>
               (case get_depth_diff D las result (dk_limit key) of
                  None \<Rightarrow> (0, s)
                | Some diff \<Rightarrow>
                    let (now, s) = ws_time s;
                        val = val\<lparr>dp_last := Some result\<rparr> in
                    if now - dp_last_clean val \<ge> CLEAN_INTERVAL then
                      let s = s\<lparr>dict_depth := dv_put key (val\<lparr>dp_last_clean := now\<rparr>) (dict_depth s)\<rparr> in
                      (0, depth_broadcast_update J (dk_market key) (dp_sessions val) True result s)
                    else
                      let s = s\<lparr>dict_depth := dv_put key val (dict_depth s)\<rparr> in
                      (0, depth_broadcast_update J (dk_market key) (dp_sessions val) False diff s))))"

definition depth_on_backend_recv_pkg :: "'d mpd_lib \<Rightarrow> text_lib \<Rightarrow> rpc_pkg \<Rightarrow> 'z aw_depth_scheme \<Rightarrow> 'z aw_depth_scheme" where
  "depth_on_backend_recv_pkg D J pkg s =
     (case nw_state_get (depth_context s) (rp_sequence pkg) of
        None \<Rightarrow> s
      | Some entry \<Rightarrow>
          let key = se_data entry;
              s = (case json_loadb J (pkg_body pkg) of
                     None \<Rightarrow> s
                   | Some reply \<Rightarrow>
                       let s = (if reply_failed reply then s\<lparr>dict_depth := dv_delete key (dict_depth s)\<rparr> else s) in
                       (case reply_value reply of
                          None \<Rightarrow> s
                        | Some result \<Rightarrow>
                            if rp_command pkg = CMD_ORDER_BOOK_DEPTH then snd (on_market_depth_reply D J key result s) else s)) in
          s\<lparr>depth_context := snd (nw_state_del (rp_sequence pkg) (depth_context s))\<rparr>)"

section \<open>The timer\<close>

text \<open>
  The loop goes through the entries; a key without sessions is dropped, for the others a request is
  sent. \<open>None\<close>: no state entry, or a text that is \<open>NULL\<close>.
\<close>

fun depth_timer_loop :: "text_lib \<Rightarrow> 'd ws_settings \<Rightarrow> (depth_key \<times> depth_val) list \<Rightarrow> 'z aw_depth_scheme \<Rightarrow> 'z aw_depth_scheme option" where
  "depth_timer_loop J C [] s = Some s"
| "depth_timer_loop J C ((key, obj) # entries) s =
     (if dp_sessions obj = [] then depth_timer_loop J C entries (s\<lparr>dict_depth := dv_delete key (dict_depth s)\<rparr>)
      else
        let params = JArray [JString (dk_market key), json_u32 (dk_limit key), JString (dk_interval key)] in
        case nw_state_new (ws_backend_timeout C) key (depth_context s) of
          None \<Rightarrow> None
        | Some (i, context) \<Rightarrow>
            (case json_dumps J params of
               None \<Rightarrow> None
             | Some body \<Rightarrow>
                 depth_timer_loop J C entries
                   (rpc_clt_send AwDepth (request_pkg CMD_ORDER_BOOK_DEPTH i 0 body) (s\<lparr>depth_context := context\<rparr>))))"

definition depth_on_timer :: "text_lib \<Rightarrow> 'd ws_settings \<Rightarrow> 'z aw_depth_scheme \<Rightarrow> 'z aw_depth_scheme option" where
  "depth_on_timer J C s = depth_timer_loop J C (dict_depth s) s"

section \<open>Subscribing\<close>

definition is_good_limit :: "'d ws_settings \<Rightarrow> int \<Rightarrow> bool" where
  "is_good_limit C limit = list_ex (\<lambda>l. l = limit) (ws_depth_limit C)"

definition is_good_interval :: "'d mpd_lib \<Rightarrow> 'd ws_settings \<Rightarrow> string \<Rightarrow> bool" where
  "is_good_interval D C interval =
     (case decimal D interval 0 of None \<Rightarrow> False | Some merge \<Rightarrow> list_ex (\<lambda>l. mpd_cmp D l merge = 0) (ws_depth_merge C))"

definition mk_depth_key :: "string \<Rightarrow> u32 \<Rightarrow> string \<Rightarrow> depth_key" where
  "mk_depth_key market limit interval =
     \<lparr> dk_market = take (MARKET_NAME_MAX_LEN - 1) market, dk_interval = take (INTERVAL_MAX_LEN - 1) interval, dk_limit = limit \<rparr>"

definition depth_subscribe :: "'d mpd_lib \<Rightarrow> 'd ws_settings \<Rightarrow> nat \<Rightarrow> string \<Rightarrow> u32 \<Rightarrow> string \<Rightarrow> 'z aw_depth_scheme \<Rightarrow> int \<times> 'z aw_depth_scheme" where
  "depth_subscribe D C ses market limit interval s =
     (if \<not> is_good_limit C (sint limit) then (- 1, s)
      else if \<not> is_good_interval D C interval then (- 1, s)
      else
        let key = mk_depth_key market limit interval;
            obj = (case dv_find (dict_depth s) key of
                     None \<Rightarrow> \<lparr> dp_sessions = [], dp_last = None, dp_last_clean = 0 \<rparr> | Some obj \<Rightarrow> obj);
            obj = obj\<lparr>dp_sessions := sessions_add ses (dp_sessions obj)\<rparr> in
        (0, s\<lparr>dict_depth := dv_put key obj (dict_depth s)\<rparr>))"

definition depth_unsubscribe :: "nat \<Rightarrow> 'z aw_depth_scheme \<Rightarrow> 'z aw_depth_scheme" where
  "depth_unsubscribe ses s =
     s\<lparr>dict_depth := map (\<lambda>(key, obj). (key, obj\<lparr>dp_sessions := dv_delete ses (dp_sessions obj)\<rparr>)) (dict_depth s)\<rparr>"

definition depth_send_clean :: "text_lib \<Rightarrow> nat \<Rightarrow> string \<Rightarrow> u32 \<Rightarrow> string \<Rightarrow> 'z aw_depth_scheme \<Rightarrow> 'z aw_depth_scheme" where
  "depth_send_clean J ses market limit interval s =
     (case dv_find (dict_depth s) (mk_depth_key market limit interval) of
        None \<Rightarrow> s
      | Some obj \<Rightarrow>
          (case dp_last obj of
             None \<Rightarrow> s
           | Some las \<Rightarrow> send_notify J ses ''depth.update'' (depth_params True las market) s))"

end
