(* ===== verification/Ws_Kline.thy ===== *)
theory Ws_Kline
  imports Ws_Depth
begin

text \<open>
  \<open>accessws/aw_kline.c\<close>: subscriptions to the klines of a market. Subscribers get the last klines whenever the
  last one has changed.
\<close>

section \<open>State\<close>

record kline_key =
  kk_market :: string
  kk_interval :: int

record kline_val =
  kv_sessions :: sessions
  kv_last :: "json option"

record aw_kline = aw_depth +
  dict_kline :: "(kline_key, kline_val) dict_view"
  kline_context :: "kline_key nw_state"

section \<open>Replies\<close>

text \<open>Whether the texts differ; \<open>None\<close>: a text is \<open>NULL\<close>.\<close>

definition kline_compare :: "text_lib \<Rightarrow> json \<Rightarrow> json \<Rightarrow> bool option" where
  "kline_compare J first second =
     (case (json_dumps J first, json_dumps J second) of
        (Some first_str, Some second_str) \<Rightarrow> Some (first_str \<noteq> second_str)
      | _ \<Rightarrow> None)"

definition kline_broadcast_update :: "text_lib \<Rightarrow> sessions \<Rightarrow> json \<Rightarrow> 'z aw_io_scheme \<Rightarrow> 'z aw_io_scheme" where
  "kline_broadcast_update J sessions result s = notify_sessions J (map fst sessions) ''kline.update'' result s"

definition on_market_kline_reply :: "text_lib \<Rightarrow> kline_key \<Rightarrow> json \<Rightarrow> 'z aw_kline_scheme \<Rightarrow> (int \<times> 'z aw_kline_scheme) option" where
  "on_market_kline_reply J key result s =
     (case dv_find (dict_kline s) key of
        None \<Rightarrow> Some (- 113, s)
      | Some obj \<Rightarrow>
          if \<not> json_is_array (Some result) then Some (- 117, s)
          else if json_array_size result = 0 then Some (0, s)
          else
            let las = json_elements result ! (json_array_size result - 1) in
            case (case kv_last obj of None \<Rightarrow> Some True | Some old \<Rightarrow> kline_compare J old las) of
              None \<Rightarrow> None
            | Some False \<Rightarrow> Some (0, s)
            | Some True \<Rightarrow>
                let s = s\<lparr>dict_kline := dv_put key (obj\<lparr>kv_last := Some las\<rparr>) (dict_kline s)\<rparr> in
                Some (0, kline_broadcast_update J (kv_sessions obj) result s))"

definition kline_on_backend_recv_pkg :: "text_lib \<Rightarrow> rpc_pkg \<Rightarrow> 'z aw_kline_scheme \<Rightarrow> 'z aw_kline_scheme option" where
  "kline_on_backend_recv_pkg J pkg s =
     (case nw_state_get (kline_context s) (rp_sequence pkg) of
        None \<Rightarrow> Some s
      | Some entry \<Rightarrow>
          let key = se_data entry in
          map_option (\<lambda>s. s\<lparr>kline_context := snd (nw_state_del (rp_sequence pkg) (kline_context s))\<rparr>)
            (case json_loadb J (pkg_body pkg) of
               None \<Rightarrow> Some s
             | Some reply \<Rightarrow>
                 let s = (if reply_failed reply then s\<lparr>dict_kline := dv_delete key (dict_kline s)\<rparr> else s) in
                 (case reply_value reply of
                    None \<Rightarrow> Some s
                  | Some result \<Rightarrow>
                      if rp_command pkg = CMD_MARKET_KLINE then map_option snd (on_market_kline_reply J key result s) else Some s)))"

section \<open>The timer\<close>

text \<open>The conversion of a \<open>double\<close> to an \<open>int\<close> that holds it.\<close>

definition c_int :: "rat \<Rightarrow> int" where
  "c_int x = (if x < 0 then \<lceil>x\<rceil> else \<lfloor>x\<rfloor>)"

fun kline_timer_loop :: "text_lib \<Rightarrow> 'd ws_settings \<Rightarrow> (kline_key \<times> kline_val) list \<Rightarrow> 'z aw_kline_scheme \<Rightarrow> 'z aw_kline_scheme option" where
  "kline_timer_loop J C [] s = Some s"
| "kline_timer_loop J C ((key, obj) # entries) s =
     (if kv_sessions obj = [] then kline_timer_loop J C entries (s\<lparr>dict_kline := dv_delete key (dict_kline s)\<rparr>)
      else
        let (now, s) = ws_time s;
            params = JArray [JString (kk_market key), JInteger (now - c_int (ws_kline_interval C + 1)), JInteger now, JInteger (kk_interval key)] in
        case nw_state_new (ws_backend_timeout C) key (kline_context s) of
          None \<Rightarrow> None
        | Some (i, context) \<Rightarrow>
            (case json_dumps J params of
               None \<Rightarrow> None
             | Some body \<Rightarrow>
                 kline_timer_loop J C entries
                   (rpc_clt_send AwKline (request_pkg CMD_MARKET_KLINE i 0 body) (s\<lparr>kline_context := context\<rparr>))))"

definition kline_on_timer :: "text_lib \<Rightarrow> 'd ws_settings \<Rightarrow> 'z aw_kline_scheme \<Rightarrow> 'z aw_kline_scheme option" where
  "kline_on_timer J C s = kline_timer_loop J C (dict_kline s) s"

section \<open>Subscribing\<close>

definition kline_subscribe :: "nat \<Rightarrow> string \<Rightarrow> int \<Rightarrow> 'z aw_kline_scheme \<Rightarrow> int \<times> 'z aw_kline_scheme" where
  "kline_subscribe ses market interval s =
     (let key = \<lparr> kk_market = take (MARKET_NAME_MAX_LEN - 1) market, kk_interval = interval \<rparr>;
          obj = (case dv_find (dict_kline s) key of None \<Rightarrow> \<lparr> kv_sessions = [], kv_last = None \<rparr> | Some obj \<Rightarrow> obj);
          obj = obj\<lparr>kv_sessions := sessions_add ses (kv_sessions obj)\<rparr> in
      (0, s\<lparr>dict_kline := dv_put key obj (dict_kline s)\<rparr>))"

definition kline_unsubscribe :: "nat \<Rightarrow> 'z aw_kline_scheme \<Rightarrow> 'z aw_kline_scheme" where
  "kline_unsubscribe ses s =
     s\<lparr>dict_kline := map (\<lambda>(key, obj). (key, obj\<lparr>kv_sessions := dv_delete ses (kv_sessions obj)\<rparr>)) (dict_kline s)\<rparr>"

end
