(* ===== verification/Ws_State.thy ===== *)
theory Ws_State
  imports Ws_Kline
begin

text \<open>
  \<open>accessws/aw_state.c\<close>: subscriptions to the state of a market over the last 24 hours, asked from the market
  data server every interval. Subscribers get it when its text has changed. \<open>accessws/aw_today.c\<close> does the same with the state of the day.
\<close>

record market_val =
  mv_sessions :: sessions
  mv_last :: "json option"

text \<open>The texts with sorted keys are compared; \<open>None\<close>: one of them is \<open>NULL\<close>.\<close>

definition status_changed :: "text_lib \<Rightarrow> json \<Rightarrow> json \<Rightarrow> bool option" where
  "status_changed J las result =
     (case (json_dumps_sorted J las, json_dumps_sorted J result) of
        (Some last_str, Some curr_str) \<Rightarrow> Some (last_str \<noteq> curr_str)
      | _ \<Rightarrow> None)"

section \<open>State\<close>

record aw_state = aw_kline +
  state_market :: "(string, market_val) dict_view"
  state_context :: "string nw_state"

section \<open>Replies\<close>

definition on_market_status_reply :: "text_lib \<Rightarrow> string \<Rightarrow> json \<Rightarrow> 'z aw_state_scheme \<Rightarrow> (int \<times> 'z aw_state_scheme) option" where
  "on_market_status_reply J market result s =
     (case dv_find (state_market s) market of
        None \<Rightarrow> Some (- 84, s)
      | Some obj \<Rightarrow>
          (case (case mv_last obj of None \<Rightarrow> Some True | Some las \<Rightarrow> status_changed J las result) of
             None \<Rightarrow> None
           | Some False \<Rightarrow> Some (0, s)
           | Some True \<Rightarrow>
               let s = s\<lparr>state_market := dv_put market (obj\<lparr>mv_last := Some result\<rparr>) (state_market s)\<rparr> in
               Some (0, notify_sessions J (map fst (mv_sessions obj)) ''state.update'' (JArray [JString market, result]) s)))"

definition state_on_backend_recv_pkg :: "text_lib \<Rightarrow> rpc_pkg \<Rightarrow> 'z aw_state_scheme \<Rightarrow> 'z aw_state_scheme option" where
  "state_on_backend_recv_pkg J pkg s =
     (case nw_state_get (state_context s) (rp_sequence pkg) of
        None \<Rightarrow> Some s
      | Some entry \<Rightarrow>
          let market = se_data entry in
          map_option (\<lambda>s. s\<lparr>state_context := snd (nw_state_del (rp_sequence pkg) (state_context s))\<rparr>)
            (case json_loadb J (pkg_body pkg) of
               None \<Rightarrow> Some s
             | Some reply \<Rightarrow>
                 let s = (if reply_failed reply then s\<lparr>state_market := dv_delete market (state_market s)\<rparr> else s) in
                 (case reply_value reply of
                    None \<Rightarrow> Some s
                  | Some result \<Rightarrow>
                      if rp_command pkg = CMD_MARKET_STATUS then map_option snd (on_market_status_reply J market result s) else Some s)))"

section \<open>The timer\<close>

fun state_timer_loop :: "text_lib \<Rightarrow> 'd ws_settings \<Rightarrow> (string \<times> market_val) list \<Rightarrow> 'z aw_state_scheme \<Rightarrow> 'z aw_state_scheme option" where
  "state_timer_loop J C [] s = Some s"
| "state_timer_loop J C ((market, obj) # entries) s =
     (if mv_sessions obj = [] then state_timer_loop J C entries (s\<lparr>state_market := dv_delete market (state_market s)\<rparr>)
      else
        let params = JArray [JString market, JInteger 86400] in
        case nw_state_new (ws_backend_timeout C) (take (MARKET_NAME_MAX_LEN - 1) market) (state_context s) of
          None \<Rightarrow> None
        | Some (i, context) \<Rightarrow>
            (case json_dumps J params of
               None \<Rightarrow> None
             | Some body \<Rightarrow>
                 state_timer_loop J C entries
                   (rpc_clt_send AwState (request_pkg CMD_MARKET_STATUS i 0 body) (s\<lparr>state_context := context\<rparr>))))"

definition state_on_timer :: "text_lib \<Rightarrow> 'd ws_settings \<Rightarrow> 'z aw_state_scheme \<Rightarrow> 'z aw_state_scheme option" where
  "state_on_timer J C s = state_timer_loop J C (state_market s) s"

section \<open>Subscribing\<close>

definition state_subscribe :: "nat \<Rightarrow> string \<Rightarrow> 'z aw_state_scheme \<Rightarrow> int \<times> 'z aw_state_scheme" where
  "state_subscribe ses market s =
     (let obj = (case dv_find (state_market s) market of None \<Rightarrow> \<lparr> mv_sessions = [], mv_last = None \<rparr> | Some obj \<Rightarrow> obj);
          obj = obj\<lparr>mv_sessions := sessions_add ses (mv_sessions obj)\<rparr> in
      (0, s\<lparr>state_market := dv_put market obj (state_market s)\<rparr>))"

definition state_unsubscribe :: "nat \<Rightarrow> 'z aw_state_scheme \<Rightarrow> 'z aw_state_scheme" where
  "state_unsubscribe ses s =
     s\<lparr>state_market := map (\<lambda>(market, obj). (market, obj\<lparr>mv_sessions := dv_delete ses (mv_sessions obj)\<rparr>)) (state_market s)\<rparr>"

definition state_send_last :: "text_lib \<Rightarrow> nat \<Rightarrow> string \<Rightarrow> 'z aw_state_scheme \<Rightarrow> 'z aw_state_scheme" where
  "state_send_last J ses market s =
     (case dv_find (state_market s) market of
        None \<Rightarrow> s
      | Some obj \<Rightarrow>
          (case mv_last obj of
             None \<Rightarrow> s
           | Some las \<Rightarrow> send_notify J ses ''state.update'' (JArray [JString market, las]) s))"

text \<open>\<open>accessws/aw_today.c\<close>: subscriptions to the state of a market since midnight, as in \<open>aw_state.c\<close>.\<close>

section \<open>State\<close>

record aw_today = aw_state +
  today_market :: "(string, market_val) dict_view"
  today_context :: "string nw_state"

section \<open>Replies\<close>

definition on_market_status_today_reply :: "text_lib \<Rightarrow> string \<Rightarrow> json \<Rightarrow> 'z aw_today_scheme \<Rightarrow> (int \<times> 'z aw_today_scheme) option" where
  "on_market_status_today_reply J market result s =
     (case dv_find (today_market s) market of
        None \<Rightarrow> Some (- 84, s)
      | Some obj \<Rightarrow>
          (case (case mv_last obj of None \<Rightarrow> Some True | Some las \<Rightarrow> status_changed J las result) of
             None \<Rightarrow> None
           | Some False \<Rightarrow> Some (0, s)
           | Some True \<Rightarrow>
               let s = s\<lparr>today_market := dv_put market (obj\<lparr>mv_last := Some result\<rparr>) (today_market s)\<rparr> in
               Some (0, notify_sessions J (map fst (mv_sessions obj)) ''today.update'' (JArray [JString market, result]) s)))"

definition today_on_backend_recv_pkg :: "text_lib \<Rightarrow> rpc_pkg \<Rightarrow> 'z aw_today_scheme \<Rightarrow> 'z aw_today_scheme option" where
  "today_on_backend_recv_pkg J pkg s =
     (case nw_state_get (today_context s) (rp_sequence pkg) of
        None \<Rightarrow> Some s
      | Some entry \<Rightarrow>
          let market = se_data entry in
          map_option (\<lambda>s. s\<lparr>today_context := snd (nw_state_del (rp_sequence pkg) (today_context s))\<rparr>)
            (case json_loadb J (pkg_body pkg) of
               None \<Rightarrow> Some s
             | Some reply \<Rightarrow>
                 let s = (if reply_failed reply then s\<lparr>today_market := dv_delete market (today_market s)\<rparr> else s) in
                 (case reply_value reply of
                    None \<Rightarrow> Some s
                  | Some result \<Rightarrow>
                      if rp_command pkg = CMD_MARKET_STATUS_TODAY then map_option snd (on_market_status_today_reply J market result s) else Some s)))"

section \<open>The timer\<close>

fun today_timer_loop :: "text_lib \<Rightarrow> 'd ws_settings \<Rightarrow> (string \<times> market_val) list \<Rightarrow> 'z aw_today_scheme \<Rightarrow> 'z aw_today_scheme option" where
  "today_timer_loop J C [] s = Some s"
| "today_timer_loop J C ((market, obj) # entries) s =
     (if mv_sessions obj = [] then today_timer_loop J C entries (s\<lparr>today_market := dv_delete market (today_market s)\<rparr>)
      else
        let params = JArray [JString market] in
        case nw_state_new (ws_backend_timeout C) (take (MARKET_NAME_MAX_LEN - 1) market) (today_context s) of
          None \<Rightarrow> None
        | Some (i, context) \<Rightarrow>
            (case json_dumps J params of
               None \<Rightarrow> None
             | Some body \<Rightarrow>
                 today_timer_loop J C entries
                   (rpc_clt_send AwToday (request_pkg CMD_MARKET_STATUS_TODAY i 0 body) (s\<lparr>today_context := context\<rparr>))))"

definition today_on_timer :: "text_lib \<Rightarrow> 'd ws_settings \<Rightarrow> 'z aw_today_scheme \<Rightarrow> 'z aw_today_scheme option" where
  "today_on_timer J C s = today_timer_loop J C (today_market s) s"

section \<open>Subscribing\<close>

definition today_subscribe :: "nat \<Rightarrow> string \<Rightarrow> 'z aw_today_scheme \<Rightarrow> int \<times> 'z aw_today_scheme" where
  "today_subscribe ses market s =
     (let obj = (case dv_find (today_market s) market of None \<Rightarrow> \<lparr> mv_sessions = [], mv_last = None \<rparr> | Some obj \<Rightarrow> obj);
          obj = obj\<lparr>mv_sessions := sessions_add ses (mv_sessions obj)\<rparr> in
      (0, s\<lparr>today_market := dv_put market obj (today_market s)\<rparr>))"

definition today_unsubscribe :: "nat \<Rightarrow> 'z aw_today_scheme \<Rightarrow> 'z aw_today_scheme" where
  "today_unsubscribe ses s =
     s\<lparr>today_market := map (\<lambda>(market, obj). (market, obj\<lparr>mv_sessions := dv_delete ses (mv_sessions obj)\<rparr>)) (today_market s)\<rparr>"

definition today_send_last :: "text_lib \<Rightarrow> nat \<Rightarrow> string \<Rightarrow> 'z aw_today_scheme \<Rightarrow> 'z aw_today_scheme" where
  "today_send_last J ses market s =
     (case dv_find (today_market s) market of
        None \<Rightarrow> s
      | Some obj \<Rightarrow>
          (case mv_last obj of
             None \<Rightarrow> s
           | Some las \<Rightarrow> send_notify J ses ''today.update'' (JArray [JString market, las]) s))"

end
