(* ===== verification/Ws_Price.thy ===== *)
theory Ws_Price
  imports Ws_State
begin

text \<open>\<open>accessws/aw_price.c\<close>: subscriptions to the last price of a market. The price 0 stands for no price yet. \<open>accessws/aw_deals.c\<close>:
  subscriptions to the deals of a market.\<close>

section \<open>State\<close>

record 'd price_val =
  pv_sessions :: sessions
  pv_last :: 'd

record 'd aw_price = aw_today +
  price_market :: "(string, 'd price_val) dict_view"
  price_context :: "string nw_state"

section \<open>Replies\<close>

definition on_market_last_reply :: "'d mpd_lib \<Rightarrow> text_lib \<Rightarrow> string \<Rightarrow> json \<Rightarrow> ('d, 'z) aw_price_scheme \<Rightarrow> int \<times> ('d, 'z) aw_price_scheme" where
  "on_market_last_reply D J market result s =
     (case dv_find (price_market s) market of
        None \<Rightarrow> (- 83, s)
      | Some obj \<Rightarrow>
          (case json_string_value (Some result) of
             None \<Rightarrow> (- 87, s)
           | Some str \<Rightarrow>
               (case decimal D str 0 of
                  None \<Rightarrow> (- 90, s)
                | Some las \<Rightarrow>
                    if mpd_cmp D las (pv_last obj) \<noteq> 0 then
                      let s = s\<lparr>price_market := dv_put market (obj\<lparr>pv_last := las\<rparr>) (price_market s)\<rparr> in
                      (0, notify_sessions J (map fst (pv_sessions obj)) ''price.update'' (JArray [JString market, result]) s)
                    else (0, s))))"

definition price_on_backend_recv_pkg :: "'d mpd_lib \<Rightarrow> text_lib \<Rightarrow> rpc_pkg \<Rightarrow> ('d, 'z) aw_price_scheme \<Rightarrow> ('d, 'z) aw_price_scheme" where
  "price_on_backend_recv_pkg D J pkg s =
     (case nw_state_get (price_context s) (rp_sequence pkg) of
        None \<Rightarrow> s
      | Some entry \<Rightarrow>
          let market = se_data entry;
              s = (case json_loadb J (pkg_body pkg) of
                     None \<Rightarrow> s
                   | Some reply \<Rightarrow>
                       let s = (if reply_failed reply then s\<lparr>price_market := dv_delete market (price_market s)\<rparr> else s) in
                       (case reply_value reply of
                          None \<Rightarrow> s
                        | Some result \<Rightarrow>
                            if rp_command pkg = CMD_MARKET_LAST then snd (on_market_last_reply D J market result s) else s)) in
          s\<lparr>price_context := snd (nw_state_del (rp_sequence pkg) (price_context s))\<rparr>)"

section \<open>The timer\<close>

fun price_timer_loop :: "text_lib \<Rightarrow> 'c ws_settings \<Rightarrow> (string \<times> 'd price_val) list \<Rightarrow> ('d, 'z) aw_price_scheme \<Rightarrow> ('d, 'z) aw_price_scheme option" where
  "price_timer_loop J C [] s = Some s"
| "price_timer_loop J C ((market, obj) # entries) s =
     (if pv_sessions obj = [] then price_timer_loop J C entries (s\<lparr>price_market := dv_delete market (price_market s)\<rparr>)
      else
        let params = JArray [JString market] in
        case nw_state_new (ws_backend_timeout C) (take (MARKET_NAME_MAX_LEN - 1) market) (price_context s) of
          None \<Rightarrow> None
        | Some (i, context) \<Rightarrow>
            (case json_dumps J params of
               None \<Rightarrow> None
             | Some body \<Rightarrow>
                 price_timer_loop J C entries
                   (rpc_clt_send AwPrice (request_pkg CMD_MARKET_LAST i 0 body) (s\<lparr>price_context := context\<rparr>))))"

definition price_on_timer :: "text_lib \<Rightarrow> 'c ws_settings \<Rightarrow> ('d, 'z) aw_price_scheme \<Rightarrow> ('d, 'z) aw_price_scheme option" where
  "price_on_timer J C s = price_timer_loop J C (price_market s) s"

section \<open>Subscribing\<close>

definition price_subscribe :: "'d mpd_lib \<Rightarrow> nat \<Rightarrow> string \<Rightarrow> ('d, 'z) aw_price_scheme \<Rightarrow> int \<times> ('d, 'z) aw_price_scheme" where
  "price_subscribe D ses market s =
     (let obj = (case dv_find (price_market s) market of None \<Rightarrow> \<lparr> pv_sessions = [], pv_last = mpd_zero D \<rparr> | Some obj \<Rightarrow> obj);
          obj = obj\<lparr>pv_sessions := sessions_add ses (pv_sessions obj)\<rparr> in
      (0, s\<lparr>price_market := dv_put market obj (price_market s)\<rparr>))"

definition price_unsubscribe :: "nat \<Rightarrow> ('d, 'z) aw_price_scheme \<Rightarrow> ('d, 'z) aw_price_scheme" where
  "price_unsubscribe ses s =
     s\<lparr>price_market := map (\<lambda>(market, obj). (market, obj\<lparr>pv_sessions := dv_delete ses (pv_sessions obj)\<rparr>)) (price_market s)\<rparr>"

definition price_send_last :: "'d mpd_lib \<Rightarrow> text_lib \<Rightarrow> nat \<Rightarrow> string \<Rightarrow> ('d, 'z) aw_price_scheme \<Rightarrow> ('d, 'z) aw_price_scheme" where
  "price_send_last D J ses market s =
     (case dv_find (price_market s) market of
        None \<Rightarrow> s
      | Some obj \<Rightarrow>
          if mpd_cmp D (pv_last obj) (mpd_zero D) = 0 then s
          else send_notify J ses ''price.update'' (json_array_append_new_mpd D (JArray [JString market]) (pv_last obj)) s)"

text \<open>
  \<open>accessws/aw_deals.c\<close>: subscriptions to the deals of a market. Every interval the deals after the last
  known one are asked from the market data server, newest first; they go to the subscribers and to the
  front of a list of the last hundred.
\<close>

section \<open>State\<close>

definition DEALS_QUERY_LIMIT :: nat where "DEALS_QUERY_LIMIT = 100"

record deals_val =
  ds_sessions :: sessions
  ds_deals :: "json list"
  ds_last_id :: u64

record 'd aw_deals = "'d aw_price" +
  deals_market :: "(string, deals_val) dict_view"
  deals_context :: "string nw_state"

section \<open>Replies\<close>

text \<open>The deals are put at the head of the list from the last one to the first; the list is cut at its tail.\<close>

fun deals_add :: "json list \<Rightarrow> json list \<Rightarrow> json list" where
  "deals_add [] deals = deals"
| "deals_add (deal # result) deals = deal # deals_add result deals"

definition deals_cut :: "json list \<Rightarrow> json list" where
  "deals_cut deals = take DEALS_QUERY_LIMIT deals"

definition on_order_deals_reply :: "text_lib \<Rightarrow> string \<Rightarrow> json \<Rightarrow> ('d, 'z) aw_deals_scheme \<Rightarrow> int \<times> ('d, 'z) aw_deals_scheme" where
  "on_order_deals_reply J market result s =
     (case dv_find (deals_market s) market of
        None \<Rightarrow> (- 91, s)
      | Some obj \<Rightarrow>
          if \<not> json_is_array (Some result) then (- 95, s)
          else if json_array_size result = 0 then (0, s)
          else
            let first = json_elements result ! 0;
                i = word_of_int (json_integer_value (json_object_get first ''id'')) :: u64 in
            if i = 0 then (- 103, s)
            else
              let obj = obj\<lparr>ds_last_id := i, ds_deals := deals_cut (deals_add (json_elements result) (ds_deals obj))\<rparr>;
                  s = s\<lparr>deals_market := dv_put market obj (deals_market s)\<rparr> in
              (0, notify_sessions J (map fst (ds_sessions obj)) ''deals.update'' (JArray [JString market, result]) s))"

definition deals_on_backend_recv_pkg :: "text_lib \<Rightarrow> rpc_pkg \<Rightarrow> ('d, 'z) aw_deals_scheme \<Rightarrow> ('d, 'z) aw_deals_scheme" where
  "deals_on_backend_recv_pkg J pkg s =
     (case nw_state_get (deals_context s) (rp_sequence pkg) of
        None \<Rightarrow> s
      | Some entry \<Rightarrow>
          let market = se_data entry;
              s = (case json_loadb J (pkg_body pkg) of
                     None \<Rightarrow> s
                   | Some reply \<Rightarrow>
                       let s = (if reply_failed reply then s\<lparr>deals_market := dv_delete market (deals_market s)\<rparr> else s) in
                       (case reply_value reply of
                          None \<Rightarrow> s
                        | Some result \<Rightarrow>
                            if rp_command pkg = CMD_MARKET_DEALS then snd (on_order_deals_reply J market result s) else s)) in
          s\<lparr>deals_context := snd (nw_state_del (rp_sequence pkg) (deals_context s))\<rparr>)"

section \<open>The timer\<close>

fun deals_timer_loop :: "text_lib \<Rightarrow> 'c ws_settings \<Rightarrow> (string \<times> deals_val) list \<Rightarrow> ('d, 'z) aw_deals_scheme \<Rightarrow> ('d, 'z) aw_deals_scheme option" where
  "deals_timer_loop J C [] s = Some s"
| "deals_timer_loop J C ((market, obj) # entries) s =
     (if ds_sessions obj = [] then deals_timer_loop J C entries (s\<lparr>deals_market := dv_delete market (deals_market s)\<rparr>)
      else
        let params = JArray [JString market, JInteger (int DEALS_QUERY_LIMIT), json_u64 (ds_last_id obj)] in
        case nw_state_new (ws_backend_timeout C) (take (MARKET_NAME_MAX_LEN - 1) market) (deals_context s) of
          None \<Rightarrow> None
        | Some (i, context) \<Rightarrow>
            (case json_dumps J params of
               None \<Rightarrow> None
             | Some body \<Rightarrow>
                 deals_timer_loop J C entries
                   (rpc_clt_send AwDeals (request_pkg CMD_MARKET_DEALS i 0 body) (s\<lparr>deals_context := context\<rparr>))))"

definition deals_on_timer :: "text_lib \<Rightarrow> 'c ws_settings \<Rightarrow> ('d, 'z) aw_deals_scheme \<Rightarrow> ('d, 'z) aw_deals_scheme option" where
  "deals_on_timer J C s = deals_timer_loop J C (deals_market s) s"

section \<open>Subscribing\<close>

definition deals_subscribe :: "nat \<Rightarrow> string \<Rightarrow> ('d, 'z) aw_deals_scheme \<Rightarrow> int \<times> ('d, 'z) aw_deals_scheme" where
  "deals_subscribe ses market s =
     (let obj = (case dv_find (deals_market s) market of
                   None \<Rightarrow> \<lparr> ds_sessions = [], ds_deals = [], ds_last_id = 0 \<rparr> | Some obj \<Rightarrow> obj);
          obj = obj\<lparr>ds_sessions := sessions_add ses (ds_sessions obj)\<rparr> in
      (0, s\<lparr>deals_market := dv_put market obj (deals_market s)\<rparr>))"

definition deals_send_full :: "text_lib \<Rightarrow> nat \<Rightarrow> string \<Rightarrow> ('d, 'z) aw_deals_scheme \<Rightarrow> int \<times> ('d, 'z) aw_deals_scheme" where
  "deals_send_full J ses market s =
     (case dv_find (deals_market s) market of
        None \<Rightarrow> (- 304, s)
      | Some obj \<Rightarrow>
          if ds_deals obj = [] then (0, s)
          else (0, send_notify J ses ''deals.update'' (JArray [JString market, JArray (ds_deals obj)]) s))"

definition deals_unsubscribe :: "nat \<Rightarrow> ('d, 'z) aw_deals_scheme \<Rightarrow> ('d, 'z) aw_deals_scheme" where
  "deals_unsubscribe ses s =
     s\<lparr>deals_market := map (\<lambda>(market, obj). (market, obj\<lparr>ds_sessions := dv_delete ses (ds_sessions obj)\<rparr>)) (deals_market s)\<rparr>"

end
