(* ===== verification/Ws_User.thy ===== *)
theory Ws_User
  imports Ws_Price
begin

text \<open>
  What a session gets about its own user: \<open>accessws/aw_order.c\<close> (orders), \<open>aw_asset.c\<close> (balances), and
  \<open>aw_message.c\<close>, which reads the reports of the engine from Kafka.
\<close>

section \<open>State\<close>

text \<open>Both files keep, per user, a list of sessions with the market or asset each wants.\<close>

record sub_unit =
  su_ses :: nat
  su_name :: string

record asset_query =
  aq_user_id :: u32
  aq_asset :: string

record 'd aw_user = "'d aw_deals" +
  order_sub :: "(u32, sub_unit list) dict_view"
  asset_sub :: "(u32, sub_unit list) dict_view"
  asset_context :: "asset_query nw_state"

section \<open>Orders\<close>

definition order_subscribe :: "u32 \<Rightarrow> nat \<Rightarrow> string \<Rightarrow> ('d, 'z) aw_user_scheme \<Rightarrow> int \<times> ('d, 'z) aw_user_scheme" where
  "order_subscribe user_id ses market s =
     (let list = (case dv_find (order_sub s) user_id of None \<Rightarrow> [] | Some list \<Rightarrow> list);
          unit = \<lparr> su_ses = ses, su_name = take (MARKET_NAME_MAX_LEN - 1) market \<rparr> in
      (0, s\<lparr>order_sub := dv_put user_id (if unit \<in> set list then list else list @ [unit]) (order_sub s)\<rparr>))"

definition order_unsubscribe :: "u32 \<Rightarrow> nat \<Rightarrow> ('d, 'z) aw_user_scheme \<Rightarrow> ('d, 'z) aw_user_scheme" where
  "order_unsubscribe user_id ses s =
     (case dv_find (order_sub s) user_id of
        None \<Rightarrow> s
      | Some list \<Rightarrow>
          let list = filter (\<lambda>unit. su_ses unit \<noteq> ses) list in
          s\<lparr>order_sub := (if list = [] then dv_delete user_id (order_sub s) else dv_put user_id list (order_sub s))\<rparr>)"

definition order_on_update :: "text_lib \<Rightarrow> u32 \<Rightarrow> int \<Rightarrow> json \<Rightarrow> ('d, 'z) aw_user_scheme \<Rightarrow> int \<times> ('d, 'z) aw_user_scheme" where
  "order_on_update J user_id event order s =
     (case json_string_value (json_object_get order ''market'') of
        None \<Rightarrow> (- 125, s)
      | Some market \<Rightarrow>
          (case dv_find (order_sub s) user_id of
             None \<Rightarrow> (0, s)
           | Some list \<Rightarrow>
               (0, notify_sessions J (map su_ses (filter (\<lambda>unit. su_name unit = market) list)) ''order.update''
                     (JArray [JInteger event, order]) s)))"

section \<open>Assets\<close>

definition asset_subscribe :: "u32 \<Rightarrow> nat \<Rightarrow> string \<Rightarrow> ('d, 'z) aw_user_scheme \<Rightarrow> int \<times> ('d, 'z) aw_user_scheme" where
  "asset_subscribe user_id ses asset s =
     (let list = (case dv_find (asset_sub s) user_id of None \<Rightarrow> [] | Some list \<Rightarrow> list);
          unit = \<lparr> su_ses = ses, su_name = take (WS_ASSET_NAME_MAX_LEN - 1) asset \<rparr> in
      (0, s\<lparr>asset_sub := dv_put user_id (if unit \<in> set list then list else list @ [unit]) (asset_sub s)\<rparr>))"

definition asset_unsubscribe :: "u32 \<Rightarrow> nat \<Rightarrow> ('d, 'z) aw_user_scheme \<Rightarrow> ('d, 'z) aw_user_scheme" where
  "asset_unsubscribe user_id ses s =
     (case dv_find (asset_sub s) user_id of
        None \<Rightarrow> s
      | Some list \<Rightarrow>
          let list = filter (\<lambda>unit. su_ses unit \<noteq> ses) list in
          s\<lparr>asset_sub := (if list = [] then dv_delete user_id (asset_sub s) else dv_put user_id list (asset_sub s))\<rparr>)"

text \<open>A change of a balance: when somebody listens, the balance is asked from the engine.\<close>

definition asset_on_update :: "text_lib \<Rightarrow> 'c ws_settings \<Rightarrow> u32 \<Rightarrow> string \<Rightarrow> ('d, 'z) aw_user_scheme \<Rightarrow> ('d, 'z) aw_user_scheme option" where
  "asset_on_update J C user_id asset s =
     (case dv_find (asset_sub s) user_id of
        None \<Rightarrow> Some s
      | Some list \<Rightarrow>
          if \<not> list_ex (\<lambda>unit. su_name unit = asset) list then Some s
          else
            let trade_params = JArray [json_u32 user_id, JString asset];
                data = \<lparr> aq_user_id = user_id, aq_asset = take (WS_ASSET_NAME_MAX_LEN - 1) asset \<rparr> in
            case nw_state_new (ws_backend_timeout C) data (asset_context s) of
              None \<Rightarrow> None
            | Some (i, context) \<Rightarrow>
                (case json_dumps J trade_params of
                   None \<Rightarrow> None
                 | Some body \<Rightarrow> Some (rpc_clt_send AwAsset (request_pkg CMD_BALANCE_QUERY i 0 body) (s\<lparr>asset_context := context\<rparr>))))"

definition on_balance_query_reply :: "text_lib \<Rightarrow> asset_query \<Rightarrow> json \<Rightarrow> ('d, 'z) aw_user_scheme \<Rightarrow> ('d, 'z) aw_user_scheme" where
  "on_balance_query_reply J state result s =
     (case dv_find (asset_sub s) (aq_user_id state) of
        None \<Rightarrow> s
      | Some list \<Rightarrow>
          notify_sessions J (map su_ses (filter (\<lambda>unit. su_name unit = aq_asset state) list)) ''asset.update'' (JArray [result]) s)"

definition asset_on_backend_recv_pkg :: "text_lib \<Rightarrow> rpc_pkg \<Rightarrow> ('d, 'z) aw_user_scheme \<Rightarrow> ('d, 'z) aw_user_scheme" where
  "asset_on_backend_recv_pkg J pkg s =
     (case nw_state_get (asset_context s) (rp_sequence pkg) of
        None \<Rightarrow> s
      | Some entry \<Rightarrow>
          let s = (case json_loadb J (pkg_body pkg) of
                     None \<Rightarrow> s
                   | Some reply \<Rightarrow>
                       (case reply_value reply of
                          None \<Rightarrow> s
                        | Some result \<Rightarrow>
                            if rp_command pkg = CMD_BALANCE_QUERY then on_balance_query_reply J (se_data entry) result s else s)) in
          s\<lparr>asset_context := snd (nw_state_del (rp_sequence pkg) (asset_context s))\<rparr>)"

section \<open>Messages of the engine\<close>

text \<open>\<open>None\<close>: as for \<open>asset_on_update\<close>.\<close>

definition process_orders_message :: "text_lib \<Rightarrow> 'c ws_settings \<Rightarrow> json \<Rightarrow> ('d, 'z) aw_user_scheme \<Rightarrow> (int \<times> ('d, 'z) aw_user_scheme) option" where
  "process_orders_message J C msg s =
     (let event = sint (word_of_int (json_integer_value (json_object_get msg ''event'')) :: u32) in
      if event = 0 then Some (- 18, s)
      else case json_object_get msg ''order'' of
        None \<Rightarrow> Some (- 21, s)
      | Some order \<Rightarrow>
          let user_id = word_of_int (json_integer_value (json_object_get order ''user'')) :: u32 in
          case (json_string_value (json_object_get msg ''stock''), json_string_value (json_object_get msg ''money'')) of
            (Some stock, Some money) \<Rightarrow>
              if user_id = 0 then Some (- 26, s)
              else
                (case asset_on_update J C user_id stock s of
                   None \<Rightarrow> None
                 | Some s \<Rightarrow>
                     (case asset_on_update J C user_id money s of
                        None \<Rightarrow> None
                      | Some s \<Rightarrow> Some (0, snd (order_on_update J user_id event order s))))
          | _ \<Rightarrow> Some (- 26, s))"

definition on_orders_message :: "text_lib \<Rightarrow> 'c ws_settings \<Rightarrow> string \<Rightarrow> ('d, 'z) aw_user_scheme \<Rightarrow> ('d, 'z) aw_user_scheme option" where
  "on_orders_message J C message s =
     (case json_loadb J message of None \<Rightarrow> Some s | Some msg \<Rightarrow> map_option snd (process_orders_message J C msg s))"

definition process_balances_message :: "text_lib \<Rightarrow> 'c ws_settings \<Rightarrow> json \<Rightarrow> ('d, 'z) aw_user_scheme \<Rightarrow> (int \<times> ('d, 'z) aw_user_scheme) option" where
  "process_balances_message J C msg s =
     (let user_id = word_of_int (json_integer_value (json_array_get msg 1)) :: u32 in
      case json_string_value (json_array_get msg 2) of
        None \<Rightarrow> Some (- 57, s)
      | Some asset \<Rightarrow>
          if user_id = 0 then Some (- 57, s)
          else map_option (\<lambda>s. (0, s)) (asset_on_update J C user_id asset s))"

definition on_balances_message :: "text_lib \<Rightarrow> 'c ws_settings \<Rightarrow> string \<Rightarrow> ('d, 'z) aw_user_scheme \<Rightarrow> ('d, 'z) aw_user_scheme option" where
  "on_balances_message J C message s =
     (case json_loadb J message of None \<Rightarrow> Some s | Some msg \<Rightarrow> map_option snd (process_balances_message J C msg s))"

end
