(* ===== verification/Ws_Auth.thy ===== *)
theory Ws_Auth
  imports Ws_User
begin

text \<open>
  \<open>accessws/aw_auth.c\<close> and \<open>aw_sign.c\<close>: a session becomes a user's by a token or a signature that an
  external HTTP service checks. The request to the service is a job of a worker thread (\<open>on_job\<close>, with curl);
  here the jobs are recorded and \<open>on_finish\<close> is called with the JSON value the service answered, if any.
\<close>

section \<open>State\<close>

record ws_clt_info =
  ci_auth :: bool
  ci_user_id :: u32
  ci_source :: "string option"

text \<open>
  The private data of a session is found by the address of the session. A pending request keeps both
  pointers; it uses them only while the session has the id it had.
\<close>

record auth_data =
  ad_ses :: nat
  ad_ses_id :: u64
  ad_request_id :: u64

record sign_request =
  sr_access_id :: string
  sr_authorisation :: string
  sr_tonce :: u64

record 'd aw_auth = "'d aw_user" +
  info :: "nat \<Rightarrow> ws_clt_info"
  auth_context :: "auth_data nw_state"
  auth_jobs :: "(u32 \<times> string) list"
  sign_context :: "auth_data nw_state"
  sign_jobs :: "(u32 \<times> sign_request) list"

section \<open>The answer of the service\<close>

datatype auth_verdict = AuthUser u32 | AuthRefused string | AuthInvalid

text \<open>How \<open>on_result\<close> reads the answer; \<open>AuthInvalid\<close> is the label \<open>error\<close>.\<close>

definition auth_answer :: "json option \<Rightarrow> auth_verdict" where
  "auth_answer result =
     (case result of
        None \<Rightarrow> AuthInvalid
      | Some result \<Rightarrow>
          (case json_object_get result ''code'' of
             None \<Rightarrow> AuthInvalid
           | Some code \<Rightarrow>
               if (word_of_int (json_integer_value (Some code)) :: u32) \<noteq> 0 then
                 (case json_string_value (json_object_get result ''message'') of
                    None \<Rightarrow> AuthInvalid
                  | Some message \<Rightarrow> AuthRefused message)
               else
                 (case json_object_get result ''data'' of
                    None \<Rightarrow> AuthInvalid
                  | Some data \<Rightarrow>
                      let user_id = word_of_int (json_integer_value (json_object_get data ''user_id'')) in
                      if user_id = 0 then AuthInvalid else AuthUser user_id)))"

definition auth_on_result :: "text_lib \<Rightarrow> auth_data \<Rightarrow> json option \<Rightarrow> ('d, 'z) aw_auth_scheme \<Rightarrow> ('d, 'z) aw_auth_scheme" where
  "auth_on_result J state result s =
     (let ses = ad_ses state in
      if ses_id s ses \<noteq> ad_ses_id state then s
      else case auth_answer result of
        AuthInvalid \<Rightarrow> snd (send_error_internal_error J ses (ad_request_id state) s)
      | AuthRefused message \<Rightarrow> snd (send_error J ses (ad_request_id state) 11 message s)
      | AuthUser user_id \<Rightarrow>
          let old = info s ses;
              s = (if ci_auth old \<and> ci_user_id old \<noteq> user_id
                   then order_unsubscribe (ci_user_id old) ses (asset_unsubscribe (ci_user_id old) ses s) else s);
              s = s\<lparr>info := (info s)(ses := old\<lparr>ci_auth := True, ci_user_id := user_id\<rparr>)\<rparr> in
          snd (send_success J ses (ad_request_id state) s))"

section \<open>Tokens\<close>

definition auth_on_finish :: "text_lib \<Rightarrow> u32 \<Rightarrow> json option \<Rightarrow> ('d, 'z) aw_auth_scheme \<Rightarrow> ('d, 'z) aw_auth_scheme" where
  "auth_on_finish J i reply s =
     (case nw_state_get (auth_context s) i of
        None \<Rightarrow> s
      | Some state \<Rightarrow>
          let s = auth_on_result J (se_data state) reply s in
          s\<lparr>auth_context := snd (nw_state_del i (auth_context s))\<rparr>)"

definition auth_on_timeout :: "text_lib \<Rightarrow> auth_data state_entry \<Rightarrow> ('d, 'z) aw_auth_scheme \<Rightarrow> ('d, 'z) aw_auth_scheme" where
  "auth_on_timeout J entry s =
     (let state = se_data entry;
          s = (if ses_id s (ad_ses state) = ad_ses_id state
               then snd (send_error_service_timeout J (ad_ses state) (ad_request_id state) s) else s) in
      s\<lparr>auth_context := state_on_timeout entry (auth_context s)\<rparr>)"

definition send_auth_request :: "text_lib \<Rightarrow> 'c ws_settings \<Rightarrow> nat \<Rightarrow> u64 \<Rightarrow> json \<Rightarrow> ('d, 'z) aw_auth_scheme \<Rightarrow> (int \<times> ('d, 'z) aw_auth_scheme) option" where
  "send_auth_request J C ses i params s =
     (let invalid = Some (send_error_invalid_argument J ses i s) in
      if json_array_size params \<noteq> 2 then invalid
      else case json_string_value (json_array_get params 0) of
        None \<Rightarrow> invalid
      | Some token \<Rightarrow>
          (case json_string_value (json_array_get params 1) of
             None \<Rightarrow> invalid
           | Some source \<Rightarrow>
               if length source \<ge> WS_SOURCE_MAX_LEN then invalid
               else case nw_state_new (ws_backend_timeout C) \<lparr> ad_ses = ses, ad_ses_id = ses_id s ses, ad_request_id = i \<rparr> (auth_context s) of
                 None \<Rightarrow> None
               | Some (entry_id, context) \<Rightarrow>
                   Some (0, s\<lparr>auth_context := context, info := (info s)(ses := info s ses\<lparr>ci_source := Some source\<rparr>),
                              auth_jobs := auth_jobs s @ [(entry_id, token)]\<rparr>)))"

section \<open>Signatures\<close>

definition sign_on_finish :: "text_lib \<Rightarrow> u32 \<Rightarrow> json option \<Rightarrow> ('d, 'z) aw_auth_scheme \<Rightarrow> ('d, 'z) aw_auth_scheme" where
  "sign_on_finish J i reply s =
     (case nw_state_get (sign_context s) i of
        None \<Rightarrow> s
      | Some state \<Rightarrow>
          let s = auth_on_result J (se_data state) reply s in
          s\<lparr>sign_context := snd (nw_state_del i (sign_context s))\<rparr>)"

definition sign_on_timeout :: "text_lib \<Rightarrow> auth_data state_entry \<Rightarrow> ('d, 'z) aw_auth_scheme \<Rightarrow> ('d, 'z) aw_auth_scheme" where
  "sign_on_timeout J entry s =
     (let state = se_data entry;
          s = (if ses_id s (ad_ses state) = ad_ses_id state
               then snd (send_error_service_timeout J (ad_ses state) (ad_request_id state) s) else s) in
      s\<lparr>sign_context := state_on_timeout entry (sign_context s)\<rparr>)"

definition send_sign_request :: "text_lib \<Rightarrow> 'c ws_settings \<Rightarrow> nat \<Rightarrow> u64 \<Rightarrow> json \<Rightarrow> ('d, 'z) aw_auth_scheme \<Rightarrow> (int \<times> ('d, 'z) aw_auth_scheme) option" where
  "send_sign_request J C ses i params s =
     (let invalid = Some (send_error_invalid_argument J ses i s) in
      if json_array_size params \<noteq> 3 then invalid
      else case json_string_value (json_array_get params 0) of
        None \<Rightarrow> invalid
      | Some access_id \<Rightarrow>
          (case json_string_value (json_array_get params 1) of
             None \<Rightarrow> invalid
           | Some authorisation \<Rightarrow>
               let tonce = word_of_int (json_integer_value (json_array_get params 2)) in
               if tonce = 0 then invalid
               else case nw_state_new (ws_backend_timeout C) \<lparr> ad_ses = ses, ad_ses_id = ses_id s ses, ad_request_id = i \<rparr> (sign_context s) of
                 None \<Rightarrow> None
               | Some (entry_id, context) \<Rightarrow>
                   let request = \<lparr> sr_access_id = access_id, sr_authorisation = authorisation, sr_tonce = tonce \<rparr> in
                   Some (0, s\<lparr>sign_context := context, info := (info s)(ses := info s ses\<lparr>ci_source := Some ''api''\<rparr>),
                              sign_jobs := sign_jobs s @ [(entry_id, request)]\<rparr>)))"

end
