(* ===== verification/Ws_Server.thy ===== *)
theory Ws_Server
  imports Ws_Auth
begin

text \<open>
  \<open>accessws/aw_server.c\<close>: the methods a websocket client can call, the replies of the processes behind, the
  cache of replies, and the life of a connection. A handler gives its result code and the new state, or
  \<open>None\<close> when no state entry is available or a text is \<open>NULL\<close>.
\<close>

section \<open>State\<close>

record request_data =
  rd_ses :: nat
  rd_ses_id :: u64
  rd_request_id :: u64
  rd_cache_key :: "string option"

record 'd aw_server = "'d aw_auth" +
  request_context :: "request_data nw_state"
  backend_cache :: "(string, cache_val) dict_view"
  ws_id_start :: u64

section \<open>Queries\<close>

definition ws_process_cache :: "text_lib \<Rightarrow> 'c ws_settings \<Rightarrow> nat \<Rightarrow> u64 \<Rightarrow> string \<Rightarrow> ('d, 'z) aw_server_scheme \<Rightarrow> bool \<times> ('d, 'z) aw_server_scheme" where
  "ws_process_cache J C ses i key s =
     (case dv_find (backend_cache s) key of
        None \<Rightarrow> (False, s)
      | Some cache \<Rightarrow>
          let (now, s) = ws_current_timestamp s in
          if now - cv_time cache > ws_cache_timeout C
          then (False, s\<lparr>backend_cache := dv_delete key (backend_cache s)\<rparr>)
          else (True, snd (send_result J ses i (cv_result cache) s)))"

text \<open>The end of all queries: a state entry for the reply, and the request.\<close>

definition forward_request :: "'c ws_settings \<Rightarrow> backend \<Rightarrow> u32 \<Rightarrow> nat \<Rightarrow> u64 \<Rightarrow> string option \<Rightarrow> string \<Rightarrow> ('d, 'z) aw_server_scheme
    \<Rightarrow> (int \<times> ('d, 'z) aw_server_scheme) option" where
  "forward_request C to cmd ses i key body s =
     (case nw_state_new (ws_backend_timeout C)
             \<lparr> rd_ses = ses, rd_ses_id = ses_id s ses, rd_request_id = i, rd_cache_key = key \<rparr> (request_context s) of
        None \<Rightarrow> None
      | Some (entry_id, context) \<Rightarrow>
          Some (0, rpc_clt_send (AwServer to) (request_pkg cmd entry_id i body) (s\<lparr>request_context := context\<rparr>)))"

text \<open>The six public queries are alike: the parameters go on as they are, the reply may come from the cache.\<close>

definition public_query :: "backend \<Rightarrow> u32 \<Rightarrow> text_lib \<Rightarrow> 'c ws_settings \<Rightarrow> nat \<Rightarrow> u64 \<Rightarrow> json \<Rightarrow> ('d, 'z) aw_server_scheme
    \<Rightarrow> (int \<times> ('d, 'z) aw_server_scheme) option" where
  "public_query to cmd J C ses i params s =
     (if \<not> backend_up s to then Some (send_error_internal_error J ses i s)
      else case json_dumps J params of
        None \<Rightarrow> None
      | Some params_str \<Rightarrow>
          let key = nat_digits (unat cmd) @ ''-'' @ params_str;
              (cached, s) = ws_process_cache J C ses i key s in
          if cached then Some (0, s) else forward_request C to cmd ses i (Some key) params_str s)"

definition on_method_kline_query :: "text_lib \<Rightarrow> 'c ws_settings \<Rightarrow> nat \<Rightarrow> u64 \<Rightarrow> json \<Rightarrow> ('d, 'z) aw_server_scheme \<Rightarrow> (int \<times> ('d, 'z) aw_server_scheme) option" where
  "on_method_kline_query = public_query Marketprice CMD_MARKET_KLINE"

definition on_method_depth_query :: "text_lib \<Rightarrow> 'c ws_settings \<Rightarrow> nat \<Rightarrow> u64 \<Rightarrow> json \<Rightarrow> ('d, 'z) aw_server_scheme \<Rightarrow> (int \<times> ('d, 'z) aw_server_scheme) option" where
  "on_method_depth_query = public_query Matchengine CMD_ORDER_BOOK_DEPTH"

definition on_method_price_query :: "text_lib \<Rightarrow> 'c ws_settings \<Rightarrow> nat \<Rightarrow> u64 \<Rightarrow> json \<Rightarrow> ('d, 'z) aw_server_scheme \<Rightarrow> (int \<times> ('d, 'z) aw_server_scheme) option" where
  "on_method_price_query = public_query Marketprice CMD_MARKET_LAST"

definition on_method_state_query :: "text_lib \<Rightarrow> 'c ws_settings \<Rightarrow> nat \<Rightarrow> u64 \<Rightarrow> json \<Rightarrow> ('d, 'z) aw_server_scheme \<Rightarrow> (int \<times> ('d, 'z) aw_server_scheme) option" where
  "on_method_state_query = public_query Marketprice CMD_MARKET_STATUS"

definition on_method_today_query :: "text_lib \<Rightarrow> 'c ws_settings \<Rightarrow> nat \<Rightarrow> u64 \<Rightarrow> json \<Rightarrow> ('d, 'z) aw_server_scheme \<Rightarrow> (int \<times> ('d, 'z) aw_server_scheme) option" where
  "on_method_today_query = public_query Marketprice CMD_MARKET_STATUS_TODAY"

definition on_method_deals_query :: "text_lib \<Rightarrow> 'c ws_settings \<Rightarrow> nat \<Rightarrow> u64 \<Rightarrow> json \<Rightarrow> ('d, 'z) aw_server_scheme \<Rightarrow> (int \<times> ('d, 'z) aw_server_scheme) option" where
  "on_method_deals_query = public_query Marketprice CMD_MARKET_DEALS"

text \<open>The queries of a user put the user's id before the parameters.\<close>

definition user_query :: "backend \<Rightarrow> u32 \<Rightarrow> text_lib \<Rightarrow> 'c ws_settings \<Rightarrow> nat \<Rightarrow> u64 \<Rightarrow> json list \<Rightarrow> ('d, 'z) aw_server_scheme
    \<Rightarrow> (int \<times> ('d, 'z) aw_server_scheme) option" where
  "user_query to cmd J C ses i params s =
     (case json_dumps J (JArray (json_u32 (ci_user_id (info s ses)) # params)) of
        None \<Rightarrow> None
      | Some body \<Rightarrow> forward_request C to cmd ses i None body s)"

definition on_method_order_query :: "text_lib \<Rightarrow> 'c ws_settings \<Rightarrow> nat \<Rightarrow> u64 \<Rightarrow> json \<Rightarrow> ('d, 'z) aw_server_scheme \<Rightarrow> (int \<times> ('d, 'z) aw_server_scheme) option" where
  "on_method_order_query J C ses i params s =
     (let invalid = Some (send_error_invalid_argument J ses i s) in
      if \<not> backend_up s Matchengine then Some (send_error_internal_error J ses i s)
      else if \<not> ci_auth (info s ses) then Some (send_error_require_auth J ses i s)
      else if json_array_size params \<noteq> 3 then invalid
      else case json_string_value (json_array_get params 0) of
        None \<Rightarrow> invalid
      | Some market \<Rightarrow>
          if \<not> json_is_integer (json_array_get params 1) then invalid
          else
            let offset = int_param (json_array_get params 1) in
            if \<not> json_is_integer (json_array_get params 2) then invalid
            else
              let limit = int_param (json_array_get params 2) in
              user_query Matchengine CMD_ORDER_QUERY J C ses i [JString market, JInteger offset, JInteger limit] s)"

definition on_method_order_history :: "text_lib \<Rightarrow> 'c ws_settings \<Rightarrow> nat \<Rightarrow> u64 \<Rightarrow> json \<Rightarrow> ('d, 'z) aw_server_scheme \<Rightarrow> (int \<times> ('d, 'z) aw_server_scheme) option" where
  "on_method_order_history J C ses i params s =
     (if \<not> backend_up s Readhistory then Some (send_error_internal_error J ses i s)
      else if \<not> ci_auth (info s ses) then Some (send_error_require_auth J ses i s)
      else if json_array_size params \<noteq> 6 then Some (send_error_invalid_argument J ses i s)
      else user_query Readhistory CMD_ORDER_HISTORY J C ses i (json_elements params) s)"

definition on_method_asset_query :: "text_lib \<Rightarrow> 'c ws_settings \<Rightarrow> nat \<Rightarrow> u64 \<Rightarrow> json \<Rightarrow> ('d, 'z) aw_server_scheme \<Rightarrow> (int \<times> ('d, 'z) aw_server_scheme) option" where
  "on_method_asset_query J C ses i params s =
     (if \<not> ci_auth (info s ses) then Some (send_error_require_auth J ses i s)
      else if \<not> backend_up s Matchengine then Some (send_error_internal_error J ses i s)
      else user_query Matchengine CMD_BALANCE_QUERY J C ses i (json_elements params) s)"

definition on_method_asset_history :: "text_lib \<Rightarrow> 'c ws_settings \<Rightarrow> nat \<Rightarrow> u64 \<Rightarrow> json \<Rightarrow> ('d, 'z) aw_server_scheme \<Rightarrow> (int \<times> ('d, 'z) aw_server_scheme) option" where
  "on_method_asset_history J C ses i params s =
     (if \<not> backend_up s Readhistory then Some (send_error_internal_error J ses i s)
      else if \<not> ci_auth (info s ses) then Some (send_error_require_auth J ses i s)
      else if json_array_size params \<noteq> 6 then Some (send_error_invalid_argument J ses i s)
      else user_query Readhistory CMD_BALANCE_HISTORY J C ses i (json_elements params) s)"

section \<open>Time, tokens and signatures\<close>

definition on_method_server_ping :: "text_lib \<Rightarrow> 'c ws_settings \<Rightarrow> nat \<Rightarrow> u64 \<Rightarrow> json \<Rightarrow> ('d, 'z) aw_server_scheme \<Rightarrow> (int \<times> ('d, 'z) aw_server_scheme) option" where
  "on_method_server_ping J C ses i params s = Some (send_result J ses i (JString ''pong'') s)"

definition on_method_server_time :: "text_lib \<Rightarrow> 'c ws_settings \<Rightarrow> nat \<Rightarrow> u64 \<Rightarrow> json \<Rightarrow> ('d, 'z) aw_server_scheme \<Rightarrow> (int \<times> ('d, 'z) aw_server_scheme) option" where
  "on_method_server_time J C ses i params s = (let (now, s) = ws_time s in Some (send_result J ses i (JInteger now) s))"

definition on_method_server_auth :: "text_lib \<Rightarrow> 'c ws_settings \<Rightarrow> nat \<Rightarrow> u64 \<Rightarrow> json \<Rightarrow> ('d, 'z) aw_server_scheme \<Rightarrow> (int \<times> ('d, 'z) aw_server_scheme) option" where
  "on_method_server_auth J C ses i params s = send_auth_request J C ses i params s"

definition on_method_server_sign :: "text_lib \<Rightarrow> 'c ws_settings \<Rightarrow> nat \<Rightarrow> u64 \<Rightarrow> json \<Rightarrow> ('d, 'z) aw_server_scheme \<Rightarrow> (int \<times> ('d, 'z) aw_server_scheme) option" where
  "on_method_server_sign J C ses i params s = send_sign_request J C ses i params s"

section \<open>Subscribing\<close>

definition on_method_kline_subscribe :: "text_lib \<Rightarrow> 'c ws_settings \<Rightarrow> nat \<Rightarrow> u64 \<Rightarrow> json \<Rightarrow> ('d, 'z) aw_server_scheme \<Rightarrow> (int \<times> ('d, 'z) aw_server_scheme) option" where
  "on_method_kline_subscribe J C ses i params s =
     (let invalid = Some (send_error_invalid_argument J ses i s) in
      if json_array_size params \<noteq> 2 then invalid
      else
        let interval = int_param (json_array_get params 1) in
        case json_string_value (json_array_get params 0) of
          None \<Rightarrow> invalid
        | Some market \<Rightarrow>
            if length market \<ge> MARKET_NAME_MAX_LEN \<or> interval \<le> 0 then invalid
            else
              let (ret, s) = kline_subscribe ses market interval (kline_unsubscribe ses s) in
              if ret < 0 then Some (send_error_internal_error J ses i s) else Some (send_success J ses i s))"

definition on_method_kline_unsubscribe :: "text_lib \<Rightarrow> 'c ws_settings \<Rightarrow> nat \<Rightarrow> u64 \<Rightarrow> json \<Rightarrow> ('d, 'z) aw_server_scheme \<Rightarrow> (int \<times> ('d, 'z) aw_server_scheme) option" where
  "on_method_kline_unsubscribe J C ses i params s = Some (send_success J ses i (kline_unsubscribe ses s))"

definition on_method_depth_subscribe :: "'c mpd_lib \<Rightarrow> text_lib \<Rightarrow> 'c ws_settings \<Rightarrow> nat \<Rightarrow> u64 \<Rightarrow> json \<Rightarrow> ('d, 'z) aw_server_scheme \<Rightarrow> (int \<times> ('d, 'z) aw_server_scheme) option" where
  "on_method_depth_subscribe D J C ses i params s =
     (let invalid = (\<lambda>s. Some (send_error_invalid_argument J ses i s)) in
      if json_array_size params \<noteq> 3 then invalid s
      else
        let limit = int_param (json_array_get params 1) in
        case (json_string_value (json_array_get params 0), json_string_value (json_array_get params 2)) of
          (Some market, Some interval) \<Rightarrow>
            if length market \<ge> MARKET_NAME_MAX_LEN \<or> limit \<le> 0 \<or> length interval \<ge> INTERVAL_MAX_LEN then invalid s
            else
              let (ret, s) = depth_subscribe D C ses market (word_of_int limit) interval (depth_unsubscribe ses s) in
              if ret = - 1 then invalid s
              else if ret < 0 then Some (send_error_internal_error J ses i s)
              else
                let (_, s) = send_success J ses i s in
                Some (0, depth_send_clean J ses market (word_of_int limit) interval s)
        | _ \<Rightarrow> invalid s)"

definition on_method_depth_unsubscribe :: "text_lib \<Rightarrow> 'c ws_settings \<Rightarrow> nat \<Rightarrow> u64 \<Rightarrow> json \<Rightarrow> ('d, 'z) aw_server_scheme \<Rightarrow> (int \<times> ('d, 'z) aw_server_scheme) option" where
  "on_method_depth_unsubscribe J C ses i params s = Some (send_success J ses i (depth_unsubscribe ses s))"

text \<open>
  Four handlers subscribe to the markets of a list in turn; the first that is refused ends the loop
  with an error, and the ones before it stay subscribed. \<open>Some\<close>: the loop ended early with this result.
\<close>

fun subscribe_markets :: "text_lib \<Rightarrow> nat \<Rightarrow> (string \<Rightarrow> 's aw_io_scheme \<Rightarrow> int \<times> 's aw_io_scheme) \<Rightarrow> nat \<Rightarrow> u64 \<Rightarrow> json list
    \<Rightarrow> 's aw_io_scheme \<Rightarrow> int option \<times> 's aw_io_scheme" where
  "subscribe_markets J name_len subscribe ses i [] s = (None, s)"
| "subscribe_markets J name_len subscribe ses i (param # params) s =
     (let invalid = (let (ret, s) = send_error_invalid_argument J ses i s in (Some ret, s)) in
      case json_string_value (Some param) of
        None \<Rightarrow> invalid
      | Some market \<Rightarrow>
          if length market \<ge> name_len then invalid
          else
            let (ret, s) = subscribe market s in
            if ret < 0 then (let (ret, s) = send_error_internal_error J ses i s in (Some ret, s))
            else subscribe_markets J name_len subscribe ses i params s)"

text \<open>Then each market's last value is sent.\<close>

fun send_markets :: "(string \<Rightarrow> 's \<Rightarrow> 's) \<Rightarrow> json list \<Rightarrow> 's \<Rightarrow> 's" where
  "send_markets send [] s = s"
| "send_markets send (param # params) s =
     send_markets send params (case json_string_value (Some param) of None \<Rightarrow> s | Some market \<Rightarrow> send market s)"

definition on_method_price_subscribe :: "'d mpd_lib \<Rightarrow> text_lib \<Rightarrow> 'c ws_settings \<Rightarrow> nat \<Rightarrow> u64 \<Rightarrow> json \<Rightarrow> ('d, 'z) aw_server_scheme \<Rightarrow> (int \<times> ('d, 'z) aw_server_scheme) option" where
  "on_method_price_subscribe D J C ses i params s =
     (case subscribe_markets J MARKET_NAME_MAX_LEN (price_subscribe D ses) ses i (json_elements params) (price_unsubscribe ses s) of
        (Some ret, s) \<Rightarrow> Some (ret, s)
      | (None, s) \<Rightarrow>
          let (_, s) = send_success J ses i s in
          Some (0, send_markets (price_send_last D J ses) (json_elements params) s))"

definition on_method_price_unsubscribe :: "text_lib \<Rightarrow> 'c ws_settings \<Rightarrow> nat \<Rightarrow> u64 \<Rightarrow> json \<Rightarrow> ('d, 'z) aw_server_scheme \<Rightarrow> (int \<times> ('d, 'z) aw_server_scheme) option" where
  "on_method_price_unsubscribe J C ses i params s = Some (send_success J ses i (price_unsubscribe ses s))"

definition on_method_state_subscribe :: "text_lib \<Rightarrow> 'c ws_settings \<Rightarrow> nat \<Rightarrow> u64 \<Rightarrow> json \<Rightarrow> ('d, 'z) aw_server_scheme \<Rightarrow> (int \<times> ('d, 'z) aw_server_scheme) option" where
  "on_method_state_subscribe J C ses i params s =
     (case subscribe_markets J MARKET_NAME_MAX_LEN (state_subscribe ses) ses i (json_elements params) (state_unsubscribe ses s) of
        (Some ret, s) \<Rightarrow> Some (ret, s)
      | (None, s) \<Rightarrow>
          let (_, s) = send_success J ses i s in
          Some (0, send_markets (state_send_last J ses) (json_elements params) s))"

definition on_method_state_unsubscribe :: "text_lib \<Rightarrow> 'c ws_settings \<Rightarrow> nat \<Rightarrow> u64 \<Rightarrow> json \<Rightarrow> ('d, 'z) aw_server_scheme \<Rightarrow> (int \<times> ('d, 'z) aw_server_scheme) option" where
  "on_method_state_unsubscribe J C ses i params s = Some (send_success J ses i (state_unsubscribe ses s))"

definition on_method_today_subscribe :: "text_lib \<Rightarrow> 'c ws_settings \<Rightarrow> nat \<Rightarrow> u64 \<Rightarrow> json \<Rightarrow> ('d, 'z) aw_server_scheme \<Rightarrow> (int \<times> ('d, 'z) aw_server_scheme) option" where
  "on_method_today_subscribe J C ses i params s =
     (case subscribe_markets J MARKET_NAME_MAX_LEN (today_subscribe ses) ses i (json_elements params) (today_unsubscribe ses s) of
        (Some ret, s) \<Rightarrow> Some (ret, s)
      | (None, s) \<Rightarrow>
          let (_, s) = send_success J ses i s in
          Some (0, send_markets (today_send_last J ses) (json_elements params) s))"

definition on_method_today_unsubscribe :: "text_lib \<Rightarrow> 'c ws_settings \<Rightarrow> nat \<Rightarrow> u64 \<Rightarrow> json \<Rightarrow> ('d, 'z) aw_server_scheme \<Rightarrow> (int \<times> ('d, 'z) aw_server_scheme) option" where
  "on_method_today_unsubscribe J C ses i params s = Some (send_success J ses i (today_unsubscribe ses s))"

definition on_method_deals_subscribe :: "text_lib \<Rightarrow> 'c ws_settings \<Rightarrow> nat \<Rightarrow> u64 \<Rightarrow> json \<Rightarrow> ('d, 'z) aw_server_scheme \<Rightarrow> (int \<times> ('d, 'z) aw_server_scheme) option" where
  "on_method_deals_subscribe J C ses i params s =
     (case subscribe_markets J MARKET_NAME_MAX_LEN (deals_subscribe ses) ses i (json_elements params) (deals_unsubscribe ses s) of
        (Some ret, s) \<Rightarrow> Some (ret, s)
      | (None, s) \<Rightarrow>
          let (_, s) = send_success J ses i s in
          Some (0, send_markets ((\<lambda>market s. snd (deals_send_full J ses market s))) (json_elements params) s))"

definition on_method_deals_unsubscribe :: "text_lib \<Rightarrow> 'c ws_settings \<Rightarrow> nat \<Rightarrow> u64 \<Rightarrow> json \<Rightarrow> ('d, 'z) aw_server_scheme \<Rightarrow> (int \<times> ('d, 'z) aw_server_scheme) option" where
  "on_method_deals_unsubscribe J C ses i params s = Some (send_success J ses i (deals_unsubscribe ses s))"

definition on_method_order_subscribe :: "text_lib \<Rightarrow> 'c ws_settings \<Rightarrow> nat \<Rightarrow> u64 \<Rightarrow> json \<Rightarrow> ('d, 'z) aw_server_scheme \<Rightarrow> (int \<times> ('d, 'z) aw_server_scheme) option" where
  "on_method_order_subscribe J C ses i params s =
     (if \<not> ci_auth (info s ses) then Some (send_error_require_auth J ses i s)
      else
        let user_id = ci_user_id (info s ses) in
        case subscribe_markets J MARKET_NAME_MAX_LEN (order_subscribe user_id ses) ses i (json_elements params) (order_unsubscribe user_id ses s) of
          (Some ret, s) \<Rightarrow> Some (ret, s)
        | (None, s) \<Rightarrow> Some (send_success J ses i s))"

definition on_method_order_unsubscribe :: "text_lib \<Rightarrow> 'c ws_settings \<Rightarrow> nat \<Rightarrow> u64 \<Rightarrow> json \<Rightarrow> ('d, 'z) aw_server_scheme \<Rightarrow> (int \<times> ('d, 'z) aw_server_scheme) option" where
  "on_method_order_unsubscribe J C ses i params s =
     (if \<not> ci_auth (info s ses) then Some (send_error_require_auth J ses i s)
      else Some (send_success J ses i (order_unsubscribe (ci_user_id (info s ses)) ses s)))"

definition on_method_asset_subscribe :: "text_lib \<Rightarrow> 'c ws_settings \<Rightarrow> nat \<Rightarrow> u64 \<Rightarrow> json \<Rightarrow> ('d, 'z) aw_server_scheme \<Rightarrow> (int \<times> ('d, 'z) aw_server_scheme) option" where
  "on_method_asset_subscribe J C ses i params s =
     (if \<not> ci_auth (info s ses) then Some (send_error_require_auth J ses i s)
      else
        let user_id = ci_user_id (info s ses) in
        case subscribe_markets J WS_ASSET_NAME_MAX_LEN (asset_subscribe user_id ses) ses i (json_elements params) (asset_unsubscribe user_id ses s) of
          (Some ret, s) \<Rightarrow> Some (ret, s)
        | (None, s) \<Rightarrow> Some (send_success J ses i s))"

definition on_method_asset_unsubscribe :: "text_lib \<Rightarrow> 'c ws_settings \<Rightarrow> nat \<Rightarrow> u64 \<Rightarrow> json \<Rightarrow> ('d, 'z) aw_server_scheme \<Rightarrow> (int \<times> ('d, 'z) aw_server_scheme) option" where
  "on_method_asset_unsubscribe J C ses i params s =
     (if \<not> ci_auth (info s ses) then Some (send_error_require_auth J ses i s)
      else Some (send_success J ses i (asset_unsubscribe (ci_user_id (info s ses)) ses s)))"

section \<open>Messages of a client\<close>

text \<open>\<open>method_map\<close>, as \<open>init_svr\<close> fills it.\<close>

definition ws_method_map :: "'d mpd_lib \<Rightarrow> (string \<times> (text_lib \<Rightarrow> 'd ws_settings \<Rightarrow> nat \<Rightarrow> u64 \<Rightarrow> json \<Rightarrow> ('d, 'z) aw_server_scheme
    \<Rightarrow> (int \<times> ('d, 'z) aw_server_scheme) option)) list" where
  "ws_method_map D =
     [(''server.ping'', on_method_server_ping), (''server.time'', on_method_server_time),
      (''server.auth'', on_method_server_auth), (''server.sign'', on_method_server_sign),
      (''kline.query'', on_method_kline_query), (''kline.subscribe'', on_method_kline_subscribe),
      (''kline.unsubscribe'', on_method_kline_unsubscribe),
      (''depth.query'', on_method_depth_query), (''depth.subscribe'', on_method_depth_subscribe D),
      (''depth.unsubscribe'', on_method_depth_unsubscribe),
      (''price.query'', on_method_price_query), (''price.subscribe'', on_method_price_subscribe D),
      (''price.unsubscribe'', on_method_price_unsubscribe),
      (''state.query'', on_method_state_query), (''state.subscribe'', on_method_state_subscribe),
      (''state.unsubscribe'', on_method_state_unsubscribe),
      (''today.query'', on_method_today_query), (''today.subscribe'', on_method_today_subscribe),
      (''today.unsubscribe'', on_method_today_unsubscribe),
      (''deals.query'', on_method_deals_query), (''deals.subscribe'', on_method_deals_subscribe),
      (''deals.unsubscribe'', on_method_deals_unsubscribe),
      (''order.query'', on_method_order_query), (''order.history'', on_method_order_history),
      (''order.subscribe'', on_method_order_subscribe), (''order.unsubscribe'', on_method_order_unsubscribe),
      (''asset.query'', on_method_asset_query), (''asset.history'', on_method_asset_history),
      (''asset.subscribe'', on_method_asset_subscribe), (''asset.unsubscribe'', on_method_asset_unsubscribe)]"

text \<open>
  A negative result makes the websocket server close the connection. The result of a handler is only
  logged; a method that is not known is not answered.
\<close>

definition ws_on_message :: "'d mpd_lib \<Rightarrow> text_lib \<Rightarrow> 'd ws_settings \<Rightarrow> nat \<Rightarrow> string \<Rightarrow> ('d, 'z) aw_server_scheme
    \<Rightarrow> (int \<times> ('d, 'z) aw_server_scheme) option" where
  "ws_on_message D J C ses message s =
     (let decode_error = Some (- 839, s) in
      case json_loadb J message of
        None \<Rightarrow> decode_error
      | Some msg \<Rightarrow>
          if \<not> json_is_integer (json_object_get msg ''id'') \<or> \<not> json_is_string (json_object_get msg ''method'') then decode_error
          else case json_object_get msg ''params'' of
            None \<Rightarrow> decode_error
          | Some params \<Rightarrow>
              if \<not> json_is_array (Some params) then decode_error
              else
                let i = word_of_int (json_integer_value (json_object_get msg ''id'')) in
                case dv_find (ws_method_map D) (json_str (json_object_get msg ''method'')) of
                  None \<Rightarrow> Some (0, s)
                | Some handler \<Rightarrow> map_option (\<lambda>(ret, s). (0, s)) (handler J C ses i params s))"

section \<open>Connections\<close>

definition on_upgrade :: "nat \<Rightarrow> ('d, 'z) aw_server_scheme \<Rightarrow> ('d, 'z) aw_server_scheme" where
  "on_upgrade ses s = s\<lparr>info := (info s)(ses := \<lparr> ci_auth = False, ci_user_id = 0, ci_source = None \<rparr>)\<rparr>"

definition ws_on_close :: "nat \<Rightarrow> ('d, 'z) aw_server_scheme \<Rightarrow> ('d, 'z) aw_server_scheme" where
  "ws_on_close ses s =
     (let s = kline_unsubscribe ses s;
          s = depth_unsubscribe ses s;
          s = price_unsubscribe ses s;
          s = today_unsubscribe ses s;
          s = deals_unsubscribe ses s in
      if ci_auth (info s ses) then
        asset_unsubscribe (ci_user_id (info s ses)) ses (order_unsubscribe (ci_user_id (info s ses)) ses s)
      else s)"

text \<open>
  \<open>nw_svr_add_clt\<close>: a session that is not in use gets the next id that is not 0; \<open>nw_svr_close_clt\<close>: after
  \<open>on_close\<close> its id is 0. A new connection is upgraded before its first message.
\<close>

definition open_session :: "nat \<Rightarrow> ('d, 'z) aw_server_scheme \<Rightarrow> ('d, 'z) aw_server_scheme" where
  "open_session ses s =
     (let i = ws_id_start s;
          s = s\<lparr>ws_id_start := i + 1\<rparr>;
          (i, s) = (if i = 0 then (ws_id_start s, s\<lparr>ws_id_start := ws_id_start s + 1\<rparr>) else (i, s)) in
      on_upgrade ses (s\<lparr>ses_id := (ses_id s)(ses := i)\<rparr>))"

definition close_session :: "nat \<Rightarrow> ('d, 'z) aw_server_scheme \<Rightarrow> ('d, 'z) aw_server_scheme" where
  "close_session ses s = (let s = ws_on_close ses s in s\<lparr>ses_id := (ses_id s)(ses := 0)\<rparr>)"

section \<open>Replies of the processes behind\<close>

definition ws_on_backend_recv_pkg :: "text_lib \<Rightarrow> rpc_pkg \<Rightarrow> ('d, 'z) aw_server_scheme \<Rightarrow> ('d, 'z) aw_server_scheme" where
  "ws_on_backend_recv_pkg J pkg s =
     (case nw_state_get (request_context s) (rp_sequence pkg) of
        None \<Rightarrow> s
      | Some entry \<Rightarrow>
          let state = se_data entry;
              s = (if ses_id s (rd_ses state) = rd_ses_id state then ws_send_text (rd_ses state) (pkg_body pkg) s else s);
              s = (case rd_cache_key state of
                     None \<Rightarrow> s
                   | Some key \<Rightarrow>
                       (case json_loadb J (pkg_body pkg) of
                          None \<Rightarrow> s
                        | Some reply \<Rightarrow>
                            (case json_object_get reply ''result'' of
                               None \<Rightarrow> s
                             | Some result \<Rightarrow>
                                 if result = JNull then s
                                 else
                                   let (now, s) = ws_current_timestamp s in
                                   s\<lparr>backend_cache := dv_put key \<lparr> cv_time = now, cv_result = result \<rparr> (backend_cache s)\<rparr>))) in
          s\<lparr>request_context := snd (nw_state_del (rp_sequence pkg) (request_context s))\<rparr>)"

definition ws_on_timeout :: "text_lib \<Rightarrow> request_data state_entry \<Rightarrow> ('d, 'z) aw_server_scheme \<Rightarrow> ('d, 'z) aw_server_scheme" where
  "ws_on_timeout J entry s =
     (let state = se_data entry;
          s = (if ses_id s (rd_ses state) = rd_ses_id state
               then snd (send_error_service_timeout J (rd_ses state) (rd_request_id state) s) else s) in
      s\<lparr>request_context := state_on_timeout entry (request_context s)\<rparr>)"

definition ws_on_cache_timer :: "('d, 'z) aw_server_scheme \<Rightarrow> ('d, 'z) aw_server_scheme" where
  "ws_on_cache_timer s = s\<lparr>backend_cache := []\<rparr>"

end
