(* ===== verification/Nw_State_Facts.thy ===== *)
theory Nw_State_Facts
  imports Nw_State
begin

text \<open>
  The table of pending requests is a finite map from ids to data: \<open>pending\<close>. The locale \<open>request_table\<close>
  is what the servers rely on; its interpretation on \<open>nw_state.c\<close> holds below \<open>2 ^ 30\<close> entries, where
  the size of the table does not wrap.
\<close>

unbundle bit_operations_syntax

section \<open>The interface\<close>

datatype 'd request_op = AddRequest rat 'd | DelRequest u32

locale request_table =
  fixes inv :: "'s \<Rightarrow> bool"
    and room :: "'s \<Rightarrow> bool"
    and pend :: "'s \<Rightarrow> u32 \<Rightarrow> 'd option"
    and new :: "rat \<Rightarrow> 'd \<Rightarrow> 's \<Rightarrow> (u32 \<times> 's) option"
    and del :: "u32 \<Rightarrow> 's \<Rightarrow> 's"
  assumes new_ok: "inv s \<Longrightarrow> room s \<Longrightarrow> \<exists>i s'. new t d s = Some (i, s') \<and> i \<noteq> 0 \<and> pend s i = None
      \<and> inv s' \<and> pend s' = (pend s)(i \<mapsto> d)"
    and del_ok: "inv s \<Longrightarrow> inv (del i s) \<and> pend (del i s) = (pend s)(i := None)"
begin

fun run_ops :: "'d request_op list \<Rightarrow> 's \<Rightarrow> 's option" where
  "run_ops [] s = Some s"
| "run_ops (AddRequest t d # ops) s =
     (if room s then (case new t d s of None \<Rightarrow> None | Some (i, s') \<Rightarrow> run_ops ops s') else None)"
| "run_ops (DelRequest i # ops) s = run_ops ops (del i s)"

lemma run_ops_inv: "run_ops ops s = Some s' \<Longrightarrow> inv s \<Longrightarrow> inv s'"
proof (induction ops s rule: run_ops.induct)
  case (2 t d ops s)
  then have room: "room s" by (simp split: if_splits)
  obtain i s1 where "new t d s = Some (i, s1)" "inv s1"
    using new_ok [OF 2(3) room] by blast
  with 2 room show ?case by simp
qed (auto simp: del_ok)

text \<open>A pending request keeps its id and its data until that id is deleted, whatever else happens.\<close>

lemma request_kept:
  "run_ops ops s = Some s' \<Longrightarrow> inv s \<Longrightarrow> pend s i = Some d \<Longrightarrow> DelRequest i \<notin> set ops \<Longrightarrow> pend s' i = Some d"
proof (induction ops s rule: run_ops.induct)
  case (2 t e ops s)
  then have room: "room s" by (simp split: if_splits)
  obtain j s1 where s1: "new t e s = Some (j, s1)" "inv s1" "pend s j = None" "pend s1 = (pend s)(j \<mapsto> e)"
    using new_ok [OF 2(3) room] by blast
  with 2(4) have "pend s1 i = Some d" by auto
  with 2 s1 room show ?case by simp
qed (auto simp: del_ok)

text \<open>No two pending requests share an id.\<close>

lemma new_fresh: "inv s \<Longrightarrow> room s \<Longrightarrow> new t d s = Some (i, s') \<Longrightarrow> pend s i = None \<and> pend s' i = Some d"
  using new_ok [of s t d] by auto

end

section \<open>The table\<close>

definition st_entries :: "'d nw_state \<Rightarrow> 'd state_entry list" where
  "st_entries s = concat (st_table s)"

definition buckets_ok :: "u32 \<Rightarrow> 'd state_entry list list \<Rightarrow> bool" where
  "buckets_ok mask' table \<longleftrightarrow> (\<forall>i < length table. \<forall>entry \<in> set (table ! i). unat (se_id entry AND mask') = i)"

definition state_wf :: "'d nw_state \<Rightarrow> bool" where
  "state_wf s \<longleftrightarrow> length (st_table s) = unat (st_table_size s) \<and> st_table_size s \<noteq> 0
     \<and> unat (st_table_size s) < 2 ^ 30 \<and> st_table_mask s = st_table_size s - 1
     \<and> buckets_ok (st_table_mask s) (st_table s) \<and> distinct (map se_id (st_entries s))
     \<and> unat (st_used s) = length (st_entries s)"

definition pending :: "'d nw_state \<Rightarrow> u32 \<Rightarrow> 'd option" where
  "pending s i = map_option se_data (nw_state_get s i)"

lemma index_less: "(n :: u32) \<noteq> 0 \<Longrightarrow> unat (i AND (n - 1)) < unat n"
proof -
  assume n: "n \<noteq> 0"
  then have "unat (n - 1) < unat n" by (simp add: unat_minus_one unat_gt_0)
  moreover have "i AND (n - 1) \<le> n - 1" by (rule word_and_le1)
  ultimately show ?thesis by (simp add: word_le_nat_alt)
qed

text \<open>An entry at the head of its chain.\<close>

lemma mset_put: "i < length table \<Longrightarrow> mset (concat (table[i := e # table ! i])) = add_mset e (mset (concat table))"
proof (induction table arbitrary: i)
  case (Cons c table)
  then show ?case by (cases i) auto
qed simp

lemma buckets_ok_put: "buckets_ok m table \<Longrightarrow> unat (se_id e AND m) = i \<Longrightarrow> buckets_ok m (table[i := e # table ! i])"
  by (cases "i < length table") (simp_all add: buckets_ok_def nth_list_update)

lemma mset_distinct_ids: "mset xs = mset ys \<Longrightarrow> distinct (map se_id xs) = distinct (map se_id ys)"
  by (rule mset_eq_imp_distinct_iff) simp

lemma place_chain_ok: "n \<noteq> 0 \<Longrightarrow> length table = unat n \<Longrightarrow> buckets_ok (n - 1) table \<Longrightarrow>
    length (place_chain (n - 1) chain table) = unat n \<and> buckets_ok (n - 1) (place_chain (n - 1) chain table)
    \<and> mset (concat (place_chain (n - 1) chain table)) = mset chain + mset (concat table)"
proof (induction chain arbitrary: table)
  case (Cons e chain)
  have "unat (se_id e AND (n - 1)) < length table" using Cons.prems by (simp add: index_less)
  with Cons show ?case by (simp add: Let_def mset_put buckets_ok_put)
qed simp

lemma place_chains_ok: "n \<noteq> 0 \<Longrightarrow> length table = unat n \<Longrightarrow> buckets_ok (n - 1) table \<Longrightarrow>
    length (foldl (\<lambda>t c. place_chain (n - 1) c t) table old) = unat n
    \<and> buckets_ok (n - 1) (foldl (\<lambda>t c. place_chain (n - 1) c t) table old)
    \<and> mset (concat (foldl (\<lambda>t c. place_chain (n - 1) c t) table old)) = mset (concat old) + mset (concat table)"
proof (induction old arbitrary: table)
  case (Cons c old)
  note p = place_chain_ok [OF Cons.prems, of c]
  with Cons.IH [OF Cons.prems(1), of "place_chain (n - 1) c table"] show ?case by simp
qed simp

lemma buckets_ok_empty [simp]: "buckets_ok m (replicate n [])"
  by (simp add: buckets_ok_def)

lemma concat_replicate_Nil [simp]: "concat (replicate n []) = []"
  by (induction n) simp_all

lemma expand_ok: assumes wf: "state_wf s" and small: "unat (st_used s) < 2 ^ 30"
  shows "state_wf (state_expand_if_needed s)"
    "mset (st_entries (state_expand_if_needed s)) = mset (st_entries s)"
    "st_used (state_expand_if_needed s) = st_used s" "st_id_start (state_expand_if_needed s) = st_id_start s"
proof -
  define n where "n = st_table_size s * 4"
  define t where "t = foldl (\<lambda>t c. place_chain (n - 1) c t) (replicate (unat n) []) (st_table s)"
  have size: "unat n = unat (st_table_size s) * 4"
    using wf by (simp add: n_def state_wf_def unat_word_ariths)
  have "unat (st_table_size s) \<noteq> 0" using wf by (simp add: state_wf_def unat_eq_0)
  with size have n0: "n \<noteq> 0" by (metis mult_eq_0_iff unat_0 zero_neq_numeral)
  have t: "length t = unat n" "buckets_ok (n - 1) t" "mset (concat t) = mset (st_entries s)"
    using place_chains_ok [OF n0, of "replicate (unat n) []" "st_table s"] by (simp_all add: t_def st_entries_def)
  have d: "distinct (map se_id (concat t))"
    using wf mset_distinct_ids [OF t(3)] by (simp add: state_wf_def)
  have l: "length (concat t) = unat (st_used s)"
    using wf mset_eq_length [OF t(3)] by (simp add: state_wf_def)
  have b: "unat n < 2 ^ 30" if "\<not> st_used s < n"
    using that small by (simp add: word_less_nat_alt)
  have grown: "state_expand_if_needed s = (if st_used s < n then s
      else s\<lparr>st_table := t, st_table_size := n, st_table_mask := n - 1\<rparr>)"
    by (simp add: state_expand_if_needed_def Let_def n_def t_def)
  show "state_wf (state_expand_if_needed s)"
  proof (cases "st_used s < n")
    case True
    with wf show ?thesis by (simp add: grown)
  next
    case False
    with t(1,2) d l b n0 show ?thesis by (simp add: grown state_wf_def st_entries_def)
  qed
  show "mset (st_entries (state_expand_if_needed s)) = mset (st_entries s)"
    using t(3) by (simp add: grown st_entries_def)
  show "st_used (state_expand_if_needed s) = st_used s" "st_id_start (state_expand_if_needed s) = st_id_start s"
    by (simp_all add: grown)
qed

section \<open>Lookup\<close>

lemma get_iff: assumes "state_wf s"
  shows "nw_state_get s i = Some e \<longleftrightarrow> e \<in> set (st_entries s) \<and> se_id e = i"
proof -
  let ?c = "st_table s ! unat (i AND st_table_mask s)"
  have idx: "unat (i AND st_table_mask s) < length (st_table s)"
    using assms by (simp add: state_wf_def index_less)
  have chain: "x \<in> set ?c \<longleftrightarrow> x \<in> set (st_entries s)" if "se_id x = i" for x
  proof
    assume "x \<in> set ?c"
    with idx show "x \<in> set (st_entries s)" unfolding st_entries_def set_concat by (metis UN_I nth_mem)
  next
    assume "x \<in> set (st_entries s)"
    then obtain j where j: "j < length (st_table s)" "x \<in> set (st_table s ! j)"
      unfolding st_entries_def set_concat by (metis UN_E in_set_conv_nth)
    moreover have "buckets_ok (st_table_mask s) (st_table s)" using assms unfolding state_wf_def by blast
    ultimately have "unat (se_id x AND st_table_mask s) = j" unfolding buckets_ok_def by blast
    with j that show "x \<in> set ?c" by simp
  qed
  have inj: "x = y" if "x \<in> set (st_entries s)" "y \<in> set (st_entries s)" "se_id x = se_id y" for x y
    using assms that inj_onD [of se_id "set (st_entries s)" x y] by (simp add: state_wf_def distinct_map)
  show ?thesis
  proof
    assume "nw_state_get s i = Some e"
    then have "e \<in> set ?c \<and> se_id e = i" by (auto simp: nw_state_get_def find_Some_iff)
    with chain show "e \<in> set (st_entries s) \<and> se_id e = i" by blast
  next
    assume e: "e \<in> set (st_entries s) \<and> se_id e = i"
    with chain have "find (\<lambda>entry. se_id entry = i) ?c \<noteq> None" by (auto simp: find_None_iff)
    then obtain x where x: "find (\<lambda>entry. se_id entry = i) ?c = Some x" by blast
    then have "x \<in> set ?c \<and> se_id x = i" by (auto simp: find_Some_iff)
    with chain e inj have "x = e" by metis
    with x show "nw_state_get s i = Some e" by (simp add: nw_state_get_def)
  qed
qed

lemma get_None_iff: "state_wf s \<Longrightarrow> nw_state_get s i = None \<longleftrightarrow> i \<notin> se_id ` set (st_entries s)"
  using get_iff [of s i] by (cases "nw_state_get s i") force+

lemma get_id_start [simp]: "nw_state_get (s\<lparr>st_id_start := j\<rparr>) i = nw_state_get s i"
  by (simp add: nw_state_get_def)

lemma wf_id_start [simp]: "state_wf (s\<lparr>st_id_start := j\<rparr>) = state_wf s"
  by (simp add: state_wf_def st_entries_def)

lemma wf_index: "state_wf s \<Longrightarrow> unat (i AND st_table_mask s) < length (st_table s)"
  by (simp add: state_wf_def index_less)

lemma pending_iff: "state_wf s \<Longrightarrow> pending s i = Some d \<longleftrightarrow> (\<exists>e \<in> set (st_entries s). se_id e = i \<and> se_data e = d)"
  by (auto simp: pending_def get_iff)

text \<open>Two tables whose entries differ by one new entry, or by the entries of one id.\<close>

lemma pending_added: assumes "state_wf s" "state_wf t" "set (st_entries t) = insert e (set (st_entries s))"
    and new: "nw_state_get s (se_id e) = None"
  shows "pending t = (pending s)(se_id e \<mapsto> se_data e)"
proof
  fix j
  have "pending t j = Some d \<longleftrightarrow> ((pending s)(se_id e \<mapsto> se_data e)) j = Some d" for d
    using assms new by (auto simp: pending_iff get_None_iff image_iff)
  then show "pending t j = ((pending s)(se_id e \<mapsto> se_data e)) j"
    by (metis not_Some_eq)
qed

lemma pending_dropped: assumes "state_wf s" "state_wf t" "set (st_entries t) = {e \<in> set (st_entries s). se_id e \<noteq> i}"
  shows "pending t = (pending s)(i := None)"
proof
  fix j
  have "pending t j = Some d \<longleftrightarrow> ((pending s)(i := None)) j = Some d" for d
    using assms by (auto simp: pending_iff)
  then show "pending t j = ((pending s)(i := None)) j"
    by (metis not_Some_eq)
qed

section \<open>Removing an entry\<close>

lemma chain_del_filter: "distinct (map se_id c) \<Longrightarrow> chain_del i c = filter (\<lambda>e. se_id e \<noteq> i) c"
proof (induction c)
  case (Cons e c)
  have "\<forall>x \<in> set c. se_id x \<noteq> se_id e" using Cons.prems by (auto simp: image_iff)
  then have "filter (\<lambda>x. se_id x \<noteq> se_id e) c = c" by (simp add: filter_id_conv)
  with Cons show ?case by auto
qed simp

lemma concat_del: "buckets_ok m table \<Longrightarrow> distinct (map se_id (concat table)) \<Longrightarrow> unat (i AND m) < length table \<Longrightarrow>
    concat (table[unat (i AND m) := chain_del i (table ! unat (i AND m))]) = filter (\<lambda>e. se_id e \<noteq> i) (concat table)"
proof -
  assume ok: "buckets_ok m table" and dist: "distinct (map se_id (concat table))" and k: "unat (i AND m) < length table"
  let ?k = "unat (i AND m)"
  have sp: "table = take ?k table @ table ! ?k # drop (Suc ?k) table"
    using k by (simp add: id_take_nth_drop)
  have other: "filter (\<lambda>e. se_id e \<noteq> i) c = c" if prems: "c \<in> set (take ?k table) \<union> set (drop (Suc ?k) table)" for c
  proof -
    obtain j where j: "j < length table" "j \<noteq> ?k" "c = table ! j"
    proof (cases "c \<in> set (take ?k table)")
      case True
      then obtain j where "j < ?k" "c = table ! j" by (auto simp: in_set_conv_nth)
      with k that [of j] show ?thesis by auto
    next
      case False
      with prems obtain j where "j < length table - Suc ?k" "c = table ! (Suc ?k + j)" by (auto simp: in_set_conv_nth)
      with that [of "Suc ?k + j"] show ?thesis by auto
    qed
    with ok have "\<forall>e \<in> set c. se_id e \<noteq> i" by (auto simp: buckets_ok_def)
    then show ?thesis by (simp add: filter_id_conv)
  qed
  have flat: "filter (\<lambda>e. se_id e \<noteq> i) (concat cs) = concat cs"
    if "set cs \<subseteq> set (take ?k table) \<union> set (drop (Suc ?k) table)" for cs
    using that by (induction cs) (auto simp: other)
  have "distinct (map se_id (table ! ?k))"
    using dist sp by (metis concat.simps(2) concat_append distinct_append map_append)
  then have del: "chain_del i (table ! ?k) = filter (\<lambda>e. se_id e \<noteq> i) (table ! ?k)"
    by (rule chain_del_filter)
  have "concat (table[?k := chain_del i (table ! ?k)])
      = concat (take ?k table) @ chain_del i (table ! ?k) @ concat (drop (Suc ?k) table)"
    using k by (simp add: upd_conv_take_nth_drop)
  also have "\<dots> = filter (\<lambda>e. se_id e \<noteq> i) (concat (take ?k table @ table ! ?k # drop (Suc ?k) table))"
    by (simp add: del flat)
  finally show ?thesis using sp by simp
qed

lemma buckets_ok_del: "buckets_ok m table \<Longrightarrow> buckets_ok m (table[k := filter P (table ! k)])"
  by (cases "k < length table") (simp_all add: buckets_ok_def nth_list_update)

lemma remove_entries: assumes wf: "state_wf s"
  shows "st_entries (state_remove i s) = filter (\<lambda>e. se_id e \<noteq> i) (st_entries s)"
proof (cases "nw_state_get s i")
  case None
  then have "\<forall>e \<in> set (st_entries s). se_id e \<noteq> i" using get_None_iff [OF wf, of i] by blast
  then have "filter (\<lambda>e. se_id e \<noteq> i) (st_entries s) = st_entries s" by (simp add: filter_id_conv)
  with None show ?thesis by (simp add: state_remove_def nw_state_get_def Let_def)
next
  case (Some e)
  have "buckets_ok (st_table_mask s) (st_table s)" "distinct (map se_id (concat (st_table s)))"
    using wf unfolding state_wf_def st_entries_def by blast+
  then show ?thesis using Some concat_del [OF _ _ wf_index [OF wf, of i]]
    by (simp add: state_remove_def nw_state_get_def Let_def st_entries_def)
qed

lemma one_entry: assumes wf: "state_wf s" and e: "e \<in> set (st_entries s)"
  shows "length (st_entries s) = Suc (length (filter (\<lambda>x. se_id x \<noteq> se_id e) (st_entries s)))"
proof -
  have "distinct (filter (\<lambda>x. se_id x = se_id e) (st_entries s))"
    using wf by (simp add: state_wf_def distinct_map)
  moreover have "set (filter (\<lambda>x. se_id x = se_id e) (st_entries s)) = {e}"
    using e wf by (auto simp: state_wf_def distinct_map dest: inj_onD)
  ultimately have "length (filter (\<lambda>x. se_id x = se_id e) (st_entries s)) = 1"
    using distinct_card by fastforce
  then show ?thesis
    using sum_length_filter_compl [of "\<lambda>x. se_id x = se_id e" "st_entries s"] by simp
qed

lemma remove_wf: assumes wf: "state_wf s"
  shows "state_wf (state_remove i s)"
proof (cases "nw_state_get s i")
  case None
  with wf show ?thesis by (simp add: state_remove_def nw_state_get_def Let_def)
next
  case (Some e)
  let ?k = "unat (i AND st_table_mask s)"
  have ok: "buckets_ok (st_table_mask s) (st_table s)" "distinct (map se_id (st_entries s))"
    and used: "unat (st_used s) = length (st_entries s)"
    using wf unfolding state_wf_def by blast+
  from Some have "e \<in> set (st_entries s)" "se_id e = i" using get_iff [OF wf] by blast+
  with one_entry [OF wf] used have "unat (st_used s) = Suc (length (filter (\<lambda>x. se_id x \<noteq> i) (st_entries s)))" by metis
  then have used': "unat (st_used s - 1) = length (filter (\<lambda>x. se_id x \<noteq> i) (st_entries s))"
    by (metis diff_Suc_1 nat.distinct(1) unat_0 unat_minus_one)
  have dist: "distinct (map se_id (st_table s ! ?k))"
    using ok(2) wf_index [OF wf, of i] unfolding st_entries_def
    by (metis concat.simps(2) concat_append distinct_append id_take_nth_drop map_append)
  have ids: "distinct (map se_id (filter (\<lambda>x. se_id x \<noteq> i) (st_entries s)))"
    using ok(2) by (rule distinct_map_filter)
  from Some wf used' ids buckets_ok_del [OF ok(1), of ?k "\<lambda>e. se_id e \<noteq> i"] chain_del_filter [OF dist, of i]
  show ?thesis unfolding state_wf_def remove_entries [OF wf]
    by (simp add: state_remove_def nw_state_get_def Let_def)
qed

lemmas remove_ok = remove_wf remove_entries

lemma del_state: "state_wf s \<Longrightarrow> state_wf (snd (nw_state_del i s)) \<and> pending (snd (nw_state_del i s)) = (pending s)(i := None)"
proof (cases "nw_state_get s i")
  case None
  assume "state_wf s"
  with None show ?thesis by (auto simp: nw_state_del_def pending_def fun_eq_iff)
next
  case (Some e)
  assume wf: "state_wf s"
  with Some have "se_id e = i" by (simp add: get_iff)
  with Some have "snd (nw_state_del i s) = state_remove i s" by (simp add: nw_state_del_def)
  with remove_ok [OF wf, of i] pending_dropped [OF wf, of "state_remove i s" i] show ?thesis by (simp add: set_filter)
qed

section \<open>A free id is found\<close>

text \<open>\<open>k\<close> is the distance to a free id; the loop passes the ids in use, and 0.\<close>

lemma available_id_within: "st_id_start s + of_nat (Suc k) \<noteq> 0 \<Longrightarrow> nw_state_get s (st_id_start s + of_nat (Suc k)) = None
    \<Longrightarrow> \<exists>i. get_available_id s = Some (i, s\<lparr>st_id_start := i\<rparr>) \<and> i \<noteq> 0 \<and> nw_state_get s i = None"
proof (induction k arbitrary: s rule: less_induct)
  case (less k)
  define i where "i = (if st_id_start s + 1 = 0 then st_id_start s + 1 + 1 else st_id_start s + 1)"
  define d :: nat where "d = (if st_id_start s + 1 = 0 then 2 else 1)"
  have i: "i = st_id_start s + of_nat d" "i \<noteq> 0" "0 < d"
    by (simp_all add: i_def d_def ac_simps)
  have step: "get_available_id s = (if nw_state_get s i = None then Some (i, s\<lparr>st_id_start := i\<rparr>)
      else get_available_id (s\<lparr>st_id_start := i\<rparr>))"
    by (subst get_available_id.simps) (simp add: i_def Let_def)
  show ?case
  proof (cases "nw_state_get s i")
    case None
    with i step show ?thesis by simp
  next
    case (Some e)
    have z: "st_id_start s + 1 \<noteq> 0" if "k = 0" using less.prems(1) that by simp
    have "d \<noteq> Suc k" using Some less.prems(2) i(1) by auto
    moreover have "d = 2 \<longrightarrow> k \<noteq> 0" using z by (auto simp: d_def split: if_splits)
    ultimately have k: "d \<le> k" "k - d < k" using i(3) by (auto simp: d_def split: if_splits)
    have shift: "i + of_nat (Suc (k - d)) = st_id_start s + of_nat (Suc k)"
      using k(1) i(1) by (simp add: of_nat_diff algebra_simps)
    have start: "st_id_start (s\<lparr>st_id_start := i\<rparr>) = i" by simp
    have "st_id_start (s\<lparr>st_id_start := i\<rparr>) + of_nat (Suc (k - d)) \<noteq> 0"
        "nw_state_get (s\<lparr>st_id_start := i\<rparr>) (st_id_start (s\<lparr>st_id_start := i\<rparr>) + of_nat (Suc (k - d))) = None"
      unfolding start get_id_start shift by (fact less.prems)+
    from less.IH [OF k(2) this] Some step show ?thesis by simp
  qed
qed

lemma free_id_exists: assumes "state_wf s" "unat (st_used s) < 2 ^ 30"
  shows "\<exists>i. i \<noteq> 0 \<and> nw_state_get s i = None"
proof (rule ccontr)
  assume "\<nexists>i. i \<noteq> 0 \<and> nw_state_get s i = None"
  then have "- {0} \<subseteq> se_id ` set (st_entries s)" using get_None_iff [OF assms(1)] by blast
  then have "card (- {0 :: u32}) \<le> card (se_id ` set (st_entries s))" by (intro card_mono) auto
  also have "\<dots> \<le> length (st_entries s)" by (metis card_length set_map length_map)
  finally show False using assms by (simp add: state_wf_def Compl_eq_Diff_UNIV card_Diff_singleton card_word)
qed

lemma available_id: assumes "state_wf s" "unat (st_used s) < 2 ^ 30"
  shows "\<exists>i. get_available_id s = Some (i, s\<lparr>st_id_start := i\<rparr>) \<and> i \<noteq> 0 \<and> nw_state_get s i = None"
proof -
  obtain i where i: "i \<noteq> 0" "nw_state_get s i = None" using free_id_exists [OF assms] by blast
  define k where "k = unat (i - st_id_start s - 1)"
  have "st_id_start s + of_nat (Suc k) = i" by (simp add: k_def)
  with i show ?thesis using available_id_within [of s k] by simp
qed

section \<open>Adding an entry\<close>

lemma insert_entry: assumes wf: "state_wf s" and small: "unat (st_used s) < 2 ^ 30" and new: "nw_state_get s (se_id e) = None"
  defines "k \<equiv> unat (se_id e AND st_table_mask s)"
  defines "t \<equiv> s\<lparr>st_table := (st_table s)[k := e # st_table s ! k], st_used := st_used s + 1\<rparr>"
  shows "state_wf t" "set (st_entries t) = insert e (set (st_entries s))"
proof -
  have k: "k < length (st_table s)" using wf_index [OF wf] by (simp add: k_def)
  have m: "mset (st_entries t) = add_mset e (mset (st_entries s))"
    using mset_put [OF k, of e] by (simp add: t_def st_entries_def)
  then show s: "set (st_entries t) = insert e (set (st_entries s))"
    by (metis set_mset_add_mset_insert set_mset_mset)
  have "distinct (map se_id (st_entries t)) = distinct (map se_id (e # st_entries s))"
    using m by (intro mset_distinct_ids) simp
  also have "\<dots>" using new wf get_None_iff [OF wf, of "se_id e"] by (simp add: state_wf_def)
  finally have d: "distinct (map se_id (st_entries t))" .
  have "length (st_entries t) = Suc (length (st_entries s))" using m by (metis size_add_mset size_mset)
  moreover have "unat (st_used s + 1) = Suc (unat (st_used s))"
    using small by (simp add: unat_word_ariths)
  moreover have "buckets_ok (st_table_mask s) ((st_table s)[k := e # st_table s ! k])"
    using wf unfolding state_wf_def k_def by (intro buckets_ok_put) blast+
  ultimately show "state_wf t" using wf d by (simp add: state_wf_def t_def)
qed

lemma new_state: assumes wf: "state_wf s" and small: "unat (st_used s) < 2 ^ 30"
  shows "\<exists>i s'. nw_state_new t d s = Some (i, s') \<and> i \<noteq> 0 \<and> pending s i = None \<and> state_wf s' \<and> pending s' = (pending s)(i \<mapsto> d)"
proof -
  obtain i where i: "get_available_id s = Some (i, s\<lparr>st_id_start := i\<rparr>)" "i \<noteq> 0" "nw_state_get s i = None"
    using available_id [OF wf small] by blast
  define s1 where "s1 = state_expand_if_needed (s\<lparr>st_id_start := i\<rparr>)"
  define e where "e = \<lparr> se_id = i, se_timeout = t, se_data = d \<rparr>"
  define k where "k = unat (se_id e AND st_table_mask s1)"
  define s2 where "s2 = s1\<lparr>st_table := (st_table s1)[k := e # st_table s1 ! k], st_used := st_used s1 + 1\<rparr>"
  have "state_wf (s\<lparr>st_id_start := i\<rparr>)" "unat (st_used (s\<lparr>st_id_start := i\<rparr>)) < 2 ^ 30" using wf small by simp_all
  note x = expand_ok [OF this, folded s1_def]
  have ents: "set (st_entries s1) = set (st_entries s)"
    using x(2) by (metis set_mset_mset st_entries_def nw_state.select_convs(1) nw_state.surjective nw_state.update_convs(5))
  have new: "nw_state_get s1 (se_id e) = None"
    using i(3) get_None_iff [OF wf] get_None_iff [OF x(1)] ents by (simp add: e_def)
  have s2: "state_wf s2" "set (st_entries s2) = insert e (set (st_entries s))"
    using insert_entry [OF x(1) _ new] x(3) small ents by (simp_all add: s2_def k_def)
  have "st_used s \<noteq> - 1" proof
    assume "st_used s = - 1"
    then have "st_used s = 4294967295" by simp
    with small show False by simp
  qed
  then have "nw_state_new t d s = Some (i, s2)"
    using i by (simp add: nw_state_new_def nw_state_add_def Let_def s2_def k_def e_def s1_def)
  moreover have "pending s2 = (pending s)(i \<mapsto> d)"
    using pending_added [OF wf s2] i(3) by (simp add: e_def)
  moreover have "pending s i = None" using i(3) by (simp add: pending_def)
  ultimately show ?thesis using i(2) s2(1) by blast
qed

section \<open>The interpretation\<close>

definition state_room :: "'d nw_state \<Rightarrow> bool" where
  "state_room s \<longleftrightarrow> unat (st_used s) < 2 ^ 30"

interpretation requests: request_table state_wf state_room pending nw_state_new "\<lambda>i s. snd (nw_state_del i s)"
  by unfold_locales (auto simp: state_room_def new_state del_state)

lemma wf_create [simp]: "state_wf nw_state_create"
  by (simp add: state_wf_def nw_state_create_def NW_STATE_HASH_TABLE_INIT_SIZE_def st_entries_def)

end
