(* ===== verification/Ws_Facts.thy ===== *)
theory Ws_Facts
  imports Ws_Server Nw_State_Facts
begin

text \<open>
  Facts about the websocket server: what a broadcast sends, the subscription tables as one interface
  (the locale \<open>subscription_table\<close>, interpreted on the six public ones), and what the operations leave alone.
\<close>

section \<open>Broadcasts\<close>

definition c_text :: "string \<Rightarrow> string" where
  "c_text message = takeWhile (\<lambda>c. c \<noteq> CHR 0x00) message"

text \<open>What a notification sends to a list of sessions: nothing when it has no text.\<close>

definition notify_out :: "text_lib \<Rightarrow> string \<Rightarrow> json \<Rightarrow> nat list \<Rightarrow> (nat \<times> string) list" where
  "notify_out J method' params sess =
     (case json_dumps J (notify_json method' params) of None \<Rightarrow> [] | Some t \<Rightarrow> map (\<lambda>ses. (ses, c_text t)) sess)"

lemma notify_out_Nil [simp]: "notify_out J m p [] = []"
  by (simp add: notify_out_def split: option.split)

lemma notify_out_text: "json_dumps J (notify_json m p) = Some t \<Longrightarrow> notify_out J m p sess = map (\<lambda>ses. (ses, c_text t)) sess"
  by (simp add: notify_out_def)

lemma fst_notify_out: "fst ` set (notify_out J m p sess) \<subseteq> set sess"
  by (auto simp: notify_out_def split: option.splits)

lemma send_notify_eq: "send_notify J ses m p s = s\<lparr>ses_sent := ses_sent s @ notify_out J m p [ses]\<rparr>"
  by (simp add: send_notify_def send_json_def ws_send_text_def notify_out_def c_text_def split: option.split)

lemma notify_sessions_eq: "notify_sessions J sess m p s = s\<lparr>ses_sent := ses_sent s @ notify_out J m p sess\<rparr>"
  by (induction sess arbitrary: s) (auto simp: send_notify_eq notify_out_def split: option.splits)

text \<open>A reply of the server itself.\<close>

definition reply_out :: "text_lib \<Rightarrow> nat \<Rightarrow> json \<Rightarrow> (nat \<times> string) list" where
  "reply_out J ses reply = (case json_dumps J reply of None \<Rightarrow> [] | Some t \<Rightarrow> [(ses, c_text t)])"

lemma send_json_eq: "send_json J ses reply s =
    ((if json_dumps J reply = None then - 49 else 0), s\<lparr>ses_sent := ses_sent s @ reply_out J ses reply\<rparr>)"
  by (simp add: send_json_def ws_send_text_def reply_out_def c_text_def split: option.split)

lemmas sends = send_error_def send_error_invalid_argument_def send_error_internal_error_def
  send_error_service_timeout_def send_error_require_auth_def send_result_def send_success_def send_json_eq

section \<open>Sets of sessions\<close>

definition session_set :: "sessions \<Rightarrow> nat set" where
  "session_set d = fst ` set d"

lemma session_set_simps [simp]:
  "session_set [] = {}"
  "session_set (sessions_add ses d) = insert ses (session_set d)"
  "session_set (dv_delete ses d) = session_set d - {ses}"
  by (force simp: session_set_def sessions_add_def dv_add_def dv_delete_def dest: map_of_SomeD split: option.split)+

lemma kline_key_eta [simp]: "\<lparr> kk_market = kk_market k, kk_interval = kk_interval k \<rparr> = (k :: kline_key)"
  by (cases k) simp

section \<open>The interface of a subscription table\<close>

locale subscription_table =
  fixes subscribed :: "'s \<Rightarrow> 'k \<Rightarrow> nat set"
    and valid :: "'k \<Rightarrow> bool"
    and sub :: "nat \<Rightarrow> 'k \<Rightarrow> 's \<Rightarrow> 's"
    and unsub :: "nat \<Rightarrow> 's \<Rightarrow> 's"
  assumes sub_ok: "valid k \<Longrightarrow> valid k' \<Longrightarrow>
      subscribed (sub ses k s) k' = (if k' = k then insert ses (subscribed s k) else subscribed s k')"
    and unsub_ok: "valid k \<Longrightarrow> subscribed (unsub ses s) k = subscribed s k - {ses}"
begin

lemma fold_sub: "\<forall>k \<in> set ks. valid k \<Longrightarrow> valid k' \<Longrightarrow>
    subscribed (fold (sub ses) ks s) k' = (if k' \<in> set ks then insert ses (subscribed s k') else subscribed s k')"
  by (induction ks arbitrary: s) (auto simp: sub_ok)

text \<open>Subscribing afresh: the keys of the list and no others, for this session and no other.\<close>

lemma resubscribe: "\<forall>k \<in> set ks. valid k \<Longrightarrow> valid k' \<Longrightarrow>
    subscribed (fold (sub ses) ks (unsub ses s)) k' = (if k' \<in> set ks then insert ses (subscribed s k') else subscribed s k' - {ses})"
  by (auto simp: fold_sub unsub_ok)

lemma others_untouched: "\<forall>k \<in> set ks. valid k \<Longrightarrow> valid k' \<Longrightarrow> other \<noteq> ses \<Longrightarrow>
    other \<in> subscribed (fold (sub ses) ks (unsub ses s)) k' \<longleftrightarrow> other \<in> subscribed s k'"
  by (auto simp: resubscribe)

end

section \<open>The six tables\<close>

definition depth_subscribers :: "'z aw_depth_scheme \<Rightarrow> depth_key \<Rightarrow> nat set" where
  "depth_subscribers s key = (case dv_find (dict_depth s) key of None \<Rightarrow> {} | Some obj \<Rightarrow> session_set (dp_sessions obj))"

definition kline_subscribers :: "'z aw_kline_scheme \<Rightarrow> kline_key \<Rightarrow> nat set" where
  "kline_subscribers s key = (case dv_find (dict_kline s) key of None \<Rightarrow> {} | Some obj \<Rightarrow> session_set (kv_sessions obj))"

definition state_subscribers :: "'z aw_state_scheme \<Rightarrow> string \<Rightarrow> nat set" where
  "state_subscribers s market = (case dv_find (state_market s) market of None \<Rightarrow> {} | Some obj \<Rightarrow> session_set (mv_sessions obj))"

definition today_subscribers :: "'z aw_today_scheme \<Rightarrow> string \<Rightarrow> nat set" where
  "today_subscribers s market = (case dv_find (today_market s) market of None \<Rightarrow> {} | Some obj \<Rightarrow> session_set (mv_sessions obj))"

definition price_subscribers :: "('d, 'z) aw_price_scheme \<Rightarrow> string \<Rightarrow> nat set" where
  "price_subscribers s market = (case dv_find (price_market s) market of None \<Rightarrow> {} | Some obj \<Rightarrow> session_set (pv_sessions obj))"

definition deals_subscribers :: "('d, 'z) aw_deals_scheme \<Rightarrow> string \<Rightarrow> nat set" where
  "deals_subscribers s market = (case dv_find (deals_market s) market of None \<Rightarrow> {} | Some obj \<Rightarrow> session_set (ds_sessions obj))"

lemmas subscribers_defs = depth_subscribers_def kline_subscribers_def state_subscribers_def today_subscribers_def
  price_subscribers_def deals_subscribers_def

text \<open>The keys the handlers accept.\<close>

definition good_depth :: "'d mpd_lib \<Rightarrow> 'd ws_settings \<Rightarrow> depth_key \<Rightarrow> bool" where
  "good_depth D C key \<longleftrightarrow> length (dk_market key) < MARKET_NAME_MAX_LEN \<and> length (dk_interval key) < INTERVAL_MAX_LEN
     \<and> is_good_limit C (sint (dk_limit key)) \<and> is_good_interval D C (dk_interval key)"

definition good_kline :: "kline_key \<Rightarrow> bool" where
  "good_kline key \<longleftrightarrow> length (kk_market key) < MARKET_NAME_MAX_LEN"

lemma mk_depth_key_self: "good_depth D C key \<Longrightarrow> mk_depth_key (dk_market key) (dk_limit key) (dk_interval key) = key"
  by (simp add: good_depth_def mk_depth_key_def MARKET_NAME_MAX_LEN_def INTERVAL_MAX_LEN_def)

interpretation depth_table: subscription_table depth_subscribers "good_depth D C"
    "\<lambda>ses key s. snd (depth_subscribe D C ses (dk_market key) (dk_limit key) (dk_interval key) s)" depth_unsubscribe for D C
proof unfold_locales
  fix k k' ses and s :: "'c aw_depth_scheme"
  assume "good_depth D C k" "good_depth D C k'"
  then show "depth_subscribers (snd (depth_subscribe D C ses (dk_market k) (dk_limit k) (dk_interval k) s)) k'
      = (if k' = k then insert ses (depth_subscribers s k) else depth_subscribers s k')"
    using mk_depth_key_self [of D C k]
    by (auto simp: depth_subscribers_def depth_subscribe_def good_depth_def Let_def split: option.split)
qed (auto simp: depth_subscribers_def depth_unsubscribe_def dv_find_map split: option.split)

interpretation kline_table: subscription_table kline_subscribers good_kline
    "\<lambda>ses key s. snd (kline_subscribe ses (kk_market key) (kk_interval key) s)" kline_unsubscribe
  by unfold_locales (auto simp: kline_subscribers_def kline_subscribe_def kline_unsubscribe_def good_kline_def
    MARKET_NAME_MAX_LEN_def dv_find_map Let_def split: option.split)

interpretation state_table: subscription_table state_subscribers "\<lambda>_. True" "\<lambda>ses market s. snd (state_subscribe ses market s)" state_unsubscribe
  by unfold_locales (auto simp: state_subscribers_def state_subscribe_def state_unsubscribe_def dv_find_map Let_def split: option.split)

interpretation today_table: subscription_table today_subscribers "\<lambda>_. True" "\<lambda>ses market s. snd (today_subscribe ses market s)" today_unsubscribe
  by unfold_locales (auto simp: today_subscribers_def today_subscribe_def today_unsubscribe_def dv_find_map Let_def split: option.split)

interpretation price_table: subscription_table price_subscribers "\<lambda>_. True" "\<lambda>ses market s. snd (price_subscribe D ses market s)"
    price_unsubscribe for D
  by unfold_locales (auto simp: price_subscribers_def price_subscribe_def price_unsubscribe_def dv_find_map Let_def split: option.split)

interpretation deals_table: subscription_table deals_subscribers "\<lambda>_. True" "\<lambda>ses market s. snd (deals_subscribe ses market s)" deals_unsubscribe
  by unfold_locales (auto simp: deals_subscribers_def deals_subscribe_def deals_unsubscribe_def dv_find_map Let_def split: option.split)

end
