(* ===== verification/Ws_Run.thy ===== *)
theory Ws_Run
  imports Ws_Facts
begin

text \<open>
  The websocket server as a step relation: a client connects, sends a message or goes; a process behind
  answers; a timer runs out; the authentication service answers; a report of the engine arrives from Kafka. The
  invariant is about the private streams: who is in the lists of orders and balances of a user.
\<close>

section \<open>Steps\<close>

definition aw_start :: "(nat \<Rightarrow> timestamp) \<Rightarrow> 'd aw_server" where
  "aw_start clk =
     \<lparr> ses_id = \<lambda>_. 0, ses_sent = [], backend_sent = [], backend_up = \<lambda>_. False, ws_clock = clk, ws_ticks = 0,
       dict_depth = [], depth_context = nw_state_create, dict_kline = [], kline_context = nw_state_create,
       state_market = [], state_context = nw_state_create, today_market = [], today_context = nw_state_create,
       price_market = [], price_context = nw_state_create, deals_market = [], deals_context = nw_state_create,
       order_sub = [], asset_sub = [], asset_context = nw_state_create,
       info = \<lambda>_. \<lparr> ci_auth = False, ci_user_id = 0, ci_source = None \<rparr>, auth_context = nw_state_create, auth_jobs = [],
       sign_context = nw_state_create, sign_jobs = [], request_context = nw_state_create, backend_cache = [], ws_id_start = 0 \<rparr>"

inductive aw_step :: "'d mpd_lib \<Rightarrow> text_lib \<Rightarrow> 'd ws_settings \<Rightarrow> ('d, 'z) aw_server_scheme \<Rightarrow> ('d, 'z) aw_server_scheme \<Rightarrow> bool"
  for D J C where
  connect: "ses_id s ses = 0 \<Longrightarrow> aw_step D J C s (open_session ses s)"
| message: "ses_id s ses \<noteq> 0 \<Longrightarrow> ws_on_message D J C ses msg s = Some (ret, t) \<Longrightarrow> aw_step D J C s (if ret < 0 then close_session ses t else t)"
| disconnect: "ses_id s ses \<noteq> 0 \<Longrightarrow> aw_step D J C s (close_session ses s)"
| up: "aw_step D J C s (s\<lparr>backend_up := b\<rparr>)"
| reply: "aw_step D J C s (ws_on_backend_recv_pkg J pkg s)"
| depth_reply: "aw_step D J C s (depth_on_backend_recv_pkg D J pkg s)"
| kline_reply: "kline_on_backend_recv_pkg J pkg s = Some t \<Longrightarrow> aw_step D J C s t"
| state_reply: "state_on_backend_recv_pkg J pkg s = Some t \<Longrightarrow> aw_step D J C s t"
| today_reply: "today_on_backend_recv_pkg J pkg s = Some t \<Longrightarrow> aw_step D J C s t"
| price_reply: "aw_step D J C s (price_on_backend_recv_pkg D J pkg s)"
| deals_reply: "aw_step D J C s (deals_on_backend_recv_pkg J pkg s)"
| asset_reply: "aw_step D J C s (asset_on_backend_recv_pkg J pkg s)"
| depth_timer: "depth_on_timer J C s = Some t \<Longrightarrow> aw_step D J C s t"
| kline_timer: "kline_on_timer J C s = Some t \<Longrightarrow> aw_step D J C s t"
| state_timer: "state_on_timer J C s = Some t \<Longrightarrow> aw_step D J C s t"
| today_timer: "today_on_timer J C s = Some t \<Longrightarrow> aw_step D J C s t"
| price_timer: "price_on_timer J C s = Some t \<Longrightarrow> aw_step D J C s t"
| deals_timer: "deals_on_timer J C s = Some t \<Longrightarrow> aw_step D J C s t"
| cache_timer: "aw_step D J C s (ws_on_cache_timer s)"
| timeout: "nw_state_get (request_context s) i = Some entry \<Longrightarrow> aw_step D J C s (ws_on_timeout J entry s)"
| depth_timeout: "aw_step D J C s (s\<lparr>depth_context := state_on_timeout entry1 (depth_context s)\<rparr>)"
| kline_timeout: "aw_step D J C s (s\<lparr>kline_context := state_on_timeout entry2 (kline_context s)\<rparr>)"
| state_timeout: "aw_step D J C s (s\<lparr>state_context := state_on_timeout entry3 (state_context s)\<rparr>)"
| today_timeout: "aw_step D J C s (s\<lparr>today_context := state_on_timeout entry3 (today_context s)\<rparr>)"
| price_timeout: "aw_step D J C s (s\<lparr>price_context := state_on_timeout entry3 (price_context s)\<rparr>)"
| deals_timeout: "aw_step D J C s (s\<lparr>deals_context := state_on_timeout entry3 (deals_context s)\<rparr>)"
| asset_timeout: "aw_step D J C s (s\<lparr>asset_context := state_on_timeout entry4 (asset_context s)\<rparr>)"
| auth: "aw_step D J C s (auth_on_finish J i answer s)"
| auth_timeout: "aw_step D J C s (auth_on_timeout J entry5 s)"
| sign: "aw_step D J C s (sign_on_finish J i answer s)"
| sign_timeout: "aw_step D J C s (sign_on_timeout J entry5 s)"
| orders: "on_orders_message J C text' s = Some t \<Longrightarrow> aw_step D J C s t"
| balances: "on_balances_message J C text' s = Some t \<Longrightarrow> aw_step D J C s t"

abbreviation aw_run :: "'d mpd_lib \<Rightarrow> text_lib \<Rightarrow> 'd ws_settings \<Rightarrow> ('d, 'z) aw_server_scheme \<Rightarrow> ('d, 'z) aw_server_scheme \<Rightarrow> bool" where
  "aw_run D J C \<equiv> (aw_step D J C)\<^sup>*\<^sup>*"

section \<open>The private part of the state\<close>

definition owners :: "('d, 'z) aw_auth_scheme \<Rightarrow> (u32, sub_unit list) dict_view \<times> (u32, sub_unit list) dict_view
    \<times> (nat \<Rightarrow> bool) \<times> (nat \<Rightarrow> u32) \<times> (nat \<Rightarrow> u64)" where
  "owners s = (order_sub s, asset_sub s, (\<lambda>ses. ci_auth (info s ses)), (\<lambda>ses. ci_user_id (info s ses)), ses_id s)"

lemma owners_updates [simp]:
  "owners (s\<lparr>ses_sent := a\<rparr>) = owners s" "owners (s\<lparr>backend_sent := b\<rparr>) = owners s"
  "owners (s\<lparr>backend_up := c\<rparr>) = owners s" "owners (s\<lparr>ws_ticks := d\<rparr>) = owners s"
  "owners (s\<lparr>dict_depth := e\<rparr>) = owners s" "owners (s\<lparr>depth_context := f\<rparr>) = owners s"
  "owners (s\<lparr>dict_kline := g\<rparr>) = owners s" "owners (s\<lparr>kline_context := h\<rparr>) = owners s"
  "owners (s\<lparr>state_market := i\<rparr>) = owners s" "owners (s\<lparr>state_context := j\<rparr>) = owners s"
  "owners (s\<lparr>today_market := i\<rparr>) = owners s" "owners (s\<lparr>today_context := j\<rparr>) = owners s"
  "owners (s\<lparr>price_market := k\<rparr>) = owners s" "owners (s\<lparr>price_context := j\<rparr>) = owners s"
  "owners (s\<lparr>deals_market := l\<rparr>) = owners s" "owners (s\<lparr>deals_context := j\<rparr>) = owners s"
  "owners (s\<lparr>asset_context := m\<rparr>) = owners s" "owners (s\<lparr>auth_context := n\<rparr>) = owners s"
  "owners (s\<lparr>sign_context := n\<rparr>) = owners s" "owners (s\<lparr>auth_jobs := p\<rparr>) = owners s" "owners (s\<lparr>sign_jobs := q\<rparr>) = owners s"
  by (simp_all add: owners_def)

lemma owners_server_updates [simp]:
  "owners (s\<lparr>request_context := n\<rparr>) = owners s" "owners (s\<lparr>backend_cache := n'\<rparr>) = owners s" "owners (s\<lparr>ws_id_start := n''\<rparr>) = owners s"
  by (simp_all add: owners_def)

lemma owners_io [simp]:
  "owners (ws_send_text ses t s) = owners s"
  "owners (snd (send_json J ses j s)) = owners s"
  "owners (notify_sessions J sess m p s) = owners s"
  "owners (send_notify J ses m p s) = owners s"
  "owners (rpc_clt_send clt pkg s) = owners s"
  "owners (snd (ws_current_timestamp s)) = owners s"
  "owners (snd (ws_time s)) = owners s"
  by (simp_all add: ws_send_text_def send_json_eq notify_sessions_eq send_notify_eq rpc_clt_send_def ws_current_timestamp_def
      ws_time_def Let_def)

section \<open>Operations that leave it alone\<close>

lemma owners_depth_reply [simp]: "owners (depth_on_backend_recv_pkg D J pkg s) = owners s"
  by (simp add: depth_on_backend_recv_pkg_def on_market_depth_reply_def depth_broadcast_update_def ws_time_def ws_current_timestamp_def
      Let_def split: option.split)

lemma owners_kline_reply: "kline_on_backend_recv_pkg J pkg s = Some t \<Longrightarrow> owners t = owners s"
  by (auto simp: kline_on_backend_recv_pkg_def on_market_kline_reply_def kline_broadcast_update_def Let_def
      split: option.splits if_splits bool.splits)

lemma owners_state_reply: "state_on_backend_recv_pkg J pkg s = Some t \<Longrightarrow> owners t = owners s"
  by (auto simp: state_on_backend_recv_pkg_def on_market_status_reply_def Let_def split: option.splits if_splits bool.splits)

lemma owners_today_reply: "today_on_backend_recv_pkg J pkg s = Some t \<Longrightarrow> owners t = owners s"
  by (auto simp: today_on_backend_recv_pkg_def on_market_status_today_reply_def Let_def split: option.splits if_splits bool.splits)

lemma owners_price_reply [simp]: "owners (price_on_backend_recv_pkg D J pkg s) = owners s"
  by (simp add: price_on_backend_recv_pkg_def on_market_last_reply_def Let_def split: option.split)

lemma owners_deals_reply [simp]: "owners (deals_on_backend_recv_pkg J pkg s) = owners s"
  by (simp add: deals_on_backend_recv_pkg_def on_order_deals_reply_def Let_def split: option.split)

lemma owners_asset_reply [simp]: "owners (asset_on_backend_recv_pkg J pkg s) = owners s"
  by (simp add: asset_on_backend_recv_pkg_def on_balance_query_reply_def Let_def split: option.split)

lemma owners_reply [simp]: "owners (ws_on_backend_recv_pkg J pkg s) = owners s"
  by (simp add: ws_on_backend_recv_pkg_def ws_current_timestamp_def Let_def split: option.split)

lemma owners_depth_timer: "depth_timer_loop J C entries s = Some t \<Longrightarrow> owners t = owners s"
  by (induction entries s rule: depth_timer_loop.induct) (auto simp: Let_def split: if_splits option.splits)

lemma owners_kline_timer: "kline_timer_loop J C entries s = Some t \<Longrightarrow> owners t = owners s"
  by (induction entries s rule: kline_timer_loop.induct)
    (auto simp: Let_def ws_time_def ws_current_timestamp_def split: if_splits option.splits)

lemma owners_state_timer: "state_timer_loop J C entries s = Some t \<Longrightarrow> owners t = owners s"
  by (induction entries s rule: state_timer_loop.induct) (auto simp: Let_def split: if_splits option.splits)

lemma owners_today_timer: "today_timer_loop J C entries s = Some t \<Longrightarrow> owners t = owners s"
  by (induction entries s rule: today_timer_loop.induct) (auto simp: Let_def split: if_splits option.splits)

lemma owners_price_timer: "price_timer_loop J C entries s = Some t \<Longrightarrow> owners t = owners s"
  by (induction entries s rule: price_timer_loop.induct) (auto simp: Let_def split: if_splits option.splits)

lemma owners_deals_timer: "deals_timer_loop J C entries s = Some t \<Longrightarrow> owners t = owners s"
  by (induction entries s rule: deals_timer_loop.induct) (auto simp: Let_def split: if_splits option.splits)

section \<open>Every stream belongs to its user\<close>

text \<open>Who is in the list of a user is a connected session that has authenticated as that user.\<close>

definition owned :: "(u32, sub_unit list) dict_view \<Rightarrow> (nat \<Rightarrow> bool) \<Rightarrow> (nat \<Rightarrow> u32) \<Rightarrow> (nat \<Rightarrow> u64) \<Rightarrow> bool" where
  "owned subs authed user ids \<longleftrightarrow> (\<forall>u list unit. dv_find subs u = Some list \<longrightarrow> unit \<in> set list
     \<longrightarrow> ids (su_ses unit) \<noteq> 0 \<and> authed (su_ses unit) \<and> user (su_ses unit) = u)"

definition private_ok :: "('d, 'z) aw_auth_scheme \<Rightarrow> bool" where
  "private_ok s = (case owners s of (orders, assets, authed, user, ids) \<Rightarrow> owned orders authed user ids \<and> owned assets authed user ids)"

lemma private_ok_cong: "owners t = owners s \<Longrightarrow> private_ok s \<Longrightarrow> private_ok t"
  by (simp add: private_ok_def)

lemma private_ok_iff: "private_ok s \<longleftrightarrow>
    owned (order_sub s) (\<lambda>ses. ci_auth (info s ses)) (\<lambda>ses. ci_user_id (info s ses)) (ses_id s)
    \<and> owned (asset_sub s) (\<lambda>ses. ci_auth (info s ses)) (\<lambda>ses. ci_user_id (info s ses)) (ses_id s)"
  by (simp add: private_ok_def owners_def)

text \<open>Leaving a list, and joining one's own.\<close>

definition drop_session :: "u32 \<Rightarrow> nat \<Rightarrow> (u32, sub_unit list) dict_view \<Rightarrow> (u32, sub_unit list) dict_view" where
  "drop_session u ses subs = (case dv_find subs u of
       None \<Rightarrow> subs
     | Some list \<Rightarrow> (let list = filter (\<lambda>unit. su_ses unit \<noteq> ses) list in if list = [] then dv_delete u subs else dv_put u list subs))"

lemma order_unsubscribe_eq: "order_unsubscribe u ses s = s\<lparr>order_sub := drop_session u ses (order_sub s)\<rparr>"
  by (simp add: order_unsubscribe_def drop_session_def Let_def split: option.split)

lemma asset_unsubscribe_eq: "asset_unsubscribe u ses s = s\<lparr>asset_sub := drop_session u ses (asset_sub s)\<rparr>"
  by (simp add: asset_unsubscribe_def drop_session_def Let_def split: option.split)

lemma find_drop: "dv_find (drop_session u ses subs) v = Some list \<Longrightarrow>
    \<exists>list'. dv_find subs v = Some list' \<and> set list \<subseteq> set list' \<and> (v = u \<longrightarrow> (\<forall>unit \<in> set list. su_ses unit \<noteq> ses))"
  by (auto simp: drop_session_def Let_def split: option.splits if_splits)

lemma owned_drop: "owned subs a usr ids \<Longrightarrow> owned (drop_session u ses subs) a usr ids"
  unfolding owned_def using find_drop [of u ses subs] by blast

text \<open>After a user's session has left that user's list it is in no list.\<close>

lemma owned_gone: "owned subs a usr ids \<Longrightarrow> dv_find (drop_session (usr ses) ses subs) v = Some list \<Longrightarrow> unit \<in> set list \<Longrightarrow> su_ses unit \<noteq> ses"
  unfolding owned_def using find_drop [of "usr ses" ses subs v list] by blast

lemma owned_change: "owned subs a usr ids \<Longrightarrow> (\<And>v list unit. dv_find subs v = Some list \<Longrightarrow> unit \<in> set list \<Longrightarrow> su_ses unit \<noteq> ses) \<Longrightarrow>
    (\<And>x. x \<noteq> ses \<Longrightarrow> a' x = a x \<and> usr' x = usr x \<and> ids' x = ids x) \<Longrightarrow> owned subs a' usr' ids'"
  unfolding owned_def by metis

lemma owned_join: "owned subs a usr ids \<Longrightarrow> ids ses \<noteq> 0 \<Longrightarrow> a ses \<Longrightarrow> dv_find subs (usr ses) = old \<Longrightarrow> su_ses unit = ses
    \<Longrightarrow> set list \<subseteq> insert unit (case old of None \<Rightarrow> {} | Some xs \<Rightarrow> set xs) \<Longrightarrow> owned (dv_put (usr ses) list subs) a usr ids"
  unfolding owned_def by (auto split: option.splits)

lemma owned_nil [simp]: "owned [] a usr ids"
  by (simp add: owned_def)

section \<open>Subscribing to a private stream\<close>

lemma subscribe_markets_inv: assumes "\<And>m s. P s \<Longrightarrow> P (snd (sub m s))" "\<And>s r. P s \<Longrightarrow> P (s\<lparr>ses_sent := r\<rparr>)"
  shows "P s \<Longrightarrow> P (snd (subscribe_markets J n sub ses i params s))"
proof (induction params arbitrary: s)
  case (Cons p params)
  show ?case
  proof (cases "json_string_value (Some p)")
    case None
    with Cons.prems assms(2) show ?thesis by (simp add: sends)
  next
    case (Some m)
    from Cons.prems assms(1) [of s m] have "P (snd (sub m s))" by simp
    with Some Cons assms(2) show ?thesis by (auto simp: sends Let_def split: prod.splits)
  qed
qed simp

text \<open>The session in question is connected and authenticated as user \<open>u\<close>.\<close>

definition authed_as :: "nat \<Rightarrow> u32 \<Rightarrow> ('d, 'z) aw_auth_scheme \<Rightarrow> bool" where
  "authed_as ses u s \<longleftrightarrow> private_ok s \<and> ses_id s ses \<noteq> 0 \<and> ci_auth (info s ses) \<and> ci_user_id (info s ses) = u"

lemma order_subscribe_ok: "authed_as ses u s \<Longrightarrow> authed_as ses u (snd (order_subscribe u ses m s))"
  unfolding authed_as_def private_ok_iff order_subscribe_def Let_def
  by (auto intro!: owned_join [where unit = "\<lparr> su_ses = ses, su_name = take (MARKET_NAME_MAX_LEN - 1) m \<rparr>"
        and usr = "\<lambda>x. ci_user_id (info s x)" and ses = ses, OF _ _ _ refl] split: option.split)

lemma asset_subscribe_ok: "authed_as ses u s \<Longrightarrow> authed_as ses u (snd (asset_subscribe u ses m s))"
  unfolding authed_as_def private_ok_iff asset_subscribe_def Let_def
  by (auto intro!: owned_join [where unit = "\<lparr> su_ses = ses, su_name = take (WS_ASSET_NAME_MAX_LEN - 1) m \<rparr>"
        and usr = "\<lambda>x. ci_user_id (info s x)" and ses = ses, OF _ _ _ refl] split: option.split)

lemma authed_as_sent: "authed_as ses u s \<Longrightarrow> authed_as ses u (s\<lparr>ses_sent := r\<rparr>)"
  by (simp add: authed_as_def private_ok_iff)

lemma order_unsubscribe_ok: "private_ok s \<Longrightarrow> private_ok (order_unsubscribe u ses s)"
  by (simp add: private_ok_iff order_unsubscribe_eq owned_drop)

lemma asset_unsubscribe_ok: "private_ok s \<Longrightarrow> private_ok (asset_unsubscribe u ses s)"
  by (simp add: private_ok_iff asset_unsubscribe_eq owned_drop)

lemma order_subscribe_method: "private_ok s \<Longrightarrow> ses_id s ses \<noteq> 0 \<Longrightarrow> on_method_order_subscribe J C ses i params s = Some (ret, t) \<Longrightarrow> private_ok t"
proof -
  assume s: "private_ok s" "ses_id s ses \<noteq> 0" and m: "on_method_order_subscribe J C ses i params s = Some (ret, t)"
  show ?thesis
  proof (cases "ci_auth (info s ses)")
    case False
    with m s show ?thesis by (auto simp: on_method_order_subscribe_def sends private_ok_iff)
  next
    case True
    let ?u = "ci_user_id (info s ses)"
    have start: "authed_as ses ?u (order_unsubscribe ?u ses s)"
      using s True order_unsubscribe_ok [OF s(1), of ?u ses] by (simp add: authed_as_def order_unsubscribe_eq)
    obtain r s2 where run: "subscribe_markets J MARKET_NAME_MAX_LEN (order_subscribe ?u ses) ses i (json_elements params)
        (order_unsubscribe ?u ses s) = (r, s2)" by fastforce
    with subscribe_markets_inv [where P = "authed_as ses ?u" and sub = "order_subscribe ?u ses", OF order_subscribe_ok authed_as_sent start,
        of J MARKET_NAME_MAX_LEN ses i "json_elements params"]
    have "private_ok s2" by (simp add: authed_as_def)
    with m True run show ?thesis
      by (auto simp: on_method_order_subscribe_def sends private_ok_iff Let_def split: option.splits)
  qed
qed

lemma asset_subscribe_method: "private_ok s \<Longrightarrow> ses_id s ses \<noteq> 0 \<Longrightarrow> on_method_asset_subscribe J C ses i params s = Some (ret, t) \<Longrightarrow> private_ok t"
proof -
  assume s: "private_ok s" "ses_id s ses \<noteq> 0" and m: "on_method_asset_subscribe J C ses i params s = Some (ret, t)"
  show ?thesis
  proof (cases "ci_auth (info s ses)")
    case False
    with m s show ?thesis by (auto simp: on_method_asset_subscribe_def sends private_ok_iff)
  next
    case True
    let ?u = "ci_user_id (info s ses)"
    have start: "authed_as ses ?u (asset_unsubscribe ?u ses s)"
      using s True asset_unsubscribe_ok [OF s(1), of ?u ses] by (simp add: authed_as_def asset_unsubscribe_eq)
    obtain r s2 where run: "subscribe_markets J WS_ASSET_NAME_MAX_LEN (asset_subscribe ?u ses) ses i (json_elements params)
        (asset_unsubscribe ?u ses s) = (r, s2)" by fastforce
    with subscribe_markets_inv [where P = "authed_as ses ?u" and sub = "asset_subscribe ?u ses", OF asset_subscribe_ok authed_as_sent start,
        of J WS_ASSET_NAME_MAX_LEN ses i "json_elements params"]
    have "private_ok s2" by (simp add: authed_as_def)
    with m True run show ?thesis
      by (auto simp: on_method_asset_subscribe_def sends private_ok_iff Let_def split: option.splits)
  qed
qed

section \<open>The methods\<close>

definition handler_ok :: "(text_lib \<Rightarrow> 'c ws_settings \<Rightarrow> nat \<Rightarrow> u64 \<Rightarrow> json \<Rightarrow> ('d, 'z) aw_auth_scheme \<Rightarrow> (int \<times> ('d, 'z) aw_auth_scheme) option) \<Rightarrow> bool" where
  "handler_ok h \<longleftrightarrow> (\<forall>J C ses i params s ret t. private_ok s \<longrightarrow> ses_id s ses \<noteq> 0 \<longrightarrow> h J C ses i params s = Some (ret, t) \<longrightarrow> private_ok t)"

lemma handler_frame: "(\<And>J C ses i params s ret t. h J C ses i params s = Some (ret, t) \<Longrightarrow> owners t = owners s) \<Longrightarrow> handler_ok h"
  unfolding handler_ok_def using private_ok_cong by blast

lemma owners_info: "\<forall>ses. ci_auth (f ses) = ci_auth (info s ses) \<and> ci_user_id (f ses) = ci_user_id (info s ses) \<Longrightarrow>
    owners (s\<lparr>info := f\<rparr>) = owners s"
  by (simp add: owners_def)

lemma owners_send [simp]: "owners (snd (send_result J ses i r s)) = owners s"
  by (simp add: sends)

lemma forward_request_owners: "forward_request C to cmd ses i key body s = Some (ret, t) \<Longrightarrow> owners t = owners s"
  by (auto simp: forward_request_def split: option.splits)

lemma public_query_owners: "public_query to cmd J C ses i params s = Some (ret, t) \<Longrightarrow> owners t = owners s"
  by (auto simp: public_query_def ws_process_cache_def ws_current_timestamp_def sends Let_def
      split: if_splits option.splits prod.splits dest!: forward_request_owners)

lemma user_query_owners: "user_query to cmd J C ses i params s = Some (ret, t) \<Longrightarrow> owners t = owners s"
  by (auto simp: user_query_def split: option.splits dest!: forward_request_owners)

lemma query_handlers:
  "handler_ok on_method_kline_query" "handler_ok on_method_depth_query" "handler_ok on_method_price_query"
  "handler_ok on_method_state_query" "handler_ok on_method_today_query" "handler_ok on_method_deals_query"
  by (auto intro!: handler_frame dest: public_query_owners simp: on_method_kline_query_def on_method_depth_query_def
      on_method_price_query_def on_method_state_query_def on_method_today_query_def on_method_deals_query_def)

lemma user_handlers: "handler_ok on_method_order_query" "handler_ok on_method_order_history"
  "handler_ok on_method_asset_query" "handler_ok on_method_asset_history"
  by (auto intro!: handler_frame dest!: user_query_owners simp: on_method_order_query_def on_method_order_history_def
      on_method_asset_query_def on_method_asset_history_def sends Let_def split: if_splits option.splits)

lemma server_handlers: "handler_ok on_method_server_ping" "handler_ok on_method_server_time"
  "handler_ok on_method_server_auth" "handler_ok on_method_server_sign"
  by (auto intro!: handler_frame simp: on_method_server_ping_def on_method_server_time_def on_method_server_auth_def on_method_server_sign_def
      send_auth_request_def send_sign_request_def sends ws_time_def ws_current_timestamp_def owners_info Let_def
      split: if_splits option.splits)

lemma owners_subs [simp]:
  "owners (snd (kline_subscribe ses m k s)) = owners s" "owners (kline_unsubscribe ses s) = owners s"
  "owners (snd (depth_subscribe D C ses m l iv s')) = owners s'" "owners (depth_unsubscribe ses s) = owners s"
  "owners (snd (state_subscribe ses m s)) = owners s" "owners (state_unsubscribe ses s) = owners s"
  "owners (snd (today_subscribe ses m s)) = owners s" "owners (today_unsubscribe ses s) = owners s"
  "owners (snd (price_subscribe D' ses m s)) = owners s" "owners (price_unsubscribe ses s) = owners s"
  "owners (snd (deals_subscribe ses m s)) = owners s" "owners (deals_unsubscribe ses s) = owners s"
  "owners (depth_send_clean J ses m l iv s) = owners s" "owners (state_send_last J ses m s) = owners s"
  "owners (today_send_last J ses m s) = owners s" "owners (price_send_last D' J ses m s) = owners s"
  "owners (snd (deals_send_full J ses m s)) = owners s"
  by (simp_all add: kline_subscribe_def kline_unsubscribe_def depth_subscribe_def depth_unsubscribe_def state_subscribe_def
      state_unsubscribe_def today_subscribe_def today_unsubscribe_def price_subscribe_def price_unsubscribe_def deals_subscribe_def
      deals_unsubscribe_def depth_send_clean_def state_send_last_def today_send_last_def price_send_last_def deals_send_full_def
      Let_def split: option.split)

lemma subscribe_markets_owners: "(\<And>m s. owners (snd (sub m s)) = owners s) \<Longrightarrow> owners (snd (subscribe_markets J n sub ses i params s)) = owners s"
  using subscribe_markets_inv [where P = "\<lambda>t. owners t = owners s" and sub = sub] by simp

lemma send_markets_owners: "(\<And>m s. owners (send m s) = owners s) \<Longrightarrow> owners (send_markets send params s) = owners s"
  by (induction params arbitrary: s) (simp_all split: option.split)

lemma subscribe_pairs:
  "kline_subscribe ses m k s = (r, t) \<Longrightarrow> owners t = owners s"
  "depth_subscribe D C ses m l iv s' = (r, t') \<Longrightarrow> owners t' = owners s'"
  "deals_send_full J ses m s = (r, t) \<Longrightarrow> owners t = owners s"
  "send_success J ses i s = (r, t) \<Longrightarrow> owners t = owners s"
  by (metis owners_subs snd_conv owners_send send_success_def)+

lemma market_pairs:
  "subscribe_markets J n (state_subscribe ses) ses' i ps s = (r, t) \<Longrightarrow> owners t = owners s"
  "subscribe_markets J n (today_subscribe ses) ses' i ps s = (r, t) \<Longrightarrow> owners t = owners s"
  "subscribe_markets J n (price_subscribe D ses) ses' i ps s = (r, t) \<Longrightarrow> owners t = owners s"
  "subscribe_markets J n (deals_subscribe ses) ses' i ps s = (r, t) \<Longrightarrow> owners t = owners s"
  using subscribe_markets_owners [of "state_subscribe ses" J n ses' i ps s] subscribe_markets_owners [of "today_subscribe ses" J n ses' i ps s]
    subscribe_markets_owners [of "price_subscribe D ses" J n ses' i ps s] subscribe_markets_owners [of "deals_subscribe ses" J n ses' i ps s]
  by simp_all

lemma kline_handlers: "handler_ok on_method_kline_subscribe" "handler_ok on_method_kline_unsubscribe"
  by (auto intro!: handler_frame simp: on_method_kline_subscribe_def on_method_kline_unsubscribe_def Let_def
      sends dest!: subscribe_pairs split: if_splits option.splits prod.splits)

lemma depth_handlers: "handler_ok (on_method_depth_subscribe D)" "handler_ok on_method_depth_unsubscribe"
  by (auto intro!: handler_frame simp: on_method_depth_subscribe_def on_method_depth_unsubscribe_def Let_def
      sends dest!: subscribe_pairs split: if_splits option.splits prod.splits)

lemma market_handlers:
  "handler_ok on_method_state_subscribe" "handler_ok on_method_today_subscribe"
  "handler_ok (on_method_price_subscribe D)" "handler_ok on_method_deals_subscribe"
  by (auto intro!: handler_frame simp: on_method_state_subscribe_def on_method_today_subscribe_def on_method_price_subscribe_def
      on_method_deals_subscribe_def Let_def sends send_markets_owners dest!: market_pairs split: option.splits prod.splits)

lemma market_unsub_handlers:
  "handler_ok on_method_state_unsubscribe" "handler_ok on_method_today_unsubscribe"
  "handler_ok on_method_price_unsubscribe" "handler_ok on_method_deals_unsubscribe"
  by (auto intro!: handler_frame simp: on_method_state_unsubscribe_def on_method_today_unsubscribe_def on_method_price_unsubscribe_def
      on_method_deals_unsubscribe_def sends)

lemma private_ok_sent [simp]: "private_ok (s\<lparr>ses_sent := r\<rparr>) = private_ok s"
  by (simp add: private_ok_def)

lemma private_handlers:
  "handler_ok on_method_order_subscribe" "handler_ok on_method_asset_subscribe"
  "handler_ok on_method_order_unsubscribe" "handler_ok on_method_asset_unsubscribe"
  using order_subscribe_method asset_subscribe_method order_unsubscribe_ok asset_unsubscribe_ok
  by (auto simp: handler_ok_def on_method_order_unsubscribe_def on_method_asset_unsubscribe_def sends
      split: if_splits)

lemma method_map_ok: "\<forall>h \<in> snd ` set (ws_method_map D). handler_ok h"
  by (simp add: ws_method_map_def query_handlers user_handlers server_handlers kline_handlers depth_handlers market_handlers
      market_unsub_handlers private_handlers)

lemma message_ok: assumes "ws_on_message D J C ses msg s = Some (ret, t)" "private_ok s" "ses_id s ses \<noteq> 0"
  shows "private_ok t"
proof -
  have "handler_ok h" if "dv_find (ws_method_map D) name = Some h" for name h
    using method_map_ok [of D] map_of_SomeD [OF that] by force
  then have "private_ok t" if "dv_find (ws_method_map D) name = Some h" "h J C ses i params s = Some (r, t)" for name h i params r
    using that assms(2,3) unfolding handler_ok_def by blast
  with assms(1,2) show ?thesis
    unfolding ws_on_message_def by (auto simp: Let_def split: option.splits if_splits)
qed

section \<open>All steps\<close>

lemma close_ok: assumes "private_ok s"
  shows "private_ok (close_session ses s)"
proof -
  define s1 where "s1 = deals_unsubscribe ses (today_unsubscribe ses (price_unsubscribe ses (depth_unsubscribe ses (kline_unsubscribe ses s))))"
  have o: "owners s1 = owners s" by (simp add: s1_def)
  have c: "close_session ses s = (let s2 = (if ci_auth (info s1 ses) then s1\<lparr>order_sub := drop_session (ci_user_id (info s1 ses)) ses (order_sub s1),
      asset_sub := drop_session (ci_user_id (info s1 ses)) ses (asset_sub s1)\<rparr> else s1) in s2\<lparr>ses_id := (ses_id s2)(ses := 0)\<rparr>)"
    by (simp add: close_session_def ws_on_close_def Let_def s1_def order_unsubscribe_eq asset_unsubscribe_eq)
  have p: "private_ok s1" using private_ok_cong [OF o assms] .
  show ?thesis
  proof (cases "ci_auth (info s1 ses)")
    case True
    have g: "owned (drop_session (ci_user_id (info s1 ses)) ses subs) (\<lambda>x. ci_auth (info s1 x)) (\<lambda>x. ci_user_id (info s1 x)) ((ses_id s1)(ses := 0))"
      if sub: "owned subs (\<lambda>x. ci_auth (info s1 x)) (\<lambda>x. ci_user_id (info s1 x)) (ses_id s1)" for subs
      by (rule owned_change [OF owned_drop [OF sub] owned_gone [OF sub, where ses = ses]]) auto
    show ?thesis using p True by (simp add: c private_ok_iff g Let_def)
  next
    case False
    have g: "owned subs (\<lambda>x. ci_auth (info s1 x)) (\<lambda>x. ci_user_id (info s1 x)) ((ses_id s1)(ses := 0))"
      if "owned subs (\<lambda>x. ci_auth (info s1 x)) (\<lambda>x. ci_user_id (info s1 x)) (ses_id s1)" for subs
      using that False unfolding owned_def by auto
    show ?thesis using p False by (simp add: c private_ok_iff g Let_def)
  qed
qed

text \<open>A closed session is in no list, so a new connection at its address can be anybody.\<close>

lemma owned_closed: "owned subs a usr ids \<Longrightarrow> ids ses = 0 \<Longrightarrow> dv_find subs v = Some list \<Longrightarrow> unit \<in> set list \<Longrightarrow> su_ses unit \<noteq> ses"
  unfolding owned_def by metis

lemma open_ok: assumes "private_ok s" "ses_id s ses = 0"
  shows "private_ok (open_session ses s)"
proof -
  define i where "i = (if ws_id_start s = 0 then ws_id_start s + 1 else ws_id_start s)"
  define s1 where "s1 = s\<lparr>ws_id_start := i + 1\<rparr>"
  have o: "open_session ses s = s1\<lparr>ses_id := (ses_id s1)(ses := i), info := (info s1)(ses := \<lparr> ci_auth = False, ci_user_id = 0, ci_source = None \<rparr>)\<rparr>"
    by (cases "ws_id_start s = 0") (simp_all add: open_session_def on_upgrade_def Let_def s1_def i_def)
  have s1: "owners s1 = owners s" by (simp add: s1_def)
  have p: "private_ok s1" using private_ok_cong [OF s1 assms(1)] .
  have z: "ses_id s1 ses = 0" using s1 assms(2) by (simp add: owners_def)
  have g: "owned subs (\<lambda>x. ci_auth (((info s1)(ses := c)) x)) (\<lambda>x. ci_user_id (((info s1)(ses := c)) x)) ((ses_id s1)(ses := i))"
    if sub: "owned subs (\<lambda>x. ci_auth (info s1 x)) (\<lambda>x. ci_user_id (info s1 x)) (ses_id s1)" for subs c
    by (rule owned_change [OF sub owned_closed [OF sub z]]) simp_all
  show ?thesis using p by (simp add: o private_ok_iff g del: fun_upd_apply)
qed

lemma auth_result_ok: assumes "private_ok s"
  shows "private_ok (auth_on_result J state result s)"
proof (cases "auth_answer result")
  case (AuthUser u)
  let ?ses = "ad_ses state" and ?old = "info s (ad_ses state)"
  let ?s = "if ci_auth ?old \<and> ci_user_id ?old \<noteq> u then s\<lparr>asset_sub := drop_session (ci_user_id ?old) ?ses (asset_sub s),
      order_sub := drop_session (ci_user_id ?old) ?ses (order_sub s)\<rparr> else s"
  have g: "owned (if ci_auth ?old \<and> ci_user_id ?old \<noteq> u then drop_session (ci_user_id ?old) ?ses subs else subs)
      (\<lambda>x. ci_auth (((info s)(?ses := ?old\<lparr>ci_auth := True, ci_user_id := u\<rparr>)) x))
      (\<lambda>x. ci_user_id (((info s)(?ses := ?old\<lparr>ci_auth := True, ci_user_id := u\<rparr>)) x)) (ses_id s)"
    if sub: "owned subs (\<lambda>x. ci_auth (info s x)) (\<lambda>x. ci_user_id (info s x)) (ses_id s)" for subs
  proof (cases "ci_auth ?old \<and> ci_user_id ?old \<noteq> u")
    case True
    show ?thesis unfolding if_P [OF True]
      by (rule owned_change [OF owned_drop [OF sub] owned_gone [OF sub, where ses = ?ses]]) auto
  next
    case False
    have h: "ci_auth ?old \<and> u = v" if "dv_find subs v = Some list" "unit \<in> set list" "su_ses unit = ?ses" for v list unit
      using sub that False unfolding owned_def by metis
    show ?thesis unfolding if_not_P [OF False] owned_def
    proof (intro allI impI)
      fix v list unit assume a: "dv_find subs v = Some list" "unit \<in> set list"
      with sub have "ses_id s (su_ses unit) \<noteq> 0 \<and> ci_auth (info s (su_ses unit)) \<and> ci_user_id (info s (su_ses unit)) = v"
        unfolding owned_def by blast
      with h [OF a] show "ses_id s (su_ses unit) \<noteq> 0 \<and> ci_auth (((info s)(?ses := ?old\<lparr>ci_auth := True, ci_user_id := u\<rparr>)) (su_ses unit))
          \<and> ci_user_id (((info s)(?ses := ?old\<lparr>ci_auth := True, ci_user_id := u\<rparr>)) (su_ses unit)) = v"
        by auto
    qed
  qed
  from AuthUser assms show ?thesis
    by (cases "ci_auth ?old \<and> ci_user_id ?old \<noteq> u")
      (use g [of "order_sub s"] g [of "asset_sub s"] in
        \<open>auto simp: auth_on_result_def Let_def sends private_ok_iff order_unsubscribe_eq asset_unsubscribe_eq simp del: fun_upd_apply\<close>)
qed (use assms in \<open>simp_all add: auth_on_result_def Let_def sends\<close>)

lemma message_reports: 
  "on_orders_message J C text' s = Some t \<Longrightarrow> owners t = owners s"
  "on_balances_message J C text' s = Some t \<Longrightarrow> owners t = owners s"
proof -
  have a: "asset_on_update J C u a s = Some t \<Longrightarrow> owners t = owners s" for u a and s t :: "('a, 'b) aw_auth_scheme"
    by (auto simp: asset_on_update_def Let_def split: option.splits if_splits)
  have o: "owners (snd (order_on_update J u e ord s)) = owners s" for u e ord and s :: "('a, 'b) aw_auth_scheme"
    by (simp add: order_on_update_def split: option.split)
  show "on_orders_message J C text' s = Some t \<Longrightarrow> owners t = owners s"
    by (auto simp: on_orders_message_def process_orders_message_def Let_def o split: option.splits if_splits dest!: a)
  show "on_balances_message J C text' s = Some t \<Longrightarrow> owners t = owners s"
    by (auto simp: on_balances_message_def process_balances_message_def Let_def split: option.splits if_splits dest!: a)
qed

lemma step_ok: assumes "aw_step D J C s t" "private_ok s"
  shows "private_ok t"
  using assms
proof cases
  case (connect ses)
  with assms(2) show ?thesis by (simp add: open_ok)
next
  case (message ses msg ret t')
  have "private_ok t'" using message_ok [OF message(3) assms(2) message(2)] .
  with message(1) close_ok [OF this] show ?thesis by simp
next
  case (disconnect ses)
  with assms(2) show ?thesis by (simp add: close_ok)
next
  case (auth i answer)
  then show ?thesis using auth_result_ok [OF assms(2)] assms(2)
    by (auto simp: auth_on_finish_def Let_def private_ok_def split: option.splits)
next
  case (sign i answer)
  then show ?thesis using auth_result_ok [OF assms(2)] assms(2)
    by (auto simp: sign_on_finish_def Let_def private_ok_def split: option.splits)
qed (auto intro: private_ok_cong [OF _ assms(2)] owners_kline_reply owners_state_reply owners_today_reply
    simp: ws_on_cache_timer_def ws_on_timeout_def auth_on_timeout_def sign_on_timeout_def depth_on_timer_def kline_on_timer_def state_on_timer_def
      today_on_timer_def price_on_timer_def deals_on_timer_def sends Let_def owners_depth_timer owners_kline_timer owners_state_timer
      owners_today_timer owners_price_timer owners_deals_timer message_reports)

lemma aw_run_ok: "aw_run D J C s t \<Longrightarrow> private_ok s \<Longrightarrow> private_ok t"
  by (induction rule: rtranclp_induct) (auto intro: step_ok)

lemma start_ok [simp]: "private_ok (aw_start clk)"
  by (simp add: private_ok_iff aw_start_def)

end
