(* ===== verification/Ws_Depth_Facts.thy ===== *)
theory Ws_Depth_Facts
  imports Ws_Depth Ws_Facts Slice_Facts
begin

text \<open>
  What a client of the depth stream computes: it keeps the levels of each side in order and applies the
  differences it gets. \<open>put_level\<close> is the client's step; \<open>level_diff\<close> is \<open>get_list_diff\<close> on the values.
\<close>

section \<open>The client\<close>

type_synonym level = "rat \<times> rat"

text \<open>Sides: asks are ordered by price (\<open>side = 1\<close>), bids by falling price (\<open>side = -1\<close>). An amount of 0 removes.\<close>

fun put_level :: "rat \<Rightarrow> level \<Rightarrow> level list \<Rightarrow> level list" where
  "put_level side (p, a) [] = (if a = 0 then [] else [(p, a)])"
| "put_level side (p, a) ((q, b) # ls) =
     (if side * p < side * q then (if a = 0 then (q, b) # ls else (p, a) # (q, b) # ls)
      else if p = q then (if a = 0 then ls else (p, a) # ls)
      else (q, b) # put_level side (p, a) ls)"

definition apply_levels :: "rat \<Rightarrow> nat \<Rightarrow> level list \<Rightarrow> level list \<Rightarrow> level list" where
  "apply_levels side limit diff ls = take limit (fold (put_level side) diff ls)"

definition levels_ordered :: "rat \<Rightarrow> level list \<Rightarrow> bool" where
  "levels_ordered side ls \<longleftrightarrow> sorted_wrt (\<lambda>l m. side * fst l < side * fst m) ls \<and> (\<forall>l \<in> set ls. snd l \<noteq> 0)"

section \<open>The difference on values\<close>

fun level_loop :: "rat \<Rightarrow> level list \<Rightarrow> level list \<Rightarrow> level list \<times> level list \<times> level list" where
  "level_loop side ((p, a) # ls) ((q, b) # ms) =
     (if p = q then (let (d, rest) = level_loop side ls ms in (if a \<noteq> b then (q, b) # d else d, rest))
      else if side * q < side * p then (let (d, rest) = level_loop side ((p, a) # ls) ms in ((q, b) # d, rest))
      else (let (d, rest) = level_loop side ls ((q, b) # ms) in ((p, 0) # d, rest)))"
| "level_loop side ls ms = ([], ls, ms)"

lemma put_before: "\<forall>l \<in> set xs. side * fst l < side * p \<Longrightarrow> put_level side (p, a) (xs @ ys) = xs @ put_level side (p, a) ys"
proof (induction xs)
  case (Cons l xs)
  then show ?case by (cases l) force
qed simp

lemma put_first: "\<forall>l \<in> set ys. side * p < side * fst l \<Longrightarrow> a \<noteq> 0 \<Longrightarrow> put_level side (p, a) ys = (p, a) # ys"
  by (cases ys) auto

lemma ordered_Cons: "levels_ordered side (l # ls) \<longleftrightarrow> (\<forall>m \<in> set ls. side * fst l < side * fst m) \<and> snd l \<noteq> 0 \<and> levels_ordered side ls"
  by (auto simp: levels_ordered_def)

text \<open>
  Everything before \<open>ls\<close> and \<open>ms\<close> has been dealt with and is before both. The loop brings the client
  from the old levels to the new ones that were passed, followed by what is left of the old ones.
\<close>

lemma level_loop_apply: assumes "level_loop side ls ms = (d, r, q)" "side = 1 \<or> side = - 1"
    "levels_ordered side ls" "levels_ordered side ms"
    "\<forall>x \<in> set xs. \<forall>l \<in> set ls \<union> set ms. side * fst x < side * fst l"
  shows "\<exists>passed. ms = passed @ q \<and> fold (put_level side) d (xs @ ls) = xs @ passed @ r
    \<and> (r = [] \<or> q = []) \<and> (\<forall>l \<in> set r. \<forall>m \<in> set passed. side * fst m < side * fst l) \<and> set r \<subseteq> set ls"
  using assms
proof (induction side ls ms arbitrary: d xs rule: level_loop.induct)
  case (1 side p a ls p' b ms)
  note ord = 1(6,7)[unfolded ordered_Cons]
  consider (same) "p = p'" | (newer) "p \<noteq> p'" "side * p' < side * p" | (gone) "p \<noteq> p'" "side * p < side * p'"
    using 1(5) by (metis linorder_neq_iff mult_cancel_left mult_minus_left neg_equal_iff_equal mult_1 zero_neq_one neg_equal_0_iff_equal)
  then show ?case
  proof cases
    case same
    obtain d' where d': "level_loop side ls ms = (d', r, q)" "d = (if a \<noteq> b then (p', b) # d' else d')"
      using 1(4) same by (cases "level_loop side ls ms") auto
    obtain passed where IH: "ms = passed @ q" "fold (put_level side) d' ((xs @ [(p', b)]) @ ls) = (xs @ [(p', b)]) @ passed @ r"
      "r = [] \<or> q = []" "\<forall>l \<in> set r. \<forall>m \<in> set passed. side * fst m < side * fst l" "set r \<subseteq> set ls"
      using 1(1)[OF same d'(1) 1(5), of "xs @ [(p', b)]"] 1(8) ord same by auto
    have "fold (put_level side) d (xs @ (p, a) # ls) = fold (put_level side) d' (xs @ (p', b) # ls)"
      using d'(2) same ord 1(8) by (simp add: put_before)
    with IH ord same show ?thesis by (intro exI [of _ "(p', b) # passed"]) auto
  next
    case newer
    obtain d' where d': "level_loop side ((p, a) # ls) ms = (d', r, q)" "d = (p', b) # d'"
      using 1(4) newer by (cases "level_loop side ((p, a) # ls) ms") auto
    have lt: "\<forall>l \<in> set ((p, a) # ls). side * p' < side * fst l" using ord newer by fastforce
    have lt2: "\<forall>x \<in> set (xs @ [(p', b)]). \<forall>l \<in> set ((p, a) # ls) \<union> set ms. side * fst x < side * fst l"
      using 1(8) ord lt by auto
    obtain passed where IH: "ms = passed @ q" "fold (put_level side) d' ((xs @ [(p', b)]) @ (p, a) # ls) = (xs @ [(p', b)]) @ passed @ r"
      "r = [] \<or> q = []" "\<forall>l \<in> set r. \<forall>m \<in> set passed. side * fst m < side * fst l" "set r \<subseteq> set ((p, a) # ls)"
      using 1(2)[OF newer d'(1) 1(5), of "xs @ [(p', b)]"] 1(6,8) ord lt2 by (metis snd_conv)
    have "put_level side (p', b) (xs @ (p, a) # ls) = xs @ (p', b) # (p, a) # ls"
      using 1(8) ord put_first [OF lt, of b] by (simp add: put_before)
    with d'(2) IH lt show ?thesis by (intro exI [of _ "(p', b) # passed"]) auto
  next
    case gone
    obtain d' where d': "level_loop side ls ((p', b) # ms) = (d', r, q)" "d = (p, 0) # d'"
      using 1(4) gone by (cases "level_loop side ls ((p', b) # ms)") auto
    have "put_level side (p, 0) (xs @ (p, a) # ls) = xs @ ls"
      using 1(8) by (simp add: put_before)
    with d' 1(3)[OF gone(1) _ d'(1) 1(5), of xs] 1(7,8) ord gone show ?thesis by fastforce
  qed
qed auto

text \<open>The whole of \<open>get_list_diff\<close>: what is left of the old list is removed when the new one is not full.\<close>

definition level_diff :: "rat \<Rightarrow> nat \<Rightarrow> level list \<Rightarrow> level list \<Rightarrow> level list" where
  "level_diff side limit ls ms =
     (let (d, r, q) = level_loop side ls ms in d @ (if length ms < limit then map (\<lambda>l. (fst l, 0)) r else []) @ q)"

lemma remove_rest: "levels_ordered side r \<Longrightarrow> \<forall>l \<in> set r. \<forall>m \<in> set xs. side * fst m < side * fst l \<Longrightarrow>
    fold (put_level side) (map (\<lambda>l. (fst l, 0)) r) (xs @ r) = xs"
proof (induction r)
  case (Cons l r)
  have "put_level side (fst l, 0) (xs @ l # r) = xs @ r"
    using Cons.prems by (cases l) (simp add: put_before)
  with Cons show ?case by (simp add: ordered_Cons)
qed simp

lemma add_rest: "levels_ordered side (xs @ q) \<Longrightarrow> fold (put_level side) q xs = xs @ q"
proof (induction q arbitrary: xs)
  case (Cons l q)
  have "put_level side l (xs @ []) = xs @ [l]"
    using Cons.prems put_before [of xs side "fst l" "snd l" "[]"]
    by (cases l) (simp add: levels_ordered_def sorted_wrt_append)
  with Cons.IH [of "xs @ [l]"] Cons.prems show ?case by simp
qed simp

lemma ordered_subset: "levels_ordered side ls \<Longrightarrow> level_loop side ls ms = (d, r, q) \<Longrightarrow> levels_ordered side r"
proof (induction side ls ms arbitrary: d rule: level_loop.induct)
  case (1 side p a ls p' b ms)
  then show ?case by (auto simp: ordered_Cons Let_def split: prod.splits if_splits)
qed auto

theorem apply_level_diff: assumes side: "side = 1 \<or> side = - 1" and ord: "levels_ordered side ls" "levels_ordered side ms"
    and limit: "length ms \<le> limit"
  shows "apply_levels side limit (level_diff side limit ls ms) ls = ms"
proof -
  obtain d r q where l: "level_loop side ls ms = (d, r, q)" by (cases "level_loop side ls ms")
  obtain passed where p: "ms = passed @ q" "fold (put_level side) d ls = passed @ r" "r = [] \<or> q = []"
    "\<forall>l \<in> set r. \<forall>m \<in> set passed. side * fst m < side * fst l"
    using level_loop_apply [OF l side ord, of "[]"] by auto
  show ?thesis
  proof (cases "r = []")
    case True
    with p(2) have "fold (put_level side) (d @ q) ls = ms" using ord p(1) by (simp add: add_rest)
    with True l limit show ?thesis by (simp add: apply_levels_def level_diff_def)
  next
    case False
    with p have "q = []" by simp
    with p l limit remove_rest [OF ordered_subset [OF ord(1) l] p(4)] show ?thesis
      by (simp add: apply_levels_def level_diff_def)
  qed
qed

section \<open>Reading the JSON\<close>

text \<open>The client reads the price and the amount of an entry; an entry it cannot read is passed over.\<close>

definition unit_value :: "'d mpd_lib \<Rightarrow> ('d \<Rightarrow> rat option) \<Rightarrow> json \<Rightarrow> level option" where
  "unit_value D val u =
     (case unit_level D u of
        None \<Rightarrow> None
      | Some (dp, da) \<Rightarrow> (case (val dp, val da) of (Some p, Some a) \<Rightarrow> Some (p, a) | _ \<Rightarrow> None))"

fun read_levels :: "'d mpd_lib \<Rightarrow> ('d \<Rightarrow> rat option) \<Rightarrow> json list \<Rightarrow> level list" where
  "read_levels D val [] = []"
| "read_levels D val (u # us) = (case unit_value D val u of None \<Rightarrow> read_levels D val us | Some l \<Rightarrow> l # read_levels D val us)"

text \<open>An entry with two numbers, whose price the library prints as that number.\<close>

definition good_unit :: "'d mpd_lib \<Rightarrow> ('d \<Rightarrow> rat option) \<Rightarrow> json \<Rightarrow> bool" where
  "good_unit D val u \<longleftrightarrow> (\<exists>dp da p a. unit_level D u = Some (dp, da) \<and> val dp = Some p \<and> val da = Some a
     \<and> denotes D val (mpd_string D dp) p)"

lemma read_append [simp]: "read_levels D val (us @ ms) = read_levels D val us @ read_levels D val ms"
  by (induction us) (simp_all split: option.split)

lemma read_length: "\<forall>u \<in> set us. good_unit D val u \<Longrightarrow> length (read_levels D val us) = length us"
  by (induction us) (auto simp: good_unit_def unit_value_def)

lemma removal_value: "denotes D val str p \<Longrightarrow> denotes D val ''0'' 0 \<Longrightarrow> unit_value D val (JArray [JString str, JString ''0'']) = Some (p, 0)"
  by (auto simp: unit_value_def unit_level_def denotes_def decimal_def)

lemma diff_loop_levels: "mpd_laws D val \<Longrightarrow> denotes D val ''0'' 0 \<Longrightarrow> side = 1 \<or> side = - 1
    \<Longrightarrow> \<forall>u \<in> set us. good_unit D val u \<Longrightarrow> \<forall>u \<in> set ms. good_unit D val u \<Longrightarrow>
    \<exists>d r q. diff_loop D side us ms acc = Some (acc @ d, r, q) \<and> set r \<subseteq> set us
      \<and> level_loop (of_int side) (read_levels D val us) (read_levels D val ms) = (read_levels D val d, read_levels D val r, read_levels D val q)
      \<and> (\<forall>u \<in> set d. unit_value D val u \<noteq> None) \<and> set q \<subseteq> set ms"
proof (induction D side us ms acc rule: diff_loop.induct)
  case (1 D side u us m ms acc)
  obtain dp da p a where u: "unit_level D u = Some (dp, da)" "val dp = Some p" "val da = Some a" "denotes D val (mpd_string D dp) p"
    using 1(7) by (auto simp: good_unit_def)
  obtain dq db q b where m: "unit_level D m = Some (dq, db)" "val dq = Some q" "val db = Some b"
    using 1(8) by (auto simp: good_unit_def)
  have uv: "unit_value D val u = Some (p, a)" "unit_value D val m = Some (q, b)"
    using u m by (simp_all add: unit_value_def)
  have cmp: "mpd_cmp D dp dq = (if p < q then - 1 else if p = q then 0 else 1)" "mpd_cmp D da db \<noteq> 0 \<longleftrightarrow> a \<noteq> b"
    using mpd_cmp_val [OF 1(4) u(2) m(2)] mpd_cmp_val [OF 1(4) u(3) m(3)] by simp_all
  have goods: "\<forall>u \<in> set us. good_unit D val u" "\<forall>u \<in> set ms. good_unit D val u" using 1(7,8) by simp_all
  let ?del = "JArray [JString (mpd_string D dp), JString ''0'']"
  have dv: "unit_value D val ?del = Some (p, 0)" by (rule removal_value [OF u(4) 1(5)])
  consider (same) "p = q" | (newer) "p \<noteq> q" "mpd_cmp D dp dq * side > 0" "of_int side * q < of_int side * p"
    | (gone) "p \<noteq> q" "mpd_cmp D dp dq * side < 0" "\<not> of_int side * q < of_int side * p"
    using cmp(1) 1(6) by (cases "p < q"; cases "p = q") auto
  then show ?case
  proof cases
    case same
    let ?acc = "if mpd_cmp D da db \<noteq> 0 then acc @ [m] else acc"
    obtain d r q' where "diff_loop D side us ms ?acc = Some (?acc @ d, r, q')" "set r \<subseteq> set us"
      "level_loop (of_int side) (read_levels D val us) (read_levels D val ms) = (read_levels D val d, read_levels D val r, read_levels D val q')"
      "\<forall>u \<in> set d. unit_value D val u \<noteq> None" "set q' \<subseteq> set ms"
      using 1(1)[OF u(1) refl m(1) refl refl _ 1(4,5,6) goods] same cmp(1) by auto
    with same u m uv cmp show ?thesis
      by (intro exI [of _ "if a \<noteq> b then m # d else d"] exI [of _ r] exI [of _ q']) (auto simp: Let_def)
  next
    case newer
    have nz: "mpd_cmp D dp dq \<noteq> 0" "side \<noteq> 0" using newer(2) by auto
    obtain d r q' where "diff_loop D side (u # us) ms (acc @ [m]) = Some ((acc @ [m]) @ d, r, q')" "set r \<subseteq> set (u # us)"
      "level_loop (of_int side) (read_levels D val (u # us)) (read_levels D val ms) = (read_levels D val d, read_levels D val r, read_levels D val q')"
      "\<forall>u \<in> set d. unit_value D val u \<noteq> None" "set q' \<subseteq> set ms"
      using 1(2)[OF u(1) refl m(1) refl refl _ _ 1(4,5,6) 1(7) goods(2)] newer nz by auto
    with newer u m uv show ?thesis
      by (intro exI [of _ "m # d"] exI [of _ r] exI [of _ q']) (auto simp: Let_def)
  next
    case gone
    have nz: "mpd_cmp D dp dq \<noteq> 0" "side \<noteq> 0" using gone(2) by auto
    obtain d r q' where "diff_loop D side us (m # ms) (acc @ [?del]) = Some ((acc @ [?del]) @ d, r, q')" "set r \<subseteq> set us"
      "level_loop (of_int side) (read_levels D val us) (read_levels D val (m # ms)) = (read_levels D val d, read_levels D val r, read_levels D val q')"
      "\<forall>u \<in> set d. unit_value D val u \<noteq> None" "set q' \<subseteq> set (m # ms)"
      using 1(3)[OF u(1) refl m(1) refl refl _ _ 1(4,5,6) goods(1) 1(8)] gone nz by auto
    with gone u m uv dv show ?thesis
      by (intro exI [of _ "?del # d"] exI [of _ r] exI [of _ q']) (auto simp: Let_def)
  qed
qed (auto simp: level_loop.simps)

text \<open>The entries that are left of the old list.\<close>

lemma removed_levels: "denotes D val ''0'' 0 \<Longrightarrow> \<forall>u \<in> set us. good_unit D val u \<Longrightarrow>
    \<exists>ds. removed_units us = Some ds \<and> read_levels D val ds = map (\<lambda>l. (fst l, 0)) (read_levels D val us) \<and> (ds = [] \<longleftrightarrow> us = [])"
proof (induction us)
  case (Cons u us)
  obtain dp da p a where u: "unit_level D u = Some (dp, da)" "val dp = Some p" "val da = Some a"
    using Cons.prems by (auto simp: good_unit_def)
  then obtain price amount where s: "json_string_value (json_array_get u 0) = Some price" "json_string_value (json_array_get u 1) = Some amount"
    "decimal D price 0 = Some dp"
    by (auto simp: unit_level_def split: option.splits)
  have "denotes D val price p"
    using s(3) u(2) by (auto simp: denotes_def decimal_def split: prod.splits if_splits)
  note r = removal_value [OF this Cons.prems(1)]
  have uv: "unit_value D val u = Some (p, a)" using u by (simp add: unit_value_def)
  from Cons.IH Cons.prems obtain ds where "removed_units us = Some ds" "read_levels D val ds = map (\<lambda>l. (fst l, 0)) (read_levels D val us)"
    by auto
  with s r uv show ?case by simp
qed simp

section \<open>One side of the book\<close>

definition depth_side_ok :: "'d mpd_lib \<Rightarrow> ('d \<Rightarrow> rat option) \<Rightarrow> int \<Rightarrow> u32 \<Rightarrow> json list \<Rightarrow> bool" where
  "depth_side_ok D val side limit us \<longleftrightarrow> (\<forall>u \<in> set us. good_unit D val u) \<and> levels_ordered (of_int side) (read_levels D val us)
     \<and> length us \<le> unat limit"

lemma list_diff_applies: assumes laws: "mpd_laws D val" "denotes D val ''0'' 0" and side: "side = 1 \<or> side = - 1"
    and us: "depth_side_ok D val side limit us" and ms: "depth_side_ok D val side limit ms"
  shows "(case get_list_diff D (Some (JArray us)) (Some (JArray ms)) limit side of
      None \<Rightarrow> read_levels D val us = read_levels D val ms
    | Some j \<Rightarrow> apply_levels (of_int side) (unat limit) (read_levels D val (json_elements j)) (read_levels D val us) = read_levels D val ms)"
proof -
  let ?L = "read_levels D val us" and ?M = "read_levels D val ms"
  have g: "\<forall>u \<in> set us. good_unit D val u" "\<forall>u \<in> set ms. good_unit D val u" using us ms by (simp_all add: depth_side_ok_def)
  note len = read_length [OF g(1)] read_length [OF g(2)]
  obtain d r q where dl: "diff_loop D side us ms [] = Some (d, r, q)" "set r \<subseteq> set us"
    and ll: "level_loop (of_int side) ?L ?M = (read_levels D val d, read_levels D val r, read_levels D val q)"
    using diff_loop_levels [OF laws side g, of "[]"] by auto
  obtain ds where ds: "removed_units r = Some ds" "read_levels D val ds = map (\<lambda>l. (fst l, 0)) (read_levels D val r)"
    using removed_levels [OF laws(2), of r] g(1) dl(2) by auto
  define diff where "diff = d @ (if length ms < unat limit then ds else []) @ q"
  have r: "get_list_diff D (Some (JArray us)) (Some (JArray ms)) limit side = (if diff = [] then None else Some (JArray diff))"
    using dl ds by (simp add: get_list_diff_def diff_def Let_def)
  have diff: "read_levels D val diff = level_diff (of_int side) (unat limit) ?L ?M"
    using ll ds len by (simp add: level_diff_def diff_def)
  have "apply_levels (of_int side) (unat limit) (read_levels D val diff) ?L = ?M"
    unfolding diff using side us ms len by (intro apply_level_diff) (auto simp: depth_side_ok_def)
  moreover have "take (unat limit) ?L = ?L" using us len by (simp add: depth_side_ok_def)
  ultimately show ?thesis by (auto simp: r apply_levels_def)
qed

section \<open>The client's book\<close>

definition depth_ok :: "'d mpd_lib \<Rightarrow> ('d \<Rightarrow> rat option) \<Rightarrow> u32 \<Rightarrow> json \<Rightarrow> bool" where
  "depth_ok D val limit j \<longleftrightarrow> (\<exists>asks bids. json_object_get j ''asks'' = Some (JArray asks) \<and> json_object_get j ''bids'' = Some (JArray bids)
     \<and> depth_side_ok D val 1 limit asks \<and> depth_side_ok D val (- 1) limit bids)"

type_synonym client_book = "level list \<times> level list"

definition client_levels :: "'d mpd_lib \<Rightarrow> ('d \<Rightarrow> rat option) \<Rightarrow> json \<Rightarrow> string \<Rightarrow> level list" where
  "client_levels D val j name = (case json_object_get j name of None \<Rightarrow> [] | Some x \<Rightarrow> read_levels D val (json_elements x))"

definition client_full :: "'d mpd_lib \<Rightarrow> ('d \<Rightarrow> rat option) \<Rightarrow> json \<Rightarrow> client_book" where
  "client_full D val j = (client_levels D val j ''asks'', client_levels D val j ''bids'')"

definition client_side :: "'d mpd_lib \<Rightarrow> ('d \<Rightarrow> rat option) \<Rightarrow> rat \<Rightarrow> nat \<Rightarrow> json \<Rightarrow> string \<Rightarrow> level list \<Rightarrow> level list" where
  "client_side D val side limit j name ls =
     (case json_object_get j name of None \<Rightarrow> ls | Some x \<Rightarrow> apply_levels side limit (read_levels D val (json_elements x)) ls)"

text \<open>A message \<open>[clean, data, market]\<close>: the whole book, or changes to it.\<close>

fun client_message :: "'d mpd_lib \<Rightarrow> ('d \<Rightarrow> rat option) \<Rightarrow> nat \<Rightarrow> json \<Rightarrow> client_book \<Rightarrow> client_book" where
  "client_message D val limit (JArray [JBool clean, j, market]) (asks, bids) =
     (if clean then client_full D val j
      else (client_side D val 1 limit j ''asks'' asks, client_side D val (- 1) limit j ''bids'' bids))"
| "client_message D val limit _ book = book"

lemma depth_diff_applies: assumes laws: "mpd_laws D val" "denotes D val ''0'' 0" and ok: "depth_ok D val limit old" "depth_ok D val limit new"
  shows "(case get_depth_diff D old new limit of
      None \<Rightarrow> client_full D val old = client_full D val new
    | Some diff \<Rightarrow> client_message D val (unat limit) (depth_params False diff market) (client_full D val old) = client_full D val new)"
proof -
  obtain a b where o: "json_object_get old ''asks'' = Some (JArray a)" "json_object_get old ''bids'' = Some (JArray b)"
    "depth_side_ok D val 1 limit a" "depth_side_ok D val (- 1) limit b" using ok(1) by (auto simp: depth_ok_def)
  obtain a' b' where n: "json_object_get new ''asks'' = Some (JArray a')" "json_object_get new ''bids'' = Some (JArray b')"
    "depth_side_ok D val 1 limit a'" "depth_side_ok D val (- 1) limit b'" using ok(2) by (auto simp: depth_ok_def)
  note x = list_diff_applies [OF laws _ o(3) n(3)] and y = list_diff_applies [OF laws _ o(4) n(4)]
  from x y show ?thesis
    by (auto simp: get_depth_diff_def o n client_full_def client_levels_def depth_params_def json_object_set_opt_def client_side_def
        Let_def split: option.splits)
qed

text \<open>A sequence of replies.\<close>

fun depth_replies :: "'d mpd_lib \<Rightarrow> text_lib \<Rightarrow> depth_key \<Rightarrow> json list \<Rightarrow> 'z aw_depth_scheme \<Rightarrow> 'z aw_depth_scheme" where
  "depth_replies D J key [] s = s"
| "depth_replies D J key (r # rs) s = depth_replies D J key rs (snd (on_market_depth_reply D J key r s))"

definition depth_out :: "text_lib \<Rightarrow> nat list \<Rightarrow> json list \<Rightarrow> (nat \<times> string) list" where
  "depth_out J sess mails = concat (map (\<lambda>params. notify_out J ''depth.update'' params sess) mails)"

lemma depth_reply_step: assumes laws: "mpd_laws D val" "denotes D val ''0'' 0" and obj: "dv_find (dict_depth s) key = Some obj" "dp_last obj = Some old"
    and ok: "depth_ok D val (dk_limit key) old" "depth_ok D val (dk_limit key) new"
  shows "\<exists>mails obj' l. let t = snd (on_market_depth_reply D J key new s) in
      ses_sent t = ses_sent s @ depth_out J (map fst (dp_sessions obj)) mails
    \<and> dv_find (dict_depth t) key = Some obj' \<and> dp_sessions obj' = dp_sessions obj \<and> dp_last obj' = Some l
    \<and> depth_ok D val (dk_limit key) l \<and> client_full D val l = client_full D val new
    \<and> fold (client_message D val (unat (dk_limit key))) mails (client_full D val old) = client_full D val new"
proof (cases "get_depth_diff D old new (dk_limit key)")
  case None
  with depth_diff_applies [OF laws ok, of "[]"] obj ok show ?thesis
    by (intro exI [of _ "[]"] exI [of _ obj] exI [of _ old]) (simp add: on_market_depth_reply_def depth_out_def)
next
  case (Some diff)
  obtain now s1 where t: "ws_time s = (now, s1)" by fastforce
  define clean where "clean = (now - dp_last_clean obj \<ge> CLEAN_INTERVAL)"
  define obj' where "obj' = (if clean then obj\<lparr>dp_last := Some new, dp_last_clean := now\<rparr> else obj\<lparr>dp_last := Some new\<rparr>)"
  define params where "params = depth_params clean (if clean then new else diff) (dk_market key)"
  have st: "ses_sent s1 = ses_sent s" "dict_depth s1 = dict_depth s"
    using t by (auto simp: ws_time_def ws_current_timestamp_def Let_def)
  have r: "snd (on_market_depth_reply D J key new s) = depth_broadcast_update J (dk_market key) (dp_sessions obj) clean (if clean then new else diff)
      (s1\<lparr>dict_depth := dv_put key obj' (dict_depth s)\<rparr>)"
    using obj Some t st by (simp add: on_market_depth_reply_def Let_def clean_def obj'_def)
  have c: "client_message D val (unat (dk_limit key)) params (client_full D val old) = client_full D val new"
    using depth_diff_applies [OF laws ok, of "dk_market key"] Some by (cases clean) (simp_all add: params_def depth_params_def client_full_def)
  show ?thesis
    using obj ok c st by (intro exI [of _ "[params]"] exI [of _ obj'] exI [of _ new])
      (simp add: r Let_def depth_broadcast_update_def notify_sessions_eq depth_out_def params_def obj'_def)
qed

lemma depth_replies_follow: assumes laws: "mpd_laws D val" "denotes D val ''0'' 0"
  shows "dv_find (dict_depth s) key = Some obj \<Longrightarrow> dp_last obj = Some old \<Longrightarrow> depth_ok D val (dk_limit key) old
    \<Longrightarrow> \<forall>r \<in> set rs. depth_ok D val (dk_limit key) r \<Longrightarrow>
    \<exists>mails. ses_sent (depth_replies D J key rs s) = ses_sent s @ depth_out J (map fst (dp_sessions obj)) mails
      \<and> fold (client_message D val (unat (dk_limit key))) mails (client_full D val old) = client_full D val (last (old # rs))"
proof (induction rs arbitrary: s obj old)
  case Nil
  then show ?case by (intro exI [of _ "[]"]) (simp add: depth_out_def)
next
  case (Cons r rs)
  let ?t = "snd (on_market_depth_reply D J key r s)"
  obtain mails obj' l where st: "ses_sent ?t = ses_sent s @ depth_out J (map fst (dp_sessions obj)) mails"
    "dv_find (dict_depth ?t) key = Some obj'" "dp_sessions obj' = dp_sessions obj" "dp_last obj' = Some l"
    "depth_ok D val (dk_limit key) l" "client_full D val l = client_full D val r"
    "fold (client_message D val (unat (dk_limit key))) mails (client_full D val old) = client_full D val r"
    using depth_reply_step [OF laws Cons.prems(1,2,3), of r J] Cons.prems(4) by (auto simp: Let_def)
  obtain more where m: "ses_sent (depth_replies D J key rs ?t) = ses_sent ?t @ depth_out J (map fst (dp_sessions obj')) more"
    "fold (client_message D val (unat (dk_limit key))) more (client_full D val l) = client_full D val (last (l # rs))"
    using Cons.IH [OF st(2,4,5)] Cons.prems(4) by auto
  have "client_full D val (last (l # rs)) = client_full D val (last (old # r # rs))"
    using st(6) by (cases rs) simp_all
  with st m show ?case
    by (intro exI [of _ "mails @ more"]) (simp add: depth_out_def)
qed

end
