(* ===== verification/Ws_Props.thy ===== *)
theory Ws_Props
  imports Ws_Run Ws_Depth_Facts Slice_Props
begin

text \<open>Properties of the websocket server, each with a witness on a concrete input.\<close>

section \<open>Depth\<close>

text \<open>C9. Whatever depths the engine answers with, a client that takes the whole book when a message is
  clean and else applies the changes, keeping the best levels up to the limit, ends up with the book of the last
  answer: the differences sent to the subscribers lose nothing. The answers list each side in order, without empty
  levels and at most the limit.\<close>

theorem depth_client_in_step:
  assumes "mpd_laws D val" "denotes D val ''0'' 0"
    and "dv_find (dict_depth s) key = Some obj" "dp_last obj = Some old" "depth_ok D val (dk_limit key) old"
    and "\<forall>r \<in> set rs. depth_ok D val (dk_limit key) r"
  shows "\<exists>mails. ses_sent (depth_replies D J key rs s)
      = ses_sent s @ concat (map (\<lambda>params. notify_out J ''depth.update'' params (map fst (dp_sessions obj))) mails)
    \<and> fold (client_message D val (unat (dk_limit key))) mails (client_full D val old) = client_full D val (last (old # rs))"
  using depth_replies_follow [OF assms] by (simp add: depth_out_def)

text \<open>A subscriber to the two best levels: the best ask loses a part, a new level comes behind it, the bid goes.\<close>

definition ex_level :: "string \<Rightarrow> string \<Rightarrow> json" where
  "ex_level price amount = JArray [JString price, JString amount]"

definition ex_depth :: "json list \<Rightarrow> json list \<Rightarrow> json" where
  "ex_depth asks bids = JObject [(''asks'', JArray asks), (''bids'', JArray bids)]"

definition ex_depth_server :: "dec aw_server" where
  "ex_depth_server = (aw_start (\<lambda>_. 0))\<lparr>ses_id := (\<lambda>_. 0)(5 := 1),
     dict_depth := [(mk_depth_key ''BTCUSD'' 2 ''0'',
       \<lparr> dp_sessions = [(5, ())], dp_last = Some (ex_depth [ex_level ''12'' ''2''] [ex_level ''10'' ''3'']), dp_last_clean = 0 \<rparr>)]\<rparr>"

lemma ex_unit_levels:
  "unit_level dec_lib (ex_level ''12'' ''2'') = Some (Dec 12 0, Dec 2 0)" "unit_level dec_lib (ex_level ''10'' ''3'') = Some (Dec 10 0, Dec 3 0)"
  "unit_level dec_lib (ex_level ''12'' ''1'') = Some (Dec 12 0, Dec 1 0)" "unit_level dec_lib (ex_level ''13'' ''4'') = Some (Dec 13 0, Dec 4 0)"
  by code_simp+

lemma ex_prices: "dec_of_string (rstripzero (dec_to_sci (Dec 12 0))) = (Dec 12 0, False)"
  "dec_of_string (rstripzero (dec_to_sci (Dec 10 0))) = (Dec 10 0, False)"
  "dec_of_string (rstripzero (dec_to_sci (Dec 13 0))) = (Dec 13 0, False)" "dec_of_string ''0'' = (Dec 0 0, False)"
  by code_simp+

lemma ex_denoted: "denotes dec_lib dec_val (mpd_string dec_lib (Dec 12 0)) 12" "denotes dec_lib dec_val (mpd_string dec_lib (Dec 10 0)) 10"
  "denotes dec_lib dec_val (mpd_string dec_lib (Dec 13 0)) 13" "denotes dec_lib dec_val ''0'' 0"
  using ex_prices by (simp_all add: denotes_def mpd_string_def dec_ops del: dec_to_sci.simps)

lemma ex_depths_ok: "depth_ok dec_lib dec_val 2 (ex_depth [ex_level ''12'' ''2''] [ex_level ''10'' ''3''])"
  "depth_ok dec_lib dec_val 2 (ex_depth [ex_level ''12'' ''1'', ex_level ''13'' ''4''] [])"
  by (simp_all add: depth_ok_def ex_depth_def depth_side_ok_def good_unit_def ex_unit_levels ex_denoted
      levels_ordered_def unit_value_def)

theorem depth_client_in_step_witness:
  "\<exists>mails. ses_sent (depth_replies dec_lib ex_text (mk_depth_key ''BTCUSD'' 2 ''0'') [ex_depth [ex_level ''12'' ''1'', ex_level ''13'' ''4''] []] ex_depth_server)
      = concat (map (\<lambda>params. notify_out ex_text ''depth.update'' params [5]) mails)
    \<and> fold (client_message dec_lib dec_val 2) mails ([(12, 2)], [(10, 3)]) = ([(12, 1), (13, 4)], [])"
proof -
  have found: "dv_find (dict_depth ex_depth_server) (mk_depth_key ''BTCUSD'' 2 ''0'') = Some
      \<lparr> dp_sessions = [(5, ())], dp_last = Some (ex_depth [ex_level ''12'' ''2''] [ex_level ''10'' ''3'']), dp_last_clean = 0 \<rparr>"
    and sent: "ses_sent ex_depth_server = []"
    by (simp_all add: ex_depth_server_def aw_start_def)
  have limit: "dk_limit (mk_depth_key ''BTCUSD'' 2 ''0'') = 2" by (simp add: mk_depth_key_def)
  have full: "client_full dec_lib dec_val (ex_depth [ex_level ''12'' ''2''] [ex_level ''10'' ''3'']) = ([(12, 2)], [(10, 3)])"
    "client_full dec_lib dec_val (ex_depth [ex_level ''12'' ''1'', ex_level ''13'' ''4''] []) = ([(12, 1), (13, 4)], [])"
    by (simp_all add: client_full_def client_levels_def ex_depth_def unit_value_def ex_unit_levels)
  let ?new = "ex_depth [ex_level ''12'' ''1'', ex_level ''13'' ''4''] []" and ?old = "ex_depth [ex_level ''12'' ''2''] [ex_level ''10'' ''3'']"
  have last: "dp_last \<lparr> dp_sessions = [(5, ())], dp_last = Some ?old, dp_last_clean = 0 \<rparr> = Some ?old" by simp
  have answers: "\<forall>r \<in> set [?new]. depth_ok dec_lib dec_val (dk_limit (mk_depth_key ''BTCUSD'' 2 ''0'')) r"
    unfolding limit using ex_depths_ok(2) by simp
  have "last (?old # [?new]) = ?new" "map fst (dp_sessions \<lparr> dp_sessions = [(5, ())], dp_last = Some ?old, dp_last_clean = 0 \<rparr>) = [5]"
    "unat (2 :: u32) = 2" by simp_all
  then show ?thesis
    using depth_client_in_step [OF dec_lib_laws ex_denoted(4) found last _ answers, of ex_text] ex_depths_ok(1)
    unfolding limit full sent by (simp only: full append_Nil)
qed

section \<open>Requests and replies\<close>

text \<open>C10. The reply to a request goes to the session that asked, as long as it is the same connection, and to
  nobody else; the request is then over, and a reply that nothing waits for changes nothing. Whatever other requests
  come and go in between, theirs and this one are not confused.\<close>

theorem reply_goes_to_asker:
  assumes "state_wf (request_context s)" "state_room (request_context s)"
    and sent: "forward_request C to cmd ses i key body s = Some (ret, t)"
    and between: "requests.run_ops ops (request_context t) = Some (request_context u)"
    and reply: "DelRequest (rp_sequence pkg) \<notin> set ops" "backend_sent t = backend_sent s @ [(AwServer to, request_pkg cmd (rp_sequence pkg) i body)]"
  shows "ses_sent (ws_on_backend_recv_pkg J pkg u)
      = ses_sent u @ (if ses_id u ses = ses_id s ses then [(ses, c_text (pkg_body pkg))] else [])
    \<and> ws_on_backend_recv_pkg J pkg (ws_on_backend_recv_pkg J pkg u) = ws_on_backend_recv_pkg J pkg u"
proof -
  let ?d = "\<lparr> rd_ses = ses, rd_ses_id = ses_id s ses, rd_request_id = i, rd_cache_key = key \<rparr>"
  obtain j c where n: "nw_state_new (ws_backend_timeout C) ?d (request_context s) = Some (j, c)" "state_wf c"
    "pending c = (pending (request_context s))(j \<mapsto> ?d)"
    using requests.new_ok [OF assms(1,2), of "ws_backend_timeout C" ?d] by blast
  with sent reply(2) have j: "rp_sequence pkg = j" and t: "request_context t = c"
    by (auto simp: forward_request_def rpc_clt_send_def request_pkg_def)
  have wf: "state_wf (request_context u)" using requests.run_ops_inv [OF between] t n(2) by simp
  have "pending (request_context u) j = Some ?d"
    using requests.request_kept [OF between _ _ reply(1)] t n(2,3) j by simp
  then obtain e where e: "nw_state_get (request_context u) (rp_sequence pkg) = Some e" "se_data e = ?d"
    using j by (auto simp: pending_def)
  have "pending (snd (nw_state_del (rp_sequence pkg) (request_context u))) (rp_sequence pkg) = None"
    using del_state [OF wf] by simp
  then have gone: "nw_state_get (snd (nw_state_del (rp_sequence pkg) (request_context u))) (rp_sequence pkg) = None"
    by (simp add: pending_def)
  have ctx: "request_context (ws_on_backend_recv_pkg J pkg u) = snd (nw_state_del (rp_sequence pkg) (request_context u))"
    using e by (auto simp: ws_on_backend_recv_pkg_def ws_send_text_def ws_current_timestamp_def Let_def split: option.split)
  have idle: "ws_on_backend_recv_pkg J pkg v = v" if "nw_state_get (request_context v) (rp_sequence pkg) = None" for v :: "('d, 'e) aw_server_scheme"
    using that by (simp add: ws_on_backend_recv_pkg_def)
  have "ses_sent (ws_on_backend_recv_pkg J pkg u)
      = ses_sent u @ (if ses_id u ses = ses_id s ses then [(ses, c_text (pkg_body pkg))] else [])"
    using e by (simp add: ws_on_backend_recv_pkg_def ws_send_text_def c_text_def ws_current_timestamp_def Let_def split: option.split)
  with idle [of "ws_on_backend_recv_pkg J pkg u"] gone ctx show ?thesis by simp
qed

text \<open>A client asks for its orders, another one for the time of the engine; then the first answer comes.\<close>

definition ex_ws_settings :: "dec ws_settings" where
  "ex_ws_settings = \<lparr> ws_backend_timeout = 1, ws_cache_timeout = 1, ws_kline_interval = 1, ws_depth_limit = [2],
     ws_depth_merge = [Dec 0 0] \<rparr>"

definition ex_ws_server :: "dec aw_server" where
  "ex_ws_server = (aw_start (\<lambda>_. 0))\<lparr>ses_id := (\<lambda>_. 0)(5 := 1, 6 := 2)\<rparr>"

definition ex_ws_reply :: "u32 \<Rightarrow> string \<Rightarrow> rpc_pkg" where
  "ex_ws_reply i body = request_pkg CMD_ORDER_QUERY i 9 body"

lemma first_request: fixes data :: 'd
  shows "\<exists>c. nw_state_new timeout data nw_state_create = Some (1, c) \<and> state_wf c \<and> state_room c
    \<and> (\<exists>entry. nw_state_get c 1 = Some entry \<and> se_data entry = data)"
proof -
  have "nw_state_get (nw_state_create\<lparr>st_id_start := 1\<rparr>) 1 = (None :: 'd state_entry option)" and "st_id_start (nw_state_create :: 'd nw_state) = 0"
    by (simp_all add: nw_state_get_def nw_state_create_def NW_STATE_HASH_TABLE_INIT_SIZE_def)
  then have "get_available_id nw_state_create = Some (1, nw_state_create\<lparr>st_id_start := 1\<rparr> :: 'd nw_state)"
    by (subst get_available_id.simps) (simp add: Let_def)
  then obtain c :: "'d nw_state" where c: "nw_state_new timeout data nw_state_create = Some (1, c)" "st_used c = 1"
    by (fastforce simp: nw_state_new_def nw_state_add_def nw_state_create_def state_expand_if_needed_def
        NW_STATE_HASH_TABLE_INIT_SIZE_def Let_def)
  have "state_wf c" "pending c 1 = Some data"
    using requests.new_ok [OF wf_create, of timeout data] c(1) by (auto simp: state_room_def nw_state_create_def)
  then show ?thesis using c by (auto simp: state_room_def pending_def)
qed

theorem reply_goes_to_asker_witness:
  "\<exists>t (u :: dec aw_server). forward_request ex_ws_settings Matchengine CMD_ORDER_QUERY 5 9 None ''[5]'' ex_ws_server = Some (0, t)
    \<and> requests.run_ops [AddRequest 1 \<lparr> rd_ses = 6, rd_ses_id = 2, rd_request_id = 3, rd_cache_key = None \<rparr>] (request_context t) = Some (request_context u)
    \<and> ses_sent (ws_on_backend_recv_pkg ex_text (ex_ws_reply 1 ''{}'') u) = [(5, ''{}'')]"
proof -
  let ?d = "\<lparr> rd_ses = 5, rd_ses_id = 1, rd_request_id = 9, rd_cache_key = None \<rparr>"
    and ?e = "\<lparr> rd_ses = 6, rd_ses_id = 2, rd_request_id = 3, rd_cache_key = None \<rparr>"
  obtain c where c: "nw_state_new 1 ?d nw_state_create = Some (1, c)" "state_wf c" "state_room c"
    using first_request [of 1 ?d] by blast
  obtain j c' where c': "nw_state_new 1 ?e c = Some (j, c')" using requests.new_ok [OF c(2,3)] by blast
  define t where "t = rpc_clt_send (AwServer Matchengine) (request_pkg CMD_ORDER_QUERY 1 9 ''[5]'') (ex_ws_server\<lparr>request_context := c\<rparr>)"
  define u where "u = t\<lparr>request_context := c'\<rparr>"
  have start: "request_context ex_ws_server = nw_state_create" "ses_id ex_ws_server 5 = 1" "backend_sent ex_ws_server = []" "ses_sent ex_ws_server = []"
    by (simp_all only: ex_ws_server_def aw_start_def aw_io.simps aw_server.simps aw_depth.simps) simp_all
  have sent: "forward_request ex_ws_settings Matchengine CMD_ORDER_QUERY 5 9 None ''[5]'' ex_ws_server = Some (0, t)"
    using c(1) by (simp add: forward_request_def start ex_ws_settings_def t_def)
  have between: "requests.run_ops [AddRequest 1 ?e] (request_context t) = Some (request_context u)"
    using c c' by (simp add: t_def u_def rpc_clt_send_def)
  have reply: "rp_sequence (ex_ws_reply 1 ''{}'') = 1" "pkg_body (ex_ws_reply 1 ''{}'') = ''{}''"
    by (simp_all add: ex_ws_reply_def request_pkg_def pkg_body_def string_bytes_def bytes_string_def) code_simp
  have "state_wf (request_context ex_ws_server)" "state_room (request_context ex_ws_server)"
    "backend_sent t = backend_sent ex_ws_server @ [(AwServer Matchengine, request_pkg CMD_ORDER_QUERY (rp_sequence (ex_ws_reply 1 ''{}'')) 9 ''[5]'')]"
    by (simp_all add: start reply t_def rpc_clt_send_def) (simp add: state_room_def nw_state_create_def)
  with reply_goes_to_asker [OF _ _ sent between, of "ex_ws_reply 1 ''{}''" ex_text]
  have "ses_sent (ws_on_backend_recv_pkg ex_text (ex_ws_reply 1 ''{}'') u) = [(5, ''{}'')]"
    by (simp add: start reply u_def t_def rpc_clt_send_def c_text_def)
  with sent between show ?thesis by (intro exI [of _ t] exI [of _ u] conjI)
qed

section \<open>Private streams\<close>

text \<open>C8. Whatever clients, processes, timers and the authentication service do, the orders and the balances of a
  user are only ever sent to sessions that are connected and have authenticated as that user.\<close>

theorem private_streams_owned:
  assumes "aw_run D J C (aw_start clk) s"
  shows "(\<exists>out. ses_sent (snd (order_on_update J user_id event order s)) = ses_sent s @ out
      \<and> (\<forall>(ses, message) \<in> set out. ses_id s ses \<noteq> 0 \<and> ci_auth (info s ses) \<and> ci_user_id (info s ses) = user_id))
    \<and> (\<exists>out. ses_sent (on_balance_query_reply J query result s) = ses_sent s @ out
      \<and> (\<forall>(ses, message) \<in> set out. ses_id s ses \<noteq> 0 \<and> ci_auth (info s ses) \<and> ci_user_id (info s ses) = aq_user_id query))"
proof (intro conjI)
  have ok: "private_ok s" using aw_run_ok [OF assms] by simp
  have own: "ses_id s ses \<noteq> 0 \<and> ci_auth (info s ses) \<and> ci_user_id (info s ses) = u"
    if "dv_find subs u = Some list" "owned subs (\<lambda>x. ci_auth (info s x)) (\<lambda>x. ci_user_id (info s x)) (ses_id s)"
      "(ses, message) \<in> set (notify_out J m p (map su_ses (filter P list)))" for subs u list ses message m p P
    using that fst_notify_out [of J m p "map su_ses (filter P list)"] unfolding owned_def by fastforce
  show "\<exists>out. ses_sent (snd (order_on_update J user_id event order s)) = ses_sent s @ out
      \<and> (\<forall>(ses, message) \<in> set out. ses_id s ses \<noteq> 0 \<and> ci_auth (info s ses) \<and> ci_user_id (info s ses) = user_id)"
  proof (cases "json_string_value (json_object_get order ''market'') = None \<or> dv_find (order_sub s) user_id = None")
    case True
    then show ?thesis by (intro exI [of _ "[]"]) (auto simp: order_on_update_def split: option.split)
  next
    case False
    then obtain market list where m: "json_string_value (json_object_get order ''market'') = Some market" "dv_find (order_sub s) user_id = Some list"
      by auto
    have "\<forall>(ses, message) \<in> set (notify_out J ''order.update'' (JArray [JInteger event, order]) (map su_ses (filter (\<lambda>unit. su_name unit = market) list))).
        ses_id s ses \<noteq> 0 \<and> ci_auth (info s ses) \<and> ci_user_id (info s ses) = user_id"
      using own [OF m(2)] ok unfolding private_ok_iff by blast
    then show ?thesis
      by (intro exI [of _ "notify_out J ''order.update'' (JArray [JInteger event, order]) (map su_ses (filter (\<lambda>unit. su_name unit = market) list))"])
        (simp add: order_on_update_def m notify_sessions_eq)
  qed
  show "\<exists>out. ses_sent (on_balance_query_reply J query result s) = ses_sent s @ out
      \<and> (\<forall>(ses, message) \<in> set out. ses_id s ses \<noteq> 0 \<and> ci_auth (info s ses) \<and> ci_user_id (info s ses) = aq_user_id query)"
  proof (cases "dv_find (asset_sub s) (aq_user_id query)")
    case None
    then show ?thesis by (intro exI [of _ "[]"]) (simp add: on_balance_query_reply_def)
  next
    case (Some list)
    have "\<forall>(ses, message) \<in> set (notify_out J ''asset.update'' (JArray [result]) (map su_ses (filter (\<lambda>unit. su_name unit = aq_asset query) list))).
        ses_id s ses \<noteq> 0 \<and> ci_auth (info s ses) \<and> ci_user_id (info s ses) = aq_user_id query"
      using own [OF Some] ok unfolding private_ok_iff by blast
    then show ?thesis
      by (intro exI [of _ "notify_out J ''asset.update'' (JArray [result]) (map su_ses (filter (\<lambda>unit. su_name unit = aq_asset query) list))"])
        (simp add: on_balance_query_reply_def Some notify_sessions_eq)
  qed
qed

text \<open>
  A session connects, sends a token, the service says it is user 7, the session subscribes to its orders in
  a market: it is sent a report of that user's orders.
\<close>

definition ex_call :: "string \<Rightarrow> json list \<Rightarrow> string" where
  "ex_call method' params = nat_digits (to_nat (JObject [(''id'', JInteger 1), (''method'', JString method'), (''params'', JArray params)]))"

lemma ex_call_handled: "dv_find (ws_method_map D) m = Some handler \<Longrightarrow> handler ex_text C ses 1 (JArray params) s = Some (ret, t) \<Longrightarrow>
    ws_on_message D ex_text C ses (ex_call m params) s = Some (0, t)"
  by (simp add: ws_on_message_def ex_call_def ex_text_def digits_value_digits json_str_def)

lemma ex_private_run: "\<exists>s. aw_run dec_lib ex_text ex_ws_settings (aw_start clk) s
    \<and> order_sub s = [(7, [\<lparr> su_ses = 5, su_name = ''BTCUSD'' \<rparr>])]"
proof -
  let ?s1 = "open_session 5 (aw_start clk) :: dec aw_server"
  have 1: "aw_step dec_lib ex_text ex_ws_settings (aw_start clk) ?s1" by (rule connect) (simp add: aw_start_def)
  have id1: "ses_id ?s1 5 = 1" "auth_context ?s1 = nw_state_create" "order_sub ?s1 = []" "ci_auth (info ?s1 5) = False"
    by (simp_all add: open_session_def on_upgrade_def aw_start_def)
  obtain c where c: "nw_state_new 1 \<lparr> ad_ses = 5, ad_ses_id = 1, ad_request_id = 1 \<rparr> nw_state_create = Some (1, c)"
    "\<exists>entry. nw_state_get c 1 = Some entry \<and> se_data entry = \<lparr> ad_ses = 5, ad_ses_id = 1, ad_request_id = 1 \<rparr>"
    using first_request [of 1 "\<lparr> ad_ses = 5, ad_ses_id = 1, ad_request_id = 1 \<rparr>"] by blast
  obtain s2 where s2: "on_method_server_auth ex_text ex_ws_settings 5 1 (JArray [JString ''token'', JString ''web'']) ?s1 = Some (0, s2)"
    "ses_id s2 5 = 1" "auth_context s2 = c" "order_sub s2 = []" "ci_auth (info s2 5) = False"
    using c(1) id1 by (simp add: on_method_server_auth_def send_auth_request_def WS_SOURCE_MAX_LEN_def ex_ws_settings_def)
  have 2: "aw_step dec_lib ex_text ex_ws_settings ?s1 s2"
    using message [OF _ ex_call_handled [where m = "''server.auth''" and handler = on_method_server_auth and D = dec_lib, OF _ s2(1)]] id1
    by (simp add: ws_method_map_def)
  let ?answer = "Some (JObject [(''code'', JInteger 0), (''data'', JObject [(''user_id'', JInteger 7)])])"
  obtain s3 where s3: "s3 = auth_on_finish ex_text 1 ?answer s2" by simp
  have id3: "ses_id s3 5 = 1" "order_sub s3 = []" "ci_auth (info s3 5)" "ci_user_id (info s3 5) = 7"
    using c(2) s2 by (auto simp: s3 auth_on_finish_def auth_on_result_def auth_answer_def sends Let_def)
  have 3: "aw_step dec_lib ex_text ex_ws_settings s2 s3" unfolding s3 by (rule auth)
  obtain s4 where s4: "on_method_order_subscribe ex_text ex_ws_settings 5 1 (JArray [JString ''BTCUSD'']) s3 = Some (0, s4)"
    "order_sub s4 = [(7, [\<lparr> su_ses = 5, su_name = ''BTCUSD'' \<rparr>])]"
    using id3 by (simp add: on_method_order_subscribe_def order_unsubscribe_def order_subscribe_def MARKET_NAME_MAX_LEN_def sends ex_text_def
        dv_put_def dv_add_def)
  have 4: "aw_step dec_lib ex_text ex_ws_settings s3 s4"
    using message [OF _ ex_call_handled [where m = "''order.subscribe''" and handler = on_method_order_subscribe and D = dec_lib, OF _ s4(1)]] id3
    by (simp add: ws_method_map_def)
  from 1 2 3 4 have "aw_run dec_lib ex_text ex_ws_settings (aw_start clk) s4"
    by (meson rtranclp.rtrancl_into_rtrancl rtranclp.rtrancl_refl)
  with s4(2) show ?thesis by blast
qed

theorem private_streams_owned_witness:
  "\<exists>(s :: dec aw_server) str. ses_sent (snd (order_on_update ex_text 7 1 (JObject [(''market'', JString ''BTCUSD'')]) s)) = ses_sent s @ [(5, str)]
    \<and> ses_id s 5 \<noteq> 0 \<and> ci_auth (info s 5) \<and> ci_user_id (info s 5) = 7"
proof -
  obtain s :: "dec aw_server" where s: "aw_run dec_lib ex_text ex_ws_settings (aw_start (\<lambda>_. 0)) s"
    "order_sub s = [(7, [\<lparr> su_ses = 5, su_name = ''BTCUSD'' \<rparr>])]"
    using ex_private_run by blast
  let ?order = "JObject [(''market'', JString ''BTCUSD'')]"
  obtain str where "ses_sent (snd (order_on_update ex_text 7 1 ?order s)) = ses_sent s @ [(5, str)]"
    by (simp add: order_on_update_def s(2) notify_sessions_eq notify_out_def ex_text_def)
  with private_streams_owned [OF s(1), of 7 1 ?order, THEN conjunct1] show ?thesis by fastforce
qed

text \<open>C11. What the engine reports of an order reaches every session that has subscribed to the orders of its user
  in its market, and no other: the server finds the fields of the report where the engine puts them.\<close>

theorem order_report_reaches_owner:
  assumes message: "reports (push_order_message D event order stock money e) = reports e @ [Message TopicOrders msg]"
    and written: "json_dumps J msg = Some text" "json_loadb J text = Some msg"
    and order: "event \<noteq> 0" "o_user_id order \<noteq> 0"
    and received: "on_orders_message J C text s = Some t"
  shows "ses_sent t = ses_sent s @ notify_out J ''order.update'' (JArray [JInteger (sint event), get_order_info D order])
    (case dv_find (order_sub s) (o_user_id order) of
       None \<Rightarrow> [] | Some list \<Rightarrow> map su_ses (filter (\<lambda>unit. su_name unit = o_market order) list))"
proof -
  have msg: "msg = JObject [(''event'', json_u32 event), (''order'', get_order_info D order), (''stock'', JString stock), (''money'', JString money)]"
    using message by (simp add: push_order_message_def report_def Let_def)
  have fields: "json_object_get (get_order_info D order) ''user'' = Some (json_u32 (o_user_id order))"
    "json_object_get (get_order_info D order) ''market'' = Some (JString (o_market order))"
    by (cases "o_source order"; simp add: get_order_info_def json_object_set_new_mpd_def json_object_set_opt_def Let_def)+
  have asset: "ses_sent v = ses_sent u \<and> order_sub v = order_sub u" if "asset_on_update J C user a u = Some v"
    for user a and u v :: "('c, 'd) aw_user_scheme"
    using that by (auto simp: asset_on_update_def rpc_clt_send_def Let_def split: option.splits if_splits)
  have ev: "sint event \<noteq> 0" using order(1) by (metis sint_0 signed_word_eqI)
  from received obtain u v where u: "asset_on_update J C (o_user_id order) stock s = Some u" "asset_on_update J C (o_user_id order) money u = Some v"
    "t = snd (order_on_update J (o_user_id order) (sint event) (get_order_info D order) v)"
    using order ev by (auto simp: on_orders_message_def written(2) process_orders_message_def msg fields json_u32_def Let_def
        split: option.splits if_splits)
  show ?thesis
    using asset [OF u(1)] asset [OF u(2)] by (simp add: u(3) order_on_update_def fields notify_sessions_eq split: option.split)
qed

text \<open>The bid of the small engine is reported; its owner listens from session 5, another session to another market.\<close>

definition ex_order_server :: "dec aw_server" where
  "ex_order_server = (aw_start (\<lambda>_. 0))\<lparr>order_sub := [(2, [\<lparr> su_ses = 5, su_name = ''BTCUSD'' \<rparr>, \<lparr> su_ses = 6, su_name = ''ETHUSD'' \<rparr>])]\<rparr>"

theorem order_report_reaches_owner_witness:
  "\<exists>msg str. reports (push_order_message dec_lib 1 ex_bid ''BTC'' ''USD'' ex_state) = reports ex_state @ [Message TopicOrders msg]
    \<and> json_dumps ex_text msg = Some str
    \<and> map_option ses_sent (on_orders_message ex_text ex_ws_settings str ex_order_server)
      = Some (notify_out ex_text ''order.update'' (JArray [JInteger 1, get_order_info dec_lib ex_bid]) [5])"
proof -
  obtain msg where msg: "reports (push_order_message dec_lib 1 ex_bid ''BTC'' ''USD'' ex_state) = reports ex_state @ [Message TopicOrders msg]"
    "msg = JObject [(''event'', json_u32 1), (''order'', get_order_info dec_lib ex_bid), (''stock'', JString ''BTC''), (''money'', JString ''USD'')]"
    by (simp add: push_order_message_def report_def Let_def)
  have start: "order_sub ex_order_server = [(2, [\<lparr> su_ses = 5, su_name = ''BTCUSD'' \<rparr>, \<lparr> su_ses = 6, su_name = ''ETHUSD'' \<rparr>])]"
    "asset_sub ex_order_server = []" "ses_sent ex_order_server = []"
    by (simp_all add: ex_order_server_def aw_start_def)
  have bid: "o_user_id ex_bid = 2" "o_market ex_bid = ''BTCUSD''" by (simp_all add: ex_bid_def)
  have "json_object_get (get_order_info dec_lib ex_bid) ''user'' = Some (JInteger 2)"
    by (simp add: get_order_info_def ex_bid_def json_object_set_new_mpd_def json_object_set_opt_def json_u32_def Let_def)
  then obtain t where t: "on_orders_message ex_text ex_ws_settings (nat_digits (to_nat msg)) ex_order_server = Some t"
    by (simp add: on_orders_message_def process_orders_message_def asset_on_update_def start msg(2) ex_text_def digits_value_digits json_u32_def)
  have "json_dumps ex_text msg = Some (nat_digits (to_nat msg))" "json_loadb ex_text (nat_digits (to_nat msg)) = Some msg"
    by (simp_all add: ex_text_def digits_value_digits)
  with order_report_reaches_owner [OF msg(1) _ _ _ _ t] t msg(1) show ?thesis
    by (intro exI [of _ msg] exI [of _ "nat_digits (to_nat msg)"]) (simp add: start bid)
qed

section \<open>Public streams\<close>

lemma subscribe_markets_names: "(\<And>m s. \<not> fst (sub m s) < 0) \<Longrightarrow> \<forall>m \<in> set ms. length m < n \<Longrightarrow>
    subscribe_markets J n sub ses i (map JString ms) s = (None, fold (\<lambda>m s. snd (sub m s)) ms s)"
proof (induction ms arbitrary: s)
  case (Cons m ms)
  from Cons.prems(1) [of m s] have "\<not> fst (sub m s) < 0" .
  with Cons show ?case by (simp add: Let_def split_beta)
qed simp

lemma send_markets_price: "price_subscribers (send_markets (price_send_last D J ses) params s) = price_subscribers s"
proof (induction params arbitrary: s)
  case (Cons p params)
  have "price_subscribers (price_send_last D J ses m s) = price_subscribers s" for m
    by (auto simp: price_send_last_def send_notify_eq price_subscribers_def fun_eq_iff split: option.split)
  with Cons show ?case by (simp split: option.split)
qed simp

text \<open>C12. A session that asks for the prices of some markets gets, whenever a price changes, exactly those of its
  list, and no longer those it asked for before; the other sessions get what they got.\<close>

theorem price_stream:
  assumes asked: "on_method_price_subscribe D J C ses i (JArray (map JString markets)) s = Some (ret, t)"
    and names: "\<forall>m \<in> set markets. length m < MARKET_NAME_MAX_LEN"
    and later: "price_subscribers u = price_subscribers t" "dv_find (price_market u) m = Some obj"
    and changed: "decimal D price 0 = Some p" "mpd_cmp D p (pv_last obj) \<noteq> 0"
    and written: "json_dumps J (notify_json ''price.update'' (JArray [JString m, JString price])) = Some message"
  shows "\<exists>out. ses_sent (snd (on_market_last_reply D J m (JString price) u)) = ses_sent u @ out
    \<and> (\<forall>other. other \<in> fst ` set out \<longleftrightarrow> (if other = ses then m \<in> set markets else other \<in> price_subscribers s m))
    \<and> snd ` set out \<subseteq> {c_text message}"
proof -
  let ?subs = "fold (\<lambda>m s. snd (price_subscribe D ses m s)) markets (price_unsubscribe ses s)"
  have "subscribe_markets J MARKET_NAME_MAX_LEN (price_subscribe D ses) ses i (map JString markets) (price_unsubscribe ses s) = (None, ?subs)"
    by (rule subscribe_markets_names) (simp_all add: price_subscribe_def Let_def names)
  with asked have "price_subscribers t = price_subscribers ?subs"
    by (auto simp: on_method_price_subscribe_def send_markets_price sends) (auto simp: price_subscribers_def)
  then have t: "price_subscribers u m = (if m \<in> set markets then insert ses (price_subscribers s m) else price_subscribers s m - {ses})"
    using price_table.resubscribe [where ks = markets and k' = m and ses = ses and s = s and D = D] later(1) by simp
  have out: "ses_sent (snd (on_market_last_reply D J m (JString price) u))
      = ses_sent u @ map (\<lambda>x. (x, c_text message)) (map fst (pv_sessions obj))"
    using later(2) changed written by (simp add: on_market_last_reply_def notify_sessions_eq notify_out_def Let_def)
  have "fst ` set (map (\<lambda>x. (x, c_text message)) (map fst (pv_sessions obj))) = price_subscribers u m"
    using later(2) by (simp add: price_subscribers_def session_set_def image_image)
  with out t show ?thesis
    by (intro exI [of _ "map (\<lambda>x. (x, c_text message)) (map fst (pv_sessions obj))"]) auto
qed

text \<open>Session 5 listened to BTCUSD and session 6 does; 5 now asks for ETHUSD only, and a price of it changes.\<close>

definition ex_price_server :: "dec aw_server" where
  "ex_price_server = (aw_start (\<lambda>_. 0))\<lparr>price_market := [(''BTCUSD'', \<lparr> pv_sessions = [(5, ()), (6, ())], pv_last = Dec 10 0 \<rparr>),
     (''ETHUSD'', \<lparr> pv_sessions = [(6, ())], pv_last = Dec 10 0 \<rparr>)]\<rparr>"

theorem price_stream_witness:
  "\<exists>t out. on_method_price_subscribe dec_lib ex_text ex_ws_settings 5 1 (JArray [JString ''ETHUSD'']) ex_price_server = Some (0, t)
    \<and> ses_sent (snd (on_market_last_reply dec_lib ex_text ''ETHUSD'' (JString ''12'') t)) = ses_sent t @ out \<and> fst ` set out = {5, 6}"
proof -
  have start: "price_market ex_price_server = [(''BTCUSD'', \<lparr> pv_sessions = [(5, ()), (6, ())], pv_last = Dec 10 0 \<rparr>),
     (''ETHUSD'', \<lparr> pv_sessions = [(6, ())], pv_last = Dec 10 0 \<rparr>)]" by (simp add: ex_price_server_def)
  obtain t obj where t: "on_method_price_subscribe dec_lib ex_text ex_ws_settings 5 1 (JArray (map JString [''ETHUSD''])) ex_price_server = Some (0, t)"
    "dv_find (price_market t) ''ETHUSD'' = Some obj" "pv_last obj = Dec 10 0"
    by (simp add: on_method_price_subscribe_def price_unsubscribe_def price_subscribe_def price_send_last_def send_notify_eq start sends
        MARKET_NAME_MAX_LEN_def dv_put_def dv_add_def dec_ops ex_text_def Let_def split: option.split)
  have names: "\<forall>m \<in> set [''ETHUSD'']. length m < MARKET_NAME_MAX_LEN" by (simp add: MARKET_NAME_MAX_LEN_def)
  have price: "decimal dec_lib ''12'' 0 = Some (Dec 12 0)" by code_simp
  obtain str where str: "json_dumps ex_text (notify_json ''price.update'' (JArray [JString ''ETHUSD'', JString ''12''])) = Some str"
    by (simp add: ex_text_def)
  have "price_subscribers ex_price_server ''ETHUSD'' = {6}" by (simp add: price_subscribers_def start session_set_def)
  moreover have "mpd_cmp dec_lib (Dec 12 0) (pv_last obj) \<noteq> 0" by (simp add: t(3) dec_ops shift_def)
  ultimately obtain out where "ses_sent (snd (on_market_last_reply dec_lib ex_text ''ETHUSD'' (JString ''12'') t)) = ses_sent t @ out"
    "\<forall>other. other \<in> fst ` set out \<longleftrightarrow> (if other = 5 then ''ETHUSD'' \<in> set [''ETHUSD''] else other \<in> {6})"
    using price_stream [OF t(1) names refl t(2) price _ str] by auto
  moreover from this have "fst ` set out = {5, 6}" by (intro set_eqI) simp
  ultimately show ?thesis using t(1) by auto
qed

text \<open>C38. A session that closes stays in the table of \<open>aw_state.c\<close>: \<open>on_close\<close> leaves the five other public
  streams, but not this one. A new connection at the same address is still in it, and gets the state of markets it has
  never asked for.\<close>

theorem closed_session_keeps_state:
  "state_subscribers (close_session ses s) m = state_subscribers s m
    \<and> state_subscribers (open_session ses (close_session ses s)) m = state_subscribers s m
    \<and> ses \<notin> depth_subscribers (close_session ses s) dk \<and> ses \<notin> kline_subscribers (close_session ses s) kk
    \<and> ses \<notin> today_subscribers (close_session ses s) m \<and> ses \<notin> price_subscribers (close_session ses s) m
    \<and> ses \<notin> deals_subscribers (close_session ses s) m"
proof (intro conjI)
  let ?p = "deals_unsubscribe ses (today_unsubscribe ses (price_unsubscribe ses (depth_unsubscribe ses (kline_unsubscribe ses s))))"
  obtain x y z where c: "close_session ses s = ?p\<lparr>order_sub := x, asset_sub := y, ses_id := z\<rparr>"
  proof (cases "ci_auth (info ?p ses)")
    case True
    then show ?thesis
      by (intro that) (simp add: close_session_def ws_on_close_def Let_def order_unsubscribe_eq asset_unsubscribe_eq)
  next
    case False
    then show ?thesis
      by (intro that [where x = "order_sub ?p" and y = "asset_sub ?p"]) (simp add: close_session_def ws_on_close_def Let_def)
  qed
  note frames = depth_unsubscribe_def kline_unsubscribe_def today_unsubscribe_def price_unsubscribe_def deals_unsubscribe_def
    subscribers_defs dv_find_map
  show same: "state_subscribers (close_session ses s) m = state_subscribers s m" by (simp add: c frames)
  show "state_subscribers (open_session ses (close_session ses s)) m = state_subscribers s m"
    using same by (simp add: open_session_def on_upgrade_def Let_def state_subscribers_def)
  show "ses \<notin> depth_subscribers (close_session ses s) dk" "ses \<notin> kline_subscribers (close_session ses s) kk"
    "ses \<notin> today_subscribers (close_session ses s) m" "ses \<notin> price_subscribers (close_session ses s) m"
    "ses \<notin> deals_subscribers (close_session ses s) m"
    by (auto simp: c frames split: option.splits)
qed

text \<open>What a timer asks, without the sequence number.\<close>

definition query_of :: "ws_client \<times> rpc_pkg \<Rightarrow> ws_client \<times> u32 \<times> byte list" where
  "query_of q = (fst q, rp_command (snd q), rp_body (snd q))"

lemma deals_timer_queries: "deals_timer_loop J C entries s = Some t \<Longrightarrow> \<forall>e \<in> set entries. ds_sessions (snd e) \<noteq> [] \<Longrightarrow>
    deals_market t = deals_market s \<and> (\<exists>q. backend_sent t = backend_sent s @ q
      \<and> map query_of q = map (\<lambda>(m, obj). (AwDeals, CMD_MARKET_DEALS, string_bytes (the (json_dumps J
          (JArray [JString m, JInteger (int DEALS_QUERY_LIMIT), json_u64 (ds_last_id obj)]))))) entries)"
proof (induction entries s rule: deals_timer_loop.induct)
  case (2 J C m obj entries s)
  let ?params = "JArray [JString m, JInteger (int DEALS_QUERY_LIMIT), json_u64 (ds_last_id obj)]"
  have busy: "ds_sessions obj \<noteq> []" using 2(4) by simp
  with 2(3) obtain i ctx body where n: "nw_state_new (ws_backend_timeout C) (take (MARKET_NAME_MAX_LEN - 1) m) (deals_context s) = Some (i, ctx)"
    "json_dumps J ?params = Some body"
    by (auto simp: Let_def split: option.splits)
  let ?s = "rpc_clt_send AwDeals (request_pkg CMD_MARKET_DEALS i 0 body) (s\<lparr>deals_context := ctx\<rparr>)"
  have "deals_timer_loop J C entries ?s = Some t" using 2(3) busy n by (simp add: Let_def)
  with 2(2)[OF busy refl n(1) refl n(2)] 2(4) n(2) show ?case
    by (auto simp: rpc_clt_send_def query_of_def request_pkg_def)
qed simp

text \<open>C39. The timer asks for the deals after the last known one again while the answer is on its way, and the answer
  is taken without a look at the ids: a slow market data server makes every subscriber see the same deals twice,
  and they are twice in the list a new subscriber gets.\<close>

theorem deals_sent_twice:
  assumes "\<forall>e \<in> set (deals_market s). ds_sessions (snd e) \<noteq> []"
    and "deals_on_timer J C s = Some s1" "deals_on_timer J C s1 = Some s2"
    and "dv_find (deals_market s) m = Some obj"
    and "result = deal # deals" "(word_of_int (json_integer_value (json_object_get deal ''id'')) :: u64) \<noteq> 0"
  shows "(\<exists>q1 q2. backend_sent s2 = backend_sent s @ q1 @ q2 \<and> map query_of q1 = map query_of q2)
    \<and> (let t = snd (on_order_deals_reply J m (JArray result) (snd (on_order_deals_reply J m (JArray result) s2)));
             out = notify_out J ''deals.update'' (JArray [JString m, JArray result]) (map fst (ds_sessions obj)) in
         ses_sent t = ses_sent s2 @ out @ out
       \<and> map_option ds_deals (dv_find (deals_market t) m) = Some (deals_cut (result @ deals_cut (result @ ds_deals obj))))"
proof (intro conjI)
  have 1: "deals_market s1 = deals_market s" "\<exists>q. backend_sent s1 = backend_sent s @ q
      \<and> map query_of q = map (\<lambda>(m, obj). (AwDeals, CMD_MARKET_DEALS, string_bytes (the (json_dumps J
          (JArray [JString m, JInteger (int DEALS_QUERY_LIMIT), json_u64 (ds_last_id obj)]))))) (deals_market s)"
    using deals_timer_queries [OF assms(2)[unfolded deals_on_timer_def] assms(1)] by blast+
  have "\<forall>e \<in> set (deals_market s1). ds_sessions (snd e) \<noteq> []" using 1(1) assms(1) by simp
  note 2 = deals_timer_queries [OF assms(3)[unfolded deals_on_timer_def] this]
  from 1 2 show "\<exists>q1 q2. backend_sent s2 = backend_sent s @ q1 @ q2 \<and> map query_of q1 = map query_of q2"
    by (metis append.assoc)
  have add: "deals_add xs ys = xs @ ys" for xs ys by (induction xs) simp_all
  have obj: "dv_find (deals_market s2) m = Some obj" using 1(1) 2 assms(4) by simp
  with assms(5,6) show "let t = snd (on_order_deals_reply J m (JArray result) (snd (on_order_deals_reply J m (JArray result) s2)));
             out = notify_out J ''deals.update'' (JArray [JString m, JArray result]) (map fst (ds_sessions obj)) in
         ses_sent t = ses_sent s2 @ out @ out
       \<and> map_option ds_deals (dv_find (deals_market t) m) = Some (deals_cut (result @ deals_cut (result @ ds_deals obj)))"
    by (simp add: on_order_deals_reply_def notify_sessions_eq add Let_def)
qed

text \<open>A deal is asked for by two ticks of the timer, and answered twice.\<close>

definition ex_deals_server :: "dec aw_server" where
  "ex_deals_server = (aw_start (\<lambda>_. 0))\<lparr>deals_market := [(''BTCUSD'', \<lparr> ds_sessions = [(5, ())], ds_deals = [], ds_last_id = 0 \<rparr>)]\<rparr>"

lemma ex_deals_tick: "state_wf (deals_context s) \<Longrightarrow> state_room (deals_context s) \<Longrightarrow>
    deals_market s = [(m, \<lparr> ds_sessions = [(5, ())], ds_deals = [], ds_last_id = 0 \<rparr>)] \<Longrightarrow>
    \<exists>t. deals_on_timer ex_text C s = Some t \<and> state_wf (deals_context t)
      \<and> (nw_state_new (ws_backend_timeout C) (take (MARKET_NAME_MAX_LEN - 1) m) (deals_context s) = Some (1, deals_context t) \<or> deals_context s \<noteq> nw_state_create)"
  using requests.new_ok [of "deals_context s" "ws_backend_timeout C" "take (MARKET_NAME_MAX_LEN - 1) m"]
    first_request [of "ws_backend_timeout C" "take (MARKET_NAME_MAX_LEN - 1) m"]
  by (auto simp: deals_on_timer_def ex_text_def rpc_clt_send_def Let_def)

theorem deals_sent_twice_witness:
  "\<exists>s1 s2. deals_on_timer ex_text ex_ws_settings ex_deals_server = Some s1 \<and> deals_on_timer ex_text ex_ws_settings s1 = Some s2
    \<and> (let t = snd (on_order_deals_reply ex_text ''BTCUSD'' (JArray [JObject [(''id'', JInteger 4)]])
                (snd (on_order_deals_reply ex_text ''BTCUSD'' (JArray [JObject [(''id'', JInteger 4)]]) s2))) in
       map_option ds_deals (dv_find (deals_market t) ''BTCUSD'') = Some [JObject [(''id'', JInteger 4)], JObject [(''id'', JInteger 4)]])"
proof -
  let ?deal = "JObject [(''id'', JInteger 4)]"
  have start: "deals_market ex_deals_server = [(''BTCUSD'', \<lparr> ds_sessions = [(5, ())], ds_deals = [], ds_last_id = 0 \<rparr>)]"
    "deals_context ex_deals_server = nw_state_create"
    by (simp_all add: ex_deals_server_def aw_start_def)
  have room: "state_room (nw_state_create :: string nw_state)" by (simp add: state_room_def nw_state_create_def)
  obtain c where c: "nw_state_new (ws_backend_timeout ex_ws_settings) (take (MARKET_NAME_MAX_LEN - 1) ''BTCUSD'') nw_state_create = Some (1, c)" "state_room c"
    using first_request [of "ws_backend_timeout ex_ws_settings" "take (MARKET_NAME_MAX_LEN - 1) ''BTCUSD''"] by (elim exE conjE)
  have "state_wf (deals_context ex_deals_server)" "state_room (deals_context ex_deals_server)"
    unfolding start(2) by (rule wf_create, rule room)
  from ex_deals_tick [OF this start(1), of ex_ws_settings, unfolded start(2) c(1)]
  obtain s1 where s1: "deals_on_timer ex_text ex_ws_settings ex_deals_server = Some s1" "state_wf (deals_context s1)" "c = deals_context s1"
    by blast
  note s1 = s1(1,2) c(2)[unfolded s1(3)]
  have d1: "deals_market s1 = deals_market ex_deals_server"
    using deals_timer_queries [OF s1(1)[unfolded deals_on_timer_def]] start(1) by simp
  obtain s2 where s2: "deals_on_timer ex_text ex_ws_settings s1 = Some s2"
    using ex_deals_tick [OF s1(2,3) d1[unfolded start(1)], of ex_ws_settings] by blast
  have found: "dv_find (deals_market ex_deals_server) ''BTCUSD'' = Some \<lparr> ds_sessions = [(5, ())], ds_deals = [], ds_last_id = 0 \<rparr>"
    by (simp add: start)
  have busy: "\<forall>e \<in> set (deals_market ex_deals_server). ds_sessions (snd e) \<noteq> []" by (simp add: start)
  have "(word_of_int (json_integer_value (json_object_get ?deal ''id'')) :: u64) \<noteq> 0" by simp
  note twice = deals_sent_twice [OF busy s1(1) s2 found refl this, of "[]", THEN conjunct2, unfolded Let_def, THEN conjunct2]
  have "deals_cut ([?deal] @ deals_cut ([?deal] @ ds_deals \<lparr> ds_sessions = [(5, ())], ds_deals = [], ds_last_id = 0 \<rparr>)) = [?deal, ?deal]"
    by (simp add: deals_cut_def DEALS_QUERY_LIMIT_def)
  note result = twice [unfolded this]
  show ?thesis unfolding Let_def by (intro exI [of _ s1] exI [of _ s2] conjI s1(1) s2 result)
qed

end
