(* ===== verification/Net_Buf.thy ===== *)
theory Net_Buf
  imports Pack
begin

text \<open>
  \<open>network/nw_buf.c\<close>: buffers of a fixed size with a read and a write position, a pool that keeps free
  buffers, lists of buffers with an optional limit, and \<open>nw_cache\<close>, the same kind of pool for other
  objects. Memory is allocated with success; the content of new memory is taken as zeros, nothing depends on it.
  The count of a list is its length; the field \<open>used\<close> of a pool is never changed and left out.
\<close>

section \<open>Buffers\<close>

record nw_buf =
  bf_size :: u32
  bf_rpos :: u32
  bf_wpos :: u32
  bf_data :: "byte list"

definition nw_buf_size :: "nw_buf \<Rightarrow> nat" where
  "nw_buf_size buf = unat (bf_wpos buf - bf_rpos buf)"

definition nw_buf_avail :: "nw_buf \<Rightarrow> nat" where
  "nw_buf_avail buf = unat (bf_size buf - bf_wpos buf)"

text \<open>\<open>memcpy\<close> to the write position.\<close>

definition buf_copy :: "nw_buf \<Rightarrow> byte list \<Rightarrow> nw_buf" where
  "buf_copy buf bs =
     (let wpos = unat (bf_wpos buf) in
      buf\<lparr>bf_data := take wpos (bf_data buf) @ bs @ drop (wpos + length bs) (bf_data buf), bf_wpos := bf_wpos buf + of_nat (length bs)\<rparr>)"

definition nw_buf_write :: "nw_buf \<Rightarrow> byte list \<Rightarrow> nat \<times> nw_buf" where
  "nw_buf_write buf data =
     (let available = nw_buf_avail buf;
          wlen = (if length data > available then available else length data) in
      (wlen, buf_copy buf (take wlen data)))"

definition nw_buf_shift :: "nw_buf \<Rightarrow> nw_buf" where
  "nw_buf_shift buf =
     (if bf_rpos buf = bf_wpos buf then buf\<lparr>bf_rpos := 0, bf_wpos := 0\<rparr>
      else if bf_rpos buf \<noteq> 0 then
        let len = unat (bf_wpos buf - bf_rpos buf) in
        buf\<lparr>bf_data := take len (drop (unat (bf_rpos buf)) (bf_data buf)) @ drop len (bf_data buf),
            bf_wpos := bf_wpos buf - bf_rpos buf, bf_rpos := 0\<rparr>
      else buf)"

section \<open>Pools\<close>

definition NW_BUF_POOL_INIT_SIZE :: nat where "NW_BUF_POOL_INIT_SIZE = 64"
definition NW_BUF_POOL_MAX_SIZE :: nat where "NW_BUF_POOL_MAX_SIZE = 65535"
definition NW_CACHE_INIT_SIZE :: nat where "NW_CACHE_INIT_SIZE = 64"
definition NW_CACHE_MAX_SIZE :: nat where "NW_CACHE_MAX_SIZE = 65535"

text \<open>The array of free objects, the last one first.\<close>

record nw_buf_pool =
  bp_size :: u32
  bp_free_total :: nat
  bp_free_arr :: "nw_buf list"

record 'o nw_cache =
  nc_size :: u32
  nc_free_total :: nat
  nc_free_arr :: "'o list"

definition nw_buf_pool_create :: "u32 \<Rightarrow> nw_buf_pool" where
  "nw_buf_pool_create sz = \<lparr> bp_size = sz, bp_free_total = NW_BUF_POOL_INIT_SIZE, bp_free_arr = [] \<rparr>"

definition nw_buf_alloc :: "nw_buf_pool \<Rightarrow> nw_buf \<times> nw_buf_pool" where
  "nw_buf_alloc pool =
     (case bp_free_arr pool of
        buf # arr \<Rightarrow> (buf\<lparr>bf_size := bp_size pool, bf_rpos := 0, bf_wpos := 0\<rparr>, pool\<lparr>bp_free_arr := arr\<rparr>)
      | [] \<Rightarrow> (\<lparr> bf_size = bp_size pool, bf_rpos = 0, bf_wpos = 0, bf_data = replicate (unat (bp_size pool)) 0 \<rparr>, pool))"

definition nw_buf_free :: "nw_buf_pool \<Rightarrow> nw_buf \<Rightarrow> nw_buf_pool" where
  "nw_buf_free pool buf =
     (if length (bp_free_arr pool) < bp_free_total pool then pool\<lparr>bp_free_arr := buf # bp_free_arr pool\<rparr>
      else if bp_free_total pool < NW_BUF_POOL_MAX_SIZE then
        pool\<lparr>bp_free_total := bp_free_total pool * 2, bp_free_arr := buf # bp_free_arr pool\<rparr>
      else pool)"

definition nw_cache_create :: "u32 \<Rightarrow> 'o nw_cache" where
  "nw_cache_create sz = \<lparr> nc_size = sz, nc_free_total = NW_CACHE_INIT_SIZE, nc_free_arr = [] \<rparr>"

text \<open>\<open>None\<close>: new memory.\<close>

definition nw_cache_alloc :: "'o nw_cache \<Rightarrow> 'o option \<times> 'o nw_cache" where
  "nw_cache_alloc cache =
     (case nc_free_arr cache of obj # arr \<Rightarrow> (Some obj, cache\<lparr>nc_free_arr := arr\<rparr>) | [] \<Rightarrow> (None, cache))"

definition nw_cache_free :: "'o nw_cache \<Rightarrow> 'o \<Rightarrow> 'o nw_cache" where
  "nw_cache_free cache obj =
     (if length (nc_free_arr cache) < nc_free_total cache then cache\<lparr>nc_free_arr := obj # nc_free_arr cache\<rparr>
      else if nc_free_total cache < NW_CACHE_MAX_SIZE then
        cache\<lparr>nc_free_total := nc_free_total cache * 2, nc_free_arr := obj # nc_free_arr cache\<rparr>
      else cache)"

section \<open>Lists of buffers\<close>

record nw_buf_list =
  bl_limit :: u32
  bl_bufs :: "nw_buf list"

definition nw_buf_list_create :: "u32 \<Rightarrow> nw_buf_list" where
  "nw_buf_list_create limit = \<lparr> bl_limit = limit, bl_bufs = [] \<rparr>"

definition list_full :: "nw_buf_list \<Rightarrow> bool" where
  "list_full list \<longleftrightarrow> bl_limit list \<noteq> 0 \<and> length (bl_bufs list) \<ge> unat (bl_limit list)"

text \<open>
  The loop of \<open>nw_buf_list_write\<close>: what is left goes to new buffers. With buffers of size 0 and no limit it does not end.
\<close>

partial_function (option) write_bufs :: "byte list \<Rightarrow> nw_buf_pool \<times> nw_buf_list \<Rightarrow> (byte list \<times> nw_buf_pool \<times> nw_buf_list) option" where
  "write_bufs left pl =
     (if left = [] then Some ([], pl)
      else if list_full (snd pl) then Some (left, pl)
      else
        let (buf, pool) = nw_buf_alloc (fst pl);
            (ret, buf) = nw_buf_write buf left in
        write_bufs (drop ret left) (pool, (snd pl)\<lparr>bl_bufs := bl_bufs (snd pl) @ [buf]\<rparr>))"

definition nw_buf_list_write :: "nw_buf_pool \<times> nw_buf_list \<Rightarrow> byte list \<Rightarrow> (nat \<times> nw_buf_pool \<times> nw_buf_list) option" where
  "nw_buf_list_write pl data =
     (let bufs = bl_bufs (snd pl);
          (left, pl) =
            (if bufs \<noteq> [] \<and> nw_buf_avail (last bufs) \<noteq> 0 then
               let (ret, buf) = nw_buf_write (last bufs) data in
               (drop ret data, fst pl, (snd pl)\<lparr>bl_bufs := butlast bufs @ [buf]\<rparr>)
             else (data, pl)) in
      map_option (\<lambda>(left, pl). (length data - length left, pl)) (write_bufs left pl))"

definition nw_buf_list_append :: "nw_buf_pool \<times> nw_buf_list \<Rightarrow> byte list \<Rightarrow> nat \<times> nw_buf_pool \<times> nw_buf_list" where
  "nw_buf_list_append pl data =
     (if list_full (snd pl) then (0, pl)
      else
        let (buf, pool) = nw_buf_alloc (fst pl) in
        if length data > unat (bf_size buf) then (0, nw_buf_free pool buf, snd pl)
        else
          let (_, buf) = nw_buf_write buf data in
          (length data, pool, (snd pl)\<lparr>bl_bufs := bl_bufs (snd pl) @ [buf]\<rparr>))"

definition nw_buf_list_shift :: "nw_buf_pool \<times> nw_buf_list \<Rightarrow> nw_buf_pool \<times> nw_buf_list" where
  "nw_buf_list_shift pl =
     (case bl_bufs (snd pl) of
        [] \<Rightarrow> pl
      | buf # bufs \<Rightarrow> (nw_buf_free (fst pl) buf, (snd pl)\<lparr>bl_bufs := bufs\<rparr>))"

section \<open>What a buffer holds\<close>

definition buf_ok :: "nw_buf \<Rightarrow> bool" where
  "buf_ok buf \<longleftrightarrow> bf_rpos buf \<le> bf_wpos buf \<and> bf_wpos buf \<le> bf_size buf \<and> length (bf_data buf) = unat (bf_size buf)"

definition buf_bytes :: "nw_buf \<Rightarrow> byte list" where
  "buf_bytes buf = take (nw_buf_size buf) (drop (unat (bf_rpos buf)) (bf_data buf))"

lemma buf_le: assumes "buf_ok buf"
  shows "unat (bf_rpos buf) \<le> unat (bf_wpos buf)" "unat (bf_wpos buf) \<le> unat (bf_size buf)"
    "nw_buf_size buf = unat (bf_wpos buf) - unat (bf_rpos buf)" "nw_buf_avail buf = unat (bf_size buf) - unat (bf_wpos buf)"
  using assms by (simp_all add: buf_ok_def word_le_nat_alt nw_buf_size_def nw_buf_avail_def unat_sub)

lemma length_buf_bytes [simp]: "buf_ok buf \<Longrightarrow> length (buf_bytes buf) = nw_buf_size buf"
  using buf_le [of buf] by (auto simp: buf_bytes_def buf_ok_def)

lemma copy_ok: assumes ok: "buf_ok buf" and "length bs \<le> nw_buf_avail buf"
  shows "buf_ok (buf_copy buf bs)" "buf_bytes (buf_copy buf bs) = buf_bytes buf @ bs" "bf_size (buf_copy buf bs) = bf_size buf"
proof -
  note le = buf_le [OF ok]
  have fits: "unat (bf_wpos buf) + length bs \<le> unat (bf_size buf)" using assms(2) le by simp
  have "unat (bf_size buf) < 2 ^ 32" using unsigned_less [of "bf_size buf", where ?'a = nat] by simp
  then have w: "unat (bf_wpos buf + of_nat (length bs)) = unat (bf_wpos buf) + length bs"
    using fits by (simp add: unat_word_ariths unat_of_nat)
  show ok': "buf_ok (buf_copy buf bs)"
    using ok fits le w by (auto simp: buf_ok_def buf_copy_def Let_def word_le_nat_alt)
  show "bf_size (buf_copy buf bs) = bf_size buf" by (simp add: buf_copy_def Let_def)
  show "buf_bytes (buf_copy buf bs) = buf_bytes buf @ bs"
    using buf_le(3) [OF ok'] ok fits le w by (simp add: buf_bytes_def buf_copy_def Let_def buf_ok_def drop_take)
qed

lemma write_ok: assumes "buf_ok buf" "nw_buf_write buf data = (ret, buf')"
  shows "buf_ok buf'" "buf_bytes buf' = buf_bytes buf @ take ret data" "bf_size buf' = bf_size buf"
    "ret = min (nw_buf_avail buf) (length data)"
  using assms copy_ok [OF assms(1), of "take ret data"] by (auto simp: nw_buf_write_def Let_def min_def split: if_splits)

lemma shift_ok: assumes ok: "buf_ok buf"
  shows "buf_ok (nw_buf_shift buf)" "buf_bytes (nw_buf_shift buf) = buf_bytes buf" "bf_size (nw_buf_shift buf) = bf_size buf"
    "bf_rpos (nw_buf_shift buf) = 0"
proof -
  note le = buf_le [OF ok]
  have d: "unat (bf_wpos buf - bf_rpos buf) = unat (bf_wpos buf) - unat (bf_rpos buf)"
    using ok by (simp add: buf_ok_def word_le_nat_alt unat_sub)
  show "buf_ok (nw_buf_shift buf)"
    using ok le d by (auto simp: buf_ok_def nw_buf_shift_def Let_def word_le_nat_alt)
  show "buf_bytes (nw_buf_shift buf) = buf_bytes buf"
    using ok le d by (auto simp: buf_bytes_def nw_buf_shift_def Let_def nw_buf_size_def buf_ok_def)
  show "bf_size (nw_buf_shift buf) = bf_size buf" "bf_rpos (nw_buf_shift buf) = 0"
    by (simp_all add: nw_buf_shift_def Let_def)
qed

section \<open>What a list holds\<close>

definition pool_ok :: "nw_buf_pool \<Rightarrow> bool" where
  "pool_ok pool \<longleftrightarrow> (\<forall>buf \<in> set (bp_free_arr pool). length (bf_data buf) = unat (bp_size pool))"

definition bufs_ok :: "nw_buf_pool \<times> nw_buf_list \<Rightarrow> bool" where
  "bufs_ok pl \<longleftrightarrow> pool_ok (fst pl) \<and> (\<forall>buf \<in> set (bl_bufs (snd pl)). buf_ok buf \<and> bf_size buf = bp_size (fst pl))"

definition list_bytes :: "nw_buf_list \<Rightarrow> byte list" where
  "list_bytes list = concat (map buf_bytes (bl_bufs list))"

lemma alloc_ok: assumes "pool_ok pool" "nw_buf_alloc pool = (buf, pool')"
  shows "buf_ok buf" "bf_size buf = bp_size pool" "buf_bytes buf = []" "pool_ok pool'" "bp_size pool' = bp_size pool"
    "nw_buf_avail buf = unat (bp_size pool)"
  using assms by (auto simp: nw_buf_alloc_def pool_ok_def buf_ok_def buf_bytes_def nw_buf_size_def nw_buf_avail_def split: list.splits)

lemma free_ok: "pool_ok pool \<Longrightarrow> length (bf_data buf) = unat (bp_size pool) \<Longrightarrow> pool_ok (nw_buf_free pool buf)"
  by (auto simp: nw_buf_free_def pool_ok_def)

lemma free_size [simp]: "bp_size (nw_buf_free pool buf) = bp_size pool"
  by (simp add: nw_buf_free_def)

lemma written_part: assumes "xs @ data = ys @ rest" "length rest \<le> length data"
  shows "ys = xs @ take (length data - length rest) data"
proof -
  have len: "length ys = length xs + (length data - length rest)" using arg_cong [OF assms(1), of length] assms(2) by simp
  have "ys = take (length ys) (xs @ data)" using assms(1) by simp
  then show ?thesis by (simp add: len)
qed

lemma write_bufs_ok: assumes size: "bp_size (fst pl) \<noteq> 0" and ok: "bufs_ok pl"
  shows "\<exists>rest pl'. write_bufs left pl = Some (rest, pl') \<and> bufs_ok pl' \<and> bp_size (fst pl') = bp_size (fst pl)
    \<and> bl_limit (snd pl') = bl_limit (snd pl) \<and> list_bytes (snd pl) @ left = list_bytes (snd pl') @ rest \<and> length rest \<le> length left
    \<and> (bl_limit (snd pl) = 0 \<longrightarrow> rest = []) \<and> (bl_bufs (snd pl) \<noteq> [] \<longrightarrow> bl_bufs (snd pl') \<noteq> []) \<and> (left \<noteq> [] \<and> rest = [] \<longrightarrow> bl_bufs (snd pl') \<noteq> [])"
  using assms
proof (induction "length left" arbitrary: left pl rule: less_induct)
  case less
  show ?case
  proof (cases "left = [] \<or> list_full (snd pl)")
    case True
    then have "write_bufs left pl = Some (left, pl)" by (subst write_bufs.simps) auto
    with True show ?thesis using less.prems(2) by (intro exI [of _ left] exI [of _ pl]) (auto simp: list_full_def)
  next
    case False
    obtain pool list where pl: "pl = (pool, list)" by fastforce
    obtain buf pool' where a: "nw_buf_alloc pool = (buf, pool')" by fastforce
    obtain ret buf' where w: "nw_buf_write buf left = (ret, buf')" by fastforce
    have pok: "pool_ok pool" using less.prems(2) by (simp add: pl bufs_ok_def)
    note alloc = alloc_ok [OF pok a] and wr = write_ok [OF alloc_ok(1) [OF pok a] w]
    have ret: "0 < ret" "ret \<le> length left"
      using wr(4) alloc(6) False less.prems(1) by (auto simp: pl unat_gt_0 min_def)
    let ?pl = "(pool', list\<lparr>bl_bufs := bl_bufs list @ [buf']\<rparr>)"
    have step: "write_bufs left (pool, list) = write_bufs (drop ret left) ?pl"
      using False a w by (subst write_bufs.simps) (simp add: pl)
    have ok': "bufs_ok ?pl" using less.prems(2) alloc wr by (auto simp: bufs_ok_def pl)
    have size': "bp_size (fst ?pl) \<noteq> 0" using less.prems(1) alloc(5) by (simp add: pl)
    have shorter: "length (drop ret left) < length left" using ret False by simp
    have bytes: "list_bytes list @ left = list_bytes (snd ?pl) @ drop ret left"
      using wr(2) alloc(3) by (simp add: list_bytes_def pl)
    obtain rest pl' where IH: "write_bufs (drop ret left) ?pl = Some (rest, pl')" "bufs_ok pl'" "bp_size (fst pl') = bp_size (fst ?pl)"
      "bl_limit (snd pl') = bl_limit (snd ?pl)" "list_bytes (snd ?pl) @ drop ret left = list_bytes (snd pl') @ rest"
      "length rest \<le> length (drop ret left)" "bl_limit (snd ?pl) = 0 \<longrightarrow> rest = []" "bl_bufs (snd pl') \<noteq> []"
      using less.hyps [OF shorter size' ok'] by auto
    then show ?thesis
      using alloc(5) by (intro exI [of _ rest] exI [of _ pl']) (auto simp: step bytes pl)
  qed
qed

lemma list_write_ok: assumes size: "bp_size (fst pl) \<noteq> 0" and ok: "bufs_ok pl"
  shows "\<exists>ret pl'. nw_buf_list_write pl data = Some (ret, pl') \<and> bufs_ok pl' \<and> bp_size (fst pl') = bp_size (fst pl)
    \<and> bl_limit (snd pl') = bl_limit (snd pl) \<and> list_bytes (snd pl') = list_bytes (snd pl) @ take ret data \<and> ret \<le> length data
    \<and> (bl_limit (snd pl) = 0 \<longrightarrow> ret = length data)
    \<and> (bl_bufs (snd pl) \<noteq> [] \<or> data \<noteq> [] \<and> ret = length data \<longrightarrow> bl_bufs (snd pl') \<noteq> [])"
proof (cases "bl_bufs (snd pl) \<noteq> [] \<and> nw_buf_avail (last (bl_bufs (snd pl))) \<noteq> 0")
  case False
  obtain rest pl' where w: "write_bufs data pl = Some (rest, pl')" "bufs_ok pl'" "bp_size (fst pl') = bp_size (fst pl)"
      "bl_limit (snd pl') = bl_limit (snd pl)" "list_bytes (snd pl) @ data = list_bytes (snd pl') @ rest" "length rest \<le> length data"
      "bl_limit (snd pl) = 0 \<longrightarrow> rest = []" "bl_bufs (snd pl) \<noteq> [] \<longrightarrow> bl_bufs (snd pl') \<noteq> []" "data \<noteq> [] \<and> rest = [] \<longrightarrow> bl_bufs (snd pl') \<noteq> []"
    using write_bufs_ok [OF assms, of data] by (elim exE conjE) (rule that)
  note written_part [OF w(5,6)]
  moreover have "nw_buf_list_write pl data = Some (length data - length rest, pl')" using False w(1) by (auto simp: nw_buf_list_write_def Let_def)
  ultimately show ?thesis using w(2-9) by (intro exI [of _ "length data - length rest"] exI [of _ pl']) auto
next
  case True
  obtain pool list where pl: "pl = (pool, list)" by fastforce
  let ?bufs = "bl_bufs list"
  have lok: "buf_ok (last ?bufs)" "bf_size (last ?bufs) = bp_size pool" using ok True by (simp_all add: bufs_ok_def pl)
  obtain n buf where wr: "nw_buf_write (last ?bufs) data = (n, buf)" by fastforce
  note wok = write_ok [OF lok(1) wr]
  let ?pl = "(pool, list\<lparr>bl_bufs := butlast ?bufs @ [buf]\<rparr>)"
  have ok': "bufs_ok ?pl" using ok wok lok(2) by (auto simp: bufs_ok_def pl dest: in_set_butlastD)
  have "concat (map buf_bytes (butlast ?bufs @ [last ?bufs])) = list_bytes list" using True by (simp add: list_bytes_def pl)
  then have "list_bytes list = concat (map buf_bytes (butlast ?bufs)) @ buf_bytes (last ?bufs)" by simp
  then have bytes: "list_bytes (snd ?pl) @ drop n data = list_bytes list @ data" using wok(2) by (simp add: list_bytes_def)
  obtain rest pl' where w: "write_bufs (drop n data) ?pl = Some (rest, pl')" "bufs_ok pl'" "bp_size (fst pl') = bp_size (fst ?pl)"
      "bl_limit (snd pl') = bl_limit (snd ?pl)" "list_bytes (snd ?pl) @ drop n data = list_bytes (snd pl') @ rest" "length rest \<le> length (drop n data)"
      "bl_limit (snd ?pl) = 0 \<longrightarrow> rest = []" "bl_bufs (snd pl') \<noteq> []"
    using write_bufs_ok [OF _ ok', of "drop n data"] size by (auto simp: pl)
  have all: "list_bytes list @ data = list_bytes (snd pl') @ rest" and len: "length rest \<le> length data" using w(5,6) bytes by simp_all
  have "nw_buf_list_write pl data = Some (length data - length rest, pl')" using True w(1) wr by (simp add: nw_buf_list_write_def Let_def pl)
  with w written_part [OF all len] len show ?thesis
    by (intro exI [of _ "length data - length rest"] exI [of _ pl']) (auto simp: pl)
qed

lemma list_shift_ok: "bufs_ok pl \<Longrightarrow> bufs_ok (nw_buf_list_shift pl)"
  "bp_size (fst (nw_buf_list_shift pl)) = bp_size (fst pl)" "bl_limit (snd (nw_buf_list_shift pl)) = bl_limit (snd pl)"
  "bl_bufs (snd (nw_buf_list_shift pl)) = tl (bl_bufs (snd pl))"
  by (auto simp: nw_buf_list_shift_def bufs_ok_def buf_ok_def split: list.splits intro!: free_ok) fastforce+

end
