(* ===== verification/Net_Ses.thy ===== *)
theory Net_Ses
  imports Net_Buf
begin

text \<open>
  \<open>network/nw_ses.c\<close>: a connection with its read buffer and its list of write buffers. What the kernel answers to
  \<open>read\<close>, \<open>recvmsg\<close>, \<open>write\<close> and \<open>sendmsg\<close> is a list in the state, taken from the front; when it is used up the answer is
  \<open>EAGAIN\<close>. What the kernel has accepted is recorded. \<open>EWOULDBLOCK\<close> is \<open>EAGAIN\<close>. Watching for events (libev) is the field
  \<open>ss_watch\<close>. Connecting, accepting and datagrams are not modelled. The code returns counts of bytes as \<open>int\<close>, here they are
  numbers without a bound: the two agree for packets of less than \<open>2 ^ 31\<close> bytes.
\<close>

section \<open>State\<close>

datatype sock_type = SOCK_STREAM | SOCK_SEQPACKET

datatype errno = EINTR | EAGAIN | EOTHER

text \<open>Bytes that are there to be read, a descriptor that was passed, or a failure; no bytes at all: the end of the stream.\<close>

datatype io_read = ReadData "byte list" | ReadFd int | ReadFail errno

text \<open>How many bytes are taken, or a failure.\<close>

datatype io_write = WriteData nat | WriteFail errno

datatype watch = WatchNone | WatchRead | WatchReadWrite

record 'p nw_ses =
  ss_sockfd :: int
  ss_sock_type :: sock_type
  ss_id :: u64
  ss_read_buf :: "nw_buf option"
  ss_bufs :: "nw_buf_pool \<times> nw_buf_list"
  ss_watch :: watch
  ss_errno :: errno
  ss_reads :: "io_read list"
  ss_writes :: "io_write list"
  ss_sent :: "byte list list"
  ss_privdata :: 'p

text \<open>The callbacks of a session.\<close>

record 'p ses_type =
  st_decode_pkg :: "byte list \<Rightarrow> int"
  st_on_recv_pkg :: "byte list \<Rightarrow> 'p nw_ses \<Rightarrow> 'p nw_ses"
  st_on_recv_fd :: "int \<Rightarrow> 'p nw_ses \<Rightarrow> 'p nw_ses"
  st_on_error :: "'p nw_ses \<Rightarrow> 'p nw_ses"
  st_on_close :: "'p nw_ses \<Rightarrow> 'p nw_ses"

section \<open>Writing\<close>

text \<open>\<open>nw_write_stream\<close>: how much was written. A \<open>write\<close> that takes nothing ends the loop and leaves \<open>errno\<close> as it was.\<close>

fun write_stream :: "io_write list \<Rightarrow> byte list \<Rightarrow> 'p nw_ses \<Rightarrow> nat \<times> 'p nw_ses" where
  "write_stream ws [] s = (0, s\<lparr>ss_writes := ws\<rparr>)"
| "write_stream [] data s = (0, s\<lparr>ss_writes := [], ss_errno := EAGAIN\<rparr>)"
| "write_stream (WriteData n # ws) data s =
     (let ret = min n (length data) in
      if ret > 0 then
        let (spos, s) = write_stream ws (drop ret data) (s\<lparr>ss_sent := ss_sent s @ [take ret data]\<rparr>) in (ret + spos, s)
      else (0, s\<lparr>ss_writes := ws\<rparr>))"
| "write_stream (WriteFail e # ws) data s =
     (if e = EINTR then write_stream ws data (s\<lparr>ss_errno := EINTR\<rparr>) else (0, s\<lparr>ss_writes := ws, ss_errno := e\<rparr>))"

definition nw_write_stream :: "byte list \<Rightarrow> 'p nw_ses \<Rightarrow> nat \<times> 'p nw_ses" where
  "nw_write_stream data s = write_stream (ss_writes s) data s"

text \<open>\<open>nw_write_packet\<close>: a packet is taken as a whole; -1 when it is not.\<close>

fun write_packet :: "io_write list \<Rightarrow> byte list \<Rightarrow> 'p nw_ses \<Rightarrow> int \<times> 'p nw_ses" where
  "write_packet [] data s = (- 1, s\<lparr>ss_writes := [], ss_errno := EAGAIN\<rparr>)"
| "write_packet (WriteData n # ws) data s = (int (length data), s\<lparr>ss_writes := ws, ss_sent := ss_sent s @ [data]\<rparr>)"
| "write_packet (WriteFail e # ws) data s =
     (if e = EINTR then write_packet ws data (s\<lparr>ss_errno := EINTR\<rparr>) else (- 1, s\<lparr>ss_writes := ws, ss_errno := e\<rparr>))"

definition nw_write_packet :: "byte list \<Rightarrow> 'p nw_ses \<Rightarrow> int \<times> 'p nw_ses" where
  "nw_write_packet data s = write_packet (ss_writes s) data s"

text \<open>What a session has left to write.\<close>

abbreviation write_bufs_of :: "'p nw_ses \<Rightarrow> nw_buf list" where
  "write_bufs_of s \<equiv> bl_bufs (snd (ss_bufs s))"

lemma write_stream_frame [simp]:
  "ss_bufs (snd (write_stream ws data s)) = ss_bufs s" "ss_sockfd (snd (write_stream ws data s)) = ss_sockfd s"
  "ss_sock_type (snd (write_stream ws data s)) = ss_sock_type s"
  by (induction ws data s rule: write_stream.induct) (auto simp: Let_def split: prod.split)

lemma write_packet_frame [simp]:
  "ss_bufs (snd (write_packet ws data s)) = ss_bufs s" "ss_sockfd (snd (write_packet ws data s)) = ss_sockfd s"
  "ss_sock_type (snd (write_packet ws data s)) = ss_sock_type s"
  by (induction ws data s rule: write_packet.induct) auto

text \<open>The two calls as \<open>on_can_write\<close> makes them; the result is an \<open>int\<close>.\<close>

definition write_buf :: "byte list \<Rightarrow> 'p nw_ses \<Rightarrow> int \<times> 'p nw_ses" where
  "write_buf data s =
     (if ss_sock_type s = SOCK_STREAM then (let (n, s) = nw_write_stream data s in (int n, s)) else nw_write_packet data s)"

lemma write_buf_frame [simp]: "ss_bufs (snd (write_buf data s)) = ss_bufs s" "ss_sockfd (snd (write_buf data s)) = ss_sockfd s"
  "ss_sock_type (snd (write_buf data s)) = ss_sock_type s"
  by (simp_all add: write_buf_def nw_write_stream_def nw_write_packet_def split_beta)

text \<open>
  The loop of \<open>on_can_write\<close>. The comparison \<open>nwrite < size\<close> is one of unsigned numbers. \<open>True\<close>: the function
  returned after \<open>on_error\<close>.
\<close>

function can_write_loop :: "'p ses_type \<Rightarrow> 'p nw_ses \<Rightarrow> bool \<times> 'p nw_ses" where
  "can_write_loop T s =
     (case write_bufs_of s of
        [] \<Rightarrow> (False, s)
      | buf # bufs \<Rightarrow>
          let size = nw_buf_size buf;
              (nwrite, s) = write_buf (buf_bytes buf) s in
          if uint (word_of_int nwrite :: u64) < int size then
            if ss_errno s = EAGAIN then
              if ss_sock_type s = SOCK_STREAM then
                (False, s\<lparr>ss_bufs := (fst (ss_bufs s), (snd (ss_bufs s))\<lparr>bl_bufs := buf\<lparr>bf_rpos := bf_rpos buf + word_of_int nwrite\<rparr> # bufs\<rparr>)\<rparr>)
              else (False, s)
            else (True, st_on_error T s)
          else can_write_loop T (s\<lparr>ss_bufs := nw_buf_list_shift (ss_bufs s)\<rparr>))"
  by pat_completeness auto

termination
proof (relation "measure (\<lambda>(T, s). length (write_bufs_of s))")
  fix T :: "'p ses_type" and s s' :: "'p nw_ses" and buf bufs size nwrite p
  assume bufs: "write_bufs_of s = buf # bufs" and p: "p = write_buf (buf_bytes buf) s" "(nwrite, s') = p"
  have "s' = snd (write_buf (buf_bytes buf) s)" using p by (metis snd_conv)
  then have same: "ss_bufs s' = ss_bufs s" by simp
  show "((T, s'\<lparr>ss_bufs := nw_buf_list_shift (ss_bufs s')\<rparr>), T, s) \<in> measure (\<lambda>(T, s). length (write_bufs_of s))"
    unfolding in_measure using bufs by (simp add: same nw_buf_list_shift_def)
qed simp

declare can_write_loop.simps [simp del]

definition on_can_write :: "'p ses_type \<Rightarrow> 'p nw_ses \<Rightarrow> 'p nw_ses" where
  "on_can_write T s =
     (if ss_sockfd s < 0 then s
      else
        let (returned, s) = can_write_loop T s in
        if \<not> returned \<and> write_bufs_of s = [] then s\<lparr>ss_watch := WatchRead\<rparr> else s)"

text \<open>\<open>None\<close>: the call does not come back (buffers of size 0).\<close>

definition send_rest :: "'p ses_type \<Rightarrow> byte list \<Rightarrow> 'p nw_ses \<Rightarrow> (int \<times> 'p nw_ses) option" where
  "send_rest T rest s =
     (case nw_buf_list_write (ss_bufs s) rest of
        None \<Rightarrow> None
      | Some (n, bufs) \<Rightarrow>
          let s = s\<lparr>ss_bufs := bufs\<rparr> in
          if n \<noteq> length rest then Some (- 1, st_on_error T s) else Some (0, s\<lparr>ss_watch := WatchReadWrite\<rparr>))"

definition nw_ses_send :: "'p ses_type \<Rightarrow> byte list \<Rightarrow> 'p nw_ses \<Rightarrow> (int \<times> 'p nw_ses) option" where
  "nw_ses_send T data s =
     (if ss_sockfd s < 0 then Some (- 1, s)
      else if write_bufs_of s \<noteq> [] then
        (case (if ss_sock_type s = SOCK_STREAM then nw_buf_list_write (ss_bufs s) data else Some (nw_buf_list_append (ss_bufs s) data)) of
           None \<Rightarrow> None
         | Some (nwrite, bufs) \<Rightarrow>
             let s = s\<lparr>ss_bufs := bufs\<rparr> in
             if nwrite \<noteq> length data then Some (- 1, st_on_error T s) else Some (0, s))
      else if ss_sock_type s = SOCK_STREAM then
        let (nwrite, s) = nw_write_stream data s in
        if nwrite < length data then
          if ss_errno s = EAGAIN then send_rest T (drop nwrite data) s else Some (- 1, st_on_error T s)
        else Some (0, s)
      else
        let (ret, s) = nw_write_packet data s in
        if ret < 0 then
          if ss_errno s = EAGAIN then
            let (n, bufs) = nw_buf_list_append (ss_bufs s) data;
                s = s\<lparr>ss_bufs := bufs\<rparr> in
            if n \<noteq> length data then Some (- 1, st_on_error T s) else Some (0, s\<lparr>ss_watch := WatchReadWrite\<rparr>)
          else Some (- 1, st_on_error T s)
        else Some (0, s))"

section \<open>Reading\<close>

text \<open>
  The inner loop of \<open>on_can_read\<close>: packets are taken from the read buffer as long as there is a whole one. The
  packet is the bytes the decoder has measured. \<open>True\<close>: the function returned.
\<close>

partial_function (option) decode_loop :: "'p ses_type \<Rightarrow> 'p nw_ses \<Rightarrow> (bool \<times> 'p nw_ses) option" where
  "decode_loop T s =
     (case ss_read_buf s of
        None \<Rightarrow> Some (True, s)
      | Some buf \<Rightarrow>
          if nw_buf_size buf = 0 then Some (False, s)
          else
            let ret = st_decode_pkg T (buf_bytes buf) in
            if ret < 0 then Some (True, st_on_error T s)
            else if ret > 0 then
              let s = st_on_recv_pkg T (take (nat ret) (buf_bytes buf)) s in
              (case ss_read_buf s of
                 None \<Rightarrow> Some (True, s)
               | Some buf \<Rightarrow> decode_loop T (s\<lparr>ss_read_buf := Some (buf\<lparr>bf_rpos := bf_rpos buf + word_of_int ret\<rparr>)\<rparr>))
            else
              let buf = nw_buf_shift buf;
                  s = s\<lparr>ss_read_buf := Some buf\<rparr> in
              if bf_wpos buf = bf_size buf then Some (True, st_on_error T s) else Some (False, s))"

text \<open>A read buffer with nothing in it goes back to the pool.\<close>

definition release_read_buf :: "'p nw_ses \<Rightarrow> 'p nw_ses" where
  "release_read_buf s =
     (case ss_read_buf s of
        None \<Rightarrow> s
      | Some buf \<Rightarrow> s\<lparr>ss_bufs := (nw_buf_free (fst (ss_bufs s)) buf, snd (ss_bufs s)), ss_read_buf := None\<rparr>)"

text \<open>
  The outer loop for streams. A \<open>read\<close> takes as many of the bytes that are there as fit into the buffer; the rest stays
  there. A result of 0 is the end of the stream.
\<close>

partial_function (option) read_stream :: "'p ses_type \<Rightarrow> 'p nw_ses \<Rightarrow> 'p nw_ses option" where
  "read_stream T s =
     (case ss_read_buf s of
        None \<Rightarrow> Some s
      | Some buf \<Rightarrow>
          (case ss_reads s of
             [] \<Rightarrow> Some (if nw_buf_size buf = 0 then release_read_buf s else s)
           | ReadFd fd # rs \<Rightarrow> read_stream T (s\<lparr>ss_reads := rs\<rparr>)
           | ReadFail e # rs \<Rightarrow>
               let s = s\<lparr>ss_reads := rs\<rparr> in
               if e = EINTR then read_stream T s
               else if e = EAGAIN then Some (if nw_buf_size buf = 0 then release_read_buf s else s)
               else Some (st_on_error T s)
           | ReadData bs # rs \<Rightarrow>
               let got = take (nw_buf_avail buf) bs;
                   rest = drop (nw_buf_avail buf) bs;
                   s = s\<lparr>ss_reads := (if rest = [] then rs else ReadData rest # rs)\<rparr> in
               if got = [] then Some (st_on_close T s)
               else
                 (case decode_loop T (s\<lparr>ss_read_buf := Some (buf_copy buf got)\<rparr>) of
                    None \<Rightarrow> None
                  | Some (returned, s) \<Rightarrow>
                      if returned then Some s
                      else read_stream T (s\<lparr>ss_read_buf := map_option nw_buf_shift (ss_read_buf s)\<rparr>))))"

text \<open>The loop for packets: each one is in the buffer alone; a passed descriptor has a callback of its own.\<close>

fun read_packets :: "'p ses_type \<Rightarrow> io_read list \<Rightarrow> 'p nw_ses \<Rightarrow> 'p nw_ses" where
  "read_packets T [] s = release_read_buf (s\<lparr>ss_reads := []\<rparr>)"
| "read_packets T (ReadFd fd # rs) s = read_packets T rs (st_on_recv_fd T fd s)"
| "read_packets T (ReadFail e # rs) s =
     (if e = EINTR then read_packets T rs s
      else if e = EAGAIN then release_read_buf (s\<lparr>ss_reads := rs\<rparr>)
      else st_on_error T (s\<lparr>ss_reads := rs\<rparr>))"
| "read_packets T (ReadData bs # rs) s =
     (case ss_read_buf s of
        None \<Rightarrow> s\<lparr>ss_reads := ReadData bs # rs\<rparr>
      | Some buf \<Rightarrow>
          let got = take (unat (bf_size buf)) bs in
          if got = [] then st_on_close T (s\<lparr>ss_reads := rs\<rparr>)
          else
            let ret = st_decode_pkg T got in
            if ret < 0 then st_on_error T (s\<lparr>ss_reads := rs\<rparr>)
            else
              let s = st_on_recv_pkg T (take (nat ret) got) s in
              if ss_read_buf s = None then s\<lparr>ss_reads := rs\<rparr> else read_packets T rs s)"

definition on_can_read :: "'p ses_type \<Rightarrow> 'p nw_ses \<Rightarrow> 'p nw_ses option" where
  "on_can_read T s =
     (if ss_sockfd s < 0 then Some s
      else
        let s = (case ss_read_buf s of
                   Some _ \<Rightarrow> s
                 | None \<Rightarrow>
                     let (buf, pool) = nw_buf_alloc (fst (ss_bufs s)) in
                     s\<lparr>ss_read_buf := Some buf, ss_bufs := (pool, snd (ss_bufs s))\<rparr>) in
        if ss_sock_type s = SOCK_STREAM then read_stream T s else Some (read_packets T (ss_reads s) s))"

section \<open>Closing\<close>

definition nw_ses_init :: "nw_buf_pool \<Rightarrow> u32 \<Rightarrow> sock_type \<Rightarrow> int \<Rightarrow> u64 \<Rightarrow> 'p \<Rightarrow> 'p nw_ses" where
  "nw_ses_init pool buf_limit t sockfd i privdata =
     \<lparr> ss_sockfd = sockfd, ss_sock_type = t, ss_id = i, ss_read_buf = None, ss_bufs = (pool, nw_buf_list_create buf_limit),
       ss_watch = WatchRead, ss_errno = EINTR, ss_reads = [], ss_writes = [], ss_sent = [], ss_privdata = privdata \<rparr>"

fun shift_all :: "nat \<Rightarrow> nw_buf_pool \<times> nw_buf_list \<Rightarrow> nw_buf_pool \<times> nw_buf_list" where
  "shift_all 0 pl = pl"
| "shift_all (Suc n) pl = shift_all n (nw_buf_list_shift pl)"

definition nw_ses_close :: "'p nw_ses \<Rightarrow> 'p nw_ses" where
  "nw_ses_close s =
     (let s = s\<lparr>ss_watch := WatchNone, ss_id := 0, ss_sockfd := (if ss_sockfd s \<ge> 0 then - 1 else ss_sockfd s)\<rparr>;
          s = release_read_buf s in
      s\<lparr>ss_bufs := shift_all (length (write_bufs_of s)) (ss_bufs s)\<rparr>)"

text \<open>
  The callbacks that \<open>nw_svr.c\<close> gives its connections: a packet goes to the handler of the server, here a function on the
  private data; an error and the end of the stream close the connection, a descriptor is closed.
\<close>

definition server_type :: "(byte list \<Rightarrow> int) \<Rightarrow> (byte list \<Rightarrow> 'p \<Rightarrow> 'p) \<Rightarrow> 'p ses_type" where
  "server_type decode handler =
     \<lparr> st_decode_pkg = decode, st_on_recv_pkg = (\<lambda>pkg s. s\<lparr>ss_privdata := handler pkg (ss_privdata s)\<rparr>),
       st_on_recv_fd = (\<lambda>fd s. s), st_on_error = nw_ses_close, st_on_close = nw_ses_close \<rparr>"

end
