(* ===== verification/Net_Write_Facts.thy ===== *)
theory Net_Write_Facts
  imports Net_Ses "HOL-Library.Sublist"
begin

text \<open>
  The writing side of a stream connection: what the kernel has taken, followed by what waits in the write buffers, is
  what was sent, in order; a connection that has failed stays a prefix of that.
\<close>

section \<open>The view of a connection\<close>

definition wire :: "'p nw_ses \<Rightarrow> byte list" where
  "wire s = concat (ss_sent s)"

definition unwritten :: "'p nw_ses \<Rightarrow> byte list" where
  "unwritten s = list_bytes (snd (ss_bufs s))"

definition ses_ok :: "'p nw_ses \<Rightarrow> bool" where
  "ses_ok s \<longleftrightarrow> bufs_ok (ss_bufs s) \<and> bp_size (fst (ss_bufs s)) \<noteq> 0 \<and> ss_sock_type s = SOCK_STREAM \<and> ss_sockfd s \<ge> 0"

text \<open>\<open>on_error\<close> of clients and servers ends in \<open>nw_ses_close\<close>: the descriptor is gone, what was written stays written.\<close>

locale closing =
  fixes T :: "'p ses_type"
  assumes error_closes: "ss_sockfd s \<ge> 0 \<Longrightarrow> ss_sockfd (st_on_error T s) < 0"
    and error_sent: "ss_sent (st_on_error T s) = ss_sent s"

definition live :: "byte list \<Rightarrow> 'p nw_ses \<Rightarrow> bool" where
  "live W s \<longleftrightarrow> ses_ok s \<and> wire s @ unwritten s = W"

definition dead :: "byte list \<Rightarrow> 'p nw_ses \<Rightarrow> bool" where
  "dead W s \<longleftrightarrow> ss_sockfd s < 0 \<and> prefix (wire s) W"

lemma wire_updates [simp]: "wire (s\<lparr>ss_bufs := b\<rparr>) = wire s" "wire (s\<lparr>ss_watch := w\<rparr>) = wire s" "wire (s\<lparr>ss_writes := ws\<rparr>) = wire s"
  "wire (s\<lparr>ss_errno := e\<rparr>) = wire s" "wire (s\<lparr>ss_sent := x\<rparr>) = concat x"
  "unwritten (s\<lparr>ss_watch := w\<rparr>) = unwritten s" "unwritten (s\<lparr>ss_writes := ws\<rparr>) = unwritten s" "unwritten (s\<lparr>ss_bufs := b\<rparr>) = list_bytes (snd b)"
  by (simp_all add: wire_def unwritten_def)

lemma ses_ok_updates [simp]: "ses_ok (s\<lparr>ss_watch := w\<rparr>) = ses_ok s" "ses_ok (s\<lparr>ss_writes := ws\<rparr>) = ses_ok s"
  by (simp_all add: ses_ok_def)

lemma live_updates [simp]: "live W (s\<lparr>ss_watch := w\<rparr>) = live W s" "live W (s\<lparr>ss_writes := ws\<rparr>) = live W s"
  by (simp_all add: live_def)

section \<open>Writing to the kernel\<close>

lemma write_stream_wire:
  "wire (snd (write_stream ws data s)) = wire s @ take (fst (write_stream ws data s)) data
    \<and> fst (write_stream ws data s) \<le> length data"
proof (induction ws data s rule: write_stream.induct)
  case (3 n ws d data s)
  let ?data = "d # data" and ?ret = "min n (length (d # data))"
  show ?case
  proof (cases "?ret > 0")
    case True
    let ?s = "s\<lparr>ss_sent := ss_sent s @ [take ?ret ?data]\<rparr>"
    obtain k r where r: "write_stream ws (drop ?ret ?data) ?s = (k, r)" by fastforce
    have "wire r = wire ?s @ take k (drop ?ret ?data)" and k: "k \<le> length (drop ?ret ?data)"
      using 3 [OF refl True] unfolding r by simp_all
    then have "wire r = wire s @ take (?ret + k) ?data" by (simp add: take_add wire_def)
    moreover have "?ret + k \<le> length ?data" using k unfolding length_drop by arith
    moreover have "write_stream (WriteData n # ws) ?data s = (?ret + k, r)"
      unfolding write_stream.simps Let_def r using True by (simp only: if_True prod.case)
    ultimately show ?thesis by (simp only: fst_conv snd_conv)
  next
    case False
    then show ?thesis by (simp add: Let_def)
  qed
qed (simp_all add: wire_def)

lemma nw_write_stream_ok: assumes "nw_write_stream data s = (n, t)"
  shows "wire t = wire s @ take n data" "n \<le> length data" "ss_bufs t = ss_bufs s" "ss_sockfd t = ss_sockfd s" "ss_sock_type t = ss_sock_type s"
  using assms write_stream_wire [of "ss_writes s" data s] write_stream_frame [of "ss_writes s" data s]
  by (simp_all add: nw_write_stream_def)

section \<open>Sending\<close>

lemma buf_advance: assumes ok: "buf_ok buf" and n: "n \<le> nw_buf_size buf"
  shows "buf_ok (buf\<lparr>bf_rpos := bf_rpos buf + of_nat n\<rparr>)" "buf_bytes (buf\<lparr>bf_rpos := bf_rpos buf + of_nat n\<rparr>) = drop n (buf_bytes buf)"
    "bf_size (buf\<lparr>bf_rpos := bf_rpos buf + of_nat n\<rparr>) = bf_size buf"
proof -
  note le = buf_le [OF ok]
  have "unat (bf_wpos buf) < 2 ^ 32" using unsigned_less [of "bf_wpos buf", where ?'a = nat] by simp
  then have r: "unat (bf_rpos buf + of_nat n) = unat (bf_rpos buf) + n"
    using le n by (simp add: unat_word_ariths unat_of_nat)
  show ok': "buf_ok (buf\<lparr>bf_rpos := bf_rpos buf + of_nat n\<rparr>)" using ok le n r by (simp add: buf_ok_def word_le_nat_alt)
  show "buf_bytes (buf\<lparr>bf_rpos := bf_rpos buf + of_nat n\<rparr>) = drop n (buf_bytes buf)"
    using buf_le(3) [OF ok'] le n r by (simp add: buf_bytes_def drop_take add.commute)
qed simp

context closing begin

lemma error_dead: "ses_ok s \<Longrightarrow> prefix (wire s) W \<Longrightarrow> dead W (st_on_error T s)"
  by (simp add: dead_def error_closes wire_def error_sent ses_ok_def)

lemma live_prefix: "live W s \<Longrightarrow> prefix (wire s) (W @ data)"
  by (metis append.assoc live_def prefixI)

text \<open>One turn of the writing loop.\<close>

lemma can_write_loop_ok: "live W s \<Longrightarrow> (fst (can_write_loop T s) \<and> dead W (snd (can_write_loop T s)))
    \<or> (\<not> fst (can_write_loop T s) \<and> live W (snd (can_write_loop T s)))"
proof (induction "length (write_bufs_of s)" arbitrary: s rule: less_induct)
  case less
  note live = less.prems
  show ?case
  proof (cases "write_bufs_of s")
      case Nil
      with live show ?thesis by (subst (1 2 3 4) can_write_loop.simps) simp
    next
      case (Cons buf bufs)
      obtain n t where w: "nw_write_stream (buf_bytes buf) s = (n, t)" by fastforce
      note wok = nw_write_stream_ok [OF w]
      have buf: "buf_ok buf" "bf_size buf = bp_size (fst (ss_bufs s))" using live Cons by (auto simp: live_def ses_ok_def bufs_ok_def)
      have n: "n \<le> nw_buf_size buf" using wok(2) buf by simp
      have wb: "write_buf (buf_bytes buf) s = (int n, t)" using live w by (simp add: write_buf_def live_def ses_ok_def)
      have small: "nw_buf_size buf < 2 ^ 32" using unsigned_less [of "bf_wpos buf - bf_rpos buf", where ?'a = nat] by (simp add: nw_buf_size_def)
      then have u: "uint (word_of_int (int n) :: u64) = int n" using n by (simp add: unsigned_of_nat take_bit_nat_eq_self)
      have tok: "ses_ok t" using live wok by (simp add: live_def ses_ok_def)
      have W: "W = wire s @ buf_bytes buf @ concat (map buf_bytes bufs)" using live Cons by (simp add: live_def unwritten_def list_bytes_def)
      show ?thesis
      proof (cases "n < nw_buf_size buf")
        case True
        show ?thesis
        proof (cases "ss_errno t = EAGAIN")
          case True
          let ?t = "t\<lparr>ss_bufs := (fst (ss_bufs t), (snd (ss_bufs t))\<lparr>bl_bufs := buf\<lparr>bf_rpos := bf_rpos buf + of_nat n\<rparr> # bufs\<rparr>)\<rparr>"
          have "can_write_loop T s = (False, ?t)"
            using Cons wb u \<open>n < nw_buf_size buf\<close> True tok by (subst can_write_loop.simps) (simp add: ses_ok_def)
          moreover have "ses_ok ?t"
            using tok buf buf_advance [OF buf(1) n] Cons wok(3) by (auto simp: ses_ok_def bufs_ok_def)
          moreover have "wire ?t @ unwritten ?t = W"
            using wok(1) W buf_advance(2) [OF buf(1) n] by (simp add: list_bytes_def)
          ultimately show ?thesis by (simp add: live_def)
        next
          case False
          have "can_write_loop T s = (True, st_on_error T t)"
            using Cons wb u \<open>n < nw_buf_size buf\<close> False by (subst can_write_loop.simps) simp
          moreover have "prefix (wire t) W" using wok(1) W by (metis append.assoc append_take_drop_id prefixI)
          ultimately show ?thesis using error_dead [OF tok] by simp
        qed
      next
        case False
        let ?t = "t\<lparr>ss_bufs := nw_buf_list_shift (ss_bufs t)\<rparr>"
        have eq: "can_write_loop T s = can_write_loop T ?t"
          using Cons wb u False by (subst can_write_loop.simps) simp
        have all: "wire t = wire s @ buf_bytes buf" using False n wok(1) buf by simp
        have "live W ?t"
          using tok wok Cons W all list_shift_ok [of "ss_bufs t"] by (simp add: live_def ses_ok_def list_bytes_def)
        moreover have "length (write_bufs_of ?t) < length (write_bufs_of s)" using Cons wok list_shift_ok(4) [of "ss_bufs t"] by simp
        ultimately show ?thesis unfolding eq by (rule less.hyps [rotated])
      qed
  qed
qed

lemma on_can_write_ok: "live W s \<Longrightarrow> live W (on_can_write T s) \<or> dead W (on_can_write T s)"
  using can_write_loop_ok [of W s] by (auto simp: on_can_write_def Let_def split_beta live_def ses_ok_def)

text \<open>What is sent is queued, written, or the connection fails.\<close>

lemma queue_ok: assumes "live W s" "nw_buf_list_write (ss_bufs s) data = Some (n, bufs)"
  shows "n \<le> length data" "ses_ok (s\<lparr>ss_bufs := bufs\<rparr>)" "list_bytes (snd bufs) = unwritten s @ take n data"
  using assms list_write_ok [of "ss_bufs s" data] by (auto simp: live_def ses_ok_def unwritten_def)

lemma queue_returns: assumes "live W s"
  obtains n bufs where "nw_buf_list_write (ss_bufs s) data = Some (n, bufs)"
  using assms list_write_ok [of "ss_bufs s" data] that by (auto simp: live_def ses_ok_def)

lemma send_ok: assumes live: "live W s"
  shows "\<exists>ret t. nw_ses_send T data s = Some (ret, t) \<and> (live (W @ data) t \<or> dead (W @ data) t)"
proof (cases "write_bufs_of s = []")
  case False
  obtain n bufs where q: "nw_buf_list_write (ss_bufs s) data = Some (n, bufs)" using queue_returns [OF live] .
  note qok = queue_ok [OF live q]
  let ?s = "s\<lparr>ss_bufs := bufs\<rparr>"
  have open': "\<not> ss_sockfd s < 0" "ss_sock_type s = SOCK_STREAM" using live by (simp_all add: live_def ses_ok_def)
  show ?thesis
  proof (cases "n = length data")
    case True
    then have "live (W @ data) ?s" using qok live by (auto simp: live_def)
    then show ?thesis using False q open' True by (simp add: nw_ses_send_def)
  next
    case False
    have "dead (W @ data) (st_on_error T ?s)"
      using qok live_prefix [OF live] by (intro error_dead) simp_all
    then show ?thesis using \<open>write_bufs_of s \<noteq> []\<close> q open' False by (simp add: nw_ses_send_def)
  qed
next
  case True
  obtain n t where w: "nw_write_stream data s = (n, t)" by fastforce
  note wok = nw_write_stream_ok [OF w]
  have open': "\<not> ss_sockfd s < 0" "ss_sock_type s = SOCK_STREAM" using live by (simp_all add: live_def ses_ok_def)
  have W: "W = wire s" using live True by (simp add: live_def unwritten_def list_bytes_def)
  have tok: "ses_ok t" "unwritten t = []" using live wok True by (simp_all add: live_def ses_ok_def unwritten_def list_bytes_def)
  have part: "wire t = W @ take n data" using wok W by simp
  have pre: "prefix (wire t) (W @ data)" unfolding part by (simp add: take_is_prefix)
  show ?thesis
  proof (cases "n < length data")
    case False
    then have "live (W @ data) t" using part tok by (simp add: live_def)
    then show ?thesis using True w open' False by (simp add: nw_ses_send_def)
  next
    case less: True
    show ?thesis
    proof (cases "ss_errno t = EAGAIN")
      case False
      then show ?thesis using True w open' less error_dead [OF tok(1) pre] by (simp add: nw_ses_send_def)
    next
      case again: True
      have lt: "live (wire t) t" using tok by (simp add: live_def)
      obtain k bufs where q: "nw_buf_list_write (ss_bufs t) (drop n data) = Some (k, bufs)" using queue_returns [OF lt] .
      note qok = queue_ok [OF lt q]
      show ?thesis
      proof (cases "k = length (drop n data)")
        case True
        then have "live (W @ data) (t\<lparr>ss_bufs := bufs\<rparr>)" using qok part tok by (simp add: live_def)
        then show ?thesis using \<open>write_bufs_of s = []\<close> w open' less again q True by (simp add: nw_ses_send_def send_rest_def Let_def)
      next
        case False
        have "dead (W @ data) (st_on_error T (t\<lparr>ss_bufs := bufs\<rparr>))" using qok pre by (intro error_dead) simp_all
        then show ?thesis using \<open>write_bufs_of s = []\<close> w open' less again q False by (simp add: nw_ses_send_def send_rest_def Let_def)
      qed
    qed
  qed
qed

end

section \<open>Runs\<close>

text \<open>Data to send, or room in the kernel; each time with what the kernel answers.\<close>

datatype write_event = Send "byte list" "io_write list" | CanWrite "io_write list"

fun write_run :: "'p ses_type \<Rightarrow> write_event list \<Rightarrow> 'p nw_ses \<Rightarrow> 'p nw_ses option" where
  "write_run T [] s = Some s"
| "write_run T (Send data ws # es) s =
     (case nw_ses_send T data (s\<lparr>ss_writes := ws\<rparr>) of None \<Rightarrow> None | Some (_, s) \<Rightarrow> write_run T es s)"
| "write_run T (CanWrite ws # es) s = write_run T es (on_can_write T (s\<lparr>ss_writes := ws\<rparr>))"

fun given :: "write_event list \<Rightarrow> byte list" where
  "given [] = []"
| "given (Send data ws # es) = data @ given es"
| "given (CanWrite ws # es) = given es"

context closing begin

lemma dead_run: "dead W s \<Longrightarrow> \<exists>t. write_run T es s = Some t \<and> dead (W @ given es) t"
proof (induction es arbitrary: W s)
  case (Cons e es)
  have d: "dead W (s\<lparr>ss_writes := ws\<rparr>)" for ws using Cons.prems by (simp add: dead_def)
  show ?case
  proof (cases e)
    case (Send data ws)
    have "dead (W @ data) (s\<lparr>ss_writes := ws\<rparr>)" using d [of ws] by (auto simp: dead_def prefix_def)
    from Cons.IH [OF this] show ?thesis using d [of ws] by (simp add: Send nw_ses_send_def dead_def)
  next
    case (CanWrite ws)
    from Cons.IH [OF d [of ws]] show ?thesis using d [of ws] by (simp add: CanWrite on_can_write_def dead_def)
  qed
qed auto

lemma write_run_ok: "live W s \<Longrightarrow> \<exists>t. write_run T es s = Some t \<and> (live (W @ given es) t \<or> dead (W @ given es) t)"
proof (induction es arbitrary: W s)
  case (Cons e es)
  show ?case
  proof (cases e)
    case (Send data ws)
    have "live W (s\<lparr>ss_writes := ws\<rparr>)" using Cons.prems by simp
    from send_ok [OF this, of data] obtain ret t where t: "nw_ses_send T data (s\<lparr>ss_writes := ws\<rparr>) = Some (ret, t)"
      "live (W @ data) t \<or> dead (W @ data) t" by blast
    from t(2) show ?thesis
      using Cons.IH [of "W @ data" t] dead_run [of "W @ data" t es] by (auto simp: Send t(1))
  next
    case (CanWrite ws)
    have "live W (s\<lparr>ss_writes := ws\<rparr>)" using Cons.prems by simp
    from on_can_write_ok [OF this] show ?thesis
      using Cons.IH [of W "on_can_write T (s\<lparr>ss_writes := ws\<rparr>)"] dead_run [of W "on_can_write T (s\<lparr>ss_writes := ws\<rparr>)" es]
      by (auto simp: CanWrite)
  qed
qed auto

end

end
