(* ===== verification/Net_Read_Facts.thy ===== *)
theory Net_Read_Facts
  imports Net_Write_Facts
begin

text \<open>
  The reading side of a stream connection: however the kernel cuts the stream into reads, the packets handed to
  \<open>on_recv_pkg\<close> are those of the whole stream.
\<close>

section \<open>Packets of a stream\<close>

text \<open>The whole packets at the front of some bytes, and what is left.\<close>

function frames_of :: "(byte list \<Rightarrow> int) \<Rightarrow> byte list \<Rightarrow> byte list list \<times> byte list" where
  "frames_of decode bs =
     (if bs = [] \<or> decode bs \<le> 0 then ([], bs)
      else
        let (fs, rest) = frames_of decode (drop (nat (decode bs)) bs) in (take (nat (decode bs)) bs # fs, rest))"
  by pat_completeness auto

termination
  by (relation "measure (\<lambda>(decode, bs). length bs)") auto

declare frames_of.simps [simp del]

lemma frames_none [simp]: "bs = [] \<or> decode bs \<le> 0 \<Longrightarrow> frames_of decode bs = ([], bs)"
  by (subst frames_of.simps) simp

text \<open>
  What a decoder of a stream has to satisfy: a packet is no longer than what is there, and what it says of some bytes it
  also says when more follow. It waits only for the end of its head or of the packet.
\<close>

locale framing =
  fixes decode :: "byte list \<Rightarrow> int" and head :: nat
  assumes fits: "0 < decode d \<Longrightarrow> decode d \<le> int (length d)"
    and stable: "decode d \<noteq> 0 \<Longrightarrow> decode (d @ e) = decode d"
    and waits: "decode d = 0 \<Longrightarrow> 0 < decode (d @ e) \<Longrightarrow> length d < head \<or> int (length d) < decode (d @ e)"
begin

lemma frames_step: "0 < decode bs \<Longrightarrow> bs \<noteq> [] \<Longrightarrow> frames_of decode bs =
    (take (nat (decode bs)) bs # fst (frames_of decode (drop (nat (decode bs)) bs)), snd (frames_of decode (drop (nat (decode bs)) bs)))"
  by (subst frames_of.simps) (simp add: split_beta)

lemma frames_append: "frames_of decode (xs @ ys) =
    (fst (frames_of decode xs) @ fst (frames_of decode (snd (frames_of decode xs) @ ys)), snd (frames_of decode (snd (frames_of decode xs) @ ys)))"
proof (induction "length xs" arbitrary: xs rule: less_induct)
  case less
  show ?case
  proof (cases "xs = [] \<or> decode xs \<le> 0")
    case False
    let ?n = "nat (decode xs)"
    have n: "0 < ?n" "?n \<le> length xs" using False fits [of xs] by auto
    have same: "decode (xs @ ys) = decode xs" using stable [of xs ys] False by simp
    have "frames_of decode (drop ?n xs @ ys) = (fst (frames_of decode (drop ?n xs)) @ fst (frames_of decode (snd (frames_of decode (drop ?n xs)) @ ys)),
        snd (frames_of decode (snd (frames_of decode (drop ?n xs)) @ ys)))"
      using n False by (intro less.hyps) simp
    with n False same show ?thesis
      by (simp add: frames_step)
  qed simp
qed

lemma frames_concat: "concat (fst (frames_of decode bs)) @ snd (frames_of decode bs) = bs"
proof (induction "length bs" arbitrary: bs rule: less_induct)
  case less
  show ?case
  proof (cases "bs = [] \<or> decode bs \<le> 0")
    case False
    then have "length (drop (nat (decode bs)) bs) < length bs" using fits [of bs] by simp
    from less.hyps [OF this] False show ?thesis by (simp add: frames_step)
  qed simp
qed

lemma rest_frames [simp]: "frames_of decode (snd (frames_of decode bs)) = ([], snd (frames_of decode bs))"
proof (induction "length bs" arbitrary: bs rule: less_induct)
  case less
  show ?case
  proof (cases "bs = [] \<or> decode bs \<le> 0")
    case False
    then have "length (drop (nat (decode bs)) bs) < length bs" using fits [of bs] by simp
    from less.hyps [OF this] False show ?thesis by (simp add: frames_step)
  qed simp
qed

text \<open>Nothing in the stream is refused, and every packet, also the one that is not complete, has room in a buffer.\<close>

definition readable :: "nat \<Rightarrow> byte list \<Rightarrow> bool" where
  "readable n bs \<longleftrightarrow> head \<le> n \<and> (snd (frames_of decode bs) = [] \<or> \<not> decode (snd (frames_of decode bs)) < 0) \<and> length (snd (frames_of decode bs)) < n \<and> (\<forall>f \<in> set (fst (frames_of decode bs)). length f \<le> n)"

lemma rest_prefix: assumes r: "readable n (xs @ ys)" and none: "frames_of decode xs = ([], xs)" "xs \<noteq> []"
  shows "decode xs = 0" "length xs < n"
proof -
  have "xs = [] \<or> decode xs \<le> 0" using none by (metis frames_step linorder_not_le list.discI fst_conv)
  then have le: "decode xs \<le> 0" using none(2) by simp
  have "\<not> decode xs < 0"
  proof
    assume neg: "decode xs < 0"
    then have "decode (xs @ ys) = decode xs" using stable by simp
    then have "frames_of decode (xs @ ys) = ([], xs @ ys)" using neg by simp
    with r neg none(2) \<open>decode (xs @ ys) = decode xs\<close> show False by (simp add: readable_def)
  qed
  with le show zero: "decode xs = 0" by simp
  show "length xs < n"
  proof (cases "decode (xs @ ys) \<le> 0")
    case True
    then have "frames_of decode (xs @ ys) = ([], xs @ ys)" by simp
    with r show ?thesis by (simp add: readable_def)
  next
    case False
    let ?k = "nat (decode (xs @ ys))"
    have "take ?k (xs @ ys) \<in> set (fst (frames_of decode (xs @ ys)))" using False none(2) by (simp add: frames_step)
    then have k: "?k \<le> n" using r False fits [of "xs @ ys"] by (auto simp: readable_def)
    have "length xs < head \<or> length xs < ?k" using waits [OF zero, of ys] False by auto
    with k r show ?thesis by (auto simp: readable_def)
  qed
qed

end

section \<open>Reading\<close>

text \<open>What the kernel may say while a connection is up, and the bytes it delivers.\<close>

fun benign :: "io_read \<Rightarrow> bool" where
  "benign (ReadData bs) \<longleftrightarrow> bs \<noteq> []"
| "benign (ReadFail e) \<longleftrightarrow> e = EINTR"
| "benign (ReadFd fd) \<longleftrightarrow> False"

fun read_data :: "io_read list \<Rightarrow> byte list" where
  "read_data [] = []"
| "read_data (ReadData bs # rs) = bs @ read_data rs"
| "read_data (r # rs) = read_data rs"

text \<open>The buffer of a connection holds \<open>L\<close>, from its beginning on.\<close>

definition holds :: "nw_buf \<Rightarrow> nw_buf_pool \<Rightarrow> byte list \<Rightarrow> bool" where
  "holds buf pool L \<longleftrightarrow> buf_ok buf \<and> bf_size buf = bp_size pool \<and> bf_rpos buf = 0 \<and> buf_bytes buf = L"

lemma holds_avail: "holds buf pool L \<Longrightarrow> nw_buf_avail buf = unat (bp_size pool) - length L"
  using buf_le [of buf] by (auto simp: holds_def)

context framing begin

lemma readable_rest: "readable n (xs @ ys) \<Longrightarrow> readable n (snd (frames_of decode xs) @ ys)"
  by (auto simp: readable_def frames_append [of xs ys])

lemma readable_left: "readable n (xs @ ys) \<Longrightarrow> snd (frames_of decode xs) = [] \<or> (decode (snd (frames_of decode xs)) = 0 \<and> length (snd (frames_of decode xs)) < n)"
  using rest_prefix [OF readable_rest] by auto

text \<open>The inner loop takes the whole packets.\<close>

lemma decode_loop_ok: assumes "st_decode_pkg T = decode" "\<And>pkg s. st_on_recv_pkg T pkg s = s\<lparr>ss_privdata := handler pkg (ss_privdata s)\<rparr>"
  shows "ss_read_buf s = Some buf \<Longrightarrow> buf_ok buf \<Longrightarrow> snd (frames_of decode (buf_bytes buf)) = []
        \<or> (decode (snd (frames_of decode (buf_bytes buf))) = 0 \<and> length (snd (frames_of decode (buf_bytes buf))) < unat (bf_size buf)) \<Longrightarrow>
    \<exists>buf'. decode_loop T s = Some (False, s\<lparr>ss_read_buf := Some buf', ss_privdata := fold handler (fst (frames_of decode (buf_bytes buf))) (ss_privdata s)\<rparr>)
      \<and> buf_ok buf' \<and> bf_size buf' = bf_size buf \<and> buf_bytes buf' = snd (frames_of decode (buf_bytes buf))"
proof (induction "length (buf_bytes buf)" arbitrary: buf s rule: less_induct)
  case less
  note len = length_buf_bytes [OF less.prems(2)]
  show ?case
  proof (cases "decode (buf_bytes buf) \<le> 0 \<or> buf_bytes buf = []")
    case True
    then have none: "frames_of decode (buf_bytes buf) = ([], buf_bytes buf)" by auto
    show ?thesis
    proof (cases "nw_buf_size buf = 0")
      case True
      then show ?thesis using less.prems none by (subst decode_loop.simps) (auto intro!: exI [of _ buf])
    next
      case False
      then have zero: "decode (buf_bytes buf) = 0" "length (buf_bytes buf) < unat (bf_size buf)" using less.prems(3) none len by auto
      note sh = shift_ok [OF less.prems(2)]
      have "unat (bf_wpos (nw_buf_shift buf)) = length (buf_bytes buf)"
        using buf_le(3) [OF sh(1)] sh length_buf_bytes [OF sh(1)] by simp
      then have "bf_wpos (nw_buf_shift buf) \<noteq> bf_size (nw_buf_shift buf)" using zero(2) sh(3) by auto
      with less.prems(1) False zero(1) none sh assms(1) show ?thesis
        by (subst decode_loop.simps) (auto intro!: exI [of _ "nw_buf_shift buf"] simp: Let_def)
    qed
  next
    case False
    let ?k = "nat (decode (buf_bytes buf))" and ?B = "buf_bytes buf"
    have k: "0 < ?k" "?k \<le> nw_buf_size buf" using False fits [of ?B] len by auto
    let ?buf = "buf\<lparr>bf_rpos := bf_rpos buf + of_nat ?k\<rparr>"
    let ?s = "s\<lparr>ss_privdata := handler (take ?k ?B) (ss_privdata s), ss_read_buf := Some ?buf\<rparr>"
    have word: "(word_of_int (decode ?B) :: u32) = of_nat ?k" using False of_int_of_nat_eq [of ?k] by simp
    have nz: "(nw_buf_size buf = 0) = False" using False len by (metis length_0_conv)
    have neg: "(decode ?B < 0) = False" "(decode ?B > 0) = True" using False by auto
    have step: "decode_loop T s = decode_loop T ?s"
      by (subst decode_loop.simps, simp only: less.prems(1) option.case nz neg if_False if_True Let_def assms word nw_ses.simps)
        (simp add: less.prems(1))
    note adv = buf_advance [OF less.prems(2) k(2)]
    have fr: "frames_of decode ?B = (take ?k ?B # fst (frames_of decode (drop ?k ?B)), snd (frames_of decode (drop ?k ?B)))"
      using False by (intro frames_step) auto
    have "length (buf_bytes ?buf) < length ?B" using k len adv by simp
    from less.hyps [OF this _ adv(1), of ?s] less.prems(3) obtain buf' where
      "decode_loop T ?s = Some (False, ?s\<lparr>ss_read_buf := Some buf', ss_privdata := fold handler (fst (frames_of decode (drop ?k ?B))) (ss_privdata ?s)\<rparr>)"
      "buf_ok buf'" "bf_size buf' = bf_size buf" "buf_bytes buf' = snd (frames_of decode (drop ?k ?B))"
      using adv fr by auto
    then show ?thesis unfolding step fr by (intro exI [of _ buf']) simp
  qed
qed

text \<open>The outer loop: everything that is there is read.\<close>

lemma read_stream_ok: assumes T: "st_decode_pkg T = decode" "\<And>pkg s. st_on_recv_pkg T pkg s = s\<lparr>ss_privdata := handler pkg (ss_privdata s)\<rparr>"
  shows "ss_read_buf s = Some buf \<Longrightarrow> holds buf (fst (ss_bufs s)) L \<Longrightarrow> length L < unat (bp_size (fst (ss_bufs s)))
    \<Longrightarrow> frames_of decode L = ([], L) \<Longrightarrow> \<forall>r \<in> set (ss_reads s). benign r
    \<Longrightarrow> readable (unat (bp_size (fst (ss_bufs s)))) (L @ read_data (ss_reads s) @ later) \<Longrightarrow>
    \<exists>buf' t. read_stream T s = Some (if nw_buf_size buf' = 0 then release_read_buf t else t)
      \<and> t = s\<lparr>ss_read_buf := Some buf', ss_reads := [], ss_privdata := fold handler (fst (frames_of decode (L @ read_data (ss_reads s)))) (ss_privdata s)\<rparr>
      \<and> holds buf' (fst (ss_bufs s)) (snd (frames_of decode (L @ read_data (ss_reads s))))"
proof (induction "length (read_data (ss_reads s)) + length (ss_reads s)" arbitrary: s buf L rule: less_induct)
  case less
  note buf = less.prems(1,2)
  show ?case
  proof (cases "ss_reads s")
    case Nil
    then have "s\<lparr>ss_read_buf := Some buf, ss_reads := []\<rparr> = s" using buf(1) by (cases s) simp
    moreover have "read_stream T s = Some (if nw_buf_size buf = 0 then release_read_buf s else s)"
      using Nil buf(1) by (subst read_stream.simps) simp
    ultimately show ?thesis using less.prems(2,4) Nil by (intro exI [of _ buf] exI [of _ s]) simp
  next
    case (Cons r rs)
    show ?thesis
    proof (cases r)
      case (ReadFd fd)
      then show ?thesis using less.prems(5) Cons by simp
    next
      case (ReadFail e)
      let ?s = "s\<lparr>ss_reads := rs\<rparr>"
      have e: "e = EINTR" using less.prems(5) Cons ReadFail by simp
      have step: "read_stream T s = read_stream T ?s"
        using less.prems(1) Cons ReadFail e by (subst read_stream.simps) simp
      have "\<exists>buf' t. read_stream T ?s = Some (if nw_buf_size buf' = 0 then release_read_buf t else t)
        \<and> t = ?s\<lparr>ss_read_buf := Some buf', ss_reads := [], ss_privdata := fold handler (fst (frames_of decode (L @ read_data (ss_reads ?s)))) (ss_privdata ?s)\<rparr>
        \<and> holds buf' (fst (ss_bufs ?s)) (snd (frames_of decode (L @ read_data (ss_reads ?s))))"
        using less.prems Cons ReadFail by (intro less.hyps [of ?s buf L]) auto
      then show ?thesis unfolding step by (simp add: Cons ReadFail)
    next
      case (ReadData bs)
      define n where "n = unat (bp_size (fst (ss_bufs s)))"
      define got where "got = take (nw_buf_avail buf) bs"
      define reads where "reads = (if drop (nw_buf_avail buf) bs = [] then rs else ReadData (drop (nw_buf_avail buf) bs) # rs)"
      define priv where "priv = fold handler (fst (frames_of decode (L @ got))) (ss_privdata s)"
      define left where "left = snd (frames_of decode (L @ got))"
      have bs: "bs \<noteq> []" using less.prems(5) Cons ReadData by simp
      have "0 < nw_buf_avail buf" using holds_avail [OF buf(2)] less.prems(3) by simp
      with bs have got: "got \<noteq> []" by (simp add: got_def)
      have "length got \<le> nw_buf_avail buf" by (simp add: got_def)
      from copy_ok [OF _ this] buf(2) have copy: "buf_ok (buf_copy buf got)" "buf_bytes (buf_copy buf got) = L @ got"
        "bf_size (buf_copy buf got) = bp_size (fst (ss_bufs s))" by (simp_all add: holds_def)
      have bytes: "got @ read_data reads = read_data (ss_reads s)" and shorter: "length (read_data reads) + length reads < length (read_data (ss_reads s)) + length (ss_reads s)"
        using got append_take_drop_id [of "nw_buf_avail buf" bs] by (auto simp: got_def reads_def Cons ReadData)
      have rd: "readable n ((L @ got) @ read_data reads @ later)" using less.prems(6) by (simp add: n_def flip: bytes)
      have n: "0 < n" using less.prems(3) by (simp add: n_def)
      have whole: "left = [] \<or> decode left = 0 \<and> length left < n" using readable_left [OF rd] by (simp add: left_def)
      define s1 where "s1 = s\<lparr>ss_reads := reads, ss_read_buf := Some (buf_copy buf got)\<rparr>"
      have s1: "ss_read_buf s1 = Some (buf_copy buf got)" "ss_privdata s1 = ss_privdata s" by (simp_all add: s1_def)
      have "snd (frames_of decode (buf_bytes (buf_copy buf got))) = []
          \<or> decode (snd (frames_of decode (buf_bytes (buf_copy buf got)))) = 0
            \<and> length (snd (frames_of decode (buf_bytes (buf_copy buf got)))) < unat (bf_size (buf_copy buf got))"
        using whole by (simp add: copy left_def n_def)
      from decode_loop_ok [OF T s1(1) copy(1) this] obtain b where b: "decode_loop T s1 = Some (False, s1\<lparr>ss_read_buf := Some b, ss_privdata := priv\<rparr>)"
        "buf_ok b" "bf_size b = bp_size (fst (ss_bufs s))" "buf_bytes b = left"
        by (auto simp: copy s1 priv_def left_def)
      define s2 where "s2 = s\<lparr>ss_reads := reads, ss_privdata := priv, ss_read_buf := Some (nw_buf_shift b)\<rparr>"
      have s2: "ss_read_buf s2 = Some (nw_buf_shift b)" "ss_bufs s2 = ss_bufs s" "ss_reads s2 = reads" "ss_privdata s2 = priv" by (simp_all add: s2_def)
      have step: "read_stream T s = read_stream T s2"
        by (subst read_stream.simps, simp only: less.prems(1) Cons ReadData option.case list.case io_read.case Let_def flip: got_def reads_def)
          (use got b(1) in \<open>simp add: s1_def s2_def\<close>)
      have h: "holds (nw_buf_shift b) (fst (ss_bufs s2)) left" using b shift_ok [OF b(2)] by (simp add: holds_def s2)
      have good: "\<forall>r \<in> set (ss_reads s2). benign r" using less.prems(5) Cons by (simp add: s2 reads_def)
      have small: "length left < unat (bp_size (fst (ss_bufs s2)))" using whole n by (auto simp: s2 n_def)
      have stop: "frames_of decode left = ([], left)" unfolding left_def by (rule rest_frames)
      have rd': "readable (unat (bp_size (fst (ss_bufs s2)))) (left @ read_data (ss_reads s2) @ later)"
        using readable_rest [OF rd] by (simp add: left_def n_def s2)
      have less': "length (read_data (ss_reads s2)) + length (ss_reads s2) < length (read_data (ss_reads s)) + length (ss_reads s)"
        using shorter by (simp add: s2)
      from less.hyps [OF less' s2(1) h small stop good rd'] obtain b' t where t: "read_stream T s2 = Some (if nw_buf_size b' = 0 then release_read_buf t else t)"
        "t = s2\<lparr>ss_read_buf := Some b', ss_reads := [], ss_privdata := fold handler (fst (frames_of decode (left @ read_data reads))) priv\<rparr>"
        "holds b' (fst (ss_bufs s)) (snd (frames_of decode (left @ read_data reads)))"
        unfolding s2(2-4) by blast
      have fr: "frames_of decode (L @ read_data (ss_reads s))
          = (fst (frames_of decode (L @ got)) @ fst (frames_of decode (left @ read_data reads)), snd (frames_of decode (left @ read_data reads)))"
        using frames_append [of "L @ got" "read_data reads"] by (simp add: left_def flip: bytes)
      have "t = s\<lparr>ss_read_buf := Some b', ss_reads := [], ss_privdata := fold handler (fst (frames_of decode (L @ read_data (ss_reads s)))) (ss_privdata s)\<rparr>"
        by (simp add: t(2) s2_def fr priv_def)
      with t(1,3) step show ?thesis by (intro exI [of _ b'] exI [of _ t] conjI) (simp_all add: fr)
    qed
  qed
qed

end

section \<open>Events\<close>

text \<open>A connection between two events: the bytes \<open>L\<close> wait in its buffer.\<close>

definition at_rest :: "'p nw_ses \<Rightarrow> byte list \<Rightarrow> bool" where
  "at_rest s L \<longleftrightarrow> ss_sockfd s \<ge> 0 \<and> ss_sock_type s = SOCK_STREAM \<and> pool_ok (fst (ss_bufs s))
     \<and> length L < unat (bp_size (fst (ss_bufs s)))
     \<and> (case ss_read_buf s of None \<Rightarrow> L = [] | Some buf \<Rightarrow> holds buf (fst (ss_bufs s)) L)"

lemma release_at_rest: assumes "ss_read_buf s = Some buf" "holds buf (fst (ss_bufs s)) L" "at_rest s L"
  shows "at_rest (if nw_buf_size buf = 0 then release_read_buf s else s) L"
proof (cases "nw_buf_size buf = 0")
  case True
  with assms(2) have "L = []" using length_buf_bytes [of buf] by (simp add: holds_def)
  with True assms show ?thesis by (auto simp: at_rest_def release_read_buf_def holds_def buf_ok_def intro!: free_ok)
next
  case False
  with assms(3) show ?thesis by simp
qed

lemma release_frame [simp]: "ss_privdata (release_read_buf s) = ss_privdata s" "bp_size (fst (ss_bufs (release_read_buf s))) = bp_size (fst (ss_bufs s))"
  by (simp_all add: release_read_buf_def split: option.split)

text \<open>The answers of the kernel at one event after the other.\<close>

fun read_run :: "'p ses_type \<Rightarrow> io_read list list \<Rightarrow> 'p nw_ses \<Rightarrow> 'p nw_ses option" where
  "read_run T [] s = Some s"
| "read_run T (rs # es) s = (case on_can_read T (s\<lparr>ss_reads := rs\<rparr>) of None \<Rightarrow> None | Some s \<Rightarrow> read_run T es s)"

definition arrived :: "io_read list list \<Rightarrow> byte list" where
  "arrived es = concat (map read_data es)"

context framing begin

lemma on_can_read_ok: fixes s :: "'p nw_ses"
  assumes T: "st_decode_pkg T = decode" "\<And>pkg s. st_on_recv_pkg T pkg s = s\<lparr>ss_privdata := handler pkg (ss_privdata s)\<rparr>"
    and rest: "at_rest s L" "frames_of decode L = ([], L)" and good: "\<forall>r \<in> set (ss_reads s). benign r"
    and rd: "readable (unat (bp_size (fst (ss_bufs s)))) (L @ read_data (ss_reads s) @ later)"
  shows "\<exists>t. on_can_read T s = Some t \<and> at_rest t (snd (frames_of decode (L @ read_data (ss_reads s))))
    \<and> ss_privdata t = fold handler (fst (frames_of decode (L @ read_data (ss_reads s)))) (ss_privdata s)
    \<and> bp_size (fst (ss_bufs t)) = bp_size (fst (ss_bufs s))"
proof -
  obtain buf pool where b: "(case ss_read_buf s of Some _ \<Rightarrow> s | None \<Rightarrow>
        let (buf, pool) = nw_buf_alloc (fst (ss_bufs s)) in s\<lparr>ss_read_buf := Some buf, ss_bufs := (pool, snd (ss_bufs s))\<rparr>)
      = s\<lparr>ss_read_buf := Some buf, ss_bufs := (pool, snd (ss_bufs s))\<rparr>"
    "holds buf pool L" "pool_ok pool" "bp_size pool = bp_size (fst (ss_bufs s))"
  proof (cases "ss_read_buf s")
    case None
    obtain buf pool where a: "nw_buf_alloc (fst (ss_bufs s)) = (buf, pool)" by fastforce
    have "pool_ok (fst (ss_bufs s))" using rest(1) by (simp add: at_rest_def)
    note al = alloc_ok [OF this a]
    have "bf_rpos buf = 0" using a by (auto simp: nw_buf_alloc_def split: list.splits)
    with None rest(1) a al show ?thesis by (intro that [where buf = buf and pool = pool]) (auto simp: at_rest_def holds_def)
  next
    case (Some buf)
    then have "s\<lparr>ss_read_buf := Some buf, ss_bufs := (fst (ss_bufs s), snd (ss_bufs s))\<rparr> = s" by (cases s) simp
    with Some rest(1) show ?thesis by (intro that [where buf = buf and pool = "fst (ss_bufs s)"]) (simp_all add: at_rest_def)
  qed
  define s1 where "s1 = s\<lparr>ss_read_buf := Some buf, ss_bufs := (pool, snd (ss_bufs s))\<rparr>"
  have s1: "ss_read_buf s1 = Some buf" "fst (ss_bufs s1) = pool" "ss_reads s1 = ss_reads s" "ss_privdata s1 = ss_privdata s"
    "ss_sockfd s1 = ss_sockfd s" "ss_sock_type s1 = ss_sock_type s"
    by (simp_all add: s1_def)
  have open': "ss_sockfd s \<ge> 0" "ss_sock_type s = SOCK_STREAM" using rest(1) by (simp_all add: at_rest_def)
  have pre: "holds buf (fst (ss_bufs s1)) L" "length L < unat (bp_size (fst (ss_bufs s1)))" "\<forall>r \<in> set (ss_reads s1). benign r"
    "readable (unat (bp_size (fst (ss_bufs s1)))) (L @ read_data (ss_reads s1) @ later)"
    using b rest(1) good rd by (simp_all add: s1 at_rest_def)
  from read_stream_ok [OF T s1(1) pre(1,2) rest(2) pre(3,4)] obtain buf' t where
    t: "read_stream T s1 = Some (if nw_buf_size buf' = 0 then release_read_buf t else t)"
      "t = s1\<lparr>ss_read_buf := Some buf', ss_reads := [], ss_privdata := fold handler (fst (frames_of decode (L @ read_data (ss_reads s)))) (ss_privdata s)\<rparr>"
      "holds buf' pool (snd (frames_of decode (L @ read_data (ss_reads s))))"
    unfolding s1(2-4) by blast
  have eq: "on_can_read T s = read_stream T s1" using b(1) open' by (simp add: on_can_read_def s1_def Let_def)
  have "readable (unat (bp_size (fst (ss_bufs s)))) ((L @ read_data (ss_reads s)) @ later)" using rd by simp
  from readable_left [OF this] have "length (snd (frames_of decode (L @ read_data (ss_reads s)))) < unat (bp_size (fst (ss_bufs s)))"
    using rest(1) by (auto simp: at_rest_def)
  then have "at_rest t (snd (frames_of decode (L @ read_data (ss_reads s))))"
    using t(2,3) b(3,4) open' by (simp add: at_rest_def s1)
  from release_at_rest [OF _ _ this, of buf'] t(2,3) eq t(1) b(4) show ?thesis by (auto simp: s1)
qed

lemma read_run_ok: fixes s :: "'p nw_ses"
  assumes T: "st_decode_pkg T = decode" "\<And>pkg s. st_on_recv_pkg T pkg s = s\<lparr>ss_privdata := handler pkg (ss_privdata s)\<rparr>"
  shows "at_rest s L \<Longrightarrow> frames_of decode L = ([], L) \<Longrightarrow> \<forall>rs \<in> set es. \<forall>r \<in> set rs. benign r
    \<Longrightarrow> readable (unat (bp_size (fst (ss_bufs s)))) (L @ arrived es) \<Longrightarrow>
    \<exists>t. read_run T es s = Some t \<and> at_rest t (snd (frames_of decode (L @ arrived es)))
      \<and> ss_privdata t = fold handler (fst (frames_of decode (L @ arrived es))) (ss_privdata s)"
proof (induction es arbitrary: s L)
  case Nil
  then show ?case by (simp add: arrived_def)
next
  case (Cons rs es)
  let ?s = "s\<lparr>ss_reads := rs\<rparr>"
  have s: "at_rest ?s L" "\<forall>r \<in> set (ss_reads ?s). benign r"
    "readable (unat (bp_size (fst (ss_bufs ?s)))) (L @ read_data (ss_reads ?s) @ arrived es)"
    using Cons.prems by (auto simp: at_rest_def arrived_def split: option.splits)
  let ?L = "snd (frames_of decode (L @ read_data rs))"
  from on_can_read_ok [OF T s(1) Cons.prems(2) s(2,3)] obtain t where t: "on_can_read T ?s = Some t" "at_rest t ?L"
    "ss_privdata t = fold handler (fst (frames_of decode (L @ read_data rs))) (ss_privdata s)" "bp_size (fst (ss_bufs t)) = bp_size (fst (ss_bufs s))"
    by auto
  have "readable (unat (bp_size (fst (ss_bufs t)))) (?L @ arrived es)"
    using readable_rest [of _ "L @ read_data rs" "arrived es"] s(3) t(4) by simp
  with Cons.IH [OF t(2) rest_frames] Cons.prems(3) obtain u where u: "read_run T es t = Some u"
    "at_rest u (snd (frames_of decode (?L @ arrived es)))" "ss_privdata u = fold handler (fst (frames_of decode (?L @ arrived es))) (ss_privdata t)"
    by auto
  have "frames_of decode (L @ arrived (rs # es)) = (fst (frames_of decode (L @ read_data rs)) @ fst (frames_of decode (?L @ arrived es)),
      snd (frames_of decode (?L @ arrived es)))"
    using frames_append [of "L @ read_data rs" "arrived es"] by (simp add: arrived_def)
  with t u show ?case by simp
qed

section \<open>A stream of packets\<close>

text \<open>A part of a sequence of packets: the whole ones, and some bytes of the next.\<close>

lemma frames_packets: "\<forall>d \<in> set ds. d \<noteq> [] \<and> decode d = int (length d) \<Longrightarrow> prefix p (concat ds) \<Longrightarrow>
    \<exists>m rest. frames_of decode p = (take m ds, rest) \<and> (rest = [] \<or> decode rest = 0 \<and> (\<exists>d \<in> set ds. length rest < length d))
      \<and> (p = concat ds \<longrightarrow> take m ds = ds)"
proof (induction ds arbitrary: p)
  case Nil
  then show ?case by (auto intro!: exI [of _ 0])
next
  case (Cons d ds)
  have d: "d \<noteq> []" "decode d = int (length d)" using Cons.prems(1) by simp_all
  show ?case
  proof (cases "prefix d p")
    case True
    then obtain q where q: "p = d @ q" by (auto simp: prefix_def)
    then have "prefix q (concat ds)" using Cons.prems(2) by simp
    from Cons.IH [OF _ this] Cons.prems(1) obtain m rest where IH: "frames_of decode q = (take m ds, rest)"
      "rest = [] \<or> decode rest = 0 \<and> (\<exists>d \<in> set ds. length rest < length d)" "q = concat ds \<longrightarrow> take m ds = ds" by auto
    have "decode p = int (length d)" using stable [of d q] d by (simp add: q)
    then have "frames_of decode p = (take (Suc m) (d # ds), rest)" using d IH(1) by (subst frames_step) (simp_all add: q)
    with IH(2,3) q show ?thesis by (intro exI [of _ "Suc m"] exI [of _ rest]) auto
  next
    case False
    with Cons.prems(2) have p: "strict_prefix p d" by (metis concat.simps(2) prefix_append strict_prefix_def prefix_order.refl prefix_same_cases prefixI)
    then obtain e where e: "d = p @ e" "e \<noteq> []" by (auto simp: strict_prefix_def prefix_def)
    have "decode p = 0"
    proof (rule ccontr)
      assume "decode p \<noteq> 0"
      then have "decode p = int (length d)" using stable [of p e] d e by simp
      moreover from this d have "0 < decode p" by simp
      ultimately show False using fits [of p] e by simp
    qed
    moreover have "length p < length d" using e by simp
    moreover have "p \<noteq> concat (d # ds)" using p by (metis concat.simps(2) prefixI strict_prefix_def prefix_order.antisym)
    ultimately show ?thesis by (intro exI [of _ 0] exI [of _ p]) auto
  qed
qed

lemma packets_readable: assumes ds: "\<forall>d \<in> set ds. d \<noteq> [] \<and> decode d = int (length d) \<and> length d \<le> n" and p: "prefix p (concat ds)" and n: "head \<le> n" "0 < n"
  shows "readable n p"
proof -
  obtain m rest where m: "frames_of decode p = (take m ds, rest)" "rest = [] \<or> decode rest = 0 \<and> (\<exists>d \<in> set ds. length rest < length d)"
    using frames_packets [OF _ p] ds by auto
  from m(2) ds n have "rest = [] \<or> decode rest = 0" "length rest < n" by fastforce+
  moreover have "\<forall>f \<in> set (take m ds). length f \<le> n" using ds by (auto dest: in_set_takeD)
  ultimately show ?thesis using n(1) by (auto simp: readable_def m(1))
qed

end

end
