(* ===== verification/Net_Props.thy ===== *)
theory Net_Props
  imports Net_Read_Facts Rpc_Facts
begin

text \<open>The properties of connections: what is written, what is read, and packets from one end to the other.\<close>

section \<open>The interfaces\<close>

text \<open>A connection of a server is closed on every error.\<close>

lemma close_sent: "ss_sent (nw_ses_close s) = ss_sent s" "ss_sockfd (nw_ses_close s) < 0"
  by (auto simp: nw_ses_close_def release_read_buf_def Let_def split: option.split)

interpretation svr: closing "server_type decode handler" for decode :: "byte list \<Rightarrow> int" and handler :: "byte list \<Rightarrow> 'p \<Rightarrow> 'p"
  by unfold_locales (simp_all add: server_type_def close_sent)

text \<open>The decoder of the packet protocol, with its head of 36 bytes.\<close>

lemma head_append: "36 \<le> length d \<Longrightarrow> read_head (d @ e) = read_head d" "18 \<le> length d \<Longrightarrow> clear_crc (d @ e) = clear_crc d @ e"
  by (simp_all add: read_head_def clear_crc_def)

lemma length_clear_crc: "18 \<le> length d \<Longrightarrow> length (clear_crc d) = length d"
  by (simp add: clear_crc_def)

definition pkg_size_of :: "byte list \<Rightarrow> u32" where
  "pkg_size_of d = of_nat RPC_PKG_HEAD_SIZE + ucast (rp_ext_size (read_head d)) + rp_body_size (read_head d)"

lemma rpc_decode_size: "rpc_decode d =
    (if length d < 36 then 0 else if rp_magic (read_head d) \<noteq> RPC_PKG_MAGIC then - 1
     else if length d < unat (pkg_size_of d) then 0
     else if rp_crc32 (read_head d) \<noteq> generate_crc32c (take (unat (pkg_size_of d)) (clear_crc d)) then - 3 else sint (pkg_size_of d))"
  by (simp add: rpc_decode_def pkg_size_of_def RPC_PKG_HEAD_SIZE_def Let_def)

lemma sint_unat: "sint (w :: u32) \<le> int (unat w)" "0 < sint w \<Longrightarrow> n < unat w \<Longrightarrow> int n < sint w"
proof -
  have u: "0 \<le> uint w" "uint w < 2 ^ 32" using unsigned_less [of w, where ?'a = int] by simp_all
  then have "take_bit 32 (uint w) = uint w" by (intro take_bit_int_eq_self)
  then have "sint w = uint w - 2 ^ 32 * of_bool (bit (uint w) 31)"
    by (simp add: sint_uint signed_take_bit_eq_take_bit_minus)
  with u show "sint w \<le> int (unat w)" "0 < sint w \<Longrightarrow> n < unat w \<Longrightarrow> int n < sint w"
    using zless_nat_eq_int_zless [of n "uint w"] by (auto split: if_splits)
qed

interpretation rpc: framing rpc_decode 36
proof
  fix d e :: "byte list"
  have same: "pkg_size_of (d @ e) = pkg_size_of d" if "36 \<le> length d" using that by (simp add: pkg_size_of_def head_append)
  have size: "sint (pkg_size_of x) \<le> int (length x)" if "\<not> length x < unat (pkg_size_of x)" for x
    using sint_unat(1) [of "pkg_size_of x"] that by linarith
  show "0 < rpc_decode d \<Longrightarrow> rpc_decode d \<le> int (length d)"
    using size [of d] unfolding rpc_decode_size by (simp split: if_splits)
  show "rpc_decode d \<noteq> 0 \<Longrightarrow> rpc_decode (d @ e) = rpc_decode d"
    using same by (auto simp: rpc_decode_size head_append length_clear_crc split: if_splits)
  show "rpc_decode d = 0 \<Longrightarrow> 0 < rpc_decode (d @ e) \<Longrightarrow> length d < 36 \<or> int (length d) < rpc_decode (d @ e)"
    using same sint_unat(2) by (auto simp: rpc_decode_size head_append length_clear_crc split: if_splits)
qed


section \<open>Connections\<close>

lemma fresh_live: "wsize \<noteq> 0 \<Longrightarrow> fd \<ge> 0 \<Longrightarrow> live [] (nw_ses_init (nw_buf_pool_create wsize) limit SOCK_STREAM fd i p)"
  by (simp add: live_def ses_ok_def nw_ses_init_def nw_buf_pool_create_def nw_buf_list_create_def bufs_ok_def pool_ok_def wire_def unwritten_def list_bytes_def NW_BUF_POOL_INIT_SIZE_def)

lemma fresh_at_rest: "wsize \<noteq> 0 \<Longrightarrow> fd \<ge> 0 \<Longrightarrow> at_rest (nw_ses_init (nw_buf_pool_create wsize) limit SOCK_STREAM fd i p) []"
  by (simp add: at_rest_def nw_ses_init_def nw_buf_pool_create_def pool_ok_def unat_gt_0 NW_BUF_POOL_INIT_SIZE_def)

lemma live_or_dead: "live W t \<or> dead W t \<Longrightarrow> prefix (wire t) W \<and> (0 \<le> ss_sockfd t \<longrightarrow> wire t @ unwritten t = W)"
  by (auto simp: live_def dead_def)

lemma written: "wsize \<noteq> 0 \<Longrightarrow> fd \<ge> 0 \<Longrightarrow>
    \<exists>t. write_run (server_type decode handler) es (nw_ses_init (nw_buf_pool_create wsize) limit SOCK_STREAM fd i p) = Some t
      \<and> prefix (wire t) (given es) \<and> (0 \<le> ss_sockfd t \<longrightarrow> wire t @ unwritten t = given es)"
  using svr.write_run_ok [OF fresh_live] live_or_dead by (metis append_Nil)

text \<open>C14. The bytes that the kernel takes from a stream connection of a server are those that were given to \<open>nw_ses_send\<close>, in that
  order, none lost and none twice, however the kernel cuts the writes and whatever errors it reports: the calls return, and as long
  as the connection is open, what was taken and what waits in the write buffers make up everything that was given; a
  connection that was closed has sent a part from the beginning.\<close>

theorem stream_written_in_order:
  fixes handler :: "byte list \<Rightarrow> 'p \<Rightarrow> 'p"
  assumes "wsize \<noteq> 0" "0 \<le> fd"
  shows "\<exists>t. write_run (server_type decode handler) es (nw_ses_init (nw_buf_pool_create wsize) limit SOCK_STREAM fd i p) = Some t
    \<and> prefix (wire t) (given es) \<and> (0 \<le> ss_sockfd t \<longrightarrow> wire t @ unwritten t = given es)"
  using assms by (rule written)

theorem stream_written_in_order_witness:
  "\<exists>t. write_run (server_type (\<lambda>_. 0) (\<lambda>_ p. p)) [Send [1, 2, 3] [WriteData 1, WriteFail EAGAIN], CanWrite [WriteFail EINTR, WriteData 7]]
      (nw_ses_init (nw_buf_pool_create 4) 0 SOCK_STREAM 3 1 ()) = Some t
    \<and> prefix (wire t) [1, 2, 3] \<and> (0 \<le> ss_sockfd t \<longrightarrow> wire t @ unwritten t = [1, 2, 3])"
  using stream_written_in_order [of 4 3 "\<lambda>_. 0" "\<lambda>_ p. p" "[Send [1, 2, 3] [WriteData 1, WriteFail EAGAIN], CanWrite [WriteFail EINTR, WriteData 7]]" 0 1 "()"]
  by simp

text \<open>What a handler of packets has to see.\<close>

definition contents :: "rpc_pkg \<Rightarrow> u32 \<times> 16 word \<times> u32 \<times> u32 \<times> u64 \<times> byte list \<times> byte list" where
  "contents pkg = (rp_command pkg, rp_pkg_type pkg, rp_result pkg, rp_sequence pkg, rp_req_id pkg,
     take (unat (rp_ext_size pkg)) (rp_ext pkg), take (unat (rp_body_size pkg)) (rp_body pkg))"

definition sound :: "rpc_pkg \<Rightarrow> bool" where
  "sound pkg \<longleftrightarrow> length (rp_ext pkg) = unat (rp_ext_size pkg) \<and> length (rp_body pkg) = unat (rp_body_size pkg)"

definition on_packet :: "byte list \<Rightarrow> rpc_pkg list \<Rightarrow> rpc_pkg list" where
  "on_packet data pkgs = pkgs @ [recv_pkg data]"

lemma packed: assumes "rpc_pack pkg = Some data" "sound pkg"
  shows "rpc_decode data = int (length data)" "data \<noteq> []" "contents (recv_pkg data) = contents pkg"
  using rpc_decode_pack(1,3) [OF assms(1), where rest = "[]"] rpc_decode_pack(2) [OF assms(1)] assms(2) by (auto simp: sound_def contents_def RPC_PKG_HEAD_SIZE_def)

lemma all_packed: assumes "map rpc_pack pkgs = map Some ds" "\<forall>pkg \<in> set pkgs. sound pkg"
  shows "\<forall>d \<in> set ds. d \<noteq> [] \<and> rpc_decode d = int (length d)" "map (contents \<circ> recv_pkg) ds = map contents pkgs"
proof -
  have "list_all2 (\<lambda>pkg d. rpc_pack pkg = Some d) pkgs ds"
    using assms(1) by (simp add: list.rel_map flip: list.rel_eq)
  then show "\<forall>d \<in> set ds. d \<noteq> [] \<and> rpc_decode d = int (length d)" "map (contents \<circ> recv_pkg) ds = map contents pkgs"
    using assms(2) by (induction rule: list_all2_induct) (auto simp: packed)
qed

lemma fold_on_packet: "fold on_packet ds pkgs = pkgs @ map recv_pkg ds"
  by (induction ds arbitrary: pkgs) (simp_all add: on_packet_def)

text \<open>C13. Packets arrive: the packets that one end packs and sends are handed to the handler of the other end in the same
  order, each once and with the same contents. This holds for every way in which the kernel takes the bytes on the one side and
  delivers them on the other: cut anywhere, several packets in one read, interrupted calls. When only a part
  of the bytes has arrived, a part of the packets from the first on has; when all have, all have.\<close>

theorem packets_arrive:
  assumes "map rpc_pack pkgs = map Some ds" "\<forall>pkg \<in> set pkgs. sound pkg"
    and "\<forall>d \<in> set ds. length d \<le> unat rsize" "36 \<le> unat rsize" "0 < wsize" "0 \<le> fd" "0 \<le> fd'"
    and "given es = concat ds"
    and "write_run (server_type rpc_decode on_packet) es (nw_ses_init (nw_buf_pool_create wsize) limit SOCK_STREAM fd i []) = Some c"
    and "prefix (arrived rs) (wire c)" "\<forall>r \<in> set rs. \<forall>x \<in> set r. benign x"
  shows "\<exists>t m. read_run (server_type rpc_decode on_packet) rs (nw_ses_init (nw_buf_pool_create rsize) limit' SOCK_STREAM fd' j []) = Some t
    \<and> map contents (ss_privdata t) = take m (map contents pkgs) \<and> 0 \<le> ss_sockfd t
    \<and> (arrived rs = concat ds \<longrightarrow> map contents (ss_privdata t) = map contents pkgs)"
proof -
  let ?s = "nw_ses_init (nw_buf_pool_create rsize) limit' SOCK_STREAM fd' j ([] :: rpc_pkg list)"
  note ds = all_packed [OF assms(1,2)]
  have r0: "rsize \<noteq> 0" using assms(4) by auto
  have size: "unat (bp_size (fst (ss_bufs ?s))) = unat rsize" "ss_privdata ?s = []"
    by (simp_all add: nw_ses_init_def nw_buf_pool_create_def)
  have w0: "wsize \<noteq> 0" using assms(5) by simp
  from written [OF w0 assms(6), of rpc_decode on_packet es limit i "[]"] assms(8,9)
  have "prefix (wire c) (concat ds)" by simp
  with assms(10) have p: "prefix (arrived rs) (concat ds)" by (rule prefix_order.trans)
  have "\<forall>d \<in> set ds. d \<noteq> [] \<and> rpc_decode d = int (length d) \<and> length d \<le> unat rsize" using ds(1) assms(3) by blast
  from rpc.packets_readable [OF this p] have rd: "rpc.readable (unat rsize) (arrived rs)" using assms(4) by simp
  let ?T = "server_type rpc_decode on_packet"
  have T: "st_decode_pkg ?T = rpc_decode" "st_on_recv_pkg ?T pkg s = s\<lparr>ss_privdata := on_packet pkg (ss_privdata s)\<rparr>" for pkg s
    by (simp_all add: server_type_def)
  from rpc.read_run_ok [OF T fresh_at_rest [OF r0 assms(7)], of rs limit' j "[]"] obtain t where t: "read_run ?T rs ?s = Some t" "at_rest t (snd (frames_of rpc_decode (arrived rs)))"
    "ss_privdata t = fold on_packet (fst (frames_of rpc_decode (arrived rs))) []"
    using rd assms(11) size by auto
  obtain m rest where m: "frames_of rpc_decode (arrived rs) = (take m ds, rest)" "arrived rs = concat ds \<longrightarrow> take m ds = ds"
    using rpc.frames_packets [OF ds(1) p] by blast
  have "map contents (ss_privdata t) = take m (map contents pkgs)"
    using t(3) by (simp add: m fold_on_packet flip: ds(2)) (simp add: take_map)
  moreover have "arrived rs = concat ds \<longrightarrow> map contents (ss_privdata t) = map contents pkgs"
    using t(3) m by (auto simp: fold_on_packet simp flip: ds(2))
  ultimately show ?thesis using t(1,2) by (auto simp: at_rest_def)
qed


definition login_pkg :: rpc_pkg where
  "login_pkg = \<lparr> rp_magic = 0, rp_command = 201, rp_pkg_type = RPC_PKG_TYPE_REQUEST, rp_result = 0, rp_crc32 = 0,
     rp_sequence = 7, rp_req_id = 9, rp_body_size = 2, rp_ext_size = 1, rp_ext = [0x41], rp_body = [0x5B, 0x5D] \<rparr>"

theorem packets_arrive_witness:
  "\<exists>data t. rpc_pack login_pkg = Some data \<and> read_run (server_type rpc_decode on_packet)
      [[ReadData (take 20 data)], [ReadFail EINTR, ReadData (drop 20 data)]] (nw_ses_init (nw_buf_pool_create 100) 0 SOCK_STREAM 4 1 []) = Some t
    \<and> map contents (ss_privdata t) = [contents login_pkg]"
proof -
  obtain data where data: "rpc_pack login_pkg = Some data"
    by (simp add: rpc_pack_def login_pkg_def RPC_PKG_MAX_BODY_SIZE_def Let_def)
  then have len: "length data = 39" "sound login_pkg"
    using rpc_decode_pack(2) [OF data] by (simp_all add: login_pkg_def sound_def RPC_PKG_HEAD_SIZE_def)
  then obtain b bs where b: "data = b # bs" by (cases data) auto
  obtain c where c: "write_run (server_type rpc_decode on_packet) [Send data [WriteData 100]]
      (nw_ses_init (nw_buf_pool_create 100) 0 SOCK_STREAM 3 1 []) = Some c" "wire c = data"
    using len b by (simp add: nw_ses_send_def nw_ses_init_def nw_buf_list_create_def nw_write_stream_def Let_def wire_def)
  have "take 20 data \<noteq> []" "drop 20 data \<noteq> []" using len by auto
  then show ?thesis
    using packets_arrive [of "[login_pkg]" "[data]" 100 100 3 4 "[Send data [WriteData 100]]" 0 1 c
        "[[ReadData (take 20 data)], [ReadFail EINTR, ReadData (drop 20 data)]]" 0 1] data len c
    by (auto simp: arrived_def)
qed

text \<open>C36. On a connection of packets (\<open>SOCK_SEQPACKET\<close>) a full kernel loses data: \<open>on_can_write\<close> compares the result \<open>-1\<close> with the size
  as an unsigned number, takes the packet as written and drops it. When the kernel says \<open>EAGAIN\<close>, every packet that waits is
  dropped, and the connection goes on (a defect: nothing is reported).\<close>

theorem waiting_packets_dropped:
  assumes "ss_sock_type s = SOCK_SEQPACKET" "0 \<le> ss_sockfd s" "ss_writes s = []"
  shows "write_bufs_of (on_can_write T s) = [] \<and> ss_sent (on_can_write T s) = ss_sent s
    \<and> ss_sockfd (on_can_write T s) = ss_sockfd s \<and> ss_watch (on_can_write T s) = WatchRead"
proof -
  have "\<exists>t. can_write_loop T s = (False, t) \<and> write_bufs_of t = [] \<and> ss_sent t = ss_sent s \<and> ss_sockfd t = ss_sockfd s"
    using assms(1,3)
  proof (induction "length (write_bufs_of s)" arbitrary: s)
    case 0
    then show ?case by (subst can_write_loop.simps) simp
  next
    case (Suc n)
    then obtain buf bufs where bufs: "write_bufs_of s = buf # bufs" by (cases "write_bufs_of s") auto
    have wb: "write_buf (buf_bytes buf) s = (- 1, s\<lparr>ss_errno := EAGAIN\<rparr>)"
      using Suc.prems by (simp add: write_buf_def nw_write_packet_def)
    let ?s = "s\<lparr>ss_errno := EAGAIN, ss_bufs := nw_buf_list_shift (ss_bufs s)\<rparr>"
    have small: "nw_buf_size buf < 2 ^ 32" using unsigned_less [of "bf_wpos buf - bf_rpos buf", where ?'a = nat] by (simp add: nw_buf_size_def)
    have "uint (- 1 :: u64) = 2 ^ 64 - 1" by (simp add: unsigned_minus_1_eq_mask mask_eq_exp_minus_1)
    then have "can_write_loop T s = can_write_loop T ?s"
      using bufs wb small by (subst can_write_loop.simps) simp
    moreover have "n = length (write_bufs_of ?s)" using bufs Suc.hyps(2) by (simp add: nw_buf_list_shift_def)
    ultimately show ?case using Suc.hyps(1) [of ?s] Suc.prems by simp
  qed
  then show ?thesis using assms(2) by (auto simp: on_can_write_def)
qed


definition stuck_session :: "unit nw_ses" where
  "stuck_session = (nw_ses_init (nw_buf_pool_create 4) 0 SOCK_SEQPACKET 3 1 ())
     \<lparr>ss_bufs := (nw_buf_pool_create 4, \<lparr> bl_limit = 0, bl_bufs = [\<lparr> bf_size = 4, bf_rpos = 0, bf_wpos = 2, bf_data = [1, 2, 0, 0] \<rparr>] \<rparr>)\<rparr>"

theorem waiting_packets_dropped_witness:
  "unwritten stuck_session = [1, 2] \<and> unwritten (on_can_write (server_type (\<lambda>_. 0) (\<lambda>_ p. p)) stuck_session) = []
    \<and> wire (on_can_write (server_type (\<lambda>_. 0) (\<lambda>_ p. p)) stuck_session) = []"
proof -
  have w: "ss_sock_type stuck_session = SOCK_SEQPACKET" "0 \<le> ss_sockfd stuck_session" "ss_writes stuck_session = []" "ss_sent stuck_session = []" "unwritten stuck_session = [1, 2]"
    by (simp_all add: stuck_session_def nw_ses_init_def unwritten_def list_bytes_def buf_bytes_def nw_buf_size_def)
  from waiting_packets_dropped [OF w(1-3), of "server_type (\<lambda>_. 0) (\<lambda>_ p. p)"] w(4,5) show ?thesis
    by (simp add: unwritten_def list_bytes_def wire_def)
qed

end
