(* ===== verification/Rpc_Client.thy ===== *)
theory Rpc_Client
  imports Rpc_Facts
begin

text \<open>
  \<open>utils/ut_rpc_clt.c\<close>: the heartbeats of a client and the choice of the next address when a connection closes. Addresses
  are of any type. The field \<open>curr_index\<close> is not set by \<open>rpc_clt_create\<close>; what the new memory holds is a parameter.
\<close>

section \<open>State\<close>

definition RPC_CMD_HEARTBEAT :: u32 where "RPC_CMD_HEARTBEAT = 0"
definition RPC_HEARTBEAT_TYPE_TIMEOUT :: "16 word" where "RPC_HEARTBEAT_TYPE_TIMEOUT = 1"

record 'a rpc_clt =
  rc_addrs :: "'a list"
  rc_peer :: 'a
  rc_curr_index :: u32
  rc_last_heartbeat :: timestamp
  rc_heartbeat_timeout :: rat

definition clt_timeout :: "rat \<Rightarrow> rat" where
  "clt_timeout cfg =
     (if cfg > 0 then
        if cfg > RPC_HEARTBEAT_TIMEOUT_MAX then RPC_HEARTBEAT_TIMEOUT_MAX
        else if cfg < RPC_HEARTBEAT_TIMEOUT_MIN then RPC_HEARTBEAT_TIMEOUT_MIN
        else cfg
      else RPC_HEARTBEAT_TIMEOUT_DEFAULT)"

text \<open>\<open>None\<close>: no client, there are no addresses.\<close>

definition rpc_clt_create :: "u32 \<Rightarrow> 'a list \<Rightarrow> rat \<Rightarrow> 'a rpc_clt option" where
  "rpc_clt_create garbage addrs timeout =
     (case addrs of
        [] \<Rightarrow> None
      | addr # _ \<Rightarrow> Some \<lparr> rc_addrs = addrs, rc_peer = addr, rc_curr_index = garbage, rc_last_heartbeat = 0,
          rc_heartbeat_timeout = clt_timeout timeout \<rparr>)"

section \<open>Closing\<close>

text \<open>\<open>on_close\<close>: whether to connect at once. \<open>None\<close>: it reads behind the end of the addresses.\<close>

definition clt_on_close :: "'a rpc_clt \<Rightarrow> (bool \<times> 'a rpc_clt) option" where
  "clt_on_close clt =
     (if length (rc_addrs clt) = 1 then Some (False, clt)
      else
        let (nowait, index) = (if rc_curr_index clt = of_nat (length (rc_addrs clt)) then (False, 0) else (True, rc_curr_index clt)) in
        if unat index < length (rc_addrs clt)
        then Some (nowait, clt\<lparr>rc_peer := rc_addrs clt ! unat index, rc_curr_index := index + 1\<rparr>)
        else None)"

section \<open>Heartbeats\<close>

definition packed_to :: "(int \<times> pack_buf) option \<Rightarrow> pack_buf \<Rightarrow> pack_buf" where
  "packed_to r buf = (case r of None \<Rightarrow> buf | Some (_, buf) \<Rightarrow> buf)"

text \<open>\<open>(uint32_t)\<close> of a floating-point number.\<close>

definition heartbeat_pkg :: "rat \<Rightarrow> rpc_pkg" where
  "heartbeat_pkg timeout =
     (let timeout = word_of_int \<lfloor>timeout * 1000\<rfloor> :: u32;
          buf = ([], 100);
          buf = packed_to (pack_uint16_le RPC_HEARTBEAT_TYPE_TIMEOUT buf) buf;
          buf = packed_to (pack_uint16_le 4 buf) buf;
          buf = packed_to (pack_uint32_le timeout buf) buf in
      \<lparr> rp_magic = 0, rp_command = RPC_CMD_HEARTBEAT, rp_pkg_type = RPC_PKG_TYPE_REQUEST, rp_result = 0, rp_crc32 = 0,
        rp_sequence = 0, rp_req_id = 0, rp_body_size = of_nat (100 - snd buf), rp_ext_size = 0, rp_ext = [], rp_body = fst buf \<rparr>)"

datatype clt_act = ClientReconnect | ClientSend rpc_pkg

text \<open>\<open>on_timer\<close> of a client that is connected.\<close>

definition clt_on_timer :: "timestamp \<Rightarrow> 'a rpc_clt \<Rightarrow> clt_act" where
  "clt_on_timer now clt =
     (if now - rc_last_heartbeat clt > rc_heartbeat_timeout clt then ClientReconnect
      else ClientSend (heartbeat_pkg (rc_heartbeat_timeout clt)))"

text \<open>\<open>on_recv_pkg\<close>: the answer to a heartbeat, or a packet for the owner of the client.\<close>

definition clt_on_recv_pkg :: "timestamp \<Rightarrow> byte list \<Rightarrow> 'a rpc_clt \<Rightarrow> rpc_pkg option \<times> 'a rpc_clt" where
  "clt_on_recv_pkg now data clt =
     (let pkg = recv_pkg data in
      if rp_command pkg = RPC_CMD_HEARTBEAT then (None, clt\<lparr>rc_last_heartbeat := now\<rparr>) else (Some pkg, clt))"

section \<open>Properties\<close>

text \<open>One connection after the other is closed: where the client connects to, and whether at once.\<close>

fun closes :: "nat \<Rightarrow> 'a rpc_clt \<Rightarrow> (bool \<times> 'a) list option" where
  "closes 0 clt = Some []"
| "closes (Suc n) clt =
     (case clt_on_close clt of
        None \<Rightarrow> None
      | Some (nowait, clt) \<Rightarrow> map_option (\<lambda>xs. (nowait, rc_peer clt) # xs) (closes n clt))"

lemma unat_u32: "n < 2 ^ 32 \<Longrightarrow> unat (of_nat n :: u32) = n"
  by (simp add: unat_of_nat take_bit_nat_eq_self)

lemma on_close_ok: assumes "unat (rc_curr_index clt) = i" "i \<le> length (rc_addrs clt)" "2 \<le> length (rc_addrs clt)" "length (rc_addrs clt) < 2 ^ 32"
  shows "clt_on_close clt = Some (i \<noteq> length (rc_addrs clt),
    clt\<lparr>rc_peer := rc_addrs clt ! (i mod length (rc_addrs clt)), rc_curr_index := of_nat (i mod length (rc_addrs clt) + 1)\<rparr>)"
proof -
  have w: "rc_curr_index clt = of_nat i" "unat (of_nat i :: u32) = i" using assms unat_u32 [of i] by auto
  have "(of_nat i :: u32) = of_nat (length (rc_addrs clt)) \<longleftrightarrow> i = length (rc_addrs clt)"
    using assms(4) w(2) unat_u32 by metis
  moreover have "rc_addrs clt \<noteq> []" using assms(3) by auto
  ultimately show ?thesis using w assms by (simp add: clt_on_close_def add.commute)
qed

text \<open>The \<open>j\<close>-th closing from index \<open>i\<close> on.\<close>

definition next_address :: "nat \<Rightarrow> 'a list \<Rightarrow> nat \<Rightarrow> bool \<times> 'a" where
  "next_address i addrs j = ((i + j) mod length addrs \<noteq> 0 \<or> (i = 0 \<and> j = 0), addrs ! ((i + j) mod length addrs))"

lemma closes_ok: "unat (rc_curr_index clt) = i \<Longrightarrow> i \<le> length (rc_addrs clt) \<Longrightarrow> 2 \<le> length (rc_addrs clt) \<Longrightarrow> length (rc_addrs clt) < 2 ^ 32 \<Longrightarrow>
    closes k clt = Some (map (next_address i (rc_addrs clt)) [0..<k])"
proof (induction k arbitrary: clt i)
  case (Suc k)
  let ?n = "length (rc_addrs clt)"
  let ?clt = "clt\<lparr>rc_peer := rc_addrs clt ! (i mod ?n), rc_curr_index := of_nat (i mod ?n + 1)\<rparr>"
  have m: "i mod ?n + 1 \<le> ?n" using Suc.prems(3) by (metis Suc_eq_plus1 Suc_leI mod_less_divisor not_numeral_le_zero not_gr_zero)
  then have u: "unat (rc_curr_index ?clt) = i mod ?n + 1" using Suc.prems(4) unat_u32 [of "i mod ?n + 1"] by simp
  have tail: "next_address (Suc (i mod ?n)) (rc_addrs clt) j = next_address i (rc_addrs clt) (Suc j)" for j
    using mod_add_left_eq [of i ?n "Suc j"] by (simp add: next_address_def)
  have "closes k ?clt = Some (map (\<lambda>j. next_address i (rc_addrs clt) (Suc j)) [0..<k])"
    using Suc.IH [OF u] m Suc.prems by (simp add: tail)
  moreover have "(i \<noteq> ?n, rc_addrs clt ! (i mod ?n)) = next_address i (rc_addrs clt) 0"
    using Suc.prems(2,3) by (auto simp: next_address_def le_less)
  ultimately show ?case
    using on_close_ok [OF Suc.prems] by (simp add: map_upt_Suc del: upt_Suc)
qed simp

text \<open>C16. A client with several addresses takes them in turn: the \<open>j\<close>-th time the connection closes it goes to the address behind the
  last one, at once, and after the whole round it begins again with a pause. This needs the first index to be in range;
  \<open>rpc_clt_create\<close> never sets it, and with any other content of the new memory the first close reads behind the end of the
  addresses (a defect).\<close>

theorem addresses_in_turn:
  assumes "rpc_clt_create garbage addrs timeout = Some clt" "2 \<le> length addrs" "length addrs < 2 ^ 32"
  shows "closes k clt = (if unat garbage \<le> length addrs then Some (map (next_address (unat garbage) addrs) [0..<k])
    else if k = 0 then Some [] else None)"
proof -
  have clt: "rc_addrs clt = addrs" "rc_curr_index clt = garbage" using assms(1) by (auto simp: rpc_clt_create_def split: list.splits)
  show ?thesis
  proof (cases "unat garbage \<le> length addrs")
    case True
    with closes_ok [of clt "unat garbage" k] clt assms(2,3) show ?thesis by simp
  next
    case False
    have "unat (of_nat (length addrs) :: u32) = length addrs" using assms(3) by (rule unat_u32)
    then have "garbage \<noteq> of_nat (length addrs)" using False by auto
    then have "clt_on_close clt = None" using False assms(2) by (simp add: clt_on_close_def clt)
    with False show ?thesis by (cases k) simp_all
  qed
qed

theorem addresses_in_turn_witness:
  "closes 5 \<lparr> rc_addrs = ''abc'', rc_peer = CHR ''a'', rc_curr_index = 0, rc_last_heartbeat = 0, rc_heartbeat_timeout = 3 \<rparr>
    = Some [(True, CHR ''a''), (True, CHR ''b''), (True, CHR ''c''), (False, CHR ''a''), (True, CHR ''b'')]"
proof -
  have c: "rpc_clt_create 0 ''abc'' 3 = Some \<lparr> rc_addrs = ''abc'', rc_peer = CHR ''a'', rc_curr_index = 0, rc_last_heartbeat = 0, rc_heartbeat_timeout = 3 \<rparr>"
    by (simp add: rpc_clt_create_def clt_timeout_def RPC_HEARTBEAT_TIMEOUT_MAX_def RPC_HEARTBEAT_TIMEOUT_MIN_def)
  from addresses_in_turn [OF c, of 5] show ?thesis
    by (simp add: next_address_def upt_rec)
qed

text \<open>The body of a heartbeat as the server reads it.\<close>

lemma le_bytes_2: "le_bytes 2 w = [ucast w, ucast (drop_bit 8 w)]"
  by (simp add: numeral_2_eq_2)

lemma heartbeat_body: "rp_body (heartbeat_pkg t) = [1, 0, 4, 0] @ le_bytes 4 (word_of_int \<lfloor>t * 1000\<rfloor> :: u32)"
    "rp_body_size (heartbeat_pkg t) = 8" "rp_ext_size (heartbeat_pkg t) = 0" "rp_ext (heartbeat_pkg t) = []" "rp_command (heartbeat_pkg t) = RPC_CMD_HEARTBEAT"
  by (simp_all add: heartbeat_pkg_def Let_def packed_to_def pack_uint16_le_def pack_uint32_le_def put_bytes_def RPC_HEARTBEAT_TYPE_TIMEOUT_def le_bytes_2 del: le_bytes.simps)

lemma clt_timeout_range: "2 \<le> clt_timeout cfg" "clt_timeout cfg \<le> 600"
  by (auto simp: clt_timeout_def RPC_HEARTBEAT_TIMEOUT_MAX_def RPC_HEARTBEAT_TIMEOUT_MIN_def RPC_HEARTBEAT_TIMEOUT_DEFAULT_def)

lemma heartbeat_items_body: "heartbeat_items ([1, 0, 4, 0] @ le_bytes 4 (ms :: u32)) info = (0, set_timeout ms info)"
proof -
  have nil: "heartbeat_items [] x = (0, x)" for x by (subst heartbeat_items.simps) simp
  have head: "unpack_uint16_le ([1, 0, 4, 0] @ b) = Some (2, 1, [4, 0] @ b)" "4 \<le> length b \<Longrightarrow> unpack_uint16_le ([4, 0] @ b) = Some (2, 4, b)" for b
    by (simp_all add: unpack_uint16_le_def)
  have ne: "[1, 0, 4, 0] @ b \<noteq> []" for b :: "byte list" by simp
  have le: "take 4 (le_bytes 4 ms) = le_bytes 4 ms" "drop 4 (le_bytes 4 ms) = []" "length (le_bytes 4 ms) = 4" by simp_all
  show ?thesis
    by (subst heartbeat_items.simps, simp only: ne if_False head le order_refl option.case prod.case Let_def) (simp add: le nil del: le_bytes.simps)
qed

text \<open>C15. A client and its server agree on the timeout: whatever the client was configured with, the heartbeat that it sends, packed and
  taken apart again by the server, is accepted and answered, and from then on the server allows it the time after which the client
  itself gives up, up to the last millisecond.\<close>

theorem heartbeat_agreed:
  assumes "rpc_clt_create garbage addrs cfg = Some clt" "clt_on_timer now clt = ClientSend pkg" "rpc_pack pkg = Some data"
  shows "\<exists>info' reply. on_heartbeat now' (recv_pkg (data @ rest)) info = (0, info', Some reply)
    \<and> last_heartbeat info' = now' \<and> heartbeat_timeout info' \<le> rc_heartbeat_timeout clt
    \<and> rc_heartbeat_timeout clt < heartbeat_timeout info' + 1 / 1000
    \<and> (\<forall>data'. rpc_pack reply = Some data' \<longrightarrow> clt_on_recv_pkg now'' data' clt = (None, clt\<lparr>rc_last_heartbeat := now''\<rparr>))"
proof -
  define ms where "ms = \<lfloor>rc_heartbeat_timeout clt * 1000\<rfloor>"
  have range: "2 \<le> rc_heartbeat_timeout clt" "rc_heartbeat_timeout clt \<le> 600"
    using assms(1) clt_timeout_range [of cfg] by (auto simp: rpc_clt_create_def split: list.splits)
  then have ms: "2000 \<le> ms" "ms \<le> 600000" "of_int ms \<le> rc_heartbeat_timeout clt * 1000" "rc_heartbeat_timeout clt * 1000 < of_int ms + 1"
    unfolding ms_def by linarith+
  have pkg: "pkg = heartbeat_pkg (rc_heartbeat_timeout clt)" using assms(2) by (simp add: clt_on_timer_def split: if_splits)
  have len: "length (le_bytes 4 (word_of_int ms :: u32)) = 4" by simp
  let ?r = "recv_pkg (data @ rest)"
  have r: "take (unat (rp_body_size ?r)) (rp_body ?r) = [1, 0, 4, 0] @ le_bytes 4 (word_of_int ms :: u32)" "rp_command ?r = RPC_CMD_HEARTBEAT"
    "rp_ext_size ?r = 0"
    using rpc_decode_pack(3) [OF assms(3), of rest] len
    by (simp_all add: pkg heartbeat_body flip: ms_def del: le_bytes.simps)
  let ?info = "set_timeout (word_of_int ms) (info\<lparr>last_heartbeat := now'\<rparr>)"
  let ?reply = "?r\<lparr>rp_pkg_type := RPC_PKG_TYPE_REPLY, rp_body_size := 0\<rparr>"
  have hb: "on_heartbeat now' ?r info = (0, ?info, Some ?reply)"
    by (simp add: on_heartbeat_def r heartbeat_items_body del: append.simps)
  have "unat (word_of_int ms :: u32) = nat ms" using ms by (simp add: unsigned_of_int take_bit_int_eq_self)
  then have t: "heartbeat_timeout ?info = of_int ms / 1000" "last_heartbeat ?info = now'"
    using ms by (simp_all add: set_timeout_def Let_def RPC_HEARTBEAT_TIMEOUT_MAX_def RPC_HEARTBEAT_TIMEOUT_MIN_def)
  have "clt_on_recv_pkg now'' data' clt = (None, clt\<lparr>rc_last_heartbeat := now''\<rparr>)" if "rpc_pack ?reply = Some data'" for data'
    using rpc_decode_pack(3) [OF that, of "[]"] by (simp add: clt_on_recv_pkg_def r)
  with hb t ms show ?thesis by (auto simp: field_simps)
qed

theorem heartbeat_agreed_witness:
  "\<exists>data info'. rpc_pack (heartbeat_pkg (5 / 2)) = Some data
    \<and> heartbeat_timeout info' \<le> 5 / 2 \<and> 5 / 2 < heartbeat_timeout info' + 1 / 1000
    \<and> (\<exists>reply. on_heartbeat 11 (recv_pkg (data @ [])) \<lparr> last_heartbeat = 1, heartbeat_timeout = 3 \<rparr> = (0, info', Some reply))"
proof -
  let ?clt = "\<lparr> rc_addrs = ''a'', rc_peer = CHR ''a'', rc_curr_index = 0, rc_last_heartbeat = 0, rc_heartbeat_timeout = 5 / 2 \<rparr>"
  have c: "rpc_clt_create 0 ''a'' (5 / 2) = Some ?clt"
    by (simp add: rpc_clt_create_def clt_timeout_def RPC_HEARTBEAT_TIMEOUT_MAX_def RPC_HEARTBEAT_TIMEOUT_MIN_def)
  have s: "clt_on_timer 1 ?clt = ClientSend (heartbeat_pkg (5 / 2))" by (simp add: clt_on_timer_def)
  obtain data where data: "rpc_pack (heartbeat_pkg (5 / 2)) = Some data"
    by (simp add: rpc_pack_def heartbeat_body RPC_PKG_MAX_BODY_SIZE_def Let_def)
  from heartbeat_agreed [OF c s data, of 11 "[]" "\<lparr> last_heartbeat = 1, heartbeat_timeout = 3 \<rparr>" 12] data show ?thesis
    by auto
qed

end
