(* ===== verification/Spec2Isabelle.thy ===== *)
theory Spec2Isabelle
  imports Market_Props Rpc_Props Server_Props Update_Props Load_Props Queue_Props Depth_Props
    Container_Props Slice_Props Kline_Props Price_Server Ws_Props Net_Props Rpc_Client
begin

text \<open>
  A model of the ViaBTC exchange server (\<open>src/viabtc_exchange_server\<close>), its matching engine, its
  market data server and its websocket server, with the theorems that make them correct.

  \<^bold>\<open>The program.\<close> The engine (\<open>matchengine\<close>) is one process with one thread that keeps all balances, the
  order books of all markets and the orders in memory. Requests arrive as packets (\<open>utils/ut_rpc.c\<close>); a
  handler of \<open>me_server.c\<close> checks the JSON parameters and calls the market (\<open>me_market.c\<close>) or the balance
  update (\<open>me_update.c\<close>). Every command that changes the engine is appended to an operation log
  (\<open>me_operlog.c\<close>) that worker threads (\<open>network/nw_job.c\<close>) write to MySQL; orders, deals and balance changes
  are reported to a history database (\<open>me_history.c\<close>) and to Kafka (\<open>me_message.c\<close>). From time to time a
  child process writes a slice, a copy of all orders and balances (\<open>me_persist.c\<close>, \<open>me_dump.c\<close>); a start
  loads the last slice and replays the log behind it (\<open>me_load.c\<close>). The market data server
  (\<open>marketprice\<close>) reads the deals from Kafka, keeps klines (candlesticks) per second, minute, hour and
  day, stores them in redis, and answers queries for charts, deals and prices. Clients talk to the websocket server
  (\<open>accessws\<close>): it forwards their queries to these processes, keeps a table of the requests it waits for
  (\<open>network/nw_state.c\<close>), asks at intervals for what its sessions have subscribed to and sends them what has changed;
  a session that logs in by an external service gets the reports about its own orders and balances, from Kafka.

  \<^bold>\<open>Theories and code.\<close>
  \<^item> \<open>Prelude\<close>: word types, the association-list view \<open>dict_view\<close> of a hash table, decimal numerals.
  \<^item> \<open>Decimal\<close>: \<open>ut_decimal.c\<close>. libmpdec is a record \<open>mpd_lib\<close>; \<open>mpd_laws\<close> states its documented behaviour
    (34 digits, rounding towards zero) with a valuation \<open>val\<close> into the rationals. \<open>Exact_Decimal\<close> is an
    instance that computes, on which the witnesses run.
  \<^item> \<open>Json\<close>, \<open>Text\<close>: JSON values, the jansson accessors, \<open>printf\<close>; \<open>text_lib\<close> stands for what turns JSON into
    text and back and escapes SQL, \<open>time_lib\<close> for \<open>localtime\<close> and \<open>mktime\<close>.
  \<^item> \<open>Dict\<close>, \<open>Dict_Facts\<close>: \<open>ut_dict.c\<close>, the table of chains with growth and lazy clearing, refining a map; the
    locale \<open>dict_keys\<close> (hash and comparison of a key type) is interpreted on the key types of the engine.
  \<^item> \<open>Skiplist\<close>, \<open>Skiplist_Facts\<close>: \<open>ut_skiplist.c\<close>, nodes at addresses with forward pointers, refining the
    ordered list of \<open>Ordered_List\<close>, whose locale \<open>ordered_by\<close> (a comparison that orders a carrier) is
    interpreted in \<open>Order\<close> on the price-time order of the books and on the id order of a user's list.
  \<^item> \<open>Balance\<close>, \<open>Balance_Facts\<close>: \<open>me_balance.c\<close>; the locale \<open>ledger\<close> is its contract.
  \<^item> \<open>Order\<close>, \<open>History\<close>, \<open>Market\<close>, \<open>Matching\<close>: orders, reports, and \<open>me_market.c\<close>: the books, the four matching
    loops, placing and cancelling. \<open>Book_Facts\<close>, \<open>Ledger_Facts\<close>, \<open>Fill_Facts\<close>, \<open>Runs\<close>, \<open>Market_Facts\<close>,
    \<open>Replay_Facts\<close>, \<open>Frame_Facts\<close> hold the invariant, the effect of one fill, the induction rules of the
    loops, the priority of the matching, the equality of a replay, and what the operations leave alone.
  \<^item> \<open>Update\<close>, \<open>Trade\<close>, \<open>Config\<close>: \<open>me_update.c\<close>, \<open>me_trade.c\<close>, \<open>me_config.c\<close> and \<open>ut_config.c\<close>.
  \<^item> \<open>Job\<close>, \<open>Operlog\<close>, \<open>Sql_History\<close>, \<open>Message_Queue\<close>: \<open>nw_job.c\<close> as a step relation, \<open>me_operlog.c\<close>, the SQL of
    \<open>me_history.c\<close>, the queue of \<open>me_message.c\<close>.
  \<^item> \<open>Load\<close>, \<open>Slice\<close>, \<open>Slice_Facts\<close>: \<open>me_load.c\<close>, \<open>me_dump.c\<close>, \<open>me_persist.c\<close>. MySQL is a record \<open>mysql_lib\<close>: what
    a statement does to a database and what the queries answer; \<open>slice_laws\<close> states what a database that serves the program
    (\<open>installed\<close>) does with the statements on the tables of a slice, and how \<open>DECIMAL\<close> columns round (\<open>dec_round\<close>).
  \<^item> \<open>Pack\<close>, \<open>Rpc\<close>, \<open>Rpc_Facts\<close>: \<open>ut_pack.c\<close>, \<open>ut_crc32.c\<close>, \<open>ut_rpc.c\<close>, \<open>ut_rpc_svr.c\<close>.
  \<^item> \<open>Server\<close>, \<open>Order_Commands\<close>, \<open>Dispatch\<close>: \<open>me_server.c\<close>. \<open>Server_Facts\<close>, \<open>Server_Inv\<close>: what a command logs
    and keeps; the step relation of a running server.
  \<^item> \<open>Kline\<close>, \<open>Kline_Query\<close>, \<open>Kline_Store\<close>, \<open>Price_Server\<close>: \<open>mp_kline.c\<close>, \<open>mp_message.c\<close> and \<open>mp_server.c\<close> of the
    market data: the state and the deals, the queries, redis (a record \<open>redis_lib\<close>), the commands.
    \<open>Kline_Facts\<close>: candles, and how merging klines merges candles.
  \<^item> \<open>Nw_State\<close>, \<open>Nw_State_Facts\<close>: \<open>nw_state.c\<close>, the table of pending requests; the locale \<open>request_table\<close> is what the
    servers rely on: an id stays with its request until it is deleted.
  \<^item> \<open>Ws_Base\<close>, \<open>Ws_Depth\<close>, \<open>Ws_Kline\<close>, \<open>Ws_State\<close>, \<open>Ws_Price\<close>, \<open>Ws_User\<close>, \<open>Ws_Auth\<close>, \<open>Ws_Server\<close>: the files
    \<open>aw_*.c\<close> of \<open>accessws\<close>, one state record each, extending the one before. \<open>Ws_Facts\<close>: broadcasts, and the locale
    \<open>subscription_table\<close>, interpreted on the six public streams. \<open>Ws_Run\<close>: the server as a step relation and the invariant of the
    private streams. \<open>Ws_Depth_Facts\<close>: a client of the depth stream and the algebra of depth differences.
  \<^item> \<open>Net_Buf\<close>, \<open>Net_Ses\<close>: \<open>nw_buf.c\<close>, the buffers of a connection, their pool and lists; \<open>nw_ses.c\<close>, reading, writing and closing
    of a connection, with the callbacks of \<open>nw_svr.c\<close>. \<open>Net_Write_Facts\<close>, \<open>Net_Read_Facts\<close>: both directions of a stream; the locale
    \<open>closing\<close> (an error closes the connection) is interpreted on the servers, \<open>framing\<close> (a decoder of packets) on \<open>rpc_decode\<close>.
  \<^item> \<open>Rpc_Client\<close>: \<open>ut_rpc_clt.c\<close>, the heartbeats of a client and its addresses.
  \<^item> The theories \<open>*_Props\<close> hold the properties, each with a witness on a concrete input; \<open>Examples\<close> is the
    engine the witnesses use.

  \<^bold>\<open>How state and operations are modelled.\<close> The globals of a file are a record that extends those of the
  files it uses (\<open>balance_state\<close>, \<open>market_state\<close>, \<open>trade_state\<close>, \<open>operlog_state\<close>, \<open>server_state\<close>; \<open>price_state\<close>,
  \<open>mp_server_state\<close>); an operation takes the record and returns it changed. A result code is an \<open>int\<close>, where
  the code has \<open>-__LINE__\<close> it is that line. An operation whose result is an \<open>option\<close> is \<open>None\<close> exactly where the
  code does not come back with a defined state: an endless loop, a dangling pointer, a \<open>NULL\<close> string, a text that is escaped
  into a buffer too small for it (10240 bytes in \<open>flush_log\<close> and \<open>append_user_balance\<close>). Machine
  integers are words; lengths are numbers without a bound, so the \<open>int\<close> counts of \<open>nw_ses.c\<close> are meant for packets below \<open>2 ^ 31\<close> bytes, and
  the keys of klines are compared as times, where \<open>mp_message.c\<close> truncates their difference to 32 bits. Orders live in a heap \<open>m_orders\<close> from ids to records, and the books hold ids. The readings of the clock are
  a sequence, the answers of Kafka are a sequence, the drawings of \<open>random\<close> are a sequence: the theorems hold for all of them.
  A \<open>double\<close> that holds a time is a rational number. Memory never runs out; logging is not modelled.

  \<^bold>\<open>Bounds, fuel and loops.\<close> The model has no fuel. Loops over a list are structural; loops that count are
  functions with a measure (\<open>load_days\<close>, \<open>next_base\<close>, \<open>get_last_kline\<close>); loops that may not end are \<open>partial_function\<close>s, and
  the properties about them prove that they return (\<open>market_order_returns\<close>, \<open>load_operlog_whole_table\<close>,
  \<open>book_skiplist_refines_set\<close>), or that they do not (\<open>market_bid_nan_loops\<close>). The dictionary property is about fewer than
  \<open>2 ^ 32\<close> operations, so that its size, a 32-bit number, does not wrap around; a table of pending requests holds fewer than \<open>2 ^ 30\<close>
  entries, so that its table can still grow by a factor of four.

  \<^bold>\<open>What the properties show.\<close>
  \<^item> Matching: the invariant of a market, priority within the limit, conservation of value, cancelling, termination of market orders,
    and two defects (a bid whose fee is not covered creates money; an amount of NaN loops).
  \<^item> Containers: the hash table refines a map, the skiplist of a book an ordered set.
  \<^item> Server: a running server stays well-formed, and the log can be flushed exactly when its texts fit the buffer; only logged commands change the engine, never while a queue is full;
    what a command logs replays to the same engine; balance updates are applied once, up to the padding of their keys.
  \<^item> Persistence: the log is loaded completely and without a gap; a slice is read back as it was written, rounded to
    the decimals of its columns (an asset that \<open>config.json\<close> saves with 20 decimals has 16 after a restart); failed inserts go unnoticed.
  \<^item> Queues: order of execution, of messages and of batches; every waiting message is delivered in the end.
  \<^item> Packets: they arrive in order, once and unchanged, however the kernel cuts the streams; the checksum, the heartbeat and its bounds, the
    addresses of a client; and two defects (a size that wraps, packets that are dropped on a packet connection).
  \<^item> Websockets: private streams only reach their owner; what the engine reports of an order reaches its subscribers; a
    client that applies the depth differences has the book; a reply goes to the session that asked; prices go to their subscribers;
    and two defects (a closed session stays subscribed to states; deals are sent twice when queries overlap).
  \<^item> Market data: the message of a deal is understood; the klines are the candles of the deals; a chart has the right rows.

  \<^bold>\<open>Hypotheses about code outside the repository\<close> are \<open>mpd_laws\<close> (libmpdec), \<open>text_ok\<close> and the equations on \<open>json_dumps\<close> and
  \<open>json_loadb\<close> (jansson), \<open>slice_laws\<close> (MySQL), \<open>denotes\<close> (a decimal's text is read as its number). Each is met by a concrete instance in a witness.

  \<^bold>\<open>Not modelled.\<close> The HTTP access server (\<open>accesshttp\<close>), the history reader (\<open>readhistory\<close>), the alert
  center, the listeners and the command lines of the processes (\<open>*_listener.c\<close>, \<open>*_cli.c\<close>, \<open>*_main.c\<close>); the event loop and timers of \<open>network\<close>,
  and what sets up a socket: the theories of the servers record what a session is sent; the clients of Kafka, redis, HTTP and MySQL in \<open>utils\<close>, the log, the string library
  \<open>ut_sds.c\<close> and the list \<open>ut_list.c\<close> (lists are used as lists); the parsers of socket addresses in
  \<open>ut_config.c\<close>; vendored code (\<open>depends\<close>, \<open>http_parser.c\<close>); scripts, SQL files and tests.
\<close>

end
